(* ===== verification/Prelude.thy ===== *)
theory Prelude
  imports Complex_Main "HOL-Library.Sublist"
begin

text \<open>
  Shared vocabulary of the development.

  Times are \<^typ>\<open>int\<close> counts of microseconds since the epoch, which is the resolution of
  Python's \<open>datetime\<close> and \<open>timedelta\<close>. Python floats are modelled by \<^typ>\<open>real\<close>: the
  arithmetic is exact, rounding of IEEE doubles is outside the model. Python integers are
  unbounded and are \<^typ>\<open>int\<close> (or \<^typ>\<open>nat\<close> for counts that start at zero and only grow).
  Strings are \<^typ>\<open>string\<close>.

  A raised exception is the left summand of \<open>'a res\<close>. The hash functions and the formatting of
  time stamps are functions of an environment record, so that no theorem depends on a
  particular digest.
\<close>

section \<open>Named collections\<close>

named_theorems risk_bounds \<open>bounds of scores and confidences\<close>
named_theorems frame_simps \<open>fields an operation leaves unchanged\<close>

section \<open>Types\<close>

type_synonym datetime = int
type_synonym timedelta = int
type_synonym uuid = string

datatype py_exn =
    ValueError string
  | KeyError string
  | TypeError string
  | RuntimeError string
  | TimeoutError string
  | IntegrityError string
  | ZeroDivisionError
  | ValidationError string
  | InvalidCampaignTransition string string
  | CircuitOpenError string
  | AttributeError string
  | IndexError string
  | CancelledError

type_synonym 'a res = "py_exn + 'a"

text \<open>\<open>except Exception\<close> catches every exception but a task cancellation, which is a
  \<open>BaseException\<close>.\<close>

definition caught :: "py_exn \<Rightarrow> bool" where
  "caught e \<longleftrightarrow> e \<noteq> CancelledError"

text \<open>The part of the Python run time the code relies on but whose result is opaque:
  \<open>uuid5(NAMESPACE_URL, name)\<close>, \<open>sha256(...).hexdigest()\<close>, \<open>isoformat\<close> and \<open>str\<close> of a time stamp.\<close>

record py_env =
  env_uuid5 :: "string \<Rightarrow> uuid"
  env_sha256 :: "string \<Rightarrow> string"
  env_isoformat :: "datetime \<Rightarrow> string"
  env_str_datetime :: "datetime \<Rightarrow> string"

definition seconds :: "int \<Rightarrow> timedelta" where
  "seconds n = 1000000 * n"

lemma seconds_0 [simp]: "seconds 0 = 0"
  by (simp add: seconds_def)

lemma seconds_less_iff [simp]: "seconds a < seconds b \<longleftrightarrow> a < b"
  by (simp add: seconds_def)

lemma seconds_le_iff [simp]: "seconds a \<le> seconds b \<longleftrightarrow> a \<le> b"
  by (simp add: seconds_def)

lemma seconds_nonneg_iff [simp]: "0 \<le> seconds a \<longleftrightarrow> 0 \<le> a"
  by (simp add: seconds_def)

definition total_seconds :: "timedelta \<Rightarrow> real" where
  "total_seconds d = real_of_int d / 1000000"

lemma total_seconds_mono: "a \<le> b \<Longrightarrow> total_seconds a \<le> total_seconds b"
  by (simp add: total_seconds_def divide_right_mono)

lemma total_seconds_nonneg: "0 \<le> d \<Longrightarrow> 0 \<le> total_seconds d"
  by (simp add: total_seconds_def)

lemma total_seconds_seconds [simp]: "total_seconds (seconds n) = real_of_int n"
  by (simp add: total_seconds_def seconds_def)

section \<open>Optional numbers and clamping\<close>

text \<open>\<open>x or 0.0\<close> on an optional float.\<close>

definition or_zero :: "real option \<Rightarrow> real" where
  "or_zero x = (case x of None \<Rightarrow> 0 | Some v \<Rightarrow> v)"

lemma or_zero_simps [simp]: "or_zero None = 0" "or_zero (Some v) = v"
  by (simp_all add: or_zero_def)

text \<open>\<open>max(0.0, min(1.0, value))\<close>.\<close>

definition clamp :: "real \<Rightarrow> real" where
  "clamp v = max 0 (min 1 v)"

definition unit_range :: "real \<Rightarrow> bool" where
  "unit_range v \<longleftrightarrow> 0 \<le> v \<and> v \<le> 1"

definition opt_unit :: "real option \<Rightarrow> bool" where
  "opt_unit x = (case x of None \<Rightarrow> True | Some v \<Rightarrow> unit_range v)"

lemma opt_unit_simps [simp]: "opt_unit None" "opt_unit (Some v) = unit_range v"
  by (simp_all add: opt_unit_def)

lemma unit_rangeI [intro]: "0 \<le> v \<Longrightarrow> v \<le> 1 \<Longrightarrow> unit_range v"
  by (simp add: unit_range_def)

lemma unit_rangeD: "unit_range v \<Longrightarrow> 0 \<le> v" "unit_range v \<Longrightarrow> v \<le> 1"
  by (simp_all add: unit_range_def)

lemma unit_range_numeral [simp]: "unit_range 0" "unit_range 1"
  by (simp_all add: unit_range_def)

lemma clamp_unit [simp, risk_bounds]: "unit_range (clamp v)"
  by (simp add: clamp_def unit_range_def)

lemma clamp_bounds [simp]: "0 \<le> clamp v" "clamp v \<le> 1"
  by (simp_all add: clamp_def)

lemma clamp_id [simp]: "unit_range v \<Longrightarrow> clamp v = v"
  by (simp add: clamp_def unit_range_def)

lemma clamp_mono: "v \<le> w \<Longrightarrow> clamp v \<le> clamp w"
  by (auto simp: clamp_def)

lemma opt_unit_or_zero: "opt_unit x \<Longrightarrow> unit_range (or_zero x)"
  by (cases x) auto

lemma unit_range_max: "unit_range a \<Longrightarrow> unit_range b \<Longrightarrow> unit_range (max a b)"
  by (auto simp: unit_range_def)

lemma unit_range_min: "unit_range a \<Longrightarrow> unit_range b \<Longrightarrow> unit_range (min a b)"
  by (auto simp: unit_range_def)

lemma unit_range_mult: "unit_range a \<Longrightarrow> unit_range b \<Longrightarrow> unit_range (a * b)"
  by (auto simp: unit_range_def intro: mult_le_one)

lemma unit_range_compl: "unit_range a \<Longrightarrow> unit_range (1 - a)"
  by (simp add: unit_range_def)

text \<open>A weighted mean of numbers in the unit interval lies in the unit interval; the weighted
  scores of several components have this shape.\<close>

lemma weighted_sum_bounds:
  fixes f w :: "'a \<Rightarrow> real"
  assumes "\<And>x. x \<in> set xs \<Longrightarrow> unit_range (f x)" "\<And>x. x \<in> set xs \<Longrightarrow> 0 \<le> w x"
  shows "0 \<le> (\<Sum>x\<leftarrow>xs. f x * w x) \<and> (\<Sum>x\<leftarrow>xs. f x * w x) \<le> (\<Sum>x\<leftarrow>xs. w x)"
  using assms
proof (induction xs)
  case Nil
  then show ?case by simp
next
  case (Cons x xs)
  then have "0 \<le> f x * w x" "f x * w x \<le> w x"
    by (auto simp: unit_range_def mult_left_le_one_le)
  moreover have "0 \<le> (\<Sum>x\<leftarrow>xs. f x * w x) \<and> (\<Sum>x\<leftarrow>xs. f x * w x) \<le> (\<Sum>x\<leftarrow>xs. w x)"
    using Cons by simp
  ultimately show ?case by simp
qed

lemma weighted_mean_unit:
  fixes f w :: "'a \<Rightarrow> real"
  assumes "\<And>x. x \<in> set xs \<Longrightarrow> unit_range (f x)" "\<And>x. x \<in> set xs \<Longrightarrow> 0 \<le> w x"
  shows "unit_range ((\<Sum>x\<leftarrow>xs. f x * w x) / (\<Sum>x\<leftarrow>xs. w x))"
proof (cases "(\<Sum>x\<leftarrow>xs. w x) = 0")
  case True
  then show ?thesis by simp
next
  case False
  with weighted_sum_bounds [of xs f w] assms show ?thesis
    by (auto simp: unit_range_def divide_le_eq_1)
qed

lemma sum_list_map_pos:
  fixes f :: "'a \<Rightarrow> real"
  assumes "xs \<noteq> []" "\<And>x. x \<in> set xs \<Longrightarrow> 0 < f x"
  shows "0 < (\<Sum>x\<leftarrow>xs. f x)"
  using assms
proof (induction xs)
  case Nil
  then show ?case by simp
next
  case (Cons x xs)
  then show ?case by (cases "xs = []") (auto intro: add_pos_pos)
qed

section \<open>Decimal rendering\<close>

text \<open>\<open>str(n)\<close> for a Python integer.\<close>

definition digit :: "nat \<Rightarrow> char" where
  "digit n = char_of (48 + n)"

fun show_nat :: "nat \<Rightarrow> string" where
  "show_nat n = (if n < 10 then [digit n] else show_nat (n div 10) @ [digit (n mod 10)])"

declare show_nat.simps [simp del]

definition show_int :: "int \<Rightarrow> string" where
  "show_int i = (if i < 0 then ''-'' @ show_nat (nat (- i)) else show_nat (nat i))"

definition join :: "string \<Rightarrow> string list \<Rightarrow> string" where
  "join sep xs = (case xs of [] \<Rightarrow> [] | x # ys \<Rightarrow> x @ concat (map (\<lambda>y. sep @ y) ys))"

text \<open>An environment to build examples with.\<close>

definition sample_env :: py_env where
  "sample_env = \<lparr>env_uuid5 = (\<lambda>s. s), env_sha256 = (\<lambda>s. s), env_isoformat = show_int,
     env_str_datetime = show_int\<rparr>"

text \<open>\<open>round(x, n)\<close>: to the nearest multiple of \<open>10\<^sup>-\<^sup>n\<close>, to the even one half way between two.\<close>

definition round_even :: "real \<Rightarrow> int" where
  "round_even x = (let f = floor x; d = x - of_int f
     in if d < 1 / 2 then f else if d > 1 / 2 then f + 1 else if even f then f else f + 1)"

definition round_to :: "nat \<Rightarrow> real \<Rightarrow> real" where
  "round_to n x = of_int (round_even (x * 10 ^ n)) / 10 ^ n"

lemma round_even_ge: "of_int k \<le> x \<Longrightarrow> k \<le> round_even x"
proof -
  assume "of_int k \<le> x"
  then have "k \<le> floor x" by (simp add: le_floor_iff)
  then show ?thesis by (simp add: round_even_def Let_def)
qed

lemma round_even_le: "x \<le> of_int k \<Longrightarrow> round_even x \<le> k"
proof -
  assume "x \<le> of_int k"
  then have "floor x \<le> k" by (simp add: floor_le_iff)
  show ?thesis
  proof (cases "floor x = k")
    case True
    with \<open>x \<le> of_int k\<close> have "x - of_int (floor x) \<le> 0" by simp
    then show ?thesis using True by (simp add: round_even_def Let_def)
  next
    case False
    with \<open>floor x \<le> k\<close> show ?thesis by (auto simp: round_even_def Let_def)
  qed
qed

lemma round_to_unit: "unit_range x \<Longrightarrow> unit_range (round_to n x)"
proof -
  assume x: "unit_range x"
  then have "of_int 0 \<le> x * 10 ^ n" "x * 10 ^ n \<le> of_int (10 ^ n)"
    by (simp_all add: unit_range_def mult_le_cancel_right2)
  then have "0 \<le> round_even (x * 10 ^ n)" "round_even (x * 10 ^ n) \<le> 10 ^ n"
    by (intro round_even_ge round_even_le; simp)+
  then have "0 \<le> real_of_int (round_even (x * 10 ^ n))" "real_of_int (round_even (x * 10 ^ n)) \<le> 10 ^ n"
    by (simp, metis of_int_le_iff of_int_numeral of_int_power)
  then show ?thesis by (simp add: round_to_def unit_range_def divide_le_eq_1)
qed

lemma round_to_nonneg: "0 \<le> x \<Longrightarrow> 0 \<le> round_to n x"
  using round_even_ge [of 0 "x * 10 ^ n"] by (simp add: round_to_def)

section \<open>Exceptions\<close>

definition is_ok :: "'a res \<Rightarrow> bool" where
  "is_ok r = (case r of Inl _ \<Rightarrow> False | Inr _ \<Rightarrow> True)"

lemma is_ok_simps [simp]: "is_ok (Inr x)" "\<not> is_ok (Inl e)"
  by (simp_all add: is_ok_def)

lemma is_ok_iff: "is_ok r \<longleftrightarrow> (\<exists>x. r = Inr x)"
  by (cases r) auto

section \<open>Lists sorted by a key\<close>

lemma fold_append_map: "fold (\<lambda>x acc. acc @ [f x]) xs ys = ys @ map f xs"
  by (induction xs arbitrary: ys) auto

lemma sorted_list_of_set_filter_mem:
  "finite A \<Longrightarrow> x \<in> set (sorted_list_of_set A) \<longleftrightarrow> x \<in> A"
  by simp

end
