(* ===== verification/Feature_Schema.thy ===== *)
theory Feature_Schema
  imports Prelude
begin

text \<open>
  The data model of feature snapshots (\<open>features/schemas.py\<close>,
  \<open>feature_manifests/surveillance-features-v2.yaml\<close>): the ordered feature names, the snapshot
  record with its lineage, and the validator that pydantic runs on every snapshot.
  A feature dictionary is an association list from names to optional numbers, in insertion
  order and with distinct keys.
\<close>

type_synonym features = "(string \<times> real option) list"

definition FEATURE_NAMES :: "string list" where
  "FEATURE_NAMES =
    [''price_return'', ''volume'', ''relative_volume'', ''volatility'', ''spread'',
     ''top_n_depth'', ''orderbook_imbalance'', ''orderbook_valid'', ''trade_count'',
     ''buy_sell_pressure'', ''market_data_freshness_seconds'', ''market_source_active'',
     ''market_source_idle'', ''market_source_degraded'', ''mention_count'',
     ''unique_author_count'', ''author_concentration'', ''repost_reply_ratio'',
     ''hashtag_velocity'', ''url_concentration'', ''new_author_ratio'',
     ''social_data_freshness_seconds'', ''social_source_active'', ''social_source_idle'',
     ''social_source_degraded'', ''social_lead_seconds'', ''source_gap_count'',
     ''data_quality_score'', ''baseline_confidence'']"

definition FEATURE_SCHEMA_NAME :: string where
  "FEATURE_SCHEMA_NAME = ''surveillance-features-v2''"

text \<open>\<open>FeatureSchemaManifest.schema_hash\<close> of the registered manifest, the SHA-256 digest of its
  serialization.\<close>

definition FEATURE_SCHEMA_HASH :: string where
  "FEATURE_SCHEMA_HASH = ''9570e300ebfc24fffb7c2abaa025e0cdce1627f101ca57dc6097fb426afac540''"

datatype signal_kind =
  sk_market_trade | sk_market_candle | sk_orderbook | sk_social_post | sk_asset_mention
  | sk_data_quality

datatype source_domain = sd_market | sd_social

datatype revision_state = rs_provisional | rs_final | rs_corrected

record feature_lineage =
  fl_lineage_id :: uuid
  fl_source_event_ids :: "string list"
  fl_source_event_min_time :: "datetime option"
  fl_source_event_max_time :: "datetime option"
  fl_source_count :: nat
  fl_source_hash :: string

record feature_snapshot =
  fs_feature_window_id :: uuid
  fs_scope_id :: string
  fs_asset_id :: string
  fs_window_start :: datetime
  fs_window_end :: datetime
  fs_interval_seconds :: int
  fs_revision :: nat
  fs_is_final :: bool
  fs_revision_state :: revision_state
  fs_supersedes_revision :: "nat option"
  fs_feature_schema_version :: string
  fs_feature_schema_hash :: string
  fs_features :: features
  fs_lineage :: feature_lineage

text \<open>
  \<open>FeatureSnapshot.feature_order_matches_schema\<close>. The
  field bounds \<open>revision >= 1\<close> and \<open>supersedes_revision >= 1\<close> are checked first. An accepted
  snapshot comes back with its features in the registered order.
\<close>

definition reorder_features :: "features \<Rightarrow> features" where
  "reorder_features fs = map (\<lambda>n. (n, the (map_of fs n))) FEATURE_NAMES"

definition feature_order_matches_schema :: "feature_snapshot \<Rightarrow> feature_snapshot res" where
  "feature_order_matches_schema s =
    (if fs_revision s < 1 then Inl (ValidationError ''revision'')
     else if fs_supersedes_revision s = Some 0 then Inl (ValidationError ''supersedes_revision'')
     else if length (fs_features s) \<noteq> length FEATURE_NAMES \<or>
             set (map fst (fs_features s)) \<noteq> set FEATURE_NAMES
       then Inl (ValidationError ''feature names are missing or extra'')
     else if fs_feature_schema_version s \<noteq> FEATURE_SCHEMA_NAME
       then Inl (ValidationError ''feature schema version does not match the registered manifest'')
     else if fs_feature_schema_hash s \<noteq> FEATURE_SCHEMA_HASH
       then Inl (ValidationError ''feature schema hash does not match the registered manifest'')
     else if fs_is_final s \<noteq> (fs_revision_state s \<noteq> rs_provisional)
       then Inl (ValidationError ''is_final and revision_state disagree'')
     else if fs_revision_state s = rs_corrected \<and> fs_supersedes_revision s = None
       then Inl (ValidationError ''corrected revisions must identify the superseded revision'')
     else Inr (s\<lparr>fs_features := reorder_features (fs_features s)\<rparr>))"

text \<open>The snapshots the validator returns.\<close>

definition valid_snapshot :: "feature_snapshot \<Rightarrow> bool" where
  "valid_snapshot s \<longleftrightarrow>
     1 \<le> fs_revision s \<and> fs_supersedes_revision s \<noteq> Some 0 \<and>
     map fst (fs_features s) = FEATURE_NAMES \<and>
     fs_feature_schema_version s = FEATURE_SCHEMA_NAME \<and>
     fs_feature_schema_hash s = FEATURE_SCHEMA_HASH \<and>
     (fs_is_final s \<longleftrightarrow> fs_revision_state s \<noteq> rs_provisional) \<and>
     (fs_revision_state s = rs_corrected \<longrightarrow> fs_supersedes_revision s \<noteq> None)"

lemma distinct_FEATURE_NAMES [simp]: "distinct FEATURE_NAMES"
  by (simp add: FEATURE_NAMES_def)

lemma reorder_features_keys [simp]: "map fst (reorder_features fs) = FEATURE_NAMES"
  by (simp add: reorder_features_def comp_def)

lemma reorder_features_lookup:
  assumes "set (map fst fs) = set FEATURE_NAMES"
  shows "map_of (reorder_features fs) n = map_of fs n"
proof (cases "n \<in> set FEATURE_NAMES")
  case True
  then obtain v where "map_of fs n = Some v"
    using assms by (metis list.set_map map_of_eq_None_iff option.exhaust)
  with True show ?thesis
    by (simp add: reorder_features_def map_of_map_keys [symmetric] map_of_map_restrict)
next
  case False
  then show ?thesis
    using assms by (metis list.set_map map_of_eq_None_iff reorder_features_keys)
qed

lemma feature_order_valid:
  assumes "feature_order_matches_schema s = Inr t"
  shows "valid_snapshot t"
  using assms
  by (auto simp: feature_order_matches_schema_def valid_snapshot_def simp del: One_nat_def
      split: if_splits)

lemma reorder_features_id:
  assumes "map fst fs = FEATURE_NAMES"
  shows "reorder_features fs = fs"
proof -
  have "distinct (map fst fs)" using assms by simp
  then have "map (\<lambda>n. (n, the (map_of fs n))) (map fst fs) = fs"
    by (auto intro!: map_idI simp: comp_def)
  then show ?thesis by (simp add: reorder_features_def assms)
qed

lemma valid_snapshot_feature:
  assumes "valid_snapshot s" "n \<in> set FEATURE_NAMES"
  obtains v where "map_of (fs_features s) n = Some v"
  using assms unfolding valid_snapshot_def
  by (metis list.set_map map_of_eq_None_iff option.exhaust)

text \<open>\<open>snapshot.features[name]\<close>: a missing key raises.\<close>

definition feature_item :: "features \<Rightarrow> string \<Rightarrow> (real option) res" where
  "feature_item fs n = (case map_of fs n of None \<Rightarrow> Inl (KeyError n) | Some v \<Rightarrow> Inr v)"

lemma valid_feature_item:
  assumes "valid_snapshot s" "n \<in> set FEATURE_NAMES"
  shows "\<exists>v. feature_item (fs_features s) n = Inr v"
  by (rule valid_snapshot_feature [OF assms]) (simp add: feature_item_def)

text \<open>\<open>features.get(name)\<close>: a missing key and a null value are both \<open>None\<close>.\<close>

definition feature_get :: "features \<Rightarrow> string \<Rightarrow> real option" where
  "feature_get fs n = (case map_of fs n of None \<Rightarrow> None | Some v \<Rightarrow> v)"

text \<open>\<open>detectors._number\<close>: missing and null features count as zero.\<close>

definition number :: "features \<Rightarrow> string \<Rightarrow> real" where
  "number fs n = (case feature_get fs n of None \<Rightarrow> 0 | Some v \<Rightarrow> v)"

lemma number_or_zero: "number fs n = or_zero (feature_get fs n)"
  by (simp add: number_def or_zero_def)

section \<open>Model input\<close>

record model_input =
  mi_feature_schema_version :: string
  mi_feature_schema_hash :: string
  mi_feature_names :: "string list"
  mi_values :: "real option list"

definition validate_exact_schema :: "model_input \<Rightarrow> model_input res" where
  "validate_exact_schema m =
    (if mi_feature_names m \<noteq> FEATURE_NAMES
     then Inl (ValidationError ''model input feature order does not match the registered schema'')
     else if length (mi_values m) \<noteq> length FEATURE_NAMES
     then Inl (ValidationError ''model input value count does not match feature count'')
     else if mi_feature_schema_hash m \<noteq> FEATURE_SCHEMA_HASH
     then Inl (ValidationError ''model input schema hash does not match the registered schema'')
     else Inr m)"

text \<open>The list comprehension \<open>[features[name] for name in names]\<close>, which raises at the first
  missing name.\<close>

fun feature_items :: "features \<Rightarrow> string list \<Rightarrow> real option list res" where
  "feature_items fs [] = Inr []"
| "feature_items fs (n # ns) =
     (case feature_item fs n of Inl e \<Rightarrow> Inl e
      | Inr v \<Rightarrow> (case feature_items fs ns of Inl e \<Rightarrow> Inl e | Inr vs \<Rightarrow> Inr (v # vs)))"

definition from_snapshot :: "feature_snapshot \<Rightarrow> model_input res" where
  "from_snapshot s =
    (case feature_items (fs_features s) FEATURE_NAMES of
       Inl e \<Rightarrow> Inl e
     | Inr vs \<Rightarrow> validate_exact_schema
         \<lparr>mi_feature_schema_version = fs_feature_schema_version s,
          mi_feature_schema_hash = fs_feature_schema_hash s,
          mi_feature_names = FEATURE_NAMES, mi_values = vs\<rparr>)"

lemma feature_items_map:
  assumes "distinct (map fst fs)" "set ns \<subseteq> set fs"
  shows "feature_items fs (map fst ns) = Inr (map snd ns)"
  using assms(2)
proof (induction ns)
  case (Cons p ns)
  then have "map_of fs (fst p) = Some (snd p)"
    using assms(1) by (simp add: map_of_is_SomeI)
  with Cons show ?case by (simp add: feature_item_def)
qed simp

text \<open>The model input of a validated snapshot holds its features in order.\<close>

lemma from_valid_snapshot:
  assumes "valid_snapshot s"
  shows "\<exists>m. from_snapshot s = Inr m \<and> zip (mi_feature_names m) (mi_values m) = fs_features s"
proof -
  have keys: "map fst (fs_features s) = FEATURE_NAMES"
    using assms by (simp add: valid_snapshot_def)
  then have "feature_items (fs_features s) FEATURE_NAMES = Inr (map snd (fs_features s))"
    using feature_items_map [of "fs_features s" "fs_features s"] by simp
  moreover have "length (map snd (fs_features s)) = length FEATURE_NAMES"
    using keys by (metis length_map)
  ultimately show ?thesis
    using assms zip_map_fst_snd [of "fs_features s"]
    by (simp add: from_snapshot_def validate_exact_schema_def valid_snapshot_def keys [symmetric])
qed

end
