(* ===== verification/Detectors.thy ===== *)
theory Detectors
  imports Feature_Schema
begin

text \<open>
  The baseline detectors of \<open>intelligence/detectors.py\<close>. Each detector maps a feature snapshot
  to an output whose score is absent, with a reason, when the features it needs are missing,
  and lies in the unit interval otherwise. The classifiers of market regime and liquidity and
  the peer baseline follow.
\<close>

datatype missing_reason =
    mr_source_unavailable | mr_source_idle | mr_source_degraded | mr_insufficient_history
  | mr_no_observations | mr_not_provided | mr_invalid_orderbook | mr_insufficient_peer_data | mr_not_ready
  | mr_qdrant_degraded | mr_neo4j_degraded | mr_no_narrative | mr_no_claim | mr_insufficient_graph
  | mr_verification_unknown | mr_timeout

record detector_output =
  do_name :: string
  do_score :: "real option"
  do_model_version :: string
  do_reason :: string
  do_missing_reason :: "missing_reason option"

definition detector_output ::
    "string \<Rightarrow> real option \<Rightarrow> string \<Rightarrow> string \<Rightarrow> missing_reason option \<Rightarrow> detector_output" where
  "detector_output n s v r m =
     \<lparr>do_name = n, do_score = s, do_model_version = v, do_reason = r, do_missing_reason = m\<rparr>"

lemma detector_output_sel [simp]:
  "do_name (detector_output n s v r m) = n" "do_score (detector_output n s v r m) = s"
  "do_model_version (detector_output n s v r m) = v" "do_reason (detector_output n s v r m) = r"
  "do_missing_reason (detector_output n s v r m) = m"
  by (simp_all add: detector_output_def)

definition available :: "detector_output \<Rightarrow> bool" where
  "available d \<longleftrightarrow> do_score d \<noteq> None"

section \<open>Market anomaly\<close>

definition market_version :: string where "market_version = ''market-grouped-baseline-v2''"

definition market_base_groups :: "features \<Rightarrow> (string \<times> real \<times> real) list" where
  "market_base_groups fs =
    [(''direction'', clamp (\<bar>number fs ''price_return''\<bar> / 0.10), 0.30),
     (''activity'',
        0.70 * clamp ((number fs ''relative_volume'' - 1) / 4)
          + 0.30 * clamp (number fs ''trade_count'' / 30), 0.35),
     (''stress'', clamp (number fs ''volatility'' / 0.05), 0.20)]"

definition market_book_group :: "features \<Rightarrow> string \<times> real \<times> real" where
  "market_book_group fs =
    (''microstructure'',
      0.65 * clamp \<bar>number fs ''orderbook_imbalance''\<bar>
        + 0.35 * clamp (number fs ''spread'' / 0.02), 0.15)"

definition market_groups :: "features \<Rightarrow> (string \<times> real \<times> real) list" where
  "market_groups fs = market_base_groups fs @
    (if feature_get fs ''orderbook_valid'' = Some 1 then [market_book_group fs] else [])"

definition market_score :: "feature_snapshot \<Rightarrow> detector_output" where
  "market_score s =
    (let fs = fs_features s;
         has_market = number fs ''trade_count'' > 0 \<or> number fs ''volume'' > 0
     in if \<not> has_market then
          detector_output ''market_score'' None market_version ''market features unavailable''
            (Some (if number fs ''market_source_degraded'' > 0 then mr_source_degraded
                   else mr_source_unavailable))
        else
          let groups = market_groups fs;
              available_weight = (\<Sum>g\<leftarrow>groups. snd (snd g));
              score = (\<Sum>g\<leftarrow>groups. fst (snd g) * snd (snd g)) / available_weight;
              reason = ''grouped market anomaly blend: '' @ join '', '' (map fst groups) @
                (if feature_get fs ''orderbook_valid'' = Some 1 then ''''
                 else ''; invalid or unavailable orderbook excluded'')
          in detector_output ''market_score'' (Some (clamp score)) market_version reason None)"

section \<open>Social surge, coordination, lead and lag\<close>

definition social_version :: string where "social_version = ''social-baseline-v1''"

definition social_score :: "feature_snapshot \<Rightarrow> detector_output" where
  "social_score s =
    (let fs = fs_features s;
         mentions = number fs ''mention_count'';
         authors = number fs ''unique_author_count'';
         hashtag_velocity = number fs ''hashtag_velocity''
     in if feature_get fs ''mention_count'' = None \<and> feature_get fs ''unique_author_count'' = None
        then detector_output ''social_score'' None social_version ''social features unavailable''
          (Some (if number fs ''social_source_idle'' > 0 then mr_source_idle
                 else if number fs ''social_source_degraded'' > 0 then mr_source_degraded
                 else mr_source_unavailable))
        else
          let mention_component = clamp (mentions / 12);
              author_component = clamp (authors / 8);
              velocity_component = clamp (hashtag_velocity / 10);
              new_author_component = clamp (number fs ''new_author_ratio'');
              score = 0.40 * mention_component + 0.25 * author_component
                + 0.20 * velocity_component + 0.15 * new_author_component
          in detector_output ''social_score'' (Some (clamp score)) social_version
               ''social surge blend'' None)"

definition coordination_version :: string where
  "coordination_version = ''coordination-heuristics-v1''"

definition coordination_score :: "feature_snapshot \<Rightarrow> detector_output" where
  "coordination_score s =
    (let fs = fs_features s
     in if feature_get fs ''mention_count'' = None
        then detector_output ''coordination_score'' None coordination_version
               ''coordination evidence unavailable'' (Some mr_source_unavailable)
        else
          let author_concentration = number fs ''author_concentration'';
              repost_ratio = number fs ''repost_reply_ratio'';
              url_concentration = number fs ''url_concentration'';
              score = 0.40 * author_concentration + 0.35 * repost_ratio
                + 0.25 * url_concentration
          in detector_output ''coordination_score'' (Some (clamp score)) coordination_version
               ''coordination heuristics'' None)"

definition temporal_version :: string where "temporal_version = ''temporal-lead-lag-v1''"

definition temporal_score :: "feature_snapshot \<Rightarrow> detector_output" where
  "temporal_score s =
    (case feature_get (fs_features s) ''social_lead_seconds'' of
       None \<Rightarrow> detector_output ''temporal_score'' None temporal_version
                 ''paired streams unavailable'' (Some mr_source_unavailable)
     | Some lead_seconds \<Rightarrow>
         if lead_seconds \<le> 0 then detector_output ''temporal_score'' (Some 0) temporal_version
           ''social did not lead market'' None
         else detector_output ''temporal_score'' (Some (clamp (lead_seconds / 300)))
           temporal_version ''social activity led market'' None)"

section \<open>Regime and liquidity\<close>

datatype market_regime = rg_calm | rg_trending | rg_volatile | rg_dislocated

definition regime_value :: "market_regime \<Rightarrow> string" where
  "regime_value r = (case r of rg_calm \<Rightarrow> ''CALM'' | rg_trending \<Rightarrow> ''TRENDING''
     | rg_volatile \<Rightarrow> ''VOLATILE'' | rg_dislocated \<Rightarrow> ''DISLOCATED'')"

definition classify_regime :: "feature_snapshot \<Rightarrow> market_regime \<times> real" where
  "classify_regime s =
    (let price_return = \<bar>number (fs_features s) ''price_return''\<bar>;
         volatility = number (fs_features s) ''volatility''
     in if price_return \<ge> 0.20 \<or> volatility \<ge> 0.10
        then (rg_dislocated, clamp (max (price_return / 0.4) (volatility / 0.2)))
        else if volatility \<ge> 0.04 then (rg_volatile, clamp (volatility / 0.10))
        else if price_return \<ge> 0.05 then (rg_trending, clamp (price_return / 0.20))
        else (rg_calm, clamp (1 - max (price_return / 0.05) (volatility / 0.04))))"

datatype liquidity_class = lq_low | lq_medium | lq_high | lq_unknown

definition liquidity_value :: "liquidity_class \<Rightarrow> string" where
  "liquidity_value c = (case c of lq_low \<Rightarrow> ''LOW'' | lq_medium \<Rightarrow> ''MEDIUM''
     | lq_high \<Rightarrow> ''HIGH'' | lq_unknown \<Rightarrow> ''UNKNOWN'')"

definition classify_liquidity :: "feature_snapshot \<Rightarrow> liquidity_class \<times> real" where
  "classify_liquidity s =
    (let volume = number (fs_features s) ''volume'';
         depth = number (fs_features s) ''top_n_depth'';
         liquidity = volume + depth
     in if volume \<le> 0 \<and> depth \<le> 0 then (lq_unknown, 0)
        else if liquidity < 10000 then (lq_low, clamp (1 - liquidity / 10000))
        else if liquidity < 250000 then (lq_medium, clamp (liquidity / 250000))
        else (lq_high, clamp (liquidity / 1000000)))"

section \<open>Peer baseline\<close>

definition cross_asset_version :: string where "cross_asset_version = ''cross-asset-context-v1''"

definition relative_score :: "feature_snapshot \<Rightarrow> real list \<Rightarrow> detector_output" where
  "relative_score s peer_returns =
    (if length peer_returns < 3
     then detector_output ''cross_asset_score'' None cross_asset_version
            ''insufficient peer observations'' (Some mr_insufficient_peer_data)
     else
       let n = real (length peer_returns);
           mean = sum_list peer_returns / n;
           variance = (\<Sum>v\<leftarrow>peer_returns. (v - mean)\<^sup>2) / n
       in if variance \<le> 0
          then detector_output ''cross_asset_score'' (Some 0) cross_asset_version
                 ''peers have no variance'' None
          else
            let z_score = \<bar>(number (fs_features s) ''price_return'' - mean) / sqrt variance\<bar>
            in detector_output ''cross_asset_score'' (Some (clamp (z_score / 4)))
                 cross_asset_version ''peer-relative return'' None)"

section \<open>What every detector promises\<close>

text \<open>A detector output is well formed when it has the given name, and exactly one of a score
  in the unit interval and a reason for its absence.\<close>

definition wf_output :: "string \<Rightarrow> detector_output \<Rightarrow> bool" where
  "wf_output n d \<longleftrightarrow> do_name d = n \<and> opt_unit (do_score d) \<and>
     (do_score d = None \<longleftrightarrow> do_missing_reason d \<noteq> None)"

lemma wf_output_Some: "wf_output n (detector_output n (Some v) ver r None) \<longleftrightarrow> unit_range v"
  by (simp add: wf_output_def)

lemma wf_output_None: "wf_output n (detector_output n None ver r (Some m))"
  by (simp add: wf_output_def)

lemmas wf_output_simps [simp] = wf_output_Some wf_output_None

lemma market_score_wf: "wf_output ''market_score'' (market_score s)"
  by (simp add: market_score_def Let_def)

lemma social_score_wf: "wf_output ''social_score'' (social_score s)"
  by (simp add: social_score_def Let_def)

lemma coordination_score_wf: "wf_output ''coordination_score'' (coordination_score s)"
  by (simp add: coordination_score_def Let_def)

lemma temporal_score_wf: "wf_output ''temporal_score'' (temporal_score s)"
  by (auto simp: temporal_score_def split: option.split)

lemma relative_score_wf: "wf_output ''cross_asset_score'' (relative_score s peers)"
  by (simp add: relative_score_def Let_def)

text \<open>The interface the scoring service uses: a named scorer whose outputs are well formed.\<close>

locale detector =
  fixes score :: "feature_snapshot \<Rightarrow> detector_output" and name :: string
  assumes score_wf: "wf_output name (score s)"
begin

lemma score_name [simp]: "do_name (score s) = name"
  using score_wf [of s] by (simp add: wf_output_def)

lemma score_unit: "opt_unit (do_score (score s))"
  using score_wf [of s] by (simp add: wf_output_def)

lemma score_value_unit: "do_score (score s) = Some v \<Longrightarrow> unit_range v"
  using score_unit [of s] by simp

lemma missing_has_reason: "do_score (score s) = None \<Longrightarrow> \<exists>m. do_missing_reason (score s) = Some m"
  using score_wf [of s] by (auto simp: wf_output_def)

lemma available_no_reason: "available (score s) \<Longrightarrow> do_missing_reason (score s) = None"
  using score_wf [of s] by (auto simp: wf_output_def available_def)

end

interpretation market_detector: detector market_score "''market_score''"
  by unfold_locales (rule market_score_wf)

interpretation social_detector: detector social_score "''social_score''"
  by unfold_locales (rule social_score_wf)

interpretation coordination_detector: detector coordination_score "''coordination_score''"
  by unfold_locales (rule coordination_score_wf)

interpretation temporal_detector: detector temporal_score "''temporal_score''"
  by unfold_locales (rule temporal_score_wf)

section \<open>Precise behaviour\<close>

text \<open>The market score needs no clamping: it is a weighted mean of group values in the unit
  interval.\<close>

lemma clamp_mix:
  "unit_range (7 * clamp a / 10 + 3 * clamp b / 10)"
  "unit_range (13 * clamp a / 20 + 7 * clamp b / 20)"
  using clamp_bounds [of a] clamp_bounds [of b] unfolding unit_range_def by linarith+

lemma market_groups_unit:
  "g \<in> set (market_groups fs) \<Longrightarrow> unit_range (fst (snd g)) \<and> 0 \<le> snd (snd g)"
  unfolding market_groups_def market_base_groups_def market_book_group_def
  by (auto simp: clamp_mix split: if_splits)

lemma market_groups_weight:
  "(\<Sum>g\<leftarrow>market_groups fs. snd (snd g)) =
     (if feature_get fs ''orderbook_valid'' = Some 1 then 1 else 0.85)"
  by (simp add: market_groups_def market_base_groups_def market_book_group_def)

text \<open>The blend is the exact weighted mean of the groups.\<close>

lemma market_blend:
  assumes "number (fs_features s) ''trade_count'' > 0 \<or> number (fs_features s) ''volume'' > 0"
  shows "do_score (market_score s) =
    Some ((\<Sum>g\<leftarrow>market_groups (fs_features s). fst (snd g) * snd (snd g)) /
          (\<Sum>g\<leftarrow>market_groups (fs_features s). snd (snd g)))"
proof -
  let ?gs = "market_groups (fs_features s)"
  have "unit_range ((\<Sum>g\<leftarrow>?gs. fst (snd g) * snd (snd g)) / (\<Sum>g\<leftarrow>?gs. snd (snd g)))"
    by (rule weighted_mean_unit) (auto dest: market_groups_unit)
  with assms show ?thesis
    by (simp add: market_score_def Let_def)
qed

lemma market_score_None_iff:
  "do_score (market_score s) = None \<longleftrightarrow>
     number (fs_features s) ''trade_count'' \<le> 0 \<and> number (fs_features s) ''volume'' \<le> 0"
  by (auto simp: market_score_def Let_def)

lemma social_score_None_iff:
  "do_score (social_score s) = None \<longleftrightarrow>
     feature_get (fs_features s) ''mention_count'' = None \<and>
     feature_get (fs_features s) ''unique_author_count'' = None"
  by (simp add: social_score_def Let_def)

lemma temporal_score_pos_iff:
  assumes "feature_get (fs_features s) ''social_lead_seconds'' = Some l"
  shows "do_score (temporal_score s) = Some (clamp (l / 300))"
proof (cases "l \<le> 0")
  case True
  then show ?thesis using assms by (simp add: temporal_score_def clamp_def min_def max_def field_simps)
next
  case False
  then show ?thesis using assms by (simp add: temporal_score_def)
qed

lemma classify_regime_unit: "unit_range (snd (classify_regime s))"
  by (simp add: classify_regime_def Let_def)

lemma classify_liquidity_unit: "unit_range (snd (classify_liquidity s))"
  by (simp add: classify_liquidity_def Let_def)

lemma classify_regime_confident:
  "fst (classify_regime s) = rg_dislocated \<longleftrightarrow>
     \<bar>number (fs_features s) ''price_return''\<bar> \<ge> 0.20 \<or> number (fs_features s) ''volatility'' \<ge> 0.10"
  by (simp add: classify_regime_def Let_def)

end
