(* ===== verification/Fusion_Types.thy ===== *)
theory Fusion_Types
  imports Detectors
begin

text \<open>
  The data model of \<open>intelligence/fusion.py\<close>: risk levels with their ranking, enrichment
  profiles, thresholds and weights, the decision trace and the fusion result, with the field
  bounds that pydantic enforces when a result is built.
\<close>

section \<open>Risk levels\<close>

datatype risk_level = risk_normal | risk_watch | risk_high | risk_critical

definition risk_value :: "risk_level \<Rightarrow> string" where
  "risk_value r = (case r of risk_normal \<Rightarrow> ''NORMAL'' | risk_watch \<Rightarrow> ''WATCH''
     | risk_high \<Rightarrow> ''HIGH'' | risk_critical \<Rightarrow> ''CRITICAL'')"

text \<open>\<open>_RISK_RANK\<close> of \<open>campaigns/policy.py\<close>.\<close>

definition risk_rank :: "risk_level \<Rightarrow> nat" where
  "risk_rank r = (case r of risk_normal \<Rightarrow> 0 | risk_watch \<Rightarrow> 1 | risk_high \<Rightarrow> 2 | risk_critical \<Rightarrow> 3)"

lemma risk_rank_simps [simp]:
  "risk_rank risk_normal = 0" "risk_rank risk_watch = 1"
  "risk_rank risk_high = 2" "risk_rank risk_critical = 3"
  by (simp_all add: risk_rank_def)

lemma risk_rank_inject [simp]: "risk_rank a = risk_rank b \<longleftrightarrow> a = b"
  by (cases a; cases b) simp_all

text \<open>Risk levels are ordered by rank, so that the library's lemmas on \<open>max\<close> apply.\<close>

instantiation risk_level :: linorder
begin

definition less_eq_risk_level :: "risk_level \<Rightarrow> risk_level \<Rightarrow> bool" where
  "a \<le> b \<longleftrightarrow> risk_rank a \<le> risk_rank b"

definition less_risk_level :: "risk_level \<Rightarrow> risk_level \<Rightarrow> bool" where
  "a < b \<longleftrightarrow> risk_rank a < risk_rank b"

instance
  by intro_classes (auto simp: less_eq_risk_level_def less_risk_level_def)

end

lemma risk_level_le [simp]:
  "risk_normal \<le> r" "r \<le> risk_critical"
  "risk_watch \<le> risk_high" "\<not> risk_high \<le> risk_watch" "\<not> risk_critical \<le> risk_watch"
  "\<not> risk_watch \<le> risk_normal" "\<not> risk_high \<le> risk_normal" "\<not> risk_critical \<le> risk_normal"
  "\<not> risk_critical \<le> risk_high"
  by (cases r; simp add: less_eq_risk_level_def)+

lemma risk_le_watch: "r \<le> risk_watch \<longleftrightarrow> r = risk_normal \<or> r = risk_watch"
  by (cases r) (simp_all add: less_eq_risk_level_def)

text \<open>\<open>max_risk\<close> of \<open>campaigns/policy.py\<close>.\<close>

definition max_risk :: "risk_level \<Rightarrow> risk_level \<Rightarrow> risk_level" where
  "max_risk left right = (if risk_rank left \<ge> risk_rank right then left else right)"

lemma max_risk_eq_max: "max_risk a b = max a b"
  by (cases a; cases b) (simp_all add: max_risk_def max_def less_eq_risk_level_def)

lemma max_risk_ge [simp, risk_bounds]: "a \<le> max_risk a b" "b \<le> max_risk a b"
  by (simp_all add: max_risk_eq_max)

section \<open>Configuration\<close>

datatype enrichment_profile = ep_base | ep_graph | ep_verification | ep_graph_and_verification

definition profile_value :: "enrichment_profile \<Rightarrow> string" where
  "profile_value p = (case p of ep_base \<Rightarrow> ''BASE'' | ep_graph \<Rightarrow> ''GRAPH''
     | ep_verification \<Rightarrow> ''VERIFICATION''
     | ep_graph_and_verification \<Rightarrow> ''GRAPH_AND_VERIFICATION'')"

record threshold_config =
  tc_version :: string
  tc_watch :: real
  tc_high :: real
  tc_critical :: real

definition default_thresholds :: threshold_config where
  "default_thresholds = \<lparr>tc_version = ''fusion-thresholds-v1'', tc_watch = 0.35, tc_high = 0.60,
     tc_critical = 0.80\<rparr>"

text \<open>The field bounds of \<open>ThresholdConfig\<close>; nothing orders the three thresholds.\<close>

definition thresholds_valid :: "threshold_config \<Rightarrow> bool" where
  "thresholds_valid t \<longleftrightarrow>
     unit_range (tc_watch t) \<and> unit_range (tc_high t) \<and> unit_range (tc_critical t)"

record fusion_weights =
  fw_market_score :: real
  fw_social_score :: real
  fw_coordination_score :: real
  fw_temporal_score :: real
  fw_claim_risk :: real
  fw_graph_score :: real

definition default_weights :: fusion_weights where
  "default_weights = \<lparr>fw_market_score = 0.40, fw_social_score = 0.10,
     fw_coordination_score = 0.18, fw_temporal_score = 0.10, fw_claim_risk = 0.12,
     fw_graph_score = 0.10\<rparr>"

text \<open>\<open>weights.model_dump().items()\<close>, in field order.\<close>

definition weight_items :: "fusion_weights \<Rightarrow> (string \<times> real) list" where
  "weight_items w =
    [(''market_score'', fw_market_score w), (''social_score'', fw_social_score w),
     (''coordination_score'', fw_coordination_score w), (''temporal_score'', fw_temporal_score w),
     (''claim_risk'', fw_claim_risk w), (''graph_score'', fw_graph_score w)]"

section \<open>Decision trace\<close>

datatype contribution_direction = risk_increasing | risk_reducing | neutral

record missing_output =
  mo_name :: string
  mo_reason :: missing_reason

record trace_component =
  tr_name :: string
  tr_value :: "real option"
  tr_configured_weight :: real
  tr_effective_weight :: real
  tr_contribution :: real
  tr_direction :: contribution_direction
  tr_missing :: bool
  tr_missing_reason :: "missing_reason option"

record score_adjustment =
  sa_name :: string
  sa_before :: real
  sa_factor :: "real option"
  sa_delta :: real
  sa_after :: real
  sa_direction :: contribution_direction

record policy_decision =
  pd_policy :: string
  pd_applied :: bool
  pd_before :: real
  pd_after :: real
  pd_reason :: string

record decision_trace =
  dt_components :: "trace_component list"
  dt_adjustments :: "score_adjustment list"
  dt_policy_decisions :: "policy_decision list"
  dt_thresholds :: threshold_config
  dt_raw_weighted_score :: real
  dt_final_score :: real

datatype threat_status =
  threat_disabled | threat_unavailable | threat_stale | threat_no_match | threat_matched

record threat_context =
  th_status :: threat_status
  th_score :: "real option"
  th_confidence :: "real option"
  th_snapshot_id :: "string option"
  th_match_ids :: "string list"
  th_cutoff :: "datetime option"

definition empty_threat :: threat_context where
  "empty_threat = \<lparr>th_status = threat_disabled, th_score = None, th_confidence = None,
     th_snapshot_id = None, th_match_ids = [], th_cutoff = None\<rparr>"

definition threat_valid :: "threat_context \<Rightarrow> bool" where
  "threat_valid t \<longleftrightarrow> opt_unit (th_score t) \<and> opt_unit (th_confidence t)"

lemma empty_threat_valid [simp]: "threat_valid empty_threat"
  by (simp add: threat_valid_def empty_threat_def)

section \<open>The fusion result\<close>

record fusion_result =
  fr_model_score_id :: string
  fr_scope_id :: string
  fr_asset_id :: string
  fr_feature_window_id :: string
  fr_feature_revision :: nat
  fr_model_version :: string
  fr_base_model_version :: string
  fr_fusion_policy_version :: string
  fr_enrichment_profile :: enrichment_profile
  fr_fusion_revision :: nat
  fr_evidence_cutoff :: "datetime option"
  fr_input_snapshot_ids :: "(string \<times> string) list"
  fr_idempotency_key :: string
  fr_market_score :: "real option"
  fr_social_score :: "real option"
  fr_coordination_score :: "real option"
  fr_temporal_score :: "real option"
  fr_claim_risk :: "real option"
  fr_legitimate_event_score :: "real option"
  fr_graph_score :: "real option"
  fr_threat_context :: threat_context
  fr_market_anomaly_risk :: "real option"
  fr_market_anomaly_severity :: risk_level
  fr_social_coordination_risk :: "real option"
  fr_social_coordination_severity :: risk_level
  fr_raw_cross_domain_risk :: real
  fr_context_adjusted_risk :: real
  fr_fusion_score :: real
  fr_confidence :: real
  fr_severity :: risk_level
  fr_missing_outputs :: "missing_output list"
  fr_is_calibrated :: bool
  fr_market_regime :: string
  fr_market_regime_confidence :: real
  fr_liquidity_class :: string
  fr_liquidity_confidence :: real
  fr_stage_signals :: features
  fr_decision_trace :: decision_trace
  fr_scored_at :: datetime

text \<open>The \<open>Field(ge=..., le=...)\<close> bounds of \<open>FusionResult\<close>.\<close>

definition fusion_result_valid :: "fusion_result \<Rightarrow> bool" where
  "fusion_result_valid r \<longleftrightarrow>
     1 \<le> fr_fusion_revision r \<and>
     opt_unit (fr_market_anomaly_risk r) \<and> opt_unit (fr_social_coordination_risk r) \<and>
     unit_range (fr_raw_cross_domain_risk r) \<and> unit_range (fr_context_adjusted_risk r) \<and>
     unit_range (fr_fusion_score r) \<and> unit_range (fr_confidence r) \<and>
     unit_range (fr_market_regime_confidence r) \<and> unit_range (fr_liquidity_confidence r)"

definition build_fusion_result :: "fusion_result \<Rightarrow> fusion_result res" where
  "build_fusion_result r =
     (if fusion_result_valid r then Inr r else Inl (ValidationError ''FusionResult''))"

end
