(* ===== verification/Fusion.thy ===== *)
theory Fusion
  imports Fusion_Types
begin

text \<open>
  The fusion engine (\<open>FusionEngine.fuse\<close>, \<open>intelligence/fusion.py\<close>): weighted combination of
  the detector outputs, missing outputs and confidence, calibration, the legitimate-event
  discount, the threat uplift, the policy floor and caps, the severity with its demotions, and
  the enrichment profile. Each stage is a definition; \<open>fuse\<close> composes them in the code's
  order and ends in the validation of the result.
\<close>

record fusion_engine =
  fe_weights :: fusion_weights
  fe_thresholds :: threshold_config
  fe_calibrator :: "(real \<Rightarrow> string \<Rightarrow> string \<Rightarrow> real) option"
  fe_threat_uplift_cap :: real

definition fusion_version :: string where "fusion_version = ''fusion-v2''"
definition fusion_policy_version :: string where "fusion_policy_version = ''fusion-policy-v1''"

definition default_engine :: fusion_engine where
  "default_engine = \<lparr>fe_weights = default_weights, fe_thresholds = default_thresholds,
     fe_calibrator = None, fe_threat_uplift_cap = 0.10\<rparr>"

section \<open>The stages\<close>

text \<open>\<open>{output.name: output for output in outputs}\<close>: the last output of a name wins.\<close>

definition detector_lookup :: "detector_output list \<Rightarrow> string \<Rightarrow> detector_output option" where
  "detector_lookup outs n = map_of (rev (map (\<lambda>d. (do_name d, d)) outs)) n"

definition detector_value ::
    "detector_output list \<Rightarrow> real option \<Rightarrow> real option \<Rightarrow> string \<Rightarrow> real option" where
  "detector_value outs claim graph n =
    (if n = ''graph_score'' then graph
     else if n = ''claim_risk'' then claim
     else case detector_lookup outs n of None \<Rightarrow> None | Some d \<Rightarrow> do_score d)"

text \<open>The accumulation of \<open>weighted_sum\<close> and \<open>available_weight\<close>.\<close>

fun weigh :: "(string \<Rightarrow> real option) \<Rightarrow> (string \<times> real) list \<Rightarrow> real \<times> real \<Rightarrow> real \<times> real" where
  "weigh val [] acc = acc"
| "weigh val ((n, w) # items) (weighted_sum, available_weight) =
     weigh val items
       (case val n of None \<Rightarrow> (weighted_sum, available_weight)
        | Some v \<Rightarrow> (weighted_sum + w * v, available_weight + w))"

definition trace_component ::
    "(string \<Rightarrow> real option) \<Rightarrow> (string \<Rightarrow> detector_output option) \<Rightarrow> real \<Rightarrow> string \<times> real
     \<Rightarrow> trace_component" where
  "trace_component val look available_weight = (\<lambda>(n, w).
    (let v = val n;
         effective = (case v of None \<Rightarrow> 0 | Some _ \<Rightarrow> w / available_weight);
         contribution = (case v of None \<Rightarrow> 0 | Some x \<Rightarrow> x * effective)
     in \<lparr>tr_name = n, tr_value = v, tr_configured_weight = w, tr_effective_weight = effective,
         tr_contribution = contribution,
         tr_direction = (if contribution > 0 then risk_increasing else neutral),
         tr_missing = (v = None),
         tr_missing_reason =
           (if v \<noteq> None then None
            else case look n of
              None \<Rightarrow> Some mr_not_provided
            | Some d \<Rightarrow> Some (case do_missing_reason d of None \<Rightarrow> mr_no_observations | Some m \<Rightarrow> m))\<rparr>))"

definition missing_outputs ::
    "(string \<Rightarrow> real option) \<Rightarrow> (string \<Rightarrow> detector_output option) \<Rightarrow> real option \<Rightarrow> real option
     \<Rightarrow> real option \<Rightarrow> missing_output list" where
  "missing_outputs val look claim legit graph =
    map (\<lambda>n. \<lparr>mo_name = n,
           mo_reason = (case look n of None \<Rightarrow> mr_not_provided
             | Some d \<Rightarrow> (case do_missing_reason d of None \<Rightarrow> mr_no_observations | Some m \<Rightarrow> m))\<rparr>)
      (filter (\<lambda>n. val n = None)
        [''market_score'', ''social_score'', ''coordination_score'', ''temporal_score''])
    @ (if claim = None then [\<lparr>mo_name = ''claim_risk'', mo_reason = mr_not_provided\<rparr>] else [])
    @ (if legit = None then [\<lparr>mo_name = ''legitimate_event_score'', mo_reason = mr_not_provided\<rparr>]
       else [])
    @ (if graph = None then [\<lparr>mo_name = ''graph_score'', mo_reason = mr_not_provided\<rparr>] else [])"

definition base_confidence :: "nat \<Rightarrow> real \<Rightarrow> real \<Rightarrow> real" where
  "base_confidence n_missing baseline_confidence data_quality =
    (let availability = 1 - real n_missing / 7
     in clamp (availability * (0.4 + 0.35 * baseline_confidence + 0.25 * data_quality)))"

definition direction :: "real \<Rightarrow> contribution_direction" where
  "direction delta =
    (if delta > 0 then risk_increasing else if delta < 0 then risk_reducing else neutral)"

definition adjustment :: "string \<Rightarrow> real option \<Rightarrow> real \<Rightarrow> real \<Rightarrow> score_adjustment" where
  "adjustment n factor before after =
    \<lparr>sa_name = n, sa_before = before, sa_factor = factor, sa_delta = after - before,
     sa_after = after, sa_direction = direction (after - before)\<rparr>"

text \<open>Calibration applies only with a calibrator and enough baseline history.\<close>

definition calibrated_with ::
    "fusion_engine \<Rightarrow> real \<Rightarrow> (real \<Rightarrow> string \<Rightarrow> string \<Rightarrow> real) option" where
  "calibrated_with eng baseline_confidence =
    (case fe_calibrator eng of None \<Rightarrow> None
     | Some c \<Rightarrow> if baseline_confidence \<ge> 0.5 then Some c else None)"

definition calibrate_stage ::
    "fusion_engine \<Rightarrow> real \<Rightarrow> string \<Rightarrow> string \<Rightarrow> real \<Rightarrow> real \<times> score_adjustment list" where
  "calibrate_stage eng baseline_confidence regime liquidity raw =
    (case calibrated_with eng baseline_confidence of
       None \<Rightarrow> (raw, [])
     | Some c \<Rightarrow>
         let after = clamp (c raw regime liquidity)
         in (after, [adjustment ''calibration'' None raw after]))"

definition legitimate_stage :: "real option \<Rightarrow> real \<Rightarrow> real \<times> score_adjustment list" where
  "legitimate_stage legit raw =
    (let factor = 1 - 0.35 * clamp (or_zero legit);
         adjusted = raw * factor
     in (adjusted, [adjustment ''legitimate_event'' (Some factor) raw adjusted]))"

definition threat_uplift :: "real \<Rightarrow> real \<Rightarrow> real option \<Rightarrow> real" where
  "threat_uplift cap score conf = min cap (score * or_zero conf * cap)"

text \<open>The threat stage: a matched context lifts the score, an unavailable or stale one lowers
  the confidence. The trace entry always says \<open>RISK_INCREASING\<close>.\<close>

definition threat_stage ::
    "real \<Rightarrow> threat_context \<Rightarrow> real \<times> real \<Rightarrow> (real \<times> real) \<times> score_adjustment list" where
  "threat_stage cap threat = (\<lambda>(score, confidence).
    (if th_status threat = threat_matched \<and> th_score threat \<noteq> None then
       let after = min 1 (score + threat_uplift cap (or_zero (th_score threat)) (th_confidence threat))
       in ((after, confidence),
           [(adjustment ''threat_intelligence_uplift'' None score after)
              \<lparr>sa_direction := risk_increasing\<rparr>])
     else if th_status threat \<in> {threat_unavailable, threat_stale}
     then ((score, confidence * 0.85), [])
     else ((score, confidence), [])))"

definition policy :: "string \<Rightarrow> bool \<Rightarrow> real \<Rightarrow> real \<Rightarrow> string \<Rightarrow> policy_decision" where
  "policy n app before after why =
    \<lparr>pd_policy = n, pd_applied = app, pd_before = before, pd_after = after, pd_reason = why\<rparr>"

definition watch_floor_stage ::
    "threshold_config \<Rightarrow> real option \<Rightarrow> real option \<Rightarrow> real \<Rightarrow> real \<times> policy_decision list" where
  "watch_floor_stage th market coordination score =
    (if market \<noteq> None \<and> or_zero market \<ge> 0.65 \<and> coordination \<noteq> None \<and>
        or_zero coordination \<ge> 0.65
     then let after = max score (tc_watch th)
          in (after, [policy ''corroborated_watch_floor'' True score after
                ''market and coordination scores are at least 0.65''])
     else (score, []))"

definition market_cap_stage ::
    "threshold_config \<Rightarrow> real option \<Rightarrow> real \<Rightarrow> real \<times> policy_decision list" where
  "market_cap_stage th market score =
    (if market = None \<or> or_zero market < 0.35
     then let after = min score (tc_high th - 0.01)
          in (after, [policy ''market_evidence_high_cap'' (score \<noteq> after) score after
                ''market score is missing or below 0.35''])
     else (score, [policy ''market_evidence_high_cap'' False score score
                ''market score meets the 0.35 evidence requirement'']))"

definition threat_cap_stage ::
    "threshold_config \<Rightarrow> threat_context \<Rightarrow> real \<Rightarrow> real \<Rightarrow> real \<times> policy_decision list" where
  "threat_cap_stage th threat threat_before score =
    (if th_status threat = threat_matched \<and> threat_before < tc_high th
     then let after = min score (tc_high th - 0.01)
          in (after, [policy ''threat_cannot_independently_raise_high'' (score \<noteq> after) score after
                ''threat context is corroborating evidence only''])
     else (score, []))"

definition social_risk :: "real option \<Rightarrow> real option \<Rightarrow> real option" where
  "social_risk social coordination =
    (let present = filter (\<lambda>(v, w). v \<noteq> None) [(social, 0.30), (coordination, 0.70)];
         social_weight = (\<Sum>(v, w)\<leftarrow>present. w)
     in if social_weight \<noteq> 0
        then Some ((\<Sum>(v, w)\<leftarrow>present. or_zero v * w) / social_weight) else None)"

definition severity_of :: "threshold_config \<Rightarrow> real \<Rightarrow> risk_level" where
  "severity_of th score =
    (if score \<ge> tc_critical th then risk_critical
     else if score \<ge> tc_high th then risk_high
     else if score \<ge> tc_watch th then risk_watch
     else risk_normal)"

text \<open>The two demotions that follow the threshold lookup.\<close>

definition severity_stage ::
    "threshold_config \<Rightarrow> real option \<Rightarrow> bool \<Rightarrow> real \<Rightarrow> real \<Rightarrow> risk_level \<times> policy_decision list" where
  "severity_stage th market corroborated confidence score =
    (let s0 = severity_of th score;
         demote = s0 = risk_critical \<and>
           \<not> (market \<noteq> None \<and> or_zero market \<ge> 0.65 \<and> corroborated \<and> confidence \<ge> 0.4);
         s1 = (if demote then risk_high else s0);
         demote_missing = market = None \<and> s1 \<in> {risk_high, risk_critical};
         s2 = (if demote_missing then risk_watch else s1)
     in (s2,
         (if demote then [policy ''critical_requires_corroboration'' True score score
              ''severity demoted from CRITICAL to HIGH''] else [])
         @ (if demote_missing then [policy ''missing_market_severity_demotion'' True score score
              ''severity demoted to WATCH because market score is missing''] else [])))"

definition enrichment :: "real option \<Rightarrow> real option \<Rightarrow> real option \<Rightarrow> enrichment_profile \<times> nat" where
  "enrichment claim legit graph =
    (let has_graph = graph \<noteq> None; has_verification = claim \<noteq> None \<or> legit \<noteq> None
     in if has_graph \<and> has_verification then (ep_graph_and_verification, 3)
        else if has_graph then (ep_graph, 2)
        else if has_verification then (ep_verification, 2)
        else (ep_base, 1))"

definition stage_signal_names :: "string list" where
  "stage_signal_names = [''price_return'', ''relative_volume'', ''spread'',
     ''orderbook_imbalance'', ''buy_sell_pressure'', ''mention_count'']"

fun stage_signals :: "features \<Rightarrow> string list \<Rightarrow> features res" where
  "stage_signals fs [] = Inr []"
| "stage_signals fs (n # ns) =
     (case feature_item fs n of Inl e \<Rightarrow> Inl e
      | Inr v \<Rightarrow> (case stage_signals fs ns of Inl e \<Rightarrow> Inl e | Inr r \<Rightarrow> Inr ((n, v) # r)))"

section \<open>The engine\<close>

record fuse_input =
  fi_claim_risk :: "real option"
  fi_legitimate_event_score :: "real option"
  fi_graph_score :: "real option"
  fi_threat_context :: "threat_context option"
  fi_market_regime :: string
  fi_market_regime_confidence :: real
  fi_liquidity_class :: string
  fi_liquidity_confidence :: real

text \<open>The score of the run through all stages up to the caps: raw weighted score, calibrated
  score, score before the threat stage, final score, confidence and the trace parts.\<close>

record fuse_scores =
  sc_raw_weighted :: real
  sc_raw :: real
  sc_threat_before :: real
  sc_final :: real
  sc_confidence :: real
  sc_adjustments :: "score_adjustment list"
  sc_policies :: "policy_decision list"

definition corroborating :: "(string \<Rightarrow> real option) \<Rightarrow> real option \<Rightarrow> real option \<Rightarrow> bool" where
  "corroborating val claim graph =
    list_ex (\<lambda>v. v \<noteq> None \<and> or_zero v \<ge> 0.55)
      [val ''social_score'', val ''coordination_score'', val ''temporal_score'', claim, graph]"

definition fuse_scores ::
    "fusion_engine \<Rightarrow> (string \<Rightarrow> real option) \<Rightarrow> fuse_input \<Rightarrow> nat \<Rightarrow> real \<Rightarrow> real \<Rightarrow> fuse_scores" where
  "fuse_scores eng val inp n_missing baseline_confidence data_quality =
    (let (weighted_sum, available_weight) = weigh val (weight_items (fe_weights eng)) (0, 0);
         raw_weighted = (if available_weight \<noteq> 0 then weighted_sum / available_weight else 0);
         (raw, adj_cal) = calibrate_stage eng baseline_confidence (fi_market_regime inp)
           (fi_liquidity_class inp) (clamp raw_weighted);
         (legit_score, adj_leg) = legitimate_stage (fi_legitimate_event_score inp) raw;
         threat = (case fi_threat_context inp of None \<Rightarrow> empty_threat | Some t \<Rightarrow> t);
         ((lifted, confidence), adj_threat) = threat_stage (fe_threat_uplift_cap eng) threat
           (legit_score, base_confidence n_missing baseline_confidence data_quality);
         (floored, pol_floor) = watch_floor_stage (fe_thresholds eng) (val ''market_score'')
           (val ''coordination_score'') lifted;
         (capped, pol_cap) = market_cap_stage (fe_thresholds eng) (val ''market_score'') floored;
         (final, pol_threat) = threat_cap_stage (fe_thresholds eng) threat legit_score capped
     in \<lparr>sc_raw_weighted = raw_weighted, sc_raw = raw, sc_threat_before = legit_score,
         sc_final = final, sc_confidence = confidence,
         sc_adjustments = adj_cal @ adj_leg @ adj_threat,
         sc_policies = pol_floor @ pol_cap @ pol_threat\<rparr>)"

text \<open>The result record, from the engine, the clock, the arguments and the three parts of the
  snapshot's features that \<open>fuse\<close> reads.\<close>

definition fusion_record ::
    "fusion_engine \<Rightarrow> datetime \<Rightarrow> feature_snapshot \<Rightarrow> detector_output list \<Rightarrow> fuse_input
     \<Rightarrow> real \<Rightarrow> real \<Rightarrow> features \<Rightarrow> fusion_result" where
  "fusion_record eng now snap outs inp baseline_confidence quality signals =
    (let claim = fi_claim_risk inp; legit = fi_legitimate_event_score inp;
         graph = fi_graph_score inp;
         val = detector_value outs claim graph; look = detector_lookup outs;
         items = weight_items (fe_weights eng);
         market = val ''market_score'';
         missing = missing_outputs val look claim legit graph;
         sc = fuse_scores eng val inp (length missing) baseline_confidence quality;
         social_coordination_risk = social_risk (val ''social_score'') (val ''coordination_score'');
         sev = severity_stage (fe_thresholds eng) market
           (corroborating val claim graph) (sc_confidence sc) (sc_final sc);
         profile = enrichment claim legit graph
     in \<lparr>fr_model_score_id = '''', fr_scope_id = fs_scope_id snap,
         fr_asset_id = fs_asset_id snap, fr_feature_window_id = fs_feature_window_id snap,
         fr_feature_revision = fs_revision snap, fr_model_version = fusion_version,
         fr_base_model_version = fusion_version,
         fr_fusion_policy_version = fusion_policy_version, fr_enrichment_profile = fst profile,
         fr_fusion_revision = snd profile, fr_evidence_cutoff = Some (fs_window_end snap),
         fr_input_snapshot_ids = [], fr_idempotency_key = '''', fr_market_score = market,
         fr_social_score = val ''social_score'',
         fr_coordination_score = val ''coordination_score'',
         fr_temporal_score = val ''temporal_score'', fr_claim_risk = claim,
         fr_legitimate_event_score = legit, fr_graph_score = graph,
         fr_threat_context = (case fi_threat_context inp of None \<Rightarrow> empty_threat | Some t \<Rightarrow> t),
         fr_market_anomaly_risk = market,
         fr_market_anomaly_severity = severity_of (fe_thresholds eng) (or_zero market),
         fr_social_coordination_risk = social_coordination_risk,
         fr_social_coordination_severity =
           severity_of (fe_thresholds eng) (or_zero social_coordination_risk),
         fr_raw_cross_domain_risk = sc_raw sc, fr_context_adjusted_risk = sc_final sc,
         fr_fusion_score = sc_final sc, fr_confidence = sc_confidence sc,
         fr_severity = fst sev, fr_missing_outputs = missing,
         fr_is_calibrated = (calibrated_with eng baseline_confidence \<noteq> None),
         fr_market_regime = fi_market_regime inp,
         fr_market_regime_confidence = fi_market_regime_confidence inp,
         fr_liquidity_class = fi_liquidity_class inp,
         fr_liquidity_confidence = fi_liquidity_confidence inp,
         fr_stage_signals = signals,
         fr_decision_trace =
           \<lparr>dt_components =
              map (trace_component val look (snd (weigh val items (0, 0)))) items,
            dt_adjustments = sc_adjustments sc, dt_policy_decisions = sc_policies sc @ snd sev,
            dt_thresholds = fe_thresholds eng, dt_raw_weighted_score = sc_raw_weighted sc,
            dt_final_score = sc_final sc\<rparr>,
         fr_scored_at = now\<rparr>)"

text \<open>\<open>FusionEngine.fuse\<close>. The effective weights divide by the available weight, which raises
  when every present component has weight zero; the two quality features and the stage signals
  are looked up by key; the result is validated when it is built.\<close>

definition fuse ::
    "fusion_engine \<Rightarrow> datetime \<Rightarrow> feature_snapshot \<Rightarrow> detector_output list \<Rightarrow> fuse_input
     \<Rightarrow> fusion_result res" where
  "fuse eng now snap outs inp =
    (let val = detector_value outs (fi_claim_risk inp) (fi_graph_score inp);
         items = weight_items (fe_weights eng);
         available_weight = snd (weigh val items (0, 0))
     in if available_weight = 0 \<and> list_ex (\<lambda>(n, w). val n \<noteq> None) items
        then Inl ZeroDivisionError
        else
     (case feature_item (fs_features snap) ''baseline_confidence'' of Inl e \<Rightarrow> Inl e
      | Inr baseline \<Rightarrow>
     (case feature_item (fs_features snap) ''data_quality_score'' of Inl e \<Rightarrow> Inl e
      | Inr quality \<Rightarrow>
     (case stage_signals (fs_features snap) stage_signal_names of Inl e \<Rightarrow> Inl e
      | Inr signals \<Rightarrow>
        build_fusion_result
          (fusion_record eng now snap outs inp (or_zero baseline) (or_zero quality) signals)))))"

end
