(* ===== verification/Fusion_Facts.thy ===== *)
theory Fusion_Facts
  imports Fusion
begin

text \<open>
  Facts about the stages of the fusion engine, in the order of the pipeline, and the
  inversion rule that gives every field of a successful \<open>fuse\<close>. The properties of the engine
  are short consequences.
\<close>

section \<open>The weighted mean\<close>

definition present :: "(string \<Rightarrow> real option) \<Rightarrow> (string \<times> real) list \<Rightarrow> (string \<times> real) list" where
  "present val items = filter (\<lambda>i. val (fst i) \<noteq> None) items"

lemma present_simps [simp]:
  "present val [] = []"
  "present val ((n, w) # items) =
     (if val n = None then present val items else (n, w) # present val items)"
  by (simp_all add: present_def)

lemma weigh_eq:
  "weigh val items (a, b) =
     (a + (\<Sum>i\<leftarrow>present val items. or_zero (val (fst i)) * snd i), b + (\<Sum>i\<leftarrow>present val items. snd i))"
  by (induction val items "(a, b)" arbitrary: a b rule: weigh.induct)
    (auto split: option.split simp: mult.commute)

definition weights_valid :: "fusion_weights \<Rightarrow> bool" where
  "weights_valid w \<longleftrightarrow> (\<forall>i\<in>set (weight_items w). 0 < snd i)"

lemma default_weights_valid [simp]: "weights_valid default_weights"
  by (simp add: weights_valid_def weight_items_def default_weights_def)

lemma present_weight_pos:
  assumes "weights_valid w" "present val (weight_items w) \<noteq> []"
  shows "0 < (\<Sum>i\<leftarrow>present val (weight_items w). snd i)"
  using assms(2)
  by (rule sum_list_map_pos) (use assms(1) in \<open>auto simp: weights_valid_def present_def\<close>)

lemma weigh_zero_iff:
  assumes "weights_valid w"
  shows "snd (weigh val (weight_items w) (0, 0)) = 0 \<longleftrightarrow> present val (weight_items w) = []"
  using present_weight_pos [OF assms, of val]
  by (cases "present val (weight_items w) = []") (auto simp: weigh_eq)

lemma no_zero_division:
  assumes "weights_valid w"
  shows "\<not> (snd (weigh val (weight_items w) (0, 0)) = 0 \<and>
            list_ex (\<lambda>(n, x). val n \<noteq> None) (weight_items w))"
  using weigh_zero_iff [OF assms, of val]
  by (auto simp: present_def filter_empty_conv list_ex_iff)

section \<open>Score stages stay in the unit interval\<close>

definition engine_valid :: "fusion_engine \<Rightarrow> bool" where
  "engine_valid e \<longleftrightarrow> weights_valid (fe_weights e) \<and> thresholds_valid (fe_thresholds e) \<and>
     0.01 \<le> tc_high (fe_thresholds e) \<and> 0 \<le> fe_threat_uplift_cap e"

lemma default_engine_valid [simp]: "engine_valid default_engine"
  by (simp add: engine_valid_def default_engine_def thresholds_valid_def default_thresholds_def
      unit_range_def)

lemma base_confidence_unit [risk_bounds]: "unit_range (base_confidence n b q)"
  by (simp add: base_confidence_def Let_def)

lemma calibrate_stage_unit [risk_bounds]:
  "unit_range raw \<Longrightarrow> unit_range (fst (calibrate_stage e b rg lq raw))"
  by (simp add: calibrate_stage_def Let_def split: option.split)

lemma legitimate_factor: "0.65 \<le> 1 - 0.35 * clamp x" "1 - 0.35 * clamp x \<le> 1"
  "0 \<le> 1 - 0.35 * clamp x"
  using clamp_bounds [of x] unfolding power2_eq_square by linarith+

lemma legitimate_stage_unit [risk_bounds]:
  assumes "unit_range raw"
  shows "unit_range (fst (legitimate_stage legit raw))"
proof -
  have "unit_range (1 - 0.35 * clamp (or_zero legit))"
    using legitimate_factor [of "or_zero legit"] unfolding unit_range_def by blast
  then show ?thesis
    using assms by (simp add: legitimate_stage_def Let_def unit_range_mult)
qed

lemma legitimate_stage_le:
  assumes "unit_range raw"
  shows "fst (legitimate_stage legit raw) \<le> raw" "0.65 * raw \<le> fst (legitimate_stage legit raw)"
  using assms mult_left_mono [OF legitimate_factor(2), of raw "or_zero legit"]
    mult_left_mono [OF legitimate_factor(1), of raw "or_zero legit"]
  by (simp_all add: legitimate_stage_def Let_def unit_range_def)

lemma threat_uplift_bounds:
  assumes "unit_range s" "opt_unit c" "0 \<le> cap"
  shows "0 \<le> threat_uplift cap s c" "threat_uplift cap s c \<le> cap"
  using assms opt_unit_or_zero [OF assms(2)]
  by (simp_all add: threat_uplift_def unit_range_def)

lemma threat_stage_score:
  assumes "unit_range x" "threat_valid t" "0 \<le> cap"
  shows "x \<le> fst (fst (threat_stage cap t (x, c)))"
    "fst (fst (threat_stage cap t (x, c))) \<le> x + cap"
    "unit_range (fst (fst (threat_stage cap t (x, c))))"
  using assms threat_uplift_bounds [of "or_zero (th_score t)" "th_confidence t" cap]
  by (auto simp: threat_stage_def threat_valid_def Let_def unit_range_def min_def dest!: unit_rangeD)

lemma threat_stage_unmatched:
  "th_status t \<noteq> threat_matched \<Longrightarrow> fst (fst (threat_stage cap t (x, c))) = x"
  by (simp add: threat_stage_def)

lemma threat_stage_confidence:
  assumes "unit_range c"
  shows "unit_range (snd (fst (threat_stage cap t (x, c))))"
  using assms by (auto simp: threat_stage_def Let_def unit_range_def)

lemma watch_floor_unit [risk_bounds]:
  "unit_range x \<Longrightarrow> thresholds_valid th \<Longrightarrow> unit_range (fst (watch_floor_stage th m co x))"
  by (simp add: watch_floor_stage_def Let_def thresholds_valid_def unit_range_max)

lemma market_cap_unit [risk_bounds]:
  "unit_range x \<Longrightarrow> thresholds_valid th \<Longrightarrow> 0.01 \<le> tc_high th \<Longrightarrow>
     unit_range (fst (market_cap_stage th m x))"
  by (auto simp: market_cap_stage_def Let_def thresholds_valid_def unit_range_def)

lemma threat_cap_unit [risk_bounds]:
  "unit_range x \<Longrightarrow> thresholds_valid th \<Longrightarrow> 0.01 \<le> tc_high th \<Longrightarrow>
     unit_range (fst (threat_cap_stage th t b x))"
  by (auto simp: threat_cap_stage_def Let_def thresholds_valid_def unit_range_def)

lemma market_cap_below:
  "m = None \<or> or_zero m < 0.35 \<Longrightarrow> fst (market_cap_stage th m x) \<le> tc_high th - 0.01"
  by (simp add: market_cap_stage_def Let_def)

lemma market_cap_le: "fst (market_cap_stage th m x) \<le> x"
  by (simp add: market_cap_stage_def Let_def)

lemma threat_cap_le: "fst (threat_cap_stage th t b x) \<le> x"
  by (simp add: threat_cap_stage_def Let_def)

lemma threat_cap_below:
  "th_status t = threat_matched \<Longrightarrow> b < tc_high th \<Longrightarrow>
     fst (threat_cap_stage th t b x) \<le> tc_high th - 0.01"
  by (simp add: threat_cap_stage_def Let_def)

text \<open>Floor and market cap are monotone and change a difference of scores by no more.\<close>

lemma floor_cap_lipschitz:
  assumes "x \<le> y"
  shows "fst (market_cap_stage th m (fst (watch_floor_stage th m co y)))
       \<le> fst (market_cap_stage th m (fst (watch_floor_stage th m co x))) + (y - x)"
    "fst (market_cap_stage th m (fst (watch_floor_stage th m co x)))
       \<le> fst (market_cap_stage th m (fst (watch_floor_stage th m co y)))"
  using assms by (auto simp: market_cap_stage_def watch_floor_stage_def Let_def)

section \<open>The combined scores\<close>

lemma fuse_scores_sel:
  fixes eng val inp n b q
  defines "raw0 \<equiv> (let p = weigh val (weight_items (fe_weights eng)) (0, 0)
                    in if snd p \<noteq> 0 then fst p / snd p else 0)"
  defines "raw \<equiv> fst (calibrate_stage eng b (fi_market_regime inp) (fi_liquidity_class inp)
                    (clamp raw0))"
  defines "leg \<equiv> fst (legitimate_stage (fi_legitimate_event_score inp) raw)"
  defines "threat \<equiv> (case fi_threat_context inp of None \<Rightarrow> empty_threat | Some t \<Rightarrow> t)"
  defines "lifted \<equiv> fst (threat_stage (fe_threat_uplift_cap eng) threat
                    (leg, base_confidence n b q))"
  defines "capped \<equiv> fst (market_cap_stage (fe_thresholds eng) (val ''market_score'')
        (fst (watch_floor_stage (fe_thresholds eng) (val ''market_score'')
           (val ''coordination_score'') (fst lifted))))"
  shows "sc_raw_weighted (fuse_scores eng val inp n b q) = raw0"
    "sc_raw (fuse_scores eng val inp n b q) = raw"
    "sc_threat_before (fuse_scores eng val inp n b q) = leg"
    "sc_confidence (fuse_scores eng val inp n b q) = snd lifted"
    "sc_final (fuse_scores eng val inp n b q)
       = fst (threat_cap_stage (fe_thresholds eng) threat leg capped)"
  unfolding assms
  by (simp_all add: fuse_scores_def Let_def split_beta)

definition input_valid :: "fuse_input \<Rightarrow> bool" where
  "input_valid i \<longleftrightarrow> (case fi_threat_context i of None \<Rightarrow> True | Some t \<Rightarrow> threat_valid t) \<and>
     unit_range (fi_market_regime_confidence i) \<and> unit_range (fi_liquidity_confidence i)"

lemma input_valid_threat:
  "input_valid i \<Longrightarrow> threat_valid (case fi_threat_context i of None \<Rightarrow> empty_threat | Some t \<Rightarrow> t)"
  by (auto simp: input_valid_def split: option.split)

lemma sc_raw_unit: "unit_range (sc_raw (fuse_scores eng val inp n b q))"
  by (simp add: fuse_scores_sel calibrate_stage_unit)

lemma sc_threat_before_unit: "unit_range (sc_threat_before (fuse_scores eng val inp n b q))"
  by (simp add: fuse_scores_sel calibrate_stage_unit legitimate_stage_unit)

lemma sc_confidence_unit: "unit_range (sc_confidence (fuse_scores eng val inp n b q))"
  by (simp add: fuse_scores_sel threat_stage_confidence base_confidence_unit)

lemma sc_final_unit:
  assumes "engine_valid eng" "input_valid inp"
  shows "unit_range (sc_final (fuse_scores eng val inp n b q))"
  using assms
  by (auto simp: fuse_scores_sel engine_valid_def intro!: threat_cap_unit market_cap_unit
      watch_floor_unit threat_stage_score(3) legitimate_stage_unit calibrate_stage_unit
      input_valid_threat)

lemma sc_final_market_cap:
  assumes "val ''market_score'' = None \<or> or_zero (val ''market_score'') < 0.35"
  shows "sc_final (fuse_scores eng val inp n b q) \<le> tc_high (fe_thresholds eng) - 0.01"
  unfolding fuse_scores_sel by (rule order_trans [OF threat_cap_le market_cap_below [OF assms]])

section \<open>Severity\<close>

lemma severity_of_below: "x < tc_high th \<Longrightarrow> tc_high th \<le> tc_critical th \<Longrightarrow> severity_of th x \<le> risk_watch"
  by (simp add: severity_of_def)

lemma severity_of_mono:
  assumes "x \<le> y" "tc_watch th \<le> tc_high th" "tc_high th \<le> tc_critical th"
  shows "severity_of th x \<le> severity_of th y"
  using assms by (auto simp: severity_of_def)

lemma severity_stage_le: "fst (severity_stage th m co c x) \<le> severity_of th x"
  by (cases "severity_of th x") (auto simp: severity_stage_def Let_def less_eq_risk_level_def)

lemma severity_stage_critical:
  assumes "fst (severity_stage th m co c x) = risk_critical"
  shows "tc_critical th \<le> x \<and> (\<exists>v. m = Some v \<and> 0.65 \<le> v) \<and> co \<and> 0.4 \<le> c"
  using assms by (auto simp: severity_stage_def Let_def severity_of_def split: if_splits)

lemma severity_stage_no_market: "fst (severity_stage th None co c x) \<le> risk_watch"
  by (cases "severity_of th x") (auto simp: severity_stage_def Let_def)

section \<open>Inversion and totality of fuse\<close>

lemma fuse_Inr:
  assumes "fuse eng now snap outs inp = Inr r"
  obtains baseline quality signals where
    "feature_item (fs_features snap) ''baseline_confidence'' = Inr baseline"
    "feature_item (fs_features snap) ''data_quality_score'' = Inr quality"
    "stage_signals (fs_features snap) stage_signal_names = Inr signals"
    "r = fusion_record eng now snap outs inp (or_zero baseline) (or_zero quality) signals"
    "fusion_result_valid r"
  using assms
  by (auto simp: fuse_def Let_def build_fusion_result_def split: if_splits sum.splits)

text \<open>The scores a successful run computed.\<close>

definition run_scores :: "fusion_engine \<Rightarrow> feature_snapshot \<Rightarrow> detector_output list \<Rightarrow> fuse_input \<Rightarrow> fuse_scores" where
  "run_scores eng snap outs inp =
    (let val = detector_value outs (fi_claim_risk inp) (fi_graph_score inp)
     in fuse_scores eng val inp
          (length (missing_outputs val (detector_lookup outs) (fi_claim_risk inp)
             (fi_legitimate_event_score inp) (fi_graph_score inp)))
          (or_zero (feature_get (fs_features snap) ''baseline_confidence''))
          (or_zero (feature_get (fs_features snap) ''data_quality_score'')))"

lemma feature_item_get: "feature_item fs n = Inr v \<Longrightarrow> feature_get fs n = v"
  by (auto simp: feature_item_def feature_get_def split: option.splits)

lemma fuse_fields:
  assumes "fuse eng now snap outs inp = Inr r"
  defines "val \<equiv> detector_value outs (fi_claim_risk inp) (fi_graph_score inp)"
    and "sc \<equiv> run_scores eng snap outs inp"
  shows fuse_market_score: "fr_market_score r = val ''market_score''"
    and fuse_social_score: "fr_social_score r = val ''social_score''"
    and fuse_coordination_score: "fr_coordination_score r = val ''coordination_score''"
    and fuse_temporal_score: "fr_temporal_score r = val ''temporal_score''"
    and fuse_claim_risk: "fr_claim_risk r = fi_claim_risk inp"
    and fuse_graph_score: "fr_graph_score r = fi_graph_score inp"
    and fuse_fusion_score: "fr_fusion_score r = sc_final sc"
    and fuse_confidence: "fr_confidence r = sc_confidence sc"
    and fuse_severity: "fr_severity r = fst (severity_stage (fe_thresholds eng) (val ''market_score'')
       (corroborating val (fi_claim_risk inp) (fi_graph_score inp)) (sc_confidence sc) (sc_final sc))"
    and fuse_evidence_cutoff: "fr_evidence_cutoff r = Some (fs_window_end snap)"
    and fuse_profile: "(fr_enrichment_profile r, fr_fusion_revision r)
       = enrichment (fi_claim_risk inp) (fi_legitimate_event_score inp) (fi_graph_score inp)"
    and fuse_missing: "fr_missing_outputs r = missing_outputs val (detector_lookup outs)
       (fi_claim_risk inp) (fi_legitimate_event_score inp) (fi_graph_score inp)"
    and fuse_components: "dt_components (fr_decision_trace r)
       = map (trace_component val (detector_lookup outs)
           (snd (weigh val (weight_items (fe_weights eng)) (0, 0)))) (weight_items (fe_weights eng))"
    and fuse_raw_weighted: "dt_raw_weighted_score (fr_decision_trace r) = sc_raw_weighted sc"
    and fuse_valid: "fusion_result_valid r"
  unfolding val_def sc_def
  by (rule fuse_Inr [OF assms(1)];
      simp add: fusion_record_def run_scores_def Let_def feature_item_get)+

lemma stage_signals_ok:
  "set ns \<subseteq> set (map fst fs) \<Longrightarrow> \<exists>r. stage_signals fs ns = Inr r"
proof (induction ns)
  case Nil
  then show ?case by simp
next
  case (Cons n ns)
  then obtain v where "map_of fs n = Some v"
    by (metis insert_subset list.set(2) list.set_map map_of_eq_None_iff option.exhaust)
  with Cons show ?case by (auto simp: feature_item_def)
qed

lemma social_risk_unit: "opt_unit s \<Longrightarrow> opt_unit c \<Longrightarrow> opt_unit (social_risk s c)"
  by (cases s; cases c) (auto simp: social_risk_def unit_range_def)

lemma enrichment_revision: "1 \<le> snd (enrichment c l g)"
  by (simp add: enrichment_def Let_def)

section \<open>Trace sums and monotonicity\<close>

lemma trace_component_sel [simp]:
  "tr_contribution (trace_component val look W i)
     = (case val (fst i) of None \<Rightarrow> 0 | Some v \<Rightarrow> v * (snd i / W))"
  "tr_effective_weight (trace_component val look W i)
     = (case val (fst i) of None \<Rightarrow> 0 | Some v \<Rightarrow> snd i / W)"
  "tr_missing (trace_component val look W i) \<longleftrightarrow> val (fst i) = None"
  by (simp_all add: trace_component_def Let_def split_beta split: option.split)

lemma contribution_sum:
  "(\<Sum>i\<leftarrow>items. tr_contribution (trace_component val look W i))
     = (\<Sum>i\<leftarrow>present val items. or_zero (val (fst i)) * snd i) / W"
  by (induction items) (auto simp: present_def add_divide_distrib split: option.splits)

lemma effective_weight_sum:
  "(\<Sum>i\<leftarrow>items. tr_effective_weight (trace_component val look W i))
     = (\<Sum>i\<leftarrow>present val items. snd i) / W"
  by (induction items) (auto simp: present_def add_divide_distrib split: option.splits)

lemma legitimate_stage_antimono:
  assumes "unit_range raw" "or_zero a \<le> or_zero b"
  shows "fst (legitimate_stage b raw) \<le> fst (legitimate_stage a raw)"
  using assms clamp_mono [OF assms(2)]
  by (auto simp: legitimate_stage_def Let_def unit_range_def intro: mult_left_mono)

lemma threat_stage_mono:
  "x \<le> y \<Longrightarrow> fst (fst (threat_stage cap t (x, c))) \<le> fst (fst (threat_stage cap t (y, c)))"
  by (auto simp: threat_stage_def Let_def)

lemma threat_cap_mono:
  "x \<le> y \<Longrightarrow> b \<le> b' \<Longrightarrow>
     fst (threat_cap_stage th t b x) \<le> fst (threat_cap_stage th t b' y)"
  by (auto simp: threat_cap_stage_def Let_def)

lemma floor_ge: "x \<le> fst (watch_floor_stage th m co x)"
  by (simp add: watch_floor_stage_def Let_def)

text \<open>The final score as a function of the score before the threat stage.\<close>

definition tail_score ::
    "fusion_engine \<Rightarrow> (string \<Rightarrow> real option) \<Rightarrow> threat_context \<Rightarrow> real \<Rightarrow> real" where
  "tail_score eng val t x =
     fst (threat_cap_stage (fe_thresholds eng) t x
       (fst (market_cap_stage (fe_thresholds eng) (val ''market_score'')
          (fst (watch_floor_stage (fe_thresholds eng) (val ''market_score'')
             (val ''coordination_score'')
             (fst (fst (threat_stage (fe_threat_uplift_cap eng) t (x, 0)))))))))"

lemma threat_stage_fst: "fst (fst (threat_stage cap t (x, c))) = fst (fst (threat_stage cap t (x, 0)))"
  by (auto simp: threat_stage_def Let_def)

lemma sc_final_tail:
  "sc_final (fuse_scores eng val inp n b q) =
     tail_score eng val (case fi_threat_context inp of None \<Rightarrow> empty_threat | Some t \<Rightarrow> t)
       (sc_threat_before (fuse_scores eng val inp n b q))"
  unfolding fuse_scores_sel tail_score_def
  by (subst threat_stage_fst) (rule refl)

lemma tail_score_mono: "x \<le> y \<Longrightarrow> tail_score eng val t x \<le> tail_score eng val t y"
  unfolding tail_score_def
  by (intro threat_cap_mono floor_cap_lipschitz(2) threat_stage_mono)

lemma tail_score_none:
  "tail_score eng val empty_threat x =
     fst (market_cap_stage (fe_thresholds eng) (val ''market_score'')
       (fst (watch_floor_stage (fe_thresholds eng) (val ''market_score'')
          (val ''coordination_score'') x)))"
  by (simp add: tail_score_def empty_threat_def threat_stage_def threat_cap_stage_def)

lemma tail_score_uplift:
  assumes "unit_range x" "threat_valid t" "0 \<le> fe_threat_uplift_cap eng"
  shows "tail_score eng val t x \<le> tail_score eng val empty_threat x + fe_threat_uplift_cap eng"
proof -
  let ?y = "fst (fst (threat_stage (fe_threat_uplift_cap eng) t (x, 0)))"
  have y: "x \<le> ?y" "?y \<le> x + fe_threat_uplift_cap eng"
    by (rule threat_stage_score [OF assms])+
  have "tail_score eng val t x \<le> fst (market_cap_stage (fe_thresholds eng) (val ''market_score'')
      (fst (watch_floor_stage (fe_thresholds eng) (val ''market_score'')
         (val ''coordination_score'') ?y)))"
    unfolding tail_score_def by (rule threat_cap_le)
  also have "\<dots> \<le> tail_score eng val empty_threat x + (?y - x)"
    unfolding tail_score_none by (rule floor_cap_lipschitz(1) [OF y(1)])
  finally show ?thesis using y(2) by linarith
qed

lemma tail_score_high:
  assumes "tail_score eng val empty_threat x < tc_high (fe_thresholds eng)"
  shows "tail_score eng val t x < tc_high (fe_thresholds eng)"
proof (cases "val ''market_score'' = None \<or> or_zero (val ''market_score'') < 0.35")
  case True
  have "tail_score eng val t x \<le> tc_high (fe_thresholds eng) - 0.01"
    unfolding tail_score_def by (rule order_trans [OF threat_cap_le market_cap_below [OF True]])
  then show ?thesis by simp
next
  case False
  then have "x < tc_high (fe_thresholds eng)"
    using assms floor_ge [of x "fe_thresholds eng" "val ''market_score''" "val ''coordination_score''"]
    by (auto simp: tail_score_none market_cap_stage_def)
  show ?thesis
  proof (cases "th_status t = threat_matched")
    case True
    have "tail_score eng val t x \<le> tc_high (fe_thresholds eng) - 0.01"
      unfolding tail_score_def by (rule threat_cap_below [OF True \<open>x < tc_high (fe_thresholds eng)\<close>])
    then show ?thesis by simp
  next
    case False
    then have "tail_score eng val t x = tail_score eng val empty_threat x"
      by (simp add: tail_score_none) (simp add: tail_score_def threat_cap_stage_def threat_stage_def)
    with assms show ?thesis by simp
  qed
qed

end
