(* ===== verification/Fusion_Correct.thy ===== *)
theory Fusion_Correct
  imports Fusion_Facts
begin

text \<open>
  The properties of the fusion engine: it is total on validated input, it never reports a high
  or critical severity without market evidence, a critical severity is always corroborated,
  the decision trace accounts for the score, the threat uplift is bounded, and a legitimate
  event never raises the score.
\<close>

section \<open>A concrete input\<close>

definition sample_lineage :: feature_lineage where
  "sample_lineage = \<lparr>fl_lineage_id = ''lineage'', fl_source_event_ids = [''e1''],
     fl_source_event_min_time = Some 0, fl_source_event_max_time = Some 0,
     fl_source_count = 1, fl_source_hash = ''h''\<rparr>"

definition sample_snapshot :: feature_snapshot where
  "sample_snapshot = \<lparr>fs_feature_window_id = ''w'', fs_scope_id = ''LIVE'', fs_asset_id = ''ACME'',
     fs_window_start = 0, fs_window_end = seconds 60, fs_interval_seconds = 60, fs_revision = 1,
     fs_is_final = True, fs_revision_state = rs_final, fs_supersedes_revision = None,
     fs_feature_schema_version = FEATURE_SCHEMA_NAME,
     fs_feature_schema_hash = FEATURE_SCHEMA_HASH,
     fs_features = map (\<lambda>n. (n, Some 1)) FEATURE_NAMES, fs_lineage = sample_lineage\<rparr>"

definition out :: "string \<Rightarrow> real option \<Rightarrow> detector_output" where
  "out n v = detector_output n v ''v'' ''r'' (if v = None then Some mr_no_observations else None)"

definition sample_input :: "threat_context option \<Rightarrow> real option \<Rightarrow> fuse_input" where
  "sample_input threat legit = \<lparr>fi_claim_risk = None, fi_legitimate_event_score = legit,
     fi_graph_score = None, fi_threat_context = threat, fi_market_regime = ''CALM'',
     fi_market_regime_confidence = 1, fi_liquidity_class = ''LOW'', fi_liquidity_confidence = 1\<rparr>"

definition sample_threat :: threat_context where
  "sample_threat = \<lparr>th_status = threat_matched, th_score = Some 1, th_confidence = Some 1,
     th_snapshot_id = None, th_match_ids = [], th_cutoff = None\<rparr>"

lemma sample_snapshot_valid: "valid_snapshot sample_snapshot"
  by (simp add: valid_snapshot_def sample_snapshot_def comp_def)

lemma sample_input_valid: "threat = None \<or> threat = Some sample_threat \<Longrightarrow> input_valid (sample_input threat legit)"
  by (auto simp: input_valid_def sample_input_def threat_valid_def sample_threat_def)

section \<open>Totality\<close>

definition outputs_valid :: "detector_output list \<Rightarrow> bool" where
  "outputs_valid outs \<longleftrightarrow> list_all (\<lambda>d. opt_unit (do_score d)) outs"

lemma detector_value_unit:
  assumes "outputs_valid outs" "n \<noteq> ''graph_score''" "n \<noteq> ''claim_risk''"
  shows "opt_unit (detector_value outs claim graph n)"
  using assms
  by (auto simp: detector_value_def detector_lookup_def outputs_valid_def list_all_iff
      split: option.split dest!: map_of_SomeD)

lemma fuse_succeeds:
  assumes "engine_valid eng" "valid_snapshot snap" "outputs_valid outs" "input_valid inp"
  shows "\<exists>r. fuse eng now snap outs inp = Inr r"
proof -
  let ?val = "detector_value outs (fi_claim_risk inp) (fi_graph_score inp)"
  obtain b where b: "feature_item (fs_features snap) ''baseline_confidence'' = Inr b"
    using valid_feature_item [OF assms(2), of "''baseline_confidence''"]
    by (auto simp: FEATURE_NAMES_def)
  obtain q where q: "feature_item (fs_features snap) ''data_quality_score'' = Inr q"
    using valid_feature_item [OF assms(2), of "''data_quality_score''"]
    by (auto simp: FEATURE_NAMES_def)
  have "set stage_signal_names \<subseteq> set (map fst (fs_features snap))"
    using assms(2) by (simp add: valid_snapshot_def FEATURE_NAMES_def stage_signal_names_def)
  then obtain sig where sig: "stage_signals (fs_features snap) stage_signal_names = Inr sig"
    using stage_signals_ok by blast
  have market: "opt_unit (?val ''market_score'')"
    and social: "opt_unit (social_risk (?val ''social_score'') (?val ''coordination_score''))"
    using assms(3) by (auto intro!: detector_value_unit social_risk_unit)
  have nz: "\<not> (snd (weigh ?val (weight_items (fe_weights eng)) (0, 0)) = 0 \<and>
      list_ex (\<lambda>(n, w). ?val n \<noteq> None) (weight_items (fe_weights eng)))"
    using assms(1) by (intro no_zero_division) (simp add: engine_valid_def)
  have "fusion_result_valid (fusion_record eng now snap outs inp (or_zero b) (or_zero q) sig)"
    using market social assms(4) sc_final_unit [OF assms(1,4)] sc_raw_unit sc_confidence_unit
      enrichment_revision
    by (simp add: fusion_result_valid_def fusion_record_def Let_def input_valid_def del: One_nat_def)
  then show ?thesis
    using nz by (simp add: fuse_def Let_def b q sig build_fusion_result_def)
qed

text \<open>On validated input the engine never raises: with positive weights, thresholds in the
  unit interval, a snapshot that passed the schema and detector scores in the unit interval,
  \<open>fuse\<close> returns a result, whatever the claim risk, graph score and calibrator are.\<close>

theorem fuse_total:
  assumes "engine_valid eng" "valid_snapshot snap" "outputs_valid outs" "input_valid inp"
  shows "\<exists>r. fuse eng now snap outs inp = Inr r \<and> fusion_result_valid r \<and> unit_range (fr_fusion_score r)"
proof -
  obtain r where r: "fuse eng now snap outs inp = Inr r"
    using fuse_succeeds [OF assms] by blast
  then have "fusion_result_valid r" by (rule fuse_valid)
  with r show ?thesis by (auto simp: fusion_result_valid_def)
qed

theorem fuse_total_witness:
  "\<exists>r. fuse default_engine 0 sample_snapshot [out ''market_score'' (Some 1)]
     (sample_input (Some sample_threat) None) = Inr r \<and> fusion_result_valid r \<and> unit_range (fr_fusion_score r)"
  by (rule fuse_total)
    (simp_all add: sample_snapshot_valid sample_input_valid outputs_valid_def out_def)

section \<open>Severity needs market evidence\<close>

text \<open>C3. Without a market score of at least 0.35 the result is never above WATCH, whatever the
  social, coordination, temporal, claim, graph and threat evidence and the calibrator are.\<close>

theorem fuse_market_evidence:
  assumes "fuse eng now snap outs inp = Inr r"
    and "tc_high (fe_thresholds eng) \<le> tc_critical (fe_thresholds eng)"
    and "fr_market_score r = None \<or> or_zero (fr_market_score r) < 0.35"
  shows "fr_severity r \<le> risk_watch \<and> fr_fusion_score r \<le> tc_high (fe_thresholds eng) - 0.01"
proof -
  let ?sc = "run_scores eng snap outs inp"
  have cap: "sc_final ?sc \<le> tc_high (fe_thresholds eng) - 0.01"
    unfolding run_scores_def Let_def
    by (rule sc_final_market_cap) (use assms(3) fuse_market_score [OF assms(1)] in simp)
  then have "severity_of (fe_thresholds eng) (sc_final ?sc) \<le> risk_watch"
    using assms(2) by (intro severity_of_below) simp_all
  then have "fr_severity r \<le> risk_watch"
    unfolding fuse_severity [OF assms(1)] by (rule order_trans [OF severity_stage_le])
  with cap show ?thesis by (simp add: fuse_fusion_score [OF assms(1)])
qed

theorem fuse_market_evidence_witness:
  "\<exists>r. fuse default_engine 0 sample_snapshot [out ''social_score'' (Some 1)]
     (sample_input (Some sample_threat) None) = Inr r
   \<and> fr_severity r \<le> risk_watch \<and> fr_fusion_score r \<le> tc_high (fe_thresholds default_engine) - 0.01"
proof -
  obtain r where r: "fuse default_engine 0 sample_snapshot [out ''social_score'' (Some 1)]
      (sample_input (Some sample_threat) None) = Inr r"
    using fuse_succeeds [of default_engine sample_snapshot "[out ''social_score'' (Some 1)]"
        "sample_input (Some sample_threat) None" 0]
    by (auto simp: sample_snapshot_valid sample_input_valid outputs_valid_def out_def)
  have "fr_market_score r = None"
    using fuse_market_score [OF r] by (simp add: detector_value_def detector_lookup_def out_def)
  then show ?thesis
    using r fuse_market_evidence [OF r]
    by (simp add: default_engine_def default_thresholds_def)
qed

text \<open>C29. A critical result is corroborated: the market score is at least 0.65, one of the social,
  coordination, temporal, claim and graph scores is at least 0.55, the confidence is at least
  0.4 and the score reached the critical threshold.\<close>

theorem fuse_critical_corroborated:
  assumes "fuse eng now snap outs inp = Inr r" "fr_severity r = risk_critical"
  shows "tc_critical (fe_thresholds eng) \<le> fr_fusion_score r \<and> 0.4 \<le> fr_confidence r \<and>
    (\<exists>v. fr_market_score r = Some v \<and> 0.65 \<le> v) \<and>
    (\<exists>x \<in> {fr_social_score r, fr_coordination_score r, fr_temporal_score r, fr_claim_risk r,
       fr_graph_score r}. \<exists>v. x = Some v \<and> 0.55 \<le> v)"
proof -
  let ?val = "detector_value outs (fi_claim_risk inp) (fi_graph_score inp)"
  let ?co = "corroborating ?val (fi_claim_risk inp) (fi_graph_score inp)"
  let ?sc = "run_scores eng snap outs inp"
  have *: "tc_critical (fe_thresholds eng) \<le> sc_final ?sc \<and>
      (\<exists>v. ?val ''market_score'' = Some v \<and> 0.65 \<le> v) \<and> ?co \<and> 0.4 \<le> sc_confidence ?sc"
    using fuse_severity [OF assms(1)] assms(2) by (intro severity_stage_critical) simp
  then have "\<exists>x \<in> {?val ''social_score'', ?val ''coordination_score'', ?val ''temporal_score'',
      fi_claim_risk inp, fi_graph_score inp}. \<exists>v. x = Some v \<and> 0.55 \<le> v"
    by (auto simp: corroborating_def)
  with * show ?thesis
    by (simp only: fuse_fusion_score [OF assms(1)] fuse_confidence [OF assms(1)]
        fuse_market_score [OF assms(1)] fuse_social_score [OF assms(1)]
        fuse_coordination_score [OF assms(1)] fuse_temporal_score [OF assms(1)]
        fuse_claim_risk [OF assms(1)] fuse_graph_score [OF assms(1)] simp_thms)
qed

theorem fuse_critical_corroborated_witness:
  "\<exists>r. fuse default_engine 0 sample_snapshot
       [out ''market_score'' (Some 1), out ''social_score'' (Some 1), out ''coordination_score'' (Some 1),
        out ''temporal_score'' (Some 1)] (sample_input None None) = Inr r
   \<and> fr_severity r = risk_critical \<and> 0.4 \<le> fr_confidence r"
proof -
  let ?outs = "[out ''market_score'' (Some 1), out ''social_score'' (Some 1),
      out ''coordination_score'' (Some 1), out ''temporal_score'' (Some 1)]"
  obtain r where r: "fuse default_engine 0 sample_snapshot ?outs (sample_input None None) = Inr r"
    using fuse_succeeds [of default_engine sample_snapshot ?outs "sample_input None None" 0]
    by (auto simp: sample_snapshot_valid sample_input_valid outputs_valid_def out_def)
  let ?val = "detector_value ?outs None None"
  have val: "?val ''market_score'' = Some 1" "?val ''social_score'' = Some 1"
    "?val ''coordination_score'' = Some 1" "?val ''temporal_score'' = Some 1"
    "?val ''claim_risk'' = None" "?val ''graph_score'' = None"
    by (simp_all add: detector_value_def detector_lookup_def out_def)
  have inp: "fi_claim_risk (sample_input None None) = None"
    "fi_graph_score (sample_input None None) = None"
    "fi_legitimate_event_score (sample_input None None) = None"
    "fi_threat_context (sample_input None None) = None"
    by (simp_all add: sample_input_def)
  have fs: "feature_get (fs_features sample_snapshot) ''baseline_confidence'' = Some 1"
    "feature_get (fs_features sample_snapshot) ''data_quality_score'' = Some 1"
    by (simp_all add: sample_snapshot_def FEATURE_NAMES_def feature_get_def)
  have w: "weigh ?val (weight_items default_weights) (0, 0) = (0.78, 0.78)"
    by (simp add: weight_items_def default_weights_def val)
  have eng: "fe_weights default_engine = default_weights" "fe_calibrator default_engine = None"
    "tc_critical (fe_thresholds default_engine) = 0.8"
    by (simp_all add: default_engine_def default_thresholds_def)
  have sc: "sc_final (run_scores default_engine sample_snapshot ?outs (sample_input None None)) = 1"
    "sc_confidence (run_scores default_engine sample_snapshot ?outs (sample_input None None)) = 4 / 7"
    unfolding run_scores_def Let_def inp fs
    by (simp_all add: fuse_scores_sel inp eng w val calibrate_stage_def calibrated_with_def
        legitimate_stage_def threat_stage_def empty_threat_def threat_cap_stage_def
        market_cap_stage_def watch_floor_stage_def Let_def base_confidence_def clamp_def
        missing_outputs_def default_engine_def default_thresholds_def)
  have c: "fr_severity r = risk_critical"
    unfolding fuse_severity [OF r] inp sc val
    by (simp add: severity_stage_def severity_of_def Let_def eng corroborating_def val)
  then show ?thesis
    using r fuse_critical_corroborated [OF r c] by auto
qed

section \<open>The decision trace accounts for the score\<close>

text \<open>The decision trace is complete: the signed contributions of its components add up to
  the raw weighted score, and the effective weights add up to one unless every component is
  missing, when they are all zero.\<close>

theorem fuse_trace_accounts:
  assumes "fuse eng now snap outs inp = Inr r" "weights_valid (fe_weights eng)"
  shows "(\<Sum>c\<leftarrow>dt_components (fr_decision_trace r). tr_contribution c)
      = dt_raw_weighted_score (fr_decision_trace r) \<and>
    (\<Sum>c\<leftarrow>dt_components (fr_decision_trace r). tr_effective_weight c)
      = (if list_all tr_missing (dt_components (fr_decision_trace r)) then 0 else 1)"
proof -
  let ?val = "detector_value outs (fi_claim_risk inp) (fi_graph_score inp)"
  let ?items = "weight_items (fe_weights eng)"
  let ?W = "\<Sum>i\<leftarrow>present ?val ?items. snd i"
  have W: "snd (weigh ?val ?items (0, 0)) = ?W"
    "fst (weigh ?val ?items (0, 0)) = (\<Sum>i\<leftarrow>present ?val ?items. or_zero (?val (fst i)) * snd i)"
    by (simp_all add: weigh_eq)
  have none: "list_all tr_missing (dt_components (fr_decision_trace r)) \<longleftrightarrow> present ?val ?items = []"
    by (auto simp: fuse_components [OF assms(1)] list_all_iff present_def filter_empty_conv)
  have zero: "?W = 0 \<longleftrightarrow> present ?val ?items = []"
    using weigh_zero_iff [OF assms(2), of ?val] by (simp only: W)
  have "dt_raw_weighted_score (fr_decision_trace r)
      = (if ?W \<noteq> 0 then (\<Sum>i\<leftarrow>present ?val ?items. or_zero (?val (fst i)) * snd i) / ?W else 0)"
    by (simp add: fuse_raw_weighted [OF assms(1)] run_scores_def Let_def fuse_scores_sel W)
  moreover have "(\<Sum>c\<leftarrow>dt_components (fr_decision_trace r). tr_contribution c)
      = (\<Sum>i\<leftarrow>present ?val ?items. or_zero (?val (fst i)) * snd i) / ?W"
    by (simp only: fuse_components [OF assms(1)] map_map comp_def contribution_sum W)
  moreover have "(\<Sum>c\<leftarrow>dt_components (fr_decision_trace r). tr_effective_weight c) = ?W / ?W"
    by (simp only: fuse_components [OF assms(1)] map_map comp_def effective_weight_sum W)
  ultimately show ?thesis
    using zero unfolding none by auto
qed

theorem fuse_trace_accounts_witness:
  "\<exists>r. fuse default_engine 0 sample_snapshot [out ''market_score'' (Some 1)]
     (sample_input None None) = Inr r \<and>
   (\<Sum>c\<leftarrow>dt_components (fr_decision_trace r). tr_contribution c)
     = dt_raw_weighted_score (fr_decision_trace r)"
proof -
  obtain r where r: "fuse default_engine 0 sample_snapshot [out ''market_score'' (Some 1)]
      (sample_input None None) = Inr r"
    using fuse_succeeds [of default_engine sample_snapshot "[out ''market_score'' (Some 1)]"
        "sample_input None None" 0]
    by (auto simp: sample_snapshot_valid sample_input_valid outputs_valid_def out_def)
  have "weights_valid (fe_weights default_engine)" by (simp add: default_engine_def)
  from fuse_trace_accounts [OF r this] r show ?thesis by blast
qed

section \<open>Threat context and legitimate events\<close>

lemma missing_outputs_threat:
  "run_scores eng snap outs (inp\<lparr>fi_threat_context := t\<rparr>) =
    (let val = detector_value outs (fi_claim_risk inp) (fi_graph_score inp)
     in fuse_scores eng val (inp\<lparr>fi_threat_context := t\<rparr>)
          (length (missing_outputs val (detector_lookup outs) (fi_claim_risk inp)
             (fi_legitimate_event_score inp) (fi_graph_score inp)))
          (or_zero (feature_get (fs_features snap) ''baseline_confidence''))
          (or_zero (feature_get (fs_features snap) ''data_quality_score'')))"
  by (simp add: run_scores_def)

text \<open>Threat intelligence only corroborates: compared with the same evidence and no threat
  context, a threat context raises the fusion score by at most the configured cap, and it never
  lifts a score from below the HIGH threshold to or above it.\<close>

theorem fuse_threat_bounded:
  assumes "fuse eng now snap outs (inp\<lparr>fi_threat_context := Some t\<rparr>) = Inr r"
    and "fuse eng now snap outs (inp\<lparr>fi_threat_context := None\<rparr>) = Inr r0"
    and "engine_valid eng" "threat_valid t"
  shows "fr_fusion_score r \<le> fr_fusion_score r0 + fe_threat_uplift_cap eng \<and>
    (fr_fusion_score r0 < tc_high (fe_thresholds eng) \<longrightarrow>
     fr_fusion_score r < tc_high (fe_thresholds eng))"
proof -
  let ?val = "detector_value outs (fi_claim_risk inp) (fi_graph_score inp)"
  let ?sc = "\<lambda>t. run_scores eng snap outs (inp\<lparr>fi_threat_context := t\<rparr>)"
  let ?x = "sc_threat_before (?sc (Some t))"
  have x: "sc_threat_before (?sc None) = ?x" "unit_range ?x"
    unfolding missing_outputs_threat Let_def
    by (simp add: fuse_scores_sel) (rule sc_threat_before_unit)
  have r: "fr_fusion_score r = tail_score eng ?val t ?x"
    by (simp add: fuse_fusion_score [OF assms(1)] missing_outputs_threat Let_def sc_final_tail)
  have r0: "fr_fusion_score r0 = tail_score eng ?val empty_threat ?x"
    unfolding x(1) [symmetric]
    by (simp add: fuse_fusion_score [OF assms(2)] missing_outputs_threat Let_def sc_final_tail)
  have "0 \<le> fe_threat_uplift_cap eng" using assms(3) by (simp add: engine_valid_def)
  then show ?thesis
    unfolding r r0 using tail_score_uplift [OF x(2) assms(4)] tail_score_high by blast
qed

theorem fuse_threat_bounded_witness:
  "\<exists>r r0. fuse default_engine 0 sample_snapshot [out ''market_score'' (Some 0.5)]
       (sample_input (Some sample_threat) None) = Inr r
   \<and> fuse default_engine 0 sample_snapshot [out ''market_score'' (Some 0.5)]
       (sample_input None None) = Inr r0
   \<and> fr_fusion_score r \<le> fr_fusion_score r0 + 0.1"
proof -
  let ?outs = "[out ''market_score'' (Some 0.5)]"
  have inp: "sample_input (Some sample_threat) None
      = (sample_input None None)\<lparr>fi_threat_context := Some sample_threat\<rparr>"
    "sample_input None None = (sample_input None None)\<lparr>fi_threat_context := None\<rparr>"
    by (simp_all add: sample_input_def)
  have ok: "\<exists>r. fuse default_engine 0 sample_snapshot ?outs (sample_input th None) = Inr r"
    if "th = None \<or> th = Some sample_threat" for th
    using that by (intro fuse_succeeds)
      (auto simp: sample_snapshot_valid sample_input_valid outputs_valid_def out_def unit_range_def)
  obtain r r0 where r: "fuse default_engine 0 sample_snapshot ?outs (sample_input (Some sample_threat) None) = Inr r"
    and r0: "fuse default_engine 0 sample_snapshot ?outs (sample_input None None) = Inr r0"
    using ok [of None] ok [of "Some sample_threat"] by auto
  have t: "threat_valid sample_threat" by (simp add: threat_valid_def sample_threat_def)
  have r0': "fuse default_engine 0 sample_snapshot ?outs
      ((sample_input None None)\<lparr>fi_threat_context := None\<rparr>) = Inr r0"
    by (subst inp(2) [symmetric]) (rule r0)
  have "fr_fusion_score r \<le> fr_fusion_score r0 + fe_threat_uplift_cap default_engine"
    using fuse_threat_bounded [OF r [unfolded inp(1)] r0' default_engine_valid t] by blast
  with r r0 show ?thesis by (auto simp: default_engine_def)
qed

text \<open>A legitimate event never raises the risk: raising the legitimate-event score, all
  other evidence equal, never raises the fusion score.\<close>

theorem fuse_legitimate_antimono:
  assumes "fuse eng now snap outs (inp\<lparr>fi_legitimate_event_score := Some a\<rparr>) = Inr ra"
    and "fuse eng now snap outs (inp\<lparr>fi_legitimate_event_score := Some b\<rparr>) = Inr rb"
    and "a \<le> b"
  shows "fr_fusion_score rb \<le> fr_fusion_score ra"
proof -
  let ?sc = "\<lambda>l. run_scores eng snap outs (inp\<lparr>fi_legitimate_event_score := Some l\<rparr>)"
  have "sc_threat_before (?sc b) \<le> sc_threat_before (?sc a)"
    unfolding run_scores_def Let_def fuse_scores_sel
    by (auto simp: missing_outputs_def assms(3) intro!: legitimate_stage_antimono calibrate_stage_unit)
  then show ?thesis
    unfolding fuse_fusion_score [OF assms(1)] fuse_fusion_score [OF assms(2)] run_scores_def Let_def
      sc_final_tail
    by (simp add: tail_score_mono)
qed

theorem fuse_legitimate_antimono_witness:
  "\<exists>ra rb. fuse default_engine 0 sample_snapshot [out ''market_score'' (Some 0.5)]
       (sample_input None (Some 0)) = Inr ra
   \<and> fuse default_engine 0 sample_snapshot [out ''market_score'' (Some 0.5)]
       (sample_input None (Some 1)) = Inr rb
   \<and> fr_fusion_score rb \<le> fr_fusion_score ra"
proof -
  let ?outs = "[out ''market_score'' (Some 0.5)]"
  have inp: "sample_input None (Some l) = (sample_input None None)\<lparr>fi_legitimate_event_score := Some l\<rparr>" for l
    by (simp add: sample_input_def)
  have ok: "\<exists>r. fuse default_engine 0 sample_snapshot ?outs (sample_input None l) = Inr r" for l
    by (intro fuse_succeeds)
      (auto simp: sample_snapshot_valid sample_input_valid outputs_valid_def out_def unit_range_def)
  obtain ra rb where r: "fuse default_engine 0 sample_snapshot ?outs (sample_input None (Some 0)) = Inr ra"
      "fuse default_engine 0 sample_snapshot ?outs (sample_input None (Some 1)) = Inr rb"
    using ok [of "Some 0"] ok [of "Some 1"] by auto
  from fuse_legitimate_antimono [OF r [unfolded inp]] r show ?thesis by auto
qed

end
