(* ===== verification/Campaign_Policy.thy ===== *)
theory Campaign_Policy
  imports Fusion_Types "HOL-Library.List_Lexorder" "HOL-Library.Char_ord"
begin

text \<open>
  The campaign stage machine of \<open>campaigns/policy.py\<close>: the table of allowed transitions, the
  rules that choose the next stage from a fusion result, the stage confidence, the reason codes
  and the alert triggers, composed by \<open>assess\<close>.
\<close>

datatype campaign_stage =
    st_normal | st_early_social_seeding | st_coordinated_amplification | st_market_pump
  | st_possible_distribution | st_dump | st_post_event

definition stage_value :: "campaign_stage \<Rightarrow> string" where
  "stage_value s = (case s of
      st_normal \<Rightarrow> ''NORMAL'' | st_early_social_seeding \<Rightarrow> ''EARLY_SOCIAL_SEEDING''
    | st_coordinated_amplification \<Rightarrow> ''COORDINATED_AMPLIFICATION''
    | st_market_pump \<Rightarrow> ''MARKET_PUMP'' | st_possible_distribution \<Rightarrow> ''POSSIBLE_DISTRIBUTION''
    | st_dump \<Rightarrow> ''DUMP'' | st_post_event \<Rightarrow> ''POST_EVENT'')"

datatype alert_type =
    at_social_hype_surge | at_coordinated_promotion | at_unverified_narrative
  | at_market_volume_anomaly | at_market_price_anomaly | at_market_microstructure_anomaly
  | at_cross_domain_manipulation_risk | at_possible_dump_phase

definition alert_type_value :: "alert_type \<Rightarrow> string" where
  "alert_type_value t = (case t of
      at_social_hype_surge \<Rightarrow> ''SOCIAL_HYPE_SURGE''
    | at_coordinated_promotion \<Rightarrow> ''COORDINATED_PROMOTION''
    | at_unverified_narrative \<Rightarrow> ''UNVERIFIED_NARRATIVE''
    | at_market_volume_anomaly \<Rightarrow> ''MARKET_VOLUME_ANOMALY''
    | at_market_price_anomaly \<Rightarrow> ''MARKET_PRICE_ANOMALY''
    | at_market_microstructure_anomaly \<Rightarrow> ''MARKET_MICROSTRUCTURE_ANOMALY''
    | at_cross_domain_manipulation_risk \<Rightarrow> ''CROSS_DOMAIN_MANIPULATION_RISK''
    | at_possible_dump_phase \<Rightarrow> ''POSSIBLE_DUMP_PHASE'')"

record alert_trigger =
  tg_alert_type :: alert_type
  tg_severity :: risk_level
  tg_reason :: string

record campaign_assessment =
  ca_next_stage :: campaign_stage
  ca_transition_reason :: string
  ca_stage_confidence :: real
  ca_reason_codes :: "string list"
  ca_stage_evidence_ids :: "string list"
  ca_rule_version :: string
  ca_alerts :: "alert_trigger list"

definition stage_rules_version :: string where
  "stage_rules_version = ''campaign-stage-rules-v2''"

definition transitions :: "campaign_stage \<Rightarrow> campaign_stage set" where
  "transitions s = (case s of
      st_normal \<Rightarrow> {st_normal, st_early_social_seeding}
    | st_early_social_seeding \<Rightarrow> {st_normal, st_early_social_seeding,
        st_coordinated_amplification, st_market_pump, st_post_event}
    | st_coordinated_amplification \<Rightarrow> {st_coordinated_amplification, st_market_pump, st_dump,
        st_post_event}
    | st_market_pump \<Rightarrow> {st_market_pump, st_possible_distribution, st_dump}
    | st_possible_distribution \<Rightarrow> {st_possible_distribution, st_dump, st_post_event}
    | st_dump \<Rightarrow> {st_dump, st_post_event}
    | st_post_event \<Rightarrow> {st_post_event})"

definition validate :: "campaign_stage \<Rightarrow> campaign_stage \<Rightarrow> unit res" where
  "validate current target =
    (if target \<notin> transitions current
     then Inl (InvalidCampaignTransition (stage_value current) (stage_value target))
     else Inr ())"

text \<open>\<open>a or b or 0.0\<close>: an absent or zero first value falls through to the second.\<close>

definition or_else :: "real option \<Rightarrow> real option \<Rightarrow> real" where
  "or_else a b = (if or_zero a \<noteq> 0 then or_zero a else or_zero b)"

definition next_stage :: "campaign_stage \<Rightarrow> fusion_result \<Rightarrow> campaign_stage \<times> string" where
  "next_stage current score =
    (let price_return = number (fr_stage_signals score) ''price_return'';
         pressure = number (fr_stage_signals score) ''buy_sell_pressure'';
         social = or_else (fr_social_coordination_risk score) (fr_social_score score);
         coordination = or_zero (fr_coordination_score score);
         market_risk = or_zero (fr_market_anomaly_risk score);
         high_rank = risk_rank (fr_severity score) \<ge> risk_rank risk_high;
         calm = fr_severity score = risk_normal
     in case current of
       st_normal \<Rightarrow>
         if social \<ge> 0.35
         then (st_early_social_seeding, ''social activity crossed watch threshold'')
         else (current, ''no campaign signal'')
     | st_early_social_seeding \<Rightarrow>
         if market_risk \<ge> 0.60 \<and> high_rank
         then (st_market_pump, ''market evidence justified guarded stage skip'')
         else if coordination \<ge> 0.55
         then (st_coordinated_amplification, ''coordination corroborated social seeding'')
         else if calm \<and> social < 0.20
         then (st_normal, ''social signal decayed before corroboration'')
         else (current, ''social seeding persists'')
     | st_coordinated_amplification \<Rightarrow>
         if price_return \<le> -0.08
         then (st_dump, ''sharp reversal justified guarded dump transition'')
         else if market_risk \<ge> 0.60 \<and> high_rank
         then (st_market_pump, ''market anomaly corroborated coordination'')
         else if calm \<and> social < 0.20
         then (st_post_event, ''coordinated activity ended without a pump'')
         else (current, ''coordinated amplification persists'')
     | st_market_pump \<Rightarrow>
         if price_return \<le> -0.08
         then (st_dump, ''price reversal crossed dump threshold'')
         else if pressure \<le> -0.25 \<or> price_return < -0.02
         then (st_possible_distribution,
               ''sell-pressure proxies indicate possible distribution'')
         else (current, ''pump conditions persist'')
     | st_possible_distribution \<Rightarrow>
         if price_return \<le> -0.08 \<or> pressure \<le> -0.50
         then (st_dump, ''possible distribution progressed to a sharp selloff'')
         else if calm
         then (st_post_event, ''possible distribution signal decayed'')
         else (current, ''possible distribution conditions persist'')
     | st_dump \<Rightarrow>
         if calm then (st_post_event, ''dump activity returned to baseline'')
         else (current, ''campaign remains in terminal monitoring'')
     | st_post_event \<Rightarrow> (current, ''campaign remains in terminal monitoring''))"

definition stage_confidence :: "campaign_stage \<Rightarrow> fusion_result \<Rightarrow> real" where
  "stage_confidence s score =
    (let market_risk = or_zero (fr_market_anomaly_risk score);
         social = or_zero (fr_social_coordination_risk score);
         coordination = or_zero (fr_coordination_score score)
     in if s = st_normal then max 0 (1 - fr_fusion_score score)
        else if s = st_early_social_seeding then social
        else if s = st_coordinated_amplification then max social coordination
        else if s \<in> {st_market_pump, st_possible_distribution, st_dump}
        then max market_risk (fr_confidence score)
        else fr_confidence score)"

definition reason_codes :: "campaign_stage \<Rightarrow> fusion_result \<Rightarrow> string list" where
  "reason_codes s score =
    (let signals = fr_stage_signals score;
         codes =
           (if number signals ''price_return'' \<ge> 0.08 then [''ABNORMAL_RETURN''] else [])
         @ (if number signals ''relative_volume'' \<ge> 2.5 then [''RELATIVE_VOLUME''] else [])
         @ (if or_zero (fr_social_coordination_risk score) \<ge> 0.35 then [''SOCIAL_COORDINATION'']
            else [])
         @ (if number signals ''buy_sell_pressure'' \<le> -0.25 then [''SELL_PRESSURE_PROXY''] else [])
         @ (if s = st_possible_distribution then [''PUBLIC_DATA_PROXY_ONLY''] else [])
     in sort (remdups codes))"

definition trigger :: "alert_type \<Rightarrow> risk_level \<Rightarrow> string \<Rightarrow> alert_trigger" where
  "trigger t s r = \<lparr>tg_alert_type = t, tg_severity = s, tg_reason = r\<rparr>"

definition alerts :: "fusion_result \<Rightarrow> alert_trigger list" where
  "alerts score =
    (let signals = fr_stage_signals score;
         market_risk = or_zero (fr_market_anomaly_risk score);
         social = or_zero (fr_social_coordination_risk score);
         coordination = or_zero (fr_coordination_score score);
         price_return = number signals ''price_return'';
         relative_volume = number signals ''relative_volume'';
         spread = number signals ''spread'';
         imbalance = number signals ''orderbook_imbalance'';
         pressure = number signals ''buy_sell_pressure''
     in (if social \<ge> 0.35
         then [trigger at_social_hype_surge (fr_social_coordination_severity score)
                 ''social hype or author concentration crossed threshold''] else [])
      @ (if coordination \<ge> 0.55
         then [trigger at_coordinated_promotion (fr_social_coordination_severity score)
                 ''coordination heuristics crossed threshold''] else [])
      @ (if or_zero (fr_claim_risk score) \<ge> 0.60
         then [trigger at_unverified_narrative (max_risk risk_watch (fr_severity score))
                 ''narrative lacked time-valid official support''] else [])
      @ (if market_risk \<ge> 0.35 \<and> relative_volume \<ge> 2.5
         then [trigger at_market_volume_anomaly (fr_market_anomaly_severity score)
                 ''relative market volume crossed threshold''] else [])
      @ (if \<bar>price_return\<bar> \<ge> 0.08
         then [trigger at_market_price_anomaly (fr_market_anomaly_severity score)
                 ''absolute price return crossed threshold''] else [])
      @ (if spread \<ge> 0.02 \<or> \<bar>imbalance\<bar> \<ge> 0.70
         then [trigger at_market_microstructure_anomaly (fr_market_anomaly_severity score)
                 ''spread or order-book imbalance crossed threshold''] else [])
      @ (if fr_fusion_score score \<ge> 0.35 \<and> market_risk \<ge> 0.35 \<and> social \<ge> 0.35
         then [trigger at_cross_domain_manipulation_risk (fr_severity score)
                 ''market and social evidence corroborated each other''] else [])
      @ (if price_return \<le> -0.05 \<or> pressure \<le> -0.35
         then [trigger at_possible_dump_phase (max_risk risk_watch (fr_market_anomaly_severity score))
                 ''negative return or sell pressure indicates a possible dump''] else []))"

text \<open>\<open>assess\<close>: the transition is validated, then the assessment is built, whose confidence must
  lie in the unit interval.\<close>

definition assess :: "campaign_stage \<Rightarrow> fusion_result \<Rightarrow> campaign_assessment res" where
  "assess current score =
    (let (target, reason) = next_stage current score
     in case validate current target of
          Inl e \<Rightarrow> Inl e
        | Inr _ \<Rightarrow>
            if unit_range (stage_confidence target score)
            then Inr \<lparr>ca_next_stage = target, ca_transition_reason = reason,
                  ca_stage_confidence = stage_confidence target score,
                  ca_reason_codes = reason_codes target score,
                  ca_stage_evidence_ids =
                    (if fr_idempotency_key score \<noteq> [] then [fr_idempotency_key score] else []),
                  ca_rule_version = stage_rules_version, ca_alerts = alerts score\<rparr>
            else Inl (ValidationError ''stage_confidence''))"

section \<open>Alerts as a guarded table\<close>

definition alert_table :: "fusion_result \<Rightarrow> (bool \<times> alert_trigger) list" where
  "alert_table score =
    (let signals = fr_stage_signals score;
         market_risk = or_zero (fr_market_anomaly_risk score);
         social = or_zero (fr_social_coordination_risk score);
         price_return = number signals ''price_return''
     in [(social \<ge> 0.35, trigger at_social_hype_surge (fr_social_coordination_severity score)
            ''social hype or author concentration crossed threshold''),
         (or_zero (fr_coordination_score score) \<ge> 0.55,
          trigger at_coordinated_promotion (fr_social_coordination_severity score)
            ''coordination heuristics crossed threshold''),
         (or_zero (fr_claim_risk score) \<ge> 0.60,
          trigger at_unverified_narrative (max_risk risk_watch (fr_severity score))
            ''narrative lacked time-valid official support''),
         (market_risk \<ge> 0.35 \<and> number signals ''relative_volume'' \<ge> 2.5,
          trigger at_market_volume_anomaly (fr_market_anomaly_severity score)
            ''relative market volume crossed threshold''),
         (\<bar>price_return\<bar> \<ge> 0.08,
          trigger at_market_price_anomaly (fr_market_anomaly_severity score)
            ''absolute price return crossed threshold''),
         (number signals ''spread'' \<ge> 0.02 \<or> \<bar>number signals ''orderbook_imbalance''\<bar> \<ge> 0.70,
          trigger at_market_microstructure_anomaly (fr_market_anomaly_severity score)
            ''spread or order-book imbalance crossed threshold''),
         (fr_fusion_score score \<ge> 0.35 \<and> market_risk \<ge> 0.35 \<and> social \<ge> 0.35,
          trigger at_cross_domain_manipulation_risk (fr_severity score)
            ''market and social evidence corroborated each other''),
         (price_return \<le> -0.05 \<or> number signals ''buy_sell_pressure'' \<le> -0.35,
          trigger at_possible_dump_phase (max_risk risk_watch (fr_market_anomaly_severity score))
            ''negative return or sell pressure indicates a possible dump'')])"

lemma guarded_Cons:
  "map snd (filter fst ((c, t) # xs)) = (if c then [t] else []) @ map snd (filter fst xs)"
  by simp

lemma guarded_Nil: "map snd (filter fst []) = []"
  by simp

lemma alerts_eq_table: "alerts score = map snd (filter fst (alert_table score))"
  unfolding alerts_def alert_table_def Let_def
  by (simp only: guarded_Cons guarded_Nil append_Nil2)

lemma alert_table_types:
  "map (tg_alert_type \<circ> snd) (alert_table score) =
    [at_social_hype_surge, at_coordinated_promotion, at_unverified_narrative,
     at_market_volume_anomaly, at_market_price_anomaly, at_market_microstructure_anomaly,
     at_cross_domain_manipulation_risk, at_possible_dump_phase]"
  by (simp add: alert_table_def Let_def trigger_def)

lemma distinct_map_filter_snd:
  "distinct (map (f \<circ> snd) xs) \<Longrightarrow> distinct (map f (map snd (filter P xs)))"
  by (simp add: distinct_map_filter comp_def)

lemma alerts_distinct: "distinct (map tg_alert_type (alerts score))"
  unfolding alerts_eq_table
  by (rule distinct_map_filter_snd) (simp only: alert_table_types, simp)

lemma alert_type_iff:
  "ty \<in> set (map tg_alert_type (alerts score)) \<longleftrightarrow>
     list_ex (\<lambda>p. fst p \<and> tg_alert_type (snd p) = ty) (alert_table score)"
  by (auto simp: alerts_eq_table list_ex_iff)

lemma alert_severities:
  assumes "t \<in> set (alerts score)" "tg_alert_type t \<in> {at_unverified_narrative, at_possible_dump_phase}"
  shows "risk_watch \<le> tg_severity t"
proof -
  have "list_all (\<lambda>p. tg_alert_type (snd p) \<in> {at_unverified_narrative, at_possible_dump_phase} \<longrightarrow>
      risk_watch \<le> tg_severity (snd p)) (alert_table score)"
    by (simp add: alert_table_def Let_def trigger_def)
  with assms show ?thesis by (auto simp: alerts_eq_table list_all_iff)
qed

lemma cross_domain_hype:
  "at_cross_domain_manipulation_risk \<in> set (map tg_alert_type (alerts score)) \<Longrightarrow>
   at_social_hype_surge \<in> set (map tg_alert_type (alerts score))"
  unfolding alert_type_iff by (simp add: alert_table_def Let_def trigger_def)

section \<open>Transitions\<close>

lemma next_stage_allowed: "fst (next_stage current score) \<in> transitions current"
  by (cases current) (simp_all add: next_stage_def transitions_def Let_def)

lemma early_not_post: "fst (next_stage st_early_social_seeding score) \<noteq> st_post_event"
  by (simp add: next_stage_def Let_def)

lemma assess_Inr:
  assumes "assess current score = Inr a"
  shows "ca_next_stage a = fst (next_stage current score)"
    "ca_transition_reason a = snd (next_stage current score)"
    "ca_next_stage a \<in> transitions current" "unit_range (ca_stage_confidence a)"
    "ca_alerts a = alerts score"
  using assms next_stage_allowed [of current score]
  by (auto simp: assess_def validate_def split_beta Let_def split: if_splits)

text \<open>Stages in the order a campaign goes through them.\<close>

definition stage_rank :: "campaign_stage \<Rightarrow> nat" where
  "stage_rank s = (case s of st_normal \<Rightarrow> 0 | st_early_social_seeding \<Rightarrow> 1
    | st_coordinated_amplification \<Rightarrow> 2 | st_market_pump \<Rightarrow> 3 | st_possible_distribution \<Rightarrow> 4
    | st_dump \<Rightarrow> 5 | st_post_event \<Rightarrow> 6)"

lemma transitions_rank:
  "t \<in> transitions s \<Longrightarrow> stage_rank s \<le> stage_rank t \<or> (s = st_early_social_seeding \<and> t = st_normal)"
  by (cases s; cases t) (simp_all add: transitions_def stage_rank_def)

lemma transitions_refl: "s \<in> transitions s"
  by (cases s) (simp_all add: transitions_def)

text \<open>Runs of the machine over any sequence of fusion results.\<close>

inductive stage_step :: "campaign_stage \<Rightarrow> campaign_stage \<Rightarrow> bool" where
  stage_step: "fst (next_stage s score) = t \<Longrightarrow> stage_step s t"

inductive_simps stage_step_iff: "stage_step s t"

inductive stage_run :: "campaign_stage \<Rightarrow> campaign_stage \<Rightarrow> bool" where
  run_refl: "stage_run s s"
| run_step: "stage_run s t \<Longrightarrow> stage_step t u \<Longrightarrow> stage_run s u"

lemma stage_step_rank:
  "stage_step s t \<Longrightarrow> stage_rank s \<le> stage_rank t \<or> (s = st_early_social_seeding \<and> t = st_normal)"
  using next_stage_allowed transitions_rank by (auto simp: stage_step_iff)

lemma stage_run_rank:
  "stage_run s t \<Longrightarrow> 2 \<le> stage_rank s \<Longrightarrow> stage_rank s \<le> stage_rank t"
proof (induction rule: stage_run.induct)
  case (run_refl s)
  then show ?case by simp
next
  case (run_step s t u)
  then have "stage_rank s \<le> stage_rank t" by simp
  moreover have "t \<noteq> st_early_social_seeding"
    using run_step.prems \<open>stage_rank s \<le> stage_rank t\<close> by (auto simp: stage_rank_def)
  ultimately show ?case
    using stage_step_rank [OF run_step.hyps(2)] by auto
qed

lemma stage_confidence_unit:
  assumes valid: "fusion_result_valid score" and co: "opt_unit (fr_coordination_score score)"
  shows "unit_range (stage_confidence s score)"
proof -
  have "unit_range (or_zero (fr_market_anomaly_risk score))"
    "unit_range (or_zero (fr_social_coordination_risk score))"
    "unit_range (or_zero (fr_coordination_score score))"
    "unit_range (fr_confidence score)" "unit_range (fr_fusion_score score)"
    using valid co by (simp_all add: fusion_result_valid_def opt_unit_or_zero)
  then show ?thesis
    unfolding stage_confidence_def Let_def
    by (simp add: unit_range_max unit_range_compl)
qed

lemma assess_valid_ok:
  assumes "fusion_result_valid score" "opt_unit (fr_coordination_score score)"
  shows "is_ok (assess s score)"
  using stage_confidence_unit [OF assms] next_stage_allowed [of s score]
  by (simp add: assess_def validate_def split_beta Let_def)

section \<open>A fusion result to build examples from\<close>

definition blank_trace :: decision_trace where
  "blank_trace = \<lparr>dt_components = [], dt_adjustments = [], dt_policy_decisions = [],
     dt_thresholds = default_thresholds, dt_raw_weighted_score = 0, dt_final_score = 0\<rparr>"

definition blank_score :: fusion_result where
  "blank_score = \<lparr>fr_model_score_id = '''', fr_scope_id = ''LIVE'', fr_asset_id = ''ACME'',
     fr_feature_window_id = ''w'', fr_feature_revision = 1, fr_model_version = ''fusion-v2'',
     fr_base_model_version = ''fusion-v2'', fr_fusion_policy_version = ''fusion-policy-v1'',
     fr_enrichment_profile = ep_base, fr_fusion_revision = 1, fr_evidence_cutoff = None,
     fr_input_snapshot_ids = [], fr_idempotency_key = '''', fr_market_score = None,
     fr_social_score = None, fr_coordination_score = None, fr_temporal_score = None,
     fr_claim_risk = None, fr_legitimate_event_score = None, fr_graph_score = None,
     fr_threat_context = empty_threat, fr_market_anomaly_risk = None,
     fr_market_anomaly_severity = risk_normal, fr_social_coordination_risk = None,
     fr_social_coordination_severity = risk_normal, fr_raw_cross_domain_risk = 0,
     fr_context_adjusted_risk = 0, fr_fusion_score = 0, fr_confidence = 0,
     fr_severity = risk_normal, fr_missing_outputs = [], fr_is_calibrated = False,
     fr_market_regime = ''CALM'', fr_market_regime_confidence = 0, fr_liquidity_class = ''LOW'',
     fr_liquidity_confidence = 0, fr_stage_signals = [], fr_decision_trace = blank_trace,
     fr_scored_at = 0\<rparr>"

text \<open>A score with the signals the stage rules read.\<close>

definition signal_score :: "real \<Rightarrow> real \<Rightarrow> real \<Rightarrow> real \<Rightarrow> real \<Rightarrow> risk_level \<Rightarrow> fusion_result" where
  "signal_score social coordination market_risk price_return pressure severity =
     blank_score\<lparr>fr_social_coordination_risk := Some social,
       fr_coordination_score := Some coordination, fr_market_anomaly_risk := Some market_risk,
       fr_severity := severity,
       fr_stage_signals := [(''price_return'', Some price_return),
         (''buy_sell_pressure'', Some pressure)]\<rparr>"

lemma signal_score_sel [simp]:
  "fr_social_coordination_risk (signal_score so co ma pr bs sev) = Some so"
  "fr_coordination_score (signal_score so co ma pr bs sev) = Some co"
  "fr_market_anomaly_risk (signal_score so co ma pr bs sev) = Some ma"
  "fr_severity (signal_score so co ma pr bs sev) = sev"
  "fr_social_score (signal_score so co ma pr bs sev) = None"
  "fr_fusion_score (signal_score so co ma pr bs sev) = 0"
  "fr_confidence (signal_score so co ma pr bs sev) = 0"
  "fr_claim_risk (signal_score so co ma pr bs sev) = None"
  "fr_evidence_cutoff (signal_score so co ma pr bs sev) = None"
  "fr_feature_revision (signal_score so co ma pr bs sev) = 1"
  "fr_fusion_revision (signal_score so co ma pr bs sev) = 1"
  "fr_enrichment_profile (signal_score so co ma pr bs sev) = ep_base"
  "fr_idempotency_key (signal_score so co ma pr bs sev) = ''''"
  "fr_market_anomaly_severity (signal_score so co ma pr bs sev) = risk_normal"
  "fr_social_coordination_severity (signal_score so co ma pr bs sev) = risk_normal"
  "number (fr_stage_signals (signal_score so co ma pr bs sev)) ''price_return'' = pr"
  "number (fr_stage_signals (signal_score so co ma pr bs sev)) ''buy_sell_pressure'' = bs"
  "number (fr_stage_signals (signal_score so co ma pr bs sev)) ''relative_volume'' = 0"
  "number (fr_stage_signals (signal_score so co ma pr bs sev)) ''spread'' = 0"
  "number (fr_stage_signals (signal_score so co ma pr bs sev)) ''orderbook_imbalance'' = 0"
  by (simp_all add: signal_score_def blank_score_def number_def feature_get_def)

section \<open>The interface a campaign store relies on\<close>

locale campaign_machine =
  fixes machine :: "campaign_stage \<Rightarrow> fusion_result \<Rightarrow> campaign_assessment res"
  assumes machine_allowed: "machine current score = Inr a \<Longrightarrow> ca_next_stage a \<in> transitions current"
    and machine_confidence: "machine current score = Inr a \<Longrightarrow> unit_range (ca_stage_confidence a)"
begin

lemma machine_rank:
  assumes "machine current score = Inr a" "2 \<le> stage_rank current"
  shows "stage_rank current \<le> stage_rank (ca_next_stage a)"
  using machine_allowed [OF assms(1)] transitions_rank assms(2)
  by (force simp: stage_rank_def split: campaign_stage.splits)

lemma machine_terminal:
  "machine st_post_event score = Inr a \<Longrightarrow> ca_next_stage a = st_post_event"
  by (drule machine_allowed) (simp add: transitions_def)

end

interpretation rules: campaign_machine assess
  by unfold_locales (rule assess_Inr(3), assumption, rule assess_Inr(4))

section \<open>Properties\<close>

text \<open>C40. The stage rules never leave the transition table: the stage \<open>assess\<close> chooses is always
  an allowed successor, so \<open>InvalidCampaignTransition\<close> is never raised; the only failure is a
  confidence outside the unit interval, and validated scores with a coordination score in the
  unit interval always succeed.\<close>

theorem assess_never_invalid:
  "(case assess current score of
      Inr a \<Rightarrow> ca_next_stage a \<in> transitions current \<and> unit_range (ca_stage_confidence a)
    | Inl e \<Rightarrow> e = ValidationError ''stage_confidence'' \<and>
        \<not> (fusion_result_valid score \<and> opt_unit (fr_coordination_score score)))"
  using next_stage_allowed [of current score] stage_confidence_unit [of score]
  by (auto simp: assess_def validate_def split_beta Let_def)

text \<open>The transitions the rules can make are exactly those of the table, except that a campaign
  in early social seeding never goes to post-event: that entry of the table is dead.\<close>

theorem stage_step_exact:
  "stage_step s t \<longleftrightarrow> t \<in> transitions s \<and> \<not> (s = st_early_social_seeding \<and> t = st_post_event)"
proof
  assume "stage_step s t"
  then show "t \<in> transitions s \<and> \<not> (s = st_early_social_seeding \<and> t = st_post_event)"
    using next_stage_allowed [of s] early_not_post by (auto simp: stage_step_iff)
next
  assume asm: "t \<in> transitions s \<and> \<not> (s = st_early_social_seeding \<and> t = st_post_event)"
  have mk: "stage_step s t" if "fst (next_stage s (signal_score so co ma pr bs sev)) = t"
    for so co ma pr bs sev
    using that by (rule stage_step)
  let ?via = "\<lambda>so co ma pr bs sev. fst (next_stage s (signal_score so co ma pr bs sev)) = t"
  have "?via 0 0 0 0 0 risk_normal \<or> ?via 1 0 0 0 0 risk_watch \<or> ?via 0 1 0 0 0 risk_watch
      \<or> ?via 1 0 1 0 0 risk_high \<or> ?via 0 0 0 (-1) 0 risk_normal
      \<or> ?via 1 0 0 0 (-0.3) risk_watch"
    using asm by (cases s; cases t)
      (simp_all add: transitions_def next_stage_def Let_def or_else_def)
  then show "stage_step s t" using mk by blast
qed



text \<open>One evaluation triggers each alert type at most once, in the fixed order of the alert
  types; the narrative and dump alerts are at least WATCH; and a cross-domain alert comes with a
  social hype alert.\<close>

theorem alerts_well_formed:
  "distinct (map tg_alert_type (alerts score)) \<and>
   (\<forall>t \<in> set (alerts score). tg_alert_type t \<in> {at_unverified_narrative, at_possible_dump_phase} \<longrightarrow>
      risk_watch \<le> tg_severity t) \<and>
   (at_cross_domain_manipulation_risk \<in> set (map tg_alert_type (alerts score)) \<longrightarrow>
      at_social_hype_surge \<in> set (map tg_alert_type (alerts score)))"
  using alerts_distinct alert_severities cross_domain_hype by blast

theorem alerts_well_formed_witness:
  "at_cross_domain_manipulation_risk \<in> set (map tg_alert_type
      (alerts ((signal_score 1 1 1 0 0 risk_high)\<lparr>fr_fusion_score := 0.7\<rparr>))) \<and>
   at_social_hype_surge \<in> set (map tg_alert_type
      (alerts ((signal_score 1 1 1 0 0 risk_high)\<lparr>fr_fusion_score := 0.7\<rparr>)))"
proof -
  let ?s = "(signal_score 1 1 1 0 0 risk_high)\<lparr>fr_fusion_score := 0.7\<rparr>"
  have "at_cross_domain_manipulation_risk \<in> set (map tg_alert_type (alerts ?s))"
    unfolding alert_type_iff by (simp add: alert_table_def Let_def trigger_def or_else_def)
  with alerts_well_formed [of ?s] show ?thesis by blast
qed

end
