(* ===== verification/Events.thy ===== *)
theory Events
  imports Prelude
begin

text \<open>
  The canonical event envelope of \<open>schemas/events.py\<close>. The payload is a type parameter. The
  validators run when an event is built and fill in the origin and delivery identities.
\<close>

datatype event_type =
    ev_market_trade_received | ev_market_candle_closed | ev_market_orderbook_updated
  | ev_social_post_received | ev_social_post_normalized | ev_social_asset_mention_detected
  | ev_disclosure_received | ev_feature_window_updated | ev_feature_window_finalized
  | ev_feature_window_corrected | ev_model_fusion_scored | ev_campaign_created
  | ev_campaign_stage_changed | ev_campaign_closed | ev_alert_created
  | ev_alert_severity_changed | ev_alert_refreshed | ev_alert_resolved
  | ev_narrative_clustered | ev_graph_snapshot_created | ev_graph_features_computed
  | ev_claim_verification_completed

definition event_type_value :: "event_type \<Rightarrow> string" where
  "event_type_value t = (case t of
      ev_market_trade_received \<Rightarrow> ''market.trade.received''
    | ev_market_candle_closed \<Rightarrow> ''market.candle.closed''
    | ev_market_orderbook_updated \<Rightarrow> ''market.orderbook.updated''
    | ev_social_post_received \<Rightarrow> ''social.post.received''
    | ev_social_post_normalized \<Rightarrow> ''social.post.normalized''
    | ev_social_asset_mention_detected \<Rightarrow> ''social.asset_mention.detected''
    | ev_disclosure_received \<Rightarrow> ''disclosure.received''
    | ev_feature_window_updated \<Rightarrow> ''feature.window_updated''
    | ev_feature_window_finalized \<Rightarrow> ''feature.window_finalized''
    | ev_feature_window_corrected \<Rightarrow> ''feature.window_corrected''
    | ev_model_fusion_scored \<Rightarrow> ''model.fusion_scored''
    | ev_campaign_created \<Rightarrow> ''campaign.created''
    | ev_campaign_stage_changed \<Rightarrow> ''campaign.stage_changed''
    | ev_campaign_closed \<Rightarrow> ''campaign.closed''
    | ev_alert_created \<Rightarrow> ''alert.created''
    | ev_alert_severity_changed \<Rightarrow> ''alert.severity_changed''
    | ev_alert_refreshed \<Rightarrow> ''alert.refreshed''
    | ev_alert_resolved \<Rightarrow> ''alert.resolved''
    | ev_narrative_clustered \<Rightarrow> ''narrative.clustered''
    | ev_graph_snapshot_created \<Rightarrow> ''graph.snapshot_created''
    | ev_graph_features_computed \<Rightarrow> ''graph.features_computed''
    | ev_claim_verification_completed \<Rightarrow> ''claim.verification_completed'')"

record replay_metadata =
  rm_is_replay :: bool
  rm_replay_session_id :: "string option"

record trace_metadata =
  tm_correlation_id :: string
  tm_causation_id :: "string option"

record 'p canonical_event =
  ce_event_id :: string
  ce_origin_event_id :: "string option"
  ce_delivery_event_id :: "string option"
  ce_event_type :: event_type
  ce_schema_version :: int
  ce_source :: string
  ce_source_event_id :: string
  ce_source_sequence :: "int option"
  ce_asset_id :: "string option"
  ce_event_time :: datetime
  ce_ingested_at :: datetime
  ce_processed_at :: "datetime option"
  ce_partition_key :: string
  ce_replay :: replay_metadata
  ce_trace :: trace_metadata
  ce_payload :: 'p

text \<open>\<open>not value.strip()\<close>. Python strips all white space; the ASCII white-space characters are
  the ones in the range of \<^typ>\<open>char\<close> below 128, plus the separators 28 to 31.\<close>

definition is_space :: "char \<Rightarrow> bool" where
  "is_space c \<longleftrightarrow> (let n = of_char c :: nat in (9 \<le> n \<and> n \<le> 13) \<or> (28 \<le> n \<and> n \<le> 32))"

definition blank :: "string \<Rightarrow> bool" where
  "blank s \<longleftrightarrow> list_all is_space s"

text \<open>\<open>ReplayMetadata.replay_session_required_for_replay\<close>.\<close>

definition build_replay :: "bool \<Rightarrow> string option \<Rightarrow> replay_metadata res" where
  "build_replay is_replay session =
    (if is_replay \<and> (session = None \<or> session = Some [])
     then Inl (ValidationError ''replay_session_id is required when is_replay is true'')
     else Inr \<lparr>rm_is_replay = is_replay, rm_replay_session_id = session\<rparr>)"

text \<open>The field validators and \<open>materialize_event_identity\<close>.\<close>

definition build_event :: "'p canonical_event \<Rightarrow> 'p canonical_event res" where
  "build_event e =
    (if ce_schema_version e < 1 then Inl (ValidationError ''schema_version'')
     else if blank (ce_partition_key e) then Inl (ValidationError ''partition_key cannot be blank'')
     else if blank (ce_source e) \<or> blank (ce_source_event_id e)
     then Inl (ValidationError ''value cannot be blank'')
     else
       let e1 = (if ce_origin_event_id e = None
                 then e\<lparr>ce_origin_event_id := Some (ce_source e @ '':'' @ ce_source_event_id e)\<rparr>
                 else e);
           e2 = (if ce_delivery_event_id e1 = None
                 then e1\<lparr>ce_delivery_event_id := Some (ce_event_id e1)\<rparr> else e1)
       in if ce_delivery_event_id e2 \<noteq> Some (ce_event_id e2)
          then Inl (ValidationError ''event_id must match delivery_event_id'')
          else Inr e2)"

definition dedupe_key :: "'p canonical_event \<Rightarrow> string res" where
  "dedupe_key e =
    (case ce_delivery_event_id e of
       None \<Rightarrow> Inl (ValueError ''delivery_event_id was not initialized'')
     | Some d \<Rightarrow> Inr d)"

text \<open>What every built event satisfies: its identities are materialized.\<close>

definition wf_event :: "'p canonical_event \<Rightarrow> bool" where
  "wf_event e \<longleftrightarrow> ce_origin_event_id e \<noteq> None \<and> ce_delivery_event_id e = Some (ce_event_id e) \<and>
     1 \<le> ce_schema_version e \<and> \<not> blank (ce_partition_key e) \<and> \<not> blank (ce_source e) \<and>
     \<not> blank (ce_source_event_id e)"

lemma build_event_Inr:
  assumes "build_event e = Inr f"
  shows "wf_event f" "ce_event_id f = ce_event_id e" "ce_event_type f = ce_event_type e"
    "ce_payload f = ce_payload e" "ce_event_time f = ce_event_time e"
    "ce_partition_key f = ce_partition_key e"
  using assms by (auto simp: build_event_def wf_event_def Let_def split: if_splits)

lemma build_event_dedupe: "build_event e = Inr f \<Longrightarrow> dedupe_key f = Inr (ce_event_id e)"
  using build_event_Inr(1,2) [of e f] by (simp add: dedupe_key_def wf_event_def)

lemma build_event_fresh:
  assumes "ce_delivery_event_id e = None"
  shows "is_ok (build_event e) \<longleftrightarrow> 1 \<le> ce_schema_version e \<and> \<not> blank (ce_partition_key e) \<and>
     \<not> blank (ce_source e) \<and> \<not> blank (ce_source_event_id e)"
  using assms by (auto simp: build_event_def Let_def)

end
