(* ===== verification/Campaign_Store.thy ===== *)
theory Campaign_Store
  imports Campaign_Policy Events "HOL-Library.Product_Lexorder"
begin

text \<open>
  The campaign stores of \<open>campaigns/repository.py\<close>: the in-memory repository and the SQL
  repository, each as a function from the state before an evidence event to the state after it
  and the returned update, or the exception. The in-memory store keeps what it wrote before an
  exception; the SQL store runs in one transaction and keeps nothing.

  The clock and the hash functions are arguments. A campaign's stage machine is an argument, as
  in the code.
\<close>

section \<open>Records\<close>

datatype campaign_status = cs_active | cs_closed

datatype alert_status = as_active | as_resolved

record stage_reason =
  sr_reason :: string
  sr_reason_codes :: "string list"
  sr_evidence_ids :: "string list"

record campaign_evidence =
  ce2_event_id :: string
  ce2_correlation_id :: string
  ce2_causation_id :: "string option"
  ce2_event_time :: datetime
  ce2_fusion :: fusion_result

definition scope_id :: "campaign_evidence \<Rightarrow> string" where
  "scope_id ev = fr_scope_id (ce2_fusion ev)"

definition asset_id :: "campaign_evidence \<Rightarrow> string" where
  "asset_id ev = fr_asset_id (ce2_fusion ev)"

record campaign_record =
  cr_campaign_id :: uuid
  cr_scope_id :: string
  cr_asset_id :: string
  cr_stage :: campaign_stage
  cr_stage_confidence :: real
  cr_stage_reason :: stage_reason
  cr_status :: campaign_status
  cr_max_severity :: risk_level
  cr_first_evidence_at :: datetime
  cr_last_evidence_at :: datetime
  cr_last_applied_evidence_cutoff :: "datetime option"
  cr_last_applied_feature_revision :: nat
  cr_last_applied_fusion_revision :: nat
  cr_last_applied_enrichment_profile :: string
  cr_version :: nat

record alert_record =
  ar_alert_id :: uuid
  ar_campaign_id :: uuid
  ar_alert_type :: alert_type
  ar_severity :: risk_level
  ar_status :: alert_status
  ar_first_triggered_at :: datetime
  ar_last_triggered_at :: datetime
  ar_last_notified_at :: "datetime option"
  ar_occurrence_count :: nat
  ar_version :: nat

record campaign_update =
  cu_campaign :: campaign_record
  cu_alerts :: "alert_record list"
  cu_duplicate_evidence :: bool
  cu_stale_evidence :: bool
  cu_emitted_event_ids :: "string list"

text \<open>The payloads of the domain events.\<close>

datatype campaign_payload =
    CampaignPayload campaign_record
  | StageChangedPayload campaign_record campaign_stage string
  | ClosedPayload uuid string
  | AlertPayload alert_record string
  | AlertContextPayload alert_record string string campaign_stage string string

type_synonym outbox = "(string \<times> campaign_payload canonical_event) list"

record campaign_config =
  cc_merge_gap :: timedelta
  cc_suppression :: timedelta

definition default_campaign_config :: campaign_config where
  "default_campaign_config =
     \<lparr>cc_merge_gap = seconds 1800, cc_suppression = seconds 300\<rparr>"

section \<open>Staleness\<close>

text \<open>\<open>_PROFILE_PRIORITY.get(profile, 0)\<close>; every profile value is a key of the table.\<close>

definition profile_priority :: "string \<Rightarrow> nat" where
  "profile_priority p =
    (if p = ''GRAPH'' then 1 else if p = ''VERIFICATION'' then 2
     else if p = ''GRAPH_AND_VERIFICATION'' then 3 else 0)"

definition evidence_cutoff :: "campaign_evidence \<Rightarrow> datetime" where
  "evidence_cutoff ev =
    (case fr_evidence_cutoff (ce2_fusion ev) of None \<Rightarrow> ce2_event_time ev | Some c \<Rightarrow> c)"

definition evaluation_order :: "campaign_evidence \<Rightarrow> datetime \<times> nat \<times> nat \<times> nat" where
  "evaluation_order ev =
    (evidence_cutoff ev, fr_feature_revision (ce2_fusion ev), fr_fusion_revision (ce2_fusion ev),
     profile_priority (profile_value (fr_enrichment_profile (ce2_fusion ev))))"

definition applied_order :: "'a campaign_record_scheme \<Rightarrow> (datetime \<times> nat \<times> nat \<times> nat) option" where
  "applied_order c = (case cr_last_applied_evidence_cutoff c of None \<Rightarrow> None
    | Some cutoff \<Rightarrow> Some (cutoff, cr_last_applied_feature_revision c,
        cr_last_applied_fusion_revision c,
        profile_priority (cr_last_applied_enrichment_profile c)))"

definition is_stale :: "'a campaign_record_scheme \<Rightarrow> campaign_evidence \<Rightarrow> bool" where
  "is_stale c ev =
    (case applied_order c of None \<Rightarrow> False | Some applied \<Rightarrow> evaluation_order ev \<le> applied)"

section \<open>Domain events\<close>

definition event_draft ::
    "py_env \<Rightarrow> datetime \<Rightarrow> campaign_evidence \<Rightarrow> event_type \<Rightarrow> string \<Rightarrow> uuid \<Rightarrow> replay_metadata
     \<Rightarrow> campaign_payload \<Rightarrow> campaign_payload canonical_event" where
  "event_draft env now ev etype topic entity rm payload =
    (let source_event_id = entity @ '':'' @ event_type_value etype @ '':'' @ ce2_event_id ev
     in \<lparr>ce_event_id = env_uuid5 env (topic @ '':'' @ source_event_id),
         ce_origin_event_id = None, ce_delivery_event_id = None,
         ce_event_type = etype, ce_schema_version = 1, ce_source = ''campaign-engine-v1'',
         ce_source_event_id = source_event_id, ce_source_sequence = None,
         ce_asset_id = Some (asset_id ev), ce_event_time = ce2_event_time ev,
         ce_ingested_at = now, ce_processed_at = Some now, ce_partition_key = asset_id ev,
         ce_replay = rm,
         ce_trace = \<lparr>tm_correlation_id = ce2_correlation_id ev,
           tm_causation_id = Some (ce2_event_id ev)\<rparr>,
         ce_payload = payload\<rparr>)"

definition domain_event ::
    "py_env \<Rightarrow> datetime \<Rightarrow> campaign_evidence \<Rightarrow> event_type \<Rightarrow> string \<Rightarrow> uuid \<Rightarrow> campaign_payload
     \<Rightarrow> campaign_payload canonical_event res" where
  "domain_event env now ev etype topic entity payload =
    (let replay = (scope_id ev \<noteq> ''LIVE'')
     in case build_replay replay (if replay then Some (scope_id ev) else None) of
          Inl e \<Rightarrow> Inl e
        | Inr rm \<Rightarrow> build_event (event_draft env now ev etype topic entity rm payload))"

text \<open>Domain events can be built exactly when the asset is not blank and a replay scope is named.\<close>

definition routable :: "campaign_evidence \<Rightarrow> bool" where
  "routable ev \<longleftrightarrow> \<not> blank (asset_id ev) \<and> scope_id ev \<noteq> []"

lemma event_draft_sel [simp]:
  "ce_event_id (event_draft env now ev t topic entity rm p) =
     env_uuid5 env (topic @ '':'' @ entity @ '':'' @ event_type_value t @ '':'' @ ce2_event_id ev)"
  "ce_event_type (event_draft env now ev t topic entity rm p) = t"
  "ce_payload (event_draft env now ev t topic entity rm p) = p"
  "ce_event_time (event_draft env now ev t topic entity rm p) = ce2_event_time ev"
  "ce_delivery_event_id (event_draft env now ev t topic entity rm p) = None"
  "ce_partition_key (event_draft env now ev t topic entity rm p) = asset_id ev"
  "ce_schema_version (event_draft env now ev t topic entity rm p) = 1"
  by (simp_all add: event_draft_def Let_def)

lemma build_draft_ok:
  "is_ok (build_event (event_draft env now ev t topic entity rm p)) \<longleftrightarrow> \<not> blank (asset_id ev)"
  by (simp add: build_event_fresh) (simp add: event_draft_def Let_def blank_def is_space_def)

lemma domain_event_ok:
  "is_ok (domain_event env now ev t topic entity p) \<longleftrightarrow> routable ev"
  by (auto simp: domain_event_def Let_def build_replay_def routable_def build_draft_ok)

lemma domain_event_Inr:
  assumes "domain_event env now ev t topic entity p = Inr e"
  shows "wf_event e" "ce_event_type e = t" "ce_payload e = p" "ce_event_time e = ce2_event_time ev"
    "ce_event_id e = env_uuid5 env (topic @ '':'' @ entity @ '':'' @ event_type_value t @ '':'' @ ce2_event_id ev)"
    "routable ev"
  using assms domain_event_ok [of env now ev t topic entity p]
  by (auto simp: domain_event_def Let_def build_event_Inr split: sum.splits)

lemma domain_event_routable:
  assumes "routable ev"
  obtains e where "domain_event env now ev t topic entity p = Inr e"
  using domain_event_ok [of env now ev t topic entity p] assms by (auto simp: is_ok_iff)

section \<open>What both stores compute\<close>

definition reason_of :: "campaign_assessment \<Rightarrow> stage_reason" where
  "reason_of a = \<lparr>sr_reason = ca_transition_reason a, sr_reason_codes = ca_reason_codes a,
     sr_evidence_ids = ca_stage_evidence_ids a\<rparr>"

definition campaign_uuid :: "py_env \<Rightarrow> campaign_evidence \<Rightarrow> uuid" where
  "campaign_uuid env ev = env_uuid5 env
     (''campaign:'' @ scope_id ev @ '':'' @ asset_id ev @ '':'' @ ce2_event_id ev)"

definition alert_uuid :: "py_env \<Rightarrow> uuid \<Rightarrow> alert_type \<Rightarrow> uuid" where
  "alert_uuid env campaign t = env_uuid5 env (''alert:'' @ campaign @ '':'' @ alert_type_value t)"

definition new_campaign :: "py_env \<Rightarrow> campaign_evidence \<Rightarrow> campaign_assessment \<Rightarrow> campaign_record" where
  "new_campaign env ev a =
    \<lparr>cr_campaign_id = campaign_uuid env ev, cr_scope_id = scope_id ev, cr_asset_id = asset_id ev,
     cr_stage = ca_next_stage a, cr_stage_confidence = ca_stage_confidence a,
     cr_stage_reason = reason_of a, cr_status = cs_active,
     cr_max_severity = fr_severity (ce2_fusion ev), cr_first_evidence_at = ce2_event_time ev,
     cr_last_evidence_at = ce2_event_time ev,
     cr_last_applied_evidence_cutoff = Some (evidence_cutoff ev),
     cr_last_applied_feature_revision = fr_feature_revision (ce2_fusion ev),
     cr_last_applied_fusion_revision = fr_fusion_revision (ce2_fusion ev),
     cr_last_applied_enrichment_profile = profile_value (fr_enrichment_profile (ce2_fusion ev)),
     cr_version = 1\<rparr>"

definition updated_campaign ::
    "campaign_record \<Rightarrow> campaign_evidence \<Rightarrow> campaign_assessment \<Rightarrow> campaign_record" where
  "updated_campaign c ev a = c
    \<lparr>cr_stage := ca_next_stage a, cr_stage_confidence := ca_stage_confidence a,
     cr_stage_reason := reason_of a,
     cr_max_severity := max_risk (cr_max_severity c) (fr_severity (ce2_fusion ev)),
     cr_last_evidence_at := max (cr_last_evidence_at c) (ce2_event_time ev),
     cr_last_applied_evidence_cutoff := Some (evidence_cutoff ev),
     cr_last_applied_feature_revision := fr_feature_revision (ce2_fusion ev),
     cr_last_applied_fusion_revision := fr_fusion_revision (ce2_fusion ev),
     cr_last_applied_enrichment_profile := profile_value (fr_enrichment_profile (ce2_fusion ev)),
     cr_version := Suc (cr_version c)\<rparr>"

definition new_alert :: "py_env \<Rightarrow> uuid \<Rightarrow> campaign_evidence \<Rightarrow> alert_trigger \<Rightarrow> alert_record" where
  "new_alert env campaign ev t =
    \<lparr>ar_alert_id = alert_uuid env campaign (tg_alert_type t), ar_campaign_id = campaign,
     ar_alert_type = tg_alert_type t, ar_severity = tg_severity t, ar_status = as_active,
     ar_first_triggered_at = ce2_event_time ev, ar_last_triggered_at = ce2_event_time ev,
     ar_last_notified_at = Some (ce2_event_time ev), ar_occurrence_count = 1, ar_version = 1\<rparr>"

definition alert_changed :: "alert_record \<Rightarrow> alert_trigger \<Rightarrow> bool" where
  "alert_changed al t \<longleftrightarrow>
     max_risk (ar_severity al) (tg_severity t) \<noteq> ar_severity al \<or> ar_status al \<noteq> as_active"

definition alert_suppressed ::
    "timedelta \<Rightarrow> alert_record \<Rightarrow> campaign_evidence \<Rightarrow> alert_trigger \<Rightarrow> bool" where
  "alert_suppressed suppression al ev t \<longleftrightarrow> \<not> alert_changed al t \<and>
    (case ar_last_notified_at al of None \<Rightarrow> False
     | Some n \<Rightarrow> ce2_event_time ev - n < suppression)"

definition updated_alert ::
    "timedelta \<Rightarrow> alert_record \<Rightarrow> campaign_evidence \<Rightarrow> alert_trigger \<Rightarrow> alert_record" where
  "updated_alert suppression al ev t = al
    \<lparr>ar_severity := max_risk (ar_severity al) (tg_severity t), ar_status := as_active,
     ar_last_triggered_at := max (ar_last_triggered_at al) (ce2_event_time ev),
     ar_last_notified_at := (if alert_suppressed suppression al ev t then ar_last_notified_at al
                             else Some (ce2_event_time ev)),
     ar_occurrence_count := Suc (ar_occurrence_count al), ar_version := Suc (ar_version al)\<rparr>"

section \<open>The in-memory repository\<close>

record mem_store =
  ms_campaigns :: "(string \<times> string) \<rightharpoonup> campaign_record"
  ms_alerts :: "(uuid \<times> alert_type) \<rightharpoonup> alert_record"
  ms_evidence_ids :: "string set"
  ms_stage_history :: "(uuid \<times> campaign_stage \<times> campaign_stage) list"
  ms_alert_history :: "(uuid \<times> risk_level \<times> bool) list"
  ms_outbox :: outbox

definition mem_empty :: mem_store where
  "mem_empty = \<lparr>ms_campaigns = Map.empty, ms_alerts = Map.empty, ms_evidence_ids = {},
     ms_stage_history = [], ms_alert_history = [], ms_outbox = []\<rparr>"

text \<open>The body of the loop over the triggers of an assessment.\<close>

definition mem_alert ::
    "py_env \<Rightarrow> datetime \<Rightarrow> campaign_config \<Rightarrow> uuid \<Rightarrow> campaign_evidence \<Rightarrow> alert_trigger \<Rightarrow> mem_store
     \<Rightarrow> (alert_record \<times> string list) res \<times> mem_store" where
  "mem_alert env now cfg campaign ev t st =
    (let key = (campaign, tg_alert_type t);
         (al, suppressed, etype) =
           (case ms_alerts st key of
              None \<Rightarrow> (new_alert env campaign ev t, False, ev_alert_created)
            | Some old \<Rightarrow> (updated_alert (cc_suppression cfg) old ev t,
                alert_suppressed (cc_suppression cfg) old ev t,
                if alert_changed old t then ev_alert_severity_changed else ev_alert_refreshed));
         st1 = st\<lparr>ms_alerts := (ms_alerts st)(key \<mapsto> al),
           ms_alert_history := ms_alert_history st @ [(ar_alert_id al, ar_severity al, suppressed)]\<rparr>
     in if suppressed then (Inr (al, []), st1)
        else case domain_event env now ev etype ''alerts.events.v1'' (ar_alert_id al)
               (AlertPayload al (tg_reason t)) of
               Inl e \<Rightarrow> (Inl e, st1)
             | Inr event \<Rightarrow> (Inr (al, [ce_event_id event]),
                 st1\<lparr>ms_outbox := ms_outbox st1 @ [(''alerts.events.v1'', event)]\<rparr>))"

fun mem_alerts ::
    "py_env \<Rightarrow> datetime \<Rightarrow> campaign_config \<Rightarrow> uuid \<Rightarrow> campaign_evidence \<Rightarrow> alert_trigger list \<Rightarrow> mem_store
     \<Rightarrow> (alert_record list \<times> string list) res \<times> mem_store" where
  "mem_alerts env now cfg campaign ev [] st = (Inr ([], []), st)"
| "mem_alerts env now cfg campaign ev (t # ts) st =
    (case mem_alert env now cfg campaign ev t st of
       (Inl e, st1) \<Rightarrow> (Inl e, st1)
     | (Inr (al, ids), st1) \<Rightarrow>
        (case mem_alerts env now cfg campaign ev ts st1 of
           (Inl e, st2) \<Rightarrow> (Inl e, st2)
         | (Inr (als, ids'), st2) \<Rightarrow> (Inr (al # als, ids @ ids'), st2)))"

text \<open>Storing the campaign and publishing its creation or its stage change. The stage history
  only records changes of a continued campaign.\<close>

definition mem_save ::
    "py_env \<Rightarrow> datetime \<Rightarrow> campaign_evidence \<Rightarrow> campaign_record option \<Rightarrow> campaign_record \<Rightarrow> mem_store
     \<Rightarrow> string list res \<times> mem_store" where
  "mem_save env now ev existing campaign st =
    (let changed = (case existing of None \<Rightarrow> True | Some c \<Rightarrow> cr_stage campaign \<noteq> cr_stage c);
         etype = (case existing of None \<Rightarrow> ev_campaign_created | Some c \<Rightarrow> ev_campaign_stage_changed);
         history = (case existing of None \<Rightarrow> []
            | Some c \<Rightarrow> if changed then [(cr_campaign_id campaign, cr_stage c, cr_stage campaign)]
                else []);
         st1 = st\<lparr>ms_stage_history := ms_stage_history st @ history,
           ms_campaigns := (ms_campaigns st)((scope_id ev, asset_id ev) \<mapsto> campaign)\<rparr>
     in if \<not> changed then (Inr [], st1)
        else case domain_event env now ev etype ''campaign.events.v1'' (cr_campaign_id campaign)
               (CampaignPayload campaign) of
               Inl e \<Rightarrow> (Inl e, st1)
             | Inr event \<Rightarrow> (Inr [ce_event_id event],
                 st1\<lparr>ms_outbox := ms_outbox st1 @ [(''campaign.events.v1'', event)]\<rparr>))"

definition campaign_update_of :: "campaign_record \<Rightarrow> campaign_update" where
  "campaign_update_of c = \<lparr>cu_campaign = c, cu_alerts = [], cu_duplicate_evidence = False,
     cu_stale_evidence = False, cu_emitted_event_ids = []\<rparr>"

text \<open>The live campaign of the key: an existing one unless the merge gap has elapsed.\<close>

definition gap_elapsed :: "campaign_config \<Rightarrow> campaign_evidence \<Rightarrow> 'a campaign_record_scheme \<Rightarrow> bool" where
  "gap_elapsed cfg ev c \<longleftrightarrow> ce2_event_time ev - cr_last_evidence_at c > cc_merge_gap cfg"

definition live_campaign ::
    "campaign_config \<Rightarrow> campaign_evidence \<Rightarrow> campaign_record option \<Rightarrow> campaign_record option" where
  "live_campaign cfg ev found =
    (case found of None \<Rightarrow> None | Some c \<Rightarrow> if gap_elapsed cfg ev c then None else Some c)"

definition current_stage :: "campaign_record option \<Rightarrow> campaign_stage" where
  "current_stage existing = (case existing of None \<Rightarrow> st_normal | Some c \<Rightarrow> cr_stage c)"

text \<open>Accepted evidence: build or update the campaign, store and publish it, raise its alerts.\<close>

definition mem_commit ::
    "py_env \<Rightarrow> datetime \<Rightarrow> campaign_config \<Rightarrow> campaign_evidence \<Rightarrow> campaign_record option
     \<Rightarrow> campaign_assessment \<Rightarrow> mem_store \<Rightarrow> campaign_update res \<times> mem_store" where
  "mem_commit env now cfg ev existing a st =
    (let campaign = (case existing of None \<Rightarrow> new_campaign env ev a
           | Some c \<Rightarrow> updated_campaign c ev a)
     in case mem_save env now ev existing campaign st of
          (Inl e, st2) \<Rightarrow> (Inl e, st2)
        | (Inr emitted, st2) \<Rightarrow>
          (case mem_alerts env now cfg (cr_campaign_id campaign) ev (ca_alerts a) st2 of
             (Inl e, st3) \<Rightarrow> (Inl e, st3)
           | (Inr (records, ids), st3) \<Rightarrow>
               (Inr ((campaign_update_of campaign)\<lparr>cu_alerts := records,
                  cu_emitted_event_ids := emitted @ ids\<rparr>), st3)))"

text \<open>\<open>InMemoryCampaignRepository.apply\<close>: the evidence id is claimed first; the merge gap is
  tested before staleness, and the assessment is computed before staleness is tested.\<close>

definition mem_apply ::
    "(campaign_stage \<Rightarrow> fusion_result \<Rightarrow> campaign_assessment res) \<Rightarrow> py_env \<Rightarrow> datetime
     \<Rightarrow> campaign_config \<Rightarrow> campaign_evidence \<Rightarrow> mem_store \<Rightarrow> campaign_update res \<times> mem_store" where
  "mem_apply machine env now cfg ev st =
    (let found = ms_campaigns st (scope_id ev, asset_id ev)
     in if ce2_event_id ev \<in> ms_evidence_ids st then
          ((case found of None \<Rightarrow> Inl (RuntimeError ''duplicate evidence has no campaign'')
            | Some c \<Rightarrow> Inr ((campaign_update_of c)\<lparr>cu_duplicate_evidence := True\<rparr>)), st)
        else
        let st1 = st\<lparr>ms_evidence_ids := insert (ce2_event_id ev) (ms_evidence_ids st)\<rparr>;
            existing = live_campaign cfg ev found
        in case machine (current_stage existing) (ce2_fusion ev) of
             Inl e \<Rightarrow> (Inl e, st1)
           | Inr a \<Rightarrow>
             (case existing of
                None \<Rightarrow> mem_commit env now cfg ev None a st1
              | Some c \<Rightarrow>
                  if is_stale c ev
                  then (Inr ((campaign_update_of c)\<lparr>cu_stale_evidence := True\<rparr>), st1)
                  else mem_commit env now cfg ev (Some c) a st1))"

text \<open>A run applies a list of evidence in order; exceptions are the caller's, the store lives on.\<close>

fun mem_run ::
    "(campaign_stage \<Rightarrow> fusion_result \<Rightarrow> campaign_assessment res) \<Rightarrow> py_env \<Rightarrow> campaign_config
     \<Rightarrow> (datetime \<times> campaign_evidence) list \<Rightarrow> mem_store \<Rightarrow> mem_store" where
  "mem_run machine env cfg [] st = st"
| "mem_run machine env cfg ((now, ev) # evs) st =
     mem_run machine env cfg evs (snd (mem_apply machine env now cfg ev st))"

end
