(* ===== verification/Campaign_Mem.thy ===== *)
theory Campaign_Mem
  imports Campaign_Store
begin

text \<open>
  Facts and properties of the in-memory campaign store: the frame of each operation, the
  well-formedness invariant, idempotence under redelivery, the monotone progress of a campaign
  and the alert cooldown.
\<close>

section \<open>What each operation touches\<close>

lemma mem_alert_frame [frame_simps]:
  "ms_campaigns (snd (mem_alert env now cfg c ev t st)) = ms_campaigns st"
  "ms_evidence_ids (snd (mem_alert env now cfg c ev t st)) = ms_evidence_ids st"
  "ms_stage_history (snd (mem_alert env now cfg c ev t st)) = ms_stage_history st"
  by (auto simp: mem_alert_def Let_def split_beta split: sum.split)

lemma mem_alerts_frame [frame_simps]:
  "ms_campaigns (snd (mem_alerts env now cfg c ev ts st)) = ms_campaigns st"
  "ms_evidence_ids (snd (mem_alerts env now cfg c ev ts st)) = ms_evidence_ids st"
  "ms_stage_history (snd (mem_alerts env now cfg c ev ts st)) = ms_stage_history st"
proof (induction ts arbitrary: st)
  case (Cons t ts)
  {
    case 1
    then show ?case
      using Cons.IH(1) mem_alert_frame(1) [of env now cfg c ev t st]
      by (auto split: prod.split sum.split) (metis snd_conv)+
  next
    case 2
    then show ?case
      using Cons.IH(2) mem_alert_frame(2) [of env now cfg c ev t st]
      by (auto split: prod.split sum.split) (metis snd_conv)+
  next
    case 3
    then show ?case
      using Cons.IH(3) mem_alert_frame(3) [of env now cfg c ev t st]
      by (auto split: prod.split sum.split) (metis snd_conv)+
  }
qed simp_all

lemma mem_save_frame [frame_simps]:
  "ms_alerts (snd (mem_save env now ev ex c st)) = ms_alerts st"
  "ms_evidence_ids (snd (mem_save env now ev ex c st)) = ms_evidence_ids st"
  "ms_alert_history (snd (mem_save env now ev ex c st)) = ms_alert_history st"
  "ms_campaigns (snd (mem_save env now ev ex c st))
     = (ms_campaigns st)((scope_id ev, asset_id ev) \<mapsto> c)"
  "ms_stage_history (snd (mem_save env now ev ex c st)) = ms_stage_history st @
     (case ex of None \<Rightarrow> [] | Some d \<Rightarrow> if cr_stage c \<noteq> cr_stage d
        then [(cr_campaign_id c, cr_stage d, cr_stage c)] else [])"
  by (auto simp: mem_save_def Let_def split: option.split sum.split)

text \<open>A step of a loop that may raise: an invariant of the body is one of the loop.\<close>

lemma mem_alerts_invariant:
  assumes "P st" "\<And>t st. t \<in> set ts \<Longrightarrow> P st \<Longrightarrow> P (snd (mem_alert env now cfg c ev t st))"
  shows "P (snd (mem_alerts env now cfg c ev ts st))"
  using assms
proof (induction ts arbitrary: st)
  case Nil
  then show ?case by simp
next
  case (Cons t ts)
  have P1: "P (snd (mem_alert env now cfg c ev t st))" using Cons.prems by simp
  have P2: "P (snd (mem_alerts env now cfg c ev ts (snd (mem_alert env now cfg c ev t st))))"
    using Cons.IH [OF P1] Cons.prems(2) by simp
  obtain r st1 where e1: "mem_alert env now cfg c ev t st = (r, st1)" by fastforce
  obtain r' st2 where e2: "mem_alerts env now cfg c ev ts st1 = (r', st2)" by fastforce
  show ?case using P1 P2 by (simp add: e1 e2 split: sum.split)
qed

definition committed :: "py_env \<Rightarrow> campaign_evidence \<Rightarrow> campaign_record option \<Rightarrow> campaign_assessment \<Rightarrow> campaign_record" where
  "committed env ev existing a = (case existing of None \<Rightarrow> new_campaign env ev a
     | Some c \<Rightarrow> updated_campaign c ev a)"

lemma mem_commit_cases:
  obtains e st2 where "mem_save env now ev existing (committed env ev existing a) st = (Inl e, st2)"
      "mem_commit env now cfg ev existing a st = (Inl e, st2)"
  | emitted where "fst (mem_save env now ev existing (committed env ev existing a) st) = Inr emitted"
      "snd (mem_commit env now cfg ev existing a st) =
         snd (mem_alerts env now cfg (cr_campaign_id (committed env ev existing a)) ev (ca_alerts a)
           (snd (mem_save env now ev existing (committed env ev existing a) st)))"
proof -
  let ?c = "committed env ev existing a"
  obtain r st2 where s: "mem_save env now ev existing ?c st = (r, st2)" by fastforce
  obtain r3 st3 where l: "mem_alerts env now cfg (cr_campaign_id ?c) ev (ca_alerts a) st2 = (r3, st3)"
    by fastforce
  show thesis
  proof (cases r)
    case (Inl e)
    with s show thesis
      by (intro that(1)) (simp_all add: mem_commit_def committed_def [symmetric])
  next
    case (Inr emitted)
    with s l show thesis
      by (intro that(2) [of emitted])
        (simp_all add: mem_commit_def committed_def [symmetric] split: sum.split)
  qed
qed

lemma mem_commit_invariant:
  assumes "P (snd (mem_save env now ev ex (committed env ev ex a) st))"
    and "\<And>t st. t \<in> set (ca_alerts a) \<Longrightarrow> P st \<Longrightarrow>
      P (snd (mem_alert env now cfg (cr_campaign_id (committed env ev ex a)) ev t st))"
  shows "P (snd (mem_commit env now cfg ev ex a st))"
proof (rule mem_commit_cases [of env now ev ex a st cfg])
  fix e st2
  assume "mem_save env now ev ex (committed env ev ex a) st = (Inl e, st2)"
    "mem_commit env now cfg ev ex a st = (Inl e, st2)"
  then show ?thesis using assms(1) by simp
next
  fix emitted
  assume "snd (mem_commit env now cfg ev ex a st) =
      snd (mem_alerts env now cfg (cr_campaign_id (committed env ev ex a)) ev (ca_alerts a)
        (snd (mem_save env now ev ex (committed env ev ex a) st)))"
  then show ?thesis using mem_alerts_invariant [of P, OF assms(1) assms(2)] by simp
qed

lemma mem_commit_frame [frame_simps]:
  "ms_evidence_ids (snd (mem_commit env now cfg ev ex a st)) = ms_evidence_ids st"
  "ms_campaigns (snd (mem_commit env now cfg ev ex a st))
     = (ms_campaigns st)((scope_id ev, asset_id ev) \<mapsto> committed env ev ex a)"
  by (rule mem_commit_invariant [where P = "\<lambda>s. ms_evidence_ids s = ms_evidence_ids st"];
      simp add: frame_simps)
    (rule mem_commit_invariant [where P = "\<lambda>s. ms_campaigns s
        = (ms_campaigns st)((scope_id ev, asset_id ev) \<mapsto> committed env ev ex a)"];
      simp add: frame_simps)

definition claim :: "campaign_evidence \<Rightarrow> mem_store \<Rightarrow> mem_store" where
  "claim ev st = st\<lparr>ms_evidence_ids := insert (ce2_event_id ev) (ms_evidence_ids st)\<rparr>"

lemma claim_sel [simp]:
  "ms_campaigns (claim ev st) = ms_campaigns st" "ms_alerts (claim ev st) = ms_alerts st"
  "ms_stage_history (claim ev st) = ms_stage_history st"
  "ms_alert_history (claim ev st) = ms_alert_history st" "ms_outbox (claim ev st) = ms_outbox st"
  "ms_evidence_ids (claim ev st) = insert (ce2_event_id ev) (ms_evidence_ids st)"
  by (simp_all add: claim_def)

text \<open>The four outcomes of \<open>mem_apply\<close>.\<close>

lemma mem_apply_cases [case_names duplicate failed stale accepted]:
  fixes machine env now cfg ev st
  defines "ex \<equiv> live_campaign cfg ev (ms_campaigns st (scope_id ev, asset_id ev))"
  obtains (duplicate) "ce2_event_id ev \<in> ms_evidence_ids st"
      "snd (mem_apply machine env now cfg ev st) = st"
  | (failed) e where "ce2_event_id ev \<notin> ms_evidence_ids st"
      "machine (current_stage ex) (ce2_fusion ev) = Inl e"
      "mem_apply machine env now cfg ev st = (Inl e, claim ev st)"
  | (stale) c a where "ce2_event_id ev \<notin> ms_evidence_ids st" "ex = Some c" "is_stale c ev"
      "machine (current_stage ex) (ce2_fusion ev) = Inr a"
      "mem_apply machine env now cfg ev st
         = (Inr ((campaign_update_of c)\<lparr>cu_stale_evidence := True\<rparr>), claim ev st)"
  | (accepted) a where "ce2_event_id ev \<notin> ms_evidence_ids st"
      "machine (current_stage ex) (ce2_fusion ev) = Inr a"
      "\<And>c. ex = Some c \<Longrightarrow> \<not> is_stale c ev"
      "mem_apply machine env now cfg ev st = mem_commit env now cfg ev ex a (claim ev st)"
proof (cases "ce2_event_id ev \<in> ms_evidence_ids st")
  case True
  then show thesis by (intro duplicate) (simp_all add: mem_apply_def Let_def)
next
  case False
  show thesis
  proof (cases "machine (current_stage ex) (ce2_fusion ev)")
    case (Inl e)
    with False show thesis
      by (intro failed) (simp_all add: mem_apply_def Let_def ex_def claim_def)
  next
    case (Inr a)
    show thesis
    proof (cases ex)
      case None
      with False Inr show thesis
        by (intro accepted [of a]) (simp_all add: mem_apply_def Let_def ex_def claim_def)
    next
      case (Some c)
      show thesis
      proof (cases "is_stale c ev")
        case True
        with False Inr Some show thesis
          by (intro stale [of c a]) (simp_all add: mem_apply_def Let_def ex_def claim_def)
      next
        case not_stale: False
        with False Inr Some show thesis
          by (intro accepted [of a]) (simp_all add: mem_apply_def Let_def ex_def claim_def)
      qed
    qed
  qed
qed

lemma mem_apply_evidence [frame_simps]:
  "ms_evidence_ids (snd (mem_apply machine env now cfg ev st))
     = insert (ce2_event_id ev) (ms_evidence_ids st)"
  by (rule mem_apply_cases [where machine = machine and env = env and now = now and cfg = cfg
        and ev = ev and st = st]) (auto simp: frame_simps)

lemma mem_run_evidence:
  "ms_evidence_ids (mem_run machine env cfg evs st) = ms_evidence_ids st \<union> (ce2_event_id \<circ> snd) ` set evs"
  by (induction machine env cfg evs st rule: mem_run.induct) (auto simp: frame_simps)

lemma mem_run_append:
  "mem_run machine env cfg (xs @ ys) st = mem_run machine env cfg ys (mem_run machine env cfg xs st)"
  by (induction machine env cfg xs st rule: mem_run.induct) simp_all

section \<open>Well-formedness\<close>

definition wf_campaign :: "string \<times> string \<Rightarrow> campaign_record \<Rightarrow> bool" where
  "wf_campaign k c \<longleftrightarrow> (cr_scope_id c, cr_asset_id c) = k \<and> cr_status c = cs_active \<and>
     1 \<le> cr_version c \<and> cr_first_evidence_at c \<le> cr_last_evidence_at c \<and>
     unit_range (cr_stage_confidence c) \<and> cr_last_applied_evidence_cutoff c \<noteq> None"

definition alert_key :: "alert_record \<Rightarrow> uuid \<times> alert_type" where
  "alert_key al = (ar_campaign_id al, ar_alert_type al)"

definition wf_alert :: "uuid \<times> alert_type \<Rightarrow> alert_record \<Rightarrow> bool" where
  "wf_alert k al \<longleftrightarrow> alert_key al = k \<and> ar_status al = as_active \<and>
     ar_occurrence_count al = ar_version al \<and> 1 \<le> ar_version al \<and>
     ar_first_triggered_at al \<le> ar_last_triggered_at al \<and>
     (\<exists>n. ar_last_notified_at al = Some n \<and> n \<le> ar_last_triggered_at al)"

definition wf_mem :: "mem_store \<Rightarrow> bool" where
  "wf_mem st \<longleftrightarrow>
     (\<forall>k c. ms_campaigns st k = Some c \<longrightarrow> wf_campaign k c) \<and>
     (\<forall>k al. ms_alerts st k = Some al \<longrightarrow> wf_alert k al) \<and>
     (\<forall>(i, s, t) \<in> set (ms_stage_history st). s \<noteq> t \<and> t \<in> transitions s) \<and>
     (\<forall>(topic, e) \<in> set (ms_outbox st). wf_event e)"

lemma wf_mem_empty [simp]: "wf_mem mem_empty"
  by (simp add: wf_mem_def mem_empty_def)

lemma wf_new_campaign:
  "unit_range (ca_stage_confidence a) \<Longrightarrow> wf_campaign (scope_id ev, asset_id ev) (new_campaign env ev a)"
  by (simp add: wf_campaign_def new_campaign_def)

lemma wf_updated_campaign:
  "wf_campaign k c \<Longrightarrow> unit_range (ca_stage_confidence a) \<Longrightarrow> wf_campaign k (updated_campaign c ev a)"
  by (auto simp: wf_campaign_def updated_campaign_def)

lemma wf_new_alert: "wf_alert (c, tg_alert_type t) (new_alert env c ev t)"
  by (simp add: wf_alert_def new_alert_def alert_key_def)

lemma wf_updated_alert: "wf_alert k al \<Longrightarrow> wf_alert k (updated_alert d al ev t)"
  by (auto simp: wf_alert_def updated_alert_def alert_key_def)

lemma mem_alert_wf:
  assumes "wf_mem st"
  shows "wf_mem (snd (mem_alert env now cfg c ev t st))"
  using assms wf_new_alert [of c t env ev] wf_updated_alert [of "(c, tg_alert_type t)"]
  by (auto simp: mem_alert_def Let_def wf_mem_def dest: domain_event_Inr(1)
      split: option.split sum.split)

lemma mem_save_wf:
  assumes "wf_mem st" "wf_campaign (scope_id ev, asset_id ev) c"
    and "\<And>d. ex = Some d \<Longrightarrow> cr_stage c \<in> transitions (cr_stage d)"
  shows "wf_mem (snd (mem_save env now ev ex c st))"
  using assms by (auto simp: mem_save_def Let_def wf_mem_def dest: domain_event_Inr(1)
      split: option.split sum.split)

lemma live_campaign_Some:
  "live_campaign cfg ev found = Some c \<longleftrightarrow> found = Some c \<and> \<not> gap_elapsed cfg ev c"
  by (auto simp: live_campaign_def split: option.split)

lemma wf_claim [simp]: "wf_mem (claim ev st) = wf_mem st"
  by (simp add: wf_mem_def)

context campaign_machine
begin

lemma mem_apply_wf:
  assumes "wf_mem st"
  shows "wf_mem (snd (mem_apply machine env now cfg ev st))"
proof (rule mem_apply_cases [where machine = machine and env = env and now = now and cfg = cfg
      and ev = ev and st = st])
  let ?ex = "live_campaign cfg ev (ms_campaigns st (scope_id ev, asset_id ev))"
  fix a
  assume m: "machine (current_stage ?ex) (ce2_fusion ev) = Inr a"
    and e: "mem_apply machine env now cfg ev st = mem_commit env now cfg ev ?ex a (claim ev st)"
  have c: "wf_campaign (scope_id ev, asset_id ev) (committed env ev ?ex a)"
    using assms machine_confidence [OF m] wf_new_campaign wf_updated_campaign
    by (auto simp: committed_def wf_mem_def live_campaign_Some split: option.split)
  have t: "cr_stage (committed env ev ?ex a) \<in> transitions (cr_stage d)" if "?ex = Some d" for d
    using machine_allowed [OF m] that
    by (simp add: committed_def updated_campaign_def current_stage_def)
  have "wf_mem (snd (mem_commit env now cfg ev ?ex a (claim ev st)))"
    by (rule mem_commit_invariant, rule mem_save_wf) (use assms c t in \<open>auto intro: mem_alert_wf\<close>)
  then show ?thesis by (simp add: e)
qed (use assms in auto)

lemma mem_run_wf: "wf_mem st \<Longrightarrow> wf_mem (mem_run machine env cfg evs st)"
proof (induction evs arbitrary: st)
  case (Cons x evs)
  then show ?case by (cases x) (simp add: mem_apply_wf)
qed simp

text \<open>Accepted evidence moves the campaign of its key strictly forward in evaluation order and
  only raises its severity; everything else leaves the campaign as it is.\<close>

lemma mem_apply_progress:
  assumes "wf_mem st" "ms_campaigns st (scope_id ev, asset_id ev) = Some c" "\<not> gap_elapsed cfg ev c"
  shows "\<exists>c'. ms_campaigns (snd (mem_apply machine env now cfg ev st)) (scope_id ev, asset_id ev) = Some c' \<and>
    (c' = c \<or>
     cr_campaign_id c' = cr_campaign_id c \<and> cr_version c' = Suc (cr_version c) \<and>
     (\<exists>p. applied_order c = Some p \<and> p < evaluation_order ev) \<and>
     applied_order c' = Some (evaluation_order ev) \<and>
     cr_max_severity c \<le> cr_max_severity c' \<and> cr_last_evidence_at c \<le> cr_last_evidence_at c' \<and>
     cr_stage c' \<in> transitions (cr_stage c))"
proof -
  have ex: "live_campaign cfg ev (ms_campaigns st (scope_id ev, asset_id ev)) = Some c"
    using assms by (simp add: live_campaign_def)
  show ?thesis
  proof (rule mem_apply_cases [where machine = machine and env = env and now = now and cfg = cfg
        and ev = ev and st = st])
    fix a
    assume m: "machine (current_stage (live_campaign cfg ev (ms_campaigns st (scope_id ev, asset_id ev))))
        (ce2_fusion ev) = Inr a"
      and ns: "\<And>d. live_campaign cfg ev (ms_campaigns st (scope_id ev, asset_id ev)) = Some d \<Longrightarrow> \<not> is_stale d ev"
      and e: "mem_apply machine env now cfg ev st =
        mem_commit env now cfg ev (live_campaign cfg ev (ms_campaigns st (scope_id ev, asset_id ev))) a (claim ev st)"
    have "wf_campaign (scope_id ev, asset_id ev) c"
      using assms(1,2) unfolding wf_mem_def by blast
    then obtain u where "cr_last_applied_evidence_cutoff c = Some u"
      by (auto simp: wf_campaign_def)
    then obtain o1 where o1: "applied_order c = Some o1"
      by (simp add: applied_order_def)
    have "o1 < evaluation_order ev"
      using ns [OF ex] o1 by (simp add: is_stale_def not_le)
    moreover have "applied_order (updated_campaign c ev a) = Some (evaluation_order ev)"
      by (simp add: applied_order_def updated_campaign_def evaluation_order_def)
    ultimately show ?thesis
      using m machine_allowed [OF m] o1
      by (auto simp: e ex frame_simps committed_def updated_campaign_def current_stage_def)
  qed (use assms in \<open>auto simp: ex\<close>)
qed

end

section \<open>The alert cooldown\<close>

definition concerns :: "uuid \<times> alert_type \<Rightarrow> campaign_payload canonical_event \<Rightarrow> bool" where
  "concerns k e = (case ce_payload e of AlertPayload al r \<Rightarrow> alert_key al = k | _ \<Rightarrow> False)"

text \<open>The type and event time of the notifications published about one alert, in order.\<close>

definition notifications :: "uuid \<times> alert_type \<Rightarrow> outbox \<Rightarrow> (event_type \<times> datetime) list" where
  "notifications k ob =
     map (\<lambda>e. (ce_event_type e, ce_event_time e)) (filter (concerns k) (map snd ob))"

fun spaced :: "timedelta \<Rightarrow> (event_type \<times> datetime) list \<Rightarrow> bool" where
  "spaced d (x # y # zs) =
     ((fst y = ev_alert_refreshed \<longrightarrow> d \<le> snd y - snd x) \<and> spaced d (y # zs))"
| "spaced d xs = True"

lemma spaced_snoc:
  "spaced d (xs @ [y]) \<longleftrightarrow>
     spaced d xs \<and> (xs \<noteq> [] \<longrightarrow> fst y = ev_alert_refreshed \<longrightarrow> d \<le> snd y - snd (last xs))"
  by (induction d xs rule: spaced.induct) auto

text \<open>What one alert and the notifications about it have to agree on.\<close>

definition cooldown_at ::
    "timedelta \<Rightarrow> uuid \<times> alert_type \<Rightarrow> alert_record option \<Rightarrow> (event_type \<times> datetime) list \<Rightarrow> bool" where
  "cooldown_at d k found ns \<longleftrightarrow> spaced d ns \<and>
     (case found of None \<Rightarrow> ns = []
      | Some al \<Rightarrow> alert_key al = k \<and> ns \<noteq> [] \<and> ar_last_notified_at al = Some (snd (last ns)))"

definition cooldown_inv :: "timedelta \<Rightarrow> mem_store \<Rightarrow> bool" where
  "cooldown_inv d st \<longleftrightarrow> (\<forall>k. cooldown_at d k (ms_alerts st k) (notifications k (ms_outbox st)))"

lemma cooldown_invD: "cooldown_inv d st \<Longrightarrow> cooldown_at d k (ms_alerts st k) (notifications k (ms_outbox st))"
  unfolding cooldown_inv_def by blast

lemma notifications_snoc:
  "notifications k (ob @ [(topic, e)]) =
     notifications k ob @ (if concerns k e then [(ce_event_type e, ce_event_time e)] else [])"
  by (simp add: notifications_def)

lemma alert_key_new [simp]: "alert_key (new_alert env c ev t) = (c, tg_alert_type t)"
  by (simp add: alert_key_def new_alert_def)

lemma alert_key_updated [simp]: "alert_key (updated_alert d al ev t) = alert_key al"
  by (simp add: alert_key_def updated_alert_def)

lemma cooldown_publish:
  assumes "cooldown_inv d st" "alert_key al = k" "ce_payload e = AlertPayload al r"
    and "ar_last_notified_at al = Some (ce_event_time e)"
    and "ms_alerts st k \<noteq> None \<Longrightarrow> ce_event_type e = ev_alert_refreshed \<Longrightarrow>
      \<exists>n. ar_last_notified_at (the (ms_alerts st k)) = Some n \<and> d \<le> ce_event_time e - n"
    and "ms_alerts st' = (ms_alerts st)(k \<mapsto> al)" "ms_outbox st' = ms_outbox st @ [(topic, e)]"
  shows "cooldown_inv d st'"
  unfolding cooldown_inv_def
proof
  fix j
  have c: "concerns j e \<longleftrightarrow> j = k"
    using assms(2,3) by (auto simp: concerns_def)
  have at: "cooldown_at d j (ms_alerts st j) (notifications j (ms_outbox st))"
    using assms(1) by (rule cooldown_invD)
  show "cooldown_at d j (ms_alerts st' j) (notifications j (ms_outbox st'))"
  proof (cases "j = k")
    case True
    then show ?thesis
      using at assms(2,4,5) c
      by (cases "ms_alerts st k") (auto simp: cooldown_at_def assms(6,7) notifications_snoc spaced_snoc)
  next
    case False
    then show ?thesis
      using at c by (simp add: assms(6,7) notifications_snoc)
  qed
qed

lemma cooldown_silent:
  assumes "cooldown_inv d st" "ms_alerts st k = Some al" "alert_key al' = k"
    and "ar_last_notified_at al' = ar_last_notified_at al"
    and "ms_alerts st' = (ms_alerts st)(k \<mapsto> al')" "ms_outbox st' = ms_outbox st"
  shows "cooldown_inv d st'"
  unfolding cooldown_inv_def
proof
  fix j
  show "cooldown_at d j (ms_alerts st' j) (notifications j (ms_outbox st'))"
    using cooldown_invD [OF assms(1), of j] assms(2-6) by (cases "j = k") (simp_all add: cooldown_at_def)
qed

lemma mem_alert_cooldown:
  assumes "cooldown_inv (cc_suppression cfg) st" "routable ev"
  shows "cooldown_inv (cc_suppression cfg) (snd (mem_alert env now cfg c ev t st))"
proof (cases "ms_alerts st (c, tg_alert_type t)")
  case None
  let ?al = "new_alert env c ev t"
  obtain e where e: "domain_event env now ev ev_alert_created ''alerts.events.v1'' (ar_alert_id ?al)
      (AlertPayload ?al (tg_reason t)) = Inr e"
    using domain_event_routable [OF assms(2)] .
  show ?thesis
    by (rule cooldown_publish [OF assms(1), of ?al _ e "tg_reason t"])
      (use None e domain_event_Inr [OF e] in \<open>auto simp: mem_alert_def new_alert_def alert_key_def\<close>)
next
  case (Some old)
  let ?al = "updated_alert (cc_suppression cfg) old ev t"
  have key: "alert_key old = (c, tg_alert_type t)" and notified: "ar_last_notified_at old \<noteq> None"
    using cooldown_invD [OF assms(1), of "(c, tg_alert_type t)"] Some by (simp_all add: cooldown_at_def)
  show ?thesis
  proof (cases "alert_suppressed (cc_suppression cfg) old ev t")
    case True
    show ?thesis
      by (rule cooldown_silent [OF assms(1) Some, of ?al])
        (use key True Some in \<open>auto simp: mem_alert_def updated_alert_def alert_key_def\<close>)
  next
    case False
    let ?ty = "if alert_changed old t then ev_alert_severity_changed else ev_alert_refreshed"
    obtain e where e: "domain_event env now ev ?ty ''alerts.events.v1'' (ar_alert_id ?al)
        (AlertPayload ?al (tg_reason t)) = Inr e"
      using domain_event_routable [OF assms(2)] .
    have out: "ms_alerts (snd (mem_alert env now cfg c ev t st)) = (ms_alerts st)((c, tg_alert_type t) \<mapsto> ?al)"
      "ms_outbox (snd (mem_alert env now cfg c ev t st)) = ms_outbox st @ [(''alerts.events.v1'', e)]"
      using Some False e by (simp_all add: mem_alert_def Let_def)
    have wait: "cc_suppression cfg \<le> ce2_event_time ev - n"
      if "ar_last_notified_at old = Some n" "\<not> alert_changed old t" for n
      using False that by (simp add: alert_suppressed_def)
    show ?thesis
      by (rule cooldown_publish [OF assms(1) _ domain_event_Inr(3) [OF e] _ _ out])
        (use key notified False wait Some domain_event_Inr(2,4) [OF e] in
          \<open>auto simp: updated_alert_def alert_key_def split: if_splits\<close>)
  qed
qed

lemma mem_save_cooldown:
  assumes "cooldown_inv d st"
  shows "cooldown_inv d (snd (mem_save env now ev ex c st))"
proof -
  have "notifications k (ms_outbox (snd (mem_save env now ev ex c st))) = notifications k (ms_outbox st)" for k
    by (auto simp: mem_save_def Let_def notifications_snoc concerns_def
        dest!: domain_event_Inr(3) split: option.split sum.split)
  then show ?thesis
    using assms by (simp add: cooldown_inv_def frame_simps)
qed

lemma mem_apply_cooldown:
  assumes "cooldown_inv (cc_suppression cfg) st" "routable ev"
  shows "cooldown_inv (cc_suppression cfg) (snd (mem_apply machine env now cfg ev st))"
proof -
  have claim: "cooldown_inv (cc_suppression cfg) (claim ev st)"
    using assms(1) by (simp add: cooldown_inv_def)
  show ?thesis
  proof (rule mem_apply_cases [where machine = machine and env = env and now = now and cfg = cfg
        and ev = ev and st = st])
    let ?ex = "live_campaign cfg ev (ms_campaigns st (scope_id ev, asset_id ev))"
    fix a
    assume e: "mem_apply machine env now cfg ev st = mem_commit env now cfg ev ?ex a (claim ev st)"
    show ?thesis
      unfolding e by (rule mem_commit_invariant)
        (use claim assms(2) in \<open>auto intro: mem_save_cooldown mem_alert_cooldown\<close>)
  qed (use assms claim in auto)
qed

lemma mem_run_cooldown:
  "cooldown_inv (cc_suppression cfg) st \<Longrightarrow> \<forall>x\<in>set evs. routable (snd x) \<Longrightarrow>
     cooldown_inv (cc_suppression cfg) (mem_run machine env cfg evs st)"
  by (induction machine env cfg evs st rule: mem_run.induct) (auto intro: mem_apply_cooldown)

lemma cooldown_empty [simp]: "cooldown_inv d mem_empty"
  by (simp add: cooldown_inv_def cooldown_at_def mem_empty_def notifications_def)

section \<open>A sample of evidence\<close>

definition sample_evidence :: "string \<Rightarrow> datetime \<Rightarrow> fusion_result \<Rightarrow> campaign_evidence" where
  "sample_evidence i t f = \<lparr>ce2_event_id = i, ce2_correlation_id = ''c'', ce2_causation_id = None,
     ce2_event_time = t, ce2_fusion = f\<rparr>"

lemma sample_evidence_sel [simp]:
  "ce2_event_id (sample_evidence i t f) = i" "ce2_event_time (sample_evidence i t f) = t"
  "ce2_fusion (sample_evidence i t f) = f" "scope_id (sample_evidence i t f) = fr_scope_id f"
  "asset_id (sample_evidence i t f) = fr_asset_id f"
  by (simp_all add: sample_evidence_def scope_id_def asset_id_def)

lemma signal_score_key [simp]:
  "fr_scope_id (signal_score so co ma pr bs sev) = ''LIVE''"
  "fr_asset_id (signal_score so co ma pr bs sev) = ''ACME''"
  by (simp_all add: signal_score_def blank_score_def)

lemma routable_sample [simp]: "routable (sample_evidence i t (signal_score so co ma pr bs sev))"
  by (simp add: routable_def blank_def is_space_def)

lemma calm_step:
  "next_stage st_normal (signal_score 0 0 0 0 0 risk_normal) = (st_normal, r) \<Longrightarrow>
   \<exists>a. assess st_normal (signal_score 0 0 0 0 0 risk_normal) = Inr a"
  by (simp add: assess_def validate_def transitions_def stage_confidence_def)

lemma calm_assess: "\<exists>a. assess st_normal (signal_score 0 0 0 0 0 risk_normal) = Inr a"
  by (rule calm_step) (simp add: next_stage_def Let_def or_else_def)

lemma mem_apply_new:
  assumes "assess st_normal (ce2_fusion ev) = Inr a" "ce2_event_id ev \<notin> ms_evidence_ids st"
    and "ms_campaigns st (scope_id ev, asset_id ev) = None"
  shows "ms_campaigns (snd (mem_apply assess env now cfg ev st)) =
    (ms_campaigns st)((scope_id ev, asset_id ev) \<mapsto> new_campaign env ev a)"
proof -
  have "mem_apply assess env now cfg ev st = mem_commit env now cfg ev None a (claim ev st)"
    using assms by (simp add: mem_apply_def live_campaign_def current_stage_def claim_def)
  then show ?thesis by (simp add: frame_simps committed_def)
qed

section \<open>Properties\<close>

text \<open>After any sequence of evidence the in-memory store is well formed: each key holds one
  active campaign of that scope and asset whose evidence interval is ordered, the alert keys and
  counters agree, every recorded stage change is one of the transition table and every published
  event carries its identities.\<close>

theorem mem_run_invariant: "wf_mem (mem_run assess env cfg evs mem_empty)"
  by (rule rules.mem_run_wf) simp

text \<open>Redelivery is idempotent: evidence that was delivered before, at any point of the run,
  leaves the store exactly as it is, and its answer is flagged as a duplicate.\<close>

theorem mem_redelivery:
  assumes "ce2_event_id ev \<in> ce2_event_id ` snd ` set evs"
  shows "snd (mem_apply assess env now cfg ev (mem_run assess env cfg evs st)) = mem_run assess env cfg evs st \<and>
    (\<forall>u. fst (mem_apply assess env now cfg ev (mem_run assess env cfg evs st)) = Inr u \<longrightarrow>
       cu_duplicate_evidence u \<and> cu_alerts u = [] \<and> cu_emitted_event_ids u = [])"
proof -
  have "ce2_event_id ev \<in> ms_evidence_ids (mem_run assess env cfg evs st)"
    using assms by (auto simp: mem_run_evidence)
  then show ?thesis
    by (auto simp: mem_apply_def Let_def campaign_update_of_def split: option.splits)
qed

theorem mem_redelivery_witness:
  "let ev = sample_evidence ''e1'' 0 (signal_score 0 0 0 0 0 risk_normal);
       st = mem_run assess sample_env default_campaign_config [(5, ev)] mem_empty
   in snd (mem_apply assess sample_env 9 default_campaign_config ev st) = st"
  unfolding Let_def by (rule mem_redelivery [THEN conjunct1]) simp

text \<open>A live campaign only makes progress: one more evidence either leaves it alone or moves
  it strictly forward in evaluation order (cutoff, feature revision, fusion revision, enrichment
  priority), keeping its identity, counting one version, never lowering its severity and
  following the transition table.\<close>

theorem mem_progress:
  assumes "ms_campaigns (mem_run assess env cfg evs mem_empty) (scope_id ev, asset_id ev) = Some c"
    and "\<not> gap_elapsed cfg ev c"
  shows "\<exists>c'. ms_campaigns (snd (mem_apply assess env now cfg ev (mem_run assess env cfg evs mem_empty)))
      (scope_id ev, asset_id ev) = Some c' \<and>
    (c' = c \<or>
     cr_campaign_id c' = cr_campaign_id c \<and> cr_version c' = Suc (cr_version c) \<and>
     (\<exists>p. applied_order c = Some p \<and> p < evaluation_order ev) \<and>
     applied_order c' = Some (evaluation_order ev) \<and>
     cr_max_severity c \<le> cr_max_severity c' \<and> cr_last_evidence_at c \<le> cr_last_evidence_at c' \<and>
     cr_stage c' \<in> transitions (cr_stage c))"
  by (rule rules.mem_apply_progress [OF rules.mem_run_wf [OF wf_mem_empty] assms])

theorem mem_progress_witness:
  "let e1 = sample_evidence ''e1'' 0 (signal_score 0 0 0 0 0 risk_normal);
       e2 = sample_evidence ''e2'' 60 (signal_score 1 0 0 0 0 risk_watch);
       st = mem_run assess sample_env default_campaign_config [(5, e1)] mem_empty
   in \<exists>c c'. ms_campaigns st (''LIVE'', ''ACME'') = Some c \<and>
     ms_campaigns (snd (mem_apply assess sample_env 70 default_campaign_config e2 st)) (''LIVE'', ''ACME'') = Some c' \<and>
     cr_max_severity c \<le> cr_max_severity c'"
proof -
  let ?e1 = "sample_evidence ''e1'' 0 (signal_score 0 0 0 0 0 risk_normal)"
  let ?e2 = "sample_evidence ''e2'' 60 (signal_score 1 0 0 0 0 risk_watch)"
  obtain a where a: "assess st_normal (signal_score 0 0 0 0 0 risk_normal) = Inr a"
    using calm_assess by blast
  have c: "ms_campaigns (mem_run assess sample_env default_campaign_config [(5, ?e1)] mem_empty)
      (scope_id ?e2, asset_id ?e2) = Some (new_campaign sample_env ?e1 a)"
    using mem_apply_new [of ?e1 a mem_empty] a by (simp add: mem_empty_def)
  have g: "\<not> gap_elapsed default_campaign_config ?e2 (new_campaign sample_env ?e1 a)"
    by (simp add: gap_elapsed_def default_campaign_config_def new_campaign_def seconds_def)
  show ?thesis
    using mem_progress [OF c g, of 70] c unfolding Let_def by fastforce
qed

text \<open>The cooldown holds along every run: whatever evidence arrives, in whatever order, two
  successive notifications about one alert of which the second is a mere refresh are at least
  the suppression interval of event time apart.\<close>

theorem mem_cooldown:
  assumes "\<forall>x \<in> set evs. routable (snd x)"
  shows "spaced (cc_suppression cfg) (notifications k (ms_outbox (mem_run assess env cfg evs mem_empty)))"
  using cooldown_invD [OF mem_run_cooldown [OF cooldown_empty assms]] unfolding cooldown_at_def by blast

theorem mem_cooldown_witness:
  "spaced (seconds 300) (notifications (''a'', at_possible_dump_phase)
     (ms_outbox (mem_run assess sample_env default_campaign_config
        [(1, sample_evidence ''e1'' 0 (signal_score 1 0 0 (-1) 0 risk_high)),
         (2, sample_evidence ''e2'' 60 (signal_score 1 0 0 (-1) 0 risk_high))] mem_empty)))"
  using mem_cooldown [of "[(1, sample_evidence ''e1'' 0 (signal_score 1 0 0 (-1) 0 risk_high)),
      (2, sample_evidence ''e2'' 60 (signal_score 1 0 0 (-1) 0 risk_high))]" default_campaign_config]
  by (simp add: default_campaign_config_def)

text \<open>Every trigger is accounted for: a first trigger is published as created, a change of
  severity as a severity change whatever the cooldown says, and an unchanged alert as a refresh
  unless its last notification is inside the cooldown; the occurrence is counted in every case
  and the stored severity is the maximum.\<close>

theorem mem_alert_branches:
  assumes "routable ev"
  shows "\<exists>al ids. mem_alert env now cfg c ev t st = (Inr (al, ids), snd (mem_alert env now cfg c ev t st)) \<and>
    ms_alerts (snd (mem_alert env now cfg c ev t st)) = (ms_alerts st)((c, tg_alert_type t) \<mapsto> al) \<and>
    map (\<lambda>(topic, e). (topic, ce_event_type e, ce_event_id e))
        (drop (length (ms_outbox st)) (ms_outbox (snd (mem_alert env now cfg c ev t st)))) =
      map (\<lambda>i. (''alerts.events.v1'', case ms_alerts st (c, tg_alert_type t) of
             None \<Rightarrow> ev_alert_created
           | Some old \<Rightarrow> if alert_changed old t then ev_alert_severity_changed else ev_alert_refreshed, i)) ids \<and>
    (case ms_alerts st (c, tg_alert_type t) of
       None \<Rightarrow> length ids = 1 \<and> ar_occurrence_count al = 1 \<and> ar_severity al = tg_severity t
     | Some old \<Rightarrow>
         (if alert_suppressed (cc_suppression cfg) old ev t then ids = [] else length ids = 1) \<and>
         (alert_changed old t \<longrightarrow> length ids = 1) \<and>
         ar_occurrence_count al = Suc (ar_occurrence_count old) \<and>
         ar_severity al = max_risk (ar_severity old) (tg_severity t))"
proof (cases "ms_alerts st (c, tg_alert_type t)")
  case None
  let ?al = "new_alert env c ev t"
  obtain e where "domain_event env now ev ev_alert_created ''alerts.events.v1'' (ar_alert_id ?al)
      (AlertPayload ?al (tg_reason t)) = Inr e"
    using domain_event_routable [OF assms] .
  with None show ?thesis
    by (simp add: mem_alert_def domain_event_Inr) (simp add: new_alert_def)
next
  case (Some old)
  let ?al = "updated_alert (cc_suppression cfg) old ev t"
  let ?ty = "if alert_changed old t then ev_alert_severity_changed else ev_alert_refreshed"
  obtain e where e: "domain_event env now ev ?ty ''alerts.events.v1'' (ar_alert_id ?al)
      (AlertPayload ?al (tg_reason t)) = Inr e"
    using domain_event_routable [OF assms] .
  have al: "ar_occurrence_count ?al = Suc (ar_occurrence_count old)"
    "ar_severity ?al = max_risk (ar_severity old) (tg_severity t)"
    by (simp_all add: updated_alert_def)
  show ?thesis
  proof (cases "alert_suppressed (cc_suppression cfg) old ev t")
    case True
    then have "\<not> alert_changed old t" by (simp add: alert_suppressed_def)
    with True Some al show ?thesis by (simp add: mem_alert_def)
  next
    case False
    with Some al e domain_event_Inr(2) [OF e] show ?thesis by (simp add: mem_alert_def)
  qed
qed

theorem mem_alert_branches_witness:
  "\<exists>al ids. fst (mem_alert sample_env 1 default_campaign_config ''k''
      (sample_evidence ''e1'' 0 (signal_score 1 0 0 (-1) 0 risk_high))
      (trigger at_possible_dump_phase risk_high ''r'') mem_empty) = Inr (al, ids) \<and> length ids = 1"
proof -
  let ?ev = "sample_evidence ''e1'' 0 (signal_score 1 0 0 (-1) 0 risk_high)"
  let ?t = "trigger at_possible_dump_phase risk_high ''r''"
  have r: "routable ?ev" by simp
  have n: "ms_alerts mem_empty k = None" for k by (simp add: mem_empty_def)
  obtain al ids where m: "mem_alert sample_env 1 default_campaign_config ''k'' ?ev ?t mem_empty =
      (Inr (al, ids), snd (mem_alert sample_env 1 default_campaign_config ''k'' ?ev ?t mem_empty))"
      and l: "length ids = 1"
    using mem_alert_branches [OF r, of sample_env 1 default_campaign_config "''k''" ?t mem_empty]
    unfolding n option.case by blast
  show ?thesis using l by (subst m) simp
qed

text \<open>The in-memory store is not atomic: when the evidence cannot be turned into an event (a
  blank asset or an unnamed replay scope), the first delivery raises but has already stored the
  campaign and claimed the evidence, so the retry is reported as a duplicate and the creation is
  never published.\<close>

theorem mem_failure_not_atomic:
  assumes "\<not> routable ev" "assess st_normal (ce2_fusion ev) = Inr a"
    and "ce2_event_id ev \<notin> ms_evidence_ids st" "ms_campaigns st (scope_id ev, asset_id ev) = None"
  shows "\<exists>e st'. mem_apply assess env now cfg ev st = (Inl e, st') \<and>
    ms_campaigns st' (scope_id ev, asset_id ev) = Some (new_campaign env ev a) \<and>
    ms_outbox st' = ms_outbox st \<and>
    mem_apply assess env now' cfg ev st' =
      (Inr ((campaign_update_of (new_campaign env ev a))\<lparr>cu_duplicate_evidence := True\<rparr>), st')"
proof -
  let ?c = "new_campaign env ev a"
  obtain e where e: "domain_event env now ev ev_campaign_created ''campaign.events.v1'' (cr_campaign_id ?c)
      (CampaignPayload ?c) = Inl e"
    using domain_event_ok [of env now ev ev_campaign_created "''campaign.events.v1''" "cr_campaign_id ?c"
        "CampaignPayload ?c"] assms(1)
    by (auto simp: is_ok_def split: sum.splits)
  have "mem_apply assess env now cfg ev st = mem_commit env now cfg ev None a (claim ev st)"
    using assms by (simp add: mem_apply_def live_campaign_def current_stage_def claim_def)
  also have "\<dots> = (Inl e, (claim ev st)\<lparr>ms_campaigns := (ms_campaigns st)((scope_id ev, asset_id ev) \<mapsto> ?c)\<rparr>)"
    using e by (simp add: mem_commit_def mem_save_def Let_def)
  finally show ?thesis
    by (simp add: mem_apply_def)
qed

theorem mem_failure_not_atomic_witness:
  "let ev = sample_evidence ''e1'' 0 ((signal_score 0 0 0 0 0 risk_normal)\<lparr>fr_asset_id := '' ''\<rparr>)
   in \<exists>e st'. mem_apply assess sample_env 1 default_campaign_config ev mem_empty = (Inl e, st') \<and>
     ms_campaigns st' (''LIVE'', '' '') \<noteq> None \<and> ms_outbox st' = []"
proof -
  let ?ev = "sample_evidence ''e1'' 0 ((signal_score 0 0 0 0 0 risk_normal)\<lparr>fr_asset_id := '' ''\<rparr>)"
  have "\<not> routable ?ev"
    by (simp add: routable_def blank_def is_space_def)
  moreover obtain a where "assess st_normal (ce2_fusion ?ev) = Inr a"
  proof -
    have "is_ok (assess st_normal (ce2_fusion ?ev))"
      by (simp add: assess_def next_stage_def Let_def or_else_def validate_def transitions_def
          stage_confidence_def signal_score_def blank_score_def number_def feature_get_def)
    then show thesis using that by (auto simp: is_ok_iff)
  qed
  ultimately show ?thesis
    using mem_failure_not_atomic [of ?ev a mem_empty sample_env 1 default_campaign_config]
    unfolding Let_def by (fastforce simp: mem_empty_def signal_score_def blank_score_def)
qed

end
