(* ===== verification/Campaign_Sql.thy ===== *)
theory Campaign_Sql
  imports Campaign_Store
begin

text \<open>
  The SQL campaign repository (\<open>SqlCampaignRepository\<close> of \<open>campaigns/repository.py\<close>). The tables
  are lists of rows in insertion order. The body of \<open>apply\<close> is a function from the tables to
  either an exception or the returned update with the new tables; \<open>sql_apply\<close> runs it as one
  transaction, which keeps the tables when the body raises. The answers of
  \<open>pg_try_advisory_xact_lock\<close> and the JSON dump of a fusion result are arguments.

  Primary keys and the unique constraint of the outbox raise \<open>IntegrityError\<close>. The constraints of
  the evidence and history tables are per evidence id, which \<open>apply\<close> has checked to be new.
\<close>

section \<open>Tables\<close>

record campaign_row = campaign_record +
  rw_stage_rule_version :: string
  rw_closed_reason :: "string option"

record evidence_row =
  er_scope_id :: string
  er_campaign_id :: uuid
  er_event_time :: datetime
  er_evidence_type :: event_type
  er_fingerprint :: string
  er_fusion :: fusion_result

record stage_history_row =
  sh_campaign_id :: uuid
  sh_from_stage :: "campaign_stage option"
  sh_to_stage :: campaign_stage
  sh_evidence_event_id :: string
  sh_reason :: string
  sh_reason_codes :: "string list"
  sh_evidence_ids :: "string list"
  sh_confidence :: real
  sh_rule_version :: string
  sh_changed_at :: datetime

record alert_row = alert_record +
  aw_fingerprint :: string

record alert_history_row =
  ah_alert_id :: uuid
  ah_evidence_event_id :: string
  ah_from_severity :: "risk_level option"
  ah_to_severity :: risk_level
  ah_from_status :: "alert_status option"
  ah_to_status :: alert_status
  ah_suppression_reason :: "string option"
  ah_changed_at :: datetime

record sql_store =
  sq_campaigns :: "campaign_row list"
  sq_evidence :: "string \<rightharpoonup> evidence_row"
  sq_stage_history :: "stage_history_row list"
  sq_alerts :: "alert_row list"
  sq_alert_history :: "alert_history_row list"
  sq_outbox :: outbox

definition sql_empty :: sql_store where
  "sql_empty = \<lparr>sq_campaigns = [], sq_evidence = Map.empty, sq_stage_history = [],
     sq_alerts = [], sq_alert_history = [], sq_outbox = []\<rparr>"

record sql_config = campaign_config +
  cc_lock_retry_count :: nat
  cc_lock_retry_backoff :: real

definition default_sql_config :: sql_config where
  "default_sql_config = \<lparr>cc_merge_gap = seconds 1800, cc_suppression = seconds 300,
     cc_lock_retry_count = 3, cc_lock_retry_backoff = 50 / 1000\<rparr>"

section \<open>The advisory lock\<close>

text \<open>The retry loop: \<open>answers attempt\<close> is the database's answer to an attempt. The result is
  whether the lock was taken and the pauses slept, in order.\<close>

fun lock_loop :: "(nat \<Rightarrow> bool) \<Rightarrow> real \<Rightarrow> nat \<Rightarrow> nat \<Rightarrow> bool \<times> real list" where
  "lock_loop answers backoff attempt 0 = (False, [])"
| "lock_loop answers backoff attempt (Suc remaining) =
    (if answers attempt then (True, [])
     else let (acquired, pauses) = lock_loop answers backoff (Suc attempt) remaining
          in (acquired, if remaining > 0 then backoff * real (Suc attempt) # pauses else pauses))"

definition acquire_lock :: "sql_config \<Rightarrow> (nat \<Rightarrow> bool) \<Rightarrow> bool \<times> real list" where
  "acquire_lock cfg answers =
     lock_loop answers (cc_lock_retry_backoff cfg) 0 (Suc (cc_lock_retry_count cfg))"

section \<open>Queries and inserts\<close>

definition campaign_by_id :: "uuid \<Rightarrow> sql_store \<Rightarrow> campaign_row option" where
  "campaign_by_id i st = List.find (\<lambda>r. cr_campaign_id r = i) (sq_campaigns st)"

definition active_row :: "string \<times> string \<Rightarrow> campaign_row \<Rightarrow> bool" where
  "active_row k r \<longleftrightarrow> (cr_scope_id r, cr_asset_id r) = k \<and> cr_status r = cs_active"

definition active_campaign :: "string \<times> string \<Rightarrow> sql_store \<Rightarrow> campaign_row option" where
  "active_campaign k st = List.find (active_row k) (sq_campaigns st)"

definition write_campaign :: "campaign_row \<Rightarrow> sql_store \<Rightarrow> sql_store" where
  "write_campaign r st = st\<lparr>sq_campaigns :=
     map (\<lambda>x. if cr_campaign_id x = cr_campaign_id r then r else x) (sq_campaigns st)\<rparr>"

definition insert_campaign :: "campaign_row \<Rightarrow> sql_store \<Rightarrow> sql_store res" where
  "insert_campaign r st =
    (if list_ex (\<lambda>x. cr_campaign_id x = cr_campaign_id r) (sq_campaigns st)
     then Inl (IntegrityError ''campaigns'')
     else Inr (st\<lparr>sq_campaigns := sq_campaigns st @ [r]\<rparr>))"

definition enqueue :: "string \<Rightarrow> campaign_payload canonical_event \<Rightarrow> sql_store \<Rightarrow> sql_store res" where
  "enqueue topic e st =
    (if list_ex (\<lambda>(t, x). t = topic \<and> ce_event_id x = ce_event_id e) (sq_outbox st)
     then Inl (IntegrityError ''outbox_events'')
     else Inr (st\<lparr>sq_outbox := sq_outbox st @ [(topic, e)]\<rparr>))"

text \<open>Building a domain event and enqueueing it; the result is its id.\<close>

definition publish ::
    "py_env \<Rightarrow> datetime \<Rightarrow> campaign_evidence \<Rightarrow> event_type \<Rightarrow> string \<Rightarrow> uuid \<Rightarrow> campaign_payload
     \<Rightarrow> sql_store \<Rightarrow> (string \<times> sql_store) res" where
  "publish env now ev etype topic entity payload st =
    (case domain_event env now ev etype topic entity payload of
       Inl e \<Rightarrow> Inl e
     | Inr event \<Rightarrow> (case enqueue topic event st of
         Inl e \<Rightarrow> Inl e | Inr st' \<Rightarrow> Inr (ce_event_id event, st')))"

definition fingerprint :: "py_env \<Rightarrow> (fusion_result \<Rightarrow> string) \<Rightarrow> fusion_result \<Rightarrow> string" where
  "fingerprint env dump f = env_sha256 env (dump f)"

definition add_evidence ::
    "py_env \<Rightarrow> (fusion_result \<Rightarrow> string) \<Rightarrow> campaign_evidence \<Rightarrow> uuid \<Rightarrow> sql_store \<Rightarrow> sql_store" where
  "add_evidence env dump ev campaign st = st\<lparr>sq_evidence := (sq_evidence st)(ce2_event_id ev \<mapsto>
     \<lparr>er_scope_id = scope_id ev, er_campaign_id = campaign, er_event_time = ce2_event_time ev,
      er_evidence_type = ev_model_fusion_scored,
      er_fingerprint = fingerprint env dump (ce2_fusion ev), er_fusion = ce2_fusion ev\<rparr>)\<rparr>"

definition stage_history ::
    "campaign_evidence \<Rightarrow> campaign_assessment \<Rightarrow> uuid \<Rightarrow> campaign_stage option \<Rightarrow> stage_history_row" where
  "stage_history ev a campaign from_stage =
    \<lparr>sh_campaign_id = campaign, sh_from_stage = from_stage, sh_to_stage = ca_next_stage a,
     sh_evidence_event_id = ce2_event_id ev, sh_reason = ca_transition_reason a,
     sh_reason_codes = ca_reason_codes a, sh_evidence_ids = ca_stage_evidence_ids a,
     sh_confidence = ca_stage_confidence a, sh_rule_version = ca_rule_version a,
     sh_changed_at = ce2_event_time ev\<rparr>"

text \<open>\<open>_campaign_record\<close> and \<open>_alert_record\<close>: the columns of a row that a record has.\<close>

definition campaign_of_row :: "campaign_row \<Rightarrow> campaign_record" where
  "campaign_of_row r = campaign_record.truncate r"

definition alert_of_row :: "alert_row \<Rightarrow> alert_record" where
  "alert_of_row r = alert_record.truncate r"

definition campaign_columns :: "campaign_record \<Rightarrow> string \<Rightarrow> string option \<Rightarrow> campaign_row" where
  "campaign_columns c rule why =
     campaign_record.extend c \<lparr>rw_stage_rule_version = rule, rw_closed_reason = why\<rparr>"

definition alert_columns :: "alert_record \<Rightarrow> string \<Rightarrow> alert_row" where
  "alert_columns al print = alert_record.extend al \<lparr>aw_fingerprint = print\<rparr>"

section \<open>The steps of \<open>apply\<close>\<close>

definition closed_row :: "campaign_row \<Rightarrow> campaign_row" where
  "closed_row r = r\<lparr>cr_status := cs_closed, rw_closed_reason := Some ''INACTIVITY_TIMEOUT'',
     cr_version := Suc (cr_version r)\<rparr>"

definition sql_close ::
    "py_env \<Rightarrow> datetime \<Rightarrow> campaign_evidence \<Rightarrow> campaign_row \<Rightarrow> sql_store \<Rightarrow> (string \<times> sql_store) res" where
  "sql_close env now ev r st =
     publish env now ev ev_campaign_closed ''campaign.events.v1'' (cr_campaign_id r)
       (ClosedPayload (cr_campaign_id r) ''merge gap elapsed'') (write_campaign (closed_row r) st)"

definition sql_create ::
    "py_env \<Rightarrow> datetime \<Rightarrow> campaign_evidence \<Rightarrow> campaign_assessment \<Rightarrow> sql_store
     \<Rightarrow> (campaign_row \<times> string list \<times> sql_store) res" where
  "sql_create env now ev a st =
    (let r = campaign_columns (new_campaign env ev a) (ca_rule_version a) None
     in case insert_campaign r st of
          Inl e \<Rightarrow> Inl e
        | Inr st1 \<Rightarrow>
          (let st2 = st1\<lparr>sq_stage_history := sq_stage_history st1 @
                 [stage_history ev a (cr_campaign_id r) None]\<rparr>
           in case publish env now ev ev_campaign_created ''campaign.events.v1'' (cr_campaign_id r)
                     (CampaignPayload (campaign_of_row r)) st2 of
                Inl e \<Rightarrow> Inl e
              | Inr (i, st3) \<Rightarrow> Inr (r, [i], st3)))"

definition sql_update ::
    "py_env \<Rightarrow> datetime \<Rightarrow> campaign_evidence \<Rightarrow> campaign_assessment \<Rightarrow> campaign_row \<Rightarrow> sql_store
     \<Rightarrow> (campaign_row \<times> string list \<times> sql_store) res" where
  "sql_update env now ev a old st =
    (let r = campaign_columns (updated_campaign (campaign_of_row old) ev a) (ca_rule_version a)
           (rw_closed_reason old);
         st1 = write_campaign r st
     in if ca_next_stage a \<noteq> cr_stage old then
          (let st2 = st1\<lparr>sq_stage_history := sq_stage_history st1 @
                 [stage_history ev a (cr_campaign_id r) (Some (cr_stage old))]\<rparr>
           in case publish env now ev ev_campaign_stage_changed ''campaign.events.v1'' (cr_campaign_id r)
                     (StageChangedPayload (campaign_of_row r) (cr_stage old) (ca_transition_reason a)) st2 of
                Inl e \<Rightarrow> Inl e
              | Inr (i, st3) \<Rightarrow> Inr (r, [i], st3))
        else Inr (r, [], st1))"

text \<open>\<open>_upsert_alert\<close>.\<close>

definition alert_row_for :: "uuid \<times> alert_type \<Rightarrow> sql_store \<Rightarrow> alert_row option" where
  "alert_row_for k st =
     List.find (\<lambda>r. (ar_campaign_id r, ar_alert_type r) = k) (sq_alerts st)"

definition insert_alert :: "alert_row \<Rightarrow> sql_store \<Rightarrow> sql_store res" where
  "insert_alert r st =
    (if list_ex (\<lambda>x. ar_alert_id x = ar_alert_id r) (sq_alerts st)
     then Inl (IntegrityError ''alerts'')
     else Inr (st\<lparr>sq_alerts := sq_alerts st @ [r]\<rparr>))"

definition write_alert :: "alert_row \<Rightarrow> sql_store \<Rightarrow> sql_store" where
  "write_alert r st = st\<lparr>sq_alerts :=
     map (\<lambda>x. if ar_alert_id x = ar_alert_id r then r else x) (sq_alerts st)\<rparr>"

definition alert_history ::
    "campaign_evidence \<Rightarrow> alert_row option \<Rightarrow> alert_row \<Rightarrow> bool \<Rightarrow> alert_history_row" where
  "alert_history ev old r suppressed =
    \<lparr>ah_alert_id = ar_alert_id r, ah_evidence_event_id = ce2_event_id ev,
     ah_from_severity = map_option ar_severity old, ah_to_severity = ar_severity r,
     ah_from_status = map_option ar_status old, ah_to_status = ar_status r,
     ah_suppression_reason = (if suppressed then Some ''COOLDOWN'' else None),
     ah_changed_at = ce2_event_time ev\<rparr>"

definition sql_upsert_alert ::
    "py_env \<Rightarrow> (fusion_result \<Rightarrow> string) \<Rightarrow> datetime \<Rightarrow> sql_config \<Rightarrow> campaign_row \<Rightarrow> campaign_evidence
     \<Rightarrow> alert_trigger \<Rightarrow> sql_store \<Rightarrow> (alert_record \<times> string list \<times> sql_store) res" where
  "sql_upsert_alert env dump now cfg campaign ev t st =
    (let print = fingerprint env dump (ce2_fusion ev);
         old = alert_row_for (cr_campaign_id campaign, tg_alert_type t) st;
         (written, r, suppressed, etype) =
           (case old of
              None \<Rightarrow> (let r = alert_columns (new_alert env (cr_campaign_id campaign) ev t) print
                        in (insert_alert r st, r, False, ev_alert_created))
            | Some x \<Rightarrow>
                (let al = alert_of_row x;
                     r = alert_columns (updated_alert (cc_suppression cfg) al ev t) print
                 in (Inr (write_alert r st), r, alert_suppressed (cc_suppression cfg) al ev t,
                     if alert_changed al t then ev_alert_severity_changed else ev_alert_refreshed)))
     in case written of
          Inl e \<Rightarrow> Inl e
        | Inr st1 \<Rightarrow>
          (let st2 = st1\<lparr>sq_alert_history := sq_alert_history st1 @ [alert_history ev old r suppressed]\<rparr>
           in if suppressed then Inr (alert_of_row r, [], st2)
              else case publish env now ev etype ''alerts.events.v1'' (ar_alert_id r)
                     (AlertContextPayload (alert_of_row r) (cr_scope_id campaign) (cr_asset_id campaign)
                        (cr_stage campaign) (tg_reason t) (ce2_event_id ev)) st2 of
                   Inl e \<Rightarrow> Inl e
                 | Inr (i, st3) \<Rightarrow> Inr (alert_of_row r, [i], st3)))"

fun sql_alerts ::
    "py_env \<Rightarrow> (fusion_result \<Rightarrow> string) \<Rightarrow> datetime \<Rightarrow> sql_config \<Rightarrow> campaign_row \<Rightarrow> campaign_evidence
     \<Rightarrow> alert_trigger list \<Rightarrow> sql_store \<Rightarrow> (alert_record list \<times> string list \<times> sql_store) res" where
  "sql_alerts env dump now cfg campaign ev [] st = Inr ([], [], st)"
| "sql_alerts env dump now cfg campaign ev (t # ts) st =
    (case sql_upsert_alert env dump now cfg campaign ev t st of
       Inl e \<Rightarrow> Inl e
     | Inr (al, ids, st1) \<Rightarrow>
        (case sql_alerts env dump now cfg campaign ev ts st1 of
           Inl e \<Rightarrow> Inl e
         | Inr (als, ids', st2) \<Rightarrow> Inr (al # als, ids @ ids', st2)))"

text \<open>The accepted path: the campaign, its evidence row, its alerts.\<close>

definition sql_commit ::
    "py_env \<Rightarrow> (fusion_result \<Rightarrow> string) \<Rightarrow> datetime \<Rightarrow> sql_config \<Rightarrow> campaign_evidence
     \<Rightarrow> campaign_row option \<Rightarrow> campaign_assessment \<Rightarrow> string list \<Rightarrow> sql_store
     \<Rightarrow> (campaign_update \<times> sql_store) res" where
  "sql_commit env dump now cfg ev existing a ended st =
    (case (case existing of None \<Rightarrow> sql_create env now ev a st
             | Some old \<Rightarrow> sql_update env now ev a old st) of
       Inl e \<Rightarrow> Inl e
     | Inr (r, emitted, st1) \<Rightarrow>
        (case sql_alerts env dump now cfg r ev (ca_alerts a)
                (add_evidence env dump ev (cr_campaign_id r) st1) of
           Inl e \<Rightarrow> Inl e
         | Inr (records, ids, st2) \<Rightarrow>
             Inr ((campaign_update_of (campaign_of_row r))\<lparr>cu_alerts := records,
                cu_emitted_event_ids := ended @ emitted @ ids\<rparr>, st2)))"

text \<open>The body under the lock: redelivery, then staleness, then the merge gap, then the stage
  rules.\<close>

definition sql_body ::
    "(campaign_stage \<Rightarrow> fusion_result \<Rightarrow> campaign_assessment res) \<Rightarrow> py_env \<Rightarrow> (fusion_result \<Rightarrow> string)
     \<Rightarrow> datetime \<Rightarrow> sql_config \<Rightarrow> campaign_evidence \<Rightarrow> sql_store \<Rightarrow> (campaign_update \<times> sql_store) res" where
  "sql_body machine env dump now cfg ev st =
    (case sq_evidence st (ce2_event_id ev) of
       Some prior \<Rightarrow>
         (case campaign_by_id (er_campaign_id prior) st of
            None \<Rightarrow> Inl (RuntimeError ''campaign evidence references a missing campaign'')
          | Some r \<Rightarrow> Inr ((campaign_update_of (campaign_of_row r))\<lparr>cu_duplicate_evidence := True\<rparr>, st))
     | None \<Rightarrow>
       (case active_campaign (scope_id ev, asset_id ev) st of
          None \<Rightarrow>
            (case machine st_normal (ce2_fusion ev) of
               Inl e \<Rightarrow> Inl e
             | Inr a \<Rightarrow> sql_commit env dump now cfg ev None a [] st)
        | Some r \<Rightarrow>
            if is_stale r ev then
              Inr ((campaign_update_of (campaign_of_row r))\<lparr>cu_stale_evidence := True\<rparr>,
                   add_evidence env dump ev (cr_campaign_id r) st)
            else if gap_elapsed (campaign_config.truncate cfg) ev r then
              (case sql_close env now ev r st of
                 Inl e \<Rightarrow> Inl e
               | Inr (i, st1) \<Rightarrow>
                  (case machine st_normal (ce2_fusion ev) of
                     Inl e \<Rightarrow> Inl e
                   | Inr a \<Rightarrow> sql_commit env dump now cfg ev None a [i] st1))
            else
              (case machine (cr_stage r) (ce2_fusion ev) of
                 Inl e \<Rightarrow> Inl e
               | Inr a \<Rightarrow> sql_commit env dump now cfg ev (Some r) a [] st)))"

text \<open>\<open>SqlCampaignRepository.apply\<close>: without the lock nothing is read; an exception rolls back.\<close>

definition sql_apply ::
    "(campaign_stage \<Rightarrow> fusion_result \<Rightarrow> campaign_assessment res) \<Rightarrow> py_env \<Rightarrow> (fusion_result \<Rightarrow> string)
     \<Rightarrow> datetime \<Rightarrow> sql_config \<Rightarrow> (nat \<Rightarrow> bool) \<Rightarrow> campaign_evidence \<Rightarrow> sql_store
     \<Rightarrow> campaign_update res \<times> sql_store" where
  "sql_apply machine env dump now cfg answers ev st =
    (if \<not> fst (acquire_lock cfg answers)
     then (Inl (TimeoutError (''campaign lock timeout for '' @ scope_id ev @ '':'' @ asset_id ev)), st)
     else case sql_body machine env dump now cfg ev st of
            Inl e \<Rightarrow> (Inl e, st)
          | Inr (u, st') \<Rightarrow> (Inr u, st'))"

record delivery =
  dl_now :: datetime
  dl_answers :: "nat \<Rightarrow> bool"
  dl_evidence :: campaign_evidence

fun sql_run ::
    "(campaign_stage \<Rightarrow> fusion_result \<Rightarrow> campaign_assessment res) \<Rightarrow> py_env \<Rightarrow> (fusion_result \<Rightarrow> string)
     \<Rightarrow> sql_config \<Rightarrow> delivery list \<Rightarrow> sql_store \<Rightarrow> sql_store" where
  "sql_run machine env dump cfg [] st = st"
| "sql_run machine env dump cfg (d # ds) st =
     sql_run machine env dump cfg ds
       (snd (sql_apply machine env dump (dl_now d) cfg (dl_answers d) (dl_evidence d) st))"

section \<open>\<open>CampaignService.process\<close>\<close>

text \<open>The repository's \<open>apply\<close> is an argument; the payload is the validated fusion result.\<close>

definition evidence_of :: "fusion_result canonical_event \<Rightarrow> fusion_result \<Rightarrow> campaign_evidence" where
  "evidence_of e f = \<lparr>ce2_event_id = ce_event_id e,
     ce2_correlation_id = tm_correlation_id (ce_trace e),
     ce2_causation_id = tm_causation_id (ce_trace e),
     ce2_event_time = ce_event_time e, ce2_fusion = f\<rparr>"

definition process ::
    "(campaign_evidence \<Rightarrow> 'st \<Rightarrow> campaign_update res \<times> 'st) \<Rightarrow> fusion_result canonical_event \<Rightarrow> 'st
     \<Rightarrow> campaign_update res \<times> 'st" where
  "process apply_evidence e st =
    (if ce_event_type e \<noteq> ev_model_fusion_scored
     then (Inl (ValueError ''campaign service only accepts fusion score events''), st)
     else case build_fusion_result (ce_payload e) of
            Inl x \<Rightarrow> (Inl x, st)
          | Inr f \<Rightarrow> apply_evidence (evidence_of e f) st)"

end
