(* ===== verification/Campaign_Sql_Correct.thy ===== *)
theory Campaign_Sql_Correct
  imports Campaign_Sql Campaign_Mem
begin

text \<open>
  Properties of the SQL campaign repository: the integrity of its tables, atomicity and
  redelivery, and the refinement of the in-memory repository by it.
\<close>

section \<open>Row conversions\<close>

lemma campaign_of_columns [simp]: "campaign_of_row (campaign_columns c rule why) = c"
  by (simp add: campaign_of_row_def campaign_columns_def campaign_record.defs campaign_row.defs)

lemma campaign_columns_sel [simp]:
  "cr_campaign_id (campaign_columns c rule why) = cr_campaign_id c"
  "cr_scope_id (campaign_columns c rule why) = cr_scope_id c"
  "cr_asset_id (campaign_columns c rule why) = cr_asset_id c"
  "cr_status (campaign_columns c rule why) = cr_status c"
  "cr_stage (campaign_columns c rule why) = cr_stage c"
  "rw_closed_reason (campaign_columns c rule why) = why"
  by (simp_all add: campaign_columns_def campaign_record.defs)

lemma campaign_of_row_sel [simp]:
  "cr_campaign_id (campaign_of_row r) = cr_campaign_id r"
  "cr_scope_id (campaign_of_row r) = cr_scope_id r"
  "cr_asset_id (campaign_of_row r) = cr_asset_id r"
  "cr_status (campaign_of_row r) = cr_status r"
  "cr_stage (campaign_of_row r) = cr_stage r"
  by (simp_all add: campaign_of_row_def campaign_record.defs)

lemma gap_of_row [simp]: "gap_elapsed cfg ev (campaign_of_row r) = gap_elapsed cfg ev r"
  by (simp add: gap_elapsed_def campaign_of_row_def campaign_record.defs)

lemma stale_of_row [simp]: "is_stale (campaign_of_row r) ev = is_stale r ev"
  by (simp add: is_stale_def applied_order_def campaign_of_row_def campaign_record.defs
      split: option.split)

lemma alert_of_columns [simp]: "alert_of_row (alert_columns al print) = al"
  by (simp add: alert_of_row_def alert_columns_def alert_record.defs)

lemma alert_columns_sel [simp]:
  "ar_alert_id (alert_columns al print) = ar_alert_id al"
  "ar_campaign_id (alert_columns al print) = ar_campaign_id al"
  "ar_alert_type (alert_columns al print) = ar_alert_type al"
  by (simp_all add: alert_columns_def alert_record.defs)

lemma alert_of_row_sel [simp]:
  "ar_alert_id (alert_of_row r) = ar_alert_id r"
  "ar_campaign_id (alert_of_row r) = ar_campaign_id r"
  "ar_alert_type (alert_of_row r) = ar_alert_type r"
  by (simp_all add: alert_of_row_def alert_record.defs)

lemma updated_alert_keep [simp]:
  "ar_alert_id (updated_alert d al ev t) = ar_alert_id al"
  "ar_campaign_id (updated_alert d al ev t) = ar_campaign_id al"
  "ar_alert_type (updated_alert d al ev t) = ar_alert_type al"
  by (simp_all add: updated_alert_def)

lemma new_alert_sel [simp]:
  "ar_campaign_id (new_alert env c ev t) = c" "ar_alert_type (new_alert env c ev t) = tg_alert_type t"
  by (simp_all add: new_alert_def)

section \<open>What a successful step does\<close>

lemma publish_Inr:
  assumes "publish env now ev etype topic entity payload st = Inr (i, st')"
  obtains e where "domain_event env now ev etype topic entity payload = Inr e" "i = ce_event_id e"
    "st' = st\<lparr>sq_outbox := sq_outbox st @ [(topic, e)]\<rparr>"
    "(topic, i) \<notin> (\<lambda>(t, x). (t, ce_event_id x)) ` set (sq_outbox st)"
  using assms by (force simp: publish_def enqueue_def list_ex_iff split: sum.splits if_splits)

lemma sql_close_Inr:
  assumes "sql_close env now ev r st = Inr (i, st')"
  obtains e where "domain_event env now ev ev_campaign_closed ''campaign.events.v1'' (cr_campaign_id r)
      (ClosedPayload (cr_campaign_id r) ''merge gap elapsed'') = Inr e" "i = ce_event_id e"
    "st' = (write_campaign (closed_row r) st)\<lparr>sq_outbox := sq_outbox st @ [(''campaign.events.v1'', e)]\<rparr>"
    "(''campaign.events.v1'', i) \<notin> (\<lambda>(t, x). (t, ce_event_id x)) ` set (sq_outbox st)"
  using assms unfolding sql_close_def by (rule publish_Inr) (simp add: that write_campaign_def)

lemma sql_create_Inr:
  assumes "sql_create env now ev a st = Inr (r, ids, st')"
  obtains e where "r = campaign_columns (new_campaign env ev a) (ca_rule_version a) None"
    "\<forall>x\<in>set (sq_campaigns st). cr_campaign_id x \<noteq> cr_campaign_id r"
    "domain_event env now ev ev_campaign_created ''campaign.events.v1'' (cr_campaign_id r)
      (CampaignPayload (campaign_of_row r)) = Inr e" "ids = [ce_event_id e]"
    "st' = st\<lparr>sq_campaigns := sq_campaigns st @ [r],
       sq_stage_history := sq_stage_history st @ [stage_history ev a (cr_campaign_id r) None],
       sq_outbox := sq_outbox st @ [(''campaign.events.v1'', e)]\<rparr>"
    "(''campaign.events.v1'', ce_event_id e) \<notin> (\<lambda>(t, x). (t, ce_event_id x)) ` set (sq_outbox st)"
proof -
  let ?r = "campaign_columns (new_campaign env ev a) (ca_rule_version a) None"
  let ?st = "st\<lparr>sq_campaigns := sq_campaigns st @ [?r],
       sq_stage_history := sq_stage_history st @ [stage_history ev a (cr_campaign_id ?r) None]\<rparr>"
  obtain i where p: "publish env now ev ev_campaign_created ''campaign.events.v1'' (cr_campaign_id ?r)
      (CampaignPayload (campaign_of_row ?r)) ?st = Inr (i, st')" and r: "r = ?r" "ids = [i]"
    and new: "\<forall>x\<in>set (sq_campaigns st). cr_campaign_id x \<noteq> cr_campaign_id ?r"
    using assms by (auto simp: sql_create_def insert_campaign_def Let_def list_ex_iff
        split: if_splits sum.splits)
  show thesis
    by (rule publish_Inr [OF p], rule that) (use r new in auto)
qed

lemma sql_update_Inr:
  assumes "sql_update env now ev a old st = Inr (r, ids, st')"
  obtains (moved) e where
    "r = campaign_columns (updated_campaign (campaign_of_row old) ev a) (ca_rule_version a) (rw_closed_reason old)"
    "ca_next_stage a \<noteq> cr_stage old" "ids = [ce_event_id e]"
    "domain_event env now ev ev_campaign_stage_changed ''campaign.events.v1'' (cr_campaign_id r)
      (StageChangedPayload (campaign_of_row r) (cr_stage old) (ca_transition_reason a)) = Inr e"
    "st' = (write_campaign r st)\<lparr>
       sq_stage_history := sq_stage_history st @ [stage_history ev a (cr_campaign_id r) (Some (cr_stage old))],
       sq_outbox := sq_outbox st @ [(''campaign.events.v1'', e)]\<rparr>"
    "(''campaign.events.v1'', ce_event_id e) \<notin> (\<lambda>(t, x). (t, ce_event_id x)) ` set (sq_outbox st)"
  | (stayed) "r = campaign_columns (updated_campaign (campaign_of_row old) ev a) (ca_rule_version a) (rw_closed_reason old)"
    "ca_next_stage a = cr_stage old" "ids = []" "st' = write_campaign r st"
proof (cases "ca_next_stage a = cr_stage old")
  case True
  with assms show thesis by (intro stayed) (auto simp: sql_update_def Let_def)
next
  case False
  let ?r = "campaign_columns (updated_campaign (campaign_of_row old) ev a) (ca_rule_version a) (rw_closed_reason old)"
  let ?st = "(write_campaign ?r st)\<lparr>
     sq_stage_history := sq_stage_history st @ [stage_history ev a (cr_campaign_id ?r) (Some (cr_stage old))]\<rparr>"
  obtain i where p: "publish env now ev ev_campaign_stage_changed ''campaign.events.v1'' (cr_campaign_id ?r)
      (StageChangedPayload (campaign_of_row ?r) (cr_stage old) (ca_transition_reason a)) ?st = Inr (i, st')"
    and r: "r = ?r" "ids = [i]"
    using assms False
    by (auto simp: sql_update_def Let_def write_campaign_def split: sum.splits)
  show thesis
    by (rule publish_Inr [OF p], rule moved) (use r False in \<open>auto simp: write_campaign_def\<close>)
qed

text \<open>An alert is written, its history extended, and it is published unless suppressed.\<close>

definition alert_written :: "alert_row option \<Rightarrow> alert_row \<Rightarrow> sql_store \<Rightarrow> sql_store" where
  "alert_written old r st = (case old of None \<Rightarrow> st\<lparr>sq_alerts := sq_alerts st @ [r]\<rparr>
     | Some _ \<Rightarrow> write_alert r st)"

lemma alert_written_sel [simp]:
  "sq_campaigns (alert_written old r st) = sq_campaigns st"
  "sq_evidence (alert_written old r st) = sq_evidence st"
  "sq_stage_history (alert_written old r st) = sq_stage_history st"
  "sq_outbox (alert_written old r st) = sq_outbox st"
  by (simp_all add: alert_written_def write_alert_def split: option.split)

lemma sql_upsert_alert_Inr:
  assumes "sql_upsert_alert env dump now cfg c ev t st = Inr (al, ids, st')"
  defines "old \<equiv> alert_row_for (cr_campaign_id c, tg_alert_type t) st"
  obtains r where "al = alert_of_row r"
    "al = (case old of None \<Rightarrow> new_alert env (cr_campaign_id c) ev t
       | Some x \<Rightarrow> updated_alert (cc_suppression cfg) (alert_of_row x) ev t)"
    "old = None \<longrightarrow> (\<forall>x\<in>set (sq_alerts st). ar_alert_id x \<noteq> ar_alert_id r)"
    "sq_campaigns st' = sq_campaigns st" "sq_evidence st' = sq_evidence st"
    "sq_stage_history st' = sq_stage_history st"
    "sq_alerts st' = sq_alerts (alert_written old r st)"
    "(\<exists>x. old = Some x \<and> alert_suppressed (cc_suppression cfg) (alert_of_row x) ev t \<and>
         sq_outbox st' = sq_outbox st \<and> ids = []) \<or>
     (\<not> (\<exists>x. old = Some x \<and> alert_suppressed (cc_suppression cfg) (alert_of_row x) ev t) \<and>
      (\<exists>e p. domain_event env now ev (case old of None \<Rightarrow> ev_alert_created
            | Some x \<Rightarrow> if alert_changed (alert_of_row x) t then ev_alert_severity_changed else ev_alert_refreshed)
          ''alerts.events.v1'' (ar_alert_id al) p = Inr e \<and> ids = [ce_event_id e] \<and>
        sq_outbox st' = sq_outbox st @ [(''alerts.events.v1'', e)] \<and>
        (''alerts.events.v1'', ce_event_id e) \<notin> (\<lambda>(t, x). (t, ce_event_id x)) ` set (sq_outbox st)))"
proof (cases old)
  case None
  let ?r = "alert_columns (new_alert env (cr_campaign_id c) ev t) (fingerprint env dump (ce2_fusion ev))"
  obtain i where new: "\<forall>x\<in>set (sq_alerts st). ar_alert_id x \<noteq> ar_alert_id ?r" and r: "al = alert_of_row ?r" "ids = [i]"
    and p: "publish env now ev ev_alert_created ''alerts.events.v1'' (ar_alert_id ?r)
        (AlertContextPayload (alert_of_row ?r) (cr_scope_id c) (cr_asset_id c) (cr_stage c) (tg_reason t) (ce2_event_id ev))
        (st\<lparr>sq_alerts := sq_alerts st @ [?r],
           sq_alert_history := sq_alert_history st @ [alert_history ev None ?r False]\<rparr>) = Inr (i, st')"
    using assms(1) None by (auto simp: sql_upsert_alert_def old_def insert_alert_def Let_def list_ex_iff
        split: if_splits sum.splits)
  show thesis
    by (rule publish_Inr [OF p], rule that [of ?r]) (use None r new in \<open>auto simp: alert_written_def\<close>)
next
  case (Some x)
  let ?r = "alert_columns (updated_alert (cc_suppression cfg) (alert_of_row x) ev t) (fingerprint env dump (ce2_fusion ev))"
  let ?sup = "alert_suppressed (cc_suppression cfg) (alert_of_row x) ev t"
  let ?ty = "if alert_changed (alert_of_row x) t then ev_alert_severity_changed else ev_alert_refreshed"
  let ?st = "(write_alert ?r st)\<lparr>sq_alert_history := sq_alert_history st @ [alert_history ev (Some x) ?r ?sup]\<rparr>"
  have r: "al = alert_of_row ?r"
    using assms(1) Some by (auto simp: sql_upsert_alert_def old_def [symmetric] Let_def split: if_splits sum.splits)
  show thesis
  proof (cases ?sup)
    case True
    then have "ids = []" "st' = ?st"
      using assms(1) Some by (auto simp: sql_upsert_alert_def old_def [symmetric] Let_def write_alert_def split: sum.splits)
    with Some True r show thesis by (intro that [of ?r]) (auto simp: alert_written_def write_alert_def)
  next
    case False
    then obtain i where i: "ids = [i]" and p: "publish env now ev ?ty ''alerts.events.v1'' (ar_alert_id ?r)
        (AlertContextPayload (alert_of_row ?r) (cr_scope_id c) (cr_asset_id c) (cr_stage c) (tg_reason t) (ce2_event_id ev))
        ?st = Inr (i, st')"
      using assms(1) Some by (auto simp: sql_upsert_alert_def old_def [symmetric] Let_def write_alert_def split: sum.splits)
    show thesis
      by (rule publish_Inr [OF p], rule that [of ?r]) (use Some False r i in \<open>auto simp: alert_written_def write_alert_def\<close>)
  qed
qed

section \<open>Integrity of the tables\<close>

definition row_key :: "campaign_row \<Rightarrow> string \<times> string" where
  "row_key r = (cr_scope_id r, cr_asset_id r)"

definition active_rows :: "campaign_row list \<Rightarrow> campaign_row set" where
  "active_rows rs = {r \<in> set rs. cr_status r = cs_active}"

definition reason_ok :: "campaign_row \<Rightarrow> bool" where
  "reason_ok r \<longleftrightarrow> (cr_status r = cs_active \<longleftrightarrow> rw_closed_reason r = None)"

text \<open>Campaign ids are primary keys, each key has at most one active campaign, and exactly the
  closed ones have a reason.\<close>

definition wf_campaigns :: "campaign_row list \<Rightarrow> bool" where
  "wf_campaigns rs \<longleftrightarrow> distinct (map cr_campaign_id rs) \<and> inj_on row_key (active_rows rs) \<and>
     (\<forall>r\<in>set rs. reason_ok r)"

definition alert_row_key :: "alert_row \<Rightarrow> uuid \<times> alert_type" where
  "alert_row_key r = (ar_campaign_id r, ar_alert_type r)"

definition wf_alerts :: "alert_row list \<Rightarrow> bool" where
  "wf_alerts rs \<longleftrightarrow> distinct (map ar_alert_id rs) \<and> distinct (map alert_row_key rs)"

definition wf_history :: "stage_history_row \<Rightarrow> bool" where
  "wf_history h = (case sh_from_stage h of None \<Rightarrow> sh_to_stage h \<in> transitions st_normal
     | Some s \<Rightarrow> sh_to_stage h \<in> transitions s \<and> sh_to_stage h \<noteq> s)"

definition wf_sql :: "sql_store \<Rightarrow> bool" where
  "wf_sql st \<longleftrightarrow> wf_campaigns (sq_campaigns st) \<and> wf_alerts (sq_alerts st) \<and>
     (\<forall>i e. sq_evidence st i = Some e \<longrightarrow> er_campaign_id e \<in> cr_campaign_id ` set (sq_campaigns st)) \<and>
     (\<forall>r\<in>set (sq_alerts st). ar_campaign_id r \<in> cr_campaign_id ` set (sq_campaigns st)) \<and>
     (\<forall>h\<in>set (sq_stage_history st). wf_history h \<and> sh_campaign_id h \<in> cr_campaign_id ` set (sq_campaigns st)) \<and>
     distinct (map (\<lambda>(t, e). (t, ce_event_id e)) (sq_outbox st))"

text \<open>Overwriting the row of a primary key.\<close>

definition overwrite :: "('a \<Rightarrow> 'k) \<Rightarrow> 'a \<Rightarrow> 'a list \<Rightarrow> 'a list" where
  "overwrite f r xs = map (\<lambda>x. if f x = f r then r else x) xs"

lemma overwrite_keys [simp]: "map f (overwrite f r xs) = map f xs"
  by (simp add: overwrite_def)

lemma overwrite_set:
  assumes "distinct (map f xs)" "old \<in> set xs" "f old = f r"
  shows "set (overwrite f r xs) = insert r (set xs - {old})"
  using assms by (auto simp: overwrite_def distinct_map inj_on_def)

lemma overwrite_other_key:
  "distinct (map g xs) \<Longrightarrow> distinct (map f xs) \<Longrightarrow> old \<in> set xs \<Longrightarrow> f old = f r \<Longrightarrow> g old = g r \<Longrightarrow>
     map g (overwrite f r xs) = map g xs"
  by (auto simp: overwrite_def distinct_map inj_on_def)

lemma write_campaign_rows [simp]:
  "sq_campaigns (write_campaign r st) = overwrite cr_campaign_id r (sq_campaigns st)"
  "sq_evidence (write_campaign r st) = sq_evidence st"
  "sq_stage_history (write_campaign r st) = sq_stage_history st"
  "sq_alerts (write_campaign r st) = sq_alerts st"
  "sq_outbox (write_campaign r st) = sq_outbox st"
  by (simp_all add: write_campaign_def overwrite_def)

lemma write_alert_rows [simp]:
  "sq_alerts (write_alert r st) = overwrite ar_alert_id r (sq_alerts st)"
  by (simp add: write_alert_def overwrite_def)

lemma find_Some_iff_unique:
  "(\<And>x y. x \<in> set xs \<Longrightarrow> y \<in> set xs \<Longrightarrow> P x \<Longrightarrow> P y \<Longrightarrow> x = y) \<Longrightarrow>
     List.find P xs = Some x \<longleftrightarrow> x \<in> set xs \<and> P x"
  by (induction xs) (auto split: if_splits)

lemma active_campaign_iff:
  assumes "wf_campaigns (sq_campaigns st)"
  shows "active_campaign k st = Some r \<longleftrightarrow> r \<in> set (sq_campaigns st) \<and> active_row k r"
  unfolding active_campaign_def
  by (rule find_Some_iff_unique) (use assms in \<open>auto simp: wf_campaigns_def active_row_def row_key_def active_rows_def inj_on_def\<close>)

lemma alert_row_for_iff:
  assumes "wf_alerts (sq_alerts st)"
  shows "alert_row_for k st = Some r \<longleftrightarrow> r \<in> set (sq_alerts st) \<and> alert_row_key r = k"
  unfolding alert_row_for_def alert_row_key_def [symmetric]
  by (rule find_Some_iff_unique) (use assms in \<open>auto simp: wf_alerts_def distinct_map inj_on_def\<close>)

lemma active_campaign_mem: "active_campaign k st = Some r \<Longrightarrow> r \<in> set (sq_campaigns st) \<and> active_row k r"
  by (auto simp: active_campaign_def find_Some_iff)

lemma alert_row_for_mem: "alert_row_for k st = Some r \<Longrightarrow> r \<in> set (sq_alerts st) \<and> alert_row_key r = k"
  by (auto simp: alert_row_for_def find_Some_iff alert_row_key_def)

lemma inj_on_replace:
  assumes "inj_on f A" "old \<in> A" "f old = f r"
  shows "inj_on f (insert r (A - {old}))"
proof -
  have "f r \<notin> f ` (A - {old} - {r})"
  proof
    assume "f r \<in> f ` (A - {old} - {r})"
    then obtain x where "f r = f x" "x \<in> A - {old} - {r}" by (rule imageE)
    then show False using assms inj_onD [of f A x old] by simp
  qed
  then show ?thesis using assms(1) by (auto intro: inj_on_diff simp: inj_on_insert)
qed

lemma wf_campaigns_overwrite:
  assumes "wf_campaigns rs" "old \<in> set rs" "cr_campaign_id old = cr_campaign_id r" "row_key old = row_key r"
    and "cr_status r = cs_active \<Longrightarrow> cr_status old = cs_active" "reason_ok r"
  shows "wf_campaigns (overwrite cr_campaign_id r rs)"
proof -
  have wf: "distinct (map cr_campaign_id rs)" "inj_on row_key (active_rows rs)" "\<forall>r\<in>set rs. reason_ok r"
    using assms(1) by (simp_all add: wf_campaigns_def)
  have set: "set (overwrite cr_campaign_id r rs) = insert r (set rs - {old})"
    by (rule overwrite_set [OF wf(1) assms(2,3)])
  have "inj_on row_key (active_rows (overwrite cr_campaign_id r rs))"
  proof (cases "cr_status r = cs_active")
    case True
    then have "active_rows (overwrite cr_campaign_id r rs) = insert r (active_rows rs - {old})"
      by (auto simp: active_rows_def set)
    moreover have "old \<in> active_rows rs" using True assms(2,5) by (simp add: active_rows_def)
    ultimately show ?thesis using inj_on_replace [OF wf(2)] assms(4) by simp
  next
    case False
    then have "active_rows (overwrite cr_campaign_id r rs) \<subseteq> active_rows rs"
      by (auto simp: active_rows_def set)
    then show ?thesis by (rule inj_on_subset [OF wf(2)])
  qed
  then show ?thesis
    using wf assms(6) by (simp add: wf_campaigns_def set)
qed

lemma wf_campaigns_snoc:
  assumes "wf_campaigns rs" "\<forall>x\<in>set rs. cr_campaign_id x \<noteq> cr_campaign_id r"
    and "\<And>x. x \<in> active_rows rs \<Longrightarrow> row_key x \<noteq> row_key r"
    and "cr_status r = cs_active" "reason_ok r"
  shows "wf_campaigns (rs @ [r])"
proof -
  have "active_rows (rs @ [r]) = insert r (active_rows rs)"
    using assms(4) by (auto simp: active_rows_def)
  moreover have "row_key r \<notin> row_key ` (active_rows rs - {r})"
    using assms(3) by (metis DiffD1 imageE)
  then have "inj_on row_key (insert r (active_rows rs))"
    using assms(1) by (auto simp: wf_campaigns_def inj_on_insert intro: inj_on_diff)
  ultimately show ?thesis using assms(1,2,5) by (auto simp: wf_campaigns_def)
qed

lemma wf_alerts_snoc:
  assumes "wf_alerts rs" "\<forall>x\<in>set rs. ar_alert_id x \<noteq> ar_alert_id r" "alert_row_key r \<notin> alert_row_key ` set rs"
  shows "wf_alerts (rs @ [r])"
  using assms by (auto simp: wf_alerts_def)

lemma wf_alerts_overwrite:
  assumes "wf_alerts rs" "old \<in> set rs" "ar_alert_id old = ar_alert_id r" "alert_row_key old = alert_row_key r"
  shows "wf_alerts (overwrite ar_alert_id r rs)"
  using assms overwrite_other_key [of alert_row_key rs ar_alert_id old r] by (simp add: wf_alerts_def)

section \<open>Every step keeps the tables intact\<close>

lemma wf_sqlI:
  assumes "wf_campaigns (sq_campaigns st)" "wf_alerts (sq_alerts st)"
    and "\<And>i e. sq_evidence st i = Some e \<Longrightarrow> er_campaign_id e \<in> cr_campaign_id ` set (sq_campaigns st)"
    and "\<And>r. r \<in> set (sq_alerts st) \<Longrightarrow> ar_campaign_id r \<in> cr_campaign_id ` set (sq_campaigns st)"
    and "\<And>h. h \<in> set (sq_stage_history st) \<Longrightarrow>
      wf_history h \<and> sh_campaign_id h \<in> cr_campaign_id ` set (sq_campaigns st)"
    and "distinct (map (\<lambda>(t, e). (t, ce_event_id e)) (sq_outbox st))"
  shows "wf_sql st"
  using assms by (simp add: wf_sql_def)

lemma wf_sqlD:
  assumes "wf_sql st"
  shows "wf_campaigns (sq_campaigns st)" "wf_alerts (sq_alerts st)"
    "sq_evidence st i = Some e \<Longrightarrow> er_campaign_id e \<in> cr_campaign_id ` set (sq_campaigns st)"
    "r \<in> set (sq_alerts st) \<Longrightarrow> ar_campaign_id r \<in> cr_campaign_id ` set (sq_campaigns st)"
    "h \<in> set (sq_stage_history st) \<Longrightarrow> wf_history h \<and> sh_campaign_id h \<in> cr_campaign_id ` set (sq_campaigns st)"
    "distinct (map (\<lambda>(t, e). (t, ce_event_id e)) (sq_outbox st))"
  using assms by (simp_all add: wf_sql_def)

lemma overwrite_ids [simp]: "f ` set (overwrite f r xs) = f ` set xs"
  by (metis list.set_map overwrite_keys)

lemma wf_empty [simp]: "wf_sql sql_empty"
  by (simp add: wf_sql_def sql_empty_def wf_campaigns_def wf_alerts_def active_rows_def)

lemma outbox_snoc:
  "distinct (map (\<lambda>(t, e). (t, ce_event_id e)) ob) \<Longrightarrow>
   (topic, ce_event_id e) \<notin> (\<lambda>(t, x). (t, ce_event_id x)) ` set ob \<Longrightarrow>
   distinct (map (\<lambda>(t, e). (t, ce_event_id e)) (ob @ [(topic, e)]))"
  by simp

text \<open>Overwriting a campaign row, with a history entry and an event or without.\<close>

lemma wf_sql_overwrite:
  assumes "wf_sql st" "old \<in> set (sq_campaigns st)" "cr_campaign_id old = cr_campaign_id r"
    and "row_key old = row_key r" "cr_status r = cs_active \<Longrightarrow> cr_status old = cs_active" "reason_ok r"
    and "sq_campaigns st' = overwrite cr_campaign_id r (sq_campaigns st)"
    and "sq_evidence st' = sq_evidence st" "sq_alerts st' = sq_alerts st"
    and "sq_stage_history st' = sq_stage_history st @ hs"
    and "\<And>h. h \<in> set hs \<Longrightarrow> wf_history h \<and> sh_campaign_id h = cr_campaign_id r"
    and "distinct (map (\<lambda>(t, e). (t, ce_event_id e)) (sq_outbox st'))"
  shows "wf_sql st'"
proof (rule wf_sqlI)
  have ids: "cr_campaign_id ` set (sq_campaigns st') = cr_campaign_id ` set (sq_campaigns st)"
    by (simp add: assms(7))
  have old: "cr_campaign_id r \<in> cr_campaign_id ` set (sq_campaigns st)"
    using assms(2,3) by (metis imageI)
  show "wf_campaigns (sq_campaigns st')"
    unfolding assms(7) by (rule wf_campaigns_overwrite [OF wf_sqlD(1) [OF assms(1)] assms(2-6)])
  show "wf_alerts (sq_alerts st')" using wf_sqlD(2) [OF assms(1)] by (simp add: assms(9))
  show "er_campaign_id e \<in> cr_campaign_id ` set (sq_campaigns st')" if "sq_evidence st' i = Some e" for i e
    using wf_sqlD(3) [OF assms(1)] that by (simp add: assms(8) ids)
  show "ar_campaign_id x \<in> cr_campaign_id ` set (sq_campaigns st')" if "x \<in> set (sq_alerts st')" for x
    using wf_sqlD(4) [OF assms(1)] that by (simp add: assms(9) ids)
  show "wf_history h \<and> sh_campaign_id h \<in> cr_campaign_id ` set (sq_campaigns st')"
    if "h \<in> set (sq_stage_history st')" for h
    using wf_sqlD(5) [OF assms(1), of h] that assms(11) [of h] old unfolding assms(10) ids by auto
  show "distinct (map (\<lambda>(t, e). (t, ce_event_id e)) (sq_outbox st'))" by (rule assms(12))
qed

lemma wf_sql_close:
  assumes "wf_sql st" "r \<in> set (sq_campaigns st)" "sql_close env now ev r st = Inr (i, st')"
  shows "wf_sql st'"
  using assms(3)
proof (rule sql_close_Inr)
  fix e
  assume "i = ce_event_id e"
    and st': "st' = (write_campaign (closed_row r) st)\<lparr>sq_outbox := sq_outbox st @ [(''campaign.events.v1'', e)]\<rparr>"
    and "(''campaign.events.v1'', i) \<notin> (\<lambda>(t, x). (t, ce_event_id x)) ` set (sq_outbox st)"
  then have "distinct (map (\<lambda>(t, e). (t, ce_event_id e)) (sq_outbox st'))"
    using outbox_snoc [OF wf_sqlD(6) [OF assms(1)]] by simp
  then show ?thesis
    by (intro wf_sql_overwrite [OF assms(1,2), of "closed_row r" st' "[]"])
      (simp_all add: st' closed_row_def row_key_def reason_ok_def)
qed

lemma sql_create_wf:
  assumes "wf_sql st" "sql_create env now ev a st = Inr (r, ids, st')"
    and "active_campaign (scope_id ev, asset_id ev) st = None" "ca_next_stage a \<in> transitions st_normal"
  shows "wf_sql st'" "r \<in> set (sq_campaigns st')"
proof -
  obtain e where r: "r = campaign_columns (new_campaign env ev a) (ca_rule_version a) None"
    and new: "\<forall>x\<in>set (sq_campaigns st). cr_campaign_id x \<noteq> cr_campaign_id r"
    and st': "st' = st\<lparr>sq_campaigns := sq_campaigns st @ [r],
       sq_stage_history := sq_stage_history st @ [stage_history ev a (cr_campaign_id r) None],
       sq_outbox := sq_outbox st @ [(''campaign.events.v1'', e)]\<rparr>"
    and fresh: "(''campaign.events.v1'', ce_event_id e) \<notin> (\<lambda>(t, x). (t, ce_event_id x)) ` set (sq_outbox st)"
    using assms(2) by (rule sql_create_Inr)
  have "row_key x \<noteq> row_key r" if "x \<in> active_rows (sq_campaigns st)" for x
    using assms(3) that by (auto simp: active_campaign_def find_None_iff active_row_def active_rows_def
        row_key_def r new_campaign_def)
  then have "wf_campaigns (sq_campaigns st @ [r])"
    using wf_campaigns_snoc [OF wf_sqlD(1) [OF assms(1)] new]
    by (simp add: r new_campaign_def reason_ok_def)
  then show "wf_sql st'" "r \<in> set (sq_campaigns st')"
    using assms(1,4) fresh
    by (auto simp: st' wf_sql_def wf_history_def stage_history_def)
qed

lemma sql_update_wf:
  assumes "wf_sql st" "old \<in> set (sq_campaigns st)" "sql_update env now ev a old st = Inr (r, ids, st')"
    and "ca_next_stage a \<in> transitions (cr_stage old)"
  shows "wf_sql st'" "r \<in> set (sq_campaigns st')"
proof -
  have base: "cr_campaign_id old = cr_campaign_id r" "row_key old = row_key r"
    "cr_status r = cs_active \<Longrightarrow> cr_status old = cs_active" "reason_ok r"
    if "r = campaign_columns (updated_campaign (campaign_of_row old) ev a) (ca_rule_version a) (rw_closed_reason old)"
    using assms(1,2) wf_sqlD(1) [OF assms(1)]
    by (auto simp: that updated_campaign_def row_key_def reason_ok_def wf_campaigns_def)
  have mem: "r \<in> set (overwrite cr_campaign_id r (sq_campaigns st))" if "cr_campaign_id old = cr_campaign_id r"
    using assms(2) that by (auto simp: overwrite_def)
  show "wf_sql st'"
    using assms(3)
  proof (cases rule: sql_update_Inr)
    case (moved e)
    then have "distinct (map (\<lambda>(t, e). (t, ce_event_id e)) (sq_outbox st'))"
      using outbox_snoc [OF wf_sqlD(6) [OF assms(1)] moved(6)] by simp
    then show ?thesis
      by (intro wf_sql_overwrite [OF assms(1,2) base, of st'
            "[stage_history ev a (cr_campaign_id r) (Some (cr_stage old))]"])
        (use moved assms(4) in \<open>simp_all add: wf_history_def stage_history_def\<close>)
  next
    case stayed
    then show ?thesis
      by (intro wf_sql_overwrite [OF assms(1,2) base, of st' "[]"])
        (use wf_sqlD(6) [OF assms(1)] in simp_all)
  qed
  show "r \<in> set (sq_campaigns st')"
    using assms(3)
    by (cases rule: sql_update_Inr) (use mem base in simp_all)
qed

lemma add_evidence_sel [simp]:
  "sq_campaigns (add_evidence env dump ev c st) = sq_campaigns st"
  "sq_alerts (add_evidence env dump ev c st) = sq_alerts st"
  "sq_stage_history (add_evidence env dump ev c st) = sq_stage_history st"
  "sq_outbox (add_evidence env dump ev c st) = sq_outbox st"
  "dom (sq_evidence (add_evidence env dump ev c st)) = insert (ce2_event_id ev) (dom (sq_evidence st))"
  by (simp_all add: add_evidence_def)

lemma add_evidence_wf:
  "wf_sql st \<Longrightarrow> r \<in> set (sq_campaigns st) \<Longrightarrow> wf_sql (add_evidence env dump ev (cr_campaign_id r) st)"
  by (auto simp: wf_sql_def add_evidence_def)

lemma sql_upsert_alert_wf:
  assumes "wf_sql st" "c \<in> set (sq_campaigns st)"
    and "sql_upsert_alert env dump now cfg c ev t st = Inr (al, ids, st')"
  shows "wf_sql st'" "sq_campaigns st' = sq_campaigns st" "sq_evidence st' = sq_evidence st"
proof -
  let ?k = "(cr_campaign_id c, tg_alert_type t)"
  let ?old = "alert_row_for ?k st"
  obtain r where al: "al = alert_of_row r"
      "al = (case ?old of None \<Rightarrow> new_alert env (cr_campaign_id c) ev t
         | Some x \<Rightarrow> updated_alert (cc_suppression cfg) (alert_of_row x) ev t)"
    and new: "?old = None \<longrightarrow> (\<forall>x\<in>set (sq_alerts st). ar_alert_id x \<noteq> ar_alert_id r)"
    and eqs: "sq_campaigns st' = sq_campaigns st" "sq_evidence st' = sq_evidence st"
      "sq_stage_history st' = sq_stage_history st" "sq_alerts st' = sq_alerts (alert_written ?old r st)"
    and outs: "(\<exists>x. ?old = Some x \<and> alert_suppressed (cc_suppression cfg) (alert_of_row x) ev t \<and>
         sq_outbox st' = sq_outbox st \<and> ids = []) \<or>
     (\<not> (\<exists>x. ?old = Some x \<and> alert_suppressed (cc_suppression cfg) (alert_of_row x) ev t) \<and>
      (\<exists>e p. domain_event env now ev (case ?old of None \<Rightarrow> ev_alert_created
            | Some x \<Rightarrow> if alert_changed (alert_of_row x) t then ev_alert_severity_changed else ev_alert_refreshed)
          ''alerts.events.v1'' (ar_alert_id al) p = Inr e \<and> ids = [ce_event_id e] \<and>
        sq_outbox st' = sq_outbox st @ [(''alerts.events.v1'', e)] \<and>
        (''alerts.events.v1'', ce_event_id e) \<notin> (\<lambda>(t, x). (t, ce_event_id x)) ` set (sq_outbox st)))"
    using assms(3) by (rule sql_upsert_alert_Inr)
  have key: "alert_row_key r = ?k"
  proof -
    have "(ar_campaign_id al, ar_alert_type al) = ?k"
      using al(2) alert_row_for_mem [of ?k st] by (cases ?old) (auto simp: alert_row_key_def)
    then show ?thesis by (simp add: al(1) alert_row_key_def)
  qed
  have alerts: "wf_alerts (sq_alerts st') \<and>
      (\<forall>x\<in>set (sq_alerts st'). ar_campaign_id x \<in> cr_campaign_id ` set (sq_campaigns st))"
  proof (cases ?old)
    case None
    have "?k \<notin> alert_row_key ` set (sq_alerts st)"
      using None by (auto simp: alert_row_for_def find_None_iff alert_row_key_def)
    moreover have "ar_campaign_id r \<in> cr_campaign_id ` set (sq_campaigns st)"
      using key assms(2) by (simp add: alert_row_key_def)
    ultimately show ?thesis
      using wf_alerts_snoc [OF wf_sqlD(2) [OF assms(1)] mp [OF new None]] key None wf_sqlD(4) [OF assms(1)]
      by (auto simp: eqs alert_written_def)
  next
    case (Some x)
    have x: "x \<in> set (sq_alerts st)" "alert_row_key x = ?k"
      using alert_row_for_mem [OF Some] by auto
    have i: "ar_alert_id x = ar_alert_id r"
      using arg_cong [OF al(2), of ar_alert_id] Some by (simp add: al(1))
    have "wf_alerts (overwrite ar_alert_id r (sq_alerts st))"
      by (rule wf_alerts_overwrite [OF wf_sqlD(2) [OF assms(1)] x(1) i]) (simp add: x key)
    moreover have "set (overwrite ar_alert_id r (sq_alerts st)) \<subseteq> insert r (set (sq_alerts st))"
      by (auto simp: overwrite_def)
    moreover have "ar_campaign_id r \<in> cr_campaign_id ` set (sq_campaigns st)"
      using key assms(2) by (simp add: alert_row_key_def)
    ultimately show ?thesis
      using wf_sqlD(4) [OF assms(1)] Some by (auto simp: eqs alert_written_def)
  qed
  have "distinct (map (\<lambda>(t, e). (t, ce_event_id e)) (sq_outbox st'))"
    using outs outbox_snoc [OF wf_sqlD(6) [OF assms(1)]] wf_sqlD(6) [OF assms(1)] by auto
  then show "wf_sql st'"
    using alerts wf_sqlD [OF assms(1)] unfolding wf_sql_def eqs(1-3) by blast
  show "sq_campaigns st' = sq_campaigns st" "sq_evidence st' = sq_evidence st" by (rule eqs)+
qed

lemma sql_alerts_wf:
  assumes "wf_sql st" "c \<in> set (sq_campaigns st)"
    and "sql_alerts env dump now cfg c ev ts st = Inr (als, ids, st')"
  shows "wf_sql st' \<and> sq_campaigns st' = sq_campaigns st \<and> sq_evidence st' = sq_evidence st"
  using assms
proof (induction ts arbitrary: st als ids)
  case (Cons t ts)
  then obtain al i st1 als' ids' where
    u: "sql_upsert_alert env dump now cfg c ev t st = Inr (al, i, st1)"
    and r: "sql_alerts env dump now cfg c ev ts st1 = Inr (als', ids', st')"
    by (auto split: sum.splits prod.splits)
  from sql_upsert_alert_wf [OF Cons.prems(1,2) u] Cons.IH [OF _ _ r] Cons.prems(2)
  show ?case by simp
qed simp

lemma sql_commit_Inr:
  assumes "sql_commit env dump now cfg ev ex a ended st = Inr (u, st')"
  obtains r emitted st1 records ids where
    "(case ex of None \<Rightarrow> sql_create env now ev a st | Some old \<Rightarrow> sql_update env now ev a old st) = Inr (r, emitted, st1)"
    "sql_alerts env dump now cfg r ev (ca_alerts a) (add_evidence env dump ev (cr_campaign_id r) st1) = Inr (records, ids, st')"
    "u = (campaign_update_of (campaign_of_row r))\<lparr>cu_alerts := records, cu_emitted_event_ids := ended @ emitted @ ids\<rparr>"
  using assms by (auto simp: sql_commit_def split: sum.splits)

lemma sql_commit_wf:
  assumes "wf_sql st" "sql_commit env dump now cfg ev ex a ended st = Inr (u, st')"
    and "ex = None \<Longrightarrow> active_campaign (scope_id ev, asset_id ev) st = None \<and> ca_next_stage a \<in> transitions st_normal"
    and "\<And>old. ex = Some old \<Longrightarrow> old \<in> set (sq_campaigns st) \<and> ca_next_stage a \<in> transitions (cr_stage old)"
  shows "wf_sql st' \<and> dom (sq_evidence st') = insert (ce2_event_id ev) (dom (sq_evidence st))"
  using assms(2)
proof (rule sql_commit_Inr)
  fix r emitted st1 records ids
  assume c: "(case ex of None \<Rightarrow> sql_create env now ev a st | Some old \<Rightarrow> sql_update env now ev a old st) = Inr (r, emitted, st1)"
    and al: "sql_alerts env dump now cfg r ev (ca_alerts a) (add_evidence env dump ev (cr_campaign_id r) st1) = Inr (records, ids, st')"
  have st1: "wf_sql st1" "r \<in> set (sq_campaigns st1)"
    using c assms(3,4) sql_create_wf [OF assms(1)] sql_update_wf [OF assms(1)]
    by (auto split: option.splits)
  have "sq_evidence st1 = sq_evidence st"
    using c by (auto split: option.splits elim!: sql_create_Inr sql_update_Inr)
  then show ?thesis
    using sql_alerts_wf [OF add_evidence_wf [OF st1] _ al] st1(2) by simp
qed

lemma close_none_active:
  assumes "wf_sql st" "active_campaign k st = Some r" "sql_close env now ev r st = Inr (i, st')"
  shows "active_campaign k st' = None"
  using assms(3)
proof (rule sql_close_Inr)
  fix e
  assume st': "st' = (write_campaign (closed_row r) st)\<lparr>sq_outbox := sq_outbox st @ [(''campaign.events.v1'', e)]\<rparr>"
  have wf: "wf_campaigns (sq_campaigns st)" using assms(1) by (rule wf_sqlD)
  have r: "r \<in> set (sq_campaigns st)" "active_row k r" using active_campaign_mem [OF assms(2)] by auto
  have "set (sq_campaigns st') = insert (closed_row r) (set (sq_campaigns st) - {r})"
    using overwrite_set [of cr_campaign_id "sq_campaigns st" r "closed_row r"] wf r
    by (simp add: st' closed_row_def wf_campaigns_def)
  moreover have "\<not> active_row k x" if "x \<in> set (sq_campaigns st)" "x \<noteq> r" for x
    using active_campaign_iff [OF wf, of k x] assms(2) that by auto
  ultimately show ?thesis
    by (auto simp: active_campaign_def find_None_iff active_row_def closed_row_def)
qed

context campaign_machine
begin

lemma sql_body_wf:
  assumes "wf_sql st" "sql_body machine env dump now cfg ev st = Inr (u, st')"
  shows "wf_sql st' \<and> dom (sq_evidence st') = insert (ce2_event_id ev) (dom (sq_evidence st))"
proof (cases "sq_evidence st (ce2_event_id ev)")
  case (Some prior)
  then show ?thesis using assms by (auto simp: sql_body_def split: option.splits)
next
  case None
  let ?k = "(scope_id ev, asset_id ev)"
  show ?thesis
  proof (cases "active_campaign ?k st")
    case no: None
    then obtain a where "machine st_normal (ce2_fusion ev) = Inr a"
      "sql_commit env dump now cfg ev None a [] st = Inr (u, st')"
      using assms None by (auto simp: sql_body_def split: sum.splits)
    then show ?thesis using sql_commit_wf [OF assms(1)] machine_allowed no by blast
  next
    case (Some r)
    then have r: "r \<in> set (sq_campaigns st)" using active_campaign_mem by blast
    consider "is_stale r ev" | "\<not> is_stale r ev" "gap_elapsed (campaign_config.truncate cfg) ev r"
      | "\<not> is_stale r ev" "\<not> gap_elapsed (campaign_config.truncate cfg) ev r" by blast
    then show ?thesis
    proof cases
      case 1
      then have "st' = add_evidence env dump ev (cr_campaign_id r) st"
        using assms None Some by (simp add: sql_body_def)
      then show ?thesis using add_evidence_wf [OF assms(1) r] by simp
    next
      case 2
      then obtain i st1 a where c: "sql_close env now ev r st = Inr (i, st1)"
        and m: "machine st_normal (ce2_fusion ev) = Inr a"
        and s: "sql_commit env dump now cfg ev None a [i] st1 = Inr (u, st')"
        using assms None Some by (auto simp: sql_body_def split: sum.splits)
      have "sq_evidence st1 = sq_evidence st"
        using c by (rule sql_close_Inr) simp
      then show ?thesis
        using sql_commit_wf [OF wf_sql_close [OF assms(1) r c] s] close_none_active [OF assms(1) Some c]
          machine_allowed [OF m] by simp
    next
      case 3
      then obtain a where m: "machine (cr_stage r) (ce2_fusion ev) = Inr a"
        and s: "sql_commit env dump now cfg ev (Some r) a [] st = Inr (u, st')"
        using assms None Some by (auto simp: sql_body_def split: sum.splits)
      then show ?thesis using sql_commit_wf [OF assms(1) s] machine_allowed [OF m] r by simp
    qed
  qed
qed

lemma sql_apply_wf:
  "wf_sql st \<Longrightarrow> wf_sql (snd (sql_apply machine env dump now cfg answers ev st))"
  by (auto simp: sql_apply_def dest: sql_body_wf split: sum.split)

lemma sql_run_wf: "wf_sql st \<Longrightarrow> wf_sql (sql_run machine env dump cfg ds st)"
  by (induction ds arbitrary: st) (simp_all add: sql_apply_wf)

end

section \<open>What the queries answer after a step\<close>

lemma option_ext: "(\<And>x. a = Some x \<longleftrightarrow> b = Some x) \<Longrightarrow> a = b"
  by (metis option.exhaust)

lemma find_snoc:
  "List.find P (xs @ [x]) = (case List.find P xs of None \<Rightarrow> if P x then Some x else None | Some y \<Rightarrow> Some y)"
  by (induction xs) simp_all

lemma active_row_key: "active_row k r \<longleftrightarrow> row_key r = k \<and> cr_status r = cs_active"
  by (simp add: active_row_def row_key_def)

lemma active_snoc:
  assumes "active_campaign (row_key r) st = None" "cr_status r = cs_active"
    and "sq_campaigns st' = sq_campaigns st @ [r]"
  shows "active_campaign k st' = (if k = row_key r then Some r else active_campaign k st)"
  using assms by (auto simp: active_campaign_def find_snoc active_row_key split: option.split)

lemma active_overwrite:
  assumes "wf_campaigns (sq_campaigns st)" "active_campaign k0 st = Some old"
    and "cr_campaign_id old = cr_campaign_id r" "row_key old = row_key r" "reason_ok r"
    and "sq_campaigns st' = overwrite cr_campaign_id r (sq_campaigns st)"
  shows "active_campaign k st' =
    (if k = k0 then if cr_status r = cs_active then Some r else None else active_campaign k st)"
proof (rule option_ext)
  fix x
  have old: "old \<in> set (sq_campaigns st)" "active_row k0 old"
    using active_campaign_mem [OF assms(2)] by auto
  have wf': "wf_campaigns (sq_campaigns st')"
    unfolding assms(6)
    by (rule wf_campaigns_overwrite [OF assms(1) old(1) assms(3,4) _ assms(5)])
      (use old in \<open>simp add: active_row_def\<close>)
  have set': "set (sq_campaigns st') = insert r (set (sq_campaigns st) - {old})"
    unfolding assms(6)
    by (rule overwrite_set [OF _ old(1) assms(3)]) (use assms(1) in \<open>simp add: wf_campaigns_def\<close>)
  have others: "\<not> active_row k0 y" if "y \<in> set (sq_campaigns st)" "y \<noteq> old" for y
    using active_campaign_iff [OF assms(1), of k0 y] assms(2) that by auto
  have "row_key r = k0" using old(2) assms(4) by (simp add: active_row_key)
  then show "active_campaign k st' = Some x \<longleftrightarrow>
      (if k = k0 then if cr_status r = cs_active then Some r else None else active_campaign k st) = Some x"
    using others old(2) active_campaign_iff [OF assms(1), of k x]
    by (auto simp: active_campaign_iff [OF wf'] set' active_row_key)
qed

lemma alert_written_row:
  assumes "wf_alerts (sq_alerts st)" "alert_row_for k0 st = old" "alert_row_key r = k0"
    and "\<And>x. old = Some x \<Longrightarrow> ar_alert_id x = ar_alert_id r"
    and "sq_alerts st' = sq_alerts (alert_written old r st)"
  shows "alert_row_for k st' = (if k = k0 then Some r else alert_row_for k st)"
proof (cases old)
  case None
  then show ?thesis
    using assms(2,3,5)
    by (auto simp: alert_row_for_def alert_row_key_def [symmetric] alert_written_def find_snoc split: option.split)
next
  case (Some x)
  have x: "x \<in> set (sq_alerts st)" "alert_row_key x = k0"
    using alert_row_for_mem assms(2) Some by auto
  have i: "ar_alert_id x = ar_alert_id r" using assms(4) Some by simp
  have a: "sq_alerts st' = overwrite ar_alert_id r (sq_alerts st)"
    using assms(5) Some by (simp add: alert_written_def)
  have wf': "wf_alerts (sq_alerts st')"
    unfolding a by (rule wf_alerts_overwrite [OF assms(1) x(1) i]) (simp add: x assms(3))
  have set': "set (sq_alerts st') = insert r (set (sq_alerts st) - {x})"
    unfolding a by (rule overwrite_set [OF _ x(1) i]) (use assms(1) in \<open>simp add: wf_alerts_def\<close>)
  have others: "alert_row_key y \<noteq> k0" if "y \<in> set (sq_alerts st)" "y \<noteq> x" for y
    using alert_row_for_iff [OF assms(1), of k0 y] assms(2) Some that by auto
  show ?thesis
    by (rule option_ext) (use others x assms(3) in \<open>auto simp: alert_row_for_iff [OF wf'] alert_row_for_iff [OF assms(1)] set'\<close>)
qed

section \<open>The in-memory repository as the abstraction of the SQL one\<close>

definition event_ids :: "outbox \<Rightarrow> (string \<times> event_type \<times> string) list" where
  "event_ids ob = map (\<lambda>(t, e). (t, ce_event_type e, ce_event_id e)) ob"

lemma event_ids_append [simp]: "event_ids (xs @ ys) = event_ids xs @ event_ids ys"
  by (simp add: event_ids_def)

lemma event_ids_one [simp]: "event_ids [(t, e)] = [(t, ce_event_type e, ce_event_id e)]"
  by (simp add: event_ids_def)

lemma event_ids_nil [simp]: "event_ids [] = []"
  by (simp add: event_ids_def)

definition not_closing :: "string \<times> campaign_payload canonical_event \<Rightarrow> bool" where
  "not_closing = (\<lambda>(t, e). ce_event_type e \<noteq> ev_campaign_closed)"

text \<open>The two stores show the same campaigns, except at the keys in \<open>K\<close>, the same alerts and the
  same published events, except for the closing events that only the SQL store publishes.\<close>

definition same_view :: "(string \<times> string) set \<Rightarrow> sql_store \<Rightarrow> mem_store \<Rightarrow> bool" where
  "same_view K s m \<longleftrightarrow>
     (\<forall>k. k \<notin> K \<longrightarrow> ms_campaigns m k = map_option campaign_of_row (active_campaign k s)) \<and>
     (\<forall>k. ms_alerts m k = map_option alert_of_row (alert_row_for k s)) \<and>
     event_ids (ms_outbox m) = event_ids (filter not_closing (sq_outbox s))"

definition refines :: "sql_store \<Rightarrow> mem_store \<Rightarrow> bool" where
  "refines s m \<longleftrightarrow> wf_sql s \<and> same_view {} s m \<and> ms_evidence_ids m = dom (sq_evidence s)"

lemma refines_empty [simp]: "refines sql_empty mem_empty"
  by (simp add: refines_def same_view_def sql_empty_def mem_empty_def active_campaign_def alert_row_for_def
      wf_empty [unfolded sql_empty_def])

lemma same_view_evidence [simp]: "same_view K (add_evidence env dump ev c s) m = same_view K s m"
  by (simp add: same_view_def active_campaign_def alert_row_for_def)

lemma same_view_claim [simp]: "same_view K s (claim ev m) = same_view K s m"
  by (simp add: same_view_def)

lemma truncate_config [simp]:
  "cc_suppression (campaign_config.truncate cfg) = cc_suppression cfg"
  "cc_merge_gap (campaign_config.truncate cfg) = cc_merge_gap cfg"
  by (simp_all add: campaign_config.defs)

lemma domain_event_same_id:
  assumes "domain_event env now ev ty topic entity p = Inr e"
  obtains e' where "domain_event env now ev ty topic entity p' = Inr e'"
    "ce_event_id e' = ce_event_id e" "ce_event_type e' = ce_event_type e"
proof -
  obtain e' where e': "domain_event env now ev ty topic entity p' = Inr e'"
    using domain_event_routable [OF domain_event_Inr(6) [OF assms]] .
  show thesis
    by (rule that [OF e']) (simp_all add: domain_event_Inr(2,5) [OF e'] domain_event_Inr(2,5) [OF assms])
qed

lemma sim_alert:
  assumes "same_view K s m" "wf_alerts (sq_alerts s)"
    and "sql_upsert_alert env dump now cfg c ev t s = Inr (al, ids, s')"
  obtains m' where
    "mem_alert env now (campaign_config.truncate cfg) (cr_campaign_id c) ev t m = (Inr (al, ids), m')"
    "same_view K s' m'"
proof -
  let ?k = "(cr_campaign_id c, tg_alert_type t)"
  let ?old = "alert_row_for ?k s"
  let ?cfg = "campaign_config.truncate cfg"
  obtain r where al: "al = alert_of_row r"
      "al = (case ?old of None \<Rightarrow> new_alert env (cr_campaign_id c) ev t
         | Some x \<Rightarrow> updated_alert (cc_suppression cfg) (alert_of_row x) ev t)"
    and eqs: "sq_campaigns s' = sq_campaigns s" "sq_alerts s' = sq_alerts (alert_written ?old r s)"
    and outs: "(\<exists>x. ?old = Some x \<and> alert_suppressed (cc_suppression cfg) (alert_of_row x) ev t \<and>
         sq_outbox s' = sq_outbox s \<and> ids = []) \<or>
     (\<not> (\<exists>x. ?old = Some x \<and> alert_suppressed (cc_suppression cfg) (alert_of_row x) ev t) \<and>
      (\<exists>e p. domain_event env now ev (case ?old of None \<Rightarrow> ev_alert_created
            | Some x \<Rightarrow> if alert_changed (alert_of_row x) t then ev_alert_severity_changed else ev_alert_refreshed)
          ''alerts.events.v1'' (ar_alert_id al) p = Inr e \<and> ids = [ce_event_id e] \<and>
        sq_outbox s' = sq_outbox s @ [(''alerts.events.v1'', e)] \<and>
        (''alerts.events.v1'', ce_event_id e) \<notin> (\<lambda>(t, x). (t, ce_event_id x)) ` set (sq_outbox s)))"
    using assms(3) by (rule sql_upsert_alert_Inr)
  have found: "ms_alerts m ?k = map_option alert_of_row ?old"
    using assms(1) by (simp add: same_view_def)
  have key: "alert_row_key r = ?k"
  proof -
    have "(ar_campaign_id al, ar_alert_type al) = ?k"
      using al(2) alert_row_for_mem [of ?k s] by (cases ?old) (auto simp: alert_row_key_def)
    then show ?thesis by (simp add: al(1) alert_row_key_def)
  qed
  have i: "ar_alert_id x = ar_alert_id r" if "?old = Some x" for x
    using arg_cong [OF al(2), of ar_alert_id] that by (simp add: al(1))
  have rows: "alert_row_for k s' = (if k = ?k then Some r else alert_row_for k s)" for k
    by (rule alert_written_row [OF assms(2) refl key i eqs(2)])
  have camps: "active_campaign k s' = active_campaign k s" for k
    by (simp add: active_campaign_def eqs)
  define m1 where "m1 = m\<lparr>ms_alerts := (ms_alerts m)(?k \<mapsto> al), ms_alert_history := ms_alert_history m @
      [(ar_alert_id al, ar_severity al, \<exists>x. ?old = Some x \<and> alert_suppressed (cc_suppression cfg) (alert_of_row x) ev t)]\<rparr>"
  have view: "same_view K s' m'" if "ms_campaigns m' = ms_campaigns m" "ms_alerts m' = (ms_alerts m)(?k \<mapsto> al)"
    "event_ids (ms_outbox m') = event_ids (filter not_closing (sq_outbox s'))" for m'
    using assms(1) that by (auto simp: same_view_def rows camps al(1))
  from outs show thesis
  proof (elim disjE conjE exE)
    fix x
    assume "?old = Some x" "alert_suppressed (cc_suppression cfg) (alert_of_row x) ev t"
      "sq_outbox s' = sq_outbox s" "ids = []"
    then show thesis
      using found al(2) assms(1)
      by (intro that [of m1] view) (simp_all add: mem_alert_def m1_def Let_def same_view_def)
  next
    fix e p
    let ?ty = "case ?old of None \<Rightarrow> ev_alert_created
        | Some x \<Rightarrow> if alert_changed (alert_of_row x) t then ev_alert_severity_changed else ev_alert_refreshed"
    assume ns: "\<not> (\<exists>x. ?old = Some x \<and> alert_suppressed (cc_suppression cfg) (alert_of_row x) ev t)"
      and e: "domain_event env now ev ?ty ''alerts.events.v1'' (ar_alert_id al) p = Inr e"
      and ids: "ids = [ce_event_id e]" and ob: "sq_outbox s' = sq_outbox s @ [(''alerts.events.v1'', e)]"
    obtain e' where e': "domain_event env now ev ?ty ''alerts.events.v1'' (ar_alert_id al) (AlertPayload al (tg_reason t)) = Inr e'"
      and same: "ce_event_id e' = ce_event_id e" "ce_event_type e' = ce_event_type e"
      using e by (rule domain_event_same_id)
    have "not_closing (''alerts.events.v1'', e)"
      using domain_event_Inr(2) [OF e] by (simp add: not_closing_def split: option.split)
    then show thesis
      using found al(2) assms(1) ns e' same ids ob
      by (intro that [of "m1\<lparr>ms_outbox := ms_outbox m @ [(''alerts.events.v1'', e')]\<rparr>"] view; cases ?old)
        (simp_all add: mem_alert_def m1_def Let_def same_view_def)
  qed
qed

lemma sim_alerts:
  assumes "same_view K s m" "wf_sql s" "c \<in> set (sq_campaigns s)"
    and "sql_alerts env dump now cfg c ev ts s = Inr (als, ids, s')"
  shows "\<exists>m'. mem_alerts env now (campaign_config.truncate cfg) (cr_campaign_id c) ev ts m = (Inr (als, ids), m') \<and>
    same_view K s' m'"
  using assms
proof (induction ts arbitrary: s m als ids)
  case Nil
  then show ?case by simp
next
  case (Cons t ts)
  then obtain al i s1 als' ids' where
    u: "sql_upsert_alert env dump now cfg c ev t s = Inr (al, i, s1)"
    and r: "sql_alerts env dump now cfg c ev ts s1 = Inr (als', ids', s')"
    and eq: "als = al # als'" "ids = i @ ids'"
    by (auto split: sum.splits prod.splits)
  obtain m1 where m1: "mem_alert env now (campaign_config.truncate cfg) (cr_campaign_id c) ev t m = (Inr (al, i), m1)"
    and v: "same_view K s1 m1"
    using sim_alert [OF Cons.prems(1) wf_sqlD(2) [OF Cons.prems(2)] u] by blast
  have w: "wf_sql s1" "c \<in> set (sq_campaigns s1)"
    using sql_upsert_alert_wf [OF Cons.prems(2,3) u] Cons.prems(3) by auto
  from Cons.IH [OF v w r] m1 eq show ?case by auto
qed

lemma alert_row_for_cong: "sq_alerts s = sq_alerts s' \<Longrightarrow> alert_row_for k s = alert_row_for k s'"
  by (simp add: alert_row_for_def)

lemma sim_create:
  assumes "same_view {(scope_id ev, asset_id ev)} s m" "active_campaign (scope_id ev, asset_id ev) s = None"
    and "sql_create env now ev a s = Inr (r, ids, s')"
  obtains m' where "mem_save env now ev None (committed env ev None a) m = (Inr ids, m')" "same_view {} s' m'"
    "committed env ev None a = campaign_of_row r"
  using assms(3)
proof (rule sql_create_Inr)
  let ?k = "(scope_id ev, asset_id ev)"
  fix e
  assume r: "r = campaign_columns (new_campaign env ev a) (ca_rule_version a) None"
    and e: "domain_event env now ev ev_campaign_created ''campaign.events.v1'' (cr_campaign_id r)
      (CampaignPayload (campaign_of_row r)) = Inr e" and ids: "ids = [ce_event_id e]"
    and s': "s' = s\<lparr>sq_campaigns := sq_campaigns s @ [r],
       sq_stage_history := sq_stage_history s @ [stage_history ev a (cr_campaign_id r) None],
       sq_outbox := sq_outbox s @ [(''campaign.events.v1'', e)]\<rparr>"
  have c: "committed env ev None a = campaign_of_row r" by (simp add: committed_def r)
  have key: "row_key r = ?k" "cr_status r = cs_active" by (simp_all add: r row_key_def new_campaign_def)
  have active: "active_campaign k s' = (if k = ?k then Some r else active_campaign k s)" for k
    using active_snoc [of r s s' k] assms(2) key s' by simp
  have nc: "not_closing (''campaign.events.v1'', e)"
    using domain_event_Inr(2) [OF e] by (simp add: not_closing_def)
  let ?m = "m\<lparr>ms_campaigns := (ms_campaigns m)(?k \<mapsto> campaign_of_row r),
      ms_outbox := ms_outbox m @ [(''campaign.events.v1'', e)]\<rparr>"
  show thesis
  proof (rule that [of ?m])
    show "mem_save env now ev None (committed env ev None a) m = (Inr ids, ?m)"
      using e by (simp add: mem_save_def c ids Let_def)
    show "same_view {} s' ?m"
    proof -
      have "alert_row_for k s' = alert_row_for k s" for k
        by (rule alert_row_for_cong) (simp add: s')
      moreover have "sq_outbox s' = sq_outbox s @ [(''campaign.events.v1'', e)]" by (simp add: s')
      ultimately show ?thesis
        using assms(1) nc by (auto simp: same_view_def active)
    qed
  qed (rule c)
qed

lemma sim_update:
  assumes "same_view {} s m" "wf_sql s" "active_campaign (scope_id ev, asset_id ev) s = Some old"
    and "sql_update env now ev a old s = Inr (r, ids, s')"
  obtains m' where
    "mem_save env now ev (Some (campaign_of_row old)) (committed env ev (Some (campaign_of_row old)) a) m = (Inr ids, m')"
    "same_view {} s' m'" "committed env ev (Some (campaign_of_row old)) a = campaign_of_row r"
proof -
  let ?k = "(scope_id ev, asset_id ev)"
  let ?r = "campaign_columns (updated_campaign (campaign_of_row old) ev a) (ca_rule_version a) (rw_closed_reason old)"
  have old: "old \<in> set (sq_campaigns s)" "active_row ?k old"
    using active_campaign_mem [OF assms(3)] by auto
  have r: "r = ?r" and rows: "sq_campaigns s' = overwrite cr_campaign_id ?r (sq_campaigns s)"
    "sq_alerts s' = sq_alerts s"
    using assms(4) by (auto elim!: sql_update_Inr)
  have c: "committed env ev (Some (campaign_of_row old)) a = campaign_of_row r" by (simp add: committed_def r)
  have ok: "reason_ok old" using old(1) wf_sqlD(1) [OF assms(2)] by (simp add: wf_campaigns_def)
  have active: "active_campaign k s' = (if k = ?k then Some r else active_campaign k s)" for k
    using active_overwrite [OF wf_sqlD(1) [OF assms(2)] assms(3) _ _ _ rows(1), of k] old(2) ok
    by (simp add: r updated_campaign_def row_key_def active_row_key reason_ok_def)
  have alerts: "alert_row_for k s' = alert_row_for k s" for k
    by (rule alert_row_for_cong) (rule rows(2))
  have stage: "cr_stage r = ca_next_stage a" by (simp add: r updated_campaign_def)
  show thesis
    using assms(4)
  proof (cases rule: sql_update_Inr)
    case (moved e)
    obtain e' where e': "domain_event env now ev ev_campaign_stage_changed ''campaign.events.v1'' (cr_campaign_id r)
        (CampaignPayload (campaign_of_row r)) = Inr e'"
      and same: "ce_event_id e' = ce_event_id e" "ce_event_type e' = ce_event_type e"
      using moved(4) by (rule domain_event_same_id)
    have nc: "not_closing (''campaign.events.v1'', e)"
      using domain_event_Inr(2) [OF moved(4)] by (simp add: not_closing_def)
    let ?m = "m\<lparr>ms_stage_history := ms_stage_history m @ [(cr_campaign_id r, cr_stage old, cr_stage r)],
        ms_campaigns := (ms_campaigns m)(?k \<mapsto> campaign_of_row r),
        ms_outbox := ms_outbox m @ [(''campaign.events.v1'', e')]\<rparr>"
    show thesis
    proof (rule that [of ?m])
      show "mem_save env now ev (Some (campaign_of_row old)) (committed env ev (Some (campaign_of_row old)) a) m = (Inr ids, ?m)"
        using moved(2) e' by (simp add: mem_save_def c moved(3) stage same Let_def)
      have "sq_outbox s' = sq_outbox s @ [(''campaign.events.v1'', e)]" by (simp add: moved(5))
      then show "same_view {} s' ?m"
        using assms(1) nc same by (auto simp: same_view_def active alerts)
    qed (rule c)
  next
    case stayed
    let ?m = "m\<lparr>ms_stage_history := ms_stage_history m @ [],
        ms_campaigns := (ms_campaigns m)(?k \<mapsto> campaign_of_row r)\<rparr>"
    show thesis
    proof (rule that [of ?m])
      show "mem_save env now ev (Some (campaign_of_row old)) (committed env ev (Some (campaign_of_row old)) a) m = (Inr ids, ?m)"
        using stayed(2) by (simp add: mem_save_def c stayed(3) stage)
      have "sq_outbox s' = sq_outbox s" by (simp add: stayed(4))
      then show "same_view {} s' ?m"
        using assms(1) by (auto simp: same_view_def active alerts)
    qed (rule c)
  qed
qed

text \<open>Committing: both stores end with the same view and the same answer, except for the closing
  event.\<close>

lemma sim_commit:
  assumes "sql_commit env dump now cfg ev ex a ended s = Inr (u, s')" "wf_sql s"
    and "ex = None \<Longrightarrow> same_view {(scope_id ev, asset_id ev)} s m \<and>
      active_campaign (scope_id ev, asset_id ev) s = None \<and> ca_next_stage a \<in> transitions st_normal"
    and "\<And>old. ex = Some old \<Longrightarrow> same_view {} s m \<and>
      active_campaign (scope_id ev, asset_id ev) s = Some old \<and> ca_next_stage a \<in> transitions (cr_stage old)"
  obtains u' m' where
    "mem_commit env now (campaign_config.truncate cfg) ev (map_option campaign_of_row ex) a m = (Inr u', m')"
    "same_view {} s' m'" "u = u'\<lparr>cu_emitted_event_ids := ended @ cu_emitted_event_ids u'\<rparr>"
  using assms(1)
proof (rule sql_commit_Inr)
  fix r emitted s1 records ids
  assume c: "(case ex of None \<Rightarrow> sql_create env now ev a s | Some old \<Rightarrow> sql_update env now ev a old s) = Inr (r, emitted, s1)"
    and al: "sql_alerts env dump now cfg r ev (ca_alerts a) (add_evidence env dump ev (cr_campaign_id r) s1) = Inr (records, ids, s')"
    and u: "u = (campaign_update_of (campaign_of_row r))\<lparr>cu_alerts := records, cu_emitted_event_ids := ended @ emitted @ ids\<rparr>"
  have wf1: "wf_sql s1" "r \<in> set (sq_campaigns s1)"
  proof -
    have "wf_sql s1 \<and> r \<in> set (sq_campaigns s1)"
    proof (cases ex)
      case None
      then show ?thesis using c assms(3) sql_create_wf [OF assms(2)] by auto
    next
      case (Some old)
      then have "old \<in> set (sq_campaigns s)" using assms(4) active_campaign_mem by blast
      then show ?thesis using Some c assms(4) sql_update_wf [OF assms(2)] by auto
    qed
    then show "wf_sql s1" "r \<in> set (sq_campaigns s1)" by auto
  qed
  obtain m1 where m1: "mem_save env now ev (map_option campaign_of_row ex) (committed env ev (map_option campaign_of_row ex) a) m = (Inr emitted, m1)"
    and v1: "same_view {} s1 m1" and cc: "committed env ev (map_option campaign_of_row ex) a = campaign_of_row r"
  proof (cases ex)
    case None
    then show thesis
      using c assms(3) that sim_create [of ev s m env now a r emitted s1] by auto
  next
    case (Some old)
    then show thesis
      using c assms(2,4) that sim_update [of s m ev old env now a r emitted s1] by auto
  qed
  have v1': "same_view {} (add_evidence env dump ev (cr_campaign_id r) s1) m1"
    using v1 by simp
  obtain m2 where m2: "mem_alerts env now (campaign_config.truncate cfg) (cr_campaign_id r) ev (ca_alerts a) m1 = (Inr (records, ids), m2)"
    and v2: "same_view {} s' m2"
    using sim_alerts [OF v1' add_evidence_wf [OF wf1] _ al] wf1(2) by auto
  show thesis
  proof (rule that)
    show "mem_commit env now (campaign_config.truncate cfg) ev (map_option campaign_of_row ex) a m =
        (Inr ((campaign_update_of (campaign_of_row r))\<lparr>cu_alerts := records, cu_emitted_event_ids := emitted @ ids\<rparr>), m2)"
      using m1 m2 cc by (cases ex) (simp_all add: mem_commit_def committed_def)
  qed (simp_all add: v2 u)
qed

definition agree :: "campaign_update \<Rightarrow> campaign_update \<Rightarrow> bool" where
  "agree u u' \<longleftrightarrow> (\<exists>ended. length ended \<le> 1 \<and> u = u'\<lparr>cu_emitted_event_ids := ended @ cu_emitted_event_ids u'\<rparr>)"

lemma agree_refl [simp]: "agree u u"
  unfolding agree_def by (rule exI [of _ "[]"]) simp

lemma close_view:
  assumes "same_view {} s m" "wf_sql s" "active_campaign k s = Some r" "sql_close env now ev r s = Inr (i, s1)"
  shows "same_view {k} s1 m"
  using assms(4)
proof (rule sql_close_Inr)
  fix e
  assume e: "domain_event env now ev ev_campaign_closed ''campaign.events.v1'' (cr_campaign_id r)
      (ClosedPayload (cr_campaign_id r) ''merge gap elapsed'') = Inr e"
    and s1: "s1 = (write_campaign (closed_row r) s)\<lparr>sq_outbox := sq_outbox s @ [(''campaign.events.v1'', e)]\<rparr>"
  have rows: "sq_campaigns s1 = overwrite cr_campaign_id (closed_row r) (sq_campaigns s)"
    "sq_alerts s1 = sq_alerts s" "sq_outbox s1 = sq_outbox s @ [(''campaign.events.v1'', e)]"
    by (simp_all add: s1)
  have "active_campaign j s1 = (if j = k then None else active_campaign j s)" for j
    using active_overwrite [OF wf_sqlD(1) [OF assms(2)] assms(3) _ _ _ rows(1), of j]
    by (simp add: closed_row_def row_key_def reason_ok_def)
  moreover have "alert_row_for j s1 = alert_row_for j s" for j
    by (rule alert_row_for_cong) (rule rows(2))
  moreover have "\<not> not_closing (''campaign.events.v1'', e)"
    using domain_event_Inr(2) [OF e] by (simp add: not_closing_def)
  ultimately show ?thesis
    using assms(1) by (auto simp: same_view_def rows(3))
qed

context campaign_machine
begin

text \<open>One delivery: unless the evidence is both stale and beyond the merge gap, where the two
  repositories decide differently, the in-memory repository follows the SQL one.\<close>

lemma sim_body:
  assumes "refines s m" "\<And>stage. is_ok (machine stage (ce2_fusion ev))"
    and "sql_body machine env dump now cfg ev s = Inr (u, s')"
    and "\<And>r. active_campaign (scope_id ev, asset_id ev) s = Some r \<Longrightarrow>
      \<not> (is_stale r ev \<and> gap_elapsed (campaign_config.truncate cfg) ev r)"
  shows "refines s' (snd (mem_apply machine env now (campaign_config.truncate cfg) ev m)) \<and>
    (ce2_event_id ev \<notin> dom (sq_evidence s) \<longrightarrow>
      (\<exists>u'. fst (mem_apply machine env now (campaign_config.truncate cfg) ev m) = Inr u' \<and> agree u u'))"
proof -
  let ?k = "(scope_id ev, asset_id ev)"
  let ?cfg = "campaign_config.truncate cfg"
  have wf: "wf_sql s" and view: "same_view {} s m" and ids: "ms_evidence_ids m = dom (sq_evidence s)"
    using assms(1) by (auto simp: refines_def)
  have found: "ms_campaigns m ?k = map_option campaign_of_row (active_campaign ?k s)"
    using view by (simp add: same_view_def)
  have post: "wf_sql s' \<and> dom (sq_evidence s') = insert (ce2_event_id ev) (dom (sq_evidence s))"
    by (rule sql_body_wf [OF wf assms(3)])
  show ?thesis
  proof (cases "ce2_event_id ev \<in> dom (sq_evidence s)")
    case True
    then have "s' = s" "snd (mem_apply machine env now ?cfg ev m) = m"
      using assms(3) by (auto simp: sql_body_def mem_apply_def ids split: option.splits)
    with True assms(1) show ?thesis by simp
  next
    case False
    then have new: "sq_evidence s (ce2_event_id ev) = None" by auto
    have finish: ?thesis if "mem_apply machine env now ?cfg ev m = (Inr u', m')" "agree u u'"
        "same_view {} s' m'" "ms_evidence_ids m' = insert (ce2_event_id ev) (ms_evidence_ids m)" for u' m'
      using that post by (simp add: refines_def ids)
    have ev_ids: "ms_evidence_ids (snd (mem_apply machine env now ?cfg ev m)) = insert (ce2_event_id ev) (ms_evidence_ids m)"
      by (rule mem_apply_evidence)
    have accept: ?thesis
      if c: "sql_commit env dump now cfg ev ex a ended s1 = Inr (u, s')" and w: "wf_sql s1" and l: "length ended \<le> 1"
        and n: "ex = None \<Longrightarrow> same_view {?k} s1 m \<and> active_campaign ?k s1 = None \<and> ca_next_stage a \<in> transitions st_normal"
        and o: "\<And>old. ex = Some old \<Longrightarrow> same_view {} s1 m \<and> active_campaign ?k s1 = Some old \<and> ca_next_stage a \<in> transitions (cr_stage old)"
        and live: "live_campaign ?cfg ev (ms_campaigns m ?k) = map_option campaign_of_row ex"
        and m: "machine (current_stage (map_option campaign_of_row ex)) (ce2_fusion ev) = Inr a"
        and fresh: "\<And>old. ex = Some old \<Longrightarrow> \<not> is_stale old ev" for ex a ended s1
    proof -
      obtain u' m' where c': "mem_commit env now ?cfg ev (map_option campaign_of_row ex) a (claim ev m) = (Inr u', m')"
        and v: "same_view {} s' m'" and u: "u = u'\<lparr>cu_emitted_event_ids := ended @ cu_emitted_event_ids u'\<rparr>"
        using sim_commit [OF c w, of "claim ev m"] n o by auto
      have e: "mem_apply machine env now ?cfg ev m = (Inr u', m')"
        using False live m c' fresh by (cases ex) (auto simp: mem_apply_def ids claim_def)
      show ?thesis
        by (rule finish [OF e _ v]) (use ev_ids e u l in \<open>auto simp: agree_def\<close>)
    qed
    show ?thesis
    proof (cases "active_campaign ?k s")
      case None
      then obtain a where m: "machine st_normal (ce2_fusion ev) = Inr a"
        and c: "sql_commit env dump now cfg ev None a [] s = Inr (u, s')"
        using assms(3) new by (auto simp: sql_body_def split: sum.splits)
      show ?thesis
        by (rule accept [OF c wf]) (use None found view m machine_allowed [OF m] in
          \<open>simp_all add: live_campaign_def current_stage_def same_view_def\<close>)
    next
      case (Some r)
      have live: "live_campaign ?cfg ev (ms_campaigns m ?k) =
          (if gap_elapsed ?cfg ev r then None else Some (campaign_of_row r))"
        using Some found by (simp add: live_campaign_def)
      consider "is_stale r ev" "\<not> gap_elapsed ?cfg ev r" | "\<not> is_stale r ev" "gap_elapsed ?cfg ev r"
        | "\<not> is_stale r ev" "\<not> gap_elapsed ?cfg ev r"
        using assms(4) [OF Some] by blast
      then show ?thesis
      proof cases
        case 1
        obtain a where a: "machine (cr_stage r) (ce2_fusion ev) = Inr a"
          using assms(2) [of "cr_stage r"] by (auto simp: is_ok_iff)
        have e1: "mem_apply machine env now ?cfg ev m =
            (Inr ((campaign_update_of (campaign_of_row r))\<lparr>cu_stale_evidence := True\<rparr>), claim ev m)"
          using 1 live False a by (simp add: mem_apply_def ids claim_def current_stage_def)
        have "s' = add_evidence env dump ev (cr_campaign_id r) s"
          "u = (campaign_update_of (campaign_of_row r))\<lparr>cu_stale_evidence := True\<rparr>"
          using 1 assms(3) new Some by (auto simp: sql_body_def)
        then show ?thesis using view by (intro finish [OF e1]) simp_all
      next
        case 2
        then obtain i s1 a where c: "sql_close env now ev r s = Inr (i, s1)"
          and m: "machine st_normal (ce2_fusion ev) = Inr a"
          and cm: "sql_commit env dump now cfg ev None a [i] s1 = Inr (u, s')"
          using assms(3) new Some by (auto simp: sql_body_def split: sum.splits)
        have r: "r \<in> set (sq_campaigns s)" using active_campaign_mem [OF Some] by simp
        show ?thesis
          by (rule accept [OF cm wf_sql_close [OF wf r c]])
            (use close_view [OF view wf Some c] close_none_active [OF wf Some c] 2 live m machine_allowed [OF m]
              in \<open>simp_all add: current_stage_def\<close>)
      next
        case 3
        then obtain a where m: "machine (cr_stage r) (ce2_fusion ev) = Inr a"
          and cm: "sql_commit env dump now cfg ev (Some r) a [] s = Inr (u, s')"
          using assms(3) new Some by (auto simp: sql_body_def split: sum.splits)
        show ?thesis
          by (rule accept [OF cm wf]) (use 3 live view Some m machine_allowed [OF m] in
            \<open>simp_all add: current_stage_def\<close>)
      qed
    qed
  qed
qed

end

section \<open>The lock loop\<close>

lemma lock_loop_acquired:
  "fst (lock_loop answers b n k) \<longleftrightarrow> (\<exists>i. n \<le> i \<and> i < n + k \<and> answers i)"
proof (induction k arbitrary: n)
  case (Suc k)
  have "(\<exists>i. n \<le> i \<and> i < n + Suc k \<and> answers i) \<longleftrightarrow>
      answers n \<or> (\<exists>i. Suc n \<le> i \<and> i < Suc n + k \<and> answers i)"
  proof
    assume "\<exists>i. n \<le> i \<and> i < n + Suc k \<and> answers i"
    then obtain i where i: "n \<le> i" "i < n + Suc k" "answers i" by blast
    show "answers n \<or> (\<exists>i. Suc n \<le> i \<and> i < Suc n + k \<and> answers i)"
    proof (cases "i = n")
      case False
      then have "Suc n \<le> i" "i < Suc n + k" using i by auto
      then show ?thesis using i(3) by blast
    qed (use i(3) in simp)
  next
    assume "answers n \<or> (\<exists>i. Suc n \<le> i \<and> i < Suc n + k \<and> answers i)"
    then show "\<exists>i. n \<le> i \<and> i < n + Suc k \<and> answers i"
    proof
      assume "\<exists>i. Suc n \<le> i \<and> i < Suc n + k \<and> answers i"
      then obtain i where "Suc n \<le> i" "i < Suc n + k" "answers i" by blast
      then show ?thesis by (intro exI [of _ i]) simp
    qed (auto intro: exI [of _ n])
  qed
  then show ?case using Suc [of "Suc n"] by (auto simp: split_beta)
qed simp

lemma lock_loop_pauses:
  "length (snd (lock_loop answers b n (Suc k))) \<le> k \<and>
   (\<forall>p \<in> set (snd (lock_loop answers b n (Suc k))). \<exists>i < n + k. \<not> answers i \<and> p = b * real (Suc i))"
proof (induction k arbitrary: n)
  case 0
  then show ?case by simp
next
  case (Suc k)
  show ?case
  proof (cases "answers n")
    case True
    then show ?thesis by simp
  next
    case False
    obtain acq ps where e: "lock_loop answers b (Suc n) (Suc k) = (acq, ps)" by fastforce
    have "snd (lock_loop answers b n (Suc (Suc k))) = (b * real (Suc n)) # ps"
      using False e by simp
    moreover have "length ps \<le> k" "\<forall>p \<in> set ps. \<exists>i < n + Suc k. \<not> answers i \<and> p = b * real (Suc i)"
      using Suc [of "Suc n"] e by auto
    ultimately show ?thesis using False by (auto intro!: exI [of _ n])
  qed
qed

section \<open>Properties\<close>

text \<open>After any sequence of deliveries, with any answers of the lock, the tables are intact:
  campaign, alert and outbox keys are unique, every scope and asset has at most one active
  campaign, exactly the closed campaigns have a reason, evidence, alerts and history refer to
  existing campaigns, and every recorded stage change is one of the transition table.\<close>

theorem sql_run_integrity: "wf_sql (sql_run assess env dump cfg ds sql_empty)"
  by (rule rules.sql_run_wf) simp

text \<open>C1. The in-memory repository abstracts the SQL one: a successful delivery to the tables is
  matched by the in-memory delivery of the same evidence, which ends in the same campaigns,
  alerts and published events and gives the same answer, up to the event that closes an expired
  campaign. The exception is evidence that is both stale and beyond the merge gap.\<close>

theorem sql_refines_mem:
  assumes "refines s m" "fusion_result_valid (ce2_fusion ev)" "opt_unit (fr_coordination_score (ce2_fusion ev))"
    and "sql_apply assess env dump now cfg answers ev s = (Inr u, s')"
    and "case active_campaign (scope_id ev, asset_id ev) s of None \<Rightarrow> True
      | Some r \<Rightarrow> \<not> (is_stale r ev \<and> gap_elapsed (campaign_config.truncate cfg) ev r)"
  shows "refines s' (snd (mem_apply assess env now (campaign_config.truncate cfg) ev m)) \<and>
    (ce2_event_id ev \<notin> dom (sq_evidence s) \<longrightarrow>
      (\<exists>u'. fst (mem_apply assess env now (campaign_config.truncate cfg) ev m) = Inr u' \<and> agree u u'))"
proof (rule rules.sim_body [OF assms(1)])
  show "is_ok (assess stage (ce2_fusion ev))" for stage
    by (rule assess_valid_ok [OF assms(2,3)])
  show "sql_body assess env dump now cfg ev s = Inr (u, s')"
    using assms(4) by (auto simp: sql_apply_def split: if_splits sum.splits)
  show "\<not> (is_stale r ev \<and> gap_elapsed (campaign_config.truncate cfg) ev r)"
    if "active_campaign (scope_id ev, asset_id ev) s = Some r" for r
    using assms(5) that by simp
qed

definition calm_evidence :: "string \<Rightarrow> datetime \<Rightarrow> datetime \<Rightarrow> campaign_evidence" where
  "calm_evidence i t cutoff = sample_evidence i t
     ((signal_score 0 0 0 0 0 risk_normal)\<lparr>fr_evidence_cutoff := Some cutoff\<rparr>)"

lemma calm_evidence_sel [simp]:
  "ce2_event_id (calm_evidence i t c) = i" "ce2_event_time (calm_evidence i t c) = t"
  "scope_id (calm_evidence i t c) = ''LIVE''" "asset_id (calm_evidence i t c) = ''ACME''"
  "fr_evidence_cutoff (ce2_fusion (calm_evidence i t c)) = Some c"
  by (simp_all add: calm_evidence_def)

lemma calm_evidence_valid [simp]:
  "fusion_result_valid (ce2_fusion (calm_evidence i t c))"
  "opt_unit (fr_coordination_score (ce2_fusion (calm_evidence i t c)))"
  by (simp_all add: calm_evidence_def fusion_result_valid_def signal_score_def blank_score_def)

lemma calm_evidence_routable [simp]: "routable (calm_evidence i t c)"
  by (simp add: routable_def blank_def is_space_def)

lemma sql_calm:
  obtains u s' where "sql_apply assess sample_env dump now default_sql_config (\<lambda>_. True)
      (calm_evidence ''e1'' 0 0) sql_empty = (Inr u, s')"
proof -
  let ?ev = "calm_evidence ''e1'' 0 0"
  obtain a where a: "assess st_normal (ce2_fusion ?ev) = Inr a"
    using assess_valid_ok [of "ce2_fusion ?ev" st_normal] by (auto simp: is_ok_iff)
  have "alerts (ce2_fusion ?ev) = []"
    by (simp add: alerts_eq_table alert_table_def Let_def trigger_def calm_evidence_def or_else_def
        signal_score_def blank_score_def number_def feature_get_def)
  then have "ca_alerts a = []" using assess_Inr(5) [OF a] by simp
  moreover obtain e where "domain_event sample_env now ?ev ev_campaign_created ''campaign.events.v1''
      (cr_campaign_id (new_campaign sample_env ?ev a)) (CampaignPayload (new_campaign sample_env ?ev a)) = Inr e"
    using domain_event_routable [OF calm_evidence_routable] .
  ultimately show thesis
    using a that
    by (simp add: sql_apply_def acquire_lock_def sql_body_def sql_empty_def active_campaign_def sql_commit_def
        sql_create_def insert_campaign_def publish_def enqueue_def Let_def)
qed

theorem sql_refines_mem_witness:
  "\<exists>u s'. sql_apply assess sample_env (\<lambda>_. []) 1 default_sql_config (\<lambda>_. True) (calm_evidence ''e1'' 0 0) sql_empty
      = (Inr u, s') \<and>
    refines s' (snd (mem_apply assess sample_env 1 (campaign_config.truncate default_sql_config)
      (calm_evidence ''e1'' 0 0) mem_empty))"
proof -
  obtain u s' where r: "sql_apply assess sample_env (\<lambda>_. []) 1 default_sql_config (\<lambda>_. True)
      (calm_evidence ''e1'' 0 0) sql_empty = (Inr u, s')"
    using sql_calm .
  have "active_campaign k sql_empty = None" for k by (simp add: active_campaign_def sql_empty_def)
  then show ?thesis
    using sql_refines_mem [OF refines_empty _ _ r] r by fastforce
qed

text \<open>Where evidence is both stale and beyond the merge gap the repositories part: the SQL
  repository reports it stale and keeps its active campaign, the in-memory repository replaces
  the campaign by a new one.\<close>

theorem stale_gap_diverges:
  assumes "active_campaign (scope_id ev, asset_id ev) s = Some r"
    and "ms_campaigns m (scope_id ev, asset_id ev) = Some (campaign_of_row r)"
    and "sq_evidence s (ce2_event_id ev) = None" "ce2_event_id ev \<notin> ms_evidence_ids m"
    and "is_stale r ev" "gap_elapsed (campaign_config.truncate cfg) ev r"
    and "fst (acquire_lock cfg answers)" "assess st_normal (ce2_fusion ev) = Inr a"
  shows "(\<exists>u s'. sql_apply assess env dump now cfg answers ev s = (Inr u, s') \<and> cu_stale_evidence u \<and>
      active_campaign (scope_id ev, asset_id ev) s' = Some r) \<and>
    ms_campaigns (snd (mem_apply assess env now (campaign_config.truncate cfg) ev m)) (scope_id ev, asset_id ev)
       = Some (new_campaign env ev a)"
proof
  show "\<exists>u s'. sql_apply assess env dump now cfg answers ev s = (Inr u, s') \<and> cu_stale_evidence u \<and>
      active_campaign (scope_id ev, asset_id ev) s' = Some r"
    using assms by (simp add: sql_apply_def sql_body_def) (simp add: active_campaign_def)
  have "mem_apply assess env now (campaign_config.truncate cfg) ev m =
      mem_commit env now (campaign_config.truncate cfg) ev None a (claim ev m)"
    using assms by (simp add: mem_apply_def live_campaign_def current_stage_def claim_def)
  then show "ms_campaigns (snd (mem_apply assess env now (campaign_config.truncate cfg) ev m)) (scope_id ev, asset_id ev)
       = Some (new_campaign env ev a)"
    by (simp add: frame_simps committed_def)
qed

theorem stale_gap_diverges_witness:
  "let e1 = calm_evidence ''e1'' 0 (seconds 60); e2 = calm_evidence ''e2'' (seconds 2000) (seconds 30);
       a = (case assess st_normal (ce2_fusion e1) of Inr a \<Rightarrow> a);
       r = campaign_columns (new_campaign sample_env e1 a) (ca_rule_version a) None;
       s = sql_empty\<lparr>sq_campaigns := [r]\<rparr>;
       m = mem_empty\<lparr>ms_campaigns := [(''LIVE'', ''ACME'') \<mapsto> campaign_of_row r]\<rparr>
   in \<exists>u s' c. sql_apply assess sample_env (\<lambda>_. []) 1 default_sql_config (\<lambda>_. True) e2 s = (Inr u, s') \<and>
     cu_stale_evidence u \<and> active_campaign (''LIVE'', ''ACME'') s' = Some r \<and>
     ms_campaigns (snd (mem_apply assess sample_env 1 (campaign_config.truncate default_sql_config) e2 m))
       (''LIVE'', ''ACME'') = Some c \<and> cr_first_evidence_at c = seconds 2000"
proof -
  let ?e1 = "calm_evidence ''e1'' 0 (seconds 60)" and ?e2 = "calm_evidence ''e2'' (seconds 2000) (seconds 30)"
  define a where "a = (case assess st_normal (ce2_fusion ?e1) of Inr a \<Rightarrow> a)"
  define r where "r = campaign_columns (new_campaign sample_env ?e1 a) (ca_rule_version a) None"
  obtain b where b: "assess st_normal (ce2_fusion ?e2) = Inr b"
    using assess_valid_ok [of "ce2_fusion ?e2" st_normal] by (auto simp: is_ok_iff)
  have "active_row (''LIVE'', ''ACME'') r"
    by (simp add: r_def active_row_key row_key_def new_campaign_def)
  then have act: "active_campaign (scope_id ?e2, asset_id ?e2) (sql_empty\<lparr>sq_campaigns := [r]\<rparr>) = Some r"
    by (simp add: active_campaign_def)
  have "is_stale (new_campaign sample_env ?e1 a) ?e2"
    by (simp add: is_stale_def applied_order_def evaluation_order_def new_campaign_def evidence_cutoff_def)
  then have stale: "is_stale r ?e2"
    using stale_of_row [of r ?e2] by (simp add: r_def)
  have "gap_elapsed (campaign_config.truncate default_sql_config) ?e2 (new_campaign sample_env ?e1 a)"
    by (simp add: gap_elapsed_def new_campaign_def default_sql_config_def campaign_config.defs seconds_def)
  then have gap: "gap_elapsed (campaign_config.truncate default_sql_config) ?e2 r"
    using gap_of_row [of "campaign_config.truncate default_sql_config" ?e2 r] by (simp add: r_def)
  have lock: "fst (acquire_lock default_sql_config (\<lambda>_. True))"
    by (simp add: acquire_lock_def)
  have "cr_first_evidence_at (new_campaign sample_env ?e2 b) = seconds 2000"
    by (simp add: new_campaign_def)
  then show ?thesis
    using stale_gap_diverges [OF act _ _ _ stale gap lock b, of "mem_empty\<lparr>ms_campaigns := [(''LIVE'', ''ACME'') \<mapsto> campaign_of_row r]\<rparr>"
        sample_env "\<lambda>_. []" 1]
    unfolding Let_def a_def [symmetric] r_def [symmetric]
    by (fastforce simp: sql_empty_def mem_empty_def)
qed

text \<open>Redelivery to the tables: evidence that an earlier delivery of the run recorded is
  answered as a duplicate of its campaign whenever the lock is taken, without an exception and
  without a change.\<close>

theorem sql_redelivery:
  assumes "ce2_event_id ev \<in> dom (sq_evidence (sql_run assess env dump cfg ds sql_empty))"
    and "fst (acquire_lock cfg answers)"
  shows "\<exists>u. sql_apply assess env dump now cfg answers ev (sql_run assess env dump cfg ds sql_empty)
      = (Inr u, sql_run assess env dump cfg ds sql_empty) \<and>
    cu_duplicate_evidence u \<and> cu_emitted_event_ids u = []"
proof -
  let ?s = "sql_run assess env dump cfg ds sql_empty"
  obtain e where e: "sq_evidence ?s (ce2_event_id ev) = Some e" using assms(1) by blast
  have "er_campaign_id e \<in> cr_campaign_id ` set (sq_campaigns ?s)"
    by (rule wf_sqlD(3) [OF rules.sql_run_wf [OF wf_empty] e])
  then obtain r where "campaign_by_id (er_campaign_id e) ?s = Some r"
    unfolding campaign_by_id_def by (cases "List.find (\<lambda>r. cr_campaign_id r = er_campaign_id e) (sq_campaigns ?s)")
      (auto simp: find_None_iff)
  then show ?thesis
    using e assms(2) by (simp add: sql_apply_def sql_body_def campaign_update_of_def)
qed

theorem sql_redelivery_witness:
  "let ev = calm_evidence ''e1'' 0 0;
       s = sql_run assess sample_env (\<lambda>_. []) default_sql_config [\<lparr>dl_now = 1, dl_answers = (\<lambda>_. True), dl_evidence = ev\<rparr>] sql_empty
   in \<exists>u. sql_apply assess sample_env (\<lambda>_. []) 2 default_sql_config (\<lambda>_. True) ev s = (Inr u, s) \<and> cu_duplicate_evidence u"
proof -
  let ?ev = "calm_evidence ''e1'' 0 0"
  let ?ds = "[\<lparr>dl_now = 1, dl_answers = (\<lambda>_. True), dl_evidence = ?ev\<rparr>]"
  obtain u s' where r: "sql_apply assess sample_env (\<lambda>_. []) 1 default_sql_config (\<lambda>_. True) ?ev sql_empty = (Inr u, s')"
    using sql_calm .
  then have "sql_body assess sample_env (\<lambda>_. []) 1 default_sql_config ?ev sql_empty = Inr (u, s')"
    by (auto simp: sql_apply_def split: if_splits sum.splits)
  then have "ce2_event_id ?ev \<in> dom (sq_evidence (sql_run assess sample_env (\<lambda>_. []) default_sql_config ?ds sql_empty))"
    using rules.sql_body_wf [OF wf_empty] r by simp
  moreover have "fst (acquire_lock default_sql_config (\<lambda>_. True))" by (simp add: acquire_lock_def)
  ultimately show ?thesis unfolding Let_def using sql_redelivery by blast
qed

text \<open>Without the lock nothing happens: the delivery raises a timeout exactly when none of the
  first \<open>lock_retry_count + 1\<close> attempts is answered, the tables are unchanged then, and the pauses
  are at most \<open>lock_retry_count\<close> many and grow linearly with the attempt.\<close>

theorem sql_lock_timeout:
  "(if \<exists>i \<le> cc_lock_retry_count cfg. answers i then fst (acquire_lock cfg answers)
    else (\<exists>msg. sql_apply machine env dump now cfg answers ev s = (Inl (TimeoutError msg), s))) \<and>
   length (snd (acquire_lock cfg answers)) \<le> cc_lock_retry_count cfg \<and>
   set (snd (acquire_lock cfg answers)) \<subseteq>
     (\<lambda>i. cc_lock_retry_backoff cfg * real (Suc i)) ` {i. i < cc_lock_retry_count cfg \<and> \<not> answers i}"
proof -
  have "fst (acquire_lock cfg answers) \<longleftrightarrow> (\<exists>i \<le> cc_lock_retry_count cfg. answers i)"
    by (auto simp: acquire_lock_def lock_loop_acquired less_Suc_eq_le simp del: lock_loop.simps)
  moreover have "length (snd (acquire_lock cfg answers)) \<le> cc_lock_retry_count cfg"
    "set (snd (acquire_lock cfg answers)) \<subseteq>
     (\<lambda>i. cc_lock_retry_backoff cfg * real (Suc i)) ` {i. i < cc_lock_retry_count cfg \<and> \<not> answers i}"
    using lock_loop_pauses [of answers "cc_lock_retry_backoff cfg" 0 "cc_lock_retry_count cfg"]
    unfolding acquire_lock_def by (auto simp del: lock_loop.simps)
  ultimately show ?thesis by (simp add: sql_apply_def)
qed

end
