(* ===== verification/Feature_Compute.thy ===== *)
theory Feature_Compute
  imports Feature_Schema "HOL-Library.Product_Lexorder" "HOL-Library.List_Lexorder" "HOL-Library.Char_ord"
begin

text \<open>
  The features of one window (\<open>features/engine.py\<close>: \<open>_safe_float\<close>, \<open>_concentration\<close>,
  \<open>FeatureWindowEngine._compute_features\<close>, \<open>_raw_volume\<close>). The values of a signal are an
  untyped JSON dictionary, so that reading them can raise the type errors of the code.
\<close>

section \<open>Dynamically typed values\<close>

datatype py_value =
    PNone
  | PBool bool
  | PInt int
  | PFloat real
  | PStr string
  | PList "py_value list"
  | PDict "(string \<times> py_value) list"
  | PTime datetime

text \<open>\<open>bool(v)\<close>; a time stamp is always true.\<close>

definition truthy :: "py_value \<Rightarrow> bool" where
  "truthy v = (case v of PNone \<Rightarrow> False | PBool b \<Rightarrow> b | PInt i \<Rightarrow> i \<noteq> 0 | PFloat r \<Rightarrow> r \<noteq> 0
     | PStr s \<Rightarrow> s \<noteq> [] | PList xs \<Rightarrow> xs \<noteq> [] | PDict d \<Rightarrow> d \<noteq> [] | PTime _ \<Rightarrow> True)"

text \<open>Iterating over a value: strings yield their characters, dictionaries their keys.\<close>

definition py_iter :: "py_value \<Rightarrow> py_value list res" where
  "py_iter v = (case v of PList xs \<Rightarrow> Inr xs | PStr s \<Rightarrow> Inr (map (\<lambda>c. PStr [c]) s)
     | PDict d \<Rightarrow> Inr (map (\<lambda>(k, _). PStr k) d) | _ \<Rightarrow> Inl (TypeError ''object is not iterable''))"

text \<open>\<open>len(v)\<close>.\<close>

definition py_len :: "py_value \<Rightarrow> nat res" where
  "py_len v = (case v of PList xs \<Rightarrow> Inr (length xs) | PStr s \<Rightarrow> Inr (length s)
     | PDict d \<Rightarrow> Inr (length d) | _ \<Rightarrow> Inl (TypeError ''object has no len()''))"

text \<open>\<open>_safe_float\<close>: booleans are not numbers.\<close>

definition safe_float :: "py_value \<Rightarrow> real \<Rightarrow> real" where
  "safe_float v d = (case v of PInt i \<Rightarrow> real_of_int i | PFloat r \<Rightarrow> r | _ \<Rightarrow> d)"

section \<open>Signals\<close>

record feature_signal =
  sg_event_id :: string
  sg_scope_id :: string
  sg_asset_id :: string
  sg_event_time :: datetime
  sg_ingested_at :: datetime
  sg_kind :: signal_kind
  sg_source_domain :: source_domain
  sg_values :: "(string \<times> py_value) list"

definition value_or :: "feature_signal \<Rightarrow> string \<Rightarrow> py_value \<Rightarrow> py_value" where
  "value_or s k d = (case map_of (sg_values s) k of None \<Rightarrow> d | Some v \<Rightarrow> v)"

definition value_of :: "feature_signal \<Rightarrow> string \<Rightarrow> py_value" where
  "value_of s k = value_or s k PNone"

definition num_of :: "feature_signal \<Rightarrow> string \<Rightarrow> real" where
  "num_of s k = safe_float (value_of s k) 0"

definition of_kind :: "signal_kind \<Rightarrow> feature_signal list \<Rightarrow> feature_signal list" where
  "of_kind k es = filter (\<lambda>s. sg_kind s = k) es"

record source_state =
  so_active :: bool
  so_idle :: bool
  so_degraded :: bool

section \<open>Statistics\<close>

definition fmean :: "real list \<Rightarrow> real" where
  "fmean xs = sum_list xs / real (length xs)"

definition opt_mean :: "real list \<Rightarrow> real option" where
  "opt_mean xs = (if xs = [] then None else Some (fmean xs))"

definition pstdev :: "real list \<Rightarrow> real" where
  "pstdev xs = sqrt (fmean (map (\<lambda>x. (x - fmean xs)\<^sup>2) xs))"

text \<open>\<open>_concentration\<close>: the share of the most frequent value.\<close>

definition concentration :: "string list \<Rightarrow> real" where
  "concentration xs =
    (if xs = [] then 0 else real (Max (count_list xs ` set xs)) / real (length xs))"

section \<open>Market features\<close>

definition prices_of :: "feature_signal list \<Rightarrow> real list" where
  "prices_of es =
    (let trade_prices = map (\<lambda>s. num_of s ''price'') (of_kind sk_market_trade es)
     in if trade_prices = [] then map (\<lambda>s. num_of s ''close'') (of_kind sk_market_candle es)
        else trade_prices)"

definition price_return :: "real list \<Rightarrow> real" where
  "price_return prices = (if length prices > 1 \<and> hd prices \<noteq> 0 then last prices / hd prices - 1 else 0)"

fun returns_of :: "real list \<Rightarrow> real list" where
  "returns_of (p # q # ps) = (if p \<noteq> 0 then [q / p - 1] else []) @ returns_of (q # ps)"
| "returns_of ps = []"

definition volatility :: "real list \<Rightarrow> real" where
  "volatility prices = (let rs = returns_of prices in if length rs > 1 then pstdev rs else 0)"

definition raw_volume :: "feature_signal list \<Rightarrow> real" where
  "raw_volume es =
    (let trade_volume = (\<Sum>s\<leftarrow>of_kind sk_market_trade es.
           num_of s ''quantity'' * safe_float (value_of s ''price'') 1)
     in if trade_volume \<noteq> 0 then trade_volume
        else (\<Sum>s\<leftarrow>of_kind sk_market_candle es. num_of s ''volume''))"

definition relative_volume :: "feature_signal list \<Rightarrow> real list \<Rightarrow> real \<Rightarrow> real" where
  "relative_volume es trailing volume =
    (let given = filter (\<lambda>v. v > 0) (map (\<lambda>s. num_of s ''baseline_volume'') es);
         baseline = (if given \<noteq> [] then fmean given else if trailing \<noteq> [] then fmean trailing else volume)
     in if baseline \<noteq> 0 then volume / baseline else 0)"

definition side_quantity :: "string \<Rightarrow> feature_signal list \<Rightarrow> real" where
  "side_quantity side trades =
     (\<Sum>s\<leftarrow>filter (\<lambda>s. value_of s ''side'' = PStr side) trades. num_of s ''quantity'')"

definition pressure :: "feature_signal list \<Rightarrow> real" where
  "pressure trades =
    (let buys = side_quantity ''BUY'' trades; sells = side_quantity ''SELL'' trades
     in if buys + sells \<noteq> 0 then (buys - sells) / (buys + sells) else 0)"

section \<open>Social features\<close>

definition authors_of :: "feature_signal list \<Rightarrow> string list" where
  "authors_of social = concat (map (\<lambda>s. case value_of s ''author_id'' of PStr a \<Rightarrow> [a] | _ \<Rightarrow> []) social)"

fun urls_of :: "feature_signal list \<Rightarrow> string list res" where
  "urls_of [] = Inr []"
| "urls_of (s # ss) =
    (case py_iter (value_or s ''urls'' (PList [])) of
       Inl e \<Rightarrow> Inl e
     | Inr vs \<Rightarrow> (case urls_of ss of
         Inl e \<Rightarrow> Inl e
       | Inr us \<Rightarrow> Inr (concat (map (\<lambda>v. case v of PStr u \<Rightarrow> [u] | _ \<Rightarrow> []) vs) @ us)))"

definition repost_reply_count :: "feature_signal list \<Rightarrow> nat" where
  "repost_reply_count social =
     length (filter (\<lambda>s. truthy (value_of s ''repost_of'') \<or> truthy (value_of s ''reply_to'')) social)"

fun hashtag_count :: "feature_signal list \<Rightarrow> nat res" where
  "hashtag_count [] = Inr 0"
| "hashtag_count (s # ss) =
    (case py_len (value_or s ''hashtags'' (PList [])) of
       Inl e \<Rightarrow> Inl e
     | Inr h \<Rightarrow> (case py_len (value_or s ''cashtags'' (PList [])) of
         Inl e \<Rightarrow> Inl e
       | Inr c \<Rightarrow> (case hashtag_count ss of Inl e \<Rightarrow> Inl e | Inr n \<Rightarrow> Inr (h + c + n))))"

section \<open>Data quality\<close>

text \<open>\<open>int(x)\<close> of a float truncates towards zero.\<close>

definition py_int :: "real \<Rightarrow> int" where
  "py_int r = (if 0 \<le> r then floor r else ceiling r)"

definition source_gap_count :: "feature_signal list \<Rightarrow> int" where
  "source_gap_count quality =
    py_int (case map (\<lambda>s. num_of s ''source_gap_count'') quality of [] \<Rightarrow> 0 | x # xs \<Rightarrow> fold max xs x)"

definition quality_score :: "real list \<Rightarrow> nat \<Rightarrow> int \<Rightarrow> real" where
  "quality_score freshness degraded gaps =
     max 0 (1 - min 1 (sum_list freshness / 600) - 0.25 * real degraded - min 0.5 (real_of_int gaps * 0.1))"

definition earliest :: "datetime list \<Rightarrow> datetime" where
  "earliest ts = fold min (tl ts) (hd ts)"

definition latest_of :: "datetime list \<Rightarrow> datetime" where
  "latest_of ts = fold max (tl ts) (hd ts)"

definition missing_source :: source_state where
  "missing_source = \<lparr>so_active = False, so_idle = False, so_degraded = True\<rparr>"

definition of_flag :: "bool \<Rightarrow> real option" where
  "of_flag b = Some (if b then 1 else 0)"

text \<open>What the computation reads of the engine: the two source states, when each author was first
  seen, and the volumes and the number of the earlier windows of the same interval.\<close>

record feature_context =
  fx_market_state :: source_state
  fx_social_state :: source_state
  fx_author_first_seen :: "string \<Rightarrow> datetime option"
  fx_trailing_volumes :: "real list"
  fx_prior_window_count :: nat

definition new_author_count :: "feature_context \<Rightarrow> datetime \<Rightarrow> string list \<Rightarrow> nat" where
  "new_author_count fx window_start authors =
     length (filter (\<lambda>a. (case fx_author_first_seen fx a of None \<Rightarrow> window_start | Some t \<Rightarrow> t) \<ge> window_start)
       (remdups authors))"

definition compute_features ::
    "feature_context \<Rightarrow> datetime \<Rightarrow> datetime \<Rightarrow> feature_signal list \<Rightarrow> features res" where
  "compute_features fx window_start window_end es =
    (let trades = of_kind sk_market_trade es; candles = of_kind sk_market_candle es;
         books = of_kind sk_orderbook es;
         valid_books = filter (\<lambda>s. truthy (value_or s ''book_valid'' (PBool True))) books;
         social = of_kind sk_social_post es; mentions = of_kind sk_asset_mention es;
         quality = of_kind sk_data_quality es;
         prices = prices_of es; volume = raw_volume es;
         authors = authors_of social; n_authors = length (remdups authors);
         market_state = fx_market_state fx; social_state = fx_social_state fx;
         social_available = (so_active social_state \<and> \<not> so_degraded social_state);
         social_only = (\<lambda>v. if social_available then Some v else None);
         market_times = map sg_event_time (trades @ candles @ books);
         social_times = map sg_event_time (social @ mentions);
         span = total_seconds (window_end - window_start);
         market_freshness = (if market_times \<noteq> []
            then max 0 (total_seconds (window_end - latest_of market_times)) else span);
         social_freshness = (if social_times \<noteq> []
            then Some (max 0 (total_seconds (window_end - latest_of social_times))) else None);
         social_lead = (if market_times \<noteq> [] \<and> social_times \<noteq> []
            then Some (total_seconds (earliest market_times - earliest social_times)) else None);
         gaps = source_gap_count quality;
         degraded = length (filter so_degraded [market_state, social_state])
     in case urls_of social of
          Inl e \<Rightarrow> Inl e
        | Inr urls \<Rightarrow>
         (case hashtag_count social of
            Inl e \<Rightarrow> Inl e
          | Inr tags \<Rightarrow> Inr
      [(''price_return'', Some (price_return prices)),
       (''volume'', Some volume),
       (''relative_volume'', Some (relative_volume es (fx_trailing_volumes fx) volume)),
       (''volatility'', Some (volatility prices)),
       (''spread'', opt_mean (map (\<lambda>s. num_of s ''spread'') valid_books)),
       (''top_n_depth'', opt_mean (map (\<lambda>s. num_of s ''top_n_depth'') valid_books)),
       (''orderbook_imbalance'', opt_mean (map (\<lambda>s. num_of s ''imbalance'') valid_books)),
       (''orderbook_valid'', if books \<noteq> [] then of_flag (valid_books \<noteq> []) else None),
       (''trade_count'', Some (real (length trades))),
       (''buy_sell_pressure'', Some (pressure trades)),
       (''market_data_freshness_seconds'', Some market_freshness),
       (''market_source_active'', of_flag (so_active market_state)),
       (''market_source_idle'', of_flag (so_idle market_state)),
       (''market_source_degraded'', of_flag (so_degraded market_state)),
       (''mention_count'', social_only (real (length mentions))),
       (''unique_author_count'', social_only (real n_authors)),
       (''author_concentration'', social_only (concentration authors)),
       (''repost_reply_ratio'', social_only (if social \<noteq> []
          then real (repost_reply_count social) / real (length social) else 0)),
       (''hashtag_velocity'', social_only (real tags / max 1 (span / 60))),
       (''url_concentration'', social_only (concentration urls)),
       (''new_author_ratio'', social_only (if authors \<noteq> []
          then real (new_author_count fx window_start authors) / real n_authors else 0)),
       (''social_data_freshness_seconds'', social_freshness),
       (''social_source_active'', of_flag (so_active social_state)),
       (''social_source_idle'', of_flag (so_idle social_state)),
       (''social_source_degraded'', of_flag (so_degraded social_state)),
       (''social_lead_seconds'', social_lead),
       (''source_gap_count'', Some (real_of_int gaps)),
       (''data_quality_score'', Some (quality_score
          (market_freshness # (case social_freshness of None \<Rightarrow> [] | Some f \<Rightarrow> [f])) degraded gaps)),
       (''baseline_confidence'', Some (min 1 (real (fx_prior_window_count fx) / 20)))]))"

text \<open>The dictionary is built in the order of the registered names.\<close>

lemma compute_features_keys:
  "compute_features fx s e es = Inr fs \<Longrightarrow> map fst fs = FEATURE_NAMES"
  by (auto simp: compute_features_def Let_def FEATURE_NAMES_def split: sum.splits)

end
