(* ===== verification/Domain.thy ===== *)
theory Domain
  imports Feature_Compute Events "HOL-Library.AList"
begin

text \<open>
  The domain records (\<open>schemas/domain.py\<close>) that the ingestion services and the feature pipeline
  exchange, and the in-memory state store and publisher (\<open>state.py\<close>, \<open>streaming/publisher.py\<close>).
  The dedupe interface is a locale; the in-memory store provides it.
\<close>

section \<open>Market data\<close>

record market_trade =
  mt_trade_id :: string
  mt_asset_id :: string
  mt_event_time :: datetime
  mt_price :: real
  mt_quantity :: real
  mt_side :: "string option"
  mt_source :: string

record market_candle =
  mc_candle_id :: string
  mc_asset_id :: string
  mc_event_time :: datetime
  mc_interval_seconds :: int
  mc_open :: real
  mc_high :: real
  mc_low :: real
  mc_close :: real
  mc_volume :: real
  mc_source :: string

record order_book_update =
  ob_update_id :: string
  ob_asset_id :: string
  ob_event_time :: datetime
  ob_best_bid :: "real option"
  ob_best_ask :: "real option"
  ob_spread :: "real option"
  ob_top_bid_depth :: "real option"
  ob_top_ask_depth :: "real option"
  ob_bids :: "(real \<times> real) list"
  ob_asks :: "(real \<times> real) list"
  ob_source :: string

datatype market_datum = Trade market_trade | Candle market_candle | Book order_book_update

definition datum_asset :: "market_datum \<Rightarrow> string" where
  "datum_asset d = (case d of Trade t \<Rightarrow> mt_asset_id t | Candle c \<Rightarrow> mc_asset_id c | Book b \<Rightarrow> ob_asset_id b)"

definition datum_time :: "market_datum \<Rightarrow> datetime" where
  "datum_time d = (case d of Trade t \<Rightarrow> mt_event_time t | Candle c \<Rightarrow> mc_event_time c
     | Book b \<Rightarrow> ob_event_time b)"

section \<open>Social data\<close>

record social_post =
  sp_post_id :: string
  sp_platform :: string
  sp_author_id :: string
  sp_pseudonym_key_version :: int
  sp_event_time :: datetime
  sp_text :: string
  sp_language :: "string option"
  sp_hashtags :: "string list"
  sp_cashtags :: "string list"
  sp_user_mentions :: "string list"
  sp_urls :: "string list"
  sp_reply_to :: "string option"
  sp_repost_of :: "string option"
  sp_engagement :: "(string \<times> py_value) list"
  sp_source_metadata :: "(string \<times> py_value) list"

record asset_mention =
  am_post_id :: string
  am_asset_id :: "string option"
  am_mention_text :: string
  am_start_offset :: int
  am_end_offset :: int
  am_confidence :: real
  am_resolver_version :: string
  am_resolution_status :: string
  am_candidate_asset_ids :: "string list"
  am_resolution_reason :: string

section \<open>Optional values\<close>

definition opt_str :: "string option \<Rightarrow> py_value" where
  "opt_str v = (case v of None \<Rightarrow> PNone | Some s \<Rightarrow> PStr s)"

definition opt_float :: "real option \<Rightarrow> py_value" where
  "opt_float v = (case v of None \<Rightarrow> PNone | Some r \<Rightarrow> PFloat r)"

definition opt_int :: "int option \<Rightarrow> py_value" where
  "opt_int v = (case v of None \<Rightarrow> PNone | Some i \<Rightarrow> PInt i)"

definition opt_time :: "datetime option \<Rightarrow> py_value" where
  "opt_time v = (case v of None \<Rightarrow> PNone | Some t \<Rightarrow> PTime t)"

definition str_list :: "string list \<Rightarrow> py_value" where
  "str_list xs = PList (map PStr xs)"

text \<open>\<open>x or y\<close> on optional numbers: zero counts as missing.\<close>

definition or_num :: "real option \<Rightarrow> real \<Rightarrow> real" where
  "or_num x y = (case x of None \<Rightarrow> y | Some v \<Rightarrow> if v = 0 then y else v)"

text \<open>\<open>event.replay.replay_session_id or "LIVE"\<close>.\<close>

definition scope_of_replay :: "replay_metadata \<Rightarrow> string" where
  "scope_of_replay r = (case rm_replay_session_id r of
     Some s \<Rightarrow> if s = [] then ''LIVE'' else s | None \<Rightarrow> ''LIVE'')"

section \<open>The in-memory state store\<close>

record state_store =
  ss_claimed :: "string set"
  ss_values :: "string \<rightharpoonup> py_value"

definition store_empty :: state_store where
  "store_empty = \<lparr>ss_claimed = {}, ss_values = Map.empty\<rparr>"

definition store_claim :: "string \<Rightarrow> state_store \<Rightarrow> bool \<times> state_store" where
  "store_claim k st = (if k \<in> ss_claimed st then (False, st)
     else (True, st\<lparr>ss_claimed := insert k (ss_claimed st)\<rparr>))"

definition store_release :: "string \<Rightarrow> state_store \<Rightarrow> state_store" where
  "store_release k st = st\<lparr>ss_claimed := ss_claimed st - {k}\<rparr>"

definition set_json :: "string \<Rightarrow> py_value \<Rightarrow> state_store \<Rightarrow> state_store" where
  "set_json k v st = st\<lparr>ss_values := (ss_values st)(k \<mapsto> v)\<rparr>"

definition get_json :: "string \<Rightarrow> state_store \<Rightarrow> py_value option" where
  "get_json k st = ss_values st k"

section \<open>The dedupe interface\<close>

text \<open>What the ingestion services rely on: \<open>held\<close> is the set of claimed keys; a claim succeeds
  exactly for a key that is not held, and a release gives exactly that key back.\<close>

locale dedupe_store =
  fixes held :: "'s \<Rightarrow> string set"
    and claim :: "string \<Rightarrow> 's \<Rightarrow> bool \<times> 's"
    and release :: "string \<Rightarrow> 's \<Rightarrow> 's"
  assumes claim_answer: "fst (claim k s) \<longleftrightarrow> k \<notin> held s"
    and claim_held: "held (snd (claim k s)) = insert k (held s)"
    and claim_refused: "k \<in> held s \<Longrightarrow> snd (claim k s) = s"
    and release_held: "held (release k s) = held s - {k}"
begin

lemma claim_twice: "fst (claim k (snd (claim k s))) = False"
  by (simp add: claim_answer claim_held)

lemma claim_other: "j \<noteq> k \<Longrightarrow> fst (claim j (snd (claim k s))) = fst (claim j s)"
  by (simp add: claim_answer claim_held)

lemma claim_release: "fst (claim k (release k s))"
  by (simp add: claim_answer release_held)

lemma claim_cases:
  obtains "k \<in> held s" "claim k s = (False, s)"
  | "k \<notin> held s" "claim k s = (True, snd (claim k s))"
proof (cases "k \<in> held s")
  case True
  then have "fst (claim k s) = False" "snd (claim k s) = s" by (simp_all add: claim_answer claim_refused)
  with that(1) True show ?thesis by (metis prod.collapse)
next
  case False
  then have "fst (claim k s) = True" by (simp add: claim_answer)
  with that(2) False show ?thesis by (metis prod.collapse)
qed

end

interpretation state_dedupe: dedupe_store ss_claimed store_claim store_release
  by unfold_locales (auto simp: store_claim_def store_release_def)

lemma set_json_frame [simp]: "ss_claimed (set_json k v st) = ss_claimed st"
  by (simp add: set_json_def)

lemma get_set_json [simp]: "get_json j (set_json k v st) = (if j = k then Some v else get_json j st)"
  by (simp add: get_json_def set_json_def)

lemma get_json_claims [simp]:
  "get_json j (snd (store_claim k st)) = get_json j st" "get_json j (store_release k st) = get_json j st"
  by (simp_all add: get_json_def store_claim_def store_release_def)

section \<open>The in-memory publisher\<close>

type_synonym 'p publisher = "(string \<times> 'p canonical_event) list"

definition publish_batch :: "(string \<times> 'p canonical_event) list \<Rightarrow> 'p publisher \<Rightarrow> 'p publisher" where
  "publish_batch batch pub = pub @ batch"

definition publish_one :: "string \<Rightarrow> 'p canonical_event \<Rightarrow> 'p publisher \<Rightarrow> 'p publisher" where
  "publish_one topic e pub = pub @ [(topic, e)]"

end
