(* ===== verification/Source_Quality.thy ===== *)
theory Source_Quality
  imports Domain
begin

text \<open>
  The source quality tracker (\<open>ingestion/quality.py\<close>): per source and asset, the sequence gaps,
  the out-of-order counts, the state machine of the order book and the health flags.
\<close>

datatype book_state = bk_valid | bk_stale | bk_gap_detected | bk_resyncing | bk_recovered

definition book_state_value :: "book_state \<Rightarrow> string" where
  "book_state_value b = (case b of bk_valid \<Rightarrow> ''VALID'' | bk_stale \<Rightarrow> ''STALE''
     | bk_gap_detected \<Rightarrow> ''GAP_DETECTED'' | bk_resyncing \<Rightarrow> ''RESYNCING'' | bk_recovered \<Rightarrow> ''RECOVERED'')"

record source_quality =
  ql_source :: string
  ql_asset_id :: string
  ql_last_event_time :: "datetime option"
  ql_last_ingested_at :: "datetime option"
  ql_last_sequence :: "int option"
  ql_sequence_gap_count :: int
  ql_out_of_order_count :: int
  ql_status :: string
  ql_source_active :: bool
  ql_source_idle :: bool
  ql_source_degraded :: bool
  ql_orderbook_state :: book_state
  ql_book_valid :: bool
  ql_recovery_updates :: int

definition fresh_quality :: "string \<Rightarrow> string \<Rightarrow> source_quality" where
  "fresh_quality source asset = \<lparr>ql_source = source, ql_asset_id = asset, ql_last_event_time = None,
     ql_last_ingested_at = None, ql_last_sequence = None, ql_sequence_gap_count = 0,
     ql_out_of_order_count = 0, ql_status = ''STARTING'', ql_source_active = False,
     ql_source_idle = False, ql_source_degraded = False, ql_orderbook_state = bk_valid,
     ql_book_valid = True, ql_recovery_updates = 0\<rparr>"

definition quality_dict :: "source_quality \<Rightarrow> py_value" where
  "quality_dict q = PDict
    [(''source'', PStr (ql_source q)), (''asset_id'', PStr (ql_asset_id q)),
     (''last_event_time'', opt_time (ql_last_event_time q)),
     (''last_ingested_at'', opt_time (ql_last_ingested_at q)),
     (''last_sequence'', opt_int (ql_last_sequence q)),
     (''sequence_gap_count'', PInt (ql_sequence_gap_count q)),
     (''out_of_order_count'', PInt (ql_out_of_order_count q)), (''status'', PStr (ql_status q)),
     (''source_active'', PBool (ql_source_active q)), (''source_idle'', PBool (ql_source_idle q)),
     (''source_degraded'', PBool (ql_source_degraded q)),
     (''orderbook_state'', PStr (book_state_value (ql_orderbook_state q))),
     (''book_valid'', PBool (ql_book_valid q)),
     (''recovery_updates'', PInt (ql_recovery_updates q))]"

section \<open>One observation\<close>

record observation =
  os_source :: string
  os_asset_id :: string
  os_event_time :: datetime
  os_ingested_at :: datetime
  os_sequence :: "int option"
  os_is_orderbook :: bool

text \<open>\<open>gap_detected\<close> and the two counters.\<close>

definition sequence_gap :: "int option \<Rightarrow> int option \<Rightarrow> bool" where
  "sequence_gap seen new = (case (new, seen) of
     (Some s, Some l) \<Rightarrow> s > l + 1 \<or> s \<le> l | _ \<Rightarrow> False)"

definition count_sequence :: "int option \<Rightarrow> source_quality \<Rightarrow> source_quality" where
  "count_sequence new q = (case (new, ql_last_sequence q) of
     (Some s, Some l) \<Rightarrow>
       if s > l + 1 then q\<lparr>ql_sequence_gap_count := ql_sequence_gap_count q + (s - l - 1)\<rparr>
       else if s \<le> l then q\<lparr>ql_out_of_order_count := ql_out_of_order_count q + 1\<rparr> else q
   | _ \<Rightarrow> q)"

text \<open>\<open>max(sequence, last_sequence or sequence)\<close>: a last sequence of zero counts as missing.\<close>

definition next_sequence :: "int option \<Rightarrow> int option \<Rightarrow> int option" where
  "next_sequence seen new = (case new of None \<Rightarrow> seen
     | Some s \<Rightarrow> Some (max s (case seen of None \<Rightarrow> s | Some l \<Rightarrow> if l = 0 then s else l)))"

definition advance_book :: "bool \<Rightarrow> bool \<Rightarrow> source_quality \<Rightarrow> source_quality" where
  "advance_book stale gap q =
    (let b = ql_orderbook_state q;
         q1 = (if stale then q\<lparr>ql_orderbook_state := bk_stale, ql_recovery_updates := 0\<rparr>
               else if gap then q\<lparr>ql_orderbook_state := bk_gap_detected, ql_recovery_updates := 0\<rparr>
               else if b \<in> {bk_gap_detected, bk_stale}
               then q\<lparr>ql_orderbook_state := bk_resyncing, ql_recovery_updates := 1\<rparr>
               else if b = bk_resyncing
               then q\<lparr>ql_orderbook_state := bk_recovered, ql_recovery_updates := ql_recovery_updates q + 1\<rparr>
               else if b = bk_recovered then q\<lparr>ql_orderbook_state := bk_valid\<rparr> else q)
     in q1\<lparr>ql_book_valid := (ql_orderbook_state q1 \<in> {bk_valid, bk_recovered})\<rparr>)"

text \<open>The age of an observation in seconds, and whether it exceeds the threshold.\<close>

definition too_old :: "int \<Rightarrow> observation \<Rightarrow> bool" where
  "too_old threshold obs = (max 0 (total_seconds (os_ingested_at obs - os_event_time obs)) > real_of_int threshold)"

definition observe_state :: "int \<Rightarrow> observation \<Rightarrow> source_quality \<Rightarrow> source_quality" where
  "observe_state threshold obs q =
    (let gap = sequence_gap (ql_last_sequence q) (os_sequence obs);
         old = too_old threshold obs;
         q1 = (count_sequence (os_sequence obs) q)\<lparr>
                ql_last_sequence := next_sequence (ql_last_sequence q) (os_sequence obs),
                ql_last_event_time := Some (max (os_event_time obs)
                  (case ql_last_event_time q of None \<Rightarrow> os_event_time obs | Some t \<Rightarrow> t)),
                ql_last_ingested_at := Some (os_ingested_at obs),
                ql_source_active := True, ql_source_idle := False\<rparr>;
         q2 = (if os_is_orderbook obs then advance_book old gap q1 else q1);
         degraded = (old \<or> gap \<or> (os_is_orderbook obs \<and> \<not> ql_book_valid q2))
     in q2\<lparr>ql_source_degraded := degraded, ql_status := (if degraded then ''DEGRADED'' else ''HEALTHY'')\<rparr>)"

section \<open>The tracker\<close>

type_synonym tracker = "(string \<times> string) \<rightharpoonup> source_quality"

definition state_at :: "string \<times> string \<Rightarrow> tracker \<Rightarrow> source_quality" where
  "state_at k t = (case t k of None \<Rightarrow> fresh_quality (fst k) (snd k) | Some q \<Rightarrow> q)"

definition observe :: "int \<Rightarrow> observation \<Rightarrow> tracker \<Rightarrow> source_quality \<times> tracker" where
  "observe threshold obs t =
    (let k = (os_source obs, os_asset_id obs); q = observe_state threshold obs (state_at k t)
     in (q, t(k \<mapsto> q)))"

definition mark_idle :: "string \<Rightarrow> string \<Rightarrow> tracker \<Rightarrow> source_quality \<times> tracker" where
  "mark_idle source asset t =
    (let q = (state_at (source, asset) t)\<lparr>ql_source_active := True, ql_source_idle := True,
           ql_source_degraded := False, ql_status := ''IDLE''\<rparr>
     in (q, t((source, asset) \<mapsto> q)))"

fun observe_all :: "int \<Rightarrow> observation list \<Rightarrow> tracker \<Rightarrow> tracker" where
  "observe_all threshold [] t = t"
| "observe_all threshold (obs # os) t = observe_all threshold os (snd (observe threshold obs t))"

end
