(* ===== verification/Source_Quality_Correct.thy ===== *)
theory Source_Quality_Correct
  imports Source_Quality
begin

text \<open>
  Properties of the source quality tracker: the order-book state as a function of the history, and
  what the two counters count.
\<close>

definition obs_key :: "observation \<Rightarrow> string \<times> string" where
  "obs_key obs = (os_source obs, os_asset_id obs)"

definition history :: "string \<times> string \<Rightarrow> observation list \<Rightarrow> observation list" where
  "history k os = filter (\<lambda>obs. obs_key obs = k) os"

text \<open>A tracker entry evolves by the observations of its own key only.\<close>

lemma state_at_observe:
  "state_at k (snd (observe th obs t)) =
    (if obs_key obs = k then observe_state th obs (state_at k t) else state_at k t)"
  by (auto simp: observe_def state_at_def obs_key_def Let_def)

lemma state_at_observe_all:
  "state_at k (observe_all th os t) = fold (observe_state th) (history k os) (state_at k t)"
  by (induction os arbitrary: t) (auto simp: state_at_observe history_def)

lemma state_at_empty [simp]: "state_at k Map.empty = fresh_quality (fst k) (snd k)"
  by (simp add: state_at_def)

section \<open>Fields of one step\<close>

lemma count_sequence_fields [simp]:
  "ql_last_sequence (count_sequence s q) = ql_last_sequence q"
  "ql_orderbook_state (count_sequence s q) = ql_orderbook_state q"
  "ql_book_valid (count_sequence s q) = ql_book_valid q"
  by (auto simp: count_sequence_def split: option.splits)

lemma advance_book_fields [simp]:
  "ql_last_sequence (advance_book a b q) = ql_last_sequence q"
  "ql_sequence_gap_count (advance_book a b q) = ql_sequence_gap_count q"
  "ql_out_of_order_count (advance_book a b q) = ql_out_of_order_count q"
  by (auto simp: advance_book_def Let_def)

lemma observe_sequence [simp]:
  "ql_last_sequence (observe_state th obs q) = next_sequence (ql_last_sequence q) (os_sequence obs)"
  by (auto simp: observe_state_def Let_def)

lemma observe_counts [simp]:
  "ql_sequence_gap_count (observe_state th obs q) = ql_sequence_gap_count (count_sequence (os_sequence obs) q)"
  "ql_out_of_order_count (observe_state th obs q) = ql_out_of_order_count (count_sequence (os_sequence obs) q)"
  by (auto simp: observe_state_def Let_def)

section \<open>The order book\<close>

definition clean :: "int \<Rightarrow> int option \<Rightarrow> observation \<Rightarrow> bool" where
  "clean th seen obs \<longleftrightarrow> \<not> too_old th obs \<and> \<not> sequence_gap seen (os_sequence obs)"

text \<open>The verdict on every order-book observation of a history, oldest first.\<close>

fun book_verdicts :: "int \<Rightarrow> int option \<Rightarrow> observation list \<Rightarrow> bool list" where
  "book_verdicts th seen [] = []"
| "book_verdicts th seen (obs # os) =
     (if os_is_orderbook obs then [clean th seen obs] else []) @
     book_verdicts th (next_sequence seen (os_sequence obs)) os"

definition clean_tail :: "bool list \<Rightarrow> nat" where
  "clean_tail vs = length (takeWhile id (rev vs))"

definition book_after :: "bool list \<Rightarrow> book_state \<Rightarrow> bool" where
  "book_after vs b \<longleftrightarrow>
    (if list_all id vs then b = bk_valid
     else if clean_tail vs = 0 then b = bk_stale \<or> b = bk_gap_detected
     else if clean_tail vs = 1 then b = bk_resyncing
     else if clean_tail vs = 2 then b = bk_recovered else b = bk_valid)"

lemma clean_tail_snoc [simp]: "clean_tail (vs @ [v]) = (if v then Suc (clean_tail vs) else 0)"
  by (simp add: clean_tail_def)

lemma observe_no_book:
  "\<not> os_is_orderbook obs \<Longrightarrow> ql_orderbook_state (observe_state th obs q) = ql_orderbook_state q"
  "\<not> os_is_orderbook obs \<Longrightarrow> ql_book_valid (observe_state th obs q) = ql_book_valid q"
  by (simp_all add: observe_state_def Let_def)

definition book_step :: "bool \<Rightarrow> bool \<Rightarrow> book_state \<Rightarrow> book_state" where
  "book_step stale gap b =
    (if stale then bk_stale else if gap then bk_gap_detected
     else case b of bk_gap_detected \<Rightarrow> bk_resyncing | bk_stale \<Rightarrow> bk_resyncing
       | bk_resyncing \<Rightarrow> bk_recovered | bk_recovered \<Rightarrow> bk_valid | bk_valid \<Rightarrow> bk_valid)"

lemma advance_book_step:
  "ql_orderbook_state (advance_book stale gap q) = book_step stale gap (ql_orderbook_state q)"
  "ql_book_valid (advance_book stale gap q) =
     (book_step stale gap (ql_orderbook_state q) \<in> {bk_valid, bk_recovered})"
  by (cases "ql_orderbook_state q"; simp add: advance_book_def book_step_def Let_def)+

lemma observe_book:
  assumes "os_is_orderbook obs"
  shows "ql_orderbook_state (observe_state th obs q) =
      book_step (too_old th obs) (sequence_gap (ql_last_sequence q) (os_sequence obs)) (ql_orderbook_state q)"
    and "ql_book_valid (observe_state th obs q) \<longleftrightarrow>
      ql_orderbook_state (observe_state th obs q) \<in> {bk_valid, bk_recovered}"
  using assms by (simp_all add: observe_state_def Let_def advance_book_step)

lemma book_after_step:
  assumes "book_after vs b"
  shows "book_after (vs @ [\<not> stale \<and> \<not> gap]) (book_step stale gap b)"
proof (cases "stale \<or> gap")
  case True
  then show ?thesis by (auto simp: book_after_def book_step_def)
next
  case False
  with assms show ?thesis
    by (auto simp: book_after_def book_step_def split: if_splits book_state.splits)
qed

lemma book_fold:
  assumes "book_after vs (ql_orderbook_state q)"
    and "ql_book_valid q \<longleftrightarrow> ql_orderbook_state q \<in> {bk_valid, bk_recovered}"
  shows "let q' = fold (observe_state th) os q
    in book_after (vs @ book_verdicts th (ql_last_sequence q) os) (ql_orderbook_state q') \<and>
       (ql_book_valid q' \<longleftrightarrow> ql_orderbook_state q' \<in> {bk_valid, bk_recovered})"
  using assms
proof (induction os arbitrary: vs q)
  case Nil
  then show ?case by simp
next
  case (Cons obs os)
  show ?case
  proof (cases "os_is_orderbook obs")
    case True
    have "book_after (vs @ [clean th (ql_last_sequence q) obs]) (ql_orderbook_state (observe_state th obs q))"
      unfolding clean_def observe_book(1) [OF True] by (rule book_after_step [OF Cons.prems(1)])
    from Cons.IH [OF this observe_book(2) [OF True]] True show ?thesis by simp
  next
    case False
    with Cons.prems Cons.IH [of vs "observe_state th obs q"] show ?thesis by (simp add: observe_no_book)
  qed
qed

section \<open>Properties\<close>

text \<open>The order book of a source and asset is trusted exactly when it never saw a stale or
  out-of-sequence update or at least two clean updates followed the last one; the state of the
  machine is the number of clean updates since then. Observations of other sources or assets
  have no influence.\<close>

theorem book_state_exact:
  "let q = state_at k (observe_all th os Map.empty); vs = book_verdicts th None (history k os)
   in book_after vs (ql_orderbook_state q) \<and>
      ql_book_valid q = (if list_all id vs then True else 2 \<le> clean_tail vs)"
proof -
  let ?q = "state_at k (observe_all th os Map.empty)" and ?vs = "book_verdicts th None (history k os)"
  have "book_after [] (ql_orderbook_state (fresh_quality (fst k) (snd k)))"
    "ql_last_sequence (fresh_quality (fst k) (snd k)) = None"
    "ql_book_valid (fresh_quality (fst k) (snd k)) \<longleftrightarrow>
       ql_orderbook_state (fresh_quality (fst k) (snd k)) \<in> {bk_valid, bk_recovered}"
    by (simp_all add: fresh_quality_def book_after_def)
  with book_fold [of "[]" "fresh_quality (fst k) (snd k)" th "history k os"]
  have b: "book_after ?vs (ql_orderbook_state ?q)"
    and v: "ql_book_valid ?q \<longleftrightarrow> ql_orderbook_state ?q \<in> {bk_valid, bk_recovered}"
    by (simp_all add: state_at_observe_all Let_def)
  from b have "ql_orderbook_state ?q \<in> {bk_valid, bk_recovered} \<longleftrightarrow>
      (if list_all id ?vs then True else 2 \<le> clean_tail ?vs)"
    by (auto simp: book_after_def split: if_splits)
  with b v show ?thesis by (simp add: Let_def)
qed

lemma next_sequence_max:
  assumes "0 \<le> s" "case seen of None \<Rightarrow> True | Some l \<Rightarrow> 0 \<le> l"
  shows "next_sequence seen (Some s) = Some (case seen of None \<Rightarrow> s | Some l \<Rightarrow> max s l)"
  using assms by (auto simp: next_sequence_def max_def split: option.splits)

definition sequences :: "observation list \<Rightarrow> int list" where
  "sequences os = concat (map (\<lambda>obs. case os_sequence obs of None \<Rightarrow> [] | Some s \<Rightarrow> [s]) os)"

lemma sequences_simps [simp]:
  "sequences [] = []"
  "sequences (obs # os) = (case os_sequence obs of None \<Rightarrow> [] | Some s \<Rightarrow> [s]) @ sequences os"
  by (simp_all add: sequences_def)

text \<open>What the two counters and the last sequence number say about the numbers seen so far.\<close>

definition counted :: "int list \<Rightarrow> source_quality \<Rightarrow> bool" where
  "counted ss q \<longleftrightarrow>
    (if ss = [] then ql_last_sequence q = None \<and> ql_sequence_gap_count q = 0 \<and> ql_out_of_order_count q = 0
     else ql_last_sequence q = Some (Max (set ss)) \<and>
       ql_sequence_gap_count q + int (length ss) = Max (set ss) - hd ss + 1 + ql_out_of_order_count q)"

lemma counted_step:
  assumes "counted ss q" "\<forall>s \<in> set ss. 0 \<le> s" "\<forall>s. os_sequence obs = Some s \<longrightarrow> 0 \<le> s"
  shows "counted (ss @ sequences [obs]) (observe_state th obs q)"
proof (cases "os_sequence obs")
  case None
  with assms(1) show ?thesis by (simp add: counted_def next_sequence_def count_sequence_def)
next
  case (Some s)
  then have s: "0 \<le> s" using assms(3) by simp
  show ?thesis
  proof (cases "ss = []")
    case True
    with assms(1) Some s show ?thesis
      by (simp add: counted_def next_sequence_max count_sequence_def)
  next
    case False
    obtain m where m: "m = Max (set ss)" by simp
    have l: "ql_last_sequence q = Some m" using assms(1) False by (simp add: counted_def m)
    have "0 \<le> m" using assms(2) False by (simp add: m)
    then have n: "next_sequence (Some m) (Some s) = Some (max s m)" using s by (simp add: next_sequence_max)
    have ins: "Max (set (ss @ sequences [obs])) = max s m" using False Some by (simp add: m)
    have h: "hd (ss @ sequences [obs]) = hd ss" "length (ss @ sequences [obs]) = length ss + 1"
      using False Some by simp_all
    have c: "ql_sequence_gap_count q + int (length ss) = m - hd ss + 1 + ql_out_of_order_count q"
      using assms(1) False by (simp add: counted_def m)
    have "ql_sequence_gap_count (observe_state th obs q) + int (length ss + 1) =
        max s m - hd ss + 1 + ql_out_of_order_count (observe_state th obs q)"
      using c Some by (auto simp: l count_sequence_def max_def)
    then show ?thesis
      using False Some unfolding counted_def ins h by (simp add: l n)
  qed
qed

lemma counted_fold:
  assumes "counted ss q" "\<forall>s \<in> set ss. 0 \<le> s" "\<forall>s \<in> set (sequences os). 0 \<le> s"
  shows "counted (ss @ sequences os) (fold (observe_state th) os q)"
  using assms
proof (induction os arbitrary: ss q)
  case (Cons obs os)
  have "counted (ss @ sequences [obs]) (observe_state th obs q)"
    using Cons.prems by (intro counted_step) (auto split: option.splits)
  moreover have "\<forall>s \<in> set (ss @ sequences [obs]). 0 \<le> s" using Cons.prems(2,3) by auto
  moreover have "\<forall>s \<in> set (sequences os). 0 \<le> s" using Cons.prems(3) by auto
  ultimately have "counted ((ss @ sequences [obs]) @ sequences os) (fold (observe_state th) os (observe_state th obs q))"
    by (rule Cons.IH)
  then show ?case by simp
qed simp

text \<open>The counters account for every sequence number: after any history of a source and asset
  with sequence numbers that are not negative, the last sequence is the largest one seen, and the
  numbers of the range from the first to the largest split into those received in order and those
  counted as missing: missing plus received is the length of the range plus the out-of-order
  ones.\<close>

theorem gap_accounting:
  assumes "\<forall>s \<in> set (sequences (history k os)). 0 \<le> s" "sequences (history k os) \<noteq> []"
  shows "let q = state_at k (observe_all th os Map.empty); ss = sequences (history k os)
    in ql_last_sequence q = Some (Max (set ss)) \<and>
       ql_sequence_gap_count q + int (length ss) = (Max (set ss) - hd ss + 1) + ql_out_of_order_count q"
proof -
  have "counted [] (fresh_quality (fst k) (snd k))" by (simp add: counted_def fresh_quality_def)
  from counted_fold [OF this, of "history k os" th] assms show ?thesis
    by (simp add: counted_def state_at_observe_all Let_def)
qed

text \<open>Observations to build examples with.\<close>

definition sample_obs :: "int option \<Rightarrow> bool \<Rightarrow> observation" where
  "sample_obs s book = \<lparr>os_source = ''feed'', os_asset_id = ''ACME'', os_event_time = 0,
     os_ingested_at = 0, os_sequence = s, os_is_orderbook = book\<rparr>"

theorem gap_accounting_witness:
  "let q = state_at (''feed'', ''ACME'')
       (observe_all 60 (map (\<lambda>s. sample_obs (Some s) True) [1, 2, 5, 3]) Map.empty)
   in ql_last_sequence q = Some 5 \<and> ql_sequence_gap_count q + 4 = 5 + ql_out_of_order_count q"
  using gap_accounting [of "(''feed'', ''ACME'')" "map (\<lambda>s. sample_obs (Some s) True) [1, 2, 5, 3]" 60]
  by (simp add: history_def obs_key_def sample_obs_def)

text \<open>A lost order-book update that the next trade of the same stream reveals never reaches the
  state machine of the book: trades move the last sequence but not the machine.\<close>

lemma trade_masks_gap:
  assumes "ql_last_sequence q = Some n" "0 < n" "ql_orderbook_state q = bk_valid" "ql_book_valid q"
    and "\<not> os_is_orderbook trade" "os_sequence trade = Some (n + 2)"
    and "os_is_orderbook book" "os_sequence book = Some (n + 3)" "\<not> too_old th book"
  shows "let q' = observe_state th book (observe_state th trade q)
    in ql_book_valid q' \<and> \<not> ql_source_degraded q' \<and>
       ql_sequence_gap_count q' = ql_sequence_gap_count q + 1"
proof -
  let ?q = "observe_state th trade q"
  have s: "ql_last_sequence ?q = Some (n + 2)" using assms by (simp add: next_sequence_def)
  have b: "ql_orderbook_state ?q = bk_valid" using assms by (simp add: observe_no_book)
  have g: "sequence_gap (next_sequence (ql_last_sequence q) (os_sequence trade)) (os_sequence book) = False"
    using assms s by (simp add: sequence_gap_def)
  have v: "ql_book_valid (observe_state th book ?q)"
    using assms(7,9) by (simp add: observe_book b g book_step_def)
  have "ql_source_degraded (observe_state th book ?q) = (\<not> ql_book_valid (observe_state th book ?q))"
    using assms(7,9) g by (simp add: observe_state_def Let_def)
  moreover have "ql_sequence_gap_count (observe_state th book ?q) = ql_sequence_gap_count q + 1"
    using assms s by (simp add: count_sequence_def)
  ultimately show ?thesis using v by (simp add: Let_def)
qed

end
