(* ===== verification/Guardrails.thy ===== *)
theory Guardrails
  imports Domain
begin

text \<open>
  The ingestion guardrails for market payloads (\<open>security/guardrails.py\<close>:
  \<open>inspect_ingestion_payload\<close>, \<open>inspect_market_payload\<close>). A payload is a JSON dictionary. Numbers
  are finite in the model, so that the test for non-finite numbers never fails. The length of
  \<open>str(payload)\<close> and the clock are arguments.
\<close>

type_synonym payload = "(string \<times> py_value) list"

record guardrail_decision =
  gd_accepted :: bool
  gd_reasons :: "string list"
  gd_risk_score :: real

text \<open>\<open>isinstance(value, int | float)\<close>: booleans are integers.\<close>

definition number_of :: "py_value \<Rightarrow> real option" where
  "number_of v = (case v of PBool b \<Rightarrow> Some (if b then 1 else 0) | PInt i \<Rightarrow> Some (real_of_int i)
     | PFloat r \<Rightarrow> Some r | _ \<Rightarrow> None)"

definition inspect_ingestion_payload :: "nat \<Rightarrow> datetime \<Rightarrow> datetime \<Rightarrow> real \<Rightarrow> guardrail_decision" where
  "inspect_ingestion_payload text_length now event_time source_trust =
    (let reasons = (if event_time > now + seconds 300 then [''FUTURE_EVENT_TIME''] else []) @
           (if \<not> (0 \<le> source_trust \<and> source_trust \<le> 1) then [''INVALID_SOURCE_TRUST'']
            else if source_trust < 0.25 then [''LOW_TRUST_SOURCE''] else []) @
           (if text_length > 1000000 then [''PAYLOAD_TOO_LARGE''] else [])
     in \<lparr>gd_accepted = (reasons = []), gd_reasons = reasons,
         gd_risk_score = min 1 (real (length reasons) * 0.4)\<rparr>)"

section \<open>Market payloads\<close>

definition non_negative_fields :: "string list" where
  "non_negative_fields = [''price'', ''quantity'', ''volume'', ''open'', ''high'', ''low'', ''close'',
     ''best_bid'', ''best_ask'', ''top_bid_depth'', ''top_ask_depth'']"

definition upper_char :: "char \<Rightarrow> char" where
  "upper_char c = (let n = of_char c :: nat in if 97 \<le> n \<and> n \<le> 122 then char_of (n - 32) else c)"

definition upper :: "string \<Rightarrow> string" where
  "upper s = map upper_char s"

definition field_reasons :: "string \<times> py_value \<Rightarrow> string list" where
  "field_reasons = (\<lambda>(key, v). case number_of v of
     Some r \<Rightarrow> if key \<in> set non_negative_fields \<and> r < 0 then [''NEGATIVE_'' @ upper key] else []
   | None \<Rightarrow> [])"

text \<open>The loop over the levels of one side stops at the first bad one.\<close>

fun level_reasons :: "py_value list \<Rightarrow> string list" where
  "level_reasons [] = []"
| "level_reasons (l # ls) = (case l of
     PList (p # q # _) \<Rightarrow> (case (number_of p, number_of q) of
        (Some price, Some quantity) \<Rightarrow>
          if price < 0 \<or> quantity < 0 then [''INVALID_ORDERBOOK_LEVEL''] else level_reasons ls
      | _ \<Rightarrow> [''INVALID_ORDERBOOK_LEVEL''])
   | _ \<Rightarrow> [''MALFORMED_ORDERBOOK_LEVEL''])"

definition side_reasons :: "payload \<Rightarrow> string \<Rightarrow> string list" where
  "side_reasons p side = (case map_of p side of
     Some (PList levels) \<Rightarrow> level_reasons (take 50 levels) | _ \<Rightarrow> [])"

definition payload_number :: "payload \<Rightarrow> string \<Rightarrow> real option" where
  "payload_number p k = (case map_of p k of None \<Rightarrow> None | Some v \<Rightarrow> number_of v)"

definition crossed :: "payload \<Rightarrow> bool" where
  "crossed p \<longleftrightarrow> (case (payload_number p ''best_bid'', payload_number p ''best_ask'') of
     (Some b, Some a) \<Rightarrow> b > a | _ \<Rightarrow> False)"

text \<open>\<open>tuple(dict.fromkeys(reasons))\<close>: the first occurrence of each.\<close>

definition first_occurrences :: "'a list \<Rightarrow> 'a list" where
  "first_occurrences xs = rev (remdups (rev xs))"

definition inspect_market_payload :: "payload \<Rightarrow> guardrail_decision" where
  "inspect_market_payload p =
    (let reasons = concat (map field_reasons p) @
           (if crossed p then [''CROSSED_ORDERBOOK''] else []) @
           side_reasons p ''bids'' @ side_reasons p ''asks''
     in \<lparr>gd_accepted = (reasons = []), gd_reasons = first_occurrences reasons,
         gd_risk_score = min 1 0.3\<rparr>)"

lemma market_accepted_iff:
  "gd_accepted (inspect_market_payload p) \<longleftrightarrow>
    (\<forall>(k, v) \<in> set p. field_reasons (k, v) = []) \<and> \<not> crossed p \<and>
    side_reasons p ''bids'' = [] \<and> side_reasons p ''asks'' = []"
  by (auto simp: inspect_market_payload_def Let_def)

text \<open>The risk score of a market decision does not depend on the payload: a clean payload has the
  score of a rejected one.\<close>

lemma market_risk_constant: "gd_risk_score (inspect_market_payload p) = 0.3"
  by (simp add: inspect_market_payload_def Let_def)

end
