(* ===== verification/Batching.thy ===== *)
theory Batching
  imports Prelude
begin

text \<open>
  Bounded batching of an asynchronous source (\<open>resilience/batching.py\<close>). What the source and the
  clock do is a list of polls: every \<open>asyncio.wait\<close> of the inner loop ends with an item, with the
  end of the source, with an exception of the source, or with the batch's time used up. The list
  ends where the observation ends; the generator is then still waiting.
\<close>

datatype 'a poll = Item 'a | Timed_out | Exhausted | Failed py_exn

record 'a batching =
  bt_batches :: "'a list list"
  bt_error :: "py_exn option"
  bt_pending :: "'a list"

text \<open>The loop: \<open>cur\<close> is the batch being filled. A full batch is yielded, an expired one when it is
  not empty; an exception of the source leaves the generator with the items of \<open>cur\<close> unyielded.\<close>

fun fill_batches :: "nat \<Rightarrow> 'a poll list \<Rightarrow> 'a list \<Rightarrow> 'a batching" where
  "fill_batches n [] cur = \<lparr>bt_batches = [], bt_error = None, bt_pending = cur\<rparr>"
| "fill_batches n (Item x # ps) cur =
    (if length (cur @ [x]) < n then fill_batches n ps (cur @ [x])
     else let r = fill_batches n ps [] in r\<lparr>bt_batches := (cur @ [x]) # bt_batches r\<rparr>)"
| "fill_batches n (Timed_out # ps) cur =
    (let r = fill_batches n ps []
     in if cur = [] then r else r\<lparr>bt_batches := cur # bt_batches r\<rparr>)"
| "fill_batches n (Exhausted # ps) cur =
    \<lparr>bt_batches = (if cur = [] then [] else [cur]), bt_error = None, bt_pending = []\<rparr>"
| "fill_batches n (Failed e # ps) cur = \<lparr>bt_batches = [], bt_error = Some e, bt_pending = cur\<rparr>"

definition bounded_batches :: "int \<Rightarrow> real \<Rightarrow> 'a poll list \<Rightarrow> 'a batching res" where
  "bounded_batches max_batch_size max_wait_seconds ps =
    (if max_batch_size < 1 \<or> max_wait_seconds \<le> 0
     then Inl (ValueError ''batch limits must be positive'')
     else Inr (fill_batches (nat max_batch_size) ps []))"

section \<open>Properties\<close>

text \<open>The items the source delivered before it ended.\<close>

fun delivered :: "'a poll list \<Rightarrow> 'a list" where
  "delivered [] = []"
| "delivered (Item x # ps) = x # delivered ps"
| "delivered (Timed_out # ps) = delivered ps"
| "delivered (Exhausted # ps) = []"
| "delivered (Failed e # ps) = []"

fun ended :: "'a poll list \<Rightarrow> py_exn option option" where
  "ended [] = None"
| "ended (Item x # ps) = ended ps"
| "ended (Timed_out # ps) = ended ps"
| "ended (Exhausted # ps) = Some None"
| "ended (Failed e # ps) = Some (Some e)"

lemma fill_items:
  "concat (bt_batches (fill_batches n ps cur)) @ bt_pending (fill_batches n ps cur) = cur @ delivered ps"
  by (induction n ps cur rule: fill_batches.induct) (auto simp: Let_def)

lemma fill_sizes:
  "0 < n \<Longrightarrow> length cur < n \<Longrightarrow>
    (\<forall>b \<in> set (bt_batches (fill_batches n ps cur)). b \<noteq> [] \<and> length b \<le> n) \<and>
    length (bt_pending (fill_batches n ps cur)) < n"
  by (induction n ps cur rule: fill_batches.induct) (auto simp: Let_def)

lemma fill_end:
  "bt_error (fill_batches n ps cur) = (case ended ps of Some (Some e) \<Rightarrow> Some e | _ \<Rightarrow> None) \<and>
   (ended ps = Some None \<longrightarrow> bt_pending (fill_batches n ps cur) = [])"
  by (induction n ps cur rule: fill_batches.induct) (auto simp: Let_def)

text \<open>Batching neither reorders, duplicates nor invents items, and its memory is bounded: the
  yielded batches are not empty and no larger than the limit, and followed by the items still
  held back, fewer than the limit, they are the items of the source in order. When the source
  ends, nothing is held back; only an exception of the source loses the held-back items.\<close>

theorem batching_bounded:
  assumes "bounded_batches n w ps = Inr r"
  shows "concat (bt_batches r) @ bt_pending r = delivered ps \<and>
    (\<forall>b \<in> set (bt_batches r). b \<noteq> [] \<and> int (length b) \<le> n) \<and> int (length (bt_pending r)) < n \<and>
    (ended ps = Some None \<longrightarrow> bt_pending r = []) \<and>
    bt_error r = (case ended ps of Some (Some e) \<Rightarrow> Some e | _ \<Rightarrow> None)"
proof -
  have n: "1 \<le> n" and r: "r = fill_batches (nat n) ps []"
    using assms by (auto simp: bounded_batches_def split: if_splits)
  show ?thesis
    using fill_items [of "nat n" ps "[]"] fill_sizes [of "nat n" "[]" ps] fill_end [of "nat n" ps "[]"] n
    unfolding r by force
qed

theorem batching_bounded_witness:
  "\<exists>r. bounded_batches 2 1 [Item ''a'', Item ''b'', Item ''c'', Failed (RuntimeError ''feed'')] = Inr r \<and>
     bt_batches r = [[''a'', ''b'']] \<and> concat (bt_batches r) @ bt_pending r = [''a'', ''b'', ''c'']"
  using batching_bounded [of 2 1 "[Item ''a'', Item ''b'', Item ''c'', Failed (RuntimeError ''feed'')]"]
  by (simp add: bounded_batches_def Let_def numeral_2_eq_2)

text \<open>An exception of the source discards what the current batch holds.\<close>

lemma batching_loses_items:
  "length xs < n \<Longrightarrow> fill_batches n (map Item xs @ [Failed e]) [] =
    \<lparr>bt_batches = [], bt_error = Some e, bt_pending = xs\<rparr>"
proof -
  have "length (cur @ xs) < n \<Longrightarrow> fill_batches n (map Item xs @ [Failed e]) cur =
      \<lparr>bt_batches = [], bt_error = Some e, bt_pending = cur @ xs\<rparr>" for cur
    by (induction xs arbitrary: cur) auto
  then show "length xs < n \<Longrightarrow> ?thesis" by simp
qed

end
