(* ===== verification/Ingest_Runs.thy ===== *)
theory Ingest_Runs
  imports Domain Batching
begin

text \<open>
  What the two ingestion services share: a sequence of deliveries handled one after the other, the loop
  of \<open>run_provider\<close> over bounded batches, and the contract that makes acceptance at most once per
  dedupe key. The contract is a locale; market and social ingestion interpret it on their handlers.
\<close>

section \<open>Sequences of deliveries\<close>

fun run_deliveries :: "('d \<Rightarrow> 's \<Rightarrow> bool res \<times> 's) \<Rightarrow> 'd list \<Rightarrow> 's \<Rightarrow> bool res list \<times> 's" where
  "run_deliveries step [] st = ([], st)"
| "run_deliveries step (d # ds) st =
    (let (a, st1) = step d st; (as, st2) = run_deliveries step ds st1 in (a # as, st2))"

text \<open>The events of the batches in order, counting the accepted ones; the first exception ends the loop.\<close>

fun ingest_batch :: "('d \<Rightarrow> 's \<Rightarrow> bool res \<times> 's) \<Rightarrow> 'd list \<Rightarrow> 's \<Rightarrow> nat res \<times> 's" where
  "ingest_batch step [] st = (Inr 0, st)"
| "ingest_batch step (d # ds) st =
    (case step d st of
       (Inl x, st1) \<Rightarrow> (Inl x, st1)
     | (Inr b, st1) \<Rightarrow> (case ingest_batch step ds st1 of
         (Inl x, st2) \<Rightarrow> (Inl x, st2)
       | (Inr n, st2) \<Rightarrow> (Inr ((if b then 1 else 0) + n), st2)))"

definition run_batched :: "('d \<Rightarrow> 's \<Rightarrow> bool res \<times> 's) \<Rightarrow> int \<Rightarrow> real \<Rightarrow> 'd poll list \<Rightarrow> 's \<Rightarrow> nat res \<times> 's" where
  "run_batched step max_batch_size max_wait_seconds ps st =
    (case bounded_batches max_batch_size max_wait_seconds ps of
       Inl x \<Rightarrow> (Inl x, st)
     | Inr r \<Rightarrow> (case ingest_batch step (concat (bt_batches r)) st of
         (Inl x, st1) \<Rightarrow> (Inl x, st1)
       | (Inr n, st1) \<Rightarrow> (case bt_error r of Some x \<Rightarrow> (Inl x, st1) | None \<Rightarrow> (Inr n, st1))))"

section \<open>At most once\<close>

text \<open>How many deliveries of a key were accepted.\<close>

definition accepted_count :: "('d \<Rightarrow> string res) \<Rightarrow> string \<Rightarrow> 'd list \<Rightarrow> bool res list \<Rightarrow> nat" where
  "accepted_count key_of key ds as = length (filter (\<lambda>(d, a). key_of d = Inr key \<and> a = Inr True) (zip ds as))"

lemma accepted_count_Nil [simp]: "accepted_count key_of key [] as = 0"
  by (simp add: accepted_count_def)

lemma accepted_count_Cons:
  "accepted_count key_of key (d # ds) (a # as) =
    (if key_of d = Inr key \<and> a = Inr True then 1 else 0) + accepted_count key_of key ds as"
  by (simp add: accepted_count_def)

text \<open>The contract of a handler: the claimed keys grow, an accepted delivery claims its fresh key, and
  the published copies of a key grow with the accepted deliveries, by more only when a delivery fails
  after its publication.\<close>

locale once_handler =
  fixes step :: "'d \<Rightarrow> 's \<Rightarrow> bool res \<times> 's"
    and claimed :: "'s \<Rightarrow> string set"
    and copies :: "string \<Rightarrow> 's \<Rightarrow> nat"
    and key_of :: "'d \<Rightarrow> string res"
    and late :: "'d \<Rightarrow> bool"
  assumes claims_grow: "step d s = (a, s') \<Longrightarrow> claimed s \<subseteq> claimed s'"
    and accepts_fresh: "step d s = (Inr True, s') \<Longrightarrow> key_of d = Inr key \<Longrightarrow> key \<notin> claimed s \<and> key \<in> claimed s'"
    and copies_grow: "step d s = (a, s') \<Longrightarrow>
      copies key s + (if key_of d = Inr key \<and> a = Inr True then 1 else 0) \<le> copies key s'"
    and copies_exact: "step d s = (a, s') \<Longrightarrow> \<not> late d \<Longrightarrow>
      copies key s' = copies key s + (if key_of d = Inr key \<and> a = Inr True then 1 else 0)"
begin

lemma run_once:
  assumes "run_deliveries step ds st = (as, st')"
  shows "accepted_count key_of key ds as \<le> (if key \<in> claimed st then 0 else 1) \<and>
    copies key st + accepted_count key_of key ds as \<le> copies key st' \<and>
    (list_all (\<lambda>d. \<not> late d) ds \<longrightarrow> copies key st' = copies key st + accepted_count key_of key ds as)"
  using assms
proof (induction ds arbitrary: st as st')
  case (Cons d ds)
  obtain a st1 where i: "step d st = (a, st1)" by fastforce
  obtain bs where r: "run_deliveries step ds st1 = (bs, st')" "as = a # bs"
    using Cons.prems by (auto simp: i split: prod.splits)
  note rest = Cons.IH [OF r(1)]
  have "accepted_count key_of key (d # ds) as \<le> (if key \<in> claimed st then 0 else 1)"
    using rest claims_grow [OF i] accepts_fresh [of d st st1 key] i unfolding r(2) accepted_count_Cons
    by (auto split: if_splits)
  then show ?case
    using rest copies_grow [OF i, of key] copies_exact [OF i, of key] unfolding r(2) accepted_count_Cons by auto
qed simp

end

end
