(* ===== verification/Market_Ingestion.thy ===== *)
theory Market_Ingestion
  imports Source_Quality_Correct Guardrails Ingest_Runs
begin

text \<open>
  Market ingestion (\<open>ingestion/market.py\<close>): the replay provider, the normalization of a market
  event, and \<open>MarketIngestionService.ingest\<close> with its guardrails, dedupe claim, quality
  observation, publication and online state, and with what it undoes when a step raises.

  The validation and the dump of the pydantic records are functions of a codec record; a fault
  table says which of the three outgoing calls raises what.
\<close>

record market_codec =
  mk_trade :: "payload \<Rightarrow> market_trade res"
  mk_candle :: "payload \<Rightarrow> market_candle res"
  mk_book :: "payload \<Rightarrow> order_book_update res"
  mk_dump :: "market_datum \<Rightarrow> payload"
  mk_text_length :: "payload \<Rightarrow> nat"

type_synonym market_event = "payload canonical_event"

definition datum_id :: "market_datum \<Rightarrow> string" where
  "datum_id d = (case d of Trade t \<Rightarrow> mt_trade_id t | Candle c \<Rightarrow> mc_candle_id c
     | Book b \<Rightarrow> ob_update_id b)"

definition event_type_of :: "market_datum \<Rightarrow> event_type" where
  "event_type_of d = (case d of Trade _ \<Rightarrow> ev_market_trade_received
     | Candle _ \<Rightarrow> ev_market_candle_closed | Book _ \<Rightarrow> ev_market_orderbook_updated)"

definition topic_of :: "market_datum \<Rightarrow> string" where
  "topic_of d = (case d of Trade _ \<Rightarrow> ''market.trades.v1'' | Candle _ \<Rightarrow> ''market.candles.v1''
     | Book _ \<Rightarrow> ''market.orderbook.v1'')"

section \<open>The replay provider\<close>

record provider_item =
  pi_datum :: market_datum
  pi_source_sequence :: "int option"

definition order_items :: "provider_item list \<Rightarrow> provider_item list" where
  "order_items items =
     sort_key (\<lambda>i. (datum_time (pi_datum i), datum_asset (pi_datum i), datum_id (pi_datum i))) items"

text \<open>One event of the stream, with its position counted from one; \<open>clock\<close> answers the call for
  this event, \<open>correlation\<close> is the fresh identifier of its trace.\<close>

definition replay_event ::
    "py_env \<Rightarrow> market_codec \<Rightarrow> string \<Rightarrow> (nat \<Rightarrow> datetime) \<Rightarrow> (nat \<Rightarrow> string)
     \<Rightarrow> string option \<Rightarrow> nat \<Rightarrow> provider_item \<Rightarrow> market_event res" where
  "replay_event env cod source clock correlation session position item =
    (let d = pi_datum item;
         session_id = (case session of None \<Rightarrow> ''standalone'' | Some s \<Rightarrow> if s = [] then ''standalone'' else s);
         delivery = env_uuid5 env (source @ '':'' @ session_id @ '':'' @ datum_id d)
     in case build_replay (session \<noteq> None) session of
          Inl e \<Rightarrow> Inl e
        | Inr replay \<Rightarrow> build_event
           \<lparr>ce_event_id = delivery, ce_origin_event_id = Some (source @ '':'' @ datum_id d),
            ce_delivery_event_id = Some delivery, ce_event_type = event_type_of d,
            ce_schema_version = 1, ce_source = source, ce_source_event_id = datum_id d,
            ce_source_sequence = Some (case pi_source_sequence item of
               None \<Rightarrow> int position | Some s \<Rightarrow> if s = 0 then int position else s),
            ce_asset_id = Some (datum_asset d), ce_event_time = datum_time d,
            ce_ingested_at = (if session \<noteq> None then datum_time d else clock position),
            ce_processed_at = None, ce_partition_key = datum_asset d, ce_replay = replay,
            ce_trace = \<lparr>tm_correlation_id = correlation position, tm_causation_id = None\<rparr>,
            ce_payload = mk_dump cod d\<rparr>)"

fun replay_from ::
    "(nat \<Rightarrow> 'a \<Rightarrow> market_event res) \<Rightarrow> nat \<Rightarrow> 'a list \<Rightarrow> market_event list \<times> py_exn option" where
  "replay_from f position [] = ([], None)"
| "replay_from f position (i # items) = (case f position i of
     Inl e \<Rightarrow> ([], Some e)
   | Inr ev \<Rightarrow> (let (evs, e) = replay_from f (Suc position) items in (ev # evs, e)))"

definition replay_stream ::
    "py_env \<Rightarrow> market_codec \<Rightarrow> string \<Rightarrow> (nat \<Rightarrow> datetime) \<Rightarrow> (nat \<Rightarrow> string)
     \<Rightarrow> string option \<Rightarrow> provider_item list \<Rightarrow> market_event list \<times> py_exn option" where
  "replay_stream env cod source clock correlation session items =
     replay_from (replay_event env cod source clock correlation session) 1 (order_items items)"

section \<open>Normalization\<close>

definition event_fields :: "market_event \<Rightarrow> payload" where
  "event_fields e = AList.update ''source'' (PStr (ce_source e))
     (AList.update ''event_time'' (PTime (ce_event_time e))
       (AList.update ''asset_id'' (opt_str (ce_asset_id e)) (ce_payload e)))"

definition depth_of :: "(real \<times> real) list \<Rightarrow> real" where
  "depth_of levels = (\<Sum>(p, q)\<leftarrow>take 5 levels. q)"

definition normalize_book :: "order_book_update \<Rightarrow> order_book_update" where
  "normalize_book b = b\<lparr>
     ob_spread := (case (ob_best_ask b, ob_best_bid b) of (Some a, Some d) \<Rightarrow> Some (a - d) | _ \<Rightarrow> None),
     ob_top_bid_depth := (if depth_of (ob_bids b) \<noteq> 0 then Some (depth_of (ob_bids b)) else ob_top_bid_depth b),
     ob_top_ask_depth := (if depth_of (ob_asks b) \<noteq> 0 then Some (depth_of (ob_asks b)) else ob_top_ask_depth b)\<rparr>"

definition normalize_market_event :: "market_codec \<Rightarrow> market_event \<Rightarrow> market_datum res" where
  "normalize_market_event cod e =
    (let p = event_fields e
     in if ce_event_type e = ev_market_trade_received
        then (case mk_trade cod p of Inl x \<Rightarrow> Inl x | Inr t \<Rightarrow> Inr (Trade t))
        else if ce_event_type e = ev_market_candle_closed
        then (case mk_candle cod p of Inl x \<Rightarrow> Inl x | Inr c \<Rightarrow> Inr (Candle c))
        else if ce_event_type e = ev_market_orderbook_updated
        then (case mk_book cod p of Inl x \<Rightarrow> Inl x | Inr b \<Rightarrow> Inr (Book (normalize_book b)))
        else Inl (ValueError (''unsupported market event type: '' @ event_type_value (ce_event_type e))))"

section \<open>Ingestion\<close>

record ingestion_state =
  mi_store :: state_store
  mi_published :: "payload publisher"
  mi_tracker :: tracker

definition ingestion_empty :: ingestion_state where
  "ingestion_empty = \<lparr>mi_store = store_empty, mi_published = [], mi_tracker = Map.empty\<rparr>"

text \<open>The outgoing calls that can raise.\<close>

datatype ingest_step = step_publish | step_latest | step_health

type_synonym faults = "ingest_step \<Rightarrow> py_exn option"

definition observation_of :: "market_event \<Rightarrow> market_datum \<Rightarrow> observation" where
  "observation_of e d = \<lparr>os_source = ce_source e, os_asset_id = datum_asset d,
     os_event_time = ce_event_time e, os_ingested_at = ce_ingested_at e,
     os_sequence = ce_source_sequence e, os_is_orderbook = (case d of Book _ \<Rightarrow> True | _ \<Rightarrow> False)\<rparr>"

definition with_quality :: "source_quality \<Rightarrow> market_event \<Rightarrow> market_event" where
  "with_quality q e = e\<lparr>ce_payload := AList.update ''_quality'' (quality_dict q) (ce_payload e)\<rparr>"

definition latest_value :: "market_codec \<Rightarrow> market_event \<Rightarrow> market_datum \<Rightarrow> source_quality \<Rightarrow> py_value" where
  "latest_value cod e d q = PDict
    [(''asset_id'', PStr (datum_asset d)), (''event_type'', PStr (event_type_value (ce_event_type e))),
     (''event_time'', PTime (ce_event_time e)), (''ingested_at'', PTime (ce_ingested_at e)),
     (''source'', PStr (ce_source e)), (''data'', PDict (mk_dump cod d)), (''quality'', quality_dict q)]"

text \<open>The body of the \<open>try\<close>: observe, publish, write the two keys. The tracker keeps the
  observation whatever happens next.\<close>

definition ingest_body ::
    "market_codec \<Rightarrow> int \<Rightarrow> faults \<Rightarrow> market_event \<Rightarrow> market_datum \<Rightarrow> ingestion_state
     \<Rightarrow> bool res \<times> ingestion_state" where
  "ingest_body cod th faults e d st =
    (let (q, tr) = observe th (observation_of e d) (mi_tracker st);
         st1 = st\<lparr>mi_tracker := tr\<rparr>
     in case faults step_publish of
          Some x \<Rightarrow> (Inl x, st1)
        | None \<Rightarrow>
      (let st2 = st1\<lparr>mi_published := publish_one (topic_of d) (with_quality q e) (mi_published st1)\<rparr>
       in case faults step_latest of
          Some x \<Rightarrow> (Inl x, st2)
        | None \<Rightarrow>
      (let st3 = st2\<lparr>mi_store := set_json (''latest:market:'' @ datum_asset d) (latest_value cod e d q) (mi_store st2)\<rparr>
       in case faults step_health of
          Some x \<Rightarrow> (Inl x, st3)
        | None \<Rightarrow> (Inr True, st3\<lparr>mi_store := set_json
            (''source-health:market:'' @ ce_source e @ '':'' @ datum_asset d) (quality_dict q) (mi_store st3)\<rparr>))))"

definition market_guard :: "market_codec \<Rightarrow> datetime \<Rightarrow> market_event \<Rightarrow> bool" where
  "market_guard cod now e \<longleftrightarrow>
     gd_accepted (inspect_ingestion_payload (mk_text_length cod (ce_payload e)) now (ce_event_time e) 1) \<and>
     gd_accepted (inspect_market_payload (ce_payload e))"

definition market_ingest ::
    "market_codec \<Rightarrow> int \<Rightarrow> datetime \<Rightarrow> faults \<Rightarrow> market_event \<Rightarrow> ingestion_state \<Rightarrow> bool res \<times> ingestion_state" where
  "market_ingest cod th now faults e st =
    (if \<not> market_guard cod now e then (Inr False, st)
     else case normalize_market_event cod e of
       Inl x \<Rightarrow> (Inl x, st)
     | Inr d \<Rightarrow> (case dedupe_key e of
         Inl x \<Rightarrow> (Inl x, st)
       | Inr key \<Rightarrow> (case store_claim key (mi_store st) of
           (False, s) \<Rightarrow> (Inr False, st\<lparr>mi_store := s\<rparr>)
         | (True, s) \<Rightarrow> (case ingest_body cod th faults e d (st\<lparr>mi_store := s\<rparr>) of
             (Inr b, st1) \<Rightarrow> (Inr b, st1)
           | (Inl x, st1) \<Rightarrow>
               (Inl x, if caught x then st1\<lparr>mi_store := store_release key (mi_store st1)\<rparr> else st1)))))"

record market_delivery =
  md_now :: datetime
  md_faults :: faults
  md_event :: market_event

definition market_deliver :: "market_codec \<Rightarrow> int \<Rightarrow> market_delivery \<Rightarrow> ingestion_state \<Rightarrow> bool res \<times> ingestion_state" where
  "market_deliver cod th d = market_ingest cod th (md_now d) (md_faults d) (md_event d)"

definition market_run :: "market_codec \<Rightarrow> int \<Rightarrow> market_delivery list \<Rightarrow> ingestion_state \<Rightarrow> bool res list \<times> ingestion_state" where
  "market_run cod th = run_deliveries (market_deliver cod th)"

text \<open>\<open>MarketIngestionService.run_provider\<close>.\<close>

definition run_provider ::
    "market_codec \<Rightarrow> int \<Rightarrow> int \<Rightarrow> real \<Rightarrow> market_delivery poll list \<Rightarrow> ingestion_state \<Rightarrow> nat res \<times> ingestion_state" where
  "run_provider cod th = run_batched (market_deliver cod th)"

end
