(* ===== verification/Market_Ingestion_Correct.thy ===== *)
theory Market_Ingestion_Correct
  imports Market_Ingestion
begin

text \<open>
  Properties of market ingestion: acceptance and publication are at most once per dedupe key, and
  what a failed or cancelled publication leaves behind.
\<close>

lemma with_quality_fields [simp]:
  "dedupe_key (with_quality q e) = dedupe_key e" "ce_event_id (with_quality q e) = ce_event_id e"
  by (simp_all add: with_quality_def dedupe_key_def)

section \<open>One delivery\<close>

lemma ingest_body_cases:
  assumes "ingest_body cod th f e d st = (a, st')"
  obtains (accepted) q where "a = Inr True" "f step_publish = None"
      "mi_published st' = mi_published st @ [(topic_of d, with_quality q e)]"
      "ss_claimed (mi_store st') = ss_claimed (mi_store st)"
  | (early) x where "a = Inl x" "f step_publish = Some x" "mi_published st' = mi_published st"
      "ss_claimed (mi_store st') = ss_claimed (mi_store st)"
  | (late) x q where "a = Inl x" "f step_latest \<noteq> None \<or> f step_health \<noteq> None"
      "mi_published st' = mi_published st @ [(topic_of d, with_quality q e)]"
      "ss_claimed (mi_store st') = ss_claimed (mi_store st)"
  using assms
  by (auto simp: ingest_body_def publish_one_def Let_def split: prod.splits option.splits)

definition late_failure :: "faults \<Rightarrow> bool" where
  "late_failure f \<longleftrightarrow> f step_latest \<noteq> None \<or> f step_health \<noteq> None"

text \<open>What one delivery does to the claimed keys and the published events.\<close>

lemma market_ingest_cases:
  assumes "market_ingest cod th now f e st = (a, st')"
  obtains (accepted) key t q where "a = Inr True" "dedupe_key e = Inr key" "key \<notin> ss_claimed (mi_store st)"
      "ss_claimed (mi_store st') = insert key (ss_claimed (mi_store st))"
      "mi_published st' = mi_published st @ [(t, with_quality q e)]"
  | (refused) "a = Inr False" "ss_claimed (mi_store st') = ss_claimed (mi_store st)"
      "mi_published st' = mi_published st"
  | (failed) x where "a = Inl x" "ss_claimed (mi_store st) \<subseteq> ss_claimed (mi_store st')"
      "mi_published st' = mi_published st"
  | (failed_late) x t q where "a = Inl x" "ss_claimed (mi_store st) \<subseteq> ss_claimed (mi_store st')"
      "late_failure f" "mi_published st' = mi_published st @ [(t, with_quality q e)]"
proof -
  show thesis
  proof (cases "market_guard cod now e")
    case False
    with assms show thesis by (intro refused) (simp_all add: market_ingest_def)
  next
    case guard: True
    show thesis
    proof (cases "normalize_market_event cod e")
      case (Inl x)
      with assms guard show thesis by (intro failed [of x]) (auto simp: market_ingest_def)
    next
      case d: (Inr d)
      show thesis
      proof (cases "dedupe_key e")
        case (Inl x)
        with assms guard d show thesis by (intro failed [of x]) (auto simp: market_ingest_def)
      next
        case key: (Inr key)
        show thesis
        proof (rule state_dedupe.claim_cases [of key "mi_store st"])
          assume "key \<in> ss_claimed (mi_store st)" "store_claim key (mi_store st) = (False, mi_store st)"
          with assms guard d key show thesis by (intro refused) (simp_all add: market_ingest_def)
        next
          assume fresh: "key \<notin> ss_claimed (mi_store st)"
            and answer: "store_claim key (mi_store st) = (True, snd (store_claim key (mi_store st)))"
          from answer obtain s where claim: "store_claim key (mi_store st) = (True, s)" by metis
          then have held: "ss_claimed s = insert key (ss_claimed (mi_store st))"
            using state_dedupe.claim_held [of key "mi_store st"] by simp
          obtain b st1 where body: "ingest_body cod th f e d (st\<lparr>mi_store := s\<rparr>) = (b, st1)"
            by (cases "ingest_body cod th f e d (st\<lparr>mi_store := s\<rparr>)")
          have run: "(a, st') = (case b of Inr v \<Rightarrow> (Inr v, st1) | Inl x \<Rightarrow>
              (Inl x, if caught x then st1\<lparr>mi_store := store_release key (mi_store st1)\<rparr> else st1))"
            using assms guard d key claim body
            by (auto simp: market_ingest_def split: sum.splits)
          from body show thesis
          proof (cases rule: ingest_body_cases)
            case (accepted q)
            with run fresh key held show thesis by (intro that(1)) simp_all
          next
            case (early x)
            with run fresh held show thesis
              by (intro failed [of x]) (auto simp: state_dedupe.release_held)
          next
            case (late x q)
            with run fresh held show thesis
              by (intro failed_late [of x "topic_of d" q])
                (auto simp: state_dedupe.release_held late_failure_def)
          qed
        qed
      qed
    qed
  qed
qed

section \<open>Runs\<close>

definition published_count :: "string \<Rightarrow> payload publisher \<Rightarrow> nat" where
  "published_count key pub = length (filter (\<lambda>(t, e). dedupe_key e = Inr key) pub)"

lemma published_count_append [simp]:
  "published_count key (pub @ [(t, e)]) = published_count key pub + (if dedupe_key e = Inr key then 1 else 0)"
  by (simp add: published_count_def)

lemma market_step:
  assumes "market_ingest cod th now f e st = (a, st')"
  shows "ss_claimed (mi_store st) \<subseteq> ss_claimed (mi_store st') \<and>
    (a = Inr True \<longrightarrow> dedupe_key e = Inr key \<longrightarrow>
      key \<notin> ss_claimed (mi_store st) \<and> key \<in> ss_claimed (mi_store st')) \<and>
    published_count key (mi_published st') \<ge> published_count key (mi_published st) +
      (if dedupe_key e = Inr key \<and> a = Inr True then 1 else 0) \<and>
    (\<not> late_failure f \<longrightarrow> published_count key (mi_published st') = published_count key (mi_published st) +
      (if dedupe_key e = Inr key \<and> a = Inr True then 1 else 0))"
  using assms
proof (cases rule: market_ingest_cases)
  case (accepted k t q)
  then show ?thesis by auto
next
  case refused
  then show ?thesis by simp
next
  case (failed x)
  then show ?thesis by simp
next
  case (failed_late x t q)
  then show ?thesis by simp
qed

interpretation market_once: once_handler "market_deliver cod th" "\<lambda>st. ss_claimed (mi_store st)"
  "\<lambda>key st. published_count key (mi_published st)" "\<lambda>d. dedupe_key (md_event d)" "\<lambda>d. late_failure (md_faults d)"
  by unfold_locales (use market_step in \<open>unfold market_deliver_def, blast+\<close>)

section \<open>Properties\<close>

text \<open>C5. Deliveries of one event are accepted at most once, whatever fails, is refused by a
  guardrail or is cancelled in between, and an accepted event has been published. When no
  delivery fails after its publication, an event is published exactly as often as it is
  accepted, so never twice.\<close>

theorem market_publish_once:
  "let (as, st) = market_run cod th ds ingestion_empty
   in accepted_count (\<lambda>d. dedupe_key (md_event d)) key ds as \<le> 1 \<and> accepted_count (\<lambda>d. dedupe_key (md_event d)) key ds as \<le> published_count key (mi_published st) \<and>
     (list_all (\<lambda>d. \<not> late_failure (md_faults d)) ds \<longrightarrow>
        published_count key (mi_published st) = accepted_count (\<lambda>d. dedupe_key (md_event d)) key ds as)"
proof -
  obtain as st where r: "market_run cod th ds ingestion_empty = (as, st)" by fastforce
  have "published_count key (mi_published ingestion_empty) = 0" "ss_claimed (mi_store ingestion_empty) = {}"
    by (simp_all add: published_count_def ingestion_empty_def store_empty_def)
  with market_once.run_once [OF r [unfolded market_run_def], of key] r show ?thesis by simp
qed

text \<open>What the tracker knows after an observation: the same sequence number is then out of order.\<close>

lemma observe_again:
  assumes "os_sequence obs = Some s" "observe th obs t = (q, t')"
  shows "let q' = fst (observe th obs t') in ql_source_degraded q' \<and> ql_status q' = ''DEGRADED'' \<and>
    ql_out_of_order_count q' = ql_out_of_order_count q + 1 \<and>
    (os_is_orderbook obs \<longrightarrow> \<not> ql_book_valid q')"
proof -
  have t': "state_at (os_source obs, os_asset_id obs) t' = q"
    using assms(2) by (auto simp: observe_def state_at_def Let_def)
  have q': "fst (observe th obs t') = observe_state th obs q" by (simp add: observe_def Let_def t')
  have "q = observe_state th obs (state_at (os_source obs, os_asset_id obs) t)"
    using assms(2) by (simp add: observe_def Let_def)
  then obtain l where l: "ql_last_sequence q = Some l" "s \<le> l"
    using assms(1) by (simp add: next_sequence_def)
  have gap: "sequence_gap (ql_last_sequence q) (os_sequence obs)"
    using assms(1) l by (simp add: sequence_gap_def)
  have "ql_out_of_order_count (observe_state th obs q) = ql_out_of_order_count q + 1"
    using assms(1) l by (simp add: count_sequence_def)
  moreover have "ql_source_degraded (observe_state th obs q)" "ql_status (observe_state th obs q) = ''DEGRADED''"
    using gap by (simp_all add: observe_state_def Let_def)
  moreover have "os_is_orderbook obs \<Longrightarrow> \<not> ql_book_valid (observe_state th obs q)"
    using gap by (simp add: observe_book book_step_def split: if_splits)
  ultimately show ?thesis by (simp add: q' Let_def)
qed

lemma market_ingest_fresh:
  assumes "market_guard cod now e" "normalize_market_event cod e = Inr d" "dedupe_key e = Inr key"
    and "key \<notin> ss_claimed (mi_store st)"
  shows "market_ingest cod th now f e st =
    (case ingest_body cod th f e d (st\<lparr>mi_store := snd (store_claim key (mi_store st))\<rparr>) of
       (Inr b, st1) \<Rightarrow> (Inr b, st1)
     | (Inl x, st1) \<Rightarrow> (Inl x, if caught x then st1\<lparr>mi_store := store_release key (mi_store st1)\<rparr> else st1))"
  using assms by (simp add: market_ingest_def store_claim_def)

lemma ingest_body_no_faults:
  assumes "\<forall>s. f s = None"
  shows "\<exists>st'. ingest_body cod th f e d st = (Inr True, st') \<and> mi_published st' = mi_published st @
    [(topic_of d, with_quality (fst (observe th (observation_of e d) (mi_tracker st))) e)]"
  using assms by (simp add: ingest_body_def publish_one_def Let_def split: prod.splits)

text \<open>A publication that fails is not repaired by the retry. The quality tracker has observed the
  event before the publication, so the retry of the same event is accepted but published as out
  of order, with a degraded source and, for an order book, an invalid book, although the source
  delivered nothing twice. A publication that is cancelled is lost: the claim on its dedupe key
  stays, and the retry is refused as a duplicate of an event that was never published.\<close>

theorem market_failed_publish:
  assumes "market_guard cod now e" "market_guard cod now' e" "normalize_market_event cod e = Inr d"
    and "dedupe_key e = Inr key" "key \<notin> ss_claimed (mi_store st)" "ce_source_sequence e = Some s"
    and "f step_publish = Some x" "\<forall>step. f' step = None"
    and "market_ingest cod th now f e st = (a1, st1)" "market_ingest cod th now' f' e st1 = (a2, st2)"
  shows "a1 = Inl x \<and> (if caught x
    then a2 = Inr True \<and> (\<exists>q. mi_published st2 = mi_published st @ [(topic_of d, with_quality q e)] \<and>
        ql_source_degraded q \<and> ql_status q = ''DEGRADED'' \<and>
        (topic_of d = ''market.orderbook.v1'' \<longrightarrow> \<not> ql_book_valid q))
    else a2 = Inr False \<and> mi_published st2 = mi_published st)"
proof -
  let ?obs = "observation_of e d"
  let ?s = "snd (store_claim key (mi_store st))"
  obtain q tr where o: "observe th ?obs (mi_tracker st) = (q, tr)" by fastforce
  have body: "ingest_body cod th f e d (st\<lparr>mi_store := ?s\<rparr>) = (Inl x, st\<lparr>mi_store := ?s, mi_tracker := tr\<rparr>)"
    using assms(7) o by (simp add: ingest_body_def Let_def)
  have one: "(a1, st1) = (Inl x, if caught x
      then st\<lparr>mi_store := store_release key ?s, mi_tracker := tr\<rparr> else st\<lparr>mi_store := ?s, mi_tracker := tr\<rparr>)"
    using assms(9) unfolding market_ingest_fresh [OF assms(1,3,4,5)] body by auto
  show ?thesis
  proof (cases "caught x")
    case True
    with one have st1: "a1 = Inl x" "st1 = st\<lparr>mi_store := store_release key ?s, mi_tracker := tr\<rparr>" by simp_all
    then have "key \<notin> ss_claimed (mi_store st1)" by (simp add: state_dedupe.release_held)
    note two = market_ingest_fresh [OF assms(2,3,4) this, of th f']
    obtain st' where b: "ingest_body cod th f' e d (st1\<lparr>mi_store := snd (store_claim key (mi_store st1))\<rparr>) = (Inr True, st')"
      and p: "mi_published st' = mi_published st1 @ [(topic_of d, with_quality (fst (observe th ?obs (mi_tracker st1))) e)]"
      using ingest_body_no_faults [OF assms(8), of cod th e d "st1\<lparr>mi_store := snd (store_claim key (mi_store st1))\<rparr>"]
      by auto
    have r: "a2 = Inr True" "st2 = st'" using assms(10) unfolding two b by simp_all
    have "os_sequence ?obs = Some s" using assms(6) by (simp add: observation_of_def)
    note again = observe_again [OF this o]
    have "topic_of d = ''market.orderbook.v1'' \<Longrightarrow> os_is_orderbook ?obs"
      by (simp add: topic_of_def observation_of_def split: market_datum.splits)
    with True r p again st1 show ?thesis by (auto simp: Let_def)
  next
    case False
    with one have st1: "a1 = Inl x" "st1 = st\<lparr>mi_store := ?s, mi_tracker := tr\<rparr>" by simp_all
    then have "key \<in> ss_claimed (mi_store st1)" by (simp add: state_dedupe.claim_held)
    with assms(2-4,10) have "a2 = Inr False" "mi_published st2 = mi_published st1"
      by (simp_all add: market_ingest_def store_claim_def)
    with False st1 show ?thesis by simp
  qed
qed

text \<open>A codec and an event to build examples with.\<close>

definition sample_trade :: market_trade where
  "sample_trade = \<lparr>mt_trade_id = ''t1'', mt_asset_id = ''ACME'', mt_event_time = 0, mt_price = 2,
     mt_quantity = 3, mt_side = Some ''BUY'', mt_source = ''feed''\<rparr>"

definition sample_codec :: market_codec where
  "sample_codec = \<lparr>mk_trade = (\<lambda>p. Inr sample_trade), mk_candle = (\<lambda>p. Inl (ValidationError ''candle'')),
     mk_book = (\<lambda>p. Inl (ValidationError ''book'')), mk_dump = (\<lambda>d. [(''price'', PFloat 2)]),
     mk_text_length = length\<rparr>"

definition sample_market_event :: market_event where
  "sample_market_event = \<lparr>ce_event_id = ''e1'', ce_origin_event_id = Some ''feed:t1'',
     ce_delivery_event_id = Some ''e1'', ce_event_type = ev_market_trade_received, ce_schema_version = 1,
     ce_source = ''feed'', ce_source_event_id = ''t1'', ce_source_sequence = Some 7,
     ce_asset_id = Some ''ACME'', ce_event_time = 0, ce_ingested_at = 0, ce_processed_at = None,
     ce_partition_key = ''ACME'', ce_replay = \<lparr>rm_is_replay = False, rm_replay_session_id = None\<rparr>,
     ce_trace = \<lparr>tm_correlation_id = ''c'', tm_causation_id = None\<rparr>,
     ce_payload = [(''price'', PFloat 2)]\<rparr>"

lemma sample_market_facts:
  "market_guard sample_codec 0 sample_market_event"
  "normalize_market_event sample_codec sample_market_event = Inr (Trade sample_trade)"
  "dedupe_key sample_market_event = Inr ''e1''" "ce_source_sequence sample_market_event = Some 7"
  by (simp_all add: market_guard_def sample_codec_def sample_market_event_def normalize_market_event_def
      dedupe_key_def inspect_ingestion_payload_def inspect_market_payload_def field_reasons_def
      number_of_def crossed_def payload_number_def side_reasons_def seconds_def Let_def)

theorem market_publish_once_witness:
  "let ds = [\<lparr>md_now = 0, md_faults = (\<lambda>s. if s = step_publish then Some (RuntimeError ''kafka'') else None),
               md_event = sample_market_event\<rparr>,
             \<lparr>md_now = 0, md_faults = (\<lambda>s. None), md_event = sample_market_event\<rparr>];
       (as, st) = market_run sample_codec 60 ds ingestion_empty
   in published_count ''e1'' (mi_published st) = accepted_count (\<lambda>d. dedupe_key (md_event d)) ''e1'' ds as"
  using market_publish_once [of sample_codec 60
      "[\<lparr>md_now = 0, md_faults = (\<lambda>s. if s = step_publish then Some (RuntimeError ''kafka'') else None),
         md_event = sample_market_event\<rparr>,
        \<lparr>md_now = 0, md_faults = (\<lambda>s. None), md_event = sample_market_event\<rparr>]" "''e1''"]
  unfolding Let_def by (auto simp: late_failure_def split: prod.splits)

theorem market_failed_publish_witness:
  "\<exists>st1 st2 q. market_ingest sample_codec 60 0
        (\<lambda>s. if s = step_publish then Some (RuntimeError ''kafka'') else None) sample_market_event ingestion_empty
      = (Inl (RuntimeError ''kafka''), st1) \<and>
    market_ingest sample_codec 60 0 (\<lambda>s. None) sample_market_event st1 = (Inr True, st2) \<and>
    mi_published st2 = [(''market.trades.v1'', with_quality q sample_market_event)] \<and> ql_source_degraded q"
proof -
  let ?f = "\<lambda>s. if s = step_publish then Some (RuntimeError ''kafka'') else None"
  obtain a1 st1 where one: "market_ingest sample_codec 60 0 ?f sample_market_event ingestion_empty = (a1, st1)"
    by fastforce
  obtain a2 st2 where two: "market_ingest sample_codec 60 0 (\<lambda>s. None) sample_market_event st1 = (a2, st2)"
    by fastforce
  have "''e1'' \<notin> ss_claimed (mi_store ingestion_empty)" by (simp add: ingestion_empty_def store_empty_def)
  from market_failed_publish [OF sample_market_facts(1,1,2,3) this sample_market_facts(4) _ _ one two,
      of "RuntimeError ''kafka''"] one two
  show ?thesis by (auto simp: caught_def topic_of_def ingestion_empty_def)
qed


section \<open>Sequence numbers of a replay\<close>

text \<open>A replay numbers its events across all assets, while the tracker expects consecutive numbers per
  asset: the second event of an asset that is not its neighbour in the replay counts as a gap.\<close>

lemma replay_positions:
  assumes "replay_event env cod source clock correlation session n i = Inr e" "pi_source_sequence i = None"
  shows "ce_source_sequence e = Some (int n) \<and> ce_asset_id e = Some (datum_asset (pi_datum i)) \<and>
    ce_event_time e = datum_time (pi_datum i) \<and>
    (session \<noteq> None \<longrightarrow> ce_ingested_at e = datum_time (pi_datum i))"
  using assms by (auto simp: replay_event_def build_event_def Let_def split: sum.splits if_splits)

lemma replay_false_gap:
  assumes "replay_event env cod source clock correlation session n i = Inr e" "pi_source_sequence i = None"
    and "replay_event env cod source clock correlation session m j = Inr e'" "pi_source_sequence j = None"
    and "datum_asset (pi_datum j) = datum_asset (pi_datum i)" "0 < n" "n + 1 < m"
    and "ql_last_sequence q = ce_source_sequence e"
  shows "ql_source_degraded (observe_state th (observation_of e' (pi_datum j)) q) \<and>
    ql_sequence_gap_count (observe_state th (observation_of e' (pi_datum j)) q) =
      ql_sequence_gap_count q + int (m - n - 1)"
proof -
  have n: "ce_source_sequence e = Some (int n)" and m: "ce_source_sequence e' = Some (int m)"
    using replay_positions [OF assms(1,2)] replay_positions [OF assms(3,4)] by simp_all
  have "sequence_gap (ql_last_sequence q) (os_sequence (observation_of e' (pi_datum j)))"
    using assms(6-8) n m by (simp add: sequence_gap_def observation_of_def)
  then have "ql_source_degraded (observe_state th (observation_of e' (pi_datum j)) q)"
    by (simp add: observe_state_def Let_def)
  then show ?thesis
    using assms(6-8) n m by (simp add: count_sequence_def observation_of_def of_nat_diff)
qed

end
