(* ===== verification/Feature_Engine.thy ===== *)
theory Feature_Engine
  imports Feature_Compute "HOL-Library.AList"
begin

text \<open>
  The feature window engine (\<open>FeatureWindowEngine\<close> of \<open>features/engine.py\<close>): window assignment,
  watermarks, revisions, finalization, checkpoints. The engine is a state record that every
  method receives and returns; a method that raises returns the exception with the state it
  leaves behind, because the engine keeps what it wrote before the exception.

  Dictionaries whose iteration order matters are association lists in insertion order, the
  others are maps. The serialization of signals (\<open>orjson\<close>, pydantic) is an argument.
\<close>

type_synonym win_key = "string \<times> string \<times> datetime \<times> int"
type_synonym source_key = "string \<times> string \<times> source_domain"

record engine_config =
  ec_intervals :: "int list"
  ec_allowed_lateness :: timedelta
  ec_source_idle_after :: timedelta
  ec_schema_version :: string
  ec_required_domains :: "source_domain list"

record engine_state =
  es_events :: "(win_key \<times> feature_signal list) list"
  es_revisions :: "(win_key \<times> feature_snapshot list) list"
  es_max_event_time :: "source_key \<rightharpoonup> datetime"
  es_source_states :: "source_key \<rightharpoonup> source_state"
  es_seen :: "(string \<times> string) set"
  es_author_first_seen :: "(string \<times> string \<times> string) \<rightharpoonup> datetime"
  es_signal_log :: "feature_signal list"

definition engine_empty :: engine_state where
  "engine_empty = \<lparr>es_events = [], es_revisions = [], es_max_event_time = Map.empty,
     es_source_states = Map.empty, es_seen = {}, es_author_first_seen = Map.empty,
     es_signal_log = []\<rparr>"

text \<open>\<open>__init__\<close>: the intervals must be positive.\<close>

definition make_engine :: "engine_config \<Rightarrow> (engine_config \<times> engine_state) res" where
  "make_engine cfg =
    (if ec_intervals cfg = [] \<or> list_ex (\<lambda>i. i \<le> 0) (ec_intervals cfg)
     then Inl (ValueError ''feature intervals must be positive'')
     else Inr (cfg, engine_empty))"

definition default_engine_config :: engine_config where
  "default_engine_config = \<lparr>ec_intervals = [60, 300], ec_allowed_lateness = seconds 120,
     ec_source_idle_after = seconds 600, ec_schema_version = FEATURE_SCHEMA_NAME,
     ec_required_domains = [sd_market, sd_social]\<rparr>"

section \<open>Windows\<close>

text \<open>\<open>int(value.timestamp())\<close> truncates towards zero; the remainder is Python's, of the sign of
  the interval.\<close>

definition epoch_seconds :: "datetime \<Rightarrow> int" where
  "epoch_seconds t = (if 0 \<le> t then t div 1000000 else - ((- t) div 1000000))"

definition floor_window :: "datetime \<Rightarrow> int \<Rightarrow> datetime" where
  "floor_window t interval = seconds (epoch_seconds t - epoch_seconds t mod interval)"

definition window_end_of :: "win_key \<Rightarrow> datetime" where
  "window_end_of = (\<lambda>(scope, asset, start, interval). start + seconds interval)"

section \<open>Watermarks\<close>

definition source_domain_value :: "source_domain \<Rightarrow> string" where
  "source_domain_value d = (case d of sd_market \<Rightarrow> ''market'' | sd_social \<Rightarrow> ''social'')"

definition observed_times :: "string \<Rightarrow> string \<Rightarrow> engine_state \<Rightarrow> datetime list" where
  "observed_times scope asset st =
     concat (map (\<lambda>d. case es_max_event_time st (scope, asset, d) of None \<Rightarrow> [] | Some t \<Rightarrow> [t])
       [sd_market, sd_social])"

definition global_max :: "string \<Rightarrow> string \<Rightarrow> engine_state \<Rightarrow> datetime option" where
  "global_max scope asset st =
     (case observed_times scope asset st of [] \<Rightarrow> None | t # ts \<Rightarrow> Some (fold max ts t))"

text \<open>One required domain: a silent source is marked idle, which is written back.\<close>

definition domain_watermark ::
    "engine_config \<Rightarrow> string \<Rightarrow> string \<Rightarrow> datetime option \<Rightarrow> source_domain \<Rightarrow> engine_state
     \<Rightarrow> datetime option \<times> engine_state" where
  "domain_watermark cfg scope asset newest d st =
    (let key = (scope, asset, d); maximum = es_max_event_time st key
     in case es_source_states st key of
          None \<Rightarrow> (None, st)
        | Some so \<Rightarrow>
            if so_degraded so then (None, st)
            else if newest \<noteq> None \<and> maximum \<noteq> None \<and>
                    the newest - the maximum \<ge> ec_source_idle_after cfg
            then (Some (the newest - ec_allowed_lateness cfg),
                  st\<lparr>es_source_states := (es_source_states st)
                       (key \<mapsto> so\<lparr>so_active := True, so_idle := True\<rparr>)\<rparr>)
            else if so_idle so \<and> newest \<noteq> None
            then (Some (the newest - ec_allowed_lateness cfg), st)
            else (map_option (\<lambda>t. t - ec_allowed_lateness cfg) maximum, st))"

fun domain_watermarks ::
    "engine_config \<Rightarrow> string \<Rightarrow> string \<Rightarrow> datetime option \<Rightarrow> source_domain list
     \<Rightarrow> (string \<times> datetime option) list \<Rightarrow> engine_state
     \<Rightarrow> (string \<times> datetime option) list \<times> engine_state" where
  "domain_watermarks cfg scope asset newest [] acc st = (acc, st)"
| "domain_watermarks cfg scope asset newest (d # ds) acc st =
    (let (w, st1) = domain_watermark cfg scope asset newest d st
     in domain_watermarks cfg scope asset newest ds (AList.update (source_domain_value d) w acc) st1)"

definition fusion_watermark :: "engine_config \<Rightarrow> (string \<times> datetime option) list \<Rightarrow> datetime option" where
  "fusion_watermark cfg marks =
    (let present = concat (map (\<lambda>(_, w). case w of None \<Rightarrow> [] | Some t \<Rightarrow> [t]) marks)
     in if length present = length (ec_required_domains cfg)
        then (case present of [] \<Rightarrow> None | t # ts \<Rightarrow> Some (fold min ts t)) else None)"

definition watermarks ::
    "engine_config \<Rightarrow> string \<Rightarrow> string \<Rightarrow> engine_state \<Rightarrow> (string \<times> datetime option) list res \<times> engine_state" where
  "watermarks cfg scope asset st =
    (let (marks, st1) = domain_watermarks cfg scope asset (global_max scope asset st)
           (ec_required_domains cfg) [] st
     in (if ec_required_domains cfg = [] then Inl (ValueError ''min() arg is an empty sequence'')
         else Inr (AList.update ''fusion'' (fusion_watermark cfg marks) marks), st1))"

definition watermark ::
    "engine_config \<Rightarrow> string \<Rightarrow> string \<Rightarrow> engine_state \<Rightarrow> datetime option res \<times> engine_state" where
  "watermark cfg scope asset st =
    (case watermarks cfg scope asset st of
       (Inl e, st1) \<Rightarrow> (Inl e, st1)
     | (Inr marks, st1) \<Rightarrow> (Inr (case map_of marks ''fusion'' of None \<Rightarrow> None | Some w \<Rightarrow> w), st1))"

section \<open>Revisions\<close>

definition events_at :: "win_key \<Rightarrow> engine_state \<Rightarrow> feature_signal list" where
  "events_at k st = (case map_of (es_events st) k of None \<Rightarrow> [] | Some es \<Rightarrow> es)"

definition revisions_at :: "win_key \<Rightarrow> engine_state \<Rightarrow> feature_snapshot list" where
  "revisions_at k st = (case map_of (es_revisions st) k of None \<Rightarrow> [] | Some rs \<Rightarrow> rs)"

definition revisions :: "string \<Rightarrow> datetime \<Rightarrow> int \<Rightarrow> string \<Rightarrow> engine_state \<Rightarrow> feature_snapshot list" where
  "revisions asset start interval scope st = revisions_at (scope, asset, start, interval) st"

text \<open>\<open>max(candidates, key=window_start)\<close> keeps the first of equal candidates; the last revision
  of a window without revisions would raise, which never occurs.\<close>

definition newer :: "feature_snapshot \<Rightarrow> feature_snapshot \<Rightarrow> feature_snapshot" where
  "newer s best = (if fs_window_start best < fs_window_start s then s else best)"

definition latest :: "string \<Rightarrow> int \<Rightarrow> string \<Rightarrow> engine_state \<Rightarrow> feature_snapshot option" where
  "latest asset interval scope st =
    (case map (\<lambda>(_, rs). last rs) (filter (\<lambda>((sc, a, s, i), rs). sc = scope \<and> a = asset \<and> i = interval)
            (es_revisions st)) of
       [] \<Rightarrow> None | r # rs \<Rightarrow> Some (fold newer rs r))"

text \<open>The earlier windows of the same scope, asset and interval.\<close>

definition earlier :: "win_key \<Rightarrow> win_key \<Rightarrow> bool" where
  "earlier = (\<lambda>(scope, asset, start, interval) (sc, a, s, i).
     sc = scope \<and> a = asset \<and> i = interval \<and> s < start)"

definition take_last :: "nat \<Rightarrow> 'a list \<Rightarrow> 'a list" where
  "take_last n xs = drop (length xs - n) xs"

definition context_of :: "win_key \<Rightarrow> engine_state \<Rightarrow> feature_context" where
  "context_of k st = (case k of (scope, asset, start, interval) \<Rightarrow>
    (let prior = filter (\<lambda>(k', es). earlier k k') (es_events st);
         volumes = map (raw_volume \<circ> snd) (sort_key (\<lambda>((sc, a, s, i), es). s) prior)
     in \<lparr>fx_market_state = (case es_source_states st (scope, asset, sd_market) of
             None \<Rightarrow> missing_source | Some so \<Rightarrow> so),
         fx_social_state = (case es_source_states st (scope, asset, sd_social) of
             None \<Rightarrow> missing_source | Some so \<Rightarrow> so),
         fx_author_first_seen = (\<lambda>a. es_author_first_seen st (scope, asset, a)),
         fx_trailing_volumes = filter (\<lambda>v. v > 0) (take_last 20 volumes),
         fx_prior_window_count = length prior\<rparr>))"

definition window_uuid :: "py_env \<Rightarrow> win_key \<Rightarrow> uuid" where
  "window_uuid env = (\<lambda>(scope, asset, start, interval). env_uuid5 env
     (''feature:'' @ scope @ '':'' @ asset @ '':'' @ env_str_datetime env start @ '':'' @ show_int interval))"

definition lineage_of ::
    "py_env \<Rightarrow> (feature_signal list \<Rightarrow> string) \<Rightarrow> uuid \<Rightarrow> nat \<Rightarrow> feature_signal list \<Rightarrow> feature_lineage" where
  "lineage_of env dump window revision es =
    (let hash = env_sha256 env (dump es)
     in \<lparr>fl_lineage_id = env_uuid5 env (''lineage:'' @ window @ '':'' @ show_nat revision @ '':'' @ hash),
         fl_source_event_ids = map sg_event_id es,
         fl_source_event_min_time = (if es = [] then None else Some (sg_event_time (hd es))),
         fl_source_event_max_time = (if es = [] then None else Some (sg_event_time (last es))),
         fl_source_count = length es, fl_source_hash = hash\<rparr>)"

text \<open>The state of the next revision after the earlier ones.\<close>

definition next_state :: "feature_snapshot list \<Rightarrow> bool \<Rightarrow> revision_state \<times> nat option" where
  "next_state prior should_finalize =
    (if prior \<noteq> [] \<and> fs_revision_state (last prior) \<in> {rs_final, rs_corrected}
     then (rs_corrected, Some (fs_revision (last prior)))
     else if should_finalize then (rs_final, None) else (rs_provisional, None))"

definition snapshot_of ::
    "py_env \<Rightarrow> (feature_signal list \<Rightarrow> string) \<Rightarrow> engine_config \<Rightarrow> win_key \<Rightarrow> feature_snapshot list \<Rightarrow> bool
     \<Rightarrow> feature_signal list \<Rightarrow> features \<Rightarrow> feature_snapshot" where
  "snapshot_of env dump cfg k prior should_finalize es fs = (case k of (scope, asset, start, interval) \<Rightarrow>
    (let revision = length prior + 1; (state, supersedes) = next_state prior should_finalize
     in \<lparr>fs_feature_window_id = window_uuid env k, fs_scope_id = scope, fs_asset_id = asset,
         fs_window_start = start, fs_window_end = window_end_of k, fs_interval_seconds = interval,
         fs_revision = revision, fs_is_final = (state \<noteq> rs_provisional),
         fs_revision_state = state, fs_supersedes_revision = supersedes,
         fs_feature_schema_version = ec_schema_version cfg,
         fs_feature_schema_hash = FEATURE_SCHEMA_HASH, fs_features = fs,
         fs_lineage = lineage_of env dump (window_uuid env k) revision es\<rparr>))"

definition order_events :: "feature_signal list \<Rightarrow> feature_signal list" where
  "order_events es = sort_key (\<lambda>s. (sg_event_time s, sg_event_id s)) es"

text \<open>\<open>_build_revision\<close>. A missing window would raise a key error.\<close>

definition build_revision ::
    "py_env \<Rightarrow> (feature_signal list \<Rightarrow> string) \<Rightarrow> engine_config \<Rightarrow> win_key \<Rightarrow> bool \<Rightarrow> engine_state
     \<Rightarrow> feature_snapshot res \<times> engine_state" where
  "build_revision env dump cfg k force_final st = (case k of (scope, asset, start, interval) \<Rightarrow>
    (case map_of (es_events st) k of
       None \<Rightarrow> (Inl (KeyError ''window''), st)
     | Some raw \<Rightarrow>
        (let es = order_events raw; prior = revisions_at k st
         in case watermark cfg scope asset st of
              (Inl e, st1) \<Rightarrow> (Inl e, st1)
            | (Inr w, st1) \<Rightarrow>
               (let should_finalize = force_final \<or> (w \<noteq> None \<and> window_end_of k \<le> the w)
                in case compute_features (context_of k st1) start (window_end_of k) es of
                     Inl e \<Rightarrow> (Inl e, st1)
                   | Inr fs \<Rightarrow>
                      (case feature_order_matches_schema
                              (snapshot_of env dump cfg k prior should_finalize es fs) of
                         Inl e \<Rightarrow> (Inl e, st1)
                       | Inr snap \<Rightarrow> (Inr snap,
                           st1\<lparr>es_revisions := AList.update k (prior @ [snap]) (es_revisions st1)\<rparr>))))))"

section \<open>Ingestion\<close>

text \<open>Building the revisions of a list of windows; each later window of a signal keeps its
  finality.\<close>

fun rebuild ::
    "py_env \<Rightarrow> (feature_signal list \<Rightarrow> string) \<Rightarrow> engine_config \<Rightarrow> win_key list \<Rightarrow> engine_state
     \<Rightarrow> feature_snapshot list res \<times> engine_state" where
  "rebuild env dump cfg [] st = (Inr [], st)"
| "rebuild env dump cfg (k # ks) st =
    (case build_revision env dump cfg k (fs_is_final (last (revisions_at k st))) st of
       (Inl e, st1) \<Rightarrow> (Inl e, st1)
     | (Inr snap, st1) \<Rightarrow>
        (case rebuild env dump cfg ks st1 of
           (Inl e, st2) \<Rightarrow> (Inl e, st2)
         | (Inr snaps, st2) \<Rightarrow> (Inr (snap # snaps), st2)))"

definition downstream :: "win_key \<Rightarrow> engine_state \<Rightarrow> win_key list" where
  "downstream k st =
     sort_key (\<lambda>(sc, a, s, i). s) (filter (\<lambda>k'. earlier k' k) (map fst (es_revisions st)))"

fun ingest_intervals ::
    "py_env \<Rightarrow> (feature_signal list \<Rightarrow> string) \<Rightarrow> engine_config \<Rightarrow> feature_signal \<Rightarrow> int list \<Rightarrow> engine_state
     \<Rightarrow> feature_snapshot list res \<times> engine_state" where
  "ingest_intervals env dump cfg sg [] st = (Inr [], st)"
| "ingest_intervals env dump cfg sg (interval # intervals) st =
    (let k = (sg_scope_id sg, sg_asset_id sg, floor_window (sg_event_time sg) interval, interval);
         st1 = st\<lparr>es_events := AList.update k (events_at k st @ [sg]) (es_events st)\<rparr>
     in case build_revision env dump cfg k False st1 of
          (Inl e, st2) \<Rightarrow> (Inl e, st2)
        | (Inr snap, st2) \<Rightarrow>
           (case rebuild env dump cfg (downstream k st2) st2 of
              (Inl e, st3) \<Rightarrow> (Inl e, st3)
            | (Inr snaps, st3) \<Rightarrow>
               (case ingest_intervals env dump cfg sg intervals st3 of
                  (Inl e, st4) \<Rightarrow> (Inl e, st4)
                | (Inr rest, st4) \<Rightarrow> (Inr (snap # snaps @ rest), st4))))"

text \<open>\<open>_finalize_eligible\<close>: the windows of the asset that are not final and end at or before the
  watermark.\<close>

fun finalize_loop ::
    "py_env \<Rightarrow> (feature_signal list \<Rightarrow> string) \<Rightarrow> engine_config \<Rightarrow> string \<Rightarrow> string \<Rightarrow> datetime
     \<Rightarrow> win_key list \<Rightarrow> engine_state \<Rightarrow> feature_snapshot list res \<times> engine_state" where
  "finalize_loop env dump cfg scope asset w [] st = (Inr [], st)"
| "finalize_loop env dump cfg scope asset w (k # ks) st =
    (if fst k \<noteq> scope \<or> fst (snd k) \<noteq> asset \<or> fs_is_final (last (revisions_at k st)) \<or> \<not> window_end_of k \<le> w
     then finalize_loop env dump cfg scope asset w ks st
     else case build_revision env dump cfg k True st of
            (Inl e, st1) \<Rightarrow> (Inl e, st1)
          | (Inr snap, st1) \<Rightarrow>
             (case finalize_loop env dump cfg scope asset w ks st1 of
                (Inl e, st2) \<Rightarrow> (Inl e, st2)
              | (Inr snaps, st2) \<Rightarrow> (Inr (snap # snaps), st2)))"

definition finalize_eligible ::
    "py_env \<Rightarrow> (feature_signal list \<Rightarrow> string) \<Rightarrow> engine_config \<Rightarrow> string \<Rightarrow> string \<Rightarrow> engine_state
     \<Rightarrow> feature_snapshot list res \<times> engine_state" where
  "finalize_eligible env dump cfg scope asset st =
    (case watermark cfg scope asset st of
       (Inl e, st1) \<Rightarrow> (Inl e, st1)
     | (Inr None, st1) \<Rightarrow> (Inr [], st1)
     | (Inr (Some w), st1) \<Rightarrow>
         finalize_loop env dump cfg scope asset w (map fst (es_revisions st1)) st1)"

text \<open>What \<open>ingest\<close> records of a new signal before it builds revisions.\<close>

definition source_update :: "feature_signal \<Rightarrow> source_state \<Rightarrow> source_state" where
  "source_update sg so =
    (if sg_kind sg = sk_data_quality
     then \<lparr>so_active = truthy (value_or sg ''source_active'' (PBool True)),
           so_idle = truthy (value_or sg ''source_idle'' (PBool False)),
           so_degraded = truthy (value_or sg ''source_degraded'' (PBool False))\<rparr>
     else so\<lparr>so_active := True, so_idle := False\<rparr>)"

definition note_signal :: "feature_signal \<Rightarrow> engine_state \<Rightarrow> engine_state" where
  "note_signal sg st =
    (let source = (sg_scope_id sg, sg_asset_id sg, sg_source_domain sg);
         t = sg_event_time sg;
         so = (case es_source_states st source of
            None \<Rightarrow> \<lparr>so_active = True, so_idle = False, so_degraded = False\<rparr> | Some so \<Rightarrow> so);
         authors = (case value_of sg ''author_id'' of
            PStr a \<Rightarrow> (let key = (sg_scope_id sg, sg_asset_id sg, a)
              in (es_author_first_seen st)(key \<mapsto>
                   (case es_author_first_seen st key of None \<Rightarrow> t | Some u \<Rightarrow> min t u)))
          | _ \<Rightarrow> es_author_first_seen st)
     in st\<lparr>es_seen := insert (sg_scope_id sg, sg_event_id sg) (es_seen st),
           es_signal_log := es_signal_log st @ [sg],
           es_max_event_time := (es_max_event_time st)(source \<mapsto>
             (case es_max_event_time st source of None \<Rightarrow> t | Some u \<Rightarrow> max t u)),
           es_source_states := (es_source_states st)(source \<mapsto> source_update sg so),
           es_author_first_seen := authors\<rparr>)"

definition ingest ::
    "py_env \<Rightarrow> (feature_signal list \<Rightarrow> string) \<Rightarrow> engine_config \<Rightarrow> feature_signal \<Rightarrow> engine_state
     \<Rightarrow> feature_snapshot list res \<times> engine_state" where
  "ingest env dump cfg sg st =
    (if (sg_scope_id sg, sg_event_id sg) \<in> es_seen st then (Inr [], st)
     else case ingest_intervals env dump cfg sg (ec_intervals cfg) (note_signal sg st) of
            (Inl e, st1) \<Rightarrow> (Inl e, st1)
          | (Inr changed, st1) \<Rightarrow>
             (case finalize_eligible env dump cfg (sg_scope_id sg) (sg_asset_id sg) st1 of
                (Inl e, st2) \<Rightarrow> (Inl e, st2)
              | (Inr finals, st2) \<Rightarrow> (Inr (changed @ finals), st2)))"

section \<open>Checkpoints\<close>

definition state_version :: string where
  "state_version = ''feature-engine-state-v1''"

text \<open>\<open>model_dump\<close> of a signal is the argument \<open>enc\<close>, \<open>model_validate\<close> the argument \<open>dec\<close>.\<close>

definition export_state :: "(feature_signal \<Rightarrow> py_value) \<Rightarrow> engine_state \<Rightarrow> (string \<times> py_value) list" where
  "export_state enc st = [(''state_version'', PStr state_version),
     (''signals'', PList (map enc (es_signal_log st)))]"

fun restore_signals ::
    "py_env \<Rightarrow> (feature_signal list \<Rightarrow> string) \<Rightarrow> engine_config \<Rightarrow> (py_value \<Rightarrow> feature_signal res)
     \<Rightarrow> py_value list \<Rightarrow> engine_state \<Rightarrow> unit res \<times> engine_state" where
  "restore_signals env dump cfg dec [] st = (Inr (), st)"
| "restore_signals env dump cfg dec (v # vs) st =
    (case dec v of
       Inl e \<Rightarrow> (Inl e, st)
     | Inr sg \<Rightarrow> (case ingest env dump cfg sg st of
         (Inl e, st1) \<Rightarrow> (Inl e, st1)
       | (Inr _, st1) \<Rightarrow> restore_signals env dump cfg dec vs st1))"

definition restore_state ::
    "py_env \<Rightarrow> (feature_signal list \<Rightarrow> string) \<Rightarrow> engine_config \<Rightarrow> (py_value \<Rightarrow> feature_signal res)
     \<Rightarrow> (string \<times> py_value) list \<Rightarrow> engine_state \<Rightarrow> nat res \<times> engine_state" where
  "restore_state env dump cfg dec state st =
    (if es_signal_log st \<noteq> []
     then (Inl (RuntimeError ''feature state can only be restored into an empty engine''), st)
     else if map_of state ''state_version'' \<noteq> Some (PStr state_version)
     then (Inl (ValueError ''unsupported feature checkpoint state version''), st)
     else case map_of state ''signals'' of
            Some (PList raw) \<Rightarrow>
              (case restore_signals env dump cfg dec raw st of
                 (Inl e, st1) \<Rightarrow> (Inl e, st1)
               | (Inr _, st1) \<Rightarrow> (Inr (length raw), st1))
          | _ \<Rightarrow> (Inl (ValueError ''feature checkpoint signals must be a list''), st))"

text \<open>A run ingests a list of signals; an exception is the caller's, the engine lives on.\<close>

fun engine_run ::
    "py_env \<Rightarrow> (feature_signal list \<Rightarrow> string) \<Rightarrow> engine_config \<Rightarrow> feature_signal list \<Rightarrow> engine_state
     \<Rightarrow> engine_state" where
  "engine_run env dump cfg [] st = st"
| "engine_run env dump cfg (sg # sgs) st =
     engine_run env dump cfg sgs (snd (ingest env dump cfg sg st))"

section \<open>The in-memory feature repository\<close>

record feature_repo =
  fy_snapshots :: "(string \<times> nat) \<rightharpoonup> feature_snapshot"
  fy_history :: "feature_snapshot list"

definition repo_empty :: feature_repo where
  "repo_empty = \<lparr>fy_snapshots = Map.empty, fy_history = []\<rparr>"

definition persist_snapshot :: "feature_snapshot \<Rightarrow> feature_repo \<Rightarrow> bool \<times> feature_repo" where
  "persist_snapshot s r =
    (let identity = (fs_feature_window_id s, fs_revision s)
     in if fy_snapshots r identity \<noteq> None then (False, r)
        else (True, r\<lparr>fy_snapshots := (fy_snapshots r)(identity \<mapsto> s), fy_history := fy_history r @ [s]\<rparr>))"

end
