(* ===== verification/Feature_Engine_Correct.thy ===== *)
theory Feature_Engine_Correct
  imports Feature_Engine
begin

text \<open>
  Properties of the feature window engine: the watermark is stable under its own side effect,
  revision histories are well formed, windows become final exactly when the watermark has
  passed them, redelivered signals are ignored, and checkpoints round trip.
\<close>

section \<open>The watermark settles\<close>

text \<open>The effect on one source state and the value, given the newest time of the asset and of the
  source.\<close>

definition silent :: "engine_config \<Rightarrow> datetime option \<Rightarrow> datetime option \<Rightarrow> bool" where
  "silent cfg newest maximum \<longleftrightarrow>
     newest \<noteq> None \<and> maximum \<noteq> None \<and> the newest - the maximum \<ge> ec_source_idle_after cfg"

definition settle :: "engine_config \<Rightarrow> datetime option \<Rightarrow> datetime option \<Rightarrow> source_state \<Rightarrow> source_state" where
  "settle cfg newest maximum so =
     (if \<not> so_degraded so \<and> silent cfg newest maximum then so\<lparr>so_active := True, so_idle := True\<rparr> else so)"

definition mark :: "engine_config \<Rightarrow> datetime option \<Rightarrow> datetime option \<Rightarrow> source_state option \<Rightarrow> datetime option" where
  "mark cfg newest maximum found =
     (case found of None \<Rightarrow> None
      | Some so \<Rightarrow>
          if so_degraded so then None
          else if silent cfg newest maximum \<or> so_idle so \<and> newest \<noteq> None
          then Some (the newest - ec_allowed_lateness cfg)
          else map_option (\<lambda>t. t - ec_allowed_lateness cfg) maximum)"

lemma settle_idem [simp]: "settle cfg n m (settle cfg n m so) = settle cfg n m so"
  by (simp add: settle_def)

lemma mark_settled [simp]: "mark cfg n m (map_option (settle cfg n m) found) = mark cfg n m found"
  by (cases found) (auto simp: mark_def settle_def silent_def)

definition settled_states ::
    "engine_config \<Rightarrow> string \<Rightarrow> string \<Rightarrow> datetime option \<Rightarrow> source_domain set \<Rightarrow> engine_state
     \<Rightarrow> source_key \<Rightarrow> source_state option" where
  "settled_states cfg scope asset newest D st = (\<lambda>(sc, a, d).
     if sc = scope \<and> a = asset \<and> d \<in> D
     then map_option (settle cfg newest (es_max_event_time st (sc, a, d))) (es_source_states st (sc, a, d))
     else es_source_states st (sc, a, d))"

lemma domain_watermark_eq:
  "domain_watermark cfg scope asset newest d st =
    (mark cfg newest (es_max_event_time st (scope, asset, d)) (es_source_states st (scope, asset, d)),
     st\<lparr>es_source_states := settled_states cfg scope asset newest {d} st\<rparr>)"
proof -
  have id: "st\<lparr>es_source_states := settled_states cfg scope asset newest {d} st\<rparr> = st"
    if "map_option (settle cfg newest (es_max_event_time st (scope, asset, d))) (es_source_states st (scope, asset, d))
        = es_source_states st (scope, asset, d)"
  proof -
    have "settled_states cfg scope asset newest {d} st = es_source_states st"
      using that by (auto simp: settled_states_def fun_eq_iff)
    then show ?thesis by simp
  qed
  show ?thesis
  proof (cases "es_source_states st (scope, asset, d)")
    case None
    then show ?thesis using id by (simp add: domain_watermark_def mark_def)
  next
    case (Some so)
    show ?thesis
    proof (cases "\<not> so_degraded so \<and> silent cfg newest (es_max_event_time st (scope, asset, d))")
      case True
      then have "settled_states cfg scope asset newest {d} st =
          (es_source_states st)((scope, asset, d) \<mapsto> so\<lparr>so_active := True, so_idle := True\<rparr>)"
        using Some by (auto simp: settled_states_def settle_def fun_eq_iff)
      with True Some show ?thesis
        by (simp add: domain_watermark_def mark_def silent_def Let_def)
    next
      case False
      then have "settle cfg newest (es_max_event_time st (scope, asset, d)) so = so"
        by (auto simp: settle_def)
      with Some have "st\<lparr>es_source_states := settled_states cfg scope asset newest {d} st\<rparr> = st"
        by (intro id) simp
      with False Some show ?thesis
        by (auto simp: domain_watermark_def mark_def silent_def Let_def)
    qed
  qed
qed

lemma settled_states_insert:
  "settled_states cfg scope asset newest D (st\<lparr>es_source_states := settled_states cfg scope asset newest {d} st\<rparr>)
     = settled_states cfg scope asset newest (insert d D) st"
  by (auto simp: settled_states_def fun_eq_iff option.map_comp comp_def)

lemma settled_states_empty [simp]: "settled_states cfg scope asset newest {} st = es_source_states st"
  by (auto simp: settled_states_def)

definition marks_of ::
    "engine_config \<Rightarrow> string \<Rightarrow> string \<Rightarrow> datetime option \<Rightarrow> engine_state \<Rightarrow> source_domain \<Rightarrow> datetime option" where
  "marks_of cfg scope asset newest st d =
     mark cfg newest (es_max_event_time st (scope, asset, d)) (es_source_states st (scope, asset, d))"

lemma marks_of_settled [simp]:
  "marks_of cfg scope asset newest (st\<lparr>es_source_states := settled_states cfg scope asset newest D st\<rparr>) d
     = marks_of cfg scope asset newest st d"
  by (simp add: marks_of_def settled_states_def)

lemma domain_watermarks_eq:
  "domain_watermarks cfg scope asset newest ds acc st =
    (fold (\<lambda>d. AList.update (source_domain_value d) (marks_of cfg scope asset newest st d)) ds acc,
     st\<lparr>es_source_states := settled_states cfg scope asset newest (set ds) st\<rparr>)"
proof (induction ds arbitrary: acc st)
  case Nil
  then show ?case by simp
next
  case (Cons d ds)
  let ?st = "st\<lparr>es_source_states := settled_states cfg scope asset newest {d} st\<rparr>"
  have d: "domain_watermark cfg scope asset newest d st = (marks_of cfg scope asset newest st d, ?st)"
    by (simp add: domain_watermark_eq marks_of_def)
  have m: "marks_of cfg scope asset newest ?st = marks_of cfg scope asset newest st"
    by (rule ext) simp
  show ?case
    by (simp add: d Cons m settled_states_insert)
qed

lemma global_max_cong:
  "es_max_event_time st = es_max_event_time st' \<Longrightarrow> global_max scope asset st = global_max scope asset st'"
  by (simp add: global_max_def observed_times_def)

definition settled :: "engine_config \<Rightarrow> string \<Rightarrow> string \<Rightarrow> engine_state \<Rightarrow> source_key \<Rightarrow> source_state option" where
  "settled cfg scope asset st =
     settled_states cfg scope asset (global_max scope asset st) (set (ec_required_domains cfg)) st"

definition fusion_mark :: "engine_config \<Rightarrow> string \<Rightarrow> string \<Rightarrow> engine_state \<Rightarrow> datetime option" where
  "fusion_mark cfg scope asset st = fusion_watermark cfg
     (fold (\<lambda>d. AList.update (source_domain_value d) (marks_of cfg scope asset (global_max scope asset st) st d))
        (ec_required_domains cfg) [])"

lemma watermark_eq:
  "watermark cfg scope asset st =
    (if ec_required_domains cfg = [] then Inl (ValueError ''min() arg is an empty sequence'')
     else Inr (fusion_mark cfg scope asset st),
     st\<lparr>es_source_states := settled cfg scope asset st\<rparr>)"
  by (simp add: watermark_def watermarks_def domain_watermarks_eq fusion_mark_def settled_def update_conv')

text \<open>Both parts depend only on the event times and source states, and settle.\<close>

lemma fusion_mark_cong:
  "es_max_event_time st' = es_max_event_time st \<Longrightarrow>
   es_source_states st' = es_source_states st \<or> es_source_states st' = settled cfg scope asset st \<Longrightarrow>
   fusion_mark cfg scope asset st' = fusion_mark cfg scope asset st \<and>
   settled cfg scope asset st' = settled cfg scope asset st"
proof (elim disjE)
  assume m: "es_max_event_time st' = es_max_event_time st" and s: "es_source_states st' = es_source_states st"
  have "marks_of cfg scope asset n st' = marks_of cfg scope asset n st" for n
    by (rule ext) (simp add: marks_of_def m s)
  moreover have "settled_states cfg scope asset n D st' = settled_states cfg scope asset n D st" for n D
    by (auto simp: settled_states_def m s)
  ultimately show ?thesis
    using global_max_cong [OF m] by (simp add: fusion_mark_def settled_def)
next
  assume m: "es_max_event_time st' = es_max_event_time st" and s: "es_source_states st' = settled cfg scope asset st"
  have "marks_of cfg scope asset (global_max scope asset st) st' = marks_of cfg scope asset (global_max scope asset st) st"
    by (rule ext) (simp add: marks_of_def m s settled_def settled_states_def)
  moreover have "settled_states cfg scope asset n D st' = settled_states cfg scope asset n D st"
    if "es_source_states st' = settled_states cfg scope asset n D st" for n D
    by (auto simp: settled_states_def that m fun_eq_iff option.map_comp comp_def)
  ultimately show ?thesis
    using global_max_cong [OF m] s by (simp add: fusion_mark_def settled_def)
qed

section \<open>Revision histories\<close>

definition matches :: "py_env \<Rightarrow> win_key \<Rightarrow> feature_snapshot \<Rightarrow> bool" where
  "matches env k s \<longleftrightarrow> (fs_scope_id s, fs_asset_id s, fs_window_start s, fs_interval_seconds s) = k \<and>
     fs_window_end s = window_end_of k \<and> fs_feature_window_id s = window_uuid env k"

text \<open>A snapshot that continues the earlier revisions of its window.\<close>

definition follows :: "py_env \<Rightarrow> win_key \<Rightarrow> feature_snapshot list \<Rightarrow> feature_snapshot \<Rightarrow> bool" where
  "follows env k prior s \<longleftrightarrow> matches env k s \<and> valid_snapshot s \<and> fs_revision s = Suc (length prior) \<and>
     (if prior \<noteq> [] \<and> fs_is_final (last prior)
      then fs_revision_state s = rs_corrected \<and> fs_supersedes_revision s = Some (fs_revision (last prior))
      else fs_revision_state s \<noteq> rs_corrected \<and> fs_supersedes_revision s = None)"

definition wf_window :: "py_env \<Rightarrow> win_key \<Rightarrow> feature_snapshot list \<Rightarrow> bool" where
  "wf_window env k rs \<longleftrightarrow> (\<forall>i < length rs. follows env k (take i rs) (rs ! i))"

lemma wf_window_Nil [simp]: "wf_window env k []"
  by (simp add: wf_window_def)

lemma wf_window_snoc: "wf_window env k (rs @ [s]) \<longleftrightarrow> wf_window env k rs \<and> follows env k rs s"
  by (auto simp: wf_window_def nth_append less_Suc_eq)

lemma wf_window_last:
  assumes "wf_window env k rs" "rs \<noteq> []"
  shows "follows env k (butlast rs) (last rs)"
  using wf_window_snoc [of env k "butlast rs" "last rs"] assms by simp

lemma wf_window_last_revision:
  "wf_window env k rs \<Longrightarrow> rs \<noteq> [] \<Longrightarrow> fs_revision (last rs) = length rs \<and> valid_snapshot (last rs)"
  by (drule wf_window_last) (auto simp: follows_def)

lemma valid_snapshot_accepted:
  assumes "valid_snapshot s"
  shows "feature_order_matches_schema s = Inr s"
proof -
  have keys: "map fst (fs_features s) = FEATURE_NAMES" using assms by (simp add: valid_snapshot_def)
  then have "length (fs_features s) = length FEATURE_NAMES" "set (map fst (fs_features s)) = set FEATURE_NAMES"
    by (metis length_map) (simp only: keys)
  then show ?thesis
    using assms unfolding feature_order_matches_schema_def valid_snapshot_def reorder_features_id [OF keys]
    by simp
qed

lemma feature_order_Inr:
  assumes "feature_order_matches_schema s = Inr t" "map fst (fs_features s) = FEATURE_NAMES"
  shows "t = s" "valid_snapshot s"
proof -
  have "t = s\<lparr>fs_features := reorder_features (fs_features s)\<rparr>"
    using assms(1) by (auto simp: feature_order_matches_schema_def split: if_splits)
  then show "t = s" by (simp add: reorder_features_id [OF assms(2)])
  then show "valid_snapshot s" using feature_order_valid [OF assms(1)] by simp
qed

section \<open>What building a revision does\<close>

definition window_asset :: "win_key \<Rightarrow> string \<times> string" where
  "window_asset k = (fst k, fst (snd k))"

definition look :: "engine_config \<Rightarrow> string \<times> string \<Rightarrow> engine_state \<Rightarrow> engine_state" where
  "look cfg sa st = st\<lparr>es_source_states := settled cfg (fst sa) (snd sa) st\<rparr>"

lemma look_sel [simp]:
  "es_events (look cfg sa st) = es_events st" "es_revisions (look cfg sa st) = es_revisions st"
  "es_max_event_time (look cfg sa st) = es_max_event_time st" "es_seen (look cfg sa st) = es_seen st"
  "es_signal_log (look cfg sa st) = es_signal_log st"
  "es_author_first_seen (look cfg sa st) = es_author_first_seen st"
  "revisions_at k (look cfg sa st) = revisions_at k st"
  by (simp_all add: look_def revisions_at_def)

definition append_revision :: "win_key \<Rightarrow> feature_snapshot \<Rightarrow> engine_state \<Rightarrow> engine_state" where
  "append_revision k s st = st\<lparr>es_revisions := AList.update k (revisions_at k st @ [s]) (es_revisions st)\<rparr>"

lemma append_revision_sel [simp]:
  "es_events (append_revision k s st) = es_events st"
  "es_max_event_time (append_revision k s st) = es_max_event_time st"
  "es_seen (append_revision k s st) = es_seen st"
  "es_signal_log (append_revision k s st) = es_signal_log st"
  "es_source_states (append_revision k s st) = es_source_states st"
  by (simp_all add: append_revision_def)

lemma revisions_at_append:
  "revisions_at j (append_revision k s st) = (if j = k then revisions_at k st @ [s] else revisions_at j st)"
  by (auto simp: revisions_at_def append_revision_def update_conv')

lemma append_revision_keys:
  "set (map fst (es_revisions (append_revision k s st))) = insert k (set (map fst (es_revisions st)))"
  "distinct (map fst (es_revisions st)) \<Longrightarrow> distinct (map fst (es_revisions (append_revision k s st)))"
  by (simp_all add: append_revision_def dom_update distinct_update image_set [symmetric] del: list.set_map)

definition mark_now :: "engine_config \<Rightarrow> string \<times> string \<Rightarrow> engine_state \<Rightarrow> datetime option" where
  "mark_now cfg sa st = fusion_mark cfg (fst sa) (snd sa) st"

definition passed :: "datetime option \<Rightarrow> win_key \<Rightarrow> bool" where
  "passed w k \<longleftrightarrow> w \<noteq> None \<and> window_end_of k \<le> the w"

lemma revisions_at_mem: "revisions_at k st \<noteq> [] \<Longrightarrow> k \<in> set (map fst (es_revisions st))"
  by (auto simp: revisions_at_def split: option.splits dest: map_of_SomeD intro: rev_image_eqI)

lemma build_revision_appends:
  assumes "build_revision env dump cfg k ff st = (Inr s, st')"
  shows "set (map fst (es_revisions st')) = insert k (set (map fst (es_revisions st)))"
    "\<forall>j. revisions_at j st \<noteq> [] \<longrightarrow> revisions_at j st' \<noteq> []"
proof -
  obtain so where "st' = append_revision k s (st\<lparr>es_source_states := so\<rparr>)"
    using assms by (auto simp: build_revision_def watermark_eq Let_def append_revision_def revisions_at_def
        split: prod.splits option.splits sum.splits if_splits)
  moreover have "revisions_at j (st\<lparr>es_source_states := so\<rparr>) = revisions_at j st" for j
    by (simp add: revisions_at_def)
  ultimately have j: "revisions_at j st' = (if j = k then revisions_at k st @ [s] else revisions_at j st)"
      and keys: "set (map fst (es_revisions st')) = insert k (set (map fst (es_revisions st)))" for j
    by (simp_all only: append_revision_keys revisions_at_append) simp
  show "set (map fst (es_revisions st')) = insert k (set (map fst (es_revisions st)))" by (rule keys)
  show "\<forall>j. revisions_at j st \<noteq> [] \<longrightarrow> revisions_at j st' \<noteq> []"
  proof
    fix i
    show "revisions_at i st \<noteq> [] \<longrightarrow> revisions_at i st' \<noteq> []" by (simp add: j [of i])
  qed
qed

lemma build_revision_state:
  "snd (build_revision env dump cfg k ff st) = st \<or>
   snd (build_revision env dump cfg k ff st) = look cfg (window_asset k) st \<or>
   (\<exists>s. fst (build_revision env dump cfg k ff st) = Inr s)"
  by (auto simp: build_revision_def watermark_eq look_def window_asset_def Let_def split: prod.split option.split sum.split)

lemma build_revision_Inr:
  assumes "build_revision env dump cfg k ff st = (Inr s, st')"
    and "\<forall>r \<in> set (revisions_at k st). valid_snapshot r"
  shows "st' = append_revision k s (look cfg (window_asset k) st)" "k \<in> set (map fst (es_events st))"
    "ec_required_domains cfg \<noteq> []" "follows env k (revisions_at k st) s"
    "fs_is_final s \<longleftrightarrow> ff \<or> passed (mark_now cfg (window_asset k) st) k \<or>
       (revisions_at k st \<noteq> [] \<and> fs_is_final (last (revisions_at k st)))"
proof -
  obtain scope asset start interval where k: "k = (scope, asset, start, interval)" by (cases k)
  have sa: "window_asset k = (scope, asset)" by (simp add: k window_asset_def)
  let ?w = "fusion_mark cfg scope asset st"
  let ?ff = "ff \<or> passed ?w k"
  have w: "(?w \<noteq> None \<and> window_end_of k \<le> the ?w) = passed ?w k" by (simp add: passed_def)
  obtain raw fs where raw: "map_of (es_events st) k = Some raw" and req: "ec_required_domains cfg \<noteq> []"
    and fs: "compute_features (context_of k (look cfg (window_asset k) st)) start (window_end_of k) (order_events raw) = Inr fs"
    and v: "feature_order_matches_schema (snapshot_of env dump cfg k (revisions_at k st) ?ff (order_events raw) fs) = Inr s"
    and st': "st' = append_revision k s (look cfg (window_asset k) st)"
    using assms(1)
    unfolding build_revision_def k prod.case watermark_eq
    by (auto simp: k [symmetric] sa look_def passed_def append_revision_def revisions_at_def Let_def
        split: option.splits sum.splits if_splits)
  show "st' = append_revision k s (look cfg (window_asset k) st)" by (rule st')
  show "ec_required_domains cfg \<noteq> []" by (rule req)
  show "k \<in> set (map fst (es_events st))"
    using raw by (auto dest: map_of_SomeD intro: rev_image_eqI)
  have keys: "map fst (fs_features (snapshot_of env dump cfg k (revisions_at k st) ?ff (order_events raw) fs)) = FEATURE_NAMES"
    using compute_features_keys [OF fs] by (simp add: snapshot_of_def k Let_def split_beta)
  have s: "s = snapshot_of env dump cfg k (revisions_at k st) ?ff (order_events raw) fs"
    and valid: "valid_snapshot s"
    using feature_order_Inr [OF v keys] by simp_all
  have last: "fs_is_final (last (revisions_at k st)) \<longleftrightarrow> fs_revision_state (last (revisions_at k st)) \<in> {rs_final, rs_corrected}"
    if "revisions_at k st \<noteq> []"
    using bspec [OF assms(2) last_in_set [OF that]] by (cases "fs_revision_state (last (revisions_at k st))") (auto simp: valid_snapshot_def)
  show "follows env k (revisions_at k st) s"
    using valid last unfolding follows_def
    by (auto simp: s matches_def snapshot_of_def k Let_def split_beta next_state_def)
  show "fs_is_final s \<longleftrightarrow> ff \<or> passed (mark_now cfg (window_asset k) st) k \<or>
       (revisions_at k st \<noteq> [] \<and> fs_is_final (last (revisions_at k st)))"
    using last by (auto simp: s snapshot_of_def k Let_def split_beta next_state_def mark_now_def sa [unfolded k])
qed

section \<open>The evolution of the engine\<close>

definition signal_key :: "feature_signal \<Rightarrow> int \<Rightarrow> win_key" where
  "signal_key sg i = (sg_scope_id sg, sg_asset_id sg, floor_window (sg_event_time sg) i, i)"

definition add_event :: "win_key \<Rightarrow> feature_signal \<Rightarrow> engine_state \<Rightarrow> engine_state" where
  "add_event k sg st = st\<lparr>es_events := AList.update k (events_at k st @ [sg]) (es_events st)\<rparr>"

lemma add_event_sel [simp]:
  "es_revisions (add_event k sg st) = es_revisions st"
  "es_max_event_time (add_event k sg st) = es_max_event_time st"
  "es_seen (add_event k sg st) = es_seen st" "es_signal_log (add_event k sg st) = es_signal_log st"
  "es_source_states (add_event k sg st) = es_source_states st"
  "revisions_at j (add_event k sg st) = revisions_at j st"
  by (simp_all add: add_event_def revisions_at_def)

lemma events_at_add:
  "events_at j (add_event k sg st) = (if j = k then events_at k st @ [sg] else events_at j st)"
  by (auto simp: events_at_def add_event_def update_conv')

text \<open>The steps an ingestion for one asset consists of, with the snapshots they produce.\<close>

inductive evolves ::
    "py_env \<Rightarrow> engine_config \<Rightarrow> string \<times> string \<Rightarrow> engine_state \<Rightarrow> feature_snapshot list \<Rightarrow> engine_state \<Rightarrow> bool"
  for env :: py_env and cfg :: engine_config and sa :: "string \<times> string" where
  ev_refl: "evolves env cfg sa st [] st"
| ev_event: "evolves env cfg sa st ss st1 \<Longrightarrow> sg \<in> set (es_signal_log st1) \<Longrightarrow> i \<in> set (ec_intervals cfg) \<Longrightarrow>
    evolves env cfg sa st ss (add_event (signal_key sg i) sg st1)"
| ev_look: "evolves env cfg sa st ss st1 \<Longrightarrow> evolves env cfg sa st ss (look cfg sa st1)"
| ev_build: "evolves env cfg sa st ss st1 \<Longrightarrow> window_asset k = sa \<Longrightarrow> k \<in> set (map fst (es_events st1)) \<Longrightarrow>
    follows env k (revisions_at k st1) s \<Longrightarrow>
    (fs_revision_state s = rs_final \<longrightarrow> passed (mark_now cfg sa st1) k) \<Longrightarrow>
    evolves env cfg sa st (ss @ [s]) (append_revision k s (look cfg sa st1))"

lemma evolves_trans:
  "evolves env cfg sa st1 ss' st2 \<Longrightarrow> evolves env cfg sa st ss st1 \<Longrightarrow> evolves env cfg sa st (ss @ ss') st2"
proof (induction rule: evolves.induct)
  case (ev_build st ss1 st1 k s)
  then show ?case
    using evolves.ev_build [of env cfg sa _ "ss @ ss1" st1 k s] by simp
qed (auto intro: evolves.intros)

lemma evolves_frame:
  "evolves env cfg sa st ss st' \<Longrightarrow>
     es_signal_log st' = es_signal_log st \<and> es_seen st' = es_seen st \<and> es_max_event_time st' = es_max_event_time st"
  by (induction rule: evolves.induct) simp_all

lemma mark_now_cong:
  "es_max_event_time st' = es_max_event_time st \<Longrightarrow>
   es_source_states st' = es_source_states st \<or> es_source_states st' = settled cfg (fst sa) (snd sa) st \<Longrightarrow>
   mark_now cfg sa st' = mark_now cfg sa st"
  unfolding mark_now_def using fusion_mark_cong by blast

lemma evolves_mark: "evolves env cfg sa st ss st' \<Longrightarrow> mark_now cfg sa st' = mark_now cfg sa st"
proof (induction rule: evolves.induct)
  case (ev_event st ss st1 sg i)
  have "mark_now cfg sa (add_event (signal_key sg i) sg st1) = mark_now cfg sa st1"
    by (rule mark_now_cong) simp_all
  with ev_event show ?case by simp
next
  case (ev_look st ss st1)
  have "mark_now cfg sa (look cfg sa st1) = mark_now cfg sa st1"
    by (rule mark_now_cong) (simp_all add: look_def)
  with ev_look show ?case by simp
next
  case (ev_build st ss st1 k s)
  have "mark_now cfg sa (append_revision k s (look cfg sa st1)) = mark_now cfg sa st1"
    by (rule mark_now_cong) (simp_all add: look_def)
  with ev_build show ?case by simp
qed simp

definition snapshot_key :: "feature_snapshot \<Rightarrow> win_key" where
  "snapshot_key s = (fs_scope_id s, fs_asset_id s, fs_window_start s, fs_interval_seconds s)"

lemma follows_key: "follows env k prior s \<Longrightarrow> snapshot_key s = k"
  by (simp add: follows_def matches_def snapshot_key_def)

lemma evolves_revisions:
  "evolves env cfg sa st ss st' \<Longrightarrow>
     revisions_at k st' = revisions_at k st @ filter (\<lambda>s. snapshot_key s = k) ss"
proof (induction rule: evolves.induct)
  case (ev_build st ss st1 k' s)
  then show ?case using follows_key [OF ev_build(4)] by (auto simp: revisions_at_append)
qed simp_all

lemma evolves_final:
  "evolves env cfg sa st ss st' \<Longrightarrow>
     \<forall>s \<in> set ss. (fs_scope_id s, fs_asset_id s) = sa \<and> fs_window_end s = window_end_of (snapshot_key s) \<and>
       (fs_revision_state s = rs_final \<longrightarrow> passed (mark_now cfg sa st) (snapshot_key s))"
proof (induction rule: evolves.induct)
  case (ev_build st ss st1 k s)
  have "(fs_scope_id s, fs_asset_id s) = window_asset k"
    using follows_key [OF ev_build(4)] by (auto simp: snapshot_key_def window_asset_def)
  moreover have "fs_window_end s = window_end_of k"
    using ev_build(4) by (simp add: follows_def matches_def)
  ultimately show ?case
    using ev_build evolves_mark [OF ev_build(1)] follows_key [OF ev_build(4)] by auto
qed simp_all

section \<open>The invariant\<close>

definition signal_id :: "feature_signal \<Rightarrow> string \<times> string" where
  "signal_id sg = (sg_scope_id sg, sg_event_id sg)"

definition keys_ok :: "engine_state \<Rightarrow> bool" where
  "keys_ok st \<longleftrightarrow> distinct (map fst (es_events st)) \<and> distinct (map fst (es_revisions st)) \<and>
     set (map fst (es_revisions st)) \<subseteq> set (map fst (es_events st)) \<and>
     (\<forall>k \<in> set (map fst (es_revisions st)). revisions_at k st \<noteq> [])"

definition histories_ok :: "py_env \<Rightarrow> engine_state \<Rightarrow> bool" where
  "histories_ok env st \<longleftrightarrow> (\<forall>k. wf_window env k (revisions_at k st))"

definition log_ok :: "engine_state \<Rightarrow> bool" where
  "log_ok st \<longleftrightarrow> distinct (map signal_id (es_signal_log st)) \<and> es_seen st = signal_id ` set (es_signal_log st)"

text \<open>Every event of a window is a logged signal that falls into the window.\<close>

definition events_ok :: "engine_config \<Rightarrow> engine_state \<Rightarrow> bool" where
  "events_ok cfg st \<longleftrightarrow> (\<forall>k. \<forall>sg \<in> set (events_at k st). sg \<in> set (es_signal_log st) \<and>
     (\<exists>i \<in> set (ec_intervals cfg). k = signal_key sg i))"

definition wf_engine :: "py_env \<Rightarrow> engine_config \<Rightarrow> engine_state \<Rightarrow> bool" where
  "wf_engine env cfg st \<longleftrightarrow> keys_ok st \<and> histories_ok env st \<and> log_ok st \<and> events_ok cfg st"

lemma histories_okD: "histories_ok env st \<Longrightarrow> wf_window env k (revisions_at k st)"
  unfolding histories_ok_def by blast

lemma events_okD: "events_ok cfg st \<Longrightarrow> sg \<in> set (events_at k st) \<Longrightarrow>
    sg \<in> set (es_signal_log st) \<and> (\<exists>i \<in> set (ec_intervals cfg). k = signal_key sg i)"
  unfolding events_ok_def by blast

lemma wf_engine_empty [simp]: "wf_engine env cfg engine_empty"
  by (simp add: wf_engine_def keys_ok_def histories_ok_def log_ok_def events_ok_def
      engine_empty_def revisions_at_def events_at_def)

lemma add_event_keys:
  "set (map fst (es_events (add_event k sg st))) = insert k (set (map fst (es_events st)))"
  "distinct (map fst (es_events st)) \<Longrightarrow> distinct (map fst (es_events (add_event k sg st)))"
  by (simp_all add: add_event_def dom_update distinct_update image_set [symmetric] del: list.set_map)

lemma look_events [simp]: "events_at k (look cfg sa st) = events_at k st"
  "events_at k (append_revision k' s st) = events_at k st"
  by (simp_all add: events_at_def)

lemma wf_add_event:
  assumes "wf_engine env cfg st" "sg \<in> set (es_signal_log st)" "i \<in> set (ec_intervals cfg)"
  shows "wf_engine env cfg (add_event (signal_key sg i) sg st)"
proof -
  let ?k = "signal_key sg i"
  have wf: "keys_ok st" "histories_ok env st" "log_ok st" "events_ok cfg st"
    using assms(1) by (simp_all add: wf_engine_def)
  have "keys_ok (add_event ?k sg st)"
    using wf(1) add_event_keys [where k = ?k and sg = sg and st = st] unfolding keys_ok_def add_event_sel by blast
  moreover have "histories_ok env (add_event ?k sg st)"
    using wf(2) unfolding histories_ok_def add_event_sel .
  moreover have "log_ok (add_event ?k sg st)"
    using wf(3) by (simp add: log_ok_def)
  moreover have "events_ok cfg (add_event ?k sg st)"
    unfolding events_ok_def
  proof (intro allI ballI)
    fix j x
    assume "x \<in> set (events_at j (add_event ?k sg st))"
    then have "x \<in> set (events_at j st) \<or> x = sg \<and> j = ?k"
      by (auto simp: events_at_add split: if_splits)
    then show "x \<in> set (es_signal_log (add_event ?k sg st)) \<and> (\<exists>i \<in> set (ec_intervals cfg). j = signal_key x i)"
      using events_okD [OF wf(4), of x j] assms(2,3) by auto
  qed
  ultimately show ?thesis by (simp add: wf_engine_def)
qed

lemma wf_look: "wf_engine env cfg st \<Longrightarrow> wf_engine env cfg (look cfg sa st)"
  by (simp add: wf_engine_def keys_ok_def histories_ok_def log_ok_def events_ok_def)

lemma wf_append_revision:
  assumes "wf_engine env cfg st" "k \<in> set (map fst (es_events st))" "follows env k (revisions_at k st) s"
  shows "wf_engine env cfg (append_revision k s st)"
proof -
  have wf: "keys_ok st" "histories_ok env st" "log_ok st" "events_ok cfg st"
    using assms(1) by (simp_all add: wf_engine_def)
  have "keys_ok (append_revision k s st)"
    unfolding keys_ok_def append_revision_keys(1)
    using wf(1) assms(2) append_revision_keys(2) [of st k s]
    by (simp add: keys_ok_def revisions_at_append del: list.set_map)
  moreover have "histories_ok env (append_revision k s st)"
    unfolding histories_ok_def
  proof
    fix j
    show "wf_window env j (revisions_at j (append_revision k s st))"
      using histories_okD [OF wf(2), of j] assms(3) by (cases "j = k") (simp_all add: revisions_at_append wf_window_snoc)
  qed
  moreover have "log_ok (append_revision k s st)" "events_ok cfg (append_revision k s st)"
    using wf(3,4) by (simp_all add: log_ok_def events_ok_def)
  ultimately show ?thesis by (simp add: wf_engine_def)
qed

lemma evolves_wf: "evolves env cfg sa st ss st' \<Longrightarrow> wf_engine env cfg st \<Longrightarrow> wf_engine env cfg st'"
proof (induction rule: evolves.induct)
  case (ev_build st ss st1 k s)
  then show ?case by (intro wf_append_revision wf_look) simp_all
qed (simp_all add: wf_add_event wf_look)

lemma note_signal_sel [simp]:
  "es_events (note_signal sg st) = es_events st" "es_revisions (note_signal sg st) = es_revisions st"
  "es_seen (note_signal sg st) = insert (signal_id sg) (es_seen st)"
  "es_signal_log (note_signal sg st) = es_signal_log st @ [sg]"
  "revisions_at k (note_signal sg st) = revisions_at k st" "events_at k (note_signal sg st) = events_at k st"
  by (simp_all add: note_signal_def Let_def revisions_at_def events_at_def signal_id_def)

lemma note_signal_mem: "sg \<in> set (es_signal_log (note_signal sg st))"
  by simp

lemma wf_note_signal:
  assumes "wf_engine env cfg st" "signal_id sg \<notin> es_seen st"
  shows "wf_engine env cfg (note_signal sg st)"
proof -
  have wf: "keys_ok st" "histories_ok env st" "log_ok st" "events_ok cfg st"
    using assms(1) by (simp_all add: wf_engine_def)
  have "events_ok cfg (note_signal sg st)"
    unfolding events_ok_def using events_okD [OF wf(4)] by (auto simp del: split_paired_All)
  then show ?thesis
    using wf(1-3) assms(2) by (simp add: wf_engine_def keys_ok_def histories_ok_def log_ok_def)
qed

lemma wf_valid:
  assumes "wf_engine env cfg st" "r \<in> set (revisions_at k st)"
  shows "valid_snapshot r"
proof -
  obtain i where "i < length (revisions_at k st)" "r = revisions_at k st ! i"
    using assms(2) by (auto simp: in_set_conv_nth)
  moreover have "wf_window env k (revisions_at k st)"
    using assms(1) histories_okD by (simp add: wf_engine_def)
  ultimately show ?thesis by (auto simp: wf_window_def follows_def)
qed

section \<open>The operations evolve the engine\<close>

definition produces ::
    "py_env \<Rightarrow> engine_config \<Rightarrow> string \<times> string \<Rightarrow> engine_state \<Rightarrow> feature_snapshot list res \<times> engine_state \<Rightarrow> bool" where
  "produces env cfg sa st out \<longleftrightarrow>
     (\<exists>ss. evolves env cfg sa st ss (snd out) \<and> (\<forall>r. fst out = Inr r \<longrightarrow> r = ss))"

lemma producesE:
  assumes "produces env cfg sa st out"
  obtains ss where "evolves env cfg sa st ss (snd out)" "\<And>r. fst out = Inr r \<Longrightarrow> r = ss"
  using assms by (auto simp: produces_def)

lemma producesI: "evolves env cfg sa st ss st' \<Longrightarrow> produces env cfg sa st (Inr ss, st')"
  by (auto simp: produces_def)

lemma produces_Inl: "evolves env cfg sa st ss st' \<Longrightarrow> produces env cfg sa st (Inl e, st')"
  by (auto simp: produces_def)

lemma produces_after:
  assumes "evolves env cfg sa st ss st1" "produces env cfg sa st1 out"
  shows "produces env cfg sa st (case out of (Inl e, st2) \<Rightarrow> (Inl e, st2) | (Inr r, st2) \<Rightarrow> (Inr (ss @ r), st2))"
proof -
  obtain r st2 where out: "out = (r, st2)" by fastforce
  from assms(2) obtain ss' where "evolves env cfg sa st1 ss' st2" "\<And>x. r = Inr x \<Longrightarrow> x = ss'"
    by (auto simp: out elim: producesE)
  with evolves_trans [OF this(1) assms(1)] show ?thesis
    by (auto simp: out produces_def split: sum.split)
qed

text \<open>Building one revision, where finality is only forced on a window that is final already or
  that the watermark has passed.\<close>

lemma build_evolves:
  assumes "wf_engine env cfg st" "window_asset k = sa"
    and "ff \<Longrightarrow> revisions_at k st \<noteq> [] \<and> fs_is_final (last (revisions_at k st)) \<or> passed (mark_now cfg sa st) k"
    and "build_revision env dump cfg k ff st = (r, st')"
  shows "(case r of Inl e \<Rightarrow> evolves env cfg sa st [] st'
    | Inr s \<Rightarrow> evolves env cfg sa st [s] st' \<and> snapshot_key s = k \<and>
        revisions_at k st' = revisions_at k st @ [s] \<and>
        (fs_is_final s \<longleftrightarrow> passed (mark_now cfg sa st) k \<or> (revisions_at k st \<noteq> [] \<and> fs_is_final (last (revisions_at k st)))))"
proof (cases r)
  case (Inl e)
  then have "st' = st \<or> st' = look cfg sa st"
    using build_revision_state [of env dump cfg k ff st] assms(2,4) by auto
  then have "evolves env cfg sa st [] st'"
    by (elim disjE) (simp_all add: ev_refl ev_look)
  then show ?thesis by (simp add: Inl)
next
  case (Inr s)
  have b: "build_revision env dump cfg k ff st = (Inr s, st')" using assms(4) Inr by simp
  have v: "\<forall>r \<in> set (revisions_at k st). valid_snapshot r"
    using wf_valid [OF assms(1)] by blast
  note facts = build_revision_Inr [OF b v, unfolded assms(2)]
  have fin: "fs_is_final s \<longleftrightarrow> passed (mark_now cfg sa st) k \<or> (revisions_at k st \<noteq> [] \<and> fs_is_final (last (revisions_at k st)))"
    using facts(5) assms(3) by auto
  have "valid_snapshot s" using facts(4) by (simp add: follows_def)
  then have fp: "fs_revision_state s = rs_final \<longrightarrow> passed (mark_now cfg sa st) k"
    using fin facts(4) by (auto simp: follows_def valid_snapshot_def split: if_splits)
  have "evolves env cfg sa st ([] @ [s]) st'"
    unfolding facts(1) by (rule ev_build [OF ev_refl assms(2) facts(2,4) fp])
  then show ?thesis
    using Inr fin follows_key [OF facts(4)] by (simp add: facts(1) revisions_at_append)
qed

lemma rebuild_produces:
  assumes "wf_engine env cfg st" "\<forall>k \<in> set ks. window_asset k = sa \<and> revisions_at k st \<noteq> []"
  shows "produces env cfg sa st (rebuild env dump cfg ks st)"
  using assms
proof (induction ks arbitrary: st)
  case Nil
  then show ?case by (simp add: producesI ev_refl)
next
  case (Cons k ks)
  let ?ff = "fs_is_final (last (revisions_at k st))"
  obtain r st1 where b: "build_revision env dump cfg k ?ff st = (r, st1)" by fastforce
  have k: "window_asset k = sa" "revisions_at k st \<noteq> []" using Cons.prems(2) by auto
  have step: "case r of Inl e \<Rightarrow> evolves env cfg sa st [] st1 | Inr s \<Rightarrow> evolves env cfg sa st [s] st1"
    using build_evolves [OF Cons.prems(1) k(1) _ b] k(2) by (auto split: sum.splits)
  show ?case
  proof (cases r)
    case (Inl e)
    with step b show ?thesis by (auto intro: produces_Inl)
  next
    case (Inr s)
    then have e: "evolves env cfg sa st [s] st1" using step by simp
    have "\<forall>k \<in> set ks. window_asset k = sa \<and> revisions_at k st1 \<noteq> []"
      using Cons.prems(2) evolves_revisions [OF e] by auto
    from produces_after [OF e Cons.IH [OF evolves_wf [OF e Cons.prems(1)] this], unfolded append_Cons append_Nil] b Inr
    show ?thesis by simp
  qed
qed

lemma downstream_asset:
  "wf_engine env cfg st \<Longrightarrow> k' \<in> set (downstream k st) \<Longrightarrow> window_asset k' = window_asset k \<and> revisions_at k' st \<noteq> []"
  by (auto simp: downstream_def earlier_def window_asset_def wf_engine_def keys_ok_def)

lemma ingest_intervals_produces:
  assumes "wf_engine env cfg st" "sg \<in> set (es_signal_log st)" "set is \<subseteq> set (ec_intervals cfg)"
    and "sa = (sg_scope_id sg, sg_asset_id sg)"
  shows "produces env cfg sa st (ingest_intervals env dump cfg sg is st)"
  using assms(1-3)
proof (induction "is" arbitrary: st)
  case Nil
  then show ?case by (simp add: producesI ev_refl)
next
  case (Cons i "is")
  let ?k = "signal_key sg i"
  let ?st = "add_event ?k sg st"
  have sa: "window_asset ?k = sa" by (simp add: assms(4) window_asset_def signal_key_def)
  have e0: "evolves env cfg sa st [] ?st"
    using Cons.prems(2,3) by (intro ev_event ev_refl) auto
  have wf0: "wf_engine env cfg ?st" by (rule evolves_wf [OF e0 Cons.prems(1)])
  obtain r st2 where b: "build_revision env dump cfg ?k False ?st = (r, st2)" by fastforce
  have step: "case r of Inl e \<Rightarrow> evolves env cfg sa ?st [] st2 | Inr s \<Rightarrow> evolves env cfg sa ?st [s] st2"
    using build_evolves [OF wf0 sa _ b] by (auto split: sum.splits)
  have unfold: "ingest_intervals env dump cfg sg (i # is) st =
      (case r of Inl e \<Rightarrow> (Inl e, st2)
       | Inr snap \<Rightarrow> (case rebuild env dump cfg (downstream ?k st2) st2 of
           (Inl e, st3) \<Rightarrow> (Inl e, st3)
         | (Inr snaps, st3) \<Rightarrow> (case ingest_intervals env dump cfg sg is st3 of
             (Inl e, st4) \<Rightarrow> (Inl e, st4) | (Inr rest, st4) \<Rightarrow> (Inr (snap # snaps @ rest), st4))))"
    using b by (simp add: signal_key_def add_event_def Let_def split: sum.split)
  show ?case
  proof (cases r)
    case (Inl e)
    then have "evolves env cfg sa st [] st2" using step evolves_trans [OF _ e0] by fastforce
    then show ?thesis unfolding unfold by (simp add: Inl produces_Inl)
  next
    case (Inr s)
    then have e1: "evolves env cfg sa st [s] st2" using step evolves_trans [OF _ e0] by fastforce
    have wf1: "wf_engine env cfg st2" by (rule evolves_wf [OF e1 Cons.prems(1)])
    obtain r3 st3 where d: "rebuild env dump cfg (downstream ?k st2) st2 = (r3, st3)" by fastforce
    have "produces env cfg sa st2 (r3, st3)"
      using rebuild_produces [OF wf1, of "downstream ?k st2" sa dump] downstream_asset [OF wf1] sa d by auto
    then obtain ss where e2: "evolves env cfg sa st2 ss st3" and ss: "\<And>x. r3 = Inr x \<Longrightarrow> x = ss"
      by (auto elim: producesE)
    have e3: "evolves env cfg sa st (s # ss) st3" using evolves_trans [OF e2 e1] by simp
    show ?thesis
    proof (cases r3)
      case (Inl e)
      then show ?thesis using e3 \<open>r = Inr s\<close> d unfolding unfold by (simp add: produces_Inl)
    next
      case (Inr snaps)
      have "produces env cfg sa st3 (ingest_intervals env dump cfg sg is st3)"
        using Cons.prems evolves_frame [OF e3] by (intro Cons.IH evolves_wf [OF e3]) auto
      from produces_after [OF e3 this, unfolded append_Cons] show ?thesis
        using Inr ss [OF Inr] \<open>r = Inr s\<close> d unfolding unfold by simp
    qed
  qed
qed

lemma finalize_loop_produces:
  assumes "wf_engine env cfg st" "mark_now cfg (scope, asset) st = Some w"
  shows "produces env cfg (scope, asset) st (finalize_loop env dump cfg scope asset w ks st)"
  using assms
proof (induction ks arbitrary: st)
  case Nil
  then show ?case by (simp add: producesI ev_refl)
next
  case (Cons k ks)
  let ?skip = "fst k \<noteq> scope \<or> fst (snd k) \<noteq> asset \<or> fs_is_final (last (revisions_at k st)) \<or> \<not> window_end_of k \<le> w"
  show ?case
  proof (cases ?skip)
    case True
    then show ?thesis using Cons by simp
  next
    case False
    then have sa: "window_asset k = (scope, asset)" and p: "passed (mark_now cfg (scope, asset) st) k"
      using Cons.prems(2) by (auto simp: window_asset_def passed_def)
    obtain r st1 where b: "build_revision env dump cfg k True st = (r, st1)" by fastforce
    have step: "case r of Inl e \<Rightarrow> evolves env cfg (scope, asset) st [] st1 | Inr s \<Rightarrow> evolves env cfg (scope, asset) st [s] st1"
      using build_evolves [OF Cons.prems(1) sa _ b] p by (auto split: sum.splits)
    show ?thesis
    proof (cases r)
      case (Inl e)
      with step b False show ?thesis by (auto intro: produces_Inl)
    next
      case (Inr s)
      then have e: "evolves env cfg (scope, asset) st [s] st1" using step by simp
      have "mark_now cfg (scope, asset) st1 = Some w" using evolves_mark [OF e] Cons.prems(2) by simp
      from produces_after [OF e Cons.IH [OF evolves_wf [OF e Cons.prems(1)] this], unfolded append_Cons append_Nil] b Inr False
      show ?thesis by simp
    qed
  qed
qed

text \<open>A final window stays final.\<close>

lemma wf_window_final_stays:
  "wf_window env k (rs @ rs') \<Longrightarrow> rs \<noteq> [] \<Longrightarrow> fs_is_final (last rs) \<Longrightarrow> fs_is_final (last (rs @ rs'))"
proof (induction rs' rule: rev_induct)
  case (snoc s rs')
  then have "wf_window env k (rs @ rs')" "follows env k (rs @ rs') s"
    using wf_window_snoc [of env k "rs @ rs'" s] by simp_all
  with snoc show ?case by (auto simp: follows_def valid_snapshot_def split: if_splits)
qed simp

lemma evolves_final_stays:
  assumes "evolves env cfg sa st ss st'" "wf_engine env cfg st" "revisions_at k st \<noteq> []"
    and "fs_is_final (last (revisions_at k st))"
  shows "fs_is_final (last (revisions_at k st'))"
proof -
  have "wf_window env k (revisions_at k st')"
    using evolves_wf [OF assms(1,2)] histories_okD by (simp add: wf_engine_def)
  then show ?thesis
    using wf_window_final_stays assms(3,4) unfolding evolves_revisions [OF assms(1)] by blast
qed

lemma finalize_loop_complete:
  assumes "wf_engine env cfg st" "mark_now cfg (scope, asset) st = Some w" "\<forall>k \<in> set ks. revisions_at k st \<noteq> []"
    and "finalize_loop env dump cfg scope asset w ks st = (Inr ss, st')"
  shows "\<forall>k \<in> set ks. window_asset k = (scope, asset) \<and> window_end_of k \<le> w \<longrightarrow> fs_is_final (last (revisions_at k st'))"
  using assms
proof (induction ks arbitrary: st ss)
  case Nil
  then show ?case by simp
next
  case (Cons k ks)
  let ?skip = "fst k \<noteq> scope \<or> fst (snd k) \<noteq> asset \<or> fs_is_final (last (revisions_at k st)) \<or> \<not> window_end_of k \<le> w"
  show ?case
  proof (cases ?skip)
    case True
    have out: "finalize_loop env dump cfg scope asset w ks st = (Inr ss, st')"
      using Cons.prems(4) True by simp
    have rest: "\<forall>k \<in> set ks. window_asset k = (scope, asset) \<and> window_end_of k \<le> w \<longrightarrow> fs_is_final (last (revisions_at k st'))"
      using Cons.prems(3) by (intro Cons.IH [OF Cons.prems(1,2) _ out]) simp
    obtain ss' where e: "evolves env cfg (scope, asset) st ss' st'"
      using finalize_loop_produces [OF Cons.prems(1,2), of dump ks] by (auto simp: out elim: producesE)
    show ?thesis
      using rest True evolves_final_stays [OF e Cons.prems(1), of k] Cons.prems(3) by (auto simp: window_asset_def)
  next
    case False
    then have sa: "window_asset k = (scope, asset)" and p: "passed (mark_now cfg (scope, asset) st) k"
      using Cons.prems(2) by (auto simp: window_asset_def passed_def)
    obtain s st1 where b: "build_revision env dump cfg k True st = (Inr s, st1)"
      and out: "\<exists>ss1. finalize_loop env dump cfg scope asset w ks st1 = (Inr ss1, st')"
      using Cons.prems(4) False by (auto split: prod.splits sum.splits)
    obtain ss1 where o1: "finalize_loop env dump cfg scope asset w ks st1 = (Inr ss1, st')" using out by blast
    have e: "evolves env cfg (scope, asset) st [s] st1" and r: "revisions_at k st1 = revisions_at k st @ [s]"
      and f: "fs_is_final s"
      using build_evolves [OF Cons.prems(1) sa _ b] p by auto
    have wf1: "wf_engine env cfg st1" and m1: "mark_now cfg (scope, asset) st1 = Some w"
      using evolves_wf [OF e Cons.prems(1)] evolves_mark [OF e] Cons.prems(2) by auto
    have "\<forall>k \<in> set ks. window_asset k = (scope, asset) \<and> window_end_of k \<le> w \<longrightarrow> fs_is_final (last (revisions_at k st'))"
      using Cons.prems(3) evolves_revisions [OF e] by (intro Cons.IH [OF wf1 m1 _ o1]) simp
    moreover obtain ss' where "evolves env cfg (scope, asset) st1 ss' st'"
      using finalize_loop_produces [OF wf1 m1, of dump ks] by (auto simp: o1 elim: producesE)
    then have "fs_is_final (last (revisions_at k st'))"
      using evolves_final_stays [OF _ wf1, of "(scope, asset)" ss' st' k] r f by simp
    ultimately show ?thesis by simp
  qed
qed

lemma finalize_loop_keys:
  assumes "finalize_loop env dump cfg scope asset w ks st = (Inr ss, st')" "\<forall>k \<in> set ks. revisions_at k st \<noteq> []"
  shows "set (map fst (es_revisions st')) \<subseteq> set (map fst (es_revisions st))"
  using assms
proof (induction ks arbitrary: st ss)
  case (Cons k ks)
  show ?case
  proof (cases "fst k \<noteq> scope \<or> fst (snd k) \<noteq> asset \<or> fs_is_final (last (revisions_at k st)) \<or> \<not> window_end_of k \<le> w")
    case True
    then show ?thesis using Cons by simp
  next
    case False
    then obtain s st1 ss1 where b: "build_revision env dump cfg k True st = (Inr s, st1)"
      and o1: "finalize_loop env dump cfg scope asset w ks st1 = (Inr ss1, st')"
      using Cons.prems(1) by (auto split: prod.splits sum.splits)
    have keys: "set (map fst (es_revisions st1)) = insert k (set (map fst (es_revisions st)))"
      and others: "\<forall>j. revisions_at j st \<noteq> [] \<longrightarrow> revisions_at j st1 \<noteq> []"
      using build_revision_appends [OF b] by blast+
    have "k \<in> set (map fst (es_revisions st))"
      using Cons.prems(2) revisions_at_mem by simp
    then show ?thesis
      using Cons.IH [OF o1] Cons.prems(2) others keys by auto
  qed
qed simp

lemma watermark_look:
  "watermark cfg scope asset st =
    (if ec_required_domains cfg = [] then Inl (ValueError ''min() arg is an empty sequence'')
     else Inr (mark_now cfg (scope, asset) st), look cfg (scope, asset) st)"
  by (simp add: watermark_eq mark_now_def look_def)

lemma look_mark [simp]: "mark_now cfg sa (look cfg sa st) = mark_now cfg sa st"
  by (rule mark_now_cong) (simp_all add: look_def)

lemma finalize_eligible_produces:
  assumes "wf_engine env cfg st"
  shows "produces env cfg (scope, asset) st (finalize_eligible env dump cfg scope asset st)"
proof -
  have e: "evolves env cfg (scope, asset) st [] (look cfg (scope, asset) st)"
    by (rule ev_look [OF ev_refl])
  show ?thesis
  proof (cases "mark_now cfg (scope, asset) st")
    case None
    with e show ?thesis
      by (auto simp: finalize_eligible_def watermark_look intro: produces_Inl producesI)
  next
    case (Some w)
    have "produces env cfg (scope, asset) (look cfg (scope, asset) st)
        (finalize_loop env dump cfg scope asset w (map fst (es_revisions st)) (look cfg (scope, asset) st))"
      using Some by (intro finalize_loop_produces wf_look assms) simp
    then obtain ss where "evolves env cfg (scope, asset) (look cfg (scope, asset) st) ss
        (snd (finalize_loop env dump cfg scope asset w (map fst (es_revisions st)) (look cfg (scope, asset) st)))"
      "\<And>r. fst (finalize_loop env dump cfg scope asset w (map fst (es_revisions st)) (look cfg (scope, asset) st)) = Inr r \<Longrightarrow> r = ss"
      unfolding produces_def by blast
    with evolves_trans [OF this(1) e] e Some show ?thesis
      by (auto simp: finalize_eligible_def watermark_look produces_def)
  qed
qed

text \<open>One ingestion of a new signal.\<close>

lemma ingest_produces:
  assumes "wf_engine env cfg st" "signal_id sg \<notin> es_seen st"
  shows "produces env cfg (sg_scope_id sg, sg_asset_id sg) (note_signal sg st) (ingest env dump cfg sg st)"
proof -
  let ?sa = "(sg_scope_id sg, sg_asset_id sg)"
  let ?st = "note_signal sg st"
  have wf: "wf_engine env cfg ?st" by (rule wf_note_signal [OF assms])
  obtain r st1 where i: "ingest_intervals env dump cfg sg (ec_intervals cfg) ?st = (r, st1)" by fastforce
  have "produces env cfg ?sa ?st (r, st1)"
    using ingest_intervals_produces [OF wf _ subset_refl refl, of sg dump] i by simp
  then obtain ss where e: "evolves env cfg ?sa ?st ss st1" and ss: "\<And>x. r = Inr x \<Longrightarrow> x = ss"
    by (auto elim: producesE)
  show ?thesis
  proof (cases r)
    case (Inl x)
    with i e assms(2) show ?thesis by (auto simp: ingest_def signal_id_def intro: produces_Inl)
  next
    case (Inr changed)
    from produces_after [OF e finalize_eligible_produces [OF evolves_wf [OF e wf]], of dump] show ?thesis
      using i Inr ss [OF Inr] assms(2) by (simp add: ingest_def signal_id_def)
  qed
qed

lemma ingest_duplicate: "signal_id sg \<in> es_seen st \<Longrightarrow> ingest env dump cfg sg st = (Inr [], st)"
  by (simp add: ingest_def signal_id_def)

lemma ingest_frame:
  assumes "wf_engine env cfg st"
  shows "wf_engine env cfg (snd (ingest env dump cfg sg st))"
    "signal_id sg \<in> es_seen (snd (ingest env dump cfg sg st))"
    "signal_id sg \<notin> es_seen st \<Longrightarrow> es_signal_log (snd (ingest env dump cfg sg st)) = es_signal_log st @ [sg]"
proof -
  show "wf_engine env cfg (snd (ingest env dump cfg sg st))"
    "signal_id sg \<in> es_seen (snd (ingest env dump cfg sg st))"
  proof (atomize (full), cases "signal_id sg \<in> es_seen st")
    case True
    then show "wf_engine env cfg (snd (ingest env dump cfg sg st)) \<and> signal_id sg \<in> es_seen (snd (ingest env dump cfg sg st))"
      using assms by (simp add: ingest_duplicate)
  next
    case False
    from ingest_produces [OF assms False, of dump]
    obtain ss where e: "evolves env cfg (sg_scope_id sg, sg_asset_id sg) (note_signal sg st) ss (snd (ingest env dump cfg sg st))"
      by (rule producesE)
    then show "wf_engine env cfg (snd (ingest env dump cfg sg st)) \<and> signal_id sg \<in> es_seen (snd (ingest env dump cfg sg st))"
      using evolves_wf [OF e wf_note_signal [OF assms False]] evolves_frame [OF e] by simp
  qed
  show "es_signal_log (snd (ingest env dump cfg sg st)) = es_signal_log st @ [sg]" if "signal_id sg \<notin> es_seen st"
  proof -
    from ingest_produces [OF assms that, of dump]
    obtain ss where "evolves env cfg (sg_scope_id sg, sg_asset_id sg) (note_signal sg st) ss (snd (ingest env dump cfg sg st))"
      by (rule producesE)
    from evolves_frame [OF this] show ?thesis by simp
  qed
qed

lemma ingest_seen_mono:
  assumes "wf_engine env cfg st" "i \<in> es_seen st"
  shows "i \<in> es_seen (snd (ingest env dump cfg sg st))"
proof (cases "signal_id sg \<in> es_seen st")
  case True
  then show ?thesis using assms(2) by (simp add: ingest_duplicate)
next
  case False
  from ingest_produces [OF assms(1) False, of dump]
  obtain ss where "evolves env cfg (sg_scope_id sg, sg_asset_id sg) (note_signal sg st) ss (snd (ingest env dump cfg sg st))"
    by (rule producesE)
  from evolves_frame [OF this] assms(2) show ?thesis by simp
qed

lemma engine_run_wf: "wf_engine env cfg st \<Longrightarrow> wf_engine env cfg (engine_run env dump cfg sgs st)"
  by (induction sgs arbitrary: st) (simp_all add: ingest_frame(1))

section \<open>Well-typed signals never raise\<close>

text \<open>The values of a social post that the code iterates over or measures are sequences.\<close>

definition well_typed :: "feature_signal \<Rightarrow> bool" where
  "well_typed sg \<longleftrightarrow> is_ok (py_iter (value_or sg ''urls'' (PList []))) \<and>
     is_ok (py_len (value_or sg ''hashtags'' (PList []))) \<and>
     is_ok (py_len (value_or sg ''cashtags'' (PList [])))"

definition config_ok :: "engine_config \<Rightarrow> bool" where
  "config_ok cfg \<longleftrightarrow> ec_required_domains cfg \<noteq> [] \<and> ec_schema_version cfg = FEATURE_SCHEMA_NAME"

lemma urls_of_ok: "\<forall>s \<in> set ss. well_typed s \<Longrightarrow> \<exists>us. urls_of ss = Inr us"
proof (induction ss)
  case (Cons s ss)
  then obtain us where "urls_of ss = Inr us" by auto
  moreover obtain vs where "py_iter (value_or s ''urls'' (PList [])) = Inr vs"
    using Cons.prems by (auto simp: well_typed_def is_ok_iff)
  ultimately show ?case by simp
qed simp

lemma hashtag_count_ok: "\<forall>s \<in> set ss. well_typed s \<Longrightarrow> \<exists>n. hashtag_count ss = Inr n"
proof (induction ss)
  case (Cons s ss)
  then obtain n where "hashtag_count ss = Inr n" by auto
  moreover obtain h c where "py_len (value_or s ''hashtags'' (PList [])) = Inr h"
    "py_len (value_or s ''cashtags'' (PList [])) = Inr c"
    using Cons.prems by (auto simp: well_typed_def is_ok_iff)
  ultimately show ?case by simp
qed simp

lemma compute_features_ok:
  assumes "\<forall>s \<in> set es. well_typed s"
  shows "\<exists>fs. compute_features fx start stop es = Inr fs"
proof -
  have "\<forall>s \<in> set (of_kind sk_social_post es). well_typed s"
    using assms by (auto simp: of_kind_def)
  then obtain us n where "urls_of (of_kind sk_social_post es) = Inr us"
    "hashtag_count (of_kind sk_social_post es) = Inr n"
    using urls_of_ok hashtag_count_ok by blast
  then show ?thesis by (simp add: compute_features_def Let_def)
qed

lemma snapshot_accepted:
  assumes "config_ok cfg" "map fst fs = FEATURE_NAMES" "\<forall>r \<in> set prior. valid_snapshot r"
  shows "feature_order_matches_schema (snapshot_of env dump cfg k prior ff es fs) =
    Inr (snapshot_of env dump cfg k prior ff es fs)"
proof -
  have "1 \<le> fs_revision (last prior)" if "prior \<noteq> []"
    using bspec [OF assms(3) last_in_set [OF that]] by (simp add: valid_snapshot_def)
  moreover obtain scope asset start interval where "k = (scope, asset, start, interval)" by (cases k)
  ultimately have "valid_snapshot (snapshot_of env dump cfg k prior ff es fs)"
    using assms(1,2) by (auto simp: valid_snapshot_def snapshot_of_def config_ok_def next_state_def)
  then show ?thesis by (rule valid_snapshot_accepted)
qed

lemma build_ok:
  assumes "config_ok cfg" "wf_engine env cfg st" "\<forall>sg \<in> set (es_signal_log st). well_typed sg"
    and "k \<in> set (map fst (es_events st))"
  shows "\<exists>s. fst (build_revision env dump cfg k ff st) = Inr s"
proof -
  obtain scope asset start interval where k: "k = (scope, asset, start, interval)" by (cases k)
  obtain raw where raw: "map_of (es_events st) k = Some raw"
    using assms(4) by (metis list.set_map map_of_eq_None_iff option.exhaust)
  then have "raw = events_at k st" by (simp add: events_at_def)
  then have "\<forall>s \<in> set (order_events raw). well_typed s"
    using assms(2,3) events_okD [of cfg st _ k] by (auto simp: wf_engine_def order_events_def)
  then obtain fs where fs: "compute_features (context_of k (look cfg (scope, asset) st)) start (window_end_of k) (order_events raw) = Inr fs"
    using compute_features_ok by blast
  have "ec_required_domains cfg \<noteq> []" using assms(1) by (simp add: config_ok_def)
  moreover have "\<forall>r \<in> set (revisions_at k st). valid_snapshot r"
    using wf_valid [OF assms(2)] by blast
  ultimately show ?thesis
    using raw fs snapshot_accepted [OF assms(1) compute_features_keys [OF fs]]
    unfolding build_revision_def k prod.case watermark_look by (simp add: Let_def k [symmetric])
qed

lemma evolves_keys: "evolves env cfg sa st ss st' \<Longrightarrow> set (map fst (es_events st)) \<subseteq> set (map fst (es_events st'))"
proof (induction rule: evolves.induct)
  case (ev_event st ss st1 sg i)
  then show ?case using add_event_keys(1) by blast
qed simp_all

text \<open>What the loops below maintain.\<close>

definition live :: "py_env \<Rightarrow> engine_config \<Rightarrow> engine_state \<Rightarrow> bool" where
  "live env cfg st \<longleftrightarrow> config_ok cfg \<and> wf_engine env cfg st \<and> (\<forall>sg \<in> set (es_signal_log st). well_typed sg)"

lemma live_evolves: "evolves env cfg sa st ss st' \<Longrightarrow> live env cfg st \<Longrightarrow> live env cfg st'"
  using evolves_wf evolves_frame unfolding live_def by metis

lemma build_live:
  assumes "live env cfg st" "window_asset k = sa" "k \<in> set (map fst (es_events st))"
    and "ff \<longrightarrow> revisions_at k st \<noteq> [] \<and> fs_is_final (last (revisions_at k st)) \<or> passed (mark_now cfg sa st) k"
  obtains s st' where "build_revision env dump cfg k ff st = (Inr s, st')" "evolves env cfg sa st [s] st'"
proof -
  have wf: "wf_engine env cfg st" using assms(1) by (simp add: live_def)
  obtain s where "fst (build_revision env dump cfg k ff st) = Inr s"
    using build_ok [of cfg env st k dump ff] assms(1,3) unfolding live_def by blast
  then obtain st' where b: "build_revision env dump cfg k ff st = (Inr s, st')" by (metis prod.collapse)
  show thesis
    by (rule that [OF b]) (use build_evolves [OF wf assms(2) _ b] assms(4) in simp)
qed

lemma rebuild_ok:
  assumes "live env cfg st"
    and "\<forall>k \<in> set ks. window_asset k = sa \<and> revisions_at k st \<noteq> [] \<and> k \<in> set (map fst (es_events st))"
  shows "\<exists>ss. fst (rebuild env dump cfg ks st) = Inr ss"
  using assms
proof (induction ks arbitrary: st)
  case (Cons k ks)
  obtain s st1 where b: "build_revision env dump cfg k (fs_is_final (last (revisions_at k st))) st = (Inr s, st1)"
    and e: "evolves env cfg sa st [s] st1"
    using build_live [OF Cons.prems(1), of k sa "fs_is_final (last (revisions_at k st))" dump] Cons.prems(2) by auto
  have "\<exists>ss. fst (rebuild env dump cfg ks st1) = Inr ss"
    using Cons.prems(2) evolves_revisions [OF e] evolves_keys [OF e]
    by (intro Cons.IH live_evolves [OF e Cons.prems(1)]) auto
  then show ?case using b by (auto split: prod.split)
qed simp

lemma ingest_intervals_ok:
  assumes "live env cfg st" "sg \<in> set (es_signal_log st)" "set is \<subseteq> set (ec_intervals cfg)"
  shows "\<exists>ss. fst (ingest_intervals env dump cfg sg is st) = Inr ss"
  using assms
proof (induction "is" arbitrary: st)
  case (Cons i "is")
  let ?k = "signal_key sg i" and ?sa = "(sg_scope_id sg, sg_asset_id sg)"
  let ?st = "add_event ?k sg st"
  have e0: "evolves env cfg ?sa st [] ?st"
    using Cons.prems(2,3) by (intro ev_event ev_refl) auto
  have l0: "live env cfg ?st" by (rule live_evolves [OF e0 Cons.prems(1)])
  have sa: "window_asset ?k = ?sa" by (simp add: window_asset_def signal_key_def)
  obtain s st2 where b: "build_revision env dump cfg ?k False ?st = (Inr s, st2)" and e1: "evolves env cfg ?sa ?st [s] st2"
    using build_live [OF l0 sa, of False dump] add_event_keys(1) [of ?k sg st] by auto
  have l2: "live env cfg st2" by (rule live_evolves [OF e1 l0])
  then have wf2: "wf_engine env cfg st2" by (simp add: live_def)
  have ks: "\<forall>k \<in> set (downstream ?k st2). window_asset k = ?sa \<and> revisions_at k st2 \<noteq> [] \<and> k \<in> set (map fst (es_events st2))"
  proof
    fix k
    assume k: "k \<in> set (downstream ?k st2)"
    then have "k \<in> set (map fst (es_revisions st2))" by (simp add: downstream_def)
    then show "window_asset k = ?sa \<and> revisions_at k st2 \<noteq> [] \<and> k \<in> set (map fst (es_events st2))"
      using downstream_asset [OF wf2 k] sa wf2 unfolding wf_engine_def keys_ok_def by auto
  qed
  obtain ss3 st3 where d: "rebuild env dump cfg (downstream ?k st2) st2 = (Inr ss3, st3)"
    using rebuild_ok [OF l2 ks, of dump] by (metis prod.collapse)
  have "produces env cfg ?sa st2 (Inr ss3, st3)"
    using rebuild_produces [OF wf2, of "downstream ?k st2" ?sa dump] ks d by auto
  then have e3: "evolves env cfg ?sa st2 ss3 st3" by (auto elim: producesE)
  have log: "es_signal_log st3 = es_signal_log st"
    using evolves_frame [OF e3] evolves_frame [OF e1] by simp
  have "\<exists>ss. fst (ingest_intervals env dump cfg sg is st3) = Inr ss"
    using Cons.prems(2,3) log by (intro Cons.IH live_evolves [OF e3 l2]) auto
  moreover have "ingest_intervals env dump cfg sg (i # is) st =
      (case ingest_intervals env dump cfg sg is st3 of
         (Inl e, st4) \<Rightarrow> (Inl e, st4) | (Inr rest, st4) \<Rightarrow> (Inr (s # ss3 @ rest), st4))"
    using b d by (simp add: signal_key_def add_event_def Let_def)
  ultimately show ?case by (auto split: prod.split)
qed simp

lemma finalize_loop_ok:
  assumes "live env cfg st" "mark_now cfg (scope, asset) st = Some w" "set ks \<subseteq> set (map fst (es_events st))"
  shows "\<exists>ss. fst (finalize_loop env dump cfg scope asset w ks st) = Inr ss"
  using assms
proof (induction ks arbitrary: st)
  case (Cons k ks)
  let ?skip = "fst k \<noteq> scope \<or> fst (snd k) \<noteq> asset \<or> fs_is_final (last (revisions_at k st)) \<or> \<not> window_end_of k \<le> w"
  show ?case
  proof (cases ?skip)
    case True
    then show ?thesis using Cons by simp
  next
    case False
    then have sa: "window_asset k = (scope, asset)" and p: "passed (mark_now cfg (scope, asset) st) k"
      using Cons.prems(2) by (auto simp: window_asset_def passed_def)
    obtain s st1 where b: "build_revision env dump cfg k True st = (Inr s, st1)"
      and e: "evolves env cfg (scope, asset) st [s] st1"
      using build_live [OF Cons.prems(1) sa, of True dump] Cons.prems(3) p by auto
    have "\<exists>ss. fst (finalize_loop env dump cfg scope asset w ks st1) = Inr ss"
      using Cons.prems evolves_mark [OF e] evolves_keys [OF e]
      by (intro Cons.IH live_evolves [OF e Cons.prems(1)]) auto
    then show ?thesis using b False by (auto split: prod.split)
  qed
qed simp

lemma ingest_ok:
  assumes "live env cfg st" "well_typed sg"
  shows "\<exists>ss. fst (ingest env dump cfg sg st) = Inr ss"
proof (cases "signal_id sg \<in> es_seen st")
  case True
  then show ?thesis by (simp add: ingest_duplicate)
next
  case False
  let ?sa = "(sg_scope_id sg, sg_asset_id sg)"
  let ?st = "note_signal sg st"
  have wf: "wf_engine env cfg st" and cfg: "config_ok cfg" using assms(1) by (simp_all add: live_def)
  have l: "live env cfg ?st"
    using assms wf_note_signal [OF wf False] by (auto simp: live_def)
  obtain changed st1 where i: "ingest_intervals env dump cfg sg (ec_intervals cfg) ?st = (Inr changed, st1)"
    using ingest_intervals_ok [OF l _ subset_refl, of sg dump] by (metis note_signal_mem prod.collapse)
  have "produces env cfg ?sa ?st (Inr changed, st1)"
    using ingest_intervals_produces [OF wf_note_signal [OF wf False] _ subset_refl refl, of sg dump] i by simp
  then have e: "evolves env cfg ?sa ?st changed st1" by (auto elim: producesE)
  let ?st1 = "look cfg ?sa st1"
  have l1: "live env cfg ?st1" by (rule live_evolves [OF ev_look [OF e] l])
  have "set (map fst (es_revisions st1)) \<subseteq> set (map fst (es_events ?st1))"
    using l1 by (simp add: live_def wf_engine_def keys_ok_def)
  then have "\<exists>ss. fst (finalize_loop env dump cfg (sg_scope_id sg) (sg_asset_id sg) w (map fst (es_revisions st1)) ?st1) = Inr ss"
    if "mark_now cfg ?sa st1 = Some w" for w
    using that by (intro finalize_loop_ok [OF l1]) simp_all
  then have "\<exists>ss. fst (finalize_eligible env dump cfg (sg_scope_id sg) (sg_asset_id sg) st1) = Inr ss"
    using cfg by (cases "mark_now cfg ?sa st1") (simp_all add: finalize_eligible_def watermark_look config_ok_def)
  then show ?thesis
    using i False by (auto simp: ingest_def signal_id_def split: prod.split)
qed

section \<open>The watermark trails the newest event\<close>

lemma fold_max_ge: "(x::int) \<in> insert t (set ts) \<Longrightarrow> x \<le> fold max ts t"
proof (induction ts arbitrary: t x)
  case (Cons u ts)
  have "x \<le> max u t \<or> x \<in> set ts" using Cons.prems by auto
  then show ?case
    using Cons.IH [of x "max u t"] Cons.IH [of "max u t" "max u t"] by force
qed simp

lemma fold_min_mem: "fold min ts (t::int) \<in> insert t (set ts)"
proof (induction ts arbitrary: t)
  case (Cons u ts)
  then show ?case using Cons [of "min u t"] by (auto simp: min_def split: if_splits)
qed simp

lemma observed_mem: "es_max_event_time st (scope, asset, d) = Some t \<Longrightarrow> t \<in> set (observed_times scope asset st)"
  by (cases d) (auto simp: observed_times_def)

lemma global_max_ge:
  assumes "es_max_event_time st (scope, asset, d) = Some t"
  obtains n where "global_max scope asset st = Some n" "t \<le> n"
proof (cases "observed_times scope asset st")
  case Nil
  then show thesis using observed_mem [OF assms] by simp
next
  case (Cons u us)
  then show thesis
    using observed_mem [OF assms] fold_max_ge [of t u us] that by (simp add: global_max_def)
qed

lemma marks_of_trails:
  assumes "marks_of cfg scope asset (global_max scope asset st) st d = Some t"
  shows "\<exists>n. global_max scope asset st = Some n \<and> t \<le> n - ec_allowed_lateness cfg"
proof (cases "es_max_event_time st (scope, asset, d)")
  case None
  then show ?thesis
    using assms by (auto simp: marks_of_def mark_def silent_def split: option.splits if_splits)
next
  case (Some m)
  obtain n where "global_max scope asset st = Some n" "m \<le> n" using global_max_ge [OF Some] .
  then show ?thesis
    using assms Some by (auto simp: marks_of_def mark_def split: option.splits if_splits)
qed

lemma fold_update_values:
  "(k, v) \<in> set (fold (\<lambda>d. AList.update (f d) (g d)) ds acc) \<Longrightarrow> (k, v) \<in> set acc \<or> (\<exists>d \<in> set ds. v = g d)"
proof (induction ds arbitrary: acc)
  case (Cons d ds)
  then have "(k, v) \<in> set (AList.update (f d) (g d) acc) \<or> (\<exists>d \<in> set ds. v = g d)" by simp
  moreover have "(k, v) \<in> set (AList.update (f d) (g d) acc) \<Longrightarrow> (k, v) \<in> set acc \<or> v = g d"
    by (induction acc) (auto split: if_splits)
  ultimately show ?case by auto
qed simp

lemma mark_now_trails:
  assumes "mark_now cfg sa st = Some t"
  shows "\<exists>n. global_max (fst sa) (snd sa) st = Some n \<and> t \<le> n - ec_allowed_lateness cfg"
proof -
  let ?g = "marks_of cfg (fst sa) (snd sa) (global_max (fst sa) (snd sa) st) st"
  let ?marks = "fold (\<lambda>d. AList.update (source_domain_value d) (?g d)) (ec_required_domains cfg) []"
  let ?present = "concat (map (\<lambda>(_, w). case w of None \<Rightarrow> [] | Some t \<Rightarrow> [t]) ?marks)"
  obtain u us where "?present = u # us" "t = fold min us u"
    using assms by (auto simp: mark_now_def fusion_mark_def fusion_watermark_def Let_def
        split: if_splits list.splits)
  then have "t \<in> set ?present" using fold_min_mem [of us u] by simp
  then obtain k where "(k, Some t) \<in> set ?marks" by (auto split: option.splits)
  then obtain d where "?g d = Some t" using fold_update_values [of k "Some t"] by fastforce
  then show ?thesis by (rule marks_of_trails)
qed

section \<open>Bounds of the features\<close>

lemma ratio_unit: "a \<le> b \<Longrightarrow> unit_range (real a / real b)"
  by (cases "b = 0") (auto simp: unit_range_def divide_le_eq_1)

lemma concentration_unit: "unit_range (concentration xs)"
proof (cases "xs = []")
  case False
  have "Max (count_list xs ` set xs) \<le> length xs"
    using False by (auto simp: count_le_length)
  then show ?thesis using ratio_unit False by (simp add: concentration_def)
qed (simp add: concentration_def)

lemma py_int_nonneg: "0 \<le> r \<Longrightarrow> 0 \<le> py_int r"
  by (simp add: py_int_def)

lemma fold_max_nonneg: "\<forall>x \<in> set xs. 0 \<le> x \<Longrightarrow> 0 \<le> t \<Longrightarrow> (0::real) \<le> fold max xs t"
  by (induction xs arbitrary: t) auto

lemma source_gap_count_nonneg: "\<forall>s \<in> set qs. 0 \<le> num_of s ''source_gap_count'' \<Longrightarrow> 0 \<le> source_gap_count qs"
  unfolding source_gap_count_def by (rule py_int_nonneg) (cases qs, auto intro!: fold_max_nonneg)

lemma quality_score_unit:
  assumes "\<forall>x \<in> set freshness. 0 \<le> x" "0 \<le> gaps"
  shows "unit_range (quality_score freshness degraded gaps)"
proof -
  have "0 \<le> sum_list freshness" using assms(1) by (simp add: sum_list_nonneg)
  then have "0 \<le> min 1 (sum_list freshness / 600)" "0 \<le> min 0.5 (real_of_int gaps * 0.1)"
    using assms(2) by auto
  then show ?thesis unfolding quality_score_def unit_range_def by (auto simp: max_def)
qed

lemma side_quantity_nonneg:
  "\<forall>s \<in> set ts. 0 \<le> num_of s ''quantity'' \<Longrightarrow> 0 \<le> side_quantity side ts"
  unfolding side_quantity_def by (rule sum_list_nonneg) auto

lemma pressure_bounds:
  assumes "\<forall>s \<in> set ts. 0 \<le> num_of s ''quantity''"
  shows "\<bar>pressure ts\<bar> \<le> 1"
proof -
  have "0 \<le> side_quantity ''BUY'' ts" "0 \<le> side_quantity ''SELL'' ts"
    using side_quantity_nonneg [OF assms] by blast+
  then show ?thesis
    unfolding pressure_def Let_def by (auto simp: abs_le_iff divide_le_eq le_divide_eq)
qed

definition unit_features :: "string list" where
  "unit_features = [''orderbook_valid'', ''market_source_active'', ''market_source_idle'',
     ''market_source_degraded'', ''author_concentration'', ''repost_reply_ratio'',
     ''url_concentration'', ''new_author_ratio'', ''social_source_active'', ''social_source_idle'',
     ''social_source_degraded'', ''data_quality_score'', ''baseline_confidence'']"

lemma of_flag_unit [simp]: "opt_unit (of_flag b)"
  by (simp add: of_flag_def)

lemma opt_unit_if:
  "opt_unit (if b then x else y) \<longleftrightarrow> (b \<longrightarrow> opt_unit x) \<and> (\<not> b \<longrightarrow> opt_unit y)"
  "unit_range (if b then v else w) \<longleftrightarrow> (b \<longrightarrow> unit_range v) \<and> (\<not> b \<longrightarrow> unit_range w)"
  by simp_all

text \<open>A serialization to build examples with.\<close>

definition kinds :: "signal_kind list" where
  "kinds = [sk_market_trade, sk_market_candle, sk_orderbook, sk_social_post, sk_asset_mention, sk_data_quality]"

definition kind_code :: "signal_kind \<Rightarrow> int" where
  "kind_code k = (case k of sk_market_trade \<Rightarrow> 0 | sk_market_candle \<Rightarrow> 1 | sk_orderbook \<Rightarrow> 2
     | sk_social_post \<Rightarrow> 3 | sk_asset_mention \<Rightarrow> 4 | sk_data_quality \<Rightarrow> 5)"

definition encode_signal :: "feature_signal \<Rightarrow> py_value" where
  "encode_signal sg = PDict ((sg_event_id sg, PInt (sg_event_time sg)) # (sg_scope_id sg, PInt (sg_ingested_at sg))
     # (sg_asset_id sg, PBool (sg_source_domain sg = sd_market)) # ([], PInt (kind_code (sg_kind sg))) # sg_values sg)"

definition decode_signal :: "py_value \<Rightarrow> feature_signal res" where
  "decode_signal v = (case v of PDict ((i, PInt t) # (sc, PInt n) # (a, PBool b) # (_, PInt k) # vs) \<Rightarrow>
       Inr \<lparr>sg_event_id = i, sg_scope_id = sc, sg_asset_id = a, sg_event_time = t, sg_ingested_at = n,
         sg_kind = kinds ! nat k, sg_source_domain = (if b then sd_market else sd_social), sg_values = vs\<rparr>
     | _ \<Rightarrow> Inl (ValueError []))"

lemma decode_encode: "\<forall>x. decode_signal (encode_signal x) = Inr x"
proof
  fix x
  have "kinds ! nat (kind_code k) = k" for k by (cases k) (simp_all add: kinds_def kind_code_def)
  moreover have "(if d = sd_market then sd_market else sd_social) = d" for d by (cases d) simp_all
  ultimately show "decode_signal (encode_signal x) = Inr x"
    by (simp add: decode_signal_def encode_signal_def)
qed

section \<open>Properties\<close>

text \<open>C4. Whatever signals arrive, in whatever order, the engine stays well formed: each window
  of a scope, asset, start and interval has revisions numbered from one, each valid and
  describing that window; a revision after a final one is a correction that names its
  predecessor, and no window goes back to provisional; every event of a window is a logged signal
  whose time falls into it, and no signal is logged twice.\<close>

theorem engine_invariant: "wf_engine env cfg (engine_run env dump cfg sgs engine_empty)"
  by (rule engine_run_wf) simp

text \<open>Finalization is exact: after a new signal is ingested, the windows of its asset that end
  at or before the fusion watermark are all final, and every snapshot that was made final for
  the first time ends at least the allowed lateness before the newest event of the asset.\<close>

theorem ingest_finalization:
  assumes "st = engine_run env dump cfg sgs engine_empty" "signal_id sg \<notin> es_seen st"
    and "ingest env dump cfg sg st = (Inr ss, st')"
  shows "(\<exists>w. fst (watermark cfg (sg_scope_id sg) (sg_asset_id sg) st') = Inr w \<and>
      (\<forall>k \<in> set (map fst (es_revisions st')).
         window_asset k = (sg_scope_id sg, sg_asset_id sg) \<and> passed w k \<longrightarrow> fs_is_final (last (revisions_at k st')))) \<and>
    (\<forall>s \<in> set ss. fs_revision_state s = rs_final \<longrightarrow>
      (\<exists>n. global_max (sg_scope_id sg) (sg_asset_id sg) st' = Some n \<and>
         fs_window_end s \<le> n - ec_allowed_lateness cfg))"
proof -
  let ?sc = "sg_scope_id sg" and ?as = "sg_asset_id sg"
  have wf: "wf_engine env cfg st" unfolding assms(1) by (rule engine_run_wf) simp
  let ?n = "note_signal sg st"
  have wfn: "wf_engine env cfg ?n" by (rule wf_note_signal [OF wf assms(2)])
  obtain changed st1 where i: "ingest_intervals env dump cfg sg (ec_intervals cfg) ?n = (Inr changed, st1)"
    and f: "\<exists>finals. finalize_eligible env dump cfg ?sc ?as st1 = (Inr finals, st')"
    using assms(2,3) by (auto simp: ingest_def signal_id_def split: prod.splits sum.splits)
  have "produces env cfg (?sc, ?as) ?n (Inr changed, st1)"
    using ingest_intervals_produces [OF wfn _ subset_refl refl, of sg dump] i by simp
  then have e1: "evolves env cfg (?sc, ?as) ?n changed st1" by (auto elim: producesE)
  have "produces env cfg (?sc, ?as) ?n (Inr ss, st')"
    using ingest_produces [OF wf assms(2), of dump] assms(3) by simp
  then have e: "evolves env cfg (?sc, ?as) ?n ss st'" by (auto elim: producesE)
  have wf1: "wf_engine env cfg (look cfg (?sc, ?as) st1)" by (rule wf_look [OF evolves_wf [OF e1 wfn]])
  have req: "ec_required_domains cfg \<noteq> []"
    using f by (auto simp: finalize_eligible_def watermark_look split: if_splits)
  have m: "mark_now cfg (?sc, ?as) st' = mark_now cfg (?sc, ?as) ?n"
    "mark_now cfg (?sc, ?as) st1 = mark_now cfg (?sc, ?as) ?n"
    using evolves_mark [OF e] evolves_mark [OF e1] by simp_all
  have complete: "fs_is_final (last (revisions_at k st'))"
    if k: "k \<in> set (map fst (es_revisions st'))" "window_asset k = (?sc, ?as)" "passed (mark_now cfg (?sc, ?as) st') k" for k
  proof -
    obtain w where w: "mark_now cfg (?sc, ?as) st1 = Some w" "window_end_of k \<le> w"
      using k(3) m by (auto simp: passed_def)
    obtain finals where l: "finalize_loop env dump cfg ?sc ?as w (map fst (es_revisions st1)) (look cfg (?sc, ?as) st1) = (Inr finals, st')"
      using f w req by (auto simp: finalize_eligible_def watermark_look)
    have keys: "\<forall>k \<in> set (map fst (es_revisions st1)). revisions_at k (look cfg (?sc, ?as) st1) \<noteq> []"
      using evolves_wf [OF e1 wfn] by (simp add: wf_engine_def keys_ok_def)
    obtain ls where el: "evolves env cfg (?sc, ?as) (look cfg (?sc, ?as) st1) ls st'"
      using finalize_loop_produces [OF wf1, of ?sc ?as w dump "map fst (es_revisions st1)"] w l by (auto elim: producesE)
    have "set (map fst (es_revisions st')) \<subseteq> set (map fst (es_revisions st1))"
      using finalize_loop_keys [OF l] keys by simp
    then have "k \<in> set (map fst (es_revisions st1))" using k(1) by blast
    then show ?thesis
      using bspec [OF finalize_loop_complete [OF wf1 _ keys l], of k] w k(2) by simp
  qed
  have final: "\<exists>n. global_max ?sc ?as st' = Some n \<and> fs_window_end s \<le> n - ec_allowed_lateness cfg"
    if "s \<in> set ss" "fs_revision_state s = rs_final" for s
  proof -
    have p: "passed (mark_now cfg (?sc, ?as) st') (snapshot_key s)" "fs_window_end s = window_end_of (snapshot_key s)"
      using evolves_final [OF e] that m by auto
    then obtain w where w: "mark_now cfg (?sc, ?as) st' = Some w" "fs_window_end s \<le> w"
      by (auto simp: passed_def)
    from mark_now_trails [OF w(1)] w(2) show ?thesis by auto
  qed
  show ?thesis
    using complete final req by (auto simp: watermark_look)
qed

definition trade_signal :: "string \<Rightarrow> datetime \<Rightarrow> feature_signal" where
  "trade_signal i t = \<lparr>sg_event_id = i, sg_scope_id = ''LIVE'', sg_asset_id = ''ACME'', sg_event_time = t,
     sg_ingested_at = t, sg_kind = sk_market_trade, sg_source_domain = sd_market,
     sg_values = [(''price'', PFloat 2), (''quantity'', PInt 3), (''side'', PStr ''BUY'')]\<rparr>"

definition broken_post :: "string \<Rightarrow> datetime \<Rightarrow> feature_signal" where
  "broken_post i t = \<lparr>sg_event_id = i, sg_scope_id = ''LIVE'', sg_asset_id = ''ACME'', sg_event_time = t,
     sg_ingested_at = t, sg_kind = sk_social_post, sg_source_domain = sd_social,
     sg_values = [(''urls'', PNone)]\<rparr>"

lemma trade_signal_typed [simp]: "well_typed (trade_signal i t)"
  by (simp add: well_typed_def trade_signal_def value_or_def py_iter_def py_len_def)

lemma default_config_ok [simp]: "config_ok default_engine_config"
  by (simp add: config_ok_def default_engine_config_def)

lemma live_empty [simp]: "config_ok cfg \<Longrightarrow> live env cfg engine_empty"
  by (simp add: live_def) (simp add: engine_empty_def)

lemma live_run:
  assumes "live env cfg st" "\<forall>sg \<in> set sgs. well_typed sg"
  shows "live env cfg (engine_run env dump cfg sgs st)"
  using assms
proof (induction sgs arbitrary: st)
  case (Cons sg sgs)
  have wf: "wf_engine env cfg st" using Cons.prems(1) by (simp add: live_def)
  have "live env cfg (snd (ingest env dump cfg sg st))"
  proof (cases "signal_id sg \<in> es_seen st")
    case True
    then show ?thesis using Cons.prems(1) by (simp add: ingest_duplicate)
  next
    case False
    then show ?thesis
      using Cons.prems ingest_frame [OF wf, where sg = sg and dump = dump] by (auto simp: live_def)
  qed
  then show ?case using Cons by simp
qed simp

lemma engine_run_append:
  "engine_run env dump cfg (xs @ ys) st = engine_run env dump cfg ys (engine_run env dump cfg xs st)"
  by (induction xs arbitrary: st) simp_all

lemma restore_signals_append:
  "restore_signals env dump cfg dec (vs @ ws) st =
    (case restore_signals env dump cfg dec vs st of
       (Inl e, st1) \<Rightarrow> (Inl e, st1) | (Inr _, st1) \<Rightarrow> restore_signals env dump cfg dec ws st1)"
  by (induction vs arbitrary: st) (auto split: sum.split prod.split)

lemma restore_run:
  assumes "config_ok cfg" "\<forall>x \<in> set sgs. well_typed x" "\<forall>x. dec (enc x) = Inr x"
  shows "restore_signals env dump cfg dec (map enc (es_signal_log (engine_run env dump cfg sgs engine_empty))) engine_empty
    = (Inr (), engine_run env dump cfg sgs engine_empty)"
  using assms(2)
proof (induction sgs rule: rev_induct)
  case Nil
  then show ?case by (simp add: engine_empty_def)
next
  case (snoc sg sgs)
  let ?st = "engine_run env dump cfg sgs engine_empty"
  have IH: "restore_signals env dump cfg dec (map enc (es_signal_log ?st)) engine_empty = (Inr (), ?st)"
    using snoc by simp
  have l: "live env cfg ?st" using live_run [OF live_empty [OF assms(1)]] snoc.prems by simp
  then have wf: "wf_engine env cfg ?st" by (simp add: live_def)
  show ?case
  proof (cases "signal_id sg \<in> es_seen ?st")
    case True
    then show ?thesis using IH by (simp add: engine_run_append ingest_duplicate)
  next
    case False
    obtain ss where "fst (ingest env dump cfg sg ?st) = Inr ss"
      using ingest_ok [OF l, of sg dump] snoc.prems by auto
    then obtain st' where i: "ingest env dump cfg sg ?st = (Inr ss, st')" by (cases "ingest env dump cfg sg ?st") auto
    have "es_signal_log st' = es_signal_log ?st @ [sg]"
      using ingest_frame(3) [OF wf False, where dump = dump] i by simp
    then show ?thesis
      using IH i assms(3) by (simp add: engine_run_append restore_signals_append)
  qed
qed

theorem ingest_finalization_witness:
  "\<exists>ss st'. ingest sample_env (\<lambda>_. []) default_engine_config (trade_signal ''t1'' 5) engine_empty = (Inr ss, st') \<and>
     (\<exists>w. fst (watermark default_engine_config ''LIVE'' ''ACME'' st') = Inr w) \<and>
     (\<forall>s \<in> set ss. fs_revision_state s = rs_final \<longrightarrow>
        (\<exists>n. global_max ''LIVE'' ''ACME'' st' = Some n \<and> fs_window_end s \<le> n - seconds 120))"
proof -
  let ?cfg = default_engine_config and ?sg = "trade_signal ''t1'' 5"
  obtain ss st' where i: "ingest sample_env (\<lambda>_. []) ?cfg ?sg engine_empty = (Inr ss, st')"
    using ingest_ok [of sample_env ?cfg engine_empty ?sg "\<lambda>_. []"] by (metis default_config_ok live_empty prod.collapse trade_signal_typed)
  have new: "signal_id ?sg \<notin> es_seen engine_empty" by (simp add: engine_empty_def)
  have key: "sg_scope_id ?sg = ''LIVE''" "sg_asset_id ?sg = ''ACME''" by (simp_all add: trade_signal_def)
  have lat: "ec_allowed_lateness ?cfg = seconds 120" by (simp add: default_engine_config_def)
  have "engine_empty = engine_run sample_env (\<lambda>_. []) ?cfg [] engine_empty" by simp
  from ingest_finalization [OF this new i] show ?thesis
    unfolding key lat using i by blast
qed

lemma engine_produces_revisions:
  assumes "config_ok cfg" "\<forall>x \<in> set sgs. well_typed x" "well_typed sg"
  shows "\<exists>ss st'. ingest env dump cfg sg (engine_run env dump cfg sgs engine_empty) = (Inr ss, st') \<and>
    (\<forall>k. revisions_at k st' = revisions_at k (engine_run env dump cfg sgs engine_empty) @
       filter (\<lambda>s. snapshot_key s = k) ss)"
proof -
  let ?st = "engine_run env dump cfg sgs engine_empty"
  have l: "live env cfg ?st" by (rule live_run [OF live_empty [OF assms(1)] assms(2)])
  then have wf: "wf_engine env cfg ?st" by (simp add: live_def)
  obtain ss st' where i: "ingest env dump cfg sg ?st = (Inr ss, st')"
    using ingest_ok [OF l assms(3), of dump] by (metis prod.collapse)
  have "revisions_at k st' = revisions_at k ?st @ filter (\<lambda>s. snapshot_key s = k) ss" for k
  proof (cases "signal_id sg \<in> es_seen ?st")
    case True
    then show ?thesis using i by (simp add: ingest_duplicate)
  next
    case False
    from ingest_produces [OF wf False, of dump] i
    have "evolves env cfg (sg_scope_id sg, sg_asset_id sg) (note_signal sg ?st) ss st'"
      by (auto elim: producesE)
    from evolves_revisions [OF this] show ?thesis by simp
  qed
  with i show ?thesis by blast
qed

text \<open>Well-typed signals never raise: after any run of well-typed signals, ingesting one more
  returns snapshots, and these are exactly the revisions that the windows gained.\<close>

theorem ingest_total:
  assumes "config_ok cfg" "\<forall>x \<in> set sgs. well_typed x" "well_typed sg"
  shows "\<exists>ss st'. ingest env dump cfg sg (engine_run env dump cfg sgs engine_empty) = (Inr ss, st') \<and>
    (\<forall>k. revisions_at k st' = revisions_at k (engine_run env dump cfg sgs engine_empty) @
       filter (\<lambda>s. snapshot_key s = k) ss)"
  by (rule engine_produces_revisions [OF assms])

theorem ingest_total_witness:
  "\<exists>ss st'. ingest sample_env (\<lambda>_. []) default_engine_config (trade_signal ''t2'' (seconds 400))
     (engine_run sample_env (\<lambda>_. []) default_engine_config [trade_signal ''t1'' 5] engine_empty) = (Inr ss, st')"
  using ingest_total [OF default_config_ok, of "[trade_signal ''t1'' 5]" "trade_signal ''t2'' (seconds 400)"
      sample_env "\<lambda>_. []"] by fastforce

text \<open>A signal is ingested once: a redelivery, at any later time, returns nothing and leaves the
  engine as it is, whatever the first delivery did.\<close>

theorem ingest_once:
  assumes "signal_id sg \<in> signal_id ` set sgs"
  shows "ingest env dump cfg sg (engine_run env dump cfg sgs engine_empty) =
    (Inr [], engine_run env dump cfg sgs engine_empty)"
proof -
  have "signal_id sg \<in> es_seen (engine_run env dump cfg sgs st)"
    if "wf_engine env cfg st" "signal_id sg \<in> es_seen st \<or> signal_id sg \<in> signal_id ` set sgs" for st
    using that
  proof (induction sgs arbitrary: st)
    case (Cons x sgs)
    have "signal_id sg \<in> es_seen st \<Longrightarrow> signal_id sg \<in> es_seen (snd (ingest env dump cfg x st))"
      using ingest_seen_mono [OF Cons.prems(1)] by blast
    then have "signal_id sg \<in> es_seen (snd (ingest env dump cfg x st)) \<or> signal_id sg \<in> signal_id ` set sgs"
      using Cons.prems(2) ingest_frame(2) [OF Cons.prems(1), where sg = x and dump = dump] by auto
    then show ?case using Cons.IH [OF ingest_frame(1) [OF Cons.prems(1)]] by simp
  qed simp
  with assms show ?thesis by (intro ingest_duplicate) simp
qed

theorem ingest_once_witness:
  "let st = engine_run sample_env (\<lambda>_. []) default_engine_config [broken_post ''p1'' 5] engine_empty
   in ingest sample_env (\<lambda>_. []) default_engine_config (broken_post ''p1'' 5) st = (Inr [], st)"
  unfolding Let_def by (rule ingest_once) simp



lemma broken_post_raises:
  "fst (ingest sample_env (\<lambda>_. []) default_engine_config (broken_post i t) engine_empty)
     = Inl (TypeError ''object is not iterable'')"
proof -
  let ?sg = "broken_post i t" and ?cfg = default_engine_config
  let ?st = "add_event (signal_key ?sg 60) ?sg (note_signal ?sg engine_empty)"
  have ev: "map_of (es_events ?st) (signal_key ?sg 60) = Some [?sg]"
    by (simp add: add_event_def update_conv' events_at_def engine_empty_def note_signal_def Let_def)
  have "urls_of (of_kind sk_social_post (order_events [?sg])) = Inl (TypeError ''object is not iterable'')"
    by (simp add: order_events_def of_kind_def broken_post_def value_or_def py_iter_def)
  then have "compute_features fx a b (order_events [?sg]) = Inl (TypeError ''object is not iterable'')" for fx a b
    by (simp add: compute_features_def Let_def)
  then have "fst (build_revision sample_env (\<lambda>_. []) ?cfg (signal_key ?sg 60) False ?st) = Inl (TypeError ''object is not iterable'')"
    using ev unfolding build_revision_def signal_key_def prod.case watermark_look
    by (simp add: default_engine_config_def)
  then obtain st2 where "build_revision sample_env (\<lambda>_. []) ?cfg (signal_key ?sg 60) False ?st = (Inl (TypeError ''object is not iterable''), st2)"
    by (metis prod.collapse)
  moreover have "ec_intervals ?cfg = [60, 300]" by (simp add: default_engine_config_def)
  ultimately show ?thesis
    by (simp add: ingest_def engine_empty_def signal_key_def add_event_def Let_def)
qed

text \<open>A signal that raises poisons the checkpoint: the engine has logged it before the
  exception, so the exported state can not be restored; restoring raises the same exception.\<close>

theorem checkpoint_poisoned:
  assumes "config_ok cfg" "\<forall>x \<in> set sgs. well_typed x" "\<forall>x. dec (enc x) = Inr x"
    and "ingest env dump cfg sg (engine_run env dump cfg sgs engine_empty) = (Inl e, st)"
  shows "fst (restore_state env dump cfg dec (export_state enc st) engine_empty) = Inl e"
proof -
  let ?st = "engine_run env dump cfg sgs engine_empty"
  have "live env cfg ?st" by (rule live_run [OF live_empty [OF assms(1)] assms(2)])
  then have wf: "wf_engine env cfg ?st" by (simp add: live_def)
  have "signal_id sg \<notin> es_seen ?st"
    using assms(4) by (auto simp: ingest_duplicate)
  then have "es_signal_log st = es_signal_log ?st @ [sg]"
    using ingest_frame(3) [OF wf, where sg = sg and dump = dump] assms(4) by simp
  then have "restore_signals env dump cfg dec (map enc (es_signal_log st)) engine_empty = (Inl e, st)"
    using restore_run [OF assms(1-3), of env dump] assms(3,4) by (simp add: restore_signals_append)
  then show ?thesis by (simp add: restore_state_def export_state_def engine_empty_def)
qed

theorem checkpoint_poisoned_witness:
  "let st = snd (ingest sample_env (\<lambda>_. []) default_engine_config (broken_post ''p1'' 5) engine_empty)
   in fst (restore_state sample_env (\<lambda>_. []) default_engine_config decode_signal (export_state encode_signal st) engine_empty)
     = Inl (TypeError ''object is not iterable'')"
proof -
  obtain st where i: "ingest sample_env (\<lambda>_. []) default_engine_config (broken_post ''p1'' 5)
      (engine_run sample_env (\<lambda>_. []) default_engine_config [] engine_empty) = (Inl (TypeError ''object is not iterable''), st)"
    using broken_post_raises [of "''p1''" 5] by (metis engine_run.simps(1) prod.collapse)
  from checkpoint_poisoned [OF default_config_ok _ decode_encode i] i show ?thesis by simp
qed

text \<open>The ratios, flags and quality scores of a window lie in the unit interval and the
  buy/sell pressure between minus one and one, whatever signals the window holds, as long as
  quantities and gap counts are not negative.\<close>

theorem features_bounded:
  assumes "compute_features fx start stop es = Inr fs" "start \<le> stop"
    and "\<forall>s \<in> set es. 0 \<le> num_of s ''quantity'' \<and> 0 \<le> num_of s ''source_gap_count''"
  shows "(\<forall>n \<in> set unit_features. opt_unit (feature_get fs n)) \<and>
    (\<exists>p. feature_get fs ''buy_sell_pressure'' = Some p \<and> \<bar>p\<bar> \<le> 1) \<and> map fst fs = FEATURE_NAMES"
proof -
  have q: "\<forall>s \<in> set (of_kind k es). 0 \<le> num_of s ''quantity'' \<and> 0 \<le> num_of s ''source_gap_count''" for k
    using assms(3) by (auto simp: of_kind_def)
  have p: "\<bar>pressure (of_kind sk_market_trade es)\<bar> \<le> 1"
    using q by (intro pressure_bounds) auto
  have gaps: "0 \<le> source_gap_count (of_kind sk_data_quality es)"
    using q by (intro source_gap_count_nonneg) auto
  have span: "0 \<le> total_seconds (stop - start)" using assms(2) by (intro total_seconds_nonneg) simp
  have base: "unit_range (min 1 (real n / 20))" for n by (auto simp: unit_range_def)
  have repost: "unit_range (real (repost_reply_count ss) / real (length ss))" for ss
    by (rule ratio_unit) (simp add: repost_reply_count_def)
  have fresh: "unit_range (real (new_author_count fx start as) / real (length (remdups as)))" for as
    by (rule ratio_unit) (simp add: new_author_count_def)
  have quality: "0 \<le> x \<Longrightarrow> unit_range (quality_score [x] d (source_gap_count (of_kind sk_data_quality es)))"
    "0 \<le> x \<Longrightarrow> 0 \<le> y \<Longrightarrow> unit_range (quality_score [x, y] d (source_gap_count (of_kind sk_data_quality es)))" for x y d
    by (rule quality_score_unit, use gaps in simp_all)+
  have keys: "map fst fs = FEATURE_NAMES" by (rule compute_features_keys [OF assms(1)])
  obtain us tags where u: "urls_of (of_kind sk_social_post es) = Inr us" "hashtag_count (of_kind sk_social_post es) = Inr tags"
    using assms(1) by (auto simp: compute_features_def Let_def split: sum.splits)
  note fs = assms(1) [unfolded compute_features_def Let_def u sum.case sum.inject, symmetric]
  have units: "list_all (\<lambda>(n, v). n \<in> set unit_features \<longrightarrow> opt_unit v) fs"
    unfolding fs by (simp add: unit_features_def opt_unit_if concentration_unit repost fresh base quality span)
  have "opt_unit (feature_get fs n)" if "n \<in> set unit_features" for n
  proof (cases "map_of fs n")
    case (Some v)
    then show ?thesis using units that by (auto simp: feature_get_def list_all_iff dest: map_of_SomeD)
  qed (simp add: feature_get_def)
  moreover have "feature_get fs ''buy_sell_pressure'' = Some (pressure (of_kind sk_market_trade es))"
    unfolding fs by (simp add: feature_get_def)
  ultimately show ?thesis using p keys by simp
qed

theorem features_bounded_witness:
  "\<exists>fs. compute_features \<lparr>fx_market_state = missing_source, fx_social_state = missing_source,
       fx_author_first_seen = (\<lambda>_. None), fx_trailing_volumes = [], fx_prior_window_count = 3\<rparr>
       0 (seconds 60) [trade_signal ''t1'' 5] = Inr fs \<and> opt_unit (feature_get fs ''data_quality_score'')"
proof -
  let ?fx = "\<lparr>fx_market_state = missing_source, fx_social_state = missing_source,
       fx_author_first_seen = (\<lambda>_. None), fx_trailing_volumes = [], fx_prior_window_count = 3\<rparr>"
  obtain fs where f: "compute_features ?fx 0 (seconds 60) [trade_signal ''t1'' 5] = Inr fs"
    using compute_features_ok [of "[trade_signal ''t1'' 5]" ?fx 0 "seconds 60"] by auto
  have "\<forall>s \<in> set [trade_signal ''t1'' 5]. 0 \<le> num_of s ''quantity'' \<and> 0 \<le> num_of s ''source_gap_count''"
    by (simp add: trade_signal_def num_of_def value_of_def value_or_def safe_float_def)
  from features_bounded [OF f _ this] f show ?thesis by (auto simp: unit_features_def)
qed

end
