(* ===== verification/Json_Text.thy ===== *)
theory Json_Text
  imports Prelude
begin

text \<open>
  The text that \<open>json.dumps\<close> writes for strings and for objects with string values
  (\<open>separators=(",", ":")\<close>, ASCII input), as far as the identities of the program use it, and
  that this text determines the value. Strings hold ASCII characters; the escapes of Python for
  the control characters are written out.
\<close>

definition hex_digit :: "nat \<Rightarrow> char" where
  "hex_digit n = char_of (if n < 10 then 48 + n else 87 + n)"

definition json_char :: "char \<Rightarrow> string" where
  "json_char c = (let n = of_char c :: nat in
     if n = 34 then [CHR 0x5C, c]
     else if n = 92 then [CHR 0x5C, c]
     else if n = 8 then [CHR 0x5C, CHR ''b'']
     else if n = 9 then [CHR 0x5C, CHR ''t'']
     else if n = 10 then [CHR 0x5C, CHR ''n'']
     else if n = 12 then [CHR 0x5C, CHR ''f'']
     else if n = 13 then [CHR 0x5C, CHR ''r'']
     else if n < 32 then [CHR 0x5C, CHR ''u'', CHR ''0'', CHR ''0'', hex_digit (n div 16), hex_digit (n mod 16)]
     else [c])"

definition quote :: string where "quote = [CHR 0x22]"

definition json_string :: "string \<Rightarrow> string" where
  "json_string s = quote @ concat (map json_char s) @ quote"

text \<open>A sequence of fields as they appear between the braces.\<close>

definition json_fields :: "(string \<times> string) list \<Rightarrow> string" where
  "json_fields kvs = join '','' (map (\<lambda>(k, text). json_string k @ '':'' @ text) kvs)"

definition json_object :: "(string \<times> string) list \<Rightarrow> string" where
  "json_object kvs = ''{'' @ json_fields kvs @ ''}''"

section \<open>Reading back\<close>

definition hex_value :: "char \<Rightarrow> nat" where
  "hex_value c = (let n = of_char c :: nat in if n < 58 then n - 48 else n - 87)"

lemma hex_value_digit [simp]: "n < 16 \<Longrightarrow> hex_value (hex_digit n) = n"
  by (simp add: hex_value_def hex_digit_def Let_def)

text \<open>One character of a string literal, with the rest of the text; \<open>None\<close> at the closing quote.\<close>

fun read_char :: "string \<Rightarrow> (char \<times> string) option" where
  "read_char (c # rest) =
    (if of_char c = (34::nat) then None
     else if of_char c = (92::nat) then
       (case rest of
          d # after \<Rightarrow>
            if d = CHR ''b'' then Some (char_of (8::nat), after)
            else if d = CHR ''t'' then Some (char_of (9::nat), after)
            else if d = CHR ''n'' then Some (char_of (10::nat), after)
            else if d = CHR ''f'' then Some (char_of (12::nat), after)
            else if d = CHR ''r'' then Some (char_of (13::nat), after)
            else if d = CHR ''u'' then
              (case after of _ # _ # h # l # tail \<Rightarrow> Some (char_of (16 * hex_value h + hex_value l), tail) | _ \<Rightarrow> None)
            else Some (d, after)
        | [] \<Rightarrow> None)
     else Some (c, rest))"
| "read_char [] = None"

lemma of_char_eq: "of_char c = n \<Longrightarrow> c = char_of (n :: nat)"
  by (metis char_of_char)

lemma read_json_char: "read_char (json_char c @ rest) = Some (c, rest)"
proof -
  let ?n = "of_char c :: nat"
  consider (q) "?n = 34" | (b) "?n = 92" | (c8) "?n = 8" | (c9) "?n = 9" | (c10) "?n = 10" | (c12) "?n = 12"
    | (c13) "?n = 13" | (ctl) "?n < 32" "?n \<notin> {8, 9, 10, 12, 13}" | (plain) "32 \<le> ?n" "?n \<noteq> 34" "?n \<noteq> 92"
    by force
  then show ?thesis
  proof cases
    case q
    then have "c = CHR 0x22" using of_char_eq_iff [of c "CHR 0x22", where 'a = nat] by simp
    then show ?thesis by (simp add: json_char_def Let_def)
  next
    case b
    then have "c = CHR 0x5C" using of_char_eq_iff [of c "CHR 0x5C", where 'a = nat] by simp
    then show ?thesis by (simp add: json_char_def Let_def)
  next
    case ctl
    have "16 * (?n div 16) + ?n mod 16 = ?n" by simp
    with ctl show ?thesis by (simp add: json_char_def Let_def)
  next
    case plain
    then show ?thesis by (simp add: json_char_def Let_def)
  qed (auto simp: json_char_def Let_def dest: of_char_eq)
qed

lemma read_quote: "read_char (quote @ rest) = None"
  by (simp add: quote_def)

lemma json_body_inject:
  "concat (map json_char s) @ quote @ x = concat (map json_char t) @ quote @ y \<Longrightarrow> s = t \<and> x = y"
proof (induction s arbitrary: t)
  case Nil
  show ?case
  proof (cases t)
    case Nil
    with Nil.prems show ?thesis by simp
  next
    case (Cons d ds)
    have "read_char (quote @ x) = read_char (json_char d @ concat (map json_char ds) @ quote @ y)"
      using Nil.prems Cons by simp
    then show ?thesis by (simp only: read_quote read_json_char) simp
  qed
next
  case (Cons c cs)
  show ?case
  proof (cases t)
    case Nil
    have "read_char (json_char c @ concat (map json_char cs) @ quote @ x) = read_char (quote @ y)"
      using Cons.prems Nil by simp
    then show ?thesis by (simp only: read_quote read_json_char) simp
  next
    case t: (Cons d ds)
    have "read_char (json_char c @ concat (map json_char cs) @ quote @ x) =
        read_char (json_char d @ concat (map json_char ds) @ quote @ y)"
      using Cons.prems t by simp
    then have "c = d" "concat (map json_char cs) @ quote @ x = concat (map json_char ds) @ quote @ y"
      by (simp_all only: read_json_char) simp_all
    with Cons.IH t show ?thesis by blast
  qed
qed

text \<open>A string literal is a prefix code: what follows it is determined.\<close>

lemma json_string_inject:
  "json_string s @ x = json_string t @ y \<longleftrightarrow> s = t \<and> x = y"
  using json_body_inject [of s x t y] by (auto simp: json_string_def)

lemma json_string_inject' [simp]: "json_string s = json_string t \<longleftrightarrow> s = t"
  using json_string_inject [of s "[]" t "[]"] by simp

section \<open>Decimal numbers\<close>

lemma digit_code: "n < 10 \<Longrightarrow> of_char (digit n) = 48 + n"
  by (simp add: digit_def)

definition digits_value :: "string \<Rightarrow> nat" where
  "digits_value s = fold (\<lambda>c v. 10 * v + (of_char c - 48)) s 0"

lemma digits_value_snoc: "n < 10 \<Longrightarrow> digits_value (s @ [digit n]) = 10 * digits_value s + n"
  by (simp add: digits_value_def digit_code)

lemma show_nat_value: "digits_value (show_nat n) = n"
proof (induction n rule: less_induct)
  case (less n)
  show ?case
  proof (cases "n < 10")
    case True
    then show ?thesis by (simp add: show_nat.simps [of n] digits_value_def digit_code)
  next
    case False
    then have "digits_value (show_nat (n div 10)) = n div 10" by (intro less.IH) simp
    with False show ?thesis by (simp add: show_nat.simps [of n] digits_value_snoc)
  qed
qed

lemma show_nat_inject [simp]: "show_nat m = show_nat n \<longleftrightarrow> m = n"
  by (metis show_nat_value)

definition is_digit :: "char \<Rightarrow> bool" where
  "is_digit c \<longleftrightarrow> (let n = of_char c :: nat in 48 \<le> n \<and> n < 58)"

lemma show_nat_digits: "\<forall>c \<in> set (show_nat n). is_digit c"
proof (induction n rule: less_induct)
  case (less n)
  show ?case
  proof (cases "n < 10")
    case True
    then show ?thesis by (simp add: show_nat.simps [of n] digit_code is_digit_def)
  next
    case False
    then have "n div 10 < n" by simp
    from less.IH [OF this] False show ?thesis
      by (auto simp: show_nat.simps [of n] digit_code is_digit_def)
  qed
qed

text \<open>A number before a character that is not a digit is determined, and so is what follows.\<close>

lemma show_nat_split:
  assumes "\<not> is_digit c" "show_nat m @ c # x = show_nat n @ c # y"
  shows "m = n \<and> x = y"
proof -
  have "takeWhile is_digit (show_nat k @ c # z) = show_nat k" for k z
    using show_nat_digits [of k] assms(1) by (subst takeWhile_append2) auto
  then have "show_nat m = show_nat n" by (metis assms(2))
  with assms(2) show ?thesis by simp
qed

text \<open>A number after the last such character likewise.\<close>

lemma show_nat_split_last:
  assumes "\<not> is_digit c" "x @ c # show_nat m = y @ c # show_nat n"
  shows "x = y \<and> m = n"
proof -
  have "takeWhile is_digit (rev (show_nat k) @ c # z) = rev (show_nat k)" for k z
    using show_nat_digits [of k] assms(1) by (subst takeWhile_append2) auto
  moreover have "rev (show_nat m) @ c # rev x = rev (show_nat n) @ c # rev y"
    using arg_cong [OF assms(2), of rev] by simp
  ultimately have "rev (show_nat m) = rev (show_nat n)" by metis
  with assms(2) show ?thesis by simp
qed

end
