(* ===== verification/Signals.thy ===== *)
theory Signals
  imports Domain Feature_Engine_Correct Json_Text
begin

text \<open>
  From ingested events to feature signals (\<open>features/signals.py\<close>), and what makes these signals
  safe for the feature engine: their values have the types the features read, and their event
  identifiers, by which the engine deduplicates, do not collide.
\<close>

type_synonym signal_event = "(string \<times> py_value) list canonical_event"

section \<open>Market signals\<close>

text \<open>\<open>event.payload.get("_quality", {}).get("book_valid", True)\<close>: only a dictionary has \<open>get\<close>.\<close>

definition book_valid_of :: "signal_event \<Rightarrow> bool res" where
  "book_valid_of e = (case map_of (ce_payload e) ''_quality'' of
     None \<Rightarrow> Inr True
   | Some (PDict q) \<Rightarrow> Inr (case map_of q ''book_valid'' of None \<Rightarrow> True | Some v \<Rightarrow> truthy v)
   | Some _ \<Rightarrow> Inl (AttributeError ''get''))"

definition book_values :: "bool \<Rightarrow> order_book_update \<Rightarrow> (string \<times> py_value) list" where
  "book_values book_valid b =
    (let bid = or_num (ob_top_bid_depth b) (\<Sum>(p, q)\<leftarrow>take 5 (ob_bids b). q);
         ask = or_num (ob_top_ask_depth b) (\<Sum>(p, q)\<leftarrow>take 5 (ob_asks b). q);
         total = bid + ask
     in [(''spread'', if book_valid then opt_float (ob_spread b) else PNone),
         (''top_n_depth'', if book_valid \<and> total \<noteq> 0 then PFloat total else PNone),
         (''imbalance'', if book_valid \<and> total \<noteq> 0 then PFloat ((bid - ask) / total) else PNone),
         (''book_valid'', PBool book_valid)])"

definition signal_from :: "signal_event \<Rightarrow> string \<Rightarrow> string \<Rightarrow> datetime \<Rightarrow> signal_kind \<Rightarrow> source_domain
    \<Rightarrow> (string \<times> py_value) list \<Rightarrow> feature_signal" where
  "signal_from e i asset t k domain vs = \<lparr>sg_event_id = i, sg_scope_id = scope_of_replay (ce_replay e),
     sg_asset_id = asset, sg_event_time = t, sg_ingested_at = ce_ingested_at e, sg_kind = k,
     sg_source_domain = domain, sg_values = vs\<rparr>"

definition market_signal :: "signal_event \<Rightarrow> market_datum \<Rightarrow> feature_signal res" where
  "market_signal e d =
    (let make = signal_from e (ce_event_id e) (datum_asset d) (datum_time d)
     in case d of
          Trade t \<Rightarrow> Inr (make sk_market_trade sd_market
            [(''price'', PFloat (mt_price t)), (''quantity'', PFloat (mt_quantity t)), (''side'', opt_str (mt_side t))])
        | Candle c \<Rightarrow> Inr (make sk_market_candle sd_market
            [(''open'', PFloat (mc_open c)), (''high'', PFloat (mc_high c)), (''low'', PFloat (mc_low c)),
             (''close'', PFloat (mc_close c)), (''volume'', PFloat (mc_volume c))])
        | Book b \<Rightarrow> (case book_valid_of e of
            Inl x \<Rightarrow> Inl x | Inr v \<Rightarrow> Inr (make sk_orderbook sd_market (book_values v b))))"

section \<open>Social signals\<close>

definition mentioned_assets :: "asset_mention list \<Rightarrow> string list" where
  "mentioned_assets ms =
     sort (remdups (concat (map (\<lambda>m. case am_asset_id m of None \<Rightarrow> [] | Some a \<Rightarrow> [a]) ms)))"

definition post_values :: "social_post \<Rightarrow> (string \<times> py_value) list" where
  "post_values p = [(''author_id'', PStr (sp_author_id p)), (''hashtags'', str_list (sp_hashtags p)),
     (''cashtags'', str_list (sp_cashtags p)), (''urls'', str_list (sp_urls p)),
     (''reply_to'', opt_str (sp_reply_to p)), (''repost_of'', opt_str (sp_repost_of p))]"

definition post_signal :: "signal_event \<Rightarrow> social_post \<Rightarrow> string \<Rightarrow> feature_signal" where
  "post_signal e p asset = signal_from e (ce_event_id e @ '':post:'' @ asset) asset (sp_event_time p)
     sk_social_post sd_social (post_values p)"

definition mention_signal :: "signal_event \<Rightarrow> social_post \<Rightarrow> string \<Rightarrow> nat \<times> asset_mention \<Rightarrow> feature_signal" where
  "mention_signal e p asset = (\<lambda>(i, m).
     signal_from e (ce_event_id e @ '':mention:'' @ asset @ '':'' @ show_nat i) asset (sp_event_time p)
       sk_asset_mention sd_social
       [(''confidence'', PFloat (am_confidence m)), (''resolver_version'', PStr (am_resolver_version m))])"

definition asset_signals :: "signal_event \<Rightarrow> social_post \<Rightarrow> asset_mention list \<Rightarrow> string \<Rightarrow> feature_signal list" where
  "asset_signals e p ms asset = post_signal e p asset #
     map (mention_signal e p asset) (enumerate 1 (filter (\<lambda>m. am_asset_id m = Some asset) ms))"

definition social_signals :: "signal_event \<Rightarrow> social_post \<Rightarrow> asset_mention list \<Rightarrow> feature_signal list" where
  "social_signals e p ms = concat (map (asset_signals e p ms) (mentioned_assets ms))"

section \<open>Values the engine can read\<close>

lemma str_list_iter [simp]: "py_iter (str_list xs) = Inr (map PStr xs)" "py_len (str_list xs) = Inr (length xs)"
  by (simp_all add: str_list_def py_iter_def py_len_def)

lemma market_signal_typed: "market_signal e d = Inr sg \<Longrightarrow> well_typed sg"
  by (auto simp: market_signal_def Let_def well_typed_def value_or_def signal_from_def book_values_def
      py_iter_def py_len_def split: market_datum.splits sum.splits)

lemma social_signal_typed:
  assumes "sg \<in> set (social_signals e p ms)"
  shows "well_typed sg"
proof -
  have "well_typed (post_signal e p asset)" for asset
    by (simp add: post_signal_def well_typed_def value_or_def signal_from_def post_values_def)
  moreover have "well_typed (mention_signal e p asset im)" for asset im
    by (cases im) (simp add: mention_signal_def well_typed_def value_or_def signal_from_def py_iter_def py_len_def)
  ultimately show ?thesis using assms by (auto simp: social_signals_def asset_signals_def)
qed

section \<open>Identifiers\<close>

lemma mentioned_assets_distinct: "distinct (mentioned_assets ms)"
  by (simp add: mentioned_assets_def)

lemma mentioned_assets_set: "a \<in> set (mentioned_assets ms) \<longleftrightarrow> (\<exists>m \<in> set ms. am_asset_id m = Some a)"
  by (force simp: mentioned_assets_def split: option.splits)

lemma post_signal_id: "sg_event_id (post_signal e p a) = ce_event_id e @ '':post:'' @ a"
  by (simp add: post_signal_def signal_from_def)

lemma mention_signal_id:
  "sg_event_id (mention_signal e p a im) = ce_event_id e @ '':mention:'' @ a @ '':'' @ show_nat (fst im)"
  by (cases im) (simp add: mention_signal_def signal_from_def)

lemma mention_ids_inject:
  "sg_event_id (mention_signal e p a im) = sg_event_id (mention_signal e p b jm) \<longleftrightarrow> a = b \<and> fst im = fst jm"
proof
  assume "sg_event_id (mention_signal e p a im) = sg_event_id (mention_signal e p b jm)"
  then have "a @ CHR '':'' # show_nat (fst im) = b @ CHR '':'' # show_nat (fst jm)" by (simp add: mention_signal_id)
  from show_nat_split_last [OF _ this] show "a = b \<and> fst im = fst jm" by (simp add: is_digit_def)
qed (simp add: mention_signal_id)

lemma post_mention_ids:
  "sg_event_id (post_signal e p a) \<noteq> sg_event_id (mention_signal e p b jm)"
  by (simp add: post_signal_id mention_signal_id)

lemma asset_signals_ids:
  "distinct (map sg_event_id (asset_signals e p ms a))"
proof -
  have "inj_on (\<lambda>im. sg_event_id (mention_signal e p a im)) (set (enumerate 1 xs))" for xs :: "asset_mention list"
    using distinct_enumerate [of 1 xs]
    by (auto simp: inj_on_def mention_ids_inject in_set_enumerate_eq)
  then show ?thesis
    by (auto simp: asset_signals_def distinct_map post_signal_id mention_signal_id inj_on_def comp_def)
qed

lemma asset_signals_apart:
  assumes "a \<noteq> b" "x \<in> set (asset_signals e p ms a)" "y \<in> set (asset_signals e p ms b)"
  shows "sg_event_id x \<noteq> sg_event_id y"
proof -
  from assms(2) consider "x = post_signal e p a" | im where "x = mention_signal e p a im"
    by (auto simp: asset_signals_def)
  then show ?thesis
  proof cases
    case 1
    from assms(3) consider "y = post_signal e p b" | jm where "y = mention_signal e p b jm"
      by (auto simp: asset_signals_def)
    then show ?thesis using 1 assms(1) post_mention_ids by cases (simp_all add: post_signal_id)
  next
    case 2
    from assms(3) consider "y = post_signal e p b" | jm where "y = mention_signal e p b jm"
      by (auto simp: asset_signals_def)
    then show ?thesis
    proof cases
      case 1
      with 2 show ?thesis using post_mention_ids [of e p b a im] by simp
    next
      case y: 2
      with 2 show ?thesis using assms(1) by (simp add: mention_ids_inject)
    qed
  qed
qed

lemma distinct_concat_map:
  assumes "distinct xs" "\<And>x. x \<in> set xs \<Longrightarrow> distinct (f x)"
    and "\<And>x y. x \<in> set xs \<Longrightarrow> y \<in> set xs \<Longrightarrow> x \<noteq> y \<Longrightarrow> set (f x) \<inter> set (f y) = {}"
  shows "distinct (concat (map f xs))"
  using assms
proof (induction xs)
  case (Cons x xs)
  have "set (f x) \<inter> set (f y) = {}" if "y \<in> set xs" for y
    using Cons.prems(1) that by (intro Cons.prems(3)) auto
  moreover have "distinct (concat (map f xs))" using Cons.prems by (intro Cons.IH) auto
  ultimately show ?case using Cons.prems(2) [of x] by auto
qed simp

lemma social_ids_distinct: "distinct (map sg_event_id (social_signals e p ms))"
proof -
  have "distinct (concat (map (\<lambda>a. map sg_event_id (asset_signals e p ms a)) (mentioned_assets ms)))"
  proof (rule distinct_concat_map)
    fix a b :: string assume "a \<noteq> b"
    then show "set (map sg_event_id (asset_signals e p ms a)) \<inter> set (map sg_event_id (asset_signals e p ms b)) = {}"
      using asset_signals_apart [of a b _ e p ms] by fastforce
  qed (simp_all only: mentioned_assets_distinct asset_signals_ids)
  then show ?thesis by (simp add: social_signals_def map_concat comp_def)
qed

lemma asset_signals_fields:
  "sg \<in> set (asset_signals e p ms a) \<Longrightarrow> sg_asset_id sg = a \<and> sg_scope_id sg = scope_of_replay (ce_replay e) \<and>
     sg_source_domain sg = sd_social \<and> sg_event_time sg = sp_event_time p"
  by (auto simp: asset_signals_def post_signal_def mention_signal_def signal_from_def)

lemma asset_signals_count:
  "length (asset_signals e p ms a) = 1 + length (filter (\<lambda>m. am_asset_id m = Some a) ms)"
  by (simp add: asset_signals_def)

section \<open>Properties\<close>

text \<open>The fan-out of a post: every asset that a mention resolves to gets exactly one post signal
  and one mention signal per mention of it, all in the scope of the event and at the time of the
  post, and no two signals of a post share an event identifier, so the engine's deduplication
  never drops one of them for another.\<close>

theorem social_fanout:
  "distinct (map sg_event_id (social_signals e p ms)) \<and>
   (\<forall>a. length (filter (\<lambda>sg. sg_asset_id sg = a) (social_signals e p ms)) =
      (if \<exists>m \<in> set ms. am_asset_id m = Some a
       then 1 + length (filter (\<lambda>m. am_asset_id m = Some a) ms) else 0)) \<and>
   (\<forall>sg \<in> set (social_signals e p ms). sg_scope_id sg = scope_of_replay (ce_replay e) \<and>
      sg_event_time sg = sp_event_time p)"
proof (intro conjI allI ballI)
  show "distinct (map sg_event_id (social_signals e p ms))" by (rule social_ids_distinct)
next
  fix a
  have own: "filter (\<lambda>sg. sg_asset_id sg = a) (asset_signals e p ms b) = (if b = a then asset_signals e p ms b else [])" for b
    by (auto simp: filter_empty_conv intro!: filter_True dest: asset_signals_fields)
  have "length (concat (map (\<lambda>b. if b = a then asset_signals e p ms b else []) bs)) =
      (if a \<in> set bs then length (asset_signals e p ms a) else 0)" if "distinct bs" for bs
    using that by (induction bs) auto
  from this [OF mentioned_assets_distinct, of ms]
  show "length (filter (\<lambda>sg. sg_asset_id sg = a) (social_signals e p ms)) =
      (if \<exists>m \<in> set ms. am_asset_id m = Some a
       then 1 + length (filter (\<lambda>m. am_asset_id m = Some a) ms) else 0)"
    by (simp add: social_signals_def filter_concat comp_def own mentioned_assets_set asset_signals_count
        del: length_concat)
next
  fix sg assume "sg \<in> set (social_signals e p ms)"
  then obtain a where "sg \<in> set (asset_signals e p ms a)" by (auto simp: social_signals_def)
  from asset_signals_fields [OF this]
  show "sg_scope_id sg = scope_of_replay (ce_replay e)" "sg_event_time sg = sp_event_time p" by simp_all
qed

text \<open>The signals that the workers feed to the engine.\<close>

definition pipeline_signal :: "feature_signal \<Rightarrow> bool" where
  "pipeline_signal sg \<longleftrightarrow>
     (\<exists>e d. market_signal e d = Inr sg) \<or> (\<exists>e p ms. sg \<in> set (social_signals e p ms))"

lemma pipeline_typed: "pipeline_signal sg \<Longrightarrow> well_typed sg"
  by (auto simp: pipeline_signal_def intro: market_signal_typed social_signal_typed)

text \<open>Signals built from market data and posts never make the engine raise: after any run of
  such signals the next one is ingested, and what it returns are the revisions that the windows
  gained.\<close>

theorem pipeline_ingests:
  assumes "config_ok cfg" "\<forall>x \<in> set sgs. pipeline_signal x" "pipeline_signal sg"
  shows "\<exists>ss st'. ingest env dump cfg sg (engine_run env dump cfg sgs engine_empty) = (Inr ss, st') \<and>
    (\<forall>k. revisions_at k st' = revisions_at k (engine_run env dump cfg sgs engine_empty) @
       filter (\<lambda>s. snapshot_key s = k) ss)"
proof -
  have "\<forall>x \<in> set sgs. well_typed x" "well_typed sg" using assms(2,3) pipeline_typed by blast+
  then show ?thesis by (rule engine_produces_revisions [OF assms(1)])
qed

definition sample_signal_event :: "string \<Rightarrow> (string \<times> py_value) list \<Rightarrow> signal_event" where
  "sample_signal_event i p = \<lparr>ce_event_id = i, ce_origin_event_id = Some i, ce_delivery_event_id = Some i,
     ce_event_type = ev_market_trade_received, ce_schema_version = 1, ce_source = ''feed'',
     ce_source_event_id = i, ce_source_sequence = None, ce_asset_id = Some ''ACME'', ce_event_time = 0,
     ce_ingested_at = 0, ce_processed_at = None, ce_partition_key = ''ACME'',
     ce_replay = \<lparr>rm_is_replay = False, rm_replay_session_id = None\<rparr>,
     ce_trace = \<lparr>tm_correlation_id = ''c'', tm_causation_id = None\<rparr>, ce_payload = p\<rparr>"

definition sample_datum :: market_datum where
  "sample_datum = Trade \<lparr>mt_trade_id = ''t1'', mt_asset_id = ''ACME'', mt_event_time = 5, mt_price = 2,
     mt_quantity = 3, mt_side = Some ''BUY'', mt_source = ''feed''\<rparr>"

definition fanout_post :: social_post where
  "fanout_post = \<lparr>sp_post_id = ''p1'', sp_platform = ''x'', sp_author_id = ''u1'',
     sp_pseudonym_key_version = 1, sp_event_time = 5, sp_text = ''ACME and ACME'', sp_language = None,
     sp_hashtags = [], sp_cashtags = [''ACME''], sp_user_mentions = [], sp_urls = [], sp_reply_to = None,
     sp_repost_of = None, sp_engagement = [], sp_source_metadata = []\<rparr>"

definition fanout_mention :: "string option \<Rightarrow> int \<Rightarrow> asset_mention" where
  "fanout_mention a i = \<lparr>am_post_id = ''p1'', am_asset_id = a, am_mention_text = ''ACME'',
     am_start_offset = i, am_end_offset = i + 4, am_confidence = 1, am_resolver_version = ''v1'',
     am_resolution_status = ''RESOLVED'', am_candidate_asset_ids = [], am_resolution_reason = ''exact''\<rparr>"

theorem social_fanout_witness:
  "distinct (map sg_event_id (social_signals (sample_signal_event ''e1'' []) fanout_post
     [fanout_mention (Some ''ACME'') 0, fanout_mention None 5, fanout_mention (Some ''ACME'') 10])) \<and>
   length (filter (\<lambda>sg. sg_asset_id sg = ''ACME'') (social_signals (sample_signal_event ''e1'' []) fanout_post
     [fanout_mention (Some ''ACME'') 0, fanout_mention None 5, fanout_mention (Some ''ACME'') 10])) = 3"
  using social_fanout [of "sample_signal_event ''e1'' []" fanout_post
     "[fanout_mention (Some ''ACME'') 0, fanout_mention None 5, fanout_mention (Some ''ACME'') 10]"]
  by (simp add: fanout_mention_def)

theorem pipeline_ingests_witness:
  "\<exists>sg ss st'. market_signal (sample_signal_event ''e1'' []) sample_datum = Inr sg \<and>
     ingest sample_env (\<lambda>_. []) default_engine_config sg engine_empty = (Inr ss, st')"
proof -
  obtain sg where sg: "market_signal (sample_signal_event ''e1'' []) sample_datum = Inr sg"
    by (simp add: market_signal_def sample_datum_def)
  then have "pipeline_signal sg" by (auto simp: pipeline_signal_def)
  from pipeline_ingests [OF default_config_ok _ this, of "[]" sample_env "\<lambda>_. []"] sg show ?thesis by auto
qed

end
