(* ===== verification/Feature_Service.thy ===== *)
theory Feature_Service
  imports Signals
begin

text \<open>
  \<open>FeatureWindowService.process\<close> (\<open>features/engine.py\<close>): a signal is ingested by the engine, and
  every snapshot it returns is persisted, written to the two online keys and published. Any of
  these calls can raise; a table of faults says which. The dump of a snapshot, the clock and the
  fresh correlation identifiers are arguments.
\<close>

record service_env =
  se_env :: py_env
  se_hash_dump :: "feature_signal list \<Rightarrow> string"
  se_config :: engine_config
  se_dump :: "feature_snapshot \<Rightarrow> (string \<times> py_value) list"
  se_now :: "nat \<Rightarrow> datetime"
  se_correlation :: "nat \<Rightarrow> string"

record service_state =
  sv_engine :: engine_state
  sv_repo :: feature_repo
  sv_store :: state_store
  sv_published :: "(string \<times> py_value) list publisher"

definition service_empty :: service_state where
  "service_empty = \<lparr>sv_engine = engine_empty, sv_repo = repo_empty, sv_store = store_empty, sv_published = []\<rparr>"

definition revision_event_type :: "revision_state \<Rightarrow> event_type" where
  "revision_event_type r = (case r of rs_provisional \<Rightarrow> ev_feature_window_updated
     | rs_final \<Rightarrow> ev_feature_window_finalized | rs_corrected \<Rightarrow> ev_feature_window_corrected)"

definition scoped_key :: "feature_snapshot \<Rightarrow> string" where
  "scoped_key s = ''latest:features:'' @ fs_scope_id s @ '':'' @ fs_asset_id s @ '':'' @ show_int (fs_interval_seconds s)"

definition asset_key :: "feature_snapshot \<Rightarrow> string" where
  "asset_key s = ''latest:features:'' @ fs_asset_id s @ '':'' @ show_int (fs_interval_seconds s)"

definition live_scope :: "string \<Rightarrow> string option" where
  "live_scope scope = (if scope \<noteq> ''LIVE'' then Some scope else None)"

definition feature_event ::
    "service_env \<Rightarrow> feature_signal \<Rightarrow> nat \<Rightarrow> feature_snapshot \<Rightarrow> signal_event res" where
  "feature_event se sg i s =
    (let tail = fs_scope_id s @ '':'' @ fs_feature_window_id s @ '':'' @ show_nat (fs_revision s)
     in case build_replay (fs_scope_id s \<noteq> ''LIVE'') (live_scope (fs_scope_id s)) of
          Inl e \<Rightarrow> Inl e
        | Inr replay \<Rightarrow> build_event
            \<lparr>ce_event_id = env_uuid5 (se_env se) (''feature-event:'' @ tail),
             ce_origin_event_id = None, ce_delivery_event_id = None,
             ce_event_type = revision_event_type (fs_revision_state s), ce_schema_version = 1,
             ce_source = ''feature-window-engine-v1'', ce_source_event_id = tail,
             ce_source_sequence = None, ce_asset_id = Some (fs_asset_id s),
             ce_event_time = fs_window_end s, ce_ingested_at = sg_ingested_at sg,
             ce_processed_at = Some (se_now se i), ce_partition_key = fs_asset_id s,
             ce_replay = replay,
             ce_trace = \<lparr>tm_correlation_id = se_correlation se i, tm_causation_id = Some (sg_event_id sg)\<rparr>,
             ce_payload = se_dump se s\<rparr>)"

definition feature_topic :: "feature_signal \<Rightarrow> string" where
  "feature_topic sg =
    (if sg_kind sg \<in> {sk_market_trade, sk_market_candle, sk_orderbook} \<or>
        (sg_kind sg = sk_data_quality \<and> value_of sg ''domain'' = PStr ''market'')
     then ''features.market.v1'' else ''features.social.v1'')"

datatype service_step = call_persist | call_scoped | call_asset | call_publish

type_synonym service_faults = "nat \<Rightarrow> service_step \<Rightarrow> py_exn option"

text \<open>One snapshot: persist, the scoped key, the asset key, publish.\<close>

definition emit_one ::
    "service_env \<Rightarrow> service_faults \<Rightarrow> feature_signal \<Rightarrow> nat \<Rightarrow> feature_snapshot \<Rightarrow> service_state
     \<Rightarrow> unit res \<times> service_state" where
  "emit_one se faults sg i s st =
    (case faults i call_persist of Some x \<Rightarrow> (Inl x, st)
     | None \<Rightarrow>
    (let st1 = st\<lparr>sv_repo := snd (persist_snapshot s (sv_repo st))\<rparr>
     in case faults i call_scoped of Some x \<Rightarrow> (Inl x, st1)
     | None \<Rightarrow>
    (let st2 = st1\<lparr>sv_store := set_json (scoped_key s) (PDict (se_dump se s)) (sv_store st1)\<rparr>
     in case faults i call_asset of Some x \<Rightarrow> (Inl x, st2)
     | None \<Rightarrow>
    (let st3 = st2\<lparr>sv_store := set_json (asset_key s) (PDict (se_dump se s)) (sv_store st2)\<rparr>
     in case feature_event se sg i s of Inl x \<Rightarrow> (Inl x, st3)
     | Inr e \<Rightarrow>
       (case faults i call_publish of Some x \<Rightarrow> (Inl x, st3)
        | None \<Rightarrow> (Inr (), st3\<lparr>sv_published := publish_one (feature_topic sg) e (sv_published st3)\<rparr>))))))"

fun emit ::
    "service_env \<Rightarrow> service_faults \<Rightarrow> feature_signal \<Rightarrow> nat \<Rightarrow> feature_snapshot list \<Rightarrow> service_state
     \<Rightarrow> unit res \<times> service_state" where
  "emit se faults sg i [] st = (Inr (), st)"
| "emit se faults sg i (s # ss) st = (case emit_one se faults sg i s st of
     (Inl x, st1) \<Rightarrow> (Inl x, st1) | (Inr _, st1) \<Rightarrow> emit se faults sg (Suc i) ss st1)"

definition service_process ::
    "service_env \<Rightarrow> service_faults \<Rightarrow> feature_signal \<Rightarrow> service_state
     \<Rightarrow> feature_snapshot list res \<times> service_state" where
  "service_process se faults sg st =
    (case ingest (se_env se) (se_hash_dump se) (se_config se) sg (sv_engine st) of
       (Inl x, en) \<Rightarrow> (Inl x, st\<lparr>sv_engine := en\<rparr>)
     | (Inr ss, en) \<Rightarrow> (case emit se faults sg 0 ss (st\<lparr>sv_engine := en\<rparr>) of
         (Inl x, st1) \<Rightarrow> (Inl x, st1) | (Inr _, st1) \<Rightarrow> (Inr ss, st1)))"

section \<open>Emitting snapshots\<close>

lemma emit_one_ok:
  assumes "emit_one se faults sg i s st = (Inr u, st')"
  obtains e where "feature_event se sg i s = Inr e"
    "st' = st\<lparr>sv_repo := snd (persist_snapshot s (sv_repo st)),
       sv_store := set_json (asset_key s) (PDict (se_dump se s))
         (set_json (scoped_key s) (PDict (se_dump se s)) (sv_store st)),
       sv_published := sv_published st @ [(feature_topic sg, e)]\<rparr>"
  using assms by (auto simp: emit_one_def publish_one_def Let_def split: option.splits sum.splits)

lemma emit_one_engine [simp]: "sv_engine (snd (emit_one se faults sg i s st)) = sv_engine st"
  by (simp add: emit_one_def Let_def split: option.split sum.split)

lemma emit_engine [simp]: "sv_engine (snd (emit se faults sg i ss st)) = sv_engine st"
proof (induction ss arbitrary: i st)
  case (Cons s ss)
  obtain r st1 where one: "emit_one se faults sg i s st = (r, st1)" by fastforce
  then have "sv_engine st1 = sv_engine st" using emit_one_engine [of se faults sg i s st] by simp
  with one Cons show ?case by (cases r) simp_all
qed simp

definition stored :: "feature_snapshot \<Rightarrow> feature_repo \<Rightarrow> bool" where
  "stored s r \<longleftrightarrow> fy_snapshots r (fs_feature_window_id s, fs_revision s) \<noteq> None"

lemma stored_persist [simp]: "stored s (snd (persist_snapshot s r))"
  by (simp add: stored_def persist_snapshot_def Let_def)

lemma stored_mono: "stored s r \<Longrightarrow> stored s (snd (persist_snapshot t r))"
  by (auto simp: stored_def persist_snapshot_def Let_def)

text \<open>The last snapshot of a list that writes a key.\<close>

definition last_writer :: "string \<Rightarrow> feature_snapshot list \<Rightarrow> feature_snapshot option" where
  "last_writer k ss = List.find (\<lambda>s. scoped_key s = k \<or> asset_key s = k) (rev ss)"

lemma find_append: "List.find P (xs @ ys) = (case List.find P xs of None \<Rightarrow> List.find P ys | Some x \<Rightarrow> Some x)"
  by (induction xs) auto

lemma last_writer_Cons:
  "last_writer k (s # ss) = (case last_writer k ss of
     None \<Rightarrow> if scoped_key s = k \<or> asset_key s = k then Some s else None | Some t \<Rightarrow> Some t)"
  by (simp add: last_writer_def find_append split: option.split)

lemma emit_ok:
  assumes "emit se faults sg i ss st = (Inr u, st')"
  shows "\<exists>es. sv_published st' = sv_published st @ map (Pair (feature_topic sg)) es \<and>
      list_all2 (\<lambda>(j, s) e. feature_event se sg j s = Inr e) (enumerate i ss) es \<and>
      (\<forall>s. s \<in> set ss \<or> stored s (sv_repo st) \<longrightarrow> stored s (sv_repo st')) \<and>
      (\<forall>k. get_json k (sv_store st') = (case last_writer k ss of
         None \<Rightarrow> get_json k (sv_store st) | Some s \<Rightarrow> Some (PDict (se_dump se s))))"
  using assms
proof (induction ss arbitrary: i st)
  case Nil
  then show ?case by (intro exI [of _ "[]"]) (simp add: last_writer_def)
next
  case (Cons s ss)
  obtain r st1 where one: "emit_one se faults sg i s st = (r, st1)" by fastforce
  then obtain v where r: "r = Inr v" using Cons.prems by (cases r) simp_all
  from one [unfolded r] obtain e where e: "feature_event se sg i s = Inr e"
    "st1 = st\<lparr>sv_repo := snd (persist_snapshot s (sv_repo st)),
       sv_store := set_json (asset_key s) (PDict (se_dump se s))
         (set_json (scoped_key s) (PDict (se_dump se s)) (sv_store st)),
       sv_published := sv_published st @ [(feature_topic sg, e)]\<rparr>" by (rule emit_one_ok)
  have "emit se faults sg (Suc i) ss st1 = (Inr u, st')" using Cons.prems one r by simp
  from Cons.IH [OF this] obtain es where es:
    "sv_published st' = sv_published st1 @ map (Pair (feature_topic sg)) es"
    "list_all2 (\<lambda>(j, s) e. feature_event se sg j s = Inr e) (enumerate (Suc i) ss) es"
    "\<forall>s. s \<in> set ss \<or> stored s (sv_repo st1) \<longrightarrow> stored s (sv_repo st')"
    "\<forall>k. get_json k (sv_store st') = (case last_writer k ss of
       None \<Rightarrow> get_json k (sv_store st1) | Some s \<Rightarrow> Some (PDict (se_dump se s)))" by blast
  have "\<forall>t. t \<in> set (s # ss) \<or> stored t (sv_repo st) \<longrightarrow> stored t (sv_repo st')"
    using es(3) by (auto simp: e(2) stored_mono)
  moreover have "\<forall>k. get_json k (sv_store st') = (case last_writer k (s # ss) of
      None \<Rightarrow> get_json k (sv_store st) | Some s \<Rightarrow> Some (PDict (se_dump se s)))"
    using es(4) by (auto simp: e(2) last_writer_Cons split: option.split)
  ultimately show ?case
    using es(1,2) e by (intro exI [of _ "e # es"]) simp
qed

lemma feature_event_Inr:
  assumes "feature_event se sg j s = Inr e"
  shows "ce_event_type e = revision_event_type (fs_revision_state s) \<and>
    ce_payload e = se_dump se s \<and> ce_event_time e = fs_window_end s"
proof -
  obtain d where "build_event d = Inr e" "ce_event_type d = revision_event_type (fs_revision_state s)"
    "ce_payload d = se_dump se s" "ce_event_time d = fs_window_end s"
    using assms by (fastforce simp: feature_event_def Let_def split: sum.splits)
  with build_event_Inr [of d e] show ?thesis by simp
qed

section \<open>Properties\<close>

text \<open>A signal that is processed without an exception publishes one event per snapshot the engine
  returned, in order, on the topic of the signal's domain, with the event type of the
  snapshot's revision state; every snapshot is stored in the repository, and each online key
  holds the last of these snapshots that writes it.\<close>

theorem service_emits:
  assumes "service_process se faults sg st = (Inr ss, st')"
  shows "fst (ingest (se_env se) (se_hash_dump se) (se_config se) sg (sv_engine st)) = Inr ss \<and>
    (\<exists>es. sv_published st' = sv_published st @ map (Pair (feature_topic sg)) es \<and>
      list_all2 (\<lambda>s e. ce_event_type e = revision_event_type (fs_revision_state s) \<and>
        ce_payload e = se_dump se s \<and> ce_event_time e = fs_window_end s) ss es) \<and>
    (\<forall>s \<in> set ss. stored s (sv_repo st')) \<and>
    (\<forall>k. get_json k (sv_store st') = (case last_writer k ss of
       None \<Rightarrow> get_json k (sv_store st) | Some s \<Rightarrow> Some (PDict (se_dump se s))))"
proof -
  obtain r en where i: "ingest (se_env se) (se_hash_dump se) (se_config se) sg (sv_engine st) = (r, en)" by fastforce
  then obtain ss1 where r: "r = Inr ss1" using assms by (cases r) (simp_all add: service_process_def)
  obtain v st1 where em: "emit se faults sg 0 ss1 (st\<lparr>sv_engine := en\<rparr>) = (v, st1)" by fastforce
  have v: "v = Inr ()" "ss1 = ss" "st1 = st'"
    using assms i r em by (auto simp: service_process_def split: sum.splits)
  have ev: "feature_event se sg j s = Inr e \<Longrightarrow> ce_event_type e = revision_event_type (fs_revision_state s) \<and>
      ce_payload e = se_dump se s \<and> ce_event_time e = fs_window_end s" for j s e
    by (rule feature_event_Inr)
  from emit_ok [OF em [unfolded v]] obtain es where es:
    "sv_published st' = sv_published st @ map (Pair (feature_topic sg)) es"
    "list_all2 (\<lambda>(j, s) e. feature_event se sg j s = Inr e) (enumerate 0 ss) es"
    "\<forall>s. s \<in> set ss \<or> stored s (sv_repo st) \<longrightarrow> stored s (sv_repo st')"
    "\<forall>k. get_json k (sv_store st') = (case last_writer k ss of
       None \<Rightarrow> get_json k (sv_store st) | Some s \<Rightarrow> Some (PDict (se_dump se s)))"
    by (auto cong: option.case_cong)
  have "list_all2 (\<lambda>s e. ce_event_type e = revision_event_type (fs_revision_state s) \<and>
      ce_payload e = se_dump se s \<and> ce_event_time e = fs_window_end s) ss es"
    using es(2) ev by (auto simp: list_all2_conv_all_nth nth_enumerate_eq)
  with es i r v show ?thesis by auto
qed

lemma ingest_marks_seen: "signal_id sg \<in> es_seen (snd (ingest env dump cfg sg st))" if "wf_engine env cfg st"
  using ingest_frame(2) [OF that, where sg = sg and dump = dump] by (auto simp: ingest_duplicate)

text \<open>The engine remembers a signal before its snapshots are out: when a call after the ingestion
  raises, processing the signal again returns no snapshot and changes nothing, so the snapshots
  that were not published yet stay unpublished as long as this engine lives, although every one
  of them is a revision of its window.\<close>

theorem service_loses_snapshots:
  assumes "wf_engine (se_env se) (se_config se) (sv_engine st)"
    and "service_process se faults sg st = (Inl x, st1)"
  shows "service_process se faults' sg st1 = (Inr [], st1)"
proof -
  have "sv_engine st1 = snd (ingest (se_env se) (se_hash_dump se) (se_config se) sg (sv_engine st))"
  proof -
    obtain r en where i: "ingest (se_env se) (se_hash_dump se) (se_config se) sg (sv_engine st) = (r, en)" by fastforce
    show ?thesis
    proof (cases r)
      case (Inl y)
      with assms(2) i show ?thesis by (auto simp: service_process_def)
    next
      case (Inr ss)
      obtain v st2 where em: "emit se faults sg 0 ss (st\<lparr>sv_engine := en\<rparr>) = (v, st2)" by fastforce
      have "st1 = st2" using assms(2) i Inr em by (auto simp: service_process_def split: sum.splits)
      then show ?thesis using emit_engine [of se faults sg 0 ss "st\<lparr>sv_engine := en\<rparr>"] em i by simp
    qed
  qed
  then have "signal_id sg \<in> es_seen (sv_engine st1)" using ingest_marks_seen [OF assms(1)] by simp
  then show ?thesis by (simp add: service_process_def ingest_duplicate)
qed

text \<open>The engine returns the windows it finalizes after the windows that the signal changed, so an
  online key is left at a closed window when the last writer is a first-time final snapshot:
  that window ended at least the allowed lateness before the newest event.\<close>

lemma latest_key_lags:
  assumes "wf_engine (se_env se) (se_config se) (sv_engine st)" "signal_id sg \<notin> es_seen (sv_engine st)"
    and "service_process se faults sg st = (Inr ss, st')"
    and "last_writer k ss = Some s" "fs_revision_state s = rs_final"
  shows "\<exists>n. global_max (sg_scope_id sg) (sg_asset_id sg) (note_signal sg (sv_engine st)) = Some n \<and>
    fs_window_end s \<le> n - ec_allowed_lateness (se_config se)"
proof -
  let ?sa = "(sg_scope_id sg, sg_asset_id sg)"
  obtain r en where i: "ingest (se_env se) (se_hash_dump se) (se_config se) sg (sv_engine st) = (r, en)" by fastforce
  then have r: "r = Inr ss" using assms(3) by (cases r) (auto simp: service_process_def split: prod.splits sum.splits)
  have "produces (se_env se) (se_config se) ?sa (note_signal sg (sv_engine st)) (Inr ss, en)"
    using ingest_produces [OF assms(1,2), of "se_hash_dump se"] i r by simp
  then have e: "evolves (se_env se) (se_config se) ?sa (note_signal sg (sv_engine st)) ss en"
    by (auto elim: producesE)
  have "s \<in> set (rev ss)" using assms(4) unfolding last_writer_def find_Some_iff by (metis nth_mem)
  with evolves_final [OF e] assms(5) obtain w where
    w: "mark_now (se_config se) ?sa (note_signal sg (sv_engine st)) = Some w" "fs_window_end s \<le> w"
    by (auto simp: passed_def)
  from mark_now_trails [OF w(1)] w(2) show ?thesis by auto
qed

text \<open>Every scope writes the key without the scope, so a replay overwrites the live value.\<close>

lemma asset_key_shared: "fs_asset_id s = fs_asset_id t \<Longrightarrow> fs_interval_seconds s = fs_interval_seconds t \<Longrightarrow>
    asset_key s = asset_key t"
  by (simp add: asset_key_def)

definition sample_service :: service_env where
  "sample_service = \<lparr>se_env = sample_env, se_hash_dump = (\<lambda>_. []), se_config = default_engine_config,
     se_dump = (\<lambda>s. [(''revision'', PInt (int (fs_revision s)))]), se_now = (\<lambda>_. 0),
     se_correlation = (\<lambda>_. ''c'')\<rparr>"

lemma ingest_intervals_nonempty:
  "ingest_intervals env dump cfg sg is st = (Inr ss, st') \<Longrightarrow> is \<noteq> [] \<Longrightarrow> ss \<noteq> []"
  by (cases "is") (auto simp: Let_def split: prod.splits sum.splits)

lemma ingest_nonempty:
  assumes "ingest env dump cfg sg st = (Inr ss, st')" "signal_id sg \<notin> es_seen st" "ec_intervals cfg \<noteq> []"
  shows "ss \<noteq> []"
proof -
  obtain r st1 where i: "ingest_intervals env dump cfg sg (ec_intervals cfg) (note_signal sg st) = (r, st1)" by fastforce
  then obtain changed where r: "r = Inr changed"
    using assms(1,2) by (cases r) (auto simp: ingest_def signal_id_def)
  with ingest_intervals_nonempty i assms(3) have "changed \<noteq> []" by blast
  with assms(1,2) i r show ?thesis
    by (auto simp: ingest_def signal_id_def split: prod.splits sum.splits)
qed

lemma first_trade_ingested:
  "\<exists>s ss st'. ingest sample_env (\<lambda>_. []) default_engine_config (trade_signal ''t1'' 5) engine_empty = (Inr (s # ss), st')"
proof -
  obtain ss st' where i: "ingest sample_env (\<lambda>_. []) default_engine_config (trade_signal ''t1'' 5) engine_empty = (Inr ss, st')"
    using ingest_ok [of sample_env default_engine_config engine_empty "trade_signal ''t1'' 5" "\<lambda>_. []"]
    by (metis default_config_ok live_empty prod.collapse trade_signal_typed)
  from ingest_nonempty [OF this] have "ss \<noteq> []"
    by (simp add: engine_empty_def default_engine_config_def)
  with i show ?thesis by (cases ss) auto
qed

theorem service_loses_snapshots_witness:
  "\<exists>st1. service_process sample_service (\<lambda>_ _. Some (RuntimeError ''database'')) (trade_signal ''t1'' 5) service_empty
      = (Inl (RuntimeError ''database''), st1) \<and>
    service_process sample_service (\<lambda>_ _. None) (trade_signal ''t1'' 5) st1 = (Inr [], st1)"
proof -
  have wf: "wf_engine (se_env sample_service) (se_config sample_service) (sv_engine service_empty)"
    by (simp add: service_empty_def)
  obtain st1 where p: "service_process sample_service (\<lambda>_ _. Some (RuntimeError ''database'')) (trade_signal ''t1'' 5) service_empty
      = (Inl (RuntimeError ''database''), st1)"
    using first_trade_ingested
    by (auto simp: service_process_def sample_service_def service_empty_def emit_one_def)
  from service_loses_snapshots [OF wf p] p show ?thesis by blast
qed

lemma feature_event_total:
  assumes "\<not> blank (fs_asset_id s)" "fs_scope_id s \<noteq> []"
  shows "\<exists>e. feature_event se sg i s = Inr e"
proof -
  have "\<not> is_space CHR '':''" "\<not> is_space CHR ''f''" by (simp_all add: is_space_def)
  then have b: "\<not> blank (x @ '':'' @ y)" "\<not> blank ''feature-window-engine-v1''" for x y
    by (simp_all add: blank_def)
  have "is_ok (build_replay (fs_scope_id s \<noteq> ''LIVE'') (live_scope (fs_scope_id s)))"
    using assms(2) by (simp add: build_replay_def live_scope_def)
  then obtain r where "build_replay (fs_scope_id s \<noteq> ''LIVE'') (live_scope (fs_scope_id s)) = Inr r"
    by (auto simp: is_ok_iff)
  moreover have "is_ok (build_event d)" if "ce_delivery_event_id d = None" "ce_schema_version d = 1"
    "ce_partition_key d = fs_asset_id s" "ce_source d = ''feature-window-engine-v1''"
    "ce_source_event_id d = fs_scope_id s @ '':'' @ fs_feature_window_id s @ '':'' @ show_nat (fs_revision s)"
    for d :: "signal_event"
    using build_event_fresh [OF that(1)] that assms(1) b by simp
  ultimately show ?thesis by (simp add: feature_event_def Let_def flip: is_ok_iff)
qed

lemma emit_total:
  "\<forall>s \<in> set ss. \<not> blank (fs_asset_id s) \<and> fs_scope_id s \<noteq> [] \<Longrightarrow>
     \<exists>st'. emit se (\<lambda>_ _. None) sg i ss st = (Inr (), st')"
proof (induction ss arbitrary: i st)
  case (Cons s ss)
  then obtain e where "feature_event se sg i s = Inr e" using feature_event_total [of s se sg i] by auto
  then obtain st1 where "emit_one se (\<lambda>_ _. None) sg i s st = (Inr (), st1)"
    by (simp add: emit_one_def Let_def)
  with Cons show ?case by simp
qed simp

text \<open>Without faults, a well-typed signal of a named asset and scope is processed to the end.\<close>

lemma service_total:
  assumes "live (se_env se) (se_config se) (sv_engine st)" "well_typed sg"
    and "\<not> blank (sg_asset_id sg)" "sg_scope_id sg \<noteq> []"
  shows "\<exists>ss st'. service_process se (\<lambda>_ _. None) sg st = (Inr ss, st')"
proof -
  let ?sa = "(sg_scope_id sg, sg_asset_id sg)"
  obtain ss en where i: "ingest (se_env se) (se_hash_dump se) (se_config se) sg (sv_engine st) = (Inr ss, en)"
    using ingest_ok [OF assms(1,2), of "se_hash_dump se"] by (metis prod.collapse)
  have wf: "wf_engine (se_env se) (se_config se) (sv_engine st)" using assms(1) by (simp add: live_def)
  have "\<forall>s \<in> set ss. (fs_scope_id s, fs_asset_id s) = ?sa"
  proof (cases "signal_id sg \<in> es_seen (sv_engine st)")
    case True
    with i show ?thesis by (simp add: ingest_duplicate)
  next
    case False
    from ingest_produces [OF wf this, of "se_hash_dump se"] i
    have "evolves (se_env se) (se_config se) ?sa (note_signal sg (sv_engine st)) ss en"
      by (auto elim: producesE)
    from evolves_final [OF this] show ?thesis by simp
  qed
  with assms(3,4) have "\<forall>s \<in> set ss. \<not> blank (fs_asset_id s) \<and> fs_scope_id s \<noteq> []" by auto
  from emit_total [OF this, of se sg 0 "st\<lparr>sv_engine := en\<rparr>"] i show ?thesis
    by (auto simp: service_process_def)
qed

theorem service_emits_witness:
  "\<exists>st' s ss. service_process sample_service (\<lambda>_ _. None) (trade_signal ''t1'' 5) service_empty = (Inr (s # ss), st') \<and>
     stored s (sv_repo st') \<and> sv_published st' \<noteq> []"
proof -
  have l: "live (se_env sample_service) (se_config sample_service) (sv_engine service_empty)"
    by (simp add: sample_service_def service_empty_def)
  obtain ss st' where p: "service_process sample_service (\<lambda>_ _. None) (trade_signal ''t1'' 5) service_empty = (Inr ss, st')"
    using service_total [OF l trade_signal_typed, of "''t1''" 5]
    by (auto simp: trade_signal_def blank_def is_space_def)
  obtain s1 ss1 where "fst (ingest sample_env (\<lambda>_. []) default_engine_config (trade_signal ''t1'' 5) engine_empty) = Inr (s1 # ss1)"
    using first_trade_ingested by force
  then have ss: "ss = s1 # ss1" using service_emits [OF p] by (simp add: sample_service_def service_empty_def)
  from service_emits [OF p] have "stored s1 (sv_repo st')" "sv_published st' \<noteq> []"
    unfolding ss by (auto simp: list_all2_Cons1)
  with p ss show ?thesis by blast
qed

end
