(* ===== verification/Stream_Worker.thy ===== *)
theory Stream_Worker
  imports Feature_Service Market_Ingestion
begin

text \<open>
  The stream worker (\<open>workers/stream_worker.py\<close>: \<open>_process_event\<close>, \<open>_process_social_pair\<close>):
  market events become a market signal and a quality signal; a normalized post and the mentions
  of that post arrive as two events, in either order, and are joined in the online state.

  Loading and dumping events and pydantic records, and \<open>str\<close> of a JSON value, are functions of a
  codec record.
\<close>

record worker_codec =
  wc_market :: market_codec
  wc_post :: "payload \<Rightarrow> social_post res"
  wc_mention :: "py_value \<Rightarrow> asset_mention res"
  wc_dump :: "signal_event \<Rightarrow> py_value"
  wc_load :: "py_value \<Rightarrow> signal_event res"
  wc_str :: "py_value \<Rightarrow> string"

section \<open>Quality signals\<close>

definition dict_get :: "py_value \<Rightarrow> string \<Rightarrow> py_value \<Rightarrow> py_value" where
  "dict_get v k d = (case v of PDict kvs \<Rightarrow> (case map_of kvs k of None \<Rightarrow> d | Some x \<Rightarrow> x) | _ \<Rightarrow> d)"

definition health_values :: "string \<Rightarrow> py_value \<Rightarrow> (string \<times> py_value) list" where
  "health_values domain health =
    [(''domain'', PStr domain), (''source_gap_count'', dict_get health ''sequence_gap_count'' (PInt 0)),
     (''status'', dict_get health ''status'' PNone),
     (''source_active'', dict_get health ''source_active'' (PBool True)),
     (''source_idle'', dict_get health ''source_idle'' (PBool False)),
     (''source_degraded'', dict_get health ''source_degraded'' (PBool False))]"

definition market_quality_signal :: "signal_event \<Rightarrow> string \<Rightarrow> py_value \<Rightarrow> feature_signal" where
  "market_quality_signal e asset health =
     signal_from e (ce_event_id e @ '':quality'') asset (ce_event_time e) sk_data_quality sd_market
       (health_values ''market'' health)"

definition social_quality_signal :: "signal_event \<Rightarrow> py_value \<Rightarrow> string \<Rightarrow> feature_signal" where
  "social_quality_signal e health asset =
     signal_from e (ce_event_id e @ '':quality:'' @ asset) asset (ce_event_time e) sk_data_quality sd_social
       (health_values ''social'' health)"

section \<open>Processing signals\<close>

text \<open>A sequence of \<open>service.process\<close> calls; the faults of the calls are numbered.\<close>

fun process_signals ::
    "service_env \<Rightarrow> (nat \<Rightarrow> service_faults) \<Rightarrow> nat \<Rightarrow> feature_signal list \<Rightarrow> service_state
     \<Rightarrow> unit res \<times> service_state" where
  "process_signals se faults n [] st = (Inr (), st)"
| "process_signals se faults n (sg # sgs) st = (case service_process se (faults n) sg st of
     (Inl x, st1) \<Rightarrow> (Inl x, st1)
   | (Inr _, st1) \<Rightarrow> process_signals se faults (Suc n) sgs st1)"

fun decode_mentions :: "(py_value \<Rightarrow> asset_mention res) \<Rightarrow> py_value list \<Rightarrow> asset_mention list res" where
  "decode_mentions f [] = Inr []"
| "decode_mentions f (v # vs) = (case f v of Inl e \<Rightarrow> Inl e
   | Inr m \<Rightarrow> (case decode_mentions f vs of Inl e \<Rightarrow> Inl e | Inr ms \<Rightarrow> Inr (m # ms)))"

definition mentions_of :: "worker_codec \<Rightarrow> signal_event \<Rightarrow> asset_mention list res" where
  "mentions_of wc e = (case map_of (ce_payload e) ''mentions'' of
     None \<Rightarrow> Inr []
   | Some (PList vs) \<Rightarrow> decode_mentions (wc_mention wc) vs
   | Some _ \<Rightarrow> Inl (TypeError ''social mention event payload must contain a list''))"

definition post_key :: "string \<Rightarrow> string" where
  "post_key i = ''join:social:post:'' @ i"

definition mentions_key :: "string \<Rightarrow> string" where
  "mentions_key i = ''join:social:mentions:'' @ i"

text \<open>\<open>_process_social_pair\<close>: nothing until both halves are there.\<close>

definition process_joined ::
    "worker_codec \<Rightarrow> service_env \<Rightarrow> (nat \<Rightarrow> service_faults) \<Rightarrow> py_value \<Rightarrow> py_value \<Rightarrow> service_state
     \<Rightarrow> unit res \<times> service_state" where
  "process_joined wc se faults post_data mention_data st =
    (case wc_load wc post_data of Inl x \<Rightarrow> (Inl x, st) | Inr post_event \<Rightarrow>
    (case wc_load wc mention_data of Inl x \<Rightarrow> (Inl x, st) | Inr mention_event \<Rightarrow>
    (case wc_post wc (ce_payload post_event) of Inl x \<Rightarrow> (Inl x, st) | Inr p \<Rightarrow>
    (case mentions_of wc mention_event of Inl x \<Rightarrow> (Inl x, st) | Inr ms \<Rightarrow>
    (let sgs = social_signals mention_event p ms
     in case process_signals se faults 0 sgs st of
          (Inl x, st1) \<Rightarrow> (Inl x, st1)
        | (Inr _, st1) \<Rightarrow>
          (case get_json (''source-health:social:'' @ ce_source mention_event @ '':'' @ sp_platform p) (sv_store st1) of
             None \<Rightarrow> (Inr (), st1)
           | Some health \<Rightarrow> process_signals se faults (length sgs)
               (map (social_quality_signal mention_event health) (sort (remdups (map sg_asset_id sgs)))) st1))))))"

definition process_social_pair ::
    "worker_codec \<Rightarrow> service_env \<Rightarrow> (nat \<Rightarrow> service_faults) \<Rightarrow> string \<Rightarrow> service_state
     \<Rightarrow> unit res \<times> service_state" where
  "process_social_pair wc se faults i st =
    (case (get_json (post_key i) (sv_store st), get_json (mentions_key i) (sv_store st)) of
       (Some post_data, Some mention_data) \<Rightarrow> process_joined wc se faults post_data mention_data st
     | _ \<Rightarrow> (Inr (), st))"

definition remember :: "string \<Rightarrow> py_value \<Rightarrow> service_state \<Rightarrow> service_state" where
  "remember k v st = st\<lparr>sv_store := set_json k v (sv_store st)\<rparr>"

section \<open>\<open>_process_event\<close>\<close>

definition process_market ::
    "worker_codec \<Rightarrow> service_env \<Rightarrow> (nat \<Rightarrow> service_faults) \<Rightarrow> signal_event \<Rightarrow> service_state
     \<Rightarrow> unit res \<times> service_state" where
  "process_market wc se faults e st =
    (case normalize_market_event (wc_market wc) e of Inl x \<Rightarrow> (Inl x, st) | Inr d \<Rightarrow>
    (case market_signal e d of Inl x \<Rightarrow> (Inl x, st) | Inr sg \<Rightarrow>
    (case service_process se (faults 0) sg st of
       (Inl x, st1) \<Rightarrow> (Inl x, st1)
     | (Inr _, st1) \<Rightarrow>
       (case get_json (''source-health:market:'' @ ce_source e @ '':'' @ datum_asset d) (sv_store st1) of
          None \<Rightarrow> (Inr (), st1)
        | Some health \<Rightarrow> process_signals se faults 1 [market_quality_signal e (datum_asset d) health] st1))))"

definition process_post ::
    "worker_codec \<Rightarrow> service_env \<Rightarrow> (nat \<Rightarrow> service_faults) \<Rightarrow> signal_event \<Rightarrow> service_state
     \<Rightarrow> unit res \<times> service_state" where
  "process_post wc se faults e st = (case wc_post wc (ce_payload e) of
     Inl x \<Rightarrow> (Inl x, st)
   | Inr p \<Rightarrow> process_social_pair wc se faults (sp_post_id p)
       (remember (post_key (sp_post_id p)) (wc_dump wc e) st))"

definition process_mentions ::
    "worker_codec \<Rightarrow> service_env \<Rightarrow> (nat \<Rightarrow> service_faults) \<Rightarrow> signal_event \<Rightarrow> service_state
     \<Rightarrow> unit res \<times> service_state" where
  "process_mentions wc se faults e st = (case map_of (ce_payload e) ''post_id'' of
     None \<Rightarrow> (Inl (KeyError ''post_id''), st)
   | Some v \<Rightarrow> process_social_pair wc se faults (wc_str wc v)
       (remember (mentions_key (wc_str wc v)) (wc_dump wc e) st))"

definition process_event ::
    "worker_codec \<Rightarrow> service_env \<Rightarrow> (nat \<Rightarrow> service_faults) \<Rightarrow> signal_event \<Rightarrow> service_state
     \<Rightarrow> unit res \<times> service_state" where
  "process_event wc se faults e st =
    (if ce_event_type e \<in> {ev_market_trade_received, ev_market_candle_closed, ev_market_orderbook_updated}
     then process_market wc se faults e st
     else if ce_event_type e = ev_social_post_normalized then process_post wc se faults e st
     else if ce_event_type e = ev_social_asset_mention_detected then process_mentions wc se faults e st
     else (Inr (), st))"

section \<open>Properties\<close>

lemma join_keys_apart [simp]: "post_key i \<noteq> mentions_key j" "mentions_key j \<noteq> post_key i"
  by (simp_all add: post_key_def mentions_key_def)

lemma remember_commute: "j \<noteq> k \<Longrightarrow> remember j v (remember k w st) = remember k w (remember j v st)"
  by (simp add: remember_def set_json_def fun_upd_twist)

lemma pair_waits:
  assumes "get_json (post_key i) (sv_store st) = None \<or> get_json (mentions_key i) (sv_store st) = None"
  shows "process_social_pair wc se faults i st = (Inr (), st)"
  using assms by (auto simp: process_social_pair_def split: option.splits)

lemma get_remember [simp]:
  "get_json j (sv_store (remember k v st)) = (if j = k then Some v else get_json j (sv_store st))"
  by (simp add: remember_def)

text \<open>C30. The join of a post with its mentions does not depend on the order of arrival: as long as
  neither half has been seen, the first event only remembers its half, and the second one
  processes the pair; both orders end with the same answer and in the same state of the engine,
  the repository, the online keys and the published events, also when processing the pair
  raises.\<close>

theorem stream_join_commutes:
  assumes "ce_event_type ep = ev_social_post_normalized" "ce_event_type em = ev_social_asset_mention_detected"
    and "wc_post wc (ce_payload ep) = Inr p" "map_of (ce_payload em) ''post_id'' = Some v"
    and "wc_str wc v = sp_post_id p"
    and "get_json (post_key (sp_post_id p)) (sv_store st) = None"
    and "get_json (mentions_key (sp_post_id p)) (sv_store st) = None"
  shows "fst (process_event wc se f ep st) = Inr () \<and> fst (process_event wc se f em st) = Inr () \<and>
    sv_engine (snd (process_event wc se f ep st)) = sv_engine st \<and>
    process_event wc se faults em (snd (process_event wc se f ep st)) =
    process_event wc se faults ep (snd (process_event wc se f em st))"
proof -
  let ?i = "sp_post_id p"
  let ?sp = "remember (post_key ?i) (wc_dump wc ep)" and ?sm = "remember (mentions_key ?i) (wc_dump wc em)"
  have one: "process_event wc se f ep st = (Inr (), ?sp st)"
    using assms by (simp add: process_event_def process_post_def pair_waits)
  have two: "process_event wc se f em st = (Inr (), ?sm st)"
    using assms by (simp add: process_event_def process_mentions_def pair_waits)
  have "process_event wc se faults em (?sp st) = process_social_pair wc se faults ?i (?sm (?sp st))"
    using assms by (simp add: process_event_def process_mentions_def)
  moreover have "process_event wc se faults ep (?sm st) = process_social_pair wc se faults ?i (?sp (?sm st))"
    using assms by (simp add: process_event_def process_post_def)
  moreover have "?sm (?sp st) = ?sp (?sm st)" by (rule remember_commute) simp
  ultimately show ?thesis using one two by (simp add: remember_def)
qed

definition sample_post :: social_post where
  "sample_post = \<lparr>sp_post_id = ''p1'', sp_platform = ''x'', sp_author_id = ''a'', sp_pseudonym_key_version = 1,
     sp_event_time = 0, sp_text = ''buy'', sp_language = None, sp_hashtags = [], sp_cashtags = [],
     sp_user_mentions = [], sp_urls = [], sp_reply_to = None, sp_repost_of = None, sp_engagement = [],
     sp_source_metadata = []\<rparr>"

definition sample_worker :: worker_codec where
  "sample_worker = \<lparr>wc_market = \<lparr>mk_trade = (\<lambda>_. Inl (ValidationError ''trade'')),
       mk_candle = (\<lambda>_. Inl (ValidationError ''candle'')), mk_book = (\<lambda>_. Inl (ValidationError ''book'')),
       mk_dump = (\<lambda>_. []), mk_text_length = length\<rparr>,
     wc_post = (\<lambda>_. Inr sample_post), wc_mention = (\<lambda>_. Inl (ValidationError ''mention'')),
     wc_dump = (\<lambda>e. PStr (ce_event_id e)), wc_load = (\<lambda>_. Inl (ValidationError ''event'')),
     wc_str = (\<lambda>v. case v of PStr s \<Rightarrow> s | _ \<Rightarrow> [])\<rparr>"

theorem stream_join_commutes_witness:
  "let ep = (sample_signal_event ''e1'' [])\<lparr>ce_event_type := ev_social_post_normalized\<rparr>;
       em = (sample_signal_event ''e2'' [(''post_id'', PStr ''p1'')])\<lparr>ce_event_type := ev_social_asset_mention_detected\<rparr>;
       run = process_event sample_worker sample_service (\<lambda>_ _ _. None)
   in run em (snd (run ep service_empty)) = run ep (snd (run em service_empty)) \<and>
      fst (run em (snd (run ep service_empty))) = Inl (ValidationError ''event'')"
proof -
  let ?ep = "(sample_signal_event ''e1'' [])\<lparr>ce_event_type := ev_social_post_normalized\<rparr>"
  let ?em = "(sample_signal_event ''e2'' [(''post_id'', PStr ''p1'')])\<lparr>ce_event_type := ev_social_asset_mention_detected\<rparr>"
  let ?run = "process_event sample_worker sample_service (\<lambda>_ _ _. None)"
  have "?run ?em (snd (?run ?ep service_empty)) = ?run ?ep (snd (?run ?em service_empty))"
    using stream_join_commutes [of ?ep ?em sample_worker sample_post "PStr ''p1''" service_empty sample_service
        "\<lambda>_ _ _. None" "\<lambda>_ _ _. None"]
    by (simp add: sample_worker_def sample_post_def sample_signal_event_def service_empty_def store_empty_def get_json_def)
  moreover have "fst (?run ?em (snd (?run ?ep service_empty))) = Inl (ValidationError ''event'')"
    by (simp add: process_event_def process_post_def process_mentions_def process_social_pair_def
        process_joined_def sample_worker_def sample_post_def sample_signal_event_def remember_def
        service_empty_def store_empty_def get_json_def set_json_def post_key_def mentions_key_def)
  ultimately show ?thesis by (simp add: Let_def)
qed

end
