(* ===== verification/Detection_Service.thy ===== *)
theory Detection_Service
  imports Fusion_Correct Domain Json_Text
begin

text \<open>
  \<open>DetectionService.score\<close> and \<open>InMemoryScoreRepository\<close> (\<open>intelligence/fusion.py\<close>): the
  detectors run on a snapshot, the fusion engine combines them, the result gets its identity, is
  persisted once per identity, written to the online keys and, when it is new, published.

  The dump of a result, the clock, the threat repository and the fresh correlation identifier are
  arguments.
\<close>

section \<open>Identity\<close>

record score_identity =
  id_scope_id :: string
  id_asset_id :: string
  id_feature_window_id :: string
  id_feature_revision :: nat
  id_enrichment_profile :: enrichment_profile
  id_graph_snapshot :: "string option"
  id_verification_snapshot :: "string option"
  id_threat_snapshot :: "string option"
  id_fusion_policy_version :: string

text \<open>\<open>input_snapshot_ids\<close>: the given ones.\<close>

definition snapshot_ids :: "score_identity \<Rightarrow> (string \<times> string) list" where
  "snapshot_ids i = concat (map (\<lambda>(k, v). case v of None \<Rightarrow> [] | Some x \<Rightarrow> [(k, x)])
     [(''graph_snapshot_id'', id_graph_snapshot i), (''verification_snapshot_id'', id_verification_snapshot i),
      (''threat_snapshot_id'', id_threat_snapshot i)])"

text \<open>\<open>json.dumps(identity, sort_keys=True, separators=(",", ":"))\<close>: the keys in sorted order.\<close>

definition sorted_snapshot_ids :: "score_identity \<Rightarrow> (string \<times> string) list" where
  "sorted_snapshot_ids i = concat (map (\<lambda>(k, v). case v of None \<Rightarrow> [] | Some x \<Rightarrow> [(k, json_string x)])
     [(''graph_snapshot_id'', id_graph_snapshot i), (''threat_snapshot_id'', id_threat_snapshot i),
      (''verification_snapshot_id'', id_verification_snapshot i)])"

definition identity_json :: "score_identity \<Rightarrow> string" where
  "identity_json i = json_object
    [(''asset_id'', json_string (id_asset_id i)),
     (''enrichment_profile'', json_string (profile_value (id_enrichment_profile i))),
     (''feature_revision'', show_nat (id_feature_revision i)),
     (''feature_window_id'', json_string (id_feature_window_id i)),
     (''fusion_policy_version'', json_string (id_fusion_policy_version i)),
     (''input_snapshot_ids'', json_object (sorted_snapshot_ids i)),
     (''scope_id'', json_string (id_scope_id i))]"

definition idempotency_key :: "py_env \<Rightarrow> score_identity \<Rightarrow> string" where
  "idempotency_key env i = env_sha256 env (identity_json i)"

section \<open>The service\<close>

record score_repo =
  sr_results :: "(string \<times> nat \<times> string) \<rightharpoonup> fusion_result"

definition persist_score :: "fusion_result \<Rightarrow> score_repo \<Rightarrow> bool \<times> score_repo" where
  "persist_score r repo =
    (let key = (fr_feature_window_id r, fr_feature_revision r, fr_idempotency_key r)
     in if sr_results repo key \<noteq> None then (False, repo)
        else (True, repo\<lparr>sr_results := (sr_results repo)(key \<mapsto> r)\<rparr>))"

record detection_env =
  de_env :: py_env
  de_engine :: fusion_engine
  de_threats :: "(string \<Rightarrow> string \<Rightarrow> datetime \<Rightarrow> threat_context res) option"
  de_dump :: "fusion_result \<Rightarrow> (string \<times> py_value) list"

record score_call =
  sc_now :: datetime
  sc_correlation :: string
  sc_snapshot :: feature_snapshot
  sc_claim_risk :: "real option"
  sc_legitimate :: "real option"
  sc_graph_score :: "real option"
  sc_graph_snapshot :: "string option"
  sc_verification_snapshot :: "string option"
  sc_threat_context :: "threat_context option"

record detection_state =
  ds_repo :: score_repo
  ds_store :: state_store
  ds_published :: "(string \<times> py_value) list publisher"

definition detection_empty :: detection_state where
  "detection_empty = \<lparr>ds_repo = \<lparr>sr_results = Map.empty\<rparr>, ds_store = store_empty, ds_published = []\<rparr>"

definition detector_outputs :: "feature_snapshot \<Rightarrow> detector_output list" where
  "detector_outputs s = [market_score s, social_score s, coordination_score s, temporal_score s]"

text \<open>The threat context is looked up only when none is given.\<close>

definition threat_of :: "detection_env \<Rightarrow> score_call \<Rightarrow> threat_context option res" where
  "threat_of de c = (case sc_threat_context c of
     Some t \<Rightarrow> Inr (Some t)
   | None \<Rightarrow> (case de_threats de of
       None \<Rightarrow> Inr None
     | Some look \<Rightarrow> (case look (fs_scope_id (sc_snapshot c)) (fs_asset_id (sc_snapshot c)) (fs_window_end (sc_snapshot c)) of
         Inl e \<Rightarrow> Inl e | Inr t \<Rightarrow> Inr (Some t))))"

definition call_input :: "score_call \<Rightarrow> threat_context option \<Rightarrow> fuse_input" where
  "call_input c threat =
    (let (regime, regime_confidence) = classify_regime (sc_snapshot c);
         (liquidity, liquidity_confidence) = classify_liquidity (sc_snapshot c)
     in \<lparr>fi_claim_risk = sc_claim_risk c, fi_legitimate_event_score = sc_legitimate c,
         fi_graph_score = sc_graph_score c, fi_threat_context = threat,
         fi_market_regime = regime_value regime, fi_market_regime_confidence = regime_confidence,
         fi_liquidity_class = liquidity_value liquidity, fi_liquidity_confidence = liquidity_confidence\<rparr>)"

definition identity_of :: "score_call \<Rightarrow> threat_context option \<Rightarrow> fusion_result \<Rightarrow> score_identity" where
  "identity_of c threat r =
    (let s = sc_snapshot c
     in \<lparr>id_scope_id = fs_scope_id s, id_asset_id = fs_asset_id s,
         id_feature_window_id = fs_feature_window_id s, id_feature_revision = fs_revision s,
         id_enrichment_profile = fr_enrichment_profile r,
         id_graph_snapshot = sc_graph_snapshot c, id_verification_snapshot = sc_verification_snapshot c,
         id_threat_snapshot = (case threat of None \<Rightarrow> None | Some t \<Rightarrow> th_snapshot_id t),
         id_fusion_policy_version = fr_fusion_policy_version r\<rparr>)"

definition identified :: "py_env \<Rightarrow> score_identity \<Rightarrow> fusion_result \<Rightarrow> fusion_result" where
  "identified env i r =
    (let key = idempotency_key env i
     in r\<lparr>fr_model_score_id := env_uuid5 env (''model-score:'' @ key),
          fr_input_snapshot_ids := snapshot_ids i, fr_idempotency_key := key\<rparr>)"

text \<open>The computation up to the identified result.\<close>

definition score_result :: "detection_env \<Rightarrow> score_call \<Rightarrow> fusion_result res" where
  "score_result de c = (case threat_of de c of
     Inl e \<Rightarrow> Inl e
   | Inr threat \<Rightarrow>
     (case fuse (de_engine de) (sc_now c) (sc_snapshot c) (detector_outputs (sc_snapshot c)) (call_input c threat) of
        Inl e \<Rightarrow> Inl e
      | Inr r \<Rightarrow> Inr (identified (de_env de) (identity_of c threat r) r)))"

definition fusion_event :: "detection_env \<Rightarrow> score_call \<Rightarrow> fusion_result \<Rightarrow> (string \<times> py_value) list canonical_event res" where
  "fusion_event de c r =
    (let s = sc_snapshot c;
         tail = fs_scope_id s @ '':'' @ fs_feature_window_id s @ '':'' @ show_nat (fs_revision s) @ '':''
           @ fr_idempotency_key r;
         session = (if fs_scope_id s \<noteq> ''LIVE'' then Some (fs_scope_id s) else None)
     in case build_replay (fs_scope_id s \<noteq> ''LIVE'') session of
          Inl e \<Rightarrow> Inl e
        | Inr replay \<Rightarrow> build_event
            \<lparr>ce_event_id = env_uuid5 (de_env de) (''fusion-event:'' @ tail), ce_origin_event_id = None,
             ce_delivery_event_id = None, ce_event_type = ev_model_fusion_scored, ce_schema_version = 1,
             ce_source = fr_base_model_version r, ce_source_event_id = tail, ce_source_sequence = None,
             ce_asset_id = Some (fs_asset_id s), ce_event_time = fs_window_end s,
             ce_ingested_at = fr_scored_at r, ce_processed_at = Some (fr_scored_at r),
             ce_partition_key = fs_asset_id s, ce_replay = replay,
             ce_trace = \<lparr>tm_correlation_id = sc_correlation c, tm_causation_id = None\<rparr>,
             ce_payload = de_dump de r\<rparr>)"

definition score_key :: "feature_snapshot \<Rightarrow> string" where
  "score_key s = ''latest:score:'' @ fs_asset_id s"

definition scoped_score_key :: "feature_snapshot \<Rightarrow> string" where
  "scoped_score_key s = ''latest:score:'' @ fs_scope_id s @ '':'' @ fs_asset_id s"

definition score :: "detection_env \<Rightarrow> score_call \<Rightarrow> detection_state \<Rightarrow> fusion_result res \<times> detection_state" where
  "score de c st = (case score_result de c of
     Inl e \<Rightarrow> (Inl e, st)
   | Inr r \<Rightarrow>
     (let (persisted, repo) = persist_score r (ds_repo st);
          st1 = st\<lparr>ds_repo := repo,
            ds_store := set_json (scoped_score_key (sc_snapshot c)) (PDict (de_dump de r))
              (set_json (score_key (sc_snapshot c)) (PDict (de_dump de r)) (ds_store st))\<rparr>
      in if \<not> persisted then (Inr r, st1)
         else case fusion_event de c r of
           Inl e \<Rightarrow> (Inl e, st1)
         | Inr e \<Rightarrow> (Inr r, st1\<lparr>ds_published := publish_one ''model.fusion.score.v1'' e (ds_published st1)\<rparr>)))"

fun score_run :: "detection_env \<Rightarrow> score_call list \<Rightarrow> detection_state \<Rightarrow> detection_state" where
  "score_run de [] st = st"
| "score_run de (c # cs) st = score_run de cs (snd (score de c st))"

section \<open>The identity text\<close>

lemma json_fields_Nil: "json_fields [] = []"
  by (simp add: json_fields_def join_def)

lemma json_fields_Cons:
  "json_fields [(k, t)] = json_string k @ '':'' @ t"
  "kvs \<noteq> [] \<Longrightarrow> json_fields ((k, t) # kvs) = json_string k @ '':'' @ t @ '','' @ json_fields kvs"
  by (simp add: json_fields_def join_def) (cases kvs; auto simp: json_fields_def join_def)

lemma profile_value_inject: "profile_value p = profile_value q \<longleftrightarrow> p = q"
  by (cases p; cases q) (simp_all add: profile_value_def)

lemma string_field_inject:
  "json_string k @ '':'' @ json_string s @ x = json_string k @ '':'' @ json_string t @ y \<longleftrightarrow> s = t \<and> x = y"
  by (simp add: json_string_inject)

text \<open>An object of string values before a closing brace is determined, and so is what follows.\<close>

lemma json_string_not_brace: "json_string s @ x \<noteq> CHR ''}'' # y" "CHR ''}'' # y \<noteq> json_string s @ x"
  by (simp_all add: json_string_def quote_def)

lemma string_object_inject:
  assumes "json_object (map (map_prod id json_string) xs) @ u = json_object (map (map_prod id json_string) ys) @ v"
  shows "xs = ys \<and> u = v"
proof -
  have "json_fields (map (map_prod id json_string) xs) @ CHR ''}'' # u =
      json_fields (map (map_prod id json_string) ys) @ CHR ''}'' # v"
    using assms by (simp add: json_object_def)
  then show ?thesis
  proof (induction xs arbitrary: ys)
    case Nil
    show ?case
    proof (cases ys)
      case (Cons y ys')
      have "json_fields (map (map_prod id json_string) ys) @ CHR ''}'' # v =
          json_string (fst y) @ (if ys' = [] then '':'' @ json_string (snd y) @ CHR ''}'' # v
            else '':'' @ json_string (snd y) @ '','' @ json_fields (map (map_prod id json_string) ys') @ CHR ''}'' # v)"
        by (cases y) (simp add: Cons json_fields_Cons)
      moreover have "CHR ''}'' # u = json_fields (map (map_prod id json_string) ys) @ CHR ''}'' # v"
        using Nil.prems by (simp only: list.map json_fields_Nil append_Nil)
      ultimately show ?thesis by (metis json_string_not_brace(2))
    qed (use Nil.prems in \<open>simp add: json_fields_Nil\<close>)
  next
    case (Cons x xs)
    obtain k s where x: "x = (k, s)" by fastforce
    let ?rest = "\<lambda>zs w. if zs = [] then CHR ''}'' # w
       else CHR '','' # json_fields (map (map_prod id json_string) zs) @ CHR ''}'' # w"
    have step: "json_fields (map (map_prod id json_string) ((a, b) # zs)) @ CHR ''}'' # w =
        json_string a @ '':'' @ json_string b @ ?rest zs w" for a b :: string and zs w
      by (simp add: json_fields_Cons)
    show ?case
    proof (cases ys)
      case Nil
      have "json_string k @ '':'' @ json_string s @ ?rest xs u = CHR ''}'' # v"
        using Cons.prems unfolding x step Nil by (simp only: list.map json_fields_Nil append_Nil)
      then show ?thesis by (metis json_string_not_brace(1))
    next
      case ys: (Cons y ys')
      obtain l t where y: "y = (l, t)" by fastforce
      have "json_string k @ '':'' @ json_string s @ ?rest xs u = json_string l @ '':'' @ json_string t @ ?rest ys' v"
        using Cons.prems unfolding x y ys step .
      then have eq: "k = l" "s = t" "?rest xs u = ?rest ys' v"
        by (simp_all only: json_string_inject append_Cons append_Nil list.inject)
      show ?thesis
      proof (cases "xs = [] \<or> ys' = []")
        case True
        with eq show ?thesis unfolding x y ys by (auto split: if_splits)
      next
        case False
        with eq(3) have "json_fields (map (map_prod id json_string) xs) @ CHR ''}'' # u =
            json_fields (map (map_prod id json_string) ys') @ CHR ''}'' # v" by simp
        from Cons.IH [OF this] eq show ?thesis unfolding x y ys by simp
      qed
    qed
  qed
qed

definition sorted_ids :: "score_identity \<Rightarrow> (string \<times> string) list" where
  "sorted_ids i = concat (map (\<lambda>(k, v). case v of None \<Rightarrow> [] | Some x \<Rightarrow> [(k, x)])
     [(''graph_snapshot_id'', id_graph_snapshot i), (''threat_snapshot_id'', id_threat_snapshot i),
      (''verification_snapshot_id'', id_verification_snapshot i)])"

lemma sorted_snapshot_ids_map: "sorted_snapshot_ids i = map (map_prod id json_string) (sorted_ids i)"
  by (simp add: sorted_snapshot_ids_def sorted_ids_def split: option.split)

lemma sorted_ids_inject:
  "sorted_ids i = sorted_ids j \<Longrightarrow> id_graph_snapshot i = id_graph_snapshot j \<and>
     id_threat_snapshot i = id_threat_snapshot j \<and> id_verification_snapshot i = id_verification_snapshot j"
  by (simp add: sorted_ids_def split: option.splits)

lemma identity_json_inject: "identity_json i = identity_json j \<Longrightarrow> i = j"
proof -
  assume eq: "identity_json i = identity_json j"
  have unfold: "identity_json i = CHR ''{'' # json_string ''asset_id'' @ '':'' @ json_string (id_asset_id i) @ '',''
     @ json_string ''enrichment_profile'' @ '':'' @ json_string (profile_value (id_enrichment_profile i)) @ '',''
     @ json_string ''feature_revision'' @ '':'' @ show_nat (id_feature_revision i) @ CHR '','' #
       json_string ''feature_window_id'' @ '':'' @ json_string (id_feature_window_id i) @ '',''
     @ json_string ''fusion_policy_version'' @ '':'' @ json_string (id_fusion_policy_version i) @ '',''
     @ json_string ''input_snapshot_ids'' @ '':'' @ json_object (map (map_prod id json_string) (sorted_ids i)) @ '',''
     @ json_string ''scope_id'' @ '':'' @ json_string (id_scope_id i) @ ''}''" for i
    by (simp add: identity_json_def json_object_def json_fields_Cons sorted_snapshot_ids_map)
  note apart = json_string_inject append_Cons append_Nil list.inject
  from eq [unfolded unfold] have 1: "id_asset_id i = id_asset_id j"
    "profile_value (id_enrichment_profile i) = profile_value (id_enrichment_profile j)"
    and r1: "show_nat (id_feature_revision i) @ CHR '','' #
       json_string ''feature_window_id'' @ '':'' @ json_string (id_feature_window_id i) @ '',''
     @ json_string ''fusion_policy_version'' @ '':'' @ json_string (id_fusion_policy_version i) @ '',''
     @ json_string ''input_snapshot_ids'' @ '':'' @ json_object (map (map_prod id json_string) (sorted_ids i)) @ '',''
     @ json_string ''scope_id'' @ '':'' @ json_string (id_scope_id i) @ ''}'' =
      show_nat (id_feature_revision j) @ CHR '','' #
       json_string ''feature_window_id'' @ '':'' @ json_string (id_feature_window_id j) @ '',''
     @ json_string ''fusion_policy_version'' @ '':'' @ json_string (id_fusion_policy_version j) @ '',''
     @ json_string ''input_snapshot_ids'' @ '':'' @ json_object (map (map_prod id json_string) (sorted_ids j)) @ '',''
     @ json_string ''scope_id'' @ '':'' @ json_string (id_scope_id j) @ ''}''"
    unfolding apart by blast+
  have "\<not> is_digit CHR '',''" by (simp add: is_digit_def)
  note split = show_nat_split [OF this r1]
  then have 2: "id_feature_revision i = id_feature_revision j" by blast
  from split [THEN conjunct2] have 3: "id_feature_window_id i = id_feature_window_id j"
    "id_fusion_policy_version i = id_fusion_policy_version j"
    and r2: "json_object (map (map_prod id json_string) (sorted_ids i)) @ CHR '','' #
       json_string ''scope_id'' @ '':'' @ json_string (id_scope_id i) @ ''}'' =
      json_object (map (map_prod id json_string) (sorted_ids j)) @ CHR '','' #
       json_string ''scope_id'' @ '':'' @ json_string (id_scope_id j) @ ''}''"
    unfolding apart by blast+
  from string_object_inject [OF r2] have ids: "sorted_ids i = sorted_ids j"
    and "json_string (id_scope_id i) = json_string (id_scope_id j)" by simp_all
  then have 4: "id_scope_id i = id_scope_id j" by simp
  show "i = j"
    using 1 2 3 4 sorted_ids_inject [OF ids] by (simp add: profile_value_inject)
qed

end
