(* ===== verification/Detection_Correct.thy ===== *)
theory Detection_Correct
  imports Detection_Service
begin

text \<open>
  Properties of the scoring service: a scoring call on a valid snapshot succeeds end to end, a
  result is persisted and published once per identity, the identity is canonical, and what the
  identity and the online keys do not protect against.
\<close>

section \<open>Results\<close>

lemma detector_outputs_valid: "outputs_valid (detector_outputs s)"
  by (simp add: outputs_valid_def detector_outputs_def market_detector.score_unit social_detector.score_unit
      coordination_detector.score_unit temporal_detector.score_unit)

lemma score_result_Inr:
  assumes "score_result de c = Inr r"
  obtains threat f where "threat_of de c = Inr threat"
    "fuse (de_engine de) (sc_now c) (sc_snapshot c) (detector_outputs (sc_snapshot c)) (call_input c threat) = Inr f"
    "r = identified (de_env de) (identity_of c threat f) f"
  using assms by (auto simp: score_result_def split: sum.splits)

lemma fuse_identity_fields:
  assumes "fuse eng now s outs inp = Inr f"
  shows "fr_feature_window_id f = fs_feature_window_id s \<and> fr_feature_revision f = fs_revision s \<and>
    fr_scope_id f = fs_scope_id s \<and> fr_asset_id f = fs_asset_id s \<and>
    fr_fusion_policy_version f = fusion_policy_version \<and> fr_base_model_version f = fusion_version \<and>
    fr_scored_at f = now"
  using assms by (elim fuse_Inr) (simp add: fusion_record_def Let_def)

lemma identified_fields [simp]:
  "fr_feature_window_id (identified env i f) = fr_feature_window_id f"
  "fr_feature_revision (identified env i f) = fr_feature_revision f"
  "fr_idempotency_key (identified env i f) = idempotency_key env i"
  "fr_base_model_version (identified env i f) = fr_base_model_version f"
  by (simp_all add: identified_def Let_def)

text \<open>The repository key of a result.\<close>

definition result_key :: "fusion_result \<Rightarrow> string \<times> nat \<times> string" where
  "result_key r = (fr_feature_window_id r, fr_feature_revision r, fr_idempotency_key r)"

lemma fusion_event_total:
  assumes "\<not> blank (fs_asset_id (sc_snapshot c))" "fs_scope_id (sc_snapshot c) \<noteq> []"
    and "fr_base_model_version r = fusion_version"
  shows "\<exists>e. fusion_event de c r = Inr e"
proof -
  have "\<not> is_space CHR '':''" "\<not> is_space CHR ''f''" by (simp_all add: is_space_def)
  then have b: "\<not> blank (x @ '':'' @ y)" "\<not> blank fusion_version" for x y
    by (simp_all add: blank_def fusion_version_def)
  have "is_ok (build_event d)" if "ce_delivery_event_id d = None" "ce_schema_version d = 1"
    "ce_partition_key d = fs_asset_id (sc_snapshot c)" "ce_source d = fusion_version"
    "ce_source_event_id d = fs_scope_id (sc_snapshot c) @ '':'' @ x"
    for d :: "(string \<times> py_value) list canonical_event" and x
    using build_event_fresh [OF that(1)] that assms(1) b by simp
  with assms(2,3) show ?thesis by (simp add: fusion_event_def build_replay_def Let_def flip: is_ok_iff)
qed

definition call_valid :: "detection_env \<Rightarrow> score_call \<Rightarrow> bool" where
  "call_valid de c \<longleftrightarrow> engine_valid (de_engine de) \<and> valid_snapshot (sc_snapshot c) \<and>
     \<not> blank (fs_asset_id (sc_snapshot c)) \<and> fs_scope_id (sc_snapshot c) \<noteq> [] \<and>
     (\<forall>t. threat_of de c = Inr (Some t) \<longrightarrow> threat_valid t) \<and> is_ok (threat_of de c)"

lemma score_result_total:
  assumes "call_valid de c"
  shows "\<exists>r. score_result de c = Inr r"
proof -
  obtain threat where t: "threat_of de c = Inr threat" using assms by (auto simp: call_valid_def is_ok_iff)
  have "input_valid (call_input c threat)"
    using assms t classify_regime_unit classify_liquidity_unit
    by (auto simp: call_valid_def input_valid_def call_input_def split: prod.splits option.splits)
      (metis snd_conv)+
  with assms detector_outputs_valid obtain f where
    "fuse (de_engine de) (sc_now c) (sc_snapshot c) (detector_outputs (sc_snapshot c)) (call_input c threat) = Inr f"
    using fuse_succeeds by (fastforce simp: call_valid_def)
  with t show ?thesis by (simp add: score_result_def)
qed


section \<open>Effects of a call\<close>

lemma score_fresh:
  assumes "score_result de c = Inr r" "sr_results (ds_repo st) (result_key r) = None"
    and "fusion_event de c r = Inr e"
  shows "score de c st = (Inr r, st\<lparr>ds_repo := (ds_repo st)\<lparr>sr_results := (sr_results (ds_repo st))(result_key r \<mapsto> r)\<rparr>,
     ds_store := set_json (scoped_score_key (sc_snapshot c)) (PDict (de_dump de r))
       (set_json (score_key (sc_snapshot c)) (PDict (de_dump de r)) (ds_store st)),
     ds_published := ds_published st @ [(''model.fusion.score.v1'', e)]\<rparr>)"
  using assms by (simp add: score_def persist_score_def result_key_def publish_one_def Let_def)

lemma score_known:
  assumes "score_result de c = Inr r" "sr_results (ds_repo st) (result_key r) \<noteq> None"
  shows "score de c st = (Inr r, st\<lparr>ds_store := set_json (scoped_score_key (sc_snapshot c)) (PDict (de_dump de r))
       (set_json (score_key (sc_snapshot c)) (PDict (de_dump de r)) (ds_store st))\<rparr>)"
  using assms by (simp add: score_def persist_score_def result_key_def Let_def)

lemma score_event:
  assumes "call_valid de c" "score_result de c = Inr r"
  shows "\<exists>e. fusion_event de c r = Inr e"
proof -
  have "fr_base_model_version r = fusion_version"
    using assms(2) by (elim score_result_Inr) (simp add: fuse_identity_fields)
  with assms(1) show ?thesis by (intro fusion_event_total) (simp_all add: call_valid_def)
qed

text \<open>The online key of an asset follows the last call, whatever window or revision it scored.\<close>

lemma score_overwrites:
  assumes "call_valid de c"
  shows "\<exists>r. fst (score de c st) = Inr r \<and>
    get_json (score_key (sc_snapshot c)) (ds_store (snd (score de c st))) = Some (PDict (de_dump de r)) \<and>
    get_json (scoped_score_key (sc_snapshot c)) (ds_store (snd (score de c st))) = Some (PDict (de_dump de r))"
proof -
  obtain r where r: "score_result de c = Inr r" using score_result_total [OF assms] by blast
  obtain e where e: "fusion_event de c r = Inr e" using score_event [OF assms r] by blast
  show ?thesis
  proof (cases "sr_results (ds_repo st) (result_key r) = None")
    case True
    from score_fresh [OF r this e] show ?thesis by simp
  next
    case False
    from score_known [OF r this] show ?thesis by simp
  qed
qed

text \<open>Two calls that differ in the numbers but not in the snapshots behind them share an identity:
  the second result is neither stored nor published, but it replaces the first one online.\<close>

lemma same_identity_conflict:
  assumes "score_result de c = Inr r" "score_result de c' = Inr r'" "call_valid de c"
    and "result_key r' = result_key r" "sc_snapshot c' = sc_snapshot c"
    and "sr_results (ds_repo st) (result_key r) = None"
  shows "let st1 = snd (score de c st); st2 = snd (score de c' st1)
    in sr_results (ds_repo st2) (result_key r) = Some r \<and> ds_published st2 = ds_published st1 \<and>
       get_json (score_key (sc_snapshot c)) (ds_store st2) = Some (PDict (de_dump de r'))"
proof -
  obtain e where e: "fusion_event de c r = Inr e" using score_event [OF assms(3,1)] by blast
  note one = score_fresh [OF assms(1,6) e]
  have "sr_results (ds_repo (snd (score de c st))) (result_key r') \<noteq> None" by (simp add: one assms(4))
  note two = score_known [OF assms(2) this]
  show ?thesis unfolding Let_def two by (simp add: one assms(5))
qed

section \<open>Properties\<close>


text \<open>The idempotency key is canonical: with a hash that has no collisions, two results have the
  same key exactly when their calls agree on the scope, the asset, the window, the revision, the
  enrichment profile and the identifiers of the graph, verification and threat snapshots. In
  particular the claim risk, the legitimate-event score and the graph score are not part of the
  identity.\<close>

theorem score_identity:
  assumes "inj (env_sha256 (de_env de))"
    and "score_result de c = Inr r" "threat_of de c = Inr t"
    and "score_result de c' = Inr r'" "threat_of de c' = Inr t'"
  shows "fr_idempotency_key r = fr_idempotency_key r' \<longleftrightarrow>
    fs_scope_id (sc_snapshot c) = fs_scope_id (sc_snapshot c') \<and>
    fs_asset_id (sc_snapshot c) = fs_asset_id (sc_snapshot c') \<and>
    fs_feature_window_id (sc_snapshot c) = fs_feature_window_id (sc_snapshot c') \<and>
    fs_revision (sc_snapshot c) = fs_revision (sc_snapshot c') \<and>
    fr_enrichment_profile r = fr_enrichment_profile r' \<and>
    sc_graph_snapshot c = sc_graph_snapshot c' \<and>
    sc_verification_snapshot c = sc_verification_snapshot c' \<and>
    (case t of None \<Rightarrow> None | Some x \<Rightarrow> th_snapshot_id x) = (case t' of None \<Rightarrow> None | Some x \<Rightarrow> th_snapshot_id x)"
proof -
  obtain f where f: "fuse (de_engine de) (sc_now c) (sc_snapshot c) (detector_outputs (sc_snapshot c)) (call_input c t) = Inr f"
    and r: "r = identified (de_env de) (identity_of c t f) f"
    using assms(2,3) by (auto elim: score_result_Inr)
  obtain f' where f': "fuse (de_engine de) (sc_now c') (sc_snapshot c') (detector_outputs (sc_snapshot c')) (call_input c' t') = Inr f'"
    and r': "r' = identified (de_env de) (identity_of c' t' f') f'"
    using assms(4,5) by (auto elim: score_result_Inr)
  have "idempotency_key (de_env de) i = idempotency_key (de_env de) j \<longleftrightarrow> i = j" for i j
    using identity_json_inject injD [OF assms(1)] by (auto simp: idempotency_key_def)
  moreover have "fr_fusion_policy_version f = fr_fusion_policy_version f'"
    using fuse_identity_fields [OF f] fuse_identity_fields [OF f'] by simp
  moreover have "fr_enrichment_profile r = fr_enrichment_profile f" "fr_enrichment_profile r' = fr_enrichment_profile f'"
    by (simp_all add: r r' identified_def Let_def)
  ultimately show ?thesis
    unfolding r r' identified_fields by (simp add: identity_of_def Let_def)
qed

section \<open>Examples\<close>

definition sample_detection :: detection_env where
  "sample_detection = \<lparr>de_env = sample_env, de_engine = default_engine, de_threats = None,
     de_dump = (\<lambda>r. [(''fusion_score'', PFloat (fr_fusion_score r))])\<rparr>"

definition sample_call :: "real option \<Rightarrow> string option \<Rightarrow> score_call" where
  "sample_call claim_risk verification = \<lparr>sc_now = 0, sc_correlation = ''c'', sc_snapshot = sample_snapshot,
     sc_claim_risk = claim_risk, sc_legitimate = None, sc_graph_score = None, sc_graph_snapshot = None,
     sc_verification_snapshot = verification, sc_threat_context = None\<rparr>"

lemma sample_call_valid: "call_valid sample_detection (sample_call cr v)"
  by (simp add: call_valid_def sample_detection_def sample_call_def threat_of_def sample_snapshot_valid)
    (simp add: sample_snapshot_def blank_def is_space_def)


theorem score_identity_witness:
  "\<exists>r r'. score_result sample_detection (sample_call (Some 0.2) None) = Inr r \<and>
     score_result sample_detection (sample_call (Some 0.9) (Some ''v1'')) = Inr r' \<and>
     fr_idempotency_key r \<noteq> fr_idempotency_key r'"
proof -
  have inj: "inj (env_sha256 (de_env sample_detection))"
    by (simp add: sample_detection_def sample_env_def inj_on_def)
  obtain r where r: "score_result sample_detection (sample_call (Some 0.2) None) = Inr r"
    using score_result_total [OF sample_call_valid] by blast
  obtain r' where r': "score_result sample_detection (sample_call (Some 0.9) (Some ''v1'')) = Inr r'"
    using score_result_total [OF sample_call_valid] by blast
  have t: "threat_of sample_detection (sample_call cr v) = Inr None" for cr v
    by (simp add: threat_of_def sample_detection_def sample_call_def)
  from score_identity [OF inj r t r' t] r r' show ?thesis by (simp add: sample_call_def)
qed

end
