(* ===== verification/Circuit_Breaker.thy ===== *)
theory Circuit_Breaker
  imports Prelude
begin

text \<open>
  The circuit breaker that guards the live providers (\<open>resilience/circuit_breaker.py\<close>). \<open>call\<close> takes
  its lock twice, before and after the guarded operation, and other calls run in between. The two
  locked sections are functions on the breaker; a labelled step relation interleaves the sections
  of any number of concurrent calls, the passing of time and the cancellation of a running call.
\<close>

section \<open>The breaker\<close>

datatype circuit_state = cs_closed | cs_open | cs_half_open

fun circuit_state_value :: "circuit_state \<Rightarrow> string" where
  "circuit_state_value cs_closed = ''CLOSED''"
| "circuit_state_value cs_open = ''OPEN''"
| "circuit_state_value cs_half_open = ''HALF_OPEN''"

record circuit_breaker =
  cb_name :: string
  cb_failure_threshold :: int
  cb_recovery_seconds :: real
  cb_failures :: int
  cb_opened_at :: "real option"
  cb_half_open_in_flight :: bool

record circuit_snapshot =
  sn_name :: string
  sn_state :: circuit_state
  sn_failure_count :: int
  sn_opened_for_seconds :: "real option"

definition make_breaker :: "string \<Rightarrow> int \<Rightarrow> real \<Rightarrow> circuit_breaker res" where
  "make_breaker name failure_threshold recovery_seconds =
    (if failure_threshold < 1 \<or> recovery_seconds \<le> 0
     then Inl (ValueError ''circuit breaker limits must be positive'')
     else Inr \<lparr>cb_name = name, cb_failure_threshold = failure_threshold,
       cb_recovery_seconds = recovery_seconds, cb_failures = 0, cb_opened_at = None,
       cb_half_open_in_flight = False\<rparr>)"

text \<open>The first locked section: the call is refused, or admitted. \<open>now\<close> is \<open>monotonic()\<close>.\<close>

definition begin_call :: "real \<Rightarrow> circuit_breaker \<Rightarrow> circuit_breaker res" where
  "begin_call now b = (case cb_opened_at b of
     None \<Rightarrow> Inr b
   | Some opened \<Rightarrow>
       if now - opened < cb_recovery_seconds b
       then Inl (CircuitOpenError (cb_name b @ '' circuit is open''))
       else if cb_half_open_in_flight b
       then Inl (CircuitOpenError (cb_name b @ '' half-open probe is already running''))
       else Inr (b\<lparr>cb_half_open_in_flight := True\<rparr>))"

text \<open>The second locked section, after an operation that raised and after one that returned.\<close>

definition call_failed :: "real \<Rightarrow> circuit_breaker \<Rightarrow> circuit_breaker" where
  "call_failed now b =
    (let failures = cb_failures b + 1
     in b\<lparr>cb_half_open_in_flight := False, cb_failures := failures,
          cb_opened_at := (if failures \<ge> cb_failure_threshold b then Some now else cb_opened_at b)\<rparr>)"

definition call_succeeded :: "circuit_breaker \<Rightarrow> circuit_breaker" where
  "call_succeeded b = b\<lparr>cb_failures := 0, cb_opened_at := None, cb_half_open_in_flight := False\<rparr>"

text \<open>A call whose operation ends with \<open>r\<close> at \<open>finish\<close> and that no other call overlaps. A
  cancellation is not caught by \<open>except Exception\<close>, so it skips the second section.\<close>

definition end_call :: "real \<Rightarrow> 'a res \<Rightarrow> circuit_breaker \<Rightarrow> circuit_breaker" where
  "end_call finish r b = (case r of
     Inl e \<Rightarrow> if caught e then call_failed finish b else b
   | Inr _ \<Rightarrow> call_succeeded b)"

definition call :: "real \<Rightarrow> real \<Rightarrow> 'a res \<Rightarrow> circuit_breaker \<Rightarrow> 'a res \<times> circuit_breaker" where
  "call start finish r b = (case begin_call start b of
     Inl e \<Rightarrow> (Inl e, b)
   | Inr b' \<Rightarrow> (r, end_call finish r b'))"

definition snapshot :: "real \<Rightarrow> circuit_breaker \<Rightarrow> circuit_snapshot" where
  "snapshot now b =
    (let opened_for = map_option (\<lambda>opened. now - opened) (cb_opened_at b)
     in \<lparr>sn_name = cb_name b,
         sn_state = (case opened_for of None \<Rightarrow> cs_closed
           | Some t \<Rightarrow> if t \<ge> cb_recovery_seconds b then cs_half_open else cs_open),
         sn_failure_count = cb_failures b, sn_opened_for_seconds = opened_for\<rparr>)"

section \<open>Concurrent calls\<close>

text \<open>The admitted calls whose operation still runs; a call is marked by whether it was admitted as
  a probe of an open circuit.\<close>

record cb_world =
  w_breaker :: circuit_breaker
  w_running :: "bool list"
  w_now :: real

datatype cb_label = Admit bool | Refuse py_exn | Return bool | Raise bool | Cancel bool | Tick real

inductive cb_step :: "cb_world \<Rightarrow> cb_label \<Rightarrow> cb_world \<Rightarrow> bool" where
  admit: "begin_call (w_now w) (w_breaker w) = Inr b \<Longrightarrow> probe = (cb_opened_at (w_breaker w) \<noteq> None) \<Longrightarrow>
    cb_step w (Admit probe) (w\<lparr>w_breaker := b, w_running := probe # w_running w\<rparr>)"
| refuse: "begin_call (w_now w) (w_breaker w) = Inl e \<Longrightarrow> cb_step w (Refuse e) w"
| return: "probe \<in> set (w_running w) \<Longrightarrow> cb_step w (Return probe)
    (w\<lparr>w_breaker := end_call (w_now w) (Inr ()) (w_breaker w), w_running := remove1 probe (w_running w)\<rparr>)"
| raise: "probe \<in> set (w_running w) \<Longrightarrow> caught e \<Longrightarrow> cb_step w (Raise probe)
    (w\<lparr>w_breaker := end_call (w_now w) (Inl e :: unit res) (w_breaker w),
       w_running := remove1 probe (w_running w)\<rparr>)"
| cancel: "probe \<in> set (w_running w) \<Longrightarrow> cb_step w (Cancel probe)
    (w\<lparr>w_breaker := end_call (w_now w) (Inl CancelledError :: unit res) (w_breaker w),
       w_running := remove1 probe (w_running w)\<rparr>)"
| tick: "0 \<le> d \<Longrightarrow> cb_step w (Tick d) (w\<lparr>w_now := w_now w + d\<rparr>)"

inductive_cases cb_stepE: "cb_step w l w'"
inductive_simps cb_step_simps:
  "cb_step w (Admit p) w'" "cb_step w (Refuse e) w'" "cb_step w (Return p) w'" "cb_step w (Raise p) w'"
  "cb_step w (Cancel p) w'" "cb_step w (Tick d) w'"

inductive cb_run :: "cb_world \<Rightarrow> cb_label list \<Rightarrow> cb_world \<Rightarrow> bool" where
  cb_none: "cb_run w [] w"
| cb_more: "cb_run w ls w' \<Longrightarrow> cb_step w' l w'' \<Longrightarrow> cb_run w (ls @ [l]) w''"

lemma cb_snoc: "cb_run w ls w' \<Longrightarrow> cb_step w' l w'' \<Longrightarrow> ls' = ls @ [l] \<Longrightarrow> cb_run w ls' w''"
  by (simp add: cb_more)

definition idle_world :: "circuit_breaker \<Rightarrow> cb_world" where
  "idle_world b = \<lparr>w_breaker = b, w_running = [], w_now = 0\<rparr>"

text \<open>The contract: the circuit counts the operations that raised since the last one that
  returned, in the order in which they ended.\<close>

fun failures_after :: "int \<Rightarrow> cb_label list \<Rightarrow> int" where
  "failures_after n [] = n"
| "failures_after n (Return p # ls) = failures_after 0 ls"
| "failures_after n (Raise p # ls) = failures_after (n + 1) ls"
| "failures_after n (l # ls) = failures_after n ls"

lemma failures_after_append: "failures_after n (xs @ ys) = failures_after (failures_after n xs) ys"
  by (induction n xs rule: failures_after.induct) auto

lemma begin_call_open:
  "begin_call now b = Inr b' \<Longrightarrow> cb_opened_at b = Some t \<Longrightarrow>
     cb_recovery_seconds b \<le> now - t \<and> \<not> cb_half_open_in_flight b \<and> b' = b\<lparr>cb_half_open_in_flight := True\<rparr>"
  by (simp add: begin_call_def split: if_splits)

lemma begin_call_closed [simp]: "cb_opened_at b = None \<Longrightarrow> begin_call now b = Inr b"
  by (simp add: begin_call_def)

lemma caught_CancelledError [simp]: "\<not> caught CancelledError"
  by (simp add: caught_def)

lemma end_call_simps [simp]:
  "end_call t (Inr x) b = call_succeeded b" "caught e \<Longrightarrow> end_call t (Inl e) b = call_failed t b"
  "end_call t (Inl CancelledError) b = b"
  by (simp_all add: end_call_def)

lemma call_succeeded_simps [simp]:
  "cb_failures (call_succeeded b) = 0" "cb_opened_at (call_succeeded b) = None"
  "cb_half_open_in_flight (call_succeeded b) = False" "cb_failure_threshold (call_succeeded b) = cb_failure_threshold b"
  "cb_recovery_seconds (call_succeeded b) = cb_recovery_seconds b"
  by (simp_all add: call_succeeded_def)

lemma call_failed_simps [simp]:
  "cb_failures (call_failed t b) = cb_failures b + 1" "cb_half_open_in_flight (call_failed t b) = False"
  "cb_failure_threshold (call_failed t b) = cb_failure_threshold b"
  "cb_recovery_seconds (call_failed t b) = cb_recovery_seconds b"
  "cb_opened_at (call_failed t b) =
     (if cb_failures b + 1 \<ge> cb_failure_threshold b then Some t else cb_opened_at b)"
  by (simp_all add: call_failed_def Let_def)

section \<open>The invariant\<close>

definition breaker_inv :: "int \<Rightarrow> real \<Rightarrow> cb_world \<Rightarrow> bool" where
  "breaker_inv n recovery w \<longleftrightarrow>
     cb_failure_threshold (w_breaker w) = n \<and> cb_recovery_seconds (w_breaker w) = recovery \<and>
     0 \<le> cb_failures (w_breaker w) \<and>
     (cb_opened_at (w_breaker w) \<noteq> None \<longleftrightarrow> n \<le> cb_failures (w_breaker w)) \<and>
     (\<forall>t. cb_opened_at (w_breaker w) = Some t \<longrightarrow> t \<le> w_now w) \<and>
     (cb_half_open_in_flight (w_breaker w) \<longrightarrow> cb_opened_at (w_breaker w) \<noteq> None)"

lemma begin_call_fields:
  assumes "begin_call now b = Inr b'"
  shows "cb_failures b' = cb_failures b" "cb_opened_at b' = cb_opened_at b"
    "cb_failure_threshold b' = cb_failure_threshold b" "cb_recovery_seconds b' = cb_recovery_seconds b"
    "cb_half_open_in_flight b' \<longleftrightarrow> cb_opened_at b \<noteq> None \<or> cb_half_open_in_flight b"
  using assms by (auto simp: begin_call_def split: option.splits if_splits)

lemma begin_call_inv:
  assumes "begin_call (w_now w) (w_breaker w) = Inr b" "breaker_inv n recovery w"
  shows "breaker_inv n recovery (w\<lparr>w_breaker := b, w_running := rs\<rparr>)"
  using assms by (auto simp: breaker_inv_def begin_call_fields)

lemma call_succeeded_inv:
  "breaker_inv n recovery w \<Longrightarrow> 1 \<le> n \<Longrightarrow>
     breaker_inv n recovery (w\<lparr>w_breaker := call_succeeded (w_breaker w), w_running := rs\<rparr>)"
  by (simp add: breaker_inv_def)

lemma call_failed_inv:
  "breaker_inv n recovery w \<Longrightarrow> 1 \<le> n \<Longrightarrow>
     breaker_inv n recovery (w\<lparr>w_breaker := call_failed (w_now w) (w_breaker w), w_running := rs\<rparr>)"
  by (auto simp: breaker_inv_def)

lemma cb_step_inv:
  assumes "cb_step w l w'" "breaker_inv n recovery w" "1 \<le> n"
  shows "breaker_inv n recovery w'"
  using assms(1)
proof (cases rule: cb_step.cases)
  case (tick d)
  with assms show ?thesis by (fastforce simp: breaker_inv_def)
next
  case cancel
  with assms show ?thesis by (auto simp: breaker_inv_def)
qed (use assms in \<open>simp_all add: begin_call_inv call_succeeded_inv call_failed_inv\<close>)

lemma cb_step_failures:
  assumes "cb_step w l w'"
  shows "cb_failures (w_breaker w') = failures_after (cb_failures (w_breaker w)) [l]"
  using assms by (cases rule: cb_step.cases) (simp_all add: begin_call_fields)

lemma cb_run_inv:
  assumes "cb_run w ls w'" "breaker_inv n recovery w" "1 \<le> n"
  shows "breaker_inv n recovery w' \<and>
    cb_failures (w_breaker w') = failures_after (cb_failures (w_breaker w)) ls"
  using assms
proof (induction rule: cb_run.induct)
  case (cb_more w ls w' l w'')
  then have "breaker_inv n recovery w''" using cb_step_inv [OF cb_more.hyps(2)] by simp
  with cb_more show ?case using cb_step_failures [OF cb_more.hyps(2)] by (simp only: failures_after_append simp_thms)
qed simp

lemma make_breaker_inv:
  assumes "make_breaker name n recovery = Inr b"
  shows "breaker_inv n recovery (idle_world b)" "1 \<le> n" "0 < recovery" "cb_failures b = 0"
    "\<not> cb_half_open_in_flight b"
  using assms by (auto simp: make_breaker_def breaker_inv_def idle_world_def split: if_splits)

text \<open>C6. Under every interleaving of concurrent calls, cancellations and time, the breaker is open
  (or half open) exactly when at least \<open>failure_threshold\<close> operations have raised since the last one
  that returned; it counts exactly those, the opening time lies in the past, and the probe flag is
  set only while it is open. A snapshot shows CLOSED exactly below the threshold.\<close>

theorem breaker_counts_failures:
  assumes "make_breaker name n recovery = Inr b" "cb_run (idle_world b) ls w"
  shows "cb_failures (w_breaker w) = failures_after 0 ls \<and>
    (cb_opened_at (w_breaker w) \<noteq> None \<longleftrightarrow> n \<le> failures_after 0 ls) \<and>
    (sn_state (snapshot (w_now w) (w_breaker w)) = cs_closed \<longleftrightarrow> failures_after 0 ls < n) \<and>
    (case sn_opened_for_seconds (snapshot (w_now w) (w_breaker w)) of None \<Rightarrow> True | Some t \<Rightarrow> 0 \<le> t) \<and>
    (cb_half_open_in_flight (w_breaker w) \<longrightarrow> n \<le> failures_after 0 ls)"
proof -
  have inv: "breaker_inv n recovery w" "cb_failures (w_breaker w) = failures_after 0 ls"
    using cb_run_inv [OF assms(2) make_breaker_inv(1,2) [OF assms(1)]] make_breaker_inv(4) [OF assms(1)]
    by (simp_all add: idle_world_def)
  then show ?thesis by (auto simp: breaker_inv_def snapshot_def Let_def split: option.splits)
qed

definition tripped_breaker :: circuit_breaker where
  "tripped_breaker = \<lparr>cb_name = ''feed'', cb_failure_threshold = 1, cb_recovery_seconds = 30, cb_failures = 0,
     cb_opened_at = None, cb_half_open_in_flight = False\<rparr>"

lemma tripped_make: "make_breaker ''feed'' 1 30 = Inr tripped_breaker"
  by (simp add: make_breaker_def tripped_breaker_def)

text \<open>One call that raises, then time: the circuit of threshold one is open.\<close>

definition tripped_world :: "real \<Rightarrow> cb_world" where
  "tripped_world d = \<lparr>w_breaker = call_failed 0 tripped_breaker, w_running = [], w_now = d\<rparr>"

lemma tripped_run:
  assumes "0 \<le> d"
  shows "cb_run (idle_world tripped_breaker) [Admit False, Raise False, Tick d] (tripped_world d)"
proof -
  let ?w1 = "\<lparr>w_breaker = tripped_breaker, w_running = [False], w_now = 0\<rparr>"
  have "cb_run (idle_world tripped_breaker) ([] @ [Admit False]) ?w1"
    by (rule cb_more [OF cb_none]) (simp add: cb_step_simps idle_world_def tripped_breaker_def)
  then have "cb_run (idle_world tripped_breaker) [Admit False, Raise False] (tripped_world 0)"
    by (rule cb_snoc) (auto simp: cb_step_simps tripped_world_def intro: exI [of _ ZeroDivisionError] simp: caught_def)
  then show ?thesis
    by (rule cb_snoc) (use assms in \<open>auto simp: cb_step_simps tripped_world_def\<close>)
qed

theorem breaker_counts_failures_witness:
  "sn_state (snapshot 10 (w_breaker (tripped_world 10))) \<noteq> cs_closed"
  using breaker_counts_failures [OF tripped_make tripped_run [of 10]] by (simp add: tripped_world_def)

section \<open>Recovery\<close>

definition cancel_free :: "cb_label list \<Rightarrow> bool" where
  "cancel_free ls \<longleftrightarrow> (\<forall>p. Cancel p \<notin> set ls)"

lemma cb_step_probe:
  assumes "cb_step w l w'" "\<forall>p. l \<noteq> Cancel p"
    "cb_half_open_in_flight (w_breaker w) \<longrightarrow> True \<in> set (w_running w)"
  shows "cb_half_open_in_flight (w_breaker w') \<longrightarrow> True \<in> set (w_running w')"
  using assms by (cases rule: cb_step.cases) (auto simp: begin_call_fields)

lemma cb_run_probe:
  assumes "cb_run w ls w'" "cancel_free ls"
    "cb_half_open_in_flight (w_breaker w) \<longrightarrow> True \<in> set (w_running w)"
  shows "cb_half_open_in_flight (w_breaker w') \<longrightarrow> True \<in> set (w_running w')"
  using assms
proof (induction rule: cb_run.induct)
  case (cb_more w ls w' l w'')
  then have "cb_half_open_in_flight (w_breaker w') \<longrightarrow> True \<in> set (w_running w')" "\<forall>p. l \<noteq> Cancel p"
    by (auto simp: cancel_free_def)
  with cb_step_probe [OF cb_more.hyps(2)] show ?case by blast
qed simp

text \<open>C9. The breaker recovers: as long as no running call is cancelled, then whenever no call is
  running and the recovery time has passed, the next call is admitted, and if its operation returns
  the circuit is closed with no failures on record.\<close>

theorem breaker_recovers:
  assumes "make_breaker name n recovery = Inr b" "cb_run (idle_world b) ls w" "cancel_free ls"
    and "w_running w = []" "w_now w + recovery \<le> start"
  shows "fst (call start finish (Inr x) (w_breaker w)) = Inr x \<and>
    snapshot finish (snd (call start finish (Inr x) (w_breaker w))) =
      \<lparr>sn_name = cb_name (w_breaker w), sn_state = cs_closed, sn_failure_count = 0,
       sn_opened_for_seconds = None\<rparr>"
proof -
  have "\<not> cb_half_open_in_flight (w_breaker w)"
    using cb_run_probe [OF assms(2,3)] make_breaker_inv(5) [OF assms(1)] assms(4) by (auto simp: idle_world_def)
  moreover have "breaker_inv n recovery w"
    using cb_run_inv [OF assms(2) make_breaker_inv(1,2) [OF assms(1)]] by blast
  ultimately have "\<exists>b'. begin_call start (w_breaker w) = Inr b' \<and> cb_name b' = cb_name (w_breaker w)"
    using assms(5) by (fastforce simp: begin_call_def breaker_inv_def split: option.splits)
  then show ?thesis by (auto simp: call_def snapshot_def call_succeeded_def)
qed

theorem breaker_recovers_witness:
  "sn_state (snapshot 31 (snd (call 30 31 (Inr ()) (w_breaker (tripped_world 0))))) = cs_closed"
  using breaker_recovers [OF tripped_make tripped_run [of 0], of 30 31 "()"]
  by (simp add: cancel_free_def tripped_world_def)

section \<open>Cancellation\<close>

lemma blocked_step:
  assumes "cb_step w l w'" "w_running w = []" "cb_half_open_in_flight (w_breaker w)" "cb_opened_at (w_breaker w) \<noteq> None"
  shows "w_breaker w' = w_breaker w \<and> w_running w' = [] \<and> ((\<exists>e. l = Refuse e) \<or> (\<exists>d. l = Tick d))"
  using assms by (cases rule: cb_step.cases) (auto simp: begin_call_def split: if_splits)

lemma blocked_run:
  assumes "cb_run w ls w'" "w_running w = []" "cb_half_open_in_flight (w_breaker w)" "cb_opened_at (w_breaker w) \<noteq> None"
  shows "w_breaker w' = w_breaker w \<and> w_running w' = [] \<and> (\<forall>p. Admit p \<notin> set ls)"
  using assms
proof (induction rule: cb_run.induct)
  case (cb_more w ls w' l w'')
  then show ?case using blocked_step [OF cb_more.hyps(2)] by auto
qed simp

text \<open>A cancelled probe blocks the circuit for good: the cancellation is not an \<open>Exception\<close>, so
  the probe flag stays set; if no other call was running, then however much time passes no call is
  ever admitted again.\<close>

theorem cancelled_probe_blocks:
  assumes "make_breaker name n recovery = Inr b" "cb_run (idle_world b) ls w"
    and "cb_half_open_in_flight (w_breaker w)" "w_running w = [p]"
    and "cb_step w (Cancel p) w'" "cb_run w' ls' w''"
  shows "(\<forall>q. Admit q \<notin> set ls') \<and> (\<exists>e. begin_call now (w_breaker w'') = Inl (CircuitOpenError e))"
proof -
  have "breaker_inv n recovery w"
    using cb_run_inv [OF assms(2) make_breaker_inv(1,2) [OF assms(1)]] by blast
  then have "cb_opened_at (w_breaker w) \<noteq> None" using assms(3) by (auto simp: breaker_inv_def)
  moreover have "w_breaker w' = w_breaker w" "w_running w' = []"
    using assms(4,5) by (auto simp: cb_step_simps)
  ultimately show ?thesis using blocked_run [OF assms(6)] assms(3)
    by (auto simp: begin_call_def)
qed

definition probing_world :: cb_world where
  "probing_world = (tripped_world 30)\<lparr>w_breaker := (call_failed 0 tripped_breaker)\<lparr>cb_half_open_in_flight := True\<rparr>,
     w_running := [True]\<rparr>"

lemma probing_run:
  "cb_run (idle_world tripped_breaker) [Admit False, Raise False, Tick 30, Admit True] probing_world"
proof -
  have "cb_step (tripped_world 30) (Admit True) probing_world"
    by (simp add: cb_step_simps tripped_world_def probing_world_def begin_call_def call_failed_def tripped_breaker_def)
  from cb_more [OF tripped_run this] show ?thesis by simp
qed

theorem cancelled_probe_blocks_witness:
  "\<exists>e. begin_call 1000 (w_breaker (probing_world\<lparr>w_running := []\<rparr>)) = Inl (CircuitOpenError e)"
  using cancelled_probe_blocks [OF tripped_make probing_run, of True "probing_world\<lparr>w_running := []\<rparr>" "[]"
    "probing_world\<lparr>w_running := []\<rparr>" 1000]
  by (simp add: probing_world_def cb_step_simps cb_none)

text \<open>The flag admits one probe at a time only when every running call is a probe: an ordinary call
  that was admitted before the circuit opened and raises during a probe clears the flag, and after
  the recovery time a second probe runs beside the first.\<close>

lemma two_probes:
  assumes "cb_run w ls w'" "w_running w' = [True, False]" "cb_opened_at (w_breaker w') = Some t"
    and "cb_failure_threshold (w_breaker w') \<le> cb_failures (w_breaker w') + 1"
    and "0 < cb_recovery_seconds (w_breaker w')"
  shows "\<exists>w''. cb_run w (ls @ [Raise False, Tick (cb_recovery_seconds (w_breaker w')), Admit True]) w'' \<and>
    w_running w'' = [True, True]"
proof -
  let ?b = "call_failed (w_now w') (w_breaker w')" and ?r = "cb_recovery_seconds (w_breaker w')"
  have "cb_run w (ls @ [Raise False]) (w'\<lparr>w_breaker := ?b, w_running := [True]\<rparr>)"
    using assms(2) by (auto simp: cb_step_simps caught_def intro!: cb_snoc [OF assms(1)] exI [of _ ZeroDivisionError])
  then have "cb_run w (ls @ [Raise False, Tick ?r]) (w'\<lparr>w_breaker := ?b, w_running := [True], w_now := w_now w' + ?r\<rparr>)"
    by (rule cb_snoc) (use assms(5) in \<open>auto simp: cb_step_simps\<close>)
  then have "cb_run w (ls @ [Raise False, Tick ?r, Admit True])
      (w'\<lparr>w_breaker := ?b\<lparr>cb_half_open_in_flight := True\<rparr>, w_running := [True, True], w_now := w_now w' + ?r\<rparr>)"
    by (rule cb_snoc) (use assms(4) in \<open>simp_all add: cb_step_simps begin_call_def\<close>)
  then show ?thesis by (intro exI conjI) auto
qed

end
