(* ===== verification/Claim_Text.thy ===== *)
theory Claim_Text
  imports Guardrails Json_Text
begin

text \<open>
  The text processing of the verification service (\<open>verification/service.py\<close>): the regular
  expressions that split and tokenize text, written as scanners, the canonical form of a claim, and
  the chunks of a document. Text is ASCII, as everywhere in the development.
\<close>

section \<open>Python's string operations\<close>

definition lower_char :: "char \<Rightarrow> char" where
  "lower_char c = (let n = of_char c :: nat in if 65 \<le> n \<and> n \<le> 90 then char_of (n + 32) else c)"

definition lower :: "string \<Rightarrow> string" where
  "lower s = map lower_char s"

text \<open>\<open>s.strip()\<close> and \<open>s.strip(chars)\<close>.\<close>

definition strip_by :: "(char \<Rightarrow> bool) \<Rightarrow> string \<Rightarrow> string" where
  "strip_by P s = rev (dropWhile P (rev (dropWhile P s)))"

abbreviation strip :: "string \<Rightarrow> string" where
  "strip \<equiv> strip_by is_space"

text \<open>\<open>s.splitlines()\<close>: a carriage return and a line feed end one line together.\<close>

definition is_line_end :: "char \<Rightarrow> bool" where
  "is_line_end c \<longleftrightarrow> (let n = of_char c :: nat in (10 \<le> n \<and> n \<le> 13) \<or> (28 \<le> n \<and> n \<le> 30))"

fun splitlines_from :: "string \<Rightarrow> string \<Rightarrow> string list" where
  "splitlines_from cur [] = (if cur = [] then [] else [cur])"
| "splitlines_from cur (c # cs) =
    (if of_char c = (13 :: nat) \<and> cs \<noteq> [] \<and> of_char (hd cs) = (10 :: nat)
     then cur # splitlines_from [] (tl cs)
     else if is_line_end c then cur # splitlines_from [] cs
     else splitlines_from (cur @ [c]) cs)"

definition splitlines :: "string \<Rightarrow> string list" where
  "splitlines s = splitlines_from [] s"

section \<open>Tokens\<close>

text \<open>\<open>_TOKEN = [a-z0-9][a-z0-9_-]+\<close>: leftmost matches, each as long as possible.\<close>

definition token_start :: "char \<Rightarrow> bool" where
  "token_start c \<longleftrightarrow> is_digit c \<or> (let n = of_char c :: nat in 97 \<le> n \<and> n \<le> 122)"

definition token_char :: "char \<Rightarrow> bool" where
  "token_char c \<longleftrightarrow> token_start c \<or> c = CHR ''_'' \<or> c = CHR ''-''"

function tokens :: "string \<Rightarrow> string list" where
  "tokens [] = []"
| "tokens (c # cs) =
    (if token_start c \<and> takeWhile token_char cs \<noteq> []
     then (c # takeWhile token_char cs) # tokens (dropWhile token_char cs)
     else tokens cs)"
  by pat_completeness auto
termination
  by (relation "measure length") (auto simp: le_imp_less_Suc length_dropWhile_le)

text \<open>The maximal runs of characters that satisfy \<open>P\<close>.\<close>

function runs :: "(char \<Rightarrow> bool) \<Rightarrow> string \<Rightarrow> string list" where
  "runs P [] = []"
| "runs P (c # cs) = (if P c then (c # takeWhile P cs) # runs P (dropWhile P cs) else runs P cs)"
  by pat_completeness auto
termination
  by (relation "measure (length \<circ> snd)") (auto simp: le_imp_less_Suc length_dropWhile_le)

text \<open>\<open>\b\d+(?:\.\d+)?\b\<close> on tokens joined by spaces. Such a text holds no full stop
  (\<open>joined_chars\<close>), so the optional group never matches, and the matches are the runs of word
  characters that hold digits only.\<close>

definition word_char :: "char \<Rightarrow> bool" where
  "word_char c \<longleftrightarrow> token_start c \<or> c = CHR ''_''"

definition amounts_in :: "string \<Rightarrow> string list" where
  "amounts_in lowered = filter (list_all is_digit) (runs word_char lowered)"

definition negations :: "string list" where
  "negations = [''no'', ''not'', ''never'', ''denies'', ''denied'', ''false'', ''without'']"

definition stopwords :: "string list" where
  "stopwords = [''about'', ''after'', ''from'', ''have'', ''that'', ''this'', ''with'', ''will'']"

definition is_negated :: "string \<Rightarrow> bool" where
  "is_negated text = list_ex (\<lambda>t. t \<in> set negations) (tokens (lower text))"

definition similarity :: "string \<Rightarrow> string \<Rightarrow> real" where
  "similarity left right =
    (let l = set (filter (\<lambda>t. t \<notin> set stopwords) (tokens (lower left)));
         r = set (filter (\<lambda>t. t \<notin> set stopwords) (tokens (lower right)))
     in if l = {} \<or> r = {} then 0 else real (card (l \<inter> r)) / real (card (l \<union> r)))"

section \<open>Canonical claims\<close>

record canonical_claim =
  cn_subject :: string
  cn_claim_type :: string
  cn_polarity :: string
  cn_amounts :: "string list"
  cn_content_tokens :: "string list"

definition claim_type_of :: "string list \<Rightarrow> string" where
  "claim_type_of ts =
    (if ''contract'' \<in> set ts \<or> ''award'' \<in> set ts then ''CONTRACT_AWARD''
     else if ''promoter'' \<in> set ts \<and> (\<exists>w \<in> {''buy'', ''bought'', ''purchase''}. w \<in> set ts)
     then ''INSIDER_PURCHASE''
     else if sublist ''earning'' (join '' '' ts) \<or> ''results'' \<in> set ts then ''EARNINGS_FORECAST''
     else if ''listing'' \<in> set ts then ''EXCHANGE_LISTING''
     else if ''partnership'' \<in> set ts then ''PARTNERSHIP''
     else ''OTHER'')"

definition canonical_claim_of :: "string \<Rightarrow> string \<Rightarrow> canonical_claim" where
  "canonical_claim_of asset text =
    (let ts = tokens (lower text)
     in \<lparr>cn_subject = upper asset, cn_claim_type = claim_type_of ts,
         cn_polarity = (if is_negated text then ''NEGATIVE'' else ''POSITIVE''),
         cn_amounts = amounts_in (join '' '' ts),
         cn_content_tokens = sort (filter (\<lambda>t. t \<notin> set stopwords \<and> t \<notin> set negations) ts)\<rparr>)"

text \<open>\<open>json.dumps(canonical, sort_keys=True, separators=(",", ":"))\<close>.\<close>

definition json_array :: "string list \<Rightarrow> string" where
  "json_array xs = ''['' @ join '','' (map json_string xs) @ '']''"

definition canonical_json :: "canonical_claim \<Rightarrow> string" where
  "canonical_json c = json_object
    [(''amounts'', json_array (cn_amounts c)), (''claim_type'', json_string (cn_claim_type c)),
     (''content_tokens'', json_array (cn_content_tokens c)), (''polarity'', json_string (cn_polarity c)),
     (''subject'', json_string (cn_subject c))]"

section \<open>Sentences and clauses\<close>

text \<open>\<open>_SENTENCE.split\<close>: white space after a full stop, an exclamation mark or a question mark.\<close>

definition ends_sentence :: "char \<Rightarrow> bool" where
  "ends_sentence c \<longleftrightarrow> c \<in> {CHR ''.'', CHR ''!'', CHR ''?''}"

function sentences_from :: "string \<Rightarrow> string \<Rightarrow> string list" where
  "sentences_from cur [] = [cur]"
| "sentences_from cur (c # cs) =
    (if is_space c \<and> cur \<noteq> [] \<and> ends_sentence (last cur)
     then cur # sentences_from [] (dropWhile is_space cs)
     else sentences_from (cur @ [c]) cs)"
  by pat_completeness auto
termination
  by (relation "measure (length \<circ> snd)") (simp_all add: le_imp_less_Suc length_dropWhile_le)

definition sentences :: "string \<Rightarrow> string list" where
  "sentences s = sentences_from [] s"

text \<open>\<open>_CLAIM_BOUNDARY.split\<close>: a semicolon with the white space after it, or a conjunction between
  white space, in any case.\<close>

definition conjunctions :: "string list" where
  "conjunctions = [''and'', ''but'', ''while'']"

definition starts_conjunction :: "string \<Rightarrow> string \<Rightarrow> bool" where
  "starts_conjunction s w \<longleftrightarrow> lower (take (length w) s) = w \<and> drop (length w) s \<noteq> [] \<and>
     is_space (hd (drop (length w) s))"

definition conjunction_rest :: "string \<Rightarrow> string option" where
  "conjunction_rest s = map_option (\<lambda>w. dropWhile is_space (drop (length w) s))
     (find (starts_conjunction s) conjunctions)"

lemma conjunction_rest_length: "conjunction_rest s = Some t \<Longrightarrow> length t < length s"
proof -
  assume "conjunction_rest s = Some t"
  then obtain w where w: "starts_conjunction s w" "w \<in> set conjunctions"
    "t = dropWhile is_space (drop (length w) s)"
    by (auto simp: conjunction_rest_def find_Some_iff in_set_conv_nth)
  have "length (take (length w) s) = length w" using w(1) unfolding starts_conjunction_def by (metis length_map lower_def)
  then have "length w \<le> length s" by simp
  moreover have "length t \<le> length s - length w" using w(3) by (metis length_drop length_dropWhile_le)
  moreover have "w \<noteq> []" using w(2) by (auto simp: conjunctions_def)
  ultimately show ?thesis by (cases w) auto
qed

function clauses_from :: "string \<Rightarrow> string \<Rightarrow> string list" where
  "clauses_from cur [] = [cur]"
| "clauses_from cur (c # cs) =
    (if c = CHR '';'' then cur # clauses_from [] (dropWhile is_space cs)
     else if is_space c then
       (case conjunction_rest (dropWhile is_space cs) of
          Some rest \<Rightarrow> cur # clauses_from [] rest
        | None \<Rightarrow> clauses_from (cur @ [c]) cs)
     else clauses_from (cur @ [c]) cs)"
  by pat_completeness auto
termination
  by (relation "measure (length \<circ> snd)")
    (auto simp: le_imp_less_Suc length_dropWhile_le dest: conjunction_rest_length
      intro: less_le_trans [OF _ le_SucI [OF length_dropWhile_le]])

definition clauses :: "string \<Rightarrow> string list" where
  "clauses s = clauses_from [] s"

text \<open>The candidate claims of a summary: its clauses with at least three tokens. The tokens are
  counted on the text as it is, so capital letters separate them.\<close>

definition strip_comma :: "string \<Rightarrow> string" where
  "strip_comma = strip_by (\<lambda>c. c = CHR '' '' \<or> c = CHR '','')"

definition claim_candidates :: "string \<Rightarrow> string list" where
  "claim_candidates summary =
    (let found = map strip_comma (filter (\<lambda>part. 3 \<le> length (tokens part))
           (concat (map clauses (sentences summary))))
     in if found = [] \<and> strip summary \<noteq> [] then [strip summary] else found)"

section \<open>Chunks\<close>

definition paragraphs_of :: "string \<Rightarrow> string list" where
  "paragraphs_of body =
    (let ps = filter (\<lambda>p. p \<noteq> []) (map strip (splitlines body))
     in if ps = [] then [strip body] else ps)"

text \<open>\<open>current\<close> is the chunk being filled.\<close>

fun pack :: "int \<Rightarrow> string \<Rightarrow> string list \<Rightarrow> string list" where
  "pack limit cur [] = (if cur \<noteq> [] then [cur] else [])"
| "pack limit cur (p # ps) =
    (if cur \<noteq> [] \<and> int (length cur) + int (length p) + 1 > limit then cur # pack limit p ps
     else pack limit (strip (cur @ ''\<newline>'' @ p)) ps)"

definition chunk_texts :: "int \<Rightarrow> string \<Rightarrow> string list" where
  "chunk_texts limit body = pack limit [] (paragraphs_of body)"

section \<open>Facts about text\<close>

abbreviation line_feed :: string where
  "line_feed \<equiv> ''\<newline>''"

lemma join_Nil [simp]: "join sep [] = []"
  by (simp add: join_def)

lemma join_single [simp]: "join sep [x] = x"
  by (simp add: join_def)

lemma join_Cons: "ys \<noteq> [] \<Longrightarrow> join sep (x # ys) = x @ sep @ join sep ys"
  by (cases ys) (simp_all add: join_def)

lemma join_snoc: "xs \<noteq> [] \<Longrightarrow> join sep (xs @ [p]) = join sep xs @ sep @ p"
  by (cases xs) (simp_all add: join_def)

lemma set_join: "set (join sep xs) \<subseteq> set sep \<union> \<Union> (set ` set xs)"
  by (cases xs) (auto simp: join_def)

definition stripped :: "string \<Rightarrow> bool" where
  "stripped s \<longleftrightarrow> s \<noteq> [] \<and> \<not> is_space (hd s) \<and> \<not> is_space (last s)"

lemma dropWhile_hd: "s = [] \<or> \<not> P (hd s) \<Longrightarrow> dropWhile P s = s"
  by (cases s) auto

lemma strip_stripped: "stripped s \<Longrightarrow> strip s = s"
  by (simp add: strip_by_def stripped_def dropWhile_hd hd_rev)

lemma last_dropWhile: "dropWhile P xs \<noteq> [] \<Longrightarrow> last (dropWhile P xs) = last xs"
  by (induction xs) (auto split: if_splits)

lemma stripped_strip: "strip s \<noteq> [] \<Longrightarrow> stripped (strip s)"
proof -
  assume ne: "strip s \<noteq> []"
  let ?t = "dropWhile is_space s" and ?r = "rev (dropWhile is_space (rev (dropWhile is_space s)))"
  have r: "strip s = ?r" by (simp add: strip_by_def)
  have "?t \<noteq> []"
  proof
    assume "?t = []"
    then have "strip s = []" unfolding strip_by_def by (simp only: rev.simps dropWhile.simps)
    with ne show False ..
  qed
  then have "\<not> is_space (hd ?t)" using hd_dropWhile [of is_space s] by blast
  moreover have tail: "dropWhile is_space (rev ?t) \<noteq> []" using ne unfolding r rev_is_Nil_conv .
  then have "last (dropWhile is_space (rev ?t)) = hd ?t"
    using last_dropWhile [OF tail] last_rev [of ?t] \<open>?t \<noteq> []\<close> by simp
  moreover have "\<not> is_space (hd (dropWhile is_space (rev ?t)))" using tail by (rule hd_dropWhile)
  ultimately show ?thesis using ne by (simp add: r stripped_def hd_rev last_rev)
qed

lemma stripped_join:
  assumes "stripped a" "stripped b"
  shows "stripped (a @ CHR 0x0A # b)"
  using assms by (cases a) (auto simp: stripped_def)

lemma stripped_joins: "g \<noteq> [] \<Longrightarrow> list_all stripped g \<Longrightarrow> stripped (join line_feed g)"
proof (induction g)
  case (Cons p g)
  then show ?case by (cases "g = []") (simp_all add: join_Cons stripped_join)
qed simp

lemma is_space_line_feed [simp]: "is_space (CHR 0x0A)"
  by (simp add: is_space_def)

lemma strip_join_snoc:
  assumes "list_all stripped g" "stripped p"
  shows "strip (join line_feed g @ line_feed @ p) = join line_feed (g @ [p])"
proof (cases "g = []")
  case True
  have "\<not> is_space (hd p)" "p \<noteq> []" using assms(2) by (auto simp: stripped_def)
  then have "dropWhile is_space (CHR 0x0A # p) = p" by (simp add: dropWhile_hd)
  with strip_stripped [OF assms(2)] True show ?thesis by (simp add: strip_by_def dropWhile_hd \<open>\<not> is_space (hd p)\<close>)
next
  case False
  have "stripped (join line_feed (g @ [p]))" using assms by (intro stripped_joins) auto
  then show ?thesis using strip_stripped False by (simp add: join_snoc)
qed

text \<open>A group of paragraphs that makes one chunk.\<close>

definition fits :: "int \<Rightarrow> string list \<Rightarrow> bool" where
  "fits limit g \<longleftrightarrow> length g = 1 \<or> int (length (join line_feed g)) \<le> limit"

lemma pack_groups:
  assumes "list_all stripped g" "list_all stripped ps" "g \<noteq> [] \<longrightarrow> fits limit g"
  shows "\<exists>gs. pack limit (join line_feed g) ps = map (join line_feed) gs \<and> concat gs = g @ ps \<and>
    list_all (\<lambda>h. h \<noteq> [] \<and> fits limit h) gs"
  using assms
proof (induction ps arbitrary: g)
  case Nil
  show ?case
  proof (cases "g = []")
    case True
    then show ?thesis by (intro exI [of _ "[]"]) simp
  next
    case False
    then have "join line_feed g \<noteq> []" using stripped_joins [of g] Nil by (auto simp: stripped_def)
    then show ?thesis using Nil False by (intro exI [of _ "[g]"]) simp
  qed
next
  case (Cons p ps)
  let ?cur = "join line_feed g"
  have cur: "?cur \<noteq> [] \<longleftrightarrow> g \<noteq> []" using stripped_joins [of g] Cons.prems(1) by (auto simp: stripped_def)
  show ?case
  proof (cases "?cur \<noteq> [] \<and> int (length ?cur) + int (length p) + 1 > limit")
    case True
    obtain gs where "pack limit (join line_feed [p]) ps = map (join line_feed) gs" "concat gs = [p] @ ps"
      "list_all (\<lambda>h. h \<noteq> [] \<and> fits limit h) gs"
      using Cons.IH [of "[p]"] Cons.prems by (auto simp: fits_def)
    then show ?thesis using True cur Cons.prems by (intro exI [of _ "g # gs"]) simp
  next
    case False
    have fit: "fits limit (g @ [p])"
      using False cur by (cases "g = []") (auto simp: fits_def join_snoc)
    have strip: "strip (?cur @ line_feed @ p) = join line_feed (g @ [p])"
      using Cons.prems by (intro strip_join_snoc) auto
    from fit Cons.IH [of "g @ [p]"] Cons.prems obtain gs where
      "pack limit (join line_feed (g @ [p])) ps = map (join line_feed) gs" "concat gs = g @ p # ps"
      "list_all (\<lambda>h. h \<noteq> [] \<and> fits limit h) gs" by auto
    with False strip show ?thesis by (intro exI [of _ gs]) auto
  qed
qed

section \<open>Canonical claims are determined by their text\<close>

lemma json_items_Cons:
  "join '','' (map json_string (x # xs)) @ '']'' @ u =
     json_string x @ (if xs = [] then '']'' @ u else '','' @ join '','' (map json_string xs) @ '']'' @ u)"
  by (cases xs) (simp_all add: join_Cons)

lemma json_string_hd: "json_string s @ x \<noteq> CHR '']'' # u" "CHR '']'' # u \<noteq> json_string s @ x"
  by (simp_all add: json_string_def quote_def)

lemma json_items_inject:
  "join '','' (map json_string xs) @ '']'' @ u = join '','' (map json_string ys) @ '']'' @ v \<Longrightarrow> xs = ys \<and> u = v"
proof (induction xs arbitrary: ys)
  case Nil
  show ?case
  proof (cases ys)
    case (Cons y ys')
    with Nil.prems show ?thesis unfolding Cons json_items_Cons by (simp add: json_string_hd)
  qed (use Nil.prems in simp)
next
  case (Cons x xs)
  show ?case
  proof (cases ys)
    case Nil
    with Cons.prems show ?thesis unfolding json_items_Cons by (simp add: json_string_hd)
  next
    case ys: (Cons y ys')
    from Cons.prems have "x = y"
      "(if xs = [] then '']'' @ u else '','' @ join '','' (map json_string xs) @ '']'' @ u) =
       (if ys' = [] then '']'' @ v else '','' @ join '','' (map json_string ys') @ '']'' @ v)"
      unfolding ys json_items_Cons json_string_inject by blast+
    moreover from this(2) have "xs = ys' \<and> u = v" using Cons.IH [of ys'] by (auto split: if_splits)
    ultimately show ?thesis using ys by simp
  qed
qed

lemma json_array_inject: "json_array xs @ u = json_array ys @ v \<Longrightarrow> xs = ys \<and> u = v"
  unfolding json_array_def using json_items_inject by fastforce

lemma canonical_json_inject:
  assumes "canonical_json c = canonical_json d"
  shows "c = d"
proof -
  have "canonical_json c = ''{'' @ json_string ''amounts'' @ '':'' @ json_array (cn_amounts c) @
      ('','' @ json_string ''claim_type'' @ '':'' @ json_string (cn_claim_type c) @
      ('','' @ json_string ''content_tokens'' @ '':'' @ json_array (cn_content_tokens c) @
      ('','' @ json_string ''polarity'' @ '':'' @ json_string (cn_polarity c) @
      ('','' @ json_string ''subject'' @ '':'' @ json_string (cn_subject c) @ ''}''))))" for c
    by (simp only: canonical_json_def json_object_def json_fields_def join_def list.map prod.case
        list.case append_assoc concat.simps append_Nil2)
  note shape = this
  note assms' = assms [unfolded shape same_append_eq]
  from json_array_inject [OF assms'] have 1: "cn_amounts c = cn_amounts d" by blast
  note r1 = json_array_inject [OF assms', THEN conjunct2, unfolded same_append_eq json_string_inject]
  then have 2: "cn_claim_type c = cn_claim_type d" by blast
  note r2 = json_array_inject [OF r1 [THEN conjunct2, unfolded same_append_eq]]
  then have 3: "cn_content_tokens c = cn_content_tokens d" by blast
  from r2 [THEN conjunct2, unfolded same_append_eq json_string_inject]
  have "cn_polarity c = cn_polarity d" "cn_subject c = cn_subject d" by simp_all
  with 1 2 3 show ?thesis by simp
qed

section \<open>Amounts\<close>

lemma token_start_char: "token_start c \<Longrightarrow> token_char c"
  by (simp add: token_char_def)

lemma tokens_chars: "t \<in> set (tokens s) \<Longrightarrow> list_all token_char t"
proof (induction s rule: tokens.induct)
  case (2 c cs)
  then show ?case
    by (auto simp: list_all_iff token_start_char split: if_splits dest: set_takeWhileD)
qed simp

lemma joined_chars: "c \<in> set (join '' '' (tokens s)) \<Longrightarrow> token_char c \<or> c = CHR '' ''"
  using set_join [of "'' ''" "tokens s"] tokens_chars [of _ s] by (force simp: list_all_iff)

text \<open>No text of joined tokens holds a full stop, so an amount never has a fraction: the digits
  before and after the point of a decimal number are amounts of their own, and single digits are
  no amounts at all.\<close>

lemma joined_no_stop: "CHR ''.'' \<notin> set (join '' '' (tokens s))"
  using joined_chars [of "CHR ''.''" s] by (auto simp: token_char_def token_start_def is_digit_def)

lemma decimal_amounts:
  "cn_amounts (canonical_claim_of ''ACME'' ''contract of 10.25 crore in 5 years'') = [''10'', ''25'']"
  by code_simp

lemma amounts_digits: "a \<in> set (cn_amounts (canonical_claim_of asset text)) \<Longrightarrow> list_all is_digit a"
  by (simp add: canonical_claim_of_def amounts_in_def Let_def)

lemma similarity_unit: "unit_range (similarity l r)"
proof -
  have "unit_range (real (card (A \<inter> B)) / real (card (A \<union> B)))" if "finite A" "finite B" for A B :: "string set"
  proof -
    have "card (A \<inter> B) \<le> card (A \<union> B)" using that by (intro card_mono) auto
    then show ?thesis by (auto simp: unit_range_def divide_le_eq_1)
  qed
  then show ?thesis unfolding similarity_def Let_def by (simp del: set_filter)
qed

end
