(* ===== verification/Disclosures.thy ===== *)
theory Disclosures
  imports Claim_Text "HOL-Library.AList"
begin

text \<open>
  Disclosure documents (\<open>verification/schemas.py\<close>), the in-memory verification repository
  (\<open>verification/repository.py\<close>) and the ingestion of documents (\<open>DisclosureIngestionService\<close> in
  \<open>verification/service.py\<close>). The embedding provider and the vector index are parameters; each
  call of theirs can raise.
\<close>

section \<open>Documents\<close>

record disclosure_document =
  dd_disclosure_id :: uuid
  dd_source :: string
  dd_source_document_id :: string
  dd_asset_id :: "string option"
  dd_title :: string
  dd_body :: string
  dd_url :: "string option"
  dd_published_at :: datetime
  dd_retrieved_at :: datetime
  dd_first_observed_at :: "datetime option"
  dd_ingested_at :: "datetime option"
  dd_available_at :: "datetime option"
  dd_document_version :: int
  dd_supersedes :: "uuid option"
  dd_source_policy_version :: string
  dd_reliability :: real
  dd_content_hash :: string
  dd_source_policy_id :: "uuid option"
  dd_connector_run_id :: "uuid option"
  dd_source_document_key :: "string option"
  dd_logical_source_key :: "string option"
  dd_version_status :: string
  dd_etag :: "string option"
  dd_last_modified :: "string option"
  dd_signature_metadata :: "(string \<times> py_value) list"

record disclosure_chunk =
  ch_chunk_id :: uuid
  ch_disclosure_id :: uuid
  ch_chunk_index :: nat
  ch_text :: string
  ch_token_count :: nat
  ch_embedding_version :: string
  ch_metadata :: "(string \<times> string) list"

record disclosure_candidate =
  dc_chunk_id :: uuid
  dc_disclosure_id :: uuid
  dc_source :: string
  dc_source_document_id :: string
  dc_title :: string
  dc_text :: string
  dc_published_at :: datetime
  dc_first_observed_at :: datetime
  dc_ingested_at :: datetime
  dc_available_at :: datetime
  dc_document_version :: int
  dc_source_policy_version :: string
  dc_reliability :: real
  dc_source_policy_id :: "uuid option"
  dc_trust_tier :: string
  dc_trust_rationale :: "string option"
  dc_license_snapshot :: "(string \<times> py_value) list"

text \<open>\<open>x or y\<close> on an optional string; the empty string counts as missing.\<close>

definition or_str :: "string option \<Rightarrow> string \<Rightarrow> string" where
  "or_str x y = (case x of None \<Rightarrow> y | Some s \<Rightarrow> if s = [] then y else s)"

definition logical_key :: "disclosure_document \<Rightarrow> string" where
  "logical_key d = or_str (dd_logical_source_key d) (or_str (dd_source_policy_id d) (dd_source d))"

definition document_key :: "disclosure_document \<Rightarrow> string" where
  "document_key d = or_str (dd_source_document_key d) (dd_source_document_id d)"

definition observed_at :: "disclosure_document \<Rightarrow> datetime" where
  "observed_at d = (case dd_first_observed_at d of None \<Rightarrow> dd_retrieved_at d | Some t \<Rightarrow> t)"

definition ingested_at :: "disclosure_document \<Rightarrow> datetime" where
  "ingested_at d = (case dd_ingested_at d of None \<Rightarrow> dd_retrieved_at d | Some t \<Rightarrow> t)"

section \<open>The in-memory repository\<close>

text \<open>\<open>documents\<close> is a dictionary in insertion order; \<open>verifications\<close> and \<open>outbox\<close> of the class are
  in \<open>Verification\<close>, which holds what they store.\<close>

type_synonym stored_document = "disclosure_document \<times> disclosure_chunk list"
type_synonym documents = "(string \<times> stored_document) list"

definition disclosure_slot :: "disclosure_document \<Rightarrow> string" where
  "disclosure_slot d = dd_source d @ '':'' @ dd_source_document_id d @ '':'' @ show_int (dd_document_version d)"

definition persist_disclosure ::
    "disclosure_document \<Rightarrow> disclosure_chunk list \<Rightarrow> documents \<Rightarrow> bool \<times> documents" where
  "persist_disclosure d chunks docs =
    (if map_of docs (disclosure_slot d) \<noteq> None then (False, docs)
     else (True, AList.update (disclosure_slot d) (d, chunks) docs))"

text \<open>\<open>max(versions, key=version)\<close>: the first of the documents with the highest version.\<close>

definition higher_version :: "stored_document \<Rightarrow> stored_document \<Rightarrow> stored_document" where
  "higher_version d best = (if dd_document_version (fst best) < dd_document_version (fst d) then d else best)"

definition latest_version :: "stored_document list \<Rightarrow> stored_document option" where
  "latest_version ds = (case ds of [] \<Rightarrow> None | d # rest \<Rightarrow> Some (fold higher_version rest d))"

definition versions_of :: "string \<Rightarrow> string \<Rightarrow> documents \<Rightarrow> stored_document list" where
  "versions_of logical document docs =
     filter (\<lambda>(d, _). logical_key d = logical \<and> document_key d = document) (map snd docs)"

definition version_slot :: "string \<Rightarrow> string \<Rightarrow> int \<Rightarrow> string" where
  "version_slot logical document version = logical @ '':'' @ document @ '':'' @ show_int version"

definition next_version :: "stored_document option \<Rightarrow> int" where
  "next_version latest = (case latest of None \<Rightarrow> 1 | Some (d, _) \<Rightarrow> dd_document_version d + 1)"

text \<open>The document as it is stored; \<open>now\<close> is read when the time stamps are not preserved.\<close>

definition prepare_version ::
    "py_env \<Rightarrow> datetime \<Rightarrow> bool \<Rightarrow> stored_document option \<Rightarrow> disclosure_document \<Rightarrow> disclosure_document" where
  "prepare_version env now preserve latest d =
    (let version = next_version latest;
         observed = observed_at d;
         ingested = (if preserve then ingested_at d else now)
     in d\<lparr>dd_disclosure_id := env_uuid5 env (''official-disclosure:'' @ logical_key d @ '':'' @ document_key d
            @ '':'' @ show_int version @ '':'' @ dd_content_hash d),
          dd_logical_source_key := Some (logical_key d), dd_source_document_key := Some (document_key d),
          dd_document_version := version,
          dd_supersedes := map_option (\<lambda>(l, _). dd_disclosure_id l) latest,
          dd_first_observed_at := Some observed, dd_ingested_at := Some ingested,
          dd_available_at := Some (max observed ingested)\<rparr>)"

definition supersede :: "uuid \<Rightarrow> documents \<Rightarrow> documents" where
  "supersede i docs = map (\<lambda>(k, d, chunks).
     (k, if dd_disclosure_id d = i then d\<lparr>dd_version_status := ''SUPERSEDED''\<rparr> else d, chunks)) docs"

definition persist_versioned_disclosure ::
    "py_env \<Rightarrow> datetime \<Rightarrow> (disclosure_document \<Rightarrow> disclosure_chunk list) \<Rightarrow> bool \<Rightarrow> disclosure_document
      \<Rightarrow> documents \<Rightarrow> disclosure_document option \<times> documents" where
  "persist_versioned_disclosure env now chunks_for preserve d docs =
    (let latest = latest_version (versions_of (logical_key d) (document_key d) docs)
     in if (case latest of None \<Rightarrow> False | Some (l, _) \<Rightarrow> dd_content_hash l = dd_content_hash d)
        then (None, docs)
        else
          let prepared = prepare_version env now preserve latest d;
              docs1 = (case latest of None \<Rightarrow> docs | Some (l, _) \<Rightarrow> supersede (dd_disclosure_id l) docs)
          in (Some prepared, AList.update
                (version_slot (logical_key d) (document_key d) (dd_document_version prepared))
                (prepared, chunks_for prepared) docs1))"

section \<open>Candidates\<close>

definition availability :: "disclosure_document \<Rightarrow> datetime" where
  "availability d = (case dd_available_at d of None \<Rightarrow> dd_retrieved_at d | Some t \<Rightarrow> t)"

definition candidate_of :: "disclosure_document \<Rightarrow> disclosure_chunk \<Rightarrow> disclosure_candidate" where
  "candidate_of d c = \<lparr>dc_chunk_id = ch_chunk_id c, dc_disclosure_id = dd_disclosure_id d,
     dc_source = dd_source d, dc_source_document_id = dd_source_document_id d, dc_title = dd_title d,
     dc_text = ch_text c, dc_published_at = dd_published_at d, dc_first_observed_at = observed_at d,
     dc_ingested_at = ingested_at d,
     dc_available_at = (case dd_available_at d of None \<Rightarrow> max (observed_at d) (ingested_at d) | Some t \<Rightarrow> t),
     dc_document_version = dd_document_version d, dc_source_policy_version = dd_source_policy_version d,
     dc_reliability = dd_reliability d, dc_source_policy_id = dd_source_policy_id d,
     dc_trust_tier = ''UNSPECIFIED'', dc_trust_rationale = None, dc_license_snapshot = []\<rparr>"

definition group_keys :: "documents \<Rightarrow> (string \<times> string) list" where
  "group_keys docs = first_occurrences (map (\<lambda>(_, d, _). (logical_key d, document_key d)) docs)"

text \<open>Of the versions of one document, the latest that was available at the alert, and all that
  became available after it.\<close>

definition select_versions :: "datetime \<Rightarrow> stored_document list \<Rightarrow> stored_document list" where
  "select_versions alert_time versions =
    (case latest_version (filter (\<lambda>(d, _). availability d \<le> alert_time) versions) of
       None \<Rightarrow> [] | Some v \<Rightarrow> [v]) @
    filter (\<lambda>(d, _). availability d > alert_time) versions"

definition relevant :: "string \<Rightarrow> datetime \<Rightarrow> datetime \<Rightarrow> disclosure_document \<Rightarrow> bool" where
  "relevant asset earliest_at latest_at d \<longleftrightarrow> (dd_asset_id d = None \<or> dd_asset_id d = Some asset) \<and>
     earliest_at \<le> dd_published_at d \<and> dd_published_at d \<le> latest_at"

definition days :: "int \<Rightarrow> timedelta" where
  "days n = seconds (86400 * n)"

text \<open>Sorting by \<open>(published_at, str(chunk_id))\<close> is a stable sort by the second component followed
  by one by the first.\<close>

definition candidates :: "documents \<Rightarrow> string \<Rightarrow> datetime \<Rightarrow> int \<Rightarrow> int \<Rightarrow> disclosure_candidate list" where
  "candidates docs asset alert_time lookback_days future_days =
    (let selected = concat (map (\<lambda>(l, k). select_versions alert_time (versions_of l k docs)) (group_keys docs));
         results = concat (map (\<lambda>(d, chunks).
           if relevant asset (alert_time - days lookback_days) (alert_time + days future_days) d
           then map (candidate_of d) chunks else []) selected)
     in sort_key dc_published_at (sort_key dc_chunk_id results))"

section \<open>Ingestion\<close>

text \<open>The vector index: what a point identifier holds. \<open>embed\<close> and \<open>upsert_fault\<close> answer for the
  embedding provider and the index.\<close>

record 'v disclosure_env =
  ie_env :: py_env
  ie_chunk_characters :: int
  ie_embedding_version :: string
  ie_embed :: "string \<Rightarrow> 'v res"
  ie_upsert_fault :: "uuid \<Rightarrow> py_exn option"

record 'v disclosure_state =
  is_documents :: documents
  is_index :: "(uuid \<times> 'v \<times> (string \<times> py_value) list) list"

definition chunks_of :: "'v disclosure_env \<Rightarrow> disclosure_document \<Rightarrow> disclosure_chunk list" where
  "chunks_of ie d = map (\<lambda>(i, text).
     \<lparr>ch_chunk_id = env_uuid5 (ie_env ie) (''disclosure-chunk:'' @ dd_disclosure_id d @ '':'' @ show_nat i),
      ch_disclosure_id = dd_disclosure_id d, ch_chunk_index = i, ch_text = text,
      ch_token_count = length (tokens text), ch_embedding_version = ie_embedding_version ie,
      ch_metadata = [(''source_document_id'', dd_source_document_id d), (''title'', dd_title d)]\<rparr>)
     (enumerate 0 (chunk_texts (ie_chunk_characters ie) (dd_body d)))"

definition point_metadata ::
    "py_env \<Rightarrow> disclosure_document \<Rightarrow> datetime \<Rightarrow> disclosure_chunk \<Rightarrow> (string \<times> py_value) list" where
  "point_metadata env d observed c = map (\<lambda>(k, v). (k, PStr v)) (ch_metadata c) @
     [(''chunk_id'', PStr (ch_chunk_id c)), (''disclosure_id'', PStr (dd_disclosure_id d)),
      (''asset_id'', opt_str (dd_asset_id d)), (''published_at'', PStr (env_isoformat env (dd_published_at d))),
      (''first_observed_at'', PStr (env_isoformat env observed)),
      (''document_version'', PInt (dd_document_version d)),
      (''source_policy_version'', PStr (dd_source_policy_version d)), (''source'', PStr (dd_source d))]"

text \<open>The loop over the chunks. An \<open>Exception\<close> of the index is passed over; one of the embedding
  provider, or a cancellation, leaves the loop.\<close>

fun index_chunks :: "'v disclosure_env \<Rightarrow> disclosure_document \<Rightarrow> datetime \<Rightarrow> disclosure_chunk list
    \<Rightarrow> 'v disclosure_state \<Rightarrow> bool res \<times> 'v disclosure_state" where
  "index_chunks ie d observed [] st = (Inr True, st)"
| "index_chunks ie d observed (c # cs) st = (case ie_embed ie (ch_text c) of
     Inl e \<Rightarrow> (Inl e, st)
   | Inr v \<Rightarrow> (case ie_upsert_fault ie (ch_chunk_id c) of
       Some e \<Rightarrow> if caught e then index_chunks ie d observed cs st else (Inl e, st)
     | None \<Rightarrow> index_chunks ie d observed cs (st\<lparr>is_index := AList.update (ch_chunk_id c)
         (v, point_metadata (ie_env ie) d observed c) (is_index st)\<rparr>)))"

text \<open>The document without an assigned version, with its time stamps normalized.\<close>

definition normalized :: "disclosure_document \<Rightarrow> disclosure_document" where
  "normalized d = d\<lparr>dd_first_observed_at := Some (observed_at d), dd_ingested_at := Some (ingested_at d),
     dd_available_at := Some (max (observed_at d) (ingested_at d))\<rparr>"

definition ingest_document :: "'v disclosure_env \<Rightarrow> datetime \<Rightarrow> bool \<Rightarrow> bool \<Rightarrow> disclosure_document
    \<Rightarrow> 'v disclosure_state \<Rightarrow> bool res \<times> 'v disclosure_state" where
  "ingest_document ie now assign_version preserve d st =
    (if assign_version then
       (case persist_versioned_disclosure (ie_env ie) now (chunks_of ie) preserve d (is_documents st) of
          (None, docs) \<Rightarrow> (Inr False, st\<lparr>is_documents := docs\<rparr>)
        | (Some p, docs) \<Rightarrow> index_chunks ie p (observed_at p) (chunks_of ie p) (st\<lparr>is_documents := docs\<rparr>))
     else if \<not> preserve then (Inl (ValueError ''live timestamp assignment requires atomic versioned persistence''), st)
     else
       let n = normalized d;
           (persisted, docs) = persist_disclosure n (chunks_of ie n) (is_documents st);
           st' = st\<lparr>is_documents := docs\<rparr>
       in if \<not> persisted then (Inr False, st') else index_chunks ie n (observed_at n) (chunks_of ie n) st')"

end
