(* ===== verification/Narrative_Records.thy ===== *)
theory Narrative_Records
  imports Claim_Text
begin

text \<open>
  The posts and clusters of \<open>narratives/schemas.py\<close>, which the narrative service writes and the claim
  verification reads from its events. A vector is a list of reals.
\<close>

record narrative_post =
  po_post_id :: string
  po_scope_id :: string
  po_asset_id :: string
  po_author_id :: string
  po_event_time :: datetime
  po_text :: string
  po_platform :: string
  po_source :: string
  po_language :: string
  po_ingested_at :: "datetime option"
  po_hashtags :: "string list"
  po_urls :: "string list"
  po_reply_to :: "string option"
  po_repost_of :: "string option"
  po_vector :: "real list"

record narrative_cluster =
  nc_narrative_id :: uuid
  nc_narrative_revision_id :: uuid
  nc_revision :: int
  nc_cluster_key :: string
  nc_stable_key :: string
  nc_member_hash :: string
  nc_scope_id :: string
  nc_asset_id :: string
  nc_window_start :: datetime
  nc_window_end :: datetime
  nc_first_seen :: datetime
  nc_last_seen :: datetime
  nc_label :: string
  nc_summary :: string
  nc_post_ids :: "string list"
  nc_similarities :: "(string \<times> real) list"
  nc_unique_author_count :: int
  nc_centroid :: "real list"
  nc_embedding_version :: string

end
