(* ===== verification/Verification.thy ===== *)
theory Verification
  imports Disclosures Narrative_Records
begin

text \<open>
  Claims, their verification against the disclosures around an alert, and the service that
  verifies a narrative (\<open>verification/schemas.py\<close>, \<open>verification/service.py\<close>).
\<close>

section \<open>Records\<close>

datatype verification_result = vr_supported_before | vr_supported_after | vr_unsupported | vr_conflicting
  | vr_unknown

fun result_value :: "verification_result \<Rightarrow> string" where
  "result_value vr_supported_before = ''SUPPORTED_BEFORE_ALERT''"
| "result_value vr_supported_after = ''SUPPORTED_AFTER_ALERT''"
| "result_value vr_unsupported = ''UNSUPPORTED''"
| "result_value vr_conflicting = ''CONFLICTING''"
| "result_value vr_unknown = ''UNKNOWN''"

datatype evidence_relation = er_supporting | er_conflicting | er_context | er_retrospective

record verification_evidence =
  ve_disclosure_id :: uuid
  ve_relation :: evidence_relation
  ve_score :: real
  ve_rank :: nat
  ve_temporal_eligible :: bool
  ve_reason_codes :: "string list"
  ve_source_policy_id :: "uuid option"
  ve_source_policy_version :: string
  ve_trust_score :: real
  ve_trust_tier :: string
  ve_license_snapshot :: "(string \<times> py_value) list"

text \<open>A claim holds its canonical payload, \<open>None\<close> for the empty dictionary of the schema.\<close>

record verification_claim =
  cl_claim_id :: uuid
  cl_narrative_id :: uuid
  cl_asset_id :: string
  cl_claim_text :: string
  cl_claim_type :: string
  cl_canonical_payload :: "canonical_claim option"
  cl_claim_hash :: string
  cl_extracted_at :: datetime
  cl_extractor_version :: string

record evidence_match =
  em_document_id :: uuid
  em_source_document_id :: string
  em_published_at :: string
  em_first_observed_at :: string
  em_ingested_at :: string
  em_available_at :: string
  em_similarity :: real
  em_is_future :: bool

record retrieval_metadata =
  rm_alert_cutoff :: string
  rm_coverage :: "(string \<times> py_value) list"
  rm_source_policy_version :: string
  rm_candidate_count :: nat
  rm_matches :: "evidence_match list"

record claim_verification =
  cv_verification_id :: uuid
  cv_claim_id :: uuid
  cv_alert_time :: datetime
  cv_result :: verification_result
  cv_claim_risk :: real
  cv_legitimate_event_score :: real
  cv_evidence_document_ids :: "uuid list"
  cv_retrieval_metadata :: retrieval_metadata
  cv_deterministic_reason :: string
  cv_llm_explanation :: "string option"
  cv_verifier_version :: string
  cv_source_policy_version :: string
  cv_retrospective_only :: bool
  cv_verified_at :: datetime
  cv_evidence :: "verification_evidence list"

record verification_summary =
  vs_verification_snapshot_id :: uuid
  vs_narrative_id :: uuid
  vs_alert_time :: datetime
  vs_result :: verification_result
  vs_claim_risk :: real
  vs_legitimate_event_score :: real
  vs_claims :: "verification_claim list"
  vs_verifications :: "claim_verification list"

section \<open>Claims and candidates\<close>

definition payload_amounts :: "verification_claim \<Rightarrow> string set" where
  "payload_amounts c = (case cl_canonical_payload c of None \<Rightarrow> {} | Some p \<Rightarrow> set (cn_amounts p))"

definition payload_polarity :: "verification_claim \<Rightarrow> string option" where
  "payload_polarity c = map_option cn_polarity (cl_canonical_payload c)"

definition evidence_text :: "disclosure_candidate \<Rightarrow> string" where
  "evidence_text d = dc_title d @ '' '' @ dc_text d"

definition structured_similarity :: "verification_claim \<Rightarrow> disclosure_candidate \<Rightarrow> real" where
  "structured_similarity c d =
    (let lexical = similarity (cl_claim_text c) (evidence_text d);
         ev = canonical_claim_of (cl_asset_id c) (evidence_text d);
         type_match = (if cn_claim_type ev = cl_claim_type c then 1 else 0);
         polarity_match = (if Some (cn_polarity ev) = payload_polarity c then 1 else 0);
         amount_match = (if payload_amounts c = {} then 1
           else if payload_amounts c \<inter> set (cn_amounts ev) \<noteq> {} then 1 else 0)
     in 0.60 * lexical + 0.20 * type_match + 0.10 * polarity_match + 0.10 * amount_match)"

definition conflict_reasons :: "verification_claim \<Rightarrow> disclosure_candidate \<Rightarrow> string list" where
  "conflict_reasons c d =
    (let ev = canonical_claim_of (cl_asset_id c) (evidence_text d)
     in (if payload_polarity c \<noteq> None \<and> Some (cn_polarity ev) \<noteq> payload_polarity c
         then [''POLARITY_MISMATCH''] else []) @
        (if payload_amounts c \<noteq> {} \<and> set (cn_amounts ev) \<noteq> {} \<and>
            payload_amounts c \<inter> set (cn_amounts ev) = {}
         then [''AMOUNT_MISMATCH''] else []))"

type_synonym scored = "disclosure_candidate \<times> real"

text \<open>\<open>sorted(matching, key=lambda item: (-score, str(chunk_id)))\<close>.\<close>

definition ranked :: "scored list \<Rightarrow> scored list" where
  "ranked ms = sort_key (\<lambda>(d, s). - s) (sort_key (\<lambda>(d, s). dc_chunk_id d) ms)"

definition relation_of :: "verification_claim \<Rightarrow> datetime \<Rightarrow> disclosure_candidate \<Rightarrow> evidence_relation" where
  "relation_of c alert_time d =
    (if \<not> dc_available_at d \<le> alert_time then er_retrospective
     else if conflict_reasons c d \<noteq> [] then er_conflicting else er_supporting)"

definition evidence_entry :: "verification_claim \<Rightarrow> datetime \<Rightarrow> nat \<Rightarrow> scored \<Rightarrow> verification_evidence" where
  "evidence_entry c alert_time rank = (\<lambda>(d, s).
     \<lparr>ve_disclosure_id = dc_disclosure_id d, ve_relation = relation_of c alert_time d,
      ve_score = clamp (s * dc_reliability d), ve_rank = rank,
      ve_temporal_eligible = (dc_available_at d \<le> alert_time),
      ve_reason_codes = (if conflict_reasons c d \<noteq> [] then conflict_reasons c d
        else if dc_available_at d \<le> alert_time then [''AVAILABLE_AT_CUTOFF''] else [''AVAILABLE_AFTER_CUTOFF'']),
      ve_source_policy_id = dc_source_policy_id d, ve_source_policy_version = dc_source_policy_version d,
      ve_trust_score = dc_reliability d, ve_trust_tier = dc_trust_tier d,
      ve_license_snapshot = dc_license_snapshot d\<rparr>)"

text \<open>The loop: \<open>result\<close> also tells which pairs of document and relation were seen.\<close>

definition add_evidence_entry :: "verification_claim \<Rightarrow> datetime \<Rightarrow> scored \<Rightarrow> verification_evidence list
    \<Rightarrow> verification_evidence list" where
  "add_evidence_entry c alert_time m result =
    (if (dc_disclosure_id (fst m), relation_of c alert_time (fst m))
        \<in> set (map (\<lambda>e. (ve_disclosure_id e, ve_relation e)) result)
     then result else result @ [evidence_entry c alert_time (length result + 1) m])"

definition evidence_for :: "verification_claim \<Rightarrow> scored list \<Rightarrow> datetime \<Rightarrow> verification_evidence list" where
  "evidence_for c matching alert_time = fold (add_evidence_entry c alert_time) (ranked matching) []"

section \<open>The verdict\<close>

record verdict =
  vd_result :: verification_result
  vd_risk :: real
  vd_legitimate :: real
  vd_evidence :: "scored list"
  vd_reason :: string

text \<open>\<open>max(reliability for item in support)\<close>.\<close>

definition best_reliability :: "scored list \<Rightarrow> real" where
  "best_reliability support = (case support of [] \<Rightarrow> 0 | m # ms \<Rightarrow> fold max (map (dc_reliability \<circ> fst) ms) (dc_reliability (fst m)))"

definition coverage_complete :: "(string \<times> py_value) list \<Rightarrow> bool" where
  "coverage_complete coverage = (case map_of coverage ''complete'' of None \<Rightarrow> True | Some v \<Rightarrow> truthy v)"

definition matching_of :: "real \<Rightarrow> verification_claim \<Rightarrow> disclosure_candidate list \<Rightarrow> scored list" where
  "matching_of threshold c ds = filter (\<lambda>(d, s). s * dc_reliability d \<ge> threshold)
     (map (\<lambda>d. (d, structured_similarity c d)) ds)"

definition verdict_of :: "real \<Rightarrow> verification_claim \<Rightarrow> datetime \<Rightarrow> disclosure_candidate list
    \<Rightarrow> (string \<times> py_value) list \<Rightarrow> verdict" where
  "verdict_of threshold c alert_time ds coverage =
    (let matching = matching_of threshold c ds;
         before = filter (\<lambda>(d, _). dc_available_at d \<le> alert_time) matching;
         future = filter (\<lambda>(d, _). dc_available_at d > alert_time) matching;
         conflict = filter (\<lambda>(d, _). conflict_reasons c d \<noteq> []) before;
         support = filter (\<lambda>(d, _). conflict_reasons c d = []) before
     in if conflict \<noteq> [] then
          \<lparr>vd_result = vr_conflicting, vd_risk = 1, vd_legitimate = 0, vd_evidence = support @ conflict @ future,
           vd_reason = ''a time-valid source materially conflicts with the extracted claim''\<rparr>
        else if support \<noteq> [] then
          \<lparr>vd_result = vr_supported_before, vd_risk = 0.15, vd_legitimate = best_reliability support,
           vd_evidence = support @ future,
           vd_reason = ''supporting disclosure existed at or before the alert cutoff''\<rparr>
        else if future \<noteq> [] then
          \<lparr>vd_result = vr_supported_after, vd_risk = 0.75, vd_legitimate = 0, vd_evidence = future,
           vd_reason = ''support appeared only after the alert cutoff and was not used retrospectively''\<rparr>
        else if \<not> coverage_complete coverage then
          \<lparr>vd_result = vr_unknown, vd_risk = 0.50, vd_legitimate = 0, vd_evidence = [],
           vd_reason = ''expected official sources were failed, stale, or incomplete''\<rparr>
        else if ds \<noteq> [] then
          \<lparr>vd_result = vr_unsupported, vd_risk = 0.90, vd_legitimate = 0, vd_evidence = [],
           vd_reason = ''retrieved time-bounded sources did not support the claim''\<rparr>
        else
          \<lparr>vd_result = vr_unknown, vd_risk = 0.50, vd_legitimate = 0, vd_evidence = [],
           vd_reason = ''no eligible disclosure evidence was available around the alert cutoff''\<rparr>)"

text \<open>\<open>round(score, 6)\<close>.\<close>

definition round6 :: "real \<Rightarrow> real" where
  "round6 x = round_to 6 x"

definition match_of :: "py_env \<Rightarrow> datetime \<Rightarrow> scored \<Rightarrow> evidence_match" where
  "match_of env alert_time = (\<lambda>(d, s).
     \<lparr>em_document_id = dc_disclosure_id d, em_source_document_id = dc_source_document_id d,
      em_published_at = env_isoformat env (dc_published_at d),
      em_first_observed_at = env_isoformat env (dc_first_observed_at d),
      em_ingested_at = env_isoformat env (dc_ingested_at d),
      em_available_at = env_isoformat env (dc_available_at d), em_similarity = round6 s,
      em_is_future = (dc_available_at d > alert_time)\<rparr>)"

section \<open>The verifier\<close>

text \<open>The repository as the verifier reads it, in memory. \<open>explain\<close> is the optional explainer;
  \<open>now\<close> is read once for each verification.\<close>

record repository =
  vx_documents :: documents
  vx_verifications :: "claim_verification list"
  vx_outbox :: "(string \<times> py_value) list canonical_event list"
  vx_coverage :: "(string \<times> py_value) list"
  vx_coverage_by_asset :: "(string option \<times> (string \<times> py_value) list) list"

definition empty_repository :: repository where
  "empty_repository = \<lparr>vx_documents = [], vx_verifications = [], vx_outbox = [],
     vx_coverage = [(''expected_source_count'', PInt 0), (''degraded_source_count'', PInt 0),
       (''degraded_sources'', PList []), (''complete'', PBool True)],
     vx_coverage_by_asset = []\<rparr>"

definition source_coverage :: "repository \<Rightarrow> string \<Rightarrow> (string \<times> py_value) list" where
  "source_coverage repo asset = (case map_of (vx_coverage_by_asset repo) (Some asset) of
     Some c \<Rightarrow> c
   | None \<Rightarrow> (case map_of (vx_coverage_by_asset repo) None of Some c \<Rightarrow> c | None \<Rightarrow> vx_coverage repo))"

record verifier =
  vf_env :: py_env
  vf_explain :: "(verification_claim \<Rightarrow> verification_result \<Rightarrow> disclosure_candidate list \<Rightarrow> string res) option"
  vf_threshold :: real
  vf_lookback_days :: int
  vf_future_days :: int

definition verifier_version :: string where
  "verifier_version = ''availability-bounded-verifier-v2''"

definition verifier_policy_version :: string where
  "verifier_policy_version = ''official-sources-v1''"

definition default_verifier :: "py_env \<Rightarrow> verifier" where
  "default_verifier env = \<lparr>vf_env = env, vf_explain = None, vf_threshold = 0.34, vf_lookback_days = 30,
     vf_future_days = 7\<rparr>"

definition explanation_of :: "verifier \<Rightarrow> verification_claim \<Rightarrow> verdict \<Rightarrow> string option res" where
  "explanation_of vf c vd = (case vf_explain vf of
     None \<Rightarrow> Inr None
   | Some explain \<Rightarrow> (case explain c (vd_result vd) (map fst (vd_evidence vd)) of
       Inr s \<Rightarrow> Inr (Some s) | Inl e \<Rightarrow> if caught e then Inr None else Inl e))"

text \<open>The field constraints of \<open>VerificationEvidence\<close> and \<open>ClaimVerification\<close>.\<close>

definition evidence_valid :: "verification_evidence \<Rightarrow> bool" where
  "evidence_valid e \<longleftrightarrow> unit_range (ve_score e) \<and> 1 \<le> ve_rank e \<and> unit_range (ve_trust_score e)"

definition build_verification :: "claim_verification \<Rightarrow> claim_verification res" where
  "build_verification v =
    (if \<not> list_all evidence_valid (cv_evidence v) then Inl (ValidationError ''VerificationEvidence'')
     else if \<not> unit_range (cv_claim_risk v) \<or> \<not> unit_range (cv_legitimate_event_score v)
     then Inl (ValidationError ''ClaimVerification'') else Inr v)"

definition verify :: "verifier \<Rightarrow> repository \<Rightarrow> datetime \<Rightarrow> verification_claim \<Rightarrow> datetime \<Rightarrow> claim_verification res" where
  "verify vf repo now c alert_time =
    (let env = vf_env vf;
         ds = candidates (vx_documents repo) (cl_asset_id c) alert_time (vf_lookback_days vf) (vf_future_days vf);
         matching = matching_of (vf_threshold vf) c ds;
         coverage = source_coverage repo (cl_asset_id c);
         vd = verdict_of (vf_threshold vf) c alert_time ds coverage
     in case explanation_of vf c vd of
          Inl e \<Rightarrow> Inl e
        | Inr explanation \<Rightarrow> build_verification
            \<lparr>cv_verification_id = env_uuid5 env (''verification:'' @ cl_claim_id c @ '':'' @
               env_isoformat env alert_time @ '':'' @ verifier_version),
             cv_claim_id = cl_claim_id c, cv_alert_time = alert_time, cv_result = vd_result vd,
             cv_claim_risk = vd_risk vd, cv_legitimate_event_score = vd_legitimate vd,
             cv_evidence_document_ids = sort (remdups (map (dc_disclosure_id \<circ> fst) (vd_evidence vd))),
             cv_retrieval_metadata = \<lparr>rm_alert_cutoff = env_isoformat env alert_time, rm_coverage = coverage,
               rm_source_policy_version = verifier_policy_version, rm_candidate_count = length ds,
               rm_matches = map (match_of env alert_time) (ranked matching)\<rparr>,
             cv_deterministic_reason = vd_reason vd, cv_llm_explanation = explanation,
             cv_verifier_version = verifier_version, cv_source_policy_version = verifier_policy_version,
             cv_retrospective_only = (vd_result vd = vr_supported_after), cv_verified_at = now,
             cv_evidence = evidence_for c matching alert_time\<rparr>)"

section \<open>Extraction of claims\<close>

definition extractor_version :: string where
  "extractor_version = ''atomic-claim-extractor-v2''"

definition claim_from :: "py_env \<Rightarrow> narrative_cluster \<Rightarrow> datetime \<Rightarrow> string \<Rightarrow> verification_claim" where
  "claim_from env n extracted_at text =
    (let canonical = canonical_claim_of (nc_asset_id n) text;
         claim_hash = env_sha256 env (canonical_json canonical)
     in \<lparr>cl_claim_id = env_uuid5 env (''claim:'' @ nc_narrative_id n @ '':'' @ claim_hash),
         cl_narrative_id = nc_narrative_id n, cl_asset_id = nc_asset_id n, cl_claim_text = text,
         cl_claim_type = cn_claim_type canonical, cl_canonical_payload = Some canonical,
         cl_claim_hash = claim_hash, cl_extracted_at = extracted_at,
         cl_extractor_version = extractor_version\<rparr>)"

definition keep_claim :: "verification_claim \<Rightarrow> verification_claim list \<Rightarrow> verification_claim list" where
  "keep_claim c cs = (if cl_claim_hash c \<in> set (map cl_claim_hash cs) then cs else cs @ [c])"

definition extract_claims :: "py_env \<Rightarrow> narrative_cluster \<Rightarrow> datetime \<Rightarrow> verification_claim list" where
  "extract_claims env n extracted_at =
     fold keep_claim (map (claim_from env n extracted_at) (take 5 (claim_candidates (nc_summary n)))) []"

section \<open>The service\<close>

text \<open>\<open>max(results, key=precedence)\<close>: the first of the results of highest precedence.\<close>

fun precedence :: "verification_result \<Rightarrow> nat" where
  "precedence vr_conflicting = 5"
| "precedence vr_unsupported = 4"
| "precedence vr_supported_after = 3"
| "precedence vr_unknown = 2"
| "precedence vr_supported_before = 1"

definition aggregate_result :: "verification_result list \<Rightarrow> verification_result" where
  "aggregate_result rs = (case rs of [] \<Rightarrow> vr_unknown
     | r # rest \<Rightarrow> fold (\<lambda>x best. if precedence best < precedence x then x else best) rest r)"

text \<open>The claims one after the other; \<open>clock i\<close> is the \<open>i\<close>-th reading of the clock.\<close>

fun verify_all :: "verifier \<Rightarrow> repository \<Rightarrow> (nat \<Rightarrow> datetime) \<Rightarrow> nat \<Rightarrow> verification_claim list \<Rightarrow> datetime
    \<Rightarrow> claim_verification list res" where
  "verify_all vf repo clock i [] alert_time = Inr []"
| "verify_all vf repo clock i (c # cs) alert_time = (case verify vf repo (clock i) c alert_time of
     Inl e \<Rightarrow> Inl e
   | Inr v \<Rightarrow> (case verify_all vf repo clock (Suc i) cs alert_time of Inl e \<Rightarrow> Inl e | Inr vs \<Rightarrow> Inr (v # vs)))"

definition max_of :: "real list \<Rightarrow> real" where
  "max_of xs = (case xs of [] \<Rightarrow> 0 | x # ys \<Rightarrow> fold max ys x)"

definition summary_of :: "py_env \<Rightarrow> narrative_cluster \<Rightarrow> datetime \<Rightarrow> verification_claim list
    \<Rightarrow> claim_verification list \<Rightarrow> verification_summary" where
  "summary_of env n alert_time cs vs =
     \<lparr>vs_verification_snapshot_id = env_uuid5 env (''verification-snapshot:'' @ nc_narrative_revision_id n @ '':''
        @ env_isoformat env alert_time @ '':'' @ verifier_version),
      vs_narrative_id = nc_narrative_id n, vs_alert_time = alert_time,
      vs_result = aggregate_result (map cv_result vs), vs_claim_risk = max_of (map cv_claim_risk vs),
      vs_legitimate_event_score = max_of (map cv_legitimate_event_score vs),
      vs_claims = cs, vs_verifications = vs\<rparr>"

text \<open>What the service gets from outside: how a narrative is read from the payload of an event and
  how a summary is written to one, both by the schema library.\<close>

record narrative_env =
  sv_verifier :: verifier
  sv_decode_narrative :: "py_value \<Rightarrow> narrative_cluster res"
  sv_dump_summary :: "verification_summary \<Rightarrow> (string \<times> py_value) list"

definition payload_item :: "(string \<times> py_value) list \<Rightarrow> string \<Rightarrow> py_value res" where
  "payload_item p k = (case map_of p k of None \<Rightarrow> Inl (KeyError k) | Some v \<Rightarrow> Inr v)"

definition payload_get :: "(string \<times> py_value) list \<Rightarrow> string \<Rightarrow> py_value" where
  "payload_get p k = (case map_of p k of None \<Rightarrow> PNone | Some v \<Rightarrow> v)"

text \<open>The payload of the outgoing event; later keys replace equal ones of the summary.\<close>

definition summary_payload :: "narrative_env \<Rightarrow> (string \<times> py_value) list \<Rightarrow> verification_summary
    \<Rightarrow> (string \<times> py_value) list res" where
  "summary_payload sv p s = (case payload_item p ''feature_snapshot'' of
     Inl e \<Rightarrow> Inl e
   | Inr snapshot \<Rightarrow> (case payload_item p ''graph_features'' of
       Inl e \<Rightarrow> Inl e
     | Inr (PDict g) \<Rightarrow> Inr (AList.update ''graph_snapshot_id'' (payload_get p ''graph_snapshot_id'')
         (AList.update ''graph_score'' (payload_get g ''graph_score'')
           (AList.update ''feature_snapshot'' snapshot (sv_dump_summary sv s))))
     | Inr _ \<Rightarrow> Inl (AttributeError ''get'')))"

definition summary_event :: "py_env \<Rightarrow> narrative_cluster \<Rightarrow> datetime \<Rightarrow> datetime \<Rightarrow> datetime
    \<Rightarrow> (string \<times> py_value) list \<Rightarrow> uuid \<Rightarrow> string \<Rightarrow> (string \<times> py_value) list canonical_event res" where
  "summary_event env n event_time now1 now2 payload snapshot_id correlation =
    (let is_replay = nc_scope_id n \<noteq> ''LIVE''
     in case build_replay is_replay (if is_replay then Some (nc_scope_id n) else None) of
          Inl e \<Rightarrow> Inl e
        | Inr replay \<Rightarrow> build_event
            \<lparr>ce_event_id = env_uuid5 env (''claim-summary:'' @ snapshot_id), ce_origin_event_id = None,
             ce_delivery_event_id = None, ce_event_type = ev_claim_verification_completed,
             ce_schema_version = 1, ce_source = verifier_version,
             ce_source_event_id = nc_narrative_id n @ '':'' @ env_isoformat env event_time,
             ce_source_sequence = None, ce_asset_id = Some (nc_asset_id n), ce_event_time = event_time,
             ce_ingested_at = now1, ce_processed_at = Some now2, ce_partition_key = nc_asset_id n,
             ce_replay = replay, ce_trace = \<lparr>tm_correlation_id = correlation, tm_causation_id = None\<rparr>,
             ce_payload = payload\<rparr>)"

definition persist_verifications :: "claim_verification list \<Rightarrow> (string \<times> py_value) list canonical_event
    \<Rightarrow> repository \<Rightarrow> bool \<times> repository" where
  "persist_verifications vs e repo =
    (if cv_verification_id (hd vs) \<in> set (map cv_verification_id (vx_verifications repo)) then (False, repo)
     else (True, repo\<lparr>vx_verifications := vx_verifications repo @ vs, vx_outbox := vx_outbox repo @ [e]\<rparr>))"

text \<open>\<open>process\<close>; the clock is read once for each claim, then twice for the event; \<open>correlation\<close> is
  the trace identifier the event draws.\<close>

definition process_narrative :: "narrative_env \<Rightarrow> (nat \<Rightarrow> datetime) \<Rightarrow> string
    \<Rightarrow> (string \<times> py_value) list canonical_event \<Rightarrow> repository \<Rightarrow> verification_summary res \<times> repository" where
  "process_narrative sv clock correlation event repo =
    (if ce_event_type event \<noteq> ev_narrative_clustered
     then (Inl (ValueError ''verification requires a narrative event''), repo)
     else case payload_item (ce_payload event) ''narrative'' of
       Inl e \<Rightarrow> (Inl e, repo)
     | Inr raw \<Rightarrow> (case sv_decode_narrative sv raw of
         Inl e \<Rightarrow> (Inl e, repo)
       | Inr n \<Rightarrow>
        (let env = vf_env (sv_verifier sv);
             cs = extract_claims env n (ce_event_time event)
         in case verify_all (sv_verifier sv) repo clock 0 cs (ce_event_time event) of
              Inl e \<Rightarrow> (Inl e, repo)
            | Inr vs \<Rightarrow>
              if vs = [] then (Inl (ValueError ''narrative did not contain a verifiable claim''), repo)
              else
                let s = summary_of env n (ce_event_time event) cs vs
                in case summary_payload sv (ce_payload event) s of
                     Inl e \<Rightarrow> (Inl e, repo)
                   | Inr payload \<Rightarrow>
                     (case summary_event env n (ce_event_time event) (clock (length cs))
                          (clock (length cs + 1)) payload (vs_verification_snapshot_id s) correlation of
                        Inl e \<Rightarrow> (Inl e, repo)
                      | Inr out_event \<Rightarrow> (Inr s, snd (persist_verifications vs out_event repo))))))"

end
