(* ===== verification/Disclosures_Correct.thy ===== *)
theory Disclosures_Correct
  imports Disclosures
begin

text \<open>
  What the ingestion of disclosures guarantees: chunks partition the paragraphs of a document in
  order and within the size limit, the stored versions of a document form a chain, and what an
  error of the embedding provider leaves behind.
\<close>

section \<open>Chunks\<close>

lemma paragraphs_stripped:
  "list_all stripped (filter (\<lambda>p. p \<noteq> []) (paragraphs_of body))"
  by (auto simp: list_all_iff paragraphs_of_def Let_def stripped_strip)

lemma pack_Nil_single: "pack limit [] [[]] = []"
  by (simp add: strip_by_def)

lemma chunk_texts_paragraphs:
  "chunk_texts limit body = pack limit [] (filter (\<lambda>p. p \<noteq> []) (paragraphs_of body))"
  using pack_Nil_single [of limit]
  by (auto simp: chunk_texts_def paragraphs_of_def Let_def)

text \<open>The chunks of a document partition its non-empty paragraphs in order: every chunk is the
  join of a group of consecutive paragraphs, keeps within \<open>chunk_characters\<close> unless it is a single
  paragraph, and the chunks are numbered from zero with distinct indices and the text's token
  count. A document of white space has no chunks.\<close>

theorem chunks_partition:
  "\<exists>gs. map ch_text (chunks_of ie d) = map (join line_feed) gs \<and>
     concat gs = filter (\<lambda>p. p \<noteq> []) (paragraphs_of (dd_body d)) \<and>
     list_all (\<lambda>g. g \<noteq> [] \<and> (length g = 1 \<or> int (length (join line_feed g)) \<le> ie_chunk_characters ie)) gs \<and>
     map ch_chunk_index (chunks_of ie d) = [0..<length gs]"
proof -
  obtain gs where gs: "chunk_texts (ie_chunk_characters ie) (dd_body d) = map (join line_feed) gs"
    "concat gs = filter (\<lambda>p. p \<noteq> []) (paragraphs_of (dd_body d))"
    "list_all (\<lambda>g. g \<noteq> [] \<and> fits (ie_chunk_characters ie) g) gs"
    using pack_groups [of "[]" "filter (\<lambda>p. p \<noteq> []) (paragraphs_of (dd_body d))" "ie_chunk_characters ie"]
      paragraphs_stripped [of "dd_body d"] by (auto simp: chunk_texts_paragraphs)
  have "map ch_text (chunks_of ie d) = chunk_texts (ie_chunk_characters ie) (dd_body d)"
    by (simp add: chunks_of_def case_prod_beta comp_def)
  moreover have "map ch_chunk_index (chunks_of ie d) = [0..<length (chunk_texts (ie_chunk_characters ie) (dd_body d))]"
    by (simp add: chunks_of_def case_prod_beta comp_def)
  ultimately show ?thesis using gs by (intro exI [of _ gs]) (simp add: fits_def)
qed

section \<open>Ingestion that fails\<close>

lemma index_chunks_documents: "is_documents (snd (index_chunks ie d observed cs st)) = is_documents st"
  by (induction ie d observed cs st rule: index_chunks.induct) (auto split: sum.splits option.splits)

lemma persist_disclosure_stored:
  "persist_disclosure d chunks docs = (b, docs') \<Longrightarrow> map_of docs' (disclosure_slot d) \<noteq> None"
  by (auto simp: persist_disclosure_def update_conv split: if_splits)

lemma normalized_slot [simp]: "disclosure_slot (normalized d) = disclosure_slot d"
  by (simp add: normalized_def disclosure_slot_def)

text \<open>A disclosure whose embedding fails is never indexed: the document is stored before its chunks
  are embedded, the error leaves the rest of them out of the index, and every later delivery of the
  document is answered as a duplicate and changes nothing, however the provider answers then.\<close>

theorem ingest_never_reindexes:
  assumes "ingest_document ie now False True d st = (Inl e, st')"
  shows "is_documents st' \<noteq> is_documents st \<and>
    ingest_document ie' now' False True d st' = (Inr False, st')"
proof -
  let ?n = "normalized d"
  obtain docs where docs: "persist_disclosure ?n (chunks_of ie ?n) (is_documents st) = (True, docs)"
    "index_chunks ie ?n (observed_at ?n) (chunks_of ie ?n) (st\<lparr>is_documents := docs\<rparr>) = (Inl e, st')"
    using assms by (auto simp: ingest_document_def Let_def split: prod.splits if_splits)
  have st': "is_documents st' = docs"
    using index_chunks_documents [of ie ?n "observed_at ?n" "chunks_of ie ?n" "st\<lparr>is_documents := docs\<rparr>"] docs(2) by simp
  have stored: "map_of docs (disclosure_slot d) \<noteq> None" using persist_disclosure_stored [OF docs(1)] by simp
  moreover have "map_of (is_documents st) (disclosure_slot d) = None"
    using docs(1) by (rule_tac ccontr) (simp add: persist_disclosure_def)
  ultimately show ?thesis using st'
    by (auto simp: ingest_document_def persist_disclosure_def Let_def)
qed

definition sample_disclosure :: "string \<Rightarrow> string \<Rightarrow> datetime \<Rightarrow> disclosure_document" where
  "sample_disclosure key body t = \<lparr>dd_disclosure_id = ''d1'', dd_source = ''exchange'',
     dd_source_document_id = key, dd_asset_id = Some ''ACME'', dd_title = ''Notice'', dd_body = body,
     dd_url = None, dd_published_at = t, dd_retrieved_at = t, dd_first_observed_at = None,
     dd_ingested_at = None, dd_available_at = None, dd_document_version = 1, dd_supersedes = None,
     dd_source_policy_version = ''official-sources-v1'', dd_reliability = 1, dd_content_hash = body,
     dd_source_policy_id = None, dd_connector_run_id = None, dd_source_document_key = None,
     dd_logical_source_key = None, dd_version_status = ''CURRENT'', dd_etag = None,
     dd_last_modified = None, dd_signature_metadata = []\<rparr>"

definition failing_embedding :: "unit disclosure_env" where
  "failing_embedding = \<lparr>ie_env = sample_env, ie_chunk_characters = 1200, ie_embedding_version = ''e1'',
     ie_embed = (\<lambda>_. Inl (RuntimeError ''provider'')), ie_upsert_fault = (\<lambda>_. None)\<rparr>"

theorem ingest_never_reindexes_witness:
  "\<exists>st'. is_index st' = [] \<and> is_documents st' \<noteq> [] \<and>
     ingest_document failing_embedding 9 False True (sample_disclosure ''k'' ''won a contract'' 5) st' = (Inr False, st')"
proof -
  let ?d = "sample_disclosure ''k'' ''won a contract'' 5" and ?st = "\<lparr>is_documents = [], is_index = []\<rparr>"
  have "chunk_texts 1200 ''won a contract'' = [''won a contract'']" by code_simp
  then have cs: "chunks_of failing_embedding (normalized ?d) \<noteq> []"
    by (simp add: chunks_of_def failing_embedding_def sample_disclosure_def normalized_def enumerate_eq_zip)
  then obtain c cs where "chunks_of failing_embedding (normalized ?d) = c # cs" by (cases "chunks_of failing_embedding (normalized ?d)") auto
  then obtain st' where st': "ingest_document failing_embedding 5 False True ?d ?st = (Inl (RuntimeError ''provider''), st')"
    "is_index st' = []"
    by (auto simp: ingest_document_def persist_disclosure_def Let_def failing_embedding_def)
  from ingest_never_reindexes [OF st'(1), of failing_embedding 9] st'(2) show ?thesis by auto
qed

section \<open>Versions\<close>

definition colon_free :: "string \<Rightarrow> bool" where
  "colon_free s \<longleftrightarrow> CHR '':'' \<notin> set s"

lemma before_colon: "colon_free a \<Longrightarrow> takeWhile (\<lambda>c. c \<noteq> CHR '':'') (a @ CHR '':'' # x) = a"
  by (induction a) (auto simp: colon_free_def)

lemma version_slot_inject:
  assumes "colon_free a" "colon_free b" "0 < m" "0 < n" "version_slot a j m = version_slot b k n"
  shows "a = b \<and> j = k \<and> m = n"
proof -
  have eq: "a @ CHR '':'' # j @ CHR '':'' # show_nat (nat m) = b @ CHR '':'' # k @ CHR '':'' # show_nat (nat n)"
    using assms(3-5) by (simp add: version_slot_def show_int_def)
  then have "a = b" using before_colon [OF assms(1)] before_colon [OF assms(2)] by metis
  with eq have "j @ CHR '':'' # show_nat (nat m) = k @ CHR '':'' # show_nat (nat n)" by simp
  then have "j = k \<and> nat m = nat n" by (rule show_nat_split_last [rotated]) (simp add: is_digit_def)
  moreover from this have "m = n" using assms(3,4) by (simp add: eq_nat_nat_iff)
  ultimately show ?thesis using \<open>a = b\<close> by simp
qed

definition successor :: "stored_document \<Rightarrow> stored_document \<Rightarrow> bool" where
  "successor a b \<longleftrightarrow> dd_content_hash (fst a) \<noteq> dd_content_hash (fst b) \<and>
     dd_supersedes (fst b) = Some (dd_disclosure_id (fst a)) \<and> dd_version_status (fst a) = ''SUPERSEDED''"

definition version_chain :: "stored_document list \<Rightarrow> bool" where
  "version_chain vs \<longleftrightarrow> map (dd_document_version \<circ> fst) vs = map int [1..<Suc (length vs)] \<and>
     successively successor vs \<and> (vs \<noteq> [] \<longrightarrow> dd_supersedes (fst (hd vs)) = None)"

text \<open>Superseding changes the status of a document and nothing else.\<close>

definition set_superseded :: "uuid \<Rightarrow> stored_document \<Rightarrow> stored_document" where
  "set_superseded i = (\<lambda>(d, chunks). (if dd_disclosure_id d = i then d\<lparr>dd_version_status := ''SUPERSEDED''\<rparr> else d, chunks))"

lemma set_superseded_fields [simp]:
  "dd_disclosure_id (fst (set_superseded i v)) = dd_disclosure_id (fst v)"
  "dd_content_hash (fst (set_superseded i v)) = dd_content_hash (fst v)"
  "dd_supersedes (fst (set_superseded i v)) = dd_supersedes (fst v)"
  "dd_document_version (fst (set_superseded i v)) = dd_document_version (fst v)"
  "logical_key (fst (set_superseded i v)) = logical_key (fst v)"
  "document_key (fst (set_superseded i v)) = document_key (fst v)"
  "dd_version_status (fst (set_superseded i v)) =
     (if dd_disclosure_id (fst v) = i then ''SUPERSEDED'' else dd_version_status (fst v))"
  by (cases v; simp add: set_superseded_def logical_key_def document_key_def)+

lemma supersede_map: "supersede i docs = map (\<lambda>(k, v). (k, set_superseded i v)) docs"
  by (auto simp: supersede_def set_superseded_def)

lemma versions_of_supersede: "versions_of l k (supersede i docs) = map (set_superseded i) (versions_of l k docs)"
  by (induction docs) (auto simp: versions_of_def supersede_map case_prod_beta)

lemma version_chain_superseded:
  assumes "version_chain vs"
  shows "version_chain (map (set_superseded i) vs)"
proof -
  have "successively (\<lambda>a b. successor (set_superseded i a) (set_superseded i b)) vs"
    using assms by (auto simp: version_chain_def successor_def intro: successively_mono)
  moreover have "(dd_document_version \<circ> fst) \<circ> set_superseded i = dd_document_version \<circ> fst" by auto
  ultimately show ?thesis using assms by (auto simp: version_chain_def successively_map hd_map)
qed

lemma fold_higher_mem: "fold higher_version ds d \<in> set (d # ds)"
proof (induction ds arbitrary: d)
  case (Cons x ds)
  from Cons.IH [of "higher_version x d"] show ?case by (auto simp: higher_version_def split: if_splits)
qed simp

lemma latest_version_last:
  assumes "version_chain vs" "vs \<noteq> []"
  shows "latest_version vs = Some (last vs) \<and> dd_document_version (fst (last vs)) = int (length vs)"
proof -
  from assms(2) obtain ws x where vs: "vs = ws @ [x]" by (cases vs rule: rev_cases) auto
  have versions: "map (dd_document_version \<circ> fst) ws @ [dd_document_version (fst x)] = map int [1..<Suc (length ws)] @ [int (Suc (length ws))]"
    using assms(1) by (simp add: version_chain_def vs)
  then have x: "dd_document_version (fst x) = int (Suc (length ws))" and
    ws: "map (dd_document_version \<circ> fst) ws = map int [1..<Suc (length ws)]" by simp_all
  have small: "dd_document_version (fst w) < dd_document_version (fst x)" if "w \<in> set ws" for w
  proof -
    have "(dd_document_version \<circ> fst) w \<in> set (map int [1..<Suc (length ws)])"
      using that unfolding ws [symmetric] by force
    with x show ?thesis by auto
  qed
  have "latest_version vs = Some x"
  proof (cases ws)
    case (Cons w ws')
    have "higher_version x (fold higher_version ws' w) = x"
      using small fold_higher_mem [of ws' w] Cons by (simp add: higher_version_def)
    with vs Cons show ?thesis by (simp add: latest_version_def)
  qed (simp add: vs latest_version_def)
  with vs x show ?thesis by simp
qed

definition docs_ok :: "documents \<Rightarrow> bool" where
  "docs_ok docs \<longleftrightarrow> (\<forall>(k, d, cs) \<in> set docs.
      k = version_slot (logical_key d) (document_key d) (dd_document_version d) \<and> colon_free (logical_key d)) \<and>
    (\<forall>l k. version_chain (versions_of l k docs))"

lemma docs_ok_empty: "docs_ok []"
  by (simp add: docs_ok_def versions_of_def version_chain_def)

lemma update_fresh: "k \<notin> set (map fst docs) \<Longrightarrow> AList.update k v docs = docs @ [(k, v)]"
  by (induction docs) auto

lemma prepare_version_fields [simp]:
  "logical_key (prepare_version env now p latest d) = logical_key d"
  "document_key (prepare_version env now p latest d) = document_key d"
  "dd_document_version (prepare_version env now p latest d) = next_version latest"
  "dd_content_hash (prepare_version env now p latest d) = dd_content_hash d"
  "dd_supersedes (prepare_version env now p latest d) = map_option (\<lambda>(l, _). dd_disclosure_id l) latest"
  by (auto simp: prepare_version_def Let_def logical_key_def document_key_def or_str_def split: option.splits)

lemma version_chain_snoc:
  assumes "version_chain vs" "dd_document_version (fst x) = int (length vs) + 1"
    "vs \<noteq> [] \<Longrightarrow> successor (last vs) x" "vs = [] \<Longrightarrow> dd_supersedes (fst x) = None"
  shows "version_chain (vs @ [x])"
  using assms by (cases "vs = []") (auto simp: version_chain_def successively_append_iff)

lemma docs_ok_supersede: "docs_ok docs \<Longrightarrow> docs_ok (supersede i docs)"
proof -
  assume ok: "docs_ok docs"
  have "k = version_slot (logical_key d) (document_key d) (dd_document_version d) \<and> colon_free (logical_key d)"
    if "(k, d, cs) \<in> set (supersede i docs)" for k d cs
  proof -
    from that obtain v where v: "(k, v) \<in> set docs" "(d, cs) = set_superseded i v" by (auto simp: supersede_map)
    then have "d = fst (set_superseded i v)" by (metis fst_conv)
    with ok v(1) show ?thesis by (cases v) (fastforce simp: docs_ok_def)
  qed
  with ok show ?thesis by (auto simp: docs_ok_def versions_of_supersede version_chain_superseded)
qed

lemma version_chain_range:
  assumes "version_chain vs" "v \<in> set vs"
  shows "0 < dd_document_version (fst v) \<and> dd_document_version (fst v) \<le> int (length vs)"
proof -
  have "(dd_document_version \<circ> fst) v \<in> set (map int [1..<Suc (length vs)])"
    using assms unfolding version_chain_def by (metis image_eqI list.set_map)
  then show ?thesis by auto
qed

lemma versions_of_mem: "(slot, d, cs) \<in> set docs \<Longrightarrow> (d, cs) \<in> set (versions_of (logical_key d) (document_key d) docs)"
  by (force simp: versions_of_def)

lemma slot_fresh:
  assumes "docs_ok docs" "colon_free l" "int (length (versions_of l k docs)) < n"
  shows "version_slot l k n \<notin> set (map fst docs)"
proof
  assume "version_slot l k n \<in> set (map fst docs)"
  then obtain d cs where mem: "(version_slot l k n, d, cs) \<in> set docs" by auto
  from mem assms(1) have slot: "version_slot l k n = version_slot (logical_key d) (document_key d) (dd_document_version d)"
    "colon_free (logical_key d)" "version_chain (versions_of (logical_key d) (document_key d) docs)"
    by (fastforce simp: docs_ok_def)+
  from version_chain_range [OF slot(3) versions_of_mem [OF mem]]
  have range: "0 < dd_document_version d" "dd_document_version d \<le> int (length (versions_of (logical_key d) (document_key d) docs))"
    by simp_all
  have "l = logical_key d \<and> k = document_key d \<and> n = dd_document_version d"
    using version_slot_inject [OF assms(2) slot(2) _ range(1) slot(1)] assms(3) by simp
  with range(2) assms(3) show False by simp
qed

lemma versions_of_snoc:
  "versions_of l k (docs @ [(s, v)]) = versions_of l k docs @
     (if logical_key (fst v) = l \<and> document_key (fst v) = k then [v] else [])"
  by (cases v) (simp add: versions_of_def)

text \<open>What a call stores: nothing when the latest version has the same content, otherwise the next
  version of the document at the end.\<close>

lemma persist_versioned_cases:
  assumes "docs_ok docs" "colon_free (logical_key d)"
  defines "vs \<equiv> versions_of (logical_key d) (document_key d) docs"
  obtains "vs \<noteq> []" "dd_content_hash (fst (last vs)) = dd_content_hash d"
      "persist_versioned_disclosure env now cf p d docs = (None, docs)"
  | prepared docs1 where "prepared = prepare_version env now p (latest_version vs) d"
      "vs = [] \<or> dd_content_hash (fst (last vs)) \<noteq> dd_content_hash d"
      "docs1 = (if vs = [] then docs else supersede (dd_disclosure_id (fst (last vs))) docs)"
      "dd_document_version prepared = int (length vs) + 1"
      "persist_versioned_disclosure env now cf p d docs = (Some prepared, docs1 @
         [(version_slot (logical_key d) (document_key d) (int (length vs) + 1), prepared, cf prepared)])"
proof -
  have chain: "version_chain vs" using assms(1) by (simp add: docs_ok_def vs_def)
  show ?thesis
  proof (cases "vs = []")
    case True
    then have latest: "latest_version vs = None" by (simp add: latest_version_def)
    have "version_slot (logical_key d) (document_key d) 1 \<notin> set (map fst docs)"
      using slot_fresh [OF assms(1,2), of "document_key d" 1] True by (simp add: vs_def)
    then have "persist_versioned_disclosure env now cf p d docs =
        (Some (prepare_version env now p None d), docs @
          [(version_slot (logical_key d) (document_key d) 1, prepare_version env now p None d, cf (prepare_version env now p None d))])"
      using latest unfolding vs_def
      by (simp add: persist_versioned_disclosure_def Let_def next_version_def update_fresh)
    with True latest show ?thesis by (intro that(2)) (simp_all add: next_version_def)
  next
    case False
    obtain l lcs where l: "last vs = (l, lcs)" by (cases "last vs")
    have latest: "latest_version vs = Some (l, lcs)" "dd_document_version l = int (length vs)"
      using latest_version_last [OF chain False] l by simp_all
    show ?thesis
    proof (cases "dd_content_hash l = dd_content_hash d")
      case True
      with latest(1) show ?thesis using False l unfolding vs_def
        by (intro that(1)) (simp_all add: vs_def persist_versioned_disclosure_def)
    next
      case hash: False
      let ?docs1 = "supersede (dd_disclosure_id l) docs" and ?p = "prepare_version env now p (Some (l, lcs)) d"
      have "version_slot (logical_key d) (document_key d) (int (length vs) + 1) \<notin> set (map fst ?docs1)"
        using slot_fresh [OF docs_ok_supersede [OF assms(1)] assms(2), of "document_key d"]
        by (simp add: vs_def versions_of_supersede)
      then have "persist_versioned_disclosure env now cf p d docs = (Some ?p, ?docs1 @
          [(version_slot (logical_key d) (document_key d) (int (length vs) + 1), ?p, cf ?p)])"
        using latest hash unfolding vs_def
        by (simp add: persist_versioned_disclosure_def Let_def next_version_def update_fresh)
      with False l latest hash show ?thesis by (intro that(2)) (simp_all add: next_version_def)
    qed
  qed
qed

lemma docs_ok_snoc:
  assumes "docs_ok docs" "version_chain (versions_of (logical_key d) (document_key d) docs @ [(d, cs)])"
    "slot = version_slot (logical_key d) (document_key d) (dd_document_version d)" "colon_free (logical_key d)"
  shows "docs_ok (docs @ [(slot, d, cs)])"
  using assms by (auto simp: docs_ok_def versions_of_snoc)

lemma persist_versioned_ok:
  assumes "docs_ok docs" "colon_free (logical_key d)" "persist_versioned_disclosure env now cf p d docs = (r, docs')"
  shows "docs_ok docs'"
  using assms(1,2)
proof (cases rule: persist_versioned_cases [where env = env and now = now and cf = cf and p = p])
  case 1
  with assms show ?thesis by simp
next
  case (2 prepared docs1)
  let ?vs = "versions_of (logical_key d) (document_key d) docs"
  have docs1: "docs_ok docs1" using assms(1) 2(3) by (simp add: docs_ok_supersede)
  have keys: "logical_key prepared = logical_key d" "document_key prepared = document_key d" by (simp_all add: 2(1))
  have "version_chain (versions_of (logical_key d) (document_key d) docs1 @ [(prepared, cf prepared)])"
  proof (rule version_chain_snoc)
    show "version_chain (versions_of (logical_key d) (document_key d) docs1)" using docs1 by (simp add: docs_ok_def)
    show "dd_document_version (fst (prepared, cf prepared)) = int (length (versions_of (logical_key d) (document_key d) docs1)) + 1"
      using 2(3,4) by (simp add: versions_of_supersede)
  next
    assume "versions_of (logical_key d) (document_key d) docs1 \<noteq> []"
    then have ne: "?vs \<noteq> []" using 2(3) by (auto simp: versions_of_supersede split: if_splits)
    have "latest_version ?vs = Some (last ?vs)"
      using latest_version_last [of ?vs] assms(1) ne by (simp add: docs_ok_def)
    then show "successor (last (versions_of (logical_key d) (document_key d) docs1)) (prepared, cf prepared)"
      using 2(1,2,3) ne by (simp add: successor_def versions_of_supersede last_map case_prod_beta)
  next
    assume "versions_of (logical_key d) (document_key d) docs1 = []"
    then have "?vs = []" using 2(3) by (auto simp: versions_of_supersede split: if_splits)
    then show "dd_supersedes (fst (prepared, cf prepared)) = None" by (simp add: 2(1) latest_version_def)
  qed
  then have "docs_ok (docs1 @ [(version_slot (logical_key d) (document_key d) (int (length ?vs) + 1), prepared, cf prepared)])"
    by (intro docs_ok_snoc) (use docs1 assms(2) 2(4) keys in simp_all)
  with 2(5) assms(3) show ?thesis by simp
qed

text \<open>A run of deliveries: the time it is stored, whether its time stamps are preserved, the document.\<close>

type_synonym delivery = "datetime \<times> bool \<times> disclosure_document"

definition store_delivery :: "py_env \<Rightarrow> (disclosure_document \<Rightarrow> disclosure_chunk list) \<Rightarrow> delivery \<Rightarrow> documents \<Rightarrow> documents" where
  "store_delivery env cf = (\<lambda>(now, p, d) docs. snd (persist_versioned_disclosure env now cf p d docs))"

definition hashes_of :: "string \<Rightarrow> string \<Rightarrow> delivery list \<Rightarrow> string list" where
  "hashes_of l k ds = map (\<lambda>(_, _, d). dd_content_hash d)
     (filter (\<lambda>(_, _, d). logical_key d = l \<and> document_key d = k) ds)"

lemma hashes_of_snoc:
  "hashes_of l k (ds @ [(now, p, d)]) = hashes_of l k ds @
     (if logical_key d = l \<and> document_key d = k then [dd_content_hash d] else [])"
  by (simp add: hashes_of_def)

lemma remdups_adj_snoc:
  "remdups_adj (xs @ [x]) = (if xs = [] \<or> last xs \<noteq> x then remdups_adj xs @ [x] else remdups_adj xs)"
  by (induction xs rule: remdups_adj.induct) auto

lemma store_delivery_hashes:
  assumes "docs_ok docs" "colon_free (logical_key d)"
    "map (dd_content_hash \<circ> fst) (versions_of l k docs) = remdups_adj hs"
  shows "map (dd_content_hash \<circ> fst) (versions_of l k (store_delivery env cf (now, p, d) docs)) =
    remdups_adj (hs @ (if logical_key d = l \<and> document_key d = k then [dd_content_hash d] else []))"
  using assms(1,2)
proof (cases rule: persist_versioned_cases [where env = env and now = now and cf = cf and p = p])
  case 1
  have "last hs = dd_content_hash d" "hs \<noteq> []" if "logical_key d = l" "document_key d = k"
  proof -
    have "last (remdups_adj hs) = dd_content_hash d" "remdups_adj hs \<noteq> []"
      using 1(1,2) that by (simp_all add: assms(3) [symmetric] last_map)
    then show "last hs = dd_content_hash d" "hs \<noteq> []" by (auto simp: last_remdups_adj)
  qed
  with 1(3) assms(3) show ?thesis by (simp add: store_delivery_def remdups_adj_snoc)
next
  case (2 prepared docs1)
  have same: "map (dd_content_hash \<circ> fst) (versions_of l k docs1) = remdups_adj hs"
    using 2(3) assms(3) by (simp add: versions_of_supersede comp_def)
  have "hs = [] \<or> last hs \<noteq> dd_content_hash d" if "logical_key d = l" "document_key d = k"
  proof (cases "hs = []")
    case False
    then have ne: "versions_of l k docs \<noteq> []" using assms(3) by (metis list.simps(8) remdups_adj_Nil_iff)
    then have "last (map (dd_content_hash \<circ> fst) (versions_of l k docs)) \<noteq> dd_content_hash d"
      using 2(2) that by (simp add: last_map)
    with False show ?thesis by (simp add: assms(3) last_remdups_adj)
  qed simp
  then show ?thesis using same 2(1,5)
    by (simp add: store_delivery_def versions_of_snoc remdups_adj_snoc)
qed

lemma store_run:
  assumes "list_all (\<lambda>(_, _, d). colon_free (logical_key d)) ds"
  shows "docs_ok (fold (store_delivery env cf) ds []) \<and>
    map (dd_content_hash \<circ> fst) (versions_of l k (fold (store_delivery env cf) ds [])) = remdups_adj (hashes_of l k ds)"
  using assms
proof (induction ds rule: rev_induct)
  case Nil
  then show ?case by (simp add: docs_ok_empty versions_of_def hashes_of_def)
next
  case (snoc x ds)
  obtain now p d where x: "x = (now, p, d)" by (cases x)
  let ?docs = "fold (store_delivery env cf) ds []"
  obtain r docs' where step: "persist_versioned_disclosure env now cf p d ?docs = (r, docs')" by fastforce
  have d: "colon_free (logical_key d)" "docs_ok ?docs"
    "map (dd_content_hash \<circ> fst) (versions_of l k ?docs) = remdups_adj (hashes_of l k ds)"
    using snoc by (simp_all add: x comp_def)
  have after: "fold (store_delivery env cf) (ds @ [x]) [] = store_delivery env cf (now, p, d) ?docs"
    by (simp add: x)
  have "store_delivery env cf (now, p, d) ?docs = docs'" unfolding store_delivery_def prod.case step [unfolded store_delivery_def] by simp
  then have "docs_ok (store_delivery env cf (now, p, d) ?docs)" using persist_versioned_ok [OF d(2,1) step] by simp
  with store_delivery_hashes [OF d(2,1,3), of env cf now p] show ?case
    unfolding x hashes_of_snoc after [unfolded x] by blast
qed

text \<open>C26. Versions of a document: after any sequence of versioned deliveries to the in-memory
  repository (logical source keys hold no colon, since the storage keys are joined with colons) the
  contents stored for a source document are the delivered ones with repetitions in a row removed,
  numbered from one, each naming its predecessor as superseded, and all but the last marked
  SUPERSEDED.\<close>

theorem disclosure_versions:
  fixes env :: py_env and cf :: "disclosure_document \<Rightarrow> disclosure_chunk list" and l k :: string
  assumes "list_all (\<lambda>(_, _, d). colon_free (logical_key d)) ds"
  defines "vs \<equiv> map fst (versions_of l k (fold (store_delivery env cf) ds []))"
  shows "map dd_content_hash vs = remdups_adj (hashes_of l k ds) \<and>
    map dd_document_version vs = map int [1..<Suc (length vs)] \<and>
    successively (\<lambda>a b. dd_supersedes b = Some (dd_disclosure_id a) \<and> dd_version_status a = ''SUPERSEDED'') vs \<and>
    (vs = [] \<or> dd_supersedes (hd vs) = None)"
proof -
  define ws where "ws = versions_of l k (fold (store_delivery env cf) ds [])"
  have chain: "version_chain ws" using store_run [OF assms(1), of env cf] by (simp add: docs_ok_def ws_def)
  have vs: "vs = map fst ws" by (simp add: vs_def ws_def)
  have "map dd_document_version vs = map int [1..<Suc (length vs)]"
    using chain by (simp add: vs version_chain_def del: upt_Suc)
  moreover have "successively (\<lambda>a b. dd_supersedes b = Some (dd_disclosure_id a) \<and> dd_version_status a = ''SUPERSEDED'') vs"
    unfolding vs successively_map
    by (rule successively_mono [of successor]) (use chain in \<open>simp_all add: version_chain_def successor_def\<close>)
  moreover have "vs = [] \<or> dd_supersedes (hd vs) = None"
    using chain by (cases ws) (simp_all add: vs version_chain_def)
  moreover have "map dd_content_hash vs = remdups_adj (hashes_of l k ds)"
    using store_run [OF assms(1), of env cf l k] by (simp add: vs_def)
  ultimately show ?thesis by blast
qed

theorem disclosure_versions_witness:
  "map dd_document_version (map fst (versions_of ''exchange'' ''k'' (fold (store_delivery sample_env (\<lambda>_. []))
     [(0, True, sample_disclosure ''k'' ''a'' 5), (0, True, sample_disclosure ''k'' ''a'' 6),
      (0, True, sample_disclosure ''k'' ''b'' 7)] []))) = [1, 2]"
proof -
  let ?ds = "[(0, True, sample_disclosure ''k'' ''a'' 5), (0, True, sample_disclosure ''k'' ''a'' 6),
      (0, True, sample_disclosure ''k'' ''b'' 7)] :: delivery list"
  define vs where "vs = map fst (versions_of ''exchange'' ''k'' (fold (store_delivery sample_env (\<lambda>_. [])) ?ds []))"
  have ok: "list_all (\<lambda>(_, _, d). colon_free (logical_key d)) ?ds"
    by (simp add: sample_disclosure_def colon_free_def logical_key_def or_str_def)
  have hashes: "remdups_adj (hashes_of ''exchange'' ''k'' ?ds) = [''a'', ''b'']"
    by (simp add: hashes_of_def sample_disclosure_def logical_key_def document_key_def or_str_def)
  have "map dd_content_hash vs = [''a'', ''b'']" and versions: "map dd_document_version vs = map int [1..<Suc (length vs)]"
    using disclosure_versions [OF ok, of "''exchange''" "''k''" sample_env "\<lambda>_. []"]
    unfolding hashes vs_def [symmetric] by blast+
  then have "length vs = 2" using length_map [of dd_content_hash vs] by simp
  with versions have "map dd_document_version vs = [1, 2]" by (simp add: upt_rec)
  then show ?thesis by (simp add: vs_def)
qed

end
