(* ===== verification/Verification_Correct.thy ===== *)
theory Verification_Correct
  imports Verification Disclosures_Correct "HOL-Library.Multiset"
begin

text \<open>
  What a verification guarantees: it always succeeds on validated documents, its evidence is ranked
  and complete, disclosures that become available after an alert never turn into support for or
  against a claim at the alert, and a summary is consistent with its verifications.
\<close>

section \<open>Numbers\<close>

lemma structured_similarity_unit: "unit_range (structured_similarity c d)"
proof -
  have "unit_range (0.60 * l + 0.20 * a + 0.10 * b + 0.10 * e)"
    if "unit_range l" "unit_range a" "unit_range b" "unit_range e" for l a b e :: real
    using that by (auto simp: unit_range_def)
  note sum = this
  show ?thesis unfolding structured_similarity_def Let_def
    by (rule sum) (simp_all add: similarity_unit)
qed

lemma fold_max_Max: "fold max xs (x :: real) = Max (insert x (set xs))"
  using Max.set_eq_fold [of x xs] by simp

lemma best_reliability_Max:
  "ms \<noteq> [] \<Longrightarrow> best_reliability ms = Max (dc_reliability ` fst ` set ms)"
  by (cases ms) (auto simp: best_reliability_def fold_max_Max image_comp comp_def)

section \<open>The ranked evidence\<close>

definition evidence_key :: "verification_claim \<Rightarrow> datetime \<Rightarrow> scored \<Rightarrow> uuid \<times> evidence_relation" where
  "evidence_key c t m = (dc_disclosure_id (fst m), relation_of c t (fst m))"

definition entry_key :: "verification_evidence \<Rightarrow> uuid \<times> evidence_relation" where
  "entry_key e = (ve_disclosure_id e, ve_relation e)"

lemma evidence_entry_fields [simp]:
  "entry_key (evidence_entry c t r m) = evidence_key c t m" "ve_rank (evidence_entry c t r m) = r"
  "ve_temporal_eligible (evidence_entry c t r m) \<longleftrightarrow> dc_available_at (fst m) \<le> t"
  "ve_score (evidence_entry c t r m) = clamp (snd m * dc_reliability (fst m))"
  "ve_trust_score (evidence_entry c t r m) = dc_reliability (fst m)"
  by (cases m; simp add: evidence_entry_def entry_key_def evidence_key_def)+

lemma add_evidence_entry_alt:
  "add_evidence_entry c t m es =
     (if evidence_key c t m \<in> entry_key ` set es then es else es @ [evidence_entry c t (length es + 1) m])"
  by (simp add: add_evidence_entry_def evidence_key_def entry_key_def image_def)

lemma fold_evidence:
  assumes "map ve_rank es = [1..<Suc (length es)]" "distinct (map entry_key es)"
  shows "map ve_rank (fold (add_evidence_entry c t) ms es) = [1..<Suc (length (fold (add_evidence_entry c t) ms es))] \<and>
    distinct (map entry_key (fold (add_evidence_entry c t) ms es)) \<and>
    entry_key ` set (fold (add_evidence_entry c t) ms es) = entry_key ` set es \<union> evidence_key c t ` set ms"
  using assms
proof (induction ms arbitrary: es)
  case (Cons m ms)
  have "map ve_rank (add_evidence_entry c t m es) = [1..<Suc (length (add_evidence_entry c t m es))]"
    "distinct (map entry_key (add_evidence_entry c t m es))"
    "entry_key ` set (add_evidence_entry c t m es) = insert (evidence_key c t m) (entry_key ` set es)"
    using Cons.prems by (auto simp: add_evidence_entry_alt)
  with Cons.IH [of "add_evidence_entry c t m es"] show ?case by auto
qed simp

lemma fold_evidence_entries:
  "e \<in> set (fold (add_evidence_entry c t) ms es) \<Longrightarrow> e \<in> set es \<or> (\<exists>m \<in> set ms. \<exists>r. e = evidence_entry c t r m \<and> 1 \<le> r)"
proof (induction ms arbitrary: es)
  case (Cons m ms)
  from Cons.prems have "e \<in> set (fold (add_evidence_entry c t) ms (add_evidence_entry c t m es))" by simp
  from Cons.IH [OF this] show ?case
  proof
    assume "e \<in> set (add_evidence_entry c t m es)"
    then have "e \<in> set es \<or> e = evidence_entry c t (length es + 1) m"
      by (auto simp: add_evidence_entry_alt split: if_splits)
    then show ?thesis by (auto intro!: exI [of _ "length es + 1"])
  qed auto
qed simp

lemma ranked_set [simp]: "set (ranked ms) = set ms"
  by (simp add: ranked_def)

lemma evidence_for_shape:
  "map ve_rank (evidence_for c ms t) = [1..<Suc (length (evidence_for c ms t))] \<and>
   distinct (map entry_key (evidence_for c ms t)) \<and>
   entry_key ` set (evidence_for c ms t) = evidence_key c t ` set ms"
  using fold_evidence [of "[]" c t "ranked ms"] by (simp add: evidence_for_def)

lemma evidence_for_valid:
  assumes "\<forall>m \<in> set ms. unit_range (dc_reliability (fst m))"
  shows "list_all evidence_valid (evidence_for c ms t)"
proof -
  have "evidence_valid e" if "e \<in> set (evidence_for c ms t)" for e
    using fold_evidence_entries [of e c t "ranked ms" "[]"] that assms
    by (auto simp: evidence_for_def evidence_valid_def)
  then show ?thesis by (simp add: list_all_iff)
qed

section \<open>The verdict\<close>

definition risk_of :: "verification_result \<Rightarrow> real" where
  "risk_of r = (case r of vr_conflicting \<Rightarrow> 1 | vr_unsupported \<Rightarrow> 0.90 | vr_supported_after \<Rightarrow> 0.75
     | vr_unknown \<Rightarrow> 0.50 | vr_supported_before \<Rightarrow> 0.15)"

text \<open>The matches available at the alert, for and against the claim.\<close>

definition supports :: "real \<Rightarrow> verification_claim \<Rightarrow> datetime \<Rightarrow> disclosure_candidate \<Rightarrow> bool" where
  "supports th c t d \<longleftrightarrow> dc_available_at d \<le> t \<and> structured_similarity c d * dc_reliability d \<ge> th \<and>
     conflict_reasons c d = []"

definition contradicts :: "real \<Rightarrow> verification_claim \<Rightarrow> datetime \<Rightarrow> disclosure_candidate \<Rightarrow> bool" where
  "contradicts th c t d \<longleftrightarrow> dc_available_at d \<le> t \<and> structured_similarity c d * dc_reliability d \<ge> th \<and>
     conflict_reasons c d \<noteq> []"

definition follows :: "real \<Rightarrow> verification_claim \<Rightarrow> datetime \<Rightarrow> disclosure_candidate \<Rightarrow> bool" where
  "follows th c t d \<longleftrightarrow> dc_available_at d > t \<and> structured_similarity c d * dc_reliability d \<ge> th"

lemma matching_filters:
  "filter (\<lambda>(d, _). conflict_reasons c d \<noteq> []) (filter (\<lambda>(d, _). dc_available_at d \<le> t) (matching_of th c ds)) =
     map (\<lambda>d. (d, structured_similarity c d)) (filter (contradicts th c t) ds)"
  "filter (\<lambda>(d, _). conflict_reasons c d = []) (filter (\<lambda>(d, _). dc_available_at d \<le> t) (matching_of th c ds)) =
     map (\<lambda>d. (d, structured_similarity c d)) (filter (supports th c t) ds)"
  "filter (\<lambda>(d, _). dc_available_at d > t) (matching_of th c ds) =
     map (\<lambda>d. (d, structured_similarity c d)) (filter (follows th c t) ds)"
  by (induction ds) (auto simp: matching_of_def contradicts_def supports_def follows_def)

lemma verdict_cases:
  "vd_result (verdict_of th c t ds cov) =
     (if list_ex (contradicts th c t) ds then vr_conflicting
      else if list_ex (supports th c t) ds then vr_supported_before
      else if list_ex (follows th c t) ds then vr_supported_after
      else if \<not> coverage_complete cov then vr_unknown
      else if ds \<noteq> [] then vr_unsupported else vr_unknown)"
  unfolding verdict_of_def Let_def matching_filters
  by (simp add: filter_empty_conv list_ex_iff)

lemma verdict_risk: "vd_risk (verdict_of th c t ds cov) = risk_of (vd_result (verdict_of th c t ds cov))"
  by (simp add: verdict_of_def Let_def risk_of_def)

lemma verdict_legitimate:
  "vd_legitimate (verdict_of th c t ds cov) =
     (if vd_result (verdict_of th c t ds cov) = vr_supported_before
      then Max (dc_reliability ` {d \<in> set ds. supports th c t d}) else 0)"
  unfolding verdict_of_def Let_def matching_filters
  by (simp add: best_reliability_Max image_comp comp_def)

lemma verdict_evidence:
  "fst ` set (vd_evidence (verdict_of th c t ds cov)) = fst ` set (matching_of th c ds)"
proof -
  have "fst ` set (matching_of th c ds) = {d \<in> set ds. contradicts th c t d \<or> supports th c t d \<or> follows th c t d}"
    by (force simp: matching_of_def contradicts_def supports_def follows_def)
  then show ?thesis unfolding verdict_of_def Let_def matching_filters
    by (auto simp: filter_empty_conv image_Un image_comp comp_def)
qed

section \<open>A verification succeeds\<close>

definition explainer_ok :: "verifier \<Rightarrow> bool" where
  "explainer_ok vf \<longleftrightarrow> (case vf_explain vf of None \<Rightarrow> True
     | Some explain \<Rightarrow> (\<forall>c r ds e. explain c r ds = Inl e \<longrightarrow> caught e))"

definition documents_valid :: "documents \<Rightarrow> bool" where
  "documents_valid docs \<longleftrightarrow> (\<forall>(_, d, _) \<in> set docs. unit_range (dd_reliability d))"

lemma explanation_ok: "explainer_ok vf \<Longrightarrow> \<exists>x. explanation_of vf c vd = Inr x"
  by (auto simp: explainer_ok_def explanation_of_def split: option.splits sum.splits)

lemma latest_version_mem: "latest_version vs = Some v \<Longrightarrow> v \<in> set vs"
  using fold_higher_mem by (auto simp: latest_version_def split: list.splits)

lemma versions_of_stored: "(d, cs) \<in> set (versions_of l k docs) \<Longrightarrow> \<exists>s. (s, d, cs) \<in> set docs"
  by (auto simp: versions_of_def)

lemma candidates_stored:
  assumes "x \<in> set (candidates docs a t lb fd)"
  shows "\<exists>s d cs ch. (s, d, cs) \<in> set docs \<and> ch \<in> set cs \<and> x = candidate_of d ch"
proof -
  from assms obtain l k d cs ch where v: "(d, cs) \<in> set (select_versions t (versions_of l k docs))"
    "ch \<in> set cs" "x = candidate_of d ch"
    by (auto simp: candidates_def Let_def split: if_splits)
  from v(1) have "(d, cs) \<in> set (versions_of l k docs)"
    by (auto simp: select_versions_def dest: latest_version_mem [OF sym] split: option.splits)
  with v(2,3) versions_of_stored show ?thesis by blast
qed

lemma candidates_valid:
  "documents_valid docs \<Longrightarrow> x \<in> set (candidates docs a t lb fd) \<Longrightarrow> unit_range (dc_reliability x)"
  by (drule candidates_stored) (fastforce simp: documents_valid_def candidate_of_def)

lemma matching_of_candidate: "m \<in> set (matching_of th c ds) \<Longrightarrow> fst m \<in> set ds"
  by (auto simp: matching_of_def)

lemma verdict_unit:
  assumes "\<forall>d \<in> set ds. unit_range (dc_reliability d)"
  shows "unit_range (vd_risk (verdict_of th c t ds cov))" "unit_range (vd_legitimate (verdict_of th c t ds cov))"
proof -
  show "unit_range (vd_risk (verdict_of th c t ds cov))"
    by (simp add: verdict_risk risk_of_def unit_range_def split: verification_result.splits)
  let ?S = "{d \<in> set ds. supports th c t d}"
  have "unit_range (Max (dc_reliability ` ?S))" if "vd_result (verdict_of th c t ds cov) = vr_supported_before"
  proof -
    have "dc_reliability ` ?S \<noteq> {}" using that by (auto simp: verdict_cases list_ex_iff split: if_splits)
    then have "Max (dc_reliability ` ?S) \<in> dc_reliability ` ?S" by (intro Max_in) auto
    with assms show ?thesis by auto
  qed
  then show "unit_range (vd_legitimate (verdict_of th c t ds cov))" by (simp add: verdict_legitimate)
qed

definition candidates_for :: "verifier \<Rightarrow> repository \<Rightarrow> verification_claim \<Rightarrow> datetime \<Rightarrow> disclosure_candidate list" where
  "candidates_for vf repo c t = candidates (vx_documents repo) (cl_asset_id c) t (vf_lookback_days vf) (vf_future_days vf)"

lemma verify_Inr:
  assumes "verify vf repo now c t = Inr v"
  shows "cv_result v = vd_result (verdict_of (vf_threshold vf) c t (candidates_for vf repo c t) (source_coverage repo (cl_asset_id c))) \<and>
    cv_claim_risk v = risk_of (cv_result v) \<and>
    cv_legitimate_event_score v =
      vd_legitimate (verdict_of (vf_threshold vf) c t (candidates_for vf repo c t) (source_coverage repo (cl_asset_id c))) \<and>
    cv_evidence v = evidence_for c (matching_of (vf_threshold vf) c (candidates_for vf repo c t)) t \<and>
    cv_evidence_document_ids v = sort (remdups (map (dc_disclosure_id \<circ> fst)
      (vd_evidence (verdict_of (vf_threshold vf) c t (candidates_for vf repo c t) (source_coverage repo (cl_asset_id c)))))) \<and>
    cv_verification_id v = env_uuid5 (vf_env vf) (''verification:'' @ cl_claim_id c @ '':'' @
      env_isoformat (vf_env vf) t @ '':'' @ verifier_version)"
  using assms
  by (auto simp: verify_def Let_def build_verification_def candidates_for_def verdict_risk split: sum.splits if_splits)

lemma verify_total:
  assumes "explainer_ok vf" "documents_valid (vx_documents repo)"
  shows "\<exists>v. verify vf repo now c t = Inr v"
proof -
  have units: "\<forall>d \<in> set (candidates_for vf repo c t). unit_range (dc_reliability d)"
    using candidates_valid [OF assms(2)] by (auto simp: candidates_for_def)
  then have "\<forall>m \<in> set (matching_of (vf_threshold vf) c (candidates_for vf repo c t)). unit_range (dc_reliability (fst m))"
    using matching_of_candidate by blast
  from evidence_for_valid [OF this] verdict_unit [OF units] explanation_ok [OF assms(1)]
  show ?thesis
    by (auto simp: verify_def Let_def build_verification_def candidates_for_def split: sum.splits)
      (metis Inr_Inl_False)+
qed


section \<open>The verdict looks at no later document\<close>

text \<open>What a verifier asks of its repository: the candidates available at a time depend only on what the
  repository knows at that time.\<close>

locale candidate_source =
  fixes search :: "'r \<Rightarrow> string \<Rightarrow> datetime \<Rightarrow> int \<Rightarrow> int \<Rightarrow> disclosure_candidate list"
    and known :: "'r \<Rightarrow> datetime \<Rightarrow> 'k"
  assumes known_search: "known r t = known r' t \<Longrightarrow>
    {d \<in> set (search r a t lb fd). dc_available_at d \<le> t} = {d \<in> set (search r' a t lb fd). dc_available_at d \<le> t}"
begin

lemma same_before:
  assumes "known r t = known r' t"
  shows "list_ex (contradicts th c t) (search r a t lb fd) = list_ex (contradicts th c t) (search r' a t lb fd)"
    and "{d \<in> set (search r a t lb fd). supports th c t d} = {d \<in> set (search r' a t lb fd). supports th c t d}"
proof -
  from known_search [OF assms] have iff: "dc_available_at d \<le> t \<Longrightarrow> d \<in> set (search r a t lb fd) \<longleftrightarrow> d \<in> set (search r' a t lb fd)" for d
    by blast
  show "list_ex (contradicts th c t) (search r a t lb fd) = list_ex (contradicts th c t) (search r' a t lb fd)"
    unfolding list_ex_iff contradicts_def using iff by blast
  show "{d \<in> set (search r a t lb fd). supports th c t d} = {d \<in> set (search r' a t lb fd). supports th c t d}"
    unfolding supports_def using iff by blast
qed

lemma verdict_no_lookahead:
  assumes "known r t = known r' t" "v = verdict_of th c t (search r a t lb fd) cov"
    "v' = verdict_of th c t (search r' a t lb fd) cov'"
  shows "(vd_result v = vr_conflicting \<longleftrightarrow> vd_result v' = vr_conflicting) \<and>
    (vd_result v = vr_supported_before \<longleftrightarrow> vd_result v' = vr_supported_before) \<and>
    vd_legitimate v = vd_legitimate v'"
proof -
  have "list_ex (supports th c t) (search r a t lb fd) = list_ex (supports th c t) (search r' a t lb fd)"
    using same_before(2) [OF assms(1), where a = a and lb = lb and fd = fd and th = th and c = c] by (auto simp: list_ex_iff)
  with same_before [OF assms(1), where a = a and lb = lb and fd = fd and th = th and c = c] show ?thesis
    unfolding assms(2,3) verdict_legitimate by (simp add: verdict_cases)
qed

end

text \<open>What the repository knows at a time: the documents available then, apart from their status, which
  a later version changes. Documents that went through ingestion have \<open>available_at\<close>, so both
  conditions are the same for them.\<close>

definition without_status :: "stored_document \<Rightarrow> stored_document" where
  "without_status = (\<lambda>(d, cs). (d\<lparr>dd_version_status := []\<rparr>, cs))"

definition candidate_time :: "disclosure_document \<Rightarrow> datetime" where
  "candidate_time d = (case dd_available_at d of None \<Rightarrow> max (observed_at d) (ingested_at d) | Some t \<Rightarrow> t)"

definition is_known :: "datetime \<Rightarrow> stored_document \<Rightarrow> bool" where
  "is_known t v \<longleftrightarrow> availability (fst v) \<le> t \<or> candidate_time (fst v) \<le> t"

definition known_at :: "documents \<Rightarrow> datetime \<Rightarrow> stored_document list" where
  "known_at docs t = map without_status (filter (is_known t) (map snd docs))"

lemma status_fields [simp]:
  "logical_key (d\<lparr>dd_version_status := s\<rparr>) = logical_key d"
  "document_key (d\<lparr>dd_version_status := s\<rparr>) = document_key d"
  "availability (d\<lparr>dd_version_status := s\<rparr>) = availability d"
  "relevant a lo hi (d\<lparr>dd_version_status := s\<rparr>) \<longleftrightarrow> relevant a lo hi d"
  "candidate_of (d\<lparr>dd_version_status := s\<rparr>) ch = candidate_of d ch"
  "candidate_time (d\<lparr>dd_version_status := s\<rparr>) = candidate_time d"
  by (simp_all add: logical_key_def document_key_def availability_def candidate_of_def
      observed_at_def ingested_at_def relevant_def candidate_time_def cong: option.case_cong)

lemma without_status_fields [simp]:
  "logical_key (fst (without_status v)) = logical_key (fst v)" "document_key (fst (without_status v)) = document_key (fst v)"
  "availability (fst (without_status v)) = availability (fst v)" "snd (without_status v) = snd v"
  "dd_document_version (fst (without_status v)) = dd_document_version (fst v)"
  "candidate_of (fst (without_status v)) ch = candidate_of (fst v) ch"
  "relevant a lo hi (fst (without_status v)) \<longleftrightarrow> relevant a lo hi (fst v)"
  "candidate_time (fst (without_status v)) = candidate_time (fst v)"
  by (simp_all add: without_status_def case_prod_beta)

lemma candidate_time_of: "dc_available_at (candidate_of d ch) = candidate_time d"
  by (simp add: candidate_of_def candidate_time_def)

lemma latest_version_without_status: "latest_version (map without_status vs) = map_option without_status (latest_version vs)"
proof -
  have "fold higher_version (map without_status ds) (without_status d) = without_status (fold higher_version ds d)" for ds d
    by (induction ds arbitrary: d) (simp_all add: higher_version_def)
  then show ?thesis by (cases vs) (simp_all add: latest_version_def)
qed

text \<open>The candidates of one document that count as available.\<close>

definition contribution :: "string \<Rightarrow> datetime \<Rightarrow> datetime \<Rightarrow> stored_document \<Rightarrow> disclosure_candidate set" where
  "contribution a lo hi v = (if relevant a lo hi (fst v) then candidate_of (fst v) ` set (snd v) else {})"

lemma contribution_without_status [simp]: "contribution a lo hi (without_status v) = contribution a lo hi v"
  by (simp add: contribution_def)

lemma contribution_time: "d \<in> contribution a lo hi v \<Longrightarrow> dc_available_at d = candidate_time (fst v)"
  by (auto simp: contribution_def candidate_time_of split: if_splits)

definition before_of :: "string \<Rightarrow> datetime \<Rightarrow> int \<Rightarrow> int \<Rightarrow> stored_document list \<Rightarrow> disclosure_candidate set" where
  "before_of a t lb fd vs = (\<Union>v \<in> {v \<in> set (select_versions t vs). candidate_time (fst v) \<le> t}.
     contribution a (t - days lb) (t + days fd) v)"

lemma select_versions_alt:
  "select_versions t vs = (case latest_version (filter (\<lambda>v. availability (fst v) \<le> t) vs) of None \<Rightarrow> [] | Some v \<Rightarrow> [v]) @
     filter (\<lambda>v. availability (fst v) > t) vs"
proof -
  have "(\<lambda>(d, _). availability d \<le> t) = (\<lambda>v :: stored_document. availability (fst v) \<le> t)"
    "(\<lambda>(d, _). availability d > t) = (\<lambda>v :: stored_document. availability (fst v) > t)" by auto
  then show ?thesis by (simp only: select_versions_def)
qed

lemma select_versions_known:
  "{v \<in> set (select_versions t (filter (is_known t) vs)). candidate_time (fst v) \<le> t} =
   {v \<in> set (select_versions t vs). candidate_time (fst v) \<le> t}"
proof -
  have "filter (\<lambda>v. availability (fst v) \<le> t) (filter (is_known t) vs) = filter (\<lambda>v. availability (fst v) \<le> t) vs"
    by (induction vs) (auto simp: is_known_def)
  then show ?thesis by (auto simp: select_versions_alt is_known_def)
qed

lemma select_versions_without_status:
  "select_versions t (map without_status vs) = map without_status (select_versions t vs)"
  by (simp add: select_versions_alt filter_map comp_def latest_version_without_status split: option.splits)

lemma before_of_known: "before_of a t lb fd (map without_status (filter (is_known t) vs)) = before_of a t lb fd vs"
proof -
  have "{v \<in> without_status ` S. candidate_time (fst v) \<le> t} = without_status ` {v \<in> S. candidate_time (fst v) \<le> t}" for S
    by auto
  then show ?thesis
    by (simp add: before_of_def select_versions_without_status select_versions_known)
qed

lemma versions_of_alt: "versions_of l k docs = filter (\<lambda>v. logical_key (fst v) = l \<and> document_key (fst v) = k) (map snd docs)"
proof -
  have "(\<lambda>(d, _). logical_key d = l \<and> document_key d = k) =
    (\<lambda>v :: stored_document. logical_key (fst v) = l \<and> document_key (fst v) = k)" by auto
  then show ?thesis by (simp only: versions_of_def)
qed

lemma known_versions:
  "filter (\<lambda>v. logical_key (fst v) = l \<and> document_key (fst v) = k) (known_at docs t) =
     map without_status (filter (is_known t) (versions_of l k docs))"
  by (simp add: known_at_def versions_of_alt filter_map comp_def conj_commute)

lemma group_keys_mem: "versions_of l k docs \<noteq> [] \<Longrightarrow> (l, k) \<in> set (group_keys docs)"
  by (force simp: versions_of_def group_keys_def first_occurrences_def filter_empty_conv)

lemma select_versions_Nil [simp]: "select_versions t [] = []"
  by (simp add: select_versions_def latest_version_def)

lemma candidates_set:
  "d \<in> set (candidates docs a t lb fd) \<longleftrightarrow> (\<exists>l k. \<exists>v \<in> set (select_versions t (versions_of l k docs)).
     d \<in> contribution a (t - days lb) (t + days fd) v)"
proof -
  have "(\<exists>l k. (l, k) \<in> set (group_keys docs) \<and> (\<exists>v \<in> set (select_versions t (versions_of l k docs)). P v)) \<longleftrightarrow>
      (\<exists>l k. \<exists>v \<in> set (select_versions t (versions_of l k docs)). P v)" for P
  proof -
    have "(l, k) \<in> set (group_keys docs)" if "v \<in> set (select_versions t (versions_of l k docs))" for v l k
      using that by (intro group_keys_mem) auto
    then show ?thesis by blast
  qed
  note groups = this
  have entry: "set (case v of (d, cs) \<Rightarrow> if relevant a lo hi d then map (candidate_of d) cs else []) = contribution a lo hi v"
    for lo hi v by (cases v) (simp add: contribution_def)
  have "set (candidates docs a t lb fd) = (\<Union>x \<in> set (group_keys docs).
      \<Union>v \<in> set (case x of (l, k) \<Rightarrow> select_versions t (versions_of l k docs)). contribution a (t - days lb) (t + days fd) v)"
    by (simp only: candidates_def Let_def set_sort set_concat set_map image_image UN_UN_flatten entry)
  then show ?thesis unfolding groups [symmetric] by fastforce
qed

lemma candidates_before:
  "{d \<in> set (candidates docs a t lb fd). dc_available_at d \<le> t} =
     (\<Union>(l, k). before_of a t lb fd (filter (\<lambda>v. logical_key (fst v) = l \<and> document_key (fst v) = k) (known_at docs t)))"
proof -
  have "d \<in> set (candidates docs a t lb fd) \<and> dc_available_at d \<le> t \<longleftrightarrow> (\<exists>l k. d \<in> before_of a t lb fd (versions_of l k docs))" for d
    unfolding candidates_set before_of_def using contribution_time by fastforce
  then show ?thesis by (auto simp: known_versions before_of_known)
qed

interpretation memory_source: candidate_source candidates known_at
  by unfold_locales (simp only: candidates_before)

lemma known_at_append: "known_at (docs @ docs') t = known_at docs t @ known_at docs' t"
  by (simp add: known_at_def)

lemma known_at_supersede: "known_at (supersede i docs) t = known_at docs t"
proof -
  have same: "without_status (set_superseded i v) = without_status v" "is_known t (set_superseded i v) = is_known t v" for v
    by (cases v; simp add: without_status_def set_superseded_def is_known_def)+
  have "known_at (supersede i docs) t = map without_status (filter (is_known t) (map (set_superseded i) (map snd docs)))"
    by (simp add: known_at_def supersede_map comp_def case_prod_beta)
  then show ?thesis by (simp add: known_at_def filter_map comp_def same)
qed

lemma future_version:
  assumes "t < now"
  shows "known_at [(s, prepare_version env now False latest d, cs)] t = []"
  using assms by (simp add: known_at_def is_known_def prepare_version_def Let_def availability_def candidate_time_def)

lemma store_future:
  assumes "docs_ok docs" "colon_free (logical_key d)" "t < now"
  shows "known_at (store_delivery env cf (now, False, d) docs) t = known_at docs t"
  using assms(1,2)
proof (cases rule: persist_versioned_cases [where env = env and now = now and cf = cf and p = False])
  case 1
  then show ?thesis by (simp add: store_delivery_def)
next
  case (2 prepared docs1)
  have "known_at docs1 t = known_at docs t" using 2(3) by (simp add: known_at_supersede)
  then show ?thesis using 2(1,5) future_version [OF assms(3)]
    by (simp add: store_delivery_def known_at_append)
qed

lemma store_future_run:
  assumes "docs_ok docs" "list_all (\<lambda>(now, p, d). colon_free (logical_key d) \<and> \<not> p \<and> t < now) ds"
  shows "known_at (fold (store_delivery env cf) ds docs) t = known_at docs t"
  using assms
proof (induction ds arbitrary: docs)
  case (Cons x ds)
  obtain now d where x: "x = (now, False, d)" "colon_free (logical_key d)" "t < now"
    using Cons.prems(2) by (cases x) auto
  obtain r docs' where step: "persist_versioned_disclosure env now cf False d docs = (r, docs')" by fastforce
  then have "docs_ok (store_delivery env cf x docs)"
    using persist_versioned_ok [OF Cons.prems(1) x(2) step] by (simp add: store_delivery_def x(1))
  with Cons.IH [of "store_delivery env cf x docs"] store_future [OF Cons.prems(1) x(2,3)] Cons.prems(2)
  show ?case by (simp add: x(1))
qed simp


definition sample_claim :: verification_claim where
  "sample_claim = \<lparr>cl_claim_id = ''c1'', cl_narrative_id = ''n1'', cl_asset_id = ''ACME'',
     cl_claim_text = ''acme wins contract'', cl_claim_type = ''CONTRACT_AWARD'',
     cl_canonical_payload = Some (canonical_claim_of ''ACME'' ''acme wins contract''), cl_claim_hash = ''h'',
     cl_extracted_at = 9, cl_extractor_version = extractor_version\<rparr>"

definition sample_chunks :: "disclosure_document \<Rightarrow> disclosure_chunk list" where
  "sample_chunks d = [\<lparr>ch_chunk_id = dd_disclosure_id d, ch_disclosure_id = dd_disclosure_id d, ch_chunk_index = 0,
     ch_text = dd_body d, ch_token_count = 3, ch_embedding_version = ''e1'', ch_metadata = []\<rparr>]"

definition sample_deliveries :: "delivery list" where
  "sample_deliveries = [(5, False, sample_disclosure ''k'' ''acme wins contract'' 5)]"

definition sample_repository :: repository where
  "sample_repository = empty_repository\<lparr>vx_documents := fold (store_delivery sample_env sample_chunks) sample_deliveries []\<rparr>"

lemma sample_verdict:
  "vd_result (verdict_of 0.34 sample_claim 9 (candidates (vx_documents sample_repository) ''ACME'' 9 30 7) []) = vr_supported_before"
  by code_simp

lemma sample_repository_ok: "docs_ok (vx_documents sample_repository)"
proof -
  have "list_all (\<lambda>(_, _, d). colon_free (logical_key d)) sample_deliveries"
    by (simp add: sample_deliveries_def sample_disclosure_def colon_free_def logical_key_def or_str_def)
  from store_run [OF this, of sample_env sample_chunks] show ?thesis
    by (simp add: sample_repository_def empty_repository_def)
qed

lemma documents_valid_update:
  "documents_valid docs \<Longrightarrow> unit_range (dd_reliability (fst v)) \<Longrightarrow> documents_valid (AList.update k v docs)"
  by (induction docs) (auto simp: documents_valid_def)

lemma documents_valid_supersede: "documents_valid docs \<Longrightarrow> documents_valid (supersede i docs)"
  by (fastforce simp: documents_valid_def supersede_def)

lemma store_delivery_valid:
  assumes "documents_valid docs" "unit_range (dd_reliability d)"
  shows "documents_valid (store_delivery env cf (now, p, d) docs)"
proof -
  have "dd_reliability (prepare_version env now p latest d) = dd_reliability d" for latest
    by (simp add: prepare_version_def Let_def)
  with assms show ?thesis
    by (simp add: store_delivery_def persist_versioned_disclosure_def Let_def documents_valid_update
        documents_valid_supersede split: option.split)
qed

lemma sample_repository_valid: "documents_valid (vx_documents sample_repository)"
  by (auto simp: sample_repository_def empty_repository_def sample_deliveries_def documents_valid_def [of "[]"]
      sample_disclosure_def intro!: store_delivery_valid)



section \<open>Extraction and summaries\<close>

lemma fold_keep:
  assumes "distinct (map cl_claim_hash acc)"
  shows "distinct (map cl_claim_hash (fold keep_claim cs acc)) \<and>
    cl_claim_hash ` set (fold keep_claim cs acc) = cl_claim_hash ` set acc \<union> cl_claim_hash ` set cs \<and>
    set (fold keep_claim cs acc) \<subseteq> set acc \<union> set cs \<and>
    length (fold keep_claim cs acc) \<le> length acc + length cs"
  using assms
proof (induction cs arbitrary: acc)
  case (Cons c cs)
  have "distinct (map cl_claim_hash (keep_claim c acc))" "length (keep_claim c acc) \<le> Suc (length acc)"
    "cl_claim_hash ` set (keep_claim c acc) = insert (cl_claim_hash c) (cl_claim_hash ` set acc)"
    "set (keep_claim c acc) \<subseteq> insert c (set acc)"
    using Cons.prems by (auto simp: keep_claim_def)
  with Cons.IH [of "keep_claim c acc"] show ?case by (auto simp: subset_eq)
qed simp

text \<open>Extraction: at most five claims, each the canonical form of one of the first five candidate
  clauses; every one of these clauses is represented, and when the digest does not collide no two
  claims have the same canonical form, because the JSON text that is hashed determines it.\<close>

theorem extraction_canonical:
  fixes env :: py_env and n :: narrative_cluster and t :: datetime
  assumes "inj (env_sha256 env)"
  defines "cs \<equiv> extract_claims env n t" and "texts \<equiv> take 5 (claim_candidates (nc_summary n))"
  shows "length cs \<le> 5 \<and> distinct (map cl_canonical_payload cs) \<and>
    set (map cl_canonical_payload cs) = (\<lambda>text. Some (canonical_claim_of (nc_asset_id n) text)) ` set texts \<and>
    (\<forall>c \<in> set cs. cl_claim_text c \<in> set texts \<and>
       cl_canonical_payload c = Some (canonical_claim_of (nc_asset_id n) (cl_claim_text c)))"
proof -
  let ?all = "map (claim_from env n t) texts"
  have cs: "cs = fold keep_claim ?all []" by (simp add: cs_def texts_def extract_claims_def)
  note kept = fold_keep [of "[]" ?all, folded cs, simplified]
  have from_text: "c \<in> set cs \<Longrightarrow> \<exists>text \<in> set texts. c = claim_from env n t text" for c
    using kept by auto
  have payload: "cl_canonical_payload (claim_from env n t x) = Some (canonical_claim_of (nc_asset_id n) x)"
    "cl_claim_hash (claim_from env n t x) = env_sha256 env (canonical_json (canonical_claim_of (nc_asset_id n) x))"
    "cl_claim_text (claim_from env n t x) = x" for x
    by (simp_all add: claim_from_def Let_def)
  have hash_iff: "cl_claim_hash (claim_from env n t x) = cl_claim_hash (claim_from env n t y) \<longleftrightarrow>
      cl_canonical_payload (claim_from env n t x) = cl_canonical_payload (claim_from env n t y)" for x y
    using canonical_json_inject by (auto simp: payload inj_eq [OF assms(1)])
  have kept: "distinct (map cl_claim_hash cs)" "cl_claim_hash ` set cs = cl_claim_hash ` set ?all" "length cs \<le> length ?all"
    using kept by simp_all
  have "inj_on cl_canonical_payload (set cs)"
  proof (rule inj_onI)
    fix c d assume cd: "c \<in> set cs" "d \<in> set cs" "cl_canonical_payload c = cl_canonical_payload d"
    then have "cl_claim_hash c = cl_claim_hash d" using from_text hash_iff by metis
    with kept(1) cd(1,2) show "c = d" by (simp add: distinct_map inj_on_def)
  qed
  then have "distinct (map cl_canonical_payload cs)" using kept(1) by (simp add: distinct_map)
  moreover have "set (map cl_canonical_payload cs) = cl_canonical_payload ` set ?all"
  proof (intro equalityI subsetI)
    fix q assume "q \<in> set (map cl_canonical_payload cs)"
    then show "q \<in> cl_canonical_payload ` set ?all" using from_text by fastforce
  next
    fix q assume "q \<in> cl_canonical_payload ` set ?all"
    then obtain x where x: "x \<in> set texts" "q = cl_canonical_payload (claim_from env n t x)" by auto
    then have "cl_claim_hash (claim_from env n t x) \<in> cl_claim_hash ` set cs" using kept(2) by simp
    then obtain c where "c \<in> set cs" "cl_claim_hash (claim_from env n t x) = cl_claim_hash c" by blast
    moreover from this(1) obtain y where "c = claim_from env n t y" using from_text by blast
    ultimately show "q \<in> set (map cl_canonical_payload cs)" using x(2) hash_iff by force
  qed
  moreover have "length cs \<le> 5" using kept(3) by (simp add: texts_def)
  moreover have "cl_claim_text c \<in> set texts \<and> cl_canonical_payload c = Some (canonical_claim_of (nc_asset_id n) (cl_claim_text c))"
    if "c \<in> set cs" for c
    using from_text [OF that] by (auto simp: payload)
  ultimately show ?thesis by (auto simp: payload image_comp comp_def)
qed

theorem extraction_canonical_witness:
  "\<forall>n. length (extract_claims sample_env n 9) \<le> 5 \<and> distinct (map cl_canonical_payload (extract_claims sample_env n 9))"
  using extraction_canonical [of sample_env] by (simp add: sample_env_def inj_on_def)

lemma verify_all_Inr:
  "verify_all vf repo clock i cs t = Inr vs \<Longrightarrow> length vs = length cs \<and>
     (\<forall>j < length cs. verify vf repo (clock (i + j)) (cs ! j) t = Inr (vs ! j))"
proof (induction vf repo clock i cs t arbitrary: vs rule: verify_all.induct)
  case (2 vf repo clock i c cs t)
  then obtain v ws where "verify vf repo (clock i) c t = Inr v" "verify_all vf repo clock (Suc i) cs t = Inr ws" "vs = v # ws"
    by (auto split: sum.splits)
  with "2.IH" show ?case by (auto simp: nth_Cons' less_Suc_eq_0_disj)
qed simp

lemma verify_all_members:
  assumes "verify_all vf repo clock i cs t = Inr vs" "v \<in> set vs"
  shows "\<exists>now c. c \<in> set cs \<and> verify vf repo now c t = Inr v"
  using verify_all_Inr [OF assms(1)] assms(2) by (metis in_set_conv_nth)

lemma aggregate_max:
  assumes "rs \<noteq> []"
  shows "aggregate_result rs \<in> set rs \<and> (\<forall>r \<in> set rs. precedence r \<le> precedence (aggregate_result rs))"
proof -
  let ?f = "\<lambda>x best. if precedence best < precedence x then x else best"
  have "fold ?f xs b \<in> insert b (set xs) \<and> (\<forall>r \<in> insert b (set xs). precedence r \<le> precedence (fold ?f xs b))" for xs b
  proof (induction xs arbitrary: b)
    case (Cons x xs)
    from Cons.IH [of "?f x b"] show ?case by (auto split: if_splits)
  qed simp
  from this [of "tl rs" "hd rs"] show ?thesis using assms by (cases rs) (auto simp: aggregate_result_def)
qed

lemma risk_precedence: "risk_of r \<le> risk_of s \<longleftrightarrow> precedence r \<le> precedence s"
  by (cases r; cases s) (simp_all add: risk_of_def)

lemma max_of_Max: "xs \<noteq> [] \<Longrightarrow> max_of xs = Max (set xs)"
  by (cases xs) (simp_all add: max_of_def fold_max_Max)

lemma process_narrative_Inr:
  assumes "process_narrative sv clock corr event repo = (Inr s, repo')"
  obtains raw n cs vs payload e where "payload_item (ce_payload event) ''narrative'' = Inr raw"
    "sv_decode_narrative sv raw = Inr n" "cs = extract_claims (vf_env (sv_verifier sv)) n (ce_event_time event)"
    "verify_all (sv_verifier sv) repo clock 0 cs (ce_event_time event) = Inr vs" "vs \<noteq> []"
    "s = summary_of (vf_env (sv_verifier sv)) n (ce_event_time event) cs vs"
    "summary_event (vf_env (sv_verifier sv)) n (ce_event_time event) (clock (length cs)) (clock (length cs + 1)) payload
       (vs_verification_snapshot_id s) corr = Inr e"
    "repo' = snd (persist_verifications vs e repo)"
  using assms by (auto simp: process_narrative_def Let_def split: sum.splits if_splits)

lemma process_narrative_fails:
  "process_narrative sv clock corr event repo = (Inl e, repo') \<Longrightarrow> repo' = repo"
  by (auto simp: process_narrative_def Let_def split: sum.splits if_splits)

lemma first_verification_id:
  assumes "verify_all (sv_verifier sv) repo clock 0 cs t = Inr vs" "vs \<noteq> []"
  shows "cv_verification_id (hd vs) = env_uuid5 (vf_env (sv_verifier sv)) (''verification:'' @ cl_claim_id (hd cs) @ '':'' @
      env_isoformat (vf_env (sv_verifier sv)) t @ '':'' @ verifier_version)"
proof -
  from verify_all_Inr [OF assms(1)] assms(2)
  have "verify (sv_verifier sv) repo (clock (0 + 0)) (cs ! 0) t = Inr (vs ! 0)" "cs \<noteq> []" by fastforce+
  with verify_Inr [OF this(1)] assms(2) show ?thesis by (simp add: hd_conv_nth)
qed

lemma summary_consistent:
  assumes "vs \<noteq> []" "\<And>v. v \<in> set vs \<Longrightarrow> cv_claim_risk v = risk_of (cv_result v)"
    and "\<And>v. v \<in> set vs \<Longrightarrow> 0 < cv_legitimate_event_score v \<Longrightarrow> cv_result v = vr_supported_before"
    and "s = summary_of env n t cs vs"
  shows "vs_result s \<in> cv_result ` set vs \<and> (\<forall>v \<in> set vs. precedence (cv_result v) \<le> precedence (vs_result s)) \<and>
    vs_claim_risk s = risk_of (vs_result s) \<and>
    (0 < vs_legitimate_event_score s \<longrightarrow> (\<exists>v \<in> set vs. cv_result v = vr_supported_before))"
proof -
  have fields: "vs_result s = aggregate_result (map cv_result vs)"
    "vs_claim_risk s = Max (cv_claim_risk ` set vs)" "vs_legitimate_event_score s = Max (cv_legitimate_event_score ` set vs)"
    using assms(1,4) by (simp_all add: summary_of_def max_of_Max)
  have agg: "vs_result s \<in> cv_result ` set vs" "\<forall>v \<in> set vs. precedence (cv_result v) \<le> precedence (vs_result s)"
    using aggregate_max [of "map cv_result vs"] assms(1) by (auto simp: fields(1))
  then have "Max (cv_claim_risk ` set vs) = risk_of (vs_result s)"
    using assms(1,2) by (intro Max_eqI) (auto simp: risk_precedence)
  moreover have "Max (cv_legitimate_event_score ` set vs) \<in> cv_legitimate_event_score ` set vs"
    using assms(1) by (intro Max_in) auto
  then have "0 < vs_legitimate_event_score s \<longrightarrow> (\<exists>v \<in> set vs. cv_result v = vr_supported_before)"
    using assms(3) by (force simp: fields(3))
  ultimately show ?thesis using agg fields(2) by simp
qed

lemma persist_verifications_effect:
  assumes "repo' = snd (persist_verifications vs e repo)" "vs \<noteq> []"
  shows "vx_documents repo' = vx_documents repo \<and> (vx_outbox repo' = vx_outbox repo \<or> vx_outbox repo' = vx_outbox repo @ [e]) \<and>
    cv_verification_id (hd vs) \<in> cv_verification_id ` set (vx_verifications repo')"
  using assms by (auto simp: persist_verifications_def)

lemma persist_known:
  "cv_verification_id (hd vs) \<in> cv_verification_id ` set (vx_verifications repo) \<Longrightarrow> snd (persist_verifications vs e repo) = repo"
  by (simp add: persist_verifications_def)

lemma process_again:
  assumes "process_narrative sv clock corr event repo = (Inr s, repo')"
    "vx_verifications later = vx_verifications repo'"
  shows "snd (process_narrative sv clock' corr' event later) = later"
proof (cases "process_narrative sv clock' corr' event later")
  case (Pair r after)
  show ?thesis
  proof (cases r)
    case (Inl x)
    with Pair process_narrative_fails show ?thesis by fastforce
  next
    case (Inr s2)
    obtain raw n cs vs e where run: "payload_item (ce_payload event) ''narrative'' = Inr raw"
      "sv_decode_narrative sv raw = Inr n" "cs = extract_claims (vf_env (sv_verifier sv)) n (ce_event_time event)"
      "verify_all (sv_verifier sv) repo clock 0 cs (ce_event_time event) = Inr vs" "vs \<noteq> []"
      "repo' = snd (persist_verifications vs e repo)"
      by (rule process_narrative_Inr [OF assms(1)])
    obtain raw2 n2 cs2 vs2 e2 where again: "payload_item (ce_payload event) ''narrative'' = Inr raw2"
      "sv_decode_narrative sv raw2 = Inr n2" "cs2 = extract_claims (vf_env (sv_verifier sv)) n2 (ce_event_time event)"
      "verify_all (sv_verifier sv) later clock' 0 cs2 (ce_event_time event) = Inr vs2" "vs2 \<noteq> []"
      "after = snd (persist_verifications vs2 e2 later)"
      by (rule process_narrative_Inr [OF Pair [unfolded Inr]])
    have "cs2 = cs" using run(1-3) again(1-3) by simp
    then have "cv_verification_id (hd vs2) = cv_verification_id (hd vs)"
      using first_verification_id [OF again(4,5)] first_verification_id [OF run(4,5)] by simp
    then have "after = later"
      using persist_verifications_effect [OF run(6,5)] assms(2) again(6) persist_known by metis
    with Pair show ?thesis by simp
  qed
qed

text \<open>A summary agrees with its verifications: its result is the gravest one among them, its risk is
  the risk that goes with this result, and a positive legitimate-event score needs a claim supported
  before the alert. Processing writes at most one event, and the same narrative event processed
  again leaves the repository as it is, even if disclosures arrived in between.\<close>

theorem narrative_summary:
  assumes "process_narrative sv clock corr event repo = (Inr s, repo')"
  shows "vs_result s \<in> cv_result ` set (vs_verifications s) \<and>
    (\<forall>v \<in> set (vs_verifications s). precedence (cv_result v) \<le> precedence (vs_result s)) \<and>
    vs_claim_risk s = risk_of (vs_result s) \<and>
    (0 < vs_legitimate_event_score s \<longrightarrow> (\<exists>v \<in> set (vs_verifications s). cv_result v = vr_supported_before)) \<and>
    (\<exists>e. vx_outbox repo' = vx_outbox repo \<or> vx_outbox repo' = vx_outbox repo @ [e]) \<and>
    vx_documents repo' = vx_documents repo \<and>
    (let later = repo'\<lparr>vx_documents := docs\<rparr> in snd (process_narrative sv clock' corr' event later) = later)"
proof -
  obtain n cs vs e where run: "verify_all (sv_verifier sv) repo clock 0 cs (ce_event_time event) = Inr vs" "vs \<noteq> []"
    "s = summary_of (vf_env (sv_verifier sv)) n (ce_event_time event) cs vs"
    "repo' = snd (persist_verifications vs e repo)"
    by (rule process_narrative_Inr [OF assms])
  have verified: "\<exists>now c. verify (sv_verifier sv) repo now c (ce_event_time event) = Inr v" if "v \<in> set vs" for v
    using verify_all_members [OF run(1) that] by blast
  then have "cv_claim_risk v = risk_of (cv_result v)" if "v \<in> set vs" for v using verify_Inr that by blast
  moreover have "cv_result v = vr_supported_before" if "v \<in> set vs" "0 < cv_legitimate_event_score v" for v
    using verified [OF that(1)] that(2) verify_Inr by (metis less_irrefl verdict_legitimate)
  ultimately show ?thesis
    using summary_consistent [OF run(2) _ _ run(3)] persist_verifications_effect [OF run(4,2)]
      process_again [OF assms, of "repo'\<lparr>vx_documents := docs\<rparr>" clock' corr']
    by (simp add: run(3) summary_of_def Let_def) blast
qed

definition sample_narrative :: narrative_cluster where
  "sample_narrative = \<lparr>nc_narrative_id = ''n1'', nc_narrative_revision_id = ''r1'', nc_revision = 1,
     nc_cluster_key = ''k'', nc_stable_key = ''k'', nc_member_hash = ''m'', nc_scope_id = ''LIVE'',
     nc_asset_id = ''ACME'', nc_window_start = 0, nc_window_end = 9, nc_first_seen = 0, nc_last_seen = 9,
     nc_label = ''acme'', nc_summary = ''acme wins contract'', nc_post_ids = [], nc_similarities = [],
     nc_unique_author_count = 1, nc_centroid = [], nc_embedding_version = ''e1''\<rparr>"

definition sample_service :: narrative_env where
  "sample_service = \<lparr>sv_verifier = default_verifier sample_env, sv_decode_narrative = (\<lambda>_. Inr sample_narrative),
     sv_dump_summary = (\<lambda>_. [])\<rparr>"

definition sample_narrative_event :: "(string \<times> py_value) list canonical_event" where
  "sample_narrative_event = \<lparr>ce_event_id = ''e1'', ce_origin_event_id = Some ''e1'', ce_delivery_event_id = Some ''e1'',
     ce_event_type = ev_narrative_clustered, ce_schema_version = 1, ce_source = ''graph'', ce_source_event_id = ''e1'',
     ce_source_sequence = None, ce_asset_id = Some ''ACME'', ce_event_time = 9, ce_ingested_at = 9,
     ce_processed_at = None, ce_partition_key = ''ACME'',
     ce_replay = \<lparr>rm_is_replay = False, rm_replay_session_id = None\<rparr>,
     ce_trace = \<lparr>tm_correlation_id = ''c'', tm_causation_id = None\<rparr>,
     ce_payload = [(''narrative'', PNone), (''feature_snapshot'', PNone), (''graph_features'', PDict [])]\<rparr>"

lemma sample_candidates: "claim_candidates ''acme wins contract'' = [''acme wins contract'']"
  by code_simp

lemma sample_process:
  "\<exists>s repo'. process_narrative sample_service (\<lambda>_. 10) ''c'' sample_narrative_event sample_repository = (Inr s, repo')"
proof -
  have "explainer_ok (default_verifier sample_env)" by (simp add: explainer_ok_def default_verifier_def)
  then obtain v where v: "verify (default_verifier sample_env) sample_repository 10
      (claim_from (vf_env (default_verifier sample_env)) sample_narrative 9 ''acme wins contract'') 9 = Inr v"
    using verify_total sample_repository_valid by blast
  have "extract_claims (vf_env (default_verifier sample_env)) sample_narrative 9 =
      [claim_from (vf_env (default_verifier sample_env)) sample_narrative 9 ''acme wins contract'']"
    by (simp add: extract_claims_def sample_narrative_def sample_candidates keep_claim_def)
  with v show ?thesis
    by (simp add: process_narrative_def sample_service_def sample_narrative_event_def payload_item_def
        summary_payload_def summary_event_def build_replay_def build_event_def blank_def is_space_def verifier_version_def Let_def)
      (simp add: sample_narrative_def is_space_def)
qed

theorem narrative_summary_witness:
  "\<exists>s repo'. process_narrative sample_service (\<lambda>_. 10) ''c'' sample_narrative_event sample_repository = (Inr s, repo') \<and>
     vs_claim_risk s = risk_of (vs_result s) \<and>
     snd (process_narrative sample_service (\<lambda>_. 50) ''d'' sample_narrative_event (repo'\<lparr>vx_documents := []\<rparr>)) =
       repo'\<lparr>vx_documents := []\<rparr>"
  using sample_process narrative_summary [of sample_service "\<lambda>_. 10" "''c''" sample_narrative_event sample_repository
      _ _ "[]" "\<lambda>_. 50" "''d''"] by (metis (no_types, lifting))

end
