(* ===== verification/Calibration.thy ===== *)
theory Calibration
  imports Prelude "HOL-Library.Multiset" "HOL-Library.Product_Lexorder"
begin

text \<open>
  Platt calibration of scores and the metrics and checks that gate the promotion of a model
  (\<open>model_governance/calibration.py\<close>). Floats are reals, so \<open>math.exp\<close> and \<open>math.log\<close> are the
  exponential and the natural logarithm.
\<close>

section \<open>Transformations\<close>

definition clip :: "real \<Rightarrow> real" where
  "clip v = min (1 - 1 / 10 ^ 9) (max (1 / 10 ^ 9) v)"

definition logit :: "real \<Rightarrow> real" where
  "logit v = (let c = clip v in ln (c / (1 - c)))"

definition sigmoid :: "real \<Rightarrow> real" where
  "sigmoid v = (if v \<ge> 0 then (let e = exp (- v) in 1 / (1 + e)) else (let e = exp v in e / (1 + e)))"

definition label_value :: "bool \<Rightarrow> real" where
  "label_value b = (if b then 1 else 0)"

section \<open>Metrics\<close>

record calibration_metrics =
  cm_sample_count :: nat
  cm_positive_count :: nat
  cm_brier_score :: real
  cm_log_loss :: real
  cm_expected_calibration_error :: real
  cm_auc :: real

type_synonym observation_list = "(real \<times> bool) list"

definition brier_of :: "observation_list \<Rightarrow> real" where
  "brier_of obs = (\<Sum>(v, l)\<leftarrow>obs. (v - label_value l) ^ 2) / real (length obs)"

definition log_loss_of :: "observation_list \<Rightarrow> real" where
  "log_loss_of obs = - (\<Sum>(v, l)\<leftarrow>obs. label_value l * ln (clip v) + (1 - label_value l) * ln (clip (1 - v)))
     / real (length obs)"

definition in_bin :: "nat \<Rightarrow> nat \<Rightarrow> real \<Rightarrow> bool" where
  "in_bin bins i v \<longleftrightarrow> real i / real bins \<le> v \<and> v < real (i + 1) / real bins \<or> i + 1 = bins \<and> v = 1"

definition bin_members :: "nat \<Rightarrow> observation_list \<Rightarrow> nat \<Rightarrow> observation_list" where
  "bin_members bins obs i = filter (\<lambda>(v, _). in_bin bins i v) obs"

definition bin_error :: "nat \<Rightarrow> observation_list \<Rightarrow> nat \<Rightarrow> real" where
  "bin_error bins obs i =
    (let members = bin_members bins obs i; n = real (length members);
         confidence = (\<Sum>(v, _)\<leftarrow>members. v) / n; accuracy = (\<Sum>(_, l)\<leftarrow>members. label_value l) / n
     in if members = [] then 0 else n / real (length obs) * \<bar>confidence - accuracy\<bar>)"

definition ece_of :: "nat \<Rightarrow> observation_list \<Rightarrow> real" where
  "ece_of bins obs = (\<Sum>i\<leftarrow>[0..<bins]. bin_error bins obs i)"

definition win :: "real \<Rightarrow> real \<Rightarrow> real" where
  "win p n = (if p > n then 1 else if p = n then 1 / 2 else 0)"

definition auc_of :: "observation_list \<Rightarrow> real" where
  "auc_of obs =
    (let positives = map fst (filter snd obs); negatives = map fst (filter (\<lambda>x. \<not> snd x) obs)
     in if positives = [] \<or> negatives = [] then 1 / 2
        else (\<Sum>p\<leftarrow>positives. \<Sum>n\<leftarrow>negatives. win p n) / (real (length positives) * real (length negatives)))"

definition metrics_of :: "nat \<Rightarrow> real list \<Rightarrow> bool list \<Rightarrow> calibration_metrics res" where
  "metrics_of bins probabilities labels =
    (if probabilities = [] \<or> length probabilities \<noteq> length labels
     then Inl (ValueError ''probabilities and labels must have equal non-zero length'')
     else let obs = zip probabilities labels
       in Inr \<lparr>cm_sample_count = length labels, cm_positive_count = length (filter id labels),
          cm_brier_score = round_to 8 (brier_of obs), cm_log_loss = round_to 8 (log_loss_of obs),
          cm_expected_calibration_error = round_to 8 (ece_of bins obs), cm_auc = round_to 8 (auc_of obs)\<rparr>)"

section \<open>Fitting\<close>

record platt_calibration =
  pc_slope :: real
  pc_intercept :: real
  pc_metrics :: calibration_metrics
  pc_data_hash :: string

definition predict :: "platt_calibration \<Rightarrow> real \<Rightarrow> real" where
  "predict c score = sigmoid (pc_slope c * logit score + pc_intercept c)"

definition add_gradient :: "real \<Rightarrow> real \<Rightarrow> real \<times> bool \<Rightarrow> real \<times> real \<Rightarrow> real \<times> real" where
  "add_gradient slope intercept = (\<lambda>(score, label) (sg, ig).
     let transformed = logit score; err = sigmoid (slope * transformed + intercept) - label_value label
     in (sg + err * transformed, ig + err))"

definition descend :: "real \<Rightarrow> observation_list \<Rightarrow> real \<times> real \<Rightarrow> real \<times> real" where
  "descend rate ordered = (\<lambda>(slope, intercept).
     let (sg, ig) = fold (add_gradient slope intercept) ordered (0, 0); scale = 1 / real (length ordered)
     in (slope - rate * sg * scale, intercept - rate * ig * scale))"

text \<open>\<open>sorted\<close> compares the pairs lexicographically; \<open>dump\<close> is \<open>orjson.dumps\<close>.\<close>

definition fit_platt_calibration :: "py_env \<Rightarrow> (observation_list \<Rightarrow> string) \<Rightarrow> nat \<Rightarrow> nat \<Rightarrow> real \<Rightarrow> observation_list
    \<Rightarrow> platt_calibration res" where
  "fit_platt_calibration env dump minimum_samples iterations rate obs =
    (let positives = length (filter snd obs)
     in if length obs < minimum_samples
        then Inl (ValueError (''at least '' @ show_nat minimum_samples @ '' labels are required''))
        else if positives = 0 \<or> positives = length obs
        then Inl (ValueError ''calibration labels must contain both outcomes'')
        else
          let ordered = sort obs;
              (slope, intercept) = ((descend rate ordered) ^^ iterations) (1, 0);
              probabilities = map (\<lambda>(score, _). sigmoid (slope * logit score + intercept)) ordered
          in case metrics_of 10 probabilities (map snd ordered) of
               Inl e \<Rightarrow> Inl e
             | Inr m \<Rightarrow> Inr \<lparr>pc_slope = round_to 10 slope, pc_intercept = round_to 10 intercept,
                 pc_metrics = m, pc_data_hash = env_sha256 env (dump ordered)\<rparr>)"

section \<open>Promotion\<close>

record promotion_request =
  pr_metrics :: "string \<rightharpoonup> real"
  pr_sample_count :: int
  pr_minimum_samples :: int
  pr_maximum_ece :: real
  pr_minimum_auc :: real
  pr_drift_status :: "string option"
  pr_false_positive_count :: int
  pr_false_positive_budget :: int
  pr_champion_brier_score :: "real option"
  pr_brier_tolerance :: real
  pr_champion_comparison_required :: bool

definition metric :: "promotion_request \<Rightarrow> string \<Rightarrow> real res" where
  "metric r k = (case pr_metrics r k of None \<Rightarrow> Inl (KeyError k) | Some v \<Rightarrow> Inr v)"

definition champion_check :: "promotion_request \<Rightarrow> bool res" where
  "champion_check r =
    (if \<not> pr_champion_comparison_required r then Inr True
     else case pr_champion_brier_score r of
       None \<Rightarrow> Inr False
     | Some b \<Rightarrow> (case metric r ''brier_score'' of
         Inl e \<Rightarrow> Inl e | Inr v \<Rightarrow> Inr (v \<le> b + pr_brier_tolerance r)))"

definition promotion_checks :: "promotion_request \<Rightarrow> (string \<times> bool) list res" where
  "promotion_checks r = (case metric r ''expected_calibration_error'' of
     Inl e \<Rightarrow> Inl e
   | Inr ece \<Rightarrow> (case metric r ''auc'' of
       Inl e \<Rightarrow> Inl e
     | Inr auc \<Rightarrow> (case champion_check r of
         Inl e \<Rightarrow> Inl e
       | Inr not_worse \<Rightarrow> Inr
          [(''minimum_samples'', pr_sample_count r \<ge> pr_minimum_samples r),
           (''maximum_ece'', ece \<le> pr_maximum_ece r), (''minimum_auc'', auc \<ge> pr_minimum_auc r),
           (''drift_stable'', pr_drift_status r \<noteq> Some ''DRIFTED''),
           (''false_positive_budget'', pr_false_positive_count r \<le> pr_false_positive_budget r),
           (''champion_calibration_available'',
             \<not> pr_champion_comparison_required r \<or> pr_champion_brier_score r \<noteq> None),
           (''not_worse_than_champion'', not_worse)])))"

section \<open>Facts\<close>

lemma clip_bounds: "1 / 10 ^ 9 \<le> clip v" "clip v \<le> 1 - 1 / 10 ^ 9" "0 < clip v" "clip v < 1"
  by (simp_all add: clip_def)

lemma clip_mono: "v \<le> w \<Longrightarrow> clip v \<le> clip w"
  unfolding clip_def by (intro min.mono max.mono) simp_all

lemma sigmoid_alt: "sigmoid v = 1 / (1 + exp (- v))"
proof (cases "v \<ge> 0")
  case False
  have "exp v / (1 + exp v) = 1 / (1 + exp (- v))"
    by (simp add: exp_minus field_simps add_pos_pos)
  with False show ?thesis by (simp add: sigmoid_def Let_def)
qed (simp add: sigmoid_def Let_def)

lemma sigmoid_bounds: "0 < sigmoid v" "sigmoid v < 1"
  by (simp_all add: sigmoid_alt add_pos_pos)

lemma sigmoid_less_iff: "sigmoid v < sigmoid w \<longleftrightarrow> v < w"
  by (simp add: sigmoid_alt frac_less2 add_pos_pos divide_less_cancel field_simps)

lemma logit_mono: "v \<le> w \<Longrightarrow> logit v \<le> logit w"
proof -
  assume "v \<le> w"
  then have "clip v \<le> clip w" by (rule clip_mono)
  then have "clip v / (1 - clip v) \<le> clip w / (1 - clip w)"
    using clip_bounds [of v] clip_bounds [of w] by (intro frac_le) (simp_all only: less_imp_le diff_gt_0_iff_gt diff_left_mono)
  moreover have "0 < clip v / (1 - clip v)" using clip_bounds by simp
  ultimately show ?thesis by (simp add: logit_def Let_def)
qed

lemma sigmoid_logit: "sigmoid (logit v) = clip v"
proof -
  have pos: "0 < clip v / (1 - clip v)" using clip_bounds [of v] by simp
  then have "exp (- logit v) = (1 - clip v) / clip v" by (simp add: logit_def Let_def exp_minus)
  moreover have "1 + (1 - clip v) / clip v = 1 / clip v" using clip_bounds(3) [of v] by (simp add: diff_divide_distrib)
  ultimately show ?thesis by (simp add: sigmoid_alt)
qed

section \<open>Metrics stay in range\<close>

definition probabilities_ok :: "observation_list \<Rightarrow> bool" where
  "probabilities_ok obs \<longleftrightarrow> list_all (\<lambda>(v, _). unit_range v) obs"

lemma mean_unit:
  assumes "list_all (\<lambda>x. unit_range (f x)) xs" "xs \<noteq> []"
  shows "unit_range ((\<Sum>x\<leftarrow>xs. f x) / real (length xs))"
proof -
  have "0 \<le> (\<Sum>x\<leftarrow>xs. f x) \<and> (\<Sum>x\<leftarrow>xs. f x) \<le> real (length xs)"
    using assms(1) by (induction xs) (auto simp: unit_range_def)
  with assms(2) show ?thesis by (simp add: unit_range_def divide_le_eq_1)
qed

lemma label_value_unit [simp]: "unit_range (label_value l)"
  by (simp add: label_value_def)

lemma brier_unit: "probabilities_ok obs \<Longrightarrow> obs \<noteq> [] \<Longrightarrow> unit_range (brier_of obs)"
proof -
  assume ok: "probabilities_ok obs" "obs \<noteq> []"
  have "unit_range ((v - label_value l) ^ 2)" if "unit_range v" for v l
    using that by (cases l) (simp_all add: unit_range_def label_value_def power2_commute [of v 1] power_le_one)
  then have "list_all (\<lambda>x. unit_range (case x of (v, l) \<Rightarrow> (v - label_value l) ^ 2)) obs"
    using ok(1) by (auto simp: probabilities_ok_def list_all_iff)
  from mean_unit [OF this ok(2)] show ?thesis by (simp add: brier_of_def)
qed

lemma log_loss_nonneg: "0 \<le> log_loss_of obs"
proof -
  have "label_value l * ln (clip v) + (1 - label_value l) * ln (clip (1 - v)) \<le> 0" for l v
    using clip_bounds(3,4) [of v] clip_bounds(3,4) [of "1 - v"] by (simp add: label_value_def ln_le_zero_iff less_imp_le)
  then have "(\<Sum>(v, l)\<leftarrow>obs. label_value l * ln (clip v) + (1 - label_value l) * ln (clip (1 - v))) \<le> 0"
    by (induction obs) (auto intro: add_nonpos_nonpos)
  then show ?thesis by (simp add: log_loss_of_def divide_nonpos_nonneg)
qed

lemma auc_unit: "unit_range (auc_of obs)"
proof -
  have sum: "0 \<le> (\<Sum>p\<leftarrow>ps. \<Sum>n\<leftarrow>ns. win p n) \<and> (\<Sum>p\<leftarrow>ps. \<Sum>n\<leftarrow>ns. win p n) \<le> real (length ps) * real (length ns)" for ps ns
  proof -
    have inner: "0 \<le> (\<Sum>n\<leftarrow>ns. win p n) \<and> (\<Sum>n\<leftarrow>ns. win p n) \<le> real (length ns)" for p
      by (induction ns) (auto simp: win_def)
    show ?thesis
    proof (induction ps)
      case (Cons p ps)
      with inner [of p] show ?case by (simp add: algebra_simps)
    qed simp
  qed
  have "unit_range ((\<Sum>p\<leftarrow>ps. \<Sum>n\<leftarrow>ns. win p n) / (real (length ps) * real (length ns)))" if "ps \<noteq> []" "ns \<noteq> []" for ps ns
    using sum [of ns ps] that by (simp add: unit_range_def divide_le_eq_1)
  note ratio = this
  show ?thesis unfolding auc_of_def Let_def
    by (cases "map fst (filter snd obs) = [] \<or> map fst (filter (\<lambda>x. \<not> snd x) obs) = []")
      (simp_all only: if_True if_False simp_thms de_Morgan_disj ratio, simp_all add: unit_range_def)
qed

text \<open>Every probability lies in exactly one bin.\<close>

lemma in_bin_unique:
  assumes "in_bin bins i v" "in_bin bins j v" "i < bins" "j < bins"
  shows "i = j"
proof (rule ccontr)
  assume "i \<noteq> j"
  have "\<not> (in_bin bins a v \<and> in_bin bins b v)" if "a < b" "b < bins" for a b
  proof
    assume both: "in_bin bins a v \<and> in_bin bins b v"
    have "a + 1 \<noteq> bins" using that by simp
    with both have "v < real (a + 1) / real bins" by (auto simp: in_bin_def)
    also have "\<dots> \<le> real b / real bins" using that by (intro divide_right_mono) auto
    finally have small: "v < real b / real bins" .
    also have "\<dots> < 1" using that by simp
    finally show False using both small by (auto simp: in_bin_def)
  qed
  then show False using \<open>i \<noteq> j\<close> assms by (metis linorder_neqE_nat)
qed

lemma bin_sizes: "(\<Sum>i\<leftarrow>[0..<bins]. length (bin_members bins obs i)) \<le> length obs"
proof (induction obs)
  case Nil
  show ?case by (simp add: bin_members_def)
next
  case (Cons o' obs)
  obtain v l where o': "o' = (v, l)" by (cases o')
  have "length (filter (\<lambda>i. in_bin bins i v) [0..<bins]) \<le> 1"
  proof -
    have "card (set (filter (\<lambda>i. in_bin bins i v) [0..<bins])) \<le> 1"
      by (rule card_le_Suc0_iff_eq [THEN iffD2, unfolded One_nat_def [symmetric]]) (auto dest: in_bin_unique)
    then show ?thesis by (simp only: distinct_card distinct_filter distinct_upt)
  qed
  moreover have "(\<Sum>i\<leftarrow>[0..<bins]. length (bin_members bins (o' # obs) i)) =
      length (filter (\<lambda>i. in_bin bins i v) [0..<bins]) + (\<Sum>i\<leftarrow>[0..<bins]. length (bin_members bins obs i))"
  proof -
    have "(\<Sum>i\<leftarrow>is. length (bin_members bins (o' # obs) i)) =
      length (filter (\<lambda>i. in_bin bins i v) is) + (\<Sum>i\<leftarrow>is. length (bin_members bins obs i))" for "is"
      by (induction "is") (auto simp: bin_members_def o')
    then show ?thesis .
  qed
  ultimately show ?case using Cons by simp
qed

lemma bin_error_bounds:
  assumes "probabilities_ok obs" "obs \<noteq> []"
  shows "0 \<le> bin_error bins obs i \<and> bin_error bins obs i \<le> real (length (bin_members bins obs i)) / real (length obs)"
proof (cases "bin_members bins obs i = []")
  case False
  let ?m = "bin_members bins obs i"
  have "list_all (\<lambda>x. unit_range (case x of (v, _) \<Rightarrow> v)) ?m" "list_all (\<lambda>x. unit_range (case x of (_, l) \<Rightarrow> label_value l)) ?m"
    using assms(1) by (auto simp: probabilities_ok_def bin_members_def list_all_iff)
  from mean_unit [OF this(1) False] mean_unit [OF this(2) False]
  have "\<bar>(\<Sum>(v, _)\<leftarrow>?m. v) / real (length ?m) - (\<Sum>(_, l)\<leftarrow>?m. label_value l) / real (length ?m)\<bar> \<le> 1"
    by (auto simp: unit_range_def)
  then show ?thesis using assms(2) False by (simp add: bin_error_def Let_def mult_left_le divide_right_mono)
qed (simp add: bin_error_def)

lemma ece_unit: "probabilities_ok obs \<Longrightarrow> obs \<noteq> [] \<Longrightarrow> unit_range (ece_of bins obs)"
proof -
  assume ok: "probabilities_ok obs" "obs \<noteq> []"
  have "(\<Sum>i\<leftarrow>is. bin_error bins obs i) \<le> real (\<Sum>i\<leftarrow>is. length (bin_members bins obs i)) / real (length obs) \<and>
      0 \<le> (\<Sum>i\<leftarrow>is. bin_error bins obs i)" for "is"
  proof (induction "is")
    case (Cons i "is")
    with bin_error_bounds [OF ok, of bins i] show ?case by (simp add: add_divide_distrib)
  qed simp
  note bounds = this [of "[0..<bins]"]
  have "real (\<Sum>i\<leftarrow>[0..<bins]. length (bin_members bins obs i)) \<le> real (length obs)"
    using bin_sizes [of bins obs] by (simp only: of_nat_le_iff)
  then have "real (\<Sum>i\<leftarrow>[0..<bins]. length (bin_members bins obs i)) / real (length obs) \<le> 1"
    by (rule divide_le_eq_1_pos [THEN iffD2, rotated]) (use ok(2) in simp)
  with bounds show ?thesis unfolding ece_of_def unit_range_def by linarith
qed

lemma metrics_of_Inr:
  assumes "metrics_of bins ps ls = Inr m" "list_all unit_range ps"
  shows "unit_range (cm_brier_score m) \<and> 0 \<le> cm_log_loss m \<and> unit_range (cm_expected_calibration_error m) \<and>
    unit_range (cm_auc m) \<and> cm_positive_count m \<le> cm_sample_count m \<and> cm_sample_count m = length ps"
proof -
  have len: "ps \<noteq> []" "length ps = length ls" using assms(1) by (auto simp: metrics_of_def split: if_splits)
  have "probabilities_ok (zip ps ls)"
    using assms(2) by (auto simp: probabilities_ok_def list_all_iff dest: set_zip_leftD)
  moreover have "zip ps ls \<noteq> []" using len by (cases ls) auto
  ultimately show ?thesis using assms(1) len
    by (auto simp: metrics_of_def Let_def brier_unit ece_unit auc_unit log_loss_nonneg round_to_unit round_to_nonneg
        length_filter_le)
qed

section \<open>Fitting does not depend on the order of the labels\<close>

lemma sort_mset:
  fixes xs ys :: observation_list
  assumes "mset xs = mset ys"
  shows "sort xs = sort ys"
  using assms by (metis sorted_list_of_multiset_mset)

lemma filter_mset_length: "mset xs = mset ys \<Longrightarrow> length (filter P xs) = length (filter P ys)"
  by (metis mset_filter size_mset)

lemma fit_is_ok:
  assumes "0 < minimum"
  shows "is_ok (fit_platt_calibration env dump minimum n rate obs) \<longleftrightarrow>
    minimum \<le> length obs \<and> length (filter snd obs) \<noteq> 0 \<and> length (filter snd obs) \<noteq> length obs"
proof (cases "minimum \<le> length obs \<and> length (filter snd obs) \<noteq> 0 \<and> length (filter snd obs) \<noteq> length obs")
  case True
  obtain a b where ab: "((descend rate (sort obs)) ^^ n) (1, 0) = (a, b)" by fastforce
  have "sort obs \<noteq> []" using True by (metis length_sort length_filter_le le_zero_eq list.size(3))
  then obtain m where "metrics_of 10 (map (\<lambda>(score, _). sigmoid (a * logit score + b)) (sort obs)) (map snd (sort obs)) = Inr m"
    by (simp add: metrics_of_def Let_def)
  with True ab show ?thesis by (simp add: fit_platt_calibration_def Let_def)
next
  case False
  then show ?thesis by (auto simp: fit_platt_calibration_def Let_def)
qed

text \<open>C39. Fitting a calibration depends on the labels as a multiset only; it fails exactly when there are
  too few of them or only one outcome among them; and when it succeeds the metrics are in range,
  every prediction lies between 0 and 1, and predictions grow or fall with the score as
  the sign of the slope says.\<close>

theorem calibration_fit:
  assumes "mset obs = mset obs'" "0 < minimum"
  shows "fit_platt_calibration env dump minimum n rate obs = fit_platt_calibration env dump minimum n rate obs' \<and>
    (is_ok (fit_platt_calibration env dump minimum n rate obs) \<longleftrightarrow>
       minimum \<le> length obs \<and> (\<exists>s. (s, True) \<in> set obs) \<and> (\<exists>s. (s, False) \<in> set obs)) \<and>
    (\<forall>c. fit_platt_calibration env dump minimum n rate obs = Inr c \<longrightarrow>
       unit_range (cm_brier_score (pc_metrics c)) \<and> 0 \<le> cm_log_loss (pc_metrics c) \<and>
       unit_range (cm_expected_calibration_error (pc_metrics c)) \<and> unit_range (cm_auc (pc_metrics c)) \<and>
       (\<forall>s. unit_range (predict c s)) \<and>
       (\<forall>s s'. s \<le> s' \<longrightarrow> (0 \<le> pc_slope c \<longrightarrow> predict c s \<le> predict c s') \<and>
          (pc_slope c \<le> 0 \<longrightarrow> predict c s' \<le> predict c s)))"
proof (intro conjI allI impI)
  show "fit_platt_calibration env dump minimum n rate obs = fit_platt_calibration env dump minimum n rate obs'"
    unfolding fit_platt_calibration_def
    by (simp only: sort_mset [OF assms(1)] filter_mset_length [OF assms(1)] mset_eq_length [OF assms(1)])
next
  let ?pos = "length (filter snd obs)"
  have pos: "?pos = 0 \<longleftrightarrow> \<not> (\<exists>s. (s, True) \<in> set obs)" "?pos = length obs \<longleftrightarrow> \<not> (\<exists>s. (s, False) \<in> set obs)"
    by (force simp: filter_empty_conv)
      (metis (full_types) filter_True length_filter_less less_irrefl prod.collapse snd_conv)
  then show "is_ok (fit_platt_calibration env dump minimum n rate obs) \<longleftrightarrow>
      minimum \<le> length obs \<and> (\<exists>s. (s, True) \<in> set obs) \<and> (\<exists>s. (s, False) \<in> set obs)"
    unfolding fit_is_ok [OF assms(2)] by auto
next
  fix c assume "fit_platt_calibration env dump minimum n rate obs = Inr c"
  then obtain f where "metrics_of 10 (map (\<lambda>(score, _). sigmoid (f score)) (sort obs)) (map snd (sort obs)) = Inr (pc_metrics c)"
    by (auto simp: fit_platt_calibration_def Let_def split: if_splits sum.splits prod.splits)
  moreover have "list_all unit_range (map (\<lambda>(score, _). sigmoid (f score)) (sort obs))"
    using sigmoid_bounds by (auto simp: list_all_iff unit_range_def less_imp_le)
  ultimately show "unit_range (cm_brier_score (pc_metrics c))" "0 \<le> cm_log_loss (pc_metrics c)"
    "unit_range (cm_expected_calibration_error (pc_metrics c))" "unit_range (cm_auc (pc_metrics c))"
    using metrics_of_Inr by blast+
next
  fix c s
  show "unit_range (predict c s)" using sigmoid_bounds by (simp add: predict_def unit_range_def less_imp_le)
next
  fix c and s s' :: real
  assume "s \<le> s'"
  then have l: "logit s \<le> logit s'" by (rule logit_mono)
  have mono: "sigmoid a \<le> sigmoid b" if "a \<le> b" for a b using sigmoid_less_iff [of b a] that by linarith
  show "predict c s \<le> predict c s'" if "0 \<le> pc_slope c"
    unfolding predict_def using l that by (intro mono add_right_mono mult_left_mono)
  show "predict c s' \<le> predict c s" if "pc_slope c \<le> 0"
    unfolding predict_def using l that by (intro mono add_right_mono mult_left_mono_neg)
qed

definition sample_labels :: observation_list where
  "sample_labels = [(1 / 4, False), (3 / 4, True)]"

theorem calibration_fit_witness:
  "is_ok (fit_platt_calibration sample_env (\<lambda>_. []) 2 3 (1 / 20) sample_labels) \<and>
   fit_platt_calibration sample_env (\<lambda>_. []) 2 3 (1 / 20) (rev sample_labels) =
     fit_platt_calibration sample_env (\<lambda>_. []) 2 3 (1 / 20) sample_labels"
proof -
  have "mset sample_labels = mset (rev sample_labels)" "(0::nat) < 2" by simp_all
  from calibration_fit [OF this, of sample_env "\<lambda>_. []" 3 "1 / 20"]
  have "is_ok (fit_platt_calibration sample_env (\<lambda>_. []) 2 3 (1 / 20) sample_labels) \<longleftrightarrow>
      2 \<le> length sample_labels \<and> (\<exists>s. (s, True) \<in> set sample_labels) \<and> (\<exists>s. (s, False) \<in> set sample_labels)"
    "fit_platt_calibration sample_env (\<lambda>_. []) 2 3 (1 / 20) sample_labels =
     fit_platt_calibration sample_env (\<lambda>_. []) 2 3 (1 / 20) (rev sample_labels)" by blast+
  moreover have "(3 / 4, True) \<in> set sample_labels" "(1 / 4, False) \<in> set sample_labels" "2 \<le> length sample_labels"
    by (simp_all add: sample_labels_def)
  ultimately show ?thesis by (metis (no_types))
qed

end
