(* ===== verification/Notifications.thy ===== *)
theory Notifications
  imports Events
begin

text \<open>
  Alert notifications (\<open>notifications/service.py\<close>): \<open>enqueue\<close> plans one delivery for each channel
  with a matching subscription, \<open>deliver_due\<close> claims the deliveries that are due, sends them and
  records the outcome with an exponential delay between the attempts. The three tables are lists
  of rows; every method body between \<open>begin\<close> and the end of its session is one transaction. What
  the network and the database answer in one call of \<open>deliver_due\<close> is a record \<open>delivery_round\<close>.
\<close>

section \<open>Rows\<close>

text \<open>A value of a JSON payload: null, a string, or another value given by its \<open>str()\<close> and its
  truth value.\<close>

datatype json_value = Null | Str string | Other string bool

fun str_of :: "json_value \<Rightarrow> string" where
  "str_of Null = ''None''"
| "str_of (Str s) = s"
| "str_of (Other t _) = t"

fun truthy :: "json_value \<Rightarrow> bool" where
  "truthy Null = False"
| "truthy (Str s) = (s \<noteq> [])"
| "truthy (Other _ b) = b"

type_synonym json_dict = "string \<rightharpoonup> json_value"

definition get_value :: "json_dict \<Rightarrow> string \<Rightarrow> json_value" where
  "get_value d k = (case d k of None \<Rightarrow> Null | Some v \<Rightarrow> v)"

definition of_optional :: "string option \<Rightarrow> json_value" where
  "of_optional x = (case x of None \<Rightarrow> Null | Some s \<Rightarrow> Str s)"

record envelope =
  en_event_id :: string
  en_event_type :: string
  en_asset_id :: "string option"
  en_event_time :: string
  en_payload :: json_dict

record notification_channel =
  ch_channel_id :: uuid
  ch_tenant_id :: string
  ch_channel_type :: string
  ch_endpoint :: string
  ch_secret :: "string option"
  ch_config :: json_dict
  ch_enabled :: bool

record subscription =
  su_tenant_id :: string
  su_channel_id :: uuid
  su_minimum_severity :: string
  su_asset_ids :: "string list"
  su_alert_types :: "string list"
  su_enabled :: bool

datatype delivery_status = d_pending | d_processing | d_retry | d_delivered | d_failed

fun delivery_status_value :: "delivery_status \<Rightarrow> string" where
  "delivery_status_value d_pending = ''PENDING''"
| "delivery_status_value d_processing = ''PROCESSING''"
| "delivery_status_value d_retry = ''RETRY''"
| "delivery_status_value d_delivered = ''DELIVERED''"
| "delivery_status_value d_failed = ''FAILED''"

record notification_delivery =
  de_delivery_id :: uuid
  de_tenant_id :: string
  de_channel_id :: uuid
  de_event_id :: string
  de_alert_id :: "uuid option"
  de_status :: delivery_status
  de_attempts :: nat
  de_payload :: envelope
  de_next_attempt_at :: datetime
  de_delivered_at :: "datetime option"
  de_last_error :: "string option"
  de_response_code :: "int option"

record notification_db =
  nd_channels :: "notification_channel list"
  nd_subscriptions :: "subscription list"
  nd_deliveries :: "notification_delivery list"

section \<open>What is sent\<close>

text \<open>The JSON body of a web hook, and the text of a chat message with the Teams marker.\<close>

record notification_payload =
  np_event_id :: json_value
  np_event_type :: json_value
  np_alert_id :: json_value
  np_campaign_id :: json_value
  np_asset_id :: json_value
  np_alert_type :: json_value
  np_severity :: json_value
  np_status :: json_value
  np_event_time :: json_value

datatype body = Webhook_Body notification_payload | Chat_Body string bool

record email_message =
  em_from :: string
  em_to :: string
  em_subject :: string
  em_content :: notification_payload
  em_host :: string
  em_port :: int
  em_starttls :: bool
  em_login :: "(string \<times> string) option"

datatype outgoing = Post string body "(string \<times> string) list" | Email email_message

text \<open>Results of the library the code relies on: \<open>UUID(text)\<close> if it parses, random identifiers,
  the JSON form of a time, the JSON dump of a body, the HMAC digest, \<open>int(value)\<close> and \<open>str(error)\<close>.\<close>

record notify_env =
  ne_parse_uuid :: "string \<Rightarrow> uuid option"
  ne_new_id :: "nat \<Rightarrow> uuid"
  ne_time_text :: "datetime \<Rightarrow> string"
  ne_dump :: "body \<Rightarrow> string"
  ne_hmac :: "string \<Rightarrow> string \<Rightarrow> string"
  ne_int :: "json_value \<Rightarrow> int res"
  ne_error_text :: "py_exn \<Rightarrow> string"

definition notification_payload_of :: "envelope \<Rightarrow> notification_payload" where
  "notification_payload_of e =
    (let payload = en_payload e; asset = get_value payload ''asset_id''
     in \<lparr>np_event_id = Str (en_event_id e), np_event_type = Str (en_event_type e),
         np_alert_id = get_value payload ''alert_id'', np_campaign_id = get_value payload ''campaign_id'',
         np_asset_id = (if truthy asset then asset else of_optional (en_asset_id e)),
         np_alert_type = get_value payload ''alert_type'', np_severity = get_value payload ''severity'',
         np_status = get_value payload ''status'', np_event_time = Str (en_event_time e)\<rparr>)"

definition chat_payload :: "notification_channel \<Rightarrow> notification_payload \<Rightarrow> body" where
  "chat_payload c p = Chat_Body (''Scam2Market '' @ str_of (np_severity p) @ '' alert: '' @ str_of (np_alert_type p) @
     '' for '' @ str_of (np_asset_id p)) (ch_channel_type c \<noteq> ''SLACK'')"

definition get_default :: "json_dict \<Rightarrow> string \<Rightarrow> json_value \<Rightarrow> json_value" where
  "get_default d k v = (case d k of None \<Rightarrow> v | Some w \<Rightarrow> w)"

definition set_secret :: "notification_channel \<Rightarrow> string option" where
  "set_secret c = (case ch_secret c of None \<Rightarrow> None | Some s \<Rightarrow> if s = [] then None else Some s)"

definition email_of :: "notify_env \<Rightarrow> notification_channel \<Rightarrow> notification_payload \<Rightarrow> outgoing res" where
  "email_of env c p = (let config = ch_config c; username = get_value config ''username'' in
     case ne_int env (get_default config ''smtp_port'' (Other ''25'' True)) of
       Inl e \<Rightarrow> Inl e
     | Inr port \<Rightarrow> Inr (Email \<lparr>
         em_from = str_of (get_default config ''from'' (Str ''scam2market@localhost'')), em_to = ch_endpoint c,
         em_subject = ''['' @ str_of (np_severity p) @ ''] Scam2Market '' @ str_of (np_asset_id p), em_content = p,
         em_host = str_of (get_default config ''smtp_host'' (Str ''localhost'')), em_port = port,
         em_starttls = truthy (get_value config ''starttls''),
         em_login = (if truthy username then map_option (\<lambda>s. (str_of username, s)) (set_secret c) else None)\<rparr>))"

text \<open>The part of \<open>_send\<close> before the network: the message, or the exception for an unknown channel.\<close>

definition outgoing_of :: "notify_env \<Rightarrow> notification_channel \<Rightarrow> envelope \<Rightarrow> outgoing res" where
  "outgoing_of env c e =
    (let payload = notification_payload_of e
     in if ch_channel_type c \<in> {''SLACK'', ''TEAMS'', ''WEBHOOK''} then
          let content = (if ch_channel_type c = ''WEBHOOK'' then Webhook_Body payload else chat_payload c payload);
              key = (''Idempotency-Key'', en_event_id e);
              signature = (if ch_channel_type c = ''WEBHOOK'' then set_secret c else None)
          in Inr (Post (ch_endpoint c) content (case signature of
               None \<Rightarrow> [key]
             | Some s \<Rightarrow> [key, (''X-Scam2Market-Signature'', ''sha256='' @ ne_hmac env s (ne_dump env content))]))
        else if ch_channel_type c = ''EMAIL'' then email_of env c payload
        else Inl (ValueError (''unsupported notification channel: '' @ ch_channel_type c)))"


section \<open>Planning the deliveries of an event\<close>

fun severity_rank :: "string \<Rightarrow> nat option" where
  "severity_rank s =
    (if s = ''INFO'' \<or> s = ''NORMAL'' then Some 0 else if s = ''WATCH'' then Some 1
     else if s = ''HIGH'' then Some 2 else if s = ''CRITICAL'' then Some 3 else None)"

declare severity_rank.simps [simp del]

definition subscription_matches :: "subscription \<Rightarrow> string \<Rightarrow> string \<Rightarrow> string \<Rightarrow> bool" where
  "subscription_matches s severity asset_id alert_type =
    (if (case severity_rank severity of None \<Rightarrow> 0 | Some n \<Rightarrow> n) <
        (case severity_rank (su_minimum_severity s) of None \<Rightarrow> 2 | Some n \<Rightarrow> n) then False
     else if su_asset_ids s \<noteq> [] \<and> asset_id \<notin> set (su_asset_ids s) then False
     else su_alert_types s = [] \<or> alert_type \<in> set (su_alert_types s))"

definition to_upper :: "char \<Rightarrow> char" where
  "to_upper c = (let n = of_char c :: nat in if 97 \<le> n \<and> n \<le> 122 then char_of (n - 32) else c)"

definition uuid_or_none :: "notify_env \<Rightarrow> json_value \<Rightarrow> uuid option" where
  "uuid_or_none env v = (if truthy v then ne_parse_uuid env (str_of v) else None)"

definition event_envelope :: "notify_env \<Rightarrow> json_dict canonical_event \<Rightarrow> envelope" where
  "event_envelope env e = \<lparr>en_event_id = ce_event_id e, en_event_type = event_type_value (ce_event_type e),
     en_asset_id = ce_asset_id e, en_event_time = ne_time_text env (ce_event_time e), en_payload = ce_payload e\<rparr>"

definition event_severity :: "json_dict canonical_event \<Rightarrow> string" where
  "event_severity e = map to_upper (str_of (get_default (ce_payload e) ''severity'' (Str ''INFO'')))"

definition event_asset :: "json_dict canonical_event \<Rightarrow> string" where
  "event_asset e = (let asset = get_value (ce_payload e) ''asset_id'' in
     if truthy asset then str_of asset else case ce_asset_id e of None \<Rightarrow> [] | Some a \<Rightarrow> a)"

definition event_alert_type :: "json_dict canonical_event \<Rightarrow> string" where
  "event_alert_type e = str_of (get_default (ce_payload e) ''alert_type'' (Str []))"

text \<open>The rows of the join of subscriptions and channels of a tenant.\<close>

definition tenant_subscriptions :: "notification_db \<Rightarrow> string \<Rightarrow> (subscription \<times> notification_channel) list" where
  "tenant_subscriptions db tenant = filter (\<lambda>(s, c). su_channel_id s = ch_channel_id c \<and>
     su_tenant_id s = tenant \<and> su_enabled s \<and> ch_enabled c) (List.product (nd_subscriptions db) (nd_channels db))"

definition delivery_exists :: "notification_db \<Rightarrow> uuid \<Rightarrow> string \<Rightarrow> bool" where
  "delivery_exists db channel event \<longleftrightarrow>
     list_ex (\<lambda>d. de_channel_id d = channel \<and> de_event_id d = event) (nd_deliveries db)"

definition new_delivery :: "notify_env \<Rightarrow> datetime \<Rightarrow> json_dict canonical_event \<Rightarrow> string \<Rightarrow> uuid \<Rightarrow> uuid \<Rightarrow> notification_delivery" where
  "new_delivery env now e tenant channel new_id =
    \<lparr>de_delivery_id = new_id, de_tenant_id = tenant, de_channel_id = channel, de_event_id = ce_event_id e,
     de_alert_id = uuid_or_none env (get_value (ce_payload e) ''alert_id''), de_status = d_pending, de_attempts = 0,
     de_payload = event_envelope env e, de_next_attempt_at = now, de_delivered_at = None,
     de_last_error = None, de_response_code = None\<rparr>"

text \<open>The loop; its query sees the rows it has added (\<open>autoflush\<close>).\<close>

fun plan_deliveries :: "notify_env \<Rightarrow> datetime \<Rightarrow> json_dict canonical_event \<Rightarrow> string
    \<Rightarrow> (subscription \<times> notification_channel) list \<Rightarrow> notification_db \<times> nat \<Rightarrow> notification_db \<times> nat" where
  "plan_deliveries env now e tenant [] acc = acc"
| "plan_deliveries env now e tenant ((s, c) # rows) (db, created) = plan_deliveries env now e tenant rows
    (if \<not> subscription_matches s (event_severity e) (event_asset e) (event_alert_type e) then (db, created)
     else if delivery_exists db (ch_channel_id c) (ce_event_id e) then (db, created)
     else (db\<lparr>nd_deliveries := nd_deliveries db @
             [new_delivery env now e tenant (ch_channel_id c) (ne_new_id env (length (nd_deliveries db)))]\<rparr>,
           created + 1))"

definition enqueue_deliveries :: "notify_env \<Rightarrow> datetime \<Rightarrow> json_dict canonical_event \<Rightarrow> string \<Rightarrow> notification_db
    \<Rightarrow> notification_db \<times> nat" where
  "enqueue_deliveries env now e tenant db = plan_deliveries env now e tenant (tenant_subscriptions db tenant) (db, 0)"

section \<open>Sending what is due\<close>

text \<open>One call of \<open>deliver_due\<close>: the time of the claim, the deliveries locked by other transactions,
  the answer of the network to each message (\<open>post\<close> with \<open>raise_for_status\<close>, or the SMTP dialogue),
  the time of the final update, and whether the transactions that record a success and an error
  commit.\<close>

record delivery_round =
  rd_now :: datetime
  rd_limit :: nat
  rd_locked :: "uuid \<Rightarrow> bool"
  rd_answer :: "uuid \<Rightarrow> outgoing \<Rightarrow> int res"
  rd_clock :: "uuid \<Rightarrow> datetime"
  rd_success_commits :: "uuid \<Rightarrow> bool"
  rd_error_commits :: "uuid \<Rightarrow> bool"

definition due :: "datetime \<Rightarrow> notification_delivery \<Rightarrow> bool" where
  "due now d \<longleftrightarrow> de_status d \<in> {d_pending, d_retry} \<and> de_next_attempt_at d \<le> now"

definition due_rows :: "delivery_round \<Rightarrow> notification_db \<Rightarrow> (notification_delivery \<times> notification_channel) list" where
  "due_rows r db = take (rd_limit r) (sort_key (\<lambda>(d, _). de_next_attempt_at d)
     (filter (\<lambda>(d, c). de_channel_id d = ch_channel_id c \<and> due (rd_now r) d \<and> \<not> rd_locked r (de_delivery_id d))
       (List.product (nd_deliveries db) (nd_channels db))))"

definition mark_processing :: "uuid set \<Rightarrow> notification_delivery \<Rightarrow> notification_delivery" where
  "mark_processing ids d = (if de_delivery_id d \<in> ids
     then d\<lparr>de_attempts := de_attempts d + 1, de_status := d_processing\<rparr> else d)"

definition claim_due :: "delivery_round \<Rightarrow> notification_db \<Rightarrow> notification_db \<times> (uuid \<times> notification_channel \<times> envelope) list" where
  "claim_due r db = (let rows = due_rows r db; ids = set (map (de_delivery_id o fst) rows)
     in (db\<lparr>nd_deliveries := map (mark_processing ids) (nd_deliveries db)\<rparr>,
         map (\<lambda>(d, c). (de_delivery_id d, c, de_payload d)) rows))"

definition finalize_delivery :: "datetime \<Rightarrow> (string + int) \<Rightarrow> notification_delivery \<Rightarrow> notification_delivery" where
  "finalize_delivery now outcome d =
    (if de_status d \<noteq> d_processing then d
     else case outcome of
       Inr code \<Rightarrow> d\<lparr>de_status := d_delivered, de_delivered_at := Some now, de_response_code := Some code,
         de_last_error := None\<rparr>
     | Inl text' \<Rightarrow> d\<lparr>de_last_error := Some (take 2000 text'),
         de_status := (if de_attempts d \<ge> 5 then d_failed else d_retry),
         de_next_attempt_at := now + seconds (min 900 (2 ^ de_attempts d * 5))\<rparr>)"

definition update_delivery :: "uuid \<Rightarrow> (notification_delivery \<Rightarrow> notification_delivery) \<Rightarrow> notification_db \<Rightarrow> notification_db" where
  "update_delivery i f db = db\<lparr>nd_deliveries := map (\<lambda>d. if de_delivery_id d = i then f d else d) (nd_deliveries db)\<rparr>"

text \<open>\<open>_finalize\<close>: a database that fails leaves the row as it is.\<close>

definition finalize :: "delivery_round \<Rightarrow> uuid \<Rightarrow> (string + int) \<Rightarrow> notification_db \<Rightarrow> notification_db \<times> unit res" where
  "finalize r i outcome db =
    (if (case outcome of Inl _ \<Rightarrow> rd_error_commits r i | Inr _ \<Rightarrow> rd_success_commits r i)
     then (update_delivery i (finalize_delivery (rd_clock r i) outcome) db, Inr ())
     else (db, Inl (RuntimeError ''database'')))"

text \<open>\<open>_send\<close> with the log of the messages handed to the network; an e-mail counts as answer 250.\<close>

definition send :: "notify_env \<Rightarrow> delivery_round \<Rightarrow> uuid \<Rightarrow> notification_channel \<Rightarrow> envelope \<Rightarrow> (uuid \<times> outgoing) list \<times> int res" where
  "send env r i c e = (case outgoing_of env c e of
     Inl x \<Rightarrow> ([], Inl x)
   | Inr m \<Rightarrow> ([(i, m)], case m of
       Post _ _ _ \<Rightarrow> rd_answer r i m
     | Email _ \<Rightarrow> (case rd_answer r i m of Inl x \<Rightarrow> Inl x | Inr _ \<Rightarrow> Inr 250)))"

type_synonym delivery_log = "(uuid \<times> outgoing) list"

text \<open>The body of the loop: \<open>except Exception\<close> also catches a failed update after a successful send.\<close>

definition deliver_one :: "notify_env \<Rightarrow> delivery_round \<Rightarrow> uuid \<times> notification_channel \<times> envelope \<Rightarrow> notification_db \<times> delivery_log
    \<Rightarrow> (notification_db \<times> delivery_log) \<times> unit res" where
  "deliver_one env r = (\<lambda>(i, c, e) (db, log). case send env r i c e of (sent, answer) \<Rightarrow>
     (case (case answer of Inl x \<Rightarrow> (db, Inl x) | Inr code \<Rightarrow> finalize r i (Inr code) db) of
        (db1, Inr ()) \<Rightarrow> ((db1, log @ sent), Inr ())
      | (db1, Inl x) \<Rightarrow>
          if caught x then (case finalize r i (Inl (ne_error_text env x)) db1 of (db2, res) \<Rightarrow> ((db2, log @ sent), res))
          else ((db1, log @ sent), Inl x)))"

fun deliver_claimed :: "notify_env \<Rightarrow> delivery_round \<Rightarrow> (uuid \<times> notification_channel \<times> envelope) list \<Rightarrow> notification_db \<times> delivery_log
    \<Rightarrow> (notification_db \<times> delivery_log) \<times> unit res" where
  "deliver_claimed env r [] st = (st, Inr ())"
| "deliver_claimed env r (job # jobs) st = (case deliver_one env r job st of
     (st1, Inl x) \<Rightarrow> (st1, Inl x) | (st1, Inr ()) \<Rightarrow> deliver_claimed env r jobs st1)"

definition deliver_due :: "notify_env \<Rightarrow> delivery_round \<Rightarrow> notification_db \<times> delivery_log \<Rightarrow> (notification_db \<times> delivery_log) \<times> nat res" where
  "deliver_due env r = (\<lambda>(db, log). case claim_due r db of (db1, claimed) \<Rightarrow>
     (case deliver_claimed env r claimed (db1, log) of
        (st, Inl x) \<Rightarrow> (st, Inl x) | (st, Inr ()) \<Rightarrow> (st, Inr (length claimed))))"

section \<open>The worker\<close>

text \<open>What happens to the service over time: an event consumed from the alert topic, or one call of
  \<open>deliver_due\<close>; a round that raises restarts the worker.\<close>

definition consumed_tenant :: "json_dict canonical_event \<Rightarrow> string" where
  "consumed_tenant e = (let t = get_value (ce_payload e) ''tenant_id'' in if truthy t then str_of t else ''default'')"

datatype notify_step = Consume datetime "json_dict canonical_event" | Deliver delivery_round

fun run_step :: "notify_env \<Rightarrow> notify_step \<Rightarrow> notification_db \<times> delivery_log \<Rightarrow> notification_db \<times> delivery_log" where
  "run_step env (Consume now e) st = (fst (enqueue_deliveries env now e (consumed_tenant e) (fst st)), snd st)"
| "run_step env (Deliver r) st = fst (deliver_due env r st)"

definition run_steps :: "notify_env \<Rightarrow> notify_step list \<Rightarrow> notification_db \<times> delivery_log \<Rightarrow> notification_db \<times> delivery_log" where
  "run_steps env steps st = fold (run_step env) steps st"

end
