(* ===== verification/Notifications_Correct.thy ===== *)
theory Notifications_Correct
  imports Notifications
begin

text \<open>
  Correctness of the notification service: what one round does to one row, the invariant of the
  tables over any history, the end of the retries, and the deliveries that a crash leaves behind.
\<close>

section \<open>One job\<close>

definition sends :: "uuid \<Rightarrow> delivery_log \<Rightarrow> nat" where
  "sends i msgs = length (filter (\<lambda>m. fst m = i) msgs)"

lemma sends_simps [simp]: "sends i [] = 0" "sends i (msgs @ msgs2) = sends i msgs + sends i msgs2"
  "sends i ((j, m) # msgs) = (if j = i then 1 else 0) + sends i msgs"
  by (simp_all add: sends_def)

lemma update_delivery_id [simp]: "update_delivery i (\<lambda>d. d) db = db"
  by (simp add: update_delivery_def)

lemma update_delivery_fields [frame_simps]:
  "nd_channels (update_delivery i f db) = nd_channels db"
  "nd_deliveries (update_delivery i f db) = map (\<lambda>d. if de_delivery_id d = i then f d else d) (nd_deliveries db)"
  by (simp_all add: update_delivery_def)

lemma finalize_delivery_ids [simp]:
  "de_delivery_id (finalize_delivery now x d) = de_delivery_id d"
  "de_channel_id (finalize_delivery now x d) = de_channel_id d" "de_event_id (finalize_delivery now x d) = de_event_id d"
  "de_attempts (finalize_delivery now x d) = de_attempts d"
  by (simp_all add: finalize_delivery_def split: sum.split)

lemma send_log: "fst (send env r i c e) = [] \<or> (\<exists>m. fst (send env r i c e) = [(i, m)])"
  by (auto simp: send_def split: sum.split)

text \<open>A job changes its own row only: not at all, or to its final state of the round.\<close>

definition final_updates :: "delivery_round \<Rightarrow> uuid \<Rightarrow> (notification_delivery \<Rightarrow> notification_delivery) set" where
  "final_updates r i = insert (\<lambda>d. d) (range (finalize_delivery (rd_clock r i)))"

definition outcome_update :: "delivery_round \<Rightarrow> uuid \<Rightarrow> unit res \<Rightarrow> (notification_delivery \<Rightarrow> notification_delivery) \<Rightarrow> bool" where
  "outcome_update r i res f = (case res of Inl _ \<Rightarrow> f = (\<lambda>d. d) | Inr _ \<Rightarrow> f \<in> range (finalize_delivery (rd_clock r i)))"

lemma finalize_cases:
  "(\<exists>x. finalize r i o' db = (db, Inl x)) \<or>
   finalize r i o' db = (update_delivery i (finalize_delivery (rd_clock r i) o') db, Inr ())"
  by (simp add: finalize_def)

lemma deliver_one_cases:
  assumes "deliver_one env r (i, c, e) (db, msgs) = ((db1, msgs1), res)"
  shows "\<exists>f. outcome_update r i res f \<and> db1 = update_delivery i f db \<and>
    (\<exists>sent. msgs1 = msgs @ sent \<and> (sent = [] \<or> (\<exists>m. sent = [(i, m)])))"
proof -
  obtain sent answer where s: "send env r i c e = (sent, answer)" by fastforce
  have "db1 = db \<and> (\<exists>x. res = Inl x) \<or>
      (\<exists>x. db1 = update_delivery i (finalize_delivery (rd_clock r i) x) db) \<and> res = Inr ()" "msgs1 = msgs @ sent"
    using assms by (auto simp: deliver_one_def s finalize_def split: sum.splits if_splits prod.splits unit.splits)
  then show ?thesis using send_log [of env r i c e]
    by (elim disjE conjE exE) (auto simp: s outcome_update_def intro!: exI [of _ "\<lambda>d. d"])
qed

lemma outcome_update_final: "outcome_update r i res f \<Longrightarrow> f \<in> final_updates r i"
  by (auto simp: outcome_update_def final_updates_def split: sum.splits)

lemma final_updates_ids [simp]:
  assumes "f \<in> final_updates r i"
  shows "de_delivery_id (f d) = de_delivery_id d" "de_channel_id (f d) = de_channel_id d"
    "de_event_id (f d) = de_event_id d" "de_attempts (f d) = de_attempts d"
  using assms by (auto simp: final_updates_def)

lemma deliver_claimed_rows:
  assumes "deliver_claimed env r jobs (db, msgs) = ((db1, msgs1), res)" "distinct (map fst jobs)"
  shows "\<exists>F. (\<forall>i. F i \<in> final_updates r i) \<and>
    (\<forall>i. i \<notin> fst ` set jobs \<longrightarrow> F i = (\<lambda>d. d) \<and> sends i msgs1 = sends i msgs) \<and>
    (\<forall>i. sends i msgs1 \<le> sends i msgs + 1) \<and>
    nd_deliveries db1 = map (\<lambda>d. F (de_delivery_id d) d) (nd_deliveries db) \<and> nd_channels db1 = nd_channels db \<and>
    (case res of Inl _ \<Rightarrow> \<exists>i \<in> fst ` set jobs. F i = (\<lambda>d. d)
     | Inr _ \<Rightarrow> \<forall>i \<in> fst ` set jobs. F i \<in> range (finalize_delivery (rd_clock r i)))"
  using assms
proof (induction jobs arbitrary: db msgs)
  case Nil
  then show ?case by (intro exI [of _ "\<lambda>i d. d"]) (auto simp: final_updates_def)
next
  case (Cons job jobs)
  obtain i c e where job: "job = (i, c, e)" by (cases job)
  obtain db2 msgs2 res2 where one: "deliver_one env r job (db, msgs) = ((db2, msgs2), res2)" by (metis prod.collapse)
  from deliver_one_cases [OF one [unfolded job]] obtain f sent where
    out: "outcome_update r i res2 f" and f2: "db2 = update_delivery i f db" and
    sent: "msgs2 = msgs @ sent" "sent = [] \<or> (\<exists>m. sent = [(i, m)])" by blast
  note f = outcome_update_final [OF out] f2
  have count: "sends j msgs2 = sends j msgs + (if j = i then length sent else 0)" "length sent \<le> 1" for j
    using sent by auto
  obtain F where F: "\<forall>j. F j \<in> final_updates r j"
    "\<forall>j. j \<notin> fst ` set jobs \<longrightarrow> F j = (\<lambda>d. d) \<and> sends j msgs1 = sends j msgs2"
    "\<forall>j. sends j msgs1 \<le> sends j msgs2 + 1"
    "nd_deliveries db1 = map (\<lambda>d. F (de_delivery_id d) d) (nd_deliveries db2)" "nd_channels db1 = nd_channels db2"
    "case res of Inl _ \<Rightarrow> (\<exists>x. res2 = Inl x) \<or> (\<exists>j \<in> fst ` set jobs. F j = (\<lambda>d. d))
     | Inr _ \<Rightarrow> res2 = Inr () \<and> (\<forall>j \<in> fst ` set jobs. F j \<in> range (finalize_delivery (rd_clock r j)))"
  proof (cases res2)
    case (Inl x)
    then have "db1 = db2" "msgs1 = msgs2" "res = Inl x" using Cons.prems(1) by (simp_all add: one)
    then show ?thesis by (intro that [of "\<lambda>j d. d"]) (simp_all add: final_updates_def Inl)
  next
    case (Inr u)
    then have rest: "deliver_claimed env r jobs (db2, msgs2) = ((db1, msgs1), res)"
      using Cons.prems(1) by (simp add: one case_unit_Unity)
    have "distinct (map fst jobs)" using Cons.prems(2) by simp
    from Cons.IH [OF rest this] show ?thesis
      by (elim exE conjE) (rule that, assumption+, simp add: Inr split: sum.splits)
  qed
  have new: "i \<notin> fst ` set jobs" using Cons.prems(2) job by auto
  then have Fi: "F i = (\<lambda>d. d)" "sends i msgs1 = sends i msgs2" using F(2) by blast+
  show ?case
  proof (intro exI [of _ "F(i := f)"] conjI allI impI)
    fix j
    show "(F(i := f)) j \<in> final_updates r j" using F(1) f(1) by simp
    show "sends j msgs1 \<le> sends j msgs + 1"
      using F(3) [rule_format, of j] Fi(2) count(1) [of j] count(2) by (cases "j = i") simp_all
    assume "j \<notin> fst ` set (job # jobs)"
    then have "j \<noteq> i" "j \<notin> fst ` set jobs" by (auto simp: job)
    then show "(F(i := f)) j = (\<lambda>d. d)" "sends j msgs1 = sends j msgs" using F(2) count(1) by simp_all
  next
    show "nd_deliveries db1 = map (\<lambda>d. (F(i := f)) (de_delivery_id d) d) (nd_deliveries db)"
      using F(4) f Fi(1) by (simp add: frame_simps)
    show "nd_channels db1 = nd_channels db" using F(5) f(2) by (simp add: frame_simps)
  next
    show "case res of Inl _ \<Rightarrow> \<exists>j \<in> fst ` set (job # jobs). (F(i := f)) j = (\<lambda>d. d)
      | Inr _ \<Rightarrow> \<forall>j \<in> fst ` set (job # jobs). (F(i := f)) j \<in> range (finalize_delivery (rd_clock r j))"
    proof (cases res)
      case (Inl x)
      with F(6) have "(\<exists>x. res2 = Inl x) \<or> (\<exists>j \<in> fst ` set jobs. F j = (\<lambda>d. d))" by simp
      then show ?thesis
      proof
        assume "\<exists>x. res2 = Inl x"
        then have "f = (\<lambda>d. d)" using out by (auto simp: outcome_update_def)
        then show ?thesis by (simp add: Inl job)
      next
        assume "\<exists>j \<in> fst ` set jobs. F j = (\<lambda>d. d)"
        then obtain j where "j \<in> fst ` set jobs" "F j = (\<lambda>d. d)" by blast
        moreover from this new have "j \<noteq> i" by blast
        ultimately show ?thesis unfolding Inl sum.case by (intro bexI [of _ j]) simp_all
      qed
    next
      case (Inr u)
      with F(6) have "res2 = Inr ()" and rest: "\<forall>j \<in> fst ` set jobs. F j \<in> range (finalize_delivery (rd_clock r j))" by simp_all
      then have "f \<in> range (finalize_delivery (rd_clock r i))" using out by (simp add: outcome_update_def)
      then show ?thesis using rest by (simp add: Inr job)
    qed
  qed
qed

section \<open>One round\<close>

text \<open>The tables as the keys of the database keep them.\<close>

definition keys_ok :: "notification_db \<Rightarrow> bool" where
  "keys_ok db \<longleftrightarrow> distinct (map de_delivery_id (nd_deliveries db)) \<and> distinct (map ch_channel_id (nd_channels db)) \<and>
     (\<forall>d \<in> set (nd_deliveries db). de_channel_id d \<in> ch_channel_id ` set (nd_channels db)) \<and>
     distinct (map (\<lambda>d. (de_channel_id d, de_event_id d)) (nd_deliveries db))"

lemma due_rows_mem: "(d, c) \<in> set (due_rows r db) \<Longrightarrow>
    d \<in> set (nd_deliveries db) \<and> c \<in> set (nd_channels db) \<and> de_channel_id d = ch_channel_id c \<and> due (rd_now r) d"
  by (auto simp: due_rows_def dest!: in_set_takeD)

lemma due_rows_distinct: "keys_ok db \<Longrightarrow> distinct (map (de_delivery_id o fst) (due_rows r db))"
proof -
  assume ok: "keys_ok db"
  let ?P = "\<lambda>(d, c). de_channel_id d = ch_channel_id c \<and> due (rd_now r) d \<and> \<not> rd_locked r (de_delivery_id d)"
  let ?rows = "filter ?P (List.product (nd_deliveries db) (nd_channels db))"
  have inj: "inj_on de_delivery_id (set (nd_deliveries db))" "inj_on ch_channel_id (set (nd_channels db))"
    and "distinct (nd_deliveries db)" "distinct (nd_channels db)"
    using ok by (auto simp: keys_ok_def distinct_map)
  then have "distinct ?rows" by (simp add: distinct_product)
  moreover have "inj_on (de_delivery_id o fst) (set ?rows)"
  proof (rule inj_onI, clarsimp)
    fix a b a' b'
    assume *: "de_delivery_id a = de_delivery_id a'" "a \<in> set (nd_deliveries db)" "a' \<in> set (nd_deliveries db)"
      "b \<in> set (nd_channels db)" "b' \<in> set (nd_channels db)"
      "de_channel_id a = ch_channel_id b" "de_channel_id a' = ch_channel_id b'"
    from * have "a = a'" using inj(1) by (simp add: inj_onD)
    with * show "a = a' \<and> b = b'" using inj(2) by (simp add: inj_onD)
  qed
  ultimately have "distinct (map (de_delivery_id o fst) (sort_key (\<lambda>(d, _). de_next_attempt_at d) ?rows))"
    by (simp only: distinct_map distinct_sort set_sort)
  then show ?thesis unfolding due_rows_def take_map [symmetric] by (rule distinct_take)
qed


definition claimed :: "notification_delivery \<Rightarrow> notification_delivery" where
  "claimed d = d\<lparr>de_attempts := de_attempts d + 1, de_status := d_processing\<rparr>"

lemma claimed_fields [simp]:
  "de_delivery_id (claimed d) = de_delivery_id d" "de_channel_id (claimed d) = de_channel_id d"
  "de_event_id (claimed d) = de_event_id d" "de_attempts (claimed d) = de_attempts d + 1"
  "de_status (claimed d) = d_processing" "de_next_attempt_at (claimed d) = de_next_attempt_at d"
  by (simp_all add: claimed_def)

text \<open>The rows a round claims.\<close>

definition claims :: "delivery_round \<Rightarrow> notification_db \<Rightarrow> notification_delivery \<Rightarrow> bool" where
  "claims r db d \<longleftrightarrow> d \<in> set (map fst (due_rows r db))"

lemma claims_due: "claims r db d \<Longrightarrow> due (rd_now r) d \<and> d \<in> set (nd_deliveries db)"
  using due_rows_mem by (fastforce simp: claims_def)

lemma claims_iff:
  assumes "keys_ok db" "d \<in> set (nd_deliveries db)"
  shows "claims r db d \<longleftrightarrow> de_delivery_id d \<in> set (map (de_delivery_id o fst) (due_rows r db))"
proof
  assume "de_delivery_id d \<in> set (map (de_delivery_id o fst) (due_rows r db))"
  then obtain d' c where "(d', c) \<in> set (due_rows r db)" "de_delivery_id d' = de_delivery_id d" by auto
  moreover have "d' \<in> set (nd_deliveries db)" using due_rows_mem [OF calculation(1)] by blast
  ultimately show "claims r db d" using assms by (auto simp: claims_def keys_ok_def distinct_map rev_image_eqI dest: inj_onD)
qed (auto simp: claims_def)

lemma deliver_due_eq:
  assumes "deliver_claimed env r (snd (claim_due r db)) (fst (claim_due r db), msgs) = (st, res)"
  shows "deliver_due env r (db, msgs) =
    (case res of Inl x \<Rightarrow> (st, Inl x) | Inr u \<Rightarrow> (st, Inr (length (snd (claim_due r db)))))"
  using assms unfolding deliver_due_def by (simp add: split_beta case_unit_Unity split: sum.split)

lemma deliver_due_rows:
  assumes "deliver_due env r (db, msgs) = ((db1, msgs1), res)" "keys_ok db"
  shows "\<exists>F. (\<forall>d. F d \<in> final_updates r (de_delivery_id d)) \<and>
    nd_deliveries db1 = map (\<lambda>d. if claims r db d then F d (claimed d) else d) (nd_deliveries db) \<and>
    nd_channels db1 = nd_channels db \<and>
    (\<forall>d \<in> set (nd_deliveries db).
       if claims r db d then sends (de_delivery_id d) msgs1 \<le> sends (de_delivery_id d) msgs + 1
       else sends (de_delivery_id d) msgs1 = sends (de_delivery_id d) msgs) \<and>
    (\<forall>i. i \<notin> de_delivery_id ` set (nd_deliveries db) \<longrightarrow> sends i msgs1 = sends i msgs) \<and>
    (case res of Inl _ \<Rightarrow> \<exists>d. claims r db d \<and> F d = (\<lambda>d. d)
     | Inr _ \<Rightarrow> \<forall>d. claims r db d \<longrightarrow> F d \<in> range (finalize_delivery (rd_clock r (de_delivery_id d))))"
proof -
  let ?rows = "due_rows r db"
  let ?ids = "set (map (de_delivery_id o fst) ?rows)"
  let ?jobs = "map (\<lambda>(d, c). (de_delivery_id d, c, de_payload d)) ?rows"
  let ?db = "db\<lparr>nd_deliveries := map (mark_processing ?ids) (nd_deliveries db)\<rparr>"
  obtain st res' where run': "deliver_claimed env r ?jobs (?db, msgs) = (st, res')" by fastforce
  then have eq: "deliver_due env r (db, msgs) =
      (case res' of Inl x \<Rightarrow> (st, Inl x) | Inr u \<Rightarrow> (st, Inr (length ?jobs)))"
    using deliver_due_eq [of env r db msgs st res'] by (simp add: claim_due_def Let_def split: sum.split)
  have run: "deliver_claimed env r ?jobs (?db, msgs) = ((db1, msgs1), res')"
    and res': "case res of Inl x \<Rightarrow> res' = Inl x | Inr _ \<Rightarrow> res' = Inr ()"
    using run' assms(1) unfolding eq by (cases res'; auto)+
  have ids: "map fst ?jobs = map (de_delivery_id o fst) ?rows" by (auto simp: split_beta)
  then have dist: "distinct (map fst ?jobs)" using due_rows_distinct [OF assms(2)] by (simp only: ids)
  have jobs: "fst ` set ?jobs = ?ids" by (metis ids set_map)
  obtain F where F: "\<forall>i. F i \<in> final_updates r i"
    "\<forall>i. i \<notin> ?ids \<longrightarrow> F i = (\<lambda>d. d) \<and> sends i msgs1 = sends i msgs"
    "\<forall>i. sends i msgs1 \<le> sends i msgs + 1"
    "nd_deliveries db1 = map (\<lambda>d. F (de_delivery_id d) d) (nd_deliveries ?db)" "nd_channels db1 = nd_channels ?db"
    "case res' of Inl _ \<Rightarrow> \<exists>i \<in> ?ids. F i = (\<lambda>d. d)
     | Inr _ \<Rightarrow> \<forall>i \<in> ?ids. F i \<in> range (finalize_delivery (rd_clock r i))"
    using deliver_claimed_rows [OF run dist, unfolded jobs] by (elim exE conjE) (rule that)
  have mem: "claims r db d \<longleftrightarrow> de_delivery_id d \<in> ?ids" if "d \<in> set (nd_deliveries db)" for d
    using claims_iff [OF assms(2) that] .
  have ids_mem: "\<exists>d. claims r db d \<and> de_delivery_id d = i" if "i \<in> ?ids" for i
    using that by (auto simp: claims_def)
  show ?thesis
  proof (intro exI [of _ "\<lambda>d. F (de_delivery_id d)"] conjI ballI allI impI)
    show "nd_deliveries db1 = map (\<lambda>d. if claims r db d then F (de_delivery_id d) (claimed d) else d) (nd_deliveries db)"
      using F(2,4) mem by (auto simp: mark_processing_def claimed_def)
    show "case res of Inl _ \<Rightarrow> \<exists>d. claims r db d \<and> F (de_delivery_id d) = (\<lambda>d. d)
      | Inr _ \<Rightarrow> \<forall>d. claims r db d \<longrightarrow> F (de_delivery_id d) \<in> range (finalize_delivery (rd_clock r (de_delivery_id d)))"
    proof (cases res)
      case (Inl x)
      then obtain i where "i \<in> ?ids" "F i = (\<lambda>d. d)" using F(6) res' by auto
      with ids_mem [OF this(1)] show ?thesis by (auto simp: Inl)
    next
      case (Inr n)
      then have "\<forall>i \<in> ?ids. F i \<in> range (finalize_delivery (rd_clock r i))" using F(6) res' by auto
      moreover have "de_delivery_id d \<in> ?ids" if "claims r db d" for d using that by (auto simp: claims_def)
      ultimately show ?thesis unfolding Inr sum.case by blast
    qed
  next
    fix d assume "d \<in> set (nd_deliveries db)"
    then show "if claims r db d then sends (de_delivery_id d) msgs1 \<le> sends (de_delivery_id d) msgs + 1
       else sends (de_delivery_id d) msgs1 = sends (de_delivery_id d) msgs"
      using F(2,3) mem by auto
  next
    fix i assume "i \<notin> de_delivery_id ` set (nd_deliveries db)"
    then have "i \<notin> ?ids" using ids_mem claims_due by blast
    then show "sends i msgs1 = sends i msgs" using F(2) by blast
  qed (use F in simp_all)
qed


section \<open>Planning\<close>

lemma severity_rank_cases: "severity_rank s = None \<or> (\<exists>n \<le> 3. severity_rank s = Some n)"
  by (simp add: severity_rank.simps)

definition wants :: "subscription \<Rightarrow> json_dict canonical_event \<Rightarrow> bool" where
  "wants s e = subscription_matches s (event_severity e) (event_asset e) (event_alert_type e)"

text \<open>The channels that get a delivery, in the order of the join.\<close>

fun planned :: "json_dict canonical_event \<Rightarrow> (subscription \<times> notification_channel) list \<Rightarrow> uuid set \<Rightarrow> uuid list" where
  "planned e [] seen = []"
| "planned e ((s, c) # rows) seen =
    (if wants s e \<and> ch_channel_id c \<notin> seen then ch_channel_id c # planned e rows (insert (ch_channel_id c) seen)
     else planned e rows seen)"

lemma planned_set:
  "set (planned e rows seen) = (\<lambda>(_, c). ch_channel_id c) ` {(s, c) \<in> set rows. wants s e} - seen"
proof (induction e rows seen rule: planned.induct)
  case (2 e s c rows seen)
  have "(\<lambda>(_, c). ch_channel_id c) ` {(s', c') \<in> set ((s, c) # rows). wants s' e} =
      (if wants s e then {ch_channel_id c} else {}) \<union> (\<lambda>(_, c). ch_channel_id c) ` {(s', c') \<in> set rows. wants s' e}"
    by force
  with 2 show ?case by (cases "wants s e \<and> ch_channel_id c \<notin> seen") auto
qed simp

lemma planned_distinct: "distinct (planned e rows seen)"
proof (induction e rows seen rule: planned.induct)
  case (2 e s c rows seen)
  then show ?case by (simp add: planned_set)
qed simp

definition delivered_channels :: "notification_db \<Rightarrow> string \<Rightarrow> uuid set" where
  "delivered_channels db event = de_channel_id ` {d \<in> set (nd_deliveries db). de_event_id d = event}"

lemma delivery_exists_iff: "delivery_exists db c event \<longleftrightarrow> c \<in> delivered_channels db event"
  by (auto simp: delivery_exists_def delivered_channels_def list_ex_iff)

lemma new_delivery_ids: "de_channel_id (new_delivery env now e tenant c i) = c"
  "de_event_id (new_delivery env now e tenant c i) = ce_event_id e"
  by (simp_all add: new_delivery_def)

lemma Collect_mem_insert: "{d. (d = x \<or> d \<in> A) \<and> P d} = (if P x then insert x {d \<in> A. P d} else {d \<in> A. P d})"
  by auto

definition added_rows :: "notify_env \<Rightarrow> datetime \<Rightarrow> json_dict canonical_event \<Rightarrow> string \<Rightarrow> nat \<Rightarrow> uuid list \<Rightarrow> notification_delivery list" where
  "added_rows env now e tenant n cs = map (\<lambda>k. new_delivery env now e tenant (cs ! k) (ne_new_id env (n + k))) [0..<length cs]"

lemma added_rows_Nil [simp]: "added_rows env now e tenant n [] = []"
  by (simp add: added_rows_def)

lemma added_rows_Cons: "added_rows env now e tenant n (c # cs) =
    new_delivery env now e tenant c (ne_new_id env n) # added_rows env now e tenant (Suc n) cs"
  by (simp add: added_rows_def upt_conv_Cons map_Suc_upt [symmetric] del: upt_Suc)

lemma plan_deliveries_eq:
  "plan_deliveries env now e tenant rows (db, n) =
    (let cs = planned e rows (delivered_channels db (ce_event_id e))
     in (db\<lparr>nd_deliveries := nd_deliveries db @ added_rows env now e tenant (length (nd_deliveries db)) cs\<rparr>,
         n + length cs))"
proof (induction rows arbitrary: db n)
  case (Cons row rows)
  obtain s c where row: "row = (s, c)" by (cases row)
  have new: "delivered_channels (db\<lparr>nd_deliveries := nd_deliveries db @ [new_delivery env now e tenant (ch_channel_id c) i]\<rparr>)
      (ce_event_id e) = insert (ch_channel_id c) (delivered_channels db (ce_event_id e))" for i
    by (simp add: delivered_channels_def Collect_mem_insert new_delivery_ids)
  show ?case
    by (simp add: row Cons.IH new wants_def [symmetric] delivery_exists_iff added_rows_Cons Let_def)
qed simp

definition wanted_channels :: "notification_db \<Rightarrow> json_dict canonical_event \<Rightarrow> string \<Rightarrow> uuid list" where
  "wanted_channels db e tenant = planned e (tenant_subscriptions db tenant) (delivered_channels db (ce_event_id e))"

lemma enqueue_eq:
  "enqueue_deliveries env now e tenant db =
    (db\<lparr>nd_deliveries := nd_deliveries db @ added_rows env now e tenant (length (nd_deliveries db)) (wanted_channels db e tenant)\<rparr>,
     length (wanted_channels db e tenant))"
  by (simp add: enqueue_deliveries_def plan_deliveries_eq wanted_channels_def Let_def)

lemma wanted_distinct: "distinct (wanted_channels db e tenant)"
  by (simp add: wanted_channels_def planned_distinct)

lemma wanted_mem:
  "x \<in> set (wanted_channels db e tenant) \<longleftrightarrow>
    (\<exists>s \<in> set (nd_subscriptions db). \<exists>c \<in> set (nd_channels db). x = ch_channel_id c \<and> su_channel_id s = x \<and>
       su_tenant_id s = tenant \<and> su_enabled s \<and> ch_enabled c \<and> wants s e) \<and> x \<notin> delivered_channels db (ce_event_id e)"
  unfolding wanted_channels_def planned_set tenant_subscriptions_def by force

lemma added_rows_mem:
  "d \<in> set (added_rows env now e tenant n cs) \<Longrightarrow>
    de_channel_id d \<in> set cs \<and> de_event_id d = ce_event_id e \<and> de_status d = d_pending \<and> de_attempts d = 0 \<and>
    de_tenant_id d = tenant \<and> (\<exists>k < length cs. de_delivery_id d = ne_new_id env (n + k))"
  by (auto simp: added_rows_def new_delivery_def)

lemma added_rows_maps:
  "map de_channel_id (added_rows env now e tenant n cs) = cs"
  "map de_delivery_id (added_rows env now e tenant n cs) = map (ne_new_id env) [n..<n + length cs]"
  by (induction cs arbitrary: n) (simp_all add: added_rows_Cons upt_conv_Cons new_delivery_def del: upt_Suc)


section \<open>The invariant\<close>

definition status_ok :: "notification_delivery \<Rightarrow> bool" where
  "status_ok d \<longleftrightarrow> (case de_status d of
      d_pending \<Rightarrow> de_attempts d = 0
    | d_processing \<Rightarrow> 1 \<le> de_attempts d \<and> de_attempts d \<le> 5
    | d_retry \<Rightarrow> 1 \<le> de_attempts d \<and> de_attempts d < 5 \<and> de_last_error d \<noteq> None
    | d_delivered \<Rightarrow> 1 \<le> de_attempts d \<and> de_attempts d \<le> 5 \<and> de_delivered_at d \<noteq> None \<and>
        de_response_code d \<noteq> None \<and> de_last_error d = None
    | d_failed \<Rightarrow> de_attempts d = 5 \<and> de_last_error d \<noteq> None)"

definition notify_ok :: "notify_env \<Rightarrow> notification_db \<Rightarrow> delivery_log \<Rightarrow> bool" where
  "notify_ok env db msgs \<longleftrightarrow> keys_ok db \<and>
     map de_delivery_id (nd_deliveries db) = map (ne_new_id env) [0..<length (nd_deliveries db)] \<and>
     (\<forall>d \<in> set (nd_deliveries db). status_ok d \<and> sends (de_delivery_id d) msgs \<le> de_attempts d) \<and>
     (\<forall>i. i \<notin> de_delivery_id ` set (nd_deliveries db) \<longrightarrow> sends i msgs = 0)"

lemma status_ok_attempts: "status_ok d \<Longrightarrow> de_attempts d \<le> 5"
  by (cases "de_status d") (auto simp: status_ok_def)

lemma status_ok_claimed:
  assumes "status_ok d" "due now d" "f \<in> final_updates r i"
  shows "status_ok (f (claimed d))"
proof -
  have "de_attempts d < 5" using assms(1,2) by (auto simp: status_ok_def due_def)
  then show ?thesis using assms(3)
    by (auto simp: final_updates_def status_ok_def finalize_delivery_def claimed_def split: sum.split)
qed

lemma map_keys:
  assumes "\<And>d. de_delivery_id (G d) = de_delivery_id d \<and> de_channel_id (G d) = de_channel_id d \<and> de_event_id (G d) = de_event_id d"
    "nd_deliveries db1 = map G (nd_deliveries db)" "nd_channels db1 = nd_channels db" "keys_ok db"
  shows "keys_ok db1" "map de_delivery_id (nd_deliveries db1) = map de_delivery_id (nd_deliveries db)"
proof -
  have eq: "de_delivery_id \<circ> G = de_delivery_id" "(\<lambda>d. (de_channel_id d, de_event_id d)) \<circ> G = (\<lambda>d. (de_channel_id d, de_event_id d))"
    using assms(1) by (auto simp: fun_eq_iff)
  show "map de_delivery_id (nd_deliveries db1) = map de_delivery_id (nd_deliveries db)"
    by (simp add: assms(2) eq)
  show "keys_ok db1" using assms(4) by (simp add: keys_ok_def assms(1,2,3) eq)
qed

lemma deliver_due_ok:
  assumes "notify_ok env db msgs" "deliver_due env r (db, msgs) = ((db1, msgs1), res)"
  shows "notify_ok env db1 msgs1"
proof -
  have ok: "keys_ok db" "map de_delivery_id (nd_deliveries db) = map (ne_new_id env) [0..<length (nd_deliveries db)]"
    "\<And>d. d \<in> set (nd_deliveries db) \<Longrightarrow> status_ok d \<and> sends (de_delivery_id d) msgs \<le> de_attempts d"
    "\<And>i. i \<notin> de_delivery_id ` set (nd_deliveries db) \<Longrightarrow> sends i msgs = 0"
    using assms(1) by (auto simp: notify_ok_def)
  obtain F where F: "\<forall>d. F d \<in> final_updates r (de_delivery_id d)"
    "nd_deliveries db1 = map (\<lambda>d. if claims r db d then F d (claimed d) else d) (nd_deliveries db)"
    "nd_channels db1 = nd_channels db"
    "\<forall>d \<in> set (nd_deliveries db).
       if claims r db d then sends (de_delivery_id d) msgs1 \<le> sends (de_delivery_id d) msgs + 1
       else sends (de_delivery_id d) msgs1 = sends (de_delivery_id d) msgs"
    "\<forall>i. i \<notin> de_delivery_id ` set (nd_deliveries db) \<longrightarrow> sends i msgs1 = sends i msgs"
    using deliver_due_rows [OF assms(2) ok(1)] by blast
  let ?G = "\<lambda>d. if claims r db d then F d (claimed d) else d"
  have ids: "de_delivery_id (F d x) = de_delivery_id x" "de_channel_id (F d x) = de_channel_id x"
    "de_event_id (F d x) = de_event_id x" "de_attempts (F d x) = de_attempts x" for d x
    using F(1) final_updates_ids by blast+
  have keys: "keys_ok db1" and same: "map de_delivery_id (nd_deliveries db1) = map de_delivery_id (nd_deliveries db)"
    using map_keys [of ?G, OF _ F(2,3) ok(1)] by (simp_all add: ids)
  from same have len: "length (nd_deliveries db1) = length (nd_deliveries db)"
    "de_delivery_id ` set (nd_deliveries db1) = de_delivery_id ` set (nd_deliveries db)"
    by (metis length_map, metis set_map)
  have "status_ok (?G d) \<and> sends (de_delivery_id (?G d)) msgs1 \<le> de_attempts (?G d)"
    if "d \<in> set (nd_deliveries db)" for d
  proof (cases "claims r db d")
    case True
    then have "status_ok (F d (claimed d))"
      using ok(3) [OF that] F(1) claims_due by (blast intro: status_ok_claimed)
    then show ?thesis using True F(4) ok(3) [OF that] that by (fastforce simp: ids)
  next
    case False
    then show ?thesis using F(4) ok(3) [OF that] that by fastforce
  qed
  then have "\<forall>d \<in> set (nd_deliveries db1). status_ok d \<and> sends (de_delivery_id d) msgs1 \<le> de_attempts d"
    by (simp only: F(2) set_map ball_simps) blast
  then show ?thesis using keys ok(2,4) F(5) by (simp only: notify_ok_def same len) simp
qed

lemma enqueue_ok:
  assumes "notify_ok env db msgs" "inj (ne_new_id env)"
  shows "notify_ok env (fst (enqueue_deliveries env now e tenant db)) msgs"
proof -
  let ?n = "length (nd_deliveries db)" and ?cs = "wanted_channels db e tenant"
  let ?new = "added_rows env now e tenant ?n ?cs"
  have ok: "keys_ok db" "map de_delivery_id (nd_deliveries db) = map (ne_new_id env) [0..<?n]"
    "\<forall>d \<in> set (nd_deliveries db). status_ok d \<and> sends (de_delivery_id d) msgs \<le> de_attempts d"
    "\<forall>i. i \<notin> de_delivery_id ` set (nd_deliveries db) \<longrightarrow> sends i msgs = 0"
    using assms(1) by (auto simp: notify_ok_def)
  have ids: "map de_delivery_id (nd_deliveries db @ ?new) = map (ne_new_id env) [0..<?n + length ?cs]"
    by (simp only: map_append ok(2) added_rows_maps upt_add_eq_append [of 0 ?n "length ?cs", simplified])
  then have "distinct (map de_delivery_id (nd_deliveries db @ ?new))"
    using assms(2) by (simp only: distinct_map) (auto simp: inj_on_def)
  moreover have fresh: "sends (de_delivery_id d) msgs = 0" if "d \<in> set ?new" for d
  proof -
    have "de_delivery_id d \<notin> de_delivery_id ` set (nd_deliveries db)"
      using \<open>distinct (map de_delivery_id (nd_deliveries db @ ?new))\<close> that by auto
    then show ?thesis using ok(4) by blast
  qed
  moreover have "distinct (map (\<lambda>d. (de_channel_id d, de_event_id d)) (nd_deliveries db @ ?new))"
  proof -
    have "inj_on (\<lambda>d. (de_channel_id d, de_event_id d)) (set ?new)" "distinct ?new"
      using wanted_distinct [of db e tenant] added_rows_maps(1) [of env now e tenant ?n ?cs]
      by (metis (mono_tags, lifting) distinct_map inj_onI inj_onD prod.inject)+
    moreover have "(de_channel_id d, de_event_id d) \<noteq> (de_channel_id d', de_event_id d')"
      if "d \<in> set (nd_deliveries db)" "d' \<in> set ?new" for d d'
    proof -
      have "de_channel_id d' \<notin> delivered_channels db (ce_event_id e)" "de_event_id d' = ce_event_id e"
        using added_rows_mem [OF that(2)] wanted_mem by blast+
      then show ?thesis using that(1) by (auto simp: delivered_channels_def image_iff)
    qed
    ultimately show ?thesis using ok(1) by (auto simp: keys_ok_def distinct_map)
  qed
  moreover have "\<forall>d \<in> set ?new. de_channel_id d \<in> ch_channel_id ` set (nd_channels db)"
    using added_rows_mem wanted_mem by blast
  ultimately have "keys_ok (db\<lparr>nd_deliveries := nd_deliveries db @ ?new\<rparr>)" using ok(1) by (auto simp: keys_ok_def)
  moreover have "status_ok d" if "d \<in> set ?new" for d using added_rows_mem [OF that] by (simp add: status_ok_def)
  moreover have "length ?new = length ?cs" by (simp add: added_rows_def)
  ultimately show ?thesis using ok(3,4) fresh ids by (auto simp: notify_ok_def enqueue_eq)
qed

lemma run_step_ok:
  assumes "notify_ok env (fst st) (snd st)" "inj (ne_new_id env)"
  shows "notify_ok env (fst (run_step env s st)) (snd (run_step env s st))"
proof (cases s)
  case (Consume now e)
  then show ?thesis using enqueue_ok [OF assms] by simp
next
  case (Deliver r)
  then show ?thesis using deliver_due_ok [of env "fst st" "snd st" r] assms(1) by (metis prod.collapse run_step.simps(2))
qed

lemma run_steps_ok:
  assumes "notify_ok env (fst st) (snd st)" "inj (ne_new_id env)"
  shows "notify_ok env (fst (run_steps env steps st)) (snd (run_steps env steps st))"
  using assms(1) unfolding run_steps_def
proof (induction steps arbitrary: st)
  case (Cons s steps)
  then show ?case using run_step_ok [OF Cons.prems assms(2)] by simp
qed simp


section \<open>Rounds in which nothing fails but the network\<close>

definition good_round :: "nat \<Rightarrow> delivery_round \<Rightarrow> bool" where
  "good_round n r \<longleftrightarrow> n \<le> rd_limit r \<and> (\<forall>i. \<not> rd_locked r i \<and> rd_success_commits r i \<and> rd_error_commits r i) \<and>
     (\<forall>i m x. rd_answer r i m = Inl x \<longrightarrow> caught x)"

definition env_ok :: "notify_env \<Rightarrow> bool" where
  "env_ok env \<longleftrightarrow> inj (ne_new_id env) \<and> (\<forall>v x. ne_int env v = Inl x \<longrightarrow> caught x)"

lemma send_caught:
  assumes "env_ok env" "good_round n r" "snd (send env r i c e) = Inl x"
  shows "caught x"
  using assms by (auto simp: send_def outgoing_of_def email_of_def env_ok_def good_round_def Let_def caught_def
      split: sum.splits if_splits outgoing.splits)

lemma deliver_one_good:
  assumes "env_ok env" "good_round n r"
  shows "\<exists>st'. deliver_one env r job st = (st', Inr ())"
proof -
  obtain i c e db msgs where job: "job = (i, c, e)" "st = (db, msgs)" by (metis prod.collapse)
  obtain sent answer where s: "send env r i c e = (sent, answer)" by fastforce
  have commits: "finalize r i o' d = (update_delivery i (finalize_delivery (rd_clock r i) o') d, Inr ())" for o' d
    using assms(2) by (auto simp: finalize_def good_round_def split: sum.split)
  show ?thesis
  proof (cases answer)
    case (Inl x)
    then have "caught x" using send_caught [OF assms, of i c e x] s by simp
    then show ?thesis by (simp add: job deliver_one_def s Inl commits)
  next
    case (Inr code)
    then show ?thesis by (simp add: job deliver_one_def s commits case_unit_Unity)
  qed
qed

lemma deliver_claimed_good:
  assumes "env_ok env" "good_round n r"
  shows "\<exists>st'. deliver_claimed env r jobs st = (st', Inr ())"
proof (induction jobs arbitrary: st)
  case (Cons job jobs)
  obtain st' where "deliver_one env r job st = (st', Inr ())" using deliver_one_good [OF assms] by blast
  then show ?case using Cons.IH [of st'] by (simp add: case_unit_Unity)
qed simp

lemma claims_all:
  assumes "keys_ok db" "good_round (length (nd_deliveries db)) r" "d \<in> set (nd_deliveries db)"
  shows "claims r db d \<longleftrightarrow> due (rd_now r) d"
proof
  let ?rows = "filter (\<lambda>(d, c). de_channel_id d = ch_channel_id c \<and> due (rd_now r) d \<and> \<not> rd_locked r (de_delivery_id d))
       (List.product (nd_deliveries db) (nd_channels db))"
  let ?all = "r\<lparr>rd_limit := length ?rows\<rparr>"
  have all: "due_rows ?all db = sort_key (\<lambda>(d, _). de_next_attempt_at d) ?rows" by (simp add: due_rows_def)
  have "length ?rows \<le> length (nd_deliveries db)"
  proof -
    have "distinct (map (de_delivery_id \<circ> fst) (due_rows ?all db))" by (rule due_rows_distinct [OF assms(1)])
    from distinct_card [OF this] have "length (due_rows ?all db) = card ((de_delivery_id \<circ> fst) ` set (due_rows ?all db))"
      by (simp only: length_map set_map)
    also have "\<dots> \<le> card (de_delivery_id ` set (nd_deliveries db))"
    proof (rule card_mono)
      show "(de_delivery_id \<circ> fst) ` set (due_rows ?all db) \<subseteq> de_delivery_id ` set (nd_deliveries db)"
        unfolding image_comp [symmetric] by (rule image_mono) (clarsimp dest!: due_rows_mem)
    qed simp
    also have "\<dots> \<le> length (nd_deliveries db)" by (metis card_length length_map list.set_map)
    finally show ?thesis by (simp add: all)
  qed
  then have "rd_limit r \<ge> length ?rows" using assms(2) by (simp add: good_round_def)
  then have rows: "set (due_rows r db) = set ?rows" by (simp add: due_rows_def)
  assume "due (rd_now r) d"
  moreover obtain c where "c \<in> set (nd_channels db)" "de_channel_id d = ch_channel_id c"
    using assms(1,3) by (auto simp: keys_ok_def)
  ultimately have "(d, c) \<in> set (due_rows r db)" using assms(2,3) by (auto simp: rows good_round_def)
  then show "claims r db d" by (force simp: claims_def)
qed (use claims_due in blast)

lemma deliver_due_good:
  assumes "env_ok env" "keys_ok db" "good_round (length (nd_deliveries db)) r"
    "fst (deliver_due env r (db, msgs)) = (db1, msgs1)"
  shows "\<exists>X. nd_deliveries db1 =
    map (\<lambda>d. if due (rd_now r) d then finalize_delivery (rd_clock r (de_delivery_id d)) (X d) (claimed d) else d) (nd_deliveries db)"
proof -
  obtain st where "deliver_claimed env r (snd (claim_due r db)) (fst (claim_due r db), msgs) = (st, Inr ())"
    using deliver_claimed_good [OF assms(1,3)] by blast
  then obtain n where run: "deliver_due env r (db, msgs) = ((db1, msgs1), Inr n)"
    using deliver_due_eq assms(4) by (metis fst_conv sum.case(2))
  then obtain F where F: "nd_deliveries db1 = map (\<lambda>d. if claims r db d then F d (claimed d) else d) (nd_deliveries db)"
    "\<forall>d. claims r db d \<longrightarrow> F d \<in> range (finalize_delivery (rd_clock r (de_delivery_id d)))"
    using deliver_due_rows [OF run assms(2)] by (simp only: sum.case) blast
  then have "\<forall>d. \<exists>x. claims r db d \<longrightarrow> F d = finalize_delivery (rd_clock r (de_delivery_id d)) x" by blast
  then obtain X where "\<forall>d. claims r db d \<longrightarrow> F d = finalize_delivery (rd_clock r (de_delivery_id d)) (X d)" by metis
  then show ?thesis using F(1) claims_all [OF assms(2,3)] by (intro exI [of _ X]) simp
qed


section \<open>Results\<close>

lemma run_steps_Cons [simp]: "run_steps env (s # steps) st = run_steps env steps (run_step env s st)"
  by (simp add: run_steps_def)

lemma run_steps_Nil [simp]: "run_steps env [] st = st"
  by (simp add: run_steps_def)

lemma run_steps_append: "run_steps env (xs @ ys) st = run_steps env ys (run_steps env xs st)"
  by (simp add: run_steps_def)

lemma empty_ok: "distinct (map ch_channel_id (nd_channels db)) \<Longrightarrow> nd_deliveries db = [] \<Longrightarrow> notify_ok env db []"
  by (simp add: notify_ok_def keys_ok_def)

text \<open>A row that is not waiting is never touched again.\<close>

lemma row_frozen:
  assumes "notify_ok env (fst st) (snd st)" "inj (ne_new_id env)" "d \<in> set (nd_deliveries (fst st))"
    "de_status d \<notin> {d_pending, d_retry}"
  shows "d \<in> set (nd_deliveries (fst (run_steps env steps st))) \<and>
    sends (de_delivery_id d) (snd (run_steps env steps st)) = sends (de_delivery_id d) (snd st)"
  using assms(1,3)
proof (induction steps arbitrary: st)
  case (Cons s steps)
  let ?st = "run_step env s st"
  have "d \<in> set (nd_deliveries (fst ?st)) \<and> sends (de_delivery_id d) (snd ?st) = sends (de_delivery_id d) (snd st)"
  proof (cases s)
    case (Consume now e)
    then show ?thesis using Cons.prems(2) by (simp add: enqueue_eq)
  next
    case (Deliver r)
    obtain db1 msgs1 res where run: "deliver_due env r (fst st, snd st) = ((db1, msgs1), res)" by (metis prod.collapse)
    have "\<not> claims r (fst st) d" using claims_due [of r "fst st" d] assms(4) by (auto simp: due_def)
    moreover have "keys_ok (fst st)" using Cons.prems(1) by (simp add: notify_ok_def)
    ultimately show ?thesis using deliver_due_rows [OF run] Cons.prems(2) run
      by (force simp: Deliver)
  qed
  moreover have "notify_ok env (fst ?st) (snd ?st)" by (rule run_step_ok [OF Cons.prems(1) assms(2)])
  ultimately show ?case using Cons.IH [of ?st] by simp
qed simp


definition paced :: "delivery_round \<Rightarrow> delivery_round \<Rightarrow> bool" where
  "paced r r' \<longleftrightarrow> (\<forall>i. rd_clock r i + seconds 900 \<le> rd_now r')"

lemma finalize_claimed:
  assumes "d1 = finalize_delivery now x (claimed d)"
  shows "de_status d1 \<in> {d_delivered, d_failed} \<or>
    de_status d1 = d_retry \<and> de_attempts d1 = de_attempts d + 1 \<and> de_next_attempt_at d1 \<le> now + seconds 900"
  using assms by (auto simp: finalize_delivery_def claimed_def split: sum.split)

lemma retries_end:
  assumes "env_ok env" "\<forall>r \<in> set rs. good_round n r" "successively paced rs"
    "notify_ok env db msgs" "length (nd_deliveries db) = n" "d \<in> set (nd_deliveries db)"
    "de_status d \<in> {d_pending, d_retry}" "rs \<noteq> [] \<longrightarrow> de_next_attempt_at d \<le> rd_now (hd rs)"
  shows "\<exists>d' \<in> set (nd_deliveries (fst (run_steps env (map Deliver rs) (db, msgs)))).
    de_delivery_id d' = de_delivery_id d \<and> (de_status d' \<in> {d_delivered, d_failed} \<or>
      de_status d' \<in> {d_pending, d_retry} \<and> de_attempts d + length rs \<le> de_attempts d')"
  using assms(2-)
proof (induction rs arbitrary: db msgs d)
  case Nil
  then show ?case by auto
next
  case (Cons r rs)
  have inj: "inj (ne_new_id env)" using assms(1) by (simp add: env_ok_def)
  obtain db1 msgs1 where run: "fst (deliver_due env r (db, msgs)) = (db1, msgs1)" by (metis prod.collapse)
  then have ok1: "notify_ok env db1 msgs1" using run_step_ok [of env "(db, msgs)" "Deliver r"] Cons.prems(3) inj by simp
  have good: "good_round (length (nd_deliveries db)) r" using Cons.prems(1,4) by simp
  obtain X where X: "nd_deliveries db1 = map (\<lambda>d. if due (rd_now r) d
      then finalize_delivery (rd_clock r (de_delivery_id d)) (X d) (claimed d) else d) (nd_deliveries db)"
    using deliver_due_good [OF assms(1) _ good run] Cons.prems(3) by (auto simp: notify_ok_def)
  let ?d = "finalize_delivery (rd_clock r (de_delivery_id d)) (X d) (claimed d)"
  have "due (rd_now r) d" using Cons.prems(6,7) by (auto simp: due_def)
  then have mem: "?d \<in> set (nd_deliveries db1)" using Cons.prems(5) by (force simp: X)
  have step: "run_steps env (map Deliver (r # rs)) (db, msgs) = run_steps env (map Deliver rs) (db1, msgs1)"
    using run by simp
  show ?case
  proof (cases "de_status ?d \<in> {d_delivered, d_failed}")
    case True
    then have "?d \<in> set (nd_deliveries (fst (run_steps env (map Deliver rs) (db1, msgs1))))"
      using row_frozen [of env "(db1, msgs1)" ?d] ok1 inj mem by auto
    then show ?thesis unfolding step using True by (intro bexI [of _ ?d]) simp_all
  next
    case False
    then have retry: "de_status ?d = d_retry" "de_attempts ?d = de_attempts d + 1"
      "de_next_attempt_at ?d \<le> rd_clock r (de_delivery_id d) + seconds 900"
      using finalize_claimed [of ?d _ "X d" d, OF refl] by auto
    have next_due: "rs \<noteq> [] \<longrightarrow> de_next_attempt_at ?d \<le> rd_now (hd rs)"
    proof
      assume "rs \<noteq> []"
      then have "paced r (hd rs)" using Cons.prems(2) by (cases rs) auto
      with retry(3) show "de_next_attempt_at ?d \<le> rd_now (hd rs)" unfolding paced_def by (meson order_trans)
    qed
    have "successively paced rs" using Cons.prems(2) by (cases rs) auto
    moreover have "length (nd_deliveries db1) = n" using Cons.prems(4) by (simp add: X)
    moreover have "de_status ?d \<in> {d_pending, d_retry}" using retry(1) by simp
    ultimately show ?thesis
      using Cons.IH [OF _ _ ok1 _ mem _ next_due] Cons.prems(1) retry(2) unfolding step by simp
  qed
qed

text \<open>C21. The retries of a notification end. After any history of the service, five rounds of \<open>deliver_due\<close>
  that find the database working, take every due row and are fifteen minutes apart bring every
  delivery that a crash did not leave behind to DELIVERED or FAILED, whatever the network answers,
  with at most five messages sent for it.\<close>

theorem retries_terminate:
  assumes "env_ok env" "distinct (map ch_channel_id (nd_channels db0))" "nd_deliveries db0 = []"
    "run_steps env history (db0, []) = (db, msgs)"
    "length rs = 5" "\<forall>r \<in> set rs. good_round (length (nd_deliveries db)) r" "successively paced rs"
    "\<forall>d \<in> set (nd_deliveries db). de_next_attempt_at d \<le> rd_now (hd rs)"
  shows "\<forall>d \<in> set (nd_deliveries db). de_status d \<noteq> d_processing \<longrightarrow>
    (\<exists>d' \<in> set (nd_deliveries (fst (run_steps env (map Deliver rs) (db, msgs)))).
       de_delivery_id d' = de_delivery_id d \<and> de_status d' \<in> {d_delivered, d_failed} \<and>
       sends (de_delivery_id d) (snd (run_steps env (map Deliver rs) (db, msgs))) \<le> 5)"
proof (intro ballI impI)
  fix d assume d: "d \<in> set (nd_deliveries db)" "de_status d \<noteq> d_processing"
  let ?st = "run_steps env (map Deliver rs) (db, msgs)"
  have inj: "inj (ne_new_id env)" using assms(1) by (simp add: env_ok_def)
  have ok: "notify_ok env db msgs"
    using run_steps_ok [of env "(db0, [])" history] empty_ok [OF assms(2,3)] inj assms(4) by simp
  then have ok': "notify_ok env (fst ?st) (snd ?st)" using run_steps_ok [of env "(db, msgs)"] inj by simp
  have "\<exists>d' \<in> set (nd_deliveries (fst ?st)). de_delivery_id d' = de_delivery_id d \<and> de_status d' \<in> {d_delivered, d_failed}"
  proof (cases "de_status d \<in> {d_pending, d_retry}")
    case True
    obtain d' where d': "d' \<in> set (nd_deliveries (fst ?st))" "de_delivery_id d' = de_delivery_id d"
      "de_status d' \<in> {d_delivered, d_failed} \<or> de_status d' \<in> {d_pending, d_retry} \<and> 5 \<le> de_attempts d'"
      using retries_end [OF assms(1,6,7) ok refl d(1) True] assms(5,8) d(1) by auto
    moreover have "status_ok d'" using ok' d'(1) by (simp add: notify_ok_def)
    ultimately show ?thesis by (auto simp: status_ok_def)
  next
    case False
    then have "de_status d \<in> {d_delivered, d_failed}" using d(2) by (cases "de_status d") auto
    then show ?thesis using row_frozen [of env "(db, msgs)" d "map Deliver rs"] ok inj d(1) by auto
  qed
  then show "\<exists>d' \<in> set (nd_deliveries (fst ?st)). de_delivery_id d' = de_delivery_id d \<and>
      de_status d' \<in> {d_delivered, d_failed} \<and> sends (de_delivery_id d) (snd ?st) \<le> 5"
    using ok' status_ok_attempts by (fastforce simp: notify_ok_def dest: order_trans)
qed


definition sample_notify_env :: notify_env where
  "sample_notify_env = \<lparr>ne_parse_uuid = (\<lambda>s. Some s), ne_new_id = (\<lambda>n. replicate n (CHR ''x'')), ne_time_text = show_int,
     ne_dump = (\<lambda>_. []), ne_hmac = (\<lambda>_ _. []), ne_int = (\<lambda>_. Inr 25), ne_error_text = (\<lambda>_. ''failed'')\<rparr>"

definition sample_channel :: notification_channel where
  "sample_channel = \<lparr>ch_channel_id = ''c'', ch_tenant_id = ''default'', ch_channel_type = ''SLACK'', ch_endpoint = ''u'',
     ch_secret = None, ch_config = Map.empty, ch_enabled = True\<rparr>"

definition sample_notify_db :: notification_db where
  "sample_notify_db = \<lparr>nd_channels = [sample_channel], nd_subscriptions = [\<lparr>su_tenant_id = ''default'', su_channel_id = ''c'',
     su_minimum_severity = ''HIGH'', su_asset_ids = [], su_alert_types = [], su_enabled = True\<rparr>], nd_deliveries = []\<rparr>"

definition sample_alert :: "json_dict canonical_event" where
  "sample_alert = \<lparr>ce_event_id = ''e'', ce_origin_event_id = None, ce_delivery_event_id = None, ce_event_type = ev_alert_created,
     ce_schema_version = 1, ce_source = ''s'', ce_source_event_id = ''i'', ce_source_sequence = None, ce_asset_id = None,
     ce_event_time = 0, ce_ingested_at = 0, ce_processed_at = None, ce_partition_key = ''p'',
     ce_replay = \<lparr>rm_is_replay = False, rm_replay_session_id = None\<rparr>,
     ce_trace = \<lparr>tm_correlation_id = ''t'', tm_causation_id = None\<rparr>,
     ce_payload = [''severity'' \<mapsto> Str ''HIGH'']\<rparr>"

definition sample_round :: "datetime \<Rightarrow> int res \<Rightarrow> delivery_round" where
  "sample_round now answer = \<lparr>rd_now = now, rd_limit = 50, rd_locked = (\<lambda>_. False), rd_answer = (\<lambda>_ _. answer),
     rd_clock = (\<lambda>_. now), rd_success_commits = (\<lambda>_. True), rd_error_commits = (\<lambda>_. True)\<rparr>"

lemma sample_env_ok: "env_ok sample_notify_env"
  by (simp add: env_ok_def sample_notify_env_def inj_def replicate_eq_replicate)

lemma sample_consumed:
  "run_steps sample_notify_env [Consume 0 sample_alert] (sample_notify_db, []) =
    (sample_notify_db\<lparr>nd_deliveries := [new_delivery sample_notify_env 0 sample_alert ''default'' ''c'' []]\<rparr>, [])"
proof -
  have t: "consumed_tenant sample_alert = ''default''"
    by (simp add: consumed_tenant_def get_value_def sample_alert_def)
  have "event_severity sample_alert = ''HIGH''"
    by (simp add: event_severity_def get_default_def sample_alert_def to_upper_def)
  then have "wanted_channels sample_notify_db sample_alert ''default'' = [''c'']"
    by (simp add: wanted_channels_def tenant_subscriptions_def sample_notify_db_def sample_channel_def delivered_channels_def
        wants_def subscription_matches_def severity_rank.simps)
  then show ?thesis
    by (simp add: t enqueue_eq added_rows_def) (simp add: sample_notify_db_def sample_notify_env_def)
qed

theorem retries_terminate_witness:
  "\<exists>d \<in> set (nd_deliveries (fst (run_steps sample_notify_env
      (Consume 0 sample_alert # map (\<lambda>k. Deliver (sample_round (seconds (900 * int k)) (Inl (RuntimeError ''timeout'')))) [0..<5])
      (sample_notify_db, [])))). de_status d \<in> {d_delivered, d_failed}"
proof -
  let ?env = sample_notify_env
  define rs where "rs = map (\<lambda>k. sample_round (seconds (900 * int k)) (Inl (RuntimeError ''timeout''))) [0..<5]"
  define d where "d = new_delivery ?env 0 sample_alert ''default'' ''c'' []"
  define db where "db = sample_notify_db\<lparr>nd_deliveries := [d]\<rparr>"
  have "length rs = 5" by (simp add: rs_def)
  moreover have "\<forall>r \<in> set rs. good_round (length (nd_deliveries db)) r"
    by (auto simp: rs_def good_round_def sample_round_def db_def caught_def)
  moreover have "successively paced rs"
    by (simp add: rs_def numeral_eq_Suc paced_def sample_round_def seconds_def)
  moreover have "\<forall>d \<in> set (nd_deliveries db). de_next_attempt_at d \<le> rd_now (hd rs)"
    by (simp add: rs_def db_def d_def numeral_eq_Suc sample_round_def new_delivery_def)
  moreover have "distinct (map ch_channel_id (nd_channels sample_notify_db))" "nd_deliveries sample_notify_db = []"
    by (simp_all add: sample_notify_db_def)
  moreover have run: "run_steps ?env [Consume 0 sample_alert] (sample_notify_db, []) = (db, [])"
    by (simp only: sample_consumed db_def d_def)
  ultimately have "\<forall>d \<in> set (nd_deliveries db). de_status d \<noteq> d_processing \<longrightarrow>
    (\<exists>d' \<in> set (nd_deliveries (fst (run_steps ?env (map Deliver rs) (db, [])))).
       de_delivery_id d' = de_delivery_id d \<and> de_status d' \<in> {d_delivered, d_failed} \<and>
       sends (de_delivery_id d) (snd (run_steps ?env (map Deliver rs) (db, []))) \<le> 5)"
    by (intro retries_terminate [OF sample_env_ok])
  moreover have "d \<in> set (nd_deliveries db)" "de_status d \<noteq> d_processing" by (simp_all add: db_def d_def new_delivery_def)
  ultimately obtain d' where "d' \<in> set (nd_deliveries (fst (run_steps ?env (map Deliver rs) (db, []))))"
    "de_status d' \<in> {d_delivered, d_failed}" by blast
  moreover have "run_steps ?env (Consume 0 sample_alert # map Deliver rs) (sample_notify_db, []) =
      run_steps ?env (map Deliver rs) (db, [])"
    using run_steps_append [of ?env "[Consume 0 sample_alert]" "map Deliver rs" "(sample_notify_db, [])"] run by simp
  moreover have "map Deliver rs = map (\<lambda>k. Deliver (sample_round (seconds (900 * int k)) (Inl (RuntimeError ''timeout'')))) [0..<5]"
    by (simp add: rs_def)
  ultimately show ?thesis by metis
qed

text \<open>C22. Whatever events arrive and however the rounds of deliveries fail, there is at most one delivery
  for a channel and an event, a delivery is attempted at most five times and no message is sent
  without an attempt, its status agrees with its attempts and its last result, and no message is
  sent for anything but a stored delivery.\<close>

theorem notification_invariant:
  assumes "inj (ne_new_id env)" "distinct (map ch_channel_id (nd_channels db0))" "nd_deliveries db0 = []"
    "run_steps env steps (db0, []) = (db, msgs)"
  shows "distinct (map (\<lambda>d. (de_channel_id d, de_event_id d)) (nd_deliveries db)) \<and>
    (\<forall>d \<in> set (nd_deliveries db). sends (de_delivery_id d) msgs \<le> de_attempts d \<and> de_attempts d \<le> 5 \<and>
       (de_status d = d_pending \<longleftrightarrow> de_attempts d = 0) \<and>
       (de_status d = d_delivered \<longrightarrow> de_delivered_at d \<noteq> None \<and> de_last_error d = None) \<and>
       (de_status d = d_failed \<longrightarrow> de_attempts d = 5 \<and> de_last_error d \<noteq> None) \<and>
       (de_status d = d_retry \<longrightarrow> de_attempts d < 5 \<and> de_last_error d \<noteq> None)) \<and>
    fst ` set msgs \<subseteq> de_delivery_id ` set (nd_deliveries db)"
proof -
  have ok: "notify_ok env db msgs"
    using run_steps_ok [of env "(db0, [])" steps] empty_ok [OF assms(2,3)] assms(1,4) by simp
  have "i \<in> de_delivery_id ` set (nd_deliveries db)" if "i \<in> fst ` set msgs" for i
  proof (rule ccontr)
    assume "i \<notin> de_delivery_id ` set (nd_deliveries db)"
    then have "sends i msgs = 0" using ok by (simp add: notify_ok_def)
    then show False using that by (auto simp: sends_def filter_empty_conv)
  qed
  moreover have "(de_status d = d_pending \<longleftrightarrow> de_attempts d = 0) \<and>
      (de_status d = d_delivered \<longrightarrow> de_delivered_at d \<noteq> None \<and> de_last_error d = None) \<and>
      (de_status d = d_failed \<longrightarrow> de_attempts d = 5 \<and> de_last_error d \<noteq> None) \<and>
      (de_status d = d_retry \<longrightarrow> de_attempts d < 5 \<and> de_last_error d \<noteq> None)" if "status_ok d" for d
    using that by (cases "de_status d") (auto simp: status_ok_def)
  ultimately show ?thesis using ok status_ok_attempts by (auto simp: notify_ok_def keys_ok_def)
qed

theorem notification_invariant_witness:
  "list_all (\<lambda>d. de_attempts d \<le> 5) (nd_deliveries (fst (run_steps sample_notify_env
      [Consume 0 sample_alert, Deliver (sample_round 0 (Inr 200))] (sample_notify_db, []))))"
proof -
  have "inj (ne_new_id sample_notify_env)" using sample_env_ok by (simp add: env_ok_def)
  moreover have "distinct (map ch_channel_id (nd_channels sample_notify_db))" "nd_deliveries sample_notify_db = []"
    by (simp_all add: sample_notify_db_def)
  moreover obtain db msgs where run: "run_steps sample_notify_env
      [Consume 0 sample_alert, Deliver (sample_round 0 (Inr 200))] (sample_notify_db, []) = (db, msgs)"
    by (rule prod.exhaust)
  ultimately have "\<forall>d \<in> set (nd_deliveries db). de_attempts d \<le> 5"
    using notification_invariant [of sample_notify_env sample_notify_db _ db msgs] by blast
  then show ?thesis by (simp only: run fst_conv list_all_iff)
qed


text \<open>A round that raises, because the database fails while an outcome is recorded or because the
  worker is cancelled, leaves a delivery in PROCESSING that no later round or event ever touches
  again: it is neither retried nor marked as failed.\<close>

theorem notification_stranded:
  assumes "inj (ne_new_id env)" "distinct (map ch_channel_id (nd_channels db0))" "nd_deliveries db0 = []"
    "run_steps env history (db0, []) = (db, msgs)" "deliver_due env r (db, msgs) = ((db1, msgs1), Inl x)"
  shows "\<exists>d \<in> set (nd_deliveries db1). de_status d = d_processing \<and>
    (\<forall>steps. d \<in> set (nd_deliveries (fst (run_steps env steps (db1, msgs1)))) \<and>
       sends (de_delivery_id d) (snd (run_steps env steps (db1, msgs1))) = sends (de_delivery_id d) msgs1)"
proof -
  have ok: "notify_ok env db msgs"
    using run_steps_ok [of env "(db0, [])" history] empty_ok [OF assms(2,3)] assms(1,4) by simp
  then have "keys_ok db" by (simp add: notify_ok_def)
  from deliver_due_rows [OF assms(5) this, unfolded sum.case] obtain F d where
    F: "nd_deliveries db1 = map (\<lambda>d. if claims r db d then F d (claimed d) else d) (nd_deliveries db)"
    and d: "claims r db d" "F d = (\<lambda>d. d)" by blast
  have "claimed d \<in> set (nd_deliveries db1)" using d claims_due [OF d(1)] by (force simp: F)
  moreover have "de_status (claimed d) = d_processing" by simp
  moreover have "notify_ok env db1 msgs1" by (rule deliver_due_ok [OF ok assms(5)])
  ultimately show ?thesis using row_frozen [of env "(db1, msgs1)" "claimed d"] assms(1) by fastforce
qed

theorem notification_stranded_witness:
  "\<exists>db1 msgs1 x. deliver_due sample_notify_env (sample_round 0 (Inl CancelledError))
      (run_steps sample_notify_env [Consume 0 sample_alert] (sample_notify_db, [])) = ((db1, msgs1), Inl x) \<and>
    (\<exists>d \<in> set (nd_deliveries db1). de_status d = d_processing)"
proof -
  let ?env = sample_notify_env and ?r = "sample_round 0 (Inl CancelledError)"
  let ?d = "new_delivery ?env 0 sample_alert ''default'' ''c'' []"
  let ?db = "sample_notify_db\<lparr>nd_deliveries := [?d]\<rparr>"
  have "due_rows ?r ?db = [(?d, sample_channel)]"
    by (simp add: due_rows_def sample_round_def sample_notify_db_def new_delivery_def due_def sample_channel_def)
  then have "deliver_due ?env ?r (?db, []) = ((?db\<lparr>nd_deliveries := [claimed ?d]\<rparr>,
      [([], Post ''u'' (chat_payload sample_channel (notification_payload_of (de_payload ?d))) [(''Idempotency-Key'', en_event_id (de_payload ?d))])]),
      Inl CancelledError)"
    by (simp add: deliver_due_def claim_due_def deliver_one_def send_def outgoing_of_def sample_channel_def sample_round_def
        caught_def mark_processing_def claimed_def Let_def new_delivery_def)
  moreover have "inj (ne_new_id ?env)" using sample_env_ok by (simp add: env_ok_def)
  moreover have "distinct (map ch_channel_id (nd_channels sample_notify_db))" "nd_deliveries sample_notify_db = []"
    by (simp_all add: sample_notify_db_def)
  ultimately show ?thesis using notification_stranded [of ?env sample_notify_db, OF _ _ _ sample_consumed]
    unfolding sample_consumed by blast
qed

text \<open>Consuming an alert plans a pending delivery, due at once, for exactly the enabled channels of the
  tenant that an enabled subscription matches and that have no delivery for the event yet, one for
  each channel however many subscriptions name it; consuming the event again changes nothing.\<close>

theorem enqueue_exact:
  assumes "enqueue_deliveries env now e tenant db = (db', n)"
  shows "(\<exists>new. nd_deliveries db' = nd_deliveries db @ new \<and> n = length new \<and> distinct (map de_channel_id new) \<and>
      (\<forall>x. x \<in> de_channel_id ` set new \<longleftrightarrow>
        (\<exists>s \<in> set (nd_subscriptions db). \<exists>c \<in> set (nd_channels db).
           ch_channel_id c = x \<and> su_channel_id s = x \<and> su_tenant_id s = tenant \<and> su_enabled s \<and> ch_enabled c \<and>
           subscription_matches s (event_severity e) (event_asset e) (event_alert_type e)) \<and>
        \<not> delivery_exists db x (ce_event_id e)) \<and>
      (\<forall>d \<in> set new. de_event_id d = ce_event_id e \<and> de_tenant_id d = tenant \<and> de_attempts d = 0 \<and> due now d)) \<and>
    enqueue_deliveries env later e tenant db' = (db', 0)"
proof
  let ?cs = "wanted_channels db e tenant"
  let ?new = "added_rows env now e tenant (length (nd_deliveries db)) ?cs"
  have db': "db' = db\<lparr>nd_deliveries := nd_deliveries db @ ?new\<rparr>" "n = length ?cs"
    using assms by (simp_all add: enqueue_eq)
  have "due now d" if "d \<in> set ?new" for d
    using that by (auto simp: added_rows_def new_delivery_def due_def)
  moreover have "de_channel_id ` set ?new = set ?cs" by (metis added_rows_maps(1) set_map)
  moreover have "length ?new = length ?cs" by (simp add: added_rows_def)
  ultimately show "\<exists>new. nd_deliveries db' = nd_deliveries db @ new \<and> n = length new \<and> distinct (map de_channel_id new) \<and>
      (\<forall>x. x \<in> de_channel_id ` set new \<longleftrightarrow>
        (\<exists>s \<in> set (nd_subscriptions db). \<exists>c \<in> set (nd_channels db).
           ch_channel_id c = x \<and> su_channel_id s = x \<and> su_tenant_id s = tenant \<and> su_enabled s \<and> ch_enabled c \<and>
           subscription_matches s (event_severity e) (event_asset e) (event_alert_type e)) \<and>
        \<not> delivery_exists db x (ce_event_id e)) \<and>
      (\<forall>d \<in> set new. de_event_id d = ce_event_id e \<and> de_tenant_id d = tenant \<and> de_attempts d = 0 \<and> due now d)"
    by (intro exI [of _ ?new])
      (auto simp: db' added_rows_maps wanted_distinct wanted_mem wants_def delivery_exists_iff dest: added_rows_mem)
  have "delivered_channels db' (ce_event_id e) = delivered_channels db (ce_event_id e) \<union> de_channel_id ` set ?new"
    using added_rows_mem by (fastforce simp: db' delivered_channels_def)
  then have seen: "delivered_channels db' (ce_event_id e) = delivered_channels db (ce_event_id e) \<union> set ?cs"
    using \<open>de_channel_id ` set ?new = set ?cs\<close> by (simp only:)
  have "nd_channels db' = nd_channels db" "nd_subscriptions db' = nd_subscriptions db" by (simp_all add: db')
  then have "x \<notin> set (wanted_channels db' e tenant)" for x
    using wanted_mem [of x db' e tenant] wanted_mem [of x db e tenant] seen by (simp only:) blast
  then have "wanted_channels db' e tenant = []" by (metis last_in_set)
  then show "enqueue_deliveries env later e tenant db' = (db', 0)" by (simp add: enqueue_eq)
qed

theorem enqueue_exact_witness:
  "enqueue_deliveries sample_notify_env 5 sample_alert ''default''
     (fst (enqueue_deliveries sample_notify_env 0 sample_alert ''default'' sample_notify_db)) =
   (fst (enqueue_deliveries sample_notify_env 0 sample_alert ''default'' sample_notify_db), 0)"
  using enqueue_exact [of sample_notify_env 0 sample_alert "''default''" sample_notify_db] by (metis prod.collapse)

end
