(* ===== verification/Outbox.thy ===== *)
theory Outbox
  imports Prelude
begin

text \<open>
  The transactional outbox: the rows of \<open>outbox_events\<close> (\<open>db/models.py\<close>), \<open>SqlOutboxRepository\<close>
  (\<open>ingestion/repositories.py\<close>) and \<open>OutboxDispatcher\<close> (\<open>streaming/outbox.py\<close>). A dispatcher claims a
  batch of rows in one transaction, publishes each event, and records each outcome in a transaction of
  its own. Several dispatchers run at once: a step relation interleaves their transactions with
  publications, crashes and the passing of time.
\<close>

section \<open>The table\<close>

datatype outbox_status = ob_pending | ob_processing | ob_published | ob_failed

fun outbox_status_value :: "outbox_status \<Rightarrow> string" where
  "outbox_status_value ob_pending = ''PENDING''"
| "outbox_status_value ob_processing = ''PROCESSING''"
| "outbox_status_value ob_published = ''PUBLISHED''"
| "outbox_status_value ob_failed = ''FAILED''"

record 'e outbox_row =
  ob_outbox_id :: uuid
  ob_topic :: string
  ob_envelope :: 'e
  ob_status :: outbox_status
  ob_attempts :: nat
  ob_created_at :: datetime
  ob_claimed_at :: "datetime option"
  ob_published_at :: "datetime option"
  ob_last_error :: "string option"

record 'm outbox_message =
  om_outbox_id :: uuid
  om_topic :: string
  om_event :: 'm

definition claimable :: "datetime \<Rightarrow> 'e outbox_row \<Rightarrow> bool" where
  "claimable now r \<longleftrightarrow> (ob_status r \<in> {ob_pending, ob_failed} \<or>
      ob_status r = ob_processing \<and> (case ob_claimed_at r of None \<Rightarrow> False | Some t \<Rightarrow> t < now - seconds 300)) \<and>
    ob_attempts r < 10"

definition claim_row :: "datetime \<Rightarrow> 'e outbox_row \<Rightarrow> 'e outbox_row" where
  "claim_row now r = r\<lparr>ob_status := ob_processing, ob_claimed_at := Some now, ob_attempts := ob_attempts r + 1\<rparr>"

text \<open>\<open>pending\<close>: the selected rows are the first ones by creation time that no other transaction holds;
  their update is committed before the envelopes are validated, so a validation that raises leaves
  every selected row claimed.\<close>

definition selected_rows :: "datetime \<Rightarrow> nat \<Rightarrow> (uuid \<Rightarrow> bool) \<Rightarrow> 'e outbox_row list \<Rightarrow> 'e outbox_row list" where
  "selected_rows now limit locked rows =
    take limit (sort_key ob_created_at (filter (\<lambda>r. claimable now r \<and> \<not> locked (ob_outbox_id r)) rows))"

fun decode_rows :: "('e \<Rightarrow> 'm res) \<Rightarrow> 'e outbox_row list \<Rightarrow> 'm outbox_message list res" where
  "decode_rows decode [] = Inr []"
| "decode_rows decode (r # rows) = (case decode (ob_envelope r) of
     Inl x \<Rightarrow> Inl x
   | Inr e \<Rightarrow> (case decode_rows decode rows of
       Inl x \<Rightarrow> Inl x
     | Inr ms \<Rightarrow> Inr (\<lparr>om_outbox_id = ob_outbox_id r, om_topic = ob_topic r, om_event = e\<rparr> # ms)))"

definition pending :: "('e \<Rightarrow> 'm res) \<Rightarrow> datetime \<Rightarrow> nat \<Rightarrow> (uuid \<Rightarrow> bool) \<Rightarrow> 'e outbox_row list
    \<Rightarrow> 'e outbox_row list \<times> 'm outbox_message list res" where
  "pending decode now limit locked rows =
    (let chosen = selected_rows now limit locked rows; ids = set (map ob_outbox_id chosen)
     in (map (\<lambda>r. if ob_outbox_id r \<in> ids then claim_row now r else r) rows, decode_rows decode chosen))"

definition update_row :: "uuid \<Rightarrow> ('e outbox_row \<Rightarrow> 'e outbox_row) \<Rightarrow> 'e outbox_row list \<Rightarrow> 'e outbox_row list" where
  "update_row i f = map (\<lambda>r. if ob_outbox_id r = i then f r else r)"

definition mark_published :: "datetime \<Rightarrow> uuid \<Rightarrow> 'e outbox_row list \<Rightarrow> 'e outbox_row list" where
  "mark_published now i = update_row i (\<lambda>r. r\<lparr>ob_status := ob_published, ob_published_at := Some now, ob_last_error := None\<rparr>)"

text \<open>\<open>(error or "publish failed")[:2000]\<close>.\<close>

definition mark_failed :: "uuid \<Rightarrow> string option \<Rightarrow> 'e outbox_row list \<Rightarrow> 'e outbox_row list" where
  "mark_failed i e = update_row i (\<lambda>r. r\<lparr>ob_status := ob_failed, ob_last_error := Some (take 2000
     (case e of None \<Rightarrow> ''publish failed'' | Some t \<Rightarrow> if t = [] then ''publish failed'' else t))\<rparr>)"

section \<open>One dispatcher\<close>

text \<open>What the clock, the locks, the broker and the database answer during one call of
  \<open>dispatch_batch\<close>.\<close>

record 'm dispatch_call =
  dc_now :: datetime
  dc_limit :: nat
  dc_locked :: "uuid \<Rightarrow> bool"
  dc_publish :: "'m outbox_message \<Rightarrow> unit res"
  dc_marks :: "uuid \<Rightarrow> bool"
  dc_clock :: "uuid \<Rightarrow> datetime"
  dc_repr :: "py_exn \<Rightarrow> string"

type_synonym 'm publications = "'m outbox_message list"

fun dispatch_messages :: "'m dispatch_call \<Rightarrow> 'm outbox_message list \<Rightarrow> nat \<Rightarrow> 'e outbox_row list \<times> 'm publications
    \<Rightarrow> ('e outbox_row list \<times> 'm publications) \<times> nat res" where
  "dispatch_messages c [] n st = (st, Inr n)"
| "dispatch_messages c (m # ms) n (rows, out) =
    (let i = om_outbox_id m in case dc_publish c m of
       Inl x \<Rightarrow>
         if \<not> caught x then ((rows, out), Inl x)
         else if dc_marks c i then dispatch_messages c ms n (mark_failed i (Some (dc_repr c x)) rows, out)
         else ((rows, out), Inl (RuntimeError ''database''))
     | Inr _ \<Rightarrow>
         if dc_marks c i then dispatch_messages c ms (n + 1) (mark_published (dc_clock c i) i rows, out @ [m])
         else ((rows, out @ [m]), Inl (RuntimeError ''database'')))"

definition dispatch_batch :: "('e \<Rightarrow> 'm res) \<Rightarrow> 'm dispatch_call \<Rightarrow> 'e outbox_row list \<times> 'm publications
    \<Rightarrow> ('e outbox_row list \<times> 'm publications) \<times> nat res" where
  "dispatch_batch decode c = (\<lambda>(rows, out).
     case pending decode (dc_now c) (dc_limit c) (dc_locked c) rows of (rows1, res) \<Rightarrow>
       (case res of Inl x \<Rightarrow> ((rows1, out), Inl x) | Inr ms \<Rightarrow> dispatch_messages c ms 0 (rows1, out)))"

definition dispatch_calls :: "('e \<Rightarrow> 'm res) \<Rightarrow> 'm dispatch_call list \<Rightarrow> 'e outbox_row list \<times> 'm publications
    \<Rightarrow> 'e outbox_row list \<times> 'm publications" where
  "dispatch_calls decode calls st = fold (\<lambda>c st. fst (dispatch_batch decode c st)) calls st"

section \<open>Many dispatchers\<close>

text \<open>What a dispatcher still has to do: publish a message, or record the outcome of one.\<close>

datatype 'm task = Publish "'m outbox_message" | Record_published uuid | Record_failed uuid string

record ('e, 'm) outbox_state =
  os_rows :: "'e outbox_row list"
  os_now :: datetime
  os_workers :: "'m task list list"
  os_out :: "'m publications"

datatype 'm outbox_label = Claim nat nat "uuid \<Rightarrow> bool" | Publish_ok nat | Publish_raises nat string | Commit nat | Stop nat | Wait timedelta

definition set_worker :: "nat \<Rightarrow> 'm task list \<Rightarrow> ('e, 'm) outbox_state \<Rightarrow> ('e, 'm) outbox_state" where
  "set_worker w ts s = s\<lparr>os_workers := (os_workers s)[w := ts]\<rparr>"

text \<open>\<open>Stop\<close> is a crash, a cancellation or a transaction that fails: the batch is abandoned.\<close>

inductive outbox_step :: "('e \<Rightarrow> 'm res) \<Rightarrow> ('e, 'm) outbox_state \<Rightarrow> 'm outbox_label \<Rightarrow> ('e, 'm) outbox_state \<Rightarrow> bool"
  for decode where
  claims: "\<lbrakk>w < length (os_workers s); os_workers s ! w = [];
     pending decode (os_now s) limit locked (os_rows s) = (rows, Inr ms)\<rbrakk>
   \<Longrightarrow> outbox_step decode s (Claim w limit locked) (set_worker w (map Publish ms) (s\<lparr>os_rows := rows\<rparr>))"
| claim_raises: "\<lbrakk>w < length (os_workers s); os_workers s ! w = [];
     pending decode (os_now s) limit locked (os_rows s) = (rows, Inl x)\<rbrakk>
   \<Longrightarrow> outbox_step decode s (Claim w limit locked) (s\<lparr>os_rows := rows\<rparr>)"
| publishes: "\<lbrakk>w < length (os_workers s); os_workers s ! w = Publish m # ts\<rbrakk>
   \<Longrightarrow> outbox_step decode s (Publish_ok w)
         (set_worker w (Record_published (om_outbox_id m) # ts) (s\<lparr>os_out := os_out s @ [m]\<rparr>))"
| publish_raises: "\<lbrakk>w < length (os_workers s); os_workers s ! w = Publish m # ts\<rbrakk>
   \<Longrightarrow> outbox_step decode s (Publish_raises w t) (set_worker w (Record_failed (om_outbox_id m) t # ts) s)"
| commit_published: "\<lbrakk>w < length (os_workers s); os_workers s ! w = Record_published i # ts\<rbrakk>
   \<Longrightarrow> outbox_step decode s (Commit w) (set_worker w ts (s\<lparr>os_rows := mark_published (os_now s) i (os_rows s)\<rparr>))"
| commit_failed: "\<lbrakk>w < length (os_workers s); os_workers s ! w = Record_failed i t # ts\<rbrakk>
   \<Longrightarrow> outbox_step decode s (Commit w) (set_worker w ts (s\<lparr>os_rows := mark_failed i (Some t) (os_rows s)\<rparr>))"
| stops: "w < length (os_workers s) \<Longrightarrow> outbox_step decode s (Stop w) (set_worker w [] s)"
| waits: "0 \<le> d \<Longrightarrow> outbox_step decode s (Wait d) (s\<lparr>os_now := os_now s + d\<rparr>)"

inductive outbox_run :: "('e \<Rightarrow> 'm res) \<Rightarrow> ('e, 'm) outbox_state \<Rightarrow> 'm outbox_label list \<Rightarrow> ('e, 'm) outbox_state \<Rightarrow> bool"
  for decode where
  run_Nil: "outbox_run decode s [] s"
| run_Cons: "outbox_step decode s l s' \<Longrightarrow> outbox_run decode s' ls s'' \<Longrightarrow> outbox_run decode s (l # ls) s''"

end
