(* ===== verification/Outbox_Correct.thy ===== *)
theory Outbox_Correct
  imports Outbox
begin

text \<open>
  Correctness of the outbox: the invariant of the table and its dispatchers under every
  interleaving, delivery by a single dispatcher whose broker works, and what one envelope that does
  not validate does to its batch.
\<close>

section \<open>Counting\<close>

definition times_out :: "uuid \<Rightarrow> 'm publications \<Rightarrow> nat" where
  "times_out i out = length (filter (\<lambda>m. om_outbox_id m = i) out)"

fun publishes_id :: "uuid \<Rightarrow> 'm task \<Rightarrow> bool" where
  "publishes_id i (Publish m) = (om_outbox_id m = i)"
| "publishes_id i _ = False"

definition in_flight :: "uuid \<Rightarrow> 'm task list list \<Rightarrow> nat" where
  "in_flight i ws = (\<Sum>ts\<leftarrow>ws. length (filter (publishes_id i) ts))"

lemma times_out_simps [simp]: "times_out i [] = 0" "times_out i (xs @ ys) = times_out i xs + times_out i ys"
  "times_out i (m # ms) = (if om_outbox_id m = i then 1 else 0) + times_out i ms"
  by (simp_all add: times_out_def)

lemma in_flight_update:
  "w < length ws \<Longrightarrow>
    in_flight i (ws[w := ts]) + length (filter (publishes_id i) (ws ! w)) = in_flight i ws + length (filter (publishes_id i) ts)"
proof (induction ws arbitrary: w)
  case (Cons x ws)
  show ?case
  proof (cases w)
    case (Suc v)
    with Cons show ?thesis by (simp add: in_flight_def)
  qed (simp add: in_flight_def)
qed simp

lemma filter_Publish: "length (filter (publishes_id i) (map Publish ms)) = times_out i ms"
  by (induction ms) simp_all

lemma set_worker_fields [simp]: "os_rows (set_worker w ts s) = os_rows s" "os_now (set_worker w ts s) = os_now s"
  "os_out (set_worker w ts s) = os_out s" "os_workers (set_worker w ts s) = (os_workers s)[w := ts]"
  by (simp_all add: set_worker_def)

section \<open>The operations on the table\<close>

definition same_events :: "'e outbox_row \<Rightarrow> 'e outbox_row \<Rightarrow> bool" where
  "same_events r r' \<longleftrightarrow> ob_outbox_id r' = ob_outbox_id r \<and> ob_topic r' = ob_topic r \<and> ob_envelope r' = ob_envelope r \<and>
     ob_created_at r' = ob_created_at r"

lemma selected_subset: "r \<in> set (selected_rows now limit locked rows) \<Longrightarrow> r \<in> set rows \<and> claimable now r"
  by (auto simp: selected_rows_def dest!: in_set_takeD)

lemma selected_distinct:
  assumes "distinct (map ob_outbox_id rows)"
  shows "distinct (map ob_outbox_id (selected_rows now limit locked rows))"
proof -
  have "distinct (map ob_outbox_id (sort_key ob_created_at (filter P rows)))" for P
    using distinct_map_filter [OF assms, of P] by (simp add: distinct_map)
  then show ?thesis unfolding selected_rows_def take_map [symmetric] by (rule distinct_take)
qed

lemma decode_rows_Inr:
  assumes "decode_rows decode rows = Inr ms"
  shows "map om_outbox_id ms = map ob_outbox_id rows"
    "\<forall>m \<in> set ms. \<exists>r \<in> set rows. ob_outbox_id r = om_outbox_id m \<and> ob_topic r = om_topic m \<and> decode (ob_envelope r) = Inr (om_event m)"
  using assms by (induction rows arbitrary: ms) (auto split: sum.splits)

lemma decode_rows_total: "list_all (\<lambda>r. is_ok (decode (ob_envelope r))) rows \<longleftrightarrow> is_ok (decode_rows decode rows)"
  by (induction rows) (auto simp: is_ok_def split: sum.splits)

lemma times_out_distinct:
  "distinct (map om_outbox_id ms) \<Longrightarrow> times_out i ms = (if i \<in> om_outbox_id ` set ms then 1 else 0)"
  by (induction ms) auto

section \<open>The invariant\<close>

definition message_ok :: "('e \<Rightarrow> 'm res) \<Rightarrow> 'e outbox_row list \<Rightarrow> 'm outbox_message \<Rightarrow> bool" where
  "message_ok decode rows m \<longleftrightarrow> (\<exists>r \<in> set rows. ob_outbox_id r = om_outbox_id m \<and> ob_topic r = om_topic m \<and>
     decode (ob_envelope r) = Inr (om_event m))"

definition row_ok :: "'m publications \<Rightarrow> 'm task list list \<Rightarrow> 'e outbox_row \<Rightarrow> bool" where
  "row_ok out ws r \<longleftrightarrow> ob_attempts r \<le> 10 \<and> times_out (ob_outbox_id r) out + in_flight (ob_outbox_id r) ws \<le> ob_attempts r \<and>
     (ob_status r = ob_published \<longrightarrow> 1 \<le> times_out (ob_outbox_id r) out \<and> ob_published_at r \<noteq> None)"

fun task_ok :: "('e \<Rightarrow> 'm res) \<Rightarrow> 'e outbox_row list \<Rightarrow> 'm publications \<Rightarrow> 'm task \<Rightarrow> bool" where
  "task_ok decode rows out (Publish m) = message_ok decode rows m"
| "task_ok decode rows out (Record_published i) = (1 \<le> times_out i out)"
| "task_ok decode rows out (Record_failed _ _) = True"

definition outbox_ok :: "('e \<Rightarrow> 'm res) \<Rightarrow> ('e, 'm) outbox_state \<Rightarrow> bool" where
  "outbox_ok decode s \<longleftrightarrow> distinct (map ob_outbox_id (os_rows s)) \<and>
     (\<forall>r \<in> set (os_rows s). row_ok (os_out s) (os_workers s) r) \<and>
     (\<forall>m \<in> set (os_out s). message_ok decode (os_rows s) m) \<and>
     (\<forall>ts \<in> set (os_workers s). \<forall>t \<in> set ts. task_ok decode (os_rows s) (os_out s) t)"

text \<open>An update of the rows that keeps their identity and content.\<close>

lemma map_rows:
  assumes "\<And>r. same_events r (f r)"
  shows "map ob_outbox_id (map f rows) = map ob_outbox_id rows" "message_ok decode (map f rows) = message_ok decode rows"
    "task_ok decode (map f rows) = task_ok decode rows"
proof -
  have eq: "ob_outbox_id (f r) = ob_outbox_id r" "ob_topic (f r) = ob_topic r" "ob_envelope (f r) = ob_envelope r" for r
    using assms [of r] by (simp_all add: same_events_def)
  show "map ob_outbox_id (map f rows) = map ob_outbox_id rows" by (simp add: eq)
  show msg: "message_ok decode (map f rows) = message_ok decode rows" by (simp add: message_ok_def eq fun_eq_iff)
  have "task_ok decode (map f rows) out t = task_ok decode rows out t" for out t by (cases t) (simp_all add: msg)
  then show "task_ok decode (map f rows) = task_ok decode rows" by (intro ext)
qed

lemma pending_rows:
  assumes "pending decode now limit locked rows = (rows', res)"
  shows "rows' = map (\<lambda>r. if ob_outbox_id r \<in> ob_outbox_id ` set (selected_rows now limit locked rows) then claim_row now r else r) rows"
    "res = decode_rows decode (selected_rows now limit locked rows)"
  using assms by (simp_all add: pending_def Let_def)

lemma worker_tasks:
  assumes "w < length ws" "\<forall>ts \<in> set ws. \<forall>t \<in> set ts. P t" "\<forall>t \<in> set ts'. P t"
  shows "\<forall>ts \<in> set (ws[w := ts']). \<forall>t \<in> set ts. P t"
  using assms set_update_subset_insert [of ws w ts'] by blast

lemma outbox_ok_set:
  assumes f: "\<And>r. same_events r (f r)" and "distinct (map ob_outbox_id (os_rows s))"
    "\<And>r. r \<in> set (os_rows s) \<Longrightarrow> row_ok (os_out s') (os_workers s') (f r)"
    "\<forall>m \<in> set (os_out s'). message_ok decode (os_rows s) m"
    "\<forall>ts \<in> set (os_workers s'). \<forall>t \<in> set ts. task_ok decode (os_rows s) (os_out s') t"
    "os_rows s' = map f (os_rows s)"
  shows "outbox_ok decode s'"
proof -
  have "\<forall>r \<in> set (os_rows s'). row_ok (os_out s') (os_workers s') r" using assms(3) by (simp add: assms(6))
  then show ?thesis unfolding outbox_ok_def assms(6) using assms(2,4,5) by (simp only: map_rows [OF f] simp_thms)
qed

lemma claim_ok:
  assumes "outbox_ok decode s" "pending decode (os_now s) limit locked (os_rows s) = (rows, res)"
    "w < length (os_workers s)" "os_workers s ! w = []"
    "ts = (case res of Inl _ \<Rightarrow> [] | Inr ms \<Rightarrow> map Publish ms)"
  shows "outbox_ok decode (set_worker w ts (s\<lparr>os_rows := rows\<rparr>))"
proof -
  let ?sel = "selected_rows (os_now s) limit locked (os_rows s)"
  let ?f = "\<lambda>r. if ob_outbox_id r \<in> ob_outbox_id ` set ?sel then claim_row (os_now s) r else r"
  let ?ws = "(os_workers s)[w := ts]"
  have rows: "rows = map ?f (os_rows s)" and res: "res = decode_rows decode ?sel" using pending_rows [OF assms(2)] by auto
  have f: "same_events r (?f r)" for r by (simp add: same_events_def claim_row_def)
  have ok: "distinct (map ob_outbox_id (os_rows s))" "\<forall>r \<in> set (os_rows s). row_ok (os_out s) (os_workers s) r"
    "\<forall>m \<in> set (os_out s). message_ok decode (os_rows s) m"
    "\<forall>ts \<in> set (os_workers s). \<forall>t \<in> set ts. task_ok decode (os_rows s) (os_out s) t"
    using assms(1) by (auto simp: outbox_ok_def)
  have new: "length (filter (publishes_id i) ts) \<le> (if i \<in> ob_outbox_id ` set ?sel then 1 else 0)" for i
  proof (cases res)
    case (Inr ms)
    then have "map om_outbox_id ms = map ob_outbox_id ?sel" using decode_rows_Inr(1) res by metis
    moreover from this have "om_outbox_id ` set ms = ob_outbox_id ` set ?sel" by (metis list.set_map)
    moreover have "distinct (map om_outbox_id ms)" using selected_distinct [OF ok(1)] calculation(1) by metis
    ultimately show ?thesis unfolding assms(5) Inr sum.case filter_Publish by (simp only: times_out_distinct)
  qed (simp add: assms(5))
  then have flight: "in_flight i ?ws \<le> in_flight i (os_workers s) + (if i \<in> ob_outbox_id ` set ?sel then 1 else 0)" for i
    using in_flight_update [OF assms(3), of i ts] assms(4) by (metis add.right_neutral filter.simps(1) list.size(3) nat_add_left_cancel_le)
  have "row_ok (os_out s) ?ws (?f r)" if r: "r \<in> set (os_rows s)" for r
  proof (cases "ob_outbox_id r \<in> ob_outbox_id ` set ?sel")
    case True
    then obtain q where "q \<in> set ?sel" "ob_outbox_id q = ob_outbox_id r" by auto
    then have "claimable (os_now s) r"
      using selected_subset [of q] ok(1) r by (metis distinct_map inj_onD)
    then show ?thesis using ok(2) r flight [of "ob_outbox_id r"] True
      by (auto simp: row_ok_def claim_row_def claimable_def)
  next
    case False
    then show ?thesis using ok(2) r flight [of "ob_outbox_id r"] by (auto simp: row_ok_def)
  qed
  moreover have "\<forall>t \<in> set ts. task_ok decode (os_rows s) (os_out s) t"
  proof (cases res)
    case (Inr ms)
    have "message_ok decode (os_rows s) m" if "m \<in> set ms" for m
      using decode_rows_Inr(2) [of decode ?sel ms] that res Inr selected_subset unfolding message_ok_def by metis
    then show ?thesis by (auto simp: assms(5) Inr)
  qed (simp add: assms(5))
  ultimately show ?thesis using ok(1,3) worker_tasks [OF assms(3) ok(4)]
    by (intro outbox_ok_set [where f = ?f and s = s, OF f]) (simp_all add: rows)
qed


lemma task_ok_mono: "task_ok decode rows out t \<Longrightarrow> (\<And>i. times_out i out \<le> times_out i out') \<Longrightarrow> task_ok decode rows out' t"
  by (cases t) (auto intro: order_trans)

lemma update_row_f: "update_row i f rows = map (\<lambda>r. if ob_outbox_id r = i then f r else r) rows"
  by (simp add: update_row_def)

text \<open>A worker finishes or replaces its first task, with an update of the rows that keeps counters.\<close>

lemma step_ok:
  assumes ok: "outbox_ok decode s" and w: "w < length (os_workers s)"
    and same: "\<And>r. same_events r (f r) \<and> ob_attempts (f r) = ob_attempts r \<and>
      (ob_status (f r) = ob_published \<longrightarrow>
         (ob_status r = ob_published \<and> ob_published_at (f r) = ob_published_at r \<or>
          1 \<le> times_out (ob_outbox_id r) out \<and> ob_published_at (f r) \<noteq> None))"
    and count: "\<And>i. times_out i out + length (filter (publishes_id i) ts) \<le>
      times_out i (os_out s) + length (filter (publishes_id i) (os_workers s ! w))"
    and more: "\<And>i. times_out i (os_out s) \<le> times_out i out"
    and msgs: "\<forall>m \<in> set out. message_ok decode (os_rows s) m"
    and tasks: "\<forall>t \<in> set ts. task_ok decode (os_rows s) out t"
  shows "outbox_ok decode (set_worker w ts (s\<lparr>os_rows := map f (os_rows s), os_out := out\<rparr>))"
proof -
  let ?ws = "(os_workers s)[w := ts]"
  have f: "same_events r (f r)" for r using same by blast
  have flight: "times_out i out + in_flight i ?ws \<le> times_out i (os_out s) + in_flight i (os_workers s)" for i
    using in_flight_update [OF w, of i ts] count [of i] by linarith
  have "row_ok out ?ws (f r)" if "r \<in> set (os_rows s)" for r
  proof -
    have "row_ok (os_out s) (os_workers s) r" using ok that by (simp add: outbox_ok_def)
    then show ?thesis using same [of r] flight [of "ob_outbox_id r"] more [of "ob_outbox_id r"]
      by (auto simp: row_ok_def same_events_def)
  qed
  moreover have "\<forall>ts \<in> set (os_workers s). \<forall>t \<in> set ts. task_ok decode (os_rows s) out t"
    using ok more unfolding outbox_ok_def by (blast intro: task_ok_mono)
  moreover have "distinct (map ob_outbox_id (os_rows s))" using ok by (simp add: outbox_ok_def)
  ultimately show ?thesis using msgs worker_tasks [OF w _ tasks]
    by (intro outbox_ok_set [where f = f and s = s, OF f]) simp_all
qed


lemma nth_worker_tasks: "outbox_ok decode s \<Longrightarrow> w < length (os_workers s) \<Longrightarrow> os_workers s ! w = t # ts \<Longrightarrow>
    task_ok decode (os_rows s) (os_out s) t \<and> (\<forall>t \<in> set ts. task_ok decode (os_rows s) (os_out s) t)"
  unfolding outbox_ok_def by (metis list.set_intros(1,2) nth_mem)

lemma outbox_step_ok: "outbox_step decode s l s' \<Longrightarrow> outbox_ok decode s \<Longrightarrow> outbox_ok decode s'"
proof (induction rule: outbox_step.induct)
  case (claims w s limit locked rows ms)
  then show ?case using claim_ok [of decode s limit locked rows "Inr ms" w "map Publish ms"] by simp
next
  case (claim_raises w s limit locked rows x)
  have "set_worker w [] (s\<lparr>os_rows := rows\<rparr>) = s\<lparr>os_rows := rows\<rparr>"
    using claim_raises.hyps(1,2) by (simp add: set_worker_def list_update_same_conv)
  then show ?case using claim_ok [of decode s limit locked rows "Inl x" w "[]"] claim_raises by simp
next
  case (publishes w s m ts)
  note tasks = nth_worker_tasks [OF publishes.prems publishes.hyps(1,2)]
  have "outbox_ok decode (set_worker w (Record_published (om_outbox_id m) # ts)
      (s\<lparr>os_rows := map (\<lambda>r. r) (os_rows s), os_out := os_out s @ [m]\<rparr>))"
    by (rule step_ok [OF publishes.prems publishes.hyps(1)])
      (use publishes tasks in \<open>auto simp: same_events_def outbox_ok_def intro: task_ok_mono\<close>)
  then show ?case by simp
next
  case (publish_raises w s m ts t)
  note tasks = nth_worker_tasks [OF publish_raises.prems publish_raises.hyps(1,2)]
  have "outbox_ok decode (set_worker w (Record_failed (om_outbox_id m) t # ts)
      (s\<lparr>os_rows := map (\<lambda>r. r) (os_rows s), os_out := os_out s\<rparr>))"
    by (rule step_ok [OF publish_raises.prems publish_raises.hyps(1)])
      (use publish_raises tasks in \<open>auto simp: same_events_def outbox_ok_def\<close>)
  then show ?case by simp
next
  case (commit_published w s i ts)
  note tasks = nth_worker_tasks [OF commit_published.prems commit_published.hyps(1,2)]
  show ?case unfolding mark_published_def update_row_f
    using step_ok [OF commit_published.prems commit_published.hyps(1), of
        "\<lambda>r. if ob_outbox_id r = i then r\<lparr>ob_status := ob_published, ob_published_at := Some (os_now s), ob_last_error := None\<rparr> else r"
        "os_out s" ts] commit_published tasks
    by (auto simp: same_events_def outbox_ok_def)
next
  case (commit_failed w s i t ts)
  note tasks = nth_worker_tasks [OF commit_failed.prems commit_failed.hyps(1,2)]
  show ?case unfolding mark_failed_def update_row_f
    using step_ok [OF commit_failed.prems commit_failed.hyps(1), of
        "\<lambda>r. if ob_outbox_id r = i then r\<lparr>ob_status := ob_failed, ob_last_error := Some (take 2000
           (case Some t of None \<Rightarrow> ''publish failed'' | Some t \<Rightarrow> if t = [] then ''publish failed'' else t))\<rparr> else r"
        "os_out s" ts] commit_failed tasks
    by (auto simp: same_events_def outbox_ok_def)
next
  case (stops w s)
  have "outbox_ok decode (set_worker w [] (s\<lparr>os_rows := map (\<lambda>r. r) (os_rows s), os_out := os_out s\<rparr>))"
    by (rule step_ok [OF stops.prems stops.hyps(1)]) (use stops in \<open>auto simp: same_events_def outbox_ok_def\<close>)
  then show ?case by simp
next
  case (waits d s)
  then show ?case by (simp add: outbox_ok_def)
qed

lemma outbox_run_ok: "outbox_run decode s ls s' \<Longrightarrow> outbox_ok decode s \<Longrightarrow> outbox_ok decode s'"
  by (induction rule: outbox_run.induct) (auto intro: outbox_step_ok)

definition fresh_outbox :: "('e, 'm) outbox_state \<Rightarrow> bool" where
  "fresh_outbox s \<longleftrightarrow> distinct (map ob_outbox_id (os_rows s)) \<and>
     list_all (\<lambda>r. ob_status r = ob_pending \<and> ob_attempts r = 0) (os_rows s) \<and>
     list_all (\<lambda>ts. ts = []) (os_workers s) \<and> os_out s = []"

lemma fresh_ok: "fresh_outbox s \<Longrightarrow> outbox_ok decode s"
proof -
  assume fresh: "fresh_outbox s"
  have "in_flight i ws = 0" if "list_all (\<lambda>ts. ts = []) ws" for i and ws :: "'b task list list"
    using that by (induction ws) (simp_all add: in_flight_def)
  then show ?thesis using fresh by (auto simp: fresh_outbox_def outbox_ok_def row_ok_def list_all_iff)
qed

text \<open>C23. However the transactions of any number of dispatchers, their publications, crashes and the clock
  interleave, an event is published at most once for each attempt on its row and at most ten times,
  a row is PUBLISHED only if its event was published, and every published message is the topic and
  the validated envelope of a row.\<close>

theorem outbox_invariant:
  assumes "outbox_run decode s ls s'" "fresh_outbox s"
  shows "(\<forall>r \<in> set (os_rows s'). times_out (ob_outbox_id r) (os_out s') \<le> ob_attempts r \<and> ob_attempts r \<le> 10 \<and>
      (ob_status r = ob_published \<longrightarrow> 1 \<le> times_out (ob_outbox_id r) (os_out s') \<and> ob_published_at r \<noteq> None)) \<and>
    (\<forall>m \<in> set (os_out s'). \<exists>r \<in> set (os_rows s'). ob_outbox_id r = om_outbox_id m \<and> ob_topic r = om_topic m \<and>
       decode (ob_envelope r) = Inr (om_event m))"
  using outbox_run_ok [OF assms(1) fresh_ok [OF assms(2)]]
  unfolding outbox_ok_def row_ok_def message_ok_def by (auto intro: add_leD1)

definition sample_row :: "string \<Rightarrow> int \<Rightarrow> string outbox_row" where
  "sample_row i t = \<lparr>ob_outbox_id = i, ob_topic = ''t'', ob_envelope = i, ob_status = ob_pending, ob_attempts = 0,
     ob_created_at = t, ob_claimed_at = None, ob_published_at = None, ob_last_error = None\<rparr>"

theorem outbox_invariant_witness:
  "\<exists>s'. outbox_run Inr \<lparr>os_rows = [sample_row ''a'' 1], os_now = 5, os_workers = [[]], os_out = []\<rparr>
      [Claim 0 100 (\<lambda>_. False), Publish_ok 0, Commit 0] s' \<and>
    list_all (\<lambda>r. times_out (ob_outbox_id r) (os_out s') = 1 \<and> ob_attempts r \<le> 10) (os_rows s')"
proof -
  let ?s = "\<lparr>os_rows = [sample_row ''a'' 1], os_now = 5, os_workers = [[]], os_out = []\<rparr>"
  let ?m = "\<lparr>om_outbox_id = ''a'', om_topic = ''t'', om_event = ''a''\<rparr>"
  let ?rows = "[claim_row 5 (sample_row ''a'' 1)]"
  have p: "pending Inr 5 100 (\<lambda>_. False) [sample_row ''a'' 1] = (?rows, Inr [?m])"
    by (simp add: pending_def selected_rows_def claimable_def sample_row_def Let_def)
  let ?s1 = "set_worker 0 (map Publish [?m]) (?s\<lparr>os_rows := ?rows\<rparr>)"
  let ?s2 = "set_worker 0 [Record_published ''a''] (?s1\<lparr>os_out := os_out ?s1 @ [?m]\<rparr>)"
  let ?s3 = "set_worker 0 [] (?s2\<lparr>os_rows := mark_published (os_now ?s2) ''a'' (os_rows ?s2)\<rparr>)"
  have a: "outbox_step Inr ?s (Claim 0 100 (\<lambda>_. False)) ?s1" by (rule outbox_step.claims) (simp_all add: p)
  have b: "outbox_step Inr ?s1 (Publish_ok 0) ?s2"
    using outbox_step.publishes [of 0 ?s1 ?m "[]" Inr] by simp
  have c: "outbox_step Inr ?s2 (Commit 0) ?s3" by (rule outbox_step.commit_published) simp_all
  note run = run_Cons [OF a run_Cons [OF b run_Cons [OF c run_Nil]]]
  have "fresh_outbox ?s" by (simp add: fresh_outbox_def sample_row_def)
  from outbox_invariant [OF run this]
  have "list_all (\<lambda>r. ob_attempts r \<le> 10) (os_rows ?s3)" by (auto simp: list_all_iff)
  then have "list_all (\<lambda>r. times_out (ob_outbox_id r) (os_out ?s3) = 1 \<and> ob_attempts r \<le> 10) (os_rows ?s3)"
    by (simp add: mark_published_def update_row_def claim_row_def sample_row_def)
  with run show ?thesis by (intro exI [of _ ?s3] conjI)
qed


section \<open>A single dispatcher whose broker works\<close>

definition waiting :: "'e outbox_row \<Rightarrow> bool" where
  "waiting r \<longleftrightarrow> ob_status r \<in> {ob_pending, ob_failed} \<and> ob_attempts r < 10"

definition settled :: "'e outbox_row \<Rightarrow> bool" where
  "settled r \<longleftrightarrow> waiting r \<or> ob_status r = ob_published"

definition good_call :: "nat \<Rightarrow> 'm dispatch_call \<Rightarrow> bool" where
  "good_call limit c \<longleftrightarrow> dc_limit c = limit \<and> (\<forall>i. \<not> dc_locked c i \<and> dc_marks c i) \<and> (\<forall>m. dc_publish c m = Inr ())"

definition published_row :: "'m dispatch_call \<Rightarrow> 'e outbox_row \<Rightarrow> 'e outbox_row" where
  "published_row c r = r\<lparr>ob_status := ob_published, ob_published_at := Some (dc_clock c (ob_outbox_id r)), ob_last_error := None\<rparr>"

lemma dispatch_messages_good:
  assumes "good_call limit c"
  shows "dispatch_messages c ms n (rows, out) =
    ((map (\<lambda>r. if ob_outbox_id r \<in> om_outbox_id ` set ms then published_row c r else r) rows, out @ ms), Inr (n + length ms))"
proof (induction ms arbitrary: n rows out)
  case (Cons m ms)
  have "dc_marks c (om_outbox_id m)" "dc_publish c m = Inr ()" using assms by (simp_all add: good_call_def)
  then have "dispatch_messages c (m # ms) n (rows, out) =
      dispatch_messages c ms (n + 1) (mark_published (dc_clock c (om_outbox_id m)) (om_outbox_id m) rows, out @ [m])"
    by (simp add: Let_def)
  also have "\<dots> = ((map (\<lambda>r. if ob_outbox_id r \<in> om_outbox_id ` set (m # ms) then published_row c r else r) rows,
      out @ m # ms), Inr (n + length (m # ms)))"
    unfolding Cons.IH by (auto simp: mark_published_def update_row_def published_row_def)
  finally show ?case .
qed simp

definition message_of :: "('e \<Rightarrow> 'm res) \<Rightarrow> 'e outbox_row \<Rightarrow> 'm outbox_message" where
  "message_of decode r = \<lparr>om_outbox_id = ob_outbox_id r, om_topic = ob_topic r,
     om_event = (case decode (ob_envelope r) of Inr e \<Rightarrow> e)\<rparr>"

lemma decode_rows_messages:
  "list_all (\<lambda>r. is_ok (decode (ob_envelope r))) rows \<Longrightarrow> decode_rows decode rows = Inr (map (message_of decode) rows)"
  by (induction rows) (auto simp: is_ok_iff message_of_def)

lemma message_of_id [simp]: "om_outbox_id (message_of decode r) = ob_outbox_id r"
  by (simp add: message_of_def)

lemma dispatch_good:
  fixes rows :: "'e outbox_row list"
  assumes "good_call limit c" "distinct (map ob_outbox_id rows)" "list_all settled rows"
    "list_all (\<lambda>r. is_ok (decode (ob_envelope r))) rows"
    "sel = take limit (sort_key ob_created_at (filter waiting rows))"
  shows "dispatch_batch decode c (rows, out) =
    ((map (\<lambda>r. if r \<in> set sel then published_row c (claim_row (dc_now c) r) else r) rows,
      out @ map (message_of decode) sel), Inr (length sel))"
proof -
  have "filter (\<lambda>r. claimable (dc_now c) r \<and> \<not> dc_locked c (ob_outbox_id r)) rows = filter waiting rows"
    using assms(1,3) by (intro filter_cong) (auto simp: claimable_def waiting_def good_call_def list_all_iff settled_def)
  then have sel: "selected_rows (dc_now c) (dc_limit c) (dc_locked c) rows = sel"
    using assms(1) by (simp add: selected_rows_def assms(5) good_call_def)
  have sub: "set sel \<subseteq> set rows" using selected_subset sel by blast
  then have ids: "ob_outbox_id r \<in> ob_outbox_id ` set sel \<longleftrightarrow> r \<in> set sel" if "r \<in> set rows" for r
    using assms(2) that by (auto simp: distinct_map dest: inj_onD)
  have "list_all (\<lambda>r. is_ok (decode (ob_envelope r))) sel" using assms(4) sub by (auto simp: list_all_iff)
  then have "pending decode (dc_now c) (dc_limit c) (dc_locked c) rows =
      (map (\<lambda>r. if r \<in> set sel then claim_row (dc_now c) r else r) rows, Inr (map (message_of decode) sel))"
    using ids by (simp add: pending_def sel Let_def decode_rows_messages)
  moreover have "om_outbox_id ` set (map (message_of decode) sel) = ob_outbox_id ` set sel" by (simp add: image_image)
  moreover have "ob_outbox_id (claim_row (dc_now c) r) = ob_outbox_id r" for r :: "'e outbox_row" by (simp add: claim_row_def)
  ultimately show ?thesis using ids
    by (simp add: dispatch_batch_def dispatch_messages_good [OF assms(1)] cong: map_cong)
qed

text \<open>Taking the first rows of the sorted waiting rows leaves the others, still sorted.\<close>

lemma filter_not_taken:
  assumes "distinct xs"
  shows "filter (\<lambda>x. x \<notin> set (take n xs)) xs = drop n xs"
proof -
  have "filter (\<lambda>x. x \<notin> set (take n xs)) (take n xs @ drop n xs) = drop n xs"
    using set_take_disj_set_drop_if_distinct [OF assms, of n n] by (subst filter_append) (auto simp: filter_empty_conv filter_id_conv)
  then show ?thesis by simp
qed

lemma waiting_rest:
  assumes "distinct (map ob_outbox_id rows)" "sel = take limit (sort_key ob_created_at (filter waiting rows))"
  shows "filter waiting (map (\<lambda>r. if r \<in> set sel then published_row c (claim_row now r) else r) rows) =
      filter (\<lambda>r. r \<notin> set sel) (filter waiting rows)"
    "sort_key ob_created_at (filter (\<lambda>r. r \<notin> set sel) (filter waiting rows)) = drop limit (sort_key ob_created_at (filter waiting rows))"
proof -
  have "\<not> waiting (published_row c (claim_row now r))" for r by (simp add: waiting_def published_row_def)
  then show "filter waiting (map (\<lambda>r. if r \<in> set sel then published_row c (claim_row now r) else r) rows) =
      filter (\<lambda>r. r \<notin> set sel) (filter waiting rows)" by (induction rows) auto
  have "distinct (sort_key ob_created_at (filter waiting rows))"
    using assms(1) by (simp add: distinct_map)
  from filter_not_taken [OF this, of limit] show "sort_key ob_created_at (filter (\<lambda>r. r \<notin> set sel) (filter waiting rows)) =
      drop limit (sort_key ob_created_at (filter waiting rows))"
    by (simp only: filter_sort [symmetric] assms(2))
qed


lemma dispatch_calls_Cons [simp]: "dispatch_calls decode (c # cs) st = dispatch_calls decode cs (fst (dispatch_batch decode c st))"
  by (simp add: dispatch_calls_def)

lemma dispatch_calls_Nil [simp]: "dispatch_calls decode [] st = st"
  by (simp add: dispatch_calls_def)

lemma dispatch_calls_good:
  fixes rows :: "'e outbox_row list"
  assumes "\<forall>c \<in> set cs. good_call limit c" "distinct (map ob_outbox_id rows)" "list_all settled rows"
    "list_all (\<lambda>r. is_ok (decode (ob_envelope r))) rows" "dispatch_calls decode cs (rows, out) = (rows', out')"
  shows "out' = out @ map (message_of decode) (take (length cs * limit) (sort_key ob_created_at (filter waiting rows))) \<and>
    sort_key ob_created_at (filter waiting rows') = drop (length cs * limit) (sort_key ob_created_at (filter waiting rows)) \<and>
    list_all settled rows'"
  using assms
proof (induction cs arbitrary: rows out)
  case (Cons c cs)
  let ?sel = "take limit (sort_key ob_created_at (filter waiting rows))"
  let ?rows = "map (\<lambda>r. if r \<in> set ?sel then published_row c (claim_row (dc_now c) r) else r) rows"
  have good: "good_call limit c" using Cons.prems(1) by simp
  note call = dispatch_good [OF good Cons.prems(2-4) refl, of out]
  have ids: "ob_outbox_id (published_row c (claim_row now r)) = ob_outbox_id r"
    "ob_envelope (published_row c (claim_row now r)) = ob_envelope r"
    "settled (published_row c (claim_row now r))" for now and r :: "'e outbox_row"
    by (simp_all add: published_row_def claim_row_def settled_def)
  have "map ob_outbox_id ?rows = map ob_outbox_id rows" by (simp add: ids)
  then have rows: "distinct (map ob_outbox_id ?rows)" "list_all settled ?rows"
    "list_all (\<lambda>r. is_ok (decode (ob_envelope r))) ?rows"
    using Cons.prems(2-4) by (simp_all only:) (auto simp: list_all_iff ids)
  have run: "dispatch_calls decode cs (?rows, out @ map (message_of decode) ?sel) = (rows', out')"
    using Cons.prems(5) call by simp
  have later: "\<forall>c \<in> set cs. good_call limit c" using Cons.prems(1) by simp
  note rest = waiting_rest(1) [OF Cons.prems(2) refl, of limit c "dc_now c"] waiting_rest(2) [OF Cons.prems(2) refl, of limit]
  have sorted: "sort_key ob_created_at (filter waiting ?rows) = drop limit (sort_key ob_created_at (filter waiting rows))"
    by (simp only: rest)
  from Cons.IH [OF later rows run, unfolded sorted] show ?case
    by (simp add: take_add drop_drop add.commute)
qed simp

text \<open>C24. While the broker and the database work, a single dispatcher publishes every waiting event, in the
  order the rows were created, after as many calls as it takes batches to cover them, and leaves
  every row PUBLISHED.\<close>

theorem outbox_delivers:
  assumes "\<forall>c \<in> set cs. good_call limit c" "distinct (map ob_outbox_id rows)" "list_all settled rows"
    "list_all (\<lambda>r. is_ok (decode (ob_envelope r))) rows" "length (filter waiting rows) \<le> length cs * limit"
  shows "snd (dispatch_calls decode cs (rows, out)) =
      out @ map (message_of decode) (sort_key ob_created_at (filter waiting rows)) \<and>
    list_all (\<lambda>r. ob_status r = ob_published) (fst (dispatch_calls decode cs (rows, out)))"
proof -
  obtain rows' out' where run: "dispatch_calls decode cs (rows, out) = (rows', out')" by (rule prod.exhaust)
  note result = dispatch_calls_good [OF assms(1-4) run]
  then have "filter waiting rows' = []" using assms(5) by (metis drop_all length_sort length_0_conv list.size(3))
  then have "list_all (\<lambda>r. ob_status r = ob_published) rows'"
    using result by (auto simp: list_all_iff settled_def filter_empty_conv)
  then show ?thesis using result assms(5) by (simp add: run)
qed

definition sample_call :: "datetime \<Rightarrow> nat \<Rightarrow> 'm dispatch_call" where
  "sample_call now limit = \<lparr>dc_now = now, dc_limit = limit, dc_locked = (\<lambda>_. False), dc_publish = (\<lambda>_. Inr ()),
     dc_marks = (\<lambda>_. True), dc_clock = (\<lambda>_. now), dc_repr = (\<lambda>_. ''error'')\<rparr>"

theorem outbox_delivers_witness:
  "map om_outbox_id (snd (dispatch_calls Inr [sample_call 5 1, sample_call 6 1] ([sample_row ''b'' 2, sample_row ''a'' 1], []))) =
    [''a'', ''b'']"
proof -
  let ?rows = "[sample_row ''b'' 2, sample_row ''a'' 1]"
  have "\<forall>c \<in> set [sample_call 5 1, sample_call 6 1]. good_call 1 c" by (simp add: good_call_def sample_call_def)
  moreover have "distinct (map ob_outbox_id ?rows)" "list_all settled ?rows"
    "list_all (\<lambda>r. is_ok (Inr (ob_envelope r) :: string res)) ?rows" "length (filter waiting ?rows) \<le> length [sample_call 5 1, sample_call 6 1] * 1"
    by (simp_all add: sample_row_def settled_def waiting_def)
  ultimately have "snd (dispatch_calls Inr [sample_call 5 1, sample_call 6 1] (?rows, [])) =
      [] @ map (message_of Inr) (sort_key ob_created_at (filter waiting ?rows))"
    by (intro conjunct1 [OF outbox_delivers])
  then show ?thesis by (simp add: sample_row_def waiting_def)
qed

section \<open>An envelope that does not validate\<close>

definition uniform :: "'e outbox_row list \<Rightarrow> bool" where
  "uniform rows \<longleftrightarrow> (\<exists>st \<in> {ob_pending, ob_processing}. \<exists>a t. list_all (\<lambda>r. ob_status r = st \<and> ob_attempts r = a \<and> ob_claimed_at r = t) rows)"

lemma poisoned_call:
  assumes "uniform rows" "distinct (map ob_outbox_id rows)" "list_ex (\<lambda>r. \<not> is_ok (decode (ob_envelope r))) rows"
    "length rows \<le> dc_limit c" "\<forall>i. \<not> dc_locked c i"
  obtains rows' where "fst (dispatch_batch decode c (rows, out)) = (rows', out)" "uniform rows'"
    "map ob_outbox_id rows' = map ob_outbox_id rows" "map ob_envelope rows' = map ob_envelope rows"
proof -
  obtain st a t where u: "st \<in> {ob_pending, ob_processing}"
    "list_all (\<lambda>r. ob_status r = st \<and> ob_attempts r = a \<and> ob_claimed_at r = t) rows"
    using assms(1) by (auto simp: uniform_def)
  have "(\<forall>r \<in> set rows. claimable (dc_now c) r) \<or> (\<forall>r \<in> set rows. \<not> claimable (dc_now c) r)"
    using u(2) by (auto simp: claimable_def list_all_iff)
  then show thesis
  proof
    assume all: "\<forall>r \<in> set rows. claimable (dc_now c) r"
    then have sel: "selected_rows (dc_now c) (dc_limit c) (dc_locked c) rows = sort_key ob_created_at rows"
      using assms(4,5) by (simp add: selected_rows_def)
    have "\<not> is_ok (decode_rows decode (sort_key ob_created_at rows))"
      using assms(3) by (simp add: decode_rows_total [symmetric] list_all_iff list_ex_iff)
    then obtain x where x: "decode_rows decode (sort_key ob_created_at rows) = Inl x" by (auto simp: is_ok_def split: sum.splits)
    have "fst (dispatch_batch decode c (rows, out)) = (map (claim_row (dc_now c)) rows, out)"
      by (simp add: dispatch_batch_def pending_def sel x Let_def)
    moreover have "uniform (map (claim_row (dc_now c)) rows)"
      using u(2) unfolding uniform_def
      by (intro bexI [of _ ob_processing] exI [of _ "a + 1"] exI [of _ "Some (dc_now c)"]) (auto simp: claim_row_def list_all_iff)
    ultimately show thesis by (rule that) (simp_all add: claim_row_def)
  next
    assume none: "\<forall>r \<in> set rows. \<not> claimable (dc_now c) r"
    then have "filter (\<lambda>r. claimable (dc_now c) r \<and> \<not> dc_locked c (ob_outbox_id r)) rows = []" by (simp add: filter_empty_conv)
    then have "selected_rows (dc_now c) (dc_limit c) (dc_locked c) rows = []" by (simp add: selected_rows_def)
    then have "fst (dispatch_batch decode c (rows, out)) = (rows, out)" by (simp add: dispatch_batch_def pending_def Let_def)
    then show thesis using that assms(1) by blast
  qed
qed

text \<open>One envelope that does not validate poisons its batch: when a table of new rows fits into one batch
  and one of them does not validate, no event of the table is ever published, however often and
  whenever the dispatcher runs and whatever the broker answers.\<close>

theorem outbox_poisoned:
  assumes "list_all (\<lambda>r. ob_status r = ob_pending \<and> ob_attempts r = 0 \<and> ob_claimed_at r = None) rows"
    "distinct (map ob_outbox_id rows)" "list_ex (\<lambda>r. \<not> is_ok (decode (ob_envelope r))) rows"
    "\<forall>c \<in> set cs. length rows \<le> dc_limit c \<and> (\<forall>i. \<not> dc_locked c i)"
  shows "snd (dispatch_calls decode cs (rows, [])) = [] \<and>
    list_all (\<lambda>r. ob_status r \<noteq> ob_published) (fst (dispatch_calls decode cs (rows, [])))"
proof -
  have "uniform rows" using assms(1) unfolding uniform_def
    by (intro bexI [of _ ob_pending] exI [of _ 0] exI [of _ None]) auto
  then show ?thesis using assms(2-4)
  proof (induction cs arbitrary: rows)
    case Nil
    then show ?case by (auto simp: uniform_def list_all_iff)
  next
    case (Cons c cs)
    have "length rows \<le> dc_limit c" "\<forall>i. \<not> dc_locked c i" using Cons.prems(4) by simp_all
    then obtain rows' where rows': "fst (dispatch_batch decode c (rows, [])) = (rows', [])" "uniform rows'"
      "map ob_outbox_id rows' = map ob_outbox_id rows" "map ob_envelope rows' = map ob_envelope rows"
      using poisoned_call [OF Cons.prems(1-3)] by blast
    have "length rows' = length rows" using rows'(3) by (rule map_eq_imp_length_eq)
    moreover have "list_ex (\<lambda>r. \<not> is_ok (decode (ob_envelope r))) rows'"
    proof -
      have ex: "list_ex (\<lambda>r. \<not> is_ok (decode (ob_envelope r))) xs \<longleftrightarrow> list_ex (\<lambda>e. \<not> is_ok (decode e)) (map ob_envelope xs)"
        for xs :: "'a outbox_row list" by (simp add: list_ex_iff)
      show ?thesis using Cons.prems(3) unfolding ex rows'(4) .
    qed
    ultimately show ?case using Cons.IH [OF rows'(2)] Cons.prems(2,4) rows'(1,3) by simp
  qed
qed

theorem outbox_poisoned_witness:
  "snd (dispatch_calls (\<lambda>e. if e = ''b'' then Inl (ValidationError e) else Inr e)
      [sample_call 5 100, sample_call (seconds 1000) 100] ([sample_row ''b'' 2, sample_row ''a'' 1], [])) = []"
proof -
  let ?decode = "\<lambda>e. if e = ''b'' then Inl (ValidationError e) else Inr e" and ?rows = "[sample_row ''b'' 2, sample_row ''a'' 1]"
  have "list_all (\<lambda>r. ob_status r = ob_pending \<and> ob_attempts r = 0 \<and> ob_claimed_at r = None) ?rows"
    "distinct (map ob_outbox_id ?rows)" "list_ex (\<lambda>r. \<not> is_ok (?decode (ob_envelope r))) ?rows"
    "\<forall>c \<in> set [sample_call 5 100, sample_call (seconds 1000) 100]. length ?rows \<le> dc_limit c \<and> (\<forall>i. \<not> dc_locked c i)"
    by (simp_all add: sample_row_def sample_call_def)
  from outbox_poisoned [OF this] show ?thesis by blast
qed

end
