(* ===== verification/Clustering.thy ===== *)
theory Clustering
  imports Narrative_Records "HOL-Library.Product_Lexorder" "HOL-Library.List_Lexorder" "HOL-Library.Char_ord" "HOL-Library.Multiset"
begin

text \<open>
  Narrative clustering (\<open>narratives/clustering.py\<close>, \<open>narratives/schemas.py\<close> and
  \<open>cosine_similarity\<close> and the hashing embedding of \<open>narratives/embeddings.py\<close>): posts in the order of
  their times join the group whose centroid they resemble most, provided they also resemble every
  member, and each group becomes a cluster record. Vectors are lists of reals.
\<close>

section \<open>Vectors\<close>

definition norm_of :: "real list \<Rightarrow> real" where
  "norm_of v = sqrt (\<Sum>x\<leftarrow>v. x * x)"

definition dot :: "real list \<Rightarrow> real list \<Rightarrow> real" where
  "dot u v = (\<Sum>(a, b)\<leftarrow>zip u v. a * b)"

definition cosine_similarity :: "real list \<Rightarrow> real list \<Rightarrow> real res" where
  "cosine_similarity u v =
    (if length u \<noteq> length v then Inl (ValueError ''embedding dimensions do not match'')
     else if norm_of u = 0 \<or> norm_of v = 0 then Inr 0
     else Inr (max 0 (min 1 (dot u v / (norm_of u * norm_of v)))))"

text \<open>\<open>DeterministicHashEmbedding.embed\<close>; \<open>digest\<close> answers \<open>sha256(token).digest()\<close> by the number its
  first four bytes form and the parity of the fifth.\<close>

definition add_token :: "nat \<Rightarrow> (string \<Rightarrow> nat \<times> bool) \<Rightarrow> string \<Rightarrow> real list \<Rightarrow> real list" where
  "add_token dims digest t v = (case digest t of (n, positive) \<Rightarrow>
     let i = n mod dims; sign = (if positive then 1 else - 1)
     in v[i := v ! i + sign * (1 + real (min (length t) 12) / 12)])"

definition normalize :: "real list \<Rightarrow> real list" where
  "normalize v = (if norm_of v \<noteq> 0 then map (\<lambda>x. x / norm_of v) v else v)"

definition embed :: "nat \<Rightarrow> (string \<Rightarrow> nat \<times> bool) \<Rightarrow> string \<Rightarrow> real list res" where
  "embed dims digest text' = (let ts = tokens (lower text') in
     if dims = 0 \<and> ts \<noteq> [] then Inl ZeroDivisionError
     else Inr (normalize (fold (add_token dims digest) ts (replicate dims 0))))"

text \<open>\<open>_centroid\<close>: the components up to the length of the first vector.\<close>

definition centroid :: "narrative_post list \<Rightarrow> real list res" where
  "centroid posts = (case posts of
     [] \<Rightarrow> Inl (IndexError ''list index out of range'')
   | p # _ \<Rightarrow>
       (let dims = length (po_vector p)
        in if list_ex (\<lambda>q. length (po_vector q) < dims) posts then Inl (IndexError ''list index out of range'')
           else Inr (normalize (map (\<lambda>i. (\<Sum>q\<leftarrow>posts. po_vector q ! i) / real (length posts)) [0..<dims]))))"

section \<open>Grouping\<close>

definition post_order :: "narrative_post \<Rightarrow> datetime \<times> string" where
  "post_order p = (po_event_time p, po_post_id p)"

definition first_post :: "narrative_post list \<Rightarrow> narrative_post" where
  "first_post posts = hd (sort_key post_order posts)"

record clusterer =
  cl_threshold :: real
  cl_minimum_exemplar :: real

definition default_clusterer :: clusterer where
  "default_clusterer = \<lparr>cl_threshold = 76 / 100, cl_minimum_exemplar = 68 / 100\<rparr>"

text \<open>The smallest similarity of a post to the members of a group.\<close>

fun minimum_similarity :: "real list \<Rightarrow> narrative_post list \<Rightarrow> real res" where
  "minimum_similarity v [] = Inl (ValueError ''min() arg is an empty sequence'')"
| "minimum_similarity v (p # ps) = (case cosine_similarity v (po_vector p) of
     Inl x \<Rightarrow> Inl x
   | Inr s \<Rightarrow> (if ps = [] then Inr s
       else case minimum_similarity v ps of Inl x \<Rightarrow> Inl x | Inr m \<Rightarrow> Inr (min s m)))"

definition group_fit :: "clusterer \<Rightarrow> narrative_post \<Rightarrow> narrative_post list \<Rightarrow> (real \<times> string) option res" where
  "group_fit cfg p g = (case centroid g of
     Inl x \<Rightarrow> Inl x
   | Inr c \<Rightarrow> (case cosine_similarity (po_vector p) c of
       Inl x \<Rightarrow> Inl x
     | Inr s \<Rightarrow> (case minimum_similarity (po_vector p) g of
         Inl x \<Rightarrow> Inl x
       | Inr m \<Rightarrow> Inr (if s \<ge> cl_threshold cfg \<and> m \<ge> cl_minimum_exemplar cfg
           then Some (s, po_post_id (first_post g)) else None))))"

fun group_candidates :: "clusterer \<Rightarrow> narrative_post \<Rightarrow> nat \<Rightarrow> narrative_post list list \<Rightarrow> (real \<times> string \<times> nat) list res" where
  "group_candidates cfg p i [] = Inr []"
| "group_candidates cfg p i (g # gs) = (case group_fit cfg p g of
     Inl x \<Rightarrow> Inl x
   | Inr fit \<Rightarrow> (case group_candidates cfg p (i + 1) gs of
       Inl x \<Rightarrow> Inl x
     | Inr cs \<Rightarrow> Inr (case fit of None \<Rightarrow> cs | Some (s, seed) \<Rightarrow> (s, seed, i) # cs)))"

definition place :: "clusterer \<Rightarrow> narrative_post \<Rightarrow> narrative_post list list \<Rightarrow> narrative_post list list res" where
  "place cfg p gs = (case group_candidates cfg p 0 gs of
     Inl x \<Rightarrow> Inl x
   | Inr cs \<Rightarrow> Inr (if cs = [] then gs @ [[p]]
       else case hd (sort_key (\<lambda>(s, seed, _). (- s, seed)) cs) of (_, _, i) \<Rightarrow> gs[i := gs ! i @ [p]]))"

fun place_all :: "clusterer \<Rightarrow> narrative_post list \<Rightarrow> narrative_post list list \<Rightarrow> narrative_post list list res" where
  "place_all cfg [] gs = Inr gs"
| "place_all cfg (p # ps) gs = (case place cfg p gs of Inl x \<Rightarrow> Inl x | Inr gs' \<Rightarrow> place_all cfg ps gs')"

definition groups_of :: "clusterer \<Rightarrow> narrative_post list \<Rightarrow> narrative_post list list res" where
  "groups_of cfg posts = place_all cfg (sort_key post_order posts) []"

section \<open>Cluster records\<close>

definition cluster_version :: string where
  "cluster_version = ''narrative-cluster-v2-centroid-coherent''"

definition cluster_stopwords :: "string list" where
  "cluster_stopwords = [''about'', ''after'', ''again'', ''asset'', ''from'', ''have'', ''into'', ''just'', ''more'',
     ''that'', ''this'', ''with'', ''will'']"

text \<open>\<open>sorted(Counter(terms).items(), key=(-count, term))[:4]\<close>.\<close>

definition top_terms :: "string list \<Rightarrow> string list" where
  "top_terms ts = take 4 (sort_key (\<lambda>t. (- int (count_list ts t), t)) (remdups ts))"

definition cluster_terms :: "narrative_post list \<Rightarrow> string list" where
  "cluster_terms posts = concat (map (\<lambda>p.
     filter (\<lambda>t. length t > 3 \<and> t \<notin> set cluster_stopwords) (tokens (lower (po_text p)))) posts)"

definition cluster_label :: "narrative_post list \<Rightarrow> string \<Rightarrow> string" where
  "cluster_label posts asset = (let ts = top_terms (cluster_terms posts)
     in if ts = [] then asset @ '' discussion'' else join '' / '' ts)"

definition cluster_summary :: "narrative_post list \<Rightarrow> string" where
  "cluster_summary posts = take 1000 (join '' '' (map (\<lambda>p. strip (po_text p)) (take 3 (sort_key po_post_id posts))))"

fun similarities_to :: "real list \<Rightarrow> narrative_post list \<Rightarrow> (string \<times> real) list res" where
  "similarities_to c [] = Inr []"
| "similarities_to c (p # ps) = (case cosine_similarity (po_vector p) c of
     Inl x \<Rightarrow> Inl x
   | Inr s \<Rightarrow> (case similarities_to c ps of Inl x \<Rightarrow> Inl x | Inr rest \<Rightarrow> Inr ((po_post_id p, s) # rest)))"

text \<open>A dictionary built from pairs: the last value of a key, at the position of its first.\<close>

definition dict_of :: "(string \<times> real) list \<Rightarrow> (string \<times> real) list" where
  "dict_of kvs = map (\<lambda>k. (k, the (map_of (rev kvs) k))) (rev (remdups (rev (map fst kvs))))"

definition materialize :: "py_env \<Rightarrow> datetime \<Rightarrow> datetime \<Rightarrow> string \<Rightarrow> narrative_post list \<Rightarrow> narrative_cluster res" where
  "materialize env window_start window_end embedding_version posts =
    (let post_ids = sort (map po_post_id posts);
         member_hash = env_sha256 env (join ''|'' post_ids);
         first = first_post posts;
         stable_key = env_isoformat env window_start @ '':'' @ po_post_id first @ '':'' @ cluster_version;
         narrative_id = env_uuid5 env (''narrative:'' @ po_scope_id first @ '':'' @ po_asset_id first @ '':'' @ stable_key)
     in case centroid posts of Inl x \<Rightarrow> Inl x | Inr c \<Rightarrow>
        (case similarities_to c posts of Inl x \<Rightarrow> Inl x | Inr sims \<Rightarrow>
           Inr \<lparr>nc_narrative_id = narrative_id,
             nc_narrative_revision_id = env_uuid5 env (''narrative-revision:'' @ narrative_id @ '':'' @ member_hash),
             nc_revision = 1, nc_cluster_key = member_hash, nc_stable_key = stable_key, nc_member_hash = member_hash,
             nc_scope_id = po_scope_id first, nc_asset_id = po_asset_id first,
             nc_window_start = window_start, nc_window_end = window_end,
             nc_first_seen = Min (set (map po_event_time posts)), nc_last_seen = Max (set (map po_event_time posts)),
             nc_label = cluster_label posts (po_asset_id first), nc_summary = cluster_summary posts,
             nc_post_ids = post_ids, nc_similarities = dict_of sims,
             nc_unique_author_count = int (length (remdups (map po_author_id posts))),
             nc_centroid = c, nc_embedding_version = embedding_version\<rparr>))"

fun materialize_all :: "py_env \<Rightarrow> datetime \<Rightarrow> datetime \<Rightarrow> string \<Rightarrow> narrative_post list list \<Rightarrow> narrative_cluster list res" where
  "materialize_all env ws we ver [] = Inr []"
| "materialize_all env ws we ver (g # gs) = (case materialize env ws we ver g of
     Inl x \<Rightarrow> Inl x
   | Inr c \<Rightarrow> (case materialize_all env ws we ver gs of Inl x \<Rightarrow> Inl x | Inr cs \<Rightarrow> Inr (c # cs)))"

definition cluster :: "py_env \<Rightarrow> clusterer \<Rightarrow> datetime \<Rightarrow> datetime \<Rightarrow> string \<Rightarrow> narrative_post list \<Rightarrow> narrative_cluster list res" where
  "cluster env cfg ws we ver posts = (case groups_of cfg posts of
     Inl x \<Rightarrow> Inl x
   | Inr gs \<Rightarrow> (case materialize_all env ws we ver gs of
       Inl x \<Rightarrow> Inl x
     | Inr cs \<Rightarrow> Inr (sort_key nc_narrative_id cs)))"

end
