(* ===== verification/Clustering_Correct.thy ===== *)
theory Clustering_Correct
  imports Clustering
begin

text \<open>
  Correctness of the clustering: groups partition the posts and are coherent, clustering succeeds
  exactly on vectors of one dimension, and its result does not depend on the order of the posts.
\<close>

section \<open>Similarity\<close>

lemma dot_commute: "length u = length v \<Longrightarrow> dot u v = dot v u"
  unfolding dot_def by (induction u v rule: list_induct2) (simp_all add: mult.commute)

lemma cosine_commute: "length u = length v \<Longrightarrow> cosine_similarity u v = cosine_similarity v u"
  by (auto simp: cosine_similarity_def dot_commute mult.commute)

lemma cosine_ok: "is_ok (cosine_similarity u v) \<longleftrightarrow> length u = length v"
  by (simp add: cosine_similarity_def)

lemma cosine_unit: "cosine_similarity u v = Inr s \<Longrightarrow> unit_range s"
  by (auto simp: cosine_similarity_def unit_range_def split: if_splits)

lemma cosine_length: "cosine_similarity u v = Inr s \<Longrightarrow> length u = length v"
  by (simp add: cosine_similarity_def split: if_splits)

definition similar :: "clusterer \<Rightarrow> narrative_post \<Rightarrow> narrative_post \<Rightarrow> bool" where
  "similar cfg p q \<longleftrightarrow> (\<exists>s. cosine_similarity (po_vector p) (po_vector q) = Inr s \<and> s \<ge> cl_minimum_exemplar cfg)"

lemma similar_commute: "similar cfg p q \<longleftrightarrow> similar cfg q p"
  unfolding similar_def by (metis cosine_commute cosine_length)

lemma minimum_similarity_Inr:
  "minimum_similarity v g = Inr m \<Longrightarrow> m \<ge> b \<Longrightarrow> \<forall>q \<in> set g. \<exists>s. cosine_similarity v (po_vector q) = Inr s \<and> s \<ge> b"
proof (induction g arbitrary: m)
  case (Cons q g)
  then obtain s where s: "cosine_similarity v (po_vector q) = Inr s" by (auto split: sum.splits)
  show ?case
  proof (cases "g = []")
    case True
    then show ?thesis using Cons.prems s by simp
  next
    case False
    then obtain m' where "minimum_similarity v g = Inr m'" "m = min s m'" using Cons.prems(1) s by (auto split: sum.splits)
    then show ?thesis using Cons s by auto
  qed
qed simp

lemma minimum_similarity_ok:
  "g \<noteq> [] \<Longrightarrow> is_ok (minimum_similarity v g) \<longleftrightarrow> (\<forall>q \<in> set g. length (po_vector q) = length v)"
proof (induction g)
  case (Cons q g)
  show ?case
  proof (cases "cosine_similarity v (po_vector q)")
    case (Inl x)
    then show ?thesis using cosine_ok [of v "po_vector q"] by simp
  next
    case (Inr s)
    then show ?thesis using Cons cosine_length [OF Inr]
      by (cases "g = []") (auto simp: is_ok_iff split: sum.splits)
  qed
qed simp

section \<open>Groups\<close>

definition same_dimension :: "nat \<Rightarrow> narrative_post list \<Rightarrow> bool" where
  "same_dimension d posts \<longleftrightarrow> list_all (\<lambda>p. length (po_vector p) = d) posts"

lemma normalize_length [simp]: "length (normalize v) = length v"
  by (simp add: normalize_def)

lemma centroid_length: "centroid (p # ps) = Inr c \<Longrightarrow> length c = length (po_vector p)"
  by (auto simp: centroid_def Let_def split: if_splits)

lemma centroid_ok: "same_dimension d g \<Longrightarrow> g \<noteq> [] \<Longrightarrow> \<exists>c. centroid g = Inr c \<and> length c = d"
  by (cases g) (auto simp: centroid_def Let_def same_dimension_def list_all_iff list_ex_iff)

lemma group_fit_Some:
  assumes "group_fit cfg p g = Inr (Some (s, seed))"
  shows "\<forall>q \<in> set g. similar cfg p q"
proof -
  obtain m where "minimum_similarity (po_vector p) g = Inr m" "m \<ge> cl_minimum_exemplar cfg"
    using assms by (auto simp: group_fit_def split: sum.splits if_splits)
  then show ?thesis using minimum_similarity_Inr unfolding similar_def by blast
qed

lemma group_fit_ok:
  assumes "same_dimension d g" "g \<noteq> []"
  shows "is_ok (group_fit cfg p g) \<longleftrightarrow> length (po_vector p) = d"
proof -
  obtain c where c: "centroid g = Inr c" "length c = d" using centroid_ok [OF assms] by blast
  show ?thesis
  proof (cases "length (po_vector p) = d")
    case True
    then obtain s where "cosine_similarity (po_vector p) c = Inr s" using c(2) cosine_ok [of "po_vector p" c]
      by (auto simp: is_ok_iff)
    moreover have "is_ok (minimum_similarity (po_vector p) g)"
      using minimum_similarity_ok [OF assms(2)] assms(1) True by (simp add: same_dimension_def list_all_iff)
    ultimately show ?thesis using True by (auto simp: group_fit_def c is_ok_iff)
  next
    case False
    then show ?thesis using c(2) by (simp add: group_fit_def c cosine_similarity_def)
  qed
qed

lemma group_candidates_mem:
  "group_candidates cfg p k gs = Inr cs \<Longrightarrow> (s, seed, i) \<in> set cs \<Longrightarrow>
    k \<le> i \<and> i < k + length gs \<and> group_fit cfg p (gs ! (i - k)) = Inr (Some (s, seed))"
proof (induction gs arbitrary: k cs)
  case (Cons g gs)
  then obtain fit rest where f: "group_fit cfg p g = Inr fit" "group_candidates cfg p (k + 1) gs = Inr rest"
    "cs = (case fit of None \<Rightarrow> rest | Some (s, seed) \<Rightarrow> (s, seed, k) # rest)" by (auto split: sum.splits)
  show ?case
  proof (cases "(s, seed, i) \<in> set rest")
    case True
    with Cons.IH [OF f(2)] show ?thesis by (auto simp: nth_Cons' Suc_diff_Suc)
  next
    case False
    with Cons.prems(2) f show ?thesis by (auto split: option.splits)
  qed
qed simp

lemma group_candidates_ok:
  assumes "list_all (\<lambda>g. same_dimension d g \<and> g \<noteq> []) gs"
  shows "is_ok (group_candidates cfg p k gs) \<longleftrightarrow> gs = [] \<or> length (po_vector p) = d"
  using assms
proof (induction gs arbitrary: k)
  case (Cons g gs)
  have "is_ok (group_fit cfg p g) \<longleftrightarrow> length (po_vector p) = d" using group_fit_ok Cons.prems by simp
  then show ?case using Cons.IH [of "k + 1"] Cons.prems by (auto simp: is_ok_iff split: sum.splits)
qed simp

lemma mset_concat_update: "i < length gs \<Longrightarrow> mset (concat (gs[i := gs ! i @ [p]])) = add_mset p (mset (concat gs))"
proof (induction gs arbitrary: i)
  case (Cons g gs)
  then show ?case by (cases i) auto
qed simp

definition group_ok :: "clusterer \<Rightarrow> nat \<Rightarrow> narrative_post list \<Rightarrow> bool" where
  "group_ok cfg d g \<longleftrightarrow> g \<noteq> [] \<and> same_dimension d g \<and> sorted_wrt (similar cfg) g"

lemma place_cases:
  assumes "place cfg p gs = Inr gs'"
  shows "gs' = gs @ [[p]] \<or> (\<exists>i < length gs. gs' = gs[i := gs ! i @ [p]] \<and> (\<forall>q \<in> set (gs ! i). similar cfg p q))"
proof -
  obtain cs where cs: "group_candidates cfg p 0 gs = Inr cs" using assms by (auto simp: place_def split: sum.splits)
  show ?thesis
  proof (cases "cs = []")
    case True
    then show ?thesis using assms cs by (simp add: place_def)
  next
    case False
    let ?sorted = "sort_key (\<lambda>(s, seed, _). (- s, seed)) cs"
    obtain s seed i where best: "hd ?sorted = (s, seed, i)" by (cases "hd ?sorted")
    have "?sorted \<noteq> []" using False by (metis length_sort length_0_conv)
    then have "(s, seed, i) \<in> set cs" using best by (metis hd_in_set set_sort)
    from group_candidates_mem [OF cs this] have "i < length gs" "group_fit cfg p (gs ! i) = Inr (Some (s, seed))" by auto
    moreover have "gs' = gs[i := gs ! i @ [p]]" using assms cs False best by (simp add: place_def)
    ultimately show ?thesis using group_fit_Some by blast
  qed
qed

lemma place_ok:
  assumes "list_all (group_ok cfg d) gs" "place cfg p gs = Inr gs'" "length (po_vector p) = d"
  shows "mset (concat gs') = add_mset p (mset (concat gs)) \<and> list_all (group_ok cfg d) gs' \<and> gs' \<noteq> []"
  using place_cases [OF assms(2)]
proof
  assume "gs' = gs @ [[p]]"
  then show ?thesis using assms(1,3) by (simp add: group_ok_def same_dimension_def)
next
  assume "\<exists>i < length gs. gs' = gs[i := gs ! i @ [p]] \<and> (\<forall>q \<in> set (gs ! i). similar cfg p q)"
  then obtain i where i: "i < length gs" "gs' = gs[i := gs ! i @ [p]]" "\<forall>q \<in> set (gs ! i). similar cfg p q" by blast
  have "group_ok cfg d (gs ! i)" using assms(1) i(1) by (simp add: list_all_length)
  then have "group_ok cfg d (gs ! i @ [p])"
    using assms(3) i(3) by (auto simp: group_ok_def same_dimension_def sorted_wrt_append similar_commute)
  then have "list_all (group_ok cfg d) gs'" using assms(1) unfolding i(2)
    by (auto simp: list_all_iff dest: set_update_subset_insert [THEN subsetD])
  moreover have "gs' \<noteq> []" using i(1,2) by auto
  ultimately show ?thesis using mset_concat_update [OF i(1)] i(2) by simp
qed

lemma place_is_ok:
  assumes "list_all (group_ok cfg d) gs"
  shows "is_ok (place cfg p gs) \<longleftrightarrow> gs = [] \<or> length (po_vector p) = d"
proof -
  have "list_all (\<lambda>g. same_dimension d g \<and> g \<noteq> []) gs" using assms by (auto simp: group_ok_def list_all_iff)
  from group_candidates_ok [OF this, of cfg p 0] show ?thesis by (auto simp: place_def is_ok_iff split: sum.splits)
qed

lemma place_all_ok:
  assumes "list_all (group_ok cfg d) gs" "gs \<noteq> [] \<or> (ps \<noteq> [] \<longrightarrow> length (po_vector (hd ps)) = d)"
  shows "(is_ok (place_all cfg ps gs) \<longleftrightarrow> same_dimension d ps) \<and>
    (\<forall>gs'. place_all cfg ps gs = Inr gs' \<longrightarrow> mset (concat gs') = mset (concat gs) + mset ps \<and> list_all (group_ok cfg d) gs')"
  using assms
proof (induction ps arbitrary: gs)
  case (Cons p ps)
  show ?case
  proof (cases "length (po_vector p) = d")
    case True
    then obtain gs1 where gs1: "place cfg p gs = Inr gs1" using place_is_ok [OF Cons.prems(1), of p] by (auto simp: is_ok_iff)
    note one = place_ok [OF Cons.prems(1) gs1 True]
    then show ?thesis using Cons.IH [of gs1] True gs1 by (auto simp: same_dimension_def)
  next
    case False
    then have "gs \<noteq> []" using Cons.prems(2) by auto
    then have "\<not> is_ok (place cfg p gs)" using place_is_ok [OF Cons.prems(1), of p] False by simp
    then show ?thesis using False by (auto simp: is_ok_def same_dimension_def split: sum.splits)
  qed
qed (simp add: same_dimension_def)


lemma groups_of_ok:
  "(is_ok (groups_of cfg posts) \<longleftrightarrow> (\<exists>d. same_dimension d posts)) \<and>
    (\<forall>gs. groups_of cfg posts = Inr gs \<longrightarrow> mset (concat gs) = mset posts \<and> (\<exists>d. list_all (group_ok cfg d) gs))"
proof (cases "posts = []")
  case False
  let ?s = "sort_key post_order posts"
  let ?d = "length (po_vector (hd ?s))"
  have all: "same_dimension d ?s \<longleftrightarrow> same_dimension d posts" for d by (simp add: same_dimension_def list_all_iff)
  have "?s \<noteq> []" using False by (metis length_sort length_0_conv)
  then have "same_dimension d posts \<Longrightarrow> same_dimension ?d ?s" for d
    using hd_in_set [of ?s] by (simp add: all [symmetric] same_dimension_def list_all_iff)
  then have ex: "(\<exists>d. same_dimension d posts) \<longleftrightarrow> same_dimension ?d ?s" using all by blast
  from place_all_ok [of cfg ?d "[]" ?s] show ?thesis unfolding groups_of_def ex by auto
qed (simp add: groups_of_def same_dimension_def)

lemma similarities_to_ok:
  assumes "same_dimension (length c) g"
  shows "\<exists>sims. similarities_to c g = Inr sims \<and> map fst sims = map po_post_id g \<and> list_all (\<lambda>(_, s). unit_range s) sims"
  using assms
proof (induction g)
  case (Cons p g)
  then obtain sims where sims: "similarities_to c g = Inr sims" "map fst sims = map po_post_id g"
    "list_all (\<lambda>(_, s). unit_range s) sims" by (auto simp: same_dimension_def)
  obtain s where s: "cosine_similarity (po_vector p) c = Inr s"
    using cosine_ok [of "po_vector p" c] Cons.prems by (auto simp: same_dimension_def is_ok_iff)
  show ?case using sims s cosine_unit [OF s] by simp
qed simp

lemma dict_of_unit: "list_all (\<lambda>(_, s). unit_range s) kvs \<Longrightarrow> list_all (\<lambda>(_, s). unit_range s) (dict_of kvs)"
proof (clarsimp simp: dict_of_def list_all_iff)
  fix k v
  assume all: "\<forall>x \<in> set kvs. case x of (_, s) \<Rightarrow> unit_range s" and mem: "(k, v) \<in> set kvs"
  then obtain w where "map_of (rev kvs) k = Some w" by (metis map_of_eq_None_iff not_None_eq set_rev fst_conv image_eqI)
  moreover from map_of_SomeD [OF this] all have "unit_range w" by auto
  ultimately show "unit_range (the (map_of (rev kvs) k))" by simp
qed

lemma materialize_ok:
  assumes "group_ok cfg d g"
  shows "\<exists>c. materialize env ws we ver g = Inr c \<and> nc_post_ids c = sort (map po_post_id g) \<and>
    list_all (\<lambda>(_, s). unit_range s) (nc_similarities c) \<and>
    list_all (\<lambda>p. nc_first_seen c \<le> po_event_time p \<and> po_event_time p \<le> nc_last_seen c) g"
proof -
  have g: "same_dimension d g" "g \<noteq> []" using assms by (simp_all add: group_ok_def)
  then obtain c where c: "centroid g = Inr c" "length c = d" using centroid_ok by blast
  then obtain sims where sims: "similarities_to c g = Inr sims" "list_all (\<lambda>(_, s). unit_range s) sims"
    using similarities_to_ok [of c g] g(1) by auto
  have "list_all (\<lambda>p. Min (set (map po_event_time g)) \<le> po_event_time p \<and> po_event_time p \<le> Max (set (map po_event_time g))) g"
    by (simp add: list_all_iff)
  then show ?thesis using dict_of_unit [OF sims(2)] by (simp add: materialize_def Let_def c sims(1))
qed

lemma materialize_all_ok:
  assumes "list_all (group_ok cfg d) gs"
  shows "\<exists>cs. materialize_all env ws we ver gs = Inr cs \<and>
    list_all2 (\<lambda>c g. materialize env ws we ver g = Inr c \<and> nc_post_ids c = sort (map po_post_id g) \<and>
      list_all (\<lambda>(_, s). unit_range s) (nc_similarities c) \<and>
      list_all (\<lambda>p. nc_first_seen c \<le> po_event_time p \<and> po_event_time p \<le> nc_last_seen c) g) cs gs"
  using assms
proof (induction gs)
  case (Cons g gs)
  then obtain c cs where "materialize env ws we ver g = Inr c" "materialize_all env ws we ver gs = Inr cs"
    using materialize_ok [of cfg d g env ws we ver] by auto
  then show ?case using Cons materialize_ok [of cfg d g env ws we ver] by auto
qed simp

lemma cluster_of_groups:
  assumes "groups_of cfg posts = Inr gs"
  obtains cs where "cluster env cfg ws we ver posts = Inr (sort_key nc_narrative_id cs)"
    "list_all2 (\<lambda>c g. g \<noteq> [] \<and> sorted_wrt (similar cfg) g \<and> nc_post_ids c = sort (map po_post_id g) \<and>
      list_all (\<lambda>(_, s). unit_range s) (nc_similarities c) \<and>
      list_all (\<lambda>p. nc_first_seen c \<le> po_event_time p \<and> po_event_time p \<le> nc_last_seen c) g) cs gs"
proof -
  obtain d where gs: "list_all (group_ok cfg d) gs" using groups_of_ok [of cfg posts] assms by auto
  obtain cs where cs: "materialize_all env ws we ver gs = Inr cs"
    "list_all2 (\<lambda>c g. materialize env ws we ver g = Inr c \<and> nc_post_ids c = sort (map po_post_id g) \<and>
      list_all (\<lambda>(_, s). unit_range s) (nc_similarities c) \<and>
      list_all (\<lambda>p. nc_first_seen c \<le> po_event_time p \<and> po_event_time p \<le> nc_last_seen c) g) cs gs"
    using materialize_all_ok [OF gs, of env ws we ver] by blast
  show thesis
  proof (rule that)
    show "cluster env cfg ws we ver posts = Inr (sort_key nc_narrative_id cs)" by (simp add: cluster_def assms cs(1))
  qed (use cs(2) gs in \<open>auto simp: list_all2_conv_all_nth list_all_length group_ok_def\<close>)
qed

lemma cluster_is_ok: "is_ok (cluster env cfg ws we ver posts) \<longleftrightarrow> (\<exists>d. same_dimension d posts)"
proof (cases "groups_of cfg posts")
  case (Inl x)
  then show ?thesis using groups_of_ok [of cfg posts] by (simp add: cluster_def)
next
  case (Inr gs)
  then obtain cs where "cluster env cfg ws we ver posts = Inr (sort_key nc_narrative_id cs)"
    by (rule cluster_of_groups)
  then show ?thesis using groups_of_ok [of cfg posts] Inr by simp
qed

text \<open>C33. Clustering succeeds exactly when all vectors have one dimension. Its clusters partition the posts:
  they come from groups that together hold every post once, in which any two posts are at least as
  similar as the minimum exemplar similarity, and each lists its members sorted with similarities
  in the unit interval and seen times that span them. The clusters are sorted by their identity.\<close>

theorem clusters_coherent:
  "(is_ok (cluster env cfg ws we ver posts) \<longleftrightarrow> (\<exists>d. same_dimension d posts)) \<and>
   (\<forall>cs. cluster env cfg ws we ver posts = Inr cs \<longrightarrow> sorted (map nc_narrative_id cs) \<and>
     (\<exists>cs' gs. mset cs' = mset cs \<and> mset (concat gs) = mset posts \<and>
        list_all2 (\<lambda>c g. g \<noteq> [] \<and> sorted_wrt (similar cfg) g \<and> nc_post_ids c = sort (map po_post_id g) \<and>
          list_all (\<lambda>(_, s). unit_range s) (nc_similarities c) \<and>
          list_all (\<lambda>p. nc_first_seen c \<le> po_event_time p \<and> po_event_time p \<le> nc_last_seen c) g) cs' gs))"
proof (cases "groups_of cfg posts")
  case (Inl x)
  then show ?thesis using groups_of_ok [of cfg posts] by (simp add: cluster_def)
next
  case (Inr gs)
  then have gs: "mset (concat gs) = mset posts" "\<exists>d. same_dimension d posts" using groups_of_ok [of cfg posts] by auto
  obtain cs where cs: "cluster env cfg ws we ver posts = Inr (sort_key nc_narrative_id cs)"
    "list_all2 (\<lambda>c g. g \<noteq> [] \<and> sorted_wrt (similar cfg) g \<and> nc_post_ids c = sort (map po_post_id g) \<and>
      list_all (\<lambda>(_, s). unit_range s) (nc_similarities c) \<and>
      list_all (\<lambda>p. nc_first_seen c \<le> po_event_time p \<and> po_event_time p \<le> nc_last_seen c) g) cs gs"
    by (rule cluster_of_groups [OF Inr])
  have "mset cs = mset (sort_key nc_narrative_id cs)" "sorted (map nc_narrative_id (sort_key nc_narrative_id cs))" by simp_all
  with cs(2) gs show ?thesis unfolding cs(1) by (simp only: is_ok_simps sum.inject simp_thms all_simps) blast
qed

definition sample_narrative_post :: "string \<Rightarrow> datetime \<Rightarrow> real list \<Rightarrow> narrative_post" where
  "sample_narrative_post i t v = \<lparr>po_post_id = i, po_scope_id = ''LIVE'', po_asset_id = ''a'', po_author_id = i, po_event_time = t,
     po_text = [], po_platform = [], po_source = [], po_language = [], po_ingested_at = None, po_hashtags = [],
     po_urls = [], po_reply_to = None, po_repost_of = None, po_vector = v\<rparr>"

theorem clusters_coherent_witness:
  "is_ok (cluster sample_env default_clusterer 0 10 ''v''
     [sample_narrative_post ''p'' 1 [1, 0], sample_narrative_post ''q'' 2 [0, 1]])"
proof -
  have "same_dimension 2 [sample_narrative_post ''p'' 1 [1, 0], sample_narrative_post ''q'' 2 [0, 1]]"
    by (simp add: same_dimension_def sample_narrative_post_def)
  then show ?thesis using clusters_coherent by blast
qed

text \<open>The clusters do not depend on the order in which the posts arrive, as long as no two posts have
  the same time and identifier.\<close>

theorem cluster_order_free:
  assumes "mset posts = mset posts'" "inj_on post_order (set posts)"
  shows "cluster env cfg ws we ver posts = cluster env cfg ws we ver posts'"
proof -
  have "sort_key post_order posts = sort_key post_order posts'"
  proof (rule sort_key_inj_key_eq)
    show "mset posts = mset (sort_key post_order posts')" using assms(1) by simp
    show "sorted (map post_order (sort_key post_order posts'))" by simp
  qed (use assms(2) in simp)
  then show ?thesis by (simp add: cluster_def groups_of_def)
qed

theorem cluster_order_free_witness:
  "cluster sample_env default_clusterer 0 10 ''v'' [sample_narrative_post ''p'' 1 [1, 0], sample_narrative_post ''q'' 2 [0, 1]] =
   cluster sample_env default_clusterer 0 10 ''v'' [sample_narrative_post ''q'' 2 [0, 1], sample_narrative_post ''p'' 1 [1, 0]]"
  by (rule cluster_order_free) (simp_all add: sample_narrative_post_def post_order_def)

end
