(* ===== verification/Graph_Features.thy ===== *)
theory Graph_Features
  imports Clustering_Correct
begin

text \<open>
  The coordination features of the posts of a window (\<open>GraphFeatureExtractor\<close> in
  \<open>narratives/graph.py\<close>) and their validated record (\<open>narratives/schemas.py\<close>), with the proof that
  every feature lies in its range, and exactly when the validation fails. The numbers are reals: with
  floats the quotient of the entropies can round above 1 where all authors post equally often.
\<close>

section \<open>The record\<close>

record graph_features =
  gf_community_concentration :: real
  gf_synchronized_posting :: real
  gf_repeated_amplifier_overlap :: real
  gf_propagation_depth :: nat
  gf_community_entropy :: real
  gf_time_to_10 :: "real option"
  gf_authors_10 :: bool
  gf_time_to_100 :: "real option"
  gf_authors_100 :: bool
  gf_cross_community_spread :: real
  gf_node_similarity :: real
  gf_graph_score :: "real option"

definition graph_features_valid :: "graph_features \<Rightarrow> bool" where
  "graph_features_valid f \<longleftrightarrow> unit_range (gf_community_concentration f) \<and> unit_range (gf_synchronized_posting f) \<and>
     unit_range (gf_repeated_amplifier_overlap f) \<and> unit_range (gf_community_entropy f) \<and>
     (case gf_time_to_10 f of None \<Rightarrow> True | Some t \<Rightarrow> 0 \<le> t) \<and> (case gf_time_to_100 f of None \<Rightarrow> True | Some t \<Rightarrow> 0 \<le> t) \<and>
     unit_range (gf_cross_community_spread f) \<and> unit_range (gf_node_similarity f) \<and> opt_unit (gf_graph_score f)"

definition build_graph_features :: "graph_features \<Rightarrow> graph_features res" where
  "build_graph_features f = (if graph_features_valid f then Inr f else Inl (ValidationError ''GraphFeatures''))"

section \<open>The features\<close>

definition most_common :: "string list \<Rightarrow> nat" where
  "most_common xs = fold max (map (count_list xs) xs) 0"

definition concentration_of :: "narrative_post list \<Rightarrow> real" where
  "concentration_of posts = real (most_common (map po_author_id posts)) / real (length posts)"

definition author_total :: "narrative_post list \<Rightarrow> nat" where
  "author_total posts = length (remdups (map po_author_id posts))"

definition entropy_of :: "string list \<Rightarrow> real" where
  "entropy_of xs = - (\<Sum>x\<leftarrow>remdups xs. real (count_list xs x) / real (length xs) * ln (real (count_list xs x) / real (length xs)))"

definition normalized_entropy :: "narrative_post list \<Rightarrow> real" where
  "normalized_entropy posts =
    (if author_total posts > 1 then entropy_of (map po_author_id posts) / ln (real (author_total posts)) else 0)"

definition synchronized_of :: "narrative_post list \<Rightarrow> real" where
  "synchronized_of posts = (let times = sort (map po_event_time posts) in
     if length times > 1
     then real (length (filter (\<lambda>(left, right). total_seconds (right - left) \<le> 5) (zip times (tl times)))) / real (length times - 1)
     else 0)"

definition overlap_of :: "narrative_post list \<Rightarrow> real" where
  "overlap_of posts = real (max (most_common (concat (map po_urls posts)))
     (most_common (concat (map (\<lambda>p. map lower (po_hashtags p)) posts)))) / real (length posts)"

text \<open>\<open>{post.post_id: post.reply_to or post.repost_of}\<close>; a later post of an identifier replaces an earlier.\<close>

definition parent_entry :: "narrative_post \<Rightarrow> string \<times> string option" where
  "parent_entry p = (po_post_id p, case po_reply_to p of None \<Rightarrow> po_repost_of p | Some r \<Rightarrow> if r = [] then po_repost_of p else Some r)"

definition parents_of :: "narrative_post list \<Rightarrow> (string \<times> string option) list" where
  "parents_of posts = rev (map parent_entry posts)"

text \<open>The chain of parents inside the window, cut where it returns to a post already seen.\<close>

function depth_from :: "(string \<times> string option) list \<Rightarrow> string \<Rightarrow> string list \<Rightarrow> nat" where
  "depth_from parents i seen = (case map_of parents i of
     Some (Some p) \<Rightarrow> if p \<in> fst ` set parents \<and> p \<notin> set seen then 1 + depth_from parents p (p # seen) else 0
   | _ \<Rightarrow> 0)"
  by pat_completeness auto
termination
proof (relation "measure (\<lambda>(parents, _, seen). card (fst ` set parents - set seen))")
  fix parents :: "(string \<times> string option) list" and seen :: "string list" and p
  assume "p \<in> fst ` set parents \<and> p \<notin> set seen"
  then have "fst ` set parents - set (p # seen) \<subset> fst ` set parents - set seen" by auto
  then show "((parents, p, p # seen), parents, i, seen) \<in> measure (\<lambda>(parents, _, seen). card (fst ` set parents - set seen))" for i
    by (simp add: psubset_card_mono)
qed simp

declare depth_from.simps [simp del]

definition propagation_depth :: "narrative_post list \<Rightarrow> nat" where
  "propagation_depth posts = fold max (map (\<lambda>p. depth_from (parents_of posts) (po_post_id p) [po_post_id p]) posts) 0"

fun reach_count :: "nat \<Rightarrow> datetime \<Rightarrow> string list \<Rightarrow> narrative_post list \<Rightarrow> real option" where
  "reach_count target start authors [] = None"
| "reach_count target start authors (p # ps) =
    (let authors' = List.insert (po_author_id p) authors in
     if length authors' \<ge> target then Some (total_seconds (po_event_time p - start))
     else reach_count target start authors' ps)"

definition time_to_author_count :: "narrative_post list \<Rightarrow> nat \<Rightarrow> real option" where
  "time_to_author_count posts target = (let ordered = sort_key post_order posts in
     reach_count target (po_event_time (hd ordered)) [] ordered)"

definition node_similarity_of :: "narrative_cluster list \<Rightarrow> real" where
  "node_similarity_of clusters = (let vs = concat (map (\<lambda>c. map snd (nc_similarities c)) clusters)
     in if vs = [] then 0 else sum_list vs / real (length vs))"

definition graph_score_of :: "real \<Rightarrow> real \<Rightarrow> real \<Rightarrow> nat \<Rightarrow> real \<Rightarrow> real \<Rightarrow> real" where
  "graph_score_of c s o' d n e = min 1 (22 / 100 * c + 20 / 100 * s + 18 / 100 * o' + 15 / 100 * min 1 (real d / 5) +
     15 / 100 * n + 10 / 100 * (1 - e))"

definition compute_graph_features :: "narrative_post list \<Rightarrow> narrative_cluster list \<Rightarrow> datetime \<Rightarrow> graph_features res" where
  "compute_graph_features all_posts clusters cutoff =
    (let posts = filter (\<lambda>p. po_event_time p \<le> cutoff) all_posts
     in if posts = [] then build_graph_features
          \<lparr>gf_community_concentration = 0, gf_synchronized_posting = 0, gf_repeated_amplifier_overlap = 0,
           gf_propagation_depth = 0, gf_community_entropy = 0, gf_time_to_10 = None, gf_authors_10 = False,
           gf_time_to_100 = None, gf_authors_100 = False, gf_cross_community_spread = 0, gf_node_similarity = 0,
           gf_graph_score = None\<rparr>
        else let c = concentration_of posts; s = synchronized_of posts; o' = overlap_of posts; d = propagation_depth posts;
            e = normalized_entropy posts; n = node_similarity_of clusters;
            t10 = time_to_author_count posts 10; t100 = time_to_author_count posts 100
          in build_graph_features
          \<lparr>gf_community_concentration = c, gf_synchronized_posting = s, gf_repeated_amplifier_overlap = o',
           gf_propagation_depth = d, gf_community_entropy = e, gf_time_to_10 = t10, gf_authors_10 = (t10 \<noteq> None),
           gf_time_to_100 = t100, gf_authors_100 = (t100 \<noteq> None),
           gf_cross_community_spread = min 1 (real (author_total posts) / max 1 (real (length posts))),
           gf_node_similarity = n, gf_graph_score = Some (graph_score_of c s o' d n e)\<rparr>)"

section \<open>Ranges\<close>

lemma fold_max_le: "fold max xs (a::nat) \<le> b \<longleftrightarrow> a \<le> b \<and> (\<forall>x \<in> set xs. x \<le> b)"
  by (induction xs arbitrary: a) auto

lemma most_common_le: "most_common xs \<le> b \<longleftrightarrow> (\<forall>x \<in> set xs. count_list xs x \<le> b)"
  by (simp add: most_common_def fold_max_le)

lemma most_common_length: "most_common xs \<le> length xs"
  by (simp add: most_common_le count_le_length)

lemma count_ratio_unit: "a \<le> b \<Longrightarrow> unit_range (real a / real b)"
  by (cases "b = 0") (simp_all add: unit_range_def)

lemma author_share_unit: "unit_range (concentration_of posts)"
  unfolding concentration_of_def using most_common_length [of "map po_author_id posts"] by (simp add: count_ratio_unit)

lemma synchronized_unit: "unit_range (synchronized_of posts)"
proof -
  have "length (filter P (zip ts (tl ts))) \<le> length ts - 1" for P and ts :: "int list"
    using length_filter_le [of P "zip ts (tl ts)"] by simp
  then have "unit_range (real (length (filter P (zip ts (tl ts)))) / real (length ts - 1))" for P and ts :: "int list"
    by (rule count_ratio_unit)
  then show ?thesis unfolding synchronized_of_def Let_def by (rule if_split [THEN iffD2, OF conjI, OF impI impI]) simp
qed

lemma overlap_unit: "unit_range (overlap_of posts) \<longleftrightarrow>
    most_common (concat (map po_urls posts)) \<le> length posts \<and>
    most_common (concat (map (\<lambda>p. map lower (po_hashtags p)) posts)) \<le> length posts"
  if "posts \<noteq> []"
  using that by (auto simp: overlap_of_def unit_range_def divide_le_eq_1)

text \<open>The entropy of \<open>k\<close> authors is at most the logarithm of \<open>k\<close>.\<close>

lemma entropy_term:
  fixes p k :: real
  assumes "0 < p" "0 < k"
  shows "- (p * ln p) - p * ln k \<le> 1 / k - p"
proof -
  have "ln (1 / (k * p)) \<le> 1 / (k * p) - 1" by (rule ln_le_minus_one) (use assms in simp)
  moreover have "ln (1 / (k * p)) = - ln k - ln p" using assms by (simp add: ln_div ln_mult)
  ultimately have "p * (- ln k - ln p) \<le> p * (1 / (k * p) - 1)" using assms by (intro mult_left_mono) simp_all
  also have "\<dots> = 1 / k - p" using assms by (simp add: right_diff_distrib)
  finally show ?thesis by (simp add: algebra_simps)
qed

lemma entropy_nonneg: "0 < p \<Longrightarrow> p \<le> 1 \<Longrightarrow> 0 \<le> - (p * ln p)" for p :: real
  by (simp add: mult_nonneg_nonpos)

lemma entropy_bounds:
  assumes "xs \<noteq> []"
  shows "0 \<le> entropy_of xs \<and> entropy_of xs \<le> ln (real (card (set xs)))"
proof -
  let ?p = "\<lambda>x. real (count_list xs x) / real (length xs)" and ?k = "real (card (set xs))"
  have k: "0 < ?k" using assms by (simp add: card_gt_0_iff)
  have p: "0 < ?p x \<and> ?p x \<le> 1" if "x \<in> set xs" for x
  proof -
    have "0 < count_list xs x" using that count_list_0_iff [of xs x] by (metis gr0I)
    moreover from this count_le_length [of xs x] have "0 < real (length xs)" by linarith
    ultimately show ?thesis using count_le_length [of xs x] by (intro conjI divide_pos_pos) (simp_all only: of_nat_0_less_iff divide_le_eq_1 of_nat_le_iff simp_thms)
  qed
  have e: "entropy_of xs = (\<Sum>x\<in>set xs. - (?p x * ln (?p x)))"
    by (simp add: entropy_of_def sum_list_distinct_conv_sum_set sum_negf)
  have one: "(\<Sum>x\<in>set xs. ?p x) = 1"
  proof -
    have "(\<Sum>x\<in>set xs. ?p x) = real (\<Sum>x\<in>set xs. count_list xs x) / real (length xs)" by (simp add: sum_divide_distrib)
    then show ?thesis using assms by (simp add: sum_count_set)
  qed
  have "- (?p x * ln (?p x)) - ?p x * ln ?k \<le> 1 / ?k - ?p x" if "x \<in> set xs" for x
    using entropy_term [of "?p x" ?k] p [OF that] k by blast
  then have "(\<Sum>x\<in>set xs. - (?p x * ln (?p x)) - ?p x * ln ?k) \<le> (\<Sum>x\<in>set xs. 1 / ?k - ?p x)" by (rule sum_mono)
  moreover have "(\<Sum>x\<in>set xs. - (?p x * ln (?p x)) - ?p x * ln ?k) = entropy_of xs - ln ?k"
    by (simp only: sum_subtractf sum_distrib_right [symmetric] one e mult_1)
  moreover have "(\<Sum>x\<in>set xs. 1 / ?k - ?p x) = 0"
    using k assms by (simp only: sum_subtractf one sum_constant) simp
  ultimately have "entropy_of xs - ln ?k \<le> 0" by (simp only:)
  moreover have "0 \<le> - (?p x * ln (?p x))" if "x \<in> set xs" for x
    using entropy_nonneg [of "?p x"] p [OF that] by blast
  then have "0 \<le> entropy_of xs" unfolding e by (rule sum_nonneg)
  ultimately show ?thesis by simp
qed

lemma normalized_entropy_unit: "unit_range (normalized_entropy posts)"
proof (cases "author_total posts > 1")
  case True
  then have "map po_author_id posts \<noteq> []" by (auto simp: author_total_def)
  from entropy_bounds [OF this] have "0 \<le> entropy_of (map po_author_id posts)"
    "entropy_of (map po_author_id posts) \<le> ln (real (author_total posts))"
    by (simp_all add: author_total_def length_remdups_card_conv)
  moreover have "0 < ln (real (author_total posts))" using True by simp
  ultimately show ?thesis using True by (simp add: normalized_entropy_def unit_range_def divide_le_eq_1)
qed (simp add: normalized_entropy_def)

lemma depth_from_bound: "depth_from parents i seen \<le> card (fst ` set parents - set seen)"
proof (induction parents i seen rule: depth_from.induct)
  case (1 parents i seen)
  show ?case
  proof (cases "\<exists>p. map_of parents i = Some (Some p) \<and> p \<in> fst ` set parents \<and> p \<notin> set seen")
    case True
    then obtain p where p: "map_of parents i = Some (Some p)" "p \<in> fst ` set parents \<and> p \<notin> set seen" by blast
    let ?A = "fst ` set parents - set seen"
    have "fst ` set parents - set (p # seen) = ?A - {p}" by auto
    moreover have "Suc (card (?A - {p})) = card ?A" using p(2) by (intro card_Suc_Diff1) blast+
    moreover have "depth_from parents i seen = 1 + depth_from parents p (p # seen)"
      using p by (subst depth_from.simps) simp
    ultimately show ?thesis using 1 [OF p(1) refl p(2)] by simp
  next
    case False
    then have "depth_from parents i seen = 0" by (subst depth_from.simps) (auto split: option.split)
    then show ?thesis by simp
  qed
qed

lemma propagation_depth_bound: "propagation_depth posts \<le> length posts - 1"
  unfolding propagation_depth_def fold_max_le
proof (intro conjI ballI)
  fix d assume "d \<in> set (map (\<lambda>p. depth_from (parents_of posts) (po_post_id p) [po_post_id p]) posts)"
  then obtain p where p: "p \<in> set posts" "d = depth_from (parents_of posts) (po_post_id p) [po_post_id p]" by auto
  have ids: "fst ` set (parents_of posts) = po_post_id ` set posts"
    by (force simp: parents_of_def parent_entry_def)
  have "d \<le> card (po_post_id ` set posts - {po_post_id p})" 
    using depth_from_bound [of "parents_of posts" "po_post_id p" "[po_post_id p]"] by (simp add: p(2) ids)
  also have "\<dots> = card (po_post_id ` set posts) - 1" using p(1) by simp
  also have "\<dots> \<le> length posts - 1" by (intro diff_le_mono order_trans [OF card_image_le card_length]) simp
  finally show "d \<le> length posts - 1" .
qed simp

lemma reach_count_nonneg:
  "list_all (\<lambda>p. start \<le> po_event_time p) ps \<Longrightarrow> reach_count target start authors ps = Some t \<Longrightarrow> 0 \<le> t"
  by (induction ps arbitrary: authors) (auto simp: Let_def total_seconds_def split: if_splits)

lemma time_to_nonneg: "posts \<noteq> [] \<Longrightarrow> time_to_author_count posts target = Some t \<Longrightarrow> 0 \<le> t"
proof -
  assume posts: "posts \<noteq> []" and t: "time_to_author_count posts target = Some t"
  let ?s = "sort_key post_order posts"
  have "?s \<noteq> []" using posts by (metis length_sort length_0_conv)
  then obtain p ps where s: "?s = p # ps" by (cases ?s) auto
  have "sorted (map post_order ?s)" by simp
  then have "list_all (\<lambda>q. po_event_time p \<le> po_event_time q) (p # ps)"
    unfolding s by (auto simp: list_all_iff post_order_def less_eq_prod_def)
  moreover have "reach_count target (po_event_time p) [] (p # ps) = Some t"
    using t by (simp only: time_to_author_count_def Let_def s list.sel)
  ultimately show ?thesis by (rule reach_count_nonneg)
qed

text \<open>Exactly the counted number of distinct authors decides whether the target is reached.\<close>

lemma reach_count_iff:
  "distinct authors \<Longrightarrow> length authors < target \<Longrightarrow>
    reach_count target start authors ps \<noteq> None \<longleftrightarrow> target \<le> card (set authors \<union> po_author_id ` set ps)"
proof (induction ps arbitrary: authors)
  case Nil
  then show ?case by (simp add: distinct_card)
next
  case (Cons p ps)
  let ?a = "List.insert (po_author_id p) authors"
  have d: "distinct ?a" using Cons.prems by simp
  have un: "set authors \<union> po_author_id ` set (p # ps) = set ?a \<union> po_author_id ` set ps" by auto
  show ?case
  proof (cases "target \<le> length ?a")
    case True
    have "length ?a \<le> card (set ?a \<union> po_author_id ` set ps)" using d by (metis card_mono distinct_card finite_UnI finite_imageI List.finite_set Un_upper1)
    with True show ?thesis unfolding un by (simp add: Let_def del: insert_is_Un set_insert)
  next
    case False
    then show ?thesis using Cons.IH [OF d] unfolding un by (simp add: Let_def)
  qed
qed


section \<open>The result\<close>

lemma graph_score_unit:
  assumes "unit_range c" "unit_range s" "0 \<le> o'" "unit_range n" "unit_range e"
  shows "unit_range (graph_score_of c s o' d n e)"
proof -
  have "0 \<le> min 1 (real d / 5)" by simp
  then show ?thesis using assms unfolding graph_score_of_def unit_range_def
    by (intro conjI min.boundedI add_nonneg_nonneg mult_nonneg_nonneg) simp_all
qed

definition similarities_valid :: "narrative_cluster list \<Rightarrow> bool" where
  "similarities_valid clusters \<longleftrightarrow> list_all (\<lambda>c. list_all (\<lambda>(_, s). unit_range s) (nc_similarities c)) clusters"

lemma mean_list_unit: "list_all unit_range vs \<Longrightarrow> vs \<noteq> [] \<Longrightarrow> unit_range (sum_list vs / real (length vs))"
proof -
  assume vs: "list_all unit_range vs" "vs \<noteq> []"
  from vs(1) have "0 \<le> sum_list vs \<and> sum_list vs \<le> real (length vs)" by (induction vs) (auto simp: unit_range_def)
  with vs(2) show ?thesis by (simp add: unit_range_def divide_le_eq_1)
qed

lemma node_similarity_unit:
  assumes "similarities_valid clusters"
  shows "unit_range (node_similarity_of clusters)"
proof -
  have "list_all unit_range (concat (map (\<lambda>c. map snd (nc_similarities c)) clusters))"
    using assms by (fastforce simp: similarities_valid_def list_all_iff)
  then show ?thesis by (simp add: node_similarity_of_def Let_def mean_list_unit)
qed

text \<open>Whether some address or hashtag occurs more often than there are posts.\<close>

definition crowded :: "narrative_post list \<Rightarrow> bool" where
  "crowded posts \<longleftrightarrow> length posts < most_common (concat (map po_urls posts)) \<or>
     length posts < most_common (concat (map (\<lambda>p. map lower (po_hashtags p)) posts))"

lemma time_to_iff:
  assumes "posts \<noteq> []" "0 < target"
  shows "time_to_author_count posts target \<noteq> None \<longleftrightarrow> target \<le> author_total posts"
  using reach_count_iff [of "[]" target "po_event_time (hd (sort_key post_order posts))" "sort_key post_order posts"] assms
  by (simp add: time_to_author_count_def Let_def author_total_def length_remdups_card_conv)

lemma overlap_nonneg: "0 \<le> overlap_of posts"
  by (simp add: overlap_of_def)

lemma graph_features_all:
  assumes "similarities_valid clusters" "posts = filter (\<lambda>p. po_event_time p \<le> cutoff) all_posts" "posts \<noteq> []"
  shows "(is_ok (compute_graph_features all_posts clusters cutoff) \<longleftrightarrow> \<not> crowded posts) \<and>
    (\<forall>f. compute_graph_features all_posts clusters cutoff = Inr f \<longrightarrow> graph_features_valid f \<and>
       gf_propagation_depth f < length posts \<and> gf_graph_score f \<noteq> None \<and>
       (gf_authors_10 f \<longleftrightarrow> 10 \<le> author_total posts) \<and> (gf_authors_100 f \<longleftrightarrow> 100 \<le> author_total posts))"
proof -
  define f where "f = \<lparr>gf_community_concentration = concentration_of posts, gf_synchronized_posting = synchronized_of posts,
    gf_repeated_amplifier_overlap = overlap_of posts, gf_propagation_depth = propagation_depth posts,
    gf_community_entropy = normalized_entropy posts, gf_time_to_10 = time_to_author_count posts 10,
    gf_authors_10 = (time_to_author_count posts 10 \<noteq> None), gf_time_to_100 = time_to_author_count posts 100,
    gf_authors_100 = (time_to_author_count posts 100 \<noteq> None),
    gf_cross_community_spread = min 1 (real (author_total posts) / max 1 (real (length posts))),
    gf_node_similarity = node_similarity_of clusters,
    gf_graph_score = Some (graph_score_of (concentration_of posts) (synchronized_of posts) (overlap_of posts)
      (propagation_depth posts) (node_similarity_of clusters) (normalized_entropy posts))\<rparr>"
  have compute: "compute_graph_features all_posts clusters cutoff = build_graph_features f"
    unfolding compute_graph_features_def Let_def assms(2) [symmetric] f_def using assms(3) by (simp only: if_False)
  have times: "case time_to_author_count posts k of None \<Rightarrow> True | Some t \<Rightarrow> 0 \<le> t" for k
    using time_to_nonneg [OF assms(3), of k] by (simp split: option.split)
  have "unit_range (min 1 (real (author_total posts) / max 1 (real (length posts))))" by (simp add: unit_range_def)
  then have "graph_features_valid f \<longleftrightarrow> unit_range (overlap_of posts)"
    unfolding graph_features_valid_def f_def
    by (simp only: graph_features.simps times author_share_unit synchronized_unit normalized_entropy_unit opt_unit_simps
        node_similarity_unit [OF assms(1)] graph_score_unit overlap_nonneg simp_thms)
  also have "\<dots> \<longleftrightarrow> \<not> crowded posts" using overlap_unit [OF assms(3)] by (auto simp: crowded_def)
  finally have valid: "graph_features_valid f \<longleftrightarrow> \<not> crowded posts" .
  have "0 < length posts" using assms(3) by simp
  then have "gf_propagation_depth f < length posts"
    using propagation_depth_bound [of posts] by (simp only: f_def graph_features.simps)
  moreover have "gf_authors_10 f \<longleftrightarrow> 10 \<le> author_total posts" "gf_authors_100 f \<longleftrightarrow> 100 \<le> author_total posts" "gf_graph_score f \<noteq> None"
    using time_to_iff [OF assms(3), of 10] time_to_iff [OF assms(3), of 100] by (simp_all add: f_def)
  ultimately show ?thesis using valid by (auto simp: compute build_graph_features_def split: if_splits)
qed

lemma graph_features_computed:
  assumes "similarities_valid clusters" "filter (\<lambda>p. po_event_time p \<le> cutoff) all_posts \<noteq> []"
  shows "is_ok (compute_graph_features all_posts clusters cutoff) \<longleftrightarrow> \<not> crowded (filter (\<lambda>p. po_event_time p \<le> cutoff) all_posts)"
    using graph_features_all [OF assms(1) refl assms(2)] by blast

lemma compute_graph_features_valid: "compute_graph_features all_posts clusters cutoff = Inr f \<Longrightarrow> graph_features_valid f"
  by (auto simp: compute_graph_features_def Let_def build_graph_features_def split: if_splits)

text \<open>Over exact reals, the features of the posts up to the cutoff are computed exactly when no address and no hashtag
  occurs more often than there are posts; a single post that repeats a hashtag makes the record
  invalid. When they are computed, every feature and the score lie in the unit interval, the depth of
  the reply chains is below the number of posts, also when replies form a cycle, and a target of
  authors is reported exactly when that many authors posted.\<close>

theorem graph_features_exact:
  assumes "similarities_valid clusters" "posts = filter (\<lambda>p. po_event_time p \<le> cutoff) all_posts" "posts \<noteq> []"
  shows "(is_ok (compute_graph_features all_posts clusters cutoff) \<longleftrightarrow> \<not> crowded posts) \<and>
    (\<forall>f. compute_graph_features all_posts clusters cutoff = Inr f \<longrightarrow> graph_features_valid f \<and>
       gf_propagation_depth f < length posts \<and> gf_graph_score f \<noteq> None \<and>
       (gf_authors_10 f \<longleftrightarrow> 10 \<le> author_total posts) \<and> (gf_authors_100 f \<longleftrightarrow> 100 \<le> author_total posts))"
  using graph_features_all [OF assms] .

definition repeated_post :: narrative_post where
  "repeated_post = (sample_narrative_post ''p'' 1 [1])\<lparr>po_hashtags := [''PUMP'', ''PUMP'']\<rparr>"

theorem graph_features_exact_witness:
  "\<not> is_ok (compute_graph_features [repeated_post] [] 5) \<and> is_ok (compute_graph_features [sample_narrative_post ''p'' 1 [1]] [] 5)"
proof -
  have a: "crowded [repeated_post]"
    by (simp add: crowded_def repeated_post_def sample_narrative_post_def most_common_def)
  have b: "\<not> crowded [sample_narrative_post ''p'' 1 [1]]"
    by (simp add: crowded_def sample_narrative_post_def most_common_def)
  have "similarities_valid []" by (simp add: similarities_valid_def)
  from graph_features_exact [OF this refl, of 5 "[repeated_post]"] graph_features_exact [OF this refl, of 5 "[sample_narrative_post ''p'' 1 [1]]"]
  show ?thesis using a b by (simp add: repeated_post_def sample_narrative_post_def)
qed

end
