(* ===== verification/Narratives.thy ===== *)
theory Narratives
  imports Graph_Features Feature_Schema Events
begin

text \<open>
  \<open>NarrativeIntelligenceService.process\<close> (\<open>narratives/service.py\<close>) over the in-memory repository
  (\<open>narratives/repository.py\<close>), the in-memory vector index (\<open>narratives/embeddings.py\<close>) and the
  in-memory graph projector (\<open>narratives/graph.py\<close>): the posts of a feature window are embedded,
  clustered, indexed and projected, and one snapshot with its events is stored. The embedding and the
  faults of the index are parameters.
\<close>

section \<open>The graph projector\<close>

record graph_store =
  gs_fail :: bool
  gs_actors :: "string set"
  gs_posts :: "string set"
  gs_assets :: "string set"
  gs_narratives :: "string set"
  gs_campaigns :: "string set"
  gs_alerts :: "string set"
  gs_relationships :: "(string \<times> string \<times> string) set"

definition memory_projection_version :: string where
  "memory_projection_version = ''memory-projection-v1''"

definition cluster_by_post :: "narrative_cluster list \<Rightarrow> string \<rightharpoonup> uuid" where
  "cluster_by_post clusters = map_of (rev (concat (map (\<lambda>c. map (\<lambda>i. (i, nc_narrative_id c)) (nc_post_ids c)) clusters)))"

definition set_text :: "string option \<Rightarrow> string option" where
  "set_text x = (case x of None \<Rightarrow> None | Some s \<Rightarrow> if s = [] then None else Some s)"

definition link :: "string \<Rightarrow> string \<Rightarrow> string option \<Rightarrow> (string \<times> string \<times> string) set" where
  "link i kind target = (case set_text target of None \<Rightarrow> {} | Some t \<Rightarrow> {(i, kind, t)})"

definition add_post_nodes :: "narrative_post \<Rightarrow> graph_store \<Rightarrow> graph_store" where
  "add_post_nodes p g = g\<lparr>gs_actors := insert (po_author_id p) (gs_actors g), gs_posts := insert (po_post_id p) (gs_posts g),
     gs_assets := insert (po_asset_id p) (gs_assets g)\<rparr>"

definition add_post_links :: "narrative_post \<Rightarrow> uuid \<Rightarrow> graph_store \<Rightarrow> graph_store" where
  "add_post_links p n g = g\<lparr>gs_narratives := insert n (gs_narratives g),
     gs_relationships := gs_relationships g \<union>
       {(po_author_id p, ''POSTED'', po_post_id p), (po_post_id p, ''MENTIONS'', po_asset_id p), (po_post_id p, ''MEMBER_OF'', n)} \<union>
       link (po_post_id p) ''REPLIES_TO'' (po_reply_to p) \<union> link (po_post_id p) ''REPOSTS'' (po_repost_of p)\<rparr>"

text \<open>A post outside every cluster raises after its nodes are added.\<close>

fun project_posts :: "(string \<rightharpoonup> uuid) \<Rightarrow> narrative_post list \<Rightarrow> graph_store \<Rightarrow> graph_store \<times> unit res" where
  "project_posts m [] g = (g, Inr ())"
| "project_posts m (p # ps) g = (case m (po_post_id p) of
     None \<Rightarrow> (add_post_nodes p g, Inl (KeyError (po_post_id p)))
   | Some n \<Rightarrow> project_posts m ps (add_post_links p n (add_post_nodes p g)))"

definition project_campaign :: "string option \<Rightarrow> narrative_post list \<Rightarrow> graph_store \<Rightarrow> graph_store" where
  "project_campaign campaign posts g = (case set_text campaign of None \<Rightarrow> g
     | Some c \<Rightarrow> g\<lparr>gs_campaigns := insert c (gs_campaigns g),
         gs_relationships := gs_relationships g \<union> (\<lambda>p. (c, ''TARGETS'', po_asset_id p)) ` set posts\<rparr>)"

definition project_alerts :: "string list \<Rightarrow> narrative_cluster list \<Rightarrow> graph_store \<Rightarrow> graph_store" where
  "project_alerts alerts clusters g = g\<lparr>gs_alerts := gs_alerts g \<union> set alerts,
     gs_relationships := gs_relationships g \<union>
       (\<Union>a \<in> set alerts. (\<lambda>c. (nc_narrative_id c, ''EVIDENCE_FOR'', a)) ` set clusters)\<rparr>"

definition node_count :: "graph_store \<Rightarrow> nat" where
  "node_count g = card (gs_actors g) + card (gs_posts g) + card (gs_assets g) + card (gs_narratives g) +
     card (gs_campaigns g) + card (gs_alerts g)"

definition project_graph :: "narrative_post list \<Rightarrow> narrative_cluster list \<Rightarrow> datetime \<Rightarrow> string option \<Rightarrow> string list
    \<Rightarrow> graph_store \<Rightarrow> graph_store \<times> (nat \<times> nat) res" where
  "project_graph all_posts clusters cutoff campaign alerts g =
    (if gs_fail g then (g, Inl (RuntimeError ''graph projection unavailable''))
     else let posts = filter (\<lambda>p. po_event_time p \<le> cutoff) all_posts
       in case project_posts (cluster_by_post clusters) posts g of
            (g1, Inl x) \<Rightarrow> (g1, Inl x)
          | (g1, Inr ()) \<Rightarrow> (let g2 = project_alerts alerts clusters (project_campaign campaign posts g1)
              in (g2, Inr (node_count g2, card (gs_relationships g2)))))"

section \<open>Snapshots, events and the repository\<close>

datatype projection_status = ps_complete | ps_degraded

record graph_snapshot =
  gn_graph_snapshot_id :: uuid
  gn_scope_id :: string
  gn_asset_id :: string
  gn_feature_window_id :: uuid
  gn_feature_revision :: nat
  gn_window_start :: datetime
  gn_window_end :: datetime
  gn_cutoff_event_time :: datetime
  gn_source_lineage_hash :: string
  gn_projection_version :: string
  gn_projection_status :: projection_status
  gn_node_count :: nat
  gn_relationship_count :: nat
  gn_error_message :: "string option"
  gn_component_statuses :: "(string \<times> string) list"
  gn_features :: graph_features
  gn_computed_at :: datetime

datatype narrative_event_payload =
    Narrative_Payload narrative_cluster feature_snapshot graph_features uuid
  | Graph_Payload graph_snapshot feature_snapshot

type_synonym narrative_event = "narrative_event_payload canonical_event"

record narrative_repo =
  nr_posts :: "narrative_post list"
  nr_clusters :: "narrative_cluster list"
  nr_graphs :: "graph_snapshot list"
  nr_outbox :: "(string \<times> narrative_event) list"
  nr_active_campaign_id :: "string option"
  nr_active_alert_ids :: "string list"

definition in_window :: "feature_snapshot \<Rightarrow> narrative_post \<Rightarrow> bool" where
  "in_window s p \<longleftrightarrow> po_scope_id p = fs_scope_id s \<and> po_asset_id p = fs_asset_id s \<and>
     fs_window_start s \<le> po_event_time p \<and> po_event_time p < fs_window_end s"

definition posts_for_window :: "feature_snapshot \<Rightarrow> narrative_repo \<Rightarrow> narrative_post list" where
  "posts_for_window s repo = filter (in_window s) (nr_posts repo)"

definition persist_narratives :: "narrative_cluster list \<Rightarrow> graph_snapshot \<Rightarrow> (string \<times> narrative_event) list \<Rightarrow> narrative_repo
    \<Rightarrow> bool \<times> narrative_repo" where
  "persist_narratives clusters graph events repo =
    (if list_ex (\<lambda>g. gn_graph_snapshot_id g = gn_graph_snapshot_id graph) (nr_graphs repo) then (False, repo)
     else (True, repo\<lparr>nr_clusters := nr_clusters repo @ clusters, nr_graphs := nr_graphs repo @ [graph],
       nr_outbox := nr_outbox repo @ events\<rparr>))"

definition narrative_event_of :: "py_env \<Rightarrow> string \<Rightarrow> feature_snapshot \<Rightarrow> event_type \<Rightarrow> string \<Rightarrow> narrative_event_payload \<Rightarrow> datetime
    \<Rightarrow> narrative_event res" where
  "narrative_event_of env correlation s kind source_event payload now =
    (case build_replay (fs_scope_id s \<noteq> ''LIVE'') (if fs_scope_id s \<noteq> ''LIVE'' then Some (fs_scope_id s) else None) of
       Inl x \<Rightarrow> Inl x
     | Inr replay \<Rightarrow> build_event
        \<lparr>ce_event_id = env_uuid5 env (event_type_value kind @ '':'' @ fs_scope_id s @ '':'' @ source_event @ '':'' @ show_nat (fs_revision s)),
         ce_origin_event_id = None, ce_delivery_event_id = None, ce_event_type = kind, ce_schema_version = 1,
         ce_source = ''narrative-intelligence-v1'', ce_source_event_id = source_event, ce_source_sequence = None,
         ce_asset_id = Some (fs_asset_id s), ce_event_time = fs_window_end s, ce_ingested_at = now, ce_processed_at = Some now,
         ce_partition_key = fs_asset_id s, ce_replay = replay,
         ce_trace = \<lparr>tm_correlation_id = correlation, tm_causation_id = None\<rparr>, ce_payload = payload\<rparr>)"

section \<open>The service\<close>

text \<open>\<open>ni_embed\<close> is the embedding provider, \<open>ni_upsert\<close> what the vector index answers for a post,
  \<open>ni_error\<close> the \<open>repr\<close> of an exception, \<open>ni_correlation\<close> a fresh identifier for each event.\<close>

record intelligence_env =
  ni_env :: py_env
  ni_clusterer :: clusterer
  ni_embed :: "string \<Rightarrow> real list res"
  ni_embedding_version :: string
  ni_upsert :: "narrative_post \<Rightarrow> unit res"
  ni_error :: "py_exn \<Rightarrow> string"
  ni_now :: datetime
  ni_correlation :: "nat \<Rightarrow> string"

record narrative_state =
  ns_repo :: narrative_repo
  ns_graph :: graph_store

fun embed_posts :: "(string \<Rightarrow> real list res) \<Rightarrow> narrative_post list \<Rightarrow> narrative_post list res" where
  "embed_posts f [] = Inr []"
| "embed_posts f (p # ps) = (case f (po_text p) of
     Inl x \<Rightarrow> Inl x
   | Inr v \<Rightarrow> (case embed_posts f ps of Inl x \<Rightarrow> Inl x | Inr qs \<Rightarrow> Inr (p\<lparr>po_vector := v\<rparr> # qs)))"

text \<open>The posts are objects of the repository, so their vectors are set there, up to the one whose
  embedding raises.\<close>

fun store_vectors :: "(string \<Rightarrow> real list res) \<Rightarrow> (narrative_post \<Rightarrow> bool) \<Rightarrow> narrative_post list \<Rightarrow> narrative_post list" where
  "store_vectors f P [] = []"
| "store_vectors f P (p # ps) = (if \<not> P p then p # store_vectors f P ps
     else case f (po_text p) of Inl _ \<Rightarrow> p # ps | Inr v \<Rightarrow> p\<lparr>po_vector := v\<rparr> # store_vectors f P ps)"

text \<open>The loop over the index: its exceptions become messages. \<open>revision_by_post\<close> has every post,
  because the clusters partition the posts.\<close>

fun index_posts :: "intelligence_env \<Rightarrow> (string \<rightharpoonup> uuid) \<Rightarrow> narrative_post list \<Rightarrow> string list \<Rightarrow> string list res" where
  "index_posts ni m [] errors = Inr errors"
| "index_posts ni m (p # ps) errors =
    (case (case m (po_post_id p) of None \<Rightarrow> Inl (KeyError (po_post_id p)) | Some _ \<Rightarrow> ni_upsert ni p) of
       Inr _ \<Rightarrow> index_posts ni m ps errors
     | Inl x \<Rightarrow> if caught x then index_posts ni m ps (errors @ [''vector index: '' @ ni_error ni x]) else Inl x)"

definition revision_by_post :: "narrative_cluster list \<Rightarrow> string \<rightharpoonup> uuid" where
  "revision_by_post clusters =
    map_of (rev (concat (map (\<lambda>c. map (\<lambda>i. (i, nc_narrative_revision_id c)) (nc_post_ids c)) clusters)))"

definition graph_id_of :: "py_env \<Rightarrow> feature_snapshot \<Rightarrow> uuid" where
  "graph_id_of env s = env_uuid5 env (''graph:'' @ fs_scope_id s @ '':'' @ fs_feature_window_id s @ '':'' @ show_nat (fs_revision s))"

definition graph_snapshot_of :: "intelligence_env \<Rightarrow> feature_snapshot \<Rightarrow> graph_features \<Rightarrow> string list \<Rightarrow> string list \<Rightarrow> nat \<times> nat
    \<Rightarrow> graph_snapshot" where
  "graph_snapshot_of ni s f index_errors errors counts =
    \<lparr>gn_graph_snapshot_id = graph_id_of (ni_env ni) s, gn_scope_id = fs_scope_id s, gn_asset_id = fs_asset_id s,
     gn_feature_window_id = fs_feature_window_id s, gn_feature_revision = fs_revision s,
     gn_window_start = fs_window_start s, gn_window_end = fs_window_end s, gn_cutoff_event_time = fs_window_end s,
     gn_source_lineage_hash = fl_source_hash (fs_lineage s), gn_projection_version = memory_projection_version,
     gn_projection_status = (if errors \<noteq> [] then ps_degraded else ps_complete),
     gn_node_count = fst counts, gn_relationship_count = snd counts,
     gn_error_message = set_text (Some (take 2000 (join ''; '' errors))),
     gn_component_statuses = [(''embedding_provider_status'', ''HEALTHY''),
       (''qdrant_status'', if index_errors \<noteq> [] then ''DEGRADED'' else ''HEALTHY''),
       (''neo4j_status'', if errors \<noteq> index_errors then ''DEGRADED'' else ''HEALTHY''),
       (''deterministic_feature_status'', ''HEALTHY''),
       (''graph_score_status'', if gf_graph_score f \<noteq> None then ''AVAILABLE'' else ''MISSING'')],
     gn_features = f, gn_computed_at = ni_now ni\<rparr>"

fun cluster_events :: "intelligence_env \<Rightarrow> feature_snapshot \<Rightarrow> graph_features \<Rightarrow> uuid \<Rightarrow> nat \<Rightarrow> narrative_cluster list
    \<Rightarrow> (string \<times> narrative_event) list res" where
  "cluster_events ni s f g k [] = Inr []"
| "cluster_events ni s f g k (c # cs) = (case narrative_event_of (ni_env ni) (ni_correlation ni k) s ev_narrative_clustered
      (''narrative-revision:'' @ nc_narrative_revision_id c) (Narrative_Payload c s f g) (ni_now ni) of
     Inl x \<Rightarrow> Inl x
   | Inr e \<Rightarrow> (case cluster_events ni s f g (k + 1) cs of
       Inl x \<Rightarrow> Inl x | Inr es \<Rightarrow> Inr ((''narrative.events.v1'', e) # es)))"

definition snapshot_events :: "intelligence_env \<Rightarrow> feature_snapshot \<Rightarrow> narrative_cluster list \<Rightarrow> graph_snapshot
    \<Rightarrow> (string \<times> narrative_event) list res" where
  "snapshot_events ni s clusters graph =
    (case cluster_events ni s (gn_features graph) (gn_graph_snapshot_id graph) 0 clusters of
       Inl x \<Rightarrow> Inl x
     | Inr es \<Rightarrow> (case narrative_event_of (ni_env ni) (ni_correlation ni (length clusters)) s ev_graph_features_computed
           (''graph:'' @ gn_graph_snapshot_id graph) (Graph_Payload graph s) (ni_now ni) of
         Inl x \<Rightarrow> Inl x | Inr e \<Rightarrow> Inr (es @ [(''graph.features.v1'', e)])))"

text \<open>What precedes the projection: the embedded posts, the clusters and the features.\<close>

definition analyse_posts :: "intelligence_env \<Rightarrow> feature_snapshot \<Rightarrow> narrative_post list
    \<Rightarrow> (narrative_post list \<times> narrative_cluster list) res" where
  "analyse_posts ni s posts = (case embed_posts (ni_embed ni) posts of
     Inl x \<Rightarrow> Inl x
   | Inr embedded \<Rightarrow> (case cluster (ni_env ni) (ni_clusterer ni) (fs_window_start s) (fs_window_end s)
         (ni_embedding_version ni) embedded of
       Inl x \<Rightarrow> Inl x
     | Inr clusters \<Rightarrow> Inr (embedded, map (\<lambda>c. c\<lparr>nc_revision := int (fs_revision s)\<rparr>) clusters)))"

definition embedded_state :: "intelligence_env \<Rightarrow> feature_snapshot \<Rightarrow> narrative_state \<Rightarrow> narrative_state" where
  "embedded_state ni s st = st\<lparr>ns_repo := (ns_repo st)\<lparr>nr_posts := store_vectors (ni_embed ni) (in_window s) (nr_posts (ns_repo st))\<rparr>\<rparr>"

text \<open>The projection, whose exceptions become a message, and the storing of the snapshot.\<close>

definition project_and_store :: "intelligence_env \<Rightarrow> feature_snapshot \<Rightarrow> narrative_post list \<Rightarrow> narrative_cluster list \<Rightarrow> graph_features
    \<Rightarrow> string list \<Rightarrow> narrative_state \<Rightarrow> narrative_state \<times> graph_snapshot option res" where
  "project_and_store ni s embedded clusters f index_errors st =
    (case project_graph embedded clusters (fs_window_end s) (nr_active_campaign_id (ns_repo st))
        (nr_active_alert_ids (ns_repo st)) (ns_graph st) of (g, projected) \<Rightarrow>
     let errors = (case projected of Inr _ \<Rightarrow> index_errors
           | Inl x \<Rightarrow> index_errors @ [''graph projection: '' @ ni_error ni x]);
         counts = (case projected of Inr n \<Rightarrow> n | Inl _ \<Rightarrow> (0, 0));
         graph = graph_snapshot_of ni s f index_errors errors counts;
         st1 = st\<lparr>ns_graph := g\<rparr>
     in case snapshot_events ni s clusters graph of Inl x \<Rightarrow> (st1, Inl x)
        | Inr events \<Rightarrow> (st1\<lparr>ns_repo := snd (persist_narratives clusters graph events (ns_repo st))\<rparr>, Inr (Some graph)))"

definition process_snapshot :: "intelligence_env \<Rightarrow> feature_snapshot \<Rightarrow> narrative_state \<Rightarrow> narrative_state \<times> graph_snapshot option res" where
  "process_snapshot ni s st =
    (let posts = posts_for_window s (ns_repo st); st0 = embedded_state ni s st
     in if posts = [] then (st, Inr None)
        else case analyse_posts ni s posts of Inl x \<Rightarrow> (st0, Inl x)
      | Inr (embedded, clusters) \<Rightarrow> (case index_posts ni (revision_by_post clusters) embedded [] of Inl x \<Rightarrow> (st0, Inl x)
        | Inr index_errors \<Rightarrow> (case compute_graph_features embedded clusters (fs_window_end s) of Inl x \<Rightarrow> (st0, Inl x)
          | Inr f \<Rightarrow> project_and_store ni s embedded clusters f index_errors st0)))"

end
