(* ===== verification/Narratives_Correct.thy ===== *)
theory Narratives_Correct
  imports Narratives Fusion_Correct
begin

text \<open>
  Correctness of the narrative service: on which inputs it succeeds, that failures of the vector
  index and of the graph projection only degrade the snapshot, that a window revision is stored
  once, and that projecting again changes nothing.
\<close>

section \<open>Clusters cover the posts\<close>

lemma embed_posts_Inr:
  "embed_posts f ps = Inr qs \<Longrightarrow> map po_post_id qs = map po_post_id ps \<and> map po_event_time qs = map po_event_time ps \<and>
    map po_urls qs = map po_urls ps \<and> map po_hashtags qs = map po_hashtags ps \<and> length qs = length ps"
  by (induction ps arbitrary: qs) (auto split: sum.splits)

lemma cluster_Inr:
  assumes "cluster env cfg ws we ver posts = Inr cs"
  shows "\<Union> (set (map (\<lambda>c. set (nc_post_ids c)) cs)) = po_post_id ` set posts" "similarities_valid cs"
proof -
  obtain gs where groups: "groups_of cfg posts = Inr gs" using assms by (auto simp: cluster_def split: sum.splits)
  obtain cs' where g': "cluster env cfg ws we ver posts = Inr (sort_key nc_narrative_id cs')" and g:
    "list_all2 (\<lambda>c g. g \<noteq> [] \<and> sorted_wrt (similar cfg) g \<and> nc_post_ids c = sort (map po_post_id g) \<and>
       list_all (\<lambda>(_, s). unit_range s) (nc_similarities c) \<and>
       list_all (\<lambda>p. nc_first_seen c \<le> po_event_time p \<and> po_event_time p \<le> nc_last_seen c) g) cs' gs"
    by (rule cluster_of_groups [OF groups])
  have "\<Union> (set (map (\<lambda>c. set (nc_post_ids c)) cs')) = po_post_id ` set (concat gs) \<and> similarities_valid cs'"
    using g by (induction rule: list_all2_induct) (auto simp: similarities_valid_def)
  moreover have "set cs' = set cs" using g' assms by auto
  moreover have "set (concat gs) = set posts" using groups_of_ok [of cfg posts] groups by (metis set_mset_mset)
  ultimately show "\<Union> (set (map (\<lambda>c. set (nc_post_ids c)) cs)) = po_post_id ` set posts" "similarities_valid cs"
    by (simp_all add: similarities_valid_def list_all_iff)
qed


lemma map_of_covers: "i \<in> set (concat (map (\<lambda>c. nc_post_ids c) cs)) \<Longrightarrow>
    map_of (rev (concat (map (\<lambda>c. map (\<lambda>i. (i, f c)) (nc_post_ids c)) cs))) i \<noteq> None"
  unfolding map_of_eq_None_iff by force

definition covers :: "narrative_cluster list \<Rightarrow> narrative_post list \<Rightarrow> bool" where
  "covers cs posts \<longleftrightarrow> po_post_id ` set posts \<subseteq> \<Union> (set (map (\<lambda>c. set (nc_post_ids c)) cs))"

lemma covers_maps:
  assumes "covers cs posts" "p \<in> set posts"
  shows "revision_by_post cs (po_post_id p) \<noteq> None" "cluster_by_post cs (po_post_id p) \<noteq> None"
  using assms unfolding revision_by_post_def cluster_by_post_def covers_def by (intro map_of_covers; auto)+

section \<open>The index and the projector\<close>

lemma index_posts_ok:
  assumes "\<forall>p \<in> set posts. m (po_post_id p) \<noteq> None" "\<forall>p x. ni_upsert ni p = Inl x \<longrightarrow> caught x"
  shows "\<exists>es. index_posts ni m posts errors = Inr (errors @ es) \<and> (es = [] \<longleftrightarrow> (\<forall>p \<in> set posts. is_ok (ni_upsert ni p)))"
  using assms(1)
proof (induction posts arbitrary: errors)
  case (Cons p posts)
  then obtain r where r: "m (po_post_id p) = Some r" by auto
  show ?case
  proof (cases "ni_upsert ni p")
    case (Inl x)
    then have "caught x" using assms(2) by blast
    moreover obtain es where "index_posts ni m posts (errors @ [''vector index: '' @ ni_error ni x]) =
        Inr ((errors @ [''vector index: '' @ ni_error ni x]) @ es)" using Cons by (metis list.set_intros(2))
    ultimately show ?thesis using r Inl by (intro exI [of _ "(''vector index: '' @ ni_error ni x) # es"]) simp
  next
    case (Inr u)
    obtain es where "index_posts ni m posts errors = Inr (errors @ es)" "es = [] \<longleftrightarrow> (\<forall>p \<in> set posts. is_ok (ni_upsert ni p))"
      using Cons by (metis list.set_intros(2))
    then show ?thesis using r Inr by (intro exI [of _ es]) simp
  qed
qed simp

lemma project_posts_ok: "\<forall>p \<in> set posts. m (po_post_id p) \<noteq> None \<Longrightarrow> \<exists>g'. project_posts m posts g = (g', Inr ())"
  by (induction posts arbitrary: g) auto

lemma project_graph_ok:
  assumes "covers cs posts"
  shows "(\<exists>x. snd (project_graph posts cs cutoff campaign alerts g) = Inl x) \<longleftrightarrow> gs_fail g"
proof (cases "gs_fail g")
  case False
  have "\<forall>p \<in> set (filter (\<lambda>p. po_event_time p \<le> cutoff) posts). cluster_by_post cs (po_post_id p) \<noteq> None"
    using covers_maps(2) [OF assms] by simp
  from project_posts_ok [OF this, of g] obtain g' where
    "project_posts (cluster_by_post cs) (filter (\<lambda>p. po_event_time p \<le> cutoff) posts) g = (g', Inr ())" by blast
  then show ?thesis using False by (simp add: project_graph_def Let_def case_unit_Unity)
qed (simp add: project_graph_def)

section \<open>Events\<close>

definition addressable :: "feature_snapshot \<Rightarrow> bool" where
  "addressable s \<longleftrightarrow> fs_scope_id s \<noteq> [] \<and> \<not> blank (fs_asset_id s)"

lemma narrative_event_ok:
  assumes "\<not> blank source_event"
  shows "is_ok (narrative_event_of env correlation s kind source_event payload now) \<longleftrightarrow> addressable s"
proof -
  have "\<not> blank ''narrative-intelligence-v1''" by (simp add: blank_def is_space_def)
  then show ?thesis using assms
    by (auto simp: narrative_event_of_def build_replay_def build_event_fresh addressable_def)
qed

lemma narrative_event_Inr:
  "narrative_event_of env correlation s kind source_event payload now = Inr e \<Longrightarrow> ce_payload e = payload \<and> ce_event_type e = kind"
  using build_event_Inr by (fastforce simp: narrative_event_of_def split: sum.splits)

lemma prefix_not_blank: "\<not> blank (''narrative-revision:'' @ t)" "\<not> blank (''graph:'' @ t)"
  by (simp_all add: blank_def is_space_def)

definition events_match :: "feature_snapshot \<Rightarrow> graph_features \<Rightarrow> uuid \<Rightarrow> (string \<times> narrative_event) list \<Rightarrow> narrative_cluster list \<Rightarrow> bool" where
  "events_match s f g es cs \<longleftrightarrow>
    list_all2 (\<lambda>(topic, e) c. topic = ''narrative.events.v1'' \<and> ce_payload e = Narrative_Payload c s f g) es cs"

lemma cluster_events_ok:
  "addressable s \<Longrightarrow> \<exists>es. cluster_events ni s f g k cs = Inr es \<and> events_match s f g es cs"
proof (induction cs arbitrary: k)
  case (Cons c cs)
  have "is_ok (narrative_event_of (ni_env ni) (ni_correlation ni k) s ev_narrative_clustered
      (''narrative-revision:'' @ nc_narrative_revision_id c) (Narrative_Payload c s f g) (ni_now ni))"
    using Cons.prems by (simp only: narrative_event_ok [OF prefix_not_blank(1)])
  then obtain e where e: "narrative_event_of (ni_env ni) (ni_correlation ni k) s ev_narrative_clustered
      (''narrative-revision:'' @ nc_narrative_revision_id c) (Narrative_Payload c s f g) (ni_now ni) = Inr e"
    unfolding is_ok_iff by blast
  obtain es where "cluster_events ni s f g (k + 1) cs = Inr es" "events_match s f g es cs" using Cons by blast
  then show ?case using e narrative_event_Inr [OF e] by (simp add: events_match_def)
qed (simp add: events_match_def)

lemma snapshot_events_ok:
  "is_ok (snapshot_events ni s cs graph) \<longleftrightarrow> addressable s"
  "snapshot_events ni s cs graph = Inr events \<Longrightarrow> \<exists>es e. events = es @ [(''graph.features.v1'', e)] \<and>
     events_match s (gn_features graph) (gn_graph_snapshot_id graph) es cs \<and> ce_payload e = Graph_Payload graph s"
proof -
  let ?last = "narrative_event_of (ni_env ni) (ni_correlation ni (length cs)) s ev_graph_features_computed
    (''graph:'' @ gn_graph_snapshot_id graph) (Graph_Payload graph s) (ni_now ni)"
  have last: "is_ok ?last \<longleftrightarrow> addressable s" by (rule narrative_event_ok [OF prefix_not_blank(2)])
  show ok: "is_ok (snapshot_events ni s cs graph) \<longleftrightarrow> addressable s"
    using last cluster_events_ok [of s ni "gn_features graph" "gn_graph_snapshot_id graph" 0 cs]
    by (auto simp: snapshot_events_def is_ok_iff split: sum.splits)
  assume run: "snapshot_events ni s cs graph = Inr events"
  then have "addressable s" using ok by simp
  then obtain es where "cluster_events ni s (gn_features graph) (gn_graph_snapshot_id graph) 0 cs = Inr es"
    "events_match s (gn_features graph) (gn_graph_snapshot_id graph) es cs" using cluster_events_ok by blast
  then show "\<exists>es e. events = es @ [(''graph.features.v1'', e)] \<and>
     events_match s (gn_features graph) (gn_graph_snapshot_id graph) es cs \<and> ce_payload e = Graph_Payload graph s"
    using run narrative_event_Inr by (auto simp: snapshot_events_def split: sum.splits)
qed

section \<open>One snapshot\<close>

lemma analyse_posts_Inr:
  assumes "analyse_posts ni s posts = Inr (embedded, cs)"
  shows "embed_posts (ni_embed ni) posts = Inr embedded" "covers cs embedded" "similarities_valid cs"
proof -
  obtain cs0 where cs0: "embed_posts (ni_embed ni) posts = Inr embedded"
    "cluster (ni_env ni) (ni_clusterer ni) (fs_window_start s) (fs_window_end s) (ni_embedding_version ni) embedded = Inr cs0"
    "cs = map (\<lambda>c. c\<lparr>nc_revision := int (fs_revision s)\<rparr>) cs0"
    using assms by (auto simp: analyse_posts_def split: sum.splits)
  then show "embed_posts (ni_embed ni) posts = Inr embedded" by simp
  show "covers cs embedded" "similarities_valid cs"
    using cluster_Inr [OF cs0(2)] by (simp_all add: cs0(3) covers_def similarities_valid_def list_all_iff)
qed

lemma analyse_posts_is_ok:
  "is_ok (analyse_posts ni s posts) \<longleftrightarrow> (\<exists>embedded d. embed_posts (ni_embed ni) posts = Inr embedded \<and> same_dimension d embedded)"
proof (cases "embed_posts (ni_embed ni) posts")
  case (Inr embedded)
  have "is_ok (cluster (ni_env ni) (ni_clusterer ni) (fs_window_start s) (fs_window_end s) (ni_embedding_version ni) embedded) \<longleftrightarrow>
      (\<exists>d. same_dimension d embedded)" by (rule cluster_is_ok)
  then show ?thesis by (auto simp: analyse_posts_def Inr is_ok_iff split: sum.splits)
qed (simp add: analyse_posts_def)

lemma snapshot_events_ok_cases: "snapshot_events ni s cs graph = Inl x \<Longrightarrow> \<not> addressable s"
  "snapshot_events ni s cs graph = Inr events \<Longrightarrow> addressable s"
  using snapshot_events_ok(1) [of ni s cs graph] by simp_all

lemma project_and_store_ok:
  assumes "covers cs embedded"
  obtains graph where "gn_features graph = f"
    "gn_projection_status graph = ps_complete \<longleftrightarrow> errors = [] \<and> \<not> gs_fail (ns_graph st)"
    "gn_graph_snapshot_id graph = graph_id_of (ni_env ni) s"
    "\<not> addressable s \<Longrightarrow> \<exists>st1 x. project_and_store ni s embedded cs f errors st = (st1, Inl x)"
    "addressable s \<Longrightarrow> \<exists>events st1. snapshot_events ni s cs graph = Inr events \<and>
       project_and_store ni s embedded cs f errors st = (st1, Inr (Some graph)) \<and>
       ns_repo st1 = snd (persist_narratives cs graph events (ns_repo st))"
proof -
  obtain g projected where p: "project_graph embedded cs (fs_window_end s) (nr_active_campaign_id (ns_repo st))
      (nr_active_alert_ids (ns_repo st)) (ns_graph st) = (g, projected)" by fastforce
  have fails: "(\<exists>x. projected = Inl x) \<longleftrightarrow> gs_fail (ns_graph st)"
    using project_graph_ok [OF assms] p by (metis snd_conv)
  define errs where "errs = (case projected of Inr _ \<Rightarrow> errors | Inl x \<Rightarrow> errors @ [''graph projection: '' @ ni_error ni x])"
  define graph where "graph = graph_snapshot_of ni s f errors errs (case projected of Inr n \<Rightarrow> n | Inl _ \<Rightarrow> (0, 0))"
  have run: "project_and_store ni s embedded cs f errors st = (case snapshot_events ni s cs graph of
      Inl x \<Rightarrow> (st\<lparr>ns_graph := g\<rparr>, Inl x)
    | Inr events \<Rightarrow> (st\<lparr>ns_graph := g, ns_repo := snd (persist_narratives cs graph events (ns_repo st))\<rparr>, Inr (Some graph)))"
    unfolding project_and_store_def p Let_def prod.case errs_def [symmetric] graph_def [symmetric] by (rule refl)
  show thesis
  proof (rule that [of graph])
    show "gn_projection_status graph = ps_complete \<longleftrightarrow> errors = [] \<and> \<not> gs_fail (ns_graph st)"
      using fails by (cases projected) (simp_all add: graph_def graph_snapshot_of_def errs_def)
  next
    assume "\<not> addressable s"
    then show "\<exists>st1 x. project_and_store ni s embedded cs f errors st = (st1, Inl x)"
      unfolding run using snapshot_events_ok_cases(2) by (cases "snapshot_events ni s cs graph") auto
  next
    assume "addressable s"
    then obtain events where e: "snapshot_events ni s cs graph = Inr events"
      using snapshot_events_ok_cases(1) by (cases "snapshot_events ni s cs graph") auto
    show "\<exists>events st1. snapshot_events ni s cs graph = Inr events \<and>
       project_and_store ni s embedded cs f errors st = (st1, Inr (Some graph)) \<and>
       ns_repo st1 = snd (persist_narratives cs graph events (ns_repo st))"
      unfolding run e by (intro exI conjI) (rule refl | simp)+
  qed (simp_all add: graph_def graph_snapshot_of_def)
qed

text \<open>Every post of a window lies before its end, so the cutoff drops none of them.\<close>

lemma posts_before_cutoff:
  assumes "embed_posts f (posts_for_window s repo) = Inr embedded"
  shows "filter (\<lambda>p. po_event_time p \<le> fs_window_end s) embedded = embedded"
    "crowded embedded \<longleftrightarrow> crowded (posts_for_window s repo)"
proof -
  have times: "map po_event_time embedded = map po_event_time (posts_for_window s repo)"
    and urls: "map po_urls embedded = map po_urls (posts_for_window s repo)"
    and tags: "map po_hashtags embedded = map po_hashtags (posts_for_window s repo)"
    and len: "length embedded = length (posts_for_window s repo)"
    using embed_posts_Inr [OF assms] by simp_all
  have "\<forall>t \<in> set (map po_event_time (posts_for_window s repo)). t \<le> fs_window_end s"
    by (auto simp: posts_for_window_def in_window_def)
  then have "\<forall>p \<in> set embedded. po_event_time p \<le> fs_window_end s" unfolding times [symmetric] by simp
  then show "filter (\<lambda>p. po_event_time p \<le> fs_window_end s) embedded = embedded" by (simp add: filter_id_conv)
  have "map (\<lambda>p. map lower (po_hashtags p)) embedded = map (\<lambda>p. map lower (po_hashtags p)) (posts_for_window s repo)"
    using arg_cong [OF tags, of "map (map lower)"] by (simp add: comp_def)
  then show "crowded embedded \<longleftrightarrow> crowded (posts_for_window s repo)" by (simp only: crowded_def urls len)
qed

definition upserts_caught :: "intelligence_env \<Rightarrow> bool" where
  "upserts_caught ni \<longleftrightarrow> (\<forall>p x. ni_upsert ni p = Inl x \<longrightarrow> caught x)"

definition embeddable :: "intelligence_env \<Rightarrow> narrative_post list \<Rightarrow> bool" where
  "embeddable ni posts \<longleftrightarrow> (\<exists>embedded d. embed_posts (ni_embed ni) posts = Inr embedded \<and> same_dimension d embedded)"

definition index_healthy :: "intelligence_env \<Rightarrow> narrative_post list \<Rightarrow> bool" where
  "index_healthy ni posts \<longleftrightarrow>
    (case embed_posts (ni_embed ni) posts of Inl _ \<Rightarrow> False | Inr embedded \<Rightarrow> list_all (\<lambda>p. is_ok (ni_upsert ni p)) embedded)"

text \<open>The whole handler, on a window that has posts.\<close>

lemma process_not_embeddable:
  assumes "posts_for_window s (ns_repo st) \<noteq> []" "\<not> embeddable ni (posts_for_window s (ns_repo st))"
  shows "\<exists>x. process_snapshot ni s st = (embedded_state ni s st, Inl x)"
  using analyse_posts_is_ok [of ni s "posts_for_window s (ns_repo st)"] assms
  by (cases "analyse_posts ni s (posts_for_window s (ns_repo st))") (auto simp: process_snapshot_def embeddable_def)

lemma process_embeddable:
  assumes "upserts_caught ni" "posts_for_window s (ns_repo st) = posts" "posts \<noteq> []" "embeddable ni posts"
  obtains embedded cs errors where "covers cs embedded" "errors = [] \<longleftrightarrow> index_healthy ni posts"
    "process_snapshot ni s st = (case compute_graph_features embedded cs (fs_window_end s) of
       Inl x \<Rightarrow> (embedded_state ni s st, Inl x)
     | Inr f \<Rightarrow> project_and_store ni s embedded cs f errors (embedded_state ni s st))"
    "is_ok (compute_graph_features embedded cs (fs_window_end s)) \<longleftrightarrow> \<not> crowded posts"
proof -
  obtain embedded cs where a: "analyse_posts ni s posts = Inr (embedded, cs)"
    using analyse_posts_is_ok [of ni s posts] assms(4) unfolding embeddable_def is_ok_iff by fastforce
  note parts = analyse_posts_Inr [OF a]
  obtain errors where i: "index_posts ni (revision_by_post cs) embedded [] = Inr errors"
    "errors = [] \<longleftrightarrow> (\<forall>p \<in> set embedded. is_ok (ni_upsert ni p))"
    using index_posts_ok [of embedded "revision_by_post cs" ni "[]"] covers_maps(1) [OF parts(2)] assms(1)
    unfolding upserts_caught_def append_Nil by blast
  note cutoff = posts_before_cutoff [OF parts(1) [folded assms(2)]]
  have "embedded \<noteq> []" using embed_posts_Inr [OF parts(1)] assms(3) by auto
  then have "is_ok (compute_graph_features embedded cs (fs_window_end s)) \<longleftrightarrow> \<not> crowded posts"
    using graph_features_computed [OF parts(3), of "fs_window_end s" embedded] cutoff assms(2) by simp
  moreover have "errors = [] \<longleftrightarrow> index_healthy ni posts" using i(2) parts(1) by (simp add: index_healthy_def list_all_iff)
  ultimately show thesis
    using parts(2) assms(2,3) by (intro that [of cs embedded errors]) (simp_all add: process_snapshot_def Let_def a i(1))
qed

definition stored_narratives :: "narrative_repo \<Rightarrow> narrative_cluster list \<times> graph_snapshot list \<times> (string \<times> narrative_event) list" where
  "stored_narratives repo = (nr_clusters repo, nr_graphs repo, nr_outbox repo)"

lemma embedded_stored [simp]: "stored_narratives (ns_repo (embedded_state ni s st)) = stored_narratives (ns_repo st)"
  by (simp add: stored_narratives_def embedded_state_def)

lemma project_failure_keeps:
  "project_and_store ni s embedded cs f errors st = (st1, Inl x) \<Longrightarrow> ns_repo st1 = ns_repo st"
  by (auto simp: project_and_store_def Let_def split: prod.splits sum.splits)

lemma process_failure_keeps:
  "process_snapshot ni s st = (st1, Inl x) \<Longrightarrow> stored_narratives (ns_repo st1) = stored_narratives (ns_repo st)"
  using project_failure_keeps by (fastforce simp: process_snapshot_def Let_def split: if_splits sum.splits)

definition has_graph :: "uuid \<Rightarrow> narrative_repo \<Rightarrow> bool" where
  "has_graph i repo \<longleftrightarrow> list_ex (\<lambda>g. gn_graph_snapshot_id g = i) (nr_graphs repo)"

section \<open>A concrete window\<close>

definition sample_window :: feature_snapshot where
  "sample_window = sample_snapshot\<lparr>fs_asset_id := ''a''\<rparr>"

definition sample_intelligence :: "unit res \<Rightarrow> intelligence_env" where
  "sample_intelligence answer = \<lparr>ni_env = sample_env, ni_clusterer = default_clusterer, ni_embed = (\<lambda>_. Inr [1]),
     ni_embedding_version = ''v'', ni_upsert = (\<lambda>_. answer), ni_error = (\<lambda>_. ''e''), ni_now = 9, ni_correlation = (\<lambda>_. ''c'')\<rparr>"

definition sample_narratives :: "bool \<Rightarrow> narrative_state" where
  "sample_narratives fail = \<lparr>ns_repo = \<lparr>nr_posts = [sample_narrative_post ''p'' 1 []], nr_clusters = [], nr_graphs = [],
      nr_outbox = [], nr_active_campaign_id = None, nr_active_alert_ids = []\<rparr>,
     ns_graph = \<lparr>gs_fail = fail, gs_actors = {}, gs_posts = {}, gs_assets = {}, gs_narratives = {}, gs_campaigns = {},
      gs_alerts = {}, gs_relationships = {}\<rparr>\<rparr>"

lemma sample_window_facts:
  "posts_for_window sample_window (ns_repo (sample_narratives fail)) = [sample_narrative_post ''p'' 1 []]"
  "embeddable (sample_intelligence answer) [sample_narrative_post ''p'' 1 []]"
  "\<not> crowded [sample_narrative_post ''p'' 1 []]" "addressable sample_window"
  "index_healthy (sample_intelligence answer) [sample_narrative_post ''p'' 1 []] \<longleftrightarrow> is_ok answer"
  "gs_fail (ns_graph (sample_narratives fail)) = fail"
  "\<not> has_graph i (ns_repo (sample_narratives fail))"
proof -
  show "posts_for_window sample_window (ns_repo (sample_narratives fail)) = [sample_narrative_post ''p'' 1 []]"
    by (simp add: posts_for_window_def in_window_def sample_window_def sample_snapshot_def sample_narratives_def
        sample_narrative_post_def seconds_def)
  show "embeddable (sample_intelligence answer) [sample_narrative_post ''p'' 1 []]"
    by (auto simp: embeddable_def sample_intelligence_def same_dimension_def)
qed (simp_all add: crowded_def most_common_def sample_narrative_post_def addressable_def sample_window_def sample_snapshot_def
    blank_def is_space_def index_healthy_def sample_intelligence_def sample_narratives_def has_graph_def)

lemma sample_upserts: "caught x \<Longrightarrow> upserts_caught (sample_intelligence (Inl x))" "upserts_caught (sample_intelligence (Inr u))"
  by (simp_all add: upserts_caught_def sample_intelligence_def)

lemma process_total_facts:
  assumes "upserts_caught ni" "posts_for_window s (ns_repo st) = posts" "process_snapshot ni s st = (st1, r)"
  shows "(r = Inr None \<longrightarrow> posts = []) \<and>
    (is_ok r \<longleftrightarrow> posts = [] \<or> embeddable ni posts \<and> \<not> crowded posts \<and> addressable s) \<and>
    (is_ok r \<or> stored_narratives (ns_repo st1) = stored_narratives (ns_repo st)) \<and>
    (\<forall>graph. r = Inr (Some graph) \<longrightarrow>
      (gn_projection_status graph = ps_complete \<longleftrightarrow> index_healthy ni posts \<and> \<not> gs_fail (ns_graph st)) \<and>
      graph_features_valid (gn_features graph))"
proof -
  have keeps: "is_ok r \<or> stored_narratives (ns_repo st1) = stored_narratives (ns_repo st)"
    using process_failure_keeps assms(3) by (cases r) auto
  consider "posts = []" | "posts \<noteq> []" "\<not> embeddable ni posts" | "posts \<noteq> []" "embeddable ni posts" by blast
  then show ?thesis
  proof cases
    case 1
    then show ?thesis using assms(2,3) by (auto simp: process_snapshot_def)
  next
    case 2
    then show ?thesis using process_not_embeddable [of s st ni] assms(2,3) keeps by auto
  next
    case 3
    obtain embedded cs errors where run: "covers cs embedded" "errors = [] \<longleftrightarrow> index_healthy ni posts"
      "process_snapshot ni s st = (case compute_graph_features embedded cs (fs_window_end s) of
         Inl x \<Rightarrow> (embedded_state ni s st, Inl x)
       | Inr f \<Rightarrow> project_and_store ni s embedded cs f errors (embedded_state ni s st))"
      "is_ok (compute_graph_features embedded cs (fs_window_end s)) \<longleftrightarrow> \<not> crowded posts"
      using process_embeddable [OF assms(1,2) 3] by blast
    have same: "gs_fail (ns_graph (embedded_state ni s st)) = gs_fail (ns_graph st)" by (simp add: embedded_state_def)
    show ?thesis
    proof (cases "compute_graph_features embedded cs (fs_window_end s)")
      case (Inl x)
      then have "crowded posts" using run(4) by simp
      then show ?thesis using run(3) Inl assms(3) keeps 3 by simp
    next
      case (Inr f)
      obtain graph where g: "gn_features graph = f"
        "gn_projection_status graph = ps_complete \<longleftrightarrow> errors = [] \<and> \<not> gs_fail (ns_graph (embedded_state ni s st))"
        "\<not> addressable s \<Longrightarrow> \<exists>st1 x. project_and_store ni s embedded cs f errors (embedded_state ni s st) = (st1, Inl x)"
        "addressable s \<Longrightarrow> \<exists>st1. project_and_store ni s embedded cs f errors (embedded_state ni s st) = (st1, Inr (Some graph))"
        using project_and_store_ok [OF run(1), of f errors "embedded_state ni s st" ni s] by metis
      have valid: "graph_features_valid f" using Inr by (simp add: compute_graph_features_valid)
      have "project_and_store ni s embedded cs f errors (embedded_state ni s st) = (st1, r)"
        using run(3) assms(3) by (simp add: Inr)
      then have "if addressable s then r = Inr (Some graph) else \<exists>x. r = Inl x" using g(3,4) by force
      then show ?thesis using keeps g(1,2) run(2,4) valid same 3 Inr by (auto split: if_splits)
    qed
  qed
qed

text \<open>Over exact reals, processing a feature window succeeds exactly when the window has no post, or its posts can be
  embedded with one dimension, none repeats a hashtag or address more often than there are posts, and the
  scope and the asset can be named in an event. Faults of the vector index and of the graph projector
  never make it fail: the snapshot is then marked as degraded, and complete exactly when both answered.
  A failed run stores no cluster, no snapshot and no event.\<close>

theorem process_total:
  assumes "upserts_caught ni" "posts_for_window s (ns_repo st) = posts" "process_snapshot ni s st = (st1, r)"
  shows "(is_ok r \<longleftrightarrow> posts = [] \<or> embeddable ni posts \<and> \<not> crowded posts \<and> addressable s) \<and>
    (is_ok r \<or> stored_narratives (ns_repo st1) = stored_narratives (ns_repo st)) \<and>
    (\<forall>graph. r = Inr (Some graph) \<longrightarrow>
      (gn_projection_status graph = ps_complete \<longleftrightarrow> index_healthy ni posts \<and> \<not> gs_fail (ns_graph st)) \<and>
      graph_features_valid (gn_features graph))"
  using process_total_facts [OF assms] by blast

theorem process_total_witness:
  "is_ok (snd (process_snapshot (sample_intelligence (Inl (RuntimeError ''down''))) sample_window (sample_narratives True)))"
proof -
  have "caught (RuntimeError ''down'')" by (simp add: caught_def)
  from process_total [OF sample_upserts(1) [OF this] sample_window_facts(1) prod.collapse [symmetric]]
  show ?thesis by (simp add: sample_window_facts)
qed

section \<open>Once per revision\<close>

lemma has_graph_stored: "stored_narratives repo = stored_narratives repo' \<Longrightarrow> has_graph i repo = has_graph i repo'"
  by (simp add: stored_narratives_def has_graph_def)

lemma persist_again: "has_graph (gn_graph_snapshot_id graph) repo \<Longrightarrow> persist_narratives cs graph events repo = (False, repo)"
  by (simp add: has_graph_def persist_narratives_def)

lemma graph_snapshot_id: "gn_graph_snapshot_id (graph_snapshot_of ni s f errors errs counts) = graph_id_of (ni_env ni) s"
  by (simp add: graph_snapshot_of_def)

lemma project_again:
  assumes "has_graph (graph_id_of (ni_env ni) s) (ns_repo st)"
  shows "ns_repo (fst (project_and_store ni s embedded cs f errors st)) = ns_repo st"
  unfolding project_and_store_def Let_def
  by (simp only: assms persist_again graph_snapshot_id fst_conv snd_conv narrative_state.simps narrative_state.surjective
      split: prod.split sum.split) simp

lemma window_again:
  assumes "has_graph (graph_id_of (ni_env ni) s) (ns_repo st)"
  shows "stored_narratives (ns_repo (fst (process_snapshot ni s st))) = stored_narratives (ns_repo st)"
proof -
  have "has_graph (graph_id_of (ni_env ni) s) (ns_repo (embedded_state ni s st))"
    using has_graph_stored [OF embedded_stored] assms by blast
  from project_again [OF this] show ?thesis by (auto simp: process_snapshot_def Let_def split: sum.split)
qed

text \<open>A window revision delivered again, each time with the services in another condition.\<close>

definition process_runs :: "intelligence_env list \<Rightarrow> feature_snapshot \<Rightarrow> narrative_state \<Rightarrow> narrative_state" where
  "process_runs nis s st = fold (\<lambda>ni st. fst (process_snapshot ni s st)) nis st"

lemma process_runs_keep:
  "list_all (\<lambda>ni. ni_env ni = env) nis \<Longrightarrow> has_graph (graph_id_of env s) (ns_repo st) \<Longrightarrow>
    stored_narratives (ns_repo (process_runs nis s st)) = stored_narratives (ns_repo st)"
proof (induction nis arbitrary: st)
  case (Cons ni nis)
  have "stored_narratives (ns_repo (fst (process_snapshot ni s st))) = stored_narratives (ns_repo st)"
    using Cons.prems by (intro window_again) simp
  moreover from has_graph_stored [OF this] have "has_graph (graph_id_of env s) (ns_repo (fst (process_snapshot ni s st)))"
    using Cons.prems(2) by blast
  ultimately show ?case using Cons by (simp add: process_runs_def)
qed (simp add: process_runs_def)

lemma process_first:
  assumes "upserts_caught ni" "process_snapshot ni s st = (st1, Inr (Some graph))"
    "\<not> has_graph (graph_id_of (ni_env ni) s) (ns_repo st)"
  shows "\<exists>cs es e. events_match s (gn_features graph) (gn_graph_snapshot_id graph) es cs \<and> ce_payload e = Graph_Payload graph s \<and>
    gn_graph_snapshot_id graph = graph_id_of (ni_env ni) s \<and>
    stored_narratives (ns_repo st1) = (nr_clusters (ns_repo st) @ cs, nr_graphs (ns_repo st) @ [graph],
      nr_outbox (ns_repo st) @ es @ [(''graph.features.v1'', e)])"
proof -
  have posts: "posts_for_window s (ns_repo st) \<noteq> []" using assms(2) by (auto simp: process_snapshot_def)
  have emb: "embeddable ni (posts_for_window s (ns_repo st))" using process_not_embeddable [OF posts] assms(2) by force
  obtain embedded cs errors where run: "covers cs embedded"
    "process_snapshot ni s st = (case compute_graph_features embedded cs (fs_window_end s) of
       Inl x \<Rightarrow> (embedded_state ni s st, Inl x)
     | Inr f \<Rightarrow> project_and_store ni s embedded cs f errors (embedded_state ni s st))"
    using process_embeddable [OF assms(1) refl posts emb] by blast
  then obtain f where f: "project_and_store ni s embedded cs f errors (embedded_state ni s st) = (st1, Inr (Some graph))"
    using assms(2) by (cases "compute_graph_features embedded cs (fs_window_end s)") auto
  have g: "gn_features graph = f \<and> gn_graph_snapshot_id graph = graph_id_of (ni_env ni) s \<and>
    (\<exists>events. snapshot_events ni s cs graph = Inr events \<and>
      ns_repo st1 = snd (persist_narratives cs graph events (ns_repo (embedded_state ni s st))))"
    by (rule project_and_store_ok [OF run(1), of f errors "embedded_state ni s st" ni s]; cases "addressable s")
      (use f in auto)
  then obtain events where ev: "snapshot_events ni s cs graph = Inr events"
      "ns_repo st1 = snd (persist_narratives cs graph events (ns_repo (embedded_state ni s st)))" by blast
  have "\<not> has_graph (gn_graph_snapshot_id graph) (ns_repo (embedded_state ni s st))"
    using g assms(3) has_graph_stored [OF embedded_stored] by simp
  then have "stored_narratives (ns_repo st1) = (nr_clusters (ns_repo st) @ cs, nr_graphs (ns_repo st) @ [graph], nr_outbox (ns_repo st) @ events)"
    by (simp add: ev(2) persist_narratives_def has_graph_def stored_narratives_def embedded_state_def)
  moreover obtain es e where "events = es @ [(''graph.features.v1'', e)]"
    "events_match s (gn_features graph) (gn_graph_snapshot_id graph) es cs" "ce_payload e = Graph_Payload graph s"
    using snapshot_events_ok(2) [OF ev(1)] by blast
  ultimately show ?thesis using g by blast
qed

text \<open>C32. A window revision is stored once. The first run that succeeds adds its clusters, one snapshot, one
  event for each cluster and then the event of the graph, each with the features of that snapshot; however
  often the revision is processed again, and whatever fails then, nothing is added, although the posts are
  embedded and projected again.\<close>

theorem process_once:
  assumes "upserts_caught ni" "process_snapshot ni s st = (st1, Inr (Some graph))"
    "\<not> has_graph (graph_id_of (ni_env ni) s) (ns_repo st)" "list_all (\<lambda>ni'. ni_env ni' = ni_env ni) nis"
  shows "\<exists>cs es e. events_match s (gn_features graph) (gn_graph_snapshot_id graph) es cs \<and> ce_payload e = Graph_Payload graph s \<and>
    stored_narratives (ns_repo (process_runs nis s st1)) = (nr_clusters (ns_repo st) @ cs, nr_graphs (ns_repo st) @ [graph],
      nr_outbox (ns_repo st) @ es @ [(''graph.features.v1'', e)])"
proof -
  from process_first [OF assms(1-3)] obtain cs es e where
    first: "events_match s (gn_features graph) (gn_graph_snapshot_id graph) es cs" "ce_payload e = Graph_Payload graph s"
      "gn_graph_snapshot_id graph = graph_id_of (ni_env ni) s"
      "stored_narratives (ns_repo st1) = (nr_clusters (ns_repo st) @ cs, nr_graphs (ns_repo st) @ [graph],
         nr_outbox (ns_repo st) @ es @ [(''graph.features.v1'', e)])" by blast
  have "has_graph (graph_id_of (ni_env ni) s) (ns_repo st1)" using first(3,4) by (simp add: stored_narratives_def has_graph_def)
  from process_runs_keep [OF assms(4) this] show ?thesis using first by auto
qed

theorem process_once_witness:
  "\<exists>graph st1. process_snapshot (sample_intelligence (Inr ())) sample_window (sample_narratives False) = (st1, Inr (Some graph)) \<and>
     length (nr_graphs (ns_repo (process_runs [sample_intelligence (Inl CancelledError)] sample_window st1))) = 1"
proof -
  obtain st1 r where run: "process_snapshot (sample_intelligence (Inr ())) sample_window (sample_narratives False) = (st1, r)"
    by fastforce
  have "is_ok r" "r \<noteq> Inr None"
    using process_total_facts [OF sample_upserts(2) sample_window_facts(1) run] by (auto simp: sample_window_facts)
  then obtain graph where r: "r = Inr (Some graph)" by (metis is_ok_iff not_None_eq)
  have "list_all (\<lambda>ni'. ni_env ni' = ni_env (sample_intelligence (Inr ()))) [sample_intelligence (Inl CancelledError)]"
    by (simp add: sample_intelligence_def)
  from process_once [OF sample_upserts(2) run [unfolded r] sample_window_facts(7) this] run r
  show ?thesis by (auto simp: stored_narratives_def sample_narratives_def)
qed

end
