(* ===== verification/Text_Guard.thy ===== *)
theory Text_Guard
  imports Claim_Text
begin

text \<open>
  The guardrails for untrusted text (\<open>security/guardrails.py\<close>: \<open>_INJECTION_PATTERNS\<close>,
  \<open>inspect_untrusted_text\<close>, \<open>inspect_social_payload\<close>). The regular expressions are data with an
  executable search; an inductive definition says which words an expression matches, and the search
  is proved to find exactly the texts that hold such a word.
\<close>

section \<open>Regular expressions\<close>

text \<open>Literal text, \<open>\s+\<close>, \<open>\s*\<close>, an optional group, a choice and a sequence.\<close>

datatype rx = Rx_Text string | Rx_Gap | Rx_Space | Rx_Opt rx | Rx_Alt rx rx | Rx_Seq rx rx

fun gap_rests :: "string \<Rightarrow> string list" where
  "gap_rests [] = []"
| "gap_rests (c # cs) = (if is_space c then cs # gap_rests cs else [])"

text \<open>What can be left of a text after a match at its beginning.\<close>

fun rests :: "rx \<Rightarrow> string \<Rightarrow> string list" where
  "rests (Rx_Text w) s = (if take (length w) s = w then [drop (length w) s] else [])"
| "rests Rx_Gap s = gap_rests s"
| "rests Rx_Space s = s # gap_rests s"
| "rests (Rx_Opt r) s = rests r s @ [s]"
| "rests (Rx_Alt r q) s = rests r s @ rests q s"
| "rests (Rx_Seq r q) s = concat (map (rests q) (rests r s))"

text \<open>\<open>pattern.search(text)\<close> finds something.\<close>

definition search :: "rx \<Rightarrow> string \<Rightarrow> bool" where
  "search r s = list_ex (\<lambda>i. rests r (drop i s) \<noteq> []) [0..<Suc (length s)]"

inductive rx_matches :: "rx \<Rightarrow> string \<Rightarrow> bool" where
  match_text: "rx_matches (Rx_Text w) w"
| match_gap: "w \<noteq> [] \<Longrightarrow> list_all is_space w \<Longrightarrow> rx_matches Rx_Gap w"
| match_space: "list_all is_space w \<Longrightarrow> rx_matches Rx_Space w"
| match_none: "rx_matches (Rx_Opt r) []"
| match_some: "rx_matches r w \<Longrightarrow> rx_matches (Rx_Opt r) w"
| match_left: "rx_matches r w \<Longrightarrow> rx_matches (Rx_Alt r q) w"
| match_right: "rx_matches q w \<Longrightarrow> rx_matches (Rx_Alt r q) w"
| match_seq: "rx_matches r u \<Longrightarrow> rx_matches q v \<Longrightarrow> rx_matches (Rx_Seq r q) (u @ v)"

inductive_simps rx_matches_simps: "rx_matches (Rx_Text w) s" "rx_matches Rx_Gap s" "rx_matches Rx_Space s"
  "rx_matches (Rx_Opt r) s" "rx_matches (Rx_Alt r q) s" "rx_matches (Rx_Seq r q) s"

lemma list_all_Nil: "list_all P []"
  by simp

lemma gap_rests_iff: "t \<in> set (gap_rests s) \<longleftrightarrow> (\<exists>w. s = w @ t \<and> w \<noteq> [] \<and> list_all is_space w)"
proof (induction s)
  case (Cons c cs)
  have "t \<in> set (gap_rests (c # cs)) \<longleftrightarrow> is_space c \<and> (t = cs \<or> t \<in> set (gap_rests cs))" by simp
  also have "\<dots> \<longleftrightarrow> is_space c \<and> (\<exists>w. cs = w @ t \<and> list_all is_space w)"
    unfolding Cons.IH by (metis append_Nil list_all_Nil)
  also have "\<dots> \<longleftrightarrow> (\<exists>w. c # cs = w @ t \<and> w \<noteq> [] \<and> list_all is_space w)"
    by (auto simp: Cons_eq_append_conv)
  finally show ?case .
qed simp

lemma rests_iff: "t \<in> set (rests r s) \<longleftrightarrow> (\<exists>w. s = w @ t \<and> rx_matches r w)"
proof (induction r arbitrary: s t)
  case (Rx_Text w)
  have "take (length w) s = w \<and> t = drop (length w) s \<longleftrightarrow> s = w @ t" by (metis append_eq_conv_conj)
  then show ?case by (auto simp: rx_matches_simps)
next
  case Rx_Space
  have "t = s \<or> t \<in> set (gap_rests s) \<longleftrightarrow> (\<exists>w. s = w @ t \<and> list_all is_space w)"
    unfolding gap_rests_iff by (metis append_Nil list_all_Nil)
  then show ?case by (auto simp: rx_matches_simps)
next
  case (Rx_Seq r q)
  then show ?case by (auto simp: rx_matches_simps) (metis append.assoc)+
qed (auto simp: rx_matches_simps gap_rests_iff)

lemma search_iff: "search r s \<longleftrightarrow> (\<exists>u w v. s = u @ w @ v \<and> rx_matches r w)"
proof
  assume "search r s"
  then obtain i where "rests r (drop i s) \<noteq> []" unfolding search_def list_ex_iff by blast
  then obtain t where "t \<in> set (rests r (drop i s))" by (metis list.set_intros(1) neq_Nil_conv)
  then obtain w where "drop i s = w @ t" "rx_matches r w" unfolding rests_iff by blast
  then show "\<exists>u w v. s = u @ w @ v \<and> rx_matches r w" by (metis append_take_drop_id)
next
  assume "\<exists>u w v. s = u @ w @ v \<and> rx_matches r w"
  then obtain u w v where s: "s = u @ w @ v" "rx_matches r w" by blast
  then have "v \<in> set (rests r (drop (length u) s))" unfolding rests_iff by auto
  then have "rests r (drop (length u) s) \<noteq> []" by auto
  moreover have "length u \<in> set [0..<Suc (length s)]" using s(1) by simp
  ultimately show "search r s" unfolding search_def list_ex_iff by blast
qed

section \<open>The patterns\<close>

text \<open>Words with gaps between them, some optional.\<close>

definition any_word :: "string list \<Rightarrow> rx" where
  "any_word ws = foldr (\<lambda>w r. Rx_Alt (Rx_Text w) r) (butlast ws) (Rx_Text (last ws))"

definition then_gap :: "rx \<Rightarrow> rx" where
  "then_gap r = Rx_Seq r Rx_Gap"

definition injection_patterns :: "rx list" where
  "injection_patterns =
   [Rx_Seq (then_gap (Rx_Text ''ignore'')) (Rx_Seq (Rx_Opt (then_gap (Rx_Text ''all'')))
      (Rx_Seq (then_gap (Rx_Text ''previous'')) (Rx_Text ''instructions''))),
    Rx_Seq (then_gap (Rx_Text ''disregard'')) (Rx_Seq (Rx_Opt (then_gap (Rx_Text ''all'')))
      (Rx_Seq (then_gap (any_word [''prior'', ''previous''])) (Rx_Text ''instructions''))),
    Rx_Seq (then_gap (Rx_Text ''forget'')) (Rx_Seq (Rx_Opt (then_gap (Rx_Text ''all'')))
      (Rx_Seq (then_gap (any_word [''prior'', ''previous''])) (Rx_Text ''instructions''))),
    Rx_Seq (then_gap (Rx_Text ''you'')) (Rx_Seq (then_gap (Rx_Text ''are'')) (Rx_Seq (then_gap (Rx_Text ''now''))
      (Rx_Seq (Rx_Opt (then_gap (Rx_Text ''in''))) (Rx_Seq (then_gap (any_word [''developer'', ''admin'', ''root'']))
        (Rx_Text ''mode''))))),
    Rx_Seq (then_gap (Rx_Text ''reveal'')) (Rx_Seq (Rx_Opt (then_gap (Rx_Text ''the'')))
      (Rx_Seq (then_gap (any_word [''system'', ''developer''])) (Rx_Text ''prompt''))),
    Rx_Seq (Rx_Text ''<'') (Rx_Seq Rx_Space (Rx_Seq (any_word [''system'', ''assistant'', ''tool'']) (Rx_Seq Rx_Space (Rx_Text ''>'')))),
    Rx_Seq (Rx_Text ''</'') (Rx_Seq Rx_Space (Rx_Seq (any_word [''system'', ''assistant'', ''tool'']) (Rx_Seq Rx_Space (Rx_Text ''>'')))),
    Rx_Alt (Rx_Text ''jailbreak'') (Rx_Seq (then_gap (Rx_Text ''prompt'')) (Rx_Text ''injection'')),
    Rx_Seq (then_gap (Rx_Text ''print'')) (Rx_Seq (Rx_Opt (then_gap (Rx_Text ''the'')))
      (Rx_Seq (then_gap (Rx_Text ''hidden'')) (any_word [''prompt'', ''policy''])))]"

text \<open>The patterns ignore case.\<close>

definition injected :: "string \<Rightarrow> bool" where
  "injected s \<longleftrightarrow> list_ex (\<lambda>r. search r (lower s)) injection_patterns"

lemma injected_iff: "injected s \<longleftrightarrow> (\<exists>r \<in> set injection_patterns. \<exists>u w v. lower s = u @ w @ v \<and> rx_matches r w)"
  by (simp add: injected_def list_ex_iff search_iff)

lemma injected_inside: "injected s \<Longrightarrow> injected (a @ s @ b)"
  unfolding injected_iff lower_def map_append by (metis append.assoc)

section \<open>Decisions\<close>

definition control_char :: "char \<Rightarrow> bool" where
  "control_char c \<longleftrightarrow> (let n = of_char c :: nat in n < 32 \<and> n \<noteq> 10 \<and> n \<noteq> 13 \<and> n \<noteq> 9)"

definition repetitive :: "string \<Rightarrow> bool" where
  "repetitive s \<longleftrightarrow> (let ws = runs (\<lambda>c. \<not> is_space c) (lower s)
     in length ws \<ge> 50 \<and> real (length (remdups ws)) / real (length ws) < 8 / 100)"

definition inspect_untrusted_text :: "nat \<Rightarrow> string \<Rightarrow> guardrail_decision" where
  "inspect_untrusted_text max_length s =
    (let reasons = (if length s > max_length then [''TEXT_TOO_LARGE''] else []) @
           (if injected s then [''PROMPT_INJECTION_PATTERN''] else []) @
           (if list_ex control_char s then [''CONTROL_CHARACTERS''] else []) @
           (if repetitive s then [''REPETITIVE_CONTENT''] else [])
     in \<lparr>gd_accepted = (reasons = []), gd_reasons = reasons, gd_risk_score = min 1 (real (length reasons) * 0.35)\<rparr>)"

text \<open>\<open>str(payload.get("text") or "")\<close>; \<open>str_of\<close> is \<open>str\<close> on values that are no strings.\<close>

definition payload_text :: "(py_value \<Rightarrow> string) \<Rightarrow> payload \<Rightarrow> string" where
  "payload_text str_of p = (case map_of p ''text'' of
     None \<Rightarrow> [] | Some v \<Rightarrow> if \<not> truthy v then [] else case v of PStr s \<Rightarrow> s | _ \<Rightarrow> str_of v)"

definition engagement_reasons :: "string \<times> py_value \<Rightarrow> string list" where
  "engagement_reasons = (\<lambda>(key, v). case number_of v of
     Some r \<Rightarrow> if r < 0 then [''INVALID_ENGAGEMENT_'' @ take 32 (upper key)] else [] | None \<Rightarrow> [])"

definition inspect_social_payload :: "(py_value \<Rightarrow> string) \<Rightarrow> payload \<Rightarrow> guardrail_decision" where
  "inspect_social_payload str_of p =
    (let reasons = gd_reasons (inspect_untrusted_text 20000 (payload_text str_of p)) @
           (case map_of p ''engagement'' of Some (PDict kvs) \<Rightarrow> concat (map engagement_reasons kvs) | _ \<Rightarrow> [])
     in \<lparr>gd_accepted = (reasons = []), gd_reasons = first_occurrences reasons, gd_risk_score = min 1 0.35\<rparr>)"

lemma text_accepted_iff:
  "gd_accepted (inspect_untrusted_text n s) \<longleftrightarrow>
    length s \<le> n \<and> \<not> injected s \<and> \<not> list_ex control_char s \<and> \<not> repetitive s"
  "gd_reasons (inspect_untrusted_text n s) = [] \<longleftrightarrow> gd_accepted (inspect_untrusted_text n s)"
  by (auto simp: inspect_untrusted_text_def Let_def)

text \<open>C38. A text is accepted exactly when it is not too long, no part of it is a word of an injection pattern
  in any case, it holds no control character and it is not repetitive. No text around an injection
  makes it pass.\<close>

theorem text_guard_exact:
  "(gd_accepted (inspect_untrusted_text n s) \<longleftrightarrow> length s \<le> n \<and>
     \<not> (\<exists>p \<in> set injection_patterns. \<exists>u w v. lower s = u @ w @ v \<and> rx_matches p w) \<and>
     \<not> (\<exists>c \<in> set s. control_char c) \<and> \<not> repetitive s) \<and>
   \<not> (injected s \<and> gd_accepted (inspect_untrusted_text n (a @ s @ b)))"
proof
  show "\<not> (injected s \<and> gd_accepted (inspect_untrusted_text n (a @ s @ b)))"
    using injected_inside [of s a b] by (simp add: text_accepted_iff)
qed (simp add: text_accepted_iff injected_iff list_ex_iff)

end
