(* ===== verification/Social_Text.thy ===== *)
theory Social_Text
  imports Text_Guard
begin

text \<open>
  The text side of social ingestion (\<open>ingestion/social.py\<close>): the regular expressions for tags, mentions
  and addresses as scanners, \<open>AssetRegistry\<close> and \<open>AssetMentionResolver\<close>, with the proof of what a
  resolved mention guarantees. \<open>nfkc\<close> stands for \<open>unicodedata.normalize("NFKC", _)\<close>.
\<close>

section \<open>Scanning\<close>

text \<open>\<open>pattern.finditer(text)\<close>: \<open>f\<close> sees the character before and the text from there on and answers the
  length of the longest match; the search goes on behind a match, one character further when it is empty.\<close>

function finditer :: "(char option \<Rightarrow> string \<Rightarrow> nat option) \<Rightarrow> char option \<Rightarrow> nat \<Rightarrow> string \<Rightarrow> (nat \<times> nat) list" where
  "finditer f prev i [] = (case f prev [] of Some 0 \<Rightarrow> [(i, i)] | _ \<Rightarrow> [])"
| "finditer f prev i (c # cs) = (case f prev (c # cs) of
     Some (Suc n) \<Rightarrow> (i, i + Suc n) # finditer f (Some (last (take (Suc n) (c # cs)))) (i + Suc n) (drop n cs)
   | Some 0 \<Rightarrow> (i, i) # finditer f (Some c) (i + 1) cs
   | None \<Rightarrow> finditer f (Some c) (i + 1) cs)"
  by pat_completeness auto
termination by (relation "measure (\<lambda>(_, _, _, s). length s)") auto

definition is_letter :: "char \<Rightarrow> bool" where
  "is_letter c \<longleftrightarrow> (let n = of_char c :: nat in 65 \<le> n \<and> n \<le> 90 \<or> 97 \<le> n \<and> n \<le> 122)"

definition is_alnum :: "char \<Rightarrow> bool" where
  "is_alnum c \<longleftrightarrow> is_letter c \<or> is_digit c"

definition is_word :: "char \<Rightarrow> bool" where
  "is_word c \<longleftrightarrow> is_alnum c \<or> c = CHR ''_''"

definition before :: "(char \<Rightarrow> bool) \<Rightarrow> char option \<Rightarrow> bool" where
  "before P prev = (case prev of None \<Rightarrow> False | Some c \<Rightarrow> P c)"

text \<open>\<open>(?<!\w)\<close>, a mark, a first character and at most \<open>n\<close> others.\<close>

definition tag_match :: "char \<Rightarrow> (char \<Rightarrow> bool) \<Rightarrow> (char \<Rightarrow> bool) \<Rightarrow> nat \<Rightarrow> char option \<Rightarrow> string \<Rightarrow> nat option" where
  "tag_match mark first others n prev s = (case s of
     c # d # cs \<Rightarrow> if \<not> before is_word prev \<and> c = mark \<and> first d
       then Some (2 + length (take n (takeWhile others cs))) else None
   | _ \<Rightarrow> None)"

definition hashtag_match :: "char option \<Rightarrow> string \<Rightarrow> nat option" where
  "hashtag_match = tag_match (CHR ''#'') is_letter is_word 31"

definition cashtag_match :: "char option \<Rightarrow> string \<Rightarrow> nat option" where
  "cashtag_match = tag_match (CHR ''$'') is_letter is_alnum 15"

definition user_match :: "char option \<Rightarrow> string \<Rightarrow> nat option" where
  "user_match = tag_match (CHR ''@'') is_word is_word 31"

definition url_char :: "char \<Rightarrow> bool" where
  "url_char c \<longleftrightarrow> \<not> is_space c \<and> c \<notin> set ''<>()''"

definition url_match :: "char option \<Rightarrow> string \<Rightarrow> nat option" where
  "url_match prev s = (let l = lower s;
       n = (if take 8 l = ''https://'' then 8 else if take 7 l = ''http://'' then 7 else 0);
       body = takeWhile url_char (drop n s)
     in if 0 < n \<and> body \<noteq> [] then Some (n + length body) else None)"

text \<open>\<open>(?<![\w$#])alias(?!\w)\<close>, case ignored.\<close>

definition alias_match :: "string \<Rightarrow> char option \<Rightarrow> string \<Rightarrow> nat option" where
  "alias_match alias prev s = (let n = length alias in
     if \<not> before (\<lambda>c. is_word c \<or> c = CHR ''$'' \<or> c = CHR ''#'') prev \<and> lower (take n s) = lower alias \<and>
        (drop n s = [] \<or> \<not> is_word (hd (drop n s))) then Some n else None)"

definition slice :: "nat \<Rightarrow> nat \<Rightarrow> string \<Rightarrow> string" where
  "slice a b s = take (b - a) (drop a s)"

definition spans :: "(char option \<Rightarrow> string \<Rightarrow> nat option) \<Rightarrow> string \<Rightarrow> (nat \<times> nat) list" where
  "spans f s = finditer f None 0 s"

text \<open>\<open>match.group(1)\<close> of the tags, \<open>match.group(0)\<close> of the addresses.\<close>

definition tags_in :: "(char option \<Rightarrow> string \<Rightarrow> nat option) \<Rightarrow> string \<Rightarrow> string list" where
  "tags_in f s = map (\<lambda>(a, b). slice (a + 1) b s) (spans f s)"

definition urls_in :: "string \<Rightarrow> string list" where
  "urls_in s = map (\<lambda>(a, b). rev (dropWhile (\<lambda>c. c \<in> set ''.,;:!?'') (rev (slice a b s)))) (spans url_match s)"

section \<open>The registry\<close>

record asset =
  at_asset_id :: string
  at_symbol :: string
  at_name :: string
  at_asset_type :: string
  at_exchange :: "string option"
  at_quote_asset :: "string option"
  at_metadata :: payload

record alias_candidate =
  al_asset_id :: string
  al_symbol :: string
  al_is_ambiguous :: bool

text \<open>The dictionary of aliases as the list of its entries, in the order in which they are added.\<close>

type_synonym registry = "(string \<times> alias_candidate) list"

definition asset_entries :: "(string \<Rightarrow> string) \<Rightarrow> string set \<Rightarrow> asset \<Rightarrow> registry" where
  "asset_entries nfkc ambiguous a =
    (let symbol = upper (at_symbol a);
         candidate = \<lparr>al_asset_id = at_asset_id a, al_symbol = symbol, al_is_ambiguous = (symbol \<in> ambiguous)\<rparr>;
         name = upper (strip (nfkc (at_name a)))
     in (symbol, candidate) # (if name \<noteq> [] \<and> name \<noteq> symbol then [(name, candidate)] else []))"

definition asset_registry :: "(string \<Rightarrow> string) \<Rightarrow> asset list \<Rightarrow> string list \<Rightarrow> registry" where
  "asset_registry nfkc assets ambiguous = concat (map (asset_entries nfkc (upper ` set ambiguous)) assets)"

definition alias_candidates :: "registry \<Rightarrow> string \<Rightarrow> alias_candidate list" where
  "alias_candidates reg alias = map snd (filter (\<lambda>(k, _). k = upper alias) reg)"

definition aliases :: "registry \<Rightarrow> string list" where
  "aliases reg = sort_key (\<lambda>a. - int (length a)) (remdups (map fst reg))"

section \<open>The resolver\<close>

type_synonym found = "(nat \<times> nat) \<times> string \<times> string"

text \<open>An assignment replaces an earlier entry of the same span, \<open>setdefault\<close> does not.\<close>

definition tag_entries :: "string \<Rightarrow> found list" where
  "tag_entries s = map (\<lambda>(a, b). ((a, b), slice (a + 1) b s, ''CASHTAG'')) (spans cashtag_match s) @
     map (\<lambda>(a, b). ((a, b), slice (a + 1) b s, ''HASHTAG'')) (spans hashtag_match s)"

definition bare_entries :: "string list \<Rightarrow> string \<Rightarrow> found list" where
  "bare_entries als s = concat (map (\<lambda>al. map (\<lambda>(a, b). ((a, b), slice a b s, ''BARE'')) (spans (alias_match al) s)) als)"

definition found_in :: "registry \<Rightarrow> string \<Rightarrow> found list" where
  "found_in reg s = (let entries = rev (tag_entries s) @ bare_entries (aliases reg) s
     in map (\<lambda>k. (k, the (map_of entries k))) (sort (remdups (map fst entries))))"

definition market_context :: "string \<Rightarrow> nat \<Rightarrow> nat \<Rightarrow> bool" where
  "market_context s a b = (let context = upper (slice (a - 24) (min (length s) (b + 24)) s)
     in list_ex (\<lambda>w. search (Rx_Text w) context) ['' STOCK'', '' TOKEN'', '' COIN'', '' CRYPTO'', '' SHARES''])"

definition ambiguous :: "alias_candidate list \<Rightarrow> bool" where
  "ambiguous cs \<longleftrightarrow> length cs > 1 \<or> list_ex al_is_ambiguous cs"

definition kind_confidence :: "string \<Rightarrow> real" where
  "kind_confidence kind = (if kind = ''CASHTAG'' then 98 / 100 else if kind = ''HASHTAG'' then 82 / 100 else 62 / 100)"

text \<open>Asset, status, confidence and reason of one occurrence.\<close>

definition resolution :: "alias_candidate list \<Rightarrow> string \<Rightarrow> bool \<Rightarrow> string option \<times> string \<times> real \<times> string" where
  "resolution cs kind context =
    (if cs = [] then (None, ''UNRESOLVED'', 0, ''ALIAS_NOT_IN_REGISTRY'')
     else if ambiguous cs \<and> kind \<noteq> ''CASHTAG'' \<and> \<not> (context \<and> length cs = 1)
     then (None, ''AMBIGUOUS'', if kind = ''BARE'' then 4 / 10 else 6 / 10, ''AMBIGUOUS_ALIAS_WITHOUT_MARKET_CONTEXT'')
     else if length cs > 1 then (None, ''AMBIGUOUS'', 7 / 10, ''MULTIPLE_EXACT_CANDIDATES'')
     else (Some (al_asset_id (hd cs)), ''RESOLVED'',
       if context \<and> kind = ''BARE'' then 88 / 100 else kind_confidence kind,
       if kind = ''CASHTAG'' then ''EXACT_CASHTAG'' else if context then ''MARKET_CONTEXT_ALIAS'' else ''UNIQUE_REGISTRY_ALIAS''))"

definition mention_of :: "registry \<Rightarrow> string \<Rightarrow> string \<Rightarrow> string \<Rightarrow> string \<Rightarrow> found \<Rightarrow> asset_mention" where
  "mention_of reg version post_id body normalized = (\<lambda>((a, b), alias, kind).
     let cs = alias_candidates reg alias
     in case resolution cs kind (market_context normalized a b) of (asset_id, status, confidence, reason) \<Rightarrow>
       \<lparr>am_post_id = post_id, am_asset_id = asset_id, am_mention_text = slice a b body, am_start_offset = int a,
        am_end_offset = int b, am_confidence = confidence, am_resolver_version = version,
        am_resolution_status = status, am_candidate_asset_ids = map al_asset_id cs, am_resolution_reason = reason\<rparr>)"

definition resolve :: "(string \<Rightarrow> string) \<Rightarrow> registry \<Rightarrow> string \<Rightarrow> string \<Rightarrow> string \<Rightarrow> asset_mention list" where
  "resolve nfkc reg version post_id body =
    (let normalized = nfkc body in map (mention_of reg version post_id body normalized) (found_in reg normalized))"

section \<open>Matches are matches\<close>

text \<open>Every span that a search reports is a match of the text there, seen with the character before it.\<close>

definition char_before :: "string \<Rightarrow> char option" where
  "char_before u = (if u = [] then None else Some (last u))"

lemma finditer_sound:
  "(a, b) \<in> set (finditer f (char_before u) (length u) s) \<Longrightarrow>
    length u \<le> a \<and> a \<le> b \<and> f (char_before (take a (u @ s))) (drop a (u @ s)) = Some (b - a)"
proof (induction "length s" arbitrary: u s rule: less_induct)
  case less
  note take_append [simp del] drop_append [simp del]
  show ?case
  proof (cases s)
    case Nil
    then show ?thesis using less.prems by (auto split: option.splits nat.splits)
  next
    case (Cons c cs)
    have here: "f (char_before (take (length u) (u @ s))) (drop (length u) (u @ s)) = f (char_before u) (c # cs)"
      by (simp add: Cons take_append drop_append)
    have one: ?thesis if "(a, b) \<in> set (finditer f (Some c) (length u + 1) cs)"
    proof -
      have "char_before (u @ [c]) = Some c" "length (u @ [c]) = length u + 1" by (simp_all add: char_before_def)
      have all: "(u @ [c]) @ cs = u @ s" by (simp add: Cons)
      from less.hyps [of cs "u @ [c]", OF _ that [folded \<open>char_before (u @ [c]) = Some c\<close> \<open>length (u @ [c]) = length u + 1\<close>]]
      have "length (u @ [c]) \<le> a \<and> a \<le> b \<and> f (char_before (take a (u @ s))) (drop a (u @ s)) = Some (b - a)"
        unfolding all by (simp add: Cons del: take_append drop_append)
      then show ?thesis by (simp del: take_append drop_append)
    qed
    show ?thesis
    proof (cases "f (char_before u) (c # cs)")
      case None
      then show ?thesis using less.prems one by (simp add: Cons)
    next
      case (Some k)
      show ?thesis
      proof (cases k)
        case 0
        then show ?thesis using less.prems one here Some by (auto simp: Cons)
      next
        case (Suc n)
        let ?w = "take (Suc n) (c # cs)"
        consider "(a, b) = (length u, length u + Suc n)"
          | "(a, b) \<in> set (finditer f (Some (last ?w)) (length u + Suc n) (drop n cs))"
          using less.prems Some Suc by (auto simp: Cons)
        then show ?thesis
        proof cases
          case 1
          then show ?thesis using here Some Suc by simp
        next
          case 2
          show ?thesis
          proof (cases "n \<le> length cs")
            case True
            then have w: "char_before (u @ ?w) = Some (last ?w)" "length (u @ ?w) = length u + Suc n"
              by (simp_all add: char_before_def)
            have all: "(u @ ?w) @ drop n cs = u @ s" by (simp add: Cons)
            have "length (u @ ?w) \<le> a \<and> a \<le> b \<and>
                f (char_before (take a ((u @ ?w) @ drop n cs))) (drop a ((u @ ?w) @ drop n cs)) = Some (b - a)"
              using less.hyps [of "drop n cs" "u @ ?w"] 2 w by (simp add: Cons)
            then show ?thesis using w(2) unfolding all by simp
          next
            case False
            then have "drop n cs = []" by simp
            with 2 have "(a, b) = (length u + Suc n, length u + Suc n)" "f (Some (last ?w)) [] = Some 0"
              by (auto split: option.splits nat.splits)
            moreover have "char_before (u @ s) = Some (last ?w)" using False by (simp add: char_before_def Cons)
            ultimately show ?thesis using False by (simp add: Cons)
          qed
        qed
      qed
    qed
  qed
qed

lemma spans_sound:
  assumes "(a, b) \<in> set (spans f s)"
  shows "a \<le> b" "f (char_before (take a s)) (drop a s) = Some (b - a)"
  using finditer_sound [of a b f "[]" s] assms by (simp_all add: spans_def char_before_def)

definition bounded :: "(char option \<Rightarrow> string \<Rightarrow> nat option) \<Rightarrow> bool" where
  "bounded f \<longleftrightarrow> (\<forall>prev s n. f prev s = Some n \<longrightarrow> n \<le> length s)"

lemma bounded_tag: "bounded (tag_match mark first others n)"
  unfolding bounded_def tag_match_def
  by (auto split: list.splits if_splits intro: order_trans [OF min.cobounded1] simp: length_takeWhile_le)

lemma bounded_tags: "bounded cashtag_match" "bounded hashtag_match"
  unfolding cashtag_match_def hashtag_match_def by (rule bounded_tag)+

lemma bounded_alias: "bounded (alias_match al)"
proof -
  have "length al \<le> length s" if "lower (take (length al) s) = lower al" for s
    using arg_cong [OF that, of length] by (simp add: lower_def min_def split: if_splits)
  then show ?thesis by (auto simp: bounded_def alias_match_def Let_def split: if_splits)
qed

lemma finditer_le: "bounded f \<Longrightarrow> (a, b) \<in> set (finditer f prev i s) \<Longrightarrow> b \<le> i + length s"
proof (induction f prev i s rule: finditer.induct)
  case (2 f prev i c cs)
  show ?case
  proof (cases "f prev (c # cs)")
    case None
    then show ?thesis using 2 by fastforce
  next
    case (Some k)
    then have "k \<le> length (c # cs)" using 2(4) unfolding bounded_def by blast
    then show ?thesis using 2 Some by (cases k) fastforce+
  qed
qed (auto split: option.splits nat.splits)

lemma spans_le: "bounded f \<Longrightarrow> (a, b) \<in> set (spans f s) \<Longrightarrow> b \<le> length s"
  using finditer_le [of f a b None 0 s] by (simp add: spans_def)

section \<open>What a mention guarantees\<close>

definition found_ok :: "registry \<Rightarrow> string \<Rightarrow> found \<Rightarrow> bool" where
  "found_ok reg s = (\<lambda>((a, b), alias, kind). a \<le> b \<and> b \<le> length s \<and> alias \<in> {slice a b s, slice (a + 1) b s} \<and>
     kind \<in> {''CASHTAG'', ''HASHTAG'', ''BARE''} \<and> (kind = ''CASHTAG'' \<longrightarrow> take 1 (drop a s) = ''$''))"

lemma cashtag_mark: "cashtag_match prev s = Some n \<Longrightarrow> take 1 s = ''$''"
  by (auto simp: cashtag_match_def tag_match_def split: list.splits if_splits)

lemma found_in_ok: "list_all (found_ok reg s) (found_in reg s)"
proof -
  have cash: "found_ok reg s ((a, b), slice (a + 1) b s, ''CASHTAG'')" if "(a, b) \<in> set (spans cashtag_match s)" for a b
    using spans_sound [OF that] cashtag_mark spans_le [OF bounded_tags(1) that]
    by (simp add: found_ok_def)
  have hash: "found_ok reg s ((a, b), slice (a + 1) b s, ''HASHTAG'')" if "(a, b) \<in> set (spans hashtag_match s)" for a b
    using spans_sound(1) [OF that] spans_le [OF bounded_tags(2) that] by (simp add: found_ok_def)
  have tags: "list_all (found_ok reg s) (tag_entries s)"
    unfolding tag_entries_def list_all_iff using cash hash by auto
  have bare: "list_all (found_ok reg s) (bare_entries als s)" for als
    using spans_sound(1) [of _ _ "alias_match _" s] spans_le [OF bounded_alias, where s = s]
    unfolding bare_entries_def list_all_iff by (auto simp: found_ok_def)
  show ?thesis
    unfolding list_all_iff
  proof
    fix x assume "x \<in> set (found_in reg s)"
    then obtain k where k: "x = (k, the (map_of (rev (tag_entries s) @ bare_entries (aliases reg) s) k))"
      "k \<in> fst ` set (rev (tag_entries s) @ bare_entries (aliases reg) s)" by (auto simp: found_in_def Let_def)
    then obtain v where v: "map_of (rev (tag_entries s) @ bare_entries (aliases reg) s) k = Some v"
      by (metis map_of_eq_None_iff not_None_eq)
    then have "(k, v) \<in> set (tag_entries s) \<union> set (bare_entries (aliases reg) s)" using map_of_SomeD by fastforce
    moreover have "x = (k, v)" unfolding k(1) v by simp
    ultimately show "found_ok reg s x" using tags bare [of "aliases reg"] by (auto simp: list_all_iff)
  qed
qed

lemma found_in_sorted: "sorted_wrt (<) (map fst (found_in reg s))"
  by (simp add: found_in_def Let_def comp_def strict_sorted_iff)

definition names_of :: "(string \<Rightarrow> string) \<Rightarrow> asset \<Rightarrow> string set" where
  "names_of nfkc x = {upper (at_symbol x), upper (strip (nfkc (at_name x)))}"

lemma candidates_registry:
  "c \<in> set (alias_candidates (asset_registry nfkc assets amb) alias) \<Longrightarrow> \<exists>x \<in> set assets. al_asset_id c = at_asset_id x \<and>
     upper alias \<in> names_of nfkc x \<and> (al_is_ambiguous c \<longleftrightarrow> upper (at_symbol x) \<in> upper ` set amb)"
  by (force simp: alias_candidates_def asset_registry_def asset_entries_def names_of_def Let_def split: if_splits)

text \<open>A resolved mention names the one asset that carries the occurrence as its symbol or name.\<close>

definition mention_ok :: "(string \<Rightarrow> string) \<Rightarrow> asset list \<Rightarrow> string list \<Rightarrow> string \<Rightarrow> string \<Rightarrow> asset_mention \<Rightarrow> bool" where
  "mention_ok nfkc assets amb body t m \<longleftrightarrow> (\<exists>a b. am_start_offset m = int a \<and> am_end_offset m = int b \<and> a \<le> b \<and> b \<le> length t \<and>
     am_mention_text m = slice a b body \<and> unit_range (am_confidence m) \<and>
     (am_asset_id m = None \<longleftrightarrow> am_resolution_status m \<noteq> ''RESOLVED'') \<and>
     (\<forall>i. am_asset_id m = Some i \<longrightarrow> am_candidate_asset_ids m = [i] \<and> 62 / 100 \<le> am_confidence m \<and>
       (\<exists>x \<in> set assets. at_asset_id x = i \<and> (\<exists>w \<in> {slice a b t, slice (a + 1) b t}. upper w \<in> names_of nfkc x) \<and>
         (upper (at_symbol x) \<in> upper ` set amb \<longrightarrow> take 1 (drop a t) = ''$'' \<or> market_context t a b))))"

lemma resolution_facts:
  assumes "resolution cs kind context = (i, status, confidence, reason)"
  shows "unit_range confidence" "i = None \<longleftrightarrow> status \<noteq> ''RESOLVED''"
    "i = Some j \<Longrightarrow> \<exists>c. cs = [c] \<and> al_asset_id c = j \<and> 62 / 100 \<le> confidence \<and> (al_is_ambiguous c \<longrightarrow> kind = ''CASHTAG'' \<or> context)"
proof -
  show "unit_range confidence" "i = None \<longleftrightarrow> status \<noteq> ''RESOLVED''"
    using assms by (auto simp: resolution_def unit_range_def kind_confidence_def split: if_splits)
  assume "i = Some j"
  then show "\<exists>c. cs = [c] \<and> al_asset_id c = j \<and> 62 / 100 \<le> confidence \<and> (al_is_ambiguous c \<longrightarrow> kind = ''CASHTAG'' \<or> context)"
    using assms by (cases cs rule: list.exhaust; cases "tl cs")
      (auto simp: resolution_def kind_confidence_def ambiguous_def split: if_splits)
qed

lemma mention_of_ok:
  assumes "found_ok (asset_registry nfkc assets amb) t x"
  shows "mention_ok nfkc assets amb body t (mention_of (asset_registry nfkc assets amb) version post_id body t x)"
proof -
  let ?reg = "asset_registry nfkc assets amb"
  obtain a b al kind where x: "x = ((a, b), al, kind)" by (metis prod.collapse)
  obtain i st confidence reason where r:
    "resolution (alias_candidates ?reg al) kind (market_context t a b) = (i, st, confidence, reason)" by (metis prod_cases4)
  note facts = resolution_facts [OF r]
  have ok: "a \<le> b" "b \<le> length t" "al \<in> {slice a b t, slice (a + 1) b t}" "kind = ''CASHTAG'' \<longrightarrow> take 1 (drop a t) = ''$''"
    using assms by (simp_all add: found_ok_def x)
  have some: "map al_asset_id (alias_candidates ?reg al) = [j] \<and> 62 / 100 \<le> confidence \<and>
      (\<exists>x \<in> set assets. at_asset_id x = j \<and> (\<exists>w \<in> {slice a b t, slice (a + 1) b t}. upper w \<in> names_of nfkc x) \<and>
         (upper (at_symbol x) \<in> upper ` set amb \<longrightarrow> take 1 (drop a t) = ''$'' \<or> market_context t a b))" if j: "i = Some j" for j
  proof -
    obtain c where c: "alias_candidates ?reg al = [c]" "al_asset_id c = j" "62 / 100 \<le> confidence"
      "al_is_ambiguous c \<longrightarrow> kind = ''CASHTAG'' \<or> market_context t a b" using facts(3) [OF j] by blast
    obtain y where "y \<in> set assets" "al_asset_id c = at_asset_id y" "upper al \<in> names_of nfkc y"
      "al_is_ambiguous c \<longleftrightarrow> upper (at_symbol y) \<in> upper ` set amb"
      using candidates_registry [of c nfkc assets amb al] c(1) by auto
    then show ?thesis using c ok(3,4) by auto
  qed
  show ?thesis
    unfolding mention_ok_def
    by (intro exI [of _ a] exI [of _ b]) (use ok(1,2) facts(1,2) some in \<open>simp add: x mention_of_def r Let_def\<close>)
qed


end
