(* ===== verification/Social_Ingestion.thy ===== *)
theory Social_Ingestion
  imports Social_Text Market_Ingestion
begin

text \<open>
  Social ingestion (\<open>ingestion/social.py\<close>): the replay provider, pseudonymization, the parsing of a post,
  and \<open>SocialIngestionService.ingest\<close> with its guardrails, the dedupe claim, the batch of three
  events, and what it undoes when a step raises. The validation of the raw record, the HMAC, NFKC and
  \<open>str\<close> are functions of a codec record; times in JSON payloads appear as times.
\<close>

section \<open>Posts\<close>

record raw_social_post =
  rp_source_post_id :: string
  rp_platform :: string
  rp_raw_author_id :: string
  rp_event_time :: datetime
  rp_text :: string
  rp_language :: "string option"
  rp_reply_to :: "string option"
  rp_repost_of :: "string option"
  rp_engagement :: payload

record social_codec =
  sk_raw :: "payload \<Rightarrow> raw_social_post res"
  sk_nfkc :: "string \<Rightarrow> string"
  sk_hmac :: "string \<Rightarrow> string \<Rightarrow> string"
  sk_str :: "py_value \<Rightarrow> string"
  sk_text_length :: "payload \<Rightarrow> nat"

definition raw_dump :: "raw_social_post \<Rightarrow> payload" where
  "raw_dump r = [(''source_post_id'', PStr (rp_source_post_id r)), (''platform'', PStr (rp_platform r)),
     (''raw_author_id'', PStr (rp_raw_author_id r)), (''event_time'', PTime (rp_event_time r)), (''text'', PStr (rp_text r)),
     (''language'', opt_str (rp_language r)), (''reply_to'', opt_str (rp_reply_to r)), (''repost_of'', opt_str (rp_repost_of r)),
     (''engagement'', PDict (rp_engagement r))]"

definition post_dump :: "social_post \<Rightarrow> payload" where
  "post_dump p = [(''post_id'', PStr (sp_post_id p)), (''platform'', PStr (sp_platform p)), (''author_id'', PStr (sp_author_id p)),
     (''pseudonym_key_version'', PInt (sp_pseudonym_key_version p)), (''event_time'', PTime (sp_event_time p)),
     (''text'', PStr (sp_text p)), (''language'', opt_str (sp_language p)), (''hashtags'', str_list (sp_hashtags p)),
     (''cashtags'', str_list (sp_cashtags p)), (''user_mentions'', str_list (sp_user_mentions p)), (''urls'', str_list (sp_urls p)),
     (''reply_to'', opt_str (sp_reply_to p)), (''repost_of'', opt_str (sp_repost_of p)), (''engagement'', PDict (sp_engagement p)),
     (''source_metadata'', PDict (sp_source_metadata p))]"

definition mention_dump :: "asset_mention \<Rightarrow> py_value" where
  "mention_dump m = PDict [(''post_id'', PStr (am_post_id m)), (''asset_id'', opt_str (am_asset_id m)),
     (''mention_text'', PStr (am_mention_text m)), (''start_offset'', PInt (am_start_offset m)), (''end_offset'', PInt (am_end_offset m)),
     (''confidence'', PFloat (am_confidence m)), (''resolver_version'', PStr (am_resolver_version m)),
     (''resolution_status'', PStr (am_resolution_status m)), (''candidate_asset_ids'', str_list (am_candidate_asset_ids m)),
     (''resolution_reason'', PStr (am_resolution_reason m))]"

section \<open>Pseudonyms\<close>

record pseudonymizer =
  pz_secret :: string
  pz_key_version :: int

definition build_pseudonymizer :: "string \<Rightarrow> int \<Rightarrow> pseudonymizer res" where
  "build_pseudonymizer secret version =
    (if length secret < 16 then Inl (ValueError ''pseudonymization secret must contain at least 16 characters'')
     else Inr \<lparr>pz_secret = secret, pz_key_version = version\<rparr>)"

definition pseudonymize :: "social_codec \<Rightarrow> pseudonymizer \<Rightarrow> string \<Rightarrow> string \<Rightarrow> string" where
  "pseudonymize cod pz platform author = ''actor_'' @ take 32 (sk_hmac cod (pz_secret pz) (platform @ '':'' @ author))"

text \<open>\<open>parse_social_post\<close>; the record rejects a key version below one.\<close>

definition parse_social_post :: "py_env \<Rightarrow> social_codec \<Rightarrow> pseudonymizer \<Rightarrow> string \<Rightarrow> string \<Rightarrow> raw_social_post \<Rightarrow> social_post res" where
  "parse_social_post env cod pz source scope r =
    (let t = sk_nfkc cod (rp_text r)
     in if pz_key_version pz < 1 then Inl (ValidationError ''pseudonym_key_version'')
        else Inr \<lparr>sp_post_id = env_uuid5 env (''social-post:'' @ scope @ '':'' @ source @ '':'' @ rp_source_post_id r),
          sp_platform = rp_platform r, sp_author_id = pseudonymize cod pz (rp_platform r) (rp_raw_author_id r),
          sp_pseudonym_key_version = pz_key_version pz, sp_event_time = rp_event_time r, sp_text = t,
          sp_language = rp_language r, sp_hashtags = map upper (tags_in hashtag_match t),
          sp_cashtags = map upper (tags_in cashtag_match t), sp_user_mentions = tags_in user_match t, sp_urls = urls_in t,
          sp_reply_to = rp_reply_to r, sp_repost_of = rp_repost_of r, sp_engagement = rp_engagement r,
          sp_source_metadata = [(''source'', PStr source), (''source_post_id'', PStr (rp_source_post_id r))]\<rparr>)"

section \<open>The replay provider\<close>

definition order_posts :: "raw_social_post list \<Rightarrow> raw_social_post list" where
  "order_posts = sort_key (\<lambda>r. (rp_event_time r, rp_source_post_id r))"

definition social_replay_event ::
    "py_env \<Rightarrow> string \<Rightarrow> (nat \<Rightarrow> datetime) \<Rightarrow> (nat \<Rightarrow> string) \<Rightarrow> string option \<Rightarrow> nat \<Rightarrow> raw_social_post \<Rightarrow> market_event res" where
  "social_replay_event env source clock correlation session position r =
    (let session_id = (case session of None \<Rightarrow> ''standalone'' | Some s \<Rightarrow> if s = [] then ''standalone'' else s);
         delivery = env_uuid5 env (source @ '':'' @ session_id @ '':'' @ rp_source_post_id r)
     in case build_replay (session \<noteq> None) session of
          Inl e \<Rightarrow> Inl e
        | Inr replay \<Rightarrow> build_event
           \<lparr>ce_event_id = delivery, ce_origin_event_id = Some (source @ '':'' @ rp_source_post_id r),
            ce_delivery_event_id = Some delivery, ce_event_type = ev_social_post_received, ce_schema_version = 1,
            ce_source = source, ce_source_event_id = rp_source_post_id r, ce_source_sequence = Some (int position),
            ce_asset_id = None, ce_event_time = rp_event_time r,
            ce_ingested_at = (if session \<noteq> None then rp_event_time r else clock position), ce_processed_at = None,
            ce_partition_key = rp_platform r, ce_replay = replay,
            ce_trace = \<lparr>tm_correlation_id = correlation position, tm_causation_id = None\<rparr>, ce_payload = raw_dump r\<rparr>)"

definition social_replay_stream ::
    "py_env \<Rightarrow> string \<Rightarrow> (nat \<Rightarrow> datetime) \<Rightarrow> (nat \<Rightarrow> string) \<Rightarrow> string option \<Rightarrow> raw_social_post list \<Rightarrow> market_event list \<times> py_exn option" where
  "social_replay_stream env source clock correlation session rs =
     replay_from (social_replay_event env source clock correlation session) 1 (order_posts rs)"

section \<open>The service\<close>

record social_service =
  so_env :: py_env
  so_codec :: social_codec
  so_pseudonymizer :: pseudonymizer
  so_registry :: registry
  so_resolver_version :: string
  so_gap_threshold :: int

definition social_guard :: "social_codec \<Rightarrow> datetime \<Rightarrow> market_event \<Rightarrow> bool" where
  "social_guard cod now e \<longleftrightarrow>
     gd_accepted (inspect_ingestion_payload (sk_text_length cod (ce_payload e)) now (ce_event_time e) 1) \<and>
     gd_accepted (inspect_social_payload (sk_str cod) (ce_payload e))"

definition sanitize :: "raw_social_post \<Rightarrow> social_post \<Rightarrow> payload" where
  "sanitize r p = filter (\<lambda>(k, _). k \<noteq> ''raw_author_id'') (raw_dump r) @
     [(''pseudonymous_author_id'', PStr (sp_author_id p)), (''pseudonym_key_version'', PInt (sp_pseudonym_key_version p))]"

text \<open>An event derived from the one received; \<open>ending\<close> names what it holds.\<close>

definition derived_event :: "py_env \<Rightarrow> market_event \<Rightarrow> string \<Rightarrow> event_type \<Rightarrow> string option \<Rightarrow> datetime \<Rightarrow> string \<Rightarrow> string \<Rightarrow> payload \<Rightarrow> market_event res" where
  "derived_event env e ending kind asset processed part_key causation p =
    (let i = env_uuid5 env (ce_event_id e @ ending)
     in build_event \<lparr>ce_event_id = i,
       ce_origin_event_id = Some ((case ce_origin_event_id e of None \<Rightarrow> ''None'' | Some o' \<Rightarrow> o') @ ending),
       ce_delivery_event_id = Some i, ce_event_type = kind, ce_schema_version = 1, ce_source = ce_source e,
       ce_source_event_id = ce_source_event_id e @ ending, ce_source_sequence = ce_source_sequence e, ce_asset_id = asset,
       ce_event_time = ce_event_time e, ce_ingested_at = ce_ingested_at e, ce_processed_at = Some processed,
       ce_partition_key = part_key, ce_replay = ce_replay e,
       ce_trace = \<lparr>tm_correlation_id = tm_correlation_id (ce_trace e), tm_causation_id = Some causation\<rparr>, ce_payload = p\<rparr>)"

text \<open>\<open>next((mention.asset_id for mention in mentions if mention.asset_id), None)\<close>.\<close>

fun first_asset :: "asset_mention list \<Rightarrow> string option" where
  "first_asset [] = None"
| "first_asset (m # ms) = (case am_asset_id m of Some (c # cs) \<Rightarrow> Some (c # cs) | _ \<Rightarrow> first_asset ms)"

text \<open>The three events of a post, with the two readings of the clock.\<close>

definition social_events :: "social_service \<Rightarrow> datetime \<times> datetime \<Rightarrow> market_event \<Rightarrow> raw_social_post
    \<Rightarrow> (social_post \<times> asset_mention list \<times> (string \<times> market_event) list) res" where
  "social_events sv clock e r =
    (case parse_social_post (so_env sv) (so_codec sv) (so_pseudonymizer sv) (ce_source e) (scope_of_replay (ce_replay e)) r of
       Inl x \<Rightarrow> Inl x
     | Inr p \<Rightarrow>
       let ms = resolve (sk_nfkc (so_codec sv)) (so_registry sv) (so_resolver_version sv) (sp_post_id p) (sp_text p);
           safe = e\<lparr>ce_payload := sanitize r p\<rparr>
       in case derived_event (so_env sv) e '':normalized'' ev_social_post_normalized None (fst clock) (sp_post_id p)
            (ce_event_id e) (post_dump p) of
            Inl x \<Rightarrow> Inl x
          | Inr normalized \<Rightarrow>
         (case derived_event (so_env sv) e '':mentions'' ev_social_asset_mention_detected (first_asset ms) (snd clock)
            (sp_post_id p) (ce_event_id normalized)
            [(''post_id'', PStr (sp_post_id p)), (''mentions'', PList (map mention_dump ms))] of
            Inl x \<Rightarrow> Inl x
          | Inr mention \<Rightarrow> Inr (p, ms, [(''social.posts.raw.v1'', safe), (''social.posts.normalized.v1'', normalized),
              (''social.mentions.v1'', mention)])))"

definition social_observation :: "market_event \<Rightarrow> social_post \<Rightarrow> observation" where
  "social_observation e p = \<lparr>os_source = ce_source e, os_asset_id = sp_platform p, os_event_time = sp_event_time p,
     os_ingested_at = ce_ingested_at e, os_sequence = ce_source_sequence e, os_is_orderbook = False\<rparr>"

text \<open>The body of the \<open>try\<close>: publish, observe, write the two keys.\<close>

definition social_body :: "int \<Rightarrow> faults \<Rightarrow> market_event \<Rightarrow> social_post \<Rightarrow> asset_mention list \<Rightarrow> (string \<times> market_event) list
    \<Rightarrow> ingestion_state \<Rightarrow> bool res \<times> ingestion_state" where
  "social_body th faults e p ms events st =
    (case faults step_publish of
       Some x \<Rightarrow> (Inl x, st)
     | None \<Rightarrow>
    (let (q, tr) = observe th (social_observation e p) (mi_tracker st);
         st1 = st\<lparr>mi_published := publish_batch events (mi_published st), mi_tracker := tr\<rparr>
     in case faults step_latest of
       Some x \<Rightarrow> (Inl x, st1)
     | None \<Rightarrow>
    (let st2 = st1\<lparr>mi_store := set_json (''latest:social:'' @ sp_platform p)
           (PDict [(''post'', PDict (post_dump p)), (''mentions'', PList (map mention_dump ms))]) (mi_store st1)\<rparr>
     in case faults step_health of
       Some x \<Rightarrow> (Inl x, st2)
     | None \<Rightarrow> (Inr True, st2\<lparr>mi_store := set_json (''source-health:social:'' @ ce_source e @ '':'' @ sp_platform p)
           (quality_dict q) (mi_store st2)\<rparr>))))"

text \<open>What follows the claim of the key. Only the body of the \<open>try\<close> gives the key back when it raises.\<close>

definition social_claimed :: "social_service \<Rightarrow> faults \<Rightarrow> datetime \<times> datetime \<Rightarrow> market_event \<Rightarrow> raw_social_post \<Rightarrow> string
    \<Rightarrow> ingestion_state \<Rightarrow> bool res \<times> ingestion_state" where
  "social_claimed sv faults clock e r key st =
    (case social_events sv clock e r of
       Inl x \<Rightarrow> (Inl x, st)
     | Inr (p, ms, events) \<Rightarrow> (case social_body (so_gap_threshold sv) faults e p ms events st of
         (Inr b, st1) \<Rightarrow> (Inr b, st1)
       | (Inl x, st1) \<Rightarrow> (Inl x, if caught x then st1\<lparr>mi_store := store_release key (mi_store st1)\<rparr> else st1)))"

definition social_ingest :: "social_service \<Rightarrow> datetime \<Rightarrow> faults \<Rightarrow> datetime \<times> datetime \<Rightarrow> market_event \<Rightarrow> ingestion_state
    \<Rightarrow> bool res \<times> ingestion_state" where
  "social_ingest sv now faults clock e st =
    (if ce_event_type e \<noteq> ev_social_post_received
     then (Inl (ValueError (''unsupported social event type: '' @ event_type_value (ce_event_type e))), st)
     else if \<not> social_guard (so_codec sv) now e then (Inr False, st)
     else case sk_raw (so_codec sv) (ce_payload e) of
       Inl x \<Rightarrow> (Inl x, st)
     | Inr r \<Rightarrow> (case dedupe_key e of
         Inl x \<Rightarrow> (Inl x, st)
       | Inr key \<Rightarrow> (case store_claim key (mi_store st) of
           (False, s) \<Rightarrow> (Inr False, st\<lparr>mi_store := s\<rparr>)
         | (True, s) \<Rightarrow> social_claimed sv faults clock e r key (st\<lparr>mi_store := s\<rparr>))))"

record social_delivery =
  sd_now :: datetime
  sd_clock :: "datetime \<times> datetime"
  sd_faults :: faults
  sd_event :: market_event

definition social_deliver :: "social_service \<Rightarrow> social_delivery \<Rightarrow> ingestion_state \<Rightarrow> bool res \<times> ingestion_state" where
  "social_deliver sv d = social_ingest sv (sd_now d) (sd_faults d) (sd_clock d) (sd_event d)"

end
