(* ===== verification/Json_Dump.thy ===== *)
theory Json_Dump
  imports Guardrails Json_Text "HOL-Library.List_Lexorder" "HOL-Library.Char_ord"
begin

text \<open>
  \<open>json.dumps(value, sort_keys=True, separators=(",", ":"), default=str)\<close> for the values of a JSON
  payload, and the proof that the text determines the value up to the order of keys. A time stamp is
  written as its \<open>str\<close>. The text of a float is a parameter, \<open>je_float\<close>, as are the JSON text pydantic
  writes for a time and \<open>str\<close> and \<open>float\<close> on values that are neither strings nor numbers.
\<close>

record json_env = py_env +
  je_float :: "real \<Rightarrow> string"
  je_json_time :: "datetime \<Rightarrow> string"
  je_str :: "py_value \<Rightarrow> string"
  je_parse_float :: "string \<Rightarrow> real option"

primrec json_dump :: "'a json_env_scheme \<Rightarrow> py_value \<Rightarrow> string" where
  "json_dump e PNone = ''null''"
| "json_dump e (PBool b) = (if b then ''true'' else ''false'')"
| "json_dump e (PInt i) = show_int i"
| "json_dump e (PFloat r) = je_float e r"
| "json_dump e (PStr s) = json_string s"
| "json_dump e (PList vs) = ''['' @ join '','' (map (json_dump e) vs) @ '']''"
| "json_dump e (PDict kvs) = json_object (sort_key fst (map (map_prod id (json_dump e)) kvs))"
| "json_dump e (PTime t) = json_string (env_str_datetime e t)"

text \<open>What the text keeps of a value: dictionaries with their keys sorted, time stamps as text.\<close>

primrec canon :: "'a json_env_scheme \<Rightarrow> py_value \<Rightarrow> py_value" where
  "canon e PNone = PNone"
| "canon e (PBool b) = PBool b"
| "canon e (PInt i) = PInt i"
| "canon e (PFloat r) = PFloat r"
| "canon e (PStr s) = PStr s"
| "canon e (PList vs) = PList (map (canon e) vs)"
| "canon e (PDict kvs) = PDict (sort_key fst (map (map_prod id (canon e)) kvs))"
| "canon e (PTime t) = PStr (env_str_datetime e t)"

primrec floats_of :: "py_value \<Rightarrow> real set" where
  "floats_of PNone = {}"
| "floats_of (PBool b) = {}"
| "floats_of (PInt i) = {}"
| "floats_of (PFloat r) = {r}"
| "floats_of (PStr s) = {}"
| "floats_of (PList vs) = \<Union> (set (map floats_of vs))"
| "floats_of (PDict kvs) = \<Union> (set (map (\<lambda>(k, s). s) (map (map_prod id floats_of) kvs)))"
| "floats_of (PTime t) = {}"

definition canonical_hash :: "'a json_env_scheme \<Rightarrow> py_value \<Rightarrow> string" where
  "canonical_hash e v = env_sha256 e (json_dump e v)"

section \<open>Number texts\<close>

text \<open>The characters of a number, and what can follow a value: nothing, a comma or a closing bracket.\<close>

definition number_char :: "char \<Rightarrow> bool" where
  "number_char c \<longleftrightarrow> is_digit c \<or> c = CHR ''-'' \<or> c = CHR ''+'' \<or> c = CHR ''.'' \<or> c = CHR ''e''"

definition delimited :: "string \<Rightarrow> bool" where
  "delimited x \<longleftrightarrow> x = [] \<or> hd x \<in> set '',]}''"

text \<open>Documented behaviour of \<open>repr\<close> on the floats of a set: a number with a fraction or an exponent,
  different for different floats.\<close>

definition float_text :: "(real \<Rightarrow> string) \<Rightarrow> real set \<Rightarrow> bool" where
  "float_text f A \<longleftrightarrow> inj_on f A \<and> (\<forall>r \<in> A. list_all number_char (f r) \<and> (CHR ''.'' \<in> set (f r) \<or> CHR ''e'' \<in> set (f r)))"

lemma delimited_number: "delimited x \<Longrightarrow> x = [] \<or> \<not> number_char (hd x)"
  by (auto simp: delimited_def number_char_def is_digit_def)

lemma number_split:
  assumes "list_all number_char s" "list_all number_char t" "delimited x" "delimited y" "s @ x = t @ y"
  shows "s = t \<and> x = y"
proof -
  have "takeWhile number_char (w @ z) = w" if "list_all number_char w" "delimited z" for w z
    using that delimited_number [of z] by (subst takeWhile_append2) (auto simp: list_all_iff takeWhile_eq_Nil_iff)
  with assms have "s = t" by metis
  with assms(5) show ?thesis by simp
qed

lemma show_int_chars: "list_all number_char (show_int i)" "CHR ''.'' \<notin> set (show_int i)" "CHR ''e'' \<notin> set (show_int i)" "show_int i \<noteq> []"
proof -
  have d: "list_all is_digit (show_nat n)" for n using show_nat_digits [of n] by (simp add: list_all_iff)
  then have "list_all number_char (show_nat n)" for n by (auto simp: list_all_iff number_char_def)
  then show "list_all number_char (show_int i)" by (simp add: show_int_def number_char_def)
  have "\<not> is_digit CHR ''.''" "\<not> is_digit CHR ''e''" by (simp_all add: is_digit_def)
  then have "CHR ''.'' \<notin> set (show_nat n)" "CHR ''e'' \<notin> set (show_nat n)" for n using d [of n] by (auto simp: list_all_iff)
  then show "CHR ''.'' \<notin> set (show_int i)" "CHR ''e'' \<notin> set (show_int i)" by (auto simp: show_int_def)
  have "show_nat n \<noteq> []" for n by (simp add: show_nat.simps [of n])
  then show "show_int i \<noteq> []" by (simp add: show_int_def)
qed

lemma show_int_inject: "show_int i = show_int j \<Longrightarrow> i = j"
proof -
  have minus: "show_nat n \<noteq> CHR ''-'' # s" for n s
    using show_nat_digits [of n] by (auto simp: is_digit_def)
  assume "show_int i = show_int j"
  then show "i = j" using minus minus [symmetric] by (auto simp: show_int_def split: if_splits)
qed

section \<open>The text determines the value\<close>

lemma tails_inject:
  assumes "\<And>a b x y. a \<in> set as \<Longrightarrow> b \<in> set bs \<Longrightarrow> delimited x \<Longrightarrow> delimited y \<Longrightarrow> item a @ x = item b @ y \<Longrightarrow> c a = c b \<and> x = y"
    and "close \<in> set '']}''"
    and "concat (map (\<lambda>a. '','' @ item a) as) @ close # x = concat (map (\<lambda>a. '','' @ item a) bs) @ close # y"
  shows "map c as = map c bs \<and> x = y"
  using assms(1,3)
proof (induction as arbitrary: bs)
  case Nil
  then show ?case using assms(2) by (cases bs) auto
next
  case (Cons a as)
  have del: "delimited (concat (map (\<lambda>a. '','' @ item a) cs) @ close # z)" for cs z
    using assms(2) by (cases cs) (auto simp: delimited_def)
  obtain b bs' where bs: "bs = b # bs'" using Cons.prems(2) assms(2) by (cases bs) auto
  have eq: "item a @ concat (map (\<lambda>a. '','' @ item a) as) @ close # x = item b @ concat (map (\<lambda>a. '','' @ item a) bs') @ close # y"
    using Cons.prems(2) by (simp add: bs)
  have "c a = c b \<and> concat (map (\<lambda>a. '','' @ item a) as) @ close # x = concat (map (\<lambda>a. '','' @ item a) bs') @ close # y"
    using Cons.prems(1) [OF _ _ del del eq] bs by simp
  then have head: "c a = c b" and tail: "concat (map (\<lambda>a. '','' @ item a) as) @ close # x = concat (map (\<lambda>a. '','' @ item a) bs') @ close # y"
    by blast+
  have "map c as = map c bs' \<and> x = y"
  proof (rule Cons.IH [OF _ tail])
    fix a' b' u v
    assume "a' \<in> set as" "b' \<in> set bs'" "delimited u" "delimited v" "item a' @ u = item b' @ v"
    then show "c a' = c b' \<and> u = v" by (intro Cons.prems(1)) (simp_all add: bs)
  qed
  then show ?case by (simp add: bs head)
qed

lemma join_inject:
  assumes "\<And>a b x y. a \<in> set as \<Longrightarrow> b \<in> set bs \<Longrightarrow> delimited x \<Longrightarrow> delimited y \<Longrightarrow> item a @ x = item b @ y \<Longrightarrow> c a = c b \<and> x = y"
    and "\<And>a. a \<in> set as \<union> set bs \<Longrightarrow> item a \<noteq> [] \<and> hd (item a) \<noteq> close"
    and "close \<in> set '']}''" "join '','' (map item as) @ close # x = join '','' (map item bs) @ close # y"
  shows "map c as = map c bs \<and> x = y"
proof (cases as)
  case Nil
  show ?thesis
  proof (cases bs)
    case Nil
    with \<open>as = []\<close> assms(4) show ?thesis by (simp add: join_def)
  next
    case (Cons b bs')
    then have "hd (item b @ concat (map (\<lambda>y. '','' @ y) (map item bs')) @ close # y) = close"
      using arg_cong [OF assms(4), of hd] Nil by (simp add: join_def comp_def)
    then show ?thesis using assms(2) [of b] Cons by simp
  qed
next
  case (Cons a as')
  show ?thesis
  proof (cases bs)
    case Nil
    then have "hd (item a @ concat (map (\<lambda>y. '','' @ y) (map item as')) @ close # x) = close"
      using arg_cong [OF assms(4), of hd] Cons Nil by (simp add: join_def comp_def)
    then show ?thesis using assms(2) [of a] Cons by simp
  next
    case (Cons b bs')
    have eq: "concat (map (\<lambda>a. '','' @ item a) as) @ close # x = concat (map (\<lambda>a. '','' @ item a) bs) @ close # y"
      using assms(4) \<open>as = a # as'\<close> Cons by (simp add: join_def comp_def)
    show ?thesis by (rule tails_inject [where item = item, OF _ assms(3) eq]) (rule assms(1))
  qed
qed

lemma insort_map_prod: "insort_key fst (map_prod id f x) (map (map_prod id f) xs) = map (map_prod id f) (insort_key fst x xs)"
  by (induction xs) auto

lemma sort_map_prod: "sort_key fst (map (map_prod id f) kvs) = map (map_prod id f) (sort_key fst kvs)"
  by (induction kvs) (simp_all only: list.map sort_key_simps insort_map_prod)

lemma number_heads:
  "list_all number_char s \<Longrightarrow> s \<noteq> [] \<Longrightarrow> hd s \<notin> set ''ntf[{]}'' \<and> of_char (hd s) \<noteq> (34 :: nat)"
  by (cases s) (auto simp: number_char_def is_digit_def)

definition kind_of :: "py_value \<Rightarrow> nat" where
  "kind_of v = (case v of PNone \<Rightarrow> 0 | PBool b \<Rightarrow> if b then 1 else 2 | PInt _ \<Rightarrow> 3 | PFloat _ \<Rightarrow> 3 | PStr _ \<Rightarrow> 4 | PTime _ \<Rightarrow> 4
     | PList _ \<Rightarrow> 5 | PDict _ \<Rightarrow> 6)"

definition head_kind :: "char \<Rightarrow> nat" where
  "head_kind c = (if c = CHR ''n'' then 0 else if c = CHR ''t'' then 1 else if c = CHR ''f'' then 2
     else if of_char c = (34 :: nat) then 4 else if c = CHR ''['' then 5 else if c = CHR ''{'' then 6 else 3)"

text \<open>The first character of a text tells the kind of its value, and is no closing bracket.\<close>

lemma dump_head:
  assumes "float_text (je_float e) A" "floats_of v \<subseteq> A"
  shows "json_dump e v \<noteq> [] \<and> hd (json_dump e v) \<notin> set '']}'' \<and> head_kind (hd (json_dump e v)) = kind_of v"
proof (cases v)
  case (PInt i)
  have "hd (show_int i) \<notin> set ''ntf[{]}''" "of_char (hd (show_int i)) \<noteq> (34 :: nat)"
    using number_heads [OF show_int_chars(1,4), of i] by simp_all
  then show ?thesis using PInt show_int_chars(4) [of i] by (simp add: kind_of_def head_kind_def)
next
  case (PFloat r)
  have f: "list_all number_char (je_float e r)" "je_float e r \<noteq> []"
    using assms PFloat by (auto simp: float_text_def)
  have "hd (je_float e r) \<notin> set ''ntf[{]}''" "of_char (hd (je_float e r)) \<noteq> (34 :: nat)"
    using number_heads [OF f] by simp_all
  then show ?thesis using PFloat f(2) by (simp add: kind_of_def head_kind_def)
qed (auto simp: kind_of_def head_kind_def json_string_def quote_def json_object_def)

lemma field_inject:
  assumes "\<And>x y. delimited x \<Longrightarrow> delimited y \<Longrightarrow> json_dump e v @ x = json_dump e w @ y \<Longrightarrow> canon e v = canon e w \<and> x = y"
    "delimited x" "delimited y"
    "(json_string k @ '':'' @ json_dump e v) @ x = (json_string l @ '':'' @ json_dump e w) @ y"
  shows "(k, canon e v) = (l, canon e w) \<and> x = y"
proof -
  have "json_string k @ (CHR '':'' # json_dump e v @ x) = json_string l @ (CHR '':'' # json_dump e w @ y)"
    using assms(4) by simp
  then have "k = l" "json_dump e v @ x = json_dump e w @ y" unfolding json_string_inject by simp_all
  then show ?thesis using assms(1) [OF assms(2,3)] by simp
qed

lemma floats_list: "floats_of (PList vs) \<subseteq> A \<longleftrightarrow> (\<forall>v \<in> set vs. floats_of v \<subseteq> A)"
  by auto

lemma floats_dict: "floats_of (PDict kvs) \<subseteq> A \<longleftrightarrow> (\<forall>(k, v) \<in> set kvs. floats_of v \<subseteq> A)"
  by (fastforce simp: case_prod_beta)

lemma quote_head: "json_string s @ x = c # y \<Longrightarrow> of_char c = (34 :: nat)"
  by (auto simp: json_string_def quote_def)

lemma kinds: "kind_of PNone = 0" "kind_of (PBool True) = 1" "kind_of (PBool False) = 2" "kind_of (PInt i) = 3" "kind_of (PFloat r) = 3"
  "kind_of (PStr s) = 4" "kind_of (PTime t) = 4" "kind_of (PList vs) = 5" "kind_of (PDict kvs) = 6"
  by (simp_all add: kind_of_def)

lemma kind_cases:
  "kind_of w = 0 \<Longrightarrow> w = PNone" "kind_of w = 1 \<Longrightarrow> w = PBool True" "kind_of w = 2 \<Longrightarrow> w = PBool False"
  "kind_of w = 3 \<Longrightarrow> (\<exists>i. w = PInt i) \<or> (\<exists>r. w = PFloat r)" "kind_of w = 4 \<Longrightarrow> (\<exists>s. w = PStr s) \<or> (\<exists>t. w = PTime t)"
  "kind_of w = 5 \<Longrightarrow> \<exists>vs. w = PList vs" "kind_of w = 6 \<Longrightarrow> \<exists>kvs. w = PDict kvs"
  by (simp_all add: kind_of_def split: py_value.splits if_splits)

lemma dump_kind:
  assumes "float_text (je_float e) A" "floats_of v \<subseteq> A" "floats_of w \<subseteq> A" "json_dump e v @ x = json_dump e w @ y"
  shows "kind_of v = kind_of w"
  using dump_head [OF assms(1,2)] dump_head [OF assms(1,3)] assms(4) by (metis hd_append2)

lemma number_inject:
  assumes "float_text (je_float e) A" "floats_of v \<subseteq> A" "floats_of w \<subseteq> A" "delimited x" "delimited y"
    "json_dump e v @ x = json_dump e w @ y" "kind_of v = 3" "kind_of w = 3"
  shows "v = w \<and> x = y"
proof -
  have chars: "list_all number_char (json_dump e u)" if "floats_of u \<subseteq> A" "kind_of u = 3" for u
    using kind_cases(4) [OF that(2)] that(1) assms(1) show_int_chars(1) by (auto simp: float_text_def)
  have same: "json_dump e v = json_dump e w \<and> x = y"
    using number_split [OF chars [OF assms(2,7)] chars [OF assms(3,8)] assms(4-6)] .
  have mixed: "json_dump e (PInt i) \<noteq> json_dump e (PFloat r)" if "r \<in> A" for i r
    using that assms(1) show_int_chars(2,3) [of i] by (auto simp: float_text_def)
  have floats: "r = r'" if "r \<in> A" "r' \<in> A" "je_float e r = je_float e r'" for r r'
    using that assms(1) by (auto simp: float_text_def inj_on_def)
  consider i j where "v = PInt i" "w = PInt j" | i r where "v = PInt i" "w = PFloat r"
    | r j where "v = PFloat r" "w = PInt j" | r r' where "v = PFloat r" "w = PFloat r'"
    using kind_cases(4) [OF assms(7)] kind_cases(4) [OF assms(8)] by blast
  then show ?thesis
  proof cases
    case 1
    then show ?thesis using same show_int_inject by auto
  next
    case 2
    then show ?thesis using same mixed [of r i] assms(3) by simp
  next
    case 3
    then show ?thesis using same mixed [of r j] assms(2) by simp
  next
    case 4
    then show ?thesis using same floats [of r r'] assms(2,3) by simp
  qed
qed

lemma text_inject:
  assumes "kind_of v = 4" "kind_of w = 4" "json_dump e v @ x = json_dump e w @ y"
  shows "canon e v = canon e w \<and> x = y"
proof -
  have "\<exists>s. json_dump e u = json_string s \<and> canon e u = PStr s" if "kind_of u = 4" for u
    using kind_cases(5) [OF that] json_dump.simps(5,8) canon.simps(5,8) by blast
  from this [OF assms(1)] this [OF assms(2)] obtain s t where
    "json_dump e v = json_string s" "canon e v = PStr s" "json_dump e w = json_string t" "canon e w = PStr t" by blast
  moreover from this assms(3) have "s = t \<and> x = y" by (simp only: json_string_inject)
  ultimately show ?thesis by (simp only: simp_thms)
qed

text \<open>A value is determined by its text, up to the order of keys and the type of times.\<close>

lemma json_dump_inject:
  assumes "float_text (je_float e) A"
  shows "floats_of v \<subseteq> A \<Longrightarrow> floats_of w \<subseteq> A \<Longrightarrow> delimited x \<Longrightarrow> delimited y \<Longrightarrow> json_dump e v @ x = json_dump e w @ y \<Longrightarrow>
    canon e v = canon e w \<and> x = y"
proof (induction v arbitrary: w x y)
  case PNone
  have "w = PNone" by (rule kind_cases(1)) (simp only: dump_kind [OF assms PNone.prems(1,2,5), symmetric] kinds)
  with PNone show ?case by simp
next
  case (PBool b)
  have "kind_of w = (if b then 1 else 2)" by (cases b) (simp_all only: dump_kind [OF assms PBool.prems(1,2,5), symmetric] kinds if_True if_False)
  then have "w = PBool b" using kind_cases(2,3) by (cases b) simp_all
  with PBool.prems(5) show ?case by simp
next
  case (PInt i)
  have "kind_of (PInt i) = 3" "kind_of w = 3" by (simp_all only: dump_kind [OF assms PInt.prems(1,2,5), symmetric] kinds)
  from number_inject [OF assms PInt.prems this] show ?case by simp
next
  case (PFloat r)
  have "kind_of (PFloat r) = 3" "kind_of w = 3" by (simp_all only: dump_kind [OF assms PFloat.prems(1,2,5), symmetric] kinds)
  from number_inject [OF assms PFloat.prems this] show ?case by simp
next
  case (PStr s)
  have "kind_of (PStr s) = 4" "kind_of w = 4" by (simp_all only: dump_kind [OF assms PStr.prems(1,2,5), symmetric] kinds)
  from text_inject [OF this PStr.prems(5)] show ?case .
next
  case (PTime t)
  have "kind_of (PTime t) = 4" "kind_of w = 4" by (simp_all only: dump_kind [OF assms PTime.prems(1,2,5), symmetric] kinds)
  from text_inject [OF this PTime.prems(5)] show ?case .
next
  case (PList vs)
  obtain ws where w: "w = PList ws"
    using kind_cases(6) [of w] by (auto simp only: dump_kind [OF assms PList.prems(1,2,5), symmetric] kinds)
  have vs: "\<forall>v \<in> set vs. floats_of v \<subseteq> A" and ws: "\<forall>v \<in> set ws. floats_of v \<subseteq> A"
    using PList.prems(1,2) unfolding w floats_list by blast+
  have "map (canon e) vs = map (canon e) ws \<and> x = y"
  proof (rule join_inject [where item = "json_dump e" and close = "CHR '']''"])
    fix a b u z
    assume "a \<in> set vs" "b \<in> set ws" "delimited u" "delimited z" "json_dump e a @ u = json_dump e b @ z"
    then show "canon e a = canon e b \<and> u = z" using PList.IH vs ws by blast
  next
    fix a assume "a \<in> set vs \<union> set ws"
    then have "floats_of a \<subseteq> A" using vs ws by blast
    from dump_head [OF assms this] show "json_dump e a \<noteq> [] \<and> hd (json_dump e a) \<noteq> CHR '']''" by auto
  qed (use PList.prems(5) w in simp_all)
  then show ?case by (simp add: w)
next
  case (PDict kvs)
  obtain kws where w: "w = PDict kws"
    using kind_cases(7) [of w] by (auto simp only: dump_kind [OF assms PDict.prems(1,2,5), symmetric] kinds)
  have vs: "\<forall>(k, v) \<in> set kvs. floats_of v \<subseteq> A" and ws: "\<forall>(k, v) \<in> set kws. floats_of v \<subseteq> A"
    using PDict.prems(1,2) unfolding w floats_dict by blast+
  let ?item = "\<lambda>(k, v). json_string k @ '':'' @ json_dump e v"
  have item: "map (\<lambda>(k, t). json_string k @ '':'' @ t) (map (map_prod id (json_dump e)) l) = map ?item l" for l
    by (induction l) auto
  have "map (map_prod id (canon e)) (sort_key fst kvs) = map (map_prod id (canon e)) (sort_key fst kws) \<and> x = y"
  proof (rule join_inject [where item = ?item and close = "CHR ''}''"])
    fix a b u z
    assume mem: "a \<in> set (sort_key fst kvs)" "b \<in> set (sort_key fst kws)" and del: "delimited u" "delimited z"
      and eq: "?item a @ u = ?item b @ z"
    obtain k v l v' where ab: "a = (k, v)" "b = (l, v')" by (metis prod.collapse)
    have kv: "(k, v) \<in> set kvs" "(l, v') \<in> set kws" using mem by (simp_all add: ab)
    moreover have "floats_of v \<subseteq> A" "floats_of v' \<subseteq> A" using vs ws kv by fast+
    ultimately have "canon e v = canon e v' \<and> p = q" if "delimited p" "delimited q" "json_dump e v @ p = json_dump e v' @ q" for p q
      using PDict.IH [of "(k, v)" v v' p q] that by (simp only: snds.intros prod_set_simps singletonI)
    moreover have "(json_string k @ '':'' @ json_dump e v) @ u = (json_string l @ '':'' @ json_dump e v') @ z"
      using eq unfolding ab prod.case .
    ultimately have "(k, canon e v) = (l, canon e v') \<and> u = z" by (intro field_inject [OF _ del]) blast+
    then show "map_prod id (canon e) a = map_prod id (canon e) b \<and> u = z" by (simp only: ab map_prod_simp id_apply)
  next
    fix a assume "a \<in> set (sort_key fst kvs) \<union> set (sort_key fst kws)"
    show "?item a \<noteq> [] \<and> hd (?item a) \<noteq> CHR ''}''"
      by (cases a) (simp add: json_string_def quote_def)
  next
    have obj: "json_dump e (PDict l) = ''{'' @ join '','' (map ?item (sort_key fst l)) @ ''}''" for l
      by (simp only: json_dump.simps json_object_def json_fields_def sort_map_prod item)
    show "join '','' (map ?item (sort_key fst kvs)) @ CHR ''}'' # x = join '','' (map ?item (sort_key fst kws)) @ CHR ''}'' # y"
      using PDict.prems(5) unfolding w obj by simp
  qed simp
  then show ?case by (simp add: w sort_map_prod)
qed

text \<open>The text of a value is that of its canonical form.\<close>

lemma sort_key_idem: "sort_key fst (sort_key fst xs) = sort_key fst xs"
  by (rule sort_key_id_if_sorted) simp

lemma dump_canon: "json_dump e (canon e v) = json_dump e v"
proof (induction v)
  case (PList vs)
  then show ?case by (simp add: comp_def cong: map_cong)
next
  case (PDict kvs)
  have "map (map_prod id (json_dump e)) (map (map_prod id (canon e)) kvs) = map (map_prod id (json_dump e)) kvs"
    using PDict by (fastforce simp: comp_def)
  then show ?case by (simp only: canon.simps json_dump.simps sort_map_prod [symmetric] sort_key_idem)
qed simp_all

lemma canonical_hash_iff:
  assumes "inj (env_sha256 e)" "float_text (je_float e) (floats_of v \<union> floats_of w)"
  shows "canonical_hash e v = canonical_hash e w \<longleftrightarrow> canon e v = canon e w"
proof
  assume "canonical_hash e v = canonical_hash e w"
  then have "json_dump e v = json_dump e w" using assms(1) by (simp add: canonical_hash_def inj_eq)
  then show "canon e v = canon e w"
    using json_dump_inject [OF assms(2), of v w "[]" "[]"] by (simp add: delimited_def)
next
  assume "canon e v = canon e w"
  then show "canonical_hash e v = canonical_hash e w" using dump_canon [of e v] dump_canon [of e w] by (simp add: canonical_hash_def)
qed

end
