(* ===== verification/Evidence.thy ===== *)
theory Evidence
  imports Json_Dump
begin

text \<open>
  The evidence ledger's builder (\<open>evidence/service.py\<close>, \<open>evidence/schemas.py\<close>): the content of a snapshot
  and its hash, the chain hash over the previous one, completeness, references and the deterministic
  explanation. What may hold arbitrary JSON is a payload; reading it can raise.
\<close>

section \<open>Records\<close>

record evidence_input =
  ei_alert_id :: uuid
  ei_campaign_id :: uuid
  ei_scope_id :: string
  ei_asset_id :: string
  ei_alert_version :: int
  ei_alert_type :: string
  ei_severity :: string
  ei_stage :: string
  ei_evidence_cutoff :: datetime
  ei_campaign_evidence_event_id :: string
  ei_fusion :: payload
  ei_feature :: "payload option"
  ei_feature_lineage :: "payload option"
  ei_narrative :: "payload option"
  ei_graph :: "payload option"
  ei_verifications :: "payload list"

record evidence_reference =
  ef_evidence_type :: string
  ef_evidence_id :: string
  ef_event_time :: "datetime option"
  ef_digest :: string
  ef_metadata :: payload

record completeness =
  cp_score :: real
  cp_present :: "string list"
  cp_missing :: "string list"

record evidence_snapshot =
  es_snapshot_id :: uuid
  es_alert_id :: uuid
  es_campaign_id :: uuid
  es_scope_id :: string
  es_asset_id :: string
  es_alert_version :: int
  es_evidence_cutoff :: datetime
  es_schema_version :: string
  es_content :: py_value
  es_content_hash :: string
  es_previous_chain_hash :: "string option"
  es_chain_hash :: string
  es_completeness :: completeness
  es_references :: "evidence_reference list"
  es_created_at :: datetime

record explanation =
  ex_explanation_id :: uuid
  ex_snapshot_id :: uuid
  ex_template_version :: string
  ex_summary :: string
  ex_triggered_rules :: "py_value list"
  ex_contributors :: "(string \<times> real) list"
  ex_context :: payload
  ex_llm_summary :: "string option"
  ex_llm_status :: string
  ex_generated_at :: datetime

section \<open>Content and chain\<close>

text \<open>The JSON mode of \<open>model_dump\<close>: times become text.\<close>

primrec json_mode :: "'a json_env_scheme \<Rightarrow> py_value \<Rightarrow> py_value" where
  "json_mode e PNone = PNone"
| "json_mode e (PBool b) = PBool b"
| "json_mode e (PInt i) = PInt i"
| "json_mode e (PFloat r) = PFloat r"
| "json_mode e (PStr s) = PStr s"
| "json_mode e (PList vs) = PList (map (json_mode e) vs)"
| "json_mode e (PDict kvs) = PDict (map (map_prod id (json_mode e)) kvs)"
| "json_mode e (PTime t) = PStr (je_json_time e t)"

definition opt_dict :: "payload option \<Rightarrow> py_value" where
  "opt_dict p = (case p of None \<Rightarrow> PNone | Some d \<Rightarrow> PDict d)"

definition input_fields :: "evidence_input \<Rightarrow> payload" where
  "input_fields s = [(''alert_id'', PStr (ei_alert_id s)), (''campaign_id'', PStr (ei_campaign_id s)), (''scope_id'', PStr (ei_scope_id s)),
     (''asset_id'', PStr (ei_asset_id s)), (''alert_version'', PInt (ei_alert_version s)), (''alert_type'', PStr (ei_alert_type s)),
     (''severity'', PStr (ei_severity s)), (''stage'', PStr (ei_stage s)), (''evidence_cutoff'', PTime (ei_evidence_cutoff s)),
     (''campaign_evidence_event_id'', PStr (ei_campaign_evidence_event_id s)), (''fusion'', PDict (ei_fusion s)),
     (''feature'', opt_dict (ei_feature s)), (''feature_lineage'', opt_dict (ei_feature_lineage s)),
     (''narrative'', opt_dict (ei_narrative s)), (''graph'', opt_dict (ei_graph s)),
     (''verifications'', PList (map PDict (ei_verifications s)))]"

definition content_of :: "'a json_env_scheme \<Rightarrow> evidence_input \<Rightarrow> py_value" where
  "content_of e s = json_mode e (PDict (input_fields s))"

definition chain_value :: "string option \<Rightarrow> string \<Rightarrow> int \<Rightarrow> py_value" where
  "chain_value previous content_hash version = PDict [(''previous_chain_hash'', opt_str previous),
     (''content_hash'', PStr content_hash), (''alert_version'', PInt version)]"

definition chain_hash_of :: "'a json_env_scheme \<Rightarrow> string option \<Rightarrow> string \<Rightarrow> int \<Rightarrow> string" where
  "chain_hash_of e previous content_hash version = canonical_hash e (chain_value previous content_hash version)"

section \<open>Completeness and references\<close>

text \<open>\<open>d.get(k)\<close> and \<open>str(v)\<close>.\<close>

definition get :: "payload \<Rightarrow> string \<Rightarrow> py_value" where
  "get d k = (case map_of d k of None \<Rightarrow> PNone | Some v \<Rightarrow> v)"

definition py_str :: "'a json_env_scheme \<Rightarrow> py_value \<Rightarrow> string" where
  "py_str e v = (case v of PStr s \<Rightarrow> s | PInt i \<Rightarrow> show_int i | PNone \<Rightarrow> ''None''
     | PBool b \<Rightarrow> if b then ''True'' else ''False'' | _ \<Rightarrow> je_str e v)"

definition checks :: "evidence_input \<Rightarrow> (string \<times> bool) list" where
  "checks s = [(''market'', get (ei_fusion s) ''market_score'' \<noteq> PNone), (''social'', get (ei_fusion s) ''social_score'' \<noteq> PNone),
     (''coordination'', get (ei_fusion s) ''coordination_score'' \<noteq> PNone),
     (''feature_lineage'', ei_feature s \<noteq> None \<and> ei_feature_lineage s \<noteq> None), (''narrative'', ei_narrative s \<noteq> None),
     (''graph'', ei_graph s \<noteq> None), (''verification'', ei_verifications s \<noteq> [])]"

definition completeness_of :: "evidence_input \<Rightarrow> completeness" where
  "completeness_of s = \<lparr>cp_score = round_to 4 (real (length (filter snd (checks s))) / real (length (checks s))),
     cp_present = sort (map fst (filter snd (checks s))), cp_missing = sort (map fst (filter (Not \<circ> snd) (checks s)))\<rparr>"

definition part_reference :: "'a json_env_scheme \<Rightarrow> evidence_input \<Rightarrow> string \<times> payload option \<times> string \<Rightarrow> evidence_reference list" where
  "part_reference e s = (\<lambda>(kind, part, key). case part of None \<Rightarrow> []
     | Some d \<Rightarrow> [\<lparr>ef_evidence_type = kind,
         ef_evidence_id = py_str e (case map_of d key of Some v \<Rightarrow> v | None \<Rightarrow> PStr (canonical_hash e (PDict d))),
         ef_event_time = Some (ei_evidence_cutoff s), ef_digest = canonical_hash e (PDict d), ef_metadata = []\<rparr>])"

fun verification_references :: "'a json_env_scheme \<Rightarrow> datetime \<Rightarrow> payload list \<Rightarrow> evidence_reference list res" where
  "verification_references e cutoff [] = Inr []"
| "verification_references e cutoff (d # ds) = (case map_of d ''verification_id'' of
     None \<Rightarrow> Inl (KeyError ''verification_id'')
   | Some i \<Rightarrow> (case verification_references e cutoff ds of Inl x \<Rightarrow> Inl x
     | Inr refs \<Rightarrow> Inr (\<lparr>ef_evidence_type = ''CLAIM_VERIFICATION'', ef_evidence_id = py_str e i, ef_event_time = Some cutoff,
         ef_digest = canonical_hash e (PDict d), ef_metadata = [(''result'', get d ''result'')]\<rparr> # refs)))"

definition references_of :: "'a json_env_scheme \<Rightarrow> evidence_input \<Rightarrow> evidence_reference list res" where
  "references_of e s = (case verification_references e (ei_evidence_cutoff s) (ei_verifications s) of
     Inl x \<Rightarrow> Inl x
   | Inr vs \<Rightarrow> Inr (\<lparr>ef_evidence_type = ''CAMPAIGN_EVIDENCE'', ef_evidence_id = ei_campaign_evidence_event_id s,
         ef_event_time = Some (ei_evidence_cutoff s), ef_digest = canonical_hash e (PDict (ei_fusion s)),
         ef_metadata = [(''model_version'', get (ei_fusion s) ''model_version'')]\<rparr> #
       concat (map (part_reference e s) [(''FEATURE'', ei_feature s, ''feature_window_id''),
         (''NARRATIVE'', ei_narrative s, ''narrative_id''), (''GRAPH'', ei_graph s, ''graph_snapshot_id'')]) @ vs))"

section \<open>The explanation\<close>

definition score_names :: "string list" where
  "score_names = [''market_score'', ''social_score'', ''coordination_score'', ''temporal_score'', ''graph_score'', ''claim_risk'',
     ''legitimate_event_score'']"

definition py_float :: "'a json_env_scheme \<Rightarrow> py_value \<Rightarrow> real res" where
  "py_float e v = (case number_of v of Some r \<Rightarrow> Inr r
     | None \<Rightarrow> (case v of PStr s \<Rightarrow> (case je_parse_float e s of Some r \<Rightarrow> Inr r
           | None \<Rightarrow> Inl (ValueError ''could not convert string to float''))
         | _ \<Rightarrow> Inl (TypeError ''float() argument must be a string or a real number'')))"

fun contributions :: "'a json_env_scheme \<Rightarrow> payload \<Rightarrow> string list \<Rightarrow> (string \<times> real) list res" where
  "contributions e fusion [] = Inr []"
| "contributions e fusion (n # ns) = (if get fusion n = PNone then contributions e fusion ns
     else case py_float e (get fusion n) of Inl x \<Rightarrow> Inl x
     | Inr r \<Rightarrow> (case contributions e fusion ns of Inl x \<Rightarrow> Inl x | Inr cs \<Rightarrow> Inr ((n, r) # cs)))"

definition corroborated :: "payload \<Rightarrow> bool res" where
  "corroborated fusion = (let v = get fusion ''market_score''
     in if \<not> truthy v then Inr False
        else case number_of v of Some r \<Rightarrow> Inr (35 / 100 \<le> r)
        | None \<Rightarrow> Inl (TypeError ''>= not supported''))"

text \<open>\<open>sorted({item.get("result") for item in verifications})\<close>: two different values can only be compared
  when all are strings (mixed numbers do not occur among results and are left out).\<close>

definition sorted_results :: "payload list \<Rightarrow> py_value list res" where
  "sorted_results vs = (let rs = remdups (map (\<lambda>d. get d ''result'') vs)
     in if length rs \<le> 1 then Inr rs
        else if list_all (\<lambda>r. case r of PStr _ \<Rightarrow> True | _ \<Rightarrow> False) rs
        then Inr (map PStr (sort (map (\<lambda>r. case r of PStr t \<Rightarrow> t | _ \<Rightarrow> []) rs)))
        else Inl (TypeError ''< not supported''))"

definition part_get :: "payload option \<Rightarrow> string \<Rightarrow> py_value" where
  "part_get p k = (case p of None \<Rightarrow> PNone | Some d \<Rightarrow> get d k)"

definition explanation_context :: "'a json_env_scheme \<Rightarrow> evidence_snapshot \<Rightarrow> evidence_input \<Rightarrow> payload" where
  "explanation_context e snap s = [(''stage'', PStr (ei_stage s)), (''scope_id'', PStr (ei_scope_id s)),
     (''evidence_cutoff'', PStr (env_isoformat e (ei_evidence_cutoff s))),
     (''data_freshness'', part_get (ei_feature s) ''data_freshness''), (''lead_lag'', part_get (ei_feature s) ''temporal_lead_lag''),
     (''narrative_post_count'', part_get (ei_narrative s) ''post_count''), (''graph_features'', part_get (ei_graph s) ''features''),
     (''verification_results'', PList (map (\<lambda>d. get d ''result'') (ei_verifications s))),
     (''model_version'', get (ei_fusion s) ''model_version''), (''fusion_policy_version'', get (ei_fusion s) ''fusion_policy_version''),
     (''threshold_version'', case map_of (ei_fusion s) ''threshold_version'' of Some v \<Rightarrow> v | None \<Rightarrow> PStr ''fusion-thresholds-v1''),
     (''evidence_completeness'', PFloat (cp_score (es_completeness snap)))]"

definition explain :: "'a json_env_scheme \<Rightarrow> evidence_snapshot \<Rightarrow> evidence_input \<Rightarrow> datetime \<Rightarrow> explanation res" where
  "explain e snap s now =
    (case contributions e (ei_fusion s) score_names of Inl x \<Rightarrow> Inl x | Inr unsorted \<Rightarrow>
    (case corroborated (ei_fusion s) of Inl x \<Rightarrow> Inl x | Inr market \<Rightarrow>
    (case (if ei_verifications s = [] then Inr [] else sorted_results (ei_verifications s)) of Inl x \<Rightarrow> Inl x | Inr results \<Rightarrow>
      let cs = sort_key (\<lambda>(_, r). - \<bar>r\<bar>) unsorted;
          top = (case cs of [] \<Rightarrow> ''available evidence'' | (n, _) # _ \<Rightarrow> n)
      in Inr \<lparr>ex_explanation_id = env_uuid5 e (''explanation:'' @ es_snapshot_id snap), ex_snapshot_id = es_snapshot_id snap,
        ex_template_version = ''deterministic-explanation-v1'',
        ex_summary = ei_severity s @ '' '' @ ei_alert_type s @ '' for '' @ ei_asset_id s @
          ''; the strongest recorded contributor was '' @ top @ ''.'',
        ex_triggered_rules = [PDict [(''rule'', PStr ''ALERT_THRESHOLD''), (''outcome'', PStr (ei_severity s)),
             (''fusion_score'', get (ei_fusion s) ''fusion_score'')],
           PDict [(''rule'', PStr ''MARKET_CORROBORATION''), (''outcome'', PBool market)]] @
          (if ei_verifications s = [] then [] else [PDict [(''rule'', PStr ''CLAIM_VERIFICATION''), (''outcome'', PList results)]]),
        ex_contributors = cs, ex_context = explanation_context e snap s, ex_llm_summary = None, ex_llm_status = ''NOT_REQUESTED'',
        ex_generated_at = now\<rparr>)))"

section \<open>The builder\<close>

definition evidence_snapshot_of :: "'a json_env_scheme \<Rightarrow> evidence_input \<Rightarrow> string option \<Rightarrow> evidence_reference list \<Rightarrow> datetime \<Rightarrow> evidence_snapshot" where
  "evidence_snapshot_of e s previous refs now = (let h = canonical_hash e (content_of e s)
     in \<lparr>es_snapshot_id = env_uuid5 e (''evidence:'' @ ei_alert_id s @ '':'' @ show_int (ei_alert_version s) @ '':'' @ h),
        es_alert_id = ei_alert_id s, es_campaign_id = ei_campaign_id s, es_scope_id = ei_scope_id s, es_asset_id = ei_asset_id s,
        es_alert_version = ei_alert_version s, es_evidence_cutoff = ei_evidence_cutoff s, es_schema_version = ''evidence-snapshot-v1'',
        es_content = content_of e s, es_content_hash = h, es_previous_chain_hash = previous,
        es_chain_hash = chain_hash_of e previous h (ei_alert_version s), es_completeness = completeness_of s,
        es_references = refs, es_created_at = now\<rparr>)"

definition build_evidence :: "'a json_env_scheme \<Rightarrow> evidence_input \<Rightarrow> string option \<Rightarrow> datetime \<Rightarrow> (evidence_snapshot \<times> explanation) res" where
  "build_evidence e s previous now = (case references_of e s of
     Inl x \<Rightarrow> Inl x
   | Inr refs \<Rightarrow> (let snap = evidence_snapshot_of e s previous refs now
       in case explain e snap s now of Inl x \<Rightarrow> Inl x | Inr ex \<Rightarrow> Inr (snap, ex)))"

end
