(* ===== verification/Evidence_Capture.thy ===== *)
theory Evidence_Capture
  imports Evidence Events
begin

text \<open>
  \<open>EvidenceCaptureRepository.capture_alert\<close> (\<open>evidence/repository.py\<close>): from an alert event and the
  tables of the database it gathers the evidence of the alert, chains it to the last snapshot of the
  alert and stores snapshot, references and explanation in one transaction. Rows hold the columns the
  capture reads; a table is a map from its key.
\<close>

section \<open>Tables\<close>

record ledger_alert =
  la_campaign_id :: uuid
  la_alert_type :: string
  la_severity :: string
  la_version :: int

record ledger_campaign =
  lc_scope_id :: string
  lc_asset_id :: string
  lc_stage :: string
  lc_dominant_narrative_id :: "uuid option"

record ledger_window =
  lw_current_revision :: int
  lw_window_start :: datetime
  lw_window_end :: datetime
  lw_feature_schema_version :: string

record ledger_revision =
  lr_lineage_id :: uuid
  lr_feature_schema_hash :: string
  lr_is_final :: bool
  lr_features :: payload

record ledger_lineage =
  ll_source_event_ids :: "string list"
  ll_source_event_min_time :: "datetime option"
  ll_source_event_max_time :: "datetime option"
  ll_source_count :: int
  ll_source_hash :: string

record ledger_narrative =
  ln_current_revision_id :: string
  ln_current_revision :: int
  ln_label :: string
  ln_summary :: string
  ln_post_count :: int
  ln_unique_author_count :: int
  ln_member_hash :: string

record ledger_graph =
  lh_cutoff_event_time :: datetime
  lh_source_lineage_hash :: string
  lh_projection_version :: string
  lh_projection_status :: string
  lh_features :: "(payload \<times> real option) option"

text \<open>A verification joined with its claim.\<close>

record ledger_verification =
  lv_verification_id :: uuid
  lv_claim_id :: uuid
  lv_narrative_id :: "uuid option"
  lv_claim_text :: string
  lv_alert_time :: datetime
  lv_verified_at :: datetime
  lv_result :: string
  lv_claim_risk :: real
  lv_legitimate_event_score :: "real option"
  lv_evidence_document_ids :: "string list"
  lv_retrieval_metadata :: payload
  lv_deterministic_reason :: string
  lv_verifier_version :: string
  lv_source_policy_version :: string
  lv_retrospective_only :: bool

record ledger_db =
  lg_alerts :: "uuid \<rightharpoonup> ledger_alert"
  lg_campaigns :: "uuid \<rightharpoonup> ledger_campaign"
  lg_campaign_evidence :: "string \<rightharpoonup> datetime \<times> payload"
  lg_windows :: "uuid \<rightharpoonup> ledger_window"
  lg_revisions :: "uuid \<times> int \<rightharpoonup> ledger_revision"
  lg_lineages :: "uuid \<rightharpoonup> ledger_lineage"
  lg_narratives :: "uuid \<rightharpoonup> ledger_narrative"
  lg_graphs :: "uuid \<rightharpoonup> ledger_graph"
  lg_verifications :: "ledger_verification list"
  lg_snapshots :: "evidence_snapshot list"
  lg_references :: "(uuid \<times> evidence_reference) list"
  lg_explanations :: "explanation list"

section \<open>Gathering\<close>

text \<open>\<open>UUID(text)\<close> and \<open>int(text)\<close>.\<close>

record capture_env = json_env +
  cv_parse_uuid :: "string \<Rightarrow> uuid option"
  cv_parse_int :: "string \<Rightarrow> int option"

definition uuid_of :: "capture_env \<Rightarrow> py_value \<Rightarrow> uuid res" where
  "uuid_of e v = (case cv_parse_uuid e (py_str e v) of
     None \<Rightarrow> Inl (ValueError ''badly formed hexadecimal UUID string'') | Some i \<Rightarrow> Inr i)"

definition int_of_text :: "capture_env \<Rightarrow> py_value \<Rightarrow> int res" where
  "int_of_text e v = (case cv_parse_int e (py_str e v) of
     None \<Rightarrow> Inl (ValueError ''invalid literal for int()'') | Some i \<Rightarrow> Inr i)"

definition feature_payload :: "uuid \<Rightarrow> ledger_window \<Rightarrow> int \<Rightarrow> ledger_revision \<Rightarrow> payload" where
  "feature_payload i w n r = [(''feature_window_id'', PStr i), (''revision'', PInt n), (''window_start'', PTime (lw_window_start w)),
     (''window_end'', PTime (lw_window_end w)), (''feature_schema_version'', PStr (lw_feature_schema_version w)),
     (''feature_schema_hash'', PStr (lr_feature_schema_hash r)), (''is_final'', PBool (lr_is_final r)), (''features'', PDict (lr_features r))]"

definition lineage_payload :: "uuid \<Rightarrow> ledger_lineage \<Rightarrow> payload" where
  "lineage_payload i l = [(''lineage_id'', PStr i), (''source_event_ids'', str_list (ll_source_event_ids l)),
     (''source_event_min_time'', opt_time (ll_source_event_min_time l)), (''source_event_max_time'', opt_time (ll_source_event_max_time l)),
     (''source_count'', PInt (ll_source_count l)), (''source_hash'', PStr (ll_source_hash l))]"

definition feature_evidence :: "capture_env \<Rightarrow> ledger_db \<Rightarrow> payload \<Rightarrow> (payload option \<times> payload option) res" where
  "feature_evidence e db fusion = (if get fusion ''feature_window_id'' = PNone then Inr (None, None)
     else case uuid_of e (get fusion ''feature_window_id'') of Inl x \<Rightarrow> Inl x
     | Inr i \<Rightarrow> (case lg_windows db i of None \<Rightarrow> Inr (None, None)
       | Some w \<Rightarrow> (case int_of_text e (case map_of fusion ''feature_revision'' of Some v \<Rightarrow> v | None \<Rightarrow> PInt (lw_current_revision w)) of
           Inl x \<Rightarrow> Inl x
         | Inr n \<Rightarrow> (case lg_revisions db (i, n) of None \<Rightarrow> Inr (None, None)
           | Some r \<Rightarrow> Inr (Some (feature_payload i w n r),
               map_option (lineage_payload (lr_lineage_id r)) (lg_lineages db (lr_lineage_id r)))))))"

definition narrative_payload :: "uuid \<Rightarrow> ledger_narrative \<Rightarrow> payload" where
  "narrative_payload i n = [(''narrative_id'', PStr i), (''revision_id'', PStr (ln_current_revision_id n)), (''revision'', PInt (ln_current_revision n)),
     (''label'', PStr (ln_label n)), (''summary'', PStr (ln_summary n)), (''post_count'', PInt (ln_post_count n)),
     (''unique_author_count'', PInt (ln_unique_author_count n)), (''member_hash'', PStr (ln_member_hash n))]"

definition narrative_evidence :: "ledger_db \<Rightarrow> ledger_campaign \<Rightarrow> payload option" where
  "narrative_evidence db c = (case lc_dominant_narrative_id c of None \<Rightarrow> None
     | Some i \<Rightarrow> map_option (narrative_payload i) (lg_narratives db i))"

definition graph_payload :: "uuid \<Rightarrow> ledger_graph \<Rightarrow> payload" where
  "graph_payload i g = [(''graph_snapshot_id'', PStr i), (''cutoff_event_time'', PTime (lh_cutoff_event_time g)),
     (''source_lineage_hash'', PStr (lh_source_lineage_hash g)), (''projection_version'', PStr (lh_projection_version g)),
     (''projection_status'', PStr (lh_projection_status g)),
     (''features'', case lh_features g of None \<Rightarrow> PNone | Some (f, _) \<Rightarrow> PDict f),
     (''graph_score'', case lh_features g of None \<Rightarrow> PNone | Some (_, s) \<Rightarrow> opt_float s)]"

definition graph_evidence :: "capture_env \<Rightarrow> ledger_db \<Rightarrow> payload \<Rightarrow> payload option res" where
  "graph_evidence e db fusion = (case get fusion ''input_snapshot_ids'' of
     PDict inputs \<Rightarrow> (if \<not> truthy (get inputs ''graph_snapshot_id'') then Inr None
       else case uuid_of e (get inputs ''graph_snapshot_id'') of Inl x \<Rightarrow> Inl x
       | Inr i \<Rightarrow> Inr (map_option (graph_payload i) (lg_graphs db i)))
   | _ \<Rightarrow> Inr None)"

definition verification_payload :: "ledger_verification \<Rightarrow> payload" where
  "verification_payload v = [(''verification_id'', PStr (lv_verification_id v)), (''claim_id'', PStr (lv_claim_id v)),
     (''claim_text'', PStr (lv_claim_text v)), (''result'', PStr (lv_result v)), (''claim_risk'', PFloat (lv_claim_risk v)),
     (''legitimate_event_score'', opt_float (lv_legitimate_event_score v)),
     (''evidence_document_ids'', str_list (lv_evidence_document_ids v)), (''retrieval_metadata'', PDict (lv_retrieval_metadata v)),
     (''deterministic_reason'', PStr (lv_deterministic_reason v)), (''verifier_version'', PStr (lv_verifier_version v)),
     (''source_policy_version'', PStr (lv_source_policy_version v)), (''retrospective_only'', PBool (lv_retrospective_only v))]"

definition verifications_before :: "ledger_db \<Rightarrow> ledger_campaign \<Rightarrow> datetime \<Rightarrow> ledger_verification list" where
  "verifications_before db c cutoff = (case lc_dominant_narrative_id c of None \<Rightarrow> []
     | Some i \<Rightarrow> sort_key (\<lambda>v. - lv_verified_at v) (filter (\<lambda>v. lv_narrative_id v = Some i \<and> lv_alert_time v \<le> cutoff) (lg_verifications db)))"

definition gather :: "capture_env \<Rightarrow> ledger_db \<Rightarrow> uuid \<Rightarrow> ledger_alert \<Rightarrow> ledger_campaign \<Rightarrow> string \<Rightarrow> datetime \<Rightarrow> payload \<Rightarrow> evidence_input res" where
  "gather e db alert_id a c evidence_id cutoff fusion = (case feature_evidence e db fusion of Inl x \<Rightarrow> Inl x
     | Inr (feature, lineage) \<Rightarrow> (case graph_evidence e db fusion of Inl x \<Rightarrow> Inl x
       | Inr graph \<Rightarrow> Inr \<lparr>ei_alert_id = alert_id, ei_campaign_id = la_campaign_id a, ei_scope_id = lc_scope_id c, ei_asset_id = lc_asset_id c,
           ei_alert_version = la_version a, ei_alert_type = la_alert_type a, ei_severity = la_severity a, ei_stage = lc_stage c,
           ei_evidence_cutoff = cutoff, ei_campaign_evidence_event_id = evidence_id, ei_fusion = fusion, ei_feature = feature,
           ei_feature_lineage = lineage, ei_narrative = narrative_evidence db c, ei_graph = graph,
           ei_verifications = map verification_payload (verifications_before db c cutoff)\<rparr>))"

section \<open>The capture\<close>

definition snapshots_of :: "ledger_db \<Rightarrow> uuid \<Rightarrow> evidence_snapshot list" where
  "snapshots_of db a = filter (\<lambda>s. es_alert_id s = a) (lg_snapshots db)"

definition snapshot_at :: "ledger_db \<Rightarrow> uuid \<Rightarrow> int \<Rightarrow> evidence_snapshot option" where
  "snapshot_at db a v = find (\<lambda>s. es_alert_version s = v) (snapshots_of db a)"

text \<open>The chain hash of the snapshot with the greatest version.\<close>

definition previous_hash :: "ledger_db \<Rightarrow> uuid \<Rightarrow> string option" where
  "previous_hash db a = (case sort_key (\<lambda>s. - es_alert_version s) (snapshots_of db a) of [] \<Rightarrow> None | s # _ \<Rightarrow> Some (es_chain_hash s))"

text \<open>The primary key and the unique constraints of the table.\<close>

definition conflicts :: "evidence_snapshot \<Rightarrow> evidence_snapshot \<Rightarrow> bool" where
  "conflicts s t \<longleftrightarrow> es_snapshot_id s = es_snapshot_id t \<or> es_alert_id s = es_alert_id t \<and> es_alert_version s = es_alert_version t \<or>
     es_content_hash s = es_content_hash t \<or> es_chain_hash s = es_chain_hash t"

definition store_snapshot :: "evidence_snapshot \<Rightarrow> explanation \<Rightarrow> ledger_db \<Rightarrow> ledger_db res" where
  "store_snapshot s ex db = (if list_ex (conflicts s) (lg_snapshots db) then Inl (IntegrityError ''evidence_snapshots'')
     else Inr (db\<lparr>lg_snapshots := lg_snapshots db @ [s],
        lg_references := lg_references db @ map (\<lambda>r. (es_snapshot_id s, r)) (es_references s),
        lg_explanations := lg_explanations db @ [ex]\<rparr>))"

definition capture_fresh :: "capture_env \<Rightarrow> datetime \<Rightarrow> payload \<Rightarrow> uuid \<Rightarrow> ledger_alert \<Rightarrow> ledger_db \<Rightarrow> uuid res \<times> ledger_db" where
  "capture_fresh e now event alert_id a db = (case lg_campaigns db (la_campaign_id a) of
     None \<Rightarrow> (Inl (KeyError ''campaign not found''), db)
   | Some c \<Rightarrow> (case map_of event ''evidence_event_id'' of None \<Rightarrow> (Inl (KeyError ''evidence_event_id''), db)
     | Some v \<Rightarrow> (case lg_campaign_evidence db (py_str e v) of None \<Rightarrow> (Inl (KeyError ''campaign evidence not found''), db)
       | Some (cutoff, fusion) \<Rightarrow> (case gather e db alert_id a c (py_str e v) cutoff fusion of Inl x \<Rightarrow> (Inl x, db)
         | Inr source \<Rightarrow> (case build_evidence e source (previous_hash db alert_id) now of Inl x \<Rightarrow> (Inl x, db)
           | Inr (s, ex) \<Rightarrow> (case store_snapshot s ex db of Inl x \<Rightarrow> (Inl x, db) | Inr db' \<Rightarrow> (Inr (es_snapshot_id s), db')))))))"

definition capture_alert :: "capture_env \<Rightarrow> datetime \<Rightarrow> payload \<Rightarrow> ledger_db \<Rightarrow> uuid res \<times> ledger_db" where
  "capture_alert e now event db = (case map_of event ''alert_id'' of None \<Rightarrow> (Inl (KeyError ''alert_id''), db)
   | Some v \<Rightarrow> (case uuid_of e v of Inl x \<Rightarrow> (Inl x, db)
     | Inr alert_id \<Rightarrow> (case lg_alerts db alert_id of None \<Rightarrow> (Inl (KeyError ''alert not found''), db)
       | Some a \<Rightarrow> (case snapshot_at db alert_id (la_version a) of Some s \<Rightarrow> (Inr (es_snapshot_id s), db)
         | None \<Rightarrow> capture_fresh e now event alert_id a db))))"

text \<open>The worker captures the alerts that were created, changed or refreshed.\<close>

definition ledger_event :: "event_type \<Rightarrow> bool" where
  "ledger_event t \<longleftrightarrow> t \<in> {ev_alert_created, ev_alert_severity_changed, ev_alert_refreshed}"

definition evidence_step :: "capture_env \<Rightarrow> datetime \<Rightarrow> payload canonical_event \<Rightarrow> ledger_db \<Rightarrow> ledger_db" where
  "evidence_step e now event db = (if ledger_event (ce_event_type event) then snd (capture_alert e now (ce_payload event) db) else db)"

end
