(* ===== verification/Evidence_Correct.thy ===== *)
theory Evidence_Correct
  imports Evidence_Capture "HOL-Library.Multiset"
begin

text \<open>
  What the evidence ledger promises: the last chain hash of an alert fixes its whole history of
  evidence, the snapshots stay a chain whatever else happens in the database, a capture is not
  rejected by the constraints of the table, and where evidence is lost.
\<close>

section \<open>Chains\<close>

text \<open>Snapshots that follow each other: every one holds the chain hash of the one before and its hashes
  are those of its content.\<close>

fun linked :: "'a json_env_scheme \<Rightarrow> string option \<Rightarrow> evidence_snapshot list \<Rightarrow> bool" where
  "linked e previous [] = True"
| "linked e previous (s # ss) \<longleftrightarrow> es_previous_chain_hash s = previous \<and> es_content_hash s = canonical_hash e (es_content s) \<and>
     es_chain_hash s = chain_hash_of e previous (es_content_hash s) (es_alert_version s) \<and> linked e (Some (es_chain_hash s)) ss"

definition chain_head :: "evidence_snapshot list \<Rightarrow> string option" where
  "chain_head ss = (if ss = [] then None else Some (es_chain_hash (last ss)))"

definition same_evidence :: "'a json_env_scheme \<Rightarrow> evidence_snapshot \<Rightarrow> evidence_snapshot \<Rightarrow> bool" where
  "same_evidence e s t \<longleftrightarrow> es_alert_version s = es_alert_version t \<and> canon e (es_content s) = canon e (es_content t)"

lemma linked_append:
  "linked e p (ss @ [s]) \<longleftrightarrow> linked e p ss \<and> es_previous_chain_hash s = (if ss = [] then p else chain_head ss) \<and>
     es_content_hash s = canonical_hash e (es_content s) \<and>
     es_chain_hash s = chain_hash_of e (if ss = [] then p else chain_head ss) (es_content_hash s) (es_alert_version s)"
  by (induction ss arbitrary: p) (auto simp: chain_head_def)

lemma linked_snoc:
  "linked e None (ss @ [s]) \<longleftrightarrow> linked e None ss \<and> es_previous_chain_hash s = chain_head ss \<and>
     es_content_hash s = canonical_hash e (es_content s) \<and>
     es_chain_hash s = chain_hash_of e (chain_head ss) (es_content_hash s) (es_alert_version s)"
  by (auto simp: linked_append chain_head_def)

lemma float_text_subset: "float_text f A \<Longrightarrow> B \<subseteq> A \<Longrightarrow> float_text f B"
  by (auto simp: float_text_def intro: inj_on_subset)

text \<open>A chain value holds no float, so its hash determines it.\<close>

lemma chain_floats: "floats_of (chain_value p h v) = {}"
  by (cases p) (simp_all add: chain_value_def opt_str_def)

lemma canon_dict: "canon e (PDict kvs) = canon e (PDict kws) \<Longrightarrow> distinct (map fst kvs) \<Longrightarrow> distinct (map fst kws) \<Longrightarrow>
  map_option (canon e) (map_of kvs k) = map_option (canon e) (map_of kws k)"
proof -
  assume "canon e (PDict kvs) = canon e (PDict kws)" and d: "distinct (map fst kvs)" "distinct (map fst kws)"
  then have "mset (map (map_prod id (canon e)) kvs) = mset (map (map_prod id (canon e)) kws)"
    using mset_sort [of fst "map (map_prod id (canon e)) kvs"] mset_sort [of fst "map (map_prod id (canon e)) kws"]
    by (simp only: canon.simps py_value.inject)
  then have "set (map (map_prod id (canon e)) kvs) = set (map (map_prod id (canon e)) kws)" by (rule mset_eq_setD)
  moreover have "map fst (map (map_prod id (canon e)) l) = map fst l" for l by (induction l) simp_all
  ultimately have "map_of (map (map_prod id (canon e)) kvs) = map_of (map (map_prod id (canon e)) kws)"
    using map_of_inject_set d by metis
  moreover have "map_of (map (map_prod id (canon e)) l) k = map_option (canon e) (map_of l k)" for l
    by (induction l) auto
  ultimately show ?thesis by metis
qed

lemma chain_inject:
  assumes "inj (env_sha256 e)" "chain_hash_of e p h v = chain_hash_of e q g w"
  shows "p = q \<and> h = g \<and> v = w"
proof -
  have "float_text (je_float e) (floats_of (chain_value p h v) \<union> floats_of (chain_value q g w))"
    by (simp add: chain_floats float_text_def)
  then have eq: "canon e (chain_value p h v) = canon e (chain_value q g w)"
    using canonical_hash_iff [OF assms(1)] assms(2) by (simp add: chain_hash_of_def)
  note field = canon_dict [OF eq [unfolded chain_value_def]]
  have "canon e (opt_str p) = canon e (opt_str q)" using field [of "''previous_chain_hash''"] by simp
  moreover have "h = g" using field [of "''content_hash''"] by simp
  moreover have "v = w" using field [of "''alert_version''"] by simp
  ultimately show ?thesis by (cases p; cases q) (simp_all add: opt_str_def)
qed

lemma linked_contents: "linked e p ss \<Longrightarrow> s \<in> set ss \<Longrightarrow> es_content_hash s = canonical_hash e (es_content s)"
  by (induction ss arbitrary: p) auto

text \<open>C15. The evidence ledger is tamper evident: of two chains of snapshots whose last chain hashes are
  equal, both have the same length and, position by position, the same alert version and the same
  content, whatever their history. (The hash is taken to be injective and the text of floats is that of
  \<open>repr\<close>.) A change, removal, insertion or exchange of past evidence shows in the last hash.\<close>

theorem chain_tamper_evident:
  assumes "inj (env_sha256 e)"
    and "float_text (je_float e) (\<Union> (floats_of ` es_content ` (set xs \<union> set ys)))"
    and "linked e None xs" "linked e None ys" "chain_head xs = chain_head ys"
  shows "list_all2 (same_evidence e) xs ys"
  using assms(2-5)
proof (induction xs arbitrary: ys rule: rev_induct)
  case Nil
  then show ?case by (cases ys) (simp_all add: chain_head_def)
next
  case (snoc s xs)
  obtain zs t where ys: "ys = zs @ [t]"
    using snoc.prems(4) by (cases ys rule: rev_cases) (simp_all add: chain_head_def)
  have "chain_hash_of e (chain_head xs) (es_content_hash s) (es_alert_version s) =
    chain_hash_of e (chain_head zs) (es_content_hash t) (es_alert_version t)"
    using snoc.prems(2-4) unfolding ys linked_snoc by (simp add: chain_head_def)
  from chain_inject [OF assms(1) this]
  have eq: "chain_head xs = chain_head zs" "es_content_hash s = es_content_hash t" "es_alert_version s = es_alert_version t"
    by blast+
  have "list_all2 (same_evidence e) xs zs"
    using snoc.prems(1-3) eq(1) unfolding ys linked_snoc by (intro snoc.IH) (auto elim: float_text_subset)
  moreover have "canon e (es_content s) = canon e (es_content t)"
  proof (rule canonical_hash_iff [THEN iffD1, OF assms(1)])
    show "float_text (je_float e) (floats_of (es_content s) \<union> floats_of (es_content t))"
      by (rule float_text_subset [OF snoc.prems(1)]) (auto simp: ys)
    show "canonical_hash e (es_content s) = canonical_hash e (es_content t)"
      using snoc.prems(2,3) eq(2) unfolding ys linked_snoc by simp
  qed
  ultimately have "list_all2 (same_evidence e) xs zs" "list_all2 (same_evidence e) [s] [t]"
    using eq(3) by (simp_all only: list_all2_Cons list_all2_Nil same_evidence_def simp_thms)
  then show ?case unfolding ys by (rule list_all2_appendI)
qed


section \<open>The invariant of the ledger\<close>

text \<open>A stored snapshot is one the builder made.\<close>

definition built :: "capture_env \<Rightarrow> evidence_snapshot \<Rightarrow> bool" where
  "built e s \<longleftrightarrow> (\<exists>source previous refs now. s = evidence_snapshot_of e source previous refs now)"

definition ledger_ok :: "capture_env \<Rightarrow> ledger_db \<Rightarrow> bool" where
  "ledger_ok e db \<longleftrightarrow>
     (\<forall>i. linked e None (snapshots_of db i) \<and> sorted_wrt (<) (map es_alert_version (snapshots_of db i))) \<and>
     (\<forall>s \<in> set (lg_snapshots db). built e s \<and> (\<exists>a. lg_alerts db (es_alert_id s) = Some a \<and> es_alert_version s \<le> la_version a)) \<and>
     lg_references db = concat (map (\<lambda>s. map (Pair (es_snapshot_id s)) (es_references s)) (lg_snapshots db)) \<and>
     map ex_snapshot_id (lg_explanations db) = map es_snapshot_id (lg_snapshots db)"

text \<open>Steps: the worker handles an event at some time, or other parts of the program change the other
  tables, where alerts stay and their versions do not decrease.\<close>

inductive ledger_move :: "capture_env \<Rightarrow> ledger_db \<Rightarrow> ledger_db \<Rightarrow> bool" for e where
  handled: "ledger_move e db (evidence_step e now event db)"
| elsewhere: "(\<And>i a. lg_alerts db i = Some a \<Longrightarrow> \<exists>b. lg_alerts db' i = Some b \<and> la_version a \<le> la_version b) \<Longrightarrow>
    lg_snapshots db' = lg_snapshots db \<Longrightarrow> lg_references db' = lg_references db \<Longrightarrow> lg_explanations db' = lg_explanations db \<Longrightarrow>
    ledger_move e db db'"

lemma previous_head:
  assumes "sorted_wrt (<) (map es_alert_version (snapshots_of db i))"
  shows "previous_hash db i = chain_head (snapshots_of db i)"
proof -
  have mono: "sorted_wrt (<) (map es_alert_version ss) \<Longrightarrow> inj_on (\<lambda>s. - es_alert_version s) (set ss) \<and>
    sorted (map (\<lambda>s. - es_alert_version s) (rev ss))" for ss
    by (induction ss) (auto simp: sorted_append intro!: inj_onI dest: inj_onD)
  have "sort_key (\<lambda>s. - es_alert_version s) (snapshots_of db i) = rev (snapshots_of db i)"
    using mono [OF assms] by (intro sort_key_inj_key_eq) simp_all
  then show ?thesis by (cases "snapshots_of db i" rule: rev_cases) (simp_all add: previous_hash_def chain_head_def)
qed

lemma build_snapshot: "build_evidence e source previous now = Inr (s, ex) \<Longrightarrow>
  \<exists>refs. s = evidence_snapshot_of e source previous refs now \<and> ex_snapshot_id ex = es_snapshot_id s \<and> references_of e source = Inr refs"
  by (auto simp: build_evidence_def explain_def Let_def split: sum.splits)

lemma gather_alert: "gather e db i a c v cutoff fusion = Inr source \<Longrightarrow>
  ei_alert_id source = i \<and> ei_alert_version source = la_version a \<and> ei_campaign_evidence_event_id source = v \<and>
  ei_evidence_cutoff source = cutoff \<and> ei_fusion source = fusion"
  by (auto simp: gather_def split: sum.splits)

lemma store_cases: "store_snapshot s ex db = Inr db' \<Longrightarrow> \<not> list_ex (conflicts s) (lg_snapshots db) \<and>
  db' = db\<lparr>lg_snapshots := lg_snapshots db @ [s], lg_references := lg_references db @ map (Pair (es_snapshot_id s)) (es_references s),
    lg_explanations := lg_explanations db @ [ex]\<rparr>"
  by (simp add: store_snapshot_def split: if_splits)

lemma snapshot_fields [simp]:
  "es_alert_id (evidence_snapshot_of e source p refs now) = ei_alert_id source"
  "es_alert_version (evidence_snapshot_of e source p refs now) = ei_alert_version source"
  "es_content (evidence_snapshot_of e source p refs now) = content_of e source"
  "es_content_hash (evidence_snapshot_of e source p refs now) = canonical_hash e (content_of e source)"
  "es_previous_chain_hash (evidence_snapshot_of e source p refs now) = p"
  "es_chain_hash (evidence_snapshot_of e source p refs now) = chain_hash_of e p (canonical_hash e (content_of e source)) (ei_alert_version source)"
  "es_references (evidence_snapshot_of e source p refs now) = refs"
  "es_snapshot_id (evidence_snapshot_of e source p refs now) = env_uuid5 e (''evidence:'' @ ei_alert_id source @ '':'' @
     show_int (ei_alert_version source) @ '':'' @ canonical_hash e (content_of e source))"
  by (simp_all add: evidence_snapshot_of_def Let_def)

text \<open>A capture fails and changes nothing, or adds one snapshot.\<close>

definition captures :: "capture_env \<Rightarrow> datetime \<Rightarrow> payload \<Rightarrow> uuid \<Rightarrow> ledger_alert \<Rightarrow> ledger_db \<Rightarrow> evidence_input \<Rightarrow> evidence_snapshot \<Rightarrow> explanation \<Rightarrow> bool" where
  "captures e now event i a db source s ex \<longleftrightarrow> (\<exists>c v cutoff fusion. lg_campaigns db (la_campaign_id a) = Some c \<and>
     map_of event ''evidence_event_id'' = Some v \<and> lg_campaign_evidence db (py_str e v) = Some (cutoff, fusion) \<and>
     gather e db i a c (py_str e v) cutoff fusion = Inr source \<and> build_evidence e source (previous_hash db i) now = Inr (s, ex))"

lemma fresh_Inr:
  assumes "captures e now event i a db source s ex"
  shows "capture_fresh e now event i a db = (case store_snapshot s ex db of Inl x \<Rightarrow> (Inl x, db) | Inr db' \<Rightarrow> (Inr (es_snapshot_id s), db'))"
  using assms by (auto simp: captures_def capture_fresh_def)

lemma fresh_Inl:
  assumes "\<not> (\<exists>source s ex. captures e now event i a db source s ex)"
  shows "\<exists>x. capture_fresh e now event i a db = (Inl x, db)"
  using assms unfolding captures_def capture_fresh_def
  by (auto split: option.split sum.split)

lemma captures_snapshot:
  assumes "captures e now event i a db source s ex"
  obtains refs where "s = evidence_snapshot_of e source (previous_hash db i) refs now" "ei_alert_id source = i" "ei_alert_version source = la_version a"
    "ex_snapshot_id ex = es_snapshot_id s"
  using assms unfolding captures_def by (blast dest: gather_alert build_snapshot)

lemma capture_cases:
  obtains (same) "snd (capture_alert e now event db) = db"
  | (added) i a source s ex where "lg_alerts db i = Some a" "snapshot_at db i (la_version a) = None" "captures e now event i a db source s ex"
      "store_snapshot s ex db = Inr (snd (capture_alert e now event db))"
proof (cases "snd (capture_alert e now event db) = db")
  case False
  then obtain i a where ia: "lg_alerts db i = Some a" "snapshot_at db i (la_version a) = None"
      "capture_alert e now event db = capture_fresh e now event i a db"
    by (auto simp: capture_alert_def split: option.splits sum.splits)
  then obtain source s ex where c: "captures e now event i a db source s ex"
    using False fresh_Inl by (metis snd_conv)
  then have "store_snapshot s ex db = Inr (snd (capture_alert e now event db))"
    using False unfolding ia(3) fresh_Inr [OF c] by (auto split: sum.splits)
  with ia c show ?thesis by (intro added)
qed (rule same)

lemma snapshots_snoc: "lg_snapshots db' = lg_snapshots db @ [s] \<Longrightarrow>
  snapshots_of db' i = (if es_alert_id s = i then snapshots_of db i @ [s] else snapshots_of db i)"
  by (simp add: snapshots_of_def)

lemma snapshot_at_None: "snapshot_at db i v = None \<longleftrightarrow> (\<forall>s \<in> set (lg_snapshots db). es_alert_id s = i \<longrightarrow> es_alert_version s \<noteq> v)"
  by (auto simp: snapshot_at_def snapshots_of_def find_None_iff)

lemma ledger_ok_capture:
  assumes ok: "ledger_ok e db"
  shows "ledger_ok e (snd (capture_alert e now event db))"
proof (cases rule: capture_cases [of e now event db])
  case same
  then show ?thesis using ok by simp
next
  case (added i a source s ex)
  let ?db = "snd (capture_alert e now event db)"
  obtain refs where s: "s = evidence_snapshot_of e source (previous_hash db i) refs now" "ei_alert_id source = i"
      "ei_alert_version source = la_version a" "ex_snapshot_id ex = es_snapshot_id s"
    using captures_snapshot [OF added(3)] .
  note db' = store_cases [OF added(4), THEN conjunct2]
  have tables: "lg_snapshots ?db = lg_snapshots db @ [s]" "lg_alerts ?db = lg_alerts db"
    "lg_references ?db = lg_references db @ map (Pair (es_snapshot_id s)) (es_references s)" "lg_explanations ?db = lg_explanations db @ [ex]"
    by (subst db', simp)+
  have id: "es_alert_id s = i" "es_alert_version s = la_version a" using s by simp_all
  have old: "es_alert_version t < la_version a" if "t \<in> set (snapshots_of db i)" for t
  proof -
    have t: "t \<in> set (lg_snapshots db)" "es_alert_id t = i" using that by (auto simp: snapshots_of_def)
    then have "es_alert_version t \<le> la_version a" using ok added(1) by (auto simp: ledger_ok_def)
    moreover have "es_alert_version t \<noteq> la_version a" using added(2) t by (auto simp: snapshot_at_None)
    ultimately show ?thesis by simp
  qed
  have chain: "linked e None (snapshots_of db i)" and sorted: "sorted_wrt (<) (map es_alert_version (snapshots_of db i))"
    using ok by (auto simp: ledger_ok_def)
  have "linked e None (snapshots_of db i @ [s])" using chain previous_head [OF sorted] s by (simp add: linked_snoc)
  moreover have "sorted_wrt (<) (map es_alert_version (snapshots_of db i @ [s]))"
    using sorted old id by (simp add: sorted_wrt_append)
  ultimately have "linked e None (snapshots_of ?db j) \<and> sorted_wrt (<) (map es_alert_version (snapshots_of ?db j))" for j
    using ok id by (cases "j = i") (simp_all add: snapshots_snoc [OF tables(1)] ledger_ok_def)
  moreover have "built e s" unfolding built_def s(1) by blast
  ultimately show ?thesis using ok added(1) id s(4) by (simp add: ledger_ok_def tables)
qed

lemma ledger_ok_move:
  assumes "ledger_move e db db'" "ledger_ok e db"
  shows "ledger_ok e db'"
  using assms
proof cases
  case (handled event now)
  then show ?thesis using assms(2) ledger_ok_capture by (simp add: evidence_step_def)
next
  case elsewhere
  then have "snapshots_of db' = snapshots_of db" by (simp add: snapshots_of_def fun_eq_iff)
  moreover have "\<exists>b. lg_alerts db' i = Some b \<and> v \<le> la_version b" if "lg_alerts db i = Some a" "v \<le> la_version a" for i a v
    using elsewhere(1) [OF that(1)] that(2) by force
  ultimately show ?thesis using assms(2) elsewhere(2-4) unfolding ledger_ok_def by (simp only:) blast
qed

text \<open>C14. The ledger stays a set of chains. From a database without evidence, whatever events the worker
  handles, in any order and at any times, and whatever the rest of the program does to the other tables
  meanwhile (alerts stay, their versions do not decrease): the snapshots of every alert, in the order
  they were stored, follow each other by hash and have increasing alert versions not above the alert's,
  each is one the builder made, the reference rows are exactly the references of the snapshots and every
  snapshot has its explanation.\<close>

theorem ledger_chains:
  assumes "(ledger_move e)\<^sup>*\<^sup>* db db'" "lg_snapshots db = []" "lg_references db = []" "lg_explanations db = []"
  shows "ledger_ok e db'"
  using assms(1)
proof (induction rule: rtranclp_induct)
  case base
  then show ?case using assms(2-4) by (simp add: ledger_ok_def snapshots_of_def)
next
  case (step db1 db2)
  then show ?case using ledger_ok_move by blast
qed

section \<open>Captures succeed\<close>

lemma content_inject:
  assumes "canon e (content_of e s) = canon e (content_of e t)"
  shows "ei_alert_id s = ei_alert_id t \<and> ei_alert_version s = ei_alert_version t"
proof -
  let ?kvs = "\<lambda>s. map (map_prod id (json_mode e)) (input_fields s)"
  have "distinct (map fst (?kvs s))" for s by (simp add: input_fields_def)
  then have field: "map_option (canon e) (map_of (?kvs s) k) = map_option (canon e) (map_of (?kvs t) k)" for k
    using canon_dict [of e "?kvs s" "?kvs t" k] assms by (simp only: content_of_def json_mode.simps)
  show ?thesis using field [of "''alert_id''"] field [of "''alert_version''"] by (simp add: input_fields_def)
qed

lemma after_colon:
  assumes "x @ CHR '':'' # h = y @ CHR '':'' # g" "CHR '':'' \<notin> set h" "CHR '':'' \<notin> set g"
  shows "h = g"
proof -
  have tail: "takeWhile (\<lambda>c. c \<noteq> CHR '':'') (rev (w @ CHR '':'' # k)) = rev k" if "CHR '':'' \<notin> set k" for w k
    using that takeWhile_append2 [of "rev k" "\<lambda>c. c \<noteq> CHR '':''" "CHR '':'' # rev w"] by auto
  from tail [OF assms(2), of x] tail [OF assms(3), of y] assms(1) show ?thesis by (metis rev_rev_ident)
qed

text \<open>Two snapshots of the builder of different alerts or versions never clash.\<close>

lemma no_conflict:
  assumes "inj (env_sha256 e)" "inj (env_uuid5 e)" "\<And>x. CHR '':'' \<notin> set (env_sha256 e x)"
    and "float_text (je_float e) (floats_of (content_of e source) \<union> floats_of (content_of e old))"
    and "(ei_alert_id source, ei_alert_version source) \<noteq> (ei_alert_id old, ei_alert_version old)"
  shows "\<not> conflicts (evidence_snapshot_of e source p refs now) (evidence_snapshot_of e old q refs' now')"
proof -
  have h: "canonical_hash e (content_of e source) \<noteq> canonical_hash e (content_of e old)"
    using canonical_hash_iff [OF assms(1,4)] content_inject [of e source old] assms(5) by auto
  have colon: "CHR '':'' \<notin> set (canonical_hash e v)" for v using assms(3) by (simp add: canonical_hash_def)
  have "es_snapshot_id (evidence_snapshot_of e source p refs now) \<noteq> es_snapshot_id (evidence_snapshot_of e old q refs' now')"
  proof
    assume "es_snapshot_id (evidence_snapshot_of e source p refs now) = es_snapshot_id (evidence_snapshot_of e old q refs' now')"
    then have "(''evidence:'' @ ei_alert_id source @ '':'' @ show_int (ei_alert_version source)) @ CHR '':'' # canonical_hash e (content_of e source) =
      (''evidence:'' @ ei_alert_id old @ '':'' @ show_int (ei_alert_version old)) @ CHR '':'' # canonical_hash e (content_of e old)"
      using injD [OF assms(2)] by fastforce
    from after_colon [OF this colon colon] show False using h by contradiction
  qed
  moreover have "es_chain_hash (evidence_snapshot_of e source p refs now) \<noteq> es_chain_hash (evidence_snapshot_of e old q refs' now')"
    using chain_inject [OF assms(1)] h by auto
  ultimately show ?thesis using h assms(5) by (auto simp: conflicts_def simp del: snapshot_fields(8))
qed

text \<open>A capture is never rejected by the constraints of the ledger. In a database whose ledger is in
  order, an event of an alert without a snapshot at its current version, for which the builder makes a
  snapshot, is stored: snapshot, its references and its explanation are appended together and the
  snapshot's id is returned. (The hash and the name-based id are taken to be injective, hashes hold no
  colon, and floats are written by \<open>repr\<close>.)\<close>

theorem capture_stores:
  assumes "ledger_ok e db" "inj (env_sha256 e)" "inj (env_uuid5 e)" "\<And>x. CHR '':'' \<notin> set (env_sha256 e x)"
    and "float_text (je_float e) (floats_of (content_of e source) \<union> \<Union> (floats_of ` es_content ` set (lg_snapshots db)))"
    and "map_of event ''alert_id'' = Some v" "uuid_of e v = Inr i" "lg_alerts db i = Some a" "snapshot_at db i (la_version a) = None"
    and "captures e now event i a db source s ex"
  shows "capture_alert e now event db = (Inr (es_snapshot_id s), db\<lparr>lg_snapshots := lg_snapshots db @ [s],
    lg_references := lg_references db @ map (Pair (es_snapshot_id s)) (es_references s), lg_explanations := lg_explanations db @ [ex]\<rparr>)"
proof -
  obtain refs where s: "s = evidence_snapshot_of e source (previous_hash db i) refs now" "ei_alert_id source = i" "ei_alert_version source = la_version a"
    using captures_snapshot [OF assms(10)] .
  have "\<not> conflicts s t" if t: "t \<in> set (lg_snapshots db)" for t
  proof -
    obtain old q refs' now' where o: "t = evidence_snapshot_of e old q refs' now'"
      using assms(1) t by (auto simp: ledger_ok_def built_def)
    have "float_text (je_float e) (floats_of (content_of e source) \<union> floats_of (content_of e old))"
      using t o by (intro float_text_subset [OF assms(5)]) force
    moreover have "(ei_alert_id source, ei_alert_version source) \<noteq> (ei_alert_id old, ei_alert_version old)"
      using assms(9) t o s(2,3) by (auto simp: snapshot_at_None)
    ultimately show ?thesis unfolding s(1) o by (rule no_conflict [OF assms(2,3,4)])
  qed
  then have "\<not> list_ex (conflicts s) (lg_snapshots db)" by (auto simp: list_ex_iff)
  then have "store_snapshot s ex db = Inr (db\<lparr>lg_snapshots := lg_snapshots db @ [s],
    lg_references := lg_references db @ map (Pair (es_snapshot_id s)) (es_references s), lg_explanations := lg_explanations db @ [ex]\<rparr>)"
    by (simp only: store_snapshot_def if_False)
  then show ?thesis using assms(6-9) fresh_Inr [OF assms(10)] by (simp add: capture_alert_def)
qed

section \<open>Lost evidence\<close>

lemma built_first_reference:
  assumes "build_evidence e source p now = Inr (s, ex)"
  shows "es_references s \<noteq> [] \<and> ef_evidence_id (hd (es_references s)) = ei_campaign_evidence_event_id source"
proof -
  obtain refs where "s = evidence_snapshot_of e source p refs now" "references_of e source = Inr refs"
    using build_snapshot [OF assms] by blast
  then show ?thesis by (auto simp: references_of_def split: sum.splits)
qed

text \<open>Evidence is lost when alert events are captured late. The snapshot is labelled with the version
  the alert has in the database, not with the version of the event. If an alert without a snapshot at
  its current version gets an event and then a second one (for example the events of its versions 1 and
  2, both handled after the alert reached version 2), the first event's evidence is stored under the
  current version and the second event is answered with that same snapshot: nothing of the second
  event's evidence enters the ledger, whatever the second event says and whenever it is handled.\<close>

theorem evidence_lost:
  assumes "map_of event ''alert_id'' = Some v" "uuid_of e v = Inr i" "lg_alerts db i = Some a" "snapshot_at db i (la_version a) = None"
    and "captures e now event i a db source s ex" "store_snapshot s ex db = Inr db'"
    and "map_of second ''alert_id'' = Some w" "uuid_of e w = Inr i"
  shows "capture_alert e now event db = (Inr (es_snapshot_id s), db') \<and> es_alert_version s = la_version a \<and>
    ef_evidence_id (hd (es_references s)) = py_str e (the (map_of event ''evidence_event_id'')) \<and>
    capture_alert e later second db' = (Inr (es_snapshot_id s), db')"
proof -
  obtain refs where s: "s = evidence_snapshot_of e source (previous_hash db i) refs now" "ei_alert_id source = i" "ei_alert_version source = la_version a"
    using captures_snapshot [OF assms(5)] .
  have "capture_alert e now event db = capture_fresh e now event i a db" using assms(1-4) by (simp add: capture_alert_def)
  then have one: "capture_alert e now event db = (Inr (es_snapshot_id s), db')" using fresh_Inr [OF assms(5)] assms(6) by simp
  have ref: "ef_evidence_id (hd (es_references s)) = py_str e (the (map_of event ''evidence_event_id''))"
    using assms(5) built_first_reference gather_alert unfolding captures_def by fastforce
  note db' = store_cases [OF assms(6), THEN conjunct2]
  have "filter (\<lambda>t. es_alert_version t = la_version a) (snapshots_of db i) = []"
    using assms(4) by (auto simp: snapshot_at_None snapshots_of_def filter_empty_conv)
  then have none: "find (\<lambda>t. es_alert_version t = la_version a) (snapshots_of db i) = None"
    by (auto simp: find_None_iff filter_empty_conv)
  have append: "find P (xs @ [x]) = (case find P xs of None \<Rightarrow> if P x then Some x else None | Some y \<Rightarrow> Some y)" for P and xs :: "evidence_snapshot list" and x
    by (induction xs) auto
  have "es_alert_id s = i" "es_alert_version s = la_version a" using s by simp_all
  moreover from this have "snapshots_of db' i = snapshots_of db i @ [s]" by (simp add: db' snapshots_of_def)
  moreover have "lg_alerts db' i = Some a" using assms(3) by (simp add: db')
  ultimately have "snapshot_at db' i (la_version a) = Some s" "lg_alerts db' i = Some a" "es_alert_version s = la_version a"
    using none by (simp_all add: snapshot_at_def append)
  then show ?thesis using one ref assms(7,8) by (simp add: capture_alert_def)
qed

section \<open>A ledger with one alert\<close>

text \<open>An injective text of a string without colons, as a hexadecimal digest has none.\<close>

definition nibble :: "nat \<Rightarrow> char" where
  "nibble n = char_of (65 + n)"

definition nibbles :: "string \<Rightarrow> string" where
  "nibbles s = map (\<lambda>c. nibble (of_char c div 16)) s @ map (\<lambda>c. nibble (of_char c mod 16)) s"

lemma nibble_bounds: "of_char c div 16 < (16 :: nat)" "of_char c mod 16 < (16 :: nat)"
  using of_char_mod_256 [of c] by (simp_all add: less_mult_imp_div_less)

lemma of_char_nibble: "n < 16 \<Longrightarrow> of_char (nibble n) = 65 + n"
  by (simp add: nibble_def)

lemma nibble_inject: "m < 16 \<Longrightarrow> n < 16 \<Longrightarrow> nibble m = nibble n \<Longrightarrow> m = n"
  by (metis add_left_cancel of_char_nibble)

lemma nibbles_inj: "inj nibbles"
proof (rule injI)
  fix s t assume eq: "nibbles s = nibbles t"
  from arg_cong [OF eq, of length] have len: "length s = length t" by (simp add: nibbles_def)
  have "s ! k = t ! k" if "k < length s" for k
  proof -
    have "nibble (of_char (s ! k) div 16) = nibble (of_char (t ! k) div 16)"
      using arg_cong [OF eq, of "\<lambda>l. l ! k"] that len by (simp add: nibbles_def nth_append)
    moreover have "nibble (of_char (s ! k) mod 16) = nibble (of_char (t ! k) mod 16)"
      using arg_cong [OF eq, of "\<lambda>l. l ! (length s + k)"] that len by (simp add: nibbles_def nth_append)
    ultimately have "(of_char (s ! k) :: nat) div 16 = of_char (t ! k) div 16" "(of_char (s ! k) :: nat) mod 16 = of_char (t ! k) mod 16"
      using nibble_inject nibble_bounds by blast+
    then have "(of_char (s ! k) :: nat) = of_char (t ! k)" by (metis div_mult_mod_eq)
    then show ?thesis by simp
  qed
  then show "s = t" using len by (simp add: list_eq_iff_nth_eq)
qed

lemma nibbles_colon: "CHR '':'' \<notin> set (nibbles s)"
proof -
  have "nibble n \<noteq> CHR '':''" if "n < 16" for n
    using of_char_nibble [OF that] by auto
  then have "nibble (of_char c div 16) \<noteq> CHR '':''" "nibble (of_char c mod 16) \<noteq> CHR '':''" for c
    using nibble_bounds by blast+
  then show ?thesis by (simp add: nibbles_def image_iff) metis
qed

definition capture_example_env :: capture_env where
  "capture_example_env = \<lparr>env_uuid5 = (\<lambda>s. s), env_sha256 = nibbles, env_isoformat = show_int, env_str_datetime = show_int,
     je_float = (\<lambda>r. ''0.5''), je_json_time = show_int, je_str = (\<lambda>v. []), je_parse_float = (\<lambda>s. None),
     cv_parse_uuid = Some, cv_parse_int = (\<lambda>s. None)\<rparr>"

definition example_alert :: ledger_alert where
  "example_alert = \<lparr>la_campaign_id = ''c'', la_alert_type = ''MANIPULATION_RISK'', la_severity = ''HIGH'', la_version = 2\<rparr>"

definition ledger_example :: ledger_db where
  "ledger_example = \<lparr>lg_alerts = [''a'' \<mapsto> example_alert],
     lg_campaigns = [''c'' \<mapsto> \<lparr>lc_scope_id = ''LIVE'', lc_asset_id = ''BTC'', lc_stage = ''WARNING'', lc_dominant_narrative_id = None\<rparr>],
     lg_campaign_evidence = [''e1'' \<mapsto> (seconds 1, [(''market_score'', PFloat (1 / 2))]), ''e2'' \<mapsto> (seconds 2, [(''market_score'', PFloat (1 / 2))])],
     lg_windows = Map.empty, lg_revisions = Map.empty, lg_lineages = Map.empty, lg_narratives = Map.empty, lg_graphs = Map.empty,
     lg_verifications = [], lg_snapshots = [], lg_references = [], lg_explanations = []\<rparr>"

definition alert_event :: "string \<Rightarrow> payload" where
  "alert_event i = [(''alert_id'', PStr ''a''), (''evidence_event_id'', PStr i)]"

definition example_source :: evidence_input where
  "example_source = \<lparr>ei_alert_id = ''a'', ei_campaign_id = ''c'', ei_scope_id = ''LIVE'', ei_asset_id = ''BTC'', ei_alert_version = 2,
     ei_alert_type = ''MANIPULATION_RISK'', ei_severity = ''HIGH'', ei_stage = ''WARNING'', ei_evidence_cutoff = seconds 1,
     ei_campaign_evidence_event_id = ''e1'', ei_fusion = [(''market_score'', PFloat (1 / 2))], ei_feature = None, ei_feature_lineage = None,
     ei_narrative = None, ei_graph = None, ei_verifications = []\<rparr>"

lemma example_env: "inj (env_sha256 capture_example_env)" "inj (env_uuid5 capture_example_env)" "CHR '':'' \<notin> set (env_sha256 capture_example_env x)"
  by (simp_all add: capture_example_env_def nibbles_inj nibbles_colon)

lemma example_floats: "float_text (je_float capture_example_env) (floats_of (content_of e example_source))"
  by (simp add: float_text_def capture_example_env_def content_of_def input_fields_def opt_dict_def example_source_def number_char_def is_digit_def)

lemma example_gather: "gather capture_example_env ledger_example ''a'' example_alert
    \<lparr>lc_scope_id = ''LIVE'', lc_asset_id = ''BTC'', lc_stage = ''WARNING'', lc_dominant_narrative_id = None\<rparr> ''e1'' (seconds 1)
    [(''market_score'', PFloat (1 / 2))] = Inr example_source"
  by (simp add: gather_def feature_evidence_def graph_evidence_def narrative_evidence_def verifications_before_def get_def example_source_def example_alert_def)

lemma example_builds: "\<exists>s ex. build_evidence e example_source p now = Inr (s, ex)"
  by (simp add: build_evidence_def references_of_def explain_def example_source_def score_names_def get_def py_float_def number_of_def
      corroborated_def truthy_def Let_def)

lemma example_captures: "\<exists>s ex. captures capture_example_env now (alert_event ''e1'') ''a'' example_alert ledger_example example_source s ex"
proof -
  have "map_of (alert_event ''e1'') ''evidence_event_id'' = Some (PStr ''e1'')" "py_str capture_example_env (PStr ''e1'') = ''e1''"
    "lg_campaigns ledger_example ''c'' = Some \<lparr>lc_scope_id = ''LIVE'', lc_asset_id = ''BTC'', lc_stage = ''WARNING'', lc_dominant_narrative_id = None\<rparr>"
    "lg_campaign_evidence ledger_example ''e1'' = Some (seconds 1, [(''market_score'', PFloat (1 / 2))])"
    by (simp_all add: alert_event_def py_str_def ledger_example_def)
  then show ?thesis using example_gather example_builds unfolding captures_def by (metis ledger_alert.select_convs(1) example_alert_def)
qed

lemma example_event: "map_of (alert_event j) ''alert_id'' = Some (PStr ''a'')" "uuid_of capture_example_env (PStr ''a'') = Inr ''a''"
  "lg_alerts ledger_example ''a'' = Some example_alert" "snapshot_at ledger_example ''a'' v = None"
  "map_of (alert_event j) ''evidence_event_id'' = Some (PStr j)" "py_str capture_example_env (PStr j) = j"
  by (simp_all add: alert_event_def uuid_of_def py_str_def capture_example_env_def ledger_example_def snapshot_at_def snapshots_of_def)

lemma example_ok: "ledger_ok e ledger_example"
  by (simp add: ledger_ok_def ledger_example_def snapshots_of_def)

theorem chain_tamper_evident_witness:
  "list_all2 (same_evidence capture_example_env) [evidence_snapshot_of capture_example_env example_source None [] 0] [evidence_snapshot_of capture_example_env example_source None [] 7]"
  by (rule chain_tamper_evident) (simp_all add: example_env example_floats chain_head_def)

theorem ledger_chains_witness: "ledger_ok capture_example_env (snd (capture_alert capture_example_env 7 (alert_event ''e1'') ledger_example))"
proof (rule ledger_chains)
  have "ledger_move capture_example_env ledger_example
    (evidence_step capture_example_env 7 (\<lparr>ce_event_id = ''x'', ce_origin_event_id = None, ce_delivery_event_id = None, ce_event_type = ev_alert_created,
      ce_schema_version = 1, ce_source = [], ce_source_event_id = [], ce_source_sequence = None, ce_asset_id = None, ce_event_time = 0,
      ce_ingested_at = 0, ce_processed_at = None, ce_partition_key = [], ce_replay = undefined, ce_trace = undefined,
      ce_payload = alert_event ''e1''\<rparr>) ledger_example)"
    by (rule handled)
  then show "(ledger_move capture_example_env)\<^sup>*\<^sup>* ledger_example (snd (capture_alert capture_example_env 7 (alert_event ''e1'') ledger_example))"
    by (simp add: evidence_step_def ledger_event_def)
qed (simp_all add: ledger_example_def)

theorem capture_stores_witness: "\<exists>s ex. capture_alert capture_example_env 7 (alert_event ''e1'') ledger_example =
  (Inr (es_snapshot_id s), ledger_example\<lparr>lg_snapshots := lg_snapshots ledger_example @ [s],
    lg_references := lg_references ledger_example @ map (Pair (es_snapshot_id s)) (es_references s),
    lg_explanations := lg_explanations ledger_example @ [ex]\<rparr>)"
proof -
  obtain s ex where "captures capture_example_env 7 (alert_event ''e1'') ''a'' example_alert ledger_example example_source s ex"
    using example_captures by blast
  from capture_stores [OF example_ok example_env(1,2) example_env(3) _ example_event(1-4) this]
  show ?thesis using example_floats by (simp add: ledger_example_def) blast
qed

theorem evidence_lost_witness: "\<exists>(s :: evidence_snapshot) db. capture_alert capture_example_env 7 (alert_event ''e1'') ledger_example = (Inr (es_snapshot_id s), db) \<and>
  es_alert_version s = 2 \<and> ef_evidence_id (hd (es_references s)) = ''e1'' \<and>
  capture_alert capture_example_env 9 (alert_event ''e2'') db = (Inr (es_snapshot_id s), db)"
proof -
  obtain s ex where c: "captures capture_example_env 7 (alert_event ''e1'') ''a'' example_alert ledger_example example_source s ex"
    using example_captures by blast
  obtain db where db: "store_snapshot s ex ledger_example = Inr db"
    by (simp add: store_snapshot_def ledger_example_def)
  have "capture_alert capture_example_env 7 (alert_event ''e1'') ledger_example = (Inr (es_snapshot_id s), db) \<and>
    es_alert_version s = la_version example_alert \<and>
    ef_evidence_id (hd (es_references s)) = py_str capture_example_env (the (map_of (alert_event ''e1'') ''evidence_event_id'')) \<and>
    capture_alert capture_example_env 9 (alert_event ''e2'') db = (Inr (es_snapshot_id s), db)"
    by (rule evidence_lost [OF example_event(1-4) c db example_event(1,2)])
  then have *: "capture_alert capture_example_env 7 (alert_event ''e1'') ledger_example = (Inr (es_snapshot_id s), db) \<and>
    es_alert_version s = 2 \<and> ef_evidence_id (hd (es_references s)) = ''e1'' \<and>
    capture_alert capture_example_env 9 (alert_event ''e2'') db = (Inr (es_snapshot_id s), db)"
    by (simp only: example_event option.sel example_alert_def ledger_alert.select_convs)
  show ?thesis by (rule exI [of _ s], rule exI [of _ db], rule *)
qed

end
