(* ===== verification/Access.thy ===== *)
theory Access
  imports Claim_Text
begin

text \<open>
  Identity and access (\<open>security/auth.py\<close>, \<open>api/routes/auth.py\<close>): roles and their permissions, service
  account keys, authentication of a request by a bearer token, the permission a route asks for, and the
  administration of tenants, memberships, service accounts and keys over their tables. The HMAC, the
  decoding of an OIDC token, \<open>str\<close> of a JSON value and the random parts of a new key are parameters.
\<close>

section \<open>Answers of the interface\<close>

text \<open>A request ends with a value, with an \<open>HTTPException\<close> or with an exception the framework turns into
  a server error.\<close>

datatype api_error = Http nat string | Server_Error py_exn

type_synonym 'a answer = "api_error + 'a"

record http_request =
  rq_method :: string
  rq_path :: string
  rq_headers :: "string \<rightharpoonup> string"

section \<open>Roles\<close>

datatype role = ro_platform_admin | ro_tenant_admin | ro_analyst | ro_reviewer | ro_viewer | ro_service

fun role_value :: "role \<Rightarrow> string" where
  "role_value ro_platform_admin = ''PLATFORM_ADMIN''"
| "role_value ro_tenant_admin = ''TENANT_ADMIN''"
| "role_value ro_analyst = ''ANALYST''"
| "role_value ro_reviewer = ''REVIEWER''"
| "role_value ro_viewer = ''VIEWER''"
| "role_value ro_service = ''SERVICE''"

definition all_roles :: "role list" where
  "all_roles = [ro_platform_admin, ro_tenant_admin, ro_analyst, ro_reviewer, ro_viewer, ro_service]"

text \<open>\<open>Role(value)\<close>.\<close>

definition role_of :: "string \<Rightarrow> role option" where
  "role_of s = find (\<lambda>r. role_value r = s) all_roles"

fun role_permissions :: "role \<Rightarrow> string set" where
  "role_permissions ro_platform_admin = {''*''}"
| "role_permissions ro_tenant_admin = {''tenant:manage'', ''service-account:manage'', ''notification:manage'', ''investigation:write'',
     ''alert:write'', ''read''}"
| "role_permissions ro_analyst = {''investigation:write'', ''alert:write'', ''feedback:write'', ''read''}"
| "role_permissions ro_reviewer = {''feedback:adjudicate'', ''policy:approve'', ''read''}"
| "role_permissions ro_viewer = {''read''}"
| "role_permissions ro_service = {''ingestion:write'', ''checkpoint:write'', ''read''}"

record principal =
  pr_subject :: string
  pr_tenant_id :: string
  pr_roles :: "role set"
  pr_auth_method :: string
  pr_service_account_id :: "uuid option"

definition has_permission :: "principal \<Rightarrow> string \<Rightarrow> bool" where
  "has_permission p permission \<longleftrightarrow> (\<exists>r \<in> pr_roles p. ''*'' \<in> role_permissions r \<or> permission \<in> role_permissions r)"

record access_env =
  ax_hmac :: "string \<Rightarrow> string \<Rightarrow> string"
  ax_decode :: "string \<Rightarrow> payload option"
  ax_str :: "py_value \<Rightarrow> string"

definition value_text :: "access_env \<Rightarrow> py_value \<Rightarrow> string" where
  "value_text e v = (case v of PStr s \<Rightarrow> s | _ \<Rightarrow> ax_str e v)"

text \<open>\<open>value.split(",")\<close>.\<close>

fun split_commas :: "string \<Rightarrow> string list" where
  "split_commas [] = [[]]"
| "split_commas (c # cs) = (if c = CHR '','' then [] # split_commas cs
     else (case split_commas cs of [] \<Rightarrow> [[c]] | w # ws \<Rightarrow> (c # w) # ws))"

definition role_names :: "access_env \<Rightarrow> py_value \<Rightarrow> string list" where
  "role_names e v = (case v of PStr s \<Rightarrow> map strip (split_commas s) | PList vs \<Rightarrow> map (value_text e) vs | _ \<Rightarrow> [])"

definition normalize_roles :: "access_env \<Rightarrow> py_value \<Rightarrow> role set answer" where
  "normalize_roles e v = (let rs = map (role_of \<circ> upper) (filter (\<lambda>n. n \<noteq> []) (role_names e v))
     in if None \<in> set rs then Inl (Http 403 ''identity contains an unsupported role'') else Inr (set (map the rs)))"

section \<open>Service account keys\<close>

definition raw_key :: "string \<Rightarrow> string \<Rightarrow> string" where
  "raw_key key_id secret = ''s2m_'' @ key_id @ ''.'' @ secret"

definition hash_service_secret :: "access_env \<Rightarrow> string \<Rightarrow> string \<Rightarrow> string \<Rightarrow> string" where
  "hash_service_secret e key_id secret pepper = ax_hmac e pepper (key_id @ ''.'' @ secret)"

definition parse_service_key :: "string \<Rightarrow> (string \<times> string) option" where
  "parse_service_key raw = (if \<not> prefix ''s2m_'' raw \<or> CHR ''.'' \<notin> set raw then None
     else let rest = drop 4 raw; key_id = takeWhile (\<lambda>c. c \<noteq> CHR ''.'') rest; secret = drop 1 (dropWhile (\<lambda>c. c \<noteq> CHR ''.'') rest)
     in if length key_id \<noteq> 16 \<or> secret = [] then None else Some (key_id, secret))"

section \<open>Tables\<close>

record tenant_row =
  te_name :: string
  te_status :: string

record membership_row =
  me_tenant_id :: string
  me_subject :: string
  me_roles :: "string list"

record account_row =
  sa_tenant_id :: string
  sa_name :: string
  sa_roles :: "string list"
  sa_status :: string
  sa_created_by :: string

record key_row =
  sk_service_account_id :: uuid
  sk_secret_hash :: string
  sk_key_prefix :: string
  sk_created_by :: string
  sk_expires_at :: datetime
  sk_last_used_at :: "datetime option"
  sk_revoked_at :: "datetime option"
  sk_rotated_from :: "string option"

record auth_event_row =
  ae_tenant_id :: string
  ae_subject :: string
  ae_key_id :: string

record auth_db =
  au_tenants :: "string \<rightharpoonup> tenant_row"
  au_memberships :: "membership_row list"
  au_accounts :: "uuid \<rightharpoonup> account_row"
  au_keys :: "string \<rightharpoonup> key_row"
  au_events :: "auth_event_row list"

record access_settings =
  se_environment :: string
  se_development_auth_enabled :: bool
  se_auth_required :: bool
  se_default_tenant_id :: string
  se_oidc_issuer :: "string option"
  se_oidc_audience :: "string option"
  se_oidc_jwks_url :: "string option"
  se_oidc_tenant_claim :: string
  se_oidc_roles_claim :: string
  se_service_key_pepper :: string
  se_service_key_default_ttl_days :: int

section \<open>Authentication\<close>

definition account_subject :: "uuid \<Rightarrow> string" where
  "account_subject i = ''service-account:'' @ i"

definition key_valid :: "access_env \<Rightarrow> access_settings \<Rightarrow> datetime \<Rightarrow> string \<Rightarrow> string \<Rightarrow> key_row \<Rightarrow> account_row \<Rightarrow> bool" where
  "key_valid e st now key_id secret k a \<longleftrightarrow> hash_service_secret e key_id secret (se_service_key_pepper st) = sk_secret_hash k \<and>
     sk_revoked_at k = None \<and> now < sk_expires_at k \<and> sa_status a = ''ACTIVE''"

definition key_used :: "datetime \<Rightarrow> string \<Rightarrow> key_row \<Rightarrow> account_row \<Rightarrow> auth_db \<Rightarrow> auth_db" where
  "key_used now key_id k a db = db\<lparr>au_keys := (au_keys db)(key_id \<mapsto> k\<lparr>sk_last_used_at := Some now\<rparr>),
     au_events := au_events db @ [\<lparr>ae_tenant_id = sa_tenant_id a, ae_subject = account_subject (sk_service_account_id k), ae_key_id = key_id\<rparr>]\<rparr>"

definition service_principal :: "access_env \<Rightarrow> key_row \<Rightarrow> account_row \<Rightarrow> principal answer" where
  "service_principal e k a = (case normalize_roles e (PList (map PStr (sa_roles a))) of Inl x \<Rightarrow> Inl x
     | Inr roles \<Rightarrow> Inr \<lparr>pr_subject = account_subject (sk_service_account_id k), pr_tenant_id = sa_tenant_id a, pr_roles = roles,
         pr_auth_method = ''service_key'', pr_service_account_id = Some (sk_service_account_id k)\<rparr>)"

definition authenticate_service_key :: "access_env \<Rightarrow> access_settings \<Rightarrow> datetime \<Rightarrow> string \<Rightarrow> auth_db \<Rightarrow> principal answer \<times> auth_db" where
  "authenticate_service_key e st now raw db = (case parse_service_key raw of
     None \<Rightarrow> (Inl (Http 401 ''invalid service account key''), db)
   | Some (key_id, secret) \<Rightarrow> (case au_keys db key_id of None \<Rightarrow> (Inl (Http 401 ''invalid service account key''), db)
     | Some k \<Rightarrow> (case au_accounts db (sk_service_account_id k) of None \<Rightarrow> (Inl (Http 401 ''invalid service account key''), db)
       | Some a \<Rightarrow> (if key_valid e st now key_id secret k a then (service_principal e k a, key_used now key_id k a db)
           else (Inl (Http 401 ''invalid or expired service account key''), db)))))"

definition nonempty_text :: "string option \<Rightarrow> bool" where
  "nonempty_text v \<longleftrightarrow> v \<noteq> None \<and> v \<noteq> Some []"

definition decode_oidc_token :: "access_env \<Rightarrow> access_settings \<Rightarrow> string \<Rightarrow> payload answer" where
  "decode_oidc_token e st token = (if \<not> (nonempty_text (se_oidc_issuer st) \<and> nonempty_text (se_oidc_audience st) \<and> nonempty_text (se_oidc_jwks_url st))
     then Inl (Http 503 ''OIDC is not configured'')
     else (case ax_decode e token of None \<Rightarrow> Inl (Http 401 ''invalid or expired access token'') | Some d \<Rightarrow> Inr d))"

definition token_claim :: "payload \<Rightarrow> string \<Rightarrow> py_value" where
  "token_claim d k = (case map_of d k of None \<Rightarrow> PNone | Some v \<Rightarrow> v)"

definition principal_from_oidc :: "access_env \<Rightarrow> access_settings \<Rightarrow> payload \<Rightarrow> principal answer" where
  "principal_from_oidc e st d = (let tenant = token_claim d (se_oidc_tenant_claim st)
     in if \<not> truthy tenant then Inl (Http 403 ''access token has no tenant claim'')
        else case normalize_roles e (token_claim d (se_oidc_roles_claim st)) of Inl x \<Rightarrow> Inl x
        | Inr roles \<Rightarrow> (if roles = {} then Inl (Http 403 ''access token has no authorized roles'')
          else case map_of d ''sub'' of None \<Rightarrow> Inl (Server_Error (KeyError ''sub''))
          | Some subject \<Rightarrow> Inr \<lparr>pr_subject = value_text e subject, pr_tenant_id = value_text e tenant, pr_roles = roles,
              pr_auth_method = ''oidc'', pr_service_account_id = None\<rparr>))"

definition header :: "http_request \<Rightarrow> string \<Rightarrow> string \<Rightarrow> string" where
  "header rq name otherwise = (case rq_headers rq name of None \<Rightarrow> otherwise | Some v \<Rightarrow> v)"

definition bearer :: "http_request \<Rightarrow> bool" where
  "bearer rq \<longleftrightarrow> prefix ''bearer '' (lower (header rq ''authorization'' []))"

definition bearer_token :: "http_request \<Rightarrow> string" where
  "bearer_token rq = strip (drop 7 (header rq ''authorization'' []))"

definition development_login :: "access_settings \<Rightarrow> bool" where
  "development_login st \<longleftrightarrow> lower (se_environment st) \<in> {''development'', ''test''} \<and> se_development_auth_enabled st"

definition development_principal :: "access_env \<Rightarrow> access_settings \<Rightarrow> http_request \<Rightarrow> principal answer" where
  "development_principal e st rq =
    (case normalize_roles e (PStr (header rq ''x-dev-roles'' ''PLATFORM_ADMIN,TENANT_ADMIN,ANALYST,REVIEWER'')) of Inl x \<Rightarrow> Inl x
     | Inr roles \<Rightarrow> Inr \<lparr>pr_subject = header rq ''x-dev-subject'' ''local-admin'', pr_tenant_id = header rq ''x-tenant-id'' (se_default_tenant_id st),
         pr_roles = roles, pr_auth_method = ''development'', pr_service_account_id = None\<rparr>)"

definition anonymous :: "access_settings \<Rightarrow> principal" where
  "anonymous st = \<lparr>pr_subject = ''anonymous-readonly'', pr_tenant_id = se_default_tenant_id st, pr_roles = {ro_viewer},
     pr_auth_method = ''anonymous'', pr_service_account_id = None\<rparr>"

text \<open>A request is authenticated once; the principal is kept in its state for later dependencies.\<close>

definition authenticate_request :: "access_env \<Rightarrow> access_settings \<Rightarrow> datetime \<Rightarrow> http_request \<Rightarrow> principal option \<Rightarrow> auth_db \<Rightarrow> principal answer \<times> auth_db" where
  "authenticate_request e st now rq cached db = (case cached of Some p \<Rightarrow> (Inr p, db)
   | None \<Rightarrow> (if bearer rq then
       (if prefix ''s2m_'' (bearer_token rq) then authenticate_service_key e st now (bearer_token rq) db
        else (case decode_oidc_token e st (bearer_token rq) of Inl x \<Rightarrow> Inl x | Inr d \<Rightarrow> principal_from_oidc e st d, db))
     else if development_login st then (development_principal e st rq, db)
     else if se_auth_required st then (Inl (Http 401 ''authentication required''), db)
     else (Inr (anonymous st), db)))"

section \<open>Authorization\<close>

definition required_permissions :: "http_request \<Rightarrow> string list" where
  "required_permissions rq =
    (if rq_method rq \<in> {''GET'', ''HEAD'', ''OPTIONS''} then [''read'']
     else if sublist ''/source-policies'' (rq_path rq) then [''source-policy:manage'']
     else if suffix ''/decision'' (rq_path rq) \<or> sublist ''/models/'' (rq_path rq) then [''policy:approve'']
     else if sublist ''/operations/model-drift'' (rq_path rq) \<or> sublist ''/surveillance'' (rq_path rq) then [''ingestion:write'']
     else [''investigation:write'', ''alert:write'', ''feedback:write''])"

definition authorize_api_request :: "http_request \<Rightarrow> principal \<Rightarrow> principal answer" where
  "authorize_api_request rq p = (if list_ex (has_permission p) (required_permissions rq) then Inr p
     else Inl (Http 403 (''one permission required: '' @ join '', '' (required_permissions rq))))"

definition require_permission :: "string \<Rightarrow> principal \<Rightarrow> unit answer" where
  "require_permission permission p = (if has_permission p permission then Inr ()
     else Inl (Http 403 (''permission required: '' @ permission)))"

end
