(* ===== verification/Investigations.thy ===== *)
theory Investigations
  imports Access Evidence_Capture "HOL-Library.AList"
begin

text \<open>
  The analysts' desk (\<open>api/routes/evidence.py\<close>): investigations over alerts and their evidence, the events
  written beside them, feedback and its adjudication. One function per route; a table is an association
  list in the order of insertion. Ids the database draws and the current time are given with the call.
  \<open>adjudicate_feedback\<close> reads without a lock, so its reading and its writing are two steps.
\<close>

section \<open>Rows and bodies\<close>

datatype investigation_status = is_open | is_triage | is_investigating | is_awaiting_review | is_closed

fun investigation_status_value :: "investigation_status \<Rightarrow> string" where
  "investigation_status_value is_open = ''OPEN''"
| "investigation_status_value is_triage = ''TRIAGE''"
| "investigation_status_value is_investigating = ''INVESTIGATING''"
| "investigation_status_value is_awaiting_review = ''AWAITING_REVIEW''"
| "investigation_status_value is_closed = ''CLOSED''"

datatype investigation_priority = ip_low | ip_medium | ip_high | ip_urgent

fun priority_value :: "investigation_priority \<Rightarrow> string" where
  "priority_value ip_low = ''LOW''"
| "priority_value ip_medium = ''MEDIUM''"
| "priority_value ip_high = ''HIGH''"
| "priority_value ip_urgent = ''URGENT''"

datatype feedback_label = fl_true_positive | fl_false_positive | fl_legitimate_event | fl_insufficient_evidence | fl_needs_monitoring

fun feedback_label_value :: "feedback_label \<Rightarrow> string" where
  "feedback_label_value fl_true_positive = ''TRUE_POSITIVE''"
| "feedback_label_value fl_false_positive = ''FALSE_POSITIVE''"
| "feedback_label_value fl_legitimate_event = ''LEGITIMATE_EVENT''"
| "feedback_label_value fl_insufficient_evidence = ''INSUFFICIENT_EVIDENCE''"
| "feedback_label_value fl_needs_monitoring = ''NEEDS_MONITORING''"

record investigation =
  iv_tenant_id :: string
  iv_scope_id :: string
  iv_alert_id :: uuid
  iv_snapshot_id :: uuid
  iv_title :: string
  iv_status :: investigation_status
  iv_priority :: investigation_priority
  iv_assigned_to :: "string option"
  iv_tags :: "string list"
  iv_sla_due_at :: datetime
  iv_disposition :: "string option"
  iv_version :: int
  iv_opened_by :: string
  iv_created_at :: datetime
  iv_updated_at :: datetime
  iv_closed_at :: "datetime option"

record investigation_event =
  ie_investigation_id :: uuid
  ie_event_type :: string
  ie_actor_id :: string
  ie_details :: payload
  ie_occurred_at :: datetime

record feedback =
  fb_investigation_id :: uuid
  fb_alert_id :: uuid
  fb_snapshot_id :: uuid
  fb_analyst_id :: string
  fb_label :: feedback_label
  fb_confidence :: real
  fb_rationale :: string
  fb_status :: string
  fb_adjudicated_by :: "string option"
  fb_adjudicated_at :: "datetime option"
  fb_adjudication_note :: "string option"

record desk =
  dk_investigations :: "(uuid \<times> investigation) list"
  dk_events :: "investigation_event list"
  dk_feedback :: "(uuid \<times> feedback) list"

record investigation_create =
  ic_alert_id :: uuid
  ic_snapshot_id :: uuid
  ic_title :: string
  ic_priority :: investigation_priority
  ic_assigned_to :: "string option"
  ic_tags :: "string list"
  ic_sla_hours :: int

record investigation_update =
  iu_status :: "investigation_status option"
  iu_priority :: "investigation_priority option"
  iu_assigned_to :: "string option"
  iu_tags :: "string list option"
  iu_disposition :: "string option"
  iu_expected_version :: int

record feedback_create =
  fc_label :: feedback_label
  fc_confidence :: real
  fc_rationale :: string

record feedback_adjudication =
  fa_accepted :: bool
  fa_note :: string

definition at_most :: "nat \<Rightarrow> string option \<Rightarrow> bool" where
  "at_most n v = (case v of None \<Rightarrow> True | Some s \<Rightarrow> length s \<le> n)"

definition valid_create :: "investigation_create \<Rightarrow> bool" where
  "valid_create b \<longleftrightarrow> 3 \<le> length (ic_title b) \<and> length (ic_title b) \<le> 255 \<and> at_most 128 (ic_assigned_to b) \<and> length (ic_tags b) \<le> 20 \<and>
     1 \<le> ic_sla_hours b \<and> ic_sla_hours b \<le> 720"

definition valid_update :: "investigation_update \<Rightarrow> bool" where
  "valid_update b \<longleftrightarrow> at_most 128 (iu_assigned_to b) \<and> (case iu_tags b of None \<Rightarrow> True | Some ts \<Rightarrow> length ts \<le> 20) \<and>
     at_most 64 (iu_disposition b) \<and> 1 \<le> iu_expected_version b"

definition valid_feedback :: "feedback_create \<Rightarrow> bool" where
  "valid_feedback b \<longleftrightarrow> unit_range (fc_confidence b) \<and> 10 \<le> length (fc_rationale b) \<and> length (fc_rationale b) \<le> 4000"

definition valid_adjudication :: "feedback_adjudication \<Rightarrow> bool" where
  "valid_adjudication b \<longleftrightarrow> 3 \<le> length (fa_note b) \<and> length (fa_note b) \<le> 4000"

section \<open>Investigations\<close>

text \<open>\<open>sorted(set(tags))\<close>.\<close>

definition tag_set :: "string list \<Rightarrow> string list" where
  "tag_set ts = sort (remdups ts)"

definition snapshot_with :: "ledger_db \<Rightarrow> uuid \<Rightarrow> evidence_snapshot option" where
  "snapshot_with db i = find (\<lambda>s. es_snapshot_id s = i) (lg_snapshots db)"

definition opened :: "uuid \<Rightarrow> string \<Rightarrow> investigation_create \<Rightarrow> datetime \<Rightarrow> investigation_event" where
  "opened i actor b now = \<lparr>ie_investigation_id = i, ie_event_type = ''OPENED'', ie_actor_id = actor,
     ie_details = [(''priority'', PStr (priority_value (ic_priority b))), (''tags'', str_list (tag_set (ic_tags b)))], ie_occurred_at = now\<rparr>"

definition create_investigation ::
    "ledger_db \<Rightarrow> datetime \<Rightarrow> uuid \<Rightarrow> investigation_create \<Rightarrow> string \<Rightarrow> principal \<Rightarrow> desk \<Rightarrow> investigation answer \<times> desk" where
  "create_investigation ldb now i b actor p d =
    (if \<not> valid_create b then (Inl (Http 422 ''validation''), d)
     else case (lg_alerts ldb (ic_alert_id b), snapshot_with ldb (ic_snapshot_id b)) of
       (Some a, Some s) \<Rightarrow> (if es_alert_id s \<noteq> ic_alert_id b then (Inl (Http 422 ''alert and evidence snapshot do not match''), d)
         else (case lg_campaigns ldb (la_campaign_id a) of None \<Rightarrow> (Inl (Http 422 ''alert campaign not found''), d)
           | Some c \<Rightarrow> (if map_of (dk_investigations d) i \<noteq> None then (Inl (Server_Error (IntegrityError ''investigations'')), d)
             else let r = \<lparr>iv_tenant_id = pr_tenant_id p, iv_scope_id = lc_scope_id c, iv_alert_id = ic_alert_id b, iv_snapshot_id = ic_snapshot_id b,
                    iv_title = ic_title b, iv_status = is_open, iv_priority = ic_priority b, iv_assigned_to = ic_assigned_to b,
                    iv_tags = tag_set (ic_tags b), iv_sla_due_at = now + seconds (3600 * ic_sla_hours b), iv_disposition = None, iv_version = 1,
                    iv_opened_by = actor, iv_created_at = now, iv_updated_at = now, iv_closed_at = None\<rparr>
               in (Inr r, d\<lparr>dk_investigations := dk_investigations d @ [(i, r)], dk_events := dk_events d @ [opened i actor b now]\<rparr>))))
     | _ \<Rightarrow> (Inl (Http 422 ''alert and evidence snapshot do not match''), d))"

text \<open>\<open>sla_breached\<close> of the response.\<close>

definition sla_breached :: "datetime \<Rightarrow> investigation \<Rightarrow> bool" where
  "sla_breached now r \<longleftrightarrow> iv_sla_due_at r < now \<and> iv_status r \<noteq> is_closed"

text \<open>Rows with equal \<open>updated_at\<close> come in the order of insertion, one of the orders the database allows.\<close>

definition list_investigations ::
    "datetime \<Rightarrow> principal \<Rightarrow> string \<Rightarrow> investigation_status option \<Rightarrow> string option \<Rightarrow> bool \<Rightarrow> nat \<Rightarrow> desk \<Rightarrow> (uuid \<times> investigation) list" where
  "list_investigations now p scope status assigned overdue_only limit d =
    take limit (sort_key (\<lambda>(_, r). - iv_updated_at r) (filter (\<lambda>(_, r). iv_tenant_id r = pr_tenant_id p \<and> iv_scope_id r = scope \<and>
      (case status of None \<Rightarrow> True | Some s \<Rightarrow> iv_status r = s) \<and> (case assigned of None \<Rightarrow> True | Some s \<Rightarrow> iv_assigned_to r = Some s) \<and>
      (overdue_only \<longrightarrow> iv_sla_due_at r < now \<and> iv_status r \<noteq> is_closed)) (dk_investigations d)))"

definition keep :: "'a option \<Rightarrow> 'a \<Rightarrow> 'a" where
  "keep v old = (case v of None \<Rightarrow> old | Some x \<Rightarrow> x)"

text \<open>\<open>model_dump(exclude_none=True, exclude={"expected_version"})\<close>.\<close>

definition changes :: "investigation_update \<Rightarrow> payload" where
  "changes b = (case iu_status b of None \<Rightarrow> [] | Some s \<Rightarrow> [(''status'', PStr (investigation_status_value s))]) @
     (case iu_priority b of None \<Rightarrow> [] | Some p \<Rightarrow> [(''priority'', PStr (priority_value p))]) @
     (case iu_assigned_to b of None \<Rightarrow> [] | Some s \<Rightarrow> [(''assigned_to'', PStr s)]) @
     (case iu_tags b of None \<Rightarrow> [] | Some ts \<Rightarrow> [(''tags'', str_list ts)]) @
     (case iu_disposition b of None \<Rightarrow> [] | Some s \<Rightarrow> [(''disposition'', PStr s)])"

definition updated :: "datetime \<Rightarrow> investigation_update \<Rightarrow> investigation \<Rightarrow> investigation" where
  "updated now b r = r\<lparr>iv_status := keep (iu_status b) (iv_status r),
     iv_closed_at := (if iu_status b = Some is_closed then Some now else iv_closed_at r), iv_priority := keep (iu_priority b) (iv_priority r),
     iv_assigned_to := (if map_of (changes b) ''assigned_to'' \<noteq> None then iu_assigned_to b else iv_assigned_to r),
     iv_tags := (case iu_tags b of None \<Rightarrow> iv_tags r | Some ts \<Rightarrow> tag_set ts),
     iv_disposition := (case iu_disposition b of None \<Rightarrow> iv_disposition r | Some s \<Rightarrow> Some s),
     iv_version := iv_version r + 1, iv_updated_at := now\<rparr>"

definition update_investigation :: "datetime \<Rightarrow> uuid \<Rightarrow> investigation_update \<Rightarrow> string \<Rightarrow> desk \<Rightarrow> investigation answer \<times> desk" where
  "update_investigation now i b actor d =
    (if \<not> valid_update b then (Inl (Http 422 ''validation''), d)
     else case map_of (dk_investigations d) i of None \<Rightarrow> (Inl (Http 404 ''investigation not found''), d)
     | Some r \<Rightarrow> (if iv_version r \<noteq> iu_expected_version b then (Inl (Http 409 ''investigation version conflict''), d)
       else (Inr (updated now b r), d\<lparr>dk_investigations := AList.update i (updated now b r) (dk_investigations d),
         dk_events := dk_events d @ [\<lparr>ie_investigation_id = i, ie_event_type = ''UPDATED'', ie_actor_id = actor, ie_details = changes b,
           ie_occurred_at = now\<rparr>]\<rparr>)))"

definition add_investigation_event :: "datetime \<Rightarrow> uuid \<Rightarrow> string \<Rightarrow> payload \<Rightarrow> string \<Rightarrow> desk \<Rightarrow> investigation_event answer \<times> desk" where
  "add_investigation_event now i kind details actor d =
    (if \<not> (2 \<le> length kind \<and> length kind \<le> 64) then (Inl (Http 422 ''validation''), d)
     else if map_of (dk_investigations d) i = None then (Inl (Http 404 ''investigation not found''), d)
     else let ev = \<lparr>ie_investigation_id = i, ie_event_type = upper kind, ie_actor_id = actor, ie_details = details, ie_occurred_at = now\<rparr>
          in (Inr ev, d\<lparr>dk_events := dk_events d @ [ev]\<rparr>))"

section \<open>Feedback\<close>

definition add_feedback :: "uuid \<Rightarrow> uuid \<Rightarrow> feedback_create \<Rightarrow> string \<Rightarrow> desk \<Rightarrow> feedback answer \<times> desk" where
  "add_feedback f i b actor d =
    (if \<not> valid_feedback b then (Inl (Http 422 ''validation''), d)
     else case map_of (dk_investigations d) i of None \<Rightarrow> (Inl (Http 404 ''investigation not found''), d)
     | Some r \<Rightarrow> (if map_of (dk_feedback d) f \<noteq> None then (Inl (Server_Error (IntegrityError ''analyst_feedback'')), d)
       else let row = \<lparr>fb_investigation_id = i, fb_alert_id = iv_alert_id r, fb_snapshot_id = iv_snapshot_id r, fb_analyst_id = actor,
              fb_label = fc_label b, fb_confidence = fc_confidence b, fb_rationale = fc_rationale b, fb_status = ''PENDING'',
              fb_adjudicated_by = None, fb_adjudicated_at = None, fb_adjudication_note = None\<rparr>
            in (Inr row, d\<lparr>dk_feedback := dk_feedback d @ [(f, row)]\<rparr>)))"

text \<open>Reading: the answer says whether the call goes on to write.\<close>

definition adjudicate_check :: "uuid \<Rightarrow> feedback_adjudication \<Rightarrow> desk \<Rightarrow> unit answer" where
  "adjudicate_check f b d =
    (if \<not> valid_adjudication b then Inl (Http 422 ''validation'')
     else case map_of (dk_feedback d) f of None \<Rightarrow> Inl (Http 404 ''feedback not found'')
     | Some row \<Rightarrow> (if fb_status row \<noteq> ''PENDING'' then Inl (Http 409 ''feedback has already been adjudicated'') else Inr ()))"

definition adjudicated :: "datetime \<Rightarrow> feedback_adjudication \<Rightarrow> string \<Rightarrow> feedback \<Rightarrow> feedback" where
  "adjudicated now b actor row = row\<lparr>fb_status := (if fa_accepted b then ''ACCEPTED'' else ''REJECTED''), fb_adjudicated_by := Some actor,
     fb_adjudicated_at := Some now, fb_adjudication_note := Some (fa_note b)\<rparr>"

text \<open>Writing: the columns the call set, on the row as it is when the call commits.\<close>

definition adjudicate_write :: "datetime \<Rightarrow> uuid \<Rightarrow> feedback_adjudication \<Rightarrow> string \<Rightarrow> desk \<Rightarrow> desk" where
  "adjudicate_write now f b actor d = (case map_of (dk_feedback d) f of None \<Rightarrow> d
     | Some row \<Rightarrow> d\<lparr>dk_feedback := AList.update f (adjudicated now b actor row) (dk_feedback d)\<rparr>)"

definition adjudicate_feedback :: "datetime \<Rightarrow> uuid \<Rightarrow> feedback_adjudication \<Rightarrow> string \<Rightarrow> desk \<Rightarrow> unit answer \<times> desk" where
  "adjudicate_feedback now f b actor d = (case adjudicate_check f b d of Inl x \<Rightarrow> (Inl x, d)
     | Inr _ \<Rightarrow> (Inr (), adjudicate_write now f b actor d))"

end
