(* ===== verification/Access_Admin.thy ===== *)
theory Access_Admin
  imports Access
begin

text \<open>
  The administration of identities (\<open>api/routes/auth.py\<close>): one function per route over the tables of
  Access. What the library draws at random, a new account's id and a new key's id and secret, is given
  with the operation. A route commits at its end: an answer that is an error leaves the tables as they
  were.
\<close>

section \<open>Request bodies\<close>

record tenant_create =
  tc_tenant_id :: string
  tc_name :: string

record membership_create =
  mc_subject :: string
  mc_roles :: "role list"

record service_account_create =
  sc_name :: string
  sc_roles :: "role list"
  sc_ttl_days :: "int option"

definition lower_alnum :: "char \<Rightarrow> bool" where
  "lower_alnum c \<longleftrightarrow> is_digit c \<or> (let n = of_char c :: nat in 97 \<le> n \<and> n \<le> 122)"

text \<open>The pattern \<open>^[a-z0-9][a-z0-9-]{1,62}[a-z0-9]$\<close> of a tenant id.\<close>

definition tenant_id_ok :: "string \<Rightarrow> bool" where
  "tenant_id_ok s \<longleftrightarrow> 3 \<le> length s \<and> length s \<le> 64 \<and> list_all (\<lambda>c. lower_alnum c \<or> c = CHR ''-'') s \<and>
     lower_alnum (hd s) \<and> lower_alnum (last s)"

definition valid_tenant :: "tenant_create \<Rightarrow> bool" where
  "valid_tenant b \<longleftrightarrow> tenant_id_ok (tc_tenant_id b) \<and> 2 \<le> length (tc_name b) \<and> length (tc_name b) \<le> 255"

definition valid_membership :: "membership_create \<Rightarrow> bool" where
  "valid_membership b \<longleftrightarrow> 1 \<le> length (mc_subject b) \<and> length (mc_subject b) \<le> 255 \<and> mc_roles b \<noteq> []"

definition valid_service_account :: "service_account_create \<Rightarrow> bool" where
  "valid_service_account b \<longleftrightarrow> 2 \<le> length (sc_name b) \<and> length (sc_name b) \<le> 128 \<and>
     (case sc_ttl_days b of None \<Rightarrow> True | Some d \<Rightarrow> 1 \<le> d \<and> d \<le> 365)"

section \<open>Routes\<close>

definition sorted_values :: "role set \<Rightarrow> string list" where
  "sorted_values rs = sorted_list_of_set (role_value ` rs)"

definition create_tenant :: "tenant_create \<Rightarrow> principal \<Rightarrow> auth_db \<Rightarrow> unit answer \<times> auth_db" where
  "create_tenant b p db = (case require_permission ''*'' p of Inl x \<Rightarrow> (Inl x, db)
   | Inr _ \<Rightarrow> (if \<not> valid_tenant b then (Inl (Http 422 ''validation''), db)
     else if au_tenants db (tc_tenant_id b) \<noteq> None then (Inl (Http 409 ''tenant already exists''), db)
     else (Inr (), db\<lparr>au_tenants := (au_tenants db)(tc_tenant_id b \<mapsto> \<lparr>te_name = tc_name b, te_status = ''ACTIVE''\<rparr>),
        au_memberships := au_memberships db @
          [\<lparr>me_tenant_id = tc_tenant_id b, me_subject = pr_subject p, me_roles = [role_value ro_tenant_admin]\<rparr>]\<rparr>)))"

text \<open>A membership names an existing tenant and is unique for its tenant and subject.\<close>

definition create_membership :: "access_env \<Rightarrow> membership_create \<Rightarrow> principal \<Rightarrow> auth_db \<Rightarrow> unit answer \<times> auth_db" where
  "create_membership e b p db = (case require_permission ''tenant:manage'' p of Inl x \<Rightarrow> (Inl x, db)
   | Inr _ \<Rightarrow> (if \<not> valid_membership b then (Inl (Http 422 ''validation''), db)
     else case normalize_roles e (PList (map (PStr \<circ> role_value) (mc_roles b))) of Inl x \<Rightarrow> (Inl x, db)
     | Inr roles \<Rightarrow> (if ro_platform_admin \<in> roles \<and> ro_platform_admin \<notin> pr_roles p
         then (Inl (Http 403 ''only platform admins can grant that role''), db)
       else if au_tenants db (pr_tenant_id p) = None \<or>
         list_ex (\<lambda>m. me_tenant_id m = pr_tenant_id p \<and> me_subject m = mc_subject b) (au_memberships db)
         then (Inl (Server_Error (IntegrityError ''user_memberships'')), db)
       else (Inr (), db\<lparr>au_memberships := au_memberships db @
         [\<lparr>me_tenant_id = pr_tenant_id p, me_subject = mc_subject b, me_roles = sorted_values roles\<rparr>]\<rparr>))))"

text \<open>\<open>_new_key\<close>; a \<open>ttl_days\<close> of zero counts as absent.\<close>

definition day :: timedelta where
  "day = seconds 86400"

definition new_key :: "access_env \<Rightarrow> access_settings \<Rightarrow> datetime \<Rightarrow> string \<Rightarrow> string \<Rightarrow> uuid \<Rightarrow> string \<Rightarrow> int option \<Rightarrow> string option \<Rightarrow> key_row" where
  "new_key e st now key_id secret account actor ttl_days rotated_from =
    (let ttl = (case ttl_days of None \<Rightarrow> se_service_key_default_ttl_days st | Some d \<Rightarrow> if d = 0 then se_service_key_default_ttl_days st else d)
     in \<lparr>sk_service_account_id = account, sk_secret_hash = hash_service_secret e key_id secret (se_service_key_pepper st),
        sk_key_prefix = ''s2m_'' @ key_id, sk_created_by = actor, sk_expires_at = now + day * ttl, sk_last_used_at = None,
        sk_revoked_at = None, sk_rotated_from = rotated_from\<rparr>)"

definition add_key :: "string \<Rightarrow> key_row \<Rightarrow> auth_db \<Rightarrow> auth_db answer" where
  "add_key key_id k db = (if au_keys db key_id \<noteq> None then Inl (Server_Error (IntegrityError ''service_account_keys''))
     else Inr (db\<lparr>au_keys := (au_keys db)(key_id \<mapsto> k)\<rparr>))"

definition create_service_account ::
    "access_env \<Rightarrow> access_settings \<Rightarrow> datetime \<Rightarrow> uuid \<Rightarrow> string \<Rightarrow> string \<Rightarrow> service_account_create \<Rightarrow> principal \<Rightarrow> auth_db \<Rightarrow> string answer \<times> auth_db" where
  "create_service_account e st now account key_id secret b p db = (case require_permission ''service-account:manage'' p of Inl x \<Rightarrow> (Inl x, db)
   | Inr _ \<Rightarrow> (if \<not> valid_service_account b then (Inl (Http 422 ''validation''), db)
     else if \<not> set (sc_roles b) \<subseteq> {ro_service, ro_viewer} then (Inl (Http 422 ''service accounts may only receive SERVICE and VIEWER roles''), db)
     else if au_tenants db (pr_tenant_id p) = None \<or> au_accounts db account \<noteq> None then (Inl (Server_Error (IntegrityError ''service_accounts'')), db)
     else let db1 = db\<lparr>au_accounts := (au_accounts db)(account \<mapsto> \<lparr>sa_tenant_id = pr_tenant_id p, sa_name = sc_name b,
                sa_roles = sort (map role_value (sc_roles b)), sa_status = ''ACTIVE'', sa_created_by = pr_subject p\<rparr>)\<rparr>
          in case add_key key_id (new_key e st now key_id secret account (pr_subject p) (sc_ttl_days b) None) db1 of
               Inl x \<Rightarrow> (Inl x, db) | Inr db2 \<Rightarrow> (Inr (raw_key key_id secret), db2)))"

definition account_key :: "principal \<Rightarrow> uuid \<Rightarrow> string \<Rightarrow> auth_db \<Rightarrow> key_row option" where
  "account_key p account key_id db = (case (au_accounts db account, au_keys db key_id) of
     (Some a, Some k) \<Rightarrow> if sa_tenant_id a = pr_tenant_id p \<and> sk_service_account_id k = account then Some k else None
   | _ \<Rightarrow> None)"

definition rotate_service_key ::
    "access_env \<Rightarrow> access_settings \<Rightarrow> datetime \<Rightarrow> string \<Rightarrow> string \<Rightarrow> uuid \<Rightarrow> string \<Rightarrow> principal \<Rightarrow> auth_db \<Rightarrow> string answer \<times> auth_db" where
  "rotate_service_key e st now new_id secret account key_id p db = (case require_permission ''service-account:manage'' p of Inl x \<Rightarrow> (Inl x, db)
   | Inr _ \<Rightarrow> (case account_key p account key_id db of None \<Rightarrow> (Inl (Http 404 ''service account key not found''), db)
     | Some k \<Rightarrow> (if sk_revoked_at k \<noteq> None then (Inl (Http 409 ''service account key is already revoked''), db)
       else let db1 = db\<lparr>au_keys := (au_keys db)(key_id \<mapsto> k\<lparr>sk_revoked_at := Some now\<rparr>)\<rparr>
            in case add_key new_id (new_key e st now new_id secret account (pr_subject p) None (Some key_id)) db1 of
                 Inl x \<Rightarrow> (Inl x, db) | Inr db2 \<Rightarrow> (Inr (raw_key new_id secret), db2))))"

definition revoke_service_key :: "datetime \<Rightarrow> uuid \<Rightarrow> string \<Rightarrow> principal \<Rightarrow> auth_db \<Rightarrow> unit answer \<times> auth_db" where
  "revoke_service_key now account key_id p db = (case require_permission ''service-account:manage'' p of Inl x \<Rightarrow> (Inl x, db)
   | Inr _ \<Rightarrow> (case account_key p account key_id db of None \<Rightarrow> (Inl (Http 404 ''service account key not found''), db)
     | Some k \<Rightarrow> (Inr (), db\<lparr>au_keys := (au_keys db)(key_id \<mapsto>
         k\<lparr>sk_revoked_at := (case sk_revoked_at k of None \<Rightarrow> Some now | Some t \<Rightarrow> Some t)\<rparr>)\<rparr>)))"

definition list_service_accounts :: "principal \<Rightarrow> auth_db \<Rightarrow> (uuid \<Rightarrow> account_row option) answer" where
  "list_service_accounts p db = (case require_permission ''service-account:manage'' p of Inl x \<Rightarrow> Inl x
   | Inr _ \<Rightarrow> Inr (\<lambda>i. case au_accounts db i of Some a \<Rightarrow> if sa_tenant_id a = pr_tenant_id p then Some a else None | None \<Rightarrow> None))"

text \<open>\<open>/auth/me\<close>.\<close>

definition current_identity :: "principal \<Rightarrow> string \<times> string \<times> string list \<times> string list" where
  "current_identity p = (pr_subject p, pr_tenant_id p, sorted_values (pr_roles p), sorted_list_of_set (\<Union> (role_permissions ` pr_roles p)))"

section \<open>Runs\<close>

text \<open>What can happen to the tables of identities: a route is called by some principal, or a request is
  authenticated. Every route runs in a transaction that locks the rows it changes.\<close>

datatype access_op =
    Op_Tenant tenant_create principal
  | Op_Membership membership_create principal
  | Op_Account datetime uuid string string service_account_create principal
  | Op_Rotate datetime string string uuid string principal
  | Op_Revoke datetime uuid string principal
  | Op_Authenticate datetime http_request "principal option"

fun access_step :: "access_env \<Rightarrow> access_settings \<Rightarrow> access_op \<Rightarrow> auth_db \<Rightarrow> auth_db" where
  "access_step e st (Op_Tenant b p) db = snd (create_tenant b p db)"
| "access_step e st (Op_Membership b p) db = snd (create_membership e b p db)"
| "access_step e st (Op_Account now i k s b p) db = snd (create_service_account e st now i k s b p db)"
| "access_step e st (Op_Rotate now k' s i k p) db = snd (rotate_service_key e st now k' s i k p db)"
| "access_step e st (Op_Revoke now i k p) db = snd (revoke_service_key now i k p db)"
| "access_step e st (Op_Authenticate now rq c) db = snd (authenticate_request e st now rq c db)"

definition access_run :: "access_env \<Rightarrow> access_settings \<Rightarrow> access_op list \<Rightarrow> auth_db \<Rightarrow> auth_db" where
  "access_run e st ops db = fold (access_step e st) ops db"

end
