(* ===== verification/Access_Correct.thy ===== *)
theory Access_Correct
  imports Access_Admin
begin

text \<open>
  What identities guarantee: a key authenticates from its issue to its expiry unless it is retired, a
  retired key never again, service accounts never hold more than their two roles, writes come from
  identified principals, and who may call the adjudication of feedback.
\<close>

section \<open>Roles and keys\<close>

lemma role_value_nonempty: "role_value r \<noteq> []"
  by (cases r) simp_all

lemma role_of_value: "role_of (upper (role_value r)) = Some r"
  by (cases r) (simp_all add: role_of_def all_roles_def upper_def upper_char_def)

lemma normalize_values: "normalize_roles e (PList (map (PStr \<circ> role_value) rs)) = Inr (set rs)"
proof -
  have names: "role_names e (PList (map (PStr \<circ> role_value) rs)) = map role_value rs"
    by (simp add: role_names_def value_text_def)
  have "filter (\<lambda>n. n \<noteq> []) (map role_value rs) = map role_value rs"
    using role_value_nonempty by (simp add: filter_id_conv)
  moreover have "map (role_of \<circ> upper) (map role_value rs) = map Some rs"
    by (simp add: role_of_value)
  ultimately show ?thesis unfolding normalize_roles_def names Let_def by (simp add: comp_def)
qed

lemma while_stop: "c \<notin> set x \<Longrightarrow> takeWhile (\<lambda>d. d \<noteq> c) (x @ c # y) = x" "c \<notin> set x \<Longrightarrow> dropWhile (\<lambda>d. d \<noteq> c) (x @ c # y) = c # y"
  by (induction x) auto

lemma parse_raw_key:
  "parse_service_key raw = Some (key_id, secret) \<longleftrightarrow> raw = raw_key key_id secret \<and> length key_id = 16 \<and> CHR ''.'' \<notin> set key_id \<and> secret \<noteq> []"
  (is "?parsed \<longleftrightarrow> ?raw")
proof
  assume ?parsed
  then have p: "prefix ''s2m_'' raw" "CHR ''.'' \<in> set raw" and k: "key_id = takeWhile (\<lambda>c. c \<noteq> CHR ''.'') (drop 4 raw)" "length key_id = 16"
    and s: "secret = drop 1 (dropWhile (\<lambda>c. c \<noteq> CHR ''.'') (drop 4 raw))" "secret \<noteq> []"
    by (auto simp: parse_service_key_def Let_def split: if_splits)
  obtain rest where raw: "raw = ''s2m_'' @ rest" using p(1) by (auto simp: prefix_def)
  have "CHR ''.'' \<in> set rest" using p(2) raw by simp
  then obtain x y where xy: "rest = x @ CHR ''.'' # y" "CHR ''.'' \<notin> set x" by (meson split_list_first)
  then have "takeWhile (\<lambda>c. c \<noteq> CHR ''.'') rest = x" "drop 1 (dropWhile (\<lambda>c. c \<noteq> CHR ''.'') rest) = y"
    by (simp_all add: while_stop)
  then show ?raw using k s raw xy by (simp add: raw_key_def)
next
  assume r: ?raw
  then have "takeWhile (\<lambda>c. c \<noteq> CHR ''.'') (key_id @ CHR ''.'' # secret) = key_id"
    "dropWhile (\<lambda>c. c \<noteq> CHR ''.'') (key_id @ CHR ''.'' # secret) = CHR ''.'' # secret"
    by (simp_all add: while_stop)
  then show ?parsed using r by (simp add: parse_service_key_def raw_key_def Let_def)
qed

section \<open>How the tables evolve\<close>

definition same_key :: "key_row \<Rightarrow> key_row \<Rightarrow> bool" where
  "same_key k k' \<longleftrightarrow> sk_service_account_id k' = sk_service_account_id k \<and> sk_secret_hash k' = sk_secret_hash k \<and>
     sk_expires_at k' = sk_expires_at k \<and> (sk_revoked_at k \<noteq> None \<longrightarrow> sk_revoked_at k' = sk_revoked_at k)"

definition grows :: "auth_db \<Rightarrow> auth_db \<Rightarrow> bool" where
  "grows db db' \<longleftrightarrow> (\<forall>i k. au_keys db i = Some k \<longrightarrow> (\<exists>k'. au_keys db' i = Some k' \<and> same_key k k')) \<and>
     (\<forall>i a. au_accounts db i = Some a \<longrightarrow> au_accounts db' i = Some a)"

lemma same_key_refl [simp]: "same_key k k"
  by (simp add: same_key_def)

lemma same_key_trans: "same_key k k' \<Longrightarrow> same_key k' k'' \<Longrightarrow> same_key k k''"
  unfolding same_key_def by (metis (no_types, lifting))

lemma grows_refl [simp]: "grows db db"
  by (simp add: grows_def)

lemma grows_key: "grows db db' \<Longrightarrow> au_keys db i = Some k \<Longrightarrow> \<exists>k'. au_keys db' i = Some k' \<and> same_key k k'"
  by (simp add: grows_def)

lemma grows_account: "grows db db' \<Longrightarrow> au_accounts db i = Some a \<Longrightarrow> au_accounts db' i = Some a"
  by (simp add: grows_def)

lemma grows_trans: "grows db db' \<Longrightarrow> grows db' db'' \<Longrightarrow> grows db db''"
  unfolding grows_def using same_key_trans by (metis (no_types, lifting))

lemma grows_authenticate: "grows db (snd (authenticate_service_key e st now raw db))"
proof -
  have "grows db (key_used now i k a db)" if "au_keys db i = Some k" for i k a
    using that by (auto simp: grows_def key_used_def same_key_def)
  then show ?thesis by (auto simp: authenticate_service_key_def split: option.splits prod.splits)
qed

lemma account_key_Some: "account_key p i j db = Some k \<Longrightarrow>
  au_keys db j = Some k \<and> (\<exists>a. au_accounts db i = Some a \<and> sa_tenant_id a = pr_tenant_id p \<and> sk_service_account_id k = i)"
  by (simp add: account_key_def split: option.splits if_splits)

lemma add_key_Inr: "add_key i k db = Inr db' \<Longrightarrow> au_keys db i = None \<and> db' = db\<lparr>au_keys := (au_keys db)(i \<mapsto> k)\<rparr>"
  by (simp add: add_key_def split: if_splits)

lemma require_Inr: "require_permission s p = Inr u \<longleftrightarrow> has_permission p s"
  by (cases u) (simp add: require_permission_def)

lemma create_account_cases:
  obtains (same) "snd (create_service_account e st now i j s b p db) = db" "\<exists>x. fst (create_service_account e st now i j s b p db) = Inl x"
  | (created) a k where "has_permission p ''service-account:manage''" "set (sc_roles b) \<subseteq> {ro_service, ro_viewer}"
      "au_accounts db i = None" "au_keys db j = None" "au_tenants db (pr_tenant_id p) \<noteq> None" "valid_service_account b"
      "a = \<lparr>sa_tenant_id = pr_tenant_id p, sa_name = sc_name b, sa_roles = sort (map role_value (sc_roles b)), sa_status = ''ACTIVE'', sa_created_by = pr_subject p\<rparr>"
      "k = new_key e st now j s i (pr_subject p) (sc_ttl_days b) None"
      "snd (create_service_account e st now i j s b p db) = db\<lparr>au_accounts := (au_accounts db)(i \<mapsto> a), au_keys := (au_keys db)(j \<mapsto> k)\<rparr>"
      "fst (create_service_account e st now i j s b p db) = Inr (raw_key j s)"
proof -
  have fail: "\<exists>x. create_service_account e st now i j s b p db = (Inl x, db)" if "\<not> (has_permission p ''service-account:manage'' \<and>
      set (sc_roles b) \<subseteq> {ro_service, ro_viewer} \<and> au_accounts db i = None \<and> au_keys db j = None \<and> au_tenants db (pr_tenant_id p) \<noteq> None \<and>
      valid_service_account b)"
    using that by (simp add: create_service_account_def require_permission_def Let_def add_key_def) auto
  show ?thesis
  proof (cases "has_permission p ''service-account:manage'' \<and> set (sc_roles b) \<subseteq> {ro_service, ro_viewer} \<and> au_accounts db i = None \<and>
      au_keys db j = None \<and> au_tenants db (pr_tenant_id p) \<noteq> None \<and> valid_service_account b")
    case True
    then have "create_service_account e st now i j s b p db = (Inr (raw_key j s), db\<lparr>au_accounts := (au_accounts db)(i \<mapsto>
        \<lparr>sa_tenant_id = pr_tenant_id p, sa_name = sc_name b, sa_roles = sort (map role_value (sc_roles b)), sa_status = ''ACTIVE'',
          sa_created_by = pr_subject p\<rparr>), au_keys := (au_keys db)(j \<mapsto> new_key e st now j s i (pr_subject p) (sc_ttl_days b) None)\<rparr>)"
      by (auto simp: create_service_account_def require_permission_def Let_def add_key_def)
    then show ?thesis using True by (intro created) simp_all
  next
    case False
    from fail [OF this] show ?thesis using same by auto
  qed
qed

lemma rotate_cases:
  obtains (same) "snd (rotate_service_key e st now j' s i j p db) = db" "\<exists>x. fst (rotate_service_key e st now j' s i j p db) = Inl x"
  | (rotated) k where "has_permission p ''service-account:manage''" "account_key p i j db = Some k" "sk_revoked_at k = None" "j' \<noteq> j" "au_keys db j' = None"
      "snd (rotate_service_key e st now j' s i j p db) =
         db\<lparr>au_keys := (au_keys db)(j \<mapsto> k\<lparr>sk_revoked_at := Some now\<rparr>, j' \<mapsto> new_key e st now j' s i (pr_subject p) None (Some j))\<rparr>"
      "fst (rotate_service_key e st now j' s i j p db) = Inr (raw_key j' s)"
proof -
  have fail: "\<exists>x. rotate_service_key e st now j' s i j p db = (Inl x, db)" if "\<not> (has_permission p ''service-account:manage'' \<and>
      (\<exists>k. account_key p i j db = Some k \<and> sk_revoked_at k = None) \<and> j' \<noteq> j \<and> au_keys db j' = None)"
    using that by (cases "account_key p i j db") (auto simp: rotate_service_key_def require_permission_def Let_def add_key_def)
  show ?thesis
  proof (cases "has_permission p ''service-account:manage'' \<and> (\<exists>k. account_key p i j db = Some k \<and> sk_revoked_at k = None) \<and>
      j' \<noteq> j \<and> au_keys db j' = None")
    case True
    then obtain k where "account_key p i j db = Some k" "sk_revoked_at k = None" by blast
    moreover from this have "rotate_service_key e st now j' s i j p db = (Inr (raw_key j' s), db\<lparr>au_keys := (au_keys db)
        (j \<mapsto> k\<lparr>sk_revoked_at := Some now\<rparr>, j' \<mapsto> new_key e st now j' s i (pr_subject p) None (Some j))\<rparr>)"
      using True by (simp add: rotate_service_key_def require_permission_def Let_def add_key_def)
    ultimately show ?thesis using True by (intro rotated) simp_all
  next
    case False
    from fail [OF this] show ?thesis using same by auto
  qed
qed

lemma revoke_cases:
  obtains (same) "snd (revoke_service_key now i j p db) = db" "\<exists>x. fst (revoke_service_key now i j p db) = Inl x"
  | (revoked) k where "has_permission p ''service-account:manage''" "account_key p i j db = Some k"
      "snd (revoke_service_key now i j p db) = db\<lparr>au_keys := (au_keys db)(j \<mapsto>
         k\<lparr>sk_revoked_at := (case sk_revoked_at k of None \<Rightarrow> Some now | Some t \<Rightarrow> Some t)\<rparr>)\<rparr>"
  by (cases "has_permission p ''service-account:manage''"; cases "account_key p i j db")
    (simp_all add: revoke_service_key_def require_permission_def)

lemma identity_tables:
  "au_keys (snd (create_tenant b p db)) = au_keys db" "au_accounts (snd (create_tenant b p db)) = au_accounts db"
  "au_keys (snd (create_membership e c p db)) = au_keys db" "au_accounts (snd (create_membership e c p db)) = au_accounts db"
  by (auto simp: create_tenant_def create_membership_def split: sum.splits)

lemma authenticate_tables:
  "snd (authenticate_request e st now rq c db) = db \<or> snd (authenticate_request e st now rq c db) = snd (authenticate_service_key e st now (bearer_token rq) db)"
  by (auto simp: authenticate_request_def split: option.splits)

lemma access_step_grows: "grows db (access_step e st x db)"
proof (cases x)
  case (Op_Tenant b p)
  then show ?thesis by (simp add: grows_def identity_tables)
next
  case (Op_Membership b p)
  then show ?thesis by (simp add: grows_def identity_tables)
next
  case (Op_Account now i j s b p)
  show ?thesis
    by (cases rule: create_account_cases [of e st now i j s b p db]) (simp_all add: Op_Account grows_def)
next
  case (Op_Rotate now j' s i j p)
  show ?thesis
    by (cases rule: rotate_cases [of e st now j' s i j p db])
      (auto simp: Op_Rotate grows_def same_key_def dest!: account_key_Some)
next
  case (Op_Revoke now i j p)
  show ?thesis
    by (cases rule: revoke_cases [of now i j p db])
      (auto simp: Op_Revoke grows_def same_key_def dest!: account_key_Some split: option.splits)
next
  case (Op_Authenticate now rq c)
  then show ?thesis using authenticate_tables [of e st now rq c db] grows_authenticate by auto
qed

lemma access_run_append: "access_run e st (xs @ ys) db = access_run e st ys (access_run e st xs db)"
  by (simp add: access_run_def)

lemma access_run_grows: "grows db (access_run e st ops db)"
proof (induction ops rule: rev_induct)
  case Nil
  then show ?case by (simp add: access_run_def)
next
  case (snoc x ops)
  then show ?case using grows_trans access_step_grows by (fastforce simp: access_run_append access_run_def [of _ _ "[x]"])
qed

section \<open>The life of a key\<close>

lemma role_of_role_value: "role_of (role_value r) = Some r"
  by (cases r) (simp_all add: role_of_def all_roles_def)

lemma normalize_sorted: "normalize_roles e (PList (map PStr (sort (map role_value rs)))) = Inr (set rs)"
proof -
  define ys where "ys = map (the \<circ> role_of) (sort (map role_value rs))"
  have "map role_value ys = map (role_value \<circ> (the \<circ> role_of)) (sort (map role_value rs))" by (simp add: ys_def)
  also have "\<dots> = sort (map role_value rs)"
    by (rule map_idI) (auto simp: role_of_role_value)
  finally have "map PStr (sort (map role_value rs)) = map (PStr \<circ> role_value) ys" by (simp flip: map_map)
  moreover have "set ys = set rs" by (auto simp: ys_def role_of_role_value image_iff)
  ultimately show ?thesis using normalize_values [of e ys] by simp
qed

text \<open>The operations that retire a key: its account's managers rotate or revoke it.\<close>

definition retires :: "string \<Rightarrow> uuid \<Rightarrow> string \<Rightarrow> access_op \<Rightarrow> bool" where
  "retires tenant account key_id x \<longleftrightarrow> (case x of
     Op_Rotate _ _ _ i j p \<Rightarrow> i = account \<and> j = key_id \<and> pr_tenant_id p = tenant \<and> has_permission p ''service-account:manage''
   | Op_Revoke _ i j p \<Rightarrow> i = account \<and> j = key_id \<and> pr_tenant_id p = tenant \<and> has_permission p ''service-account:manage''
   | _ \<Rightarrow> False)"

lemma step_retires:
  assumes "au_keys db j = Some k" "sk_revoked_at k = None" "au_accounts db (sk_service_account_id k) = Some a"
    and "au_keys (access_step e st x db) j = Some k'" "sk_revoked_at k' \<noteq> None"
  shows "retires (sa_tenant_id a) (sk_service_account_id k) j x"
proof (cases x)
  case (Op_Tenant b p)
  then show ?thesis using assms by (simp add: identity_tables)
next
  case (Op_Membership b p)
  then show ?thesis using assms by (simp add: identity_tables)
next
  case (Op_Account now i j' s b p)
  show ?thesis
    by (cases rule: create_account_cases [of e st now i j' s b p db]) (use assms Op_Account in \<open>auto split: if_splits\<close>)
next
  case (Op_Rotate now j' s i j'' p)
  show ?thesis
    by (cases rule: rotate_cases [of e st now j' s i j'' p db])
      (use assms Op_Rotate in \<open>auto simp: retires_def dest!: account_key_Some split: if_splits\<close>)
next
  case (Op_Revoke now i j'' p)
  show ?thesis
    by (cases rule: revoke_cases [of now i j'' p db])
      (use assms Op_Revoke in \<open>auto simp: retires_def dest!: account_key_Some split: if_splits\<close>)
next
  case (Op_Authenticate now rq c)
  have "sk_revoked_at k' = None" if "au_keys (snd (authenticate_service_key e st now (bearer_token rq) db)) j = Some k'"
    using that assms(1,2) by (auto simp: authenticate_service_key_def key_used_def split: option.splits if_splits)
  moreover have "au_keys (snd (authenticate_request e st now rq c db)) j = Some k'" using assms(4) by (simp add: Op_Authenticate)
  ultimately show ?thesis using assms(1,2,5) authenticate_tables [of e st now rq c db] by (elim disjE) simp_all
qed

lemma run_retires:
  assumes "au_keys db j = Some k" "sk_revoked_at k = None" "au_accounts db (sk_service_account_id k) = Some a"
    and "au_keys (access_run e st ops db) j = Some k'" "sk_revoked_at k' \<noteq> None"
  shows "\<exists>x \<in> set ops. retires (sa_tenant_id a) (sk_service_account_id k) j x"
  using assms(4,5)
proof (induction ops arbitrary: k' rule: rev_induct)
  case Nil
  then show ?case using assms(1,2) by (simp add: access_run_def)
next
  case (snoc x ops)
  let ?db = "access_run e st ops db"
  have g: "grows db ?db" by (rule access_run_grows)
  then obtain m where m: "au_keys ?db j = Some m" "same_key k m" using grows_key [OF g assms(1)] by blast
  have a: "au_accounts ?db (sk_service_account_id m) = Some a"
    using grows_account [OF g assms(3)] m(2) by (simp add: same_key_def)
  show ?case
  proof (cases "sk_revoked_at m = None")
    case True
    have "au_keys (access_step e st x ?db) j = Some k'" using snoc.prems(1) by (simp add: access_run_def)
    from step_retires [OF m(1) True a this snoc.prems(2)] m(2) show ?thesis by (simp add: same_key_def)
  next
    case False
    then show ?thesis using snoc.IH [OF m(1)] by simp
  qed
qed

lemma authenticate_key:
  assumes "parse_service_key raw = Some (j, s)" "au_keys db j = Some k" "au_accounts db (sk_service_account_id k) = Some a"
  shows "fst (authenticate_service_key e st now raw db) = (if key_valid e st now j s k a then service_principal e k a
    else Inl (Http 401 ''invalid or expired service account key''))"
  using assms by (simp add: authenticate_service_key_def)

definition ttl_of :: "access_settings \<Rightarrow> int option \<Rightarrow> int" where
  "ttl_of st d = (case d of None \<Rightarrow> se_service_key_default_ttl_days st | Some n \<Rightarrow> n)"

text \<open>C19. The life of a key. The raw key returned when a service account is created authenticates as
  that account, with the tenant of its creator and exactly the roles it was given, at every later time
  before the expiry, whatever operations run meanwhile, as long as the key is not revoked; afterwards,
  or when revoked, it is rejected with 401. And it is revoked only if one of those operations is a
  rotation or a revocation of this key by a principal of the same tenant who may manage service
  accounts.\<close>

theorem key_lifecycle:
  assumes "create_service_account e st now account key_id secret b p db = (Inr raw, db1)"
    and "length key_id = 16" "CHR ''.'' \<notin> set key_id" "secret \<noteq> []" "db2 = access_run e st ops db1"
  shows "\<exists>k. au_keys db2 key_id = Some k \<and>
    fst (authenticate_service_key e st later raw db2) =
      (if later < now + day * ttl_of st (sc_ttl_days b) \<and> sk_revoked_at k = None
       then Inr \<lparr>pr_subject = account_subject account, pr_tenant_id = pr_tenant_id p, pr_roles = set (sc_roles b),
          pr_auth_method = ''service_key'', pr_service_account_id = Some account\<rparr>
       else Inl (Http 401 ''invalid or expired service account key'')) \<and>
    (sk_revoked_at k \<noteq> None \<longrightarrow> (\<exists>x \<in> set ops. retires (pr_tenant_id p) account key_id x))"
proof (cases rule: create_account_cases [of e st now account key_id secret b p db])
  case same
  then show ?thesis using assms(1) by auto
next
  case (created a k0)
  have raw: "parse_service_key raw = Some (key_id, secret)" using created(10) assms(1-4) by (simp add: parse_raw_key)
  have k0: "au_keys db1 key_id = Some k0" "au_accounts db1 account = Some a" using created(9) assms(1) by simp_all
  have ttl: "sk_service_account_id k0 = account" "sk_secret_hash k0 = hash_service_secret e key_id secret (se_service_key_pepper st)"
    "sk_expires_at k0 = now + day * ttl_of st (sc_ttl_days b)" "sk_revoked_at k0 = None"
    using created(6,8) by (auto simp: new_key_def Let_def ttl_of_def valid_service_account_def split: option.splits)
  have g: "grows db1 db2" unfolding assms(5) by (rule access_run_grows)
  then obtain k where k: "au_keys db2 key_id = Some k" "same_key k0 k" using grows_key [OF g k0(1)] by blast
  have acc: "au_accounts db2 (sk_service_account_id k) = Some a" using grows_account [OF g k0(2)] k(2) ttl(1) by (simp add: same_key_def)
  have "service_principal e k a = Inr \<lparr>pr_subject = account_subject account, pr_tenant_id = pr_tenant_id p, pr_roles = set (sc_roles b),
      pr_auth_method = ''service_key'', pr_service_account_id = Some account\<rparr>"
    using created(7) k(2) ttl(1) by (simp add: service_principal_def normalize_sorted same_key_def)
  moreover have "key_valid e st later key_id secret k a \<longleftrightarrow> later < now + day * ttl_of st (sc_ttl_days b) \<and> sk_revoked_at k = None"
    using created(7) k(2) ttl(2,3) by (auto simp: key_valid_def same_key_def)
  moreover have "\<exists>x \<in> set ops. retires (pr_tenant_id p) account key_id x" if "sk_revoked_at k \<noteq> None"
    using run_retires [OF k0(1) ttl(4), of a e st ops k] k0(2) ttl(1) k(1) that created(7) assms(5) by simp
  ultimately show ?thesis using k(1) authenticate_key [OF raw k(1) acc, of e st later] by simp
qed

text \<open>A retired key is dead. After a revocation or a rotation of a key that succeeded, no raw key
  with its id authenticates in any later state, whatever else is done to the tables.\<close>

theorem retired_key_rejected:
  assumes "revoke_service_key now account key_id p db = (Inr (), db1) \<or> rotate_service_key e st now new_id new_secret account key_id p db = (Inr new_raw, db1)"
    and "parse_service_key raw = Some (key_id, secret)"
  shows "\<exists>detail. fst (authenticate_service_key e st later raw (access_run e st ops db1)) = Inl (Http 401 detail)"
proof -
  obtain k where k: "au_keys db1 key_id = Some k" "sk_revoked_at k \<noteq> None"
    using assms(1)
  proof (elim disjE)
    assume "revoke_service_key now account key_id p db = (Inr (), db1)"
    then show thesis
      by (cases rule: revoke_cases [of now account key_id p db]) (auto intro: that split: option.splits)
  next
    assume "rotate_service_key e st now new_id new_secret account key_id p db = (Inr new_raw, db1)"
    then show thesis
      by (cases rule: rotate_cases [of e st now new_id new_secret account key_id p db]) (auto intro: that)
  qed
  obtain k' where "au_keys (access_run e st ops db1) key_id = Some k'" "sk_revoked_at k' \<noteq> None"
    using grows_key [OF access_run_grows k(1), of e st ops] k(2) unfolding same_key_def by metis
  then show ?thesis using assms(2) by (auto simp: authenticate_service_key_def key_valid_def split: option.split)
qed

section \<open>Service accounts stay small\<close>

definition confined :: "auth_db \<Rightarrow> bool" where
  "confined db \<longleftrightarrow> (\<forall>i a. au_accounts db i = Some a \<longrightarrow> (\<exists>rs. sa_roles a = sort (map role_value rs) \<and> set rs \<subseteq> {ro_service, ro_viewer}))"

lemma authenticate_accounts: "au_accounts (snd (authenticate_service_key e st now raw db)) = au_accounts db"
  by (auto simp: authenticate_service_key_def key_used_def split: option.splits prod.splits)

lemma confined_step:
  assumes "confined db"
  shows "confined (access_step e st x db)"
proof (cases x)
  case (Op_Account now i j s b p)
  show ?thesis
    by (cases rule: create_account_cases [of e st now i j s b p db]) (use assms Op_Account in \<open>auto simp: confined_def\<close>)
next
  case (Op_Rotate now j' s i j'' p)
  show ?thesis
    by (cases rule: rotate_cases [of e st now j' s i j'' p db]) (use assms Op_Rotate in \<open>auto simp: confined_def\<close>)
next
  case (Op_Revoke now i j'' p)
  show ?thesis
    by (cases rule: revoke_cases [of now i j'' p db]) (use assms Op_Revoke in \<open>auto simp: confined_def\<close>)
next
  case (Op_Authenticate now rq c)
  then show ?thesis using assms authenticate_tables [of e st now rq c db] authenticate_accounts by (auto simp: confined_def)
qed (use assms in \<open>simp_all add: confined_def identity_tables\<close>)

lemma confined_run: "confined db \<Longrightarrow> confined (access_run e st ops db)"
  by (induction ops rule: rev_induct) (simp_all add: access_run_def confined_step)

lemma confined_permission:
  assumes "pr_roles q \<subseteq> {ro_service, ro_viewer}"
  shows "has_permission q s \<longrightarrow> s \<in> {''ingestion:write'', ''checkpoint:write'', ''read''}"
  using assms by (auto simp: has_permission_def)

text \<open>C16. Service accounts are confined. In a system that starts without service accounts, after any
  operations of any principals, whoever authenticates with a service key holds at most the roles
  SERVICE and VIEWER; the interface lets them change something only under \<open>/operations/model-drift\<close> and
  \<open>/surveillance\<close>, and they can create neither tenants nor memberships nor service accounts nor keys.\<close>

theorem service_accounts_confined:
  assumes "au_accounts db = Map.empty" "fst (authenticate_service_key e st now raw (access_run e st ops db)) = Inr q"
  shows "pr_roles q \<subseteq> {ro_service, ro_viewer} \<and>
    (authorize_api_request rq q = Inr q \<longrightarrow> rq_method rq \<in> {''GET'', ''HEAD'', ''OPTIONS''} \<or>
       sublist ''/operations/model-drift'' (rq_path rq) \<or> sublist ''/surveillance'' (rq_path rq)) \<and>
    (\<forall>s \<in> {''*'', ''tenant:manage'', ''service-account:manage''}. \<exists>x. require_permission s q = Inl x)"
proof -
  let ?db = "access_run e st ops db"
  have "confined ?db" by (rule confined_run) (simp add: confined_def assms(1))
  moreover obtain j s k a where "au_accounts ?db (sk_service_account_id k) = Some a" and q: "service_principal e k a = Inr q"
    using assms(2) by (auto simp: authenticate_service_key_def split: option.splits prod.splits if_splits)
  ultimately obtain rs where rs: "sa_roles a = sort (map role_value rs)" "set rs \<subseteq> {ro_service, ro_viewer}"
    unfolding confined_def by metis
  then have roles: "pr_roles q \<subseteq> {ro_service, ro_viewer}"
    using q by (auto simp: service_principal_def normalize_sorted)
  note perms = confined_permission [OF roles]
  have "\<exists>x. require_permission s q = Inl x" if "s \<in> {''*'', ''tenant:manage'', ''service-account:manage''}" for s
    using perms [of s] that by (auto simp: require_permission_def)
  moreover have "rq_method rq \<in> {''GET'', ''HEAD'', ''OPTIONS''} \<or> sublist ''/operations/model-drift'' (rq_path rq) \<or> sublist ''/surveillance'' (rq_path rq)"
    if granted: "authorize_api_request rq q = Inr q"
  proof (rule ccontr)
    assume "\<not> ?thesis"
    then have "set (required_permissions rq) \<inter> {''ingestion:write'', ''checkpoint:write'', ''read''} = {}"
      by (auto simp: required_permissions_def)
    moreover obtain s where "s \<in> set (required_permissions rq)" "has_permission q s"
      using granted by (auto simp: authorize_api_request_def list_ex_iff split: if_splits)
    ultimately show False using perms [of s] by blast
  qed
  ultimately show ?thesis using roles by blast
qed

section \<open>Writes are identified\<close>

text \<open>The key of a request that is in force.\<close>

definition key_in_force :: "access_env \<Rightarrow> access_settings \<Rightarrow> datetime \<Rightarrow> string \<Rightarrow> auth_db \<Rightarrow> principal \<Rightarrow> bool" where
  "key_in_force e st now raw db p \<longleftrightarrow> (\<exists>j s k a. parse_service_key raw = Some (j, s) \<and> au_keys db j = Some k \<and>
     au_accounts db (sk_service_account_id k) = Some a \<and> sk_revoked_at k = None \<and> now < sk_expires_at k \<and> sa_status a = ''ACTIVE'' \<and>
     sk_secret_hash k = hash_service_secret e j s (se_service_key_pepper st) \<and>
     pr_service_account_id p = Some (sk_service_account_id k) \<and> pr_tenant_id p = sa_tenant_id a)"

text \<open>The token of a request that the identity provider signed.\<close>

definition token_in_force :: "access_env \<Rightarrow> access_settings \<Rightarrow> string \<Rightarrow> principal \<Rightarrow> bool" where
  "token_in_force e st token p \<longleftrightarrow> (\<exists>d. ax_decode e token = Some d \<and> truthy (token_claim d (se_oidc_tenant_claim st)) \<and>
     pr_tenant_id p = value_text e (token_claim d (se_oidc_tenant_claim st)) \<and>
     normalize_roles e (token_claim d (se_oidc_roles_claim st)) = Inr (pr_roles p) \<and> pr_roles p \<noteq> {})"

lemma anonymous_reads: "has_permission (anonymous st) s \<longleftrightarrow> s = ''read''"
  by (simp add: has_permission_def anonymous_def)

text \<open>C17. Nobody writes anonymously. Outside the development login, a fresh request that is authenticated
  and authorized and whose method can change something bears a token: either a service key that is
  stored with the hash of its secret, unrevoked, unexpired and of an active account whose tenant the
  principal has, or a token the identity provider decodes, from whose claims the principal's tenant and
  roles come.\<close>

theorem writers_identified:
  assumes "\<not> development_login st" "fst (authenticate_request e st now rq None db) = Inr p" "authorize_api_request rq p = Inr p"
    and "rq_method rq \<notin> {''GET'', ''HEAD'', ''OPTIONS''}"
  shows "bearer rq \<and> (if prefix ''s2m_'' (bearer_token rq) then key_in_force e st now (bearer_token rq) db p
    else token_in_force e st (bearer_token rq) p)"
proof -
  have no_anonymous: "p \<noteq> anonymous st"
  proof
    assume "p = anonymous st"
    then have "''read'' \<in> set (required_permissions rq)"
      using assms(3) by (auto simp: authorize_api_request_def list_ex_iff anonymous_reads split: if_splits)
    then show False using assms(4) by (auto simp: required_permissions_def split: if_splits)
  qed
  have bearer: "bearer rq"
    using assms(1,2) no_anonymous by (auto simp: authenticate_request_def split: if_splits)
  show ?thesis
  proof (cases "prefix ''s2m_'' (bearer_token rq)")
    case True
    then have "fst (authenticate_service_key e st now (bearer_token rq) db) = Inr p"
      using assms(2) bearer by (simp add: authenticate_request_def)
    then have "key_in_force e st now (bearer_token rq) db p"
      by (auto simp: authenticate_service_key_def key_in_force_def key_valid_def service_principal_def
          split: option.splits prod.splits if_splits sum.splits)
    then show ?thesis using bearer True by simp
  next
    case False
    then have "(case decode_oidc_token e st (bearer_token rq) of Inl x \<Rightarrow> Inl x | Inr d \<Rightarrow> principal_from_oidc e st d) = Inr p"
      using assms(2) bearer by (simp add: authenticate_request_def)
    then have "token_in_force e st (bearer_token rq) p"
      by (auto simp: token_in_force_def decode_oidc_token_def principal_from_oidc_def Let_def split: option.splits if_splits sum.splits)
    then show ?thesis using bearer False by simp
  qed
qed

section \<open>Who adjudicates feedback\<close>

text \<open>The segments of a path.\<close>

fun segments :: "string \<Rightarrow> string list" where
  "segments [] = [[]]"
| "segments (c # cs) = (if c = CHR ''/'' then [] # segments cs else (case segments cs of [] \<Rightarrow> [[c]] | w # ws \<Rightarrow> (c # w) # ws))"

lemma segments_nonempty [simp]: "segments s \<noteq> []"
  by (cases s) (auto split: list.split)

lemma segments_append: "CHR ''/'' \<notin> set w \<Longrightarrow> segments (w @ CHR ''/'' # s) = w # segments s"
  by (induction w) auto

lemma segments_prefix: "CHR ''/'' \<notin> set w \<Longrightarrow> prefix w (hd (segments (w @ s)))"
  by (induction w) (auto split: list.split)

lemma segments_after: "set (segments s) \<subseteq> set (tl (segments (a @ CHR ''/'' # s)))"
proof (induction a)
  case (Cons c a)
  then show ?case by (cases "segments (a @ CHR ''/'' # s)") auto
qed simp

lemma sublist_segment:
  assumes "sublist (CHR ''/'' # w @ r) path" "CHR ''/'' \<notin> set w"
  shows "\<exists>s \<in> set (segments path). prefix w s"
proof -
  obtain a b where path: "path = a @ CHR ''/'' # w @ r @ b" using assms(1) by (auto simp: sublist_def)
  have "hd (segments (w @ r @ b)) \<in> set (segments (w @ r @ b))" by simp
  then have "hd (segments (w @ r @ b)) \<in> set (tl (segments path))" using segments_after [of "w @ r @ b" a] path by blast
  then have "hd (segments (w @ r @ b)) \<in> set (segments path)" by (rule list.set_sel(2) [OF segments_nonempty])
  with segments_prefix [OF assms(2), of "r @ b"] show ?thesis by blast
qed

definition adjudicate_path :: "string \<Rightarrow> string" where
  "adjudicate_path i = ''/api/v1/feedback/'' @ i @ ''/adjudicate''"

lemma adjudicate_segments:
  assumes "CHR ''/'' \<notin> set i"
  shows "segments (adjudicate_path i) = [[], ''api'', ''v1'', ''feedback'', i, ''adjudicate'']"
  using assms by (simp add: adjudicate_path_def segments_append)

lemma adjudicate_required:
  assumes "set i \<subseteq> set ''0123456789abcdef-''" "rq_method rq = ''POST''" "rq_path rq = adjudicate_path i"
  shows "required_permissions rq = [''investigation:write'', ''alert:write'', ''feedback:write'']"
proof -
  have slash: "CHR ''/'' \<notin> set i" using assms(1) by auto
  have no_prefix: "\<not> prefix (c # w) i" if "c \<notin> set ''0123456789abcdef-''" for c w
    using assms(1) that by (cases i) auto
  have absent: "\<not> sublist (CHR ''/'' # w @ r) (adjudicate_path i)" if "CHR ''/'' \<notin> set w" "\<not> prefix w i"
      "\<not> prefix w []" "\<not> prefix w ''api''" "\<not> prefix w ''v1''" "\<not> prefix w ''feedback''" "\<not> prefix w ''adjudicate''" for w r
    using sublist_segment [OF _ that(1), of r "adjudicate_path i"] that adjudicate_segments [OF slash] by auto
  have "\<not> sublist ''/source-policies'' (adjudicate_path i)" using absent [of "''source-policies''" "[]"] no_prefix by simp
  moreover have "\<not> sublist ''/models/'' (adjudicate_path i)" using absent [of "''models''" "''/''"] no_prefix by simp
  moreover have "\<not> sublist ''/operations/model-drift'' (adjudicate_path i)"
    using absent [of "''operations''" "''/model-drift''"] no_prefix by simp
  moreover have "\<not> sublist ''/surveillance'' (adjudicate_path i)" using absent [of "''surveillance''" "[]"] no_prefix by simp
  moreover have "\<not> suffix ''/decision'' (adjudicate_path i)"
  proof
    assume "suffix ''/decision'' (adjudicate_path i)"
    then have "last (adjudicate_path i) = CHR ''n''" by (auto simp: suffix_def)
    then show False by (simp add: adjudicate_path_def)
  qed
  ultimately show ?thesis using assms(2,3) by (simp add: required_permissions_def)
qed

text \<open>The wrong people adjudicate. Adjudicating a feedback, for every id written as a UUID, is open
  exactly to principals with one of the roles PLATFORM_ADMIN, TENANT_ADMIN and ANALYST. A REVIEWER, the
  only role with the permission \<open>feedback:adjudicate\<close>, is turned away, and the analysts who write
  feedback may adjudicate it.\<close>

theorem adjudication_roles:
  assumes "set i \<subseteq> set ''0123456789abcdef-''" "rq_method rq = ''POST''" "rq_path rq = adjudicate_path i"
  shows "(authorize_api_request rq p = Inr p \<longleftrightarrow> pr_roles p \<inter> {ro_platform_admin, ro_tenant_admin, ro_analyst} \<noteq> {}) \<and>
    (\<forall>r. ''feedback:adjudicate'' \<in> role_permissions r \<longleftrightarrow> r = ro_reviewer)"
proof -
  have writes: "(''*'' \<in> role_permissions r \<or> s \<in> role_permissions r) \<and> s \<in> set (required_permissions rq) \<Longrightarrow>
      r \<in> {ro_platform_admin, ro_tenant_admin, ro_analyst}" for r s
    by (cases r) (auto simp: adjudicate_required [OF assms])
  have "list_ex (has_permission p) (required_permissions rq) \<longleftrightarrow> pr_roles p \<inter> {ro_platform_admin, ro_tenant_admin, ro_analyst} \<noteq> {}"
  proof
    assume "list_ex (has_permission p) (required_permissions rq)"
    then show "pr_roles p \<inter> {ro_platform_admin, ro_tenant_admin, ro_analyst} \<noteq> {}"
      using writes by (force simp: list_ex_iff has_permission_def)
  next
    assume "pr_roles p \<inter> {ro_platform_admin, ro_tenant_admin, ro_analyst} \<noteq> {}"
    then obtain r where "r \<in> pr_roles p" "r \<in> {ro_platform_admin, ro_tenant_admin, ro_analyst}" by blast
    then have "has_permission p ''investigation:write''" by (force simp: has_permission_def)
    then show "list_ex (has_permission p) (required_permissions rq)" by (simp add: adjudicate_required [OF assms])
  qed
  moreover have "''feedback:adjudicate'' \<in> role_permissions r \<longleftrightarrow> r = ro_reviewer" for r
    by (cases r) simp_all
  ultimately show ?thesis by (simp add: authorize_api_request_def)
qed

section \<open>Examples\<close>

definition access_example_env :: access_env where
  "access_example_env = \<lparr>ax_hmac = (\<lambda>pepper m. m), ax_decode = (\<lambda>t. None), ax_str = (\<lambda>v. [])\<rparr>"

definition production :: access_settings where
  "production = \<lparr>se_environment = ''production'', se_development_auth_enabled = True, se_auth_required = True, se_default_tenant_id = ''default'',
     se_oidc_issuer = None, se_oidc_audience = None, se_oidc_jwks_url = None, se_oidc_tenant_claim = ''tenant_id'', se_oidc_roles_claim = ''roles'',
     se_service_key_pepper = ''p'', se_service_key_default_ttl_days = 90\<rparr>"

definition example_admin :: principal where
  "example_admin = \<lparr>pr_subject = ''ann'', pr_tenant_id = ''acme'', pr_roles = {ro_tenant_admin}, pr_auth_method = ''oidc'', pr_service_account_id = None\<rparr>"

definition example_db :: auth_db where
  "example_db = \<lparr>au_tenants = [''acme'' \<mapsto> \<lparr>te_name = ''Acme'', te_status = ''ACTIVE''\<rparr>], au_memberships = [], au_accounts = Map.empty,
     au_keys = Map.empty, au_events = []\<rparr>"

definition example_account :: service_account_create where
  "example_account = \<lparr>sc_name = ''feeder'', sc_roles = [ro_service], sc_ttl_days = None\<rparr>"

definition example_created :: auth_db where
  "example_created = snd (create_service_account access_example_env production 0 ''acc'' ''0123456789abcdef'' ''xyz'' example_account example_admin example_db)"

lemma example_create:
  "create_service_account access_example_env production 0 ''acc'' ''0123456789abcdef'' ''xyz'' example_account example_admin example_db =
    (Inr (raw_key ''0123456789abcdef'' ''xyz''), example_created)"
  by (simp add: example_created_def create_service_account_def require_permission_def has_permission_def example_admin_def example_account_def
      valid_service_account_def example_db_def add_key_def Let_def)

lemma example_revoke: "\<exists>db. revoke_service_key 5 ''acc'' ''0123456789abcdef'' example_admin example_created = (Inr (), db)"
  by (simp add: example_created_def create_service_account_def require_permission_def has_permission_def example_admin_def example_account_def
      valid_service_account_def example_db_def add_key_def Let_def revoke_service_key_def account_key_def new_key_def)

theorem key_lifecycle_witness:
  "\<exists>k. au_keys (access_run access_example_env production [] example_created) ''0123456789abcdef'' = Some k \<and>
    fst (authenticate_service_key access_example_env production 7 (raw_key ''0123456789abcdef'' ''xyz'') (access_run access_example_env production [] example_created)) =
      (if 7 < 0 + day * ttl_of production (sc_ttl_days example_account) \<and> sk_revoked_at k = None
       then Inr \<lparr>pr_subject = account_subject ''acc'', pr_tenant_id = pr_tenant_id example_admin, pr_roles = set (sc_roles example_account),
          pr_auth_method = ''service_key'', pr_service_account_id = Some ''acc''\<rparr>
       else Inl (Http 401 ''invalid or expired service account key'')) \<and>
    (sk_revoked_at k \<noteq> None \<longrightarrow> (\<exists>x \<in> set []. retires (pr_tenant_id example_admin) ''acc'' ''0123456789abcdef'' x))"
  by (rule key_lifecycle [OF example_create _ _ _ refl]) simp_all

theorem retired_key_rejected_witness: "\<exists>db detail. revoke_service_key 5 ''acc'' ''0123456789abcdef'' example_admin example_created = (Inr (), db) \<and>
  fst (authenticate_service_key access_example_env production 7 (raw_key ''0123456789abcdef'' ''xyz'')
    (access_run access_example_env production [Op_Revoke 6 ''acc'' ''0123456789abcdef'' example_admin] db)) = Inl (Http 401 detail)"
proof -
  obtain db where db: "revoke_service_key 5 ''acc'' ''0123456789abcdef'' example_admin example_created = (Inr (), db)"
    using example_revoke by blast
  have "parse_service_key (raw_key ''0123456789abcdef'' ''xyz'') = Some (''0123456789abcdef'', ''xyz'')" by (simp add: parse_raw_key)
  from retired_key_rejected [OF disjI1 [OF db] this] db show ?thesis by blast
qed

lemma example_authenticated: "\<exists>q. fst (authenticate_service_key access_example_env production 7 (raw_key ''0123456789abcdef'' ''xyz'') example_created) = Inr q \<and> pr_roles q = {ro_service}"
proof -
  have p: "parse_service_key (raw_key ''0123456789abcdef'' ''xyz'') = Some (''0123456789abcdef'', ''xyz'')" by (simp add: parse_raw_key)
  have "normalize_roles access_example_env (PList [PStr ''SERVICE'']) = Inr {ro_service}"
    using normalize_values [of access_example_env "[ro_service]"] by simp
  then show ?thesis
    by (simp add: example_created_def create_service_account_def require_permission_def has_permission_def example_admin_def example_account_def
        valid_service_account_def example_db_def add_key_def Let_def authenticate_service_key_def p key_valid_def new_key_def service_principal_def
        production_def day_def seconds_def)
qed

lemma example_run: "access_run access_example_env production [Op_Account 0 ''acc'' ''0123456789abcdef'' ''xyz'' example_account example_admin] example_db = example_created"
  by (simp add: access_run_def example_created_def)

theorem service_accounts_confined_witness: "\<exists>q. pr_roles q \<subseteq> {ro_service, ro_viewer} \<and>
  fst (authenticate_service_key access_example_env production 7 (raw_key ''0123456789abcdef'' ''xyz'') example_created) = Inr q"
proof -
  obtain q where q: "fst (authenticate_service_key access_example_env production 7 (raw_key ''0123456789abcdef'' ''xyz'') example_created) = Inr q"
    using example_authenticated by blast
  have "au_accounts example_db = Map.empty" by (simp add: example_db_def)
  from service_accounts_confined [OF this q [folded example_run]] q show ?thesis by blast
qed

definition example_request :: "string \<Rightarrow> http_request" where
  "example_request path = \<lparr>rq_method = ''POST'', rq_path = path, rq_headers = [''authorization'' \<mapsto> ''Bearer '' @ raw_key ''0123456789abcdef'' ''xyz'']\<rparr>"

lemma lower_bearer: "lower (''Bearer '' @ s) = ''bearer '' @ lower s"
proof -
  have "lower ''Bearer '' = ''bearer ''" by code_simp
  then show ?thesis by (simp only: lower_def map_append)
qed

lemma example_bearer: "bearer (example_request path)" "bearer_token (example_request path) = raw_key ''0123456789abcdef'' ''xyz''"
proof -
  have h: "header (example_request path) ''authorization'' [] = ''Bearer '' @ raw_key ''0123456789abcdef'' ''xyz''"
    by (simp add: header_def example_request_def)
  show "bearer (example_request path)" unfolding bearer_def h lower_bearer by simp
  show "bearer_token (example_request path) = raw_key ''0123456789abcdef'' ''xyz''"
    unfolding bearer_token_def h by (simp add: strip_by_def is_space_def raw_key_def)
qed

theorem writers_identified_witness: "\<exists>p. fst (authenticate_request access_example_env production 7 (example_request ''/operations/model-drift'') None example_created) = Inr p \<and>
  key_in_force access_example_env production 7 (raw_key ''0123456789abcdef'' ''xyz'') example_created p"
proof -
  obtain q where q: "fst (authenticate_service_key access_example_env production 7 (raw_key ''0123456789abcdef'' ''xyz'') example_created) = Inr q"
      and roles: "pr_roles q = {ro_service}"
    using example_authenticated by blast
  have s2m: "prefix ''s2m_'' (raw_key ''0123456789abcdef'' ''xyz'')" by (simp add: raw_key_def)
  then have auth: "fst (authenticate_request access_example_env production 7 (example_request ''/operations/model-drift'') None example_created) = Inr q"
    using q example_bearer by (simp add: authenticate_request_def)
  have "has_permission q ''ingestion:write''" using roles by (simp add: has_permission_def)
  moreover have "required_permissions (example_request ''/operations/model-drift'') = [''ingestion:write'']"
    by (simp add: required_permissions_def example_request_def sublist_code suffix_def)
  ultimately have "authorize_api_request (example_request ''/operations/model-drift'') q = Inr q" by (simp add: authorize_api_request_def)
  from writers_identified [OF _ auth this] show ?thesis
    using auth s2m example_bearer by (auto simp: example_request_def development_login_def production_def lower_def lower_char_def)
qed

theorem adjudication_roles_witness:
  "authorize_api_request \<lparr>rq_method = ''POST'', rq_path = adjudicate_path ''0a-1'', rq_headers = Map.empty\<rparr> example_admin = Inr example_admin"
  using adjudication_roles [of "''0a-1''" "\<lparr>rq_method = ''POST'', rq_path = adjudicate_path ''0a-1'', rq_headers = Map.empty\<rparr>" example_admin]
  by (simp add: example_admin_def)

end
