(* ===== verification/Investigations_Correct.thy ===== *)
theory Investigations_Correct
  imports Investigations Evidence_Correct Access_Correct
begin

text \<open>
  The desk under concurrent requests: updates of an investigation are serialized by its version, feedback
  belongs to its investigation, adjudications are not serialized, and what an update cannot undo.
\<close>

section \<open>Requests as steps\<close>

text \<open>A request that is refused changes nothing and is no step. The second component of a state holds the
  adjudications that have read their row and not yet written it.\<close>

datatype desk_label = Created uuid | Updated uuid int | Noted uuid | Reported uuid | Checked uuid string | Adjudicated uuid string bool

type_synonym desk_state = "desk \<times> (uuid \<times> feedback_adjudication \<times> string) list"

inductive desk_step :: "desk_state \<Rightarrow> desk_label \<Rightarrow> desk_state \<Rightarrow> bool" where
  created: "create_investigation ldb now i b actor p d = (Inr r, d') \<Longrightarrow> desk_step (d, ps) (Created i) (d', ps)"
| updated: "update_investigation now i b actor d = (Inr r, d') \<Longrightarrow> desk_step (d, ps) (Updated i (iu_expected_version b)) (d', ps)"
| noted: "add_investigation_event now i kind details actor d = (Inr ev, d') \<Longrightarrow> desk_step (d, ps) (Noted i) (d', ps)"
| reported: "add_feedback f i fb actor d = (Inr row, d') \<Longrightarrow> desk_step (d, ps) (Reported f) (d', ps)"
| checked: "adjudicate_check f fa d = Inr () \<Longrightarrow> desk_step (d, ps) (Checked f actor) (d, ps @ [(f, fa, actor)])"
| adjudicated: "(f, fa, actor) \<in> set ps \<Longrightarrow>
    desk_step (d, ps) (Adjudicated f actor (fa_accepted fa)) (adjudicate_write now f fa actor d, remove1 (f, fa, actor) ps)"

inductive_cases desk_stepE [elim!]: "desk_step s l s'"

inductive desk_runs :: "desk_state \<Rightarrow> desk_label list \<Rightarrow> desk_state \<Rightarrow> bool" where
  nil: "desk_runs s [] s"
| snoc: "desk_runs s ls s' \<Longrightarrow> desk_step s' l s'' \<Longrightarrow> desk_runs s (ls @ [l]) s''"

definition empty_desk :: desk where
  "empty_desk = \<lparr>dk_investigations = [], dk_events = [], dk_feedback = []\<rparr>"

section \<open>What the routes do when they succeed\<close>

lemma create_success:
  assumes "create_investigation ldb now i b actor p d = (Inr r, d')"
  shows "dk_investigations d' = dk_investigations d @ [(i, r)] \<and> map_of (dk_investigations d) i = None \<and> iv_version r = 1 \<and>
    dk_feedback d' = dk_feedback d"
  using assms by (auto simp: create_investigation_def Let_def split: if_splits option.splits)

lemma update_success:
  assumes "update_investigation now i b actor d = (Inr r, d')"
  shows "\<exists>old. map_of (dk_investigations d) i = Some old \<and> iv_version old = iu_expected_version b \<and> r = Investigations.updated now b old \<and>
    dk_investigations d' = AList.update i r (dk_investigations d) \<and> dk_feedback d' = dk_feedback d"
  using assms by (auto simp: update_investigation_def split: if_splits option.splits)

lemma note_success:
  "add_investigation_event now i kind details actor d = (Inr ev, d') \<Longrightarrow> dk_investigations d' = dk_investigations d \<and> dk_feedback d' = dk_feedback d"
  by (auto simp: add_investigation_event_def Let_def split: if_splits)

lemma report_success:
  assumes "add_feedback f i b actor d = (Inr row, d')"
  shows "\<exists>r. map_of (dk_investigations d) i = Some r \<and> fb_investigation_id row = i \<and> fb_alert_id row = iv_alert_id r \<and> fb_snapshot_id row = iv_snapshot_id r \<and>
    map_of (dk_feedback d) f = None \<and> dk_feedback d' = dk_feedback d @ [(f, row)] \<and> dk_investigations d' = dk_investigations d"
  using assms by (auto simp: add_feedback_def Let_def split: if_splits option.splits)

lemma updated_fields [simp]:
  "iv_version (Investigations.updated now b r) = iv_version r + 1" "iv_alert_id (Investigations.updated now b r) = iv_alert_id r"
  "iv_snapshot_id (Investigations.updated now b r) = iv_snapshot_id r"
  by (simp_all add: Investigations.updated_def)

lemma adjudicated_fields [simp]:
  "fb_investigation_id (Investigations.adjudicated now b actor row) = fb_investigation_id row"
  "fb_alert_id (Investigations.adjudicated now b actor row) = fb_alert_id row"
  "fb_snapshot_id (Investigations.adjudicated now b actor row) = fb_snapshot_id row"
  by (simp_all add: Investigations.adjudicated_def)

lemma write_tables:
  "dk_investigations (adjudicate_write now f b actor d) = dk_investigations d"
  "map_of (dk_feedback (adjudicate_write now f b actor d)) = (case map_of (dk_feedback d) f of None \<Rightarrow> map_of (dk_feedback d)
     | Some row \<Rightarrow> (map_of (dk_feedback d))(f \<mapsto> Investigations.adjudicated now b actor row))"
  by (simp_all add: adjudicate_write_def update_conv' split: option.split)

section \<open>Updates are serialized\<close>

text \<open>The versions the successful updates of an investigation named, in order.\<close>

definition expected_versions :: "uuid \<Rightarrow> desk_label list \<Rightarrow> int list" where
  "expected_versions i ls = concat (map (\<lambda>l. case l of Updated j v \<Rightarrow> if j = i then [v] else [] | _ \<Rightarrow> []) ls)"

definition desk_ok :: "desk_label list \<Rightarrow> desk \<Rightarrow> bool" where
  "desk_ok ls d \<longleftrightarrow>
     (\<forall>i. case map_of (dk_investigations d) i of None \<Rightarrow> expected_versions i ls = []
        | Some r \<Rightarrow> 1 \<le> iv_version r \<and> expected_versions i ls = [1..iv_version r - 1]) \<and>
     (\<forall>f row. map_of (dk_feedback d) f = Some row \<longrightarrow> (\<exists>r. map_of (dk_investigations d) (fb_investigation_id row) = Some r \<and>
        fb_alert_id row = iv_alert_id r \<and> fb_snapshot_id row = iv_snapshot_id r))"

lemma expected_versions_snoc:
  "expected_versions i (ls @ [l]) = expected_versions i ls @ (case l of Updated j v \<Rightarrow> if j = i then [v] else [] | _ \<Rightarrow> [])"
  by (simp add: expected_versions_def)

lemma desk_okD:
  assumes "desk_ok ls d"
  shows "map_of (dk_investigations d) i = None \<Longrightarrow> expected_versions i ls = []"
    "map_of (dk_investigations d) i = Some r \<Longrightarrow> 1 \<le> iv_version r \<and> expected_versions i ls = [1..iv_version r - 1]"
    "map_of (dk_feedback d) f = Some row \<Longrightarrow> \<exists>r. map_of (dk_investigations d) (fb_investigation_id row) = Some r \<and>
        fb_alert_id row = iv_alert_id r \<and> fb_snapshot_id row = iv_snapshot_id r"
  using assms unfolding desk_ok_def by (metis (mono_tags, lifting) option.simps(4), metis (mono_tags, lifting) option.simps(5), blast)

lemma desk_ok_same:
  assumes "desk_ok ls d" "dk_investigations d' = dk_investigations d" "expected_versions i (ls @ [l]) = expected_versions i ls"
  shows "case map_of (dk_investigations d') i of None \<Rightarrow> expected_versions i (ls @ [l]) = []
    | Some r \<Rightarrow> 1 \<le> iv_version r \<and> expected_versions i (ls @ [l]) = [1..iv_version r - 1]"
  using desk_okD(1,2) [OF assms(1), of i] assms(2,3) by (auto split: option.split)

lemma desk_ok_frame:
  assumes "desk_ok ls d" "dk_investigations d' = dk_investigations d" "dk_feedback d' = dk_feedback d"
    and "\<And>i. expected_versions i (ls @ [l]) = expected_versions i ls"
  shows "desk_ok (ls @ [l]) d'"
  using assms(1) unfolding desk_ok_def assms(2-4) .

lemma desk_ok_step:
  assumes "desk_step (d, ps) l (d', ps')" "desk_ok ls d"
  shows "desk_ok (ls @ [l]) d'"
  using assms(1)
proof cases
  case (created ldb now i b actor p r)
  note c = create_success [OF created(3)]
  show ?thesis unfolding desk_ok_def
  proof (intro conjI allI impI)
    fix j
    show "case map_of (dk_investigations d') j of None \<Rightarrow> expected_versions j (ls @ [l]) = []
      | Some r \<Rightarrow> 1 \<le> iv_version r \<and> expected_versions j (ls @ [l]) = [1..iv_version r - 1]"
      using c desk_okD(1,2) [OF assms(2), of j] created(1) by (auto simp: expected_versions_snoc map_add_def split: option.splits)
  next
    fix f row assume "map_of (dk_feedback d') f = Some row"
    then obtain r' where "map_of (dk_investigations d) (fb_investigation_id row) = Some r'" "fb_alert_id row = iv_alert_id r'" "fb_snapshot_id row = iv_snapshot_id r'"
      using c desk_okD(3) [OF assms(2)] by auto
    moreover from this c have "map_of (dk_investigations d') (fb_investigation_id row) = Some r'" by (auto simp: map_add_def split: option.split)
    ultimately show "\<exists>r. map_of (dk_investigations d') (fb_investigation_id row) = Some r \<and> fb_alert_id row = iv_alert_id r \<and> fb_snapshot_id row = iv_snapshot_id r"
      by blast
  qed
next
  case (updated now i b actor r)
  obtain old where u: "map_of (dk_investigations d) i = Some old" "iv_version old = iu_expected_version b" "r = Investigations.updated now b old"
      "dk_investigations d' = AList.update i r (dk_investigations d)" "dk_feedback d' = dk_feedback d"
    using update_success [OF updated(3)] by blast
  show ?thesis unfolding desk_ok_def
  proof (intro conjI allI impI)
    fix j
    have "[1..iv_version old - 1] @ [iv_version old] = [1..iv_version old]"
      using desk_okD(2) [OF assms(2) u(1)] upto_rec2 [of 1 "iv_version old"] by simp
    then show "case map_of (dk_investigations d') j of None \<Rightarrow> expected_versions j (ls @ [l]) = []
      | Some r \<Rightarrow> 1 \<le> iv_version r \<and> expected_versions j (ls @ [l]) = [1..iv_version r - 1]"
      using u desk_okD(1,2) [OF assms(2), of j] desk_okD(2) [OF assms(2) u(1)] updated(1)
      by (auto simp: expected_versions_snoc update_conv split: option.splits)
  next
    fix f row assume "map_of (dk_feedback d') f = Some row"
    then obtain r' where "map_of (dk_investigations d) (fb_investigation_id row) = Some r'" "fb_alert_id row = iv_alert_id r'" "fb_snapshot_id row = iv_snapshot_id r'"
      using u desk_okD(3) [OF assms(2)] by auto
    then show "\<exists>r. map_of (dk_investigations d') (fb_investigation_id row) = Some r \<and> fb_alert_id row = iv_alert_id r \<and> fb_snapshot_id row = iv_snapshot_id r"
      using u by (cases "fb_investigation_id row = i") (auto simp: update_conv)
  qed
next
  case (noted now i kind details actor ev)
  show ?thesis
    by (rule desk_ok_frame [OF assms(2)]) (simp_all add: note_success [OF noted(3)] noted(1) expected_versions_snoc)
next
  case (reported f i b actor row)
  obtain r where s: "map_of (dk_investigations d) i = Some r" "fb_investigation_id row = i" "fb_alert_id row = iv_alert_id r" "fb_snapshot_id row = iv_snapshot_id r"
      "map_of (dk_feedback d) f = None" "dk_feedback d' = dk_feedback d @ [(f, row)]" "dk_investigations d' = dk_investigations d"
    using report_success [OF reported(3)] by blast
  show ?thesis unfolding desk_ok_def
  proof (intro conjI allI impI)
    fix j
    show "case map_of (dk_investigations d') j of None \<Rightarrow> expected_versions j (ls @ [l]) = []
      | Some r \<Rightarrow> 1 \<le> iv_version r \<and> expected_versions j (ls @ [l]) = [1..iv_version r - 1]"
      by (rule desk_ok_same [OF assms(2) s(7)]) (simp add: reported(1) expected_versions_snoc)
  next
    fix g row' assume "map_of (dk_feedback d') g = Some row'"
    then show "\<exists>r. map_of (dk_investigations d') (fb_investigation_id row') = Some r \<and> fb_alert_id row' = iv_alert_id r \<and> fb_snapshot_id row' = iv_snapshot_id r"
      using s desk_okD(3) [OF assms(2), of g row'] by (auto simp: map_add_def split: option.splits if_splits)
  qed
next
  case (checked f fa actor)
  show ?thesis
    by (rule desk_ok_frame [OF assms(2)]) (simp_all add: checked expected_versions_snoc)
next
  case (adjudicated f fa actor now)
  show ?thesis unfolding desk_ok_def
  proof (intro conjI allI impI)
    fix j
    show "case map_of (dk_investigations d') j of None \<Rightarrow> expected_versions j (ls @ [l]) = []
      | Some r \<Rightarrow> 1 \<le> iv_version r \<and> expected_versions j (ls @ [l]) = [1..iv_version r - 1]"
      by (rule desk_ok_same [OF assms(2)]) (simp_all add: adjudicated write_tables expected_versions_snoc)
  next
    fix g row' assume g: "map_of (dk_feedback d') g = Some row'"
    then obtain row where "map_of (dk_feedback d) g = Some row" "fb_investigation_id row' = fb_investigation_id row"
        "fb_alert_id row' = fb_alert_id row" "fb_snapshot_id row' = fb_snapshot_id row"
      unfolding adjudicated by (auto simp: write_tables split: option.splits if_splits)
    then show "\<exists>r. map_of (dk_investigations d') (fb_investigation_id row') = Some r \<and> fb_alert_id row' = iv_alert_id r \<and> fb_snapshot_id row' = iv_snapshot_id r"
      using desk_okD(3) [OF assms(2), of g row] by (simp add: adjudicated write_tables)
  qed
qed

text \<open>C18. The desk keeps its books. After any interleaving of requests from an empty desk, the successful
  updates of every investigation named the versions 1, 2, 3 and so on, one each and in this order, up to
  the one before its current version: of two requests that saw the same version only one succeeds, no
  update is lost. And every feedback names an investigation of the desk with its alert and its evidence
  snapshot.\<close>

theorem updates_serialized:
  assumes "desk_runs (empty_desk, []) ls (d, ps)"
  shows "(map_of (dk_investigations d) i = Some r \<longrightarrow> 1 \<le> iv_version r \<and> expected_versions i ls = [1..iv_version r - 1]) \<and>
    (map_of (dk_feedback d) f = Some row \<longrightarrow> (\<exists>r. map_of (dk_investigations d) (fb_investigation_id row) = Some r \<and>
        fb_alert_id row = iv_alert_id r \<and> fb_snapshot_id row = iv_snapshot_id r))"
proof -
  have "desk_ok ls (fst s)" if "desk_runs (empty_desk, []) ls s" for s
    using that
  proof (induction "(empty_desk, [] :: (uuid \<times> feedback_adjudication \<times> string) list)" ls s rule: desk_runs.induct)
    case nil
    then show ?case by (simp add: desk_ok_def empty_desk_def expected_versions_def)
  next
    case (snoc ls s' l s'')
    then show ?case using desk_ok_step [of "fst s'" "snd s'" l "fst s''" "snd s''" ls] by simp
  qed
  from desk_okD(2,3) [OF this [OF assms]] show ?thesis by simp
qed

section \<open>Adjudications are not\<close>

lemma runs_append: "desk_runs s ls s' \<Longrightarrow> desk_step s' l s'' \<Longrightarrow> ks = ls @ [l] \<Longrightarrow> desk_runs s ks s''"
  using desk_runs.snoc by simp

text \<open>A feedback can be adjudicated twice. If the calls come one after the other the second one is
  refused with 409. But two calls on a pending feedback that both read it before either writes both
  succeed, in either order of writing, with whatever decisions: the later write silently replaces the
  decision, the adjudicator and the note of the other.\<close>

theorem double_adjudication:
  assumes "map_of (dk_feedback d) f = Some row" "fb_status row = ''PENDING''" "valid_adjudication b" "valid_adjudication c"
  shows "adjudicate_check f c (snd (adjudicate_feedback now f b ann d)) = Inl (Http 409 ''feedback has already been adjudicated'') \<and>
    (\<exists>d'. desk_runs (d, []) [Checked f ann, Checked f bob, Adjudicated f ann (fa_accepted b), Adjudicated f bob (fa_accepted c)] (d', []) \<and>
       map_of (dk_feedback d') f = Some (Investigations.adjudicated later c bob row))"
proof -
  have check: "adjudicate_check f b d = Inr ()" "adjudicate_check f c d = Inr ()"
    using assms by (simp_all add: adjudicate_check_def)
  let ?d1 = "adjudicate_write now f b ann d"
  have one: "map_of (dk_feedback ?d1) f = Some (Investigations.adjudicated now b ann row)" using assms(1) by (simp add: write_tables)
  then have refused: "adjudicate_check f c ?d1 = Inl (Http 409 ''feedback has already been adjudicated'')"
    using assms(4) by (simp add: adjudicate_check_def Investigations.adjudicated_def)
  have atomic: "snd (adjudicate_feedback now f b ann d) = ?d1" using check(1) by (simp add: adjudicate_feedback_def)
  let ?d2 = "adjudicate_write later f c bob ?d1"
  have "desk_runs (d, []) [] (d, [])" by (rule desk_runs.nil)
  moreover have "desk_step (d, []) (Checked f ann) (d, [(f, b, ann)])" using checked [OF check(1), of "[]" ann] by simp
  ultimately have "desk_runs (d, []) [Checked f ann] (d, [(f, b, ann)])" by (rule runs_append) simp_all
  moreover have "desk_step (d, [(f, b, ann)]) (Checked f bob) (d, [(f, b, ann), (f, c, bob)])"
    using checked [OF check(2), of "[(f, b, ann)]" bob] by simp
  ultimately have "desk_runs (d, []) [Checked f ann, Checked f bob] (d, [(f, b, ann), (f, c, bob)])" by (rule runs_append) simp
  moreover have "desk_step (d, [(f, b, ann), (f, c, bob)]) (Adjudicated f ann (fa_accepted b)) (?d1, [(f, c, bob)])"
    using adjudicated [of f b ann "[(f, b, ann), (f, c, bob)]" d now] by simp
  ultimately have "desk_runs (d, []) [Checked f ann, Checked f bob, Adjudicated f ann (fa_accepted b)] (?d1, [(f, c, bob)])"
    by (rule runs_append) simp
  moreover have "desk_step (?d1, [(f, c, bob)]) (Adjudicated f bob (fa_accepted c)) (?d2, [])"
    using adjudicated [of f c bob "[(f, c, bob)]" ?d1 later] by simp
  ultimately have "desk_runs (d, []) [Checked f ann, Checked f bob, Adjudicated f ann (fa_accepted b), Adjudicated f bob (fa_accepted c)] (?d2, [])"
    by (rule runs_append) simp
  moreover have "map_of (dk_feedback ?d2) f = Some (Investigations.adjudicated later c bob row)"
    using one by (simp add: write_tables Investigations.adjudicated_def)
  ultimately show ?thesis using refused atomic by auto
qed

section \<open>What an update cannot undo\<close>

text \<open>Closing and assigning stick. A successful update of an investigation that was closed to any other
  status reopens it and keeps the time of its closing, so that it is open and closed at once, counts
  again as a breach of its service level, and no later update clears the time; and no update ever takes
  an assignment back.\<close>

theorem reopened_stays_closed:
  assumes "map_of (dk_investigations d) i = Some r" "iv_closed_at r = Some t" "update_investigation now i b actor d = (Inr r', d')"
    and "iu_status b = Some s" "s \<noteq> is_closed"
  shows "map_of (dk_investigations d') i = Some r' \<and> iv_status r' = s \<and> iv_closed_at r' = Some t \<and>
    (sla_breached later r' \<longleftrightarrow> iv_sla_due_at r < later) \<and> (iv_assigned_to r \<noteq> None \<longrightarrow> iv_assigned_to r' \<noteq> None)"
proof -
  have u: "r' = Investigations.updated now b r" "dk_investigations d' = AList.update i r' (dk_investigations d)"
    using update_success [OF assms(3)] assms(1) by auto
  have "map_of (dk_investigations d') i = Some r'" by (simp add: u(2) update_conv')
  moreover have "iv_assigned_to r \<noteq> None \<longrightarrow> iv_assigned_to r' \<noteq> None"
    by (cases "iu_assigned_to b") (auto simp: u(1) Investigations.updated_def changes_def split: option.splits)
  ultimately show ?thesis using assms(2,4,5) by (simp add: u(1) Investigations.updated_def keep_def sla_breached_def)
qed

section \<open>Lists\<close>

text \<open>A list of investigations shows the tenant's own and nothing else: at most the limit, latest
  change first, of the asked scope, status and assignee, and with \<open>overdue_only\<close> exactly those whose
  response says \<open>sla_breached\<close>; and an own investigation that fits is left out only when the list is
  full of investigations changed no earlier.\<close>

theorem list_exact:
  assumes "rows = list_investigations now p scope status assigned overdue limit d"
  shows "length rows \<le> limit \<and> sorted (map (\<lambda>(_, r). - iv_updated_at r) rows) \<and>
    (\<forall>(i, r) \<in> set rows. (i, r) \<in> set (dk_investigations d) \<and> iv_tenant_id r = pr_tenant_id p \<and> iv_scope_id r = scope \<and>
       (status \<noteq> None \<longrightarrow> status = Some (iv_status r)) \<and> (assigned \<noteq> None \<longrightarrow> assigned = iv_assigned_to r) \<and> (overdue \<longrightarrow> sla_breached now r)) \<and>
    (\<forall>(i, r) \<in> set (dk_investigations d). iv_tenant_id r = pr_tenant_id p \<and> iv_scope_id r = scope \<and>
       (status \<noteq> None \<longrightarrow> status = Some (iv_status r)) \<and> (assigned \<noteq> None \<longrightarrow> assigned = iv_assigned_to r) \<and> (overdue \<longrightarrow> sla_breached now r) \<longrightarrow>
       (i, r) \<in> set rows \<or> length rows = limit \<and> (\<forall>(j, q) \<in> set rows. iv_updated_at r \<le> iv_updated_at q))"
proof -
  define fits where "fits = (\<lambda>(i :: uuid, r :: investigation). iv_tenant_id r = pr_tenant_id p \<and> iv_scope_id r = scope \<and>
    (status \<noteq> None \<longrightarrow> status = Some (iv_status r)) \<and> (assigned \<noteq> None \<longrightarrow> assigned = iv_assigned_to r) \<and> (overdue \<longrightarrow> sla_breached now r))"
  define key where "key = (\<lambda>(_ :: uuid, r :: investigation). - iv_updated_at r)"
  define all where "all = sort_key key (filter fits (dk_investigations d))"
  have rows: "rows = take limit all"
    unfolding assms list_investigations_def all_def key_def fits_def sla_breached_def
    by (intro arg_cong [where f = "take limit"] arg_cong [where f = "sort_key _"] filter_cong refl) (auto split: option.splits)
  have sorted: "sorted (map key all)" by (simp add: all_def)
  have "sorted (map key rows)" unfolding rows take_map [symmetric] by (rule sorted_wrt_take [OF sorted])
  then have sorted_rows: "sorted (map (\<lambda>(_, r). - iv_updated_at r) rows)" by (simp only: key_def)
  have complete: "(i, r) \<in> set rows \<or> length rows = limit \<and> (\<forall>(j, q) \<in> set rows. iv_updated_at r \<le> iv_updated_at q)"
    if ir: "(i, r) \<in> set (dk_investigations d)" "fits (i, r)" for i r
  proof (rule disjCI)
    assume not: "\<not> (length rows = limit \<and> (\<forall>(j, q) \<in> set rows. iv_updated_at r \<le> iv_updated_at q))"
    have mem: "(i, r) \<in> set all" using ir by (simp add: all_def)
    show "(i, r) \<in> set rows"
    proof (cases "length all \<le> limit")
      case True
      then show ?thesis using mem by (simp add: rows)
    next
      case False
      then obtain x where x: "x \<in> set rows" "\<not> key x \<le> key (i, r)" using not by (fastforce simp: rows key_def)
      show ?thesis
      proof (rule ccontr)
        assume "(i, r) \<notin> set rows"
        then have "(i, r) \<in> set (drop limit all)" using mem by (metis Un_iff append_take_drop_id rows set_append)
        moreover have "sorted (map key (take limit all) @ map key (drop limit all))"
          using sorted by (simp only: map_append [symmetric] append_take_drop_id)
        ultimately have "key x \<le> key (i, r)" using x(1) unfolding rows sorted_append by auto
        then show False using x(2) by contradiction
      qed
    qed
  qed
  have member: "(i, r) \<in> set (dk_investigations d) \<and> fits (i, r)" if "(i, r) \<in> set rows" for i r
    using in_set_takeD [OF that [unfolded rows]] by (simp add: all_def)
  have pairs: "(\<forall>x \<in> A. case x of (i, r) \<Rightarrow> P i r) \<longleftrightarrow> (\<forall>i r. (i, r) \<in> A \<longrightarrow> P i r)" for A :: "(uuid \<times> investigation) set" and P
    by fast
  have "length rows \<le> limit" by (simp add: rows)
  then show ?thesis unfolding pairs
  proof (intro conjI allI impI)
    fix i r assume "(i, r) \<in> set (dk_investigations d)" and f: "iv_tenant_id r = pr_tenant_id p \<and> iv_scope_id r = scope \<and>
      (status \<noteq> None \<longrightarrow> status = Some (iv_status r)) \<and> (assigned \<noteq> None \<longrightarrow> assigned = iv_assigned_to r) \<and> (overdue \<longrightarrow> sla_breached now r)"
    moreover from f have "fits (i, r)" unfolding fits_def prod.case .
    ultimately show "(i, r) \<in> set rows \<or> length rows = limit \<and> (\<forall>j q. (j, q) \<in> set rows \<longrightarrow> iv_updated_at r \<le> iv_updated_at q)"
      using complete [of i r] unfolding pairs by blast
  qed (use sorted_rows member [unfolded fits_def prod.case] in blast)+
qed

section \<open>Examples\<close>

definition desk_snapshot :: evidence_snapshot where
  "desk_snapshot = evidence_snapshot_of capture_example_env example_source None [] 0"

definition desk_ledger :: ledger_db where
  "desk_ledger = ledger_example\<lparr>lg_snapshots := [desk_snapshot]\<rparr>"

definition desk_case :: investigation_create where
  "desk_case = \<lparr>ic_alert_id = ''a'', ic_snapshot_id = es_snapshot_id desk_snapshot, ic_title = ''pump'', ic_priority = ip_high, ic_assigned_to = None,
     ic_tags = [''x''], ic_sla_hours = 24\<rparr>"

definition desk_change :: "investigation_status \<Rightarrow> int \<Rightarrow> investigation_update" where
  "desk_change s v = \<lparr>iu_status = Some s, iu_priority = None, iu_assigned_to = None, iu_tags = None, iu_disposition = None, iu_expected_version = v\<rparr>"

lemma desk_created: "\<exists>r d. create_investigation desk_ledger 0 ''i'' desk_case ''ann'' example_admin empty_desk = (Inr r, d) \<and>
  dk_investigations d = [(''i'', r)] \<and> iv_version r = 1 \<and> iv_assigned_to r = None"
  by (simp add: create_investigation_def valid_create_def desk_case_def at_most_def desk_ledger_def ledger_example_def snapshot_with_def
      desk_snapshot_def example_source_def empty_desk_def Let_def example_alert_def)

lemma desk_updated:
  assumes "map_of (dk_investigations d) ''i'' = Some r" "iv_version r = v" "1 \<le> v"
  shows "update_investigation now ''i'' (desk_change s v) actor d = (Inr (Investigations.updated now (desk_change s v) r),
    snd (update_investigation now ''i'' (desk_change s v) actor d))"
  using assms by (simp add: update_investigation_def valid_update_def desk_change_def at_most_def)

theorem updates_serialized_witness: "\<exists>d r. desk_runs (empty_desk, []) [Created ''i'', Updated ''i'' 1] (d, []) \<and>
  map_of (dk_investigations d) ''i'' = Some r \<and> 1 \<le> iv_version r \<and> expected_versions ''i'' [Created ''i'', Updated ''i'' 1] = [1..iv_version r - 1]"
proof -
  obtain r d where c: "create_investigation desk_ledger 0 ''i'' desk_case ''ann'' example_admin empty_desk = (Inr r, d)"
      "dk_investigations d = [(''i'', r)]" "iv_version r = 1"
    using desk_created by blast
  let ?d = "snd (update_investigation 5 ''i'' (desk_change is_closed 1) ''ann'' d)"
  have u: "update_investigation 5 ''i'' (desk_change is_closed 1) ''ann'' d = (Inr (Investigations.updated 5 (desk_change is_closed 1) r), ?d)"
    using c by (intro desk_updated) simp_all
  have "desk_runs (empty_desk, []) [Created ''i''] (d, [])"
    by (rule runs_append [OF desk_runs.nil created [OF c(1)]]) simp
  moreover have "desk_step (d, []) (Updated ''i'' 1) (?d, [])"
    using Investigations_Correct.updated [OF u, of "[]"] by (simp add: desk_change_def)
  ultimately have run: "desk_runs (empty_desk, []) [Created ''i'', Updated ''i'' 1] (?d, [])" by (rule runs_append) simp
  have "map_of (dk_investigations ?d) ''i'' = Some (Investigations.updated 5 (desk_change is_closed 1) r)"
    using update_success [OF u] by (auto simp: update_conv')
  with run updates_serialized [OF run] show ?thesis by blast
qed

definition desk_report :: feedback where
  "desk_report = \<lparr>fb_investigation_id = ''i'', fb_alert_id = ''a'', fb_snapshot_id = ''s'', fb_analyst_id = ''ann'', fb_label = fl_true_positive,
     fb_confidence = 1, fb_rationale = ''convincing evidence'', fb_status = ''PENDING'', fb_adjudicated_by = None, fb_adjudicated_at = None,
     fb_adjudication_note = None\<rparr>"

definition desk_decision :: "bool \<Rightarrow> feedback_adjudication" where
  "desk_decision accepted = \<lparr>fa_accepted = accepted, fa_note = ''seen''\<rparr>"

theorem double_adjudication_witness:
  "\<exists>d'. desk_runs (empty_desk\<lparr>dk_feedback := [(''f'', desk_report)]\<rparr>, [])
     [Checked ''f'' ''ann'', Checked ''f'' ''bob'', Adjudicated ''f'' ''ann'' True, Adjudicated ''f'' ''bob'' False] (d', []) \<and>
   map_of (dk_feedback d') ''f'' = Some (Investigations.adjudicated 9 (desk_decision False) ''bob'' desk_report)"
  using double_adjudication [of "empty_desk\<lparr>dk_feedback := [(''f'', desk_report)]\<rparr>" "''f''" desk_report "desk_decision True" "desk_decision False" 8 "''ann''" "''bob''" 9]
  by (simp add: desk_report_def desk_decision_def valid_adjudication_def)

theorem reopened_stays_closed_witness: "\<exists>d d' r'. update_investigation 9 ''i'' (desk_change is_open 2) ''ann'' d = (Inr r', d') \<and>
  map_of (dk_investigations d') ''i'' = Some r' \<and> iv_status r' = is_open \<and> iv_closed_at r' = Some 5"
proof -
  obtain r d where c: "create_investigation desk_ledger 0 ''i'' desk_case ''ann'' example_admin empty_desk = (Inr r, d)"
      "dk_investigations d = [(''i'', r)]" "iv_version r = 1"
    using desk_created by blast
  let ?r = "Investigations.updated 5 (desk_change is_closed 1) r"
  let ?d = "snd (update_investigation 5 ''i'' (desk_change is_closed 1) ''ann'' d)"
  have u: "update_investigation 5 ''i'' (desk_change is_closed 1) ''ann'' d = (Inr ?r, ?d)"
    using c by (intro desk_updated) simp_all
  have closed: "map_of (dk_investigations ?d) ''i'' = Some ?r" using update_success [OF u] by (auto simp: update_conv')
  let ?d' = "snd (update_investigation 9 ''i'' (desk_change is_open 2) ''ann'' ?d)"
  have v: "update_investigation 9 ''i'' (desk_change is_open 2) ''ann'' ?d = (Inr (Investigations.updated 9 (desk_change is_open 2) ?r), ?d')"
    using closed c(3) by (intro desk_updated) simp_all
  have "iv_closed_at ?r = Some 5" "iu_status (desk_change is_open 2) = Some is_open"
    by (simp_all add: Investigations.updated_def desk_change_def)
  from reopened_stays_closed [OF closed this(1) v this(2)] v show ?thesis by blast
qed

theorem list_exact_witness: "\<exists>r d. create_investigation desk_ledger 0 ''i'' desk_case ''ann'' example_admin empty_desk = (Inr r, d) \<and>
  length (list_investigations 0 example_admin ''LIVE'' None None False 1 d) \<le> 1"
proof -
  obtain r d where c: "create_investigation desk_ledger 0 ''i'' desk_case ''ann'' example_admin empty_desk = (Inr r, d)"
    using desk_created by blast
  from list_exact [OF refl, of 0 example_admin "''LIVE''" None None False 1 d] c show ?thesis by blast
qed

end
