(* ===== verification/Rate_Limit.thy ===== *)
theory Rate_Limit
  imports Access
begin

text \<open>
  The token bucket of the interface (\<open>security/rate_limiter.py\<close>): the Lua script over its Redis hash
  with the expiry of the key, the middleware around it and the API key middleware. Redis keys expire by
  the clock the script is given; a bucket is the pair of its tokens and its last refill.
\<close>

section \<open>The script\<close>

record bucket =
  bu_tokens :: real
  bu_last_refill :: real

text \<open>A stored bucket carries the time at which Redis drops it.\<close>

type_synonym bucket_store = "string \<rightharpoonup> bucket \<times> real"

record rate_settings =
  rl_enabled :: bool
  rl_capacity :: int
  rl_refill_per_second :: real
  rl_fail_closed :: bool

definition valid_rate :: "rate_settings \<Rightarrow> bool" where
  "valid_rate rl \<longleftrightarrow> 1 \<le> rl_capacity rl \<and> rl_capacity rl \<le> 100000 \<and> 0 < rl_refill_per_second rl \<and> rl_refill_per_second rl \<le> 10000"

text \<open>\<open>int(x)\<close> truncates; the argument is positive.\<close>

definition bucket_ttl :: "rate_settings \<Rightarrow> int" where
  "bucket_ttl rl = max 1 \<lfloor>of_int (rl_capacity rl) / rl_refill_per_second rl * 2\<rfloor>"

definition refilled :: "rate_settings \<Rightarrow> real \<Rightarrow> bucket option \<Rightarrow> real" where
  "refilled rl now b = (case b of
     None \<Rightarrow> min (of_int (rl_capacity rl)) (of_int (rl_capacity rl) + (now - now) * rl_refill_per_second rl)
   | Some b \<Rightarrow> min (of_int (rl_capacity rl)) (bu_tokens b + (now - bu_last_refill b) * rl_refill_per_second rl))"

text \<open>One evaluation on the bucket found: whether it accepts, the tokens left as told to the client, and
  the bucket written back.\<close>

definition take_token :: "rate_settings \<Rightarrow> real \<Rightarrow> bucket option \<Rightarrow> (bool \<times> int) \<times> bucket" where
  "take_token rl now b = (let tokens = refilled rl now b; accepted = (1 \<le> tokens); left = (if accepted then tokens - 1 else tokens)
     in ((accepted, \<lfloor>left\<rfloor>), \<lparr>bu_tokens = left, bu_last_refill = now\<rparr>))"

definition live_bucket :: "real \<Rightarrow> (bucket \<times> real) option \<Rightarrow> bucket option" where
  "live_bucket now entry = (case entry of None \<Rightarrow> None | Some (b, expires) \<Rightarrow> if now < expires then Some b else None)"

definition token_bucket :: "rate_settings \<Rightarrow> string \<Rightarrow> real \<Rightarrow> bucket_store \<Rightarrow> (bool \<times> int) \<times> bucket_store" where
  "token_bucket rl key now db = (let (answer, b) = take_token rl now (live_bucket now (db key))
     in (answer, db(key \<mapsto> (b, now + of_int (bucket_ttl rl)))))"

section \<open>The middlewares\<close>

datatype limit_verdict = Passed "int option" | Refused nat string

definition excluded_paths :: "string list" where
  "excluded_paths = [''/api/v1/health'', ''/api/v1/ready'', ''/api/v1/metrics'', ''/docs'', ''/openapi.json'']"

text \<open>\<open>host\<close> is the address of the peer, if known; \<open>up\<close> says whether Redis answers.\<close>

definition client_key :: "http_request \<Rightarrow> string option \<Rightarrow> string" where
  "client_key rq host = ''rate-limit:v1:'' @ (case rq_headers rq ''x-api-client-id'' of Some i \<Rightarrow> i
     | None \<Rightarrow> (case host of Some h \<Rightarrow> h | None \<Rightarrow> ''unknown''))"

definition rate_limited :: "rate_settings \<Rightarrow> http_request \<Rightarrow> string option \<Rightarrow> bool \<Rightarrow> real \<Rightarrow> bucket_store \<Rightarrow> limit_verdict \<times> bucket_store" where
  "rate_limited rl rq host up now db =
    (if \<not> rl_enabled rl \<or> list_ex (\<lambda>p. prefix p (rq_path rq)) excluded_paths then (Passed None, db)
     else if \<not> up then (if rl_fail_closed rl then Refused 503 ''rate limiter unavailable'' else Passed None, db)
     else let ((accepted, remaining), db') = token_bucket rl (client_key rq host) now db
          in (if accepted then Passed (Some remaining) else Refused 429 ''rate limit exceeded'', db'))"

text \<open>\<open>ApiKeyMiddleware\<close>.\<close>

definition api_key_check :: "bool \<Rightarrow> string option \<Rightarrow> http_request \<Rightarrow> limit_verdict" where
  "api_key_check require_api_key configured rq =
    (if rq_method rq \<in> {''GET'', ''HEAD'', ''OPTIONS''} \<or> \<not> require_api_key then Passed None
     else if \<not> nonempty_text configured \<or> rq_headers rq ''x-api-key'' \<noteq> configured then Refused 401 ''valid service API key required''
     else Passed None)"

section \<open>What the limit means\<close>

definition bucket_ok :: "rate_settings \<Rightarrow> bucket_store \<Rightarrow> bool" where
  "bucket_ok rl db \<longleftrightarrow> (\<forall>k b x. db k = Some (b, x) \<longrightarrow> 0 \<le> bu_tokens b \<and> bu_tokens b \<le> of_int (rl_capacity rl) \<and>
     x = bu_last_refill b + of_int (bucket_ttl rl))"

text \<open>Requests that reach the script in order, with the clock of their time.\<close>

fun bucket_run :: "rate_settings \<Rightarrow> (string \<times> real) list \<Rightarrow> bucket_store \<Rightarrow> (string \<times> real \<times> bool) list \<times> bucket_store" where
  "bucket_run rl [] db = ([], db)"
| "bucket_run rl ((k, now) # rs) db = (let ((accepted, _), db1) = token_bucket rl k now db; (trail, db2) = bucket_run rl rs db1
     in ((k, now, accepted) # trail, db2))"

lemma floor_double: "1 \<le> (x :: real) \<Longrightarrow> x \<le> of_int \<lfloor>x * 2\<rfloor>"
  by linarith

lemma bucket_ttl_long:
  assumes "valid_rate rl"
  shows "of_int (rl_capacity rl) \<le> of_int (bucket_ttl rl) * rl_refill_per_second rl"
proof -
  let ?x = "of_int (rl_capacity rl) / rl_refill_per_second rl"
  have x: "0 < ?x" using assms by (simp add: valid_rate_def)
  have "?x \<le> of_int (bucket_ttl rl)"
  proof (cases "1 \<le> ?x")
    case True
    then have "?x \<le> of_int \<lfloor>?x * 2\<rfloor>" by (rule floor_double)
    then show ?thesis by (simp add: bucket_ttl_def)
  next
    case False
    then show ?thesis by (simp add: bucket_ttl_def)
  qed
  then show ?thesis using assms by (simp add: valid_rate_def divide_le_eq)
qed

text \<open>An expired bucket would be full.\<close>

lemma live_bucket_refilled:
  assumes "valid_rate rl" "bucket_ok rl db" "db k = Some (b, x)"
  shows "refilled rl now (live_bucket now (Some (b, x))) = refilled rl now (Some b)"
proof (cases "now < x")
  case True
  then show ?thesis by (simp add: live_bucket_def)
next
  case False
  have r: "0 < rl_refill_per_second rl" using assms(1) by (simp add: valid_rate_def)
  have b: "0 \<le> bu_tokens b" "x = bu_last_refill b + of_int (bucket_ttl rl)" using assms(2,3) by (auto simp: bucket_ok_def)
  then have "of_int (bucket_ttl rl) \<le> now - bu_last_refill b" using False by simp
  then have "of_int (bucket_ttl rl) * rl_refill_per_second rl \<le> (now - bu_last_refill b) * rl_refill_per_second rl"
    using r by (intro mult_right_mono) simp_all
  then have "of_int (rl_capacity rl) \<le> bu_tokens b + (now - bu_last_refill b) * rl_refill_per_second rl"
    using bucket_ttl_long [OF assms(1)] b(1) by linarith
  then show ?thesis using False by (simp add: live_bucket_def refilled_def min_absorb1)
qed

lemma take_token_cong: "refilled rl now b = refilled rl now c \<Longrightarrow> take_token rl now b = take_token rl now c"
  by (simp add: take_token_def)

text \<open>The expiry of buckets does not show. On a store whose buckets hold between nothing and the
  capacity, a call answers and writes exactly what it would on a store that never drops a bucket.\<close>

theorem expiry_transparent:
  assumes "valid_rate rl" "bucket_ok rl db"
  shows "fst (token_bucket rl key now db) = fst (take_token rl now (map_option fst (db key))) \<and>
    map_option fst (snd (token_bucket rl key now db) key) = Some (snd (take_token rl now (map_option fst (db key))))"
proof -
  have "take_token rl now (live_bucket now (db key)) = take_token rl now (map_option fst (db key))"
  proof (cases "db key")
    case None
    then show ?thesis by (simp add: live_bucket_def)
  next
    case (Some e)
    obtain b x where "e = (b, x)" by (cases e)
    then have "refilled rl now (live_bucket now (db key)) = refilled rl now (map_option fst (db key))"
      using live_bucket_refilled [OF assms, of key b x now] Some by (simp only: option.map fst_conv)
    then show ?thesis by (rule take_token_cong)
  qed
  then show ?thesis by (simp add: token_bucket_def split: prod.splits)
qed

text \<open>The tokens of a client as time passes.\<close>

definition available_at :: "rate_settings \<Rightarrow> bucket_store \<Rightarrow> string \<Rightarrow> real \<Rightarrow> real" where
  "available_at rl db k now = refilled rl now (live_bucket now (db k))"

lemma token_bucket_call:
  assumes "valid_rate rl" "bucket_ok rl db" "case db k of None \<Rightarrow> True | Some (b, _) \<Rightarrow> bu_last_refill b \<le> now"
    and "token_bucket rl k now db = ((accepted, n), db')"
  shows "bucket_ok rl db'" "accepted \<longleftrightarrow> 1 \<le> available_at rl db k now"
    "db' = db(k \<mapsto> (\<lparr>bu_tokens = available_at rl db k now - (if accepted then 1 else 0), bu_last_refill = now\<rparr>, now + of_int (bucket_ttl rl)))"
    "0 \<le> available_at rl db k now" "available_at rl db k now \<le> of_int (rl_capacity rl)"
proof -
  have r: "0 < rl_refill_per_second rl" "1 \<le> (of_int (rl_capacity rl) :: real)" using assms(1) by (simp_all add: valid_rate_def)
  show db': "db' = db(k \<mapsto> (\<lparr>bu_tokens = available_at rl db k now - (if accepted then 1 else 0), bu_last_refill = now\<rparr>, now + of_int (bucket_ttl rl)))"
    and acc: "accepted \<longleftrightarrow> 1 \<le> available_at rl db k now"
    using assms(4) by (auto simp: token_bucket_def take_token_def Let_def available_at_def)
  show hi: "available_at rl db k now \<le> of_int (rl_capacity rl)"
    by (simp add: available_at_def refilled_def split: option.split)
  show lo: "0 \<le> available_at rl db k now"
  proof (cases "live_bucket now (db k)")
    case None
    then show ?thesis using r by (simp add: available_at_def refilled_def)
  next
    case (Some b)
    then obtain x where "db k = Some (b, x)" by (auto simp: live_bucket_def split: option.splits prod.splits if_splits)
    then have "0 \<le> bu_tokens b" "bu_last_refill b \<le> now" using assms(2,3) by (auto simp: bucket_ok_def)
    then show ?thesis using r Some by (simp add: available_at_def refilled_def)
  qed
  show "bucket_ok rl db'" using assms(2) hi lo acc unfolding db' bucket_ok_def by auto
qed

lemma available_later:
  assumes "valid_rate rl" "bucket_ok rl db" "t \<le> t'"
  shows "available_at rl db k t' \<le> available_at rl db k t + (t' - t) * rl_refill_per_second rl"
proof (cases "db k")
  case None
  then show ?thesis using assms by (simp add: available_at_def live_bucket_def refilled_def valid_rate_def)
next
  case (Some e)
  obtain b x where e: "e = (b, x)" by (cases e)
  have at: "available_at rl db k u = min (of_int (rl_capacity rl)) (bu_tokens b + (u - bu_last_refill b) * rl_refill_per_second rl)" for u
    using live_bucket_refilled [OF assms(1,2), of k b x u] Some e by (simp add: available_at_def refilled_def)
  have "0 \<le> (t' - t) * rl_refill_per_second rl" using assms(1,3) by (simp add: valid_rate_def)
  then show ?thesis unfolding at by (simp add: algebra_simps min_def)
qed

definition accepted_count :: "string \<Rightarrow> (string \<times> real \<times> bool) list \<Rightarrow> nat" where
  "accepted_count k trail = length (filter (\<lambda>(j, _, a). j = k \<and> a) trail)"

lemma available_after:
  assumes "valid_rate rl" "db k = Some (\<lparr>bu_tokens = v, bu_last_refill = now\<rparr>, now + of_int (bucket_ttl rl))" "v \<le> of_int (rl_capacity rl)"
  shows "available_at rl db k now = v"
proof -
  have "0 < bucket_ttl rl" by (simp add: bucket_ttl_def)
  then show ?thesis using assms by (simp add: available_at_def live_bucket_def refilled_def)
qed

lemma run_bounded:
  assumes "valid_rate rl" "bucket_ok rl db" "sorted (map snd rs)" "\<forall>(j, t) \<in> set rs. t0 \<le> t \<and> t \<le> T"
    and "\<forall>j b x. db j = Some (b, x) \<longrightarrow> (\<forall>(i, t) \<in> set rs. bu_last_refill b \<le> t)"
    and "case db k of None \<Rightarrow> True | Some (b, _) \<Rightarrow> bu_last_refill b \<le> t0" "t0 \<le> T"
  shows "real (accepted_count k (fst (bucket_run rl rs db))) \<le> available_at rl db k t0 + (T - t0) * rl_refill_per_second rl"
  using assms(2-)
proof (induction rs arbitrary: db t0)
  case Nil
  obtain a n db' where call: "token_bucket rl k t0 db = ((a, n), db')" by (metis prod.exhaust)
  have "0 \<le> available_at rl db k t0" by (rule token_bucket_call(4) [OF assms(1) Nil(1) Nil(5) call])
  moreover have "0 \<le> (T - t0) * rl_refill_per_second rl" using assms(1) Nil(6) by (simp add: valid_rate_def)
  ultimately show ?case by (simp add: accepted_count_def)
next
  case (Cons r rs)
  obtain j now where r: "r = (j, now)" by (cases r)
  obtain a n db1 where call: "token_bucket rl j now db = ((a, n), db1)" by (metis prod.exhaust)
  obtain trail db2 where rest: "bucket_run rl rs db1 = (trail, db2)" by (metis prod.exhaust)
  have run: "bucket_run rl (r # rs) db = ((j, now, a) # trail, db2)" by (simp add: r call rest)
  have times: "t0 \<le> now" "now \<le> T" "\<forall>(i, t) \<in> set rs. now \<le> t \<and> t0 \<le> t \<and> t \<le> T" "sorted (map snd rs)"
    using Cons.prems(2,3) by (auto simp: r)
  have "case db j of None \<Rightarrow> True | Some (b, _) \<Rightarrow> bu_last_refill b \<le> now"
    using Cons.prems(4) by (auto simp: r split: option.split)
  note c = token_bucket_call [OF assms(1) Cons.prems(1) this call]
  have old: "\<forall>i b x. db1 i = Some (b, x) \<longrightarrow> (\<forall>(i, t) \<in> set rs. bu_last_refill b \<le> t)"
    using Cons.prems(4) times(3) unfolding c(3) by (auto simp: r)
  show ?case
  proof (cases "j = k")
    case False
    then have same: "db1 k = db k" by (simp add: c(3))
    then have "real (accepted_count k (fst (bucket_run rl rs db1))) \<le> available_at rl db1 k t0 + (T - t0) * rl_refill_per_second rl"
      using times Cons.prems(5,6) by (intro Cons.IH [OF c(1) times(4) _ old]) auto
    then show ?thesis using False same by (simp add: run rest accepted_count_def available_at_def)
  next
    case True
    let ?v = "available_at rl db k now - (if a then 1 else 0)"
    have v: "db1 k = Some (\<lparr>bu_tokens = ?v, bu_last_refill = now\<rparr>, now + of_int (bucket_ttl rl))" using True by (simp add: c(3))
    have "?v \<le> of_int (rl_capacity rl)" using c(5) True by auto
    then have after: "available_at rl db1 k now = ?v" using available_after [OF assms(1), of db1 k ?v now] v by blast
    have "real (accepted_count k (fst (bucket_run rl rs db1))) \<le> available_at rl db1 k now + (T - now) * rl_refill_per_second rl"
      using times v by (intro Cons.IH [OF c(1) times(4) _ old]) auto
    moreover have "available_at rl db k now \<le> available_at rl db k t0 + (now - t0) * rl_refill_per_second rl"
      by (rule available_later [OF assms(1) Cons.prems(1) times(1)])
    moreover have "accepted_count k (fst (bucket_run rl (r # rs) db)) = (if a then 1 else 0) + accepted_count k (fst (bucket_run rl rs db1))"
      using True by (simp add: run rest accepted_count_def)
    ultimately show ?thesis by (simp add: after algebra_simps split: if_splits)
  qed
qed

text \<open>C20. The rate limit holds. From any consistent store, of requests that reach the limiter in the order
  of their times, mixed with any requests of other clients, a client gets at most the capacity plus the
  refill of the time that passes from the first to the last request.\<close>

theorem rate_bounded:
  assumes "valid_rate rl" "bucket_ok rl db" "sorted (map snd rs)" "rs \<noteq> []"
    and "\<forall>j b x. db j = Some (b, x) \<longrightarrow> bu_last_refill b \<le> snd (hd rs)"
  shows "real (accepted_count k (fst (bucket_run rl rs db))) \<le>
    of_int (rl_capacity rl) + (snd (last rs) - snd (hd rs)) * rl_refill_per_second rl"
proof -
  have ends: "\<forall>(j, t) \<in> set rs. snd (hd rs) \<le> t \<and> t \<le> snd (last rs)"
    using assms(3,4) by (induction rs) (auto simp: last_ConsR dest: last_in_set)
  have "last rs \<in> set rs" using assms(4) by simp
  then have "snd (hd rs) \<le> snd (last rs)" using ends by (metis (mono_tags, lifting) case_prod_beta)
  then have "real (accepted_count k (fst (bucket_run rl rs db))) \<le>
    available_at rl db k (snd (hd rs)) + (snd (last rs) - snd (hd rs)) * rl_refill_per_second rl"
    using assms(5) ends by (intro run_bounded [OF assms(1-3)]) (fastforce split: option.split)+
  moreover have "available_at rl db k (snd (hd rs)) \<le> of_int (rl_capacity rl)"
    by (simp add: available_at_def refilled_def split: option.split)
  ultimately show ?thesis by linarith
qed

text \<open>The rate limit binds only those who name themselves honestly. The client chooses the name its
  bucket goes by: in every state of the store there is a value of the header \<open>x-api-client-id\<close> with
  which the next request of any method, path and host is passed, whatever the client has used up.\<close>

theorem limit_evaded:
  assumes "valid_rate rl" "finite (dom db)"
  shows "\<exists>i remaining. fst (rate_limited rl (rq\<lparr>rq_headers := (rq_headers rq)(''x-api-client-id'' \<mapsto> i)\<rparr>) host True now db) = Passed remaining"
proof -
  have "infinite (range (\<lambda>i. ''rate-limit:v1:'' @ i))"
    by (simp add: finite_image_iff inj_on_def infinite_UNIV_listI)
  then have "\<not> range (\<lambda>i. ''rate-limit:v1:'' @ i) \<subseteq> dom db" using assms(2) finite_subset by blast
  then obtain i where i: "db (''rate-limit:v1:'' @ i) = None" by blast
  let ?rq = "rq\<lparr>rq_headers := (rq_headers rq)(''x-api-client-id'' \<mapsto> i)\<rparr>"
  have "client_key ?rq host = ''rate-limit:v1:'' @ i" by (simp add: client_key_def)
  then have "\<exists>n db'. token_bucket rl (client_key ?rq host) now db = ((True, n), db')"
    using i assms(1) by (simp add: token_bucket_def live_bucket_def take_token_def refilled_def Let_def valid_rate_def)
  then have "\<exists>remaining. fst (rate_limited rl ?rq host True now db) = Passed remaining"
    by (auto simp: rate_limited_def simp del: fun_upd_apply)
  then show ?thesis by blast
qed

section \<open>Examples\<close>

definition small_rate :: rate_settings where
  "small_rate = \<lparr>rl_enabled = True, rl_capacity = 2, rl_refill_per_second = 1, rl_fail_closed = False\<rparr>"

theorem rate_bounded_witness:
  "real (accepted_count ''c'' (fst (bucket_run small_rate [(''c'', 0), (''c'', 0), (''c'', 0), (''c'', 1)] Map.empty))) \<le> 3"
proof -
  have "valid_rate small_rate" by (simp add: valid_rate_def small_rate_def)
  moreover have "bucket_ok small_rate Map.empty" by (simp add: bucket_ok_def)
  ultimately show ?thesis
    using rate_bounded [of small_rate Map.empty "[(''c'', 0), (''c'', 0), (''c'', 0), (''c'', 1)]" "''c''"] by (simp add: small_rate_def)
qed

theorem expiry_transparent_witness:
  "fst (token_bucket small_rate ''c'' 50 [''c'' \<mapsto> (\<lparr>bu_tokens = 1 / 2, bu_last_refill = 10\<rparr>, 14)]) = (True, 1)"
proof -
  let ?db = "[''c'' \<mapsto> (\<lparr>bu_tokens = 1 / 2, bu_last_refill = 10\<rparr>, 14)]"
  have "valid_rate small_rate" by (simp add: valid_rate_def small_rate_def)
  moreover have "bucket_ok small_rate ?db" by (simp add: bucket_ok_def small_rate_def bucket_ttl_def)
  ultimately show ?thesis
    using expiry_transparent [of small_rate ?db "''c''" 50] by (simp add: take_token_def refilled_def small_rate_def Let_def)
qed

theorem limit_evaded_witness:
  "\<exists>i remaining. fst (rate_limited small_rate (\<lparr>rq_method = ''GET'', rq_path = ''/api/v1/alerts'', rq_headers = Map.empty\<rparr>
     \<lparr>rq_headers := (rq_headers \<lparr>rq_method = ''GET'', rq_path = ''/api/v1/alerts'', rq_headers = Map.empty\<rparr>)(''x-api-client-id'' \<mapsto> i)\<rparr>)
     None True 0 [''rate-limit:v1:unknown'' \<mapsto> (\<lparr>bu_tokens = 0, bu_last_refill = 0\<rparr>, 4)]) = Passed remaining"
  by (rule limit_evaded) (simp_all add: valid_rate_def small_rate_def)

end
