(* ===== verification/Realtime.thy ===== *)
theory Realtime
  imports Guardrails Claim_Text Json_Text
begin

text \<open>
  The in-memory broker of the realtime stream (\<open>realtime.py\<close>). \<open>publish\<close> appends to the history and, when that grows too
  long, binds a new, shorter list; a subscriber that replays the history iterates over the list it found, so
  lists live in a store and are named by their place in it. A subscription is the asynchronous generator: \<open>resume\<close>
  runs it to its next value, or to where it waits for one. Publishing suspends nowhere, as the queues are unbounded.
\<close>

section \<open>Cursors\<close>

text \<open>\<open>int(s)\<close> on ASCII text: white space around, a sign, digits that single underscores may group.\<close>

fun grouped_digits :: "nat \<Rightarrow> string \<Rightarrow> nat option" where
  "grouped_digits acc [] = Some acc"
| "grouped_digits acc (c # cs) =
    (if is_digit c then grouped_digits (10 * acc + (of_char c - 48)) cs
     else if c = CHR ''_'' \<and> cs \<noteq> [] \<and> is_digit (hd cs) then grouped_digits acc cs else None)"

definition unsigned_text :: "string \<Rightarrow> nat option" where
  "unsigned_text s = (if s \<noteq> [] \<and> is_digit (hd s) then grouped_digits 0 s else None)"

definition python_int :: "string \<Rightarrow> int res" where
  "python_int s = (let t = strip_by is_space s;
       n = (case t of [] \<Rightarrow> None
         | c # cs \<Rightarrow> if c = CHR ''-'' then map_option (\<lambda>n. - int n) (unsigned_text cs)
             else if c = CHR ''+'' then map_option int (unsigned_text cs) else map_option int (unsigned_text t))
     in case n of None \<Rightarrow> Inl (ValueError ''invalid literal for int()'') | Some i \<Rightarrow> Inr i)"

definition int_or_zero :: "string \<Rightarrow> int res" where
  "int_or_zero s = (if s = [] then Inr 0 else python_int s)"

definition stream_id :: "string \<Rightarrow> (int \<times> int) res" where
  "stream_id v = (case int_or_zero (takeWhile (\<lambda>c. c \<noteq> CHR ''-'') v) of Inl x \<Rightarrow> Inl x
     | Inr l \<Rightarrow> (case int_or_zero (drop 1 (dropWhile (\<lambda>c. c \<noteq> CHR ''-'') v)) of Inl x \<Rightarrow> Inl x | Inr r \<Rightarrow> Inr (l, r)))"

definition id_less :: "int \<times> int \<Rightarrow> int \<times> int \<Rightarrow> bool" where
  "id_less a b \<longleftrightarrow> fst a < fst b \<or> fst a = fst b \<and> snd a < snd b"

definition stream_gap :: "string \<Rightarrow> string \<Rightarrow> payload" where
  "stream_gap requested oldest = [(''event_type'', PStr ''stream.reset_required''), (''reason'', PStr ''CURSOR_TRIMMED''),
     (''requested_cursor'', PStr requested), (''oldest_available_cursor'', PStr oldest),
     (''snapshot_endpoint'', PStr ''/api/v1/alerts?status=ACTIVE'')]"

section \<open>The broker\<close>

type_synonym stream_item = "string \<times> payload"

text \<open>Where a subscription stands: not yet run, at a place of the list it iterates over, after the notice of a gap, at
  its queue, or ended by an exception.\<close>

datatype stream_subscription = Unstarted string | Replaying nat nat string | Notified | Live "stream_item list" | Broken

record broker =
  rt_lists :: "stream_item list list"
  rt_history :: nat
  rt_next_id :: nat
  rt_max_length :: "int option"
  rt_subscribers :: "nat \<rightharpoonup> stream_subscription"

definition new_broker :: "int option \<Rightarrow> broker" where
  "new_broker m = \<lparr>rt_lists = [[]], rt_history = 0, rt_next_id = 1, rt_max_length = m, rt_subscribers = Map.empty\<rparr>"

definition current_history :: "broker \<Rightarrow> stream_item list" where
  "current_history b = rt_lists b ! rt_history b"

definition event_id :: "nat \<Rightarrow> string" where
  "event_id n = show_nat n @ ''-0''"

text \<open>\<open>xs[-m:]\<close>.\<close>

definition last_slice :: "int \<Rightarrow> 'a list \<Rightarrow> 'a list" where
  "last_slice m xs = (if m > 0 then drop (length xs - nat m) xs else drop (nat (- m)) xs)"

definition queued :: "stream_item \<Rightarrow> stream_subscription \<Rightarrow> stream_subscription" where
  "queued item s = (case s of Live q \<Rightarrow> Live (q @ [item]) | _ \<Rightarrow> s)"

definition append_history :: "stream_item \<Rightarrow> broker \<Rightarrow> broker" where
  "append_history item b = b\<lparr>rt_lists := (rt_lists b)[rt_history b := current_history b @ [item]]\<rparr>"

definition trim_history :: "broker \<Rightarrow> broker" where
  "trim_history b = (case rt_max_length b of
       Some m \<Rightarrow> if int (length (current_history b)) > m
         then b\<lparr>rt_lists := rt_lists b @ [last_slice m (current_history b)], rt_history := length (rt_lists b)\<rparr> else b
     | None \<Rightarrow> b)"

definition realtime_publish :: "payload \<Rightarrow> broker \<Rightarrow> string \<times> broker" where
  "realtime_publish p b = (let i = event_id (rt_next_id b);
       b1 = trim_history (append_history (i, p) (b\<lparr>rt_next_id := rt_next_id b + 1\<rparr>))
     in (i, b1\<lparr>rt_subscribers := map_option (queued (i, p)) \<circ> rt_subscribers b1\<rparr>))"

definition subscribe :: "nat \<Rightarrow> string \<Rightarrow> broker \<Rightarrow> broker" where
  "subscribe s after b = b\<lparr>rt_subscribers := (rt_subscribers b)(s \<mapsto> Unstarted after)\<rparr>"

definition unsubscribe :: "nat \<Rightarrow> broker \<Rightarrow> broker" where
  "unsubscribe s b = b\<lparr>rt_subscribers := (rt_subscribers b)(s := None)\<rparr>"

section \<open>A subscription\<close>

datatype yielded = Yield stream_item | Waits | Raises py_exn

text \<open>The items after the cursor, from a place on: \<open>None\<close> when the iteration is over.\<close>

fun next_item :: "string \<Rightarrow> nat \<Rightarrow> stream_item list \<Rightarrow> (nat \<times> stream_item) option res" where
  "next_item after k [] = Inr None"
| "next_item after k (x # xs) = (case stream_id (fst x) of Inl e \<Rightarrow> Inl e
     | Inr i \<Rightarrow> (case stream_id after of Inl e \<Rightarrow> Inl e
       | Inr a \<Rightarrow> if id_less a i then Inr (Some (k + 1, x)) else next_item after (k + 1) xs))"

definition replay_history :: "nat \<Rightarrow> nat \<Rightarrow> string \<Rightarrow> broker \<Rightarrow> yielded \<times> stream_subscription" where
  "replay_history l k after b = (case next_item after k (drop k (rt_lists b ! l)) of
       Inl e \<Rightarrow> (Raises e, Broken)
     | Inr None \<Rightarrow> (Waits, Live [])
     | Inr (Some (j, x)) \<Rightarrow> (Yield x, Replaying l j after))"

text \<open>Whether the cursor precedes the history.\<close>

definition trimmed :: "string \<Rightarrow> broker \<Rightarrow> bool res" where
  "trimmed after b = (if after = ''0-0'' \<or> current_history b = [] then Inr False
     else case stream_id after of Inl e \<Rightarrow> Inl e
       | Inr a \<Rightarrow> (case stream_id (fst (hd (current_history b))) of Inl e \<Rightarrow> Inl e | Inr i \<Rightarrow> Inr (id_less a i)))"

definition advance :: "stream_subscription \<Rightarrow> broker \<Rightarrow> yielded \<times> stream_subscription" where
  "advance s b = (case s of
       Unstarted after \<Rightarrow> (if after = ''$'' then (Waits, Live [])
         else case trimmed after b of Inl e \<Rightarrow> (Raises e, Broken)
           | Inr True \<Rightarrow> (Yield (fst (hd (current_history b)), stream_gap after (fst (hd (current_history b)))), Notified)
           | Inr False \<Rightarrow> replay_history (rt_history b) 0 after b)
     | Replaying l k after \<Rightarrow> replay_history l k after b
     | Notified \<Rightarrow> (Waits, Live [])
     | Live (x # q) \<Rightarrow> (Yield x, Live q)
     | Live [] \<Rightarrow> (Waits, Live [])
     | Broken \<Rightarrow> (Waits, Broken))"

definition resume :: "nat \<Rightarrow> broker \<Rightarrow> yielded \<times> broker" where
  "resume s b = (case rt_subscribers b s of None \<Rightarrow> (Waits, b)
     | Some sub \<Rightarrow> (case advance sub b of (y, sub') \<Rightarrow> (y, b\<lparr>rt_subscribers := (rt_subscribers b)(s \<mapsto> sub')\<rparr>)))"

end
