(* ===== verification/Realtime_Correct.thy ===== *)
theory Realtime_Correct
  imports Realtime
begin

text \<open>
  What a reconnecting subscriber receives: without a bound on the history every event after its cursor, in order and once;
  with a bound a subscriber that is slow to replay loses events without a notice.
\<close>

section \<open>Identifiers\<close>

lemma grouped_digits_value: "list_all is_digit s \<Longrightarrow> grouped_digits acc s = Some (fold (\<lambda>c v. 10 * v + (of_char c - 48)) s acc)"
  by (induction s arbitrary: acc) simp_all

lemma digit_facts: "is_digit c \<Longrightarrow> c \<noteq> CHR ''-'' \<and> c \<noteq> CHR ''+'' \<and> \<not> is_space c"
  by (auto simp: is_digit_def is_space_def Let_def)

lemma show_nat_all: "list_all is_digit (show_nat n)" "show_nat n \<noteq> []"
  using show_nat_digits [of n] by (simp_all add: list_all_iff) (simp add: show_nat.simps [of n])

lemma strip_digits: "list_all is_digit s \<Longrightarrow> strip_by is_space s = s"
proof -
  assume d: "list_all is_digit s"
  then have "dropWhile is_space t = t" if "set t \<subseteq> set s" for t
    using that digit_facts by (cases t) (auto simp: list_all_iff)
  then show ?thesis by (simp add: strip_by_def)
qed

lemma int_of_show_nat: "python_int (show_nat n) = Inr (int n)"
proof -
  obtain c cs where cs: "show_nat n = c # cs" using show_nat_all(2) by (cases "show_nat n") auto
  have d: "is_digit c" using show_nat_all(1) [of n] cs by simp
  from cs d have "unsigned_text (show_nat n) = grouped_digits 0 (show_nat n)" by (simp add: unsigned_text_def)
  also have "\<dots> = Some (digits_value (show_nat n))"
    unfolding grouped_digits_value [OF show_nat_all(1)] digits_value_def ..
  finally have "unsigned_text (show_nat n) = Some (digits_value (show_nat n))" .
  then have "unsigned_text (c # cs) = Some n" by (simp only: show_nat_value flip: cs)
  moreover have "strip_by is_space (c # cs) = c # cs" using strip_digits [OF show_nat_all(1) [of n]] by (simp only: cs)
  ultimately show ?thesis using digit_facts [OF d] by (simp add: python_int_def Let_def cs)
qed

lemma stream_id_event [simp]: "stream_id (event_id n) = Inr (int n, 0)"
proof -
  have "c \<noteq> CHR ''-''" if "c \<in> set (show_nat n)" for c using that show_nat_digits digit_facts by blast
  then have "takeWhile (\<lambda>c. c \<noteq> CHR ''-'') (event_id n) = show_nat n" "dropWhile (\<lambda>c. c \<noteq> CHR ''-'') (event_id n) = ''-0''"
    by (simp_all add: event_id_def takeWhile_append2 dropWhile_append2)
  moreover have "int_or_zero ''0'' = Inr 0" by code_simp
  ultimately show ?thesis using show_nat_all(2) by (simp add: stream_id_def int_or_zero_def int_of_show_nat)
qed

lemma event_id_0: "event_id 0 = ''0-0''"
  by code_simp

section \<open>Runs\<close>

datatype realtime_label = Published payload | Opened nat string | Yielded nat stream_item | Silent

inductive realtime_step :: "broker \<Rightarrow> realtime_label \<Rightarrow> broker \<Rightarrow> bool" where
  publish: "realtime_publish p b = (i, b') \<Longrightarrow> realtime_step b (Published p) b'"
| subscribe: "rt_subscribers b s = None \<Longrightarrow> realtime_step b (Opened s after) (subscribe s after b)"
| receive: "resume s b = (Yield x, b') \<Longrightarrow> realtime_step b (Yielded s x) b'"
| pause: "resume s b = (y, b') \<Longrightarrow> (\<And>x. y \<noteq> Yield x) \<Longrightarrow> realtime_step b Silent b'"
| leave: "realtime_step b Silent (unsubscribe s b)"

inductive realtime_runs :: "broker \<Rightarrow> realtime_label list \<Rightarrow> broker \<Rightarrow> bool" where
  nil: "realtime_runs b [] b"
| snoc: "realtime_runs b ls b' \<Longrightarrow> realtime_step b' l b'' \<Longrightarrow> realtime_runs b (ls @ [l]) b''"

text \<open>The events published so far, and what a subscriber asked for and has received since it subscribed last.\<close>

definition published :: "realtime_label list \<Rightarrow> stream_item list" where
  "published ls = fold (\<lambda>l acc. case l of Published p \<Rightarrow> acc @ [(event_id (length acc + 1), p)] | _ \<Rightarrow> acc) ls []"

definition asked :: "nat \<Rightarrow> realtime_label list \<Rightarrow> string option" where
  "asked s ls = fold (\<lambda>l acc. case l of Opened t after \<Rightarrow> if t = s then Some after else acc | _ \<Rightarrow> acc) ls None"

definition received :: "nat \<Rightarrow> realtime_label list \<Rightarrow> stream_item list" where
  "received s ls = fold (\<lambda>l acc. case l of Opened t _ \<Rightarrow> if t = s then [] else acc | Yielded t x \<Rightarrow> if t = s then acc @ [x] else acc | _ \<Rightarrow> acc) ls []"

lemma trace_snoc:
  "published (ls @ [l]) = (case l of Published p \<Rightarrow> published ls @ [(event_id (length (published ls) + 1), p)] | _ \<Rightarrow> published ls)"
  "asked s (ls @ [l]) = (case l of Opened t after \<Rightarrow> if t = s then Some after else asked s ls | _ \<Rightarrow> asked s ls)"
  "received s (ls @ [l]) = (case l of Opened t _ \<Rightarrow> if t = s then [] else received s ls
     | Yielded t x \<Rightarrow> if t = s then received s ls @ [x] else received s ls | _ \<Rightarrow> received s ls)"
  by (cases l; simp add: published_def asked_def received_def)+

definition numbered :: "stream_item list \<Rightarrow> bool" where
  "numbered xs \<longleftrightarrow> (\<forall>i < length xs. fst (xs ! i) = event_id (i + 1))"

lemma numbered_published: "numbered (published ls)"
proof (induction ls rule: rev_induct)
  case (snoc l ls)
  then show ?case by (cases l) (auto simp: trace_snoc numbered_def nth_append less_Suc_eq)
qed (simp add: published_def numbered_def)

text \<open>The next item after the cursor of event \<open>n\<close> is at place \<open>n\<close> or where the iteration stands, if that is further.\<close>

lemma next_item_numbered:
  assumes "numbered xs" "k \<le> length xs"
  shows "next_item (event_id n) k (drop k xs) = Inr (if max n k < length xs then Some (max n k + 1, xs ! max n k) else None)"
  using assms(2)
proof (induction "length xs - k" arbitrary: k)
  case 0
  then show ?case by simp
next
  case (Suc d)
  then have k: "k < length xs" by simp
  then have split: "drop k xs = xs ! k # drop (k + 1) xs" by (simp add: Cons_nth_drop_Suc)
  have "fst (xs ! k) = event_id (k + 1)" using assms(1) k by (simp add: numbered_def)
  then have here: "stream_id (fst (xs ! k)) = Inr (int k + 1, 0)" by simp
  have rest: "next_item (event_id n) (k + 1) (drop (k + 1) xs) =
      Inr (if max n (k + 1) < length xs then Some (max n (k + 1) + 1, xs ! max n (k + 1)) else None)"
    using Suc.hyps(2) k by (intro Suc.hyps(1)) simp_all
  show ?case
  proof (cases "n \<le> k")
    case False
    then have "max n (k + 1) = n" "max n k = n" by simp_all
    with here rest False show ?thesis unfolding split using k by (simp add: id_less_def)
  qed (simp add: split k here id_less_def max_def)
qed


section \<open>An unbounded history\<close>

definition broker_ok :: "realtime_label list \<Rightarrow> broker \<Rightarrow> bool" where
  "broker_ok ls b \<longleftrightarrow> rt_lists b = [published ls] \<and> rt_history b = 0 \<and> rt_next_id b = length (published ls) + 1 \<and> rt_max_length b = None"

definition subscription_ok :: "nat \<Rightarrow> stream_item list \<Rightarrow> stream_item list \<Rightarrow> stream_subscription option \<Rightarrow> bool" where
  "subscription_ok n P got sub \<longleftrightarrow> (case sub of None \<Rightarrow> prefix got (drop n P)
     | Some (Unstarted a) \<Rightarrow> a = event_id n \<and> got = []
     | Some (Replaying l k a) \<Rightarrow> a = event_id n \<and> l = 0 \<and> k \<le> length P \<and> got = drop n (take k P)
     | Some (Live q) \<Rightarrow> got @ q = drop n P
     | _ \<Rightarrow> False)"

lemma subscription_ok_prefix: "subscription_ok n P got sub \<Longrightarrow> prefix got (drop n P)"
proof (cases sub)
  case (Some s)
  assume ok: "subscription_ok n P got sub"
  show ?thesis
  proof (cases s)
    case (Replaying l k a)
    with Some ok have "got = take (k - n) (drop n P)" by (simp add: subscription_ok_def drop_take)
    then show ?thesis by (simp add: take_is_prefix)
  next
    case (Live q)
    with Some ok have "got @ q = drop n P" by (simp add: subscription_ok_def)
    then show ?thesis by (metis prefixI)
  qed (use Some ok in \<open>simp_all add: subscription_ok_def\<close>)
qed (simp add: subscription_ok_def)

lemma publish_unbounded:
  assumes "broker_ok ls b" "realtime_publish p b = (i, b')"
  shows "broker_ok (ls @ [Published p]) b' \<and> rt_subscribers b' = map_option (queued (i, p)) \<circ> rt_subscribers b \<and>
    i = event_id (length (published ls) + 1)"
  using assms unfolding broker_ok_def
  by (auto simp: realtime_publish_def append_history_def trim_history_def current_history_def Let_def trace_snoc)

lemma subscription_ok_publish:
  assumes "subscription_ok n P got sub" "n \<le> length P"
  shows "subscription_ok n (P @ [x]) got (map_option (queued x) sub)"
proof (cases sub)
  case None
  with assms show ?thesis by (simp add: subscription_ok_def prefix_append)
next
  case (Some s)
  with assms show ?thesis by (cases s) (simp_all add: subscription_ok_def queued_def flip: append_assoc)
qed

lemma resume_subscribers: "resume s b = (y, b') \<Longrightarrow> rt_lists b' = rt_lists b \<and> rt_history b' = rt_history b \<and> rt_next_id b' = rt_next_id b \<and>
    rt_max_length b' = rt_max_length b \<and> (\<forall>t. t \<noteq> s \<longrightarrow> rt_subscribers b' t = rt_subscribers b t)"
  by (auto simp: resume_def split: option.splits prod.splits)

lemma replay_numbered:
  assumes "broker_ok ls b" "k \<le> length (published ls)"
  shows "replay_history 0 k (event_id n) b = (if max n k < length (published ls)
    then (Yield (published ls ! max n k), Replaying 0 (max n k + 1) (event_id n)) else (Waits, Live []))"
  using assms next_item_numbered [OF numbered_published assms(2), of n] by (simp add: replay_history_def broker_ok_def)

lemma not_trimmed:
  assumes "broker_ok ls b"
  shows "trimmed (event_id n) b = Inr False"
proof (cases "published ls")
  case Nil
  with assms show ?thesis by (simp add: trimmed_def broker_ok_def current_history_def)
next
  case (Cons x xs)
  then have "fst x = event_id 1" using numbered_published [of ls] by (force simp: numbered_def)
  then have first: "fst (hd (current_history b)) = event_id 1" "current_history b \<noteq> []" using assms Cons by (simp_all add: broker_ok_def current_history_def)
  show ?thesis
  proof (cases "n = 0")
    case True
    then show ?thesis by (simp add: trimmed_def event_id_0)
  next
    case False
    with first show ?thesis by (simp add: trimmed_def id_less_def)
  qed
qed

lemma event_id_live [simp]: "event_id n \<noteq> ''$''"
  by (simp add: event_id_def)

lemma advance_ok:
  assumes "broker_ok ls b" "subscription_ok n (published ls) got (Some sub)" "n \<le> length (published ls)" "advance sub b = (y, sub')"
  shows "subscription_ok n (published ls) (case y of Yield x \<Rightarrow> got @ [x] | _ \<Rightarrow> got) (Some sub')"
proof -
  let ?P = "published ls"
  have replay: ?thesis if k: "k \<le> length ?P" "got = drop n (take k ?P)" "replay_history 0 k (event_id n) b = (y, sub')" for k
  proof (cases "max n k < length ?P")
    case True
    then have "y = Yield (?P ! max n k)" "sub' = Replaying 0 (max n k + 1) (event_id n)"
      using k(3) replay_numbered [OF assms(1) k(1), of n] by auto
    moreover have "got @ [?P ! max n k] = drop n (take (max n k + 1) ?P)"
      using True k(2) by (cases "n \<le> k") (simp_all add: take_Suc_conv_app_nth max_def)
    ultimately show ?thesis using True by (simp add: subscription_ok_def Suc_le_eq)
  next
    case False
    then have "y = Waits" "sub' = Live []" using k(3) replay_numbered [OF assms(1) k(1), of n] by auto
    moreover have "got = drop n ?P" using False k assms(3) by (cases "n \<le> k") (simp_all add: max_def)
    ultimately show ?thesis by (simp add: subscription_ok_def)
  qed
  show ?thesis
  proof (cases sub)
    case (Unstarted a)
    with assms(2,4) not_trimmed [OF assms(1), of n] have "got = []" "replay_history (rt_history b) 0 (event_id n) b = (y, sub')"
      by (simp_all add: subscription_ok_def advance_def)
    with assms(1) replay [of 0] show ?thesis by (simp add: broker_ok_def)
  next
    case (Replaying l k a)
    with assms(2,4) replay [of k] show ?thesis by (simp add: subscription_ok_def advance_def)
  next
    case (Live q)
    with assms(2,4) show ?thesis by (cases q) (auto simp: subscription_ok_def advance_def)
  qed (use assms(2) in \<open>simp_all add: subscription_ok_def\<close>)
qed

lemma broker_ok_step:
  assumes "realtime_step b l b'" "broker_ok ls b"
  shows "broker_ok (ls @ [l]) b'"
  using assms(1)
proof cases
  case (publish p i)
  with publish_unbounded [OF assms(2)] show ?thesis by simp
next
  case (receive s x)
  with resume_subscribers assms(2) show ?thesis by (simp add: broker_ok_def trace_snoc)
next
  case (pause s y)
  with resume_subscribers assms(2) show ?thesis by (simp add: broker_ok_def trace_snoc)
qed (use assms(2) in \<open>simp_all add: broker_ok_def trace_snoc subscribe_def unsubscribe_def\<close>)

lemma broker_ok_runs: "realtime_runs (new_broker None) ls b \<Longrightarrow> broker_ok ls b"
proof (induction "new_broker None" ls b rule: realtime_runs.induct)
  case nil
  then show ?case by (simp add: broker_ok_def new_broker_def published_def)
qed (simp add: broker_ok_step)

lemma subscription_ok_step:
  assumes "realtime_step b l b'" "broker_ok ls b" "n \<le> length (published ls)" "\<And>a. l \<noteq> Opened s a"
    and "subscription_ok n (published ls) (received s ls) (rt_subscribers b s)"
  shows "subscription_ok n (published (ls @ [l])) (received s (ls @ [l])) (rt_subscribers b' s)"
  using assms(1)
proof cases
  case (publish p i)
  with publish_unbounded [OF assms(2) publish(2)] subscription_ok_publish [OF assms(5,3)] show ?thesis by (simp add: trace_snoc)
next
  case (subscribe t after)
  with assms(4,5) show ?thesis by (auto simp: trace_snoc subscribe_def)
next
  case (receive t x)
  show ?thesis
  proof (cases "t = s")
    case True
    then obtain sub sub' where "rt_subscribers b s = Some sub" "advance sub b = (Yield x, sub')" "rt_subscribers b' s = Some sub'"
      using receive(2) by (auto simp: resume_def split: option.splits prod.splits)
    with advance_ok [OF assms(2) _ assms(3)] assms(5) receive(1) True show ?thesis by (fastforce simp: trace_snoc)
  next
    case False
    with receive resume_subscribers [OF receive(2)] assms(5) show ?thesis by (simp add: trace_snoc)
  qed
next
  case (pause t y)
  show ?thesis
  proof (cases "t = s \<and> rt_subscribers b s \<noteq> None")
    case True
    then obtain sub sub' where sub: "rt_subscribers b s = Some sub" "advance sub b = (y, sub')" "rt_subscribers b' s = Some sub'"
      using pause(2) by (auto simp: resume_def split: option.splits prod.splits)
    have "\<not> (\<exists>x. y = Yield x)" using pause(3) by blast
    with advance_ok [OF assms(2) _ assms(3) sub(2), of "received s ls"] assms(5) sub(1,3) pause(1) show ?thesis
      by (cases y) (simp_all add: trace_snoc)
  next
    case False
    then have "rt_subscribers b' s = rt_subscribers b s"
      using pause(2) resume_subscribers [OF pause(2)] by (cases "t = s") (auto simp: resume_def)
    with pause(1) assms(5) show ?thesis by (simp add: trace_snoc)
  qed
next
  case (leave t)
  with assms(5) subscription_ok_prefix [OF assms(5)] show ?thesis
    by (cases "t = s") (simp_all add: trace_snoc unsubscribe_def, simp add: subscription_ok_def)
qed

lemma realtime_runs_snocD: "realtime_runs b (ls @ [l]) c \<Longrightarrow> \<exists>d. realtime_runs b ls d \<and> realtime_step d l c"
  by (erule realtime_runs.cases) auto

lemma subscription_ok_runs:
  assumes "realtime_runs (new_broker None) (ls @ Opened s (event_id n) # ms) b" "n \<le> length (published ls)" "\<forall>a. Opened s a \<notin> set ms"
  shows "subscription_ok n (published (ls @ Opened s (event_id n) # ms)) (received s (ls @ Opened s (event_id n) # ms)) (rt_subscribers b s) \<and>
    n \<le> length (published (ls @ Opened s (event_id n) # ms))"
  using assms(1,3)
proof (induction ms arbitrary: b rule: rev_induct)
  case Nil
  from realtime_runs_snocD [OF Nil(1)] obtain d where "realtime_step d (Opened s (event_id n)) b" by blast
  then show ?case using assms(2) by cases (simp add: trace_snoc subscribe_def subscription_ok_def)
next
  case (snoc l ms)
  let ?ls = "ls @ Opened s (event_id n) # ms"
  from realtime_runs_snocD [of _ ?ls l b] snoc.prems obtain d where d: "realtime_runs (new_broker None) ?ls d" "realtime_step d l b" by auto
  from snoc.prems(2) have l: "\<And>a. l \<noteq> Opened s a" "\<forall>a. Opened s a \<notin> set ms" by auto
  note ih = snoc.IH [OF d(1) l(2)]
  have "length (published ?ls) \<le> length (published (?ls @ [l]))" unfolding trace_snoc by (cases l) simp_all
  moreover from subscription_ok_step [OF d(2) broker_ok_runs [OF d(1)] conjunct2 [OF ih] l(1) conjunct1 [OF ih]]
  have "subscription_ok n (published (?ls @ [l])) (received s (?ls @ [l])) (rt_subscribers b s)" .
  ultimately show ?case using ih by simp
qed


lemma advance_waits: "advance sub b = (Waits, sub') \<Longrightarrow> sub' = Live [] \<or> sub' = Broken"
  by (auto simp: advance_def replay_history_def split: stream_subscription.splits if_splits sum.splits bool.splits option.splits prod.splits list.splits)

section \<open>Properties\<close>


text \<open>Scripts of requests, to build runs by evaluation.\<close>

datatype request = Do_Publish payload | Do_Open nat string | Do_Resume nat

fun perform :: "request list \<Rightarrow> broker \<Rightarrow> realtime_label list \<times> broker" where
  "perform [] b = ([], b)"
| "perform (Do_Publish p # rs) b = (case perform rs (snd (realtime_publish p b)) of (ls, b') \<Rightarrow> (Published p # ls, b'))"
| "perform (Do_Open s a # rs) b = (if rt_subscribers b s \<noteq> None then perform rs b
     else case perform rs (subscribe s a b) of (ls, b') \<Rightarrow> (Opened s a # ls, b'))"
| "perform (Do_Resume s # rs) b = (case resume s b of (y, b1) \<Rightarrow> (case perform rs b1 of (ls, b') \<Rightarrow>
     ((case y of Yield x \<Rightarrow> Yielded s x | _ \<Rightarrow> Silent) # ls, b')))"

lemma realtime_runs_append: "realtime_runs b ls c \<Longrightarrow> realtime_step a l b \<Longrightarrow> realtime_runs a (l # ls) c"
proof (induction rule: realtime_runs.induct)
  case (nil b)
  then show ?case using realtime_runs.snoc [OF realtime_runs.nil nil] by simp
next
  case (snoc b ls b' l' b'')
  then show ?case using realtime_runs.snoc [of a "l # ls" b' l' b''] by simp
qed

lemma perform_runs: "realtime_runs b (fst (perform rs b)) (snd (perform rs b))"
proof (induction rs b rule: perform.induct)
  case (2 p rs b)
  obtain i b1 where p: "realtime_publish p b = (i, b1)" by fastforce
  from realtime_runs_append [OF 2 [unfolded p snd_conv] realtime_step.publish [OF p]] show ?case by (simp add: p split_beta)
next
  case (3 s a rs b)
  then show ?case using realtime_runs_append [OF 3(2) realtime_step.subscribe] by (auto simp: split_beta)
next
  case (4 s rs b)
  obtain y b1 where r: "resume s b = (y, b1)" by fastforce
  note ih = 4 [OF r [symmetric]]
  show ?case
  proof (cases y)
    case (Yield x)
    from realtime_runs_append [OF ih realtime_step.receive [OF r [unfolded Yield]]] show ?thesis by (simp add: r Yield split_beta)
  qed (use realtime_runs_append [OF ih realtime_step.pause [OF r]] in \<open>simp_all add: r split_beta\<close>)
qed (simp add: realtime_runs.nil)

lemma event_id_zero_iff: "event_id n = ''0-0'' \<longleftrightarrow> n = 0"
  unfolding event_id_0 [symmetric] by (simp add: event_id_def)

lemmas broker_evals = new_broker_def realtime_publish_def append_history_def trim_history_def current_history_def last_slice_def subscribe_def
  resume_def advance_def replay_history_def trimmed_def id_less_def queued_def Let_def event_id_zero_iff

definition sample_script :: "request list" where
  "sample_script = [Do_Publish [], Do_Publish [(''n'', PInt 2)], Do_Open 7 (event_id 1), Do_Resume 7, Do_Publish [], Do_Resume 7]"

lemma sample_script_run:
  "fst (perform sample_script (new_broker None)) = [Published [], Published [(''n'', PInt 2)]] @ Opened 7 (event_id 1) #
     [Yielded 7 (event_id 2, [(''n'', PInt 2)]), Published [], Yielded 7 (event_id 3, [])]"
  by (simp add: sample_script_def broker_evals numeral_2_eq_2 numeral_3_eq_3)


text \<open>With a bound a subscriber goes on iterating over the list it found after the history has become another one:
  the third event never reaches it, and it is given no notice of a gap.\<close>

definition slow_script :: "request list" where
  "slow_script = [Do_Publish [], Do_Open 7 (event_id 0), Do_Resume 7, Do_Publish [], Do_Publish [], Do_Resume 7, Do_Resume 7]"

lemma slow_script_run:
  "perform slow_script (new_broker (Some 1)) =
     ([Published [], Opened 7 (event_id 0), Yielded 7 (event_id 1, []), Published [], Published [], Yielded 7 (event_id 2, []), Silent],
      \<lparr>rt_lists = [[(event_id 1, []), (event_id 2, [])], [(event_id 2, []), (event_id 3, [])], [(event_id 3, [])]], rt_history = 2,
       rt_next_id = 4, rt_max_length = Some 1, rt_subscribers = [7 \<mapsto> Live []]\<rparr>)"
  by (simp add: slow_script_def broker_evals numeral_2_eq_2 [symmetric] fun_eq_iff)

lemma realtime_skips:
  "\<exists>ls b. realtime_runs (new_broker (Some 1)) ls b \<and> map fst (received 7 ls) = [event_id 1, event_id 2] \<and>
     map fst (published ls) = [event_id 1, event_id 2, event_id 3] \<and> rt_subscribers b 7 = Some (Live [])"
proof -
  note run = perform_runs [of "new_broker (Some 1)" slow_script, unfolded slow_script_run fst_conv snd_conv]
  show ?thesis by (rule exI, rule exI, rule conjI, rule run) (simp add: received_def published_def numeral_2_eq_2 numeral_3_eq_3)
qed

text \<open>A bound of zero bounds nothing, as \<open>history[-0:]\<close> is the whole list; and a client whose next event is the oldest of
  the history is told to reset although nothing is missing.\<close>

lemma zero_bound_keeps: "rt_max_length b = Some 0 \<Longrightarrow> current_history b = h \<Longrightarrow> rt_history b < length (rt_lists b) \<Longrightarrow>
    current_history (snd (realtime_publish p b)) = h @ [(event_id (rt_next_id b), p)]"
  by (simp add: realtime_publish_def append_history_def trim_history_def current_history_def last_slice_def Let_def nth_append)

lemma reset_without_gap:
  "n > 0 \<Longrightarrow> current_history b = (event_id (n + 1), p) # rest \<Longrightarrow> advance (Unstarted (event_id n)) b = (Yield (event_id (n + 1), stream_gap (event_id n) (event_id (n + 1))), Notified)"
proof -
  assume n: "n > 0" "current_history b = (event_id (n + 1), p) # rest"
  have "event_id n \<noteq> ''0-0''" using n(1) stream_id_event [of n] stream_id_event [of 0] by (auto simp: event_id_0 simp del: stream_id_event)
  with n show ?thesis by (simp add: advance_def trimmed_def id_less_def)
qed

end
