(* ===== verification/Replays.thy ===== *)
theory Replays
  imports Access Evidence "HOL-Library.AList"
begin

text \<open>
  Replay sessions: the routes that create, list, start and pause them (\<open>api/routes/evaluation.py\<close>), the scenario
  manifests they play (\<open>ingestion/scenarios.py\<close>) and the worker that claims a queued session, plays it and writes
  its end (\<open>workers/replay_scheduler.py\<close>). Every route, and every transaction of the worker, is one function. What the
  two ingestion services return for the scenario is given with the end of a run, as is the content of the
  manifest files. Time stamps, ids and the current time come with the call.
\<close>

section \<open>Manifests\<close>

record scenario_manifest =
  sm_scenario_id :: string
  sm_scenario_version :: int
  sm_seed :: int
  sm_asset_id :: string
  sm_timeline :: "(string \<times> datetime) list"
  sm_watch_before :: datetime
  sm_high_before :: datetime
  sm_critical_requires_market_corroboration :: bool
  sm_market_count :: nat
  sm_social_count :: nat

text \<open>\<open>load_scenario_manifest\<close> on a file that is missing, that does not parse or validate, or that is one.\<close>

datatype manifest_file = Missing_File | Bad_File py_exn | Loaded scenario_manifest

type_synonym manifest_files = "string \<Rightarrow> manifest_file"

definition load_scenario_manifest :: "manifest_files \<Rightarrow> string \<Rightarrow> manifest_file" where
  "load_scenario_manifest files scenario = files (scenario @ ''.yaml'')"

definition manifest_value :: "scenario_manifest \<Rightarrow> py_value" where
  "manifest_value m = PDict [(''scenario_id'', PStr (sm_scenario_id m)), (''scenario_version'', PInt (sm_scenario_version m)),
     (''seed'', PInt (sm_seed m)), (''asset_id'', PStr (sm_asset_id m)), (''timeline'', PDict (map (map_prod id PTime) (sm_timeline m))),
     (''expectations'', PDict [(''watch_before'', PTime (sm_watch_before m)), (''high_before'', PTime (sm_high_before m)),
       (''critical_requires_market_corroboration'', PBool (sm_critical_requires_market_corroboration m))]),
     (''expected_event_counts'', PDict [(''market'', PInt (int (sm_market_count m))), (''social'', PInt (int (sm_social_count m)))])]"

definition manifest_hash :: "'a json_env_scheme \<Rightarrow> scenario_manifest \<Rightarrow> string" where
  "manifest_hash e m = canonical_hash e (json_mode e (manifest_value m))"

section \<open>Rows\<close>

record replay_row =
  rs_tenant_id :: string
  rs_dataset_id :: string
  rs_scope_id :: string
  rs_scenario_version :: int
  rs_manifest_hash :: string
  rs_random_seed :: int
  rs_speed_multiplier :: real
  rs_status :: string
  rs_paused_at :: "datetime option"
  rs_requested_by :: "string option"
  rs_configuration :: payload
  rs_failure_reason :: "string option"
  rs_started_at :: "datetime option"
  rs_completed_at :: "datetime option"
  rs_created_at :: datetime

record audit_row =
  al_tenant_id :: string
  al_actor_id :: string
  al_action :: string
  al_target_type :: string
  al_target_id :: string
  al_reason :: "string option"
  al_metadata :: payload

record replay_asset =
  ra_asset_id :: string
  ra_symbol :: string
  ra_name :: string
  ra_asset_type :: string
  ra_quote_asset :: string
  ra_metadata :: payload

record replay_db =
  rd_replays :: "(uuid \<times> replay_row) list"
  rd_audit :: "audit_row list"
  rd_assets :: "replay_asset list"

record replay_create =
  rc_scenario_id :: string
  rc_speed_multiplier :: real
  rc_random_seed :: "int option"
  rc_configuration :: payload

text \<open>\<open>{**d, k: v}\<close>.\<close>

definition with_key :: "string \<Rightarrow> py_value \<Rightarrow> payload \<Rightarrow> payload" where
  "with_key k v d = AList.update k v d"

definition isolation :: "string \<Rightarrow> py_value" where
  "isolation scope = PDict [(''scope_id'', PStr scope), (''publishes_to_live'', PBool False)]"

section \<open>Routes\<close>

definition create_replay ::
    "'a json_env_scheme \<Rightarrow> manifest_files \<Rightarrow> datetime \<Rightarrow> uuid \<Rightarrow> replay_create \<Rightarrow> string \<Rightarrow> principal \<Rightarrow> replay_db \<Rightarrow> replay_row answer \<times> replay_db" where
  "create_replay e files now i b actor p d =
    (if \<not> (0 \<le> rc_speed_multiplier b \<and> rc_speed_multiplier b \<le> 10000) then (Inl (Http 422 ''validation''), d)
     else case load_scenario_manifest files (rc_scenario_id b) of
       Missing_File \<Rightarrow> (Inl (Http 422 ''unknown replay scenario''), d)
     | Bad_File x \<Rightarrow> (Inl (Server_Error x), d)
     | Loaded m \<Rightarrow> (if map_of (rd_replays d) i \<noteq> None then (Inl (Server_Error (IntegrityError ''replay_sessions'')), d)
       else let r = \<lparr>rs_tenant_id = pr_tenant_id p, rs_dataset_id = sm_scenario_id m, rs_scope_id = i,
              rs_scenario_version = sm_scenario_version m, rs_manifest_hash = manifest_hash e m,
              rs_random_seed = (case rc_random_seed b of Some s \<Rightarrow> s | None \<Rightarrow> sm_seed m),
              rs_speed_multiplier = rc_speed_multiplier b, rs_status = ''CREATED'', rs_paused_at = None, rs_requested_by = Some actor,
              rs_configuration = with_key ''isolation'' (isolation i) (rc_configuration b), rs_failure_reason = None,
              rs_started_at = None, rs_completed_at = None, rs_created_at = now\<rparr>
         in (Inr r, d\<lparr>rd_replays := rd_replays d @ [(i, r)]\<rparr>)))"

definition list_replays :: "principal \<Rightarrow> string option \<Rightarrow> nat \<Rightarrow> replay_db \<Rightarrow> (uuid \<times> replay_row) list" where
  "list_replays p status limit d = take limit (sort_key (\<lambda>(_, r). - rs_created_at r)
     (filter (\<lambda>(_, r). rs_tenant_id r = pr_tenant_id p \<and> (case status of None \<Rightarrow> True | Some s \<Rightarrow> rs_status r = upper s)) (rd_replays d)))"

definition get_replay :: "uuid \<Rightarrow> replay_db \<Rightarrow> replay_row answer" where
  "get_replay i d = (case map_of (rd_replays d) i of None \<Rightarrow> Inl (Http 404 ''replay not found'') | Some r \<Rightarrow> Inr r)"

definition put_replay :: "uuid \<Rightarrow> replay_row \<Rightarrow> replay_db \<Rightarrow> replay_db" where
  "put_replay i r d = d\<lparr>rd_replays := AList.update i r (rd_replays d)\<rparr>"

definition control :: "string \<Rightarrow> string \<Rightarrow> py_value" where
  "control action actor = PDict [(''requested_action'', PStr action), (''requested_by'', PStr actor)]"

definition audited :: "string \<Rightarrow> string \<Rightarrow> uuid \<Rightarrow> replay_row \<Rightarrow> replay_db \<Rightarrow> replay_db" where
  "audited action actor i r d = d\<lparr>rd_audit := rd_audit d @ [\<lparr>al_tenant_id = rs_tenant_id r, al_actor_id = actor, al_action = action,
     al_target_type = ''REPLAY_SESSION'', al_target_id = i, al_reason = None, al_metadata = []\<rparr>]\<rparr>"

definition session_started :: "string \<Rightarrow> replay_row \<Rightarrow> replay_row" where
  "session_started actor r = r\<lparr>rs_status := ''QUEUED'', rs_paused_at := None,
     rs_configuration := with_key ''control'' (control ''START'' actor) (rs_configuration r)\<rparr>"

definition start_replay :: "uuid \<Rightarrow> string \<Rightarrow> replay_db \<Rightarrow> replay_row answer \<times> replay_db" where
  "start_replay i actor d = (case map_of (rd_replays d) i of None \<Rightarrow> (Inl (Http 404 ''replay not found''), d)
     | Some r \<Rightarrow> (if rs_status r \<notin> {''CREATED'', ''PAUSED''} then (Inl (Http 409 (''replay cannot start from '' @ rs_status r)), d)
       else (Inr (session_started actor r), audited ''START_REPLAY'' actor i r (put_replay i (session_started actor r) d))))"

definition session_paused :: "datetime \<Rightarrow> string \<Rightarrow> replay_row \<Rightarrow> replay_row" where
  "session_paused now actor r = r\<lparr>rs_status := ''PAUSED'', rs_paused_at := Some now,
     rs_configuration := with_key ''control'' (control ''PAUSE'' actor) (rs_configuration r)\<rparr>"

definition pause_replay :: "datetime \<Rightarrow> uuid \<Rightarrow> string \<Rightarrow> replay_db \<Rightarrow> replay_row answer \<times> replay_db" where
  "pause_replay now i actor d = (case map_of (rd_replays d) i of None \<Rightarrow> (Inl (Http 404 ''replay not found''), d)
     | Some r \<Rightarrow> (if rs_status r \<notin> {''QUEUED'', ''RUNNING''} then (Inl (Http 409 (''replay cannot pause from '' @ rs_status r)), d)
       else (Inr (session_paused now actor r), audited ''PAUSE_REPLAY'' actor i r (put_replay i (session_paused now actor r) d))))"

section \<open>The worker\<close>

text \<open>The poll of \<open>run_control_worker\<close>: the oldest queued session.\<close>

definition next_queued :: "replay_db \<Rightarrow> uuid option" where
  "next_queued d = (case sort_key (\<lambda>(_, r). rs_created_at r) (filter (\<lambda>(_, r). rs_status r = ''QUEUED'') (rd_replays d)) of
     [] \<Rightarrow> None | x # _ \<Rightarrow> Some (fst x))"

definition ensure_asset :: "string \<Rightarrow> payload \<Rightarrow> replay_db \<Rightarrow> replay_db" where
  "ensure_asset a metadata d = (if a \<in> ra_asset_id ` set (rd_assets d) then d
     else d\<lparr>rd_assets := rd_assets d @ [\<lparr>ra_asset_id = a, ra_symbol = ''S2M'', ra_name = ''Scam2Market Demo Asset'',
       ra_asset_type = ''SYNTHETIC'', ra_quote_asset = ''USDT'', ra_metadata = metadata\<rparr>]\<rparr>)"

text \<open>The first transaction of \<open>run_queued_session\<close>: the session is claimed unless it is not queued, and nothing is
  written when the manifest does not load.\<close>

datatype claim_answer = Skipped | Unloadable manifest_file | Claimed scenario_manifest

definition session_claimed :: "datetime \<Rightarrow> replay_row \<Rightarrow> replay_row" where
  "session_claimed now r = r\<lparr>rs_status := ''RUNNING'', rs_started_at := Some now\<rparr>"

definition claim_replay :: "manifest_files \<Rightarrow> datetime \<Rightarrow> uuid \<Rightarrow> replay_db \<Rightarrow> claim_answer \<times> replay_db" where
  "claim_replay files now i d = (case map_of (rd_replays d) i of None \<Rightarrow> (Skipped, d)
     | Some r \<Rightarrow> (if rs_status r \<noteq> ''QUEUED'' then (Skipped, d)
       else case load_scenario_manifest files (rs_dataset_id r) of
           Loaded m \<Rightarrow> (Claimed m, put_replay i (session_claimed now r) (ensure_asset (sm_asset_id m) [(''dataset_id'', PStr (sm_scenario_id m))] d))
         | f \<Rightarrow> (Unloadable f, d)))"

definition session_ended :: "datetime \<Rightarrow> string \<Rightarrow> replay_row \<Rightarrow> replay_row" where
  "session_ended now status r = r\<lparr>rs_status := status, rs_completed_at := Some now\<rparr>"

definition finish_replay_session :: "datetime \<Rightarrow> uuid \<Rightarrow> string \<Rightarrow> replay_db \<Rightarrow> unit res \<times> replay_db" where
  "finish_replay_session now i status d = (case map_of (rd_replays d) i of
       None \<Rightarrow> (Inl (RuntimeError (''replay session '' @ i @ '' disappeared'')), d)
     | Some r \<Rightarrow> (Inr (), put_replay i (session_ended now status r) d))"

text \<open>The body of the \<open>try\<close>: \<open>counts\<close> is what \<open>asyncio.gather\<close> gives for the two services.\<close>

definition play :: "scenario_manifest \<Rightarrow> (nat \<times> nat) res \<Rightarrow> unit res" where
  "play m counts = (case counts of Inl x \<Rightarrow> Inl x
     | Inr (market, social) \<Rightarrow> if market \<noteq> sm_market_count m then Inl (RuntimeError ''market replay event count mismatch'')
         else if social \<noteq> sm_social_count m then Inl (RuntimeError ''social replay event count mismatch'') else Inr ())"

definition end_run :: "datetime \<Rightarrow> uuid \<Rightarrow> scenario_manifest \<Rightarrow> (nat \<times> nat) res \<Rightarrow> replay_db \<Rightarrow> unit res \<times> replay_db" where
  "end_run now i m counts d = (case play m counts of
       Inr _ \<Rightarrow> finish_replay_session now i ''COMPLETED'' d
     | Inl x \<Rightarrow> if caught x then (case finish_replay_session now i ''FAILED'' d of (Inl y, d') \<Rightarrow> (Inl y, d') | (Inr _, d') \<Rightarrow> (Inl x, d'))
         else (Inl x, d))"

text \<open>\<open>run\<close> without the control plane: the session is inserted as running.\<close>

definition create_running_session :: "'a json_env_scheme \<Rightarrow> scenario_manifest \<Rightarrow> datetime \<Rightarrow> uuid \<Rightarrow> replay_db \<Rightarrow> unit res \<times> replay_db" where
  "create_running_session e m now i d =
    (if map_of (rd_replays d) i \<noteq> None then (Inl (IntegrityError ''replay_sessions''), d)
     else let r = \<lparr>rs_tenant_id = ''default'', rs_dataset_id = sm_scenario_id m, rs_scope_id = i,
            rs_scenario_version = sm_scenario_version m, rs_manifest_hash = manifest_hash e m, rs_random_seed = sm_seed m,
            rs_speed_multiplier = 0, rs_status = ''RUNNING'', rs_paused_at = None, rs_requested_by = None,
            rs_configuration = [(''isolation'', isolation i)], rs_failure_reason = None, rs_started_at = Some now,
            rs_completed_at = None, rs_created_at = now\<rparr>;
          d' = ensure_asset (sm_asset_id m) [(''dataset_id'', PStr (sm_scenario_id m)), (''scenario_version'', PInt (sm_scenario_version m)),
            (''seed'', PInt (sm_seed m))] d
        in (Inr (), d'\<lparr>rd_replays := rd_replays d' @ [(i, r)]\<rparr>))"

end
