(* ===== verification/Replays_Correct.thy ===== *)
theory Replays_Correct
  imports Replays
begin

text \<open>
  Replay sessions under any number of workers and requests: how often a session runs, what its row says, and
  what pausing a running session does not do.
\<close>

section \<open>Steps\<close>

text \<open>A worker is idle, has polled a session it has not claimed yet, or plays one. A request that is refused changes
  nothing and is no step. A crash loses what a worker holds, not what it wrote.\<close>

datatype worker = Idle | Polled uuid | Playing uuid scenario_manifest

record replay_world =
  rw_db :: replay_db
  rw_workers :: "nat \<Rightarrow> worker"

datatype replay_label = R_Created uuid | R_Started uuid | R_Paused uuid | R_Claimed uuid | R_Ended uuid | R_Silent

definition move_worker :: "nat \<Rightarrow> worker \<Rightarrow> replay_world \<Rightarrow> replay_world" where
  "move_worker w s x = x\<lparr>rw_workers := (rw_workers x)(w := s)\<rparr>"

definition set_db :: "replay_db \<Rightarrow> replay_world \<Rightarrow> replay_world" where
  "set_db d x = x\<lparr>rw_db := d\<rparr>"

lemma world_simps [simp]:
  "rw_db (move_worker w s x) = rw_db x" "rw_workers (move_worker w s x) = (rw_workers x)(w := s)"
  "rw_db (set_db d x) = d" "rw_workers (set_db d x) = rw_workers x"
  by (simp_all add: move_worker_def set_db_def)

inductive replay_step :: "'a json_env_scheme \<Rightarrow> replay_world \<Rightarrow> replay_label \<Rightarrow> replay_world \<Rightarrow> bool" for e where
  create: "create_replay e files now i b actor p (rw_db x) = (Inr r, d) \<Longrightarrow> replay_step e x (R_Created i) (set_db d x)"
| demo: "rw_workers x w = Idle \<Longrightarrow> create_running_session e m now i (rw_db x) = (Inr (), d) \<Longrightarrow>
    replay_step e x (R_Created i) (move_worker w (Playing i m) (set_db d x))"
| start: "start_replay i actor (rw_db x) = (Inr r, d) \<Longrightarrow> replay_step e x (R_Started i) (set_db d x)"
| pause: "pause_replay now i actor (rw_db x) = (Inr r, d) \<Longrightarrow> replay_step e x (R_Paused i) (set_db d x)"
| poll: "rw_workers x w = Idle \<Longrightarrow> next_queued (rw_db x) = Some i \<Longrightarrow> replay_step e x R_Silent (move_worker w (Polled i) x)"
| claim: "rw_workers x w = Polled i \<Longrightarrow> claim_replay files now i (rw_db x) = (Claimed m, d) \<Longrightarrow>
    replay_step e x (R_Claimed i) (move_worker w (Playing i m) (set_db d x))"
| leave: "rw_workers x w = Polled i \<Longrightarrow> claim_replay files now i (rw_db x) = (a, d) \<Longrightarrow> (\<And>m. a \<noteq> Claimed m) \<Longrightarrow>
    replay_step e x R_Silent (move_worker w Idle (set_db d x))"
| finish: "rw_workers x w = Playing i m \<Longrightarrow> end_run now i m counts (rw_db x) = (a, d) \<Longrightarrow>
    replay_step e x (R_Ended i) (move_worker w Idle (set_db d x))"
| crash: "replay_step e x R_Silent (move_worker w Idle x)"

inductive replay_runs :: "'a json_env_scheme \<Rightarrow> replay_world \<Rightarrow> replay_label list \<Rightarrow> replay_world \<Rightarrow> bool" for e where
  nil: "replay_runs e x [] x"
| snoc: "replay_runs e x ls y \<Longrightarrow> replay_step e y l z \<Longrightarrow> replay_runs e x (ls @ [l]) z"

definition fresh_world :: replay_world where
  "fresh_world = \<lparr>rw_db = \<lparr>rd_replays = [], rd_audit = [], rd_assets = []\<rparr>, rw_workers = (\<lambda>_. Idle)\<rparr>"

section \<open>What the transactions do\<close>

abbreviation session :: "replay_db \<Rightarrow> uuid \<rightharpoonup> replay_row" where
  "session d \<equiv> map_of (rd_replays d)"

lemma put_session [simp]: "session (put_replay i r d) = (session d)(i \<mapsto> r)" "session (audited a actor i r d) = session d"
  "session (ensure_asset a md d) = session d"
  by (simp_all add: put_replay_def update_conv' audited_def ensure_asset_def)

lemma map_of_snoc: "map_of xs i = None \<Longrightarrow> map_of (xs @ [(i, r)]) = (map_of xs)(i \<mapsto> r)"
  by (rule ext) (auto simp: map_add_def split: option.split)

lemma with_key_simps [simp]: "map_of (with_key k v d) = (map_of d)(k \<mapsto> v)"
  by (simp add: with_key_def update_conv')

lemma create_session:
  assumes "create_replay e files now i b actor p d = (Inr r, d')"
  shows "session d i = None \<and> session d' = (session d)(i \<mapsto> r) \<and> rs_status r = ''CREATED'' \<and> rs_scope_id r = i \<and>
    map_of (rs_configuration r) ''isolation'' = Some (isolation i)"
  using assms by (auto simp: create_replay_def Let_def map_of_snoc simp del: map_of_append split: if_splits manifest_file.splits)

lemma running_session:
  assumes "create_running_session e m now i d = (Inr (), d')"
  shows "session d i = None \<and> (\<exists>r. session d' = (session d)(i \<mapsto> r) \<and> rs_status r = ''RUNNING'' \<and> rs_scope_id r = i \<and>
    map_of (rs_configuration r) ''isolation'' = Some (isolation i) \<and> rs_started_at r \<noteq> None)"
  using assms by (auto simp: create_running_session_def Let_def map_of_snoc simp del: map_of_append split: if_splits)

lemma start_session:
  assumes "start_replay i actor d = (Inr r, d')"
  shows "\<exists>old. session d i = Some old \<and> rs_status old \<in> {''CREATED'', ''PAUSED''} \<and> session d' = (session d)(i \<mapsto> session_started actor old)"
  using assms unfolding start_replay_def by (cases "session d i") (auto split: if_splits)

lemma pause_session:
  assumes "pause_replay now i actor d = (Inr r, d')"
  shows "\<exists>old. session d i = Some old \<and> rs_status old \<in> {''QUEUED'', ''RUNNING''} \<and> session d' = (session d)(i \<mapsto> session_paused now actor old)"
  using assms unfolding pause_replay_def by (cases "session d i") (auto split: if_splits)

lemma claim_session:
  assumes "claim_replay files now i d = (Claimed m, d')"
  shows "\<exists>old. session d i = Some old \<and> rs_status old = ''QUEUED'' \<and> session d' = (session d)(i \<mapsto> session_claimed now old)"
  using assms unfolding claim_replay_def by (cases "session d i") (auto split: if_splits manifest_file.splits)

lemma claim_leaves:
  assumes "claim_replay files now i d = (a, d')" "\<And>m. a \<noteq> Claimed m"
  shows "d' = d"
  using assms unfolding claim_replay_def by (cases "session d i") (auto split: if_splits manifest_file.splits)

lemma end_session:
  assumes "end_run now i m counts d = (a, d')" "session d i = Some r"
  shows "d' = d \<or> (\<exists>s \<in> {''COMPLETED'', ''FAILED''}. session d' = (session d)(i \<mapsto> session_ended now s r))"
  using assms unfolding end_run_def finish_replay_session_def by (auto split: sum.splits if_splits)

section \<open>How often a session runs\<close>

definition session_row_ok :: "uuid \<Rightarrow> nat \<Rightarrow> nat \<Rightarrow> nat \<Rightarrow> replay_row \<Rightarrow> bool" where
  "session_row_ok i claims starts pauses r \<longleftrightarrow> rs_scope_id r = i \<and> map_of (rs_configuration r) ''isolation'' = Some (isolation i) \<and>
     rs_status r \<in> {''CREATED'', ''QUEUED'', ''RUNNING'', ''PAUSED'', ''COMPLETED'', ''FAILED''} \<and>
     (rs_status r \<in> {''RUNNING'', ''COMPLETED'', ''FAILED''} \<longrightarrow> rs_started_at r \<noteq> None) \<and>
     (rs_status r \<in> {''COMPLETED'', ''FAILED''} \<longrightarrow> rs_completed_at r \<noteq> None) \<and> (rs_status r = ''PAUSED'' \<longrightarrow> rs_paused_at r \<noteq> None) \<and>
     claims + of_bool (rs_status r = ''QUEUED'') \<le> starts \<and> starts + of_bool (rs_status r \<in> {''CREATED'', ''PAUSED''}) \<le> 1 + pauses"

lemma session_row_okD:
  assumes "session_row_ok i c s p r"
  shows "rs_scope_id r = i" "map_of (rs_configuration r) ''isolation'' = Some (isolation i)"
    "c + of_bool (rs_status r = ''QUEUED'') \<le> s" "s + of_bool (rs_status r \<in> {''CREATED'', ''PAUSED''}) \<le> 1 + p"
  using assms unfolding session_row_ok_def by blast+

lemma row_started:
  assumes "session_row_ok i c s p r" "rs_status r \<in> {''CREATED'', ''PAUSED''}"
  shows "session_row_ok i c (Suc s) p (session_started actor r)"
  using session_row_okD [OF assms(1)] assms(2) by (simp only: session_row_ok_def session_started_def) simp

lemma row_paused:
  assumes "session_row_ok i c s p r"
  shows "session_row_ok i c s (Suc p) (session_paused now actor r)"
  using session_row_okD [OF assms(1)] by (simp only: session_row_ok_def session_paused_def) simp

lemma row_claimed:
  assumes "session_row_ok i c s p r" "rs_status r = ''QUEUED''"
  shows "session_row_ok i (Suc c) s p (session_claimed now r)"
  using session_row_okD [OF assms(1)] assms(2) by (simp add: session_row_ok_def session_claimed_def)

lemma row_ended:
  assumes "session_row_ok i c s p r" "st \<in> {''COMPLETED'', ''FAILED''}" "rs_started_at r \<noteq> None"
  shows "session_row_ok i c s p (session_ended now st r)"
  using session_row_okD [OF assms(1)] assms(2,3) by (elim insertE) (simp_all add: session_row_ok_def session_ended_def)

abbreviation claims_of :: "uuid \<Rightarrow> replay_label list \<Rightarrow> nat" where "claims_of i ls \<equiv> count_list ls (R_Claimed i)"
abbreviation starts_of :: "uuid \<Rightarrow> replay_label list \<Rightarrow> nat" where "starts_of i ls \<equiv> count_list ls (R_Started i)"
abbreviation pauses_of :: "uuid \<Rightarrow> replay_label list \<Rightarrow> nat" where "pauses_of i ls \<equiv> count_list ls (R_Paused i)"

definition session_ok :: "replay_label list \<Rightarrow> replay_db \<Rightarrow> uuid \<Rightarrow> bool" where
  "session_ok ls d i \<longleftrightarrow> (case session d i of None \<Rightarrow> claims_of i ls = 0 \<and> starts_of i ls = 0 \<and> pauses_of i ls = 0
     | Some r \<Rightarrow> session_row_ok i (claims_of i ls) (starts_of i ls) (pauses_of i ls) r)"

definition players_ok :: "replay_world \<Rightarrow> bool" where
  "players_ok x \<longleftrightarrow> (\<forall>w i m. rw_workers x w = Playing i m \<longrightarrow> (\<exists>r. session (rw_db x) i = Some r \<and> rs_started_at r \<noteq> None))"

definition replay_ok :: "replay_label list \<Rightarrow> replay_world \<Rightarrow> bool" where
  "replay_ok ls x \<longleftrightarrow> (\<forall>i. session_ok ls (rw_db x) i) \<and> players_ok x"

lemma session_ok_other:
  assumes "session_ok ls d j" "session d' j = session d j" "l \<notin> {R_Claimed j, R_Started j, R_Paused j}"
  shows "session_ok (ls @ [l]) d' j"
  using assms unfolding session_ok_def by (simp add: count_list_append split: option.splits)

lemma session_ok_change:
  assumes "\<forall>j. session_ok ls d j" "session d' = (session d)(i \<mapsto> r)" "l \<in> {R_Created i, R_Started i, R_Paused i, R_Claimed i, R_Ended i}"
    and "session_row_ok i (claims_of i (ls @ [l])) (starts_of i (ls @ [l])) (pauses_of i (ls @ [l])) r"
  shows "\<forall>j. session_ok (ls @ [l]) d' j"
proof
  fix j
  show "session_ok (ls @ [l]) d' j"
  proof (cases "j = i")
    case True
    with assms(2,4) show ?thesis by (simp add: session_ok_def)
  next
    case False
    with assms(1-3) show ?thesis by (intro session_ok_other [of ls d]) auto
  qed
qed

lemma session_ok_quiet: "\<forall>j. session_ok ls d j \<Longrightarrow> l \<in> {R_Silent, R_Ended i} \<Longrightarrow> \<forall>j. session_ok (ls @ [l]) d j"
  by (intro allI session_ok_other [of ls d]) auto

lemma players_keep:
  assumes "players_ok x" "session d' = (session (rw_db x))(i \<mapsto> r)" "\<And>old. session (rw_db x) i = Some old \<Longrightarrow> rs_started_at old \<noteq> None \<Longrightarrow> rs_started_at r \<noteq> None"
  shows "players_ok (set_db d' x)"
  unfolding players_ok_def
proof (intro allI impI)
  fix w j m
  assume "rw_workers (set_db d' x) w = Playing j m"
  then have "rw_workers x w = Playing j m" by simp
  with assms(1) obtain q where "session (rw_db x) j = Some q" "rs_started_at q \<noteq> None" unfolding players_ok_def by blast
  then show "\<exists>q. session (rw_db (set_db d' x)) j = Some q \<and> rs_started_at q \<noteq> None"
    using assms(2,3) by (cases "j = i") auto
qed

lemma players_idle: "players_ok x \<Longrightarrow> (\<And>i m. s \<noteq> Playing i m) \<Longrightarrow> players_ok (move_worker w s x)"
  by (auto simp: players_ok_def)

lemma players_play: "players_ok x \<Longrightarrow> session (rw_db x) i = Some r \<Longrightarrow> rs_started_at r \<noteq> None \<Longrightarrow> players_ok (move_worker w (Playing i m) x)"
  by (auto simp: players_ok_def)


lemma session_okD:
  assumes "replay_ok ls x"
  shows "\<forall>j. session_ok ls (rw_db x) j" "players_ok x"
    "session (rw_db x) i = Some r \<Longrightarrow> session_row_ok i (claims_of i ls) (starts_of i ls) (pauses_of i ls) r"
    "session (rw_db x) i = None \<Longrightarrow> claims_of i ls = 0 \<and> starts_of i ls = 0 \<and> pauses_of i ls = 0"
proof -
  from assms show all: "\<forall>j. session_ok ls (rw_db x) j" and "players_ok x" by (simp_all add: replay_ok_def)
  from spec [OF all, of i] show "session (rw_db x) i = Some r \<Longrightarrow> session_row_ok i (claims_of i ls) (starts_of i ls) (pauses_of i ls) r"
    and "session (rw_db x) i = None \<Longrightarrow> claims_of i ls = 0 \<and> starts_of i ls = 0 \<and> pauses_of i ls = 0"
    by (auto simp: session_ok_def)
qed

lemma replay_ok_change:
  assumes "replay_ok ls x" "session d = (session (rw_db x))(i \<mapsto> r)" "l \<in> {R_Created i, R_Started i, R_Paused i, R_Claimed i, R_Ended i}"
    and "session_row_ok i (claims_of i (ls @ [l])) (starts_of i (ls @ [l])) (pauses_of i (ls @ [l])) r"
    and "\<And>old. session (rw_db x) i = Some old \<Longrightarrow> rs_started_at old \<noteq> None \<Longrightarrow> rs_started_at r \<noteq> None"
  shows "replay_ok (ls @ [l]) (set_db d x)"
  unfolding replay_ok_def world_simps
  by (rule conjI session_ok_change [OF session_okD(1) [OF assms(1)] assms(2-4)]
      players_keep [OF session_okD(2) [OF assms(1)] assms(2)] assms(5))+

lemma replay_ok_idle: "replay_ok ls x \<Longrightarrow> (\<And>i m. s \<noteq> Playing i m) \<Longrightarrow> replay_ok ls (move_worker w s x)"
  by (simp add: replay_ok_def players_idle)

lemma replay_ok_play: "replay_ok ls x \<Longrightarrow> session (rw_db x) i = Some r \<Longrightarrow> rs_started_at r \<noteq> None \<Longrightarrow> replay_ok ls (move_worker w (Playing i m) x)"
  by (auto simp: replay_ok_def intro: players_play)

lemma replay_ok_quiet:
  assumes "replay_ok ls x" "l \<in> {R_Silent, R_Ended i}"
  shows "replay_ok (ls @ [l]) x"
  using session_ok_quiet [OF session_okD(1) [OF assms(1)] assms(2)] session_okD(2) [OF assms(1)] by (simp add: replay_ok_def)

lemma count_snoc: "count_list (ls @ [l]) k = count_list ls k + of_bool (l = k)"
  by (simp add: count_list_append)

lemma replay_ok_step:
  assumes "replay_step e x l y" "replay_ok ls x"
  shows "replay_ok (ls @ [l]) y"
  using assms(1)
proof cases
  case (create files now i b actor p r d)
  note new = create_session [OF create(3)]
  with session_okD(4) [OF assms(2), of i] have "session_row_ok i (claims_of i (ls @ [l])) (starts_of i (ls @ [l])) (pauses_of i (ls @ [l])) r"
    unfolding create(1) count_snoc by (simp add: session_row_ok_def)
  with new show ?thesis unfolding create(2) by (intro replay_ok_change [OF assms(2)]) (auto simp: create(1))
next
  case (demo w m now i d)
  then obtain r where new: "session (rw_db x) i = None" "session d = (session (rw_db x))(i \<mapsto> r)" "rs_status r = ''RUNNING''"
    "rs_scope_id r = i" "map_of (rs_configuration r) ''isolation'' = Some (isolation i)" "rs_started_at r \<noteq> None"
    using running_session by blast
  with session_okD(4) [OF assms(2), of i] have "session_row_ok i (claims_of i (ls @ [l])) (starts_of i (ls @ [l])) (pauses_of i (ls @ [l])) r"
    unfolding demo(1) count_snoc by (simp add: session_row_ok_def)
  with new have "replay_ok (ls @ [l]) (set_db d x)" by (intro replay_ok_change [OF assms(2) new(2)]) (auto simp: demo(1))
  with new show ?thesis unfolding demo(2) by (intro replay_ok_play [where r = r]) simp_all
next
  case (start i actor r d)
  from start_session [OF start(3)] obtain old where old: "session (rw_db x) i = Some old" "rs_status old \<in> {''CREATED'', ''PAUSED''}"
    "session d = (session (rw_db x))(i \<mapsto> session_started actor old)" by blast
  from row_started [OF session_okD(3) [OF assms(2) old(1)] old(2)] 
  have "session_row_ok i (claims_of i (ls @ [l])) (starts_of i (ls @ [l])) (pauses_of i (ls @ [l])) (session_started actor old)"
    unfolding start(1) count_snoc by simp
  with old(1) show ?thesis unfolding start(2)
    by (intro replay_ok_change [OF assms(2) old(3)]) (auto simp: start(1) session_started_def)
next
  case (pause now i actor r d)
  from pause_session [OF pause(3)] obtain old where old: "session (rw_db x) i = Some old" "rs_status old \<in> {''QUEUED'', ''RUNNING''}"
    "session d = (session (rw_db x))(i \<mapsto> session_paused now actor old)" by blast
  from row_paused [OF session_okD(3) [OF assms(2) old(1)]]
  have "session_row_ok i (claims_of i (ls @ [l])) (starts_of i (ls @ [l])) (pauses_of i (ls @ [l])) (session_paused now actor old)"
    unfolding pause(1) count_snoc by simp
  with old(1) show ?thesis unfolding pause(2)
    by (intro replay_ok_change [OF assms(2) old(3)]) (auto simp: pause(1) session_paused_def)
next
  case (poll w i)
  from replay_ok_idle [OF assms(2)] show ?thesis unfolding poll(1,2) by (intro replay_ok_quiet) simp_all
next
  case (claim w i files now m d)
  from claim_session [OF claim(4)] obtain old where old: "session (rw_db x) i = Some old" "rs_status old = ''QUEUED''"
    "session d = (session (rw_db x))(i \<mapsto> session_claimed now old)" by blast
  from row_claimed [OF session_okD(3) [OF assms(2) old(1)] old(2)]
  have "session_row_ok i (claims_of i (ls @ [l])) (starts_of i (ls @ [l])) (pauses_of i (ls @ [l])) (session_claimed now old)"
    unfolding claim(1) count_snoc by simp
  then have "replay_ok (ls @ [l]) (set_db d x)"
    by (intro replay_ok_change [OF assms(2) old(3)]) (auto simp: claim(1) session_claimed_def)
  then show ?thesis unfolding claim(2)
    by (rule replay_ok_play [where r = "session_claimed now old"]) (simp_all add: old(3) session_claimed_def)
next
  case (leave w i files now a d)
  from claim_leaves [OF leave(4,5)] have "set_db d x = x" by (simp add: set_db_def)
  with replay_ok_idle [OF assms(2)] show ?thesis unfolding leave(1,2) by (intro replay_ok_quiet) simp_all
next
  case (finish w i m now counts a d)
  from session_okD(2) [OF assms(2)] finish(3) obtain r where r: "session (rw_db x) i = Some r" "rs_started_at r \<noteq> None"
    unfolding players_ok_def by blast
  have "replay_ok (ls @ [l]) (set_db d x)"
    using end_session [OF finish(4) r(1)]
  proof
    assume "d = rw_db x"
    then have "set_db d x = x" by (simp add: set_db_def)
    with assms(2) show ?thesis unfolding finish(1) by (intro replay_ok_quiet [where i = i]) simp_all
  next
    assume "\<exists>s \<in> {''COMPLETED'', ''FAILED''}. session d = (session (rw_db x))(i \<mapsto> session_ended now s r)"
    then obtain s where s: "s \<in> {''COMPLETED'', ''FAILED''}" "session d = (session (rw_db x))(i \<mapsto> session_ended now s r)" by blast
    from row_ended [OF session_okD(3) [OF assms(2) r(1)] s(1) r(2)]
    have "session_row_ok i (claims_of i (ls @ [l])) (starts_of i (ls @ [l])) (pauses_of i (ls @ [l])) (session_ended now s r)"
      unfolding finish(1) count_snoc by simp
    with r show ?thesis by (intro replay_ok_change [OF assms(2) s(2)]) (auto simp: finish(1) session_ended_def)
  qed
  then show ?thesis unfolding finish(2) by (rule replay_ok_idle) simp
next
  case (crash w)
  from replay_ok_idle [OF assms(2)] show ?thesis unfolding crash by (intro replay_ok_quiet) simp_all
qed

lemma replay_ok_runs: "replay_runs e fresh_world ls x \<Longrightarrow> replay_ok ls x"
proof (induction fresh_world ls x rule: replay_runs.induct)
  case nil
  then show ?case by (simp add: replay_ok_def session_ok_def players_ok_def fresh_world_def)
qed (simp add: replay_ok_step)


section \<open>Properties\<close>

text \<open>C11. However requests, polls, runs and crashes of any number of workers interleave, a session is claimed at
  most once for every start that was accepted, and the starts exceed the pauses by at most one. A session
  keeps its own id as its scope and the configuration that keeps it off the live topics, whatever configuration
  came with the request. One that runs or has ended has a start time, one that has ended has an end time.\<close>

theorem replay_runs_bounded:
  assumes "replay_runs e fresh_world ls x"
  shows "count_list ls (R_Claimed i) \<le> count_list ls (R_Started i) \<and> count_list ls (R_Started i) \<le> 1 + count_list ls (R_Paused i) \<and>
    (\<forall>r. map_of (rd_replays (rw_db x)) i = Some r \<longrightarrow> rs_scope_id r = i \<and> map_of (rs_configuration r) ''isolation'' = Some (isolation i) \<and>
      (rs_status r \<in> {''RUNNING'', ''COMPLETED'', ''FAILED''} \<longrightarrow> rs_started_at r \<noteq> None) \<and>
      (rs_status r \<in> {''COMPLETED'', ''FAILED''} \<longrightarrow> rs_completed_at r \<noteq> None))"
proof (cases "session (rw_db x) i")
  case None
  from session_okD(4) [OF replay_ok_runs [OF assms] None] None show ?thesis by simp
next
  case (Some r)
  from session_okD(3) [OF replay_ok_runs [OF assms] Some] have ok: "session_row_ok i (claims_of i ls) (starts_of i ls) (pauses_of i ls) r" .
  then have "claims_of i ls \<le> starts_of i ls" "starts_of i ls \<le> 1 + pauses_of i ls" using session_row_okD(3,4) by fastforce+
  with ok Some show ?thesis unfolding session_row_ok_def by simp
qed

definition sample_manifest :: scenario_manifest where
  "sample_manifest = \<lparr>sm_scenario_id = ''pump'', sm_scenario_version = 1, sm_seed = 7, sm_asset_id = ''S2M'', sm_timeline = [],
     sm_watch_before = 0, sm_high_before = 0, sm_critical_requires_market_corroboration = True, sm_market_count = 2, sm_social_count = 1\<rparr>"

definition sample_files :: manifest_files where
  "sample_files name = (if name = ''pump.yaml'' then Loaded sample_manifest else Missing_File)"

definition sample_session :: replay_row where
  "sample_session = \<lparr>rs_tenant_id = ''t'', rs_dataset_id = ''pump'', rs_scope_id = ''i'', rs_scenario_version = 1, rs_manifest_hash = ''h'',
     rs_random_seed = 7, rs_speed_multiplier = 0, rs_status = ''CREATED'', rs_paused_at = None, rs_requested_by = None,
     rs_configuration = [(''isolation'', isolation ''i'')], rs_failure_reason = None, rs_started_at = None, rs_completed_at = None, rs_created_at = 0\<rparr>"

definition sample_replays :: replay_db where
  "sample_replays = \<lparr>rd_replays = [(''i'', session_claimed 1 sample_session)], rd_audit = [], rd_assets = []\<rparr>"

lemma demo_run: "\<exists>x. replay_runs e fresh_world [R_Created ''i''] x"
proof -
  obtain a d where "create_running_session e sample_manifest 0 ''i'' (rw_db fresh_world) = (a, d)" by fastforce
  moreover from this have "a = Inr ()" by (auto simp: create_running_session_def fresh_world_def Let_def)
  ultimately have "\<exists>x. replay_step e fresh_world (R_Created ''i'') x"
    using replay_step.demo [of fresh_world 0 e sample_manifest 0 "''i''" d] by (auto simp: fresh_world_def)
  then show ?thesis using replay_runs.snoc [OF replay_runs.nil] by (metis append_Nil)
qed

theorem replay_runs_bounded_witness:
  "\<forall>e :: json_env. \<exists>x. replay_runs e fresh_world [R_Created ''i''] x \<and>
    count_list [R_Created ''i''] (R_Claimed ''i'') \<le> count_list [R_Created ''i''] (R_Started ''i'')"
  using demo_run replay_runs_bounded [where ls = "[R_Created ''i'']" and i = "''i''"] by blast

text \<open>C35. Pausing a running session does not stop its run. The request is answered with success, but the run goes on
  and its end turns PAUSED into COMPLETED. When the paused session is started again the request is answered with
  success too: another worker then plays the session a second time beside the first run, and if none does, the end of the first
  run completes the session, no worker claims it and a further start is refused.\<close>

theorem pause_ineffective:
  assumes "map_of (rd_replays d) i = Some r" "rs_status r = ''RUNNING''" "play m counts = Inr ()"
    and "load_scenario_manifest files (rs_dataset_id r) = Loaded m'"
    and "pause_replay now i actor d = (a1, d1)" "start_replay i actor d1 = (a2, d2)" "end_run now i m counts d2 = (a3, d3)"
  shows "(\<exists>r1. a1 = Inr r1 \<and> rs_status r1 = ''PAUSED'') \<and> (\<exists>r2. a2 = Inr r2 \<and> rs_status r2 = ''QUEUED'') \<and>
    map_option rs_status (map_of (rd_replays (snd (end_run now i m counts d1))) i) = Some ''COMPLETED'' \<and>
    (\<exists>d'. claim_replay files now i d2 = (Claimed m', d')) \<and>
    map_option rs_status (map_of (rd_replays d3) i) = Some ''COMPLETED'' \<and> claim_replay files now i d3 = (Skipped, d3) \<and>
    start_replay i actor d3 = (Inl (Http 409 ''replay cannot start from COMPLETED''), d3)"
proof -
  let ?r1 = "session_paused now actor r"
  have 1: "a1 = Inr ?r1" "session d1 i = Some ?r1" "rs_status ?r1 = ''PAUSED''" "rs_dataset_id ?r1 = rs_dataset_id r"
    using assms(5) assms(1,2) by (auto simp: pause_replay_def session_paused_def)
  let ?r2 = "session_started actor ?r1"
  have 2: "a2 = Inr ?r2" "session d2 i = Some ?r2" "rs_status ?r2 = ''QUEUED''" "rs_dataset_id ?r2 = rs_dataset_id r"
    using assms(6) 1 by (auto simp: start_replay_def session_started_def)
  have fin: "session (snd (end_run now i m counts db)) i = Some (session_ended now ''COMPLETED'' q)" if "session db i = Some q" for db q
    using that assms(3) by (simp add: end_run_def finish_replay_session_def)
  from fin [OF 2(2)] assms(7) have 3: "session d3 i = Some (session_ended now ''COMPLETED'' ?r2)" by simp
  have st: "rs_status (session_ended now ''COMPLETED'' q) = ''COMPLETED''" for q :: replay_row by (simp add: session_ended_def)
  show ?thesis
    using 1 2 3 fin [OF 1(2)] st assms(4)
    by (simp add: claim_replay_def start_replay_def)
qed

theorem pause_ineffective_witness:
  "\<exists>d3. map_option rs_status (map_of (rd_replays d3) ''i'') = Some ''COMPLETED'' \<and>
     start_replay ''i'' ''ann'' d3 = (Inl (Http 409 ''replay cannot start from COMPLETED''), d3)"
proof -
  have row: "map_of (rd_replays sample_replays) ''i'' = Some (session_claimed 1 sample_session)"
    "rs_status (session_claimed 1 sample_session) = ''RUNNING''" by (simp_all add: sample_replays_def session_claimed_def)
  have loads: "load_scenario_manifest sample_files (rs_dataset_id (session_claimed 1 sample_session)) = Loaded sample_manifest"
    by (simp add: load_scenario_manifest_def sample_files_def session_claimed_def sample_session_def)
  have count: "play sample_manifest (Inr (2, 1)) = Inr ()" by (simp add: play_def sample_manifest_def)
  obtain a1 d1 where 1: "pause_replay 5 ''i'' ''ann'' sample_replays = (a1, d1)" by fastforce
  obtain a2 d2 where 2: "start_replay ''i'' ''ann'' d1 = (a2, d2)" by fastforce
  obtain a3 d3 where 3: "end_run 5 ''i'' sample_manifest (Inr (2, 1)) d2 = (a3, d3)" by fastforce
  from pause_ineffective [OF row count loads 1 2 3] show ?thesis by blast
qed


text \<open>A queued session whose manifest does not load is polled again and again, before every later one.\<close>

lemma unloadable_blocks:
  assumes "next_queued d = Some i" "claim_replay files now i d = (Unloadable f, d')"
  shows "next_queued d' = Some i \<and> claim_replay files now' i d' = (Unloadable f, d')"
proof -
  have "d' = d" using claim_leaves [OF assms(2)] by simp
  then show ?thesis using assms unfolding claim_replay_def by (auto split: option.splits if_splits manifest_file.splits)
qed

end
