(* ===== verification/Model_Registry.thy ===== *)
theory Model_Registry
  imports Replays Calibration
begin

text \<open>
  Model governance: artifacts and aliases (\<open>api/routes/evaluation.py\<close>), labels, calibrations, promotions and reports of
  false positives (\<open>api/routes/model_governance.py\<close>), drift events and policy proposals (\<open>api/routes/operations.py\<close>).
  One function per route over the tables they share; fitting and the checks of a promotion are those of
  \<open>Calibration\<close>.
\<close>

section \<open>Rows\<close>

record artifact_row =
  mr_model_family :: string
  mr_model_version :: string
  mr_artifact_uri :: string
  mr_artifact_hash :: string
  mr_input_schema_hash :: string
  mr_training_data_hash :: "string option"
  mr_mlflow_run_id :: "string option"
  mr_status :: string
  mr_metadata :: payload
  mr_created_at :: datetime

record alias_row =
  mb_model_artifact_id :: uuid
  mb_assigned_by :: string
  mb_reason :: string
  mb_assigned_at :: datetime

type_synonym segment = "(string \<times> string) list"

record label_row =
  lb_tenant_id :: string
  lb_model_family :: string
  lb_model_version :: string
  lb_raw_score :: real
  lb_outcome :: bool
  lb_data_partition :: string
  lb_segment :: segment
  lb_alert_id :: "uuid option"
  lb_event_time :: datetime
  lb_labeled_by :: string
  lb_label_reason :: string

record calibration_row =
  kr_calibration_id :: uuid
  kr_tenant_id :: string
  kr_model_artifact_id :: uuid
  kr_segment :: segment
  kr_slope :: real
  kr_intercept :: real
  kr_fit :: calibration_metrics
  kr_holdout :: "calibration_metrics option"
  kr_holdout_sample_count :: nat
  kr_sample_count :: nat
  kr_data_hash :: string
  kr_status :: string
  kr_created_by :: string
  kr_created_at :: datetime

record decision_row =
  dn_tenant_id :: string
  dn_model_family :: string
  dn_candidate_artifact_id :: uuid
  dn_champion_artifact_id :: "uuid option"
  dn_calibration_id :: uuid
  dn_status :: string
  dn_checks :: "(string \<times> bool) list"
  dn_reason :: string
  dn_decided_by :: string

record drift_row =
  dv_tenant_id :: string
  dv_model_family :: string
  dv_model_version :: string
  dv_drift_score :: real
  dv_threshold :: real
  dv_status :: string
  dv_details :: payload
  dv_observed_at :: datetime

record false_positive_row =
  fq_tenant_id :: string
  fq_model_family :: string
  fq_model_version :: string
  fq_alert_id :: "uuid option"
  fq_asset_id :: "string option"
  fq_reason_code :: string
  fq_notes :: string
  fq_state :: string
  fq_reported_by :: string
  fq_created_at :: datetime

record proposal_row =
  pp_tenant_id :: string
  pp_name :: string
  pp_description :: string
  pp_details :: payload
  pp_status :: string
  pp_proposed_by :: string
  pp_reviewed_by :: "string option"
  pp_review_reason :: "string option"
  pp_reviewed_at :: "datetime option"

record model_registry =
  mg_artifacts :: "(uuid \<times> artifact_row) list"
  mg_aliases :: "((string \<times> string) \<times> alias_row) list"
  mg_labels :: "label_row list"
  mg_calibrations :: "calibration_row list"
  mg_decisions :: "decision_row list"
  mg_drift :: "drift_row list"
  mg_false_positives :: "false_positive_row list"
  mg_proposals :: "(uuid \<times> proposal_row) list"
  mg_audit :: "audit_row list"

record governance_settings =
  gs_calibration_min_samples :: nat
  gs_calibration_max_ece :: real
  gs_calibration_min_auc :: real
  gs_promotion_max_false_positives :: nat
  gs_promotion_brier_tolerance :: real

definition default_governance :: governance_settings where
  "default_governance = \<lparr>gs_calibration_min_samples = 20, gs_calibration_max_ece = 12 / 100, gs_calibration_min_auc = 65 / 100,
     gs_promotion_max_false_positives = 5, gs_promotion_brier_tolerance = 1 / 100\<rparr>"

section \<open>Artifacts and aliases\<close>

record artifact_create =
  ac_model_family :: string
  ac_model_version :: string
  ac_artifact_uri :: string
  ac_artifact_hash :: string
  ac_input_schema_hash :: string
  ac_training_data_hash :: "string option"
  ac_mlflow_run_id :: "string option"
  ac_metadata :: payload

definition hex_char :: "char \<Rightarrow> bool" where
  "hex_char c \<longleftrightarrow> (let n = of_char c :: nat in (48 \<le> n \<and> n \<le> 57) \<or> (65 \<le> n \<and> n \<le> 70) \<or> (97 \<le> n \<and> n \<le> 102))"

definition sha256_text :: "string \<Rightarrow> bool" where
  "sha256_text s \<longleftrightarrow> length s = 64 \<and> list_all hex_char s"

definition sized :: "nat \<Rightarrow> nat \<Rightarrow> string \<Rightarrow> bool" where
  "sized a b s \<longleftrightarrow> a \<le> length s \<and> length s \<le> b"

definition valid_artifact :: "artifact_create \<Rightarrow> bool" where
  "valid_artifact b \<longleftrightarrow> sized 2 128 (ac_model_family b) \<and> sized 1 64 (ac_model_version b) \<and> sized 3 2000 (ac_artifact_uri b) \<and>
     sha256_text (ac_artifact_hash b) \<and> sha256_text (ac_input_schema_hash b) \<and>
     (case ac_training_data_hash b of None \<Rightarrow> True | Some h \<Rightarrow> sha256_text h) \<and>
     (case ac_mlflow_run_id b of None \<Rightarrow> True | Some r \<Rightarrow> length r \<le> 128)"

definition artifact_id_of :: "'a py_env_scheme \<Rightarrow> artifact_create \<Rightarrow> uuid" where
  "artifact_id_of e b = env_uuid5 e (''model-artifact:'' @ ac_model_family b @ '':'' @ ac_model_version b @ '':'' @ ac_artifact_hash b)"

text \<open>The table admits one artifact for a family and version (\<open>uq_model_family_version\<close>).\<close>

definition register_model_artifact :: "'a py_env_scheme \<Rightarrow> datetime \<Rightarrow> artifact_create \<Rightarrow> string \<Rightarrow> model_registry \<Rightarrow> artifact_row answer \<times> model_registry" where
  "register_model_artifact e now b actor g =
    (if \<not> valid_artifact b then (Inl (Http 422 ''validation''), g)
     else case map_of (mg_artifacts g) (artifact_id_of e b) of Some a \<Rightarrow> (Inr a, g)
     | None \<Rightarrow> (if \<exists>a \<in> snd ` set (mg_artifacts g). mr_model_family a = ac_model_family b \<and> mr_model_version a = ac_model_version b
         then (Inl (Server_Error (IntegrityError ''uq_model_family_version'')), g)
         else let a = \<lparr>mr_model_family = ac_model_family b, mr_model_version = ac_model_version b, mr_artifact_uri = ac_artifact_uri b,
                mr_artifact_hash = lower (ac_artifact_hash b), mr_input_schema_hash = lower (ac_input_schema_hash b),
                mr_training_data_hash = map_option lower (ac_training_data_hash b), mr_mlflow_run_id = ac_mlflow_run_id b,
                mr_status = ''REGISTERED'', mr_metadata = ac_metadata b, mr_created_at = now\<rparr>
              in (Inr a, g\<lparr>mg_artifacts := mg_artifacts g @ [(artifact_id_of e b, a)],
                mg_audit := mg_audit g @ [\<lparr>al_tenant_id = ''default'', al_actor_id = actor, al_action = ''REGISTER_MODEL_ARTIFACT'',
                  al_target_type = ''MODEL_ARTIFACT'', al_target_id = artifact_id_of e b, al_reason = None,
                  al_metadata = [(''family'', PStr (ac_model_family b)), (''version'', PStr (ac_model_version b))]\<rparr>]\<rparr>)))"

definition set_alias :: "datetime \<Rightarrow> string \<Rightarrow> string \<Rightarrow> uuid \<Rightarrow> string \<Rightarrow> string \<Rightarrow> model_registry \<Rightarrow> model_registry" where
  "set_alias now family al artifact actor reason g = g\<lparr>mg_aliases := AList.update (family, al)
     \<lparr>mb_model_artifact_id = artifact, mb_assigned_by = actor, mb_reason = reason, mb_assigned_at = now\<rparr> (mg_aliases g)\<rparr>"

definition assign_model_alias ::
    "datetime \<Rightarrow> string \<Rightarrow> string \<Rightarrow> uuid \<Rightarrow> string \<Rightarrow> string \<Rightarrow> model_registry \<Rightarrow> unit answer \<times> model_registry" where
  "assign_model_alias now family al artifact reason actor g =
    (if \<not> sized 5 2000 reason then (Inl (Http 422 ''validation''), g)
     else if upper al \<notin> {''CHAMPION'', ''CANDIDATE'', ''SHADOW''} then (Inl (Http 422 ''alias must be CHAMPION, CANDIDATE, or SHADOW''), g)
     else case map_of (mg_artifacts g) artifact of None \<Rightarrow> (Inl (Http 422 ''artifact does not belong to model family''), g)
     | Some a \<Rightarrow> (if mr_model_family a \<noteq> family then (Inl (Http 422 ''artifact does not belong to model family''), g)
       else let old = map_option mb_model_artifact_id (map_of (mg_aliases g) (family, upper al));
              g' = set_alias now family (upper al) artifact actor reason g
            in (Inr (), g'\<lparr>mg_audit := mg_audit g @ [\<lparr>al_tenant_id = ''default'', al_actor_id = actor, al_action = ''ASSIGN_MODEL_ALIAS'',
                 al_target_type = ''MODEL_ALIAS'', al_target_id = family @ '':'' @ upper al, al_reason = Some reason,
                 al_metadata = [(''old_artifact_id'', opt_str old), (''new_artifact_id'', PStr artifact)]\<rparr>]\<rparr>)))"

section \<open>Labels and calibrations\<close>

definition create_calibration_label :: "label_row \<Rightarrow> principal \<Rightarrow> string \<Rightarrow> model_registry \<Rightarrow> unit answer \<times> model_registry" where
  "create_calibration_label b p actor g =
    (if \<not> (sized 2 128 (lb_model_family b) \<and> sized 1 64 (lb_model_version b) \<and> unit_range (lb_raw_score b) \<and>
        lb_data_partition b \<in> {''CALIBRATION'', ''HOLDOUT''} \<and> sized 5 2000 (lb_label_reason b)) then (Inl (Http 422 ''validation''), g)
     else (Inr (), g\<lparr>mg_labels := mg_labels g @ [b\<lparr>lb_tenant_id := pr_tenant_id p, lb_labeled_by := actor\<rparr>]\<rparr>))"

text \<open>\<open>_labels\<close>; an empty segment selects every segment. Two JSON objects are equal as maps.\<close>

definition labels_of :: "string \<Rightarrow> artifact_row \<Rightarrow> string \<Rightarrow> segment \<Rightarrow> model_registry \<Rightarrow> observation_list" where
  "labels_of tenant a part seg g = map (\<lambda>l. (lb_raw_score l, lb_outcome l)) (sort_key lb_event_time (filter (\<lambda>l.
     lb_tenant_id l = tenant \<and> lb_model_family l = mr_model_family a \<and> lb_model_version l = mr_model_version a \<and>
     lb_data_partition l = part \<and> (seg \<noteq> [] \<longrightarrow> map_of (lb_segment l) = map_of seg)) (mg_labels g)))"

definition holdout_metrics :: "platt_calibration \<Rightarrow> observation_list \<Rightarrow> calibration_metrics option res" where
  "holdout_metrics fitted holdout = (if holdout = [] then Inr None
     else case metrics_of 10 (map (\<lambda>(score, _). predict fitted score) holdout) (map snd holdout) of Inl x \<Rightarrow> Inl x | Inr m \<Rightarrow> Inr (Some m))"

definition fit_calibration ::
    "py_env \<Rightarrow> (observation_list \<Rightarrow> string) \<Rightarrow> governance_settings \<Rightarrow> datetime \<Rightarrow> uuid \<Rightarrow> uuid \<Rightarrow> segment \<Rightarrow> principal \<Rightarrow> string \<Rightarrow> model_registry
      \<Rightarrow> calibration_row answer \<times> model_registry" where
  "fit_calibration e dump st now new_id artifact seg p actor g = (case map_of (mg_artifacts g) artifact of
       None \<Rightarrow> (Inl (Http 404 ''model artifact not found''), g)
     | Some a \<Rightarrow> (case fit_platt_calibration e dump (gs_calibration_min_samples st) 1500 (5 / 100) (labels_of (pr_tenant_id p) a ''CALIBRATION'' seg g) of
         Inl (ValueError s) \<Rightarrow> (Inl (Http 422 s), g)
       | Inl x \<Rightarrow> (Inl (Server_Error x), g)
       | Inr fitted \<Rightarrow> (let holdout = labels_of (pr_tenant_id p) a ''HOLDOUT'' seg g in case holdout_metrics fitted holdout of
           Inl x \<Rightarrow> (Inl (Server_Error x), g)
         | Inr hm \<Rightarrow> (let row = \<lparr>kr_calibration_id = new_id, kr_tenant_id = pr_tenant_id p, kr_model_artifact_id = artifact, kr_segment = seg,
                kr_slope = pc_slope fitted, kr_intercept = pc_intercept fitted, kr_fit = pc_metrics fitted, kr_holdout = hm,
                kr_holdout_sample_count = length holdout, kr_sample_count = cm_sample_count (pc_metrics fitted),
                kr_data_hash = pc_data_hash fitted, kr_status = ''ACTIVE'', kr_created_by = actor, kr_created_at = now\<rparr>
             in (Inr row, g\<lparr>mg_calibrations := mg_calibrations g @ [row]\<rparr>)))))"

section \<open>Drift and false positives\<close>

definition report_model_drift :: "drift_row \<Rightarrow> principal \<Rightarrow> model_registry \<Rightarrow> unit answer \<times> model_registry" where
  "report_model_drift b p g =
    (if \<not> (sized 1 128 (dv_model_family b) \<and> sized 1 64 (dv_model_version b) \<and> 0 \<le> dv_drift_score b \<and> 0 < dv_threshold b)
     then (Inl (Http 422 ''validation''), g)
     else (Inr (), g\<lparr>mg_drift := mg_drift g @ [b\<lparr>dv_tenant_id := pr_tenant_id p,
       dv_status := (if dv_drift_score b \<ge> dv_threshold b then ''DRIFTED'' else ''STABLE'')\<rparr>]\<rparr>))"

definition report_reasons :: "string list" where
  "report_reasons = [''LEGITIMATE_EVENT'', ''ASSET_AMBIGUITY'', ''DATA_QUALITY'', ''THRESHOLD_TOO_LOW'', ''DUPLICATE_CAMPAIGN'', ''OTHER'']"

definition create_false_positive_report :: "datetime \<Rightarrow> false_positive_row \<Rightarrow> principal \<Rightarrow> string \<Rightarrow> model_registry \<Rightarrow> unit answer \<times> model_registry" where
  "create_false_positive_report now b p actor g =
    (if \<not> (sized 2 128 (fq_model_family b) \<and> sized 1 64 (fq_model_version b) \<and> (case fq_asset_id b of None \<Rightarrow> True | Some a \<Rightarrow> length a \<le> 64) \<and>
        fq_reason_code b \<in> set report_reasons \<and> sized 5 4000 (fq_notes b)) then (Inl (Http 422 ''validation''), g)
     else (Inr (), g\<lparr>mg_false_positives := mg_false_positives g @ [b\<lparr>fq_tenant_id := pr_tenant_id p, fq_state := ''OPEN'',
       fq_reported_by := actor, fq_created_at := now\<rparr>]\<rparr>))"

definition list_false_positive_reports :: "principal \<Rightarrow> nat \<Rightarrow> model_registry \<Rightarrow> false_positive_row list" where
  "list_false_positive_reports p limit g =
    take limit (sort_key (\<lambda>r. - fq_created_at r) (filter (\<lambda>r. fq_tenant_id r = pr_tenant_id p) (mg_false_positives g)))"

definition recent_false_positives :: "datetime \<Rightarrow> string \<Rightarrow> artifact_row \<Rightarrow> model_registry \<Rightarrow> nat" where
  "recent_false_positives now tenant a g = length (filter (\<lambda>r. fq_tenant_id r = tenant \<and> fq_model_family r = mr_model_family a \<and>
     fq_model_version r = mr_model_version a \<and> fq_created_at r \<ge> now - seconds (30 * 86400)) (mg_false_positives g))"

section \<open>Promotion\<close>

text \<open>\<open>order_by(column.desc()).limit(1)\<close>.\<close>

definition latest_by :: "('a \<Rightarrow> datetime) \<Rightarrow> 'a list \<Rightarrow> 'a option" where
  "latest_by f xs = (case sort_key (\<lambda>x. - f x) xs of [] \<Rightarrow> None | x # _ \<Rightarrow> Some x)"

definition active_calibration :: "string \<Rightarrow> uuid \<Rightarrow> model_registry \<Rightarrow> calibration_row option" where
  "active_calibration tenant artifact g = latest_by kr_created_at (filter (\<lambda>c. kr_tenant_id c = tenant \<and>
     kr_model_artifact_id c = artifact \<and> kr_status c = ''ACTIVE'') (mg_calibrations g))"

definition latest_drift :: "string \<Rightarrow> artifact_row \<Rightarrow> model_registry \<Rightarrow> drift_row option" where
  "latest_drift tenant a g = latest_by dv_observed_at (filter (\<lambda>r. dv_tenant_id r = tenant \<and>
     dv_model_family r = mr_model_family a \<and> dv_model_version r = mr_model_version a) (mg_drift g))"

text \<open>\<open>metrics_json.get("holdout") or metrics_json["fit"]\<close>.\<close>

definition judged_metrics :: "calibration_row \<Rightarrow> calibration_metrics" where
  "judged_metrics c = (case kr_holdout c of Some m \<Rightarrow> m | None \<Rightarrow> kr_fit c)"

definition metrics_map :: "calibration_metrics \<Rightarrow> (string \<rightharpoonup> real)" where
  "metrics_map m = map_of [(''sample_count'', real (cm_sample_count m)), (''positive_count'', real (cm_positive_count m)),
     (''brier_score'', cm_brier_score m), (''log_loss'', cm_log_loss m),
     (''expected_calibration_error'', cm_expected_calibration_error m), (''auc'', cm_auc m)]"

definition champion_of :: "string \<Rightarrow> model_registry \<Rightarrow> uuid option" where
  "champion_of family g = map_option mb_model_artifact_id (map_of (mg_aliases g) (family, ''CHAMPION''))"

definition comparison_required :: "uuid \<Rightarrow> uuid option \<Rightarrow> bool" where
  "comparison_required candidate champion \<longleftrightarrow> champion \<noteq> None \<and> champion \<noteq> Some candidate"

definition champion_brier :: "string \<Rightarrow> uuid \<Rightarrow> uuid option \<Rightarrow> model_registry \<Rightarrow> real option" where
  "champion_brier tenant candidate champion g = (if \<not> comparison_required candidate champion then None
     else map_option (\<lambda>c. cm_brier_score (judged_metrics c)) (active_calibration tenant (the champion) g))"

definition promotion_request_of ::
    "governance_settings \<Rightarrow> datetime \<Rightarrow> string \<Rightarrow> uuid \<Rightarrow> artifact_row \<Rightarrow> calibration_row \<Rightarrow> model_registry \<Rightarrow> promotion_request" where
  "promotion_request_of st now tenant candidate a c g = \<lparr>pr_metrics = metrics_map (judged_metrics c), pr_sample_count = int (kr_sample_count c),
     pr_minimum_samples = int (gs_calibration_min_samples st), pr_maximum_ece = gs_calibration_max_ece st,
     pr_minimum_auc = gs_calibration_min_auc st, pr_drift_status = map_option dv_status (latest_drift tenant a g),
     pr_false_positive_count = int (recent_false_positives now tenant a g),
     pr_false_positive_budget = int (gs_promotion_max_false_positives st),
     pr_champion_brier_score = champion_brier tenant candidate (champion_of (mr_model_family a) g) g,
     pr_brier_tolerance = gs_promotion_brier_tolerance st,
     pr_champion_comparison_required = comparison_required candidate (champion_of (mr_model_family a) g)\<rparr>"

definition evaluate_promotion ::
    "governance_settings \<Rightarrow> datetime \<Rightarrow> uuid \<Rightarrow> string \<Rightarrow> bool \<Rightarrow> principal \<Rightarrow> string \<Rightarrow> model_registry \<Rightarrow> decision_row answer \<times> model_registry" where
  "evaluate_promotion st now candidate reason apply_alias p actor g =
    (if \<not> sized 5 2000 reason then (Inl (Http 422 ''validation''), g)
     else case map_of (mg_artifacts g) candidate of None \<Rightarrow> (Inl (Http 404 ''candidate artifact not found''), g)
     | Some a \<Rightarrow> (case active_calibration (pr_tenant_id p) candidate g of None \<Rightarrow> (Inl (Http 409 ''candidate has no active calibration''), g)
       | Some c \<Rightarrow> (case promotion_checks (promotion_request_of st now (pr_tenant_id p) candidate a c g) of
           Inl x \<Rightarrow> (Inl (Server_Error x), g)
         | Inr results \<Rightarrow> (let passed = list_all snd results;
               status = (if passed \<and> apply_alias then ''PROMOTED'' else if passed then ''APPROVED'' else ''REJECTED'');
               decision = \<lparr>dn_tenant_id = pr_tenant_id p, dn_model_family = mr_model_family a, dn_candidate_artifact_id = candidate,
                 dn_champion_artifact_id = champion_of (mr_model_family a) g, dn_calibration_id = kr_calibration_id c, dn_status = status,
                 dn_checks = results, dn_reason = reason, dn_decided_by = actor\<rparr>;
               g' = g\<lparr>mg_decisions := mg_decisions g @ [decision],
                 mg_audit := mg_audit g @ [\<lparr>al_tenant_id = pr_tenant_id p, al_actor_id = actor, al_action = ''MODEL_PROMOTION_DECISION'',
                   al_target_type = ''MODEL_ARTIFACT'', al_target_id = candidate, al_reason = Some reason,
                   al_metadata = [(''status'', PStr status), (''checks'', PDict (map (map_prod id PBool) results))]\<rparr>]\<rparr>
             in (Inr decision, if status = ''PROMOTED'' then set_alias now (mr_model_family a) ''CHAMPION'' candidate actor reason g' else g')))))"

section \<open>Policy proposals\<close>

definition create_policy_proposal :: "uuid \<Rightarrow> string \<Rightarrow> string \<Rightarrow> payload \<Rightarrow> principal \<Rightarrow> string \<Rightarrow> model_registry \<Rightarrow> unit answer \<times> model_registry" where
  "create_policy_proposal i name description details p actor g =
    (if \<not> (sized 2 128 name \<and> sized 5 4000 description) then (Inl (Http 422 ''validation''), g)
     else if map_of (mg_proposals g) i \<noteq> None then (Inl (Server_Error (IntegrityError ''policy_proposals'')), g)
     else (Inr (), g\<lparr>mg_proposals := mg_proposals g @ [(i, \<lparr>pp_tenant_id = pr_tenant_id p, pp_name = name, pp_description = description,
       pp_details = details, pp_status = ''PENDING'', pp_proposed_by = actor, pp_reviewed_by = None, pp_review_reason = None,
       pp_reviewed_at = None\<rparr>)]\<rparr>))"

definition decide_policy_proposal :: "datetime \<Rightarrow> uuid \<Rightarrow> string \<Rightarrow> string \<Rightarrow> string \<Rightarrow> model_registry \<Rightarrow> unit answer \<times> model_registry" where
  "decide_policy_proposal now i status reason actor g =
    (if \<not> (status \<in> {''APPROVED'', ''REJECTED''} \<and> sized 5 2000 reason) then (Inl (Http 422 ''validation''), g)
     else case map_of (mg_proposals g) i of None \<Rightarrow> (Inl (Http 404 ''policy proposal not found''), g)
     | Some r \<Rightarrow> (if pp_status r \<noteq> ''PENDING'' then (Inl (Http 409 ''policy proposal already reviewed''), g)
       else (Inr (), g\<lparr>mg_proposals := AList.update i (r\<lparr>pp_status := status, pp_reviewed_by := Some actor, pp_review_reason := Some reason,
              pp_reviewed_at := Some now\<rparr>) (mg_proposals g),
            mg_audit := mg_audit g @ [\<lparr>al_tenant_id = pp_tenant_id r, al_actor_id = actor, al_action = status @ ''_POLICY_PROPOSAL'',
              al_target_type = ''POLICY_PROPOSAL'', al_target_id = i, al_reason = Some reason, al_metadata = []\<rparr>]\<rparr>)))"

end
