(* ===== verification/Model_Registry_Correct.thy ===== *)
theory Model_Registry_Correct
  imports Model_Registry
begin

text \<open>
  How a model becomes champion: by a promotion whose checks all passed, or by an assignment nobody checks.
\<close>

section \<open>Steps\<close>

text \<open>Every route of the registry as a step, with the alias it assigned by hand, if it did.\<close>

inductive governance_step :: "py_env \<Rightarrow> (observation_list \<Rightarrow> string) \<Rightarrow> governance_settings \<Rightarrow> model_registry \<Rightarrow> (string \<times> string) option \<Rightarrow> model_registry \<Rightarrow> bool"
  for e dump st where
  register: "register_model_artifact e now ab actor g = (a, g') \<Longrightarrow> governance_step e dump st g None g'"
| assign: "assign_model_alias now family al artifact reason actor g = (Inr (), g') \<Longrightarrow> governance_step e dump st g (Some (family, upper al)) g'"
| label: "create_calibration_label lb p actor g = (a1, g') \<Longrightarrow> governance_step e dump st g None g'"
| fit: "fit_calibration e dump st now new_id artifact seg p actor g = (a2, g') \<Longrightarrow> governance_step e dump st g None g'"
| drift: "report_model_drift db p g = (a3, g') \<Longrightarrow> governance_step e dump st g None g'"
| report: "create_false_positive_report now fb p actor g = (a4, g') \<Longrightarrow> governance_step e dump st g None g'"
| promote: "evaluate_promotion st now candidate reason apply_alias p actor g = (a5, g') \<Longrightarrow> governance_step e dump st g None g'"
| propose: "create_policy_proposal i name description details p actor g = (a6, g') \<Longrightarrow> governance_step e dump st g None g'"
| decide: "decide_policy_proposal now i status reason actor g = (a7, g') \<Longrightarrow> governance_step e dump st g None g'"

inductive governance_runs :: "py_env \<Rightarrow> (observation_list \<Rightarrow> string) \<Rightarrow> governance_settings \<Rightarrow> model_registry \<Rightarrow> (string \<times> string) option list \<Rightarrow> model_registry \<Rightarrow> bool"
  for e dump st where
  nil: "governance_runs e dump st g [] g"
| snoc: "governance_runs e dump st g ls h \<Longrightarrow> governance_step e dump st h l k \<Longrightarrow> governance_runs e dump st g (ls @ [l]) k"

definition empty_registry :: model_registry where
  "empty_registry = \<lparr>mg_artifacts = [], mg_aliases = [], mg_labels = [], mg_calibrations = [], mg_decisions = [], mg_drift = [],
     mg_false_positives = [], mg_proposals = [], mg_audit = []\<rparr>"

section \<open>A champion and the decision behind it\<close>

definition calibration_passes :: "governance_settings \<Rightarrow> calibration_row \<Rightarrow> bool" where
  "calibration_passes st c \<longleftrightarrow> gs_calibration_min_samples st \<le> kr_sample_count c \<and>
     cm_expected_calibration_error (judged_metrics c) \<le> gs_calibration_max_ece st \<and> gs_calibration_min_auc st \<le> cm_auc (judged_metrics c)"

definition check_names :: "string list" where
  "check_names = [''minimum_samples'', ''maximum_ece'', ''minimum_auc'', ''drift_stable'', ''false_positive_budget'',
     ''champion_calibration_available'', ''not_worse_than_champion'']"

definition decided_for :: "governance_settings \<Rightarrow> model_registry \<Rightarrow> string \<Rightarrow> uuid \<Rightarrow> bool" where
  "decided_for st g family artifact \<longleftrightarrow> (\<exists>d \<in> set (mg_decisions g). dn_status d = ''PROMOTED'' \<and> dn_model_family d = family \<and>
     dn_candidate_artifact_id d = artifact \<and> map fst (dn_checks d) = check_names \<and> list_all snd (dn_checks d) \<and>
     (\<exists>c \<in> set (mg_calibrations g). kr_calibration_id c = dn_calibration_id d \<and> kr_tenant_id c = dn_tenant_id d \<and>
        kr_model_artifact_id c = artifact \<and> calibration_passes st c))"

definition registry_grows :: "model_registry \<Rightarrow> model_registry \<Rightarrow> bool" where
  "registry_grows g h \<longleftrightarrow> set (mg_decisions g) \<subseteq> set (mg_decisions h) \<and> set (mg_calibrations g) \<subseteq> set (mg_calibrations h)"

lemma decided_grows: "decided_for st g f a \<Longrightarrow> registry_grows g h \<Longrightarrow> decided_for st h f a"
  unfolding decided_for_def registry_grows_def by blast

lemma quiet_routes:
  "register_model_artifact e now ab actor g = (a, g') \<Longrightarrow> mg_aliases g' = mg_aliases g \<and> registry_grows g g'"
  "create_calibration_label lb p actor g = (a1, g') \<Longrightarrow> mg_aliases g' = mg_aliases g \<and> registry_grows g g'"
  "fit_calibration e dump st now new_id artifact seg p actor g = (a2, g') \<Longrightarrow> mg_aliases g' = mg_aliases g \<and> registry_grows g g'"
  "report_model_drift db p g = (a3, g') \<Longrightarrow> mg_aliases g' = mg_aliases g \<and> registry_grows g g'"
  "create_false_positive_report now fb p actor g = (a4, g') \<Longrightarrow> mg_aliases g' = mg_aliases g \<and> registry_grows g g'"
  "create_policy_proposal i name description details p actor g = (a6, g') \<Longrightarrow> mg_aliases g' = mg_aliases g \<and> registry_grows g g'"
  "decide_policy_proposal now i status reason actor g = (a7, g') \<Longrightarrow> mg_aliases g' = mg_aliases g \<and> registry_grows g g'"
  unfolding register_model_artifact_def create_calibration_label_def fit_calibration_def report_model_drift_def
    create_false_positive_report_def create_policy_proposal_def decide_policy_proposal_def registry_grows_def Let_def
  by (auto split: if_splits option.splits sum.splits py_exn.splits simp del: fun_upd_apply)

lemma assign_success:
  assumes "assign_model_alias now family al artifact reason actor g = (Inr (), g')"
  shows "(\<exists>a. map_of (mg_artifacts g) artifact = Some a \<and> mr_model_family a = family) \<and> registry_grows g g' \<and> champion_of family g' = (if upper al = ''CHAMPION'' then Some artifact else champion_of family g) \<and>
    (\<forall>k. k \<noteq> (family, upper al) \<longrightarrow> map_of (mg_aliases g') k = map_of (mg_aliases g) k)"
  using assms unfolding assign_model_alias_def set_alias_def registry_grows_def champion_of_def Let_def
  by (auto split: if_splits option.splits simp: update_conv')

lemma latest_by_mem: "latest_by f xs = Some x \<Longrightarrow> x \<in> set xs"
proof (cases "sort_key (\<lambda>x. - f x) xs")
  case (Cons y ys)
  then have "y \<in> set xs" by (metis list.set_intros(1) set_sort)
  then show "latest_by f xs = Some x \<Longrightarrow> x \<in> set xs" by (simp add: latest_by_def Cons)
qed (simp add: latest_by_def)

lemma active_calibration_mem:
  "active_calibration t a g = Some c \<Longrightarrow> c \<in> set (mg_calibrations g) \<and> kr_tenant_id c = t \<and> kr_model_artifact_id c = a"
  unfolding active_calibration_def by (drule latest_by_mem) auto

lemma checks_pass:
  assumes "promotion_checks (promotion_request_of st now t i a c g) = Inr cs" "list_all snd cs"
  shows "calibration_passes st c" "map_option dv_status (latest_drift t a g) \<noteq> Some ''DRIFTED''"
    "recent_false_positives now t a g \<le> gs_promotion_max_false_positives st"
    "comparison_required i (champion_of (mr_model_family a) g) \<Longrightarrow>
      \<exists>b. champion_brier t i (champion_of (mr_model_family a) g) g = Some b \<and>
        cm_brier_score (judged_metrics c) \<le> b + gs_promotion_brier_tolerance st"
  using assms unfolding promotion_checks_def champion_check_def metric_def metrics_map_def promotion_request_of_def
  by (auto simp: calibration_passes_def split: if_splits option.splits)


lemma promotion_effect:
  assumes "evaluate_promotion st now i reason apply_alias p actor g = (a5, g')"
  shows "registry_grows g g' \<and> (mg_aliases g' = mg_aliases g \<or>
    (\<exists>a c. map_of (mg_artifacts g) i = Some a \<and> active_calibration (pr_tenant_id p) i g = Some c \<and> apply_alias \<and>
       champion_of (mr_model_family a) g' = Some i \<and>
       (\<forall>k. k \<noteq> (mr_model_family a, ''CHAMPION'') \<longrightarrow> map_of (mg_aliases g') k = map_of (mg_aliases g) k) \<and>
       decided_for st g' (mr_model_family a) i \<and> calibration_passes st c \<and>
       map_option dv_status (latest_drift (pr_tenant_id p) a g) \<noteq> Some ''DRIFTED'' \<and>
       recent_false_positives now (pr_tenant_id p) a g \<le> gs_promotion_max_false_positives st \<and>
       (comparison_required i (champion_of (mr_model_family a) g) \<longrightarrow>
         (\<exists>b. champion_brier (pr_tenant_id p) i (champion_of (mr_model_family a) g) g = Some b \<and>
            cm_brier_score (judged_metrics c) \<le> b + gs_promotion_brier_tolerance st))))"
proof (cases "sized 5 2000 reason \<and> map_of (mg_artifacts g) i \<noteq> None \<and> active_calibration (pr_tenant_id p) i g \<noteq> None")
  case False
  then have "g' = g" using assms unfolding evaluate_promotion_def by (auto split: if_splits option.splits)
  then show ?thesis by (simp add: registry_grows_def)
next
  case True
  then obtain a c where ac: "sized 5 2000 reason" "map_of (mg_artifacts g) i = Some a" "active_calibration (pr_tenant_id p) i g = Some c" by blast
  let ?r = "promotion_request_of st now (pr_tenant_id p) i a c g"
  show ?thesis
  proof (cases "promotion_checks ?r")
    case (Inl x)
    then have "g' = g" using assms ac unfolding evaluate_promotion_def by simp
    then show ?thesis by (simp add: registry_grows_def)
  next
    case (Inr cs)
    show ?thesis
    proof (cases "list_all snd cs \<and> apply_alias")
      case False
      then have "mg_aliases g' = mg_aliases g \<and> registry_grows g g'"
        using assms ac Inr unfolding evaluate_promotion_def by (auto simp: Let_def registry_grows_def)
      then show ?thesis by simp
    next
      case True
      with assms ac Inr have g': "registry_grows g g'" "champion_of (mr_model_family a) g' = Some i"
        "\<forall>k. k \<noteq> (mr_model_family a, ''CHAMPION'') \<longrightarrow> map_of (mg_aliases g') k = map_of (mg_aliases g) k"
        "mg_calibrations g' = mg_calibrations g"
        "\<exists>d \<in> set (mg_decisions g'). dn_status d = ''PROMOTED'' \<and> dn_model_family d = mr_model_family a \<and> dn_candidate_artifact_id d = i \<and>
           dn_checks d = cs \<and> dn_calibration_id d = kr_calibration_id c \<and> dn_tenant_id d = pr_tenant_id p"
        by (auto simp: evaluate_promotion_def Let_def set_alias_def registry_grows_def champion_of_def update_conv')
      note pass = checks_pass [OF Inr] 
      have "map fst cs = check_names"
        using Inr unfolding promotion_checks_def check_names_def by (auto split: sum.splits)
      with g'(4,5) active_calibration_mem [OF ac(3)] pass(1) True have "decided_for st g' (mr_model_family a) i"
        unfolding decided_for_def by metis
      with g' ac True pass show ?thesis by blast
    qed
  qed
qed

lemma promotion_champion:
  assumes "evaluate_promotion st now i reason apply_alias p actor g = (a5, g')" "mg_aliases g' \<noteq> mg_aliases g"
  obtains f where "champion_of f g' = Some i" "decided_for st g' f i"
    "\<And>k. k \<noteq> (f, ''CHAMPION'') \<Longrightarrow> map_of (mg_aliases g') k = map_of (mg_aliases g) k"
proof -
  from conjunct2 [OF promotion_effect [OF assms(1)]] show thesis
  proof
    assume "mg_aliases g' = mg_aliases g"
    with assms(2) show thesis by contradiction
  qed (elim exE conjE, rule that, assumption, assumption, drule spec, erule (1) mp)
qed

definition champions_ok :: "governance_settings \<Rightarrow> (string \<times> string) option list \<Rightarrow> model_registry \<Rightarrow> bool" where
  "champions_ok st ls g \<longleftrightarrow> (\<forall>f a. champion_of f g = Some a \<and> Some (f, ''CHAMPION'') \<notin> set ls \<longrightarrow> decided_for st g f a)"

lemma champions_ok_keep:
  assumes "champions_ok st ls g" "registry_grows g h"
    and "\<And>f a. champion_of f h = Some a \<Longrightarrow> Some (f, ''CHAMPION'') \<notin> set (ls @ [l]) \<Longrightarrow> champion_of f g = Some a \<or> decided_for st h f a"
  shows "champions_ok st (ls @ [l]) h"
  using assms decided_grows unfolding champions_ok_def by fastforce

lemma champion_of_aliases: "mg_aliases h = mg_aliases g \<Longrightarrow> champion_of f h = champion_of f g"
  by (simp add: champion_of_def)

lemma champions_ok_step:
  assumes "governance_step e dump st g l h" "champions_ok st ls g"
  shows "champions_ok st (ls @ [l]) h"
proof -
  have quiet: ?thesis if "mg_aliases h = mg_aliases g \<and> registry_grows g h"
  proof (rule champions_ok_keep [OF assms(2)])
    show "registry_grows g h" using that by blast
    show "champion_of f g = Some a \<or> decided_for st h f a" if "champion_of f h = Some a" for f a
      using that champion_of_aliases [of h g f] \<open>mg_aliases h = mg_aliases g \<and> registry_grows g h\<close> by simp
  qed
  from assms(1) show ?thesis
  proof cases
    case (assign now family al artifact reason actor)
    note a = assign_success [OF assign(2)]
    have same: "champion_of f h = champion_of f g" if "l \<noteq> Some (f, ''CHAMPION'')" for f
      using a that assign(1) by (cases "f = family") (auto simp: champion_of_def)
    show ?thesis
      by (rule champions_ok_keep [OF assms(2)]) (use a same in auto)
  next
    case (promote now candidate reason apply_alias p actor a5)
    note pr = promotion_effect [OF promote(2)]
    have keep: "champion_of f g = Some a \<or> decided_for st h f a" if "champion_of f h = Some a" for f a
    proof (cases "mg_aliases h = mg_aliases g")
      case True
      with that champion_of_aliases [of h g f] show ?thesis by simp
    next
      case False
      from promotion_champion [OF promote(2) False] obtain f' where f': "champion_of f' h = Some candidate" "decided_for st h f' candidate"
        "\<And>k. k \<noteq> (f', ''CHAMPION'') \<Longrightarrow> map_of (mg_aliases h) k = map_of (mg_aliases g) k" by blast
      show ?thesis
      proof (cases "f = f'")
        case True
        with f'(1,2) that show ?thesis by simp
      next
        case False
        with f'(3) [of "(f, ''CHAMPION'')"] that show ?thesis by (simp add: champion_of_def)
      qed
    qed
    from pr have "registry_grows g h" by (rule conjunct1)
    from champions_ok_keep [OF assms(2) this keep] show ?thesis .
  qed (rule quiet, erule quiet_routes)+
qed

lemma champions_ok_runs: "governance_runs e dump st empty_registry ls g \<Longrightarrow> champions_ok st ls g"
proof (induction empty_registry ls g rule: governance_runs.induct)
  case nil
  then show ?case by (simp add: champions_ok_def champion_of_def empty_registry_def)
qed (simp add: champions_ok_step)


section \<open>Properties\<close>

text \<open>C12. A model is champion of its family only by a decision. Unless the alias was assigned by hand, every champion
  after any sequence of requests stands in a recorded decision PROMOTED that passed all seven checks and names a stored calibration of that model
  with enough samples, a small enough calibration error and a large enough area under the curve.\<close>

theorem champions_promoted:
  assumes "governance_runs e dump st empty_registry ls g" "Some (family, ''CHAMPION'') \<notin> set ls" "champion_of family g = Some artifact"
  shows "\<exists>d \<in> set (mg_decisions g). dn_status d = ''PROMOTED'' \<and> dn_model_family d = family \<and> dn_candidate_artifact_id d = artifact \<and>
    map fst (dn_checks d) = check_names \<and> list_all snd (dn_checks d) \<and>
    (\<exists>c \<in> set (mg_calibrations g). kr_calibration_id c = dn_calibration_id d \<and> kr_tenant_id c = dn_tenant_id d \<and>
       kr_model_artifact_id c = artifact \<and> gs_calibration_min_samples st \<le> kr_sample_count c \<and>
       cm_expected_calibration_error (judged_metrics c) \<le> gs_calibration_max_ece st \<and> gs_calibration_min_auc st \<le> cm_auc (judged_metrics c))"
  using champions_ok_runs [OF assms(1)] assms(2,3) unfolding champions_ok_def decided_for_def calibration_passes_def by blast

text \<open>The routes that assign aliases ask for no decision: any registered artifact becomes champion, calibrated or not.\<close>

lemma champion_bypass:
  assumes "map_of (mg_artifacts g) i = Some a" "sized 5 2000 reason"
  shows "\<exists>g'. assign_model_alias now (mr_model_family a) ''CHAMPION'' i reason actor g = (Inr (), g') \<and>
    champion_of (mr_model_family a) g' = Some i \<and> mg_decisions g' = mg_decisions g \<and> mg_calibrations g' = mg_calibrations g"
proof -
  have up: "upper ''CHAMPION'' = ''CHAMPION''" by code_simp
  show ?thesis using assms unfolding assign_model_alias_def up
    by (simp add: Let_def set_alias_def champion_of_def update_conv')
qed

text \<open>The drift a promotion looks at is the one with the latest observation time, which the client gives: an event
  dated ahead hides every later one.\<close>

lemma latest_by_insert:
  assumes "\<forall>x \<in> set xs. f x < f y"
  shows "latest_by f (xs @ [y]) = Some y"
proof (cases "sort_key (\<lambda>x. - f x) (xs @ [y])")
  case (Cons z zs)
  have "sorted (map (\<lambda>x. - f x) (z # zs))" unfolding Cons [symmetric] by simp
  moreover have mem: "set (z # zs) = insert y (set xs)" unfolding Cons [symmetric] by simp
  ultimately have "- f z \<le> - f y" by auto
  moreover have "z \<in> insert y (set xs)" using mem by auto
  ultimately have "z = y" using assms by auto
  with Cons show ?thesis by (simp add: latest_by_def)
next
  case Nil
  then have "set (sort_key (\<lambda>x. - f x) (xs @ [y])) = {}" by simp
  then show ?thesis by simp
qed

lemma drift_masked:
  assumes "report_model_drift b p g = (Inr (), g')" "dv_drift_score b < dv_threshold b"
    "\<forall>r \<in> set (mg_drift g). dv_observed_at r < dv_observed_at b" "mr_model_family a = dv_model_family b" "mr_model_version a = dv_model_version b"
  shows "map_option dv_status (latest_drift (pr_tenant_id p) a g') = Some ''STABLE''"
proof -
  let ?P = "\<lambda>r. dv_tenant_id r = pr_tenant_id p \<and> dv_model_family r = mr_model_family a \<and> dv_model_version r = mr_model_version a"
  let ?b = "b\<lparr>dv_tenant_id := pr_tenant_id p, dv_status := ''STABLE''\<rparr>"
  have "mg_drift g' = mg_drift g @ [?b]" using assms(1,2) by (auto simp: report_model_drift_def split: if_splits)
  then have "filter ?P (mg_drift g') = filter ?P (mg_drift g) @ [?b]" using assms(4,5) by simp
  moreover have "latest_by dv_observed_at (filter ?P (mg_drift g) @ [?b]) = Some ?b" by (rule latest_by_insert) (use assms(3) in simp)
  ultimately show ?thesis by (simp add: latest_drift_def)
qed

section \<open>A model that is promoted\<close>

lemma fit_metrics:
  assumes "fit_platt_calibration env dump minimum n rate obs = Inr c"
  shows "unit_range (cm_expected_calibration_error (pc_metrics c))" "unit_range (cm_auc (pc_metrics c))" "cm_sample_count (pc_metrics c) = length obs"
proof -
  from assms obtain f where "metrics_of 10 (map (\<lambda>(score, _). sigmoid (f score)) (sort obs)) (map snd (sort obs)) = Inr (pc_metrics c)"
    by (auto simp: fit_platt_calibration_def Let_def split: if_splits sum.splits prod.splits)
  moreover have "list_all unit_range (map (\<lambda>(score, _). sigmoid (f score)) (sort obs))"
    using sigmoid_bounds by (auto simp: list_all_iff unit_range_def less_imp_le)
  ultimately show "unit_range (cm_expected_calibration_error (pc_metrics c))" "unit_range (cm_auc (pc_metrics c))"
    "cm_sample_count (pc_metrics c) = length obs"
    using metrics_of_Inr by force+
qed

definition lenient_governance :: governance_settings where
  "lenient_governance = \<lparr>gs_calibration_min_samples = 2, gs_calibration_max_ece = 1, gs_calibration_min_auc = 0,
     gs_promotion_max_false_positives = 5, gs_promotion_brier_tolerance = 0\<rparr>"

definition sample_artifact :: artifact_create where
  "sample_artifact = \<lparr>ac_model_family = ''fusion'', ac_model_version = ''v1'', ac_artifact_uri = ''s3://m'',
     ac_artifact_hash = replicate 64 CHR ''a'', ac_input_schema_hash = replicate 64 CHR ''b'', ac_training_data_hash = None,
     ac_mlflow_run_id = None, ac_metadata = []\<rparr>"

definition sample_label :: "real \<Rightarrow> bool \<Rightarrow> label_row" where
  "sample_label s b = \<lparr>lb_tenant_id = ''t'', lb_model_family = ''fusion'', lb_model_version = ''v1'', lb_raw_score = s, lb_outcome = b,
     lb_data_partition = ''CALIBRATION'', lb_segment = [], lb_alert_id = None, lb_event_time = 0, lb_labeled_by = ''ann'', lb_label_reason = ''reviewed''\<rparr>"

definition sample_owner :: principal where
  "sample_owner = \<lparr>pr_subject = ''ann'', pr_tenant_id = ''t'', pr_roles = {ro_analyst}, pr_auth_method = ''oidc'', pr_service_account_id = None\<rparr>"


lemma sample_valid: "valid_artifact sample_artifact" "sized 5 2000 ''reviewed''" "lower (replicate 64 CHR ''a'') = replicate 64 CHR ''a''"
  by code_simp+

lemma lenient_pass:
  assumes "mg_aliases g = []" "mg_drift g = []" "mg_false_positives g = []" "mg_calibrations g = [c]" "map_of (mg_artifacts g) i = Some a"
    and "kr_tenant_id c = ''t''" "kr_model_artifact_id c = i" "kr_status c = ''ACTIVE''" "kr_holdout c = None" "2 \<le> kr_sample_count c"
    and "unit_range (cm_expected_calibration_error (kr_fit c))" "unit_range (cm_auc (kr_fit c))"
  shows "champion_of (mr_model_family a) (snd (evaluate_promotion lenient_governance now i ''reviewed'' True sample_owner ''ann'' g)) = Some i"
proof -
  have cal: "active_calibration ''t'' i g = Some c" using assms by (simp add: active_calibration_def latest_by_def)
  have rest: "champion_of f g = None" "recent_false_positives now t a g = 0" "latest_drift t a g = None" for f t
    using assms by (simp_all add: champion_of_def recent_false_positives_def latest_drift_def latest_by_def)
  have "\<exists>cs. promotion_checks (promotion_request_of lenient_governance now ''t'' i a c g) = Inr cs \<and> list_all snd cs"
    using assms(9-12) rest
    by (simp add: promotion_checks_def champion_check_def metric_def metrics_map_def promotion_request_of_def judged_metrics_def
        lenient_governance_def comparison_required_def champion_brier_def unit_range_def)
  then obtain cs where "promotion_checks (promotion_request_of lenient_governance now ''t'' i a c g) = Inr cs" "list_all snd cs" by blast
  with cal assms(5) sample_valid(2) show ?thesis
    by (simp add: evaluate_promotion_def sample_owner_def Let_def set_alias_def champion_of_def update_conv')
qed

lemma sample_fit:
  assumes "map_of (mg_artifacts g) i = Some a" "mr_model_family a = ''fusion''" "mr_model_version a = ''v1''"
    and "mg_labels g = [sample_label (1 / 4) False, sample_label (3 / 4) True]" "mg_calibrations g = []"
  obtains c g' where "fit_calibration sample_env (\<lambda>_. []) lenient_governance 0 ''k'' i [] sample_owner ''ann'' g = (Inr c, g')"
    "g' = g\<lparr>mg_calibrations := [c]\<rparr>" "kr_tenant_id c = ''t''" "kr_model_artifact_id c = i" "kr_status c = ''ACTIVE''" "kr_holdout c = None"
    "2 \<le> kr_sample_count c" "unit_range (cm_expected_calibration_error (kr_fit c))" "unit_range (cm_auc (kr_fit c))"
proof -
  let ?obs = "[(1 / 4, False), (3 / 4, True)] :: observation_list"
  have labels: "labels_of ''t'' a ''CALIBRATION'' [] g = ?obs" "labels_of ''t'' a ''HOLDOUT'' [] g = []"
    using assms(2-4) by (simp_all add: labels_of_def sample_label_def)
  have "is_ok (fit_platt_calibration sample_env (\<lambda>_. []) 2 1500 (5 / 100) ?obs)" by (subst fit_is_ok) simp_all
  then obtain f where f: "fit_platt_calibration sample_env (\<lambda>_. []) 2 1500 (5 / 100) ?obs = Inr f" by (auto simp: is_ok_iff)
  let ?c = "\<lparr>kr_calibration_id = ''k'', kr_tenant_id = ''t'', kr_model_artifact_id = i, kr_segment = [], kr_slope = pc_slope f,
     kr_intercept = pc_intercept f, kr_fit = pc_metrics f, kr_holdout = None, kr_holdout_sample_count = 0,
     kr_sample_count = cm_sample_count (pc_metrics f), kr_data_hash = pc_data_hash f, kr_status = ''ACTIVE'', kr_created_by = ''ann'', kr_created_at = 0\<rparr>"
  show thesis
    using assms(1,5) labels f fit_metrics [OF f]
    by (intro that [of ?c "g\<lparr>mg_calibrations := [?c]\<rparr>"])
      (simp_all add: fit_calibration_def sample_owner_def lenient_governance_def Let_def holdout_metrics_def)
qed

lemma sample_promotion:
  "\<exists>g ls. governance_runs sample_env (\<lambda>_. []) lenient_governance empty_registry ls g \<and> set ls = {None} \<and>
     champion_of ''fusion'' g = Some (artifact_id_of sample_env sample_artifact)"
proof -
  let ?i = "artifact_id_of sample_env sample_artifact"
  let ?runs = "governance_runs sample_env (\<lambda>_. []) lenient_governance empty_registry"
  have step: "\<exists>ls. ?runs ls k \<and> set ls = {None}" if "\<exists>ls. ?runs ls h \<and> set ls \<subseteq> {None}" "governance_step sample_env (\<lambda>_. []) lenient_governance h None k" for h k
  proof -
    from that(1) obtain ls where ls: "?runs ls h" "set ls \<subseteq> {None}" by blast
    from governance_runs.snoc [OF ls(1) that(2)] have "?runs (ls @ [None]) k" .
    moreover have "set (ls @ [None]) = {None}" using ls(2) by auto
    ultimately show ?thesis by blast
  qed
  have sub: "\<exists>ls. ?runs ls h \<and> set ls \<subseteq> {None}" if "\<exists>ls. ?runs ls h \<and> set ls = {None}" for h using that by blast
  obtain ans0 g0 where r0: "register_model_artifact sample_env 0 sample_artifact ''ann'' empty_registry = (ans0, g0)" by fastforce
  then obtain art where art: "mg_artifacts g0 = [(?i, art)]" "mr_model_family art = ''fusion''" "mr_model_version art = ''v1''"
    and g0: "mg_aliases g0 = []" "mg_drift g0 = []" "mg_false_positives g0 = []" "mg_calibrations g0 = []" "mg_labels g0 = []"
    using sample_valid(1) by (auto simp: register_model_artifact_def empty_registry_def Let_def sample_artifact_def)
  let ?g1 = "g0\<lparr>mg_labels := [sample_label (1 / 4) False]\<rparr>"
  let ?g2 = "g0\<lparr>mg_labels := [sample_label (1 / 4) False, sample_label (3 / 4) True]\<rparr>"
  have "sample_label s b\<lparr>lb_tenant_id := ''t'', lb_labeled_by := ''ann''\<rparr> = sample_label s b" for s b by (simp add: sample_label_def)
  then have lab: "create_calibration_label (sample_label (1 / 4) False) sample_owner ''ann'' g0 = (Inr (), ?g1)"
    "create_calibration_label (sample_label (3 / 4) True) sample_owner ''ann'' ?g1 = (Inr (), ?g2)"
    using g0(5) by (simp_all add: create_calibration_label_def sample_owner_def sample_label_def sized_def unit_range_def)
  have "map_of (mg_artifacts ?g2) ?i = Some art" "mg_labels ?g2 = [sample_label (1 / 4) False, sample_label (3 / 4) True]" "mg_calibrations ?g2 = []"
    using art g0 by simp_all
  from sample_fit [OF this(1) art(2,3) this(2,3)] obtain c g3 where
    fit: "fit_calibration sample_env (\<lambda>_. []) lenient_governance 0 ''k'' ?i [] sample_owner ''ann'' ?g2 = (Inr c, g3)"
    and g3: "g3 = ?g2\<lparr>mg_calibrations := [c]\<rparr>" and c: "kr_tenant_id c = ''t''" "kr_model_artifact_id c = ?i" "kr_status c = ''ACTIVE''"
      "kr_holdout c = None" "2 \<le> kr_sample_count c" "unit_range (cm_expected_calibration_error (kr_fit c))" "unit_range (cm_auc (kr_fit c))" by blast
  obtain ans4 g4 where r4: "evaluate_promotion lenient_governance 0 ?i ''reviewed'' True sample_owner ''ann'' g3 = (ans4, g4)" by fastforce
  have "champion_of (mr_model_family art) g4 = Some ?i"
    using lenient_pass [of g3 c ?i art 0] r4 art(1) g0 c by (simp add: g3)
  moreover have "\<exists>ls. ?runs ls g4 \<and> set ls = {None}"
  proof -
    have "\<exists>ls. ?runs ls empty_registry \<and> set ls \<subseteq> {None}" by (intro exI [of _ "[]"]) (simp add: governance_runs.nil)
    note s1 = step [OF this governance_step.register [OF r0]]
    note s2 = step [OF sub [OF s1] governance_step.label [OF lab(1)]]
    note s3 = step [OF sub [OF s2] governance_step.label [OF lab(2)]]
    note s4 = step [OF sub [OF s3] governance_step.fit [OF fit]]
    show ?thesis by (rule step [OF sub [OF s4] governance_step.promote [OF r4]])
  qed
  ultimately show ?thesis using art(2) by auto
qed

theorem champions_promoted_witness:
  "\<exists>g. champion_of ''fusion'' g \<noteq> None \<and> (\<exists>d \<in> set (mg_decisions g). dn_status d = ''PROMOTED'' \<and> list_all snd (dn_checks d))"
proof -
  obtain g ls where g: "governance_runs sample_env (\<lambda>_. []) lenient_governance empty_registry ls g" "set ls = {None}"
    "champion_of ''fusion'' g = Some (artifact_id_of sample_env sample_artifact)" using sample_promotion by blast
  then have "Some (''fusion'', ''CHAMPION'') \<notin> set ls" by simp
  from champions_promoted [OF g(1) this g(3)] g(3) show ?thesis by (intro exI [of _ g]) auto
qed


text \<open>An artifact whose hash is sent in another case has another id, and its family and version are taken.\<close>

lemma reregister_fails:
  assumes "map_of (mg_artifacts g) (artifact_id_of e b) = Some a" "mr_model_family a = ac_model_family b" "mr_model_version a = ac_model_version b"
    and "b' = b\<lparr>ac_artifact_hash := h\<rparr>" "valid_artifact b'" "map_of (mg_artifacts g) (artifact_id_of e b') = None"
  shows "register_model_artifact e now b' actor g = (Inl (Server_Error (IntegrityError ''uq_model_family_version'')), g)"
proof -
  have "a \<in> snd ` set (mg_artifacts g)" using map_of_SomeD [OF assms(1)] by force
  with assms show ?thesis unfolding register_model_artifact_def by auto
qed

end
