(* ===== verification/Evaluator.thy ===== *)
theory Evaluator
  imports Feature_Compute "HOL-Library.Product_Lexorder" "HOL-Library.List_Lexorder" "HOL-Library.Char_ord"
begin

text \<open>
  The evaluation of a replay (\<open>evaluation/service.py\<close>, \<open>evaluation/schemas.py\<close>): the score of every observation
  under a component profile, the metrics of a sequence of scores, the ablations over five growing
  profiles and the score of a shadow model. A dictionary of components is an association list whose
  values may be \<open>None\<close>. The identity \<open>uuid5\<close> draws is a function of the environment.
\<close>

section \<open>Schemas\<close>

type_synonym score_parts = "(string \<times> real option) list"

record score_observation =
  so_score_id :: uuid
  so_event_time :: datetime
  so_scored_at :: datetime
  so_severity :: string
  so_confidence :: real
  so_components :: score_parts
  so_missing_output_count :: nat
  so_data_freshness_seconds :: "real option"
  so_processing_latency_ms :: real

record evaluation_metrics =
  em_observation_count :: nat
  em_alert_count :: nat
  em_watch_or_higher_count :: nat
  em_first_watch_at :: "datetime option"
  em_first_high_at :: "datetime option"
  em_first_critical_at :: "datetime option"
  em_lead_time_seconds :: "real option"
  em_hard_negative_precision_proxy :: real
  em_false_positive_rate :: real
  em_mean_confidence :: real
  em_missing_output_rate :: real
  em_p50_latency_ms :: real
  em_p95_latency_ms :: real
  em_mean_data_freshness_seconds :: "real option"
  em_peak_score :: real

record ablation_result =
  ab_profile :: string
  ab_components :: "string list"
  ab_metrics :: evaluation_metrics
  ab_contribution_delta :: real

record replay_evaluation =
  re_evaluation_id :: uuid
  re_replay_session_id :: uuid
  re_evaluation_version :: string
  re_manifest_hash :: string
  re_metrics :: evaluation_metrics
  re_ablations :: "ablation_result list"
  re_generated_at :: datetime
  re_mlflow_run_id :: "string option"

text \<open>The \<open>Field\<close> constraints of \<open>ScoreObservation\<close>.\<close>

definition valid_observation :: "score_observation \<Rightarrow> bool" where
  "valid_observation o1 \<longleftrightarrow> unit_range (so_confidence o1) \<and> 0 \<le> so_processing_latency_ms o1 \<and>
     (case so_data_freshness_seconds o1 of None \<Rightarrow> True | Some v \<Rightarrow> 0 \<le> v)"

definition EVALUATION_VERSION :: string where
  "EVALUATION_VERSION = ''replay-evaluation-v1''"

definition ABLATION_PROFILES :: "(string \<times> string list) list" where
  "ABLATION_PROFILES =
    [(''MARKET_ONLY'', [''market_score'']),
     (''MARKET_SOCIAL'', [''market_score'', ''social_score'']),
     (''COORDINATION'', [''market_score'', ''social_score'', ''coordination_score'', ''temporal_score'']),
     (''GRAPH'', [''market_score'', ''social_score'', ''coordination_score'', ''temporal_score'', ''graph_score'']),
     (''VERIFICATION'', [''market_score'', ''social_score'', ''coordination_score'', ''temporal_score'', ''graph_score'',
       ''claim_risk'', ''legitimate_event_score''])]"

definition WEIGHTS :: "(string \<times> real) list" where
  "WEIGHTS = [(''market_score'', 40 / 100), (''social_score'', 10 / 100), (''coordination_score'', 18 / 100),
     (''temporal_score'', 10 / 100), (''graph_score'', 10 / 100), (''claim_risk'', 12 / 100)]"

section \<open>Scores\<close>

text \<open>\<open>components.get(name)\<close>: an absent key and a stored \<open>None\<close> read the same.\<close>

definition part_of :: "score_parts \<Rightarrow> string \<Rightarrow> real option" where
  "part_of cs k = Option.bind (map_of cs k) id"

definition add_weighted :: "score_parts \<Rightarrow> string list \<Rightarrow> string \<times> real \<Rightarrow> real \<times> real \<Rightarrow> real \<times> real" where
  "add_weighted cs selected = (\<lambda>(name, weight) (weighted_sum, available_weight). case part_of cs name of
       None \<Rightarrow> (weighted_sum, available_weight)
     | Some v \<Rightarrow> if name \<in> set selected then (weighted_sum + v * weight, available_weight + weight)
         else (weighted_sum, available_weight))"

definition selected_parts :: "string list option \<Rightarrow> string list" where
  "selected_parts allowed = (case allowed of Some (x # xs) \<Rightarrow> x # xs | _ \<Rightarrow> map fst WEIGHTS @ [''legitimate_event_score''])"

definition base_score :: "score_parts \<Rightarrow> string list \<Rightarrow> real" where
  "base_score cs selected = (let (weighted_sum, available_weight) = fold (add_weighted cs selected) WEIGHTS (0, 0)
     in if available_weight \<noteq> 0 then weighted_sum / available_weight else 0)"

definition profile_score :: "score_parts \<Rightarrow> string list option \<Rightarrow> real" where
  "profile_score cs allowed =
    (let selected = selected_parts allowed;
         score = base_score cs selected;
         score = (if ''legitimate_event_score'' \<in> set selected
           then score * (1 - 35 / 100 * or_zero (part_of cs ''legitimate_event_score'')) else score);
         score = (if or_zero (part_of cs ''market_score'') < 35 / 100 then min score (59 / 100) else score)
     in round_to 6 (max 0 (min 1 score)))"

definition severity_of_score :: "real \<Rightarrow> string" where
  "severity_of_score score = (if score \<ge> 8 / 10 then ''CRITICAL'' else if score \<ge> 6 / 10 then ''HIGH''
     else if score \<ge> 35 / 100 then ''WATCH'' else ''NORMAL'')"

definition shadow_fusion_score :: "score_parts \<Rightarrow> (string \<rightharpoonup> real) \<Rightarrow> real" where
  "shadow_fusion_score cs weights =
    (let present = [(name, v). (name, Some v) \<leftarrow> cs];
         weighted_sum = (\<Sum>(name, v)\<leftarrow>present. v * or_zero (weights name));
         available = (\<Sum>(name, v)\<leftarrow>present. or_zero (weights name))
     in round_to 6 (max 0 (min 1 (if available \<noteq> 0 then weighted_sum / available else 0))))"

section \<open>Metrics\<close>

definition first_time :: "score_observation list \<Rightarrow> string list \<Rightarrow> string list \<Rightarrow> datetime option" where
  "first_time obs severities accepted =
    map_option (\<lambda>(o1, _). so_event_time o1) (find (\<lambda>(_, s). s \<in> set accepted) (zip obs severities))"

definition percentile :: "real list \<Rightarrow> real \<Rightarrow> real" where
  "percentile vs fraction = (if vs = [] then 0
     else let index = min (length vs - 1) (nat (round_even (real (length vs - 1) * fraction))) in round_to 3 (vs ! index))"

text \<open>A mean over no observations is \<open>0.0\<close>.\<close>

definition mean_or_zero :: "real list \<Rightarrow> real" where
  "mean_or_zero vs = (if vs \<noteq> [] then fmean vs else 0)"

definition metrics_from :: "score_observation list \<Rightarrow> real list \<Rightarrow> datetime \<Rightarrow> evaluation_metrics" where
  "metrics_from obs scores positive_from =
    (let severities = map severity_of_score scores;
         first_watch = first_time obs severities [''WATCH'', ''HIGH'', ''CRITICAL''];
         predicted = map (\<lambda>s. s \<in> {''HIGH'', ''CRITICAL''}) severities;
         true_predictions = length (filter (\<lambda>(o1, p). p \<and> so_event_time o1 \<ge> positive_from) (zip obs predicted));
         positive_predictions = length (filter id predicted);
         negative_indices = filter (\<lambda>i. so_event_time (obs ! i) < positive_from) [0..<length obs];
         false_positives = length (filter (\<lambda>i. predicted ! i) negative_indices);
         latencies = sort (map so_processing_latency_ms obs);
         freshness = List.map_filter so_data_freshness_seconds obs
     in \<lparr>em_observation_count = length obs, em_alert_count = positive_predictions,
         em_watch_or_higher_count = length (filter (\<lambda>s. s \<noteq> ''NORMAL'') severities),
         em_first_watch_at = first_watch,
         em_first_high_at = first_time obs severities [''HIGH'', ''CRITICAL''],
         em_first_critical_at = first_time obs severities [''CRITICAL''],
         em_lead_time_seconds = map_option (\<lambda>t. total_seconds (positive_from - t)) first_watch,
         em_hard_negative_precision_proxy =
           round_to 6 (if positive_predictions \<noteq> 0 then real true_predictions / real positive_predictions else 1),
         em_false_positive_rate =
           round_to 6 (if negative_indices \<noteq> [] then real false_positives / real (length negative_indices) else 0),
         em_mean_confidence = round_to 6 (mean_or_zero (map so_confidence obs)),
         em_missing_output_rate = round_to 6 (mean_or_zero (map (\<lambda>o1. real (so_missing_output_count o1) / 7) obs)),
         em_p50_latency_ms = percentile latencies (50 / 100),
         em_p95_latency_ms = percentile latencies (95 / 100),
         em_mean_data_freshness_seconds = (if freshness \<noteq> [] then Some (round_to 6 (fmean freshness)) else None),
         em_peak_score = fold max scores (if scores = [] then 0 else hd scores)\<rparr>)"

section \<open>The evaluator\<close>

definition ordered_observations :: "score_observation list \<Rightarrow> score_observation list" where
  "ordered_observations = sort_key (\<lambda>o1. (so_event_time o1, so_score_id o1))"

definition profile_metrics :: "score_observation list \<Rightarrow> datetime \<Rightarrow> string list option \<Rightarrow> evaluation_metrics" where
  "profile_metrics ordered positive_from allowed =
    metrics_from ordered (map (\<lambda>o1. profile_score (so_components o1) allowed) ordered) positive_from"

fun ablate :: "score_observation list \<Rightarrow> datetime \<Rightarrow> real \<Rightarrow> (string \<times> string list) list \<Rightarrow> ablation_result list" where
  "ablate ordered positive_from previous_peak [] = []"
| "ablate ordered positive_from previous_peak ((profile, components) # rest) =
    (let m = profile_metrics ordered positive_from (Some components)
     in \<lparr>ab_profile = profile, ab_components = components, ab_metrics = m,
         ab_contribution_delta = round_to 6 (em_peak_score m - previous_peak)\<rparr>
        # ablate ordered positive_from (em_peak_score m) rest)"

definition evaluation_id_of :: "py_env \<Rightarrow> uuid \<Rightarrow> string \<Rightarrow> uuid" where
  "evaluation_id_of env replay_session_id manifest_hash =
    env_uuid5 env (''evaluation:'' @ replay_session_id @ '':'' @ EVALUATION_VERSION @ '':'' @ manifest_hash)"

definition evaluate_replay :: "py_env \<Rightarrow> uuid \<Rightarrow> string \<Rightarrow> score_observation list \<Rightarrow> datetime \<Rightarrow> datetime \<Rightarrow> replay_evaluation" where
  "evaluate_replay env replay_session_id manifest_hash observations positive_from generated_at =
    (let ordered = ordered_observations observations
     in \<lparr>re_evaluation_id = evaluation_id_of env replay_session_id manifest_hash,
         re_replay_session_id = replay_session_id, re_evaluation_version = EVALUATION_VERSION,
         re_manifest_hash = manifest_hash, re_metrics = profile_metrics ordered positive_from None,
         re_ablations = ablate ordered positive_from 0 ABLATION_PROFILES, re_generated_at = generated_at,
         re_mlflow_run_id = None\<rparr>)"

end
