(* ===== verification/Evaluator_Correct.thy ===== *)
theory Evaluator_Correct
  imports Evaluator "HOL-Library.Multiset"
begin

text \<open>
  What an evaluation promises: ranges and order of its metrics, no alert without market evidence, and
  an outcome that does not depend on the order of the observations.
\<close>

section \<open>Rounding\<close>

lemma round_even_mono: "x \<le> y \<Longrightarrow> round_even x \<le> round_even y"
proof -
  assume le: "x \<le> y"
  show ?thesis
  proof (cases "\<lfloor>x\<rfloor> = \<lfloor>y\<rfloor>")
    case True
    with le show ?thesis by (auto simp: round_even_def Let_def)
  next
    case False
    with floor_mono [OF le] have "\<lfloor>x\<rfloor> + 1 \<le> \<lfloor>y\<rfloor>" by simp
    moreover have "round_even x \<le> \<lfloor>x\<rfloor> + 1" by (rule round_even_le) (use real_of_int_floor_add_one_gt [of x] in simp)
    moreover have "\<lfloor>y\<rfloor> \<le> round_even y" by (rule round_even_ge) simp
    ultimately show ?thesis by simp
  qed
qed

lemma round_to_mono: "x \<le> y \<Longrightarrow> round_to n x \<le> round_to n y"
  using round_even_mono [of "x * 10 ^ n" "y * 10 ^ n"] by (simp add: round_to_def divide_right_mono)

lemma round_to_grid: "round_to n (of_int k / 10 ^ n) = of_int k / 10 ^ n"
  by (simp add: round_to_def round_even_def)

lemma round_to_round_to_diff: "round_to n (round_to n x - round_to n y) = round_to n x - round_to n y"
  using round_to_grid [of n "round_even (x * 10 ^ n) - round_even (y * 10 ^ n)"]
  by (simp add: round_to_def diff_divide_distrib)

lemma round_to_0 [simp]: "round_to n 0 = 0"
  using round_to_grid [of n 0] by simp

section \<open>Scores\<close>

lemma profile_score_unit: "unit_range (profile_score cs a)"
  unfolding profile_score_def Let_def by (rule round_to_unit) (simp add: unit_range_def)

lemma profile_score_grid: "\<exists>x. profile_score cs a = round_to 6 x"
  unfolding profile_score_def Let_def by blast

lemma severity_of_score_levels:
  "severity_of_score v = ''CRITICAL'' \<longleftrightarrow> 8 / 10 \<le> v"
  "severity_of_score v \<in> {''HIGH'', ''CRITICAL''} \<longleftrightarrow> 6 / 10 \<le> v"
  "severity_of_score v \<in> {''WATCH'', ''HIGH'', ''CRITICAL''} \<longleftrightarrow> 35 / 100 \<le> v"
  "severity_of_score v \<noteq> ''NORMAL'' \<longleftrightarrow> 35 / 100 \<le> v"
  by (simp_all add: severity_of_score_def)

definition market_evidence :: "score_observation \<Rightarrow> bool" where
  "market_evidence o1 \<longleftrightarrow> 35 / 100 \<le> or_zero (part_of (so_components o1) ''market_score'')"

lemma profile_score_capped:
  assumes "\<not> market_evidence o1"
  shows "profile_score (so_components o1) a < 6 / 10"
proof -
  have cap: "round_to 6 (max 0 (min 1 (min x (59 / 100)))) < 6 / 10" for x :: real
  proof -
    have "round_to 6 (max 0 (min 1 (min x (59 / 100)))) \<le> round_to 6 (of_int 590000 / 10 ^ 6)"
      by (rule round_to_mono) simp
    then show ?thesis unfolding round_to_grid by simp
  qed
  from assms show ?thesis unfolding profile_score_def market_evidence_def Let_def by (simp only: not_le if_True cap)
qed

section \<open>Metrics of a sequence of scores\<close>

lemma first_time_map:
  "first_time obs (map g obs) acc = map_option so_event_time (find (\<lambda>o1. g o1 \<in> set acc) obs)"
  by (induction obs) (simp_all add: first_time_def)

lemma find_sorted:
  assumes "find P xs = Some x" "sorted (map f xs)"
  shows "x \<in> set xs" "P x" "y \<in> set xs \<Longrightarrow> P y \<Longrightarrow> f x \<le> f y"
  using assms by (induction xs) (auto split: if_splits)

lemma zip_filter_map: "length (filter P (zip obs (map g obs))) = length (filter (\<lambda>o1. P (o1, g o1)) obs)"
  by (induction obs) simp_all

lemma ordered_sorted: "sorted (map so_event_time (ordered_observations obs))"
proof -
  have "sorted (map (\<lambda>o1. (so_event_time o1, so_score_id o1)) (ordered_observations obs))"
    by (simp add: ordered_observations_def)
  then have "sorted (map fst (map (\<lambda>o1. (so_event_time o1, so_score_id o1)) (ordered_observations obs)))"
    by (rule sorted_map_mono) (auto simp: mono_on_def less_eq_prod_def)
  then show ?thesis by (simp add: comp_def)
qed

lemma set_ordered [simp]: "set (ordered_observations obs) = set obs" "mset (ordered_observations obs) = mset obs"
  by (simp_all add: ordered_observations_def)

lemma length_filter_mset: "mset xs = mset ys \<Longrightarrow> length (filter P xs) = length (filter P ys)"
  by (metis mset_filter size_mset)

lemma ordered_counts [simp]: "length (filter P (ordered_observations obs)) = length (filter P obs)"
  "length (ordered_observations obs) = length obs"
  by (rule length_filter_mset, simp) (simp add: ordered_observations_def)

lemma length_filter_mono: "(\<And>x. P x \<Longrightarrow> Q x) \<Longrightarrow> length (filter P xs) \<le> length (filter Q xs)"
  by (induction xs) auto

lemma fraction_unit: "a \<le> b \<Longrightarrow> unit_range (if b \<noteq> 0 then real a / real b else 1)"
  by (simp add: unit_range_def divide_le_eq_1)

lemma percentile_mono:
  assumes "sorted vs" "0 \<le> p" "p \<le> q"
  shows "percentile vs p \<le> percentile vs q"
proof (cases "vs = []")
  case False
  let ?i = "\<lambda>f. min (length vs - 1) (nat (round_even (real (length vs - 1) * f)))"
  have "?i p \<le> ?i q" using assms(3) by (intro min.mono nat_mono round_even_mono mult_left_mono) simp_all
  moreover have "?i q < length vs" using False by (cases vs) auto
  ultimately have "vs ! ?i p \<le> vs ! ?i q" using assms(1) by (simp only: sorted_nth_mono)
  with False show ?thesis unfolding percentile_def Let_def by (simp only: if_False round_to_mono)
qed (simp add: percentile_def)

lemma percentile_member:
  assumes "vs \<noteq> []"
  shows "\<exists>v \<in> set vs. percentile vs p = round_to 3 v"
proof -
  let ?i = "min (length vs - 1) (nat (round_even (real (length vs - 1) * p)))"
  from assms have "?i < length vs" by (cases vs) auto
  then have "vs ! ?i \<in> set vs" by (rule nth_mem)
  with assms show ?thesis unfolding percentile_def Let_def by (simp only: if_False) blast
qed

lemma peak_ge: "fold max xs (a :: real) \<ge> a"
  by (induction xs arbitrary: a) (auto intro: order_trans [OF max.cobounded2])

lemma fold_max_mem: "fold max xs (a :: real) \<in> insert a (set xs)" and fold_max_bound: "x \<in> set xs \<Longrightarrow> x \<le> fold max xs (a :: real)"
proof (induction xs arbitrary: a)
  case (Cons y ys)
  { case 1
    from Cons(1) [of "max y a"] show ?case by (auto simp: max_def split: if_splits)
  next
    case 2
    then show ?case using Cons(2) peak_ge [of "max y a" ys] by auto }
qed simp_all

section \<open>Ablations\<close>

lemma ablate_metrics: "map ab_metrics (ablate obs pf prev ps) = map (\<lambda>(_, cs). profile_metrics obs pf (Some cs)) ps"
  by (induction obs pf prev ps rule: ablate.induct) (simp_all add: Let_def)

lemma profile_peak:
  "em_peak_score (profile_metrics obs pf a) =
    (if obs = [] then 0 else fold max (map (\<lambda>o1. profile_score (so_components o1) a) obs) (profile_score (so_components (hd obs)) a))"
  by (simp add: profile_metrics_def metrics_from_def Let_def hd_map)

lemma peak_grid: "\<exists>x. em_peak_score (profile_metrics obs pf a) = round_to 6 x"
proof (cases "obs = []")
  case True
  then show ?thesis by (intro exI [of _ 0]) (simp add: profile_peak)
next
  case False
  let ?f = "\<lambda>o1 :: score_observation. profile_score (so_components o1) a"
  obtain v where v: "fold max (map ?f obs) (?f (hd obs)) = v" "v \<in> insert (?f (hd obs)) (?f ` set obs)"
    using fold_max_mem [of "map ?f obs" "?f (hd obs)"] by simp
  from v(2) profile_score_grid have "\<exists>x. v = round_to 6 x" by (elim insertE imageE) simp_all
  with False v(1) show ?thesis by (simp add: profile_peak)
qed

lemma delta_exact: "round_to 6 (em_peak_score (profile_metrics obs pf a) - round_to 6 x) = em_peak_score (profile_metrics obs pf a) - round_to 6 x"
  using peak_grid [of obs pf a] by (auto simp: round_to_round_to_diff)

lemma ablate_telescopes:
  assumes "prev = round_to 6 x" "ps \<noteq> []"
  shows "prev + (\<Sum>r\<leftarrow>ablate obs pf prev ps. ab_contribution_delta r) = em_peak_score (ab_metrics (last (ablate obs pf prev ps)))"
  using assms
proof (induction ps arbitrary: prev x)
  case (Cons p ps)
  obtain n cs where p: "p = (n, cs)" by (cases p)
  let ?peak = "em_peak_score (profile_metrics obs pf (Some cs))"
  obtain y where y: "?peak = round_to 6 y" using peak_grid by blast
  have delta: "round_to 6 (?peak - prev) = ?peak - prev" using delta_exact Cons.prems(1) by simp
  show ?case
  proof (cases ps)
    case Nil
    with p delta show ?thesis by (simp add: Let_def)
  next
    case (Cons q qs)
    then have ne: "ablate obs pf ?peak ps \<noteq> []" by (cases q) (simp add: Let_def)
    from Cons.IH [OF y] Cons have "?peak + (\<Sum>r\<leftarrow>ablate obs pf ?peak ps. ab_contribution_delta r) =
        em_peak_score (ab_metrics (last (ablate obs pf ?peak ps)))" by blast
    with p delta ne show ?thesis by (simp add: Let_def)
  qed
qed simp


section \<open>The metrics of a profile\<close>

abbreviation profile_of :: "string list option \<Rightarrow> score_observation \<Rightarrow> real" where
  "profile_of a o1 \<equiv> profile_score (so_components o1) a"

lemma level_counts:
  "em_observation_count (profile_metrics obs pf a) = length obs"
  "em_alert_count (profile_metrics obs pf a) = length (filter (\<lambda>o1. 6 / 10 \<le> profile_of a o1) obs)"
  "em_watch_or_higher_count (profile_metrics obs pf a) = length (filter (\<lambda>o1. 35 / 100 \<le> profile_of a o1) obs)"
  by (simp_all add: profile_metrics_def metrics_from_def Let_def filter_map comp_def severity_of_score_levels
      del: insert_iff)

lemma level_times:
  "em_first_watch_at (profile_metrics obs pf a) = map_option so_event_time (find (\<lambda>o1. 35 / 100 \<le> profile_of a o1) obs)"
  "em_first_high_at (profile_metrics obs pf a) = map_option so_event_time (find (\<lambda>o1. 6 / 10 \<le> profile_of a o1) obs)"
  "em_first_critical_at (profile_metrics obs pf a) = map_option so_event_time (find (\<lambda>o1. 8 / 10 \<le> profile_of a o1) obs)"
  by (simp_all add: profile_metrics_def metrics_from_def Let_def first_time_map severity_of_score_levels comp_def
      del: insert_iff)
    (simp add: severity_of_score_levels)

lemma first_level_mono:
  assumes "sorted (map so_event_time obs)" "\<And>o1. Q o1 \<Longrightarrow> P o1" "map_option so_event_time (find Q obs) = Some t"
  shows "\<exists>t' \<le> t. map_option so_event_time (find P obs) = Some t'"
proof -
  from assms(3) obtain q where q: "find Q obs = Some q" "t = so_event_time q" by auto
  note q' = find_sorted [OF q(1) assms(1)]
  then obtain p where p: "find P obs = Some p" using assms(2) by (cases "find P obs") (auto simp: find_None_iff)
  from find_sorted(3) [OF p assms(1) q'(1)] q'(2) assms(2) q(2) p show ?thesis by auto
qed

lemma total_seconds_pos: "0 < total_seconds d \<longleftrightarrow> 0 < d"
  by (simp add: total_seconds_def)

lemma lead_time_positive:
  assumes "sorted (map so_event_time obs)"
  shows "(\<exists>l > 0. em_lead_time_seconds (profile_metrics obs pf a) = Some l) \<longleftrightarrow>
    (\<exists>o1 \<in> set obs. so_event_time o1 < pf \<and> 35 / 100 \<le> profile_of a o1)"
proof -
  let ?P = "\<lambda>o1 :: score_observation. 35 / 100 \<le> profile_of a o1"
  have "em_lead_time_seconds (profile_metrics obs pf a) =
      map_option (\<lambda>t. total_seconds (pf - t)) (em_first_watch_at (profile_metrics obs pf a))"
    by (simp add: profile_metrics_def metrics_from_def Let_def)
  then have lead: "em_lead_time_seconds (profile_metrics obs pf a) = map_option (\<lambda>o1. total_seconds (pf - so_event_time o1)) (find ?P obs)"
    by (simp add: level_times comp_def option.map_comp)
  show ?thesis
  proof (cases "find ?P obs")
    case None
    with lead have "em_lead_time_seconds (profile_metrics obs pf a) = None" by simp
    with None show ?thesis by (simp add: find_None_iff del: not_le)
  next
    case (Some o1)
    note first = find_sorted [OF Some assms]
    have "(\<exists>l > 0. em_lead_time_seconds (profile_metrics obs pf a) = Some l) \<longleftrightarrow> so_event_time o1 < pf"
      unfolding lead Some by (simp add: total_seconds_pos)
    also have "\<dots> \<longleftrightarrow> (\<exists>o1 \<in> set obs. so_event_time o1 < pf \<and> ?P o1)" using first by (meson order_le_less_trans)
    finally show ?thesis .
  qed
qed

lemma fmean_unit: "list_all unit_range vs \<Longrightarrow> vs \<noteq> [] \<Longrightarrow> unit_range (fmean vs)"
proof -
  assume "list_all unit_range vs" "vs \<noteq> []"
  moreover from this(1) have "0 \<le> sum_list vs \<and> sum_list vs \<le> real (length vs)"
    by (induction vs) (auto simp: unit_range_def)
  ultimately show ?thesis by (simp add: fmean_def unit_range_def divide_le_eq_1)
qed

lemma mean_or_zero_unit: "list_all unit_range vs \<Longrightarrow> unit_range (mean_or_zero vs)"
  by (simp add: mean_or_zero_def fmean_unit)

lemma rates_unit:
  assumes "list_all valid_observation obs"
  shows "unit_range (em_hard_negative_precision_proxy (profile_metrics obs pf a))"
    "unit_range (em_false_positive_rate (profile_metrics obs pf a))"
    "unit_range (em_mean_confidence (profile_metrics obs pf a))"
    "unit_range (em_peak_score (profile_metrics obs pf a))"
proof -
  let ?high = "\<lambda>o1. severity_of_score (profile_of a o1) \<in> {''HIGH'', ''CRITICAL''}"
  have le: "length (filter (\<lambda>(o1, p). p \<and> pf \<le> so_event_time o1) (zip obs (map ?high obs))) \<le> length (filter id (map ?high obs))"
    by (simp add: zip_filter_map filter_map comp_def del: insert_iff) (rule length_filter_mono, simp)
  show "unit_range (em_hard_negative_precision_proxy (profile_metrics obs pf a))"
    using round_to_unit [OF fraction_unit [OF le], of 6]
    by (simp only: profile_metrics_def metrics_from_def Let_def evaluation_metrics.simps map_map comp_def)
  have "unit_range (if ns \<noteq> [] then real (length (filter P ns)) / real (length ns) else 0)" for ns :: "nat list" and P
    by (simp add: unit_range_def divide_le_eq_1)
  then show "unit_range (em_false_positive_rate (profile_metrics obs pf a))"
    by (simp only: profile_metrics_def metrics_from_def Let_def evaluation_metrics.simps round_to_unit)
  have "list_all unit_range (map so_confidence obs)" using assms by (auto simp: list_all_iff valid_observation_def)
  from round_to_unit [OF mean_or_zero_unit [OF this]] show "unit_range (em_mean_confidence (profile_metrics obs pf a))"
    by (simp only: profile_metrics_def metrics_from_def Let_def evaluation_metrics.simps)
  show "unit_range (em_peak_score (profile_metrics obs pf a))"
    using fold_max_mem [of "map (profile_of a) obs" "profile_of a (hd obs)"]
    by (auto simp: profile_peak profile_score_unit)
qed

lemma latencies_ordered:
  assumes "list_all valid_observation obs"
  shows "0 \<le> em_p50_latency_ms (profile_metrics obs pf a)"
    "em_p50_latency_ms (profile_metrics obs pf a) \<le> em_p95_latency_ms (profile_metrics obs pf a)"
proof -
  let ?ls = "sort (map so_processing_latency_ms obs)"
  have m: "em_p50_latency_ms (profile_metrics obs pf a) = percentile ?ls (50 / 100)"
    "em_p95_latency_ms (profile_metrics obs pf a) = percentile ?ls (95 / 100)"
    by (simp_all only: profile_metrics_def metrics_from_def Let_def evaluation_metrics.simps)
  have "0 \<le> v" if "v \<in> set ?ls" for v using that assms by (auto simp: list_all_iff valid_observation_def)
  then show "0 \<le> em_p50_latency_ms (profile_metrics obs pf a)"
    using percentile_member [of ?ls "50 / 100"] round_to_nonneg by (cases "?ls = []") (auto simp: m percentile_def)
  show "em_p50_latency_ms (profile_metrics obs pf a) \<le> em_p95_latency_ms (profile_metrics obs pf a)"
    unfolding m by (rule percentile_mono) simp_all
qed


section \<open>Properties\<close>

text \<open>The observations whose order a sort decides: no two share the time and the score id.\<close>

definition distinct_observations :: "score_observation list \<Rightarrow> bool" where
  "distinct_observations obs \<longleftrightarrow> distinct (map (\<lambda>o1. (so_event_time o1, so_score_id o1)) obs)"

lemma ordered_unique:
  assumes "mset obs = mset obs'" "distinct_observations obs"
  shows "ordered_observations obs = ordered_observations obs'"
  unfolding ordered_observations_def using assms
  by (intro sort_key_inj_key_eq) (simp_all add: distinct_observations_def distinct_map)

lemma verification_selects_all: "set (selected_parts None) = set (selected_parts (Some (snd (last ABLATION_PROFILES))))"
  by (simp add: selected_parts_def ABLATION_PROFILES_def WEIGHTS_def insert_commute)

lemma profile_score_selected:
  assumes "set (selected_parts a) = set (selected_parts b)"
  shows "profile_score cs a = profile_score cs b"
proof -
  have "add_weighted cs (selected_parts a) = add_weighted cs (selected_parts b)"
    unfolding add_weighted_def assms ..
  then have "base_score cs (selected_parts a) = base_score cs (selected_parts b)" by (simp only: base_score_def)
  then show ?thesis unfolding profile_score_def Let_def assms by (simp only:)
qed

text \<open>C13. The metrics of a replay are in order under every component profile. WATCH is reached no later than
  HIGH and HIGH no later than CRITICAL, the counts nest, the rates and the peak lie in the unit interval, the
  95th percentile of the latencies is not below the median, and the lead time is positive exactly when some observation before
  the anomaly scores WATCH. An alert needs market evidence: there are at most as many alerts as observations
  with a market score of 0.35, and HIGH is first reached at one of them.\<close>

theorem evaluation_sound:
  assumes "list_all valid_observation obs" "m = profile_metrics (ordered_observations obs) pf a"
  shows "(\<forall>t. em_first_critical_at m = Some t \<longrightarrow> (\<exists>t' \<le> t. em_first_high_at m = Some t')) \<and>
    (\<forall>t. em_first_high_at m = Some t \<longrightarrow> (\<exists>t' \<le> t. em_first_watch_at m = Some t')) \<and>
    em_alert_count m \<le> em_watch_or_higher_count m \<and> em_watch_or_higher_count m \<le> length obs \<and>
    unit_range (em_hard_negative_precision_proxy m) \<and> unit_range (em_false_positive_rate m) \<and>
    unit_range (em_mean_confidence m) \<and> unit_range (em_peak_score m) \<and>
    0 \<le> em_p50_latency_ms m \<and> em_p50_latency_ms m \<le> em_p95_latency_ms m \<and>
    ((\<exists>l > 0. em_lead_time_seconds m = Some l) \<longleftrightarrow>
      (\<exists>o1 \<in> set obs. so_event_time o1 < pf \<and> 35 / 100 \<le> profile_score (so_components o1) a)) \<and>
    em_alert_count m \<le> length (filter market_evidence obs) \<and>
    (\<forall>t. em_first_high_at m = Some t \<longrightarrow> (\<exists>o1 \<in> set obs. market_evidence o1 \<and> so_event_time o1 = t))"
proof -
  let ?os = "ordered_observations obs"
  have valid: "list_all valid_observation ?os" using assms(1) by (simp add: list_all_iff)
  have times: "(\<forall>t. em_first_critical_at m = Some t \<longrightarrow> (\<exists>t' \<le> t. em_first_high_at m = Some t'))"
    "(\<forall>t. em_first_high_at m = Some t \<longrightarrow> (\<exists>t' \<le> t. em_first_watch_at m = Some t'))"
    unfolding assms(2) level_times by (intro allI impI first_level_mono [OF ordered_sorted]; simp)+
  have evident: "market_evidence o1" if "6 / 10 \<le> profile_score (so_components o1) a" for o1
    using profile_score_capped [of o1 a] that by (meson not_le)
  then have counts: "em_alert_count m \<le> em_watch_or_higher_count m" "em_watch_or_higher_count m \<le> length obs"
    "em_alert_count m \<le> length (filter market_evidence obs)"
    unfolding assms(2) level_counts ordered_counts by (simp_all add: length_filter_mono del: not_le) (rule length_filter_mono, simp)
  have first: "\<exists>o1 \<in> set obs. market_evidence o1 \<and> so_event_time o1 = t" if high: "em_first_high_at m = Some t" for t
  proof -
    from high obtain o1 where o1: "find (\<lambda>o1. 6 / 10 \<le> profile_of a o1) ?os = Some o1" "t = so_event_time o1"
      by (auto simp: assms(2) level_times)
    from find_sorted(1,2) [OF o1(1) ordered_sorted] show ?thesis using evident o1(2) by auto
  qed
  from times counts first show ?thesis
    using rates_unit [OF valid, of pf a] latencies_ordered [OF valid, of pf a] lead_time_positive [OF ordered_sorted, of obs pf a]
    unfolding assms(2) by (simp only: set_ordered simp_thms) blast
qed

definition sample_observations :: "score_observation list" where
  "sample_observations =
    [\<lparr>so_score_id = ''b'', so_event_time = 20, so_scored_at = 21, so_severity = ''HIGH'', so_confidence = 9 / 10,
       so_components = [(''market_score'', Some (9 / 10)), (''social_score'', Some (7 / 10))], so_missing_output_count = 1,
       so_data_freshness_seconds = Some 2, so_processing_latency_ms = 5\<rparr>,
     \<lparr>so_score_id = ''a'', so_event_time = 10, so_scored_at = 11, so_severity = ''WATCH'', so_confidence = 8 / 10,
       so_components = [(''market_score'', Some (1 / 10)), (''social_score'', Some 1)], so_missing_output_count = 2,
       so_data_freshness_seconds = None, so_processing_latency_ms = 7\<rparr>]"

lemma sample_observations_ok: "list_all valid_observation sample_observations" "distinct_observations sample_observations"
  by (simp_all add: sample_observations_def valid_observation_def unit_range_def distinct_observations_def)

theorem evaluation_sound_witness:
  "em_alert_count (profile_metrics (ordered_observations sample_observations) 15 None) \<le> length (filter market_evidence sample_observations)"
  using evaluation_sound [OF sample_observations_ok(1) refl, of 15 None] by (elim conjE)

text \<open>C34. An evaluation does not depend on the order in which the observations are read, as long as no two share
  their time and id. The metrics of the whole replay are those of the last ablation, and the contributions of the
  ablations sum exactly to the peak score of the replay.\<close>

theorem evaluation_canonical:
  assumes "mset obs = mset obs'" "distinct_observations obs"
  shows "evaluate_replay env rid h obs pf now = evaluate_replay env rid h obs' pf now \<and>
    re_metrics (evaluate_replay env rid h obs pf now) = ab_metrics (last (re_ablations (evaluate_replay env rid h obs pf now))) \<and>
    (\<Sum>r\<leftarrow>re_ablations (evaluate_replay env rid h obs pf now). ab_contribution_delta r) =
      em_peak_score (re_metrics (evaluate_replay env rid h obs pf now))"
proof -
  let ?os = "ordered_observations obs" and ?abl = "ablate (ordered_observations obs) pf 0 ABLATION_PROFILES"
  have ne: "ABLATION_PROFILES \<noteq> []" by (simp add: ABLATION_PROFILES_def)
  then have "?abl \<noteq> []" using ablate_metrics [of ?os pf 0 ABLATION_PROFILES] by (metis map_is_Nil_conv)
  then have "ab_metrics (last ?abl) = last (map ab_metrics ?abl)" by (simp add: last_map)
  also have "\<dots> = profile_metrics ?os pf (Some (snd (last ABLATION_PROFILES)))"
    unfolding ablate_metrics using ne by (simp add: last_map case_prod_unfold)
  also have "\<dots> = profile_metrics ?os pf None"
    unfolding profile_metrics_def by (simp only: profile_score_selected [OF verification_selects_all])
  finally have last: "ab_metrics (last ?abl) = profile_metrics ?os pf None" .
  have sum: "(\<Sum>r\<leftarrow>?abl. ab_contribution_delta r) = em_peak_score (ab_metrics (last ?abl))"
    using ablate_telescopes [OF _ ne, of 0 0 ?os pf] by simp
  show ?thesis
    using last sum ordered_unique [OF assms] by (simp add: evaluate_replay_def Let_def)
qed

theorem evaluation_canonical_witness:
  "evaluate_replay sample_env ''r'' ''h'' sample_observations 15 30 = evaluate_replay sample_env ''r'' ''h'' (rev sample_observations) 15 30"
  using evaluation_canonical [of sample_observations "rev sample_observations" sample_env "''r''" "''h''" 15 30]
    sample_observations_ok(2) by (simp only: mset_rev simp_thms)

end
