(* ===== verification/Evaluation_Store.thy ===== *)
theory Evaluation_Store
  imports Model_Registry Replays_Correct Evaluator_Correct
begin

text \<open>
  Stored evaluations and shadow scores (\<open>evaluation/repository.py\<close> and their routes in \<open>api/routes/evaluation.py\<close>). The tables a
  transaction reads and writes are the fields of one record; rows that only joins and sums of the code read carry
  only the columns it reads. The metrics of a row are kept as values, the JSON between them is the identity.
\<close>

section \<open>Rows\<close>

record score_row =
  mo_model_score_id :: uuid
  mo_feature_window_id :: uuid
  mo_feature_revision :: int
  mo_fusion_revision :: int
  mo_evidence_cutoff :: datetime
  mo_scored_at :: datetime
  mo_severity :: string
  mo_confidence :: real
  mo_market_score :: "real option"
  mo_social_score :: "real option"
  mo_coordination_score :: "real option"
  mo_temporal_score :: "real option"
  mo_claim_risk :: "real option"
  mo_legitimate_event_score :: "real option"
  mo_graph_score :: "real option"
  mo_missing_outputs :: "string list"

record stored_revision =
  vr_features :: "string \<rightharpoonup> real"
  vr_created_at :: datetime

record evaluation_row =
  er_evaluation_id :: uuid
  er_replay_session_id :: uuid
  er_evaluation_version :: string
  er_status :: string
  er_manifest_hash :: string
  er_metrics :: evaluation_metrics
  er_generated_at :: datetime
  er_mlflow_run_id :: "string option"

record ablation_row =
  ar_ablation_result_id :: uuid
  ar_evaluation_id :: uuid
  ar_result :: ablation_result
  ar_generated_at :: datetime

record shadow_row =
  sh_shadow_score_id :: uuid
  sh_replay_session_id :: "uuid option"
  sh_feature_window_id :: uuid
  sh_feature_revision :: int
  sh_model_artifact_id :: uuid
  sh_champion_model_score_id :: uuid
  sh_score :: real
  sh_severity :: string
  sh_confidence :: real
  sh_controls_alerts :: bool
  sh_agreement :: bool
  sh_latency_ms :: real
  sh_scored_at :: datetime

record evaluation_db =
  ed_windows :: "uuid \<rightharpoonup> string"
  ed_revisions :: "uuid \<times> int \<rightharpoonup> stored_revision"
  ed_scores :: "score_row list"
  ed_evaluations :: "evaluation_row list"
  ed_ablations :: "ablation_row list"
  ed_shadows :: "shadow_row list"

text \<open>What a method of the repository raises: the routes tell the subclasses of \<open>LookupError\<close> and of \<open>ValueError\<close> apart
  from other exceptions.\<close>

datatype repository_error = Lookup_Error string | Value_Error string | Unexpected

fun repository_answer :: "repository_error + 'a \<Rightarrow> 'a answer" where
  "repository_answer (Inr x) = Inr x"
| "repository_answer (Inl (Lookup_Error s)) = Inl (Http 404 s)"
| "repository_answer (Inl (Value_Error s)) = Inl (Http 409 s)"
| "repository_answer (Inl Unexpected) = Inl (Server_Error (RuntimeError ''unhandled''))"

section \<open>Evaluations\<close>

text \<open>\<open>_components\<close>.\<close>

definition components_of :: "score_row \<Rightarrow> score_parts" where
  "components_of s = [(''market_score'', mo_market_score s), (''social_score'', mo_social_score s), (''coordination_score'', mo_coordination_score s),
     (''temporal_score'', mo_temporal_score s), (''claim_risk'', mo_claim_risk s), (''legitimate_event_score'', mo_legitimate_event_score s),
     (''graph_score'', mo_graph_score s)]"

definition score_observation_of :: "score_row \<times> stored_revision \<Rightarrow> score_observation" where
  "score_observation_of = (\<lambda>(s, v). let freshness = List.map_filter id [vr_features v ''market_data_freshness_seconds'', vr_features v ''social_data_freshness_seconds'']
     in \<lparr>so_score_id = mo_model_score_id s, so_event_time = mo_evidence_cutoff s, so_scored_at = mo_scored_at s, so_severity = mo_severity s,
         so_confidence = mo_confidence s, so_components = components_of s, so_missing_output_count = length (mo_missing_outputs s),
         so_data_freshness_seconds = (if freshness \<noteq> [] then Some (fmean freshness) else None),
         so_processing_latency_ms = max 0 (total_seconds (mo_scored_at s - vr_created_at v) * 1000)\<rparr>)"

definition scored_revisions :: "string \<Rightarrow> evaluation_db \<Rightarrow> (score_row \<times> stored_revision) list" where
  "scored_revisions scope db = sort_key (\<lambda>(s, _). (mo_evidence_cutoff s, mo_fusion_revision s))
     [(s, v). s \<leftarrow> ed_scores db, ed_windows db (mo_feature_window_id s) = Some scope,
        v \<leftarrow> (case ed_revisions db (mo_feature_window_id s, mo_feature_revision s) of None \<Rightarrow> [] | Some v \<Rightarrow> [v])]"

text \<open>\<open>_load\<close>: the ablations come back ordered by time and profile.\<close>

definition load_evaluation :: "evaluation_row \<Rightarrow> evaluation_db \<Rightarrow> replay_evaluation" where
  "load_evaluation r db = \<lparr>re_evaluation_id = er_evaluation_id r, re_replay_session_id = er_replay_session_id r,
     re_evaluation_version = er_evaluation_version r, re_manifest_hash = er_manifest_hash r, re_metrics = er_metrics r,
     re_ablations = map ar_result (sort_key (\<lambda>a. (ar_generated_at a, ab_profile (ar_result a)))
       (filter (\<lambda>a. ar_evaluation_id a = er_evaluation_id r) (ed_ablations db))),
     re_generated_at = er_generated_at r, re_mlflow_run_id = er_mlflow_run_id r\<rparr>"

definition existing_evaluation :: "uuid \<Rightarrow> evaluation_db \<Rightarrow> evaluation_row option" where
  "existing_evaluation i db = find (\<lambda>r. er_replay_session_id r = i \<and> er_evaluation_version r = EVALUATION_VERSION) (ed_evaluations db)"

definition evaluation_row_of :: "replay_evaluation \<Rightarrow> evaluation_row" where
  "evaluation_row_of ev = \<lparr>er_evaluation_id = re_evaluation_id ev, er_replay_session_id = re_replay_session_id ev,
     er_evaluation_version = re_evaluation_version ev, er_status = ''COMPLETED'', er_manifest_hash = re_manifest_hash ev,
     er_metrics = re_metrics ev, er_generated_at = re_generated_at ev, er_mlflow_run_id = None\<rparr>"

definition ablation_rows_of :: "'a py_env_scheme \<Rightarrow> replay_evaluation \<Rightarrow> ablation_row list" where
  "ablation_rows_of e ev = map (\<lambda>a. \<lparr>ar_ablation_result_id = env_uuid5 e (''ablation:'' @ re_evaluation_id ev @ '':'' @ ab_profile a),
     ar_evaluation_id = re_evaluation_id ev, ar_result = a, ar_generated_at = re_generated_at ev\<rparr>) (re_ablations ev)"

definition store_evaluation :: "'a py_env_scheme \<Rightarrow> replay_evaluation \<Rightarrow> evaluation_db \<Rightarrow> evaluation_db" where
  "store_evaluation e ev db = db\<lparr>ed_evaluations := ed_evaluations db @ [evaluation_row_of ev],
     ed_ablations := ed_ablations db @ ablation_rows_of e ev\<rparr>"

text \<open>The anomaly the lead time is counted from is \<open>scenario.timeline["expected_volume_anomaly"]\<close>; the rows that do not make a
  \<open>ScoreObservation\<close> raise a \<open>ValidationError\<close>, a \<open>ValueError\<close>.\<close>

definition evaluate_stored ::
    "py_env \<Rightarrow> manifest_files \<Rightarrow> datetime \<Rightarrow> uuid \<Rightarrow> replay_db \<Rightarrow> evaluation_db \<Rightarrow> (repository_error + replay_evaluation) \<times> evaluation_db" where
  "evaluate_stored e files now i rdb db = (case map_of (rd_replays rdb) i of
       None \<Rightarrow> (Inl (Lookup_Error (''replay '' @ i @ '' not found'')), db)
     | Some replay \<Rightarrow> (case existing_evaluation i db of Some r \<Rightarrow> (Inr (load_evaluation r db), db)
       | None \<Rightarrow> (let rows = scored_revisions (rs_scope_id replay) db; obs = map score_observation_of rows
           in if rows = [] then (Inl (Value_Error ''replay has no model scores to evaluate''), db)
              else if \<not> list_all valid_observation obs then (Inl (Value_Error ''validation''), db)
              else case load_scenario_manifest files (rs_dataset_id replay) of
                Loaded m \<Rightarrow> (case map_of (sm_timeline m) ''expected_volume_anomaly'' of
                    None \<Rightarrow> (Inl (Lookup_Error ''expected_volume_anomaly''), db)
                  | Some positive_from \<Rightarrow> (let ev = evaluate_replay e i (rs_manifest_hash replay) obs positive_from now
                      in if re_evaluation_id ev \<in> er_evaluation_id ` set (ed_evaluations db) then (Inl Unexpected, db)
                         else (Inr ev, store_evaluation e ev db)))
              | _ \<Rightarrow> (Inl Unexpected, db))))"

definition set_mlflow_run :: "uuid \<Rightarrow> string \<Rightarrow> evaluation_db \<Rightarrow> evaluation_db" where
  "set_mlflow_run evaluation run db = db\<lparr>ed_evaluations :=
     map (\<lambda>r. if er_evaluation_id r = evaluation then r\<lparr>er_mlflow_run_id := Some run\<rparr> else r) (ed_evaluations db)\<rparr>"

text \<open>The route; \<open>tracker\<close> is the answer of the MLflow client when tracking is enabled.\<close>

definition evaluate_replay_route ::
    "py_env \<Rightarrow> (replay_evaluation \<Rightarrow> string option) option \<Rightarrow> manifest_files \<Rightarrow> datetime \<Rightarrow> uuid \<Rightarrow> replay_db \<Rightarrow> evaluation_db
      \<Rightarrow> replay_evaluation answer \<times> evaluation_db" where
  "evaluate_replay_route e tracker files now i rdb db = (case evaluate_stored e files now i rdb db of
       (Inl x, db') \<Rightarrow> (repository_answer (Inl x), db')
     | (Inr ev, db') \<Rightarrow> (case (tracker, re_mlflow_run_id ev) of
         (Some log_evaluation, None) \<Rightarrow> (case log_evaluation ev of None \<Rightarrow> (Inr ev, db')
           | Some run \<Rightarrow> (Inr (ev\<lparr>re_mlflow_run_id := Some run\<rparr>), set_mlflow_run (re_evaluation_id ev) run db'))
       | _ \<Rightarrow> (Inr ev, db')))"

section \<open>Shadow scores\<close>

text \<open>\<open>{str(name): float(value)}\<close>.\<close>

fun parse_weights :: "'a json_env_scheme \<Rightarrow> payload \<Rightarrow> (string \<times> real) list res" where
  "parse_weights e [] = Inr []"
| "parse_weights e ((k, v) # kvs) = (case py_float e v of Inl x \<Rightarrow> Inl x
     | Inr r \<Rightarrow> (case parse_weights e kvs of Inl x \<Rightarrow> Inl x | Inr ws \<Rightarrow> Inr ((k, r) # ws)))"

definition shadow_weights :: "'a json_env_scheme \<Rightarrow> artifact_row \<Rightarrow> (string \<times> real) list res" where
  "shadow_weights e a = (case map_of (mr_metadata a) ''weights'' of
     Some (PDict (kv # kvs)) \<Rightarrow> parse_weights e (kv # kvs) | _ \<Rightarrow> Inr WEIGHTS)"

definition champion_score :: "uuid \<Rightarrow> int \<Rightarrow> evaluation_db \<Rightarrow> score_row option" where
  "champion_score window revision db = latest_by mo_fusion_revision
     (filter (\<lambda>s. mo_feature_window_id s = window \<and> mo_feature_revision s = revision) (ed_scores db))"

text \<open>\<open>as_uuid\<close> is \<open>UUID(scope)\<close>, where it does not raise.\<close>

definition shadow_replay :: "(string \<Rightarrow> uuid option) \<Rightarrow> string option \<Rightarrow> uuid option" where
  "shadow_replay as_uuid scope = (case scope of None \<Rightarrow> None | Some s \<Rightarrow> if s \<noteq> ''LIVE'' then as_uuid s else None)"

definition shadow_score ::
    "'a json_env_scheme \<Rightarrow> (string \<Rightarrow> uuid option) \<Rightarrow> datetime \<Rightarrow> uuid \<Rightarrow> uuid \<Rightarrow> int \<Rightarrow> real \<Rightarrow> model_registry \<Rightarrow> evaluation_db
      \<Rightarrow> (repository_error + shadow_row) \<times> evaluation_db" where
  "shadow_score e as_uuid now artifact window revision latency g db = (case map_of (mg_artifacts g) artifact of
       None \<Rightarrow> (Inl (Lookup_Error (''model artifact '' @ artifact @ '' not found'')), db)
     | Some a \<Rightarrow> (if ed_revisions db (window, revision) = None then (Inl (Lookup_Error ''feature revision not found''), db)
       else case champion_score window revision db of None \<Rightarrow> (Inl (Value_Error ''champion score is required for shadow comparison''), db)
       | Some champion \<Rightarrow> (case find (\<lambda>r. sh_feature_window_id r = window \<and> sh_feature_revision r = revision \<and> sh_model_artifact_id r = artifact) (ed_shadows db) of
           Some r \<Rightarrow> (Inr r, db)
         | None \<Rightarrow> (case shadow_weights e a of Inl (ValueError s) \<Rightarrow> (Inl (Value_Error s), db) | Inl _ \<Rightarrow> (Inl Unexpected, db)
           | Inr weights \<Rightarrow> (let score = shadow_fusion_score (components_of champion) (map_of weights);
                 r = \<lparr>sh_shadow_score_id = env_uuid5 e (''shadow:'' @ window @ '':'' @ show_int revision @ '':'' @ artifact),
                   sh_replay_session_id = shadow_replay as_uuid (ed_windows db window), sh_feature_window_id = window,
                   sh_feature_revision = revision, sh_model_artifact_id = artifact, sh_champion_model_score_id = mo_model_score_id champion,
                   sh_score = score, sh_severity = severity_of_score score,
                   sh_confidence = max 0 (min 1 (mo_confidence champion * (1 - real (length (mo_missing_outputs champion)) / 7))),
                   sh_controls_alerts = False, sh_agreement = (severity_of_score score = mo_severity champion), sh_latency_ms = latency, sh_scored_at = now\<rparr>
               in (Inr r, db\<lparr>ed_shadows := ed_shadows db @ [r]\<rparr>))))))"

definition run_shadow_score ::
    "'a json_env_scheme \<Rightarrow> (string \<Rightarrow> uuid option) \<Rightarrow> datetime \<Rightarrow> uuid \<Rightarrow> uuid \<Rightarrow> int \<Rightarrow> real \<Rightarrow> model_registry \<Rightarrow> evaluation_db
      \<Rightarrow> shadow_row answer \<times> evaluation_db" where
  "run_shadow_score e as_uuid now artifact window revision latency g db =
    (if \<not> (1 \<le> revision \<and> 0 \<le> latency) then (Inl (Http 422 ''validation''), db)
     else case shadow_score e as_uuid now artifact window revision latency g db of (r, db') \<Rightarrow> (repository_answer r, db'))"

section \<open>Facts\<close>

text \<open>Shadow scores lie in the unit interval, never control alerts, and there is one for a revision and a model.\<close>

definition shadows_ok :: "evaluation_db \<Rightarrow> bool" where
  "shadows_ok db \<longleftrightarrow> distinct (map (\<lambda>r. (sh_feature_window_id r, sh_feature_revision r, sh_model_artifact_id r)) (ed_shadows db)) \<and>
     list_all (\<lambda>r. unit_range (sh_score r) \<and> unit_range (sh_confidence r) \<and> \<not> sh_controls_alerts r) (ed_shadows db)"

lemma shadow_fusion_score_unit: "unit_range (shadow_fusion_score cs w)"
  unfolding shadow_fusion_score_def Let_def by (rule round_to_unit) (simp add: unit_range_def)

lemma find_mem: "find P xs = Some x \<Longrightarrow> x \<in> set xs \<and> P x"
  by (induction xs) (auto split: if_splits)

lemma shadow_score_ok:
  assumes "shadow_score e as_uuid now artifact window revision latency g db = (r, db')" "shadows_ok db"
  shows "shadows_ok db' \<and> (\<forall>x. r = Inr x \<longrightarrow> x \<in> set (ed_shadows db'))"
  using assms unfolding shadow_score_def Let_def shadows_ok_def
  by (auto simp: shadow_fusion_score_unit find_None_iff unit_range_def [of "max 0 (min 1 x)" for x] dest: find_mem
      split: option.splits if_splits sum.splits py_exn.splits)


section \<open>An evaluation is final\<close>

text \<open>The foreign key of the ablations.\<close>

definition ablations_keyed :: "evaluation_db \<Rightarrow> bool" where
  "ablations_keyed db \<longleftrightarrow> ar_evaluation_id ` set (ed_ablations db) \<subseteq> er_evaluation_id ` set (ed_evaluations db)"

lemma evaluate_stored_answers:
  assumes "evaluate_stored e files now i rdb db = (Inr ev, db')"
  shows "(\<exists>r. existing_evaluation i db = Some r \<and> ev = load_evaluation r db \<and> db' = db) \<or>
    (existing_evaluation i db = None \<and> re_evaluation_id ev \<notin> er_evaluation_id ` set (ed_evaluations db) \<and> db' = store_evaluation e ev db \<and>
      (\<exists>h obs pf. ev = evaluate_replay e i h obs pf now))"
  using assms unfolding evaluate_stored_def Let_def
  by (auto split: option.splits if_splits manifest_file.splits)

lemma evaluate_stored_again:
  "map_of (rd_replays rdb) i = Some r \<Longrightarrow> existing_evaluation i db = Some row \<Longrightarrow> evaluate_stored e files now i rdb db = (Inr (load_evaluation row db), db)"
  by (simp add: evaluate_stored_def)

text \<open>Changes of everything an evaluation is computed from.\<close>

definition rescored :: "(uuid \<rightharpoonup> string) \<Rightarrow> (uuid \<times> int \<rightharpoonup> stored_revision) \<Rightarrow> score_row list \<Rightarrow> evaluation_db \<Rightarrow> evaluation_db" where
  "rescored ws rs ss db = db\<lparr>ed_windows := ws, ed_revisions := rs, ed_scores := ss\<rparr>"

lemma rescored_simps [simp]:
  "existing_evaluation i (rescored ws rs ss db) = existing_evaluation i db"
  "load_evaluation r (rescored ws rs ss db) = load_evaluation r db"
  by (simp_all add: rescored_def existing_evaluation_def load_evaluation_def)

lemma find_append_None: "find P xs = None \<Longrightarrow> find P (xs @ ys) = find P ys"
  by (induction xs) (auto split: if_splits)

lemma stored_then_loaded:
  assumes "existing_evaluation i db = None" "re_evaluation_id ev \<notin> er_evaluation_id ` set (ed_evaluations db)" "ablations_keyed db"
    and "ev = evaluate_replay e i h obs pf now"
  shows "existing_evaluation i (store_evaluation e ev db) = Some (evaluation_row_of ev)"
    "load_evaluation (evaluation_row_of ev) (store_evaluation e ev db) = ev\<lparr>re_ablations := sort_key ab_profile (re_ablations ev)\<rparr>"
proof -
  show "existing_evaluation i (store_evaluation e ev db) = Some (evaluation_row_of ev)"
    using find_append_None [OF assms(1) [unfolded existing_evaluation_def]] assms(4)
    by (simp add: existing_evaluation_def store_evaluation_def evaluation_row_of_def evaluate_replay_def Let_def)
  have "filter (\<lambda>a. ar_evaluation_id a = re_evaluation_id ev) (ed_ablations db) = []"
    unfolding filter_empty_conv using assms(2,3) unfolding ablations_keyed_def by (metis image_eqI subsetD)
  then have own: "filter (\<lambda>a. ar_evaluation_id a = re_evaluation_id ev) (ed_ablations (store_evaluation e ev db)) = ablation_rows_of e ev"
    by (auto simp: store_evaluation_def ablation_rows_of_def filter_id_conv)
  have "map ar_result (sort_key (\<lambda>a. (ar_generated_at a, ab_profile (ar_result a))) (ablation_rows_of e ev)) = sort_key ab_profile (re_ablations ev)"
  proof -
    have ins: "map ar_result (insort_key (\<lambda>a. (ar_generated_at a, ab_profile (ar_result a))) x xs) = insort_key ab_profile (ar_result x) (map ar_result xs)"
      if "ar_generated_at x = t" "list_all (\<lambda>a. ar_generated_at a = t) xs" for x t and xs :: "ablation_row list"
      using that by (induction xs) auto
    have "map ar_result (sort_key (\<lambda>a. (ar_generated_at a, ab_profile (ar_result a))) xs) = sort_key ab_profile (map ar_result xs)"
      if "list_all (\<lambda>a. ar_generated_at a = t) xs" for t and xs :: "ablation_row list"
      using that
    proof (induction xs)
      case (Cons x xs)
      then have "list_all (\<lambda>a. ar_generated_at a = t) (sort_key (\<lambda>a. (ar_generated_at a, ab_profile (ar_result a))) xs)" by (simp add: list_all_iff)
      with Cons ins [of x t] show ?case by simp
    qed simp
    from this [of "re_generated_at ev" "ablation_rows_of e ev"] show ?thesis
      by (simp add: ablation_rows_of_def list_all_iff comp_def)
  qed
  with own assms(4) show "load_evaluation (evaluation_row_of ev) (store_evaluation e ev db) = ev\<lparr>re_ablations := sort_key ab_profile (re_ablations ev)\<rparr>"
    by (simp add: load_evaluation_def evaluation_row_of_def evaluate_replay_def Let_def)
qed

lemma evaluated_profiles: "map ab_profile (re_ablations (evaluate_replay e i h obs pf now)) = map fst ABLATION_PROFILES"
  by (simp add: evaluate_replay_def Let_def ABLATION_PROFILES_def)

text \<open>C36. The first evaluation of a replay is final: once it is stored, an evaluation of the same replay gives its metrics
  again, whatever scores and feature revisions the replay has by then, so an evaluation requested before the replay
  has ended never counts the rest of it. The ablations come back in the alphabetical order of their profiles, not in the order their contributions were computed in.\<close>

theorem evaluation_final:
  assumes "evaluate_stored e files now i rdb db = (Inr ev, db')" "existing_evaluation i db = None" "ablations_keyed db"
    and "map_of (rd_replays rdb') i \<noteq> None"
  shows "evaluate_stored e files' now' i rdb' (rescored ws rs ss db') =
      (Inr (ev\<lparr>re_ablations := sort_key ab_profile (re_ablations ev)\<rparr>), rescored ws rs ss db') \<and>
    map ab_profile (re_ablations ev) = [''MARKET_ONLY'', ''MARKET_SOCIAL'', ''COORDINATION'', ''GRAPH'', ''VERIFICATION''] \<and>
    map ab_profile (sort_key ab_profile (re_ablations ev)) = [''COORDINATION'', ''GRAPH'', ''MARKET_ONLY'', ''MARKET_SOCIAL'', ''VERIFICATION'']"
proof -
  from evaluate_stored_answers [OF assms(1)] assms(2) obtain h obs pf where new: "re_evaluation_id ev \<notin> er_evaluation_id ` set (ed_evaluations db)"
    "db' = store_evaluation e ev db" "ev = evaluate_replay e i h obs pf now" by auto
  note loaded = stored_then_loaded [OF assms(2) new(1) assms(3) new(3)]
  from assms(4) obtain r where "map_of (rd_replays rdb') i = Some r" by blast
  from evaluate_stored_again [OF this, of "rescored ws rs ss db'" "evaluation_row_of ev" e files' now'] loaded new(2)
  have again: "evaluate_stored e files' now' i rdb' (rescored ws rs ss db') =
      (Inr (ev\<lparr>re_ablations := sort_key ab_profile (re_ablations ev)\<rparr>), rescored ws rs ss db')" by simp
  have order: "map ab_profile (re_ablations ev) = map fst ABLATION_PROFILES" unfolding new(3) by (rule evaluated_profiles)
  have "map ab_profile (sort_key ab_profile (re_ablations ev)) = sort (map ab_profile (re_ablations ev))"
    by (intro properties_for_sort [symmetric]) simp_all
  also have "\<dots> = [''COORDINATION'', ''GRAPH'', ''MARKET_ONLY'', ''MARKET_SOCIAL'', ''VERIFICATION'']"
    unfolding order by code_simp
  finally show ?thesis using again order by (simp add: ABLATION_PROFILES_def)
qed


definition timed_files :: manifest_files where
  "timed_files name = (if name = ''pump.yaml'' then Loaded (sample_manifest\<lparr>sm_timeline := [(''expected_volume_anomaly'', 100)]\<rparr>) else Missing_File)"

definition sample_score :: score_row where
  "sample_score = \<lparr>mo_model_score_id = ''m'', mo_feature_window_id = ''w'', mo_feature_revision = 1, mo_fusion_revision = 1, mo_evidence_cutoff = 50,
     mo_scored_at = 60, mo_severity = ''HIGH'', mo_confidence = 1 / 2, mo_market_score = Some (9 / 10), mo_social_score = Some (8 / 10),
     mo_coordination_score = None, mo_temporal_score = None, mo_claim_risk = None, mo_legitimate_event_score = None, mo_graph_score = None,
     mo_missing_outputs = [''graph'']\<rparr>"

definition scored_db :: evaluation_db where
  "scored_db = \<lparr>ed_windows = [''w'' \<mapsto> ''i''], ed_revisions = [(''w'', 1) \<mapsto> \<lparr>vr_features = Map.empty, vr_created_at = 55\<rparr>],
     ed_scores = [sample_score], ed_evaluations = [], ed_ablations = [], ed_shadows = []\<rparr>"

lemma scored_db_evaluates:
  "\<exists>ev db'. evaluate_stored sample_env timed_files 70 ''i'' sample_replays scored_db = (Inr ev, db')"
proof -
  have replay: "map_of (rd_replays sample_replays) ''i'' = Some (session_claimed 1 sample_session)" by (simp add: sample_replays_def)
  have fields: "rs_scope_id (session_claimed 1 sample_session) = ''i''" "rs_dataset_id (session_claimed 1 sample_session) = ''pump''"
    by (simp_all add: session_claimed_def sample_session_def)
  have rows: "scored_revisions ''i'' scored_db = [(sample_score, \<lparr>vr_features = Map.empty, vr_created_at = 55\<rparr>)]"
    by (simp add: scored_revisions_def scored_db_def sample_score_def)
  have valid: "valid_observation (score_observation_of (sample_score, \<lparr>vr_features = Map.empty, vr_created_at = 55\<rparr>))"
    by (simp add: valid_observation_def score_observation_of_def sample_score_def unit_range_def map_filter_simps)
  have loads: "load_scenario_manifest timed_files ''pump'' = Loaded (sample_manifest\<lparr>sm_timeline := [(''expected_volume_anomaly'', 100)]\<rparr>)"
    by (simp add: load_scenario_manifest_def timed_files_def)
  have "existing_evaluation ''i'' scored_db = None" "ed_evaluations scored_db = []" by (simp_all add: existing_evaluation_def scored_db_def)
  with replay fields rows valid loads show ?thesis by (simp add: evaluate_stored_def Let_def)
qed

theorem evaluation_final_witness:
  "\<exists>ev db'. evaluate_stored sample_env timed_files 70 ''i'' sample_replays scored_db = (Inr ev, db') \<and>
     fst (evaluate_stored sample_env timed_files 90 ''i'' sample_replays (rescored (ed_windows scored_db) (ed_revisions scored_db) [] db')) =
       Inr (ev\<lparr>re_ablations := sort_key ab_profile (re_ablations ev)\<rparr>)"
proof -
  obtain ev db' where ev: "evaluate_stored sample_env timed_files 70 ''i'' sample_replays scored_db = (Inr ev, db')"
    using scored_db_evaluates by blast
  moreover have "existing_evaluation ''i'' scored_db = None" "ablations_keyed scored_db" "map_of (rd_replays sample_replays) ''i'' \<noteq> None"
    by (simp_all add: existing_evaluation_def scored_db_def ablations_keyed_def sample_replays_def)
  from evaluation_final [OF ev this] show ?thesis using ev by (intro exI conjI) auto
qed

end
