(* ===== verification/Spec2Isabelle.thy ===== *)
theory Spec2Isabelle
  imports Fusion_Correct Campaign_Mem Campaign_Sql_Correct Market_Ingestion_Correct Stream_Worker Detection_Correct Circuit_Breaker Verification_Correct Calibration Notifications_Correct Outbox_Correct Narratives_Correct Social_Correct Evidence_Correct Investigations_Correct Rate_Limit Realtime_Correct Replays_Correct Model_Registry_Correct Evaluation_Store
begin

text \<open>
  Scam2Market watches market and social streams for coordinated manipulation of assets. This
  development models the Python package under \<open>src/src/scam2market\<close> and proves what its parts
  promise to each other.

  \<^bold>\<open>The program.\<close> Providers deliver market events and posts. Ingestion (\<open>ingestion/\<close>) checks,
  deduplicates and publishes them as canonical events (\<open>schemas/events.py\<close>). The stream worker joins
  them and turns them into feature signals (\<open>features/signals.py\<close>); the window engine
  (\<open>features/engine.py\<close>) keeps revisions of feature windows under watermarks. Detectors and the fusion
  engine (\<open>intelligence/\<close>) score a snapshot; the campaign stage machine and its repositories
  (\<open>campaigns/\<close>) turn scores into campaigns and alerts. Disclosures and narratives
  (\<open>verification/\<close>, \<open>narratives/\<close>) give the claims of a campaign a time-bounded verdict. Events leave
  through an outbox (\<open>streaming/outbox.py\<close>) and alerts reach people through notifications
  (\<open>notifications/service.py\<close>). Components interact by events: each theory below takes the
  events of the previous one, and a state that two calls share is a record both receive.

  \<^bold>\<open>Conventions\<close> (theory Prelude). Times are integers in microseconds, floats are reals (no rounding,
  no infinities), Python integers are unbounded, strings are ASCII. A raised exception is the left
  summand of \<open>'a res\<close>; an operation that keeps what it wrote before the exception returns the state
  beside the result, one that runs in a database transaction returns the old state. Clocks, hashes,
  random identifiers, serialization, the network and locks of other transactions are arguments.
  Dictionaries whose order matters are association lists. No definition needs fuel: loops are
  recursions on the lists they run over, and retries are sequences of steps.

  \<^bold>\<open>Theories and code.\<close>
  \<^item> Feature_Schema, Feature_Compute, Feature_Engine, Feature_Service, Signals: snapshots and their
    schema, the features of a window, \<open>FeatureWindowEngine\<close>, \<open>FeatureWindowService\<close>, the signals.
    Feature_Engine_Correct proves the invariant of the engine, finalization exactly at the watermark,
    the checkpoint round trip, and how a checkpoint can be poisoned.
  \<^item> Detectors, Fusion_Types, Fusion, Detection_Service: \<open>intelligence/detectors.py\<close> and
    \<open>intelligence/fusion.py\<close>. Fusion_Facts inverts each stage of \<open>FusionEngine.fuse\<close>; Fusion_Correct
    proves totality and the safety rules on severities; Detection_Correct that a score is stored and
    published once.
  \<^item> Campaign_Policy, Campaign_Store, Campaign_Mem, Campaign_Sql, Campaign_Sql_Correct:
    \<open>campaigns/policy.py\<close>, \<open>campaigns/repository.py\<close>, \<open>campaigns/service.py\<close>. The SQL repository is
    proved to refine the in-memory one, with its integrity, cooldown and error behaviour.
  \<^item> Events, Domain, Source_Quality, Guardrails, Batching, Market_Ingestion, Stream_Worker,
    Circuit_Breaker, with their correctness theories: the ingestion side, from the envelope to
    the join of posts and mentions, and the breaker that protects providers, as a step relation.
  \<^item> Ingest_Runs: the loop both ingestion services run over their deliveries, and the locale of its
    contract. Text_Guard, Social_Text, Social_Ingestion, Social_Correct: \<open>security/guardrails.py\<close> and
    \<open>ingestion/social.py\<close>. The injection patterns are searched by an executable matcher that is proved
    equal to the language of the patterns; a resolved mention is sound; a post is published once, with
    its author only as a pseudonym; what normalization after the guardrails lets through, and how a
    post is lost.
  \<^item> Json_Text, Claim_Text, Disclosures, Verification: \<open>verification/service.py\<close> and the in-memory
    half of \<open>verification/repository.py\<close>. The correctness theories prove that the versions of a
    document form a chain, that verdicts use no knowledge from after the alert, and that evidence is
    ranked, distinct and complete.
  \<^item> Calibration: \<open>model_governance/calibration.py\<close>, fitting and promotion checks.
  \<^item> Notifications, Notifications_Correct: \<open>notifications/service.py\<close> and its worker over the three
    tables; retries end after at most five attempts, and what a crash strands.
  \<^item> Outbox, Outbox_Correct: \<open>streaming/outbox.py\<close> over \<open>SqlOutboxRepository\<close>, any number of
    dispatchers as a step relation over their transactions: how often an event is published, in which
    order, and how one invalid envelope blocks its batch.
  \<^item> Narrative_Records, Clustering, Graph_Features, Narratives, with their correctness theories:
    \<open>narratives/clustering.py\<close>, \<open>narratives/graph.py\<close> and \<open>narratives/service.py\<close> over the in-memory
    repository, index and projector. Clusters partition the posts into coherent groups, features stay in
    their ranges, a window revision is stored once, and faults of the stores only degrade it.

  \<^item> Json_Dump, Evidence, Evidence_Capture, Evidence_Correct: \<open>evidence/service.py\<close>, \<open>evidence/repository.py\<close> and the
    evidence worker. The JSON text that is hashed determines its value; the snapshots of an alert form a hash chain
    that betrays any change, and which evidence a late event loses.
  \<^item> Access, Access_Admin, Access_Correct: \<open>security/auth.py\<close> and \<open>api/routes/auth.py\<close>. What a service key is good
    for and how long, who can write, and which role the adjudication of feedback is closed to. Rate_Limit:
    \<open>security/rate_limiter.py\<close>, the token bucket and its bound under every sequence of requests.
  \<^item> Investigations, Investigations_Correct: \<open>api/routes/evidence.py\<close> under concurrent requests: updates are
    serialized by versions, adjudications are not.
  \<^item> Replays, Replays_Correct: the replay routes of \<open>api/routes/evaluation.py\<close> and \<open>workers/replay_scheduler.py\<close>, any
    number of workers and crashes as a step relation: how often a session runs, and why a pause does not stop it.
    Evaluator, Evaluator_Correct: \<open>evaluation/service.py\<close>, ranges, order and safety of the metrics, independence of
    the order of observations, ablations that sum to the whole. Evaluation_Store: \<open>evaluation/repository.py\<close>, stored
    evaluations are final, shadow scores never control alerts.
  \<^item> Model_Registry, Model_Registry_Correct: artifacts, aliases, calibrations, promotions, drift and policy proposals
    (\<open>api/routes/model_governance.py\<close>, \<open>api/routes/operations.py\<close>): a champion stands in a promotion that passed, unless
    its alias was assigned by hand.
  \<^item> Realtime, Realtime_Correct: the in-memory broker of \<open>realtime.py\<close>, with the lists a subscriber and the publisher
    share: a reconnecting client misses nothing while the history is unbounded, and what it misses when it is not.

  \<^bold>\<open>Interfaces.\<close> The locales \<open>dedupe_store\<close> (Domain), \<open>once_handler\<close> (Ingest_Runs, for market and
  social ingestion), \<open>detector\<close> (Detectors), \<open>campaign_machine\<close>
  (Campaign_Policy) and \<open>candidate_source\<close> (Verification_Correct) state what a client needs of its provider; each is
  interpreted on the model's own definitions.

  \<^bold>\<open>Bounds.\<close> Times and amounts are unbounded as in Python. The limits of the code (five attempts, the
  delay of at most 900 seconds, the batch limits, 500 candidates) are written out where the code has
  them.

  \<^bold>\<open>Not modelled.\<close> The remaining FastAPI routes (\<open>api/routes/\<close> analyst, verification, intelligence, campaigns,
  health, notifications, surveillance), which read tables for display or repeat a modelled service; the
  clients of other services (\<open>intelligence/otx_client.py\<close>, \<open>intelligence/ollama.py\<close>, \<open>evaluation/mlflow.py\<close>,
  \<open>ingestion/live_providers.py\<close>, \<open>verification/connectors.py\<close>, Redis, Kafka, Qdrant and Neo4j), whose
  behaviour is that of the service; the loops of the workers, which never end and only call what is
  modelled; the database
  migrations and the declarative models of tables no modelled operation uses; logging, metrics,
  settings and the dashboard. The manifest lists each with its reason.
\<close>

end
